(* ===== verification/Prelude.thy ===== *)
theory Prelude
  imports Main "HOL-Library.List_Lexorder" "HOL-Library.Char_ord" "HOL-Library.Product_Lexorder"
    "HOL-Library.Sublist" "HOL-Library.Multiset" "HOL-Library.Word"
begin

text \<open>
  Shared ground of the development: Go errors as values, the functions of Go's
  packages strings, strconv and sort that the program calls, association lists
  for Go maps, and the generic lemmas about them.

  A Go string is a byte sequence, so it is a HOL \<open>string\<close> (a list of 8-bit
  characters), and Go's \<open><\<close> on strings is the lexicographic order of
  \<open>List_Lexorder\<close> over \<open>Char_ord\<close>.
\<close>

named_theorems go_string \<open>facts about the functions of package strings\<close>
named_theorems go_result \<open>facts about error-valued results\<close>

section \<open>Errors as values\<close>

text \<open>
  \<open>Errorf fmt args cause\<close> is the value of \<open>fmt.Errorf(fmt, args...)\<close>, with the
  wrapped error of a \<open>%w\<close> verb as its cause. \<open>Sentinel c what\<close> is an error of the
  operating system or of the API server that the code recognises by its code
  (\<open>errors.Is(err, os.ErrNotExist)\<close>, \<open>apierrors.IsConflict(err)\<close>).
\<close>

datatype errcode = ENOENT | EEXIST | ENOTDIR | EISDIR | ENOTEMPTY | EINVAL | ELOOP | EIO
  | ApiNotFound | ApiAlreadyExists | ApiConflict | OtherCode

datatype goerr = Errorf string "string list" "goerr option" | Sentinel errcode string

text \<open>\<open>errors.Is\<close> unwraps the causes of \<open>%w\<close> until it meets the code.\<close>

primrec errors_is :: "errcode \<Rightarrow> goerr \<Rightarrow> bool" where
  "errors_is c (Errorf f args cause) = (case map_option (errors_is c) cause of None \<Rightarrow> False | Some b \<Rightarrow> b)"
| "errors_is c (Sentinel c' what) = (c = c')"

type_synonym 'a result = "goerr + 'a"

abbreviation errorf :: "string \<Rightarrow> string list \<Rightarrow> goerr" where
  "errorf f args \<equiv> Errorf f args None"

abbreviation wrapf :: "string \<Rightarrow> string list \<Rightarrow> goerr \<Rightarrow> goerr" where
  "wrapf f args e \<equiv> Errorf f args (Some e)"

definition is_ok :: "'e + 'a \<Rightarrow> bool" where
  "is_ok r = (case r of Inl _ \<Rightarrow> False | Inr _ \<Rightarrow> True)"

lemma is_ok_simps [simp, go_result]: "is_ok (Inr x)" "\<not> is_ok (Inl e)"
  by (auto simp: is_ok_def)

lemma is_ok_iff [go_result]: "is_ok r \<longleftrightarrow> (\<exists>x. r = Inr x)"
  by (cases r) auto

text \<open>The loop idiom of the source: stop at the first error, collect otherwise.\<close>

fun map_result :: "('a \<Rightarrow> 'e + 'b) \<Rightarrow> 'a list \<Rightarrow> 'e + 'b list" where
  "map_result f [] = Inr []"
| "map_result f (x # xs) = (case f x of Inl e \<Rightarrow> Inl e
     | Inr y \<Rightarrow> (case map_result f xs of Inl e \<Rightarrow> Inl e | Inr ys \<Rightarrow> Inr (y # ys)))"

fun fold_result :: "('a \<Rightarrow> 's \<Rightarrow> 'e + 's) \<Rightarrow> 'a list \<Rightarrow> 's \<Rightarrow> 'e + 's" where
  "fold_result f [] s = Inr s"
| "fold_result f (x # xs) s = (case f x s of Inl e \<Rightarrow> Inl e | Inr t \<Rightarrow> fold_result f xs t)"

lemma map_result_Cons_Inr:
  "map_result f (x # xs) = Inr ys \<longleftrightarrow>
     (\<exists>z zs. ys = z # zs \<and> f x = Inr z \<and> map_result f xs = Inr zs)"
  by (auto split: sum.splits)

lemma map_result_Inr_iff [go_result]:
  "map_result f xs = Inr ys \<longleftrightarrow> list_all2 (\<lambda>x y. f x = Inr y) xs ys"
proof (induction xs arbitrary: ys)
  case (Cons x xs)
  show ?case
    unfolding map_result_Cons_Inr Cons.IH list_all2_Cons1 by blast
qed auto

lemma map_result_Inr_length: "map_result f xs = Inr ys \<Longrightarrow> length ys = length xs"
  by (simp add: map_result_Inr_iff list_all2_lengthD)

lemma fold_result_append [go_result]:
  "fold_result f (xs @ ys) s = (case fold_result f xs s of Inl e \<Rightarrow> Inl e | Inr t \<Rightarrow> fold_result f ys t)"
  by (induction xs arbitrary: s) (auto split: sum.splits)

lemma fold_result_invariant:
  assumes "fold_result f xs s = Inr t" and "I s"
    and "\<And>x s t. x \<in> set xs \<Longrightarrow> I s \<Longrightarrow> f x s = Inr t \<Longrightarrow> I t"
  shows "I t"
  using assms
proof (induction xs arbitrary: s)
  case (Cons x xs)
  then obtain u where u: "f x s = Inr u" "fold_result f xs u = Inr t"
    by (auto split: sum.splits)
  have "I u"
    using Cons.prems(3) [of x s u] Cons.prems(2) u(1) by simp
  then show ?case
    using Cons.IH [OF u(2)] Cons.prems(3) by (meson list.set_intros(2))
qed simp

section \<open>Package strings\<close>

definition slash :: char where "slash = CHR ''/''"

fun split_on :: "char \<Rightarrow> string \<Rightarrow> string list" where
  "split_on c [] = [[]]"
| "split_on c (x # xs) = (if x = c then [] # split_on c xs
     else (case split_on c xs of [] \<Rightarrow> [[x]] | y # ys \<Rightarrow> (x # y) # ys))"

fun join :: "string \<Rightarrow> string list \<Rightarrow> string" where
  "join sep [] = []"
| "join sep [x] = x"
| "join sep (x # y # ys) = x @ sep @ join sep (y # ys)"

definition has_prefix :: "string \<Rightarrow> string \<Rightarrow> bool" where
  "has_prefix s p = (take (length p) s = p)"

definition has_suffix :: "string \<Rightarrow> string \<Rightarrow> bool" where
  "has_suffix s p = (length p \<le> length s \<and> drop (length s - length p) s = p)"

fun contains_str :: "string \<Rightarrow> string \<Rightarrow> bool" where
  "contains_str [] p = (p = [])"
| "contains_str (x # xs) p = (has_prefix (x # xs) p \<or> contains_str xs p)"

definition trim_prefix :: "string \<Rightarrow> string \<Rightarrow> string" where
  "trim_prefix s p = (if has_prefix s p then drop (length p) s else s)"

definition trim_suffix :: "string \<Rightarrow> string \<Rightarrow> string" where
  "trim_suffix s p = (if has_suffix s p then take (length s - length p) s else s)"

definition trim_left :: "(char \<Rightarrow> bool) \<Rightarrow> string \<Rightarrow> string" where
  "trim_left P s = dropWhile P s"

definition trim_right :: "(char \<Rightarrow> bool) \<Rightarrow> string \<Rightarrow> string" where
  "trim_right P s = rev (dropWhile P (rev s))"

definition trim_by :: "(char \<Rightarrow> bool) \<Rightarrow> string \<Rightarrow> string" where
  "trim_by P s = trim_right P (trim_left P s)"

text \<open>ASCII white space, as \<open>strings.TrimSpace\<close> and \<open>strings.Fields\<close> see it.\<close>

definition is_space :: "char \<Rightarrow> bool" where
  "is_space c = (c \<in> {CHR '' '', CHR 0x09, CHR 0x0A, CHR 0x0B, CHR 0x0C, CHR 0x0D})"

definition trim_space :: "string \<Rightarrow> string" where
  "trim_space = trim_by is_space"

text \<open>\<open>strings.Cut\<close>: the text around the first separator, or \<open>None\<close>.\<close>

fun cut_char :: "char \<Rightarrow> string \<Rightarrow> (string \<times> string) option" where
  "cut_char c [] = None"
| "cut_char c (x # xs) = (if x = c then Some ([], xs)
     else (case cut_char c xs of None \<Rightarrow> None | Some (a, b) \<Rightarrow> Some (x # a, b)))"

definition lower_char :: "char \<Rightarrow> char" where
  "lower_char c = (if CHR ''A'' \<le> c \<and> c \<le> CHR ''Z'' then char_of (of_char c + 32 :: nat) else c)"

definition to_lower :: "string \<Rightarrow> string" where
  "to_lower s = map lower_char s"

definition is_digit :: "char \<Rightarrow> bool" where
  "is_digit c = (CHR ''0'' \<le> c \<and> c \<le> CHR ''9'')"

definition is_lower :: "char \<Rightarrow> bool" where
  "is_lower c = (CHR ''a'' \<le> c \<and> c \<le> CHR ''z'')"

definition digit_val :: "char \<Rightarrow> nat" where
  "digit_val c = of_char c - 48"

definition digit_char :: "nat \<Rightarrow> char" where
  "digit_char d = char_of (48 + d)"

fun dec_of_nat :: "nat \<Rightarrow> string" where
  "dec_of_nat n = (if n < 10 then [digit_char n] else dec_of_nat (n div 10) @ [digit_char (n mod 10)])"

declare dec_of_nat.simps [simp del]

definition dec_of_int :: "int \<Rightarrow> string" where
  "dec_of_int i = (if i < 0 then CHR ''-'' # dec_of_nat (nat (- i)) else dec_of_nat (nat i))"

fun nat_of_dec_acc :: "nat \<Rightarrow> string \<Rightarrow> nat option" where
  "nat_of_dec_acc acc [] = Some acc"
| "nat_of_dec_acc acc (c # cs) = (if is_digit c then nat_of_dec_acc (10 * acc + digit_val c) cs else None)"

definition nat_of_dec :: "string \<Rightarrow> nat option" where
  "nat_of_dec s = (if s = [] then None else nat_of_dec_acc 0 s)"

section \<open>Go maps as association lists\<close>

text \<open>
  A Go map is an association list without duplicate keys; where the source
  ranges over it, the list order is one of the iteration orders the language
  allows, so a statement for every list is a statement for every order.
\<close>

fun alist_put :: "'k \<Rightarrow> 'v \<Rightarrow> ('k \<times> 'v) list \<Rightarrow> ('k \<times> 'v) list" where
  "alist_put k v [] = [(k, v)]"
| "alist_put k v ((k', v') # m) = (if k = k' then (k, v) # m else (k', v') # alist_put k v m)"

definition alist_del :: "'k \<Rightarrow> ('k \<times> 'v) list \<Rightarrow> ('k \<times> 'v) list" where
  "alist_del k m = filter (\<lambda>p. fst p \<noteq> k) m"

definition alist_wf :: "('k \<times> 'v) list \<Rightarrow> bool" where
  "alist_wf m = distinct (map fst m)"

lemma map_of_alist_put [simp]: "map_of (alist_put k v m) = (map_of m)(k \<mapsto> v)"
  by (induction k v m rule: alist_put.induct) (auto simp: fun_upd_twist)

lemma map_of_alist_del [simp]: "map_of (alist_del k m) = (map_of m)(k := None)"
  unfolding alist_del_def by (induction m) (auto simp: fun_eq_iff)

lemma keys_alist_put [simp]: "fst ` set (alist_put k v m) = insert k (fst ` set m)"
  by (induction k v m rule: alist_put.induct) auto

lemma alist_wf_Nil [simp]: "alist_wf []"
  by (simp add: alist_wf_def)

lemma alist_wf_put [simp]: "alist_wf m \<Longrightarrow> alist_wf (alist_put k v m)"
proof (induction k v m rule: alist_put.induct)
  case (2 k v k' v' m)
  then show ?case
    using keys_alist_put [of k v m] by (auto simp: alist_wf_def)
qed (simp add: alist_wf_def)

lemma alist_wf_del [simp]: "alist_wf m \<Longrightarrow> alist_wf (alist_del k m)"
  unfolding alist_wf_def alist_del_def by (rule distinct_map_filter)

lemma alist_del_subset: "set (alist_del k m) \<subseteq> set m"
  by (auto simp: alist_del_def)

section \<open>Lemmas on strings\<close>

lemma split_on_nonempty [simp, go_string]: "split_on c s \<noteq> []"
  by (induction s) (auto split: list.splits)

lemma split_on_no_sep [go_string]: "p \<in> set (split_on c s) \<Longrightarrow> c \<notin> set p"
  by (induction s arbitrary: p) (auto split: list.splits if_splits)

lemma split_on_idle [go_string]: "c \<notin> set s \<Longrightarrow> split_on c s = [s]"
  by (induction s) auto

lemma split_on_append_sep [go_string]:
  "c \<notin> set a \<Longrightarrow> split_on c (a @ c # b) = a # split_on c b"
  by (induction a) auto

lemma join_split_on [simp, go_string]: "join [c] (split_on c s) = s"
proof (induction s)
  case (Cons x xs)
  have "join [c] ((x # y) # ys) = x # join [c] (y # ys)" for y ys
    by (cases ys) auto
  then show ?case
    using Cons split_on_nonempty [of c xs] by (cases "split_on c xs") auto
qed simp

lemma split_on_join [go_string]:
  "xs \<noteq> [] \<Longrightarrow> (\<forall>x\<in>set xs. c \<notin> set x) \<Longrightarrow> split_on c (join [c] xs) = xs"
  by (induction "[c]" xs rule: join.induct) (auto simp: split_on_idle split_on_append_sep)

lemma join_inj:
  "\<lbrakk>xs \<noteq> []; ys \<noteq> []; \<forall>x\<in>set xs. c \<notin> set x; \<forall>y\<in>set ys. c \<notin> set y;
    join [c] xs = join [c] ys\<rbrakk> \<Longrightarrow> xs = ys"
  by (metis split_on_join)

lemma join_append:
  "xs \<noteq> [] \<Longrightarrow> ys \<noteq> [] \<Longrightarrow> join sep (xs @ ys) = join sep xs @ sep @ join sep ys"
  by (induction sep xs rule: join.induct) (auto simp: neq_Nil_conv)

lemma set_join: "set (join sep xs) \<subseteq> set sep \<union> (\<Union>x\<in>set xs. set x)"
  by (induction sep xs rule: join.induct) auto

lemma set_split_on: "p \<in> set (split_on c s) \<Longrightarrow> set p \<subseteq> set s"
  by (induction s arbitrary: p) (fastforce split: list.splits if_splits)+

lemma has_prefix_iff [go_string]: "has_prefix s p \<longleftrightarrow> (\<exists>t. s = p @ t)"
  unfolding has_prefix_def by (metis append_eq_conv_conj)

lemma has_prefix_prefix [go_string]: "has_prefix s p \<longleftrightarrow> prefix p s"
  by (auto simp: has_prefix_iff prefix_def)

lemma has_suffix_iff [go_string]: "has_suffix s p \<longleftrightarrow> (\<exists>t. s = t @ p)"
proof
  show "\<exists>t. s = t @ p" if "has_suffix s p"
    using that unfolding has_suffix_def by (metis append_take_drop_id)
qed (auto simp: has_suffix_def)

lemma trim_prefix_append [simp, go_string]: "trim_prefix (p @ s) p = s"
  by (simp add: trim_prefix_def has_prefix_def)

lemma trim_suffix_append [simp, go_string]: "trim_suffix (s @ p) p = s"
  by (simp add: trim_suffix_def has_suffix_def)

lemma contains_char [go_string]: "contains_str s [c] \<longleftrightarrow> c \<in> set s"
  by (induction s) (auto simp: has_prefix_def)

lemma cut_char_None [go_string]: "cut_char c s = None \<longleftrightarrow> c \<notin> set s"
  by (induction s) (auto split: option.splits)

lemma cut_char_Some [go_string]:
  "cut_char c s = Some (a, b) \<longleftrightarrow> s = a @ c # b \<and> c \<notin> set a"
proof (induction s arbitrary: a)
  case (Cons x s)
  show ?case
  proof (cases "x = c")
    case False
    then have "cut_char c (x # s) = Some (a, b) \<longleftrightarrow> (\<exists>a'. a = x # a' \<and> cut_char c s = Some (a', b))"
      by (auto split: option.splits)
    then show ?thesis
      unfolding Cons.IH using False by (cases a) auto
  qed (cases a; auto)
qed simp

lemma set_trim_right: "set (trim_right P s) \<subseteq> set s"
  by (auto simp: trim_right_def dest: set_dropWhileD)

lemma set_trim_left: "set (trim_left P s) \<subseteq> set s"
  by (auto simp: trim_left_def dest: set_dropWhileD)

lemma trim_right_last: "trim_right P s \<noteq> [] \<Longrightarrow> \<not> P (last (trim_right P s))"
  unfolding trim_right_def by (simp add: last_rev hd_dropWhile)

lemma length_trim_right [simp]: "length (trim_right P s) \<le> length s"
  using length_dropWhile_le [of P "rev s"] by (simp add: trim_right_def)

lemma length_trim_left [simp]: "length (trim_left P s) \<le> length s"
  by (simp add: trim_left_def length_dropWhile_le)

lemma trim_right_prefix: "\<exists>t. s = trim_right P s @ t \<and> (\<forall>c\<in>set t. P c)"
proof -
  have "s = rev (dropWhile P (rev s)) @ rev (takeWhile P (rev s))"
    by (metis rev_append rev_rev_ident takeWhile_dropWhile_id)
  moreover have "\<forall>c\<in>set (rev (takeWhile P (rev s))). P c"
    by (auto dest: set_takeWhileD)
  ultimately show ?thesis
    unfolding trim_right_def by blast
qed

section \<open>Decimal numbers\<close>

lemma digit_char_digit [simp]: "d < 10 \<Longrightarrow> is_digit (digit_char d)"
  by (simp add: is_digit_def digit_char_def less_eq_char_def)

lemma digit_val_char [simp]: "d < 10 \<Longrightarrow> digit_val (digit_char d) = d"
  by (simp add: digit_val_def digit_char_def)

lemma nat_of_dec_acc_append:
  "nat_of_dec_acc a (xs @ ys) = (case nat_of_dec_acc a xs of None \<Rightarrow> None | Some b \<Rightarrow> nat_of_dec_acc b ys)"
  by (induction xs arbitrary: a) auto

lemma nat_of_dec_acc_dec_of_nat: "nat_of_dec_acc 0 (dec_of_nat n) = Some n"
  by (induction n rule: dec_of_nat.induct, subst dec_of_nat.simps)
    (auto simp: nat_of_dec_acc_append split: option.splits)

lemma dec_of_nat_nonempty [simp]: "dec_of_nat n \<noteq> []"
  by (subst dec_of_nat.simps) auto

lemma nat_of_dec_dec_of_nat [simp]: "nat_of_dec (dec_of_nat n) = Some n"
  by (simp add: nat_of_dec_def nat_of_dec_acc_dec_of_nat)

lemma dec_of_nat_digits: "c \<in> set (dec_of_nat n) \<Longrightarrow> is_digit c"
  by (induction n rule: dec_of_nat.induct, subst (asm) (2) dec_of_nat.simps) (auto split: if_splits)

lemma dec_of_nat_inj: "dec_of_nat m = dec_of_nat n \<longleftrightarrow> m = n"
  by (metis nat_of_dec_dec_of_nat option.inject)

section \<open>Sorting\<close>

lemma sort_key_perm_eq:
  assumes "mset xs = mset ys" and "inj_on f (set xs)"
  shows "sort_key f xs = sort_key f ys"
proof (rule properties_for_sort_key)
  have only_k: "filter (\<lambda>x. f k = f x) zs = replicate (count (mset zs) k) k"
    if "set zs = set xs" "k \<in> set xs" for zs k
  proof -
    have "filter (\<lambda>x. f k = f x) zs = filter (\<lambda>x. k = x) zs"
      using assms(2) that by (intro filter_cong) (auto dest: inj_onD)
    then show ?thesis
      by (simp add: count_mset count_list_eq_length_filter replicate_length_filter)
  qed
  show "mset (sort_key f ys) = mset xs"
    using assms(1) by simp
  show "filter (\<lambda>x. f k = f x) (sort_key f ys) = filter (\<lambda>x. f k = f x) xs"
    if "k \<in> set (sort_key f ys)" for k
    using that by (simp add: only_k assms(1) mset_eq_setD [OF assms(1), symmetric])
qed simp

lemma sort_perm_eq: "mset xs = mset ys \<Longrightarrow> sort xs = sort ys"
  by (rule properties_for_sort) auto

end
