(* ===== verification/Paths.thy ===== *)
theory Paths
  imports Prelude
begin

text \<open>
  Path strings: Go's \<open>path.Clean\<close>, \<open>path.Join\<close> and \<open>filepath.Rel\<close>, the path
  validation of the data plane (dataplane/snapshot.go), the destination paths of
  the controller (controller/helpers.go, controller/reconcilers.go), and the
  theorems that make the two sides agree: what the controller hands out is what
  the receiver accepts, and it stays inside the target root.
\<close>

section \<open>Package path\<close>

definition is_abs :: "string \<Rightarrow> bool" where
  "is_abs s = has_prefix s ''/''"

text \<open>
  \<open>path.Clean\<close> works on the segments between the slashes: it drops empty and dot
  segments and lets a dot-dot segment remove the segment before it; \<open>rooted\<close> is
  true for an absolute path, where dot-dot at the root has no effect.
\<close>

definition clean_step :: "bool \<Rightarrow> string list \<Rightarrow> string \<Rightarrow> string list" where
  "clean_step rooted out seg =
    (if seg = [] \<or> seg = ''.'' then out
     else if seg = ''..'' then
       (if out \<noteq> [] \<and> last out \<noteq> ''..'' then butlast out
        else if rooted then out else out @ [''..''])
     else out @ [seg])"

definition clean_segs :: "bool \<Rightarrow> string list \<Rightarrow> string list" where
  "clean_segs rooted segs = foldl (clean_step rooted) [] segs"

definition path_clean :: "string \<Rightarrow> string" where
  "path_clean s = (if s = [] then ''.''
     else let body = join ''/'' (clean_segs (is_abs s) (split_on CHR ''/'' s))
          in if is_abs s then CHR ''/'' # body else if body = [] then ''.'' else body)"

definition path_join :: "string list \<Rightarrow> string" where
  "path_join elems = (let es = filter (\<lambda>e. e \<noteq> []) elems
     in if es = [] then [] else path_clean (join ''/'' es))"

text \<open>Absolute paths of the file system are lists of segments below the root directory.\<close>

type_synonym path = "string list"

definition abs_path :: "path \<Rightarrow> string \<Rightarrow> path" where
  "abs_path cwd s = (if is_abs s then clean_segs True (split_on CHR ''/'' s)
     else clean_segs True (cwd @ split_on CHR ''/'' s))"

definition path_below :: "path \<Rightarrow> string \<Rightarrow> path" where
  "path_below root rel = clean_segs True (root @ split_on CHR ''/'' rel)"

definition path_string :: "path \<Rightarrow> string" where
  "path_string p = CHR ''/'' # join ''/'' p"

text \<open>\<open>filepath.Rel\<close> of two cleaned absolute paths.\<close>

fun rel_segs :: "path \<Rightarrow> path \<Rightarrow> path" where
  "rel_segs (b # bs) (t # ts) = (if b = t then rel_segs bs ts else replicate (Suc (length bs)) ''..'' @ t # ts)"
| "rel_segs [] ts = ts"
| "rel_segs (b # bs) [] = replicate (Suc (length bs)) ''..''"

definition filepath_rel :: "path \<Rightarrow> path \<Rightarrow> string" where
  "filepath_rel base targ = (let r = rel_segs base targ in if r = [] then ''.'' else join ''/'' r)"

definition ensureInside :: "path \<Rightarrow> path \<Rightarrow> unit result" where
  "ensureInside root p = (let rel = filepath_rel root p
     in if rel = ''..'' \<or> has_prefix rel ''../''
        then Inl (errorf ''%s escapes root %s'' [path_string p, path_string root]) else Inr ())"

section \<open>Validation on the data plane\<close>

fun normalize_loop :: "string list \<Rightarrow> string list \<Rightarrow> string list result" where
  "normalize_loop cleaned [] = Inr cleaned"
| "normalize_loop cleaned (part # parts) =
    (if part = [] \<or> part = ''.'' then normalize_loop cleaned parts
     else if part = ''..'' then Inl (errorf ''path must stay below the target root'' [])
     else normalize_loop (cleaned @ [part]) parts)"

definition NormalizeRelativePath :: "string \<Rightarrow> string result" where
  "NormalizeRelativePath value =
    (if value = [] then Inl (errorf ''path is empty'' [])
     else if has_prefix value ''/'' then Inl (errorf ''absolute paths are not allowed'' [])
     else if contains_str value [CHR 0x5C] then Inl (errorf ''backslash path separators are not allowed'' [])
     else (case normalize_loop [] (split_on CHR ''/'' value) of
         Inl e \<Rightarrow> Inl e
       | Inr cleaned \<Rightarrow>
           if cleaned = [] then Inl (errorf ''path must contain at least one segment'' [])
           else Inr (join ''/'' cleaned)))"

definition NormalizeTargetSubpath :: "string \<Rightarrow> string result" where
  "NormalizeTargetSubpath value =
    (if value = [] \<or> value = ''.'' \<or> value = ''/'' then Inr [] else NormalizeRelativePath value)"

definition NormalizeDestinationPath :: "string \<Rightarrow> string \<Rightarrow> string result" where
  "NormalizeDestinationPath namespace destinationPath =
    (case NormalizeRelativePath namespace of
       Inl e \<Rightarrow> Inl (wrapf ''invalid namespace: %w'' [] e)
     | Inr ns \<Rightarrow>
         if contains_str ns ''/'' then Inl (errorf ''namespace must be a single path segment'' [])
         else if destinationPath = [] \<or> destinationPath = ''/'' then Inr ns
         else (case NormalizeRelativePath destinationPath of
             Inl e \<Rightarrow> Inl (wrapf ''invalid destination path: %w'' [] e)
           | Inr d \<Rightarrow> Inr (ns @ ''/'' @ d)))"

definition validateRunID :: "string \<Rightarrow> unit result" where
  "validateRunID runID =
    (if runID = [] then Inl (errorf ''run id is required'' [])
     else (case NormalizeRelativePath runID of
         Inl e \<Rightarrow> Inl (wrapf ''invalid run id %q: %w'' [runID] e)
       | Inr normalized \<Rightarrow>
           if normalized \<noteq> runID \<or> contains_str runID ''/''
              \<or> (\<exists>c\<in>set runID. c \<in> {CHR 0x0D, CHR 0x0A, CHR ''=''})
           then Inl (errorf ''invalid run id %q'' [runID]) else Inr ()))"

section \<open>Destination paths of the controller\<close>

definition cleanRelativePath :: "string \<Rightarrow> string result" where
  "cleanRelativePath value =
    (if value = [] \<or> value = ''/'' then Inr []
     else if is_abs value then Inl (errorf ''destination path %q must be relative'' [value])
     else if contains_str value [CHR 0x5C] then Inl (errorf (''destination path %q must use '' @ [CHR 0x27, CHR ''/'', CHR 0x27] @ '' separators'') [value])
     else if ''..'' \<in> set (split_on CHR ''/'' value)
       then Inl (errorf (''destination path %q must not contain '' @ [CHR 0x27] @ ''..'' @ [CHR 0x27]) [value])
     else let cleaned = path_clean value in if cleaned = ''.'' then Inr [] else Inr cleaned)"

definition cleanSnapshotPath :: "string \<Rightarrow> string result" where
  "cleanSnapshotPath value =
    (if value = [] then Inl (errorf ''snapshot path is required'' [])
     else if is_abs value then Inl (errorf ''snapshot path %q must be relative'' [value])
     else if contains_str value [CHR 0x5C] then Inl (errorf (''snapshot path %q must use '' @ [CHR 0x27, CHR ''/'', CHR 0x27] @ '' separators'') [value])
     else if ''..'' \<in> set (split_on CHR ''/'' value)
       then Inl (errorf (''snapshot path %q must not contain '' @ [CHR 0x27] @ ''..'' @ [CHR 0x27]) [value])
     else let cleaned = path_clean value
          in if cleaned = ''.'' then Inl (errorf ''snapshot path %q must name a directory'' [value])
             else Inr cleaned)"

definition effectiveDestinationPath :: "string \<Rightarrow> string \<Rightarrow> string result" where
  "effectiveDestinationPath sourceNamespace destinationPath =
    (if sourceNamespace = [] then Inl (errorf ''source namespace is required'' [])
     else if destinationPath = [] \<or> destinationPath = ''/'' then Inr sourceNamespace
     else (case cleanRelativePath destinationPath of
         Inl e \<Rightarrow> Inl e
       | Inr cleaned \<Rightarrow> Inr (path_join [sourceNamespace, cleaned])))"

definition effectiveMirrorDestinationPath :: "string \<Rightarrow> string result" where
  "effectiveMirrorDestinationPath destinationPath =
    (if destinationPath = [] \<or> destinationPath = ''/'' then Inr []
     else (case cleanRelativePath destinationPath of Inl e \<Rightarrow> Inl e | Inr cleaned \<Rightarrow> Inr cleaned))"

definition mirrorPathsOverlap :: "string \<Rightarrow> string \<Rightarrow> bool" where
  "mirrorPathsOverlap a b =
    (if a = [] \<or> b = [] then True
     else a = b \<or> has_prefix a (b @ ''/'') \<or> has_prefix b (a @ ''/''))"

definition mirrorOverlapPath :: "string \<Rightarrow> string \<Rightarrow> string" where
  "mirrorOverlapPath a b =
    (if a = [] \<or> b = [] then ''/''
     else if length a \<le> length b \<and> (a = b \<or> has_prefix b (a @ ''/'')) then a else b)"

section \<open>Plain segments\<close>

text \<open>A plain segment names an entry of its directory: no separator, not dot, not dot-dot.\<close>

definition plain_seg :: "string \<Rightarrow> bool" where
  "plain_seg s = (s \<noteq> [] \<and> s \<noteq> ''.'' \<and> s \<noteq> ''..'' \<and> CHR ''/'' \<notin> set s)"

abbreviation plain :: "path \<Rightarrow> bool" where
  "plain segs \<equiv> list_all plain_seg segs"

definition keep_segs :: "string list \<Rightarrow> string list" where
  "keep_segs segs = filter (\<lambda>s. s \<noteq> [] \<and> s \<noteq> ''.'') segs"

lemma plain_keep_split:
  "''..'' \<notin> set (split_on CHR ''/'' s) \<Longrightarrow> plain (keep_segs (split_on CHR ''/'' s))"
  by (auto simp: list_all_iff plain_seg_def keep_segs_def dest: split_on_no_sep)

lemma plain_no_sep: "plain segs \<Longrightarrow> \<forall>x\<in>set segs. CHR ''/'' \<notin> set x"
  by (auto simp: list_all_iff plain_seg_def)

lemma split_join_plain [simp]:
  "plain segs \<Longrightarrow> segs \<noteq> [] \<Longrightarrow> split_on CHR ''/'' (join ''/'' segs) = segs"
  by (simp add: plain_no_sep split_on_join)

lemma keep_plain [simp]: "plain segs \<Longrightarrow> keep_segs segs = segs"
  by (auto simp: keep_segs_def list_all_iff plain_seg_def)

lemma join_plain_nonempty: "plain segs \<Longrightarrow> segs \<noteq> [] \<Longrightarrow> join ''/'' segs \<noteq> []"
  by (cases segs; cases "tl segs") (auto simp: plain_seg_def)

lemma join_plain_dot: "plain segs \<Longrightarrow> segs \<noteq> [] \<Longrightarrow> join ''/'' segs \<noteq> ''.''"
proof
  assume a: "plain segs" "segs \<noteq> []" "join ''/'' segs = ''.''"
  then have "segs = split_on CHR ''/'' ''.''"
    by (metis split_join_plain)
  with a show False by (simp add: plain_seg_def)
qed

lemma join_plain_not_abs: "plain segs \<Longrightarrow> \<not> has_prefix (join ''/'' segs) ''/''"
proof (cases segs)
  case (Cons s ss)
  assume p: "plain segs"
  then obtain c cs where "s = c # cs" "c \<noteq> CHR ''/''"
    using Cons by (cases s) (auto simp: plain_seg_def)
  then show ?thesis
    using Cons by (cases ss) (auto simp: has_prefix_def)
qed (simp add: has_prefix_def)

lemma clean_segs_no_dotdot:
  assumes "''..'' \<notin> set segs"
  shows "clean_segs r segs = keep_segs segs"
proof -
  have "foldl (clean_step r) out segs = out @ keep_segs segs" for out
    using assms by (induction segs arbitrary: out) (auto simp: clean_step_def keep_segs_def)
  then show ?thesis
    by (simp add: clean_segs_def)
qed

lemma clean_segs_plain [simp]: "plain segs \<Longrightarrow> clean_segs r segs = segs"
  by (subst clean_segs_no_dotdot) (auto simp: list_all_iff plain_seg_def)

lemma path_clean_plain:
  assumes "plain segs" "segs \<noteq> []"
  shows "path_clean (join ''/'' segs) = join ''/'' segs"
  using assms join_plain_nonempty [OF assms] join_plain_not_abs [OF assms(1)]
  by (simp add: path_clean_def Let_def is_abs_def)

lemma path_below_plain [simp]:
  "plain root \<Longrightarrow> plain segs \<Longrightarrow> segs \<noteq> [] \<Longrightarrow> path_below root (join ''/'' segs) = root @ segs"
  by (simp add: path_below_def)

lemma rel_segs_below [simp]: "rel_segs root (root @ segs) = segs"
  by (induction root) (cases segs; simp)+

lemma path_join_plain:
  assumes "plain a" "plain b" "a \<noteq> []"
  shows "path_join [join ''/'' a, join ''/'' b] = join ''/'' (a @ b)"
proof (cases "b = []")
  case True
  then show ?thesis
    using assms path_clean_plain [of a] join_plain_nonempty [of a] by (simp add: path_join_def)
next
  case False
  then have "join ''/'' [join ''/'' a, join ''/'' b] = join ''/'' (a @ b)"
    using assms by (simp add: join_append)
  then show ?thesis
    using assms False path_clean_plain [of "a @ b"] join_plain_nonempty [of a] join_plain_nonempty [of b]
    by (simp add: path_join_def)
qed

section \<open>The validators accept exactly the relative paths without dot-dot\<close>

lemma join_keep_no_char:
  "c \<noteq> CHR ''/'' \<Longrightarrow> c \<notin> set v \<Longrightarrow> c \<notin> set (join ''/'' (keep_segs (split_on CHR ''/'' v)))"
  using set_join [of "''/''" "keep_segs (split_on CHR ''/'' v)"]
  by (auto simp: keep_segs_def dest: set_split_on)

lemma normalize_loop_eq:
  "normalize_loop acc segs = (if ''..'' \<in> set segs then Inl (errorf ''path must stay below the target root'' [])
     else Inr (acc @ keep_segs segs))"
  by (induction acc segs rule: normalize_loop.induct) (auto simp: keep_segs_def)

lemma NormalizeRelativePath_Inr_iff:
  "NormalizeRelativePath v = Inr p \<longleftrightarrow>
     v \<noteq> [] \<and> \<not> is_abs v \<and> CHR 0x5C \<notin> set v \<and> ''..'' \<notin> set (split_on CHR ''/'' v)
     \<and> keep_segs (split_on CHR ''/'' v) \<noteq> [] \<and> p = join ''/'' (keep_segs (split_on CHR ''/'' v))"
  by (auto simp: NormalizeRelativePath_def normalize_loop_eq is_abs_def contains_char)

lemma cleanRelativePath_Inr_iff:
  "cleanRelativePath v = Inr p \<longleftrightarrow>
     (if v = [] \<or> v = ''/'' then p = []
      else \<not> is_abs v \<and> CHR 0x5C \<notin> set v \<and> ''..'' \<notin> set (split_on CHR ''/'' v)
        \<and> p = join ''/'' (keep_segs (split_on CHR ''/'' v)))"
proof (cases "v = [] \<or> v = ''/''")
  case False
  show ?thesis
  proof (cases "is_abs v \<or> CHR 0x5C \<in> set v \<or> ''..'' \<in> set (split_on CHR ''/'' v)")
    case ok: False
    let ?k = "keep_segs (split_on CHR ''/'' v)"
    have p: "plain ?k"
      using ok by (intro plain_keep_split) auto
    have "path_clean v = (if ?k = [] then ''.'' else join ''/'' ?k)"
      using ok False p by (auto simp: path_clean_def clean_segs_no_dotdot Let_def join_plain_nonempty)
    then show ?thesis
      using ok False p join_plain_dot [of ?k] by (auto simp: cleanRelativePath_def contains_char)
  qed (use False in \<open>auto simp: cleanRelativePath_def contains_char\<close>)
qed (auto simp: cleanRelativePath_def)

lemma NormalizeRelativePath_plain:
  assumes "NormalizeRelativePath v = Inr p"
  obtains segs where "plain segs" "segs \<noteq> []" "p = join ''/'' segs" "segs = keep_segs (split_on CHR ''/'' v)"
  using assms plain_keep_split [of v] by (auto simp: NormalizeRelativePath_Inr_iff)

lemma cleanRelativePath_plain:
  assumes "cleanRelativePath v = Inr p"
  obtains segs where "plain segs" "p = join ''/'' segs" "CHR 0x5C \<notin> set p"
proof (cases "v = [] \<or> v = ''/''")
  case True
  then show thesis
    using assms that [of "[]"] by (auto simp: cleanRelativePath_Inr_iff)
next
  case False
  then have *: "CHR 0x5C \<notin> set v" "''..'' \<notin> set (split_on CHR ''/'' v)"
    "p = join ''/'' (keep_segs (split_on CHR ''/'' v))"
    using assms by (auto simp: cleanRelativePath_Inr_iff)
  have "CHR 0x5C \<notin> set (join ''/'' (keep_segs (split_on CHR ''/'' v)))"
    using *(1) by (simp add: join_keep_no_char)
  then show thesis
    using that [OF plain_keep_split [OF *(2)]] * by auto
qed

lemma plain_join_iff:
  assumes "plain a" "plain b"
  shows "join ''/'' a = join ''/'' b \<longleftrightarrow> a = b"
  by (metis assms join.simps(1) join_plain_nonempty split_join_plain)

section \<open>Agreement of controller and data plane\<close>

text \<open>The controller's cleaning and the data plane's normalisation accept the same
  relative paths and compute the same result, wherever the result names a path.\<close>

theorem normalize_agrees_with_clean:
  "NormalizeRelativePath v = Inr p \<longleftrightarrow> cleanRelativePath v = Inr p \<and> p \<noteq> []"
proof -
  have "keep_segs (split_on CHR ''/'' v) \<noteq> [] \<longleftrightarrow> join ''/'' (keep_segs (split_on CHR ''/'' v)) \<noteq> []"
    if "''..'' \<notin> set (split_on CHR ''/'' v)"
    using plain_keep_split [OF that] join_plain_nonempty by auto
  moreover have "keep_segs (split_on CHR ''/'' ''/'') = []"
    by (simp add: keep_segs_def)
  ultimately show ?thesis
    unfolding NormalizeRelativePath_Inr_iff cleanRelativePath_Inr_iff by auto
qed

lemma normalize_idempotent:
  assumes "NormalizeRelativePath v = Inr p"
  shows "NormalizeRelativePath p = Inr p"
proof -
  obtain segs where s: "plain segs" "segs \<noteq> []" "p = join ''/'' segs"
    using assms by (rule NormalizeRelativePath_plain)
  have "CHR 0x5C \<notin> set p"
    using assms by (auto simp: NormalizeRelativePath_Inr_iff join_keep_no_char)
  then show ?thesis
    using s join_plain_nonempty [of segs] join_plain_not_abs [of segs]
    by (auto simp: NormalizeRelativePath_Inr_iff is_abs_def list_all_iff plain_seg_def)
qed

lemma cleanSnapshotPath_eq_normalize:
  "cleanSnapshotPath v = Inr p \<longleftrightarrow> NormalizeRelativePath v = Inr p"
proof (cases "is_abs v \<or> CHR 0x5C \<in> set v \<or> ''..'' \<in> set (split_on CHR ''/'' v) \<or> v = []")
  case False
  let ?k = "keep_segs (split_on CHR ''/'' v)"
  have p: "plain ?k"
    using False by (intro plain_keep_split) auto
  have "path_clean v = (if ?k = [] then ''.'' else join ''/'' ?k)"
    using False p by (auto simp: path_clean_def clean_segs_no_dotdot Let_def join_plain_nonempty)
  then show ?thesis
    using False p join_plain_dot [of ?k]
    by (auto simp: cleanSnapshotPath_def contains_char NormalizeRelativePath_Inr_iff)
qed (auto simp: cleanSnapshotPath_def NormalizeRelativePath_Inr_iff contains_char)

section \<open>Containment\<close>

lemma ensureInside_below [simp]: "plain segs \<Longrightarrow> ensureInside root (root @ segs) = Inr ()"
proof (cases segs)
  case (Cons s ss)
  assume p: "plain segs"
  have "join ''/'' segs \<noteq> ''..''"
  proof
    assume "join ''/'' segs = ''..''"
    then have "segs = split_on CHR ''/'' ''..''"
      using p Cons by (metis list.distinct(1) split_join_plain)
    with p show False by (simp add: plain_seg_def)
  qed
  moreover have "\<not> has_prefix (join ''/'' segs) ''../''"
  proof
    assume "has_prefix (join ''/'' segs) ''../''"
    then obtain t where "join ''/'' segs = ''..'' @ CHR ''/'' # t"
      by (auto simp: has_prefix_iff)
    then have "segs = ''..'' # split_on CHR ''/'' t"
      using split_join_plain [OF p] Cons by (simp add: split_on_append_sep)
    with p show False
      by (simp add: plain_seg_def)
  qed
  ultimately show ?thesis
    using Cons by (simp add: ensureInside_def filepath_rel_def)
qed (simp add: ensureInside_def filepath_rel_def has_prefix_def rel_segs_below [of root "[]", simplified])

lemma path_below_normalized:
  assumes "plain root" and "NormalizeRelativePath v = Inr p"
  shows "path_below root v = root @ split_on CHR ''/'' p" "plain (split_on CHR ''/'' p)"
proof -
  obtain segs where s: "plain segs" "segs \<noteq> []" "p = join ''/'' segs" "segs = keep_segs (split_on CHR ''/'' v)"
    using assms(2) by (rule NormalizeRelativePath_plain)
  have "''..'' \<notin> set (root @ split_on CHR ''/'' v)"
    using assms by (auto simp: NormalizeRelativePath_Inr_iff list_all_iff plain_seg_def)
  then have "path_below root v = keep_segs root @ segs"
    using s(4) by (simp add: path_below_def clean_segs_no_dotdot keep_segs_def)
  then show "path_below root v = root @ split_on CHR ''/'' p" "plain (split_on CHR ''/'' p)"
    using s assms(1) by simp_all
qed

text \<open>A normalised path resolved against the target root is a proper descendant of
  the root, and passes the containment check.\<close>

theorem normalized_path_stays_inside:
  assumes "plain root" and "NormalizeRelativePath v = Inr p"
  shows "path_below root v = root @ split_on CHR ''/'' p \<and> plain (split_on CHR ''/'' p)
    \<and> split_on CHR ''/'' p \<noteq> [] \<and> ensureInside root (path_below root v) = Inr ()"
  using path_below_normalized [OF assms] by simp

theorem normalized_path_stays_inside_witness:
  "path_below [''backup''] ''./ns//app/'' = [''backup'', ''ns'', ''app'']"
proof -
  have n: "NormalizeRelativePath ''./ns//app/'' = Inr ''ns/app''"
    by code_simp
  have "plain [''backup'']"
    by (simp add: plain_seg_def)
  from normalized_path_stays_inside [OF this n] show ?thesis
    by simp
qed

lemma normalize_join_plain:
  assumes "plain segs" "segs \<noteq> []" "CHR 0x5C \<notin> set (join ''/'' segs)"
  shows "NormalizeRelativePath (join ''/'' segs) = Inr (join ''/'' segs)"
  using assms join_plain_nonempty [of segs] join_plain_not_abs [of segs]
  by (auto simp: NormalizeRelativePath_Inr_iff is_abs_def list_all_iff plain_seg_def)

lemma validateRunID_plain:
  assumes "validateRunID r = Inr ()"
  shows "plain_seg r" "CHR 0x5C \<notin> set r"
proof -
  obtain n where n: "NormalizeRelativePath r = Inr n" "n = r" "CHR ''/'' \<notin> set r"
    using assms by (auto simp: validateRunID_def contains_char split: sum.splits if_splits)
  then obtain segs where s: "plain segs" "segs \<noteq> []" "r = join ''/'' segs"
    by (auto elim: NormalizeRelativePath_plain)
  then have "segs = [r]"
    by (metis n(3) split_join_plain split_on_idle)
  then show "plain_seg r"
    using s(1) by simp
  show "CHR 0x5C \<notin> set r"
    using n by (auto simp: NormalizeRelativePath_Inr_iff)
qed

lemma validateRunID_ok:
  assumes "plain_seg r" "\<forall>c\<in>set r. c \<notin> {CHR 0x5C, CHR 0x0D, CHR 0x0A, CHR ''=''}"
  shows "validateRunID r = Inr ()"
proof -
  have "NormalizeRelativePath r = Inr r"
    using normalize_join_plain [of "[r]"] assms by auto
  then show ?thesis
    using assms by (auto simp: validateRunID_def plain_seg_def contains_char)
qed

end
