(* ===== verification/File_System.thy ===== *)
theory File_System
  imports Paths
begin

text \<open>
  The file system of the target volume, as the calls of package os used by the
  data plane see it: directories, regular files with hard links, symbolic links
  (followed during resolution, at most 40 of them, as Linux does), special
  files. A failing device is modelled by a budget of mutating steps: when it is
  used up, every further mutating call fails with EIO. Modification times, owners
  and permission bits are not part of the state.
\<close>

datatype node = DirN | FileN nat | LinkN string | SpecialN

record fs =
  fs_tree :: "(path \<times> node) list"
  fs_data :: "(nat \<times> string) list"
  fs_io :: "nat option"

type_synonym 'a io = "'a result \<times> fs"

section \<open>Lookup and resolution\<close>

definition lookup :: "fs \<Rightarrow> path \<Rightarrow> node option" where
  "lookup f p = (if p = [] then Some DirN else map_of (fs_tree f) p)"

definition max_symlinks :: nat where "max_symlinks = 40"

function resolve :: "nat \<Rightarrow> fs \<Rightarrow> bool \<Rightarrow> path \<Rightarrow> string list \<Rightarrow> path result" where
  "resolve n f follow cur [] = Inr cur"
| "resolve n f follow cur (s # rest) =
    (if s = [] \<or> s = ''.'' then resolve n f follow cur rest
     else if s = ''..'' then resolve n f follow (butlast cur) rest
     else (case lookup f (cur @ [s]) of
         None \<Rightarrow> if rest = [] then Inr (cur @ [s]) else Inl (Sentinel ENOENT s)
       | Some DirN \<Rightarrow> resolve n f follow (cur @ [s]) rest
       | Some (LinkN t) \<Rightarrow>
           if rest = [] \<and> \<not> follow then Inr (cur @ [s])
           else (case n of 0 \<Rightarrow> Inl (Sentinel ELOOP s)
             | Suc m \<Rightarrow> resolve m f follow (if is_abs t then [] else cur) (split_on CHR ''/'' t @ rest))
       | Some _ \<Rightarrow> if rest = [] then Inr (cur @ [s]) else Inl (Sentinel ENOTDIR s)))"
  by pat_completeness auto
termination
  by (relation "measures [\<lambda>(n, f, fl, cur, rest). n, \<lambda>(n, f, fl, cur, rest). length rest]") auto

definition os_stat_gen :: "bool \<Rightarrow> fs \<Rightarrow> path \<Rightarrow> node result" where
  "os_stat_gen follow f p = (case resolve max_symlinks f follow [] p of
      Inl e \<Rightarrow> Inl e
    | Inr q \<Rightarrow> (case lookup f q of None \<Rightarrow> Inl (Sentinel ENOENT ''stat'') | Some nd \<Rightarrow> Inr nd))"

definition os_stat :: "fs \<Rightarrow> path \<Rightarrow> node result" where
  "os_stat = os_stat_gen True"

definition os_lstat :: "fs \<Rightarrow> path \<Rightarrow> node result" where
  "os_lstat = os_stat_gen False"

definition os_readlink :: "fs \<Rightarrow> path \<Rightarrow> string result" where
  "os_readlink f p = (case os_lstat f p of Inl e \<Rightarrow> Inl e | Inr (LinkN t) \<Rightarrow> Inr t
     | Inr _ \<Rightarrow> Inl (Sentinel EINVAL ''readlink''))"

definition children :: "fs \<Rightarrow> path \<Rightarrow> (string \<times> node) list" where
  "children f d = sort_key fst (map (\<lambda>(q, nd). (last q, nd))
     (filter (\<lambda>(q, nd). q \<noteq> [] \<and> butlast q = d) (fs_tree f)))"

text \<open>\<open>os.ReadDir\<close>: the entries of a directory, sorted by name; an entry's kind is its own.\<close>

definition os_readdir :: "fs \<Rightarrow> path \<Rightarrow> (string \<times> node) list result" where
  "os_readdir f p = (case resolve max_symlinks f True [] p of
      Inl e \<Rightarrow> Inl e
    | Inr q \<Rightarrow> (case lookup f q of
          None \<Rightarrow> Inl (Sentinel ENOENT ''open'')
        | Some DirN \<Rightarrow> Inr (children f q)
        | Some _ \<Rightarrow> Inl (Sentinel ENOTDIR ''readdirent'')))"

definition os_read_file :: "fs \<Rightarrow> path \<Rightarrow> string result" where
  "os_read_file f p = (case os_stat f p of Inl e \<Rightarrow> Inl e
     | Inr (FileN i) \<Rightarrow> Inr (case map_of (fs_data f) i of None \<Rightarrow> [] | Some d \<Rightarrow> d)
     | Inr DirN \<Rightarrow> Inl (Sentinel EISDIR ''read'')
     | Inr _ \<Rightarrow> Inl (Sentinel EINVAL ''read''))"

section \<open>Mutating calls\<close>

definition with_io :: "(fs \<Rightarrow> 'a io) \<Rightarrow> fs \<Rightarrow> 'a io" where
  "with_io g f = (case fs_io f of None \<Rightarrow> g f
     | Some 0 \<Rightarrow> (Inl (Sentinel EIO ''input/output error''), f)
     | Some (Suc k) \<Rightarrow> g (f\<lparr>fs_io := Some k\<rparr>))"

definition add_node :: "path \<Rightarrow> node \<Rightarrow> fs \<Rightarrow> fs" where
  "add_node p nd f = f\<lparr>fs_tree := (p, nd) # fs_tree f\<rparr>"

definition del_nodes :: "(path \<Rightarrow> bool) \<Rightarrow> fs \<Rightarrow> fs" where
  "del_nodes P f = f\<lparr>fs_tree := filter (\<lambda>(q, nd). \<not> P q) (fs_tree f)\<rparr>"

text \<open>Creating an entry fails when the name is taken or its directory is missing.\<close>

definition os_create :: "fs \<Rightarrow> path \<Rightarrow> node \<Rightarrow> unit io" where
  "os_create f p nd = (case resolve max_symlinks f False [] p of
      Inl e \<Rightarrow> (Inl e, f)
    | Inr q \<Rightarrow> (case lookup f q of
          Some _ \<Rightarrow> (Inl (Sentinel EEXIST ''file exists''), f)
        | None \<Rightarrow> with_io (\<lambda>f. (Inr (), add_node q nd f)) f))"

definition os_mkdir :: "fs \<Rightarrow> path \<Rightarrow> unit io" where
  "os_mkdir f p = os_create f p DirN"

definition os_symlink :: "fs \<Rightarrow> string \<Rightarrow> path \<Rightarrow> unit io" where
  "os_symlink f target p = os_create f p (LinkN target)"

definition os_link :: "fs \<Rightarrow> path \<Rightarrow> path \<Rightarrow> unit io" where
  "os_link f old new = (case os_lstat f old of
      Inl e \<Rightarrow> (Inl e, f)
    | Inr DirN \<Rightarrow> (Inl (Sentinel EINVAL ''operation not permitted''), f)
    | Inr nd \<Rightarrow> os_create f new nd)"

fun os_mkdir_all :: "fs \<Rightarrow> path \<Rightarrow> unit io" where
  "os_mkdir_all f p = (case os_stat f p of
      Inr DirN \<Rightarrow> (Inr (), f)
    | Inr _ \<Rightarrow> (Inl (Sentinel ENOTDIR ''mkdir''), f)
    | Inl _ \<Rightarrow>
        (case (if length p \<le> 1 then (Inr (), f) else os_mkdir_all f (butlast p)) of
           (Inl e, f') \<Rightarrow> (Inl e, f')
         | (Inr _, f') \<Rightarrow> (case os_mkdir f' p of
               (Inr _, f'') \<Rightarrow> (Inr (), f'')
             | (Inl e, f'') \<Rightarrow> (case os_lstat f'' p of Inr DirN \<Rightarrow> (Inr (), f'') | _ \<Rightarrow> (Inl e, f'')))))"

declare os_mkdir_all.simps [simp del]

definition os_remove :: "fs \<Rightarrow> path \<Rightarrow> unit io" where
  "os_remove f p = (case resolve max_symlinks f False [] p of
      Inl e \<Rightarrow> (Inl e, f)
    | Inr q \<Rightarrow> (case lookup f q of
          None \<Rightarrow> (Inl (Sentinel ENOENT ''remove''), f)
        | Some nd \<Rightarrow>
            if q = [] \<or> nd = DirN \<and> children f q \<noteq> [] then (Inl (Sentinel ENOTEMPTY ''remove''), f)
            else with_io (\<lambda>f. (Inr (), del_nodes (\<lambda>x. x = q) f)) f))"

text \<open>
  \<open>os.RemoveAll\<close> removes the entries below a path one by one, children before
  their directory, and does not follow a link at the path; a missing path is no error.
\<close>

definition subtree_paths :: "fs \<Rightarrow> path \<Rightarrow> path list" where
  "subtree_paths f p = sort (filter (prefix p) (map fst (fs_tree f)))"

definition os_remove_all :: "fs \<Rightarrow> path \<Rightarrow> unit io" where
  "os_remove_all f p = (case resolve max_symlinks f False [] p of
      Inl e \<Rightarrow> if errors_is ENOENT e then (Inr (), f) else (Inl e, f)
    | Inr q \<Rightarrow> (let victims = rev (subtree_paths f q) in
        case fs_io f of
          None \<Rightarrow> (Inr (), del_nodes (prefix q) f)
        | Some k \<Rightarrow> if length victims \<le> k
            then (Inr (), (del_nodes (prefix q) f)\<lparr>fs_io := Some (k - length victims)\<rparr>)
            else (Inl (Sentinel EIO ''input/output error''),
                  (del_nodes (\<lambda>x. x \<in> set (take k victims)) f)\<lparr>fs_io := Some 0\<rparr>)))"

text \<open>\<open>os.Rename\<close> never replaces a directory: Go tests the new name first.\<close>

definition move_path :: "path \<Rightarrow> path \<Rightarrow> path \<Rightarrow> path" where
  "move_path a b p = (if prefix a p then b @ drop (length a) p else p)"

definition os_rename :: "fs \<Rightarrow> path \<Rightarrow> path \<Rightarrow> unit io" where
  "os_rename f old new = (case resolve max_symlinks f False [] old of
      Inl e \<Rightarrow> (Inl e, f)
    | Inr a \<Rightarrow> (case lookup f a of
        None \<Rightarrow> (Inl (Sentinel ENOENT ''rename''), f)
      | Some nd \<Rightarrow> (case resolve max_symlinks f False [] new of
          Inl e \<Rightarrow> (Inl e, f)
        | Inr b \<Rightarrow>
            if lookup f b = Some DirN then (Inl (Sentinel EEXIST ''rename''), f)
            else if a = b then (Inr (), f)
            else if prefix a b then (Inl (Sentinel EINVAL ''rename''), f)
            else if nd = DirN \<and> lookup f b \<noteq> None then (Inl (Sentinel ENOTDIR ''rename''), f)
            else with_io (\<lambda>f. (Inr (), f\<lparr>fs_tree := map (\<lambda>(p, n). (move_path a b p, n))
                   (filter (\<lambda>(p, n). p \<noteq> b) (fs_tree f))\<rparr>)) f)))"

text \<open>\<open>os.OpenFile\<close> with \<open>O_CREATE|O_EXCL\<close>, and the write of a whole file.\<close>

definition fresh_inode :: "fs \<Rightarrow> nat" where
  "fresh_inode f = Suc (sum_list (map fst (fs_data f)))"

definition os_create_excl :: "fs \<Rightarrow> path \<Rightarrow> unit io" where
  "os_create_excl f p = (let i = fresh_inode f in
     case os_create f p (FileN i) of
       (Inl e, f') \<Rightarrow> (Inl e, f')
     | (Inr _, f') \<Rightarrow> (Inr (), f'\<lparr>fs_data := (i, []) # fs_data f'\<rparr>))"

definition os_write_file :: "fs \<Rightarrow> path \<Rightarrow> string \<Rightarrow> unit io" where
  "os_write_file f p data = (case os_stat f p of
      Inl e \<Rightarrow> (Inl e, f)
    | Inr (FileN i) \<Rightarrow> with_io (\<lambda>f. (Inr (), f\<lparr>fs_data := alist_put i data (fs_data f)\<rparr>)) f
    | Inr _ \<Rightarrow> (Inl (Sentinel EISDIR ''write''), f))"

section \<open>Well-formed trees\<close>

text \<open>Every entry has one node, a plain name, and a directory as its parent.\<close>

definition fs_wf :: "fs \<Rightarrow> bool" where
  "fs_wf f = (distinct (map fst (fs_tree f)) \<and>
     (\<forall>p\<in>set (map fst (fs_tree f)). p \<noteq> [] \<and> plain p \<and> lookup f (butlast p) = Some DirN))"

definition nolink :: "fs \<Rightarrow> path \<Rightarrow> bool" where
  "nolink f p = (\<forall>q t. prefix q p \<longrightarrow> lookup f q \<noteq> Some (LinkN t))"

lemma lookup_Nil [simp]: "lookup f [] = Some DirN"
  by (simp add: lookup_def)

lemma lookup_Some_set:
  "p \<noteq> [] \<Longrightarrow> lookup f p = Some nd \<Longrightarrow> (p, nd) \<in> set (fs_tree f)"
  by (simp add: lookup_def map_of_SomeD)

lemma lookup_parent:
  assumes "fs_wf f" "lookup f (p @ [s]) = Some nd"
  shows "lookup f p = Some DirN"
proof -
  have "p @ [s] \<in> set (map fst (fs_tree f))"
    using lookup_Some_set [of "p @ [s]" f nd] assms(2) by force
  then have "lookup f (butlast (p @ [s])) = Some DirN"
    using assms(1) unfolding fs_wf_def by blast
  then show ?thesis by simp
qed

lemma lookup_ancestor:
  assumes "fs_wf f" "lookup f (p @ q) = Some nd" "q \<noteq> []"
  shows "lookup f p = Some DirN"
  using assms(2,3)
proof (induction q arbitrary: nd rule: rev_induct)
  case (snoc s q)
  then have "lookup f (p @ q) = Some DirN"
    using lookup_parent [OF assms(1), of "p @ q" s] by simp
  then show ?case
    using snoc by (cases "q = []") auto
qed simp

lemma lookup_plain:
  assumes "fs_wf f" "lookup f p = Some nd"
  shows "plain p"
proof (cases "p = []")
  case False
  then have "p \<in> set (map fst (fs_tree f))"
    using lookup_Some_set assms(2) by force
  then show ?thesis
    using assms(1) unfolding fs_wf_def by blast
qed simp

lemma nolink_prefix: "nolink f (p @ q) \<Longrightarrow> nolink f p"
  by (auto simp: nolink_def)

lemma nolink_snoc:
  "nolink f (p @ [s]) \<longleftrightarrow> nolink f p \<and> (\<forall>t. lookup f (p @ [s]) \<noteq> Some (LinkN t))"
  by (auto simp: nolink_def)

lemma nolink_Nil [simp]: "nolink f []"
  by (simp add: nolink_def)

text \<open>Below a directory there are no links above it, so resolution is the identity.\<close>

lemma dir_nolink:
  assumes "fs_wf f" "lookup f p = Some DirN"
  shows "nolink f p"
  unfolding nolink_def
proof (intro allI impI notI)
  fix q t
  assume "prefix q p" "lookup f q = Some (LinkN t)"
  then obtain r where "p = q @ r" "r \<noteq> []"
    using assms(2) by (cases "q = p") (auto simp: prefix_def)
  then show False
    using lookup_ancestor [OF assms(1), of q r DirN] assms(2) \<open>lookup f q = Some (LinkN t)\<close> by simp
qed

lemma resolve_dirs:
  assumes "fs_wf f" "lookup f (cur @ a) = Some DirN" "plain a"
  shows "resolve n f fl cur (a @ b) = resolve n f fl (cur @ a) b"
  using assms(2,3)
proof (induction a arbitrary: cur)
  case (Cons s a)
  have "lookup f (cur @ [s]) = Some DirN"
    using Cons.prems(1) lookup_ancestor [OF assms(1), of "cur @ [s]" a DirN] by (cases "a = []") auto
  then show ?case
    using Cons.IH [of "cur @ [s]"] Cons.prems by (simp add: plain_seg_def)
qed simp

lemma resolve_entry:
  assumes "fs_wf f" "lookup f d = Some DirN" "plain_seg s"
    and "\<not> fl \<or> (\<forall>t. lookup f (d @ [s]) \<noteq> Some (LinkN t))"
  shows "resolve n f fl [] (d @ [s]) = Inr (d @ [s])"
proof -
  have "resolve n f fl [] (d @ [s]) = resolve n f fl d [s]"
    using resolve_dirs [OF assms(1), of "[]" d n fl "[s]"] assms(2) lookup_plain [OF assms(1,2)] by simp
  also have "\<dots> = Inr (d @ [s])"
    using assms(3,4) by (auto simp: plain_seg_def split: option.split node.split)
  finally show ?thesis .
qed

lemma resolve_dir:
  assumes "fs_wf f" "lookup f d = Some DirN"
  shows "resolve n f fl [] d = Inr d"
  using resolve_dirs [OF assms(1), of "[]" d n fl "[]"] assms(2) lookup_plain [OF assms] by simp

lemma resolve_missing:
  assumes "fs_wf f" "lookup f d = Some DirN" "plain_seg s" "lookup f (d @ [s]) = None" "rest \<noteq> []"
  shows "resolve n f fl [] (d @ s # rest) = Inl (Sentinel ENOENT s)"
  using resolve_dirs [OF assms(1), of "[]" d n fl "s # rest"] assms lookup_plain [OF assms(1,2)]
  by (simp add: plain_seg_def)

lemma os_lstat_entry:
  assumes "fs_wf f" "lookup f d = Some DirN" "plain_seg s"
  shows "os_lstat f (d @ [s]) = (case lookup f (d @ [s]) of
      None \<Rightarrow> Inl (Sentinel ENOENT ''stat'') | Some nd \<Rightarrow> Inr nd)"
  using resolve_entry [OF assms, of False] by (simp add: os_lstat_def os_stat_gen_def)

lemma os_stat_entry:
  assumes "fs_wf f" "lookup f d = Some DirN" "plain_seg s" "\<forall>t. lookup f (d @ [s]) \<noteq> Some (LinkN t)"
  shows "os_stat f (d @ [s]) = (case lookup f (d @ [s]) of
      None \<Rightarrow> Inl (Sentinel ENOENT ''stat'') | Some nd \<Rightarrow> Inr nd)"
  using resolve_entry [OF assms(1-3), of True] assms(4) by (simp add: os_stat_def os_stat_gen_def)

lemma os_stat_dir:
  assumes "fs_wf f" "lookup f d = Some DirN"
  shows "os_stat f d = Inr DirN" "os_lstat f d = Inr DirN"
  using resolve_dir [OF assms] assms(2) by (simp_all add: os_stat_def os_lstat_def os_stat_gen_def)

end
