(* ===== verification/Go_Time.thy ===== *)
theory Go_Time
  imports Prelude
begin

text \<open>
  The part of Go's package time that the program uses: the proleptic Gregorian
  calendar in UTC, \<open>Weekday\<close>, \<open>AddDate\<close> on days, and \<open>Parse\<close>/\<open>Format\<close> for the
  layouts \<open>2006-01-02T15-04-05Z\<close>, \<open>2006-01-02\<close>, \<open>2006-01\<close> and RFC 3339.
  A \<open>time.Time\<close> is its number of nanoseconds since 1970-01-01T00:00:00Z; the
  zero time of Go is 0001-01-01T00:00:00Z.
\<close>

type_synonym gotime = int

section \<open>The calendar\<close>

definition is_leap :: "int \<Rightarrow> bool" where
  "is_leap y = (y mod 4 = 0 \<and> (y mod 100 \<noteq> 0 \<or> y mod 400 = 0))"

definition month_lengths :: "int \<Rightarrow> int list" where
  "month_lengths y = [31, if is_leap y then 29 else 28, 31, 30, 31, 30, 31, 31, 30, 31, 30, 31]"

definition days_in :: "int \<Rightarrow> int \<Rightarrow> int" where
  "days_in y m = month_lengths y ! nat (m - 1)"

definition days_before_year :: "int \<Rightarrow> int" where
  "days_before_year y = 365 * (y - 1) + (y - 1) div 4 - (y - 1) div 100 + (y - 1) div 400"

definition days_before_month :: "int \<Rightarrow> int \<Rightarrow> int" where
  "days_before_month y m = sum_list (take (nat (m - 1)) (month_lengths y))"

text \<open>Days are counted from 0001-01-01; 1970-01-01 is day 719162.\<close>

definition epoch_day :: int where
  "epoch_day = 719162"

definition day_number :: "int \<Rightarrow> int \<Rightarrow> int \<Rightarrow> int" where
  "day_number y m d = days_before_year y + days_before_month y m + (d - 1)"

definition year_of_day :: "int \<Rightarrow> int \<times> int" where
  "year_of_day n =
    (let n400 = n div 146097; d1 = n mod 146097;
         n100 = min 3 (d1 div 36524); d2 = d1 - 36524 * n100;
         n4 = d2 div 1461; d3 = d2 - 1461 * n4;
         n1 = min 3 (d3 div 365); d4 = d3 - 365 * n1
     in (400 * n400 + 100 * n100 + 4 * n4 + n1 + 1, d4))"

fun month_of_yday :: "int list \<Rightarrow> int \<Rightarrow> int \<Rightarrow> int \<times> int" where
  "month_of_yday [] m d = (m, d + 1)"
| "month_of_yday (l # ls) m d = (if d < l then (m, d + 1) else month_of_yday ls (m + 1) (d - l))"

definition civil_of_day :: "int \<Rightarrow> int \<times> int \<times> int" where
  "civil_of_day n = (case year_of_day n of (y, yd) \<Rightarrow> (y, month_of_yday (month_lengths y) 1 yd))"

definition valid_date :: "int \<Rightarrow> int \<Rightarrow> int \<Rightarrow> bool" where
  "valid_date y m d = (1 \<le> m \<and> m \<le> 12 \<and> 1 \<le> d \<and> d \<le> days_in y m)"

definition ns_per_sec :: int where "ns_per_sec = 1000000000"
definition ns_per_day :: int where "ns_per_day = 86400000000000"

definition day_of_time :: "gotime \<Rightarrow> int" where
  "day_of_time t = t div ns_per_day + epoch_day"

definition time_of_day :: "int \<Rightarrow> gotime" where
  "time_of_day n = (n - epoch_day) * ns_per_day"

definition zero_time :: gotime where
  "zero_time = time_of_day 0"

definition mk_time :: "int \<Rightarrow> int \<Rightarrow> int \<Rightarrow> int \<Rightarrow> int \<Rightarrow> int \<Rightarrow> int \<Rightarrow> gotime" where
  "mk_time y mo d h mi s ns =
     time_of_day (day_number y mo d) + ((h * 60 + mi) * 60 + s) * ns_per_sec + ns"

text \<open>\<open>time.Weekday\<close>: Sunday is 0, and 0001-01-01 was a Monday.\<close>

definition weekday :: "int \<Rightarrow> int" where
  "weekday n = (n + 1) mod 7"

section \<open>Formatting\<close>

definition pad2 :: "int \<Rightarrow> string" where
  "pad2 i = [digit_char (nat (i div 10 mod 10)), digit_char (nat (i mod 10))]"

definition pad4 :: "int \<Rightarrow> string" where
  "pad4 i = pad2 (i div 100) @ pad2 (i mod 100)"

definition format_day :: "int \<Rightarrow> string" where
  "format_day n = (case civil_of_day n of (y, m, d) \<Rightarrow> pad4 y @ ''-'' @ pad2 m @ ''-'' @ pad2 d)"

definition format_month :: "int \<Rightarrow> string" where
  "format_month n = (case civil_of_day n of (y, m, d) \<Rightarrow> pad4 y @ ''-'' @ pad2 m)"

section \<open>Parsing\<close>

text \<open>
  \<open>getnum s fixed\<close> reads one or two digits, exactly two when fixed, as the
  unexported function of the same name in package time does.
\<close>

fun getnum :: "bool \<Rightarrow> string \<Rightarrow> (int \<times> string) option" where
  "getnum fixed [] = None"
| "getnum fixed [a] = (if is_digit a \<and> \<not> fixed then Some (int (digit_val a), []) else None)"
| "getnum fixed (a # b # r) =
    (if \<not> is_digit a then None
     else if \<not> is_digit b then (if fixed then None else Some (int (digit_val a), b # r))
     else Some (int (10 * digit_val a + digit_val b), r))"

definition skip_lit :: "char \<Rightarrow> string \<Rightarrow> string option" where
  "skip_lit c s = (case s of [] \<Rightarrow> None | x # r \<Rightarrow> if x = c then Some r else None)"

definition parse_year :: "string \<Rightarrow> (int \<times> string) option" where
  "parse_year s = (if length s < 4 \<or> \<not> list_all is_digit (take 4 s) then None
     else Some (int (foldl (\<lambda>a c. 10 * a + digit_val c) 0 (take 4 s)), drop 4 s))"

definition in_range :: "int \<Rightarrow> int \<Rightarrow> (int \<times> string) option \<Rightarrow> (int \<times> string) option" where
  "in_range lo hi r = (case r of None \<Rightarrow> None | Some (v, s) \<Rightarrow> if lo \<le> v \<and> v \<le> hi then Some (v, s) else None)"

text \<open>Fractional seconds are accepted after the seconds even where the layout has none.\<close>

definition frac_seconds :: "string \<Rightarrow> int \<times> string" where
  "frac_seconds s = (case s of
      c # d # r \<Rightarrow> if c \<in> {CHR ''.'', CHR '',''} \<and> is_digit d
        then (let ds = takeWhile is_digit (d # r); used = take 9 ds
              in (int (foldl (\<lambda>a c. 10 * a + digit_val c) 0 used * 10 ^ (9 - length used)),
                  drop (length ds) (d # r)))
        else (0, s)
    | _ \<Rightarrow> (0, s))"

abbreviation obind :: "'a option \<Rightarrow> ('a \<Rightarrow> 'b option) \<Rightarrow> 'b option" where
  "obind \<equiv> Option.bind"

definition parse_month_prefix :: "string \<Rightarrow> (int \<times> int \<times> string) option" where
  "parse_month_prefix s =
    obind (parse_year s) (\<lambda>(y, s). obind (skip_lit (CHR ''-'') s) (\<lambda>s.
    obind (in_range 1 12 (getnum True s)) (\<lambda>(m, s). Some (y, m, s))))"

definition parse_date_prefix :: "string \<Rightarrow> (int \<times> int \<times> int \<times> string) option" where
  "parse_date_prefix s =
    obind (parse_month_prefix s) (\<lambda>(y, m, s). obind (skip_lit (CHR ''-'') s) (\<lambda>s.
    obind (getnum True s) (\<lambda>(d, s). Some (y, m, d, s))))"

definition parse_month :: "string \<Rightarrow> gotime option" where
  "parse_month s = (case parse_month_prefix s of
      Some (y, m, []) \<Rightarrow> Some (mk_time y m 1 0 0 0 0) | _ \<Rightarrow> None)"

definition parse_date :: "string \<Rightarrow> gotime option" where
  "parse_date s = (case parse_date_prefix s of
      Some (y, m, d, []) \<Rightarrow> if valid_date y m d then Some (mk_time y m d 0 0 0 0) else None
    | _ \<Rightarrow> None)"

definition parse_timestamp :: "string \<Rightarrow> gotime option" where
  "parse_timestamp s =
    obind (parse_date_prefix s) (\<lambda>(y, m, d, s). obind (skip_lit (CHR ''T'') s) (\<lambda>s.
    obind (in_range 0 23 (getnum False s)) (\<lambda>(h, s). obind (skip_lit (CHR ''-'') s) (\<lambda>s.
    obind (in_range 0 59 (getnum True s)) (\<lambda>(mi, s). obind (skip_lit (CHR ''-'') s) (\<lambda>s.
    obind (in_range 0 59 (getnum True s)) (\<lambda>(sec, s). case frac_seconds s of (ns, s) \<Rightarrow>
    (if s = ''Z'' \<and> valid_date y m d then Some (mk_time y m d h mi sec ns) else None))))))))"

text \<open>The zone of RFC 3339: Z, or a signed offset; \<open>time.Parse\<close> admits 24 hours and 60 minutes.\<close>

definition parse_zone :: "string \<Rightarrow> (int \<times> string) option" where
  "parse_zone s = (case s of
      [] \<Rightarrow> None
    | c # r \<Rightarrow>
        if c = CHR ''Z'' then Some (0, r)
        else if length s < 6 \<or> s ! 3 \<noteq> CHR '':'' then None
        else obind (in_range 0 24 (getnum True (take 2 (drop 1 s)))) (\<lambda>(h, _).
             obind (in_range 0 60 (getnum True (take 2 (drop 4 s)))) (\<lambda>(mi, _).
             if c = CHR ''+'' then Some ((h * 60 + mi) * 60, drop 6 s)
             else if c = CHR ''-'' then Some (- ((h * 60 + mi) * 60), drop 6 s)
             else None)))"

definition parse_rfc3339 :: "string \<Rightarrow> gotime option" where
  "parse_rfc3339 s =
    obind (parse_date_prefix s) (\<lambda>(y, m, d, s). obind (skip_lit (CHR ''T'') s) (\<lambda>s.
    obind (in_range 0 23 (getnum False s)) (\<lambda>(h, s). obind (skip_lit (CHR '':'') s) (\<lambda>s.
    obind (in_range 0 59 (getnum True s)) (\<lambda>(mi, s). obind (skip_lit (CHR '':'') s) (\<lambda>s.
    obind (in_range 0 59 (getnum True s)) (\<lambda>(sec, s). case frac_seconds s of (ns, s) \<Rightarrow>
    obind (parse_zone s) (\<lambda>(off, s).
    (if s = [] \<and> valid_date y m d then Some (mk_time y m d h mi sec ns - off * ns_per_sec) else None)))))))))"

definition seconds_of_day :: "gotime \<Rightarrow> int" where
  "seconds_of_day t = (t mod ns_per_day) div ns_per_sec"

definition format_rfc3339 :: "gotime \<Rightarrow> string" where
  "format_rfc3339 t = (let s = seconds_of_day t in
     format_day (day_of_time t) @ ''T'' @ pad2 (s div 3600) @ '':'' @ pad2 (s div 60 mod 60) @ '':'' @ pad2 (s mod 60) @ ''Z'')"

definition format_timestamp :: "gotime \<Rightarrow> string" where
  "format_timestamp t = (let s = seconds_of_day t in
     format_day (day_of_time t) @ ''T'' @ pad2 (s div 3600) @ ''-'' @ pad2 (s div 60 mod 60) @ ''-'' @ pad2 (s mod 60) @ ''Z'')"

section \<open>The calendar is a bijection\<close>

lemma year_split:
  fixes a b c e :: int
  assumes "0 \<le> b" "b \<le> 3" "0 \<le> c" "c \<le> 24" "0 \<le> e" "e \<le> 3"
  shows "days_before_year (400 * a + 100 * b + 4 * c + e + 1) = 146097 * a + 36524 * b + 1461 * c + 365 * e"
proof -
  have "(400 * a + 100 * b + 4 * c + e) div 4 = 100 * a + 25 * b + c"
    by (rule int_div_pos_eq [where r = e]) (use assms in auto)
  moreover have "(400 * a + 100 * b + 4 * c + e) div 100 = 4 * a + b"
    by (rule int_div_pos_eq [where r = "4 * c + e"]) (use assms in auto)
  moreover have "(400 * a + 100 * b + 4 * c + e) div 400 = a"
    by (rule int_div_pos_eq [where r = "100 * b + 4 * c + e"]) (use assms in auto)
  ultimately show ?thesis
    by (simp add: days_before_year_def)
qed

lemma is_leap_split:
  fixes a b c e :: int
  assumes "0 \<le> b" "b \<le> 3" "0 \<le> c" "c \<le> 24" "0 \<le> e" "e \<le> 3"
  shows "is_leap (400 * a + 100 * b + 4 * c + e + 1) \<longleftrightarrow> e = 3 \<and> (c \<noteq> 24 \<or> b = 3)"
proof -
  have z: "((x::int) + y) mod k = 0 \<longleftrightarrow> y mod k = 0" if "k dvd x" for x y k
    using that by (metis dvd_add_right_iff dvd_eq_mod_eq_0)
  have "(400 * a + 100 * b + 4 * c + (e + 1)) mod 4 = 0 \<longleftrightarrow> (e + 1) mod 4 = 0"
    by (rule z) (intro dvd_add dvd_mult2; simp)
  moreover have "(400 * a + 100 * b + (4 * c + e + 1)) mod 100 = 0 \<longleftrightarrow> (4 * c + e + 1) mod 100 = 0"
    by (rule z) (intro dvd_add dvd_mult2; simp)
  moreover have "(400 * a + (100 * b + 4 * c + e + 1)) mod 400 = 0 \<longleftrightarrow> (100 * b + 4 * c + e + 1) mod 400 = 0"
    by (rule z) (intro dvd_add dvd_mult2; simp)
  moreover have "(e + 1) mod 4 = 0 \<longleftrightarrow> e = 3"
    using assms(5,6) by presburger
  moreover have "(4 * c + 3 + 1) mod 100 = 0 \<longleftrightarrow> c = 24"
    using assms(3,4) by presburger
  moreover have "(100 * b + 4 * 24 + 3 + 1) mod 400 = 0 \<longleftrightarrow> b = 3"
  proof -
    have "b = 0 \<or> b = 1 \<or> b = 2 \<or> b = 3"
      using assms(1,2) by linarith
    then show ?thesis by (elim disjE) simp_all
  qed
  ultimately show ?thesis
    unfolding is_leap_def by (simp only: add.assoc) auto
qed

definition year_length :: "int \<Rightarrow> int" where
  "year_length y = (if is_leap y then 366 else 365)"

lemma sum_month_lengths: "sum_list (month_lengths y) = year_length y"
  by (simp add: month_lengths_def year_length_def)

lemma year_of_day_correct:
  assumes "year_of_day n = (y, d)"
  shows "n = days_before_year y + d" and "0 \<le> d" and "d < year_length y"
proof -
  define d1 where "d1 = n mod 146097"
  define n100 where "n100 = min 3 (d1 div 36524)"
  define d2 where "d2 = d1 - 36524 * n100"
  define n4 where "n4 = d2 div 1461"
  define d3 where "d3 = d2 - 1461 * n4"
  define n1 where "n1 = min 3 (d3 div 365)"
  have expand: "year_of_day n = (400 * (n div 146097) + 100 * n100 + 4 * n4 + n1 + 1, d3 - 365 * n1)"
    unfolding year_of_day_def Let_def n1_def d3_def n4_def d2_def n100_def d1_def by (rule refl)
  have y: "y = 400 * (n div 146097) + 100 * n100 + 4 * n4 + n1 + 1" and d: "d = d3 - 365 * n1"
    using assms unfolding expand by simp_all
  have d1: "0 \<le> d1" "d1 < 146097" "n = 146097 * (n div 146097) + d1"
    by (simp_all add: d1_def)
  have div_bounds: "k * (x div k) \<le> x" "x < k * (x div k) + k" if "0 < k" for k x :: int
    using pos_mod_bound [OF that, of x] pos_mod_sign [OF that, of x] mult_div_mod_eq [of k x] by linarith+
  have b: "0 \<le> n100" "n100 \<le> 3" "0 \<le> d2" "d2 < 36524 + (if n100 = 3 then 1 else 0)"
    using d1 div_bounds [of 36524 d1] unfolding n100_def d2_def min_def by (auto split: if_splits)
  have c: "0 \<le> n4" "n4 \<le> 24" "0 \<le> d3" "d3 < 1461" "n4 = 24 \<and> n100 \<noteq> 3 \<Longrightarrow> d3 < 1460"
    using b div_bounds [of 1461 d2] unfolding n4_def d3_def by (auto split: if_splits)
  have e: "0 \<le> n1" "n1 \<le> 3" "0 \<le> d" "d < 365 + (if n1 = 3 then 1 else 0)"
    "n4 = 24 \<and> n100 \<noteq> 3 \<Longrightarrow> d < 365"
    using c div_bounds [of 365 d3] unfolding d n1_def min_def by (auto split: if_splits)
  show "n = days_before_year y + d"
    unfolding y year_split [OF b(1,2) c(1,2) e(1,2)] using d1(3) d d2_def d3_def by linarith
  show "0 \<le> d" by (rule e)
  show "d < year_length y"
    unfolding year_length_def y is_leap_split [OF b(1,2) c(1,2) e(1,2)] using e by (auto split: if_splits)
qed

lemma month_of_yday_correct:
  assumes "0 \<le> d" "d < sum_list ls" and "month_of_yday ls m0 d = (m, dd)"
  shows "m0 \<le> m \<and> m < m0 + int (length ls) \<and> 1 \<le> dd \<and> dd \<le> ls ! nat (m - m0)
     \<and> d = sum_list (take (nat (m - m0)) ls) + (dd - 1)"
  using assms
proof (induction ls m0 d rule: month_of_yday.induct)
  case (2 l ls m0 d)
  show ?case
  proof (cases "d < l")
    case False
    then have IH: "m0 + 1 \<le> m \<and> m < m0 + 1 + int (length ls) \<and> 1 \<le> dd \<and> dd \<le> ls ! nat (m - (m0 + 1))
       \<and> d - l = sum_list (take (nat (m - (m0 + 1))) ls) + (dd - 1)"
      using 2 by simp
    then have "nat (m - m0) = Suc (nat (m - (m0 + 1)))"
      by linarith
    then show ?thesis
      using IH by simp
  qed (use 2 in auto)
qed simp

lemma civil_of_day_correct:
  assumes "civil_of_day n = (y, m, d)"
  shows "valid_date y m d" and "day_number y m d = n"
proof -
  obtain yd where yd: "year_of_day n = (y, yd)" "month_of_yday (month_lengths y) 1 yd = (m, d)"
    using assms by (auto simp: civil_of_day_def split: prod.splits)
  have "1 \<le> m \<and> m < 1 + int (length (month_lengths y)) \<and> 1 \<le> d \<and> d \<le> month_lengths y ! nat (m - 1)
     \<and> yd = sum_list (take (nat (m - 1)) (month_lengths y)) + (d - 1)"
    using year_of_day_correct [OF yd(1)] yd(2)
    by (intro month_of_yday_correct) (auto simp: sum_month_lengths)
  then show "valid_date y m d" "day_number y m d = n"
    using year_of_day_correct(1) [OF yd(1)]
    by (auto simp: valid_date_def days_in_def day_number_def days_before_month_def month_lengths_def)
qed

lemma zdiv_zadd1_step:
  fixes k x :: int
  assumes "0 < k"
  shows "(x + 1) div k = x div k + (if (x + 1) mod k = 0 then 1 else 0)"
proof (cases "x mod k + 1 = k")
  case True
  have "x + 1 = k * (x div k) + (x mod k + 1)"
    using mult_div_mod_eq [of k x] by linarith
  then have e: "x + 1 = k * (x div k + 1)"
    using True by (simp add: distrib_left)
  show ?thesis
    unfolding e using assms by simp
next
  case False
  have b: "0 \<le> x mod k + 1" "x mod k + 1 < k" "x mod k + 1 \<noteq> 0"
    using False pos_mod_bound [OF assms, of x] pos_mod_sign [OF assms, of x] by linarith+
  have e: "x + 1 = k * (x div k) + (x mod k + 1)"
    using mult_div_mod_eq [of k x] by linarith
  have "(x + 1) div k = x div k" "(x + 1) mod k = x mod k + 1"
    using int_div_pos_eq [OF e b(1,2)] int_mod_pos_eq [OF e b(1,2)] by auto
  then show ?thesis
    using b(3) by simp
qed

lemma days_before_year_next: "days_before_year (y + 1) = days_before_year y + year_length y"
proof -
  have step: "y div k = (y - 1) div k + (if y mod k = 0 then 1 else 0)" if "0 < k" for k :: int
    using zdiv_zadd1_step [OF that, of "y - 1"] by (simp only: diff_add_cancel)
  have le: "y mod 400 = 0 \<Longrightarrow> y mod 100 = 0" "y mod 100 = 0 \<Longrightarrow> y mod 4 = 0"
    unfolding mod_eq_0_iff_dvd by (erule dvd_trans [rotated], simp)+
  have add_up: "a - b + c = a' - b' + c' + (if P then 1 else 0) \<Longrightarrow>
      365 * y + a - b + c = 365 * (y - 1) + a' - b' + c' + (if P then 366 else 365)"
    for a b c a' b' c' :: int and P by (cases P) simp_all
  have combine: "\<lbrakk>a = a' + (if P then 1 else 0); b = b' + (if Q then 1 else 0); c = c' + (if R then 1 else 0);
      R \<Longrightarrow> Q; Q \<Longrightarrow> P\<rbrakk> \<Longrightarrow> a - b + c = a' - b' + c' + (if P \<and> (\<not> Q \<or> R) then 1 else 0)"
    for a b c a' b' c' :: int and P Q R by (cases P; cases Q; cases R; simp)
  have "y div 4 - y div 100 + y div 400
      = (y - 1) div 4 - (y - 1) div 100 + (y - 1) div 400 + (if is_leap y then 1 else 0)"
    unfolding is_leap_def by (rule combine; (rule step)?; (rule le)?; simp?)
  then show ?thesis
    unfolding days_before_year_def year_length_def add_diff_cancel_right'
    by (rule add_up)
qed

lemma days_before_year_mono:
  assumes "y < y'"
  shows "days_before_year y + year_length y \<le> days_before_year y'"
proof -
  have "y + 1 \<le> y'"
    using assms by simp
  then show ?thesis
  proof (induction y' rule: int_ge_induct)
    case base
    then show ?case by (simp add: days_before_year_next)
  next
    case (step i)
    moreover have "0 \<le> year_length i"
      by (simp add: year_length_def)
    ultimately show ?case
      by (simp add: days_before_year_next)
  qed
qed

lemma year_of_day_inverse:
  assumes "0 \<le> yd" "yd < year_length y"
  shows "year_of_day (days_before_year y + yd) = (y, yd)"
proof -
  obtain y' yd' where e: "year_of_day (days_before_year y + yd) = (y', yd')"
    by force
  note c = year_of_day_correct [OF e]
  have "\<not> y < y'" "\<not> y' < y"
    using days_before_year_mono [of y y'] days_before_year_mono [of y' y] c assms by auto
  then show ?thesis
    using e c(1) by auto
qed

lemma month_of_yday_inverse:
  assumes "k < length ls" "0 \<le> r" "r < ls ! k" "\<forall>l\<in>set ls. 0 < l"
  shows "month_of_yday ls m0 (sum_list (take k ls) + r) = (m0 + int k, r + 1)"
  using assms
proof (induction ls arbitrary: k m0)
  case (Cons l ls)
  show ?case
  proof (cases k)
    case (Suc j)
    have "0 \<le> sum_list (take j ls)"
      using Cons.prems(4) by (intro sum_list_nonneg) (auto dest!: in_set_takeD intro: less_imp_le)
    then show ?thesis
      using Cons.IH [of j "m0 + 1"] Cons.prems Suc by auto
  qed (use Cons.prems in auto)
qed simp

lemma length_month_lengths [simp]: "length (month_lengths y) = 12"
  by (simp add: month_lengths_def)

lemma month_lengths_pos: "\<forall>l\<in>set (month_lengths y). 0 < l"
  by (simp add: month_lengths_def)

lemma days_before_month_bound:
  assumes "valid_date y m d"
  shows "0 \<le> days_before_month y m + (d - 1)" "days_before_month y m + (d - 1) < year_length y"
proof -
  have m: "nat (m - 1) < length (month_lengths y)"
    using assms by (auto simp: valid_date_def month_lengths_def)
  have "0 \<le> sum_list (take n (month_lengths y))" "0 \<le> sum_list (drop n (month_lengths y))" for n
    using month_lengths_pos [of y]
    by (intro sum_list_nonneg; force dest: in_set_takeD in_set_dropD)+
  then have nn: "0 \<le> days_before_month y m" "0 \<le> sum_list (drop (Suc (nat (m - 1))) (month_lengths y))"
    by (auto simp: days_before_month_def)
  have "sum_list (month_lengths y) = sum_list (take (nat (m - 1)) (month_lengths y))
      + (month_lengths y ! nat (m - 1) + sum_list (drop (Suc (nat (m - 1))) (month_lengths y)))"
    by (metis Cons_nth_drop_Suc append_take_drop_id m sum_list.Cons sum_list_append)
  then show "0 \<le> days_before_month y m + (d - 1)" "days_before_month y m + (d - 1) < year_length y"
    using nn assms by (auto simp: valid_date_def days_in_def sum_month_lengths days_before_month_def)
qed

lemma civil_of_day_number:
  assumes "valid_date y m d"
  shows "civil_of_day (day_number y m d) = (y, m, d)"
proof -
  have "month_of_yday (month_lengths y) 1 (days_before_month y m + (d - 1)) = (m, d)"
    using month_of_yday_inverse [of "nat (m - 1)" "month_lengths y" "d - 1" 1] month_lengths_pos [of y] assms
    unfolding days_before_month_def valid_date_def days_in_def length_month_lengths
    by (simp add: nat_less_iff)
  moreover have "year_of_day (day_number y m d) = (y, days_before_month y m + (d - 1))"
    using year_of_day_inverse [OF days_before_month_bound [OF assms]] by (simp add: day_number_def algebra_simps)
  ultimately show ?thesis
    by (simp add: civil_of_day_def)
qed

section \<open>Parsing inverts formatting\<close>

lemma digit_val_nat_mod: "digit_val (digit_char (nat (i mod 10))) = nat (i mod 10)"
  by (rule digit_val_char) simp

lemma getnum_pad2:
  assumes "0 \<le> i" "i < 100"
  shows "getnum f (pad2 i @ s) = Some (i, s)"
proof -
  have "nat (i div 10) < 10" "nat (i mod 10) < 10"
    using assms by auto
  moreover have "0 \<le> i div 10" "i div 10 mod 10 = i div 10"
    using assms by auto
  ultimately show ?thesis
    using assms by (simp add: pad2_def)
qed

lemma parse_year_digits:
  assumes "a < 10" "b < 10" "c < 10" "d < 10"
  shows "parse_year ([digit_char a, digit_char b] @ [digit_char c, digit_char d] @ s)
    = Some (int (10 * (10 * (10 * a + b) + c) + d), s)"
  using assms by (simp add: parse_year_def)

lemma parse_year_pad4:
  assumes "0 \<le> y" "y \<le> 9999"
  shows "parse_year (pad4 y @ s) = Some (y, s)"
proof -
  have "y div 100 div 10 mod 10 = y div 100 div 10"
    using assms by simp
  then have e: "10 * (10 * (10 * (y div 100 div 10 mod 10) + y div 100 mod 10) + y mod 100 div 10 mod 10)
      + y mod 100 mod 10 = y"
    using assms mult_div_mod_eq [of 10 "y div 100"] mult_div_mod_eq [of 10 "y mod 100"]
      mult_div_mod_eq [of 100 y] by simp
  have nn: "0 \<le> y div 100 div 10 mod 10" "0 \<le> y div 100 mod 10" "0 \<le> y mod 100 div 10 mod 10"
    "0 \<le> y mod 100 mod 10"
    by simp_all
  have "parse_year (pad4 y @ s) = Some (int (10 * (10 * (10 * nat (y div 100 div 10 mod 10)
      + nat (y div 100 mod 10)) + nat (y mod 100 div 10 mod 10)) + nat (y mod 100 mod 10)), s)"
    unfolding pad4_def pad2_def append_assoc by (rule parse_year_digits) simp_all
  then show ?thesis
    using e nn by (simp only: of_nat_add of_nat_mult of_nat_numeral int_nat_eq if_True)
qed

lemma length_pad2 [simp]: "length (pad2 i) = 2"
  by (simp add: pad2_def)

lemma length_pad4 [simp]: "length (pad4 i) = 4"
  by (simp add: pad4_def)

lemma days_in_le_31: "1 \<le> m \<Longrightarrow> m \<le> 12 \<Longrightarrow> days_in y m \<le> 31"
  by (auto simp: days_in_def month_lengths_def nth_Cons' )

lemma parse_month_prefix_pad:
  assumes "0 \<le> y" "y \<le> 9999" "1 \<le> m" "m \<le> 12"
  shows "parse_month_prefix (pad4 y @ ''-'' @ pad2 m @ s) = Some (y, m, s)"
  using assms getnum_pad2 [of m True s]
  by (simp add: parse_month_prefix_def parse_year_pad4 skip_lit_def in_range_def)

lemma parse_date_prefix_pad:
  assumes "0 \<le> y" "y \<le> 9999" "valid_date y m d"
  shows "parse_date_prefix (pad4 y @ ''-'' @ pad2 m @ ''-'' @ pad2 d @ s) = Some (y, m, d, s)"
  using assms parse_month_prefix_pad [of y m "''-'' @ pad2 d @ s"] getnum_pad2 [of d True s] days_in_le_31 [of m y]
  by (simp add: parse_date_prefix_def valid_date_def skip_lit_def)

lemma parse_format_day:
  assumes "civil_of_day n = (y, m, d)" "0 \<le> y" "y \<le> 9999"
  shows "parse_date (format_day n) = Some (time_of_day n)"
  using civil_of_day_correct [OF assms(1)] parse_date_prefix_pad [OF assms(2,3), of m d "[]"]
  by (simp add: parse_date_def format_day_def assms(1) mk_time_def ns_per_sec_def)

lemma parse_format_month:
  assumes "civil_of_day n = (y, m, d)" "0 \<le> y" "y \<le> 9999"
  shows "parse_month (format_month n) = Some (time_of_day (n - (d - 1)))"
proof -
  have v: "valid_date y m d" "day_number y m d = n"
    using civil_of_day_correct [OF assms(1)] by auto
  then have "day_number y m 1 = n - (d - 1)"
    by (simp add: day_number_def)
  then show ?thesis
    using v parse_month_prefix_pad [OF assms(2,3), of m "[]"]
    by (simp add: parse_month_def format_month_def assms(1) mk_time_def valid_date_def)
qed

lemma day_of_time_of_day [simp]: "day_of_time (time_of_day n) = n"
  by (simp add: day_of_time_def time_of_day_def ns_per_day_def)

section \<open>Parsed and formatted texts contain no path separator\<close>

definition no_sep :: "string \<Rightarrow> bool" where
  "no_sep s = (\<forall>c\<in>set s. c \<noteq> CHR ''/'' \<and> c \<noteq> CHR 0x5C)"

lemma no_sep_simps [simp]: "no_sep []" "no_sep (c # s) \<longleftrightarrow> c \<noteq> CHR ''/'' \<and> c \<noteq> CHR 0x5C \<and> no_sep s"
  "no_sep (a @ b) \<longleftrightarrow> no_sep a \<and> no_sep b"
  by (auto simp: no_sep_def)

definition consumes :: "(string \<Rightarrow> ('a \<times> string) option) \<Rightarrow> bool" where
  "consumes P = (\<forall>s v r. P s = Some (v, r) \<longrightarrow> (\<exists>u. s = u @ r \<and> u \<noteq> [] \<and> no_sep u))"

lemma digit_not_slash: "is_digit c \<Longrightarrow> c \<noteq> CHR ''/'' \<and> c \<noteq> CHR 0x5C"
  by (auto simp: is_digit_def)

lemma no_sep_digits: "(\<And>c. c \<in> set s \<Longrightarrow> is_digit c) \<Longrightarrow> no_sep s"
  using digit_not_slash by (simp add: no_sep_def)

lemma consumesD: "consumes P \<Longrightarrow> P s = Some (v, r) \<Longrightarrow> \<exists>u. s = u @ r \<and> u \<noteq> [] \<and> no_sep u"
  by (simp add: consumes_def)

lemma consumes_getnum: "consumes (getnum fixed)"
  unfolding consumes_def
proof (intro allI impI)
  fix s v r
  assume "getnum fixed s = Some (v, r)"
  then show "\<exists>u. s = u @ r \<and> u \<noteq> [] \<and> no_sep u"
  proof (cases "(fixed, s)" rule: getnum.cases)
    case (3 f a b r')
    then show ?thesis
      using \<open>getnum fixed s = Some (v, r)\<close> digit_not_slash
      by (auto split: if_splits intro: exI [of _ "[a]"] exI [of _ "[a, b]"])
  qed (auto split: if_splits dest: digit_not_slash)
qed

lemma consumes_in_range: "consumes P \<Longrightarrow> in_range lo hi (P s) = Some (v, r) \<Longrightarrow> P s = Some (v, r)"
  by (auto simp: in_range_def split: option.splits if_splits)

lemma consumes_year: "consumes parse_year"
  unfolding consumes_def
proof (intro allI impI)
  fix s v r
  assume a: "parse_year s = Some (v, r)"
  then have "list_all is_digit (take 4 s)" "r = drop 4 s" "4 \<le> length s"
    by (auto simp: parse_year_def split: if_splits)
  moreover from this have "take 4 s \<noteq> []"
    by (cases s) auto
  moreover have "list_all is_digit w \<Longrightarrow> no_sep w" for w
    by (auto simp: list_all_iff intro: no_sep_digits)
  ultimately show "\<exists>u. s = u @ r \<and> u \<noteq> [] \<and> no_sep u"
    by (metis append_take_drop_id)
qed

lemma skip_lit_Some: "skip_lit c s = Some r \<longleftrightarrow> s = c # r"
  by (cases s) (auto simp: skip_lit_def)

lemma frac_seconds_consumes: "frac_seconds s = (v, r) \<Longrightarrow> \<exists>u. s = u @ r \<and> no_sep u"
proof -
  assume a: "frac_seconds s = (v, r)"
  show ?thesis
  proof (cases "\<exists>c d t. s = c # d # t \<and> c \<in> {CHR ''.'', CHR '',''} \<and> is_digit d")
    case True
    then obtain c d t where s: "s = c # d # t" "c \<in> {CHR ''.'', CHR '',''}" "is_digit d"
      by blast
    let ?w = "takeWhile is_digit (d # t)"
    have "r = drop (length ?w) (d # t)"
      using a s by (auto simp: frac_seconds_def Let_def)
    then have "s = (c # ?w) @ r"
      using s(1) by (metis append_Cons append_eq_conv_conj takeWhile_dropWhile_id)
    moreover have "no_sep ?w"
      by (rule no_sep_digits) (meson set_takeWhileD)
    then have "no_sep (c # ?w)"
      using s(2) by auto
    ultimately show ?thesis by blast
  next
    case False
    then have "r = s"
      using a by (auto simp: frac_seconds_def split: list.splits if_splits)
    then show ?thesis by auto
  qed
qed

lemma parse_date_prefix_consumes:
  assumes "parse_date_prefix s = Some (y, m, d, r)"
  shows "\<exists>u. s = u @ r \<and> no_sep u \<and> 2 < length u"
proof -
  obtain s1 s2 s3 where *: "parse_year s = Some (y, CHR ''-'' # s1)"
    "in_range 1 12 (getnum True s1) = Some (m, CHR ''-'' # s2)" "getnum True s2 = Some (d, r)"
    using assms
    by (fastforce simp: parse_date_prefix_def parse_month_prefix_def skip_lit_Some bind_eq_Some_conv)
  obtain u1 u2 u3 where "s = u1 @ CHR ''-'' # s1" "s1 = u2 @ CHR ''-'' # s2" "s2 = u3 @ r"
    "no_sep (u1 @ u2 @ u3)" "u1 \<noteq> []"
    using consumesD [OF consumes_year *(1)] consumesD [OF consumes_getnum *(3)]
      consumesD [OF consumes_getnum consumes_in_range [OF consumes_getnum *(2)]] by auto
  then show ?thesis
    by (intro exI [of _ "u1 @ CHR ''-'' # u2 @ CHR ''-'' # u3"]) (auto simp: neq_Nil_conv)
qed

lemma slash_dests:
  "getnum fixed s = Some (v, r) \<Longrightarrow> no_sep s \<longleftrightarrow> no_sep r"
  "in_range lo hi (getnum fixed s) = Some (v, r) \<Longrightarrow> no_sep s \<longleftrightarrow> no_sep r"
  "frac_seconds s = (v, r) \<Longrightarrow> no_sep s \<longleftrightarrow> no_sep r"
  using consumesD [OF consumes_getnum] consumes_in_range [OF consumes_getnum] frac_seconds_consumes
  by fastforce+

lemma frac_tail_no_slash:
  "(case frac_seconds s of (ns, s') \<Rightarrow> if s' = ''Z'' \<and> v then Some (g ns) else None) = Some ts \<Longrightarrow> no_sep s"
  by (cases "frac_seconds s") (auto split: if_splits dest: slash_dests)

lemma parse_timestamp_shape:
  assumes "parse_timestamp s = Some ts"
  shows "no_sep s" "2 < length s"
proof -
  obtain y m d r where d: "parse_date_prefix s = Some (y, m, d, r)"
    using assms by (cases "parse_date_prefix s") (auto simp: parse_timestamp_def)
  have "no_sep r"
    using assms unfolding parse_timestamp_def d bind.bind_lunit prod.case bind_eq_Some_conv
    by (auto simp: skip_lit_Some bind_eq_Some_conv dest!: slash_dests frac_tail_no_slash)
  then show "no_sep s" "2 < length s"
    using parse_date_prefix_consumes [OF d] by auto
qed

lemma pad2_digits: "c \<in> set (pad2 i) \<Longrightarrow> is_digit c"
  by (auto simp: pad2_def)

lemma no_sep_pad2 [simp]: "no_sep (pad2 i)"
  by (rule no_sep_digits) (rule pad2_digits)

lemma format_shape:
  "no_sep (format_day n)" "2 < length (format_day n)"
  "no_sep (format_month n)" "2 < length (format_month n)"
  by (auto simp: format_day_def format_month_def pad4_def split: prod.split)

section \<open>Instants survive formatting and parsing\<close>

lemma seconds_of_day_range: "0 \<le> seconds_of_day t" "seconds_of_day t < 86400"
proof -
  have m: "t mod 86400000000000 \<le> 86399999999999"
    using pos_mod_bound [of 86400000000000 t] by auto
  show "0 \<le> seconds_of_day t"
    by (simp add: seconds_of_day_def ns_per_day_def ns_per_sec_def pos_imp_zdiv_nonneg_iff)
  show "seconds_of_day t < 86400"
    using zdiv_mono1 [OF m, of 1000000000] by (simp add: seconds_of_day_def ns_per_day_def ns_per_sec_def)
qed

text \<open>The whole second of an instant.\<close>

definition trunc_second :: "gotime \<Rightarrow> gotime" where
  "trunc_second t = t div ns_per_sec * ns_per_sec"

lemma trunc_second_split: "trunc_second t = time_of_day (day_of_time t) + seconds_of_day t * ns_per_sec"
proof -
  have "t = (t div ns_per_day * 86400) * ns_per_sec + t mod ns_per_day"
    by (simp add: ns_per_day_def ns_per_sec_def)
  then have "t div ns_per_sec = ((t div ns_per_day * 86400) * ns_per_sec + t mod ns_per_day) div ns_per_sec"
    by simp
  also have "\<dots> = t div ns_per_day * 86400 + seconds_of_day t"
    unfolding seconds_of_day_def by (rule div_mult_self3) (simp add: ns_per_sec_def)
  finally show ?thesis
    by (simp add: trunc_second_def time_of_day_def day_of_time_def ns_per_day_def ns_per_sec_def algebra_simps)
qed

lemma clock_split:
  fixes s :: int
  assumes "0 \<le> s" "s < 86400"
  shows "((s div 3600) * 60 + s div 60 mod 60) * 60 + s mod 60 = s" "0 \<le> s div 3600" "s div 3600 < 24"
proof -
  have "s div 3600 = s div 60 div 60"
    by (simp add: zdiv_zmult2_eq [symmetric])
  then have "(s div 3600) * 60 + s div 60 mod 60 = s div 60"
    by (metis div_mult_mod_eq)
  then show "((s div 3600) * 60 + s div 60 mod 60) * 60 + s mod 60 = s"
    by (metis div_mult_mod_eq)
  show "0 \<le> s div 3600"
    using assms(1) by (simp add: pos_imp_zdiv_nonneg_iff)
  show "s div 3600 < 24"
    using zdiv_mono1 [of s 86399 3600] assms(2) by simp
qed

lemma getnum_hour: "0 \<le> h \<Longrightarrow> h < 24 \<Longrightarrow> in_range 0 23 (getnum False (pad2 h @ r)) = Some (h, r)"
  using getnum_pad2 [of h False r] by (simp add: in_range_def)

lemma getnum_sixty: "in_range 0 59 (getnum True (pad2 (s mod 60) @ r)) = Some (s mod 60, r)"
  using getnum_pad2 [of "s mod 60" True r] pos_mod_bound [of 60 s] by (simp add: in_range_def)

lemma mk_time_clock:
  assumes "civil_of_day (day_of_time t) = (y, m, d)"
  defines "s \<equiv> seconds_of_day t"
  shows "mk_time y m d (s div 3600) (s div 60 mod 60) (s mod 60) 0 = trunc_second t"
  using clock_split(1) [OF seconds_of_day_range, of t] civil_of_day_correct [OF assms(1)]
  by (simp add: mk_time_def trunc_second_split s_def)

lemma parse_format_rfc3339:
  assumes "civil_of_day (day_of_time t) = (y, m, d)" "0 \<le> y" "y \<le> 9999"
  shows "parse_rfc3339 (format_rfc3339 t) = Some (trunc_second t)"
proof -
  let ?s = "seconds_of_day t"
  let ?r = "''T'' @ pad2 (?s div 3600) @ '':'' @ pad2 (?s div 60 mod 60) @ '':'' @ pad2 (?s mod 60) @ ''Z''"
  have v: "valid_date y m d"
    using civil_of_day_correct [OF assms(1)] by simp
  have "parse_date_prefix (format_rfc3339 t) = Some (y, m, d, ?r)"
    using parse_date_prefix_pad [OF assms(2,3) v, of ?r] by (simp add: format_rfc3339_def format_day_def assms(1) Let_def)
  then show ?thesis
    using getnum_hour [OF clock_split(2,3) [OF seconds_of_day_range, of t]] mk_time_clock [OF assms(1)] v
    by (simp add: parse_rfc3339_def skip_lit_def getnum_sixty frac_seconds_def parse_zone_def)
qed

lemma parse_format_timestamp:
  assumes "civil_of_day (day_of_time t) = (y, m, d)" "0 \<le> y" "y \<le> 9999"
  shows "parse_timestamp (format_timestamp t) = Some (trunc_second t)"
proof -
  let ?s = "seconds_of_day t"
  let ?r = "''T'' @ pad2 (?s div 3600) @ ''-'' @ pad2 (?s div 60 mod 60) @ ''-'' @ pad2 (?s mod 60) @ ''Z''"
  have v: "valid_date y m d"
    using civil_of_day_correct [OF assms(1)] by simp
  have "parse_date_prefix (format_timestamp t) = Some (y, m, d, ?r)"
    using parse_date_prefix_pad [OF assms(2,3) v, of ?r] by (simp add: format_timestamp_def format_day_def assms(1) Let_def)
  then show ?thesis
    using getnum_hour [OF clock_split(2,3) [OF seconds_of_day_range, of t]] mk_time_clock [OF assms(1)] v
    by (simp add: parse_timestamp_def skip_lit_def getnum_sixty frac_seconds_def)
qed

end
