(* ===== verification/Api_Types.thy ===== *)
theory Api_Types
  imports Go_Time
begin

text \<open>
  The custom resources of api/v1alpha1/types.go: their enumerations, records and
  the methods that supply defaults. A Go string type with a fixed set of
  constants is a datatype with one constructor per constant, one for the empty
  string where the code tests for it, and one for any other text the API server
  may deliver. A pointer is an \<open>option\<close>, \<open>*metav1.Time\<close> is a \<open>gotime option\<close>.
  Kubernetes pod settings that the program only copies (affinity, tolerations,
  security context, resources) are opaque strings.
\<close>

section \<open>Enumerations\<close>

datatype strategy_type = StrategyUnset | StrategySnapshot | StrategyMirror | StrategyOther string

datatype concurrency_policy = ConcurrencyUnset | ConcurrencyForbid | ConcurrencyReplace | ConcurrencyOther string

datatype capture_mode = CaptureUnset | CaptureDirect | CaptureVolumeSnapshot | CaptureAuto | CaptureOther string

datatype cleanup_policy = CleanupUnset | CleanupDelete | CleanupRetainOnFailure | CleanupOther string

datatype job_trigger = TriggerUnset | TriggerManual | TriggerScheduled | TriggerOther string

datatype run_phase = RunUnset | RunPending | RunPreparing | RunRunning | RunFinalizing
  | RunSucceeded | RunFailed | RunCanceled

datatype transfer_phase = TransferUnset | TransferPending | TransferPreparing | TransferRunning
  | TransferSucceeded | TransferFailed | TransferSkipped

section \<open>References, retention, rsync options\<close>

record object_ref =
  or_namespace :: string
  or_name :: string

definition NamespaceOr :: "object_ref \<Rightarrow> string \<Rightarrow> string" where
  "NamespaceOr r defaultNamespace = (if or_namespace r \<noteq> [] then or_namespace r else defaultNamespace)"

text \<open>\<open>types.NamespacedName\<close> and its \<open>String()\<close>.\<close>

type_synonym nsname = "string \<times> string"

definition nsname_string :: "nsname \<Rightarrow> string" where
  "nsname_string r = fst r @ ''/'' @ snd r"

record retention_policy =
  ret_hourly :: int
  ret_daily :: int
  ret_weekly :: int
  ret_monthly :: int

definition retention_empty :: "retention_policy \<Rightarrow> bool" where
  "retention_empty p = (ret_hourly p = 0 \<and> ret_daily p = 0 \<and> ret_weekly p = 0 \<and> ret_monthly p = 0)"

definition strategy_TypeOrDefault :: "strategy_type \<Rightarrow> strategy_type" where
  "strategy_TypeOrDefault s = (if s \<noteq> StrategyUnset then s else StrategySnapshot)"

definition strategy_text :: "strategy_type \<Rightarrow> string" where
  "strategy_text s = (case s of StrategyUnset \<Rightarrow> [] | StrategySnapshot \<Rightarrow> ''Snapshot''
     | StrategyMirror \<Rightarrow> ''Mirror'' | StrategyOther t \<Rightarrow> t)"

record rsync_options =
  ro_delete :: "bool option"
  ro_oneFileSystem :: "bool option"

definition DeleteOrDefault :: "rsync_options \<Rightarrow> bool" where
  "DeleteOrDefault o' = (case ro_delete o' of Some b \<Rightarrow> b | None \<Rightarrow> True)"

definition OneFileSystemOrDefault :: "rsync_options \<Rightarrow> bool" where
  "OneFileSystemOrDefault o' = (case ro_oneFileSystem o' of Some b \<Rightarrow> b | None \<Rightarrow> True)"

definition HasOverrides :: "rsync_options \<Rightarrow> bool" where
  "HasOverrides o' = (ro_delete o' \<noteq> None \<or> ro_oneFileSystem o' \<noteq> None)"

section \<open>Object metadata and conditions\<close>

record owner_ref =
  ow_apiVersion :: string
  ow_kind :: string
  ow_name :: string
  ow_uid :: string
  ow_controller :: bool

record object_meta =
  om_namespace :: string
  om_name :: string
  om_uid :: string
  om_generation :: int
  om_labels :: "(string \<times> string) list"
  om_annotations :: "(string \<times> string) list"
  om_creation :: gotime
  om_deletion :: "gotime option"
  om_owners :: "owner_ref list"
  om_finalizers :: "string list"
  om_resourceVersion :: string

definition meta_key :: "object_meta \<Rightarrow> nsname" where
  "meta_key m = (om_namespace m, om_name m)"

definition empty_meta :: object_meta where
  "empty_meta = \<lparr>om_namespace = [], om_name = [], om_uid = [], om_generation = 0, om_labels = [],
     om_annotations = [], om_creation = zero_time, om_deletion = None, om_owners = [],
     om_finalizers = [], om_resourceVersion = []\<rparr>"

datatype cond_status = CondTrue | CondFalse | CondUnknown | CondOther string

record condition =
  c_type :: string
  c_status :: cond_status
  c_observedGeneration :: int
  c_lastTransitionTime :: gotime
  c_reason :: string
  c_message :: string

record pod_settings =
  ps_nodeSelector :: "(string \<times> string) list"
  ps_affinity :: "string option"
  ps_tolerations :: "string list"
  ps_topologySpread :: "string list"
  ps_schedulerName :: string
  ps_priorityClassName :: string
  ps_runtimeClassName :: "string option"
  ps_imagePullSecrets :: "string list"
  ps_securityContext :: "string option"
  ps_resources :: string

definition no_pod_settings :: pod_settings where
  "no_pod_settings = \<lparr>ps_nodeSelector = [], ps_affinity = None, ps_tolerations = [],
     ps_topologySpread = [], ps_schedulerName = [], ps_priorityClassName = [],
     ps_runtimeClassName = None, ps_imagePullSecrets = [], ps_securityContext = None, ps_resources = []\<rparr>"

section \<open>RsyncMachine\<close>

record run_history =
  rh_count :: int
  rh_successful :: int
  rh_failed :: int

definition HasCountLimit :: "run_history \<Rightarrow> bool" where
  "HasCountLimit h = (rh_count h > 0)"

definition SuccessfulOrDefault :: "run_history \<Rightarrow> int" where
  "SuccessfulOrDefault h = (if rh_successful h > 0 then rh_successful h else 5)"

definition FailedOrDefault :: "run_history \<Rightarrow> int" where
  "FailedOrDefault h = (if rh_failed h > 0 then rh_failed h else 5)"

record machine_spec =
  ms_pvcName :: string
  ms_image :: string
  ms_strategy :: strategy_type
  ms_allowedSourceNamespaces :: "string list"
  ms_allowedRestoreNamespaces :: "string list"
  ms_schedule :: string
  ms_concurrencyPolicy :: concurrency_policy
  ms_retention :: retention_policy
  ms_runHistory :: run_history
  ms_pod :: pod_settings

definition ConcurrencyPolicyOrDefault :: "machine_spec \<Rightarrow> concurrency_policy" where
  "ConcurrencyPolicyOrDefault s =
    (if ms_concurrencyPolicy s \<noteq> ConcurrencyUnset then ms_concurrencyPolicy s else ConcurrencyForbid)"

record restore_point =
  rp_snapshot :: string
  rp_resolvesTo :: string
  rp_tier :: string
  rp_createdAt :: "gotime option"
  rp_bytesTransferred :: int

record machine_status =
  mst_restorePointsUpdatedAt :: "gotime option"
  mst_restorePointCount :: int
  mst_restorePoints :: "restore_point list"
  mst_lastScheduledAt :: "gotime option"
  mst_conditions :: "condition list"

record rsync_machine =
  m_meta :: object_meta
  m_spec :: machine_spec
  m_status :: machine_status

section \<open>BackupSource\<close>

record consistency_options =
  co_capture :: capture_mode
  co_volumeSnapshotClassName :: string
  co_cleanupPolicy :: cleanup_policy

definition CaptureOrDefault :: "consistency_options \<Rightarrow> capture_mode" where
  "CaptureOrDefault o' = (if co_capture o' \<noteq> CaptureUnset then co_capture o' else CaptureAuto)"

definition CleanupPolicyOrDefault :: "consistency_options \<Rightarrow> cleanup_policy" where
  "CleanupPolicyOrDefault o' = (if co_cleanupPolicy o' \<noteq> CleanupUnset then co_cleanupPolicy o' else CleanupDelete)"

record source_spec =
  ss_machineRef :: object_ref
  ss_pvc :: string
  ss_sourcePath :: string
  ss_destinationPath :: string
  ss_consistency :: consistency_options
  ss_rsync :: rsync_options
  ss_pod :: pod_settings

definition SourcePathOrDefault :: "source_spec \<Rightarrow> string" where
  "SourcePathOrDefault s = (if ss_sourcePath s \<noteq> [] then ss_sourcePath s else ''/'')"

record backup_source =
  s_meta :: object_meta
  s_spec :: source_spec
  s_conditions :: "condition list"

section \<open>BackupJob\<close>

record backup_job_spec =
  bs_machineRef :: object_ref
  bs_trigger :: job_trigger

definition TriggerOrDefault :: "backup_job_spec \<Rightarrow> job_trigger" where
  "TriggerOrDefault s = (if bs_trigger s \<noteq> TriggerUnset then bs_trigger s else TriggerManual)"

record command_status =
  cs_id :: string
  cs_type :: string
  cs_sentAt :: "gotime option"
  cs_acknowledgedAt :: "gotime option"

text \<open>The speedup is a \<open>float64\<close> that the program only copies: its bit pattern.\<close>

record transfer_status =
  ts_source :: string
  ts_phase :: transfer_phase
  ts_percent :: "32 word"
  ts_bytesTransferred :: "64 word"
  ts_rateBytesPerSecond :: "64 word"
  ts_filesTransferred :: "64 word"
  ts_totalFiles :: "64 word"
  ts_totalFileSize :: "64 word"
  ts_bytesSent :: "64 word"
  ts_bytesReceived :: "64 word"
  ts_speedup :: "64 word"
  ts_message :: string
  ts_exitCode :: "32 word"
  ts_startedAt :: "gotime option"
  ts_completedAt :: "gotime option"
  ts_captureMethod :: capture_mode
  ts_volumeSnapshotName :: string
  ts_captureTime :: "gotime option"

definition empty_transfer :: "string \<Rightarrow> transfer_status" where
  "empty_transfer source = \<lparr>ts_source = source, ts_phase = TransferUnset, ts_percent = 0,
     ts_bytesTransferred = 0, ts_rateBytesPerSecond = 0, ts_filesTransferred = 0, ts_totalFiles = 0,
     ts_totalFileSize = 0, ts_bytesSent = 0, ts_bytesReceived = 0, ts_speedup = 0, ts_message = [],
     ts_exitCode = 0, ts_startedAt = None, ts_completedAt = None, ts_captureMethod = CaptureUnset,
     ts_volumeSnapshotName = [], ts_captureTime = None\<rparr>"

record backup_job_status =
  bj_phase :: run_phase
  bj_startedAt :: "gotime option"
  bj_completedAt :: "gotime option"
  bj_snapshotPath :: string
  bj_targetPhase :: string
  bj_lastCommand :: "command_status option"
  bj_includedMachines :: "object_ref list"
  bj_mergedInto :: "object_ref option"
  bj_transfers :: "transfer_status list"
  bj_conditions :: "condition list"

definition empty_backup_status :: backup_job_status where
  "empty_backup_status = \<lparr>bj_phase = RunUnset, bj_startedAt = None, bj_completedAt = None,
     bj_snapshotPath = [], bj_targetPhase = [], bj_lastCommand = None, bj_includedMachines = [],
     bj_mergedInto = None, bj_transfers = [], bj_conditions = []\<rparr>"

record backup_job =
  j_meta :: object_meta
  j_spec :: backup_job_spec
  j_status :: backup_job_status

section \<open>RestoreJob\<close>

record restore_destination =
  rd_namespace :: string
  rd_pvcName :: string
  rd_path :: string

record restore_job_spec =
  rs_sourceRef :: object_ref
  rs_snapshot :: string
  rs_destination :: restore_destination
  rs_rsync :: rsync_options
  rs_pod :: pod_settings

definition SnapshotOrDefault :: "restore_job_spec \<Rightarrow> string" where
  "SnapshotOrDefault s = (if rs_snapshot s \<noteq> [] then rs_snapshot s else ''latest'')"

record restore_job_status =
  rj_phase :: run_phase
  rj_startedAt :: "gotime option"
  rj_completedAt :: "gotime option"
  rj_restoredSnapshot :: string
  rj_exitCode :: "32 word"
  rj_message :: string
  rj_transfers :: "transfer_status list"
  rj_conditions :: "condition list"

record restore_job =
  r_meta :: object_meta
  r_spec :: restore_job_spec
  r_status :: restore_job_status

section \<open>Facts on the defaults\<close>

lemma strategy_default_not_unset [simp]: "strategy_TypeOrDefault s \<noteq> StrategyUnset"
  by (simp add: strategy_TypeOrDefault_def)

lemma nsname_string_inj:
  assumes "CHR ''/'' \<notin> set (fst a)" "CHR ''/'' \<notin> set (fst b)" "nsname_string a = nsname_string b"
  shows "a = b"
proof -
  have "cut_char CHR ''/'' (nsname_string x) = Some x" if "CHR ''/'' \<notin> set (fst x)" for x :: nsname
    using that by (cases x) (simp add: nsname_string_def cut_char_Some)
  then show ?thesis
    using assms by (metis option.inject)
qed

end
