(* ===== verification/Snapshot_Store.thy ===== *)
theory Snapshot_Store
  imports File_System Go_Time Api_Types
begin

text \<open>
  dataplane/snapshot.go: the snapshot store on the target volume. A run is
  received under \<open>.partial/<run>\<close>, promoted by a rename to \<open>hourly/<timestamp>\<close>,
  published through the \<open>latest\<close> link, hard-linked into the daily, weekly and
  monthly tiers, and pruned by the retention policy. The absolute root is a list
  of segments, and every function threads the file system through its calls.
\<close>

definition io_bind :: "'a io \<Rightarrow> ('a \<Rightarrow> fs \<Rightarrow> 'b io) \<Rightarrow> 'b io" where
  "io_bind m g = (case m of (Inl e, f) \<Rightarrow> (Inl e, f) | (Inr x, f) \<Rightarrow> g x f)"

lemma io_bind_simps [simp]: "io_bind (Inl e, f) g = (Inl e, f)" "io_bind (Inr x, f) g = g x f"
  by (simp_all add: io_bind_def)

record finalize_options =
  fo_targetRoot :: string
  fo_runID :: string
  fo_timestamp :: string
  fo_sources :: "string list"
  fo_retention :: retention_policy

text \<open>\<open>([]string, error)\<close>: the result list comes back with the error too.\<close>

type_synonym points_result = "(string list \<times> goerr option) \<times> fs"

abbreviation tier_names :: "string list" where
  "tier_names \<equiv> [''hourly'', ''daily'', ''weekly'', ''monthly'']"

section \<open>Paths of the store\<close>

definition weekStart :: "int \<Rightarrow> int" where
  "weekStart day = (let offset = (weekday day + 6) mod 7 in day - offset)"

definition tierSnapshotNames :: "gotime \<Rightarrow> string list" where
  "tierSnapshotNames ts = (let day = day_of_time ts in
     [path_join [''daily'', format_day day],
      path_join [''weekly'', format_day (weekStart day)],
      path_join [''monthly'', format_month day]])"

definition validateSnapshotSources :: "fs \<Rightarrow> path \<Rightarrow> string list \<Rightarrow> unit result" where
  "validateSnapshotSources f snapshotPath sources = fold_result (\<lambda>source u.
     case NormalizeRelativePath source of
       Inl e \<Rightarrow> Inl (wrapf ''invalid source %q: %w'' [source] e)
     | Inr _ \<Rightarrow> (case os_stat f (path_below snapshotPath source) of
         Inl e \<Rightarrow> Inl (wrapf ''expected source %q is missing from snapshot: %w'' [source] e)
       | Inr _ \<Rightarrow> Inr ())) sources ()"

section \<open>The latest link\<close>

definition replaceLatestSymlink :: "path \<Rightarrow> string \<Rightarrow> fs \<Rightarrow> unit io" where
  "replaceLatestSymlink root target f =
    (case NormalizeRelativePath target of
       Inl e \<Rightarrow> (Inl (wrapf ''invalid latest target %q: %w'' [target] e), f)
     | Inr _ \<Rightarrow> let targetPath = path_below root target in
       (case ensureInside root targetPath of
          Inl e \<Rightarrow> (Inl e, f)
        | Inr _ \<Rightarrow> (case os_stat f targetPath of
            Inl e \<Rightarrow> (Inl e, f)
          | Inr nd \<Rightarrow>
             if nd \<noteq> DirN then (Inl (errorf ''latest target %s is not a directory'' [path_string targetPath]), f)
             else let latest = path_below root ''latest''; tmp = path_below root ''latest.tmp'' in
               (case os_remove_all f tmp of (_, f) \<Rightarrow>
                io_bind (os_symlink f target tmp) (\<lambda>_ f.
                (case os_remove_all f latest of (_, f) \<Rightarrow>
                 os_rename f tmp latest))))))"

definition newestSnapshot :: "path \<Rightarrow> string \<Rightarrow> fs \<Rightarrow> string result" where
  "newestSnapshot root tier f =
    (case os_readdir f (path_below root tier) of
       Inl e \<Rightarrow> if errors_is ENOENT e then Inr [] else Inl e
     | Inr entries \<Rightarrow>
         let names = map fst (filter (\<lambda>(n, nd). nd = DirN) entries) in
         if names = [] then Inr [] else Inr (path_join [tier, last (sort names)]))"

definition latestSnapshotTarget :: "path \<Rightarrow> fs \<Rightarrow> string result" where
  "latestSnapshotTarget root f = (let latest = path_below root ''latest'' in
    (case os_lstat f latest of
       Inl e \<Rightarrow> if errors_is ENOENT e then Inr [] else Inl e
     | Inr (LinkN target) \<Rightarrow>
         (case NormalizeRelativePath target of
            Inl e \<Rightarrow> Inl (wrapf ''invalid latest target %q: %w'' [target] e)
          | Inr normalized \<Rightarrow> (case os_stat f (path_below root normalized) of
              Inl e \<Rightarrow> if errors_is ENOENT e then Inr [] else Inl e
            | Inr _ \<Rightarrow> Inr normalized))
     | Inr _ \<Rightarrow> newestSnapshot root ''hourly'' f))"

definition cleanupDanglingLatest :: "path \<Rightarrow> fs \<Rightarrow> unit io" where
  "cleanupDanglingLatest root f = (let latest = path_below root ''latest'' in
    (case os_lstat f latest of
       Inl e \<Rightarrow> if errors_is ENOENT e then (Inr (), f) else (Inl e, f)
     | Inr (LinkN target) \<Rightarrow>
         (case NormalizeRelativePath target of
            Inl e \<Rightarrow> os_remove f latest
          | Inr normalized \<Rightarrow> (case os_stat f (path_below root normalized) of
              Inl e \<Rightarrow> if errors_is ENOENT e then os_remove f latest else (Inl e, f)
            | Inr _ \<Rightarrow> (Inr (), f)))
     | Inr _ \<Rightarrow> (Inr (), f)))"

section \<open>Hard-link copies\<close>

text \<open>
  \<open>filepath.WalkDir\<close> visits the tree in lexical order of its segments, a
  directory before its entries; a callback error ends the walk. \<open>linkTree\<close> only
  writes below the destination, so the list of entries of the source is taken at
  the start of the walk.
\<close>

definition walk_entries :: "fs \<Rightarrow> path \<Rightarrow> (path \<times> node) list result" where
  "walk_entries f src = (case resolve max_symlinks f False [] src of
      Inl e \<Rightarrow> Inl e
    | Inr q \<Rightarrow> (case lookup f q of
        None \<Rightarrow> Inl (Sentinel ENOENT ''lstat'')
      | Some nd \<Rightarrow> Inr (([], nd) # map (\<lambda>p. (drop (length q) p, the (lookup f p)))
            (filter (\<lambda>p. p \<noteq> q) (subtree_paths f q)))))"

definition linkEntry :: "path \<Rightarrow> path \<Rightarrow> path \<times> node \<Rightarrow> fs \<Rightarrow> unit io" where
  "linkEntry src dst e f = (case e of (rel, nd) \<Rightarrow> let target = dst @ rel in
    if rel = [] then os_mkdir_all f target
    else (case nd of
        DirN \<Rightarrow> os_mkdir_all f target
      | FileN i \<Rightarrow> io_bind (os_mkdir_all f (butlast target)) (\<lambda>_ f. os_link f (src @ rel) target)
      | LinkN t \<Rightarrow> (case os_readlink f (src @ rel) of
            Inl e \<Rightarrow> (Inl e, f)
          | Inr link \<Rightarrow> io_bind (os_mkdir_all f (butlast target)) (\<lambda>_ f. os_symlink f link target))
      | SpecialN \<Rightarrow> (Inr (), f)))"

fun linkEntries :: "path \<Rightarrow> path \<Rightarrow> (path \<times> node) list \<Rightarrow> fs \<Rightarrow> unit io" where
  "linkEntries src dst [] f = (Inr (), f)"
| "linkEntries src dst (e # es) f = io_bind (linkEntry src dst e f) (\<lambda>_ f. linkEntries src dst es f)"

definition linkTree :: "path \<Rightarrow> path \<Rightarrow> fs \<Rightarrow> unit io" where
  "linkTree src dst f = (case walk_entries f src of
      Inl e \<Rightarrow> (Inl e, f)
    | Inr es \<Rightarrow> linkEntries src dst es f)"

section \<open>Retention\<close>

definition tier_keep :: "retention_policy \<Rightarrow> string \<Rightarrow> int" where
  "tier_keep policy tier = (if tier = ''hourly'' then ret_hourly policy
     else if tier = ''daily'' then ret_daily policy
     else if tier = ''weekly'' then ret_weekly policy else ret_monthly policy)"

text \<open>The inner loop removes the smallest names while more than \<open>keep\<close> are left.\<close>

fun prune_names :: "path \<Rightarrow> string \<Rightarrow> int \<Rightarrow> string list \<Rightarrow> string list \<Rightarrow> fs \<Rightarrow> points_result" where
  "prune_names root tier keep [] removed f = ((removed, None), f)"
| "prune_names root tier keep (n # names) removed f =
    (if int (length (n # names)) > keep then
       let name = path_join [tier, n] in
       (case os_remove_all f (path_below root name) of
          (Inl e, f) \<Rightarrow> ((removed, Some e), f)
        | (Inr _, f) \<Rightarrow> prune_names root tier keep names (removed @ [name]) f)
     else ((removed, None), f))"

fun retain_tiers :: "path \<Rightarrow> retention_policy \<Rightarrow> string list \<Rightarrow> string list \<Rightarrow> fs \<Rightarrow> points_result" where
  "retain_tiers root policy [] removed f = ((removed, None), f)"
| "retain_tiers root policy (tier # tiers) removed f = (let keep = tier_keep policy tier in
    if keep < 0 then retain_tiers root policy tiers removed f
    else (case os_readdir f (path_below root tier) of
        Inl e \<Rightarrow> if errors_is ENOENT e then retain_tiers root policy tiers removed f
                 else ((removed, Some e), f)
      | Inr entries \<Rightarrow>
          let names = sort (map fst (filter (\<lambda>(n, nd). nd = DirN) entries)) in
          (case prune_names root tier keep names removed f of
             ((removed, Some e), f) \<Rightarrow> ((removed, Some e), f)
           | ((removed, None), f) \<Rightarrow> retain_tiers root policy tiers removed f)))"

definition ApplyRetention :: "path \<Rightarrow> retention_policy \<Rightarrow> fs \<Rightarrow> points_result" where
  "ApplyRetention root policy f =
    (case retain_tiers root policy tier_names [] f of
       ((removed, Some e), f) \<Rightarrow> ((removed, Some e), f)
     | ((removed, None), f) \<Rightarrow> (case cleanupDanglingLatest root f of
           (Inl e, f) \<Rightarrow> ((removed, Some e), f)
         | (Inr _, f) \<Rightarrow> ((removed, None), f)))"

definition applyRetention :: "path \<Rightarrow> retention_policy \<Rightarrow> fs \<Rightarrow> unit io" where
  "applyRetention root policy f = (case ApplyRetention root policy f of
      ((_, Some e), f) \<Rightarrow> (Inl e, f) | ((_, None), f) \<Rightarrow> (Inr (), f))"

section \<open>Finalizing a run\<close>

fun create_tiers :: "path \<Rightarrow> path \<Rightarrow> string list \<Rightarrow> string list \<Rightarrow> fs \<Rightarrow> points_result" where
  "create_tiers root hourlyPath [] points f = ((points, None), f)"
| "create_tiers root hourlyPath (name # names) points f = (let dst = path_below root name in
    (case os_stat f dst of
       Inl e \<Rightarrow>
         if errors_is ENOENT e then
           (case linkTree hourlyPath dst f of
              (Inl e, f) \<Rightarrow> ((points, Some (wrapf ''create tier snapshot %s: %w'' [name] e)), f)
            | (Inr _, f) \<Rightarrow> create_tiers root hourlyPath names (points @ [name]) f)
         else ((points, Some e), f)
     | Inr _ \<Rightarrow> create_tiers root hourlyPath names points f))"

definition finalizePromotedSnapshot ::
  "path \<Rightarrow> string \<Rightarrow> path \<Rightarrow> gotime \<Rightarrow> string list \<Rightarrow> retention_policy \<Rightarrow> fs \<Rightarrow> points_result" where
  "finalizePromotedSnapshot root hourlyName hourlyPath ts sources retention f =
    (case validateSnapshotSources f hourlyPath sources of
       Inl e \<Rightarrow> (([], Some e), f)
     | Inr _ \<Rightarrow>
       (case replaceLatestSymlink root hourlyName f of
          (Inl e, f) \<Rightarrow> (([hourlyName], Some (wrapf ''refresh latest: %w'' [] e)), f)
        | (Inr _, f) \<Rightarrow>
          (case create_tiers root hourlyPath (tierSnapshotNames ts) [hourlyName, ''latest -> '' @ hourlyName] f of
             ((points, Some e), f) \<Rightarrow> ((points, Some e), f)
           | ((points, None), f) \<Rightarrow>
             (case applyRetention root retention f of
                (Inl e, f) \<Rightarrow> ((points, Some e), f)
              | (Inr _, f) \<Rightarrow> ((points, None), f)))))"

definition FinalizeBackup :: "path \<Rightarrow> finalize_options \<Rightarrow> fs \<Rightarrow> points_result" where
  "FinalizeBackup cwd opts f =
    (if fo_targetRoot opts = [] \<or> fo_runID opts = [] \<or> fo_timestamp opts = []
     then (([], Some (errorf ''target root, run id, and timestamp are required'' [])), f)
     else case validateRunID (fo_runID opts) of Inl e \<Rightarrow> (([], Some e), f) | Inr _ \<Rightarrow>
     (case parse_timestamp (fo_timestamp opts) of
        None \<Rightarrow> (([], Some (wrapf ''invalid timestamp %q: %w'' [fo_timestamp opts] (errorf ''parsing time'' []))), f)
      | Some ts \<Rightarrow>
        let root = abs_path cwd (fo_targetRoot opts);
            partial = path_below root (join ''/'' [''.partial'', fo_runID opts]) in
        (case ensureInside root partial of Inl e \<Rightarrow> (([], Some e), f) | Inr _ \<Rightarrow>
        let hourlyName = path_join [''hourly'', fo_timestamp opts];
            hourlyPath = path_below root hourlyName;
            finish = finalizePromotedSnapshot root hourlyName hourlyPath ts (fo_sources opts) (fo_retention opts) in
        (case os_stat f partial of
           Inl err \<Rightarrow>
             let notReady = wrapf ''partial run is not ready: %w'' [] err in
             if errors_is ENOENT err then
               (case finish f of
                  ((points, None), f) \<Rightarrow> ((points, None), f)
                | ((points, Some e), f) \<Rightarrow> (([], Some notReady), f))
             else (([], Some notReady), f)
         | Inr info \<Rightarrow>
             if info \<noteq> DirN then (([], Some (errorf ''partial run %s is not a directory'' [path_string partial])), f)
             else (case validateSnapshotSources f partial (fo_sources opts) of
                Inl e \<Rightarrow> (([], Some e), f)
              | Inr _ \<Rightarrow> (case os_stat f hourlyPath of
                  Inr _ \<Rightarrow> finish f
                | Inl e \<Rightarrow> if \<not> errors_is ENOENT e then (([], Some e), f)
                    else (case os_mkdir_all f (butlast hourlyPath) of
                        (Inl e, f) \<Rightarrow> (([], Some e), f)
                      | (Inr _, f) \<Rightarrow> (case os_rename f partial hourlyPath of
                          (Inl e, f) \<Rightarrow> (([], Some (wrapf ''promote partial snapshot: %w'' [] e)), f)
                        | (Inr _, f) \<Rightarrow> finish f))))))))"

section \<open>Restore points\<close>

record dp_restore_point =
  dp_snapshot :: string
  dp_resolvesTo :: string
  dp_tier :: string
  dp_createdAt :: gotime
  dp_bytesTransferred :: "64 word"

definition or_zero :: "gotime option \<Rightarrow> gotime" where
  "or_zero t = (case t of None \<Rightarrow> zero_time | Some x \<Rightarrow> x)"

definition parseSnapshotTime :: "string \<Rightarrow> gotime" where
  "parseSnapshotTime snapshot = (case split_on CHR ''/'' snapshot of
      [tier, name] \<Rightarrow>
        if tier = ''hourly'' then or_zero (parse_timestamp name)
        else if tier = ''daily'' \<or> tier = ''weekly'' then or_zero (parse_date name)
        else if tier = ''monthly'' then or_zero (parse_month name)
        else zero_time
    | _ \<Rightarrow> zero_time)"

fun scan_tiers :: "path \<Rightarrow> fs \<Rightarrow> string list \<Rightarrow> dp_restore_point list result" where
  "scan_tiers root f [] = Inr []"
| "scan_tiers root f (tier # tiers) =
    (case os_readdir f (path_below root tier) of
       Inl e \<Rightarrow> if errors_is ENOENT e then scan_tiers root f tiers else Inl e
     | Inr entries \<Rightarrow>
        (case scan_tiers root f tiers of Inl e \<Rightarrow> Inl e | Inr rest \<Rightarrow>
           Inr (map (\<lambda>(n, nd). let snapshot = path_join [tier, n] in
                  \<lparr>dp_snapshot = snapshot, dp_resolvesTo = [], dp_tier = tier,
                   dp_createdAt = parseSnapshotTime snapshot, dp_bytesTransferred = 0\<rparr>)
                (filter (\<lambda>(n, nd). nd = DirN) entries) @ rest)))"

text \<open>The point named latest comes first, the others in descending order of their names.\<close>

definition ScanRestorePoints :: "path \<Rightarrow> fs \<Rightarrow> dp_restore_point list result" where
  "ScanRestorePoints root f =
    (case latestSnapshotTarget root f of Inl e \<Rightarrow> Inl e | Inr latestTarget \<Rightarrow>
     (case (case os_stat f (path_below root ''latest'') of
              Inr _ \<Rightarrow> Inr [\<lparr>dp_snapshot = ''latest'', dp_resolvesTo = latestTarget, dp_tier = [],
                             dp_createdAt = parseSnapshotTime latestTarget, dp_bytesTransferred = 0\<rparr>]
            | Inl e \<Rightarrow> if errors_is ENOENT e then Inr [] else Inl e) of
        Inl e \<Rightarrow> Inl e
      | Inr latest \<Rightarrow> (case scan_tiers root f tier_names of
            Inl e \<Rightarrow> Inl e
          | Inr points \<Rightarrow> Inr (latest @ rev (sort_key dp_snapshot points)))))"

section \<open>The lock file and stale partial runs\<close>

record target_lock =
  tl_path :: path
  tl_runID :: string

definition lock_text :: "string \<Rightarrow> string \<Rightarrow> string \<Rightarrow> string \<Rightarrow> string" where
  "lock_text runID createdAt hostname pid =
     ''runID='' @ runID @ [CHR 0x0A] @ ''createdAt='' @ createdAt @ [CHR 0x0A]
     @ ''hostname='' @ hostname @ [CHR 0x0A] @ ''pid='' @ pid @ [CHR 0x0A]"

definition AcquireTargetLock ::
  "path \<Rightarrow> string \<Rightarrow> string \<Rightarrow> string \<Rightarrow> string \<Rightarrow> fs \<Rightarrow> target_lock io" where
  "AcquireTargetLock root runID createdAt hostname pid f =
    (case validateRunID runID of Inl e \<Rightarrow> (Inl e, f) | Inr _ \<Rightarrow>
     io_bind (os_mkdir_all f root) (\<lambda>_ f.
     let path = path_below root ''.krm-run.lock'' in
     (case os_create_excl f path of
        (Inl e, f) \<Rightarrow>
          (if errors_is EEXIST e then
             (case os_read_file f path of
                Inr data \<Rightarrow> (Inl (errorf ''target is locked: %s'' [trim_space data]), f)
              | Inl _ \<Rightarrow> (Inl e, f))
           else (Inl e, f))
      | (Inr _, f) \<Rightarrow>
          (case os_write_file f path (lock_text runID createdAt hostname pid) of
             (Inl e, f) \<Rightarrow> (case os_remove f path of (_, f) \<Rightarrow> (Inl e, f))
           | (Inr _, f) \<Rightarrow> (Inr \<lparr>tl_path = path, tl_runID = runID\<rparr>, f)))))"

definition lockDataMatchesRunID :: "string \<Rightarrow> string \<Rightarrow> bool" where
  "lockDataMatchesRunID data runID = (''runID='' @ runID \<in> set (split_on (CHR 0x0A) data))"

definition ReleaseTargetLock :: "target_lock \<Rightarrow> fs \<Rightarrow> unit io" where
  "ReleaseTargetLock l f =
    (case os_read_file f (tl_path l) of
       Inl e \<Rightarrow> if errors_is ENOENT e then (Inr (), f) else (Inl e, f)
     | Inr data \<Rightarrow>
         if \<not> lockDataMatchesRunID data (tl_runID l)
         then (Inl (errorf ''lock %s is no longer owned by run %s'' [path_string (tl_path l), tl_runID l]), f)
         else os_remove f (tl_path l))"

fun remove_partials :: "path \<Rightarrow> string list \<Rightarrow> string list \<Rightarrow> string list \<Rightarrow> fs \<Rightarrow> points_result" where
  "remove_partials partialRoot active [] removed f = ((sort removed, None), f)"
| "remove_partials partialRoot active (n # names) removed f =
    (if n \<in> set active then remove_partials partialRoot active names removed f
     else (case os_remove_all f (path_below partialRoot n) of
         (Inl e, f) \<Rightarrow> ((removed, Some e), f)
       | (Inr _, f) \<Rightarrow> remove_partials partialRoot active names (removed @ [n]) f))"

definition CleanupStalePartials :: "path \<Rightarrow> string list \<Rightarrow> fs \<Rightarrow> points_result" where
  "CleanupStalePartials root activeRunIDs f =
    (case fold_result (\<lambda>r active. if r = [] then Inr active
            else (case validateRunID r of Inl e \<Rightarrow> Inl e | Inr _ \<Rightarrow> Inr (r # active))) activeRunIDs [] of
       Inl e \<Rightarrow> (([], Some e), f)
     | Inr active \<Rightarrow>
        let partialRoot = path_below root ''.partial'' in
        (case os_readdir f partialRoot of
           Inl e \<Rightarrow> if errors_is ENOENT e then (([], None), f) else (([], Some e), f)
         | Inr entries \<Rightarrow>
             remove_partials partialRoot active (map fst (filter (\<lambda>(n, nd). nd = DirN) entries)) [] f))"

section \<open>Recovering space\<close>

text \<open>
  The modification time of an entry and the free space are answers of the
  operating system: \<open>mtime\<close> and \<open>avail\<close> are parameters.
\<close>

fun tier_entries :: "path \<Rightarrow> fs \<Rightarrow> string list \<Rightarrow> string list result" where
  "tier_entries root f [] = Inr []"
| "tier_entries root f (tier # tiers) =
    (case os_readdir f (path_below root tier) of
       Inl e \<Rightarrow> if errors_is ENOENT e then tier_entries root f tiers else Inl e
     | Inr entries \<Rightarrow> (case tier_entries root f tiers of Inl e \<Rightarrow> Inl e
         | Inr rest \<Rightarrow> Inr (map (\<lambda>(n, nd). path_join [tier, n]) (filter (\<lambda>(n, nd). nd = DirN) entries) @ rest)))"

definition removableSnapshots :: "(string \<Rightarrow> int) \<Rightarrow> path \<Rightarrow> fs \<Rightarrow> string list result" where
  "removableSnapshots mtime root f = (case tier_entries root f tier_names of
      Inl e \<Rightarrow> Inl e | Inr names \<Rightarrow> Inr (sort_key (\<lambda>n. (mtime n, n)) names))"

fun recover_loop :: "(fs \<Rightarrow> (64 word) result) \<Rightarrow> path \<Rightarrow> 64 word \<Rightarrow> string list \<Rightarrow> string list
    \<Rightarrow> 64 word \<Rightarrow> string list \<Rightarrow> fs \<Rightarrow> points_result" where
  "recover_loop avail root minBytes protected [] available removed f =
    ((removed, Some (errorf ''available space %d is below requested minimum %d after pruning %d snapshots''
        [dec_of_nat (unat available), dec_of_nat (unat minBytes), dec_of_nat (length removed)])), f)"
| "recover_loop avail root minBytes protected (c # cs) available removed f =
    (if c \<in> set protected then recover_loop avail root minBytes protected cs available removed f
     else (case os_remove_all f (path_below root c) of
         (Inl e, f) \<Rightarrow> ((removed, Some e), f)
       | (Inr _, f) \<Rightarrow> (case avail f of
             Inl e \<Rightarrow> ((removed @ [c], Some e), f)
           | Inr available \<Rightarrow>
               if minBytes \<le> available then ((removed @ [c], None), f)
               else recover_loop avail root minBytes protected cs available (removed @ [c]) f)))"

definition RecoverSpace :: "(fs \<Rightarrow> (64 word) result) \<Rightarrow> (string \<Rightarrow> int) \<Rightarrow> path \<Rightarrow> 64 word
    \<Rightarrow> string list \<Rightarrow> fs \<Rightarrow> points_result" where
  "RecoverSpace avail mtime root minBytes protectedSnapshots f =
    (case avail f of Inl e \<Rightarrow> (([], Some e), f) | Inr available \<Rightarrow>
     if minBytes \<le> available then (([], None), f)
     else (case map_result (\<lambda>s. case NormalizeRelativePath s of
              Inl e \<Rightarrow> Inl (wrapf ''invalid protected snapshot %q: %w'' [s] e) | Inr n \<Rightarrow> Inr n) protectedSnapshots of
         Inl e \<Rightarrow> (([], Some e), f)
       | Inr protected \<Rightarrow> (case removableSnapshots mtime root f of
           Inl e \<Rightarrow> (([], Some e), f)
         | Inr candidates \<Rightarrow> recover_loop avail root minBytes protected candidates available [] f)))"

end
