(* ===== verification/Fs_Facts.thy ===== *)
theory Fs_Facts
  imports File_System
begin

text \<open>
  Facts about the file-system calls on a well-formed tree: what each call does at
  an entry whose directory exists and has no links above it, and that every call
  keeps the tree well formed.
\<close>

named_theorems fs_call \<open>the effect of one call at an existing directory\<close>

section \<open>Lookup after an update\<close>

lemma lookup_add_node [simp]:
  "p \<noteq> [] \<Longrightarrow> lookup (add_node p nd f) q = (if q = p then Some nd else lookup f q)"
  by (auto simp: lookup_def add_node_def)

lemma add_node_fields [simp]: "fs_io (add_node p nd f) = fs_io f" "fs_data (add_node p nd f) = fs_data f"
  by (simp_all add: add_node_def)

lemma del_nodes_fields [simp]: "fs_io (del_nodes P f) = fs_io f" "fs_data (del_nodes P f) = fs_data f"
  by (simp_all add: del_nodes_def)

lemma lookup_io [simp]: "lookup (f\<lparr>fs_io := x\<rparr>) p = lookup f p"
  by (simp add: lookup_def)

lemma lookup_data [simp]: "lookup (f\<lparr>fs_data := x\<rparr>) p = lookup f p"
  by (simp add: lookup_def)

lemma map_of_filter_key:
  "map_of (filter (\<lambda>(q, nd). \<not> P q) xs) p = (if P p then None else map_of xs p)"
  by (induction xs) auto

lemma lookup_del_nodes:
  "p \<noteq> [] \<Longrightarrow> lookup (del_nodes P f) p = (if P p then None else lookup f p)"
  by (simp add: lookup_def del_nodes_def map_of_filter_key)

lemma resolve_cong:
  "(\<And>p. lookup f p = lookup g p) \<Longrightarrow> resolve n f fl cur todo = resolve n g fl cur todo"
proof (induction n f fl cur todo rule: resolve.induct)
  case (2 n f fl cur s rest)
  note look = 2(5)
  show ?case
  proof (cases "lookup g (cur @ [s])")
    case None
    then show ?thesis
      using 2 by (simp add: look)
  next
    case (Some nd)
    show ?thesis
    proof (cases nd)
      case (LinkN t)
      then show ?thesis
        using 2(1,2) 2(4) [of nd t] look Some by (cases n) simp_all
    qed (use 2(1-3) look Some in simp_all)
  qed
qed simp

lemma fs_wf_io [simp]: "fs_wf (f\<lparr>fs_io := x\<rparr>) = fs_wf f"
  by (simp add: fs_wf_def)

lemma fs_wf_data [simp]: "fs_wf (f\<lparr>fs_data := x\<rparr>) = fs_wf f"
  by (simp add: fs_wf_def)

lemma fs_wf_add_node:
  assumes "fs_wf f" "lookup f d = Some DirN" "plain_seg s" "lookup f (d @ [s]) = None"
  shows "fs_wf (add_node (d @ [s]) nd f)"
proof -
  let ?f = "add_node (d @ [s]) nd f"
  have new: "d @ [s] \<notin> set (map fst (fs_tree f))"
    using assms(4) by (auto simp: lookup_def map_of_eq_None_iff)
  have par: "lookup ?f (butlast p) = Some DirN" if "p \<in> set (map fst (fs_tree f))" for p
    using that assms(1,4) unfolding fs_wf_def by fastforce
  show ?thesis
    using assms new par lookup_plain [OF assms(1,2)] unfolding fs_wf_def
    by (auto simp: add_node_def lookup_def)
qed

section \<open>Where resolution ends\<close>

lemma lookup_butlast:
  assumes "fs_wf f" "lookup f p = Some nd"
  shows "lookup f (butlast p) = Some DirN"
proof (cases "p = []")
  case False
  then show ?thesis
    using lookup_parent [OF assms(1), of "butlast p" "last p" nd] assms(2) by simp
qed simp

lemma resolve_parent:
  assumes "fs_wf f" "lookup f cur = Some DirN" "\<forall>s\<in>set todo. CHR ''/'' \<notin> set s"
    and "resolve n f fl cur todo = Inr q"
  shows "lookup f (butlast q) = Some DirN \<and> plain q"
  using assms
proof (induction n f fl cur todo rule: resolve.induct)
  case (1 n f fl cur)
  then show ?case
    using lookup_butlast lookup_plain by auto
next
  case (2 n f fl cur s rest)
  note wf = 2(5) and cur = 2(6)
  have seps: "\<forall>x\<in>set (split_on CHR ''/'' t @ rest). CHR ''/'' \<notin> set x" for t
    using 2(7) by (auto dest: split_on_no_sep)
  show ?case
  proof (cases "s = [] \<or> s = ''.'' \<or> s = ''..''")
    case True
    then show ?thesis
      using 2 lookup_butlast [OF wf cur] by (auto split: if_splits)
  next
    case False
    then have pl: "plain (cur @ [s])"
      using 2(7) lookup_plain [OF wf cur] by (simp add: plain_seg_def)
    show ?thesis
    proof (cases "lookup f (cur @ [s])")
      case None
      then show ?thesis
        using 2(8) False pl cur by (auto split: if_splits)
    next
      case (Some nd)
      then show ?thesis
        using 2 False pl seps by (cases nd) (auto split: if_splits nat.splits)
    qed
  qed
qed

section \<open>Every call keeps the tree well formed\<close>

lemma fs_wf_tree_eq: "fs_tree f = fs_tree g \<Longrightarrow> fs_wf f = fs_wf g"
  by (simp add: fs_wf_def lookup_def)

lemma plain_add_seps: "plain p \<Longrightarrow> \<forall>s\<in>set p. CHR ''/'' \<notin> set s"
  by (rule plain_no_sep)

lemma resolve_abs_parent:
  assumes "fs_wf f" "plain p" "resolve n f fl [] p = Inr q"
  shows "lookup f (butlast q) = Some DirN" "plain q"
  using resolve_parent [OF assms(1), of "[]" p n fl q] assms plain_no_sep by auto

lemma with_io_None [simp]: "fs_io f = None \<Longrightarrow> with_io g f = g f"
  by (simp add: with_io_def)

lemma with_io_cases:
  assumes "with_io g f = (r, f')"
  obtains "f' = f" "r = Inl (Sentinel EIO ''input/output error'')" | x where "g (f\<lparr>fs_io := x\<rparr>) = (r, f')"
proof (cases "fs_io f")
  case None
  then have "f\<lparr>fs_io := None\<rparr> = f"
    by simp
  then show thesis
    using that(2) [of None] assms None by (simp only: with_io_None)
next
  case (Some k)
  then show thesis
    using that assms by (cases k) (simp_all add: with_io_def)
qed

lemma os_create_cases:
  assumes "os_create f p nd = (r, f')"
  obtains (unchanged) "f' = f" "\<not> is_ok r"
    | (created) q x where "resolve max_symlinks f False [] p = Inr q" "lookup f q = None" "r = Inr ()"
        "f' = add_node q nd (f\<lparr>fs_io := x\<rparr>)"
proof (cases "resolve max_symlinks f False [] p")
  case (Inl e)
  show thesis
    by (rule unchanged) (use assms Inl in \<open>auto simp: os_create_def\<close>)
next
  case (Inr q)
  show thesis
  proof (cases "lookup f q")
    case None
    then have "with_io (\<lambda>f. (Inr (), add_node q nd f)) f = (r, f')"
      using assms Inr by (simp add: os_create_def)
    then show thesis
    proof (cases rule: with_io_cases)
      case 1
      show thesis by (rule unchanged) (use 1 in auto)
    next
      case (2 x)
      show thesis by (rule created [OF Inr None, of x]) (use 2 in auto)
    qed
  next
    case (Some nd')
    show thesis
      by (rule unchanged) (use assms Inr Some in \<open>auto simp: os_create_def\<close>)
  qed
qed

lemma os_create_wf:
  assumes "fs_wf f" "plain p" "os_create f p nd = (r, f')"
  shows "fs_wf f'"
  using assms(3)
proof (cases rule: os_create_cases)
  case (created q x)
  have "q \<noteq> []"
    using created(2) by auto
  then show ?thesis
    using resolve_abs_parent [OF assms(1,2) created(1)] created assms(1)
      fs_wf_add_node [of "f\<lparr>fs_io := x\<rparr>" "butlast q" "last q" nd]
    by (cases q rule: rev_cases) auto
qed (use assms(1) in simp)

lemma os_mkdir_all_wf:
  "fs_wf f \<Longrightarrow> plain p \<Longrightarrow> os_mkdir_all f p = (r, f') \<Longrightarrow> fs_wf f'"
proof (induction f p arbitrary: r f' rule: os_mkdir_all.induct)
  case (1 f p)
  have pb: "plain (butlast p)"
    using 1(3) by (auto simp: list_all_iff dest: in_set_butlastD)
  have step: "fs_wf g' \<Longrightarrow> os_mkdir g' p = (r', g) \<Longrightarrow> fs_wf g" for g' r' g
    using os_create_wf 1(3) by (auto simp: os_mkdir_def)
  show ?case
  proof (cases "os_stat f p")
    case (Inl e)
    obtain r1 f1 where f1: "(if length p \<le> 1 then (Inr (), f) else os_mkdir_all f (butlast p)) = (r1, f1)"
      by fastforce
    then have wf1: "fs_wf f1"
      using 1(1) [OF Inl _ 1(2) pb, of r1 f1] 1(2) by (auto split: if_splits)
    obtain r2 f2 where f2: "os_mkdir f1 p = (r2, f2)"
      by fastforce
    show ?thesis
      using 1(4) wf1 step [OF wf1 f2] Inl f1 f2 
      by (subst (asm) os_mkdir_all.simps) (auto split: sum.splits node.splits)
  next
    case (Inr nd)
    then show ?thesis
      using 1(2,4) by (subst (asm) os_mkdir_all.simps) (auto split: node.splits)
  qed
qed

lemma fs_wf_del_nodes:
  assumes "fs_wf f" and "\<And>p s. P p \<Longrightarrow> lookup f (p @ [s]) \<noteq> None \<Longrightarrow> P (p @ [s])"
  shows "fs_wf (del_nodes P f)"
proof -
  let ?f = "del_nodes P f"
  have keys: "set (map fst (fs_tree ?f)) \<subseteq> {p \<in> set (map fst (fs_tree f)). \<not> P p}"
    by (auto simp: del_nodes_def)
  have "lookup ?f (butlast p) = Some DirN" if "p \<in> set (map fst (fs_tree f))" "\<not> P p" for p
  proof (cases "butlast p = []")
    case False
    have p: "p \<noteq> []" "lookup f (butlast p) = Some DirN" "lookup f p \<noteq> None"
      using that assms(1) unfolding fs_wf_def by (auto simp: lookup_def map_of_eq_None_iff)
    then have "\<not> P (butlast p)"
      using that(2) assms(2) [of "butlast p" "last p"] by auto
    then show ?thesis
      using p False by (simp add: lookup_del_nodes)
  qed simp
  moreover have "distinct (map fst (fs_tree ?f))"
    using assms(1) unfolding fs_wf_def by (simp add: del_nodes_def distinct_map_filter)
  ultimately show ?thesis
    using assms(1) keys unfolding fs_wf_def by blast
qed

lemma take_rev_sorted_upward:
  fixes xs :: "'a::linorder list"
  assumes "sorted xs" "x \<in> set (take k (rev xs))" "y \<in> set xs" "x < y"
  shows "y \<in> set (take k (rev xs))"
proof (rule ccontr)
  assume n: "y \<notin> set (take k (rev xs))"
  have "y \<in> set (take k (rev xs) @ drop k (rev xs))"
    using assms(3) by simp
  then have "y \<in> set (drop k (rev xs))"
    using n by (simp del: append_take_drop_id)
  moreover have "sorted_wrt (\<ge>) (take k (rev xs) @ drop k (rev xs))"
    using assms(1) by (simp add: sorted_wrt_rev)
  ultimately have "x \<ge> y"
    using assms(2) by (auto simp only: sorted_wrt_append)
  with assms(4) show False by simp
qed

lemma list_less_snoc: "(p :: path) < p @ [s]"
  by (simp add: list_less_def lexord_append_rightI)

lemma mem_keys_iff: "p \<noteq> [] \<Longrightarrow> p \<in> set (map fst (fs_tree f)) \<longleftrightarrow> lookup f p \<noteq> None"
  by (auto simp: lookup_def map_of_eq_None_iff)

lemma set_subtree_paths [simp]:
  "fs_wf f \<Longrightarrow> set (subtree_paths f p) = {q. prefix p q \<and> q \<noteq> [] \<and> lookup f q \<noteq> None}"
  unfolding subtree_paths_def using mem_keys_iff [of _ f] by (auto simp: fs_wf_def)

lemma os_remove_all_wf:
  assumes "fs_wf f" "os_remove_all f p = (r, f')"
  shows "fs_wf f'"
proof (cases "resolve max_symlinks f False [] p")
  case (Inl e)
  then show ?thesis
    using assms by (auto simp: os_remove_all_def split: if_splits)
next
  case (Inr q)
  let ?v = "rev (subtree_paths f q)"
  have all: "fs_wf (del_nodes (prefix q) f)"
    using assms(1) by (rule fs_wf_del_nodes) auto
  have "fs_wf (del_nodes (\<lambda>x. x \<in> set (take k ?v)) f)" for k
  proof (rule fs_wf_del_nodes [OF assms(1)])
    fix x s
    assume x: "x \<in> set (take k ?v)" and l: "lookup f (x @ [s]) \<noteq> None"
    have "x \<in> set (subtree_paths f q)"
      using in_set_takeD [OF x] by simp
    then have "x @ [s] \<in> set (subtree_paths f q)"
      using l by (auto simp: assms(1))
    then show "x @ [s] \<in> set (take k ?v)"
      using take_rev_sorted_upward [OF _ x] list_less_snoc by (simp add: subtree_paths_def)
  qed
  then show ?thesis
    using assms(2) all Inr by (auto simp: os_remove_all_def Let_def split: option.splits if_splits)
qed

lemma sort_key_Nil: "sort_key k xs = [] \<Longrightarrow> xs = []"
  by (metis length_0_conv length_sort)

lemma os_remove_wf:
  assumes "fs_wf f" "os_remove f p = (r, f')"
  shows "fs_wf f'"
proof (cases "resolve max_symlinks f False [] p")
  case (Inr q)
  have "fs_wf (del_nodes (\<lambda>x. x = q) g)" if "fs_tree g = fs_tree f" "lookup f q = Some nd"
    "nd = DirN \<Longrightarrow> children f q = []" for g nd
  proof (rule fs_wf_del_nodes)
    show "fs_wf g"
      using assms(1) that(1) fs_wf_tree_eq by blast
    fix x s assume x: "x = q" "lookup g (x @ [s]) \<noteq> None"
    have l: "lookup f (q @ [s]) \<noteq> None"
      using x that(1) by (simp add: lookup_def)
    then have "nd = DirN"
      using lookup_parent [OF assms(1)] that(2) by auto
    then have "children f q = []"
      using that(3) by simp
    moreover have "(q @ [s], the (lookup f (q @ [s]))) \<in> set (fs_tree f)"
      using l lookup_Some_set by fastforce
    ultimately have False
      by (fastforce simp: children_def filter_empty_conv dest!: sort_key_Nil)
    then show "x @ [s] = q" ..
  qed
  then show ?thesis
    using assms Inr by (auto simp: os_remove_def split: option.splits if_splits elim!: with_io_cases)
qed (use assms in \<open>auto simp: os_remove_def\<close>)

lemma os_link_wf:
  "fs_wf f \<Longrightarrow> plain new \<Longrightarrow> os_link f old new = (r, f') \<Longrightarrow> fs_wf f'"
  using os_create_wf by (auto simp: os_link_def split: sum.splits node.splits)

section \<open>Renaming\<close>

lemma map_of_map_key:
  assumes "inj_on g (insert q (fst ` set xs))"
  shows "map_of (map (\<lambda>(p, n). (g p, n)) xs) (g q) = map_of xs q"
  using assms by (induction xs) (auto simp: inj_on_def)

definition moved :: "path \<Rightarrow> path \<Rightarrow> fs \<Rightarrow> fs" where
  "moved a b f = f\<lparr>fs_tree := map (\<lambda>(p, n). (move_path a b p, n)) (filter (\<lambda>(p, n). p \<noteq> b) (fs_tree f))\<rparr>"

definition movable :: "path \<Rightarrow> path \<Rightarrow> fs \<Rightarrow> bool" where
  "movable a b f = (fs_wf f \<and> plain b \<and> lookup f a \<noteq> None \<and> lookup f b \<noteq> Some DirN \<and> \<not> prefix a b
     \<and> lookup f (butlast b) = Some DirN)"

lemma movable_facts:
  assumes mv: "movable a b f"
  shows "fs_wf f" "a \<noteq> []" "b \<noteq> []" "\<not> prefix a b" "plain b"
  using mv by (auto simp: movable_def)

lemma nothing_below_target:
  assumes mv: "movable a b f" and "lookup f (b @ r) \<noteq> None"
  shows "r = []"
  using assms(2) mv lookup_ancestor [of f b r] unfolding movable_def by fastforce

lemma target_not_above:
  assumes mv: "movable a b f"
  shows "\<not> prefix b a"
proof
  assume "prefix b a"
  then obtain r where "a = b @ r" by (auto simp: prefix_def)
  then show False
    using nothing_below_target [OF mv, of r] mv by (cases "r = []") (auto simp: movable_def)
qed

lemma moved_keys:
  assumes mv: "movable a b f" and "p \<in> fst ` set (filter (\<lambda>(p, n). p \<noteq> b) (fs_tree f))"
  shows "p \<noteq> [] \<and> \<not> prefix b p"
proof -
  from assms(2) have p: "p \<in> set (map fst (fs_tree f))" "p \<noteq> b"
    by auto
  then have "p \<noteq> []" "lookup f p \<noteq> None"
    using movable_facts(1) [OF mv] mem_keys_iff [of p f] unfolding fs_wf_def by blast+
  then show ?thesis
    using nothing_below_target [OF mv] p(2) by (auto simp: prefix_def)
qed

lemma move_path_inj: "inj_on (move_path a b) {p. \<not> prefix b p \<or> prefix a p}"
proof (rule inj_onI)
  fix x y
  assume xy: "x \<in> {p. \<not> prefix b p \<or> prefix a p}" "y \<in> {p. \<not> prefix b p \<or> prefix a p}"
    "move_path a b x = move_path a b y"
  show "x = y"
  proof (cases "prefix a x"; cases "prefix a y")
    assume "prefix a x" "prefix a y"
    then show ?thesis
      using xy(3) by (auto simp: move_path_def prefix_def)
  next
    assume "prefix a x" "\<not> prefix a y"
    then have "prefix b y"
      using xy(3) by (auto simp: move_path_def)
    then show ?thesis
      using xy(2) \<open>\<not> prefix a y\<close> by simp
  next
    assume "\<not> prefix a x" "prefix a y"
    then have "prefix b x"
      using xy(3) by (auto simp: move_path_def)
    then show ?thesis
      using xy(1) \<open>\<not> prefix a x\<close> by simp
  next
    assume "\<not> prefix a x" "\<not> prefix a y"
    then show ?thesis
      using xy(3) by (simp add: move_path_def)
  qed
qed

lemma map_of_moved:
  assumes mv: "movable a b f" and "\<not> prefix b q \<or> prefix a q"
  shows "map_of (fs_tree (moved a b f)) (move_path a b q) = map_of (filter (\<lambda>(p, n). p \<noteq> b) (fs_tree f)) q"
proof -
  have "inj_on (move_path a b) (insert q (fst ` set (filter (\<lambda>(p, n). p \<noteq> b) (fs_tree f))))"
    by (rule inj_on_subset [OF move_path_inj]) (use assms(2) moved_keys [OF mv] in auto)
  then show ?thesis
    unfolding moved_def by (simp add: map_of_map_key)
qed

lemma map_of_keep: "p \<noteq> [] \<Longrightarrow> p \<noteq> b \<Longrightarrow> map_of (filter (\<lambda>(p, n). p \<noteq> b) (fs_tree f)) p = lookup f p"
  using map_of_filter_key [of "\<lambda>p. p = b" "fs_tree f" p] by (simp add: lookup_def)

lemma lookup_moved:
  assumes mv: "movable a b f"
  shows "lookup (moved a b f) p = (if prefix b p then lookup f (a @ drop (length b) p)
     else if prefix a p then None else lookup f p)"
proof (cases "prefix b p")
  case True
  then obtain r where r: "p = b @ r" by (auto simp: prefix_def)
  have "\<not> prefix b (a @ r) \<or> prefix a (a @ r)" "a @ r \<noteq> b" "p \<noteq> []"
    using movable_facts [OF mv] r by auto
  then show ?thesis
    using map_of_moved [OF mv, of "a @ r"] map_of_keep [of "a @ r"] movable_facts [OF mv] r
    by (simp add: move_path_def lookup_def)
next
  case nb: False
  show ?thesis
  proof (cases "prefix a p")
    case True
    have "p \<notin> fst ` set (fs_tree (moved a b f))"
    proof
      assume "p \<in> fst ` set (fs_tree (moved a b f))"
      then obtain x where "p = move_path a b x"
        by (auto simp: moved_def)
      then show False
        using nb True by (auto simp: move_path_def split: if_splits)
    qed
    then show ?thesis
      using nb True movable_facts [OF mv] by (auto simp: lookup_def map_of_eq_None_iff)
  next
    case False
    show ?thesis
    proof (cases "p = []")
      case pn: False
      have "p \<noteq> b" "move_path a b p = p"
        using nb False by (auto simp: move_path_def)
      then show ?thesis
        using map_of_moved [OF mv, of p] map_of_keep [of p] nb False pn by (simp add: lookup_def)
    qed (use movable_facts [OF mv] in simp)
  qed
qed

lemma moved_wf:
  assumes mv: "movable a b f"
  shows "fs_wf (moved a b f)"
proof -
  have keys: "set (map fst (fs_tree (moved a b f))) =
      move_path a b ` (fst ` set (filter (\<lambda>(p, n). p \<noteq> b) (fs_tree f)))"
    by (force simp: moved_def)
  have dist: "distinct (map fst (fs_tree (moved a b f)))"
  proof -
    let ?xs = "filter (\<lambda>(p, n). p \<noteq> b) (fs_tree f)"
    have "map fst (fs_tree (moved a b f)) = map (move_path a b) (map fst ?xs)"
      by (auto simp: moved_def)
    moreover have "distinct (map fst ?xs)"
      using movable_facts(1) [OF mv] unfolding fs_wf_def by (simp add: distinct_map_filter)
    moreover have "inj_on (move_path a b) (set (map fst ?xs))"
      by (rule inj_on_subset [OF move_path_inj]) (use moved_keys [OF mv] in auto)
    ultimately show ?thesis
      by (simp only: distinct_map simp_thms)
  qed
  have "move_path a b x \<noteq> [] \<and> plain (move_path a b x) \<and>
      lookup (moved a b f) (butlast (move_path a b x)) = Some DirN"
    if x: "x \<in> fst ` set (filter (\<lambda>(p, n). p \<noteq> b) (fs_tree f))" for x
  proof -
    have x': "x \<in> set (map fst (fs_tree f))" "x \<noteq> b" "\<not> prefix b x" "x \<noteq> []"
      using x moved_keys [OF mv x] by auto
    have px: "plain x" "lookup f (butlast x) = Some DirN"
      using x'(1) movable_facts(1) [OF mv] unfolding fs_wf_def by blast+
    show ?thesis
    proof (cases "prefix a x")
      case True
      then obtain r where r: "x = a @ r" by (auto simp: prefix_def)
      show ?thesis
      proof (cases "r = []")
        case True
        have "\<not> prefix b (butlast b)"
          using movable_facts(3) [OF mv] prefix_length_le [of b "butlast b"] by (cases b) auto
        moreover have "\<not> prefix a (butlast b)"
          using movable_facts(4) [OF mv] by (auto dest: prefix_order.trans [OF _ prefixeq_butlast])
        ultimately show ?thesis
          using True r mv movable_facts [OF mv] by (simp add: move_path_def lookup_moved [OF mv] movable_def)
      next
        case False
        then show ?thesis
          using r px movable_facts [OF mv] by (simp add: move_path_def lookup_moved [OF mv] butlast_append)
      qed
    next
      case False
      have "\<not> prefix a (butlast x)"
        using False by (auto dest: prefix_order.trans [OF _ prefixeq_butlast])
      moreover have "\<not> prefix b (butlast x)"
        using x'(3) by (auto dest: prefix_order.trans [OF _ prefixeq_butlast])
      ultimately show ?thesis
        using False px x'(4) by (simp add: move_path_def lookup_moved [OF mv])
    qed
  qed
  then show ?thesis
    using dist by (simp only: fs_wf_def keys image_iff ball_simps) blast
qed

lemma os_rename_wf:
  assumes "fs_wf f" "plain new" "os_rename f old new = (r, f')"
  shows "fs_wf f'"
proof (cases "f' = f \<or> (\<exists>x. f' = f\<lparr>fs_io := x\<rparr>)")
  case False
  obtain a b nd x where ab: "resolve max_symlinks f False [] new = Inr b" "lookup f a = Some nd"
      "lookup f b \<noteq> Some DirN" "\<not> prefix a b" "f' = moved a b (f\<lparr>fs_io := x\<rparr>)"
    using assms(3) False
    by (auto simp: os_rename_def moved_def split: sum.splits option.splits if_splits elim!: with_io_cases)
  have "movable a b (f\<lparr>fs_io := x\<rparr>)"
    using ab assms(1) resolve_abs_parent [OF assms(1,2) ab(1)] by (simp add: movable_def)
  then show ?thesis
    using moved_wf ab(5) by simp
qed (use assms in auto)

section \<open>Calls at an entry of an existing directory\<close>

lemma os_create_at [fs_call]:
  assumes "fs_wf f" "lookup f d = Some DirN" "plain_seg s"
  shows "os_create f (d @ [s]) nd = (case lookup f (d @ [s]) of
      Some _ \<Rightarrow> (Inl (Sentinel EEXIST ''file exists''), f)
    | None \<Rightarrow> with_io (\<lambda>f. (Inr (), add_node (d @ [s]) nd f)) f)"
  using resolve_entry [OF assms, of False] by (simp add: os_create_def)

lemma os_mkdir_all_dir [fs_call]:
  "fs_wf f \<Longrightarrow> lookup f p = Some DirN \<Longrightarrow> os_mkdir_all f p = (Inr (), f)"
  by (subst os_mkdir_all.simps) (simp add: os_stat_dir)

lemma os_mkdir_all_entry [fs_call]:
  assumes "fs_wf f" "lookup f d = Some DirN" "plain_seg s" "lookup f (d @ [s]) = None" "fs_io f = None"
  shows "os_mkdir_all f (d @ [s]) = (Inr (), add_node (d @ [s]) DirN f)"
proof -
  have "os_mkdir f (d @ [s]) = (Inr (), add_node (d @ [s]) DirN f)"
    using assms by (simp add: os_mkdir_def os_create_at)
  moreover have "os_stat f (d @ [s]) = Inl (Sentinel ENOENT ''stat'')"
    using assms os_stat_entry [OF assms(1-3)] by simp
  ultimately show ?thesis
    using os_mkdir_all_dir [OF assms(1,2)] by (subst os_mkdir_all.simps) (cases "d = []"; simp)
qed

lemma os_mkdir_all_entry2 [fs_call]:
  assumes "fs_wf f" "lookup f d = Some DirN" "plain_seg s" "plain_seg t" "lookup f (d @ [s]) = None"
    "fs_io f = None"
  shows "os_mkdir_all f (d @ [s, t]) = (Inr (), add_node (d @ [s, t]) DirN (add_node (d @ [s]) DirN f))"
proof -
  let ?g = "add_node (d @ [s]) DirN f"
  have g: "fs_wf ?g" "lookup ?g (d @ [s]) = Some DirN" "fs_io ?g = None"
    using assms fs_wf_add_node by auto
  have "lookup f (d @ [s, t]) = None"
    using lookup_ancestor [OF assms(1), of "d @ [s]" "[t]"] assms(5) by fastforce
  then have m: "lookup ?g (d @ [s, t]) = None"
    by simp
  have "resolve n f True [] (d @ [s, t]) = Inl (Sentinel ENOENT s)" for n
    using resolve_missing [OF assms(1-3) assms(5), of "[t]"] by simp
  then have "os_stat f (d @ [s, t]) = Inl (Sentinel ENOENT s)"
    by (simp add: os_stat_def os_stat_gen_def)
  moreover have "os_mkdir ?g (d @ [s, t]) = (Inr (), add_node (d @ [s, t]) DirN ?g)"
    using os_create_at [OF g(1,2) assms(4)] m g(3) by (simp add: os_mkdir_def)
  ultimately show ?thesis
    using os_mkdir_all_entry [OF assms(1-3,5,6)]
    by (subst os_mkdir_all.simps) (simp add: butlast_append)
qed

lemma os_remove_all_at [fs_call]:
  assumes "fs_wf f" "lookup f d = Some DirN" "plain_seg s" "fs_io f = None"
  shows "os_remove_all f (d @ [s]) = (Inr (), del_nodes (prefix (d @ [s])) f)"
  using resolve_entry [OF assms(1-3), of False] assms(4) by (simp add: os_remove_all_def Let_def)

lemma os_rename_at [fs_call]:
  assumes "fs_wf f" "lookup f d = Some DirN" "plain_seg s" "lookup f e = Some DirN" "plain_seg t" "fs_io f = None"
    and "lookup f (d @ [s]) \<noteq> None" "lookup f (e @ [t]) = None" "\<not> prefix (d @ [s]) (e @ [t])"
  shows "os_rename f (d @ [s]) (e @ [t]) = (Inr (), moved (d @ [s]) (e @ [t]) f)"
    and "movable (d @ [s]) (e @ [t]) f"
proof -
  have "d @ [s] \<noteq> e @ [t]"
    using assms(9) by auto
  then show "os_rename f (d @ [s]) (e @ [t]) = (Inr (), moved (d @ [s]) (e @ [t]) f)"
    using assms resolve_entry [OF assms(1-3), of False] resolve_entry [OF assms(1,4,5), of False]
    by (auto simp: os_rename_def moved_def)
  show "movable (d @ [s]) (e @ [t]) f"
    using assms lookup_plain [OF assms(1,4)] by (auto simp: movable_def)
qed

lemma children_iff:
  assumes "fs_wf f"
  shows "(n, nd) \<in> set (children f d) \<longleftrightarrow> lookup f (d @ [n]) = Some nd"
proof -
  have "(n, nd) \<in> set (children f d) \<longleftrightarrow> (d @ [n], nd) \<in> set (fs_tree f)"
    by (force simp: children_def dest: append_butlast_last_id [symmetric])
  also have "\<dots> \<longleftrightarrow> lookup f (d @ [n]) = Some nd"
    using assms unfolding fs_wf_def by (simp add: lookup_def)
  finally show ?thesis .
qed

lemma distinct_children:
  assumes "fs_wf f"
  shows "distinct (map fst (children f d))"
proof -
  let ?xs = "filter (\<lambda>(q, nd). q \<noteq> [] \<and> butlast q = d) (fs_tree f)"
  have "distinct (map fst ?xs)"
    using assms unfolding fs_wf_def by (simp add: distinct_map_filter)
  moreover have "inj_on last (set (map fst ?xs))"
    by (auto simp: inj_on_def) (metis append_butlast_last_id)
  ultimately have "distinct (map last (map fst ?xs))"
    by (simp only: distinct_map [of last] simp_thms)
  moreover have "map last (map fst ?xs) = map fst (map (\<lambda>(q, nd). (last q, nd)) ?xs)"
    by (simp add: case_prod_unfold comp_def)
  ultimately have d: "distinct (map fst (map (\<lambda>(q, nd). (last q, nd)) ?xs))"
    by (simp add: comp_def case_prod_unfold)
  have "mset (map fst (children f d)) = mset (map fst (map (\<lambda>(q, nd). (last q, nd)) ?xs))"
    unfolding children_def mset_map mset_sort ..
  then show ?thesis
    using d mset_eq_imp_distinct_iff by blast
qed

lemma os_readdir_at [fs_call]:
  assumes "fs_wf f" "lookup f d = Some DirN" "plain_seg s" "\<forall>t. lookup f (d @ [s]) \<noteq> Some (LinkN t)"
  shows "os_readdir f (d @ [s]) = (case lookup f (d @ [s]) of
      None \<Rightarrow> Inl (Sentinel ENOENT ''open'')
    | Some DirN \<Rightarrow> Inr (children f (d @ [s]))
    | Some _ \<Rightarrow> Inl (Sentinel ENOTDIR ''readdirent''))"
  using resolve_entry [OF assms(1-3), of True] assms(4) by (simp add: os_readdir_def)

lemma os_readlink_at [fs_call]:
  assumes "fs_wf f" "lookup f d = Some DirN" "plain_seg s" "lookup f (d @ [s]) = Some (LinkN t)"
  shows "os_readlink f (d @ [s]) = Inr t"
  using os_lstat_entry [OF assms(1-3)] assms(4) by (simp add: os_readlink_def)

lemma os_link_at [fs_call]:
  assumes "fs_wf f" "lookup f d = Some DirN" "plain_seg s" "lookup f (d @ [s]) = Some (FileN i)"
    and "lookup f e = Some DirN" "plain_seg t" "lookup f (e @ [t]) = None" "fs_io f = None"
  shows "os_link f (d @ [s]) (e @ [t]) = (Inr (), add_node (e @ [t]) (FileN i) f)"
  using os_lstat_entry [OF assms(1-3)] os_create_at [OF assms(1,5,6)] assms(4,7,8)
  by (simp add: os_link_def)

lemma os_symlink_at [fs_call]:
  assumes "fs_wf f" "lookup f d = Some DirN" "plain_seg s" "lookup f (d @ [s]) = None" "fs_io f = None"
  shows "os_symlink f t (d @ [s]) = (Inr (), add_node (d @ [s]) (LinkN t) f)"
  using os_create_at [OF assms(1-3)] assms(4,5) by (simp add: os_symlink_def)

end
