(* ===== verification/Snapshot_Facts.thy ===== *)
theory Snapshot_Facts
  imports Snapshot_Store Fs_Facts
begin

text \<open>
  Correctness of the snapshot store: hard-link copies, promotion, retention,
  recovery of space, the lock file and the removal of stale partial runs, on a
  store whose tree is well formed and whose top-level directories are real
  directories.
\<close>

section \<open>Hard-link copies reproduce the tree\<close>

definition linkable :: "node option \<Rightarrow> node option" where
  "linkable x = (if x = Some SpecialN then None else x)"

lemma linkable_simps [simp]: "linkable None = None" "linkable (Some DirN) = Some DirN"
  "linkable (Some (FileN i)) = Some (FileN i)" "linkable (Some (LinkN t)) = Some (LinkN t)"
  "linkable (Some SpecialN) = None"
  by (simp_all add: linkable_def)

text \<open>The state after the entries \<open>dn\<close> of the walk have been copied.\<close>

definition copying :: "path \<Rightarrow> path \<Rightarrow> fs \<Rightarrow> path set \<Rightarrow> fs \<Rightarrow> bool" where
  "copying src dst f dn g = (fs_wf g \<and> fs_io g = None \<and> fs_data g = fs_data f \<and>
     (\<forall>p. \<not> prefix dst p \<longrightarrow> lookup g p = lookup f p) \<and>
     (\<forall>rel. lookup g (dst @ rel) = (if rel \<in> dn then linkable (lookup f (src @ rel)) else None)))"

lemma copying_add:
  assumes "copying src dst f dn g" "lookup g (dst @ d) = Some DirN" "plain_seg s" "d @ [s] \<notin> dn"
    and "lookup f (src @ d @ [s]) = Some nd" "nd \<noteq> SpecialN"
  shows "copying src dst f (insert (d @ [s]) dn) (add_node (dst @ d @ [s]) nd g)"
proof -
  have "fs_wf (add_node ((dst @ d) @ [s]) nd g)"
    using assms by (intro fs_wf_add_node) (auto simp: copying_def)
  then show ?thesis
    using assms by (auto simp: copying_def linkable_def)
qed

lemma linkEntry_step:
  assumes c: "copying src dst f dn g"
    and wf: "fs_wf f" and sep: "\<not> prefix dst src"
    and src: "lookup f (src @ d @ [s]) = Some nd" and d: "d \<in> dn" and new: "d @ [s] \<notin> dn"
    and disj: "\<not> prefix src dst"
  shows "\<exists>g'. linkEntry src dst (d @ [s], nd) g = (Inr (), g') \<and> copying src dst f (insert (d @ [s]) dn) g'"
proof -
  have sd: "lookup f (src @ d) = Some DirN"
    using src lookup_ancestor [OF wf, of "src @ d" "[s]"] by simp
  have ps: "plain_seg s"
    using lookup_plain [OF wf src] by simp
  have nsub: "\<not> prefix dst (src @ x)" for x
    using sep disj prefix_same_cases [of dst "src @ x" src] by auto
  have g: "fs_wf g" "fs_io g = None" "lookup g (dst @ d) = Some DirN" "lookup g ((dst @ d) @ [s]) = None"
    "lookup g (src @ d) = Some DirN" "lookup g ((src @ d) @ [s]) = Some nd"
    using c d new sd src nsub by (auto simp: copying_def)
  have b: "butlast (dst @ d @ [s]) = dst @ d"
    by (simp add: butlast_append)
  note add = copying_add [OF c g(3) ps new src]
  show ?thesis
  proof (cases nd)
    case DirN
    then show ?thesis
      using os_mkdir_all_entry [OF g(1,3) ps g(4) g(2)] add by (simp add: linkEntry_def)
  next
    case (FileN i)
    then show ?thesis
      using os_mkdir_all_dir [OF g(1,3)] os_link_at [OF g(1,5) ps _ g(3) ps g(4) g(2), of i] g(6) add b
      by (simp add: linkEntry_def)
  next
    case (LinkN t)
    then show ?thesis
      using os_mkdir_all_dir [OF g(1,3)] os_readlink_at [OF g(1,5) ps, of t] g(6)
        os_symlink_at [OF g(1,3) ps g(4) g(2), of t] add b
      by (simp add: linkEntry_def)
  next
    case SpecialN
    then show ?thesis
      using c src by (auto simp: linkEntry_def copying_def)
  qed
qed

text \<open>A walk lists the root first and every other entry after its directory.\<close>

fun preorder :: "path set \<Rightarrow> path list \<Rightarrow> bool" where
  "preorder dn [] = True"
| "preorder dn (rel # rels) = (rel \<noteq> [] \<and> butlast rel \<in> dn \<and> rel \<notin> dn \<and> preorder (insert rel dn) rels)"

lemma linkEntries_run:
  assumes "fs_wf f" "\<not> prefix dst src" "\<not> prefix src dst"
    and "copying src dst f dn g" "preorder dn (map fst es)"
    and "\<forall>(rel, nd)\<in>set es. lookup f (src @ rel) = Some nd"
  shows "\<exists>g'. linkEntries src dst es g = (Inr (), g') \<and> copying src dst f (dn \<union> fst ` set es) g'"
  using assms(4-)
proof (induction es arbitrary: dn g)
  case (Cons e es)
  obtain rel nd where e: "e = (rel, nd)" by fastforce
  obtain d s where rel: "rel = d @ [s]"
    using Cons.prems(2) e by (cases rel rule: rev_cases) auto
  obtain g1 where g1: "linkEntry src dst e g = (Inr (), g1)" "copying src dst f (insert rel dn) g1"
    using linkEntry_step [OF Cons.prems(1) assms(1,2), of d s nd] Cons.prems(2,3) assms(3) e rel by auto
  then show ?case
    using Cons.IH [OF g1(2)] Cons.prems(2,3) e by auto
qed auto

lemma preorder_sorted:
  assumes "sorted xs" "distinct xs"
    and "\<forall>p\<in>set xs. \<exists>d s. p = src @ d @ [s] \<and> (d \<in> dn \<or> src @ d \<in> set xs)"
    and "\<forall>p\<in>set xs. drop (length src) p \<notin> dn"
  shows "preorder dn (map (drop (length src)) xs)"
  using assms
proof (induction xs arbitrary: dn)
  case (Cons x xs)
  obtain d s where x: "x = src @ d @ [s]" "d \<in> dn \<or> src @ d \<in> set (x # xs)"
    using Cons.prems(3) by auto
  have "src @ d < x"
    using list_less_snoc [of "src @ d" s] x(1) by simp
  then have "d \<in> dn"
    using x(2) Cons.prems(1) by auto
  moreover have "preorder (insert (d @ [s]) dn) (map (drop (length src)) xs)"
  proof (rule Cons.IH)
    show "\<forall>p\<in>set xs. \<exists>d' s'. p = src @ d' @ [s'] \<and> (d' \<in> insert (d @ [s]) dn \<or> src @ d' \<in> set xs)"
    proof
      fix p assume "p \<in> set xs"
      then obtain d' s' where "p = src @ d' @ [s']" "d' \<in> dn \<or> src @ d' \<in> set (x # xs)"
        using Cons.prems(3) by auto
      then show "\<exists>d' s'. p = src @ d' @ [s'] \<and> (d' \<in> insert (d @ [s]) dn \<or> src @ d' \<in> set xs)"
        using x(1) by auto
    qed
    show "\<forall>p\<in>set xs. drop (length src) p \<notin> insert (d @ [s]) dn"
    proof
      fix p assume p: "p \<in> set xs"
      then obtain r where "p = src @ r"
        using Cons.prems(3) by auto
      then show "drop (length src) p \<notin> insert (d @ [s]) dn"
        using Cons.prems(2,4) p x(1) by auto
    qed
  qed (use Cons.prems in auto)
  ultimately show ?case
    using x(1) Cons.prems(4) by auto
qed simp

lemma walk_dir:
  assumes "fs_wf f" "lookup f src = Some DirN"
  obtains es where "walk_entries f src = Inr (([], DirN) # es)" "preorder {[]} (map fst es)"
    "\<forall>(rel, nd)\<in>set es. lookup f (src @ rel) = Some nd"
    "insert [] (fst ` set es) = {rel. lookup f (src @ rel) \<noteq> None}"
proof -
  let ?xs = "filter (\<lambda>p. p \<noteq> src) (subtree_paths f src)"
  let ?es = "map (\<lambda>p. (drop (length src) p, the (lookup f p))) ?xs"
  have w: "walk_entries f src = Inr (([], DirN) # ?es)"
    using resolve_dir [OF assms, of max_symlinks False] assms(2) by (simp add: walk_entries_def)
  have xs: "p \<in> set ?xs \<longleftrightarrow> (\<exists>rel. rel \<noteq> [] \<and> p = src @ rel \<and> lookup f p \<noteq> None)" for p
    using assms(1) by (auto simp: prefix_def)
  have "preorder {[]} (map (drop (length src)) ?xs)"
  proof (rule preorder_sorted)
    show "sorted ?xs" "distinct ?xs"
      using assms(1) by (auto simp: subtree_paths_def fs_wf_def sorted_filter [where f = id, simplified])
    show "\<forall>p\<in>set ?xs. \<exists>d s. p = src @ d @ [s] \<and> (d \<in> {[]} \<or> src @ d \<in> set ?xs)"
    proof
      fix p assume "p \<in> set ?xs"
      then obtain rel where r: "rel \<noteq> []" "p = src @ rel" "lookup f p \<noteq> None"
        using xs by blast
      then obtain d s where ds: "rel = d @ [s]"
        by (cases rel rule: rev_cases) auto
      then have "lookup f (src @ d) = Some DirN"
        using r lookup_ancestor [OF assms(1), of "src @ d" "[s]"] by auto
      then have "d \<in> {[]} \<or> src @ d \<in> set ?xs"
        unfolding xs by auto
      then show "\<exists>d s. p = src @ d @ [s] \<and> (d \<in> {[]} \<or> src @ d \<in> set ?xs)"
        using r(2) ds by blast
    qed
    show "\<forall>p\<in>set ?xs. drop (length src) p \<notin> {[]}"
      using xs by fastforce
  qed
  then have "preorder {[]} (map fst ?es)"
    by (simp add: comp_def)
  moreover have "\<forall>(rel, nd)\<in>set ?es. lookup f (src @ rel) = Some nd"
    using xs by fastforce
  moreover have "insert [] (fst ` set ?es) = {rel. lookup f (src @ rel) \<noteq> None}"
  proof -
    have "fst ` set ?es = drop (length src) ` set ?xs"
      by (force simp: image_image)
    also have "\<dots> = {rel. rel \<noteq> [] \<and> lookup f (src @ rel) \<noteq> None}"
    proof (intro set_eqI iffI)
      fix rel assume "rel \<in> {rel. rel \<noteq> [] \<and> lookup f (src @ rel) \<noteq> None}"
      then have "src @ rel \<in> set ?xs"
        unfolding xs by auto
      then show "rel \<in> drop (length src) ` set ?xs"
        by force
    qed (use xs in fastforce)
    finally show ?thesis
      using assms(2) by auto
  qed
  ultimately show thesis
    using that w by blast
qed

text \<open>The whole copy: below the destination the tree of the source, elsewhere no change
  but the tier directory.\<close>

lemma linkTree_run:
  assumes wf: "fs_wf f" and io: "fs_io f = None" and src: "lookup f src = Some DirN"
    and e: "lookup f e = Some DirN" "plain_seg tier" "lookup f (e @ [tier]) \<in> {None, Some DirN}"
    and name: "plain_seg name" "lookup f (e @ [tier, name]) = None"
    and disj: "\<not> prefix src (e @ [tier, name])"
  shows "\<exists>g. linkTree src (e @ [tier, name]) f = (Inr (), g) \<and> fs_wf g \<and> fs_io g = None
    \<and> fs_data g = fs_data f
    \<and> (\<forall>p. lookup g p = (if prefix (e @ [tier, name]) p then linkable (lookup f (src @ drop (length e + 2) p))
         else if p = e @ [tier] then Some DirN else lookup f p))"
proof -
  let ?dst = "e @ [tier, name]"
  have sep: "\<not> prefix ?dst src"
  proof
    assume "prefix ?dst src"
    then obtain r where "src = ?dst @ r" by (auto simp: prefix_def)
    then show False
      using src name(2) lookup_ancestor [OF wf, of ?dst r DirN] by (cases "r = []") auto
  qed
  have none: "lookup f (?dst @ r) = None" for r
    using name(2) lookup_ancestor [OF wf, of ?dst r] by (cases "r = []") fastforce+
  obtain g0 where g0: "os_mkdir_all f ?dst = (Inr (), g0)" "fs_wf g0" "fs_io g0 = None" "fs_data g0 = fs_data f"
    "\<And>p. lookup g0 p = (if p = ?dst then Some DirN else if p = e @ [tier] then Some DirN else lookup f p)"
  proof (cases "lookup f (e @ [tier])")
    case None
    let ?g1 = "add_node (e @ [tier]) DirN f" and ?g = "add_node ?dst DirN (add_node (e @ [tier]) DirN f)"
    have "fs_wf ?g1"
      using fs_wf_add_node [OF wf e(1,2) None] .
    then have "fs_wf ?g"
      using fs_wf_add_node [of ?g1 "e @ [tier]" name] name by simp
    then show thesis
      using that os_mkdir_all_entry2 [OF wf e(1,2) name(1) None io] io by simp
  next
    case (Some nd)
    then have d: "lookup f (e @ [tier]) = Some DirN"
      using e(3) by auto
    let ?g = "add_node ?dst DirN f"
    have "fs_wf ?g"
      using fs_wf_add_node [OF wf d name(1)] name(2) by simp
    then show thesis
      using that os_mkdir_all_entry [OF wf d name(1) _ io] name(2) io d by auto
  qed
  obtain es where es: "walk_entries f src = Inr (([], DirN) # es)" "preorder {[]} (map fst es)"
    "\<forall>(rel, nd)\<in>set es. lookup f (src @ rel) = Some nd"
    "insert [] (fst ` set es) = {rel. lookup f (src @ rel) \<noteq> None}"
    using walk_dir [OF wf src] .
  obtain h where f': "fs_wf h" "\<And>p. lookup h p = (if p = e @ [tier] then Some DirN else lookup f p)"
    "fs_data h = fs_data f"
  proof (cases "lookup f (e @ [tier])")
    case None
    then show thesis
      using that [of "add_node (e @ [tier]) DirN f"] fs_wf_add_node [OF wf e(1,2)] by simp
  next
    case (Some nd)
    then show thesis
      using that [of f] wf e(3) by auto
  qed
  have "\<not> prefix src (e @ [tier])"
    using disj prefix_order.trans [of src "e @ [tier]" ?dst] by auto
  then have "src @ x \<noteq> e @ [tier]" for x
    by (metis prefixI)
  then have src': "lookup h (src @ x) = lookup f (src @ x)" for x
    unfolding f'(2) by simp
  have "copying src ?dst h {[]} g0"
    using g0 f' src src' [of "[]"] none by (auto simp: copying_def)
  then obtain g where g: "linkEntries src ?dst es g0 = (Inr (), g)"
    "copying src ?dst h ({[]} \<union> fst ` set es) g"
    using linkEntries_run [OF f'(1) sep disj _ es(2)] es(3) src' by fastforce
  have "linkTree src ?dst f = (Inr (), g)"
    using g(1) g0(1) es(1) by (simp add: linkTree_def linkEntry_def)
  moreover have "lookup g p = (if prefix ?dst p then linkable (lookup f (src @ drop (length e + 2) p))
      else if p = e @ [tier] then Some DirN else lookup f p)" for p
  proof (cases "prefix ?dst p")
    case True
    then obtain rel where p: "p = ?dst @ rel" by (auto simp: prefix_def)
    then have "lookup g p = (if lookup f (src @ rel) \<noteq> None then linkable (lookup f (src @ rel)) else None)"
      using g(2) es(4) src' by (simp add: copying_def)
    then show ?thesis
      using p by auto
  next
    case False
    then show ?thesis
      using g(2) f'(2) by (simp add: copying_def)
  qed
  ultimately show ?thesis
    using g(2) f'(3) by (auto simp: copying_def)
qed

section \<open>The shape of a store\<close>

definition store_ok :: "path \<Rightarrow> fs \<Rightarrow> bool" where
  "store_ok root f = (fs_wf f \<and> lookup f root = Some DirN \<and>
     (\<forall>top\<in>set (''.partial'' # tier_names). lookup f (root @ [top]) \<in> {None, Some DirN}) \<and>
     (\<forall>(p, nd)\<in>set (fs_tree f). butlast p \<in> set (map (\<lambda>tier. root @ [tier]) tier_names) \<longrightarrow>
        (case nd of LinkN t \<Rightarrow> False | _ \<Rightarrow> True)))"

lemma store_ok_iff:
  "store_ok root f \<longleftrightarrow> fs_wf f \<and> lookup f root = Some DirN \<and>
     (\<forall>top\<in>set (''.partial'' # tier_names). lookup f (root @ [top]) \<in> {None, Some DirN}) \<and>
     (\<forall>tier\<in>set tier_names. \<forall>n t. lookup f (root @ [tier, n]) \<noteq> Some (LinkN t))"
proof -
  have "(\<forall>(p, nd)\<in>set (fs_tree f). butlast p \<in> set (map (\<lambda>tier. root @ [tier]) tier_names) \<longrightarrow>
        (case nd of LinkN t \<Rightarrow> False | _ \<Rightarrow> True))
     \<longleftrightarrow> (\<forall>tier\<in>set tier_names. \<forall>n t. lookup f (root @ [tier, n]) \<noteq> Some (LinkN t))" if wf: "fs_wf f"
  proof -
    have mem: "(p, nd) \<in> set (fs_tree f) \<longleftrightarrow> p \<noteq> [] \<and> lookup f p = Some nd" for p nd
      using wf unfolding fs_wf_def by (force simp: lookup_def)
    have kind: "(case nd of LinkN t \<Rightarrow> False | _ \<Rightarrow> True) \<longleftrightarrow> (\<forall>t. nd \<noteq> LinkN t)" for nd
      by (cases nd) auto
    have "(\<forall>tier\<in>set tier_names. \<forall>n t. lookup f (root @ [tier, n]) \<noteq> Some (LinkN t))
      \<longleftrightarrow> (\<forall>p t. p \<noteq> [] \<and> butlast p \<in> set (map (\<lambda>tier. root @ [tier]) tier_names) \<longrightarrow> lookup f p \<noteq> Some (LinkN t))"
    proof (intro iffI allI impI)
      fix p t
      assume a: "\<forall>tier\<in>set tier_names. \<forall>n t. lookup f (root @ [tier, n]) \<noteq> Some (LinkN t)"
        and p: "p \<noteq> [] \<and> butlast p \<in> set (map (\<lambda>tier. root @ [tier]) tier_names)"
      then obtain tier where t: "tier \<in> set tier_names" "butlast p = root @ [tier]"
        by auto
      then have "p = root @ [tier, last p]"
        using p append_butlast_last_id [of p] by simp
      then show "lookup f p \<noteq> Some (LinkN t)"
        using a t(1) by metis
    qed (auto simp: butlast_append)
    then show ?thesis
      unfolding Ball_def [of "set (fs_tree f)"] split_paired_All prod.case kind mem by blast
  qed
  then show ?thesis
    unfolding store_ok_def by blast
qed

text \<open>Specifications speak about the tree: which node is at which path.\<close>

type_synonym tree = "path \<Rightarrow> node option"

definition snapshot_names :: "path \<Rightarrow> string \<Rightarrow> tree \<Rightarrow> string set" where
  "snapshot_names root tier t = {n. t (root @ [tier, n]) = Some DirN}"

lemma plain_tiers [simp]: "tier \<in> set tier_names \<Longrightarrow> plain_seg tier"
  by (auto simp: plain_seg_def)

lemma path_join2: "plain_seg a \<Longrightarrow> plain_seg b \<Longrightarrow> path_join [a, b] = a @ ''/'' @ b"
  using path_join_plain [of "[a]" "[b]"] by simp

lemma path_below2: "plain root \<Longrightarrow> plain_seg a \<Longrightarrow> plain_seg b \<Longrightarrow> path_below root (path_join [a, b]) = root @ [a, b]"
  using path_below_plain [of root "[a, b]"] by (simp add: path_join2)

lemma path_below1: "plain root \<Longrightarrow> plain_seg a \<Longrightarrow> path_below root a = root @ [a]"
  using path_below_plain [of root "[a]"] by simp

lemma snapshot_names_plain: "fs_wf f \<Longrightarrow> n \<in> snapshot_names root tier (lookup f) \<Longrightarrow> plain_seg n"
  using lookup_plain [of f "root @ [tier, n]"] by (auto simp: snapshot_names_def)

lemma tier_listing:
  assumes "store_ok root f" "tier \<in> set tier_names"
  shows "os_readdir f (path_below root tier) = (case lookup f (root @ [tier]) of
      None \<Rightarrow> Inl (Sentinel ENOENT ''open'') | Some _ \<Rightarrow> Inr (children f (root @ [tier])))"
proof -
  have *: "fs_wf f" "lookup f root = Some DirN" "plain root" "lookup f (root @ [tier]) \<in> {None, Some DirN}"
    using assms lookup_plain by (auto simp: store_ok_iff)
  show ?thesis
    using os_readdir_at [OF *(1,2) plain_tiers [OF assms(2)]] * plain_tiers [OF assms(2)]
    by (auto simp: path_below1 split: option.split node.split)
qed

definition dir_names :: "fs \<Rightarrow> path \<Rightarrow> string list" where
  "dir_names f d = sort (map fst (filter (\<lambda>(n, nd). nd = DirN) (children f d)))"

lemma dir_names_facts:
  assumes "fs_wf f"
  shows "sorted (dir_names f d)" "distinct (dir_names f d)" "set (dir_names f d) = {n. lookup f (d @ [n]) = Some DirN}"
proof -
  show "sorted (dir_names f d)"
    by (simp add: dir_names_def)
  show "distinct (dir_names f d)"
    using distinct_children [OF assms, of d] by (simp add: dir_names_def distinct_map_filter)
  show "set (dir_names f d) = {n. lookup f (d @ [n]) = Some DirN}"
    using children_iff [OF assms, of _ _ d] by (force simp: dir_names_def)
qed

section \<open>Retention keeps the newest snapshots\<close>

lemma take_sorted_iff:
  fixes xs :: "'a::linorder list"
  assumes "sorted xs" "distinct xs"
  shows "x \<in> set (take (length xs - k) xs) \<longleftrightarrow> x \<in> set xs \<and> k \<le> card {y \<in> set xs. x < y}"
proof (cases "x \<in> set xs")
  case True
  then obtain i where i: "i < length xs" "xs ! i = x"
    by (auto simp: in_set_conv_nth)
  have "{y \<in> set xs. x < y} = set (drop (Suc i) xs)"
  proof
    show "{y \<in> set xs. x < y} \<subseteq> set (drop (Suc i) xs)"
    proof
      fix y assume "y \<in> {y \<in> set xs. x < y}"
      then obtain j where j: "j < length xs" "xs ! j = y" "x < y"
        by (auto simp: in_set_conv_nth)
      then have "\<not> j \<le> i"
        using sorted_nth_mono [OF assms(1), of j i] i by auto
      then show "y \<in> set (drop (Suc i) xs)"
        using j by (auto simp: in_set_conv_nth intro!: exI [of _ "j - Suc i"])
    qed
    show "set (drop (Suc i) xs) \<subseteq> {y \<in> set xs. x < y}"
    proof
      fix y assume "y \<in> set (drop (Suc i) xs)"
      then obtain j where "j < length (drop (Suc i) xs)" "drop (Suc i) xs ! j = y"
        by (auto simp only: in_set_conv_nth)
      then have j: "Suc i + j < length xs" "xs ! (Suc i + j) = y"
        by auto
      then have "x \<le> y" "x \<noteq> y"
        using sorted_nth_mono [OF assms(1), of i "Suc i + j"] i nth_eq_iff_index_eq [OF assms(2), of i "Suc i + j"]
        by auto
      then show "y \<in> {y \<in> set xs. x < y}"
        using j by auto
    qed
  qed
  then have c: "card {y \<in> set xs. x < y} = length xs - Suc i"
    using assms(2) by (simp add: distinct_card)
  have tk: "x \<in> set (take m xs) \<longleftrightarrow> i < m" for m
  proof
    assume "x \<in> set (take m xs)"
    then obtain j where "j < m" "j < length xs" "xs ! j = x"
      by (auto simp: in_set_conv_nth)
    then show "i < m"
      using i nth_eq_iff_index_eq [OF assms(2)] by metis
  next
    assume "i < m"
    then show "x \<in> set (take m xs)"
      using i by (auto simp: in_set_conv_nth intro!: exI [of _ i])
  qed
  show ?thesis
    unfolding tk c using True i(1) by (simp add: less_diff_conv le_diff_conv2 add.commute Suc_le_eq)
qed (auto dest: in_set_takeD)

lemma prune_names_run:
  assumes "fs_wf f" "fs_io f = None" "plain root" "plain_seg tier" "lookup f (root @ [tier]) = Some DirN"
    and "distinct names" "\<forall>n\<in>set names. plain_seg n" "0 \<le> keep"
  shows "\<exists>g. prune_names root tier keep names removed f =
      ((removed @ map (\<lambda>n. path_join [tier, n]) (take (length names - nat keep) names), None), g)
    \<and> fs_wf g \<and> fs_io g = None
    \<and> (\<forall>p. lookup g p = (if \<exists>n\<in>set (take (length names - nat keep) names). prefix (root @ [tier, n]) p
         then None else lookup f p))"
  using assms
proof (induction root tier keep names removed f rule: prune_names.induct)
  case (2 root tier keep n names removed f)
  show ?case
  proof (cases "int (length (n # names)) > keep")
    case True
    let ?g = "del_nodes (prefix (root @ [tier, n])) f"
    have k: "length (n # names) - nat keep = Suc (length names - nat keep)"
      using True 2(9) by auto
    have rm: "os_remove_all f (path_below root (path_join [tier, n])) = (Inr (), ?g)"
      using os_remove_all_at [OF 2(2) 2(6), of n] 2 by (simp add: path_below2)
    have g: "fs_wf ?g" "lookup ?g (root @ [tier]) = Some DirN" "fs_io ?g = None"
      using os_remove_all_wf [OF 2(2) rm] 2 by (auto simp: lookup_del_nodes)
    have look: "lookup ?g p = (if prefix (root @ [tier, n]) p then None else lookup f p)" for p
      by (cases "p = []") (auto simp: lookup_del_nodes)
    obtain h where h: "prune_names root tier keep names (removed @ [path_join [tier, n]]) ?g =
        (((removed @ [path_join [tier, n]]) @ map (\<lambda>n. path_join [tier, n]) (take (length names - nat keep) names), None), h)"
      "fs_wf h" "fs_io h = None"
      "\<And>p. lookup h p = (if \<exists>n\<in>set (take (length names - nat keep) names). prefix (root @ [tier, n]) p
         then None else lookup ?g p)"
      using 2(1) [OF True refl rm [symmetric] refl g(1,3) 2(4,5) g(2)] 2(7-9) by auto
    then show ?thesis
      using True rm k look by (auto simp: Let_def)
  next
    case False
    then have "length (n # names) - nat keep = 0"
      using 2(9) by auto
    then show ?thesis
      using False 2 by auto
  qed
qed auto

text \<open>A snapshot is doomed when at least \<open>keep\<close> snapshots of its tier have greater names.\<close>

definition doomed :: "path \<Rightarrow> retention_policy \<Rightarrow> tree \<Rightarrow> string \<Rightarrow> string \<Rightarrow> bool" where
  "doomed root policy t tier n = (n \<in> snapshot_names root tier t \<and> 0 \<le> tier_keep policy tier \<and>
     tier_keep policy tier \<le> int (card {m \<in> snapshot_names root tier t. n < m}))"

definition pruned :: "path \<Rightarrow> retention_policy \<Rightarrow> string set \<Rightarrow> tree \<Rightarrow> path \<Rightarrow> bool" where
  "pruned root policy tiers t p = (\<exists>tier\<in>tiers. \<exists>n. doomed root policy t tier n \<and> prefix (root @ [tier, n]) p)"

lemma snapshot_names_dir_names:
  "fs_wf f \<Longrightarrow> snapshot_names root tier (lookup f) = set (dir_names f (root @ [tier]))"
  using dir_names_facts(3) [of f "root @ [tier]"] by (simp add: snapshot_names_def)

lemma doomed_take:
  assumes "fs_wf f" "0 \<le> tier_keep policy tier"
  shows "n \<in> set (take (length (dir_names f (root @ [tier])) - nat (tier_keep policy tier)) (dir_names f (root @ [tier])))
    \<longleftrightarrow> doomed root policy (lookup f) tier n"
  using take_sorted_iff [OF dir_names_facts(1,2) [OF assms(1)]] assms
  by (auto simp: doomed_def snapshot_names_dir_names nat_le_iff)

lemma doomed_cong:
  "(\<And>m. lookup g (root @ [tier, m]) = lookup f (root @ [tier, m])) \<Longrightarrow> doomed root policy (lookup g) tier n = doomed root policy (lookup f) tier n"
  by (simp add: doomed_def snapshot_names_def)

lemma retain_tiers_run:
  assumes "store_ok root f" "fs_io f = None" "distinct tiers" "set tiers \<subseteq> set tier_names"
  shows "\<exists>gone g. retain_tiers root policy tiers removed f = ((removed @ gone, None), g)
    \<and> store_ok root g \<and> fs_io g = None
    \<and> set gone = {path_join [tier, n] |tier n. tier \<in> set tiers \<and> doomed root policy (lookup f) tier n}
    \<and> (\<forall>p. lookup g p = (if pruned root policy (set tiers) (lookup f) p then None else lookup f p))"
  using assms
proof (induction tiers arbitrary: removed f)
  case Nil
  then show ?case
    by (auto simp: pruned_def)
next
  case (Cons tier tiers)
  let ?keep = "tier_keep policy tier" and ?d = "root @ [tier]"
  have ok: "fs_wf f" "lookup f root = Some DirN" "plain root" "plain_seg tier" "tier \<in> set tier_names"
    using Cons.prems lookup_plain plain_tiers by (auto simp: store_ok_iff)
  have skip: ?case if none: "\<And>n. \<not> doomed root policy (lookup f) tier n"
    and eq: "retain_tiers root policy (tier # tiers) removed f = retain_tiers root policy tiers removed f"
  proof -
    have a: "(t \<in> set (tier # tiers) \<and> doomed root policy (lookup f) t n) = (t \<in> set tiers \<and> doomed root policy (lookup f) t n)" for t n
      using none by auto
    have b: "pruned root policy (set (tier # tiers)) (lookup f) = pruned root policy (set tiers) (lookup f)"
      using none by (auto simp: pruned_def fun_eq_iff)
    show ?thesis
      unfolding eq a b by (rule Cons.IH) (use Cons.prems in auto)
  qed
  consider "?keep < 0" | "0 \<le> ?keep" "lookup f ?d = None" | "0 \<le> ?keep" "lookup f ?d = Some DirN"
    using Cons.prems(1) ok(5) unfolding store_ok_iff by (cases "lookup f ?d") fastforce+
  then show ?case
  proof cases
    case 1
    then show ?thesis
      by (intro skip) (auto simp: doomed_def)
  next
    case 2
    have "snapshot_names root tier (lookup f) = {}"
      using lookup_ancestor [OF ok(1), of ?d] 2 by (fastforce simp: snapshot_names_def)
    then show ?thesis
      using 2 tier_listing [OF Cons.prems(1) ok(5)] by (intro skip) (auto simp: doomed_def)
  next
    case 3
    let ?names = "dir_names f ?d"
    let ?gone = "take (length ?names - nat ?keep) ?names"
    have pl: "\<forall>n\<in>set ?names. plain_seg n"
      using snapshot_names_plain [OF ok(1)] snapshot_names_dir_names [OF ok(1)] by blast
    obtain g where g: "prune_names root tier ?keep ?names removed f =
        ((removed @ map (\<lambda>n. path_join [tier, n]) ?gone, None), g)" "fs_wf g" "fs_io g = None"
      "\<And>p. lookup g p = (if \<exists>n\<in>set ?gone. prefix (root @ [tier, n]) p then None else lookup f p)"
      using prune_names_run [OF ok(1) Cons.prems(2) ok(3,4) 3(2) dir_names_facts(2) [OF ok(1)] pl 3(1), of removed] by blast
    have look: "lookup g p = (if pruned root policy {tier} (lookup f) p then None else lookup f p)" for p
      using g(4) doomed_take [OF ok(1) 3(1), of _ root] by (simp add: pruned_def Bex_def)
    have short: "\<not> pruned root policy {tier} (lookup f) (root @ [x])" "\<not> pruned root policy {tier} (lookup f) root" for x
      by (auto simp: pruned_def dest: prefix_length_le)
    have okg: "store_ok root g"
      using Cons.prems(1) g(2) look short unfolding store_ok_iff by simp
    have other: "doomed root policy (lookup g) t n = doomed root policy (lookup f) t n" if "t \<noteq> tier" for t n
      using that by (intro doomed_cong) (simp add: look pruned_def)
    have tl: "distinct tiers" "set tiers \<subseteq> set tier_names"
      using Cons.prems(3,4) by auto
    obtain gone h where h: "retain_tiers root policy tiers (removed @ map (\<lambda>n. path_join [tier, n]) ?gone) g =
        (((removed @ map (\<lambda>n. path_join [tier, n]) ?gone) @ gone, None), h)" "store_ok root h" "fs_io h = None"
      "set gone = {path_join [tier, n] |tier n. tier \<in> set tiers \<and> doomed root policy (lookup g) tier n}"
      "\<And>p. lookup h p = (if pruned root policy (set tiers) (lookup g) p then None else lookup g p)"
      using Cons.IH [OF okg g(3) tl, of "removed @ map (\<lambda>n. path_join [tier, n]) ?gone"] by blast
    have ne: "t \<in> set tiers \<Longrightarrow> t \<noteq> tier" for t
      using Cons.prems(3) by auto
    have "retain_tiers root policy (tier # tiers) removed f =
        ((removed @ (map (\<lambda>n. path_join [tier, n]) ?gone @ gone), None), h)"
      using 3 g(1) h(1) tier_listing [OF Cons.prems(1) ok(5)] by (simp add: Let_def dir_names_def)
    moreover have "set (map (\<lambda>n. path_join [tier, n]) ?gone @ gone)
        = {path_join [t, n] |t n. t \<in> set (tier # tiers) \<and> doomed root policy (lookup f) t n}"
    proof -
      have "set ?gone = {n. doomed root policy (lookup f) tier n}"
        using doomed_take [OF ok(1) 3(1), of _ root] by blast
      moreover have "(t \<in> set tiers \<and> doomed root policy (lookup g) t n) = (t \<in> set tiers \<and> doomed root policy (lookup f) t n)" for t n
        using ne other by blast
      ultimately show ?thesis
        unfolding set_append set_map h(4) set_simps by blast
    qed
    moreover have "lookup h p = (if pruned root policy (set (tier # tiers)) (lookup f) p then None else lookup f p)" for p
    proof -
      have "pruned root policy (set tiers) (lookup g) p = pruned root policy (set tiers) (lookup f) p"
        using ne other by (auto simp: pruned_def)
      then show ?thesis
        by (simp add: h(5) look) (auto simp: pruned_def)
    qed
    ultimately show ?thesis
      using h(2,3) by blast
  qed
qed

section \<open>The latest link after cleaning\<close>

lemma cleanupDanglingLatest_frame:
  assumes "fs_wf f" "lookup f root = Some DirN" "fs_io f = None" "cleanupDanglingLatest root f = (r, g)"
  shows "fs_wf g" "fs_io g = None" "\<And>p. p \<noteq> root @ [''latest''] \<Longrightarrow> lookup g p = lookup f p"
    "lookup g (root @ [''latest'']) \<in> {None, lookup f (root @ [''latest''])}"
proof -
  let ?l = "root @ [''latest'']"
  have pl: "plain_seg ''latest''" "plain root"
    using lookup_plain [OF assms(1,2)] by (auto simp: plain_seg_def)
  have "os_remove f (path_below root ''latest'') = (r', g') \<Longrightarrow> g' = f \<or> g' = del_nodes (\<lambda>x. x = ?l) f" for r' g'
    using resolve_entry [OF assms(1,2) pl(1), of False] assms(3)
    by (auto simp: os_remove_def path_below1 [OF pl(2,1)] split: option.splits if_splits)
  then have g: "g = f \<or> g = del_nodes (\<lambda>x. x = ?l) f \<and> (\<exists>r'. os_remove f (path_below root ''latest'') = (r', g))"
    using assms(4) unfolding cleanupDanglingLatest_def Let_def
    by (fastforce split: sum.splits node.splits if_splits)
  then show "fs_wf g"
    using assms(1) os_remove_wf by blast
  show "fs_io g = None"
    using g assms(3) by auto
  show "lookup g p = lookup f p" if "p \<noteq> ?l" for p
    using g that by (cases "p = []") (auto simp: lookup_del_nodes)
  show "lookup g ?l \<in> {None, lookup f ?l}"
    using g by (auto simp: lookup_del_nodes)
qed

end
