(* ===== verification/Finalize.thy ===== *)
theory Finalize
  imports Snapshot_Facts
begin

text \<open>
  What \<open>FinalizeBackup\<close> promises, as a function on trees (which node is at which
  path), and the proof that the code implements it on a store without device
  failures: promotion, the latest link, the tier copies, retention and the
  removal of a dangling link, in the order of the code.
\<close>

section \<open>The specification\<close>

definition t_promote :: "path \<Rightarrow> string \<Rightarrow> string \<Rightarrow> tree \<Rightarrow> tree" where
  "t_promote root run stamp t = (\<lambda>p.
     if prefix (root @ [''hourly'', stamp]) p then t (root @ [''.partial'', run] @ drop (length root + 2) p)
     else if prefix (root @ [''.partial'', run]) p then None
     else if p = root @ [''hourly''] then Some DirN else t p)"

definition t_latest :: "path \<Rightarrow> string \<Rightarrow> tree \<Rightarrow> tree" where
  "t_latest root target t = (\<lambda>p.
     if p = root @ [''latest''] then Some (LinkN target)
     else if prefix (root @ [''latest'']) p \<or> prefix (root @ [''latest.tmp'']) p then None
     else t p)"

definition t_tier :: "path \<Rightarrow> path \<Rightarrow> string \<times> string \<Rightarrow> tree \<Rightarrow> tree" where
  "t_tier root src tn t = (case tn of (tier, name) \<Rightarrow>
     if t (root @ [tier, name]) \<noteq> None then t
     else (\<lambda>p. if prefix (root @ [tier, name]) p then linkable (t (src @ drop (length root + 2) p))
               else if p = root @ [tier] then Some DirN else t p))"

definition t_retain :: "path \<Rightarrow> retention_policy \<Rightarrow> tree \<Rightarrow> tree" where
  "t_retain root policy t = (\<lambda>p. if pruned root policy (set tier_names) t p then None else t p)"

definition t_clean :: "path \<Rightarrow> string \<Rightarrow> tree \<Rightarrow> tree" where
  "t_clean root stamp t = (\<lambda>p. if p = root @ [''latest''] \<and> t (root @ [''hourly'', stamp]) = None then None else t p)"

definition tier_pairs :: "gotime \<Rightarrow> (string \<times> string) list" where
  "tier_pairs ts = (let day = day_of_time ts in
     [(''daily'', format_day day), (''weekly'', format_day (weekStart day)), (''monthly'', format_month day)])"

definition t_finish :: "path \<Rightarrow> string \<Rightarrow> gotime \<Rightarrow> retention_policy \<Rightarrow> tree \<Rightarrow> tree" where
  "t_finish root stamp ts policy t =
     t_clean root stamp (t_retain root policy
       (fold (t_tier root (root @ [''hourly'', stamp])) (tier_pairs ts)
         (t_latest root (''hourly/'' @ stamp) t)))"

section \<open>Promotion\<close>

lemma plain_fixed [simp]: "plain_seg ''hourly''" "plain_seg ''.partial''" "plain_seg ''latest''" "plain_seg ''latest.tmp''"
  by (auto simp: plain_seg_def)

lemma store_okD:
  assumes "store_ok root f"
  shows "fs_wf f" "lookup f root = Some DirN" "plain root"
    "lookup f (root @ [''.partial'']) \<in> {None, Some DirN}"
    "tier \<in> set tier_names \<Longrightarrow> lookup f (root @ [tier]) \<in> {None, Some DirN}"
    "tier \<in> set tier_names \<Longrightarrow> lookup f (root @ [tier, n]) \<noteq> Some (LinkN t)"
    "x \<in> set (''.partial'' # tier_names) \<Longrightarrow> lookup f (root @ [x]) \<in> {None, Some DirN}"
  using assms lookup_plain by (auto simp: store_ok_iff)

lemma store_ok_agree:
  assumes "store_ok root f" "fs_wf g" "lookup g root = lookup f root"
    and "\<And>top r. top \<noteq> ''latest'' \<Longrightarrow> top \<noteq> ''latest.tmp'' \<Longrightarrow> lookup g (root @ top # r) = lookup f (root @ top # r)"
  shows "store_ok root g"
proof -
  have "top \<noteq> ''latest'' \<and> top \<noteq> ''latest.tmp''" if "top \<in> set (''.partial'' # tier_names)" for top
    using that by auto
  then show ?thesis
    using assms unfolding store_ok_iff by simp
qed

lemma promote_run:
  assumes ok: "store_ok root f" and io: "fs_io f = None"
    and run: "lookup f (root @ [''.partial'', run]) = Some DirN"
    and stamp: "plain_seg stamp" "lookup f (root @ [''hourly'', stamp]) = None"
  shows "\<exists>f1 g. os_mkdir_all f (root @ [''hourly'']) = (Inr (), f1)
    \<and> os_rename f1 (root @ [''.partial'', run]) (root @ [''hourly'', stamp]) = (Inr (), g)
    \<and> store_ok root g \<and> fs_io g = None \<and> lookup g = t_promote root run stamp (lookup f)"
proof -
  note d = store_okD [OF ok]
  have h: "lookup f (root @ [''hourly'']) \<in> {None, Some DirN}"
    using d(5) [of "''hourly''"] by simp
  obtain f1 where f1: "os_mkdir_all f (root @ [''hourly'']) = (Inr (), f1)" "fs_wf f1" "fs_io f1 = None"
    "\<And>p. lookup f1 p = (if p = root @ [''hourly''] then Some DirN else lookup f p)"
  proof (cases "lookup f (root @ [''hourly''])")
    case None
    then show thesis
      using that os_mkdir_all_entry [OF d(1,2) plain_fixed(1) None io] fs_wf_add_node [OF d(1,2) plain_fixed(1) None] io
      by simp
  next
    case (Some nd)
    then show thesis
      using that [of f] os_mkdir_all_dir [of f "root @ [''hourly'']"] d(1) h io by auto
  qed
  let ?a = "root @ [''.partial'', run]" and ?b = "root @ [''hourly'', stamp]"
  have pr: "plain_seg run"
    using lookup_plain [OF d(1) run] by simp
  have par: "lookup f (root @ [''.partial'']) = Some DirN"
    using lookup_ancestor [OF d(1), of "root @ [''.partial'']" "[run]"] run by simp
  have ren: "os_rename f1 ?a ?b = (Inr (), moved ?a ?b f1)" "movable ?a ?b f1"
    using os_rename_at [OF f1(2), of "root @ [''.partial'']" run "root @ [''hourly'']" stamp] f1 pr par run stamp by auto
  let ?g = "moved ?a ?b f1"
  have look: "lookup ?g p = t_promote root run stamp (lookup f) p" for p
  proof -
    have "\<not> prefix ?a (root @ [''hourly''])" "\<not> prefix ?b (root @ [''hourly''])"
      by (auto dest: prefix_length_le)
    then show ?thesis
      using f1(4) by (auto simp: lookup_moved [OF ren(2)] t_promote_def dest: prefix_length_le)
  qed
  have "store_ok root ?g"
    unfolding store_ok_iff
  proof (intro conjI ballI allI)
    show "fs_wf ?g"
      by (rule moved_wf [OF ren(2)])
    show "lookup ?g root = Some DirN"
      using d(2) by (auto simp: look t_promote_def dest: prefix_length_le)
    show "lookup ?g (root @ [top]) \<in> {None, Some DirN}" if "top \<in> set (''.partial'' # tier_names)" for top
      using that d(4) d(5) [of top] by (auto simp: look t_promote_def dest: prefix_length_le)
    show "lookup ?g (root @ [tier, n]) \<noteq> Some (LinkN t)" if "tier \<in> set tier_names" for tier n t
      using that d(6) [of tier n t] run by (auto simp: look t_promote_def)
  qed
  moreover have "fs_io ?g = None"
    using f1(3) by (simp add: moved_def)
  ultimately show ?thesis
    using f1(1) ren(1) look by blast
qed

section \<open>The latest link\<close>

lemma normalize_hourly:
  assumes "plain_seg stamp" "CHR 0x5C \<notin> set stamp"
  shows "NormalizeRelativePath (''hourly/'' @ stamp) = Inr (''hourly/'' @ stamp)"
proof -
  have "''hourly/'' @ stamp = join ''/'' [''hourly'', stamp]"
    by simp
  then have "split_on CHR ''/'' (''hourly/'' @ stamp) = [''hourly'', stamp]"
    using assms(1) split_join_plain [of "[''hourly'', stamp]"] by simp
  moreover have "keep_segs [''hourly'', stamp] = [''hourly'', stamp]"
    using assms(1) by (intro keep_plain) auto
  ultimately show ?thesis
    unfolding NormalizeRelativePath_Inr_iff using assms by (auto simp: is_abs_def has_prefix_def plain_seg_def)
qed

lemma latest_run:
  assumes ok: "store_ok root f" and io: "fs_io f = None" and tg: "target = ''hourly/'' @ stamp"
    and stamp: "plain_seg stamp" "CHR 0x5C \<notin> set stamp" "lookup f (root @ [''hourly'', stamp]) = Some DirN"
  shows "\<exists>g. replaceLatestSymlink root target f = (Inr (), g)
    \<and> store_ok root g \<and> fs_io g = None \<and> lookup g = t_latest root target (lookup f)"
proof -
  note d = store_okD [OF ok]
  let ?l = "root @ [''latest'']" and ?m = "root @ [''latest.tmp'']"
  have tj: "target = join ''/'' [''hourly'', stamp]"
    using tg by simp
  have norm: "NormalizeRelativePath target = Inr target"
    using normalize_hourly [OF stamp(1,2)] tg by simp
  have tp: "path_below root target = root @ [''hourly'', stamp]"
    unfolding tj using d(3) stamp(1) by (intro path_below_plain) auto
  have inside: "ensureInside root (root @ [''hourly'', stamp]) = Inr ()"
    using stamp(1) by (intro ensureInside_below) auto
  have ln: "path_below root ''latest'' = ?l" "path_below root ''latest.tmp'' = ?m"
    using d(3) by (simp_all add: path_below1)
  let ?f1 = "del_nodes (prefix ?m) f"
  have f1: "os_remove_all f ?m = (Inr (), ?f1)" "fs_wf ?f1"
    using os_remove_all_at [OF d(1,2) plain_fixed(4) io] os_remove_all_wf [OF d(1)] by auto
  have look1: "lookup ?f1 p = (if prefix ?m p then None else lookup f p)" for p
    by (cases "p = []") (auto simp: lookup_del_nodes)
  have r1: "lookup ?f1 root = Some DirN"
    using d(2) look1 by (auto dest: prefix_length_le)
  let ?f2 = "add_node ?m (LinkN target) ?f1"
  have f2: "os_symlink ?f1 target ?m = (Inr (), ?f2)" "fs_wf ?f2"
    using os_symlink_at [OF f1(2) r1 plain_fixed(4)] fs_wf_add_node [OF f1(2) r1 plain_fixed(4)] look1 io by auto
  have r2: "lookup ?f2 root = Some DirN" "fs_io ?f2 = None"
    using r1 io by auto
  let ?f3 = "del_nodes (prefix ?l) ?f2"
  have f3: "os_remove_all ?f2 ?l = (Inr (), ?f3)" "fs_wf ?f3"
    using os_remove_all_at [OF f2(2) r2(1) plain_fixed(3) r2(2)] os_remove_all_wf [OF f2(2)] by auto
  have look3: "lookup ?f3 p = (if prefix ?l p then None else if p = ?m then Some (LinkN target)
      else if prefix ?m p then None else lookup f p)" for p
    using look1 by (cases "p = []") (auto simp: lookup_del_nodes)
  have r3: "lookup ?f3 root = Some DirN" "fs_io ?f3 = None" "lookup ?f3 ?m \<noteq> None" "lookup ?f3 ?l = None"
    using d(2) io look3 by (auto dest: prefix_length_le)
  let ?g = "moved ?m ?l ?f3"
  have ren: "os_rename ?f3 ?m ?l = (Inr (), ?g)" "movable ?m ?l ?f3"
    using os_rename_at [OF f3(2) r3(1) plain_fixed(4) r3(1) plain_fixed(3) r3(2-4)] by auto
  have look: "lookup ?g p = t_latest root target (lookup f) p" for p
  proof (cases "prefix ?l p")
    case True
    then obtain r where "p = ?l @ r" by (auto simp: prefix_def)
    then show ?thesis
      by (auto simp: lookup_moved [OF ren(2)] look3 t_latest_def)
  next
    case False
    then show ?thesis
      by (auto simp: lookup_moved [OF ren(2)] look3 t_latest_def)
  qed
  have run: "replaceLatestSymlink root target f = (Inr (), ?g)"
    using norm inside tp ln os_stat_dir(1) [OF d(1) stamp(3)] f1(1) f2(1) f3(1) ren(1)
    by (simp add: replaceLatestSymlink_def Let_def)
  have "store_ok root ?g"
    using ok moved_wf [OF ren(2)] by (rule store_ok_agree) (auto simp: look t_latest_def dest: prefix_length_le)
  moreover have "fs_io ?g = None"
    using io by (simp add: moved_def)
  ultimately show ?thesis
    using run look by blast
qed

section \<open>The tier copies\<close>

lemma os_stat_two:
  assumes "fs_wf f" "lookup f root = Some DirN" "plain_seg tier" "lookup f (root @ [tier]) \<in> {None, Some DirN}"
    and "plain_seg name" "\<forall>t. lookup f (root @ [tier, name]) \<noteq> Some (LinkN t)"
  shows "(case os_stat f (root @ [tier, name]) of Inl e \<Rightarrow> errors_is ENOENT e \<and> lookup f (root @ [tier, name]) = None
    | Inr nd \<Rightarrow> lookup f (root @ [tier, name]) = Some nd)"
proof (cases "lookup f (root @ [tier])")
  case None
  then have "lookup f (root @ [tier, name]) = None"
    using lookup_ancestor [OF assms(1), of "root @ [tier]" "[name]"] by fastforce
  moreover have "resolve n f True [] (root @ [tier, name]) = Inl (Sentinel ENOENT tier)" for n
    using resolve_missing [OF assms(1-3) None, of "[name]"] by simp
  ultimately show ?thesis
    by (simp add: os_stat_def os_stat_gen_def)
next
  case (Some nd)
  then have "lookup f (root @ [tier]) = Some DirN"
    using assms(4) by auto
  then show ?thesis
    using os_stat_entry [OF assms(1) _ assms(5), of "root @ [tier]"] assms(6)
    by (auto split: option.splits)
qed

lemma os_stat_tier:
  assumes "store_ok root f" "tier \<in> set tier_names" "plain_seg name"
  shows "(case os_stat f (root @ [tier, name]) of Inl e \<Rightarrow> errors_is ENOENT e \<and> lookup f (root @ [tier, name]) = None
    | Inr nd \<Rightarrow> lookup f (root @ [tier, name]) = Some nd)"
  using store_okD [OF assms(1)] plain_tiers [OF assms(2)] assms(2,3) by (intro os_stat_two) blast+

lemma t_tier_frame: "\<not> prefix (root @ [tier]) p \<Longrightarrow> t_tier root src (tier, name) t p = t p"
  using append_prefixD [of "root @ [tier]" "[name]" p] by (auto simp: t_tier_def)

lemma tier_step:
  assumes ok: "store_ok root f" and io: "fs_io f = None"
    and src: "lookup f (root @ [''hourly'', stamp]) = Some DirN"
    and tier: "tier \<in> {''daily'', ''weekly'', ''monthly''}" "plain_seg name"
    and new: "lookup f (root @ [tier, name]) = None"
  shows "\<exists>g. linkTree (root @ [''hourly'', stamp]) (root @ [tier, name]) f = (Inr (), g)
    \<and> store_ok root g \<and> fs_io g = None \<and> lookup g = t_tier root (root @ [''hourly'', stamp]) (tier, name) (lookup f)"
proof -
  note d = store_okD [OF ok]
  have tn: "tier \<in> set tier_names" and pt: "plain_seg tier" and nd: "\<not> prefix (root @ [''hourly'', stamp]) (root @ [tier, name])"
    using tier by (auto simp: plain_seg_def)
  obtain g where g: "linkTree (root @ [''hourly'', stamp]) (root @ [tier, name]) f = (Inr (), g)" "fs_wf g" "fs_io g = None"
    "\<And>p. lookup g p = t_tier root (root @ [''hourly'', stamp]) (tier, name) (lookup f) p"
    using linkTree_run [OF d(1) io src d(2) pt d(5) [OF tn] tier(2) new nd] new
    by (auto simp: t_tier_def add.commute)
  have short: "lookup g (root @ [x]) = (if x = tier then Some DirN else lookup f (root @ [x]))" "lookup g root = lookup f root" for x
    using new by (auto simp: g(4) t_tier_def dest: prefix_length_le)
  have two: "lookup g (root @ [x, n]) = (if x = tier \<and> n = name then Some DirN else lookup f (root @ [x, n]))" for x n
    using new src by (auto simp: g(4) t_tier_def)
  have "store_ok root g"
    unfolding store_ok_iff
  proof (intro conjI ballI allI)
    show "lookup g (root @ [top]) \<in> {None, Some DirN}" if "top \<in> set (''.partial'' # tier_names)" for top
      using d(7) [OF that] by (simp add: short)
    show "lookup g (root @ [t, n]) \<noteq> Some (LinkN l)" if "t \<in> set tier_names" for t n l
      using d(6) [OF that] by (simp add: two)
  qed (use g(2) d(2) short in simp_all)
  then show ?thesis
    using g by blast
qed

lemma tiers_run:
  assumes "store_ok root f" "fs_io f = None" "lookup f (root @ [''hourly'', stamp]) = Some DirN"
    and "\<forall>(tier, name)\<in>set tns. tier \<in> {''daily'', ''weekly'', ''monthly''} \<and> plain_seg name"
  shows "\<exists>pts g. create_tiers root (root @ [''hourly'', stamp]) (map (\<lambda>(tier, name). path_join [tier, name]) tns) points f
      = ((points @ pts, None), g)
    \<and> store_ok root g \<and> fs_io g = None \<and> lookup g = fold (t_tier root (root @ [''hourly'', stamp])) tns (lookup f)"
  using assms
proof (induction tns arbitrary: f points)
  case (Cons tn tns)
  obtain tier name where tn: "tn = (tier, name)" by fastforce
  have t0: "tier \<in> {''daily'', ''weekly'', ''monthly''}" "plain_seg name"
    using Cons.prems(4) tn by simp_all
  then have "tier \<in> set tier_names \<and> plain_seg tier \<and> tier \<noteq> ''hourly''"
    by (auto simp: plain_seg_def)
  with t0 have tier: "tier \<in> {''daily'', ''weekly'', ''monthly''}" "plain_seg name" "tier \<in> set tier_names" "plain_seg tier" "tier \<noteq> ''hourly''"
    by blast+
  have tl: "\<forall>(tier, name)\<in>set tns. tier \<in> {''daily'', ''weekly'', ''monthly''} \<and> plain_seg name"
    using Cons.prems(4) by simp
  have pb: "path_below root (path_join [tier, name]) = root @ [tier, name]"
    by (rule path_below2 [OF store_okD(3) [OF Cons.prems(1)] tier(4,2)])
  show ?case
  proof (cases "lookup f (root @ [tier, name])")
    case (Some nd)
    then have "os_stat f (root @ [tier, name]) = Inr nd"
      using os_stat_tier [OF Cons.prems(1) tier(3,2)] by (auto split: sum.splits)
    then have "create_tiers root (root @ [''hourly'', stamp]) (map (\<lambda>(tier, name). path_join [tier, name]) (tn # tns)) points f
        = create_tiers root (root @ [''hourly'', stamp]) (map (\<lambda>(tier, name). path_join [tier, name]) tns) points f"
      using pb tn by (simp add: Let_def)
    moreover have "t_tier root (root @ [''hourly'', stamp]) tn (lookup f) = lookup f"
      using Some tn by (simp add: t_tier_def)
    ultimately show ?thesis
      using Cons.IH [OF Cons.prems(1-3) tl, of points] by simp
  next
    case None
    obtain e where e: "os_stat f (root @ [tier, name]) = Inl e" "errors_is ENOENT e"
      using os_stat_tier [OF Cons.prems(1) tier(3,2)] None by (auto split: sum.splits)
    obtain g where g: "linkTree (root @ [''hourly'', stamp]) (root @ [tier, name]) f = (Inr (), g)"
      "store_ok root g" "fs_io g = None" "lookup g = t_tier root (root @ [''hourly'', stamp]) (tier, name) (lookup f)"
      using tier_step [OF Cons.prems(1-3) tier(1,2) None] by blast
    have src: "lookup g (root @ [''hourly'', stamp]) = Some DirN"
      using Cons.prems(3) tier(5) None by (simp add: g(4) t_tier_def)
    obtain pts h where h: "create_tiers root (root @ [''hourly'', stamp]) (map (\<lambda>(tier, name). path_join [tier, name]) tns)
        (points @ [path_join [tier, name]]) g = (((points @ [path_join [tier, name]]) @ pts, None), h)"
      "store_ok root h" "fs_io h = None" "lookup h = fold (t_tier root (root @ [''hourly'', stamp])) tns (lookup g)"
      using Cons.IH [OF g(2,3) src tl, of "points @ [path_join [tier, name]]"] by blast
    have "create_tiers root (root @ [''hourly'', stamp]) (map (\<lambda>(tier, name). path_join [tier, name]) (tn # tns)) points f
        = ((points @ (path_join [tier, name] # pts), None), h)"
      using e g(1) pb tn h(1) by (simp add: Let_def)
    moreover have "lookup h = fold (t_tier root (root @ [''hourly'', stamp])) (tn # tns) (lookup f)"
      by (simp only: h(4) g(4) tn fold_simps)
    ultimately show ?thesis
      using h(2,3) by blast
  qed
qed simp

section \<open>Retention and the dangling link\<close>

lemma retention_run:
  assumes ok: "store_ok root f" and io: "fs_io f = None"
    and stamp: "plain_seg stamp" "CHR 0x5C \<notin> set stamp"
    and lat: "lookup f (root @ [''latest'']) = Some (LinkN (''hourly/'' @ stamp))"
    and hp: "lookup f (root @ [''hourly'', stamp]) = Some DirN"
  shows "\<exists>g. applyRetention root policy f = (Inr (), g) \<and> fs_wf g
    \<and> lookup g = t_clean root stamp (t_retain root policy (lookup f))"
proof -
  obtain gone h where h: "retain_tiers root policy tier_names [] f = (([] @ gone, None), h)" "store_ok root h" "fs_io h = None"
    "lookup h = t_retain root policy (lookup f)"
    using retain_tiers_run [OF ok io, of tier_names policy "[]"] unfolding t_retain_def by fastforce
  note d = store_okD [OF h(2)]
  have kept: "lookup h (root @ [''hourly'', stamp]) \<in> {None, Some DirN}"
    "lookup h (root @ [''latest'']) = Some (LinkN (''hourly/'' @ stamp))"
    using hp lat by (auto simp: h(4) t_retain_def pruned_def dest: prefix_length_le)
  let ?l = "root @ [''latest'']"
  have lstat: "os_lstat h ?l = Inr (LinkN (''hourly/'' @ stamp))"
    using os_lstat_entry [OF d(1,2) plain_fixed(3)] kept(2) by simp
  have pb: "path_below root ''latest'' = ?l" "path_below root (''hourly/'' @ stamp) = root @ [''hourly'', stamp]"
    using d(3) stamp path_below_plain [of root "[''hourly'', stamp]"] by (simp_all add: path_below1)
  note st = os_stat_tier [OF h(2) _ stamp(1), of "''hourly''", simplified]
  have "\<exists>g. cleanupDanglingLatest root h = (Inr (), g) \<and> fs_wf g \<and> lookup g = t_clean root stamp (lookup h)"
  proof (cases "lookup h (root @ [''hourly'', stamp])")
    case (Some nd)
    then have "os_stat h (root @ [''hourly'', stamp]) = Inr nd"
      using st by (auto split: sum.splits)
    then show ?thesis
      using lstat pb normalize_hourly [OF stamp] d(1) Some
      by (auto simp: cleanupDanglingLatest_def t_clean_def)
  next
    case None
    then obtain e where e: "os_stat h (root @ [''hourly'', stamp]) = Inl e" "errors_is ENOENT e"
      using st by (auto split: sum.splits)
    have rm: "os_remove h ?l = (Inr (), del_nodes (\<lambda>x. x = ?l) h)"
      using resolve_entry [OF d(1,2) plain_fixed(3), of False] kept(2) h(3) by (simp add: os_remove_def)
    have "lookup (del_nodes (\<lambda>x. x = ?l) h) p = t_clean root stamp (lookup h) p" for p
      using None by (cases "p = []") (auto simp: lookup_del_nodes t_clean_def)
    then show ?thesis
      using lstat pb normalize_hourly [OF stamp] e rm os_remove_wf [OF d(1) rm]
      by (auto simp: cleanupDanglingLatest_def)
  qed
  then show ?thesis
    using h(1,4) by (auto simp: applyRetention_def ApplyRetention_def)
qed

section \<open>FinalizeBackup implements the specification\<close>

definition sources_present :: "fs \<Rightarrow> path \<Rightarrow> string list \<Rightarrow> bool" where
  "sources_present f d sources = list_all (\<lambda>s. case NormalizeRelativePath s of
      Inl e \<Rightarrow> False | Inr n \<Rightarrow> lookup f (d @ split_on CHR ''/'' n) = Some DirN) sources"

lemma validate_present:
  assumes "fs_wf f" "plain d" "sources_present f d sources"
  shows "validateSnapshotSources f d sources = Inr ()"
  using assms(3)
proof (induction sources)
  case (Cons s sources)
  then obtain n where n: "NormalizeRelativePath s = Inr n" "lookup f (d @ split_on CHR ''/'' n) = Some DirN"
    by (auto simp: sources_present_def split: sum.splits)
  have "os_stat f (path_below d s) = Inr DirN"
    using path_below_normalized(1) [OF assms(2) n(1)] os_stat_dir(1) [OF assms(1) n(2)] by simp
  then show ?case
    using Cons n(1) by (simp add: validateSnapshotSources_def sources_present_def)
qed (simp add: validateSnapshotSources_def)

lemma tierSnapshotNames_pairs: "tierSnapshotNames ts = map (\<lambda>(tier, name). path_join [tier, name]) (tier_pairs ts)"
  by (simp add: tierSnapshotNames_def tier_pairs_def Let_def)

lemma plain_long:
  assumes "no_sep s" "2 < length s"
  shows "plain_seg s"
proof -
  have "CHR ''/'' \<notin> set s"
    using assms(1) unfolding no_sep_def by blast
  moreover have "length ([] :: string) \<le> 2" "length ''.'' \<le> 2" "length ''..'' \<le> 2"
    by simp_all
  ultimately show ?thesis
    using assms(2) unfolding plain_seg_def by (metis not_le)
qed

lemma tier_pairs_ok: "\<forall>(tier, name)\<in>set (tier_pairs ts). tier \<in> {''daily'', ''weekly'', ''monthly''} \<and> plain_seg name"
proof -
  have "plain_seg (format_day n)" "plain_seg (format_month n)" for n
    using plain_long [OF format_shape(1,2)] plain_long [OF format_shape(3,4)] by blast+
  then show ?thesis
    by (simp add: tier_pairs_def Let_def)
qed

lemma fold_tiers_frame:
  assumes "\<forall>(tier, name)\<in>set tns. tier \<in> {''daily'', ''weekly'', ''monthly''} \<and> plain_seg name"
    "\<forall>tier\<in>{''daily'', ''weekly'', ''monthly''}. \<not> prefix (root @ [tier]) p"
  shows "fold (t_tier root src) tns t p = t p"
  using assms(1)
proof (induction tns arbitrary: t)
  case (Cons tn tns)
  have "t_tier root src tn t p = t p"
  proof (cases tn)
    case (Pair tier name)
    then have "\<not> prefix (root @ [tier]) p"
      using Cons.prems assms(2) by fastforce
    then show ?thesis
      unfolding Pair by (rule t_tier_frame)
  qed
  then show ?case
    using Cons by simp
qed simp

lemma finish_run:
  assumes ok: "store_ok root f" and io: "fs_io f = None"
    and stamp: "plain_seg stamp" "CHR 0x5C \<notin> set stamp"
    and hp: "lookup f (root @ [''hourly'', stamp]) = Some DirN"
    and src: "sources_present f (root @ [''hourly'', stamp]) sources"
  shows "\<exists>pts g. finalizePromotedSnapshot root (''hourly/'' @ stamp) (root @ [''hourly'', stamp]) ts sources policy f
      = (((''hourly/'' @ stamp) # (''latest -> hourly/'' @ stamp) # pts, None), g)
    \<and> fs_wf g \<and> lookup g = t_finish root stamp ts policy (lookup f)"
proof -
  let ?hp = "root @ [''hourly'', stamp]"
  note d = store_okD [OF ok]
  obtain target where tg: "target = ''hourly/'' @ stamp" by blast
  have v: "validateSnapshotSources f ?hp sources = Inr ()"
    using d stamp(1) src by (intro validate_present) auto
  obtain g1 where g1: "replaceLatestSymlink root target f = (Inr (), g1)" "store_ok root g1" "fs_io g1 = None"
    "lookup g1 = t_latest root target (lookup f)"
    using latest_run [OF ok io tg stamp hp] by blast
  have hp1: "lookup g1 ?hp = Some DirN" "lookup g1 (root @ [''latest'']) = Some (LinkN target)"
    using hp by (auto simp: g1(4) t_latest_def)
  obtain pts g2 where g2: "create_tiers root ?hp (tierSnapshotNames ts) [target, ''latest -> '' @ target] g1
      = (([target, ''latest -> '' @ target] @ pts, None), g2)" "store_ok root g2" "fs_io g2 = None"
    "lookup g2 = fold (t_tier root ?hp) (tier_pairs ts) (lookup g1)"
    using tiers_run [OF g1(2,3) hp1(1) tier_pairs_ok] tierSnapshotNames_pairs by metis
  have hp2: "lookup g2 ?hp = Some DirN" "lookup g2 (root @ [''latest'']) = Some (LinkN target)"
    using hp1 by (simp_all add: g2(4) fold_tiers_frame [OF tier_pairs_ok])
  obtain g3 where g3: "applyRetention root policy g2 = (Inr (), g3)" "fs_wf g3"
    "lookup g3 = t_clean root stamp (t_retain root policy (lookup g2))"
    using retention_run [OF g2(2,3) stamp hp2(2) [unfolded tg] hp2(1)] by blast
  have "finalizePromotedSnapshot root target ?hp ts sources policy f = ((target # (''latest -> '' @ target) # pts, None), g3)"
    using v g1(1) g2(1) g3(1) by (simp add: finalizePromotedSnapshot_def)
  moreover have "lookup g3 = t_finish root stamp ts policy (lookup f)"
    by (simp only: t_finish_def g3(3) g2(4) g1(4) tg)
  ultimately show ?thesis
    using g3(2) unfolding tg by auto
qed

text \<open>The hypotheses under which a run is finalized: a store in good shape, a working
  device, valid options.\<close>

definition finalize_ready :: "path \<Rightarrow> finalize_options \<Rightarrow> path \<Rightarrow> gotime \<Rightarrow> fs \<Rightarrow> bool" where
  "finalize_ready cwd opts root ts f = (fo_targetRoot opts \<noteq> [] \<and> abs_path cwd (fo_targetRoot opts) = root
     \<and> validateRunID (fo_runID opts) = Inr () \<and> parse_timestamp (fo_timestamp opts) = Some ts
     \<and> store_ok root f \<and> fs_io f = None)"

lemma finalize_ready_facts:
  assumes "finalize_ready cwd opts root ts f"
  shows "plain_seg (fo_runID opts)" "plain_seg (fo_timestamp opts)" "CHR 0x5C \<notin> set (fo_timestamp opts)"
    "path_below root (join ''/'' [''.partial'', fo_runID opts]) = root @ [''.partial'', fo_runID opts]"
    "ensureInside root (root @ [''.partial'', fo_runID opts]) = Inr ()"
    "path_join [''hourly'', fo_timestamp opts] = ''hourly/'' @ fo_timestamp opts"
    "path_below root (''hourly/'' @ fo_timestamp opts) = root @ [''hourly'', fo_timestamp opts]"
proof -
  have a: "validateRunID (fo_runID opts) = Inr ()" "parse_timestamp (fo_timestamp opts) = Some ts" "plain root"
    using assms store_okD(3) by (auto simp: finalize_ready_def)
  show r: "plain_seg (fo_runID opts)"
    using validateRunID_plain a(1) by blast
  show s: "plain_seg (fo_timestamp opts)" "CHR 0x5C \<notin> set (fo_timestamp opts)"
    using parse_timestamp_shape [OF a(2)] plain_long by (auto simp: no_sep_def)
  show "path_below root (join ''/'' [''.partial'', fo_runID opts]) = root @ [''.partial'', fo_runID opts]"
    using a(3) r by (intro path_below_plain) auto
  show "ensureInside root (root @ [''.partial'', fo_runID opts]) = Inr ()"
    using r by (intro ensureInside_below) auto
  show "path_join [''hourly'', fo_timestamp opts] = ''hourly/'' @ fo_timestamp opts"
    using path_join2 [OF plain_fixed(1) s(1)] by simp
  show "path_below root (''hourly/'' @ fo_timestamp opts) = root @ [''hourly'', fo_timestamp opts]"
    using path_below_plain [of root "[''hourly'', fo_timestamp opts]"] a(3) s(1) by simp
qed

lemma FinalizeBackup_fresh:
  assumes ready: "finalize_ready cwd opts root ts f"
    and run: "lookup f (root @ [''.partial'', fo_runID opts]) = Some DirN"
    and fresh: "lookup f (root @ [''hourly'', fo_timestamp opts]) = None"
    and src: "sources_present f (root @ [''.partial'', fo_runID opts]) (fo_sources opts)"
  shows "\<exists>points g. FinalizeBackup cwd opts f = ((points, None), g) \<and> fs_wf g
    \<and> lookup g = t_finish root (fo_timestamp opts) ts (fo_retention opts)
        (t_promote root (fo_runID opts) (fo_timestamp opts) (lookup f))"
proof -
  let ?run = "fo_runID opts" and ?stamp = "fo_timestamp opts"
  note pf = finalize_ready_facts [OF ready]
  have a: "fo_targetRoot opts \<noteq> []" "abs_path cwd (fo_targetRoot opts) = root" "validateRunID ?run = Inr ()"
    "parse_timestamp ?stamp = Some ts" "store_ok root f" "fs_io f = None"
    using ready by (auto simp: finalize_ready_def)
  have ne: "?run \<noteq> []" "?stamp \<noteq> []"
    using pf(1,2) by (auto simp: plain_seg_def)
  note d = store_okD [OF a(5)]
  obtain f1 g where g: "os_mkdir_all f (root @ [''hourly'']) = (Inr (), f1)"
    "os_rename f1 (root @ [''.partial'', ?run]) (root @ [''hourly'', ?stamp]) = (Inr (), g)"
    "store_ok root g" "fs_io g = None" "lookup g = t_promote root ?run ?stamp (lookup f)"
    using promote_run [OF a(5,6) run pf(2) fresh] by blast
  have moved: "lookup g (root @ [''hourly'', ?stamp] @ r) = lookup f (root @ [''.partial'', ?run] @ r)" for r
    by (simp add: g(5) t_promote_def)
  have srcg: "sources_present g (root @ [''hourly'', ?stamp]) (fo_sources opts)"
    using src moved unfolding sources_present_def by (simp add: list_all_iff split: sum.splits)
  have hp: "lookup g (root @ [''hourly'', ?stamp]) = Some DirN"
    using moved [of "[]"] run by simp
  obtain pts h where h: "finalizePromotedSnapshot root (''hourly/'' @ ?stamp) (root @ [''hourly'', ?stamp]) ts
      (fo_sources opts) (fo_retention opts) g = (((''hourly/'' @ ?stamp) # (''latest -> hourly/'' @ ?stamp) # pts, None), h)"
    "fs_wf h" "lookup h = t_finish root ?stamp ts (fo_retention opts) (lookup g)"
    using finish_run [OF g(3,4) pf(2,3) hp srcg] by blast
  obtain e where e: "os_stat f (root @ [''hourly'', ?stamp]) = Inl e" "errors_is ENOENT e"
    using os_stat_tier [OF a(5) _ pf(2), of "''hourly''"] fresh by (auto split: sum.splits)
  have v: "validateSnapshotSources f (root @ [''.partial'', ?run]) (fo_sources opts) = Inr ()"
    using d pf(1) src by (intro validate_present) auto
  have "FinalizeBackup cwd opts f = (((''hourly/'' @ ?stamp) # (''latest -> hourly/'' @ ?stamp) # pts, None), h)"
    using a(1-4) ne pf(4-7) os_stat_dir(1) [OF d(1) run] v e g(1,2) h(1)
    by (simp add: FinalizeBackup_def Let_def butlast_append)
  then show ?thesis
    using h(2,3) g(5) by metis
qed

lemma FinalizeBackup_promoted:
  assumes ready: "finalize_ready cwd opts root ts f"
    and run: "lookup f (root @ [''.partial'', fo_runID opts]) = None"
    and hp: "lookup f (root @ [''hourly'', fo_timestamp opts]) = Some DirN"
    and src: "sources_present f (root @ [''hourly'', fo_timestamp opts]) (fo_sources opts)"
  shows "\<exists>points g. FinalizeBackup cwd opts f = ((points, None), g) \<and> fs_wf g
    \<and> lookup g = t_finish root (fo_timestamp opts) ts (fo_retention opts) (lookup f)"
proof -
  let ?run = "fo_runID opts" and ?stamp = "fo_timestamp opts"
  note pf = finalize_ready_facts [OF ready]
  have a: "fo_targetRoot opts \<noteq> []" "abs_path cwd (fo_targetRoot opts) = root" "validateRunID ?run = Inr ()"
    "parse_timestamp ?stamp = Some ts" "store_ok root f" "fs_io f = None"
    using ready by (auto simp: finalize_ready_def)
  have ne: "?run \<noteq> []" "?stamp \<noteq> []"
    using pf(1,2) by (auto simp: plain_seg_def)
  note d = store_okD [OF a(5)]
  obtain e where e: "os_stat f (root @ [''.partial'', ?run]) = Inl e" "errors_is ENOENT e"
    using os_stat_two [OF d(1,2) plain_fixed(2) d(4) pf(1)] run by (auto split: sum.splits)
  obtain pts h where h: "finalizePromotedSnapshot root (''hourly/'' @ ?stamp) (root @ [''hourly'', ?stamp]) ts
      (fo_sources opts) (fo_retention opts) f = (((''hourly/'' @ ?stamp) # (''latest -> hourly/'' @ ?stamp) # pts, None), h)"
    "fs_wf h" "lookup h = t_finish root ?stamp ts (fo_retention opts) (lookup f)"
    using finish_run [OF a(5,6) pf(2,3) hp src] by blast
  have "FinalizeBackup cwd opts f = (((''hourly/'' @ ?stamp) # (''latest -> hourly/'' @ ?stamp) # pts, None), h)"
    using a(1-4) ne pf(4-7) e h(1) by (simp add: FinalizeBackup_def Let_def)
  then show ?thesis
    using h(2,3) by metis
qed

section \<open>What the specification says\<close>

text \<open>The retention policy keeps the snapshot named \<open>stamp\<close>: fewer than the configured
  number of snapshots are newer.\<close>

definition stamp_kept :: "path \<Rightarrow> string \<Rightarrow> retention_policy \<Rightarrow> tree \<Rightarrow> bool" where
  "stamp_kept root stamp policy t = (ret_hourly policy < 0 \<or>
     int (card {m \<in> snapshot_names root ''hourly'' t. stamp < m}) < ret_hourly policy)"

lemma tiers_keep_hourly:
  "fold (t_tier root src) (tier_pairs ts) t (root @ ''hourly'' # r) = t (root @ ''hourly'' # r)"
  by (rule fold_tiers_frame [OF tier_pairs_ok]) auto

lemma tiers_keep_latest:
  "fold (t_tier root src) (tier_pairs ts) t (root @ [''latest'']) = t (root @ [''latest''])"
  "fold (t_tier root src) (tier_pairs ts) t (root @ ''.partial'' # r) = t (root @ ''.partial'' # r)"
  by (rule fold_tiers_frame [OF tier_pairs_ok]; auto)+

lemma pruned_hourly:
  "pruned root policy (set tier_names) t (root @ ''hourly'' # stamp # r) \<longleftrightarrow> doomed root policy t ''hourly'' stamp"
  by (auto simp: pruned_def)

lemma pruned_other:
  "top' \<notin> set tier_names \<Longrightarrow> \<not> pruned root policy (set tier_names) t (root @ top' # r)"
  by (auto simp: pruned_def)

lemma t_finish_kept:
  assumes "stamp_kept root stamp policy t" "t (root @ [''hourly'', stamp]) = Some DirN"
  shows "t_finish root stamp ts policy t (root @ ''hourly'' # stamp # r) = t (root @ ''hourly'' # stamp # r)"
    and "t_finish root stamp ts policy t (root @ [''latest'']) = Some (LinkN (''hourly/'' @ stamp))"
    and "t_finish root stamp ts policy t (root @ ''.partial'' # r) = t (root @ ''.partial'' # r)"
proof -
  let ?t = "fold (t_tier root (root @ [''hourly'', stamp])) (tier_pairs ts) (t_latest root (''hourly/'' @ stamp) t)"
  have h: "?t (root @ ''hourly'' # r) = t (root @ ''hourly'' # r)" for r
    unfolding tiers_keep_hourly by (simp add: t_latest_def)
  have "snapshot_names root ''hourly'' ?t = snapshot_names root ''hourly'' t"
    unfolding snapshot_names_def using h by simp
  then have "\<not> doomed root policy ?t ''hourly'' stamp"
    using assms(1) by (auto simp: doomed_def stamp_kept_def tier_keep_def)
  then have r: "t_retain root policy ?t (root @ ''hourly'' # stamp # r) = t (root @ ''hourly'' # stamp # r)" for r
    unfolding t_retain_def pruned_hourly by (simp only: if_False h)
  then show "t_finish root stamp ts policy t (root @ ''hourly'' # stamp # r) = t (root @ ''hourly'' # stamp # r)"
    by (simp add: t_finish_def t_clean_def)
  show "t_finish root stamp ts policy t (root @ [''latest'']) = Some (LinkN (''hourly/'' @ stamp))"
    using r [of "[]"] assms(2) pruned_other [of "''latest''" root policy _ "[]"]
    by (simp add: t_finish_def t_clean_def t_retain_def tiers_keep_latest) (simp add: t_latest_def)
  show "t_finish root stamp ts policy t (root @ ''.partial'' # r) = t (root @ ''.partial'' # r)"
    using pruned_other [of "''.partial''" root policy]
    by (simp add: t_finish_def t_clean_def t_retain_def tiers_keep_latest) (simp add: t_latest_def)
qed

lemma t_finish_frame:
  assumes "\<not> prefix root p"
  shows "t_finish root stamp ts policy t p = t p"
proof -
  have np: "\<not> prefix (root @ x) p" "p \<noteq> root @ x" for x
    using assms append_prefixD [of root x p] by auto
  have "fold (t_tier root (root @ [''hourly'', stamp])) (tier_pairs ts) (t_latest root (''hourly/'' @ stamp) t) p = t p"
    using np by (subst fold_tiers_frame [OF tier_pairs_ok]) (auto simp: t_latest_def)
  then show ?thesis
    using np by (simp add: t_finish_def t_clean_def t_retain_def pruned_def)
qed

section \<open>Properties of FinalizeBackup\<close>

definition demo_store :: fs where
  "demo_store = \<lparr>fs_tree = [([''b''], DirN), ([''b'', ''.partial''], DirN), ([''b'', ''.partial'', ''r1''], DirN),
      ([''b'', ''.partial'', ''r1'', ''ns''], DirN), ([''b'', ''.partial'', ''r1'', ''ns'', ''x''], FileN 3),
      ([''etc''], DirN)],
    fs_data = [(3, ''hi'')], fs_io = None\<rparr>"

definition demo_options :: finalize_options where
  "demo_options = \<lparr>fo_targetRoot = ''/b'', fo_runID = ''r1'', fo_timestamp = ''2024-02-29T10-11-12Z'',
     fo_sources = [''ns''],
     fo_retention = \<lparr>ret_hourly = 24, ret_daily = 7, ret_weekly = 8, ret_monthly = 12\<rparr>\<rparr>"

lemma demo_ready: "finalize_ready [] demo_options [''b''] 1709201472000000000 demo_store"
  by code_simp

lemma demo_run:
  "lookup demo_store ([''b''] @ [''.partial'', fo_runID demo_options]) = Some DirN"
  "lookup demo_store ([''b''] @ [''hourly'', fo_timestamp demo_options]) = None"
  "sources_present demo_store ([''b''] @ [''.partial'', fo_runID demo_options]) (fo_sources demo_options)"
  by code_simp+



text \<open>C2. After a successful finalization that retention keeps, every file the run
  received is in the hourly snapshot, the latest link names that snapshot, and nothing is
  left of the partial run.\<close>

theorem finalized_run_is_published:
  assumes "finalize_ready cwd opts root ts f"
    and "lookup f (root @ [''.partial'', fo_runID opts]) = Some DirN"
    and "lookup f (root @ [''hourly'', fo_timestamp opts]) = None"
    and "sources_present f (root @ [''.partial'', fo_runID opts]) (fo_sources opts)"
    and "stamp_kept root (fo_timestamp opts) (fo_retention opts) (lookup f)"
  shows "\<exists>points g. FinalizeBackup cwd opts f = ((points, None), g)
    \<and> (\<forall>rel. lookup g (root @ ''hourly'' # fo_timestamp opts # rel) = lookup f (root @ ''.partial'' # fo_runID opts # rel))
    \<and> lookup g (root @ [''latest'']) = Some (LinkN (''hourly/'' @ fo_timestamp opts))
    \<and> (\<forall>rel. lookup g (root @ ''.partial'' # fo_runID opts # rel) = None)"
proof -
  let ?s = "fo_timestamp opts" and ?r = "fo_runID opts"
  let ?t = "t_promote root ?r ?s (lookup f)"
  obtain points g where g: "FinalizeBackup cwd opts f = ((points, None), g)"
    "lookup g = t_finish root ?s ts (fo_retention opts) ?t"
    using FinalizeBackup_fresh [OF assms(1-4)] by blast
  have h: "?t (root @ ''hourly'' # ?s # rel) = lookup f (root @ ''.partial'' # ?r # rel)" for rel
    by (simp add: t_promote_def)
  have "{m \<in> snapshot_names root ''hourly'' ?t. ?s < m} = {m \<in> snapshot_names root ''hourly'' (lookup f). ?s < m}"
    by (auto simp: snapshot_names_def t_promote_def)
  then have kept: "stamp_kept root ?s (fo_retention opts) ?t"
    using assms(5) by (simp add: stamp_kept_def)
  have hp: "?t (root @ [''hourly'', ?s]) = Some DirN"
    using h [of "[]"] assms(2) by simp
  have "?t (root @ ''.partial'' # ?r # rel) = None" for rel
    by (simp add: t_promote_def)
  then show ?thesis
    using g h t_finish_kept [OF kept hp] by simp
qed

theorem finalized_run_is_published_witness:
  "\<exists>points g. FinalizeBackup [] demo_options demo_store = ((points, None), g)
    \<and> (\<forall>rel. lookup g ([''b''] @ ''hourly'' # fo_timestamp demo_options # rel)
          = lookup demo_store ([''b''] @ ''.partial'' # fo_runID demo_options # rel))
    \<and> lookup g ([''b''] @ [''latest'']) = Some (LinkN (''hourly/'' @ fo_timestamp demo_options))
    \<and> (\<forall>rel. lookup g ([''b''] @ ''.partial'' # fo_runID demo_options # rel) = None)"
proof (rule finalized_run_is_published [OF demo_ready demo_run])
  have "snapshot_names [''b''] ''hourly'' (lookup demo_store) = {}"
    by (auto simp: snapshot_names_def demo_store_def lookup_def)
  then show "stamp_kept [''b''] (fo_timestamp demo_options) (fo_retention demo_options) (lookup demo_store)"
    by (simp add: stamp_kept_def demo_options_def)
qed


definition demo_promoted :: fs where
  "demo_promoted = \<lparr>fs_tree = [([''b''], DirN), ([''b'', ''hourly''], DirN), ([''b'', ''hourly'', ''2024-02-29T10-11-12Z''], DirN),
      ([''b'', ''hourly'', ''2024-02-29T10-11-12Z'', ''ns''], DirN),
      ([''b'', ''hourly'', ''2024-02-29T10-11-12Z'', ''ns'', ''x''], FileN 3)],
    fs_data = [(3, ''hi'')], fs_io = None\<rparr>"




text \<open>A tier copy that a device failure interrupts is never completed: the repeated
  finalization succeeds because the tier directory exists, yet the daily snapshot lacks a
  file that the hourly snapshot has.\<close>

theorem interrupted_tier_copy_stays_incomplete:
  "case FinalizeBackup [] demo_options (demo_store\<lparr>fs_io := Some 7\<rparr>) of (r1, f1) \<Rightarrow>
    (case FinalizeBackup [] demo_options (f1\<lparr>fs_io := None\<rparr>) of (r2, f2) \<Rightarrow>
      snd r1 \<noteq> None \<and> snd r2 = None
      \<and> lookup f2 [''b'', ''hourly'', ''2024-02-29T10-11-12Z'', ''ns'', ''x''] = Some (FileN 3)
      \<and> lookup f2 [''b'', ''daily'', ''2024-02-29''] = Some DirN
      \<and> lookup f2 [''b'', ''daily'', ''2024-02-29'', ''ns'', ''x''] = None)"
  by code_simp

end
