(* ===== verification/Store_Ops.thy ===== *)
theory Store_Ops
  imports Finalize
begin

text \<open>
  The other operations of the snapshot store: retention on its own, recovery of
  space, the removal of stale partial runs, the listing of restore points, and
  the tier calendar.
\<close>

section \<open>Retention\<close>

lemma ApplyRetention_run:
  assumes "store_ok root f" "fs_io f = None" "ApplyRetention root policy f = ((removed, err), g)"
  shows "set removed = {path_join [tier, n] |tier n. tier \<in> set tier_names \<and> doomed root policy (lookup f) tier n}"
    and "p \<noteq> root @ [''latest''] \<Longrightarrow> lookup g p = t_retain root policy (lookup f) p"
proof -
  obtain gone h where h: "retain_tiers root policy tier_names [] f = ((gone, None), h)" "store_ok root h" "fs_io h = None"
    "set gone = {path_join [tier, n] |tier n. tier \<in> set tier_names \<and> doomed root policy (lookup f) tier n}"
    "\<And>p. lookup h p = t_retain root policy (lookup f) p"
    using retain_tiers_run [OF assms(1,2), of tier_names policy "[]"] unfolding t_retain_def by fastforce
  have r: "removed = gone" "\<exists>r. cleanupDanglingLatest root h = (r, g)"
    using assms(3) h(1) by (auto simp: ApplyRetention_def split: prod.splits sum.splits)
  then show "set removed = {path_join [tier, n] |tier n. tier \<in> set tier_names \<and> doomed root policy (lookup f) tier n}"
    using h(4) by simp
  show "lookup g p = t_retain root policy (lookup f) p" if "p \<noteq> root @ [''latest'']"
    using cleanupDanglingLatest_frame(3) [OF store_okD(1,2) [OF h(2)] h(3)] r(2) that h(5) by auto
qed

text \<open>C5. Applying a retention policy leaves in each tier exactly the newest snapshots
  (fewer than the configured number have a greater name; a negative count disables the
  tier), with their contents untouched, and reports the others as removed.\<close>

theorem ApplyRetention_keeps_newest:
  assumes "store_ok root f" "fs_io f = None" "ApplyRetention root policy f = ((removed, err), g)"
    and "tier \<in> set tier_names"
  shows "snapshot_names root tier (lookup g) =
      {n \<in> snapshot_names root tier (lookup f). tier_keep policy tier < 0 \<or>
         int (card {m \<in> snapshot_names root tier (lookup f). n < m}) < tier_keep policy tier}
    \<and> (\<forall>n\<in>snapshot_names root tier (lookup g). \<forall>rel.
         lookup g (root @ tier # n # rel) = lookup f (root @ tier # n # rel))
    \<and> (\<forall>n\<in>snapshot_names root tier (lookup f). n \<notin> snapshot_names root tier (lookup g)
         \<longleftrightarrow> path_join [tier, n] \<in> set removed)"
proof -
  note R = ApplyRetention_run [OF assms(1-3)]
  have nl: "root @ tier # n # rel \<noteq> root @ [''latest'']" for n rel
    by auto
  have pr: "pruned root policy (set tier_names) (lookup f) (root @ tier # n # rel) \<longleftrightarrow> doomed root policy (lookup f) tier n" for n rel
    using assms(4) unfolding pruned_def by fastforce
  have look: "lookup g (root @ tier # n # rel) = (if doomed root policy (lookup f) tier n then None
      else lookup f (root @ tier # n # rel))" for n rel
    unfolding R(2) [OF nl] t_retain_def pr ..
  have names: "snapshot_names root tier (lookup g) = {n \<in> snapshot_names root tier (lookup f). \<not> doomed root policy (lookup f) tier n}"
    using look [of _ "[]"] by (auto simp: snapshot_names_def)
  have pj: "path_join [tier, n] \<in> set removed \<longleftrightarrow> doomed root policy (lookup f) tier n"
    if "n \<in> snapshot_names root tier (lookup f)" for n
  proof
    assume "path_join [tier, n] \<in> set removed"
    then obtain t m where tm: "path_join [tier, n] = path_join [t, m]" "t \<in> set tier_names" "doomed root policy (lookup f) t m"
      unfolding R(1) by blast
    have "plain_seg n" "plain_seg m"
      using that tm(3) snapshot_names_plain [OF store_okD(1) [OF assms(1)]] by (auto simp: doomed_def)
    then have "tier @ ''/'' @ n = t @ ''/'' @ m"
      using tm(1,2) assms(4) path_join2 plain_tiers by metis
    then have "[tier, n] = [t, m]"
      using plain_join_iff [of "[tier, n]" "[t, m]"] \<open>plain_seg n\<close> \<open>plain_seg m\<close> plain_tiers [OF tm(2)] plain_tiers [OF assms(4)]
      by simp
    then show "doomed root policy (lookup f) tier n"
      using tm(3) by simp
  qed (use R(1) assms(4) in blast)
  have "snapshot_names root tier (lookup g) =
      {n \<in> snapshot_names root tier (lookup f). tier_keep policy tier < 0 \<or>
         int (card {m \<in> snapshot_names root tier (lookup f). n < m}) < tier_keep policy tier}"
    unfolding names doomed_def by auto
  moreover have "\<forall>n\<in>snapshot_names root tier (lookup g). \<forall>rel.
         lookup g (root @ tier # n # rel) = lookup f (root @ tier # n # rel)"
    unfolding names using look by simp
  moreover have "\<forall>n\<in>snapshot_names root tier (lookup f). n \<notin> snapshot_names root tier (lookup g)
         \<longleftrightarrow> path_join [tier, n] \<in> set removed"
    unfolding names using pj by blast
  ultimately show ?thesis by blast
qed

section \<open>Removing stale partial runs\<close>

lemma remove_partials_run:
  assumes "fs_wf f" "fs_io f = None" "plain d" "lookup f d = Some DirN" "\<forall>n\<in>set names. plain_seg n"
  shows "\<exists>g. remove_partials d active names removed f = ((sort (removed @ filter (\<lambda>n. n \<notin> set active) names), None), g)
    \<and> fs_wf g \<and> fs_io g = None
    \<and> (\<forall>p. lookup g p = (if \<exists>n\<in>set names - set active. prefix (d @ [n]) p then None else lookup f p))"
  using assms
proof (induction d active names removed f rule: remove_partials.induct)
  case (2 d active n names removed f)
  show ?case
  proof (cases "n \<in> set active")
    case True
    have nm: "set (n # names) - set active = set names - set active"
      using True by auto
    show ?thesis
      unfolding nm using 2(1) [OF True] 2(3-) True by simp
  next
    case False
    let ?g = "del_nodes (prefix (d @ [n])) f"
    have rm: "os_remove_all f (path_below d n) = (Inr (), ?g)"
      using os_remove_all_at [OF 2(3) 2(6) _ 2(4), of n] 2(5,7) by (simp add: path_below1)
    have look: "lookup ?g p = (if prefix (d @ [n]) p then None else lookup f p)" for p
      by (cases "p = []") (auto simp: lookup_del_nodes)
    have g: "fs_wf ?g" "lookup ?g d = Some DirN" "fs_io ?g = None"
      using os_remove_all_wf [OF 2(3) rm] 2(4,6) look by (auto dest: prefix_length_le)
    obtain h where h: "remove_partials d active names (removed @ [n]) ?g =
        ((sort ((removed @ [n]) @ filter (\<lambda>n. n \<notin> set active) names), None), h)" "fs_wf h" "fs_io h = None"
      "\<And>p. lookup h p = (if \<exists>n\<in>set names - set active. prefix (d @ [n]) p then None else lookup ?g p)"
      using 2(2) [OF False rm [symmetric] refl g(1,3) 2(5) g(2)] 2(7) by auto
    then show ?thesis
      using False rm look by auto
  qed
qed auto

text \<open>Cleaning up removes every partial run that is not active, keeps every active
  one as it is, touches nothing else, and reports the removed runs in order.\<close>

theorem CleanupStalePartials_exact:
  assumes ok: "store_ok root f" and io: "fs_io f = None"
    and ids: "list_all (\<lambda>r. r = [] \<or> validateRunID r = Inr ()) active"
  shows "\<exists>removed g. CleanupStalePartials root active f = ((removed, None), g) \<and> sorted removed
    \<and> set removed = {n. lookup f (root @ [''.partial'', n]) = Some DirN \<and> n \<notin> set active}
    \<and> (\<forall>p. lookup g p = (if \<exists>n\<in>set removed. prefix (root @ [''.partial'', n]) p then None else lookup f p))"
proof -
  note d = store_okD [OF ok]
  let ?d = "root @ [''.partial'']"
  have fold: "fold_result (\<lambda>r act. if r = [] then Inr act
      else (case validateRunID r of Inl e \<Rightarrow> Inl e | Inr _ \<Rightarrow> Inr (r # act))) active acc
    = Inr (rev (filter (\<lambda>r. r \<noteq> []) active) @ acc)" for acc
    using ids by (induction active arbitrary: acc) auto
  have pb: "path_below root ''.partial'' = ?d"
    using path_below1 [OF d(3) plain_fixed(2)] .
  show ?thesis
  proof (cases "lookup f ?d")
    case None
    have "lookup f (root @ [''.partial'', n]) = None" for n
      using lookup_ancestor [OF d(1), of ?d "[n]"] None by fastforce
    moreover have "os_readdir f ?d = Inl (Sentinel ENOENT ''open'')"
      using os_readdir_at [OF d(1,2) plain_fixed(2)] None by simp
    ultimately show ?thesis
      using fold [of "[]"] pb by (simp add: CleanupStalePartials_def)
  next
    case (Some nd)
    then have dd: "lookup f ?d = Some DirN"
      using d(4) by auto
    let ?names = "map fst (filter (\<lambda>(n, nd). nd = DirN) (children f ?d))"
    have names: "set ?names = {n. lookup f (root @ [''.partial'', n]) = Some DirN}"
      using children_iff [OF d(1), of _ _ ?d] by force
    have pl: "\<forall>n\<in>set ?names. plain_seg n"
      unfolding names using lookup_plain [OF d(1)] by fastforce
    have rd: "os_readdir f ?d = Inr (children f ?d)"
      using os_readdir_at [OF d(1,2) plain_fixed(2)] dd by simp
    let ?act = "rev (filter (\<lambda>r. r \<noteq> []) active)"
    obtain g where g: "remove_partials ?d ?act ?names [] f = ((sort (filter (\<lambda>n. n \<notin> set ?act) ?names), None), g)"
      "\<And>p. lookup g p = (if \<exists>n\<in>set ?names - set ?act. prefix (?d @ [n]) p then None else lookup f p)"
      using remove_partials_run [OF d(1) io _ dd pl, of ?act "[]"] d(3) by auto
    have act: "n \<in> set ?names \<Longrightarrow> n \<in> set ?act \<longleftrightarrow> n \<in> set active" for n
      using pl by (auto simp: plain_seg_def)
    let ?rem = "sort (filter (\<lambda>n. n \<notin> set ?act) ?names)"
    have "CleanupStalePartials root active f = ((?rem, None), g)"
      using fold [of "[]"] pb rd g(1) by (simp add: CleanupStalePartials_def Let_def)
    moreover have "set ?rem = {n. lookup f (root @ [''.partial'', n]) = Some DirN \<and> n \<notin> set active}"
      using act names by auto
    moreover have "lookup g p = (if \<exists>n\<in>set ?rem. prefix (root @ [''.partial'', n]) p then None else lookup f p)" for p
    proof -
      have "set ?names - set ?act = set ?rem"
        by auto
      then show ?thesis
        unfolding g(2) by simp
    qed
    ultimately show ?thesis
      by (intro exI [of _ ?rem] exI [of _ g] conjI allI) simp_all
  qed
qed

definition demo_partials :: fs where
  "demo_partials = \<lparr>fs_tree = [([''b''], DirN), ([''b'', ''.partial''], DirN), ([''b'', ''.partial'', ''r1''], DirN),
      ([''b'', ''.partial'', ''r2''], DirN), ([''b'', ''.partial'', ''r2'', ''ns''], DirN),
      ([''b'', ''hourly''], DirN), ([''b'', ''hourly'', ''a''], DirN), ([''b'', ''hourly'', ''b''], DirN),
      ([''b'', ''latest''], LinkN ''hourly/b'')],
    fs_data = [], fs_io = None\<rparr>"

lemma demo_partials_ok: "store_ok [''b''] demo_partials" "fs_io demo_partials = None"
  by code_simp+

theorem CleanupStalePartials_exact_witness:
  "\<exists>removed g. CleanupStalePartials [''b''] [''r1''] demo_partials = ((removed, None), g) \<and> sorted removed
    \<and> set removed = {n. lookup demo_partials ([''b''] @ [''.partial'', n]) = Some DirN \<and> n \<notin> set [''r1'']}
    \<and> (\<forall>p. lookup g p = (if \<exists>n\<in>set removed. prefix ([''b''] @ [''.partial'', n]) p then None else lookup demo_partials p))"
  by (rule CleanupStalePartials_exact [OF demo_partials_ok]) code_simp

theorem ApplyRetention_keeps_newest_witness:
  "let policy = \<lparr>ret_hourly = 1, ret_daily = 7, ret_weekly = 8, ret_monthly = 12\<rparr>;
       g = snd (ApplyRetention [''b''] policy demo_partials)
   in \<forall>n\<in>snapshot_names [''b''] ''hourly'' (lookup g). \<forall>rel.
        lookup g ([''b''] @ ''hourly'' # n # rel) = lookup demo_partials ([''b''] @ ''hourly'' # n # rel)"
proof -
  let ?policy = "\<lparr>ret_hourly = 1, ret_daily = 7, ret_weekly = 8, ret_monthly = 12\<rparr>"
  obtain removed err g where g: "ApplyRetention [''b''] ?policy demo_partials = ((removed, err), g)"
    by (metis prod.collapse)
  then show ?thesis
    using ApplyRetention_keeps_newest [OF demo_partials_ok g, of "''hourly''"] by (simp add: Let_def)
qed

section \<open>Recovering space\<close>

lemma tier_entries_run:
  assumes "store_ok root f" "set tiers \<subseteq> set tier_names"
  shows "\<exists>names. tier_entries root f tiers = Inr names \<and>
    set names = {path_join [tier, n] |tier n. tier \<in> set tiers \<and> n \<in> snapshot_names root tier (lookup f)}"
  using assms(2)
proof (induction tiers)
  case (Cons tier tiers)
  note d = store_okD [OF assms(1)]
  obtain rest where rest: "tier_entries root f tiers = Inr rest"
    "set rest = {path_join [tier, n] |tier n. tier \<in> set tiers \<and> n \<in> snapshot_names root tier (lookup f)}"
    using Cons by auto
  have tier: "tier \<in> set tier_names"
    using Cons.prems by simp
  show ?case
  proof (cases "lookup f (root @ [tier])")
    case None
    then have "snapshot_names root tier (lookup f) = {}"
      using lookup_ancestor [OF d(1), of "root @ [tier]"] by (fastforce simp: snapshot_names_def)
    then show ?thesis
      using rest None tier_listing [OF assms(1) tier] by auto
  next
    case (Some nd)
    let ?es = "map (\<lambda>(n, nd). path_join [tier, n]) (filter (\<lambda>(n, nd). nd = DirN) (children f (root @ [tier])))"
    have "set ?es = {path_join [tier, n] |n. n \<in> snapshot_names root tier (lookup f)}"
      using children_iff [OF d(1), of _ _ "root @ [tier]"] by (force simp: snapshot_names_def)
    then have "set (?es @ rest) = {path_join [t, n] |t n. t \<in> set (tier # tiers) \<and> n \<in> snapshot_names root t (lookup f)}"
      using rest(2) by auto
    moreover have "tier_entries root f (tier # tiers) = Inr (?es @ rest)"
      using rest(1) Some tier_listing [OF assms(1) tier] by simp
    ultimately show ?thesis by blast
  qed
qed simp

text \<open>The paths below the root that a list of snapshot names stands for.\<close>

definition under :: "path \<Rightarrow> string list \<Rightarrow> path \<Rightarrow> bool" where
  "under root names p = (\<exists>c\<in>set names. prefix (path_below root c) p)"

lemma recover_loop_run:
  assumes "fs_wf f" "fs_io f = None" "plain root" "lookup f root = Some DirN"
    and "\<forall>c\<in>set cs. \<exists>tier n. c = path_join [tier, n] \<and> plain_seg n \<and> tier \<in> set tier_names
           \<and> lookup f (root @ [tier]) = Some DirN"
    and "recover_loop avail root m protected cs a removed f = ((removed', err), g)"
  shows "\<exists>gone. removed' = removed @ gone \<and> prefix gone (filter (\<lambda>c. c \<notin> set protected) cs)
    \<and> (\<forall>p. lookup g p = (if under root gone p then None else lookup f p))
    \<and> (err = None \<longrightarrow> (\<exists>b. avail g = Inr b \<and> m \<le> b))"
  using assms
proof (induction avail root m protected cs a removed f rule: recover_loop.induct)
  case (1 avail root m protected a removed f)
  then show ?case
    by (auto simp: under_def)
next
  case (2 avail root m protected c cs a removed f)
  show ?case
  proof (cases "c \<in> set protected")
    case True
    then show ?thesis
      using 2(1) [OF True 2(3-6)] 2(7,8) by simp
  next
    case False
    obtain tier n where tn: "c = path_join [tier, n]" "plain_seg n" "tier \<in> set tier_names" "lookup f (root @ [tier]) = Some DirN"
      using 2(7) by auto
    have pb: "path_below root c = root @ [tier, n]"
      using tn(1,2) path_below2 [OF 2(5) plain_tiers [OF tn(3)]] by simp
    let ?g = "del_nodes (prefix (root @ [tier, n])) f"
    have rm: "os_remove_all f (path_below root c) = (Inr (), ?g)"
      using os_remove_all_at [OF 2(3) tn(4,2) 2(4)] pb by simp
    have look: "lookup ?g p = (if prefix (path_below root c) p then None else lookup f p)" for p
      unfolding pb by (cases "p = []") (auto simp: lookup_del_nodes)
    have short: "lookup ?g (root @ [x]) = lookup f (root @ [x])" "lookup ?g root = lookup f root" for x
      by (auto simp: look pb dest: prefix_length_le)
    have g: "fs_wf ?g" "fs_io ?g = None" "lookup ?g root = Some DirN"
      using os_remove_all_wf [OF 2(3) rm] 2(4,6) short by auto
    have one: "under root [c] p = prefix (path_below root c) p" for p
      by (simp add: under_def)
    show ?thesis
    proof (cases "avail ?g")
      case (Inl e)
      then show ?thesis
        using 2(8) False rm look one by (intro exI [of _ "[c]"]) auto
    next
      case (Inr b)
      show ?thesis
      proof (cases "m \<le> b")
        case True
        then show ?thesis
          using 2(8) False rm look one Inr by (intro exI [of _ "[c]"]) auto
      next
        case less: False
        have rec: "recover_loop avail root m protected cs b (removed @ [c]) ?g = ((removed', err), g)"
          using 2(8) False rm Inr less by simp
        obtain gone where gone: "removed' = (removed @ [c]) @ gone" "prefix gone (filter (\<lambda>c. c \<notin> set protected) cs)"
          "\<And>p. lookup g p = (if under root gone p then None else lookup ?g p)"
          "err = None \<longrightarrow> (\<exists>b. avail g = Inr b \<and> m \<le> b)"
          using 2(2) [OF False rm [symmetric] refl Inr less g(1,2) 2(5) g(3) _ rec] 2(7) short by auto
        then show ?thesis
          using False look by (intro exI [of _ "c # gone"]) (auto simp: under_def)
      qed
    qed
  qed
qed

lemma RecoverSpace_cases:
  assumes "RecoverSpace avail mtime root m prot f = ((removed, err), g)"
  obtains (early) "removed = []" "g = f" "err = None \<longrightarrow> (\<exists>b. avail f = Inr b \<and> m \<le> b)"
  | (loop) a prs cands where "map_result (\<lambda>s. case NormalizeRelativePath s of
          Inl e \<Rightarrow> Inl (wrapf ''invalid protected snapshot %q: %w'' [s] e) | Inr n \<Rightarrow> Inr n) prot = Inr prs"
      "removableSnapshots mtime root f = Inr cands" "recover_loop avail root m prs cands a [] f = ((removed, err), g)"
  using assms by (auto simp: RecoverSpace_def split: sum.splits if_splits)



text \<open>Without protected snapshots, recovery of space may delete every restore point,
  the one that \<open>latest\<close> names included, and leave the link dangling.\<close>

theorem RecoverSpace_may_remove_latest:
  "case RecoverSpace (\<lambda>_. Inr 0) (\<lambda>_. 0) [''b''] 1 [] demo_partials of (r, g) \<Rightarrow>
     fst r = [''hourly/a'', ''hourly/b''] \<and> children g [''b'', ''hourly''] = []
     \<and> lookup g [''b'', ''latest''] = Some (LinkN ''hourly/b'')
     \<and> \<not> is_ok (os_stat g [''b'', ''latest''])"
  by code_simp

section \<open>The tier calendar\<close>

text \<open>The week of a snapshot starts on the Monday on or before its day, and two days
  share a weekly snapshot exactly when they have the same Monday.\<close>

theorem weekStart_is_monday:
  "weekday (weekStart day) = 1 \<and> weekStart day \<le> day \<and> day < weekStart day + 7
   \<and> (weekStart day = weekStart day' \<longleftrightarrow> day div 7 = day' div 7)"
proof -
  have w: "weekStart d = 7 * (d div 7)" for d
  proof -
    have "((d + 1) mod 7 + 6) mod 7 = d mod 7"
      by presburger
    then show ?thesis
      unfolding weekStart_def weekday_def Let_def by (simp add: minus_mod_eq_mult_div)
  qed
  show ?thesis
    unfolding w weekday_def by (simp add: mult_div_mod_eq [symmetric] mod_add_left_eq) presburger
qed

end
