(* ===== verification/Target_Lock.thy ===== *)
theory Target_Lock
  imports Finalize
begin

text \<open>
  Exclusive locks. The locale \<open>run_lock\<close> states what a lock promises to the runs
  that share a target: one holder at a time, refused to everybody else until the
  holder releases it. The lock file of the data plane (dataplane/snapshot.go,
  \<open>AcquireTargetLock\<close> and \<open>Release\<close>) is an instance.
\<close>

section \<open>The interface\<close>

datatype 'r lock_op = LAcquire 'r | LRelease 'r

locale run_lock =
  fixes acquire :: "'r \<Rightarrow> 's \<Rightarrow> 's option"
    and release :: "'r \<Rightarrow> 's \<Rightarrow> 's option"
    and holder :: "'s \<Rightarrow> 'r option"
    and valid :: "'r \<Rightarrow> bool"
    and inv :: "'s \<Rightarrow> bool"
  assumes acquire_free: "inv s \<Longrightarrow> valid r \<Longrightarrow> holder s = None \<Longrightarrow>
      \<exists>t. acquire r s = Some t \<and> holder t = Some r \<and> inv t"
    and acquire_held: "inv s \<Longrightarrow> holder s = Some h \<Longrightarrow> acquire r s = None"
    and acquire_invalid: "inv s \<Longrightarrow> \<not> valid r \<Longrightarrow> acquire r s = None"
    and release_own: "inv s \<Longrightarrow> holder s = Some r \<Longrightarrow> \<exists>t. release r s = Some t \<and> holder t = None \<and> inv t"
    and release_other: "inv s \<Longrightarrow> holder s = Some h \<Longrightarrow> r \<noteq> h \<Longrightarrow> release r s = None"
begin

text \<open>A call that is refused leaves the state as it is; a release of a free lock does nothing.\<close>

fun lock_step :: "'r lock_op \<Rightarrow> 's \<Rightarrow> 's" where
  "lock_step (LAcquire r) s = (case acquire r s of None \<Rightarrow> s | Some t \<Rightarrow> t)"
| "lock_step (LRelease r) s = (if holder s = None then s else case release r s of None \<Rightarrow> s | Some t \<Rightarrow> t)"

lemma lock_step_inv: "inv s \<Longrightarrow> inv (lock_step op s)"
proof (cases op)
  case (LAcquire r)
  assume "inv s"
  then show ?thesis
    using LAcquire acquire_free [of s r] acquire_held [of s _ r] acquire_invalid [of s r]
    by (cases "holder s"; cases "valid r") auto
next
  case (LRelease r)
  assume "inv s"
  then show ?thesis
    using LRelease release_own [of s r] release_other [of s _ r]
    by (cases "holder s"; cases "holder s = Some r") auto
qed

lemma holder_stays:
  assumes "inv s" "holder s = Some h" "op \<noteq> LRelease h"
  shows "holder (lock_step op s) = Some h"
proof (cases op)
  case (LRelease r)
  then show ?thesis
    using release_other [OF assms(1,2), of r] assms by auto
qed (use acquire_held [OF assms(1,2)] assms(2) in auto)

text \<open>Whatever the other runs do, the holder keeps the lock until it releases it.\<close>

lemma mutual_exclusion:
  assumes "inv s" "holder s = Some h" "LRelease h \<notin> set ops"
  shows "holder (fold lock_step ops s) = Some h \<and> acquire r (fold lock_step ops s) = None"
proof -
  have "inv (fold lock_step ops s) \<and> holder (fold lock_step ops s) = Some h"
    using assms by (induction ops arbitrary: s) (auto simp: lock_step_inv holder_stays)
  then show ?thesis
    using acquire_held by auto
qed

lemma handover:
  assumes "inv s" "holder s = Some h" "valid r"
  shows "holder (lock_step (LAcquire r) (lock_step (LRelease h) s)) = Some r"
proof -
  obtain t where t: "release h s = Some t" "holder t = None" "inv t"
    using release_own [OF assms(1,2)] by blast
  then show ?thesis
    using acquire_free [OF t(3) assms(3) t(2)] assms(2) by auto
qed

end

section \<open>The lock file\<close>

definition no_newline :: "string \<Rightarrow> bool" where
  "no_newline s = (CHR 0x0A \<notin> set s)"

text \<open>The name after \<open>runID=\<close> on the first line of the lock file.\<close>

definition file_holder :: "path \<Rightarrow> fs \<Rightarrow> string option" where
  "file_holder root f = (case os_read_file f (root @ [''.krm-run.lock'']) of
      Inl e \<Rightarrow> None | Inr data \<Rightarrow> Some (drop 6 (takeWhile (\<lambda>c. c \<noteq> CHR 0x0A) data)))"

definition file_acquire :: "path \<Rightarrow> string \<Rightarrow> string \<Rightarrow> string \<Rightarrow> string \<Rightarrow> fs \<Rightarrow> fs option" where
  "file_acquire root createdAt hostname pid r f =
    (case AcquireTargetLock root r createdAt hostname pid f of (Inr _, g) \<Rightarrow> Some g | (Inl _, g) \<Rightarrow> None)"

definition file_release :: "path \<Rightarrow> string \<Rightarrow> fs \<Rightarrow> fs option" where
  "file_release root r f =
    (case ReleaseTargetLock \<lparr>tl_path = root @ [''.krm-run.lock''], tl_runID = r\<rparr> f of
       (Inr _, g) \<Rightarrow> Some g | (Inl _, g) \<Rightarrow> None)"

definition file_lock_inv :: "path \<Rightarrow> string \<Rightarrow> string \<Rightarrow> string \<Rightarrow> fs \<Rightarrow> bool" where
  "file_lock_inv root createdAt hostname pid f =
    (fs_wf f \<and> fs_io f = None \<and> lookup f root = Some DirN
     \<and> no_newline createdAt \<and> no_newline hostname \<and> no_newline pid
     \<and> (lookup f (root @ [''.krm-run.lock'']) = None \<or>
        (\<exists>i r. lookup f (root @ [''.krm-run.lock'']) = Some (FileN i) \<and> validateRunID r = Inr ()
           \<and> map_of (fs_data f) i = Some (lock_text r createdAt hostname pid))))"

lemma plain_lock_name [simp]: "plain_seg ''.krm-run.lock''"
  by (simp add: plain_seg_def)

lemma run_id_no_newline: "validateRunID r = Inr () \<Longrightarrow> no_newline r"
  by (auto simp: validateRunID_def no_newline_def split: sum.splits if_splits)

lemma lock_text_holder:
  assumes "no_newline r"
  shows "drop 6 (takeWhile (\<lambda>c. c \<noteq> CHR 0x0A) (lock_text r createdAt hostname pid)) = r"
proof -
  have "takeWhile (\<lambda>c. c \<noteq> CHR 0x0A) (r @ [CHR 0x0A] @ x) = r" for x
    using assms by (auto simp: no_newline_def takeWhile_append takeWhile_eq_all_conv)
  then show ?thesis
    by (simp add: lock_text_def)
qed

lemma lock_text_matches:
  assumes "no_newline r" "no_newline createdAt" "no_newline hostname" "no_newline pid" "no_newline q"
  shows "lockDataMatchesRunID (lock_text r createdAt hostname pid) q \<longleftrightarrow> q = r"
proof -
  have "split_on (CHR 0x0A) (lock_text r createdAt hostname pid)
      = [''runID='' @ r, ''createdAt='' @ createdAt, ''hostname='' @ hostname, ''pid='' @ pid, []]"
  proof -
    let ?ls = "[''runID='' @ r, ''createdAt='' @ createdAt, ''hostname='' @ hostname, ''pid='' @ pid, []]"
    have "lock_text r createdAt hostname pid = join [CHR 0x0A] ?ls"
      by (simp add: lock_text_def)
    moreover have "\<forall>x\<in>set ?ls. CHR 0x0A \<notin> set x"
      using assms by (auto simp: no_newline_def)
    ultimately show ?thesis
      using split_on_join [of ?ls "CHR 0x0A"] by simp
  qed
  then show ?thesis
    by (auto simp: lockDataMatchesRunID_def)
qed

lemma read_lock_file:
  assumes "fs_wf f" "lookup f root = Some DirN" "lookup f (root @ [''.krm-run.lock'']) = Some (FileN i)"
    "map_of (fs_data f) i = Some data"
  shows "os_stat f (root @ [''.krm-run.lock'']) = Inr (FileN i)"
    "os_read_file f (root @ [''.krm-run.lock'']) = Inr data"
  using os_stat_entry [OF assms(1,2) plain_lock_name] assms(3,4) by (simp_all add: os_read_file_def)

lemma no_lock_file:
  assumes "fs_wf f" "lookup f root = Some DirN" "lookup f (root @ [''.krm-run.lock'']) = None"
  shows "os_read_file f (root @ [''.krm-run.lock'']) = Inl (Sentinel ENOENT ''stat'')"
  using os_stat_entry [OF assms(1,2) plain_lock_name] assms(3) by (simp add: os_read_file_def)

lemma file_lock_free:
  assumes inv: "file_lock_inv root ca hn pid f" and v: "validateRunID r = Inr ()"
    and free: "lookup f (root @ [''.krm-run.lock'']) = None"
  shows "\<exists>g. AcquireTargetLock root r ca hn pid f = (Inr \<lparr>tl_path = root @ [''.krm-run.lock''], tl_runID = r\<rparr>, g)
    \<and> file_lock_inv root ca hn pid g \<and> file_holder root g = Some r"
proof -
  let ?p = "root @ [''.krm-run.lock'']" and ?i = "fresh_inode f" and ?text = "lock_text r ca hn pid"
  have a: "fs_wf f" "fs_io f = None" "lookup f root = Some DirN" "no_newline ca" "no_newline hn" "no_newline pid"
    using inv by (auto simp: file_lock_inv_def)
  let ?f1 = "(add_node ?p (FileN ?i) f)\<lparr>fs_data := (?i, []) # fs_data f\<rparr>"
  have f1: "os_create_excl f ?p = (Inr (), ?f1)"
    using os_create_at [OF a(1,3) plain_lock_name] a(2) free by (simp add: os_create_excl_def Let_def add_node_def)
  have wf1: "fs_wf ?f1" "lookup ?f1 root = Some DirN" "lookup ?f1 ?p = Some (FileN ?i)" "fs_io ?f1 = None"
    using fs_wf_add_node [OF a(1,3) plain_lock_name free] a(2,3) by auto
  let ?g = "?f1\<lparr>fs_data := alist_put ?i ?text ((?i, []) # fs_data f)\<rparr>"
  have w: "os_write_file ?f1 ?p ?text = (Inr (), ?g)"
    using os_stat_entry [OF wf1(1,2) plain_lock_name] wf1(3,4) by (simp add: os_write_file_def)
  have pb: "path_below root ''.krm-run.lock'' = ?p"
    using path_below1 [OF lookup_plain [OF a(1,3)] plain_lock_name] .
  have acq: "AcquireTargetLock root r ca hn pid f = (Inr \<lparr>tl_path = ?p, tl_runID = r\<rparr>, ?g)"
    using v os_mkdir_all_dir [OF a(1,3)] pb f1 w by (simp add: AcquireTargetLock_def Let_def)
  have g: "fs_wf ?g" "lookup ?g root = Some DirN" "lookup ?g ?p = Some (FileN ?i)" "map_of (fs_data ?g) ?i = Some ?text" "fs_io ?g = None"
    using wf1 by simp_all
  have "file_lock_inv root ca hn pid ?g"
    unfolding file_lock_inv_def using g a(4-6) v by blast
  moreover have "file_holder root ?g = Some r"
    using read_lock_file(2) [OF g(1-4)] lock_text_holder [OF run_id_no_newline [OF v]] by (simp add: file_holder_def)
  ultimately show ?thesis
    using acq by blast
qed

lemma file_lock_held:
  assumes "file_lock_inv root ca hn pid f" "lookup f (root @ [''.krm-run.lock'']) \<noteq> None"
  obtains i r where "lookup f (root @ [''.krm-run.lock'']) = Some (FileN i)" "validateRunID r = Inr ()"
    "map_of (fs_data f) i = Some (lock_text r ca hn pid)" "file_holder root f = Some r"
proof -
  obtain i r where r: "lookup f (root @ [''.krm-run.lock'']) = Some (FileN i)" "validateRunID r = Inr ()"
    "map_of (fs_data f) i = Some (lock_text r ca hn pid)"
    using assms by (auto simp: file_lock_inv_def)
  moreover have "file_holder root f = Some r"
    using assms(1) r read_lock_file(2) [of f root i] lock_text_holder [OF run_id_no_newline [OF r(2)]]
    by (simp add: file_holder_def file_lock_inv_def)
  ultimately show thesis
    using that by blast
qed

lemma file_holder_None_iff:
  assumes "file_lock_inv root ca hn pid f"
  shows "file_holder root f = None \<longleftrightarrow> lookup f (root @ [''.krm-run.lock'']) = None"
proof (cases "lookup f (root @ [''.krm-run.lock''])")
  case None
  then show ?thesis
    using assms no_lock_file [of f root] by (simp add: file_holder_def file_lock_inv_def)
next
  case (Some nd)
  then show ?thesis
    using file_lock_held [OF assms] by (metis option.distinct(1))
qed

lemma file_lock_refused:
  assumes inv: "file_lock_inv root ca hn pid f" and held: "file_holder root f = Some h"
  shows "\<exists>e. AcquireTargetLock root r ca' hn' pid' f = (Inl e, f)"
proof (cases "validateRunID r")
  case (Inr u)
  let ?p = "root @ [''.krm-run.lock'']"
  have a: "fs_wf f" "lookup f root = Some DirN" "lookup f ?p \<noteq> None"
    using inv held file_holder_None_iff [OF inv] by (auto simp: file_lock_inv_def)
  obtain i q where q: "lookup f ?p = Some (FileN i)" "map_of (fs_data f) i = Some (lock_text q ca hn pid)"
    using file_lock_held [OF inv a(3)] .
  have "os_create_excl f ?p = (Inl (Sentinel EEXIST ''file exists''), f)"
    using os_create_at [OF a(1,2) plain_lock_name] q(1) by (simp add: os_create_excl_def Let_def)
  moreover have "path_below root ''.krm-run.lock'' = ?p"
    using path_below1 [OF lookup_plain [OF a(1,2)] plain_lock_name] .
  ultimately show ?thesis
    using Inr os_mkdir_all_dir [OF a(1,2)] read_lock_file(2) [OF a(1,2) q]
    by (simp add: AcquireTargetLock_def Let_def)
qed (simp add: AcquireTargetLock_def)

lemma file_lock_release:
  assumes inv: "file_lock_inv root ca hn pid f" and held: "file_holder root f = Some h" and q: "no_newline q"
  shows "if q = h then \<exists>g. ReleaseTargetLock \<lparr>tl_path = root @ [''.krm-run.lock''], tl_runID = q\<rparr> f = (Inr (), g)
        \<and> file_lock_inv root ca hn pid g \<and> file_holder root g = None
      else \<exists>e. ReleaseTargetLock \<lparr>tl_path = root @ [''.krm-run.lock''], tl_runID = q\<rparr> f = (Inl e, f)"
proof -
  let ?p = "root @ [''.krm-run.lock'']"
  have a: "fs_wf f" "lookup f root = Some DirN" "lookup f ?p \<noteq> None" "fs_io f = None"
    "no_newline ca" "no_newline hn" "no_newline pid"
    using inv held file_holder_None_iff [OF inv] by (auto simp: file_lock_inv_def)
  obtain i where i: "lookup f ?p = Some (FileN i)" "validateRunID h = Inr ()" "map_of (fs_data f) i = Some (lock_text h ca hn pid)"
    using file_lock_held [OF inv a(3)] held by (metis option.inject)
  have m: "lockDataMatchesRunID (lock_text h ca hn pid) q \<longleftrightarrow> q = h"
    using lock_text_matches [OF run_id_no_newline [OF i(2)] a(5-7) q] .
  let ?g = "del_nodes (\<lambda>x. x = ?p) f"
  have rm: "os_remove f ?p = (Inr (), ?g)"
    using resolve_entry [OF a(1,2) plain_lock_name, of False] i(1) a(4) by (simp add: os_remove_def)
  have rd: "os_read_file f ?p = Inr (lock_text h ca hn pid)"
    using read_lock_file(2) [OF a(1,2) i(1,3)] .
  have g: "fs_wf ?g" "lookup ?g root = Some DirN" "lookup ?g ?p = None" "fs_io ?g = None"
    using os_remove_wf [OF a(1) rm] a(2,4) by (cases "root = []"; auto simp: lookup_del_nodes)+
  have "file_lock_inv root ca hn pid ?g"
    using g a(5-7) by (simp add: file_lock_inv_def)
  then show ?thesis
    using rd m rm g(3) file_holder_None_iff [of root ca hn pid ?g] by (cases "q = h") (simp_all add: ReleaseTargetLock_def)
qed

lemma file_release_newline:
  assumes inv: "file_lock_inv root ca hn pid f" and held: "file_holder root f = Some h" and q: "\<not> no_newline q"
  shows "file_release root q f = None"
proof -
  let ?p = "root @ [''.krm-run.lock'']"
  have a: "fs_wf f" "lookup f root = Some DirN" "lookup f ?p \<noteq> None"
    using inv held file_holder_None_iff [OF inv] by (auto simp: file_lock_inv_def)
  obtain i r where r: "lookup f ?p = Some (FileN i)" "map_of (fs_data f) i = Some (lock_text r ca hn pid)"
    using file_lock_held [OF inv a(3)] .
  have "\<not> lockDataMatchesRunID (lock_text r ca hn pid) q"
    using q split_on_no_sep [of "''runID='' @ q" "CHR 0x0A"] by (auto simp: lockDataMatchesRunID_def no_newline_def)
  then show ?thesis
    using read_lock_file(2) [OF a(1,2) r] by (simp add: file_release_def ReleaseTargetLock_def)
qed

interpretation flock: run_lock "file_acquire root createdAt hostname pid" "file_release root" "file_holder root"
    "\<lambda>r. validateRunID r = Inr ()" "file_lock_inv root createdAt hostname pid"
  for root createdAt hostname pid
proof unfold_locales
  fix s r assume a: "file_lock_inv root createdAt hostname pid s" "validateRunID r = Inr ()" "file_holder root s = None"
  then show "\<exists>t. file_acquire root createdAt hostname pid r s = Some t \<and> file_holder root t = Some r
      \<and> file_lock_inv root createdAt hostname pid t"
    using file_lock_free [OF a(1,2)] file_holder_None_iff [OF a(1)] by (auto simp: file_acquire_def)
next
  fix s h r assume a: "file_lock_inv root createdAt hostname pid s" "file_holder root s = Some h"
  obtain e where "AcquireTargetLock root r createdAt hostname pid s = (Inl e, s)"
    using file_lock_refused [OF a] by blast
  then show "file_acquire root createdAt hostname pid r s = None"
    by (simp add: file_acquire_def)
next
  fix s r assume "\<not> validateRunID r = Inr ()"
  then show "file_acquire root createdAt hostname pid r s = None"
    by (cases "validateRunID r") (auto simp: file_acquire_def AcquireTargetLock_def)
next
  fix s r assume a: "file_lock_inv root createdAt hostname pid s" "file_holder root s = Some r"
  then have "no_newline r"
    using file_lock_held [OF a(1)] file_holder_None_iff [OF a(1)] run_id_no_newline
    by (metis option.distinct(1) option.inject)
  then show "\<exists>t. file_release root r s = Some t \<and> file_holder root t = None \<and> file_lock_inv root createdAt hostname pid t"
    using file_lock_release [OF a, of r] by (auto simp: file_release_def)
next
  fix s h r assume a: "file_lock_inv root createdAt hostname pid s" "file_holder root s = Some h" "r \<noteq> h"
  then show "file_release root r s = None"
    using file_lock_release [OF a(1,2), of r] file_release_newline [OF a(1,2), of r]
    by (cases "no_newline r") (auto simp: file_release_def)
qed

text \<open>The calls themselves, with the state each leaves behind.\<close>

fun file_lock_call :: "path \<Rightarrow> string \<Rightarrow> string \<Rightarrow> string \<Rightarrow> string lock_op \<Rightarrow> fs \<Rightarrow> fs" where
  "file_lock_call root ca hn pid (LAcquire r) f = snd (AcquireTargetLock root r ca hn pid f)"
| "file_lock_call root ca hn pid (LRelease r) f =
     snd (ReleaseTargetLock \<lparr>tl_path = root @ [''.krm-run.lock''], tl_runID = r\<rparr> f)"

lemma file_lock_call_step:
  assumes inv: "file_lock_inv root ca hn pid f"
  shows "file_lock_call root ca hn pid op f = flock.lock_step root ca hn pid op f"
proof (cases op)
  case (LAcquire r)
  show ?thesis
  proof (cases "validateRunID r")
    case (Inl e)
    then show ?thesis
      using LAcquire by (simp add: AcquireTargetLock_def file_acquire_def)
  next
    case (Inr u)
    show ?thesis
    proof (cases "file_holder root f")
      case None
      then show ?thesis
        using LAcquire file_lock_free [OF inv, of r] Inr file_holder_None_iff [OF inv] by (auto simp: file_acquire_def)
    next
      case (Some h)
      then obtain e where "AcquireTargetLock root r ca hn pid f = (Inl e, f)"
        using file_lock_refused [OF inv Some] by blast
      then show ?thesis
        using LAcquire by (simp add: file_acquire_def)
    qed
  qed
next
  case (LRelease r)
  show ?thesis
  proof (cases "file_holder root f")
    case None
    then have "os_read_file f (root @ [''.krm-run.lock'']) = Inl (Sentinel ENOENT ''stat'')"
      using inv file_holder_None_iff [OF inv] by (intro no_lock_file) (auto simp: file_lock_inv_def)
    then show ?thesis
      using LRelease None by (simp add: ReleaseTargetLock_def)
  next
    case (Some h)
    have "snd (ReleaseTargetLock \<lparr>tl_path = root @ [''.krm-run.lock''], tl_runID = r\<rparr> f)
        = (case file_release root r f of None \<Rightarrow> f | Some t \<Rightarrow> t)"
    proof (cases "no_newline r")
      case True
      then show ?thesis
        using file_lock_release [OF inv Some True] by (auto simp: file_release_def split: if_splits)
    next
      case False
      have fail: "file_release root r f = None"
        using file_release_newline [OF inv Some False] .
      have io: "fs_io f = None"
        using inv by (simp add: file_lock_inv_def)
      show ?thesis
        using fail io unfolding file_release_def ReleaseTargetLock_def
        by (auto simp: os_remove_def split: sum.splits if_splits option.splits)
    qed
    then show ?thesis
      using LRelease Some by simp
  qed
qed

lemma file_lock_calls:
  assumes "file_lock_inv root ca hn pid f"
  shows "fold (file_lock_call root ca hn pid) ops f = fold (flock.lock_step root ca hn pid) ops f"
  using assms by (induction ops arbitrary: f) (simp_all add: file_lock_call_step flock.lock_step_inv)

text \<open>C30. The lock file excludes: once a run holds it, every further acquisition fails for as
  long as that run does not release it, whatever acquisitions and releases the other runs
  try in between.\<close>

theorem target_lock_excludes:
  assumes "file_lock_inv root createdAt hostname pid f" and "file_holder root f = Some h"
    and "LRelease h \<notin> set ops"
  shows "file_holder root (fold (file_lock_call root createdAt hostname pid) ops f) = Some h
    \<and> \<not> is_ok (fst (AcquireTargetLock root r createdAt hostname pid (fold (file_lock_call root createdAt hostname pid) ops f)))"
proof -
  let ?g = "fold (file_lock_call root createdAt hostname pid) ops f"
  have "file_holder root ?g = Some h \<and> file_acquire root createdAt hostname pid r ?g = None"
    using flock.mutual_exclusion [OF assms] file_lock_calls [OF assms(1)] by simp
  then show ?thesis
    by (auto simp: file_acquire_def is_ok_iff split: prod.splits sum.splits)
qed

definition demo_root :: fs where
  "demo_root = \<lparr>fs_tree = [([''b''], DirN)], fs_data = [], fs_io = None\<rparr>"

definition demo_locked :: fs where
  "demo_locked = snd (AcquireTargetLock [''b''] ''run-1'' ''t'' ''h'' ''7'' demo_root)"

theorem target_lock_excludes_witness:
  "file_holder [''b''] (fold (file_lock_call [''b''] ''t'' ''h'' ''7'')
      [LAcquire ''run-2'', LRelease ''run-2''] demo_locked) = Some ''run-1''"
proof -
  have "file_lock_inv [''b''] ''t'' ''h'' ''7'' demo_root"
    by (simp add: file_lock_inv_def demo_root_def fs_wf_def lookup_def plain_seg_def no_newline_def)
  moreover have "validateRunID ''run-1'' = Inr ()"
    by code_simp
  moreover have "lookup demo_root ([''b''] @ [''.krm-run.lock'']) = None"
    by code_simp
  ultimately have "file_lock_inv [''b''] ''t'' ''h'' ''7'' demo_locked" "file_holder [''b''] demo_locked = Some ''run-1''"
    using file_lock_free [of "[''b'']" "''t''" "''h''" "''7''" demo_root "''run-1''"] by (auto simp: demo_locked_def)
  then show ?thesis
    using target_lock_excludes [of "[''b'']" "''t''" "''h''" "''7''" demo_locked "''run-1''"
        "[LAcquire ''run-2'', LRelease ''run-2'']"] by simp
qed

end
