(* ===== verification/Controller_Helpers.thy ===== *)
theory Controller_Helpers
  imports Api_Types Paths
begin

text \<open>
  controller/helpers.go: references, namespace permissions, destination paths per
  strategy, detection of sources that would write to the same or to overlapping
  destinations, and the set of sources of a target run.

  The Go maps of sources are association lists: their order is the iteration
  order of the run, and the theorems hold for every order.
\<close>

section \<open>Data\<close>

record resolved_source =
  rsv_ref :: nsname
  rsv_source :: backup_source
  rsv_effectivePath :: string

record target_run_set =
  trs_machineRef :: nsname
  trs_machines :: "object_ref list"
  trs_sources :: "resolved_source list"
  trs_retention :: retention_policy

record path_conflict =
  pc_machineRef :: nsname
  pc_sourceNamespace :: string
  pc_destinationPath :: string
  pc_sources :: "nsname list"
  pc_machines :: "nsname list"

record path_overlap =
  po_machineRef :: nsname
  po_path :: string
  po_sources :: "nsname list"

type_synonym source_map = "(nsname \<times> backup_source) list"

section \<open>References and permissions\<close>

definition ResolveObjectReference :: "object_ref \<Rightarrow> string \<Rightarrow> nsname result" where
  "ResolveObjectReference ref defaultNamespace =
    (if or_name ref = [] then Inl (errorf ''reference name is required'' [])
     else let namespace = NamespaceOr ref defaultNamespace in
       if namespace = [] then Inl (errorf ''namespace is required for reference %q'' [or_name ref])
       else Inr (namespace, or_name ref))"

fun namespace_loop :: "string \<Rightarrow> string \<Rightarrow> string list \<Rightarrow> bool" where
  "namespace_loop machineNamespace namespace [] = False"
| "namespace_loop machineNamespace namespace (item # items) =
    (if item = ''*'' then True
     else if item = ''.'' then
       (if namespace = machineNamespace then True else namespace_loop machineNamespace namespace items)
     else if namespace = item then True
     else namespace_loop machineNamespace namespace items)"

definition namespaceAllowed :: "string \<Rightarrow> string list \<Rightarrow> string \<Rightarrow> bool" where
  "namespaceAllowed machineNamespace allowed namespace =
    (if namespace = [] then False
     else namespace_loop machineNamespace namespace (if allowed = [] then [''.''] else allowed))"

definition SourceNamespaceAllowed :: "rsync_machine \<Rightarrow> string \<Rightarrow> bool" where
  "SourceNamespaceAllowed machine namespace =
     namespaceAllowed (om_namespace (m_meta machine)) (ms_allowedSourceNamespaces (m_spec machine)) namespace"

definition RestoreNamespaceAllowed :: "rsync_machine \<Rightarrow> string \<Rightarrow> bool" where
  "RestoreNamespaceAllowed machine namespace =
     namespaceAllowed (om_namespace (m_meta machine)) (ms_allowedRestoreNamespaces (m_spec machine)) namespace"

section \<open>Destination paths\<close>

definition EffectiveDestinationPath :: "backup_source \<Rightarrow> string result" where
  "EffectiveDestinationPath source =
     effectiveDestinationPath (om_namespace (s_meta source)) (ss_destinationPath (s_spec source))"

definition EffectiveDestinationPathForStrategy :: "rsync_machine \<Rightarrow> backup_source \<Rightarrow> string result" where
  "EffectiveDestinationPathForStrategy machine source =
    (if strategy_TypeOrDefault (ms_strategy (m_spec machine)) = StrategyMirror
     then effectiveMirrorDestinationPath (ss_destinationPath (s_spec source))
     else EffectiveDestinationPath source)"

definition PartialDestinationPath :: "string \<Rightarrow> backup_source \<Rightarrow> string result" where
  "PartialDestinationPath runID source =
    (if runID = [] then Inl (errorf ''run ID is required'' [])
     else (case EffectiveDestinationPath source of
         Inl e \<Rightarrow> Inl e
       | Inr effective \<Rightarrow> Inr (path_join [''.partial'', runID, effective])))"

definition TransferDestinationPath :: "rsync_machine \<Rightarrow> string \<Rightarrow> backup_source \<Rightarrow> string result" where
  "TransferDestinationPath machine runID source =
    (if strategy_TypeOrDefault (ms_strategy (m_spec machine)) = StrategyMirror then
       (case EffectiveDestinationPathForStrategy machine source of
          Inl e \<Rightarrow> Inl e
        | Inr effective \<Rightarrow> if effective = [] then Inr ''.'' else Inr effective)
     else PartialDestinationPath runID source)"

definition TargetReady :: "rsync_machine \<Rightarrow> bool" where
  "TargetReady target = (case find (\<lambda>c. c_type c = ''Ready'') (mst_conditions (m_status target)) of
      None \<Rightarrow> True | Some c \<Rightarrow> c_status c \<noteq> CondFalse)"

definition ActiveRunBlocksTargetMutation :: "run_phase \<Rightarrow> bool" where
  "ActiveRunBlocksTargetMutation phase = (phase \<in> {RunPreparing, RunRunning, RunFinalizing})"

section \<open>Conflicting destinations\<close>

text \<open>The guards shared by the three loops over the sources: the source refers to the
  machine, and its namespace may use it.\<close>

definition claims_machine :: "rsync_machine \<Rightarrow> backup_source \<Rightarrow> bool" where
  "claims_machine machine source =
    (case ResolveObjectReference (ss_machineRef (s_spec source)) (om_namespace (s_meta source)) of
       Inl _ \<Rightarrow> False
     | Inr resolved \<Rightarrow> resolved = meta_key (m_meta machine)
         \<and> SourceNamespaceAllowed machine (om_namespace (s_meta source)))"

record conflict_claim =
  cc_machine :: nsname
  cc_path :: string
  cc_source :: nsname

definition claim_key :: "nsname \<Rightarrow> string \<Rightarrow> string \<Rightarrow> string" where
  "claim_key machineRef namespace path = join [CHR 0x00] [nsname_string machineRef, namespace, path]"

type_synonym claim_table = "(string \<times> conflict_claim list) list"

fun claims_of_machine :: "rsync_machine \<Rightarrow> source_map \<Rightarrow> claim_table \<Rightarrow> claim_table result" where
  "claims_of_machine machine [] acc = Inr acc"
| "claims_of_machine machine ((k, source) # rest) acc =
    (if \<not> claims_machine machine source then claims_of_machine machine rest acc
     else if strategy_TypeOrDefault (ms_strategy (m_spec machine)) = StrategyMirror
       then claims_of_machine machine rest acc
     else (case cleanRelativePath (ss_destinationPath (s_spec source)) of
         Inl e \<Rightarrow> Inl (wrapf ''source %s destination path: %w'' [nsname_string (meta_key (s_meta source))] e)
       | Inr cleanedPath \<Rightarrow>
           let machineRef = meta_key (m_meta machine);
               key = claim_key machineRef (om_namespace (s_meta source)) cleanedPath;
               claim = \<lparr>cc_machine = machineRef, cc_path = cleanedPath, cc_source = meta_key (s_meta source)\<rparr>;
               old = (case map_of acc key of None \<Rightarrow> [] | Some cs \<Rightarrow> cs)
           in claims_of_machine machine rest (alist_put key (old @ [claim]) acc)))"

fun claims_of_machines :: "rsync_machine list \<Rightarrow> source_map \<Rightarrow> claim_table \<Rightarrow> claim_table result" where
  "claims_of_machines [] sources acc = Inr acc"
| "claims_of_machines (m # ms) sources acc =
    (case claims_of_machine m sources acc of Inl e \<Rightarrow> Inl e | Inr acc' \<Rightarrow> claims_of_machines ms sources acc')"

text \<open>A Go set of names, listed in the order of their text.\<close>

definition sortedNamespacedNames :: "nsname list \<Rightarrow> nsname list" where
  "sortedNamespacedNames values = sort_key nsname_string (remdups values)"

definition conflict_of :: "conflict_claim list \<Rightarrow> path_conflict option" where
  "conflict_of claims =
    (if length (remdups (map cc_source claims)) \<le> 1 then None
     else Some \<lparr>pc_machineRef = cc_machine (hd claims), pc_sourceNamespace = fst (cc_source (hd claims)),
        pc_destinationPath = cc_path (hd claims), pc_sources = sortedNamespacedNames (map cc_source claims),
        pc_machines = sortedNamespacedNames (map cc_machine claims)\<rparr>)"

definition conflictKey :: "path_conflict \<Rightarrow> string" where
  "conflictKey c = claim_key (pc_machineRef c) (pc_sourceNamespace c) (pc_destinationPath c)"

definition DetectDestinationPathConflicts :: "rsync_machine list \<Rightarrow> source_map \<Rightarrow> path_conflict list result" where
  "DetectDestinationPathConflicts machines sources =
    (case claims_of_machines machines sources [] of
       Inl e \<Rightarrow> Inl e
     | Inr table \<Rightarrow> Inr (sort_key conflictKey (List.map_filter (\<lambda>(k, claims). conflict_of claims) table)))"

section \<open>Overlapping mirror destinations\<close>

record mirror_claim =
  mc_path :: string
  mc_source :: nsname
  mc_delete :: bool

fun mirror_claims :: "rsync_machine \<Rightarrow> source_map \<Rightarrow> mirror_claim list result" where
  "mirror_claims machine [] = Inr []"
| "mirror_claims machine ((k, source) # rest) =
    (if \<not> claims_machine machine source then mirror_claims machine rest
     else (case effectiveMirrorDestinationPath (ss_destinationPath (s_spec source)) of
         Inl e \<Rightarrow> Inl (wrapf ''source %s destination path: %w'' [nsname_string (meta_key (s_meta source))] e)
       | Inr effective \<Rightarrow> (case mirror_claims machine rest of
           Inl e \<Rightarrow> Inl e
         | Inr cs \<Rightarrow> Inr (\<lparr>mc_path = effective, mc_source = meta_key (s_meta source),
                            mc_delete = DeleteOrDefault (ss_rsync (s_spec source))\<rparr> # cs))))"

type_synonym overlap_table = "(string \<times> path_overlap) list"

definition mirror_conflict :: "mirror_claim \<Rightarrow> mirror_claim \<Rightarrow> bool" where
  "mirror_conflict a b = (mirrorPathsOverlap (mc_path a) (mc_path b) \<and> (mc_delete a \<or> mc_delete b))"

definition add_refs :: "nsname list \<Rightarrow> nsname list \<Rightarrow> nsname list" where
  "add_refs refs sources = fold (\<lambda>ref acc. if ref \<in> set acc then acc else acc @ [ref]) refs sources"

definition note_overlap :: "nsname \<Rightarrow> mirror_claim \<Rightarrow> mirror_claim \<Rightarrow> overlap_table \<Rightarrow> overlap_table" where
  "note_overlap machineRef a b table =
    (if \<not> mirror_conflict a b then table
     else let pathKey = mirrorOverlapPath (mc_path a) (mc_path b);
              key = nsname_string machineRef @ [CHR 0x00] @ pathKey;
              old = (case map_of table key of None \<Rightarrow> [] | Some ov \<Rightarrow> po_sources ov)
          in alist_put key \<lparr>po_machineRef = machineRef, po_path = pathKey,
               po_sources = sort_key nsname_string (add_refs [mc_source a, mc_source b] old)\<rparr> table)"

fun overlap_pairs :: "nsname \<Rightarrow> mirror_claim list \<Rightarrow> overlap_table \<Rightarrow> overlap_table" where
  "overlap_pairs machineRef [] table = table"
| "overlap_pairs machineRef (c # cs) table =
     overlap_pairs machineRef cs (fold (\<lambda>d. note_overlap machineRef c d) cs table)"

definition DetectMirrorDestinationPathOverlaps :: "rsync_machine \<Rightarrow> source_map \<Rightarrow> path_overlap list result" where
  "DetectMirrorDestinationPathOverlaps machine sources =
    (if strategy_TypeOrDefault (ms_strategy (m_spec machine)) \<noteq> StrategyMirror then Inr []
     else (case mirror_claims machine sources of
         Inl e \<Rightarrow> Inl e
       | Inr claims \<Rightarrow>
           Inr (sort_key (\<lambda>ov. (po_path ov, nsname_string (po_machineRef ov)))
             (map snd (overlap_pairs (meta_key (m_meta machine)) claims [])))))"

section \<open>The run set of a target\<close>

definition namespacedNameList :: "nsname list \<Rightarrow> string" where
  "namespacedNameList values = join '','' (map nsname_string values)"

fun resolve_sources :: "rsync_machine \<Rightarrow> source_map \<Rightarrow> (nsname \<times> resolved_source) list \<Rightarrow> (nsname \<times> resolved_source) list result" where
  "resolve_sources machine [] acc = Inr acc"
| "resolve_sources machine ((k, source) # rest) acc =
    (let sourceRef = meta_key (s_meta source) in
     if \<not> claims_machine machine source then resolve_sources machine rest acc
     else if map_of acc sourceRef \<noteq> None then resolve_sources machine rest acc
     else (case EffectiveDestinationPathForStrategy machine source of
         Inl e \<Rightarrow> Inl (wrapf ''source %s destination path: %w'' [nsname_string sourceRef] e)
       | Inr effectivePath \<Rightarrow> resolve_sources machine rest
           (alist_put sourceRef \<lparr>rsv_ref = sourceRef, rsv_source = source, rsv_effectivePath = effectivePath\<rparr> acc)))"

definition CalculateTargetRunSet :: "rsync_machine \<Rightarrow> source_map \<Rightarrow> target_run_set result" where
  "CalculateTargetRunSet machine sources =
    (let machineRef = meta_key (m_meta machine); strategy = strategy_TypeOrDefault (ms_strategy (m_spec machine)) in
     if strategy \<notin> {StrategySnapshot, StrategyMirror}
     then Inl (errorf ''spec.strategy.type %q is not supported'' [strategy_text (ms_strategy (m_spec machine))])
     else if strategy = StrategyMirror \<and> \<not> retention_empty (ms_retention (m_spec machine))
     then Inl (errorf ''spec.retention must be empty when spec.strategy.type is Mirror'' [])
     else (case DetectDestinationPathConflicts [machine] sources of
       Inl e \<Rightarrow> Inl e
     | Inr conflicts \<Rightarrow>
       if conflicts \<noteq> [] then
         Inl (errorf ''target path conflict for %s/%s on %s''
           [pc_sourceNamespace (hd conflicts), pc_destinationPath (hd conflicts), nsname_string (pc_machineRef (hd conflicts))])
       else (case DetectMirrorDestinationPathOverlaps machine sources of
         Inl e \<Rightarrow> Inl e
       | Inr overlaps \<Rightarrow>
         if overlaps \<noteq> [] then
           Inl (errorf ''mirror target path overlap at %q on %s with delete enabled for sources %s''
             [po_path (hd overlaps), nsname_string (po_machineRef (hd overlaps)), namespacedNameList (po_sources (hd overlaps))])
         else (case resolve_sources machine sources [] of
           Inl e \<Rightarrow> Inl e
         | Inr byRef \<Rightarrow>
           let refs = sort_key nsname_string (map fst byRef);
               srcs = List.map_filter (map_of byRef) refs in
           if srcs = [] then
             Inl (errorf ''RsyncMachine %s/%s has no referencing BackupSource objects''
               [om_namespace (m_meta machine), om_name (m_meta machine)])
           else Inr \<lparr>trs_machineRef = machineRef,
                  trs_machines = [\<lparr>or_namespace = om_namespace (m_meta machine), or_name = om_name (m_meta machine)\<rparr>],
                  trs_sources = srcs, trs_retention = ms_retention (m_spec machine)\<rparr>))))"

definition maxInt :: "int \<Rightarrow> int \<Rightarrow> int" where
  "maxInt a b = (if a > b then a else b)"

definition maxRetention :: "retention_policy \<Rightarrow> retention_policy \<Rightarrow> retention_policy" where
  "maxRetention a b = \<lparr>ret_hourly = maxInt (ret_hourly a) (ret_hourly b), ret_daily = maxInt (ret_daily a) (ret_daily b),
     ret_weekly = maxInt (ret_weekly a) (ret_weekly b), ret_monthly = maxInt (ret_monthly a) (ret_monthly b)\<rparr>"

end
