(* ===== verification/Run_Set.thy ===== *)
theory Run_Set
  imports Controller_Helpers
begin

text \<open>
  Correctness of the run-set calculation: which sources take part, that their
  destinations do not collide, and that the iteration order of Go's maps does not
  matter.
\<close>

section \<open>Permissions\<close>

lemma namespace_loop_iff:
  "namespace_loop mns ns allowed \<longleftrightarrow> ''*'' \<in> set allowed \<or> (''.'' \<in> set allowed \<and> ns = mns)
     \<or> (ns \<in> set allowed \<and> ns \<noteq> ''.'')"
  by (induction allowed) auto

text \<open>A namespace may use a machine exactly when it is named in the allow list, when the
  list has the wildcard, or when the list has the dot or is empty and the namespace is the
  machine's own.\<close>

theorem namespaceAllowed_iff:
  "namespaceAllowed mns allowed ns \<longleftrightarrow> ns \<noteq> [] \<and>
     (''*'' \<in> set allowed \<or> (ns \<in> set allowed \<and> ns \<noteq> ''.'') \<or> ((allowed = [] \<or> ''.'' \<in> set allowed) \<and> ns = mns))"
  by (auto simp: namespaceAllowed_def namespace_loop_iff)

section \<open>Conflicts\<close>

definition claimants :: "rsync_machine \<Rightarrow> source_map \<Rightarrow> backup_source list" where
  "claimants machine sources = filter (claims_machine machine) (map snd sources)"

lemma claimants_Cons:
  "claimants machine ((k, s) # rest) = (if claims_machine machine s then s # claimants machine rest else claimants machine rest)"
  by (simp add: claimants_def)

definition dest_clean :: "backup_source \<Rightarrow> string result" where
  "dest_clean source = cleanRelativePath (ss_destinationPath (s_spec source))"

definition claim_of :: "rsync_machine \<Rightarrow> backup_source \<Rightarrow> conflict_claim" where
  "claim_of machine source = \<lparr>cc_machine = meta_key (m_meta machine),
     cc_path = (case dest_clean source of Inl e \<Rightarrow> [] | Inr p \<Rightarrow> p), cc_source = meta_key (s_meta source)\<rparr>"

definition key_of :: "rsync_machine \<Rightarrow> backup_source \<Rightarrow> string" where
  "key_of machine source = claim_key (meta_key (m_meta machine)) (om_namespace (s_meta source))
     (case dest_clean source of Inl e \<Rightarrow> [] | Inr p \<Rightarrow> p)"

abbreviation is_mirror :: "rsync_machine \<Rightarrow> bool" where
  "is_mirror machine \<equiv> strategy_TypeOrDefault (ms_strategy (m_spec machine)) = StrategyMirror"

definition table_at :: "claim_table \<Rightarrow> string \<Rightarrow> conflict_claim list" where
  "table_at table key = (case map_of table key of None \<Rightarrow> [] | Some cs \<Rightarrow> cs)"

definition table_wf :: "claim_table \<Rightarrow> bool" where
  "table_wf table = alist_wf table"

lemma table_at_put [simp]: "table_at (alist_put k v t) key = (if key = k then v else table_at t key)"
  by (simp add: table_at_def)

lemma claims_of_machine_spec:
  assumes "\<not> is_mirror machine"
  shows "(case claims_of_machine machine sources acc of
      Inl e \<Rightarrow> \<exists>s\<in>set (claimants machine sources). \<not> is_ok (dest_clean s)
    | Inr t \<Rightarrow> (\<forall>s\<in>set (claimants machine sources). is_ok (dest_clean s))
        \<and> (alist_wf acc \<longrightarrow> alist_wf t)
        \<and> (\<forall>key. table_at t key = table_at acc key @
             map (claim_of machine) (filter (\<lambda>s. key_of machine s = key) (claimants machine sources))))"
  using assms
proof (induction machine sources acc rule: claims_of_machine.induct)
  case (2 machine k source rest acc)
  show ?case
  proof (cases "claims_machine machine source")
    case False
    then have "claimants machine ((k, source) # rest) = claimants machine rest"
      "claims_of_machine machine ((k, source) # rest) acc = claims_of_machine machine rest acc"
      by (simp_all add: claimants_Cons)
    then show ?thesis
      using 2(1) [OF False 2(4)] by (simp only:)
  next
    case True
    show ?thesis
    proof (cases "dest_clean source")
      case (Inl e)
      then show ?thesis
        using True 2(4) by (auto simp: claimants_def dest_clean_def)
    next
      case (Inr p)
      let ?key = "key_of machine source"
      let ?acc = "alist_put ?key (table_at acc ?key @ [claim_of machine source]) acc"
      have step: "claims_of_machine machine ((k, source) # rest) acc = claims_of_machine machine rest ?acc"
        using True 2(4) Inr by (simp add: dest_clean_def key_of_def claim_of_def table_at_def Let_def)
      have cl: "claimants machine ((k, source) # rest) = source # claimants machine rest"
        using True by (simp add: claimants_def)
      have IH: "(case claims_of_machine machine rest ?acc of
            Inl e \<Rightarrow> \<exists>s\<in>set (claimants machine rest). \<not> is_ok (dest_clean s)
          | Inr t \<Rightarrow> (\<forall>s\<in>set (claimants machine rest). is_ok (dest_clean s))
              \<and> (alist_wf ?acc \<longrightarrow> alist_wf t)
              \<and> (\<forall>key. table_at t key = table_at ?acc key @
                   map (claim_of machine) (filter (\<lambda>s. key_of machine s = key) (claimants machine rest))))"
        using 2(3) True 2(4) Inr by (simp add: dest_clean_def key_of_def claim_of_def table_at_def Let_def)
      show ?thesis
        unfolding step cl using IH Inr by (auto split: sum.splits)
    qed
  qed
qed (simp add: claimants_def)

lemma remdups_short_iff: "length (remdups xs) \<le> 1 \<longleftrightarrow> (\<forall>a\<in>set xs. \<forall>b\<in>set xs. a = b)"
  using card_le_Suc0_iff_eq [of "set xs"] by (simp add: length_remdups_card_conv)

lemma conflict_of_None_iff:
  "conflict_of claims = None \<longleftrightarrow> (\<forall>a\<in>set claims. \<forall>b\<in>set claims. cc_source a = cc_source b)"
proof -
  have "conflict_of claims = None \<longleftrightarrow> length (remdups (map cc_source claims)) \<le> 1"
    unfolding conflict_of_def by (cases "length (remdups (map cc_source claims)) \<le> 1") (simp_all only: if_True if_False option.distinct simp_thms)
  then show ?thesis
    unfolding remdups_short_iff by (simp only: set_map ball_simps)
qed

lemma map_filter_Nil_iff: "List.map_filter f xs = [] \<longleftrightarrow> (\<forall>x\<in>set xs. f x = None)"
  by (induction xs) (auto simp: List.map_filter_simps split: option.splits)

lemma sort_key_Nil_iff: "sort_key k xs = [] \<longleftrightarrow> xs = []"
  by (metis length_0_conv length_sort)

lemma grouped_iff:
  "(\<forall>k. \<forall>a\<in>set (map c (filter (\<lambda>s. f s = k) xs)). \<forall>b\<in>set (map c (filter (\<lambda>s. f s = k) xs)). g a = g b) \<longleftrightarrow>
   (\<forall>s\<in>set xs. \<forall>s'\<in>set xs. f s = f s' \<longrightarrow> g (c s) = g (c s'))"
  unfolding set_map set_filter by blast

lemma all_claims_iff:
  assumes "alist_wf t"
  shows "(\<forall>(k, cs)\<in>set t. conflict_of cs = None) \<longleftrightarrow> (\<forall>key. conflict_of (table_at t key) = None)"
proof
  assume all: "\<forall>(k, cs)\<in>set t. conflict_of cs = None"
  show "\<forall>key. conflict_of (table_at t key) = None"
  proof
    fix key
    show "conflict_of (table_at t key) = None"
    proof (cases "map_of t key")
      case (Some cs)
      then show ?thesis
        using all map_of_SomeD [OF Some] by (auto simp: table_at_def)
    qed (simp add: table_at_def conflict_of_None_iff)
  qed
next
  assume all: "\<forall>key. conflict_of (table_at t key) = None"
  have "conflict_of cs = None" if "(k, cs) \<in> set t" for k cs
    using spec [OF all, of k] that assms by (simp add: table_at_def alist_wf_def)
  then show "\<forall>(k, cs)\<in>set t. conflict_of cs = None"
    by blast
qed

lemma conflicts_Nil_iff:
  assumes "\<not> is_mirror machine"
  shows "DetectDestinationPathConflicts [machine] sources = Inr [] \<longleftrightarrow>
    (\<forall>s\<in>set (claimants machine sources). is_ok (dest_clean s)) \<and>
    (\<forall>s\<in>set (claimants machine sources). \<forall>s'\<in>set (claimants machine sources).
       key_of machine s = key_of machine s' \<longrightarrow> meta_key (s_meta s) = meta_key (s_meta s'))"
proof (cases "claims_of_machine machine sources []")
  case (Inl e)
  then show ?thesis
    using claims_of_machine_spec [OF assms, of sources "[]"] by (auto simp: DetectDestinationPathConflicts_def)
next
  case (Inr t)
  have t: "\<forall>s\<in>set (claimants machine sources). is_ok (dest_clean s)" "alist_wf t"
    "\<And>key. table_at t key = map (claim_of machine) (filter (\<lambda>s. key_of machine s = key) (claimants machine sources))"
    using claims_of_machine_spec [OF assms, of sources "[]"] Inr by (auto simp: table_at_def [of "[]"])
  have "DetectDestinationPathConflicts [machine] sources =
      Inr (sort_key conflictKey (List.map_filter (\<lambda>(k, cs). conflict_of cs) t))"
    using Inr by (simp add: DetectDestinationPathConflicts_def)
  then have "DetectDestinationPathConflicts [machine] sources = Inr [] \<longleftrightarrow> (\<forall>(k, cs)\<in>set t. conflict_of cs = None)"
    by (simp only: sum.inject sort_key_Nil_iff map_filter_Nil_iff case_prod_beta) auto
  also have "\<dots> \<longleftrightarrow> (\<forall>key. conflict_of (table_at t key) = None)"
    by (rule all_claims_iff [OF t(2)])
  also have "\<dots> \<longleftrightarrow> (\<forall>s\<in>set (claimants machine sources). \<forall>s'\<in>set (claimants machine sources).
       key_of machine s = key_of machine s' \<longrightarrow> meta_key (s_meta s) = meta_key (s_meta s'))"
    unfolding conflict_of_None_iff t(3) grouped_iff by (simp add: claim_of_def)
  finally show ?thesis
    using t(1) by simp
qed

section \<open>Overlaps\<close>

definition mirror_claim_of :: "backup_source \<Rightarrow> mirror_claim" where
  "mirror_claim_of source = \<lparr>mc_path = (case effectiveMirrorDestinationPath (ss_destinationPath (s_spec source)) of
       Inl e \<Rightarrow> [] | Inr p \<Rightarrow> p), mc_source = meta_key (s_meta source),
     mc_delete = DeleteOrDefault (ss_rsync (s_spec source))\<rparr>"

lemma effectiveMirror_clean: "effectiveMirrorDestinationPath p = cleanRelativePath p"
  by (auto simp: effectiveMirrorDestinationPath_def cleanRelativePath_def split: sum.split)

lemma mirror_claims_spec:
  "(case mirror_claims machine sources of
      Inl e \<Rightarrow> \<exists>s\<in>set (claimants machine sources). \<not> is_ok (dest_clean s)
    | Inr cs \<Rightarrow> (\<forall>s\<in>set (claimants machine sources). is_ok (dest_clean s))
        \<and> cs = map mirror_claim_of (claimants machine sources))"
proof (induction machine sources rule: mirror_claims.induct)
  case (2 machine k source rest)
  then show ?case
    by (auto simp: claimants_Cons dest_clean_def effectiveMirror_clean mirror_claim_of_def split: sum.splits)
qed (simp add: claimants_def)

lemma alist_put_not_Nil [simp]: "alist_put k v t \<noteq> []"
  by (cases "(k, v, t)" rule: alist_put.cases) auto

lemma fold_note_overlap_Nil:
  "fold (\<lambda>d. note_overlap mr c d) cs table = [] \<longleftrightarrow> table = [] \<and> (\<forall>d\<in>set cs. \<not> mirror_conflict c d)"
proof (induction cs arbitrary: table)
  case (Cons d cs)
  show ?case
    by (simp add: Cons.IH) (auto simp: note_overlap_def Let_def)
qed simp

lemma overlap_pairs_Nil:
  "overlap_pairs mr cs table = [] \<longleftrightarrow> table = [] \<and> sorted_wrt (\<lambda>a b. \<not> mirror_conflict a b) cs"
  by (induction cs arbitrary: table) (auto simp: fold_note_overlap_Nil)

lemma overlaps_Nil_iff:
  assumes "is_mirror machine"
  shows "DetectMirrorDestinationPathOverlaps machine sources = Inr [] \<longleftrightarrow>
    (\<forall>s\<in>set (claimants machine sources). is_ok (dest_clean s)) \<and>
    sorted_wrt (\<lambda>a b. \<not> mirror_conflict a b) (map mirror_claim_of (claimants machine sources))"
  using mirror_claims_spec [of machine sources] assms
  by (auto simp: DetectMirrorDestinationPathOverlaps_def sort_key_Nil_iff overlap_pairs_Nil split: sum.splits)

lemma mirror_conflict_sym: "mirror_conflict a b = mirror_conflict b a"
  by (auto simp: mirror_conflict_def mirrorPathsOverlap_def)

section \<open>The resolved sources\<close>

definition resolved_of :: "rsync_machine \<Rightarrow> backup_source \<Rightarrow> resolved_source" where
  "resolved_of machine source = \<lparr>rsv_ref = meta_key (s_meta source), rsv_source = source,
     rsv_effectivePath = (case EffectiveDestinationPathForStrategy machine source of Inl e \<Rightarrow> [] | Inr p \<Rightarrow> p)\<rparr>"

text \<open>The keys of a source map are the names of its objects.\<close>

definition keyed :: "source_map \<Rightarrow> bool" where
  "keyed sources = (alist_wf sources \<and> list_all (\<lambda>(k, s). k = meta_key (s_meta s)) sources)"

lemma keyed_Cons: "keyed ((k, s) # rest) \<longleftrightarrow> k = meta_key (s_meta s) \<and> k \<notin> fst ` set rest \<and> keyed rest"
  by (auto simp: keyed_def alist_wf_def)

lemma claimants_keys:
  "keyed sources \<Longrightarrow> s \<in> set (claimants machine sources) \<Longrightarrow> meta_key (s_meta s) \<in> fst ` set sources"
  unfolding keyed_def claimants_def list_all_iff by (force simp: image_iff)

lemma alist_put_new: "k \<notin> fst ` set m \<Longrightarrow> alist_put k v m = m @ [(k, v)]"
  by (induction k v m rule: alist_put.induct) auto

lemma resolve_sources_spec:
  assumes "keyed sources" "fst ` set acc \<inter> fst ` set sources = {}"
  shows "(case resolve_sources machine sources acc of
      Inl e \<Rightarrow> \<exists>s\<in>set (claimants machine sources). \<not> is_ok (EffectiveDestinationPathForStrategy machine s)
    | Inr t \<Rightarrow> (\<forall>s\<in>set (claimants machine sources). is_ok (EffectiveDestinationPathForStrategy machine s))
        \<and> t = acc @ map (\<lambda>s. (meta_key (s_meta s), resolved_of machine s)) (claimants machine sources))"
  using assms
proof (induction machine sources acc rule: resolve_sources.induct)
  case (2 machine k source rest acc)
  have key: "k = meta_key (s_meta source)" "k \<notin> fst ` set rest" "keyed rest" "k \<notin> fst ` set acc"
    using 2(4,5) by (auto simp: keyed_Cons)
  show ?case
  proof (cases "claims_machine machine source")
    case False
    then have "claimants machine ((k, source) # rest) = claimants machine rest"
      "resolve_sources machine ((k, source) # rest) acc = resolve_sources machine rest acc"
      by (simp_all add: claimants_Cons)
    moreover have "fst ` set acc \<inter> fst ` set rest = {}"
      using 2(5) by auto
    ultimately show ?thesis
      using 2(1) [OF refl False key(3)] by (simp only:)
  next
    case True
    have new: "map_of acc (meta_key (s_meta source)) = None"
      using key by (simp add: map_of_eq_None_iff)
    show ?thesis
    proof (cases "EffectiveDestinationPathForStrategy machine source")
      case (Inl e)
      then show ?thesis
        using True new by (simp add: claimants_Cons Let_def)
    next
      case (Inr p)
      let ?acc = "acc @ [(meta_key (s_meta source), resolved_of machine source)]"
      have step: "resolve_sources machine ((k, source) # rest) acc = resolve_sources machine rest ?acc"
        using True new Inr key by (simp add: Let_def alist_put_new resolved_of_def)
      have "(case resolve_sources machine rest ?acc of
            Inl e \<Rightarrow> \<exists>s\<in>set (claimants machine rest). \<not> is_ok (EffectiveDestinationPathForStrategy machine s)
          | Inr t \<Rightarrow> (\<forall>s\<in>set (claimants machine rest). is_ok (EffectiveDestinationPathForStrategy machine s))
              \<and> t = ?acc @ map (\<lambda>s. (meta_key (s_meta s), resolved_of machine s)) (claimants machine rest))"
      proof -
        have acc: "alist_put (meta_key (s_meta source)) \<lparr>rsv_ref = meta_key (s_meta source), rsv_source = source, rsv_effectivePath = p\<rparr> acc = ?acc"
          using key Inr by (simp add: alist_put_new resolved_of_def)
        have "fst ` set ?acc \<inter> fst ` set rest = {}"
          using 2(5) key by auto
        then show ?thesis
          using 2(3) [OF refl _ _ Inr key(3), unfolded acc] True new by simp
      qed
      then show ?thesis
        unfolding step using True Inr by (auto simp: claimants_Cons split: sum.splits)
    qed
  qed
qed (simp add: claimants_def)


section \<open>The run set\<close>

text \<open>Names the API server admits as a namespace are plain path segments without separators.\<close>

definition ns_name :: "string \<Rightarrow> bool" where
  "ns_name s = (plain_seg s \<and> CHR 0x5C \<notin> set s \<and> CHR 0x00 \<notin> set s)"

lemma map_filter_total: "(\<forall>x\<in>set xs. f x = Some (g x)) \<Longrightarrow> List.map_filter f xs = map g xs"
  by (induction xs) (auto simp: List.map_filter_simps)

lemma resolved_ref [simp]: "rsv_ref (resolved_of machine s) = meta_key (s_meta s)"
  by (simp add: resolved_of_def)

text \<open>The resolved sources of a run in the order of their names.\<close>

definition run_sources :: "rsync_machine \<Rightarrow> source_map \<Rightarrow> resolved_source list" where
  "run_sources machine sources =
     sort_key (\<lambda>r. nsname_string (rsv_ref r)) (map (resolved_of machine) (claimants machine sources))"

lemma sort_key_map: "sort_key k (map f xs) = map f (sort_key (k \<circ> f) xs)"
proof -
  have "map f (insort_key (k \<circ> f) x ys) = insort_key k (f x) (map f ys)" for x ys
    by (induction ys) auto
  then show ?thesis
    by (induction xs) auto
qed

lemma keyed_claimants_inj:
  assumes "keyed sources"
  shows "distinct (map (\<lambda>s. meta_key (s_meta s)) (claimants machine sources))"
  using assms
proof (induction sources)
  case (Cons p rest)
  obtain k s where p: "p = (k, s)"
    by (cases p)
  have "keyed rest" "k = meta_key (s_meta s)" "k \<notin> fst ` set rest"
    using Cons.prems by (auto simp: p keyed_Cons)
  then show ?case
    using Cons.IH claimants_keys [of rest _ machine] by (auto simp: p claimants_Cons)
qed (simp add: claimants_def)

lemma sorted_lookup:
  assumes "keyed sources"
  shows "List.map_filter (map_of (map (\<lambda>s. (meta_key (s_meta s), resolved_of machine s)) (claimants machine sources)))
      (sort_key nsname_string (map fst (map (\<lambda>s. (meta_key (s_meta s), resolved_of machine s)) (claimants machine sources))))
    = run_sources machine sources"
proof -
  let ?c = "claimants machine sources" and ?key = "\<lambda>s. meta_key (s_meta s)"
  let ?m = "map_of (map (\<lambda>s. (?key s, resolved_of machine s)) ?c)"
  have look: "?m (?key s) = Some (resolved_of machine s)" if "s \<in> set ?c" for s
    using that keyed_claimants_inj [OF assms] by (auto intro!: map_of_is_SomeI simp: comp_def)
  have "sort_key nsname_string (map fst (map (\<lambda>s. (?key s, resolved_of machine s)) ?c))
      = map ?key (sort_key (\<lambda>s. nsname_string (?key s)) ?c)"
    by (simp add: sort_key_map comp_def)
  moreover have "List.map_filter ?m (map ?key xs) = map (resolved_of machine) xs" if "set xs \<subseteq> set ?c" for xs
    using that look by (induction xs) (auto simp: List.map_filter_simps)
  ultimately show ?thesis
    by (simp add: run_sources_def sort_key_map comp_def)
qed

lemma effective_ok_iff:
  "is_ok (EffectiveDestinationPathForStrategy machine s) \<longleftrightarrow>
    is_ok (dest_clean s) \<and> (is_mirror machine \<or> om_namespace (s_meta s) \<noteq> [])"
  by (auto simp: EffectiveDestinationPathForStrategy_def EffectiveDestinationPath_def effectiveMirror_clean
    effectiveDestinationPath_def dest_clean_def cleanRelativePath_def split: sum.splits)

definition admissible :: "rsync_machine \<Rightarrow> source_map \<Rightarrow> bool" where
  "admissible machine sources \<longleftrightarrow>
     strategy_TypeOrDefault (ms_strategy (m_spec machine)) \<in> {StrategySnapshot, StrategyMirror}
   \<and> (is_mirror machine \<longrightarrow> retention_empty (ms_retention (m_spec machine)))
   \<and> claimants machine sources \<noteq> []
   \<and> (\<forall>s\<in>set (claimants machine sources). is_ok (dest_clean s))
   \<and> (if is_mirror machine
      then sorted_wrt (\<lambda>a b. \<not> mirror_conflict a b) (map mirror_claim_of (claimants machine sources))
      else \<forall>s\<in>set (claimants machine sources). \<forall>s'\<in>set (claimants machine sources).
        key_of machine s = key_of machine s' \<longrightarrow> meta_key (s_meta s) = meta_key (s_meta s'))"

definition run_set_of :: "rsync_machine \<Rightarrow> source_map \<Rightarrow> target_run_set" where
  "run_set_of machine sources = \<lparr>trs_machineRef = meta_key (m_meta machine),
     trs_machines = [\<lparr>or_namespace = om_namespace (m_meta machine), or_name = om_name (m_meta machine)\<rparr>],
     trs_sources = run_sources machine sources, trs_retention = ms_retention (m_spec machine)\<rparr>"

lemma claimant_namespace: "s \<in> set (claimants machine sources) \<Longrightarrow> om_namespace (s_meta s) \<noteq> []"
  by (auto simp: claimants_def claims_machine_def SourceNamespaceAllowed_def namespaceAllowed_def split: sum.splits if_splits)

lemma conflicts_mirror: "is_mirror machine \<Longrightarrow> DetectDestinationPathConflicts [machine] sources = Inr []"
proof -
  assume m: "is_mirror machine"
  have "claims_of_machine machine sources acc = Inr acc" for acc
    using m by (induction machine sources acc rule: claims_of_machine.induct) auto
  then show ?thesis
    by (simp add: DetectDestinationPathConflicts_def map_filter_def)
qed

lemma overlaps_snapshot: "\<not> is_mirror machine \<Longrightarrow> DetectMirrorDestinationPathOverlaps machine sources = Inr []"
  by (simp add: DetectMirrorDestinationPathOverlaps_def)

lemma resolve_sources_all:
  assumes "keyed sources"
  shows "resolve_sources machine sources [] = Inr t \<longleftrightarrow>
    (\<forall>s\<in>set (claimants machine sources). is_ok (dest_clean s)) \<and>
    t = map (\<lambda>s. (meta_key (s_meta s), resolved_of machine s)) (claimants machine sources)"
proof -
  have ok: "is_ok (EffectiveDestinationPathForStrategy machine s) \<longleftrightarrow> is_ok (dest_clean s)"
    if "s \<in> set (claimants machine sources)" for s
    using claimant_namespace [OF that] by (simp add: effective_ok_iff)
  show ?thesis
    using resolve_sources_spec [OF assms, of "[]" machine] ok by (cases "resolve_sources machine sources []") auto
qed

lemma run_sources_Nil_iff: "run_sources machine sources = [] \<longleftrightarrow> claimants machine sources = []"
  unfolding run_sources_def sort_key_Nil_iff by simp

lemma CalculateTargetRunSet_cases:
  assumes ok: "strategy_TypeOrDefault (ms_strategy (m_spec machine)) \<in> {StrategySnapshot, StrategyMirror}"
      "\<not> (is_mirror machine \<and> \<not> retention_empty (ms_retention (m_spec machine)))"
    and keyed: "keyed sources"
  shows "CalculateTargetRunSet machine sources = Inr rs \<longleftrightarrow>
    DetectDestinationPathConflicts [machine] sources = Inr [] \<and>
    DetectMirrorDestinationPathOverlaps machine sources = Inr [] \<and>
    (\<forall>s\<in>set (claimants machine sources). is_ok (dest_clean s)) \<and>
    claimants machine sources \<noteq> [] \<and> rs = run_set_of machine sources"
proof (cases "DetectDestinationPathConflicts [machine] sources = Inr [] \<and>
    DetectMirrorDestinationPathOverlaps machine sources = Inr []")
  case False
  have "\<not> is_ok (CalculateTargetRunSet machine sources)"
    using False ok by (auto simp: CalculateTargetRunSet_def Let_def split: sum.splits)
  then show ?thesis
    using False by auto
next
  case True
  show ?thesis
  proof (cases "resolve_sources machine sources []")
    case (Inl e)
    moreover have "\<not> (\<forall>s\<in>set (claimants machine sources). is_ok (dest_clean s))"
      using resolve_sources_all [OF keyed, of machine] Inl by auto
    ultimately show ?thesis
      using True ok by (auto simp: CalculateTargetRunSet_def Let_def)
  next
    case (Inr t)
    note r = Inr [unfolded resolve_sources_all [OF keyed]]
    have "List.map_filter (map_of t) (sort_key nsname_string (map fst t)) = run_sources machine sources"
      using r sorted_lookup [OF keyed, of machine] by simp
    then have "CalculateTargetRunSet machine sources = Inr rs \<longleftrightarrow>
        run_sources machine sources \<noteq> [] \<and> rs = run_set_of machine sources"
      using True ok Inr by (auto simp: CalculateTargetRunSet_def Let_def run_set_of_def)
    then show ?thesis
      using True r by (simp add: run_sources_Nil_iff)
  qed
qed

lemma CalculateTargetRunSet_iff:
  assumes "keyed sources"
  shows "CalculateTargetRunSet machine sources = Inr rs \<longleftrightarrow> admissible machine sources \<and> rs = run_set_of machine sources"
proof (cases "strategy_TypeOrDefault (ms_strategy (m_spec machine)) \<in> {StrategySnapshot, StrategyMirror} \<and>
    (is_mirror machine \<longrightarrow> retention_empty (ms_retention (m_spec machine)))")
  case True
  then show ?thesis
    using CalculateTargetRunSet_cases [OF _ _ assms, of machine rs]
      conflicts_Nil_iff [of machine sources] overlaps_Nil_iff [of machine sources]
      conflicts_mirror [of machine sources] overlaps_snapshot [of machine sources]
    unfolding admissible_def by (cases "is_mirror machine") auto
next
  case False
  then show ?thesis
    by (auto simp: CalculateTargetRunSet_def admissible_def Let_def)
qed

section \<open>Destinations of a run set\<close>

definition clean_dest :: "backup_source \<Rightarrow> string" where
  "clean_dest source = (case dest_clean source of Inl e \<Rightarrow> [] | Inr p \<Rightarrow> p)"

definition eff :: "rsync_machine \<Rightarrow> backup_source \<Rightarrow> string" where
  "eff machine source = rsv_effectivePath (resolved_of machine source)"

lemma dest_clean_ok:
  assumes "is_ok (dest_clean s)"
  obtains segs where "plain segs" "dest_clean s = Inr (join ''/'' segs)" "clean_dest s = join ''/'' segs"
    "CHR 0x5C \<notin> set (join ''/'' segs)"
proof -
  obtain p where p: "dest_clean s = Inr p"
    using assms by (cases "dest_clean s") auto
  then obtain segs where "plain segs" "p = join ''/'' segs" "CHR 0x5C \<notin> set p"
    unfolding dest_clean_def by (rule cleanRelativePath_plain)
  with p show thesis
    using that by (simp add: clean_dest_def)
qed

lemma eff_mirror: "is_mirror machine \<Longrightarrow> eff machine s = clean_dest s"
  by (simp add: eff_def resolved_of_def EffectiveDestinationPathForStrategy_def effectiveMirror_clean clean_dest_def dest_clean_def)

lemma effective_segments:
  assumes "cleanRelativePath d = Inr (join ''/'' segs)" "plain segs" "plain_seg ns"
  shows "effectiveDestinationPath ns d = Inr (join ''/'' (ns # segs))"
proof -
  have ns: "ns \<noteq> []"
    using assms(3) by (simp add: plain_seg_def)
  show ?thesis
  proof (cases "d = [] \<or> d = ''/''")
    case True
    then have "join ''/'' segs = []"
      using assms(1) by (auto simp: cleanRelativePath_def)
    then have "segs = []"
      using assms(2) join_plain_nonempty by blast
    then show ?thesis
      using True ns by (auto simp: effectiveDestinationPath_def)
  next
    case False
    have "path_join [ns, join ''/'' segs] = join ''/'' (ns # segs)"
      using path_join_plain [of "[ns]" segs] assms(2,3) by simp
    then show ?thesis
      using False ns assms(1) by (auto simp: effectiveDestinationPath_def)
  qed
qed

lemma eff_snapshot:
  assumes "\<not> is_mirror machine" "ns_name (om_namespace (s_meta s))" "is_ok (dest_clean s)"
  obtains segs where "plain segs" "clean_dest s = join ''/'' segs"
    "EffectiveDestinationPath s = Inr (eff machine s)" "eff machine s = join ''/'' (om_namespace (s_meta s) # segs)"
    "CHR 0x5C \<notin> set (eff machine s)"
proof -
  obtain segs where s: "plain segs" "dest_clean s = Inr (join ''/'' segs)" "clean_dest s = join ''/'' segs"
      "CHR 0x5C \<notin> set (join ''/'' segs)"
    using assms(3) by (rule dest_clean_ok)
  have e: "EffectiveDestinationPath s = Inr (join ''/'' (om_namespace (s_meta s) # segs))"
    using effective_segments s(1,2) assms(2) by (simp add: EffectiveDestinationPath_def dest_clean_def ns_name_def)
  then have "eff machine s = join ''/'' (om_namespace (s_meta s) # segs)"
    using assms(1) by (simp add: eff_def resolved_of_def EffectiveDestinationPathForStrategy_def)
  moreover have "CHR 0x5C \<notin> set (join ''/'' (om_namespace (s_meta s) # segs))"
    using s(4) assms(2) by (cases segs) (auto simp: ns_name_def)
  ultimately show thesis
    using that [of segs] s e by simp
qed

lemma eff_snapshot_distinct:
  assumes "\<not> is_mirror machine" "ns_name (om_namespace (s_meta a))" "ns_name (om_namespace (s_meta b))"
    and "is_ok (dest_clean a)" "is_ok (dest_clean b)" "eff machine a = eff machine b"
  shows "key_of machine a = key_of machine b"
proof -
  let ?na = "om_namespace (s_meta a)" and ?nb = "om_namespace (s_meta b)"
  obtain sa where a: "plain sa" "clean_dest a = join ''/'' sa" "eff machine a = join ''/'' (?na # sa)"
    using assms by (auto elim: eff_snapshot)
  obtain sb where b: "plain sb" "clean_dest b = join ''/'' sb" "eff machine b = join ''/'' (?nb # sb)"
    using assms by (auto elim: eff_snapshot)
  have "plain (?na # sa)" "plain (?nb # sb)"
    using a(1) b(1) assms(2,3) by (simp_all add: ns_name_def)
  then have "split_on CHR ''/'' (eff machine a) = ?na # sa" "split_on CHR ''/'' (eff machine b) = ?nb # sb"
    unfolding a(3) b(3) by (blast intro: split_join_plain)+
  then have "?na # sa = ?nb # sb"
    using assms(6) by (simp only:)
  then show ?thesis
    using a(2) b(2) by (simp add: key_of_def clean_dest_def)
qed

lemma mirror_claim_of_sel:
  "is_mirror machine \<Longrightarrow> mc_path (mirror_claim_of s) = eff machine s"
  "mc_delete (mirror_claim_of s) = DeleteOrDefault (ss_rsync (s_spec s))"
  by (simp_all add: mirror_claim_of_def eff_mirror clean_dest_def dest_clean_def effectiveMirror_clean)

lemma sorted_wrt_sym_iff:
  assumes "\<And>a b. P a b = P b a" "distinct xs"
  shows "sorted_wrt P xs \<longleftrightarrow> (\<forall>a\<in>set xs. \<forall>b\<in>set xs. a \<noteq> b \<longrightarrow> P a b)"
  using assms(2)
proof (induction xs)
  case (Cons x xs)
  then show ?case
    using assms(1) by auto
qed simp

text \<open>What keeps two sources of one run apart.\<close>

definition apart :: "rsync_machine \<Rightarrow> backup_source \<Rightarrow> backup_source \<Rightarrow> bool" where
  "apart machine a b =
    (if is_mirror machine
     then mirrorPathsOverlap (eff machine a) (eff machine b) \<longrightarrow>
       \<not> DeleteOrDefault (ss_rsync (s_spec a)) \<and> \<not> DeleteOrDefault (ss_rsync (s_spec b))
     else eff machine a \<noteq> eff machine b)"

lemma admissible_apart:
  assumes "admissible machine sources" "keyed sources"
    and "\<forall>s\<in>set (claimants machine sources). ns_name (om_namespace (s_meta s))"
    and "a \<in> set (claimants machine sources)" "b \<in> set (claimants machine sources)"
    and "meta_key (s_meta a) \<noteq> meta_key (s_meta b)"
  shows "apart machine a b"
proof (cases "is_mirror machine")
  case True
  have d: "distinct (claimants machine sources)"
    using keyed_claimants_inj [OF assms(2)] by (simp add: distinct_map)
  have "sorted_wrt (\<lambda>a b. \<not> mirror_conflict (mirror_claim_of a) (mirror_claim_of b)) (claimants machine sources)"
    using assms(1) True by (simp add: admissible_def sorted_wrt_map)
  then have "\<not> mirror_conflict (mirror_claim_of a) (mirror_claim_of b)"
    using assms(4,5,6) mirror_conflict_sym d by (subst (asm) sorted_wrt_sym_iff) auto
  then show ?thesis
    using True by (simp add: apart_def mirror_conflict_def mirror_claim_of_sel)
next
  case False
  have ok: "is_ok (dest_clean s)" if "s \<in> set (claimants machine sources)" for s
    using assms(1) that unfolding admissible_def by blast
  have "\<forall>s\<in>set (claimants machine sources). \<forall>s'\<in>set (claimants machine sources).
      key_of machine s = key_of machine s' \<longrightarrow> meta_key (s_meta s) = meta_key (s_meta s')"
    using assms(1) unfolding admissible_def if_not_P [OF False] by blast
  then have "key_of machine a \<noteq> key_of machine b" "is_ok (dest_clean a)" "is_ok (dest_clean b)"
    using assms(4,5,6) ok [OF assms(4)] ok [OF assms(5)] by blast+
  then show ?thesis
    using False assms(3,4,5) eff_snapshot_distinct [of machine a b] by (auto simp: apart_def)
qed


lemma claimants_perm: "mset xs = mset ys \<Longrightarrow> mset (claimants machine xs) = mset (claimants machine ys)"
  by (simp add: claimants_def mset_filter)

lemma keyed_perm:
  assumes "mset xs = mset ys"
  shows "keyed xs \<longleftrightarrow> keyed ys"
proof -
  have "distinct (map fst xs) \<longleftrightarrow> distinct (map fst ys)"
    using assms by (intro mset_eq_imp_distinct_iff) simp
  then show ?thesis
    using mset_eq_setD [OF assms] by (simp add: keyed_def alist_wf_def list_all_iff)
qed

lemma admissible_perm:
  assumes "mset xs = mset ys" "keyed xs" "admissible machine xs"
  shows "admissible machine ys"
proof -
  let ?cx = "claimants machine xs" and ?cy = "claimants machine ys"
  have m: "mset ?cx = mset ?cy"
    using claimants_perm [OF assms(1)] .
  have sets: "set ?cy = set ?cx"
    using mset_eq_setD [OF m] by simp
  have dx: "distinct ?cx"
    using keyed_claimants_inj [OF assms(2)] by (simp add: distinct_map)
  have dy: "distinct ?cy"
    using mset_eq_imp_distinct_iff [OF m] dx by blast
  let ?P = "\<lambda>a b. \<not> mirror_conflict (mirror_claim_of a) (mirror_claim_of b)"
  have sym: "?P a b = ?P b a" for a b
    using mirror_conflict_sym by blast
  have s: "sorted_wrt ?P ?cx \<longleftrightarrow> sorted_wrt ?P ?cy"
    unfolding sorted_wrt_sym_iff [of ?P, OF sym dx] sorted_wrt_sym_iff [of ?P, OF sym dy] sets ..
  have ne: "?cy \<noteq> [] \<longleftrightarrow> ?cx \<noteq> []"
    using sets by auto
  show ?thesis
    using assms(3) unfolding admissible_def sorted_wrt_map sets ne s [symmetric] .
qed

text \<open>The run set does not depend on the order in which the maps of sources are
  iterated.\<close>

theorem CalculateTargetRunSet_order_independent:
  assumes "mset xs = mset ys" and "keyed xs"
    and "\<forall>s\<in>set (claimants machine xs). ns_name (om_namespace (s_meta s))"
  shows "CalculateTargetRunSet machine xs = Inr rs \<longleftrightarrow> CalculateTargetRunSet machine ys = Inr rs"
proof -
  have ky: "keyed ys"
    using keyed_perm [OF assms(1)] assms(2) by blast
  have "admissible machine xs \<longleftrightarrow> admissible machine ys"
    using admissible_perm [OF assms(1,2)] admissible_perm [OF assms(1) [symmetric] ky] by blast
  moreover have "run_sources machine xs = run_sources machine ys"
    unfolding run_sources_def
  proof (rule sort_key_perm_eq)
    show "mset (map (resolved_of machine) (claimants machine xs)) = mset (map (resolved_of machine) (claimants machine ys))"
      using claimants_perm [OF assms(1), of machine] by simp
    have slash: "CHR ''/'' \<notin> set (fst (meta_key (s_meta s)))" if "s \<in> set (claimants machine xs)" for s
      using assms(3) that by (auto simp: ns_name_def plain_seg_def meta_key_def)
    show "inj_on (\<lambda>r. nsname_string (rsv_ref r)) (set (map (resolved_of machine) (claimants machine xs)))"
    proof (rule inj_onI)
      fix r r'
      assume "r \<in> set (map (resolved_of machine) (claimants machine xs))" "r' \<in> set (map (resolved_of machine) (claimants machine xs))"
        and eq: "nsname_string (rsv_ref r) = nsname_string (rsv_ref r')"
      then obtain s s' where s: "s \<in> set (claimants machine xs)" "s' \<in> set (claimants machine xs)"
          "r = resolved_of machine s" "r' = resolved_of machine s'"
        by auto
      then have "meta_key (s_meta s) = meta_key (s_meta s')"
        using nsname_string_inj [OF slash [OF s(1)] slash [OF s(2)]] eq by simp
      then have "s = s'"
        using s(1,2) keyed_claimants_inj [OF assms(2), of machine] by (auto simp: distinct_map dest: inj_onD)
      then show "r = r'"
        using s by simp
    qed
  qed
  ultimately show ?thesis
    by (simp add: CalculateTargetRunSet_iff assms(2) ky run_set_of_def)
qed

section \<open>A run set at work\<close>

definition demo_machine :: rsync_machine where
  "demo_machine = \<lparr>m_meta = empty_meta\<lparr>om_namespace := ''backup'', om_name := ''nas''\<rparr>,
     m_spec = \<lparr>ms_pvcName = ''nas'', ms_image = [], ms_strategy = StrategyUnset, ms_allowedSourceNamespaces = [''*''],
       ms_allowedRestoreNamespaces = [], ms_schedule = [], ms_concurrencyPolicy = ConcurrencyUnset,
       ms_retention = \<lparr>ret_hourly = 24, ret_daily = 7, ret_weekly = 8, ret_monthly = 12\<rparr>,
       ms_runHistory = \<lparr>rh_count = 0, rh_successful = 0, rh_failed = 0\<rparr>, ms_pod = no_pod_settings\<rparr>,
     m_status = \<lparr>mst_restorePointsUpdatedAt = None, mst_restorePointCount = 0, mst_restorePoints = [],
       mst_lastScheduledAt = None, mst_conditions = []\<rparr>\<rparr>"

definition demo_source :: "string \<Rightarrow> string \<Rightarrow> string \<Rightarrow> backup_source" where
  "demo_source ns name dest = \<lparr>s_meta = empty_meta\<lparr>om_namespace := ns, om_name := name\<rparr>,
     s_spec = \<lparr>ss_machineRef = \<lparr>or_namespace = ''backup'', or_name = ''nas''\<rparr>, ss_pvc = ''data'', ss_sourcePath = [],
       ss_destinationPath = dest,
       ss_consistency = \<lparr>co_capture = CaptureUnset, co_volumeSnapshotClassName = [], co_cleanupPolicy = CleanupUnset\<rparr>,
       ss_rsync = \<lparr>ro_delete = None, ro_oneFileSystem = None\<rparr>, ss_pod = no_pod_settings\<rparr>,
     s_conditions = []\<rparr>"

definition demo_sources :: source_map where
  "demo_sources = [((''shop'', ''web''), demo_source ''shop'' ''web'' ''web''),
     ((''blog'', ''db''), demo_source ''blog'' ''db'' [])]"

lemma demo_facts:
  "keyed demo_sources"
  "\<forall>s\<in>set (claimants demo_machine demo_sources). ns_name (om_namespace (s_meta s))"
  "(case CalculateTargetRunSet demo_machine demo_sources of Inl e \<Rightarrow> False
    | Inr rs \<Rightarrow> map rsv_effectivePath (trs_sources rs) = [''blog'', ''shop/web''])"
  by code_simp+


theorem CalculateTargetRunSet_order_independent_witness:
  "\<exists>rs. CalculateTargetRunSet demo_machine (rev demo_sources) = Inr rs"
proof -
  obtain rs where "CalculateTargetRunSet demo_machine demo_sources = Inr rs"
    using demo_facts(3) by (auto split: sum.splits)
  then show ?thesis
    using CalculateTargetRunSet_order_independent [OF _ demo_facts(1,2), of "rev demo_sources" rs] by simp
qed

section \<open>The receiver accepts what the controller hands out\<close>

lemma plain_seg_partial: "plain_seg ''.partial''"
  by (simp add: plain_seg_def)

lemma PartialDestinationPath_segs:
  assumes "validateRunID runID = Inr ()" "ns_name (om_namespace (s_meta s))" "PartialDestinationPath runID s = Inr p"
  obtains segs where "plain segs" "EffectiveDestinationPath s = Inr (join ''/'' (om_namespace (s_meta s) # segs))"
    "p = join ''/'' (''.partial'' # runID # om_namespace (s_meta s) # segs)" "CHR 0x5C \<notin> set p"
proof -
  let ?ns = "om_namespace (s_meta s)"
  obtain e where e: "EffectiveDestinationPath s = Inr e" "p = path_join [''.partial'', runID, e]" "runID \<noteq> []"
    using assms(3) by (auto simp: PartialDestinationPath_def split: if_splits sum.splits)
  then have ok: "is_ok (dest_clean s)"
    by (auto simp: EffectiveDestinationPath_def effectiveDestinationPath_def dest_clean_def cleanRelativePath_def
        split: if_splits sum.splits)
  obtain segs where s: "plain segs" "dest_clean s = Inr (join ''/'' segs)" "CHR 0x5C \<notin> set (join ''/'' segs)"
    using ok by (rule dest_clean_ok)
  have e': "e = join ''/'' (?ns # segs)"
    using effective_segments [of _ segs ?ns] s(1,2) assms(2) e(1) by (simp add: EffectiveDestinationPath_def dest_clean_def ns_name_def)
  note r = validateRunID_plain [OF assms(1)]
  have all: "plain (''.partial'' # runID # ?ns # segs)"
    using s(1) r(1) assms(2) plain_seg_partial by (simp add: ns_name_def)
  have "e \<noteq> []"
    using e' s(1) assms(2) join_plain_nonempty [of "?ns # segs"] by (simp add: ns_name_def)
  then have "path_join [''.partial'', runID, e] = path_clean (join ''/'' [''.partial'', runID, e])"
    using e(3) by (simp add: path_join_def)
  also have "join ''/'' [''.partial'', runID, e] = join ''/'' (''.partial'' # runID # ?ns # segs)"
    using e' by simp
  also have "path_clean \<dots> = \<dots>"
    using path_clean_plain [OF all] by simp
  finally have p: "p = join ''/'' (''.partial'' # runID # ?ns # segs)"
    using e(2) by simp
  have "CHR 0x5C \<notin> set (join ''/'' (?ns # segs))"
    using s(3) assms(2) by (cases segs) (auto simp: ns_name_def)
  then have "CHR 0x5C \<notin> set p"
    unfolding p using r(2) by simp
  then show thesis
    using that [OF s(1) _ p] e(1) e' by simp
qed

text \<open>Every transfer destination the controller computes is accepted unchanged by the
  target receiver; under the snapshot strategy it is the effective destination of the source
  below the partial directory of the run.\<close>

lemma TransferDestinationPath_accepted:
  assumes "TransferDestinationPath machine runID s = Inr p"
    and "validateRunID runID = Inr ()" and "ns_name (om_namespace (s_meta s))"
  shows "NormalizeTargetSubpath p = Inr (if p = ''.'' then [] else p)
    \<and> (\<not> is_mirror machine \<longrightarrow> (\<exists>e. EffectiveDestinationPath s = Inr e \<and> p = ''.partial/'' @ runID @ ''/'' @ e))"
proof (cases "is_mirror machine")
  case True
  show ?thesis
  proof (cases "p = ''.''")
    case True
    then show ?thesis
      using \<open>is_mirror machine\<close> by (simp add: NormalizeTargetSubpath_def)
  next
    case False
    then have c: "cleanRelativePath (ss_destinationPath (s_spec s)) = Inr p" "p \<noteq> []"
      using assms(1) True
      by (auto simp: TransferDestinationPath_def EffectiveDestinationPathForStrategy_def effectiveMirror_clean split: sum.splits if_splits)
    then obtain segs where s: "plain segs" "p = join ''/'' segs" "CHR 0x5C \<notin> set p"
      by (auto elim: cleanRelativePath_plain)
    then have "NormalizeRelativePath p = Inr p"
      using c(2) normalize_join_plain [of segs] by fastforce
    moreover have "p \<noteq> ''/''"
      using join_plain_not_abs [OF s(1)] s(2) by (auto simp: has_prefix_def)
    ultimately show ?thesis
      using True False c(2) by (simp add: NormalizeTargetSubpath_def)
  qed
next
  case False
  then have "PartialDestinationPath runID s = Inr p"
    using assms(1) by (simp add: TransferDestinationPath_def)
  then obtain segs where s: "plain segs" "EffectiveDestinationPath s = Inr (join ''/'' (om_namespace (s_meta s) # segs))"
      "p = join ''/'' (''.partial'' # runID # om_namespace (s_meta s) # segs)" "CHR 0x5C \<notin> set p"
    using PartialDestinationPath_segs [OF assms(2,3)] by blast
  have "plain (''.partial'' # runID # om_namespace (s_meta s) # segs)"
    using s(1) validateRunID_plain [OF assms(2)] assms(3) plain_seg_partial by (simp add: ns_name_def)
  then have "NormalizeRelativePath p = Inr p"
    using normalize_join_plain [of "''.partial'' # runID # om_namespace (s_meta s) # segs"] s(3,4) by simp
  then show ?thesis
    using s(2,3) by (simp add: NormalizeTargetSubpath_def)
qed

end
