(* ===== verification/Sha256.thy ===== *)
theory Sha256
  imports Prelude "HOL-Library.Word"
begin

unbundle bit_operations_syntax

text \<open>
  Package crypto/sha256 and encoding/hex, as builders.go and helpers.go use them
  to shorten names: SHA-256 on byte strings, with 32-bit arithmetic that wraps. The
  tables are the round constants and the initial value of FIPS 180-4, in decimal.
\<close>

type_synonym u32 = "32 word"

definition ror :: "nat \<Rightarrow> u32 \<Rightarrow> u32" where
  "ror n x = (drop_bit n x) OR (push_bit (32 - n) x)"

definition sha_k :: "u32 list" where
  "sha_k = [
    1116352408, 1899447441, 3049323471, 3921009573, 961987163, 1508970993, 2453635748, 2870763221,
    3624381080, 310598401, 607225278, 1426881987, 1925078388, 2162078206, 2614888103, 3248222580,
    3835390401, 4022224774, 264347078, 604807628, 770255983, 1249150122, 1555081692, 1996064986,
    2554220882, 2821834349, 2952996808, 3210313671, 3336571891, 3584528711, 113926993, 338241895,
    666307205, 773529912, 1294757372, 1396182291, 1695183700, 1986661051, 2177026350, 2456956037,
    2730485921, 2820302411, 3259730800, 3345764771, 3516065817, 3600352804, 4094571909, 275423344,
    430227734, 506948616, 659060556, 883997877, 958139571, 1322822218, 1537002063, 1747873779,
    1955562222, 2024104815, 2227730452, 2361852424, 2428436474, 2756734187, 3204031479, 3329325298]"

definition sha_init :: "u32 list" where
  "sha_init = [1779033703, 3144134277, 1013904242, 2773480762, 1359893119, 2600822924, 528734635, 1541459225]"

definition be_bytes :: "nat \<Rightarrow> nat \<Rightarrow> nat list" where
  "be_bytes n v = map (\<lambda>i. (v div 256 ^ (n - 1 - i)) mod 256) [0..<n]"

definition sha_pad :: "nat list \<Rightarrow> nat list" where
  "sha_pad m = (let zeros = (119 - length m mod 64) mod 64 in
     m @ [128] @ replicate zeros 0 @ be_bytes 8 (8 * length m))"

fun words_of :: "nat list \<Rightarrow> u32 list" where
  "words_of (a # b # c # d # r) = of_nat (((a * 256 + b) * 256 + c) * 256 + d) # words_of r"
| "words_of _ = []"

definition sha_extend :: "u32 list \<Rightarrow> u32 list" where
  "sha_extend w = (let i = length w; a = w ! (i - 15); b = w ! (i - 2);
     s0 = ror 7 a XOR ror 18 a XOR drop_bit 3 a; s1 = ror 17 b XOR ror 19 b XOR drop_bit 10 b
   in w @ [w ! (i - 16) + s0 + w ! (i - 7) + s1])"

fun sha_round :: "u32 list \<Rightarrow> u32 \<times> u32 \<Rightarrow> u32 list" where
  "sha_round [a, b, c, d, e, f, g, h] (k, w) =
    (let s1 = ror 6 e XOR ror 11 e XOR ror 25 e; ch = (e AND f) XOR (NOT e AND g);
         t1 = h + s1 + ch + k + w;
         s0 = ror 2 a XOR ror 13 a XOR ror 22 a; maj = (a AND b) XOR (a AND c) XOR (b AND c)
     in [t1 + (s0 + maj), a, b, c, d + t1, e, f, g])"
| "sha_round s _ = s"

definition sha_block :: "u32 list \<Rightarrow> u32 list \<Rightarrow> u32 list" where
  "sha_block s w = map2 (+) s (foldl sha_round s (zip sha_k ((sha_extend ^^ 48) w)))"

fun sha_blocks :: "nat \<Rightarrow> u32 list \<Rightarrow> u32 list \<Rightarrow> u32 list" where
  "sha_blocks 0 s w = s"
| "sha_blocks (Suc n) s w = sha_blocks n (sha_block s (take 16 w)) (drop 16 w)"

definition sha256_bytes :: "nat list \<Rightarrow> nat list" where
  "sha256_bytes m = (let w = words_of (sha_pad m)
     in concat (map (\<lambda>x. be_bytes 4 (unat x)) (sha_blocks (length w div 16) sha_init w)))"

definition hex_digit :: "nat \<Rightarrow> char" where
  "hex_digit d = (if d < 10 then char_of (48 + d) else char_of (87 + d))"

definition hex_string :: "nat list \<Rightarrow> string" where
  "hex_string bs = concat (map (\<lambda>b. [hex_digit (b div 16 mod 16), hex_digit (b mod 16)]) bs)"

text \<open>\<open>hex.EncodeToString(sha256.Sum256([]byte(s))[:])\<close>.\<close>

definition sha256_hex :: "string \<Rightarrow> string" where
  "sha256_hex s = hex_string (sha256_bytes (map of_char s))"

section \<open>The shape of a digest\<close>

definition hex_char :: "char \<Rightarrow> bool" where
  "hex_char c = (is_digit c \<or> (CHR ''a'' \<le> c \<and> c \<le> CHR ''f''))"

lemma hex_digit_hex: "d < 16 \<Longrightarrow> hex_char (hex_digit d)"
  by (auto simp: hex_char_def hex_digit_def is_digit_def less_eq_char_def)

lemma hex_string_chars: "c \<in> set (hex_string bs) \<Longrightarrow> hex_char c"
  by (auto simp: hex_string_def intro!: hex_digit_hex)

lemma hex_string_length [simp]: "length (hex_string bs) = 2 * length bs"
  by (induction bs) (auto simp: hex_string_def)

lemma sha_round_length: "length (sha_round s p) = length s"
  by (cases "(s, p)" rule: sha_round.cases) (auto simp: Let_def)

lemma sha_rounds_length: "length (foldl sha_round s ps) = length s"
  by (induction ps arbitrary: s) (auto simp: sha_round_length)

lemma sha_block_length: "length (sha_block s w) = length s"
  by (simp add: sha_block_def sha_rounds_length)

lemma sha_blocks_length: "length (sha_blocks n s w) = length s"
  by (induction n s w rule: sha_blocks.induct) (auto simp: sha_block_length)

lemma sha256_bytes_length: "length (sha256_bytes m) = 32"
proof -
  have "length (concat (map (\<lambda>x. be_bytes 4 (unat x)) ws)) = 4 * length ws" for ws :: "u32 list"
    by (induction ws) (auto simp: be_bytes_def)
  then show ?thesis
    by (simp add: sha256_bytes_def Let_def sha_blocks_length sha_init_def)
qed

lemma sha256_hex_length [simp]: "length (sha256_hex s) = 64"
  by (simp add: sha256_hex_def sha256_bytes_length)

lemma sha256_hex_chars: "c \<in> set (sha256_hex s) \<Longrightarrow> hex_char c"
  unfolding sha256_hex_def by (rule hex_string_chars)

end
