(* ===== verification/Resource_Names.thy ===== *)
theory Resource_Names
  imports Sha256 Api_Types Paths
begin

text \<open>
  Names of the generated objects: dnsLabel and the Generated*Name functions of
  controller/builders.go, the run identifiers, and the name of the lease that
  guards a target in controller/helpers.go. Strings are byte strings, and
  \<open>strings.ToLower\<close> is taken on ASCII: object names are ASCII.
\<close>

section \<open>DNS labels\<close>

definition label_char :: "char \<Rightarrow> bool" where
  "label_char c = (is_lower c \<or> is_digit c)"

abbreviation dash :: char where
  "dash \<equiv> CHR ''-''"

fun label_chars :: "bool \<Rightarrow> string \<Rightarrow> string" where
  "label_chars lastDash [] = []"
| "label_chars lastDash (r # rs) =
    (if label_char r then r # label_chars False rs
     else if \<not> lastDash then dash # label_chars True rs
     else label_chars True rs)"

definition dnsLabelMax :: "string \<Rightarrow> nat \<Rightarrow> string" where
  "dnsLabelMax value maxLength =
    (let trimmed = trim_by (\<lambda>c. c = dash) (label_chars False (to_lower value));
         out = (if trimmed = [] then ''krm'' else trimmed) in
     if length out \<le> maxLength then out
     else let suffix = take 10 (sha256_hex out) in
       if maxLength \<le> length suffix then take maxLength suffix
       else let prefix = trim_right (\<lambda>c. c = dash) (take (maxLength - length suffix - 1) out) in
         if prefix = [] then suffix else prefix @ ''-'' @ suffix)"

definition dnsLabel :: "string \<Rightarrow> string" where
  "dnsLabel value = dnsLabelMax value 63"

definition labelValue :: "string list \<Rightarrow> string" where
  "labelValue parts = dnsLabel (join ''-'' parts)"

section \<open>Names of objects\<close>

definition GeneratedCronJobName :: "string \<Rightarrow> string" where
  "GeneratedCronJobName planName = dnsLabel (''krm-'' @ planName)"

text \<open>The layout \<open>20060102-1504\<close>.\<close>

definition format_minute :: "gotime \<Rightarrow> string" where
  "format_minute t =
    (case civil_of_day (day_of_time t) of (y, m, d) \<Rightarrow>
       let minutes = (t mod ns_per_day) div (60 * ns_per_sec)
       in pad4 y @ pad2 m @ pad2 d @ ''-'' @ pad2 (minutes div 60) @ pad2 (minutes mod 60))"

definition GeneratedScheduledBackupJobName :: "string \<Rightarrow> gotime \<Rightarrow> string" where
  "GeneratedScheduledBackupJobName machineName scheduledAt =
    (let timestamp = format_minute scheduledAt;
         prefix = dnsLabelMax machineName (63 - length ''krm--'' - length timestamp)
     in ''krm-'' @ prefix @ ''-'' @ timestamp)"

definition GeneratedJobName :: "string \<Rightarrow> string \<Rightarrow> string" where
  "GeneratedJobName pre runName = dnsLabel (''krm-'' @ pre @ ''-'' @ runName)"

definition GeneratedServiceName :: "string \<Rightarrow> string \<Rightarrow> string" where
  "GeneratedServiceName pre runName = dnsLabel (''krm-'' @ pre @ ''-'' @ runName)"

definition RunIDForRef :: "nsname \<Rightarrow> string" where
  "RunIDForRef ref = (if fst ref = [] then snd ref else fst ref @ ''-'' @ snd ref)"

definition RunID :: "backup_job \<Rightarrow> string" where
  "RunID run = RunIDForRef (meta_key (j_meta run))"

definition GeneratedTLSSecretName :: "string \<Rightarrow> string \<Rightarrow> string \<Rightarrow> string \<Rightarrow> string" where
  "GeneratedTLSSecretName runID role namespace name =
     dnsLabel (''krm-tls-'' @ runID @ ''-'' @ role @ ''-'' @ namespace @ ''-'' @ name)"

definition targetGuardLeaseName :: "nsname \<Rightarrow> string" where
  "targetGuardLeaseName target =
    (let suffix = take 10 (sha256_hex (fst target @ ''/'' @ snd target));
         stem = dnsLabel (''krm-target-guard-'' @ snd target);
         maxStem = 63 - length suffix - 1;
         stem = (if length stem > maxStem then trim_right (\<lambda>c. c = dash) (take maxStem stem) else stem);
         stem = (if stem = [] then ''krm-target-guard'' else stem)
     in stem @ ''-'' @ suffix)"

definition TargetGuardLeaseRef :: "nsname \<Rightarrow> nsname" where
  "TargetGuardLeaseRef target = (fst target, targetGuardLeaseName target)"

section \<open>Labels are well formed\<close>

text \<open>A DNS-1123 label without its length limit, and the absence of doubled dashes.\<close>

definition label_wf :: "string \<Rightarrow> bool" where
  "label_wf s = (s \<noteq> [] \<and> (\<forall>c\<in>set s. label_char c \<or> c = dash) \<and> hd s \<noteq> dash \<and> last s \<noteq> dash)"

definition single_dashes :: "string \<Rightarrow> bool" where
  "single_dashes s = successively (\<lambda>a b. \<not> (a = dash \<and> b = dash)) s"

lemma dash_not_label [simp]: "\<not> label_char dash"
  by (simp add: label_char_def is_lower_def is_digit_def less_eq_char_def)

lemma hex_label:
  assumes "hex_char c"
  shows "label_char c"
proof -
  have "c \<le> CHR ''z''" if "c \<le> CHR ''f''"
    using that by (rule order_trans) (simp add: less_eq_char_def)
  then show ?thesis
    using assms unfolding hex_char_def label_char_def is_lower_def by blast
qed

lemma label_chars_set: "c \<in> set (label_chars b s) \<Longrightarrow> label_char c \<or> c = dash"
  by (induction b s rule: label_chars.induct) (auto split: if_splits)

lemma label_chars_single:
  "single_dashes (label_chars b s) \<and> (b \<longrightarrow> label_chars b s = [] \<or> hd (label_chars b s) \<noteq> dash)"
proof (induction b s rule: label_chars.induct)
  case (2 lastDash r rs)
  then show ?case
    by (cases "label_chars True rs"; cases "label_chars False rs")
      (auto simp: single_dashes_def successively_Cons split: if_splits)
qed (simp add: single_dashes_def)

lemma trim_right_take: "trim_right P s = take (length (trim_right P s)) s"
  by (metis append_eq_conv_conj trim_right_prefix)

lemma trim_left_drop: "trim_left P s = drop (length s - length (trim_left P s)) s"
  unfolding trim_left_def dropWhile_eq_drop
  by (simp add: length_takeWhile_le)

lemma trim_left_hd: "trim_left P s \<noteq> [] \<Longrightarrow> \<not> P (hd (trim_left P s))"
  unfolding trim_left_def by (rule hd_dropWhile)

lemma trim_right_hd: "trim_right P s \<noteq> [] \<Longrightarrow> hd (trim_right P s) = hd s"
  by (metis hd_append2 trim_right_prefix)

lemma trim_by_props:
  assumes "trim_by P s \<noteq> []"
  shows "\<not> P (hd (trim_by P s))" "\<not> P (last (trim_by P s))" "set (trim_by P s) \<subseteq> set s"
proof -
  have ne: "trim_left P s \<noteq> []"
    using assms by (auto simp: trim_by_def trim_right_def)
  show "\<not> P (hd (trim_by P s))"
    using assms ne trim_left_hd [OF ne] by (simp add: trim_by_def trim_right_hd)
  show "\<not> P (last (trim_by P s))"
    using assms trim_right_last unfolding trim_by_def by blast
  show "set (trim_by P s) \<subseteq> set s"
    unfolding trim_by_def using set_trim_right set_trim_left by blast
qed

lemma successively_drop: "successively P xs \<Longrightarrow> successively P (drop n xs)"
  by (metis append_take_drop_id successively_append_iff)

lemma successively_take: "successively P xs \<Longrightarrow> successively P (take n xs)"
  by (metis append_take_drop_id successively_append_iff)

lemma single_dashes_trim_right: "single_dashes s \<Longrightarrow> single_dashes (trim_right P s)"
  unfolding single_dashes_def by (subst trim_right_take) (rule successively_take)

lemma single_dashes_trim_by: "single_dashes s \<Longrightarrow> single_dashes (trim_by P s)"
proof -
  assume "single_dashes s"
  then have "single_dashes (trim_left P s)"
    unfolding single_dashes_def by (subst trim_left_drop) (rule successively_drop)
  then show ?thesis
    unfolding trim_by_def by (rule single_dashes_trim_right)
qed

text \<open>The label before it is shortened.\<close>

definition raw_label :: "string \<Rightarrow> string" where
  "raw_label value = (let trimmed = trim_by (\<lambda>c. c = dash) (label_chars False (to_lower value))
     in if trimmed = [] then ''krm'' else trimmed)"

lemma krm_label: "label_wf ''krm''" "single_dashes ''krm''"
  by (simp_all add: label_wf_def single_dashes_def label_char_def is_lower_def is_digit_def less_eq_char_def)

lemma raw_label_wf: "label_wf (raw_label v)" "single_dashes (raw_label v)"
proof -
  let ?t = "trim_by (\<lambda>c. c = dash) (label_chars False (to_lower v))"
  have "label_wf ?t" if "?t \<noteq> []"
    using that trim_by_props [OF that] label_chars_set [of _ False "to_lower v"] unfolding label_wf_def by blast
  then show "label_wf (raw_label v)"
    using krm_label by (simp add: raw_label_def Let_def)
  show "single_dashes (raw_label v)"
    using krm_label single_dashes_trim_by label_chars_single by (simp add: raw_label_def Let_def)
qed

lemma sha256_hex_nonempty [simp]: "sha256_hex s \<noteq> []"
  using sha256_hex_length [of s] by (metis list.size(3) zero_neq_numeral)

lemma digest_suffix:
  "length (take 10 (sha256_hex s)) = 10" "c \<in> set (take n (sha256_hex s)) \<Longrightarrow> label_char c"
  using sha256_hex_chars hex_label by (auto dest: in_set_takeD)

lemma label_wf_all:
  assumes "s \<noteq> []" "\<And>c. c \<in> set s \<Longrightarrow> label_char c"
  shows "label_wf s"
  using assms dash_not_label unfolding label_wf_def by (metis hd_in_set last_in_set)

lemma label_wf_append:
  assumes "label_wf p" "s \<noteq> []" "\<And>c. c \<in> set s \<Longrightarrow> label_char c"
  shows "label_wf (p @ ''-'' @ s)"
  using assms label_wf_all [of s] by (auto simp: label_wf_def)

lemma label_wf_prefix:
  assumes "label_wf s" "trim_right (\<lambda>c. c = dash) (take n s) \<noteq> []"
  shows "label_wf (trim_right (\<lambda>c. c = dash) (take n s))"
proof -
  let ?p = "trim_right (\<lambda>c. c = dash) (take n s)"
  have "0 < n"
    using assms(2) by (cases n) (auto simp: trim_right_def)
  then have "hd ?p = hd s"
    using trim_right_hd [OF assms(2)] by (simp add: hd_take)
  moreover have "set ?p \<subseteq> set s"
    using set_trim_right set_take_subset by fastforce
  ultimately show ?thesis
    using assms trim_right_last [OF assms(2)] unfolding label_wf_def by auto
qed

text \<open>How a label is shortened.\<close>

lemma dnsLabelMax_eq:
  "dnsLabelMax v n =
    (if length (raw_label v) \<le> n then raw_label v
     else if n \<le> 10 then take n (sha256_hex (raw_label v))
     else let pre = trim_right (\<lambda>c. c = dash) (take (n - 11) (raw_label v))
       in (if pre = [] then [] else pre @ ''-'') @ take 10 (sha256_hex (raw_label v)))"
  using digest_suffix(1) by (simp add: dnsLabelMax_def raw_label_def Let_def min_def)

lemma shortened_label:
  assumes "label_wf s" "10 < n"
  defines "pre \<equiv> trim_right (\<lambda>c. c = dash) (take (n - 11) s)"
  shows "label_wf ((if pre = [] then [] else pre @ ''-'') @ take 10 (sha256_hex r))"
    "length ((if pre = [] then [] else pre @ ''-'') @ take 10 (sha256_hex r)) \<le> n"
proof -
  have d: "length (take 10 (sha256_hex r)) = 10"
    by (rule digest_suffix)
  then have ne: "take 10 (sha256_hex r) \<noteq> []"
    by auto
  show "label_wf ((if pre = [] then [] else pre @ ''-'') @ take 10 (sha256_hex r))"
    using label_wf_all [OF ne] label_wf_append [OF label_wf_prefix [OF assms(1), of "n - 11"] ne] digest_suffix(2)
    unfolding pre_def by auto
  have "length pre \<le> n - 11"
    using length_trim_right [of "\<lambda>c. c = dash" "take (n - 11) s"] unfolding pre_def by simp
  then show "length ((if pre = [] then [] else pre @ ''-'') @ take 10 (sha256_hex r)) \<le> n"
    using assms(2) d by auto
qed

lemma dnsLabelMax_wf:
  assumes "0 < n"
  shows "label_wf (dnsLabelMax v n)" "length (dnsLabelMax v n) \<le> n"
proof -
  have t: "label_wf (take n (sha256_hex r))" for r
  proof (rule label_wf_all)
    have "length (sha256_hex r) = 64"
      by simp
    then show "take n (sha256_hex r) \<noteq> []"
      using assms by auto
  qed (rule digest_suffix(2))
  note s = shortened_label [OF raw_label_wf(1) [of v], of n "raw_label v"]
  show "label_wf (dnsLabelMax v n)" "length (dnsLabelMax v n) \<le> n"
    using t raw_label_wf(1) s unfolding dnsLabelMax_eq Let_def by (auto simp del: append_assoc split: if_splits)
qed

lemma lower_label: "label_char c \<or> c = dash \<Longrightarrow> lower_char c = c"
proof -
  assume "label_char c \<or> c = dash"
  then have "\<not> (CHR ''A'' \<le> c \<and> c \<le> CHR ''Z'')"
    by (auto simp: label_char_def is_lower_def is_digit_def less_eq_char_def)
  then show ?thesis
    unfolding lower_char_def by (rule if_not_P)
qed

lemma label_chars_id:
  assumes "single_dashes s" "\<forall>c\<in>set s. label_char c \<or> c = dash" "b \<longrightarrow> s = [] \<or> hd s \<noteq> dash"
  shows "label_chars b s = s"
  using assms
proof (induction b s rule: label_chars.induct)
  case (2 b r rs)
  then show ?case
    by (cases rs) (auto simp: single_dashes_def)
qed simp

lemma dropWhile_hd: "xs \<noteq> [] \<Longrightarrow> \<not> P (hd xs) \<Longrightarrow> dropWhile P xs = xs"
  by (cases xs) auto

lemma trim_by_id: "s \<noteq> [] \<Longrightarrow> \<not> P (hd s) \<Longrightarrow> \<not> P (last s) \<Longrightarrow> trim_by P s = s"
  unfolding trim_by_def trim_left_def trim_right_def
  by (simp add: dropWhile_hd hd_rev)

lemma raw_label_id:
  assumes "label_wf s" "single_dashes s"
  shows "raw_label s = s"
proof -
  have "to_lower s = s"
    using assms(1) lower_label unfolding to_lower_def label_wf_def by (simp add: map_idI)
  moreover have "label_chars False s = s"
    using assms label_chars_id unfolding label_wf_def by blast
  moreover have "trim_by (\<lambda>c. c = dash) s = s"
    using assms(1) by (intro trim_by_id) (auto simp: label_wf_def)
  ultimately show ?thesis
    using assms(1) by (simp add: raw_label_def label_wf_def)
qed

lemma single_dashes_all: "\<forall>c\<in>set s. label_char c \<Longrightarrow> single_dashes s"
proof (induction s)
  case (Cons a s)
  then show ?case
    using dash_not_label by (cases s) (auto simp: single_dashes_def)
qed (simp add: single_dashes_def)

lemma single_dashes_append:
  assumes "single_dashes p" "p \<noteq> []" "last p \<noteq> dash" "single_dashes s" "s \<noteq> []" "hd s \<noteq> dash"
  shows "single_dashes (p @ ''-'' @ s)"
  using assms by (cases s) (auto simp: single_dashes_def successively_append_iff)

lemma dnsLabelMax_single: "single_dashes (dnsLabelMax v n)"
proof -
  let ?pre = "trim_right (\<lambda>c. c = dash) (take (n - 11) (raw_label v))"
  have take: "single_dashes (take k (sha256_hex r))" for k r
    using digest_suffix(2) by (intro single_dashes_all) blast
  have pre: "single_dashes ?pre"
    using raw_label_wf(2) [of v] successively_take unfolding single_dashes_def
    by (metis trim_right_take successively_take)
  have ne: "take 10 (sha256_hex (raw_label v)) \<noteq> []"
    using digest_suffix(1) by (metis list.size(3) zero_neq_numeral)
  have hd: "hd (take 10 (sha256_hex (raw_label v))) \<noteq> dash"
    using digest_suffix(2) ne dash_not_label hd_in_set by metis
  have "single_dashes (?pre @ ''-'' @ take 10 (sha256_hex (raw_label v)))" if "?pre \<noteq> []"
    using single_dashes_append [OF pre that _ take ne hd] trim_right_last [OF that] by blast
  then show ?thesis
    using take raw_label_wf(2) [of v] unfolding dnsLabelMax_eq Let_def by auto
qed

text \<open>C37. Every generated label is a DNS-1123 label of at most the given length, whatever the
  input, and labelling a label again leaves it as it is.\<close>

theorem dnsLabelMax_is_label:
  assumes "0 < n"
  shows "label_wf (dnsLabelMax v n) \<and> length (dnsLabelMax v n) \<le> n \<and> dnsLabelMax (dnsLabelMax v n) n = dnsLabelMax v n"
proof -
  have "raw_label (dnsLabelMax v n) = dnsLabelMax v n"
    using raw_label_id dnsLabelMax_wf(1) [OF assms] dnsLabelMax_single by blast
  then show ?thesis
    using dnsLabelMax_wf [OF assms] dnsLabelMax_eq [of "dnsLabelMax v n" n] by simp
qed

theorem dnsLabelMax_is_label_witness:
  "label_wf (dnsLabelMax ''My_Machine..v2'' 63) \<and> dnsLabelMax ''My_Machine..v2'' 63 = ''my-machine-v2''"
proof -
  have "dnsLabelMax ''My_Machine..v2'' 63 = ''my-machine-v2''"
    by code_simp
  then show ?thesis
    using dnsLabelMax_is_label [of 63 "''My_Machine..v2''"] by simp
qed

section \<open>The lease that guards a target\<close>

text \<open>The name of the lease that guards a target is a DNS label of at most 63 bytes, and it
  ends in ten digits of the digest of the target's full name.\<close>

theorem targetGuardLeaseName_is_label:
  "label_wf (targetGuardLeaseName r) \<and> length (targetGuardLeaseName r) \<le> 63
    \<and> (\<exists>stem. targetGuardLeaseName r = stem @ ''-'' @ take 10 (sha256_hex (nsname_string r)))"
proof -
  let ?suffix = "take 10 (sha256_hex (nsname_string r))"
  let ?l = "dnsLabel (''krm-target-guard-'' @ snd r)"
  let ?stem = "(let s = (if length ?l > 52 then trim_right (\<lambda>c. c = dash) (take 52 ?l) else ?l)
      in if s = [] then ''krm-target-guard'' else s)"
  have eq: "targetGuardLeaseName r = ?stem @ ''-'' @ ?suffix"
    by (simp add: targetGuardLeaseName_def nsname_string_def Let_def)
  have l: "label_wf ?l" "length ?l \<le> 63"
    using dnsLabelMax_wf [of 63] by (simp_all add: dnsLabel_def)
  have "label_wf ''krm-target-guard''"
    by (simp add: label_wf_def label_char_def is_lower_def is_digit_def less_eq_char_def)
  then have stem: "label_wf ?stem" "length ?stem \<le> 52"
    using l label_wf_prefix [OF l(1), of 52] length_trim_right [of "\<lambda>c. c = dash" "take 52 ?l"]
    by (auto simp: Let_def)
  have ne: "?suffix \<noteq> []"
    by simp
  have "label_wf (?stem @ ''-'' @ ?suffix)"
    by (rule label_wf_append [OF stem(1) ne]) (rule digest_suffix(2))
  then show ?thesis
    unfolding eq using stem(2) by auto
qed

section \<open>Scheduled runs\<close>

definition minute_of :: "gotime \<Rightarrow> int" where
  "minute_of t = t div (60 * ns_per_sec)"

lemma pad2_inj: "pad2 a @ s = pad2 b @ s' \<Longrightarrow> 0 \<le> a \<Longrightarrow> a < 100 \<Longrightarrow> 0 \<le> b \<Longrightarrow> b < 100 \<Longrightarrow> a = b \<and> s = s'"
  using getnum_pad2 [of a True s] getnum_pad2 [of b True s'] by (metis option.inject prod.inject)

lemma pad4_inj: "pad4 a @ s = pad4 b @ s' \<Longrightarrow> 0 \<le> a \<Longrightarrow> a \<le> 9999 \<Longrightarrow> 0 \<le> b \<Longrightarrow> b \<le> 9999 \<Longrightarrow> a = b \<and> s = s'"
  using parse_year_pad4 [of a s] parse_year_pad4 [of b s'] by (metis option.inject prod.inject)

lemma minute_range:
  "0 \<le> (t mod ns_per_day) div (60 * ns_per_sec)" "(t mod ns_per_day) div (60 * ns_per_sec) < 1440"
proof -
  have m: "0 \<le> t mod 86400000000000" "t mod 86400000000000 \<le> 86399999999999"
    using pos_mod_bound [of 86400000000000 t] by auto
  show "0 \<le> (t mod ns_per_day) div (60 * ns_per_sec)"
    by (simp add: ns_per_day_def ns_per_sec_def pos_imp_zdiv_nonneg_iff)
  show "(t mod ns_per_day) div (60 * ns_per_sec) < 1440"
    using zdiv_mono1 [OF m(2), of 60000000000] by (simp add: ns_per_day_def ns_per_sec_def)
qed

lemma minute_of_split: "minute_of t = (day_of_time t - epoch_day) * 1440 + (t mod ns_per_day) div (60 * ns_per_sec)"
proof -
  have "t = (t div ns_per_day * 1440) * (60 * ns_per_sec) + t mod ns_per_day"
    by (simp add: ns_per_day_def ns_per_sec_def)
  then have "minute_of t = ((t div ns_per_day * 1440) * (60 * ns_per_sec) + t mod ns_per_day) div (60 * ns_per_sec)"
    by (simp add: minute_of_def)
  also have "\<dots> = t div ns_per_day * 1440 + (t mod ns_per_day) div (60 * ns_per_sec)"
    by (rule div_mult_self3) (simp add: ns_per_sec_def)
  finally show ?thesis
    by (simp add: day_of_time_def)
qed

definition year_at :: "gotime \<Rightarrow> int" where
  "year_at t = fst (civil_of_day (day_of_time t))"

lemma format_minute_length [simp]: "length (format_minute t) = 13"
  by (simp add: format_minute_def Let_def split: prod.split)

lemma format_minute_inj:
  assumes "0 \<le> year_at t" "year_at t \<le> 9999" "0 \<le> year_at u" "year_at u \<le> 9999"
    and "format_minute t = format_minute u"
  shows "minute_of t = minute_of u"
proof -
  obtain y m d where t: "civil_of_day (day_of_time t) = (y, m, d)"
    by (cases "civil_of_day (day_of_time t)")
  obtain y' m' d' where u: "civil_of_day (day_of_time u) = (y', m', d')"
    by (cases "civil_of_day (day_of_time u)")
  note ct = civil_of_day_correct [OF t] and cu = civil_of_day_correct [OF u]
  let ?a = "(t mod ns_per_day) div (60 * ns_per_sec)" and ?b = "(u mod ns_per_day) div (60 * ns_per_sec)"
  have r: "0 \<le> ?a" "?a < 1440" "0 \<le> ?b" "?b < 1440"
    by (rule minute_range)+
  have eq: "pad4 y @ pad2 m @ pad2 d @ ''-'' @ pad2 (?a div 60) @ pad2 (?a mod 60)
      = pad4 y' @ pad2 m' @ pad2 d' @ ''-'' @ pad2 (?b div 60) @ pad2 (?b mod 60)"
    using assms(5) by (simp add: format_minute_def t u Let_def)
  have y: "0 \<le> y" "y \<le> 9999" "0 \<le> y'" "y' \<le> 9999"
    using assms(1-4) t u by (simp_all add: year_at_def)
  have md: "1 \<le> m" "m \<le> 12" "1 \<le> d" "d \<le> 31" "1 \<le> m'" "m' \<le> 12" "1 \<le> d'" "d' \<le> 31"
    using ct cu days_in_le_31 [of m y] days_in_le_31 [of m' y'] by (auto simp: valid_date_def)
  have e1: "y = y'" "pad2 m @ pad2 d @ ''-'' @ pad2 (?a div 60) @ pad2 (?a mod 60)
      = pad2 m' @ pad2 d' @ ''-'' @ pad2 (?b div 60) @ pad2 (?b mod 60)"
    using pad4_inj [OF eq y] by blast+
  have e2: "m = m'" "pad2 d @ ''-'' @ pad2 (?a div 60) @ pad2 (?a mod 60) = pad2 d' @ ''-'' @ pad2 (?b div 60) @ pad2 (?b mod 60)"
    using pad2_inj [OF e1(2)] md by auto
  have e3: "d = d'" "''-'' @ pad2 (?a div 60) @ pad2 (?a mod 60) = ''-'' @ pad2 (?b div 60) @ pad2 (?b mod 60)"
    using pad2_inj [OF e2(2)] md by auto
  have "?a div 60 = ?b div 60 \<and> pad2 (?a mod 60) = pad2 (?b mod 60)"
    using pad2_inj [of "?a div 60" "pad2 (?a mod 60)" "?b div 60" "pad2 (?b mod 60)"] e3(2) r by auto
  moreover have "?a mod 60 = ?b mod 60"
    using pad2_inj [of "?a mod 60" "[]" "?b mod 60" "[]"] calculation by auto
  ultimately have "?a = ?b"
    by (metis mult_div_mod_eq)
  moreover have "day_of_time t = day_of_time u"
    using ct cu e1(1) e2(1) e3(1) by simp
  ultimately show ?thesis
    by (simp add: minute_of_split)
qed

text \<open>The name of a scheduled run is a DNS label of at most 63 bytes, and two runs of one
  machine that are scheduled in different minutes have different names.\<close>

theorem scheduled_names_distinct:
  assumes "0 \<le> year_at t" "year_at t \<le> 9999" "0 \<le> year_at u" "year_at u \<le> 9999"
  shows "label_wf (GeneratedScheduledBackupJobName machine t)
    \<and> length (GeneratedScheduledBackupJobName machine t) \<le> 63
    \<and> (GeneratedScheduledBackupJobName machine t = GeneratedScheduledBackupJobName machine u
        \<longrightarrow> minute_of t = minute_of u)"
proof -
  let ?pre = "dnsLabelMax machine 45"
  have name: "GeneratedScheduledBackupJobName machine v = ''krm-'' @ ?pre @ ''-'' @ format_minute v" for v
    by (simp add: GeneratedScheduledBackupJobName_def Let_def)
  have pre: "label_wf ?pre" "length ?pre \<le> 45"
    using dnsLabelMax_wf [of 45 machine] by simp_all
  have digits: "label_char c \<or> c = dash" "format_minute v \<noteq> []" "last (format_minute v) \<noteq> dash"
    if "c \<in> set (format_minute v)" for c v
  proof -
    obtain y m d where v: "civil_of_day (day_of_time v) = (y, m, d)"
      by (cases "civil_of_day (day_of_time v)")
    show "label_char c \<or> c = dash"
      using that pad2_digits by (auto simp: format_minute_def v Let_def pad4_def label_char_def)
    show "format_minute v \<noteq> []"
      using format_minute_length [of v] by (metis list.size(3) zero_neq_numeral)
    have "pad2 i \<noteq> []" "is_digit (last (pad2 i))" for i
      using pad2_digits [of "last (pad2 i)" i] by (auto simp: pad2_def)
    then have "is_digit (last (format_minute v))"
      by (simp add: format_minute_def v Let_def)
    then show "last (format_minute v) \<noteq> dash"
      by (auto simp: is_digit_def less_eq_char_def)
  qed
  have ne: "format_minute t \<noteq> []"
    using format_minute_length [of t] by (metis list.size(3) zero_neq_numeral)
  have "label_wf (''krm-'' @ ?pre @ ''-'' @ format_minute t)"
    unfolding label_wf_def using pre digits(1) digits(3) [of "last (format_minute t)" t] ne krm_label(1)
    by (auto simp: label_wf_def)
  moreover have "format_minute t = format_minute u \<longrightarrow> minute_of t = minute_of u"
    using format_minute_inj [OF assms] by blast
  ultimately show ?thesis
    unfolding name using pre(2) by simp
qed

theorem scheduled_names_distinct_witness:
  "GeneratedScheduledBackupJobName ''nas'' 0 = ''krm-nas-19700101-0000''
    \<and> GeneratedScheduledBackupJobName ''nas'' 0 \<noteq> GeneratedScheduledBackupJobName ''nas'' 60000000000"
proof -
  have name: "GeneratedScheduledBackupJobName ''nas'' 0 = ''krm-nas-19700101-0000''"
    by code_simp
  have "year_at 0 = 1970" "year_at 60000000000 = 1970" "minute_of 0 \<noteq> minute_of 60000000000"
    by code_simp+
  then show ?thesis
    using scheduled_names_distinct [of 0 60000000000 "''nas''"] name by auto
qed

section \<open>Run identifiers\<close>

text \<open>The names that the API server admits: labels, and subdomains with dots.\<close>

definition object_name :: "string \<Rightarrow> bool" where
  "object_name s = (s \<noteq> [] \<and> (\<forall>c\<in>set s. label_char c \<or> c = dash \<or> c = CHR ''.'') \<and> label_char (hd s) \<and> label_char (last s))"

lemma label_char_safe:
  "label_char c \<Longrightarrow> c \<notin> {CHR ''.'', CHR ''/'', CHR 0x5C, CHR 0x0D, CHR 0x0A, CHR ''=''}"
  by (auto simp: label_char_def is_lower_def is_digit_def less_eq_char_def)

text \<open>The run identifier of every object the API server admits is one that the data plane
  accepts as the name of a partial directory.\<close>

theorem RunIDForRef_accepted:
  assumes "object_name name" and "ns = [] \<or> object_name ns"
  shows "validateRunID (RunIDForRef (ns, name)) = Inr ()"
proof (rule validateRunID_ok)
  let ?r = "RunIDForRef (ns, name)"
  have chars: "\<forall>c\<in>set ?r. label_char c \<or> c = dash \<or> c = CHR ''.''"
    using assms by (auto simp: RunIDForRef_def object_name_def)
  have hd: "?r \<noteq> []" "label_char (hd ?r)"
    using assms by (auto simp: RunIDForRef_def object_name_def)
  then have "?r \<noteq> ''.''" "?r \<noteq> ''..''"
    using label_char_safe by fastforce+
  moreover have safe: "\<forall>c\<in>set ?r. c \<notin> {CHR ''/'', CHR 0x5C, CHR 0x0D, CHR 0x0A, CHR ''=''}"
  proof
    fix c
    assume "c \<in> set ?r"
    then have "label_char c \<or> c = dash \<or> c = CHR ''.''"
      using chars by blast
    then show "c \<notin> {CHR ''/'', CHR 0x5C, CHR 0x0D, CHR 0x0A, CHR ''=''}"
      using label_char_safe [of c] by auto
  qed
  ultimately show "plain_seg ?r"
    using hd(1) by (auto simp: plain_seg_def)
  show "\<forall>c\<in>set ?r. c \<notin> {CHR 0x5C, CHR 0x0D, CHR 0x0A, CHR ''=''}"
    using safe by blast
qed

theorem RunIDForRef_accepted_witness:
  "validateRunID (RunIDForRef (''shop'', ''nightly-2'')) = Inr ()"
proof (rule RunIDForRef_accepted)
  show "object_name ''nightly-2''" "''shop'' = [] \<or> object_name ''shop''"
    by code_simp+
qed

text \<open>The identifiers are not unique: two different runs may share one partial directory,
  and two senders of one namespace may share one job name.\<close>

theorem generated_names_collide:
  "RunIDForRef (''a'', ''b-c'') = RunIDForRef (''a-b'', ''c'')
    \<and> GeneratedJobName (''source-'' @ ''a'') ''b-c'' = GeneratedJobName (''source-'' @ ''a-b'') ''c''"
  by code_simp

end
