(* ===== verification/Control_Types.thy ===== *)
theory Control_Types
  imports Api_Types
begin

text \<open>
  control/types.go and the validation functions of control/service.go: the
  messages between the controller and the data plane. The checks of
  k8s.io/apimachinery on names are a parameter: two functions that return the
  list of their complaints.
\<close>

section \<open>Constants\<close>

abbreviation "RunKindBackup \<equiv> ''backup''"
abbreviation "RunKindRestore \<equiv> ''restore''"
abbreviation "TargetCommandFinalizeBackupJob \<equiv> ''finalize_backup_run''"
abbreviation "TargetCommandRecoverSpace \<equiv> ''recover_space''"
abbreviation "TargetCommandAbortRun \<equiv> ''abort_run''"

section \<open>Messages\<close>

record run_key =
  rk_namespace :: string
  rk_name :: string
  rk_kind :: string

record register_request =
  rq_runNamespace :: string
  rq_runName :: string
  rq_runKind :: string
  rq_targetNamespace :: string
  rq_targetName :: string

record expected_source =
  es_namespace :: string
  es_name :: string
  es_destinationPath :: string

record finalize_job =
  fj_timestamp :: string
  fj_sources :: "expected_source list"
  fj_bytesTransferred :: "64 word"

record recover_space =
  rv_failedSourceNamespace :: string
  rv_failedSourceName :: string
  rv_reason :: string
  rv_minAvailableBytes :: "64 word"
  rv_protectedSnapshots :: "string list"

record abort_run =
  ar_reason :: string

record target_command =
  tc_commandID :: string
  tc_type :: string
  tc_finalize :: "finalize_job option"
  tc_recoverSpace :: "recover_space option"
  tc_abort :: "abort_run option"

record command_ack_event =
  ca_runNamespace :: string
  ca_runName :: string
  ca_runKind :: string
  ca_targetNamespace :: string
  ca_targetName :: string
  ca_commandID :: string
  ca_commandType :: string
  ca_acknowledgedAt :: string
  ca_message :: string

record control_restore_point =
  crp_snapshot :: string
  crp_resolvesTo :: string
  crp_tier :: string
  crp_createdAt :: string
  crp_bytesTransferred :: "64 word"

record target_condition =
  tcd_type :: string
  tcd_status :: string
  tcd_reason :: string
  tcd_message :: string
  tcd_lastTransitionTime :: string
  tcd_observedGeneration :: int

record target_event =
  te_runNamespace :: string
  te_runName :: string
  te_runKind :: string
  te_targetNamespace :: string
  te_targetName :: string
  te_phase :: string
  te_message :: string
  te_snapshot :: string
  te_bytesFreed :: "64 word"
  te_paths :: "string list"
  te_restorePoints :: "control_restore_point list"
  te_restoreScanned :: bool
  te_conditions :: "target_condition list"
  te_availableBytes :: "64 word"
  te_capacityBytes :: "64 word"

text \<open>\<open>Speedup\<close> is a \<open>float64\<close>, here its bit pattern.\<close>

record source_event =
  se_runNamespace :: string
  se_runName :: string
  se_runKind :: string
  se_sourceNamespace :: string
  se_sourceName :: string
  se_phase :: string
  se_percent :: "32 word"
  se_bytesTransferred :: "64 word"
  se_rateBytesPerSecond :: "64 word"
  se_filesTransferred :: "64 word"
  se_totalFiles :: "64 word"
  se_totalFileSize :: "64 word"
  se_bytesSent :: "64 word"
  se_bytesReceived :: "64 word"
  se_speedup :: "64 word"
  se_statsComplete :: bool
  se_startedAt :: string
  se_completedAt :: string
  se_rsyncExitCode :: "32 word"
  se_message :: string
  se_captureMethod :: string
  se_captureTime :: string
  se_volumeSnapshotName :: string

definition register_Key :: "register_request \<Rightarrow> run_key" where
  "register_Key r = \<lparr>rk_namespace = rq_runNamespace r, rk_name = rq_runName r, rk_kind = rq_runKind r\<rparr>"

definition ack_Key :: "command_ack_event \<Rightarrow> run_key" where
  "ack_Key e = \<lparr>rk_namespace = ca_runNamespace e, rk_name = ca_runName e, rk_kind = ca_runKind e\<rparr>"

definition target_Key :: "target_event \<Rightarrow> run_key" where
  "target_Key e = \<lparr>rk_namespace = te_runNamespace e, rk_name = te_runName e, rk_kind = te_runKind e\<rparr>"

definition source_Key :: "source_event \<Rightarrow> run_key" where
  "source_Key e = \<lparr>rk_namespace = se_runNamespace e, rk_name = se_runName e, rk_kind = se_runKind e\<rparr>"

section \<open>Commands\<close>

definition NewFinalizeBackupJobCommand :: "string \<Rightarrow> finalize_job \<Rightarrow> target_command" where
  "NewFinalizeBackupJobCommand commandID finalize = \<lparr>tc_commandID = commandID, tc_type = TargetCommandFinalizeBackupJob,
     tc_finalize = Some finalize, tc_recoverSpace = None, tc_abort = None\<rparr>"

definition NewRecoverSpaceCommand :: "string \<Rightarrow> recover_space \<Rightarrow> target_command" where
  "NewRecoverSpaceCommand commandID recover = \<lparr>tc_commandID = commandID, tc_type = TargetCommandRecoverSpace,
     tc_finalize = None, tc_recoverSpace = Some recover, tc_abort = None\<rparr>"

definition NewAbortRunCommand :: "string \<Rightarrow> abort_run \<Rightarrow> target_command" where
  "NewAbortRunCommand commandID abort = \<lparr>tc_commandID = commandID, tc_type = TargetCommandAbortRun,
     tc_finalize = None, tc_recoverSpace = None, tc_abort = Some abort\<rparr>"

text \<open>\<open>append([]T(nil), xs...)\<close> copies a slice.\<close>

definition cloneTargetCommand :: "target_command \<Rightarrow> target_command" where
  "cloneTargetCommand command = command\<lparr>
     tc_finalize := map_option (\<lambda>f. f\<lparr>fj_sources := [] @ fj_sources f\<rparr>) (tc_finalize command),
     tc_recoverSpace := map_option (\<lambda>r. r\<lparr>rv_protectedSnapshots := [] @ rv_protectedSnapshots r\<rparr>) (tc_recoverSpace command)\<rparr>"

definition cloneTargetCommands :: "target_command list \<Rightarrow> target_command list" where
  "cloneTargetCommands commands = map cloneTargetCommand commands"

lemma cloneTargetCommand_id [simp]: "cloneTargetCommand c = c"
  by (simp add: cloneTargetCommand_def option.map_ident)

lemma cloneTargetCommands_id [simp]: "cloneTargetCommands cs = cs"
  unfolding cloneTargetCommands_def by (rule map_idI) simp

section \<open>Validation\<close>

record k8s_validation =
  IsDNS1123Label :: "string \<Rightarrow> string list"
  IsDNS1123Subdomain :: "string \<Rightarrow> string list"

definition validateNamespaceName :: "k8s_validation \<Rightarrow> string \<Rightarrow> string \<Rightarrow> unit result" where
  "validateNamespaceName kv field value =
    (if value = [] then Inl (errorf ''%s is required'' [field])
     else let errs = IsDNS1123Label kv value in
       if errs \<noteq> [] then Inl (errorf ''%s is invalid: %s'' [field, hd errs]) else Inr ())"

definition validateObjectName :: "k8s_validation \<Rightarrow> string \<Rightarrow> string \<Rightarrow> unit result" where
  "validateObjectName kv field value =
    (if value = [] then Inl (errorf ''%s is required'' [field])
     else let errs = IsDNS1123Subdomain kv value in
       if errs \<noteq> [] then Inl (errorf ''%s is invalid: %s'' [field, hd errs]) else Inr ())"

definition check_then :: "unit result \<Rightarrow> 'a result \<Rightarrow> 'a result" where
  "check_then r k = (case r of Inl e \<Rightarrow> Inl e | Inr _ \<Rightarrow> k)"

lemma check_then_simps [simp]: "check_then (Inl e) k = Inl e" "check_then (Inr u) k = k"
  by (simp_all add: check_then_def)

lemma check_then_Inr [go_result]: "check_then r k = Inr x \<longleftrightarrow> r = Inr () \<and> k = Inr x"
  by (cases r) auto

definition RunKey_Validate :: "k8s_validation \<Rightarrow> run_key \<Rightarrow> unit result" where
  "RunKey_Validate kv k =
    check_then (validateNamespaceName kv ''run namespace'' (rk_namespace k))
    (check_then (validateObjectName kv ''run name'' (rk_name k))
    (if rk_kind k = RunKindBackup \<or> rk_kind k = RunKindRestore then Inr ()
     else if rk_kind k = [] then Inl (errorf ''run kind is required'' [])
     else Inl (errorf ''unsupported run kind %q'' [rk_kind k])))"

definition validateTargetEvent :: "k8s_validation \<Rightarrow> target_event \<Rightarrow> unit result" where
  "validateTargetEvent kv event =
    check_then (RunKey_Validate kv (target_Key event))
    (check_then (validateNamespaceName kv ''target namespace'' (te_targetNamespace event))
    (check_then (validateObjectName kv ''target name'' (te_targetName event))
    (if te_phase event = [] then Inl (errorf ''target phase is required'' []) else Inr ())))"

definition validateTargetCommandAckEvent :: "k8s_validation \<Rightarrow> command_ack_event \<Rightarrow> unit result" where
  "validateTargetCommandAckEvent kv event =
    check_then (RunKey_Validate kv (ack_Key event))
    (check_then (validateNamespaceName kv ''target namespace'' (ca_targetNamespace event))
    (check_then (validateObjectName kv ''target name'' (ca_targetName event))
    (if ca_commandID event = [] then Inl (errorf ''command id is required'' [])
     else let errs = IsDNS1123Subdomain kv (ca_commandID event) in
     if errs \<noteq> [] then Inl (errorf ''command id is invalid: %s'' [hd errs])
     else if ca_commandType event = [] then Inl (errorf ''command type is required'' [])
     else if ca_commandType event \<notin> {TargetCommandFinalizeBackupJob, TargetCommandRecoverSpace, TargetCommandAbortRun}
       then Inl (errorf ''unsupported command type %q'' [ca_commandType event])
     else (case parse_rfc3339 (ca_acknowledgedAt event) of
         None \<Rightarrow> Inl (wrapf ''acknowledgedAt is invalid: %w'' [] (errorf ''parsing time'' []))
       | Some _ \<Rightarrow> Inr ()))))"

definition validateSourceEvent :: "k8s_validation \<Rightarrow> source_event \<Rightarrow> unit result" where
  "validateSourceEvent kv event =
    check_then (RunKey_Validate kv (source_Key event))
    (check_then (validateNamespaceName kv ''source namespace'' (se_sourceNamespace event))
    (check_then (validateObjectName kv ''source name'' (se_sourceName event))
    (if se_phase event = [] then Inl (errorf ''source phase is required'' []) else Inr ())))"

fun validate_sources :: "k8s_validation \<Rightarrow> nat \<Rightarrow> expected_source list \<Rightarrow> unit result" where
  "validate_sources kv i [] = Inr ()"
| "validate_sources kv i (source # rest) =
    (case validateNamespaceName kv ''expected source namespace'' (es_namespace source) of
       Inl e \<Rightarrow> Inl (wrapf ''expected source %d: %w'' [dec_of_nat i] e)
     | Inr _ \<Rightarrow> (case validateObjectName kv ''expected source name'' (es_name source) of
         Inl e \<Rightarrow> Inl (wrapf ''expected source %d: %w'' [dec_of_nat i] e)
       | Inr _ \<Rightarrow> if es_destinationPath source = []
           then Inl (errorf ''expected source %d: destination path is required'' [dec_of_nat i])
           else validate_sources kv (Suc i) rest))"

definition validateFinalizeBackupJob :: "k8s_validation \<Rightarrow> finalize_job \<Rightarrow> unit result" where
  "validateFinalizeBackupJob kv finalize =
    (if fj_timestamp finalize = [] then Inl (errorf ''finalize timestamp is required'' [])
     else validate_sources kv 0 (fj_sources finalize))"

fun validate_protected :: "nat \<Rightarrow> string list \<Rightarrow> unit result" where
  "validate_protected i [] = Inr ()"
| "validate_protected i (s # rest) =
    (if s = [] then Inl (errorf ''recover protected snapshot %d is required'' [dec_of_nat i])
     else validate_protected (Suc i) rest)"

definition validateRecoverSpace :: "k8s_validation \<Rightarrow> recover_space \<Rightarrow> unit result" where
  "validateRecoverSpace kv recover =
    check_then (validateNamespaceName kv ''failed source namespace'' (rv_failedSourceNamespace recover))
    (check_then (validateObjectName kv ''failed source name'' (rv_failedSourceName recover))
    (if rv_reason recover = [] then Inl (errorf ''recover reason is required'' [])
     else if rv_minAvailableBytes recover = 0 then Inl (errorf ''recover min available bytes is required'' [])
     else validate_protected 0 (rv_protectedSnapshots recover)))"

definition validateTargetCommand :: "k8s_validation \<Rightarrow> target_command \<Rightarrow> unit result" where
  "validateTargetCommand kv command =
    (if tc_commandID command = [] then Inl (errorf ''command id is required'' [])
     else let errs = IsDNS1123Subdomain kv (tc_commandID command) in
     if errs \<noteq> [] then Inl (errorf ''command id is invalid: %s'' [hd errs])
     else if tc_type command = TargetCommandFinalizeBackupJob then
       (case tc_finalize command of
          None \<Rightarrow> Inl (errorf ''finalize command payload is required'' [])
        | Some f \<Rightarrow> if tc_recoverSpace command \<noteq> None \<or> tc_abort command \<noteq> None
            then Inl (errorf ''finalize command must not include other payloads'' [])
            else validateFinalizeBackupJob kv f)
     else if tc_type command = TargetCommandRecoverSpace then
       (case tc_recoverSpace command of
          None \<Rightarrow> Inl (errorf ''recover command payload is required'' [])
        | Some r \<Rightarrow> if tc_finalize command \<noteq> None \<or> tc_abort command \<noteq> None
            then Inl (errorf ''recover command must not include other payloads'' [])
            else validateRecoverSpace kv r)
     else if tc_type command = TargetCommandAbortRun then
       (case tc_abort command of
          None \<Rightarrow> Inl (errorf ''abort command payload is required'' [])
        | Some a \<Rightarrow> if tc_finalize command \<noteq> None \<or> tc_recoverSpace command \<noteq> None
            then Inl (errorf ''abort command must not include other payloads'' [])
            else Inr ())
     else if tc_type command = [] then Inl (errorf ''command type is required'' [])
     else Inl (errorf ''unsupported command type %q'' [tc_type command]))"

section \<open>What validation guarantees\<close>

lemma RunKey_Validate_kind:
  "RunKey_Validate kv k = Inr () \<Longrightarrow> rk_kind k = RunKindBackup \<or> rk_kind k = RunKindRestore"
  by (auto simp: RunKey_Validate_def check_then_Inr split: if_splits)

text \<open>The payload of a valid command is the one its type names, and the only one.\<close>

definition command_payload :: "target_command \<Rightarrow> (finalize_job + recover_space + abort_run) option" where
  "command_payload c = (case (tc_finalize c, tc_recoverSpace c, tc_abort c) of
      (Some f, None, None) \<Rightarrow> Some (Inl f)
    | (None, Some r, None) \<Rightarrow> Some (Inr (Inl r))
    | (None, None, Some a) \<Rightarrow> Some (Inr (Inr a))
    | _ \<Rightarrow> None)"

lemma validateTargetCommand_payload:
  assumes "validateTargetCommand kv c = Inr ()"
  shows "\<exists>p. command_payload c = Some p \<and>
    tc_type c = (case p of Inl _ \<Rightarrow> TargetCommandFinalizeBackupJob
      | Inr (Inl _) \<Rightarrow> TargetCommandRecoverSpace | Inr (Inr _) \<Rightarrow> TargetCommandAbortRun)"
  using assms by (auto simp: validateTargetCommand_def command_payload_def Let_def split: if_splits option.splits)

end
