(* ===== verification/Run_Events.thy ===== *)
theory Run_Events
  imports Control_Types
begin

text \<open>
  controller/events.go: how the events of the data plane change the status of
  BackupJob, RestoreJob and RsyncMachine objects. Every function returns whether
  it changed the object, and the object. The clock is read once per call, as the
  parameter \<open>now\<close>; a nil object, for which the functions return false, is not
  represented.
\<close>

section \<open>Constants\<close>

abbreviation "ConditionTargetReady \<equiv> ''TargetReady''"
abbreviation "ConditionSnapshotCapture \<equiv> ''SnapshotCapture''"
abbreviation "ConditionTransport \<equiv> ''Transport''"
abbreviation "ConditionFailed \<equiv> ''Failed''"

section \<open>Conditions\<close>

definition conditionsEqual :: "condition \<Rightarrow> condition \<Rightarrow> bool" where
  "conditionsEqual left right = (c_type left = c_type right \<and> c_status left = c_status right
     \<and> c_reason left = c_reason right \<and> c_message left = c_message right
     \<and> c_observedGeneration left = c_observedGeneration right)"

fun upsert_loop :: "condition list \<Rightarrow> condition \<Rightarrow> bool \<times> condition list" where
  "upsert_loop [] c = (True, [c])"
| "upsert_loop (x # xs) c =
    (if c_type x = c_type c then
       (if conditionsEqual x c then (False, x # xs)
        else (True, (if c_status x = c_status c \<and> c_lastTransitionTime x \<noteq> zero_time
                     then c\<lparr>c_lastTransitionTime := c_lastTransitionTime x\<rparr> else c) # xs))
     else (case upsert_loop xs c of (b, ys) \<Rightarrow> (b, x # ys)))"

definition upsertCondition :: "gotime \<Rightarrow> condition list \<Rightarrow> condition \<Rightarrow> bool \<times> condition list" where
  "upsertCondition now conditions condition =
     upsert_loop conditions (if c_lastTransitionTime condition = zero_time
       then condition\<lparr>c_lastTransitionTime := now\<rparr> else condition)"

definition setCondition :: "gotime \<Rightarrow> string \<Rightarrow> cond_status \<Rightarrow> string \<Rightarrow> string \<Rightarrow> int
    \<Rightarrow> condition list \<Rightarrow> bool \<times> condition list" where
  "setCondition now conditionType status reason message observedGeneration conditions =
     upsertCondition now conditions
       \<lparr>c_type = conditionType, c_status = status, c_observedGeneration = observedGeneration,
        c_lastTransitionTime = now, c_reason = (if reason = [] then ''Observed'' else reason), c_message = message\<rparr>"

section \<open>Conversions\<close>

definition uint64ToInt64 :: "64 word \<Rightarrow> 64 word" where
  "uint64ToInt64 value = (let maxInt64 = 0x7FFFFFFFFFFFFFFF in if value > maxInt64 then maxInt64 else value)"

definition parseMetaTime :: "gotime \<Rightarrow> string \<Rightarrow> gotime" where
  "parseMetaTime now value =
    (if value = [] then now else (case parse_rfc3339 value of None \<Rightarrow> now | Some t \<Rightarrow> t))"

definition transferPhase :: "string \<Rightarrow> transfer_phase" where
  "transferPhase phase =
    (if phase = ''Preparing'' then TransferPreparing
     else if phase = ''Running'' then TransferRunning
     else if phase = ''Succeeded'' then TransferSucceeded
     else if phase = ''Failed'' then TransferFailed
     else if phase = ''Skipped'' then TransferSkipped
     else TransferPending)"

text \<open>The text of a phase constant.\<close>

fun transfer_text :: "transfer_phase \<Rightarrow> string" where
  "transfer_text TransferUnset = []"
| "transfer_text TransferPending = ''Pending''"
| "transfer_text TransferPreparing = ''Preparing''"
| "transfer_text TransferRunning = ''Running''"
| "transfer_text TransferSucceeded = ''Succeeded''"
| "transfer_text TransferFailed = ''Failed''"
| "transfer_text TransferSkipped = ''Skipped''"

text \<open>The conversions between \<open>string\<close> and \<open>CaptureMode\<close>.\<close>

fun capture_text :: "capture_mode \<Rightarrow> string" where
  "capture_text CaptureUnset = []"
| "capture_text CaptureDirect = ''Direct''"
| "capture_text CaptureVolumeSnapshot = ''VolumeSnapshot''"
| "capture_text CaptureAuto = ''Auto''"
| "capture_text (CaptureOther s) = s"

definition capture_of :: "string \<Rightarrow> capture_mode" where
  "capture_of s = (if s = [] then CaptureUnset else if s = ''Direct'' then CaptureDirect
     else if s = ''VolumeSnapshot'' then CaptureVolumeSnapshot else if s = ''Auto'' then CaptureAuto
     else CaptureOther s)"

definition status_of :: "string \<Rightarrow> cond_status" where
  "status_of s = (if s = ''True'' then CondTrue else if s = ''False'' then CondFalse
     else if s = ''Unknown'' then CondUnknown else CondOther s)"

text \<open>Comparisons of \<open>float64\<close> values on their bit patterns; doubling a pattern drops the sign.\<close>

definition f64_zero :: "64 word \<Rightarrow> bool" where
  "f64_zero w = (w = 0 \<or> w = 0x8000000000000000)"

definition f64_nan :: "64 word \<Rightarrow> bool" where
  "f64_nan w = (2 * w > 0xFFE0000000000000)"

definition f64_eq :: "64 word \<Rightarrow> 64 word \<Rightarrow> bool" where
  "f64_eq a b = (\<not> f64_nan a \<and> \<not> f64_nan b \<and> (a = b \<or> (f64_zero a \<and> f64_zero b)))"

section \<open>Guarded assignments\<close>

text \<open>
  The idiom \<open>if cond { x.F = v; changed = true }\<close> as a pair of the condition and
  the assignment; a function body is a sequence of them.
\<close>

type_synonym 'o guarded = "('o \<Rightarrow> bool) \<times> ('o \<Rightarrow> 'o)"

fun assign :: "'o guarded list \<Rightarrow> bool \<times> 'o \<Rightarrow> bool \<times> 'o" where
  "assign [] (b, x) = (b, x)"
| "assign ((c, f) # gs) (b, x) = (if c x then assign gs (True, f x) else assign gs (b, x))"

definition time_differs :: "gotime option \<Rightarrow> gotime \<Rightarrow> bool" where
  "time_differs old new = (case old of None \<Rightarrow> True | Some t \<Rightarrow> t \<noteq> new)"

definition transfer_assignments :: "gotime \<Rightarrow> source_event \<Rightarrow> transfer_phase \<Rightarrow> transfer_status guarded list" where
  "transfer_assignments now event phase =
   [(\<lambda>t. ts_phase t \<noteq> phase, \<lambda>t. t\<lparr>ts_phase := phase\<rparr>),
    (\<lambda>t. se_percent event \<noteq> 0 \<and> ts_percent t \<noteq> se_percent event, \<lambda>t. t\<lparr>ts_percent := se_percent event\<rparr>),
    (\<lambda>t. (se_bytesTransferred event \<noteq> 0 \<or> se_statsComplete event) \<and> ts_bytesTransferred t \<noteq> uint64ToInt64 (se_bytesTransferred event),
     \<lambda>t. t\<lparr>ts_bytesTransferred := uint64ToInt64 (se_bytesTransferred event)\<rparr>),
    (\<lambda>t. se_rateBytesPerSecond event \<noteq> 0 \<and> ts_rateBytesPerSecond t \<noteq> uint64ToInt64 (se_rateBytesPerSecond event),
     \<lambda>t. t\<lparr>ts_rateBytesPerSecond := uint64ToInt64 (se_rateBytesPerSecond event)\<rparr>),
    (\<lambda>t. (se_filesTransferred event \<noteq> 0 \<or> se_statsComplete event) \<and> ts_filesTransferred t \<noteq> uint64ToInt64 (se_filesTransferred event),
     \<lambda>t. t\<lparr>ts_filesTransferred := uint64ToInt64 (se_filesTransferred event)\<rparr>),
    (\<lambda>t. se_totalFiles event \<noteq> 0 \<and> ts_totalFiles t \<noteq> uint64ToInt64 (se_totalFiles event),
     \<lambda>t. t\<lparr>ts_totalFiles := uint64ToInt64 (se_totalFiles event)\<rparr>),
    (\<lambda>t. se_totalFileSize event \<noteq> 0 \<and> ts_totalFileSize t \<noteq> uint64ToInt64 (se_totalFileSize event),
     \<lambda>t. t\<lparr>ts_totalFileSize := uint64ToInt64 (se_totalFileSize event)\<rparr>),
    (\<lambda>t. se_bytesSent event \<noteq> 0 \<and> ts_bytesSent t \<noteq> uint64ToInt64 (se_bytesSent event),
     \<lambda>t. t\<lparr>ts_bytesSent := uint64ToInt64 (se_bytesSent event)\<rparr>),
    (\<lambda>t. se_bytesReceived event \<noteq> 0 \<and> ts_bytesReceived t \<noteq> uint64ToInt64 (se_bytesReceived event),
     \<lambda>t. t\<lparr>ts_bytesReceived := uint64ToInt64 (se_bytesReceived event)\<rparr>),
    (\<lambda>t. \<not> f64_zero (se_speedup event) \<and> \<not> f64_eq (ts_speedup t) (se_speedup event), \<lambda>t. t\<lparr>ts_speedup := se_speedup event\<rparr>),
    (\<lambda>t. se_message event \<noteq> [] \<and> ts_message t \<noteq> se_message event, \<lambda>t. t\<lparr>ts_message := se_message event\<rparr>),
    (\<lambda>t. se_rsyncExitCode event \<noteq> 0 \<and> ts_exitCode t \<noteq> se_rsyncExitCode event, \<lambda>t. t\<lparr>ts_exitCode := se_rsyncExitCode event\<rparr>),
    (\<lambda>t. se_captureMethod event \<noteq> [] \<and> capture_text (ts_captureMethod t) \<noteq> se_captureMethod event,
     \<lambda>t. t\<lparr>ts_captureMethod := capture_of (se_captureMethod event)\<rparr>),
    (\<lambda>t. se_volumeSnapshotName event \<noteq> [] \<and> ts_volumeSnapshotName t \<noteq> se_volumeSnapshotName event,
     \<lambda>t. t\<lparr>ts_volumeSnapshotName := se_volumeSnapshotName event\<rparr>),
    (\<lambda>t. se_captureTime event \<noteq> [] \<and> time_differs (ts_captureTime t) (parseMetaTime now (se_captureTime event)),
     \<lambda>t. t\<lparr>ts_captureTime := Some (parseMetaTime now (se_captureTime event))\<rparr>),
    (\<lambda>t. se_startedAt event \<noteq> [] \<and> time_differs (ts_startedAt t) (parseMetaTime now (se_startedAt event)),
     \<lambda>t. t\<lparr>ts_startedAt := Some (parseMetaTime now (se_startedAt event))\<rparr>),
    (\<lambda>t. se_completedAt event \<noteq> [] \<and> time_differs (ts_completedAt t) (parseMetaTime now (se_completedAt event)),
     \<lambda>t. t\<lparr>ts_completedAt := Some (parseMetaTime now (se_completedAt event))\<rparr>)]"

definition updateTransfer :: "gotime \<Rightarrow> transfer_status \<Rightarrow> source_event \<Rightarrow> transfer_phase \<Rightarrow> bool \<times> transfer_status" where
  "updateTransfer now transfer event phase = assign (transfer_assignments now event phase) (False, transfer)"

section \<open>Status fields of a BackupJob\<close>

definition with_status :: "(backup_job_status \<Rightarrow> bool \<times> backup_job_status) \<Rightarrow> bool \<times> backup_job \<Rightarrow> bool \<times> backup_job" where
  "with_status f r = (case r of (b, run) \<Rightarrow> case f (j_status run) of (c, s) \<Rightarrow> (c \<or> b, run\<lparr>j_status := s\<rparr>))"

definition with_condition :: "gotime \<Rightarrow> string \<Rightarrow> cond_status \<Rightarrow> string \<Rightarrow> string \<Rightarrow> bool \<times> backup_job \<Rightarrow> bool \<times> backup_job" where
  "with_condition now ty status reason message r = (case r of (b, run) \<Rightarrow>
     with_status (\<lambda>s. case setCondition now ty status reason message (om_generation (j_meta run)) (bj_conditions s) of
        (c, cs) \<Rightarrow> (c, s\<lparr>bj_conditions := cs\<rparr>)) (b, run))"

definition guarded_status :: "backup_job_status guarded list \<Rightarrow> bool \<times> backup_job \<Rightarrow> bool \<times> backup_job" where
  "guarded_status gs = with_status (\<lambda>s. assign gs (False, s))"

definition event_for_backup :: "backup_job \<Rightarrow> string \<Rightarrow> string \<Rightarrow> string \<Rightarrow> bool" where
  "event_for_backup run ns name kind =
     (ns = om_namespace (j_meta run) \<and> name = om_name (j_meta run) \<and> kind = RunKindBackup)"

text \<open>The switch on the phase of a target event.\<close>

definition target_event_switch :: "gotime \<Rightarrow> target_event \<Rightarrow> bool \<times> backup_job \<Rightarrow> bool \<times> backup_job" where
  "target_event_switch now event = (\<lambda>r.
     let message = (if te_message event = [] then ''Backup target reported failure'' else te_message event) in
     if te_phase event = ''Ready'' then
       with_condition now ConditionTargetReady CondTrue ''TargetReady'' ''RsyncMachine reported ready''
         (guarded_status [(\<lambda>s. bj_phase s = RunPreparing \<or> bj_phase s = RunUnset, \<lambda>s. s\<lparr>bj_phase := RunRunning\<rparr>)] r)
     else if te_phase event = ''Finalizing'' then
       guarded_status [(\<lambda>s. bj_phase s \<noteq> RunFinalizing, \<lambda>s. s\<lparr>bj_phase := RunFinalizing\<rparr>)] r
     else if te_phase event = ''Completed'' then
       guarded_status [(\<lambda>s. te_snapshot event \<noteq> [] \<and> bj_snapshotPath s \<noteq> te_snapshot event,
                        \<lambda>s. s\<lparr>bj_snapshotPath := te_snapshot event\<rparr>)]
       (with_condition now ConditionTransport CondTrue ''TransportComplete'' ''Target transport finalized successfully''
       (with_condition now ConditionFailed CondFalse ''RunSucceeded'' ''BackupJob completed successfully''
       (guarded_status [(\<lambda>s. bj_phase s \<noteq> RunSucceeded, \<lambda>s. s\<lparr>bj_phase := RunSucceeded, bj_completedAt := Some now\<rparr>)] r)))
     else if te_phase event = ''Failed'' then
       with_condition now ConditionTransport CondFalse ''TransportFailed'' message
       (with_condition now ConditionFailed CondTrue ''RunFailed'' message
       (guarded_status [(\<lambda>s. bj_phase s \<noteq> RunFailed, \<lambda>s. s\<lparr>bj_phase := RunFailed, bj_completedAt := Some now\<rparr>)] r))
     else r)"

definition ApplyTargetEventToBackupJob :: "gotime \<Rightarrow> backup_job \<Rightarrow> target_event \<Rightarrow> bool \<times> backup_job" where
  "ApplyTargetEventToBackupJob now run event =
    (if \<not> event_for_backup run (te_runNamespace event) (te_runName event) (te_runKind event) then (False, run)
     else target_event_switch now event
       (guarded_status [(\<lambda>s. bj_targetPhase s \<noteq> te_phase event, \<lambda>s. s\<lparr>bj_targetPhase := te_phase event\<rparr>)] (False, run)))"

definition ApplyTargetCommandAckToBackupJob :: "gotime \<Rightarrow> backup_job \<Rightarrow> command_ack_event \<Rightarrow> bool \<times> backup_job" where
  "ApplyTargetCommandAckToBackupJob now run event =
    (if \<not> event_for_backup run (ca_runNamespace event) (ca_runName event) (ca_runKind event) then (False, run)
     else let acknowledgedAt = parseMetaTime now (ca_acknowledgedAt event);
              set_command = (\<lambda>c. run\<lparr>j_status := (j_status run)\<lparr>bj_lastCommand := Some c\<rparr>\<rparr>) in
       (case bj_lastCommand (j_status run) of
          None \<Rightarrow> (True, set_command \<lparr>cs_id = ca_commandID event, cs_type = ca_commandType event,
                                     cs_sentAt = None, cs_acknowledgedAt = Some acknowledgedAt\<rparr>)
        | Some c \<Rightarrow>
            if cs_id c \<noteq> ca_commandID event \<or> cs_type c \<noteq> ca_commandType event then (False, run)
            else if time_differs (cs_acknowledgedAt c) acknowledgedAt
              then (True, set_command (c\<lparr>cs_acknowledgedAt := Some acknowledgedAt\<rparr>))
            else (False, run)))"

section \<open>Transfers\<close>

fun update_first :: "gotime \<Rightarrow> source_event \<Rightarrow> transfer_phase \<Rightarrow> string \<Rightarrow> transfer_status list \<Rightarrow> (bool \<times> transfer_status list) option" where
  "update_first now event phase sourceID [] = None"
| "update_first now event phase sourceID (t # ts) =
    (if ts_source t = sourceID then (case updateTransfer now t event phase of (c, t') \<Rightarrow> Some (c, t' # ts))
     else map_option (\<lambda>(c, ts'). (c, t # ts')) (update_first now event phase sourceID ts))"

text \<open>The transfer of the source is updated, or appended, which counts as a change.\<close>

definition update_transfers :: "gotime \<Rightarrow> source_event \<Rightarrow> transfer_status list \<Rightarrow> bool \<times> transfer_status list" where
  "update_transfers now event ts =
    (let sourceID = se_sourceNamespace event @ ''/'' @ se_sourceName event; phase = transferPhase (se_phase event) in
     case update_first now event phase sourceID ts of
       Some r \<Rightarrow> r
     | None \<Rightarrow> (True, ts @ [snd (updateTransfer now (empty_transfer sourceID) event phase)]))"

definition setTransferConditions :: "gotime \<Rightarrow> source_event \<Rightarrow> transfer_phase \<Rightarrow> bool \<times> backup_job \<Rightarrow> bool \<times> backup_job" where
  "setTransferConditions now event phase r =
    (let message = (if se_message event = [] then ''Source transfer '' @ transfer_text phase else se_message event) in
     case phase of
       TransferPreparing \<Rightarrow> with_condition now ConditionSnapshotCapture CondUnknown ''SnapshotPreparing'' message r
     | TransferRunning \<Rightarrow> with_condition now ConditionTransport CondUnknown ''TransportRunning'' message r
     | TransferSucceeded \<Rightarrow>
         with_condition now ConditionTransport CondTrue ''TransportComplete'' message
         (with_condition now ConditionSnapshotCapture CondTrue ''SnapshotReady'' ''Source capture is ready'' r)
     | TransferFailed \<Rightarrow>
         with_condition now ConditionFailed CondTrue ''RunFailed'' message
         (with_condition now ConditionTransport CondFalse ''TransportFailed'' message r)
     | TransferSkipped \<Rightarrow> with_condition now ConditionSnapshotCapture CondFalse ''SnapshotSkipped'' message r
     | _ \<Rightarrow> r)"

definition ApplySourceEventToBackupJob :: "gotime \<Rightarrow> backup_job \<Rightarrow> source_event \<Rightarrow> bool \<times> backup_job" where
  "ApplySourceEventToBackupJob now run event =
    (if \<not> event_for_backup run (se_runNamespace event) (se_runName event) (se_runKind event) then (False, run)
     else setTransferConditions now event (transferPhase (se_phase event))
       (with_status (\<lambda>s. case update_transfers now event (bj_transfers s) of (c, ts) \<Rightarrow> (c, s\<lparr>bj_transfers := ts\<rparr>)) (False, run)))"

section \<open>RsyncMachine\<close>

definition point_of_event :: "gotime \<Rightarrow> control_restore_point \<Rightarrow> restore_point" where
  "point_of_event now point = \<lparr>rp_snapshot = crp_snapshot point, rp_resolvesTo = crp_resolvesTo point,
     rp_tier = crp_tier point, rp_createdAt = Some (parseMetaTime now (crp_createdAt point)),
     rp_bytesTransferred = sint (crp_bytesTransferred point)\<rparr>"

definition condition_of_event :: "gotime \<Rightarrow> target_condition \<Rightarrow> condition" where
  "condition_of_event now c = \<lparr>c_type = tcd_type c, c_status = status_of (tcd_status c),
     c_observedGeneration = tcd_observedGeneration c,
     c_lastTransitionTime = parseMetaTime now (tcd_lastTransitionTime c),
     c_reason = tcd_reason c, c_message = tcd_message c\<rparr>"

definition ApplyTargetEventToRsyncMachine :: "gotime \<Rightarrow> rsync_machine \<Rightarrow> target_event \<Rightarrow> bool \<times> rsync_machine" where
  "ApplyTargetEventToRsyncMachine now target event =
    (if te_targetNamespace event \<noteq> om_namespace (m_meta target) \<or> te_targetName event \<noteq> om_name (m_meta target)
     then (False, target)
     else
       let st = m_status target;
           (changed, st) = (if te_restoreScanned event \<or> te_restorePoints event \<noteq> [] then
              (True, st\<lparr>mst_restorePoints := map (point_of_event now) (te_restorePoints event),
                        mst_restorePointCount := sint (of_nat (length (te_restorePoints event)) :: 32 word),
                        mst_restorePointsUpdatedAt := Some now\<rparr>)
            else (False, st));
           (changed, st) = (if te_conditions event \<noteq> [] then
              (True, st\<lparr>mst_conditions := fold (\<lambda>c cs. snd (upsertCondition now cs (condition_of_event now c)))
                          (te_conditions event) (mst_conditions st)\<rparr>)
            else (changed, st))
       in (changed, target\<lparr>m_status := st\<rparr>))"

section \<open>RestoreJob\<close>

definition restore_assignments :: "gotime \<Rightarrow> source_event \<Rightarrow> restore_job_status guarded list" where
  "restore_assignments now event =
   [(\<lambda>s. se_phase event = ''Running'' \<and> rj_phase s \<noteq> RunRunning, \<lambda>s. s\<lparr>rj_phase := RunRunning\<rparr>),
    (\<lambda>s. se_phase event = ''Succeeded'' \<and> rj_phase s \<noteq> RunSucceeded, \<lambda>s. s\<lparr>rj_phase := RunSucceeded, rj_completedAt := Some now\<rparr>),
    (\<lambda>s. se_phase event = ''Failed'' \<and> rj_phase s \<noteq> RunFailed, \<lambda>s. s\<lparr>rj_phase := RunFailed, rj_completedAt := Some now\<rparr>),
    (\<lambda>s. se_rsyncExitCode event \<noteq> 0 \<and> rj_exitCode s \<noteq> se_rsyncExitCode event, \<lambda>s. s\<lparr>rj_exitCode := se_rsyncExitCode event\<rparr>),
    (\<lambda>s. se_message event \<noteq> [] \<and> rj_message s \<noteq> se_message event, \<lambda>s. s\<lparr>rj_message := se_message event\<rparr>)]"

definition ApplySourceEventToRestoreJob :: "gotime \<Rightarrow> restore_job \<Rightarrow> source_event \<Rightarrow> bool \<times> restore_job" where
  "ApplySourceEventToRestoreJob now run event =
    (if se_runNamespace event \<noteq> om_namespace (r_meta run) \<or> se_runName event \<noteq> om_name (r_meta run)
        \<or> se_runKind event \<noteq> RunKindRestore then (False, run)
     else (case update_transfers now event (rj_transfers (r_status run)) of (c, ts) \<Rightarrow>
       (case assign (restore_assignments now event) (c, (r_status run)\<lparr>rj_transfers := ts\<rparr>) of
          (c, s) \<Rightarrow> (c, run\<lparr>r_status := s\<rparr>))))"

section \<open>Commands\<close>

definition MarkFinalizeCommandSent :: "backup_job \<Rightarrow> target_command \<Rightarrow> gotime \<Rightarrow> bool \<times> backup_job" where
  "MarkFinalizeCommandSent run command sentAt =
    (let set_command = (\<lambda>c. run\<lparr>j_status := (j_status run)\<lparr>bj_lastCommand := Some c\<rparr>\<rparr>);
         fresh = (True, set_command \<lparr>cs_id = tc_commandID command, cs_type = tc_type command, cs_sentAt = Some sentAt, cs_acknowledgedAt = None\<rparr>) in
     if tc_commandID command = [] then (False, run)
     else (case bj_lastCommand (j_status run) of
         None \<Rightarrow> fresh
       | Some c \<Rightarrow>
           if cs_id c = tc_commandID command \<and> cs_type c = tc_type command then
             (if time_differs (cs_sentAt c) sentAt then (True, set_command (c\<lparr>cs_sentAt := Some sentAt\<rparr>)) else (False, run))
           else fresh))"

section \<open>A result of false means nothing changed\<close>

definition keeps :: "('o \<Rightarrow> bool \<times> 'o) \<Rightarrow> bool" where
  "keeps f = (\<forall>x y. f x = (False, y) \<longrightarrow> y = x)"

definition quiet :: "(bool \<times> 'o \<Rightarrow> bool \<times> 'o) \<Rightarrow> bool" where
  "quiet g = (\<forall>b x y. g (b, x) = (False, y) \<longrightarrow> \<not> b \<and> y = x)"

named_theorems quiet_intros

lemma assign_quiet [quiet_intros]: "quiet (assign gs)"
proof -
  have "\<not> b \<and> y = x" if "assign gs (b, x) = (False, y)" for b x y
    using that by (induction gs "(b, x)" arbitrary: b x rule: assign.induct) (auto split: if_splits)
  then show ?thesis
    unfolding quiet_def by blast
qed

lemma quietD: "quiet g \<Longrightarrow> g (b, x) = (False, y) \<Longrightarrow> y = x"
  unfolding quiet_def by blast

lemma quiet_cases: "quiet g \<Longrightarrow> g (b, x) = (c, y) \<Longrightarrow> c \<or> (\<not> b \<and> y = x)"
  unfolding quiet_def by (cases c) auto

lemma upsert_loop_keeps: "upsert_loop cs c = (False, ds) \<Longrightarrow> ds = cs"
  by (induction cs c arbitrary: ds rule: upsert_loop.induct) (auto split: if_splits prod.splits)

lemma setCondition_keeps: "setCondition now ty st re me gen cs = (False, ds) \<Longrightarrow> ds = cs"
  unfolding setCondition_def upsertCondition_def by (rule upsert_loop_keeps)

lemma with_status_quiet [quiet_intros]: "keeps f \<Longrightarrow> quiet (with_status f)"
  by (auto simp: quiet_def keeps_def with_status_def split: prod.splits)

lemma guarded_status_quiet [quiet_intros]: "quiet (guarded_status gs)"
  unfolding guarded_status_def
  by (rule with_status_quiet) (auto simp: keeps_def intro: quietD [OF assign_quiet])

lemma with_condition_quiet [quiet_intros]: "quiet (with_condition now ty st re me)"
  unfolding quiet_def
proof (intro allI impI)
  fix b run y
  assume a: "with_condition now ty st re me (b, run) = (False, y)"
  obtain c cs where s: "setCondition now ty st re me (om_generation (j_meta run)) (bj_conditions (j_status run)) = (c, cs)"
    by (cases "setCondition now ty st re me (om_generation (j_meta run)) (bj_conditions (j_status run))")
  then have "\<not> c" "\<not> b" "y = run\<lparr>j_status := (j_status run)\<lparr>bj_conditions := cs\<rparr>\<rparr>"
    using a by (auto simp: with_condition_def with_status_def)
  moreover have "cs = bj_conditions (j_status run)"
    using s \<open>\<not> c\<close> setCondition_keeps by auto
  ultimately show "\<not> b \<and> y = run"
    by simp
qed

lemma quiet_comp [quiet_intros]:
  assumes "quiet f" "quiet g"
  shows "quiet (\<lambda>r. f (g r))"
  unfolding quiet_def
proof (intro allI impI)
  fix b x y
  assume a: "f (g (b, x)) = (False, y)"
  obtain c z where g: "g (b, x) = (c, z)"
    by (cases "g (b, x)")
  then have "\<not> c" "y = z"
    using assms(1) a unfolding quiet_def by auto
  then show "\<not> b \<and> y = x"
    using assms(2) g unfolding quiet_def by auto
qed

lemma quiet_id [quiet_intros]: "quiet (\<lambda>r. r)"
  by (simp add: quiet_def)

lemma quiet_if [quiet_intros]: "quiet f \<Longrightarrow> quiet g \<Longrightarrow> quiet (\<lambda>r. if P then f r else g r)"
  by (cases P) simp_all

lemma setTransferConditions_quiet [quiet_intros]: "quiet (setTransferConditions now event phase)"
  unfolding setTransferConditions_def Let_def by (cases phase) (simp_all add: quiet_intros)

lemma updateTransfer_keeps: "updateTransfer now t event phase = (False, t') \<Longrightarrow> t' = t"
  unfolding updateTransfer_def by (rule quietD [OF assign_quiet])

lemma update_first_keeps: "update_first now event phase sid ts = Some (False, us) \<Longrightarrow> us = ts"
  by (induction now event phase sid ts arbitrary: us rule: update_first.induct)
    (auto split: if_splits prod.splits dest: updateTransfer_keeps)

lemma update_transfers_keeps: "update_transfers now event ts = (False, us) \<Longrightarrow> us = ts"
  by (auto simp: update_transfers_def Let_def split: option.splits dest: update_first_keeps)

locale change_reporting =
  fixes handle :: "gotime \<Rightarrow> 'o \<Rightarrow> 'e \<Rightarrow> bool \<times> 'o"
  assumes silent: "handle now x e = (False, y) \<Longrightarrow> y = x"
begin

lemma unreported: "\<not> fst (handle now x e) \<Longrightarrow> snd (handle now x e) = x"
  using silent by (metis prod.collapse)

text \<open>The client writes the object back only when a change is reported.\<close>

definition write_back :: "'o \<Rightarrow> gotime \<times> 'e \<Rightarrow> 'o" where
  "write_back x te = (case handle (fst te) x (snd te) of (changed, y) \<Rightarrow> if changed then y else x)"

lemma write_back_eq: "write_back x te = snd (handle (fst te) x (snd te))"
  using silent by (auto simp: write_back_def split: prod.splits)

lemma write_back_all: "foldl write_back x tes = foldl (\<lambda>y te. snd (handle (fst te) y (snd te))) x tes"
  by (induction tes arbitrary: x) (auto simp: write_back_eq)

end

lemma target_event_switch_quiet: "quiet (target_event_switch now e)"
  unfolding target_event_switch_def Let_def
  by (intro quiet_if quiet_id with_condition_quiet guarded_status_quiet
      quiet_comp [OF with_condition_quiet] quiet_comp [OF guarded_status_quiet])

lemma target_event_silent: "ApplyTargetEventToBackupJob now x e = (False, y) \<Longrightarrow> y = x"
  using quietD [OF quiet_comp [OF target_event_switch_quiet guarded_status_quiet]]
  unfolding ApplyTargetEventToBackupJob_def by (auto split: if_splits)

lemma source_event_silent: "ApplySourceEventToBackupJob now x e = (False, y) \<Longrightarrow> y = x"
proof -
  assume a: "ApplySourceEventToBackupJob now x e = (False, y)"
  let ?f = "\<lambda>s. case update_transfers now e (bj_transfers s) of (c, ts) \<Rightarrow> (c, s\<lparr>bj_transfers := ts\<rparr>)"
  have "keeps ?f"
    unfolding keeps_def
  proof (intro allI impI)
    fix s u
    assume "?f s = (False, u)"
    then obtain ts where "update_transfers now e (bj_transfers s) = (False, ts)" "u = s\<lparr>bj_transfers := ts\<rparr>"
      by (auto split: prod.splits)
    then show "u = s"
      using update_transfers_keeps by fastforce
  qed
  then show "y = x"
    using a quietD [OF quiet_comp [OF setTransferConditions_quiet with_status_quiet], of ?f]
    unfolding ApplySourceEventToBackupJob_def by (auto split: if_splits)
qed

lemma ack_silent: "ApplyTargetCommandAckToBackupJob now x e = (False, y) \<Longrightarrow> y = x"
  by (auto simp: ApplyTargetCommandAckToBackupJob_def Let_def split: if_splits option.splits)

lemma restore_event_silent: "ApplySourceEventToRestoreJob now x e = (False, y) \<Longrightarrow> y = x"
proof -
  assume a: "ApplySourceEventToRestoreJob now x e = (False, y)"
  obtain c ts where u: "update_transfers now e (rj_transfers (r_status x)) = (c, ts)"
    by (cases "update_transfers now e (rj_transfers (r_status x))")
  let ?s = "(r_status x)\<lparr>rj_transfers := ts\<rparr>"
  obtain d s where s: "assign (restore_assignments now e) (c, ?s) = (d, s)"
    by (cases "assign (restore_assignments now e) (c, ?s)")
  have "d \<or> (\<not> c \<and> s = ?s)"
    by (rule quiet_cases [OF assign_quiet s])
  then show "y = x"
    using a u s update_transfers_keeps [of now e "rj_transfers (r_status x)" ts]
    by (auto simp: ApplySourceEventToRestoreJob_def split: if_splits)
qed

lemma machine_event_silent: "ApplyTargetEventToRsyncMachine now x e = (False, y) \<Longrightarrow> y = x"
  by (auto simp: ApplyTargetEventToRsyncMachine_def Let_def split: if_splits)

interpretation target_events: change_reporting ApplyTargetEventToBackupJob
  by unfold_locales (rule target_event_silent)

interpretation source_events: change_reporting ApplySourceEventToBackupJob
  by unfold_locales (rule source_event_silent)

interpretation command_acks: change_reporting ApplyTargetCommandAckToBackupJob
  by unfold_locales (rule ack_silent)

interpretation restore_events: change_reporting ApplySourceEventToRestoreJob
  by unfold_locales (rule restore_event_silent)

interpretation machine_events: change_reporting ApplyTargetEventToRsyncMachine
  by unfold_locales (rule machine_event_silent)

section \<open>Conditions form a map keyed by their type\<close>

definition cond_at :: "condition list \<Rightarrow> string \<Rightarrow> condition option" where
  "cond_at cs ty = find (\<lambda>c. c_type c = ty) cs"

lemma cond_at_simps [simp]:
  "cond_at [] ty = None" "cond_at (c # cs) ty = (if c_type c = ty then Some c else cond_at cs ty)"
  by (simp_all add: cond_at_def)

lemma upsert_loop_other: "ty \<noteq> c_type c \<Longrightarrow> cond_at (snd (upsert_loop cs c)) ty = cond_at cs ty"
  by (induction cs c rule: upsert_loop.induct) (auto split: prod.splits)

lemma conditionsEqual_refl [simp]: "conditionsEqual c c" "conditionsEqual (c\<lparr>c_lastTransitionTime := t\<rparr>) c"
  by (simp_all add: conditionsEqual_def)

lemma upsert_loop_at: "\<exists>x. cond_at (snd (upsert_loop cs c)) (c_type c) = Some x \<and> conditionsEqual x c"
  by (induction cs c rule: upsert_loop.induct) (auto split: prod.splits)

lemma upsert_loop_settled: "cond_at cs (c_type c) = Some x \<Longrightarrow> conditionsEqual x c \<Longrightarrow> upsert_loop cs c = (False, cs)"
  by (induction cs c rule: upsert_loop.induct) (auto split: if_splits prod.splits)

lemma upsert_loop_types:
  "map c_type (snd (upsert_loop cs c)) = map c_type cs @ (if c_type c \<in> c_type ` set cs then [] else [c_type c])"
  by (induction cs c rule: upsert_loop.induct) (auto split: prod.splits)

definition conditions_wf :: "condition list \<Rightarrow> bool" where
  "conditions_wf cs = distinct (map c_type cs)"

lemma upsertCondition_wf: "conditions_wf cs \<Longrightarrow> conditions_wf (snd (upsertCondition now cs c))"
  unfolding conditions_wf_def upsertCondition_def upsert_loop_types by auto

lemma setCondition_wf: "conditions_wf cs \<Longrightarrow> conditions_wf (snd (setCondition now ty st re me gen cs))"
  unfolding setCondition_def by (rule upsertCondition_wf)

text \<open>What the condition of a type says, apart from the time of its last transition.\<close>

definition says :: "condition list \<Rightarrow> string \<Rightarrow> cond_status \<Rightarrow> string \<Rightarrow> string \<Rightarrow> int \<Rightarrow> bool" where
  "says cs ty st re me gen = (case cond_at cs ty of None \<Rightarrow> False
     | Some c \<Rightarrow> c_status c = st \<and> c_reason c = re \<and> c_message c = me \<and> c_observedGeneration c = gen)"

lemma cond_at_type: "cond_at cs ty = Some c \<Longrightarrow> c_type c = ty"
  by (induction cs) (auto split: if_splits)

lemma setCondition_says:
  assumes "re \<noteq> []"
  shows "says (snd (setCondition now ty st re me gen cs)) ty st re me gen"
proof -
  let ?c = "\<lparr>c_type = ty, c_status = st, c_observedGeneration = gen, c_lastTransitionTime = now, c_reason = re, c_message = me\<rparr>"
  let ?d = "if c_lastTransitionTime ?c = zero_time then ?c\<lparr>c_lastTransitionTime := now\<rparr> else ?c"
  obtain x where "cond_at (snd (upsert_loop cs ?d)) (c_type ?d) = Some x" "conditionsEqual x ?d"
    using upsert_loop_at by blast
  then show ?thesis
    using assms by (auto simp: says_def setCondition_def upsertCondition_def conditionsEqual_def split: if_splits)
qed

lemma setCondition_other:
  "ty \<noteq> ty' \<Longrightarrow> cond_at (snd (setCondition now ty' st re me gen cs)) ty = cond_at cs ty"
  unfolding setCondition_def upsertCondition_def by (rule upsert_loop_other) auto

lemma setCondition_says_other:
  "ty \<noteq> ty' \<Longrightarrow> says (snd (setCondition now ty' st' re' me' gen' cs)) ty st re me gen = says cs ty st re me gen"
  by (simp add: says_def setCondition_other)

lemma setCondition_settled:
  assumes "says cs ty st re me gen" "re \<noteq> []"
  shows "setCondition now ty st re me gen cs = (False, cs)"
proof -
  obtain x where x: "cond_at cs ty = Some x" "c_status x = st" "c_reason x = re" "c_message x = me" "c_observedGeneration x = gen"
    using assms(1) by (auto simp: says_def split: option.splits)
  then show ?thesis
    using assms(2) cond_at_type [OF x(1)] unfolding setCondition_def upsertCondition_def
    by (intro upsert_loop_settled [of _ _ x]) (auto simp: conditionsEqual_def)
qed

section \<open>Steps on a BackupJob\<close>

abbreviation job_says :: "backup_job \<Rightarrow> string \<Rightarrow> cond_status \<Rightarrow> string \<Rightarrow> string \<Rightarrow> bool" where
  "job_says run ty st re me \<equiv> says (bj_conditions (j_status run)) ty st re me (om_generation (j_meta run))"

lemma with_condition_job:
  "snd (with_condition now ty st re me r) = (snd r)\<lparr>j_status := (j_status (snd r))\<lparr>bj_conditions :=
     snd (setCondition now ty st re me (om_generation (j_meta (snd r))) (bj_conditions (j_status (snd r))))\<rparr>\<rparr>"
  by (auto simp: with_condition_def with_status_def split: prod.splits)

lemma with_condition_settled:
  "job_says run ty st re me \<Longrightarrow> re \<noteq> [] \<Longrightarrow> with_condition now ty st re me (b, run) = (b, run)"
  by (simp add: with_condition_def with_status_def setCondition_settled)

lemma guarded_status_job:
  "snd (guarded_status gs r) = (snd r)\<lparr>j_status := snd (assign gs (False, j_status (snd r)))\<rparr>"
  by (auto simp: guarded_status_def with_status_def split: prod.splits)

lemma guarded_status_settled:
  "\<forall>(c, f)\<in>set gs. \<not> c (j_status run) \<Longrightarrow> guarded_status gs (b, run) = (b, run)"
proof -
  assume a: "\<forall>(c, f)\<in>set gs. \<not> c (j_status run)"
  have "assign gs (False, s) = (False, s)" if "\<forall>(c, f)\<in>set gs. \<not> c s" for s
    using that by (induction gs) auto
  then show ?thesis
    using a by (simp add: guarded_status_def with_status_def)
qed

lemma target_event_idempotent:
  "ApplyTargetEventToBackupJob now' (snd (ApplyTargetEventToBackupJob now run e)) e
     = (False, snd (ApplyTargetEventToBackupJob now run e))"
proof (cases "event_for_backup run (te_runNamespace e) (te_runName e) (te_runKind e)")
  case True
  define r where "r = guarded_status [(\<lambda>s. bj_targetPhase s \<noteq> te_phase e, \<lambda>s. s\<lparr>bj_targetPhase := te_phase e\<rparr>)] (False, run)"
  define run' where "run' = snd (target_event_switch now e r)"
  have r: "bj_targetPhase (j_status (snd r)) = te_phase e" "j_meta (snd r) = j_meta run"
    by (simp_all add: r_def guarded_status_job)
  have frame: "bj_targetPhase (j_status run') = te_phase e" "j_meta run' = j_meta run"
    unfolding run'_def target_event_switch_def Let_def using r
    by (simp_all add: with_condition_job guarded_status_job)
  have settled: "target_event_switch now' e (False, run') = (False, run')"
  proof -
    consider "te_phase e = ''Ready''" | "te_phase e = ''Finalizing''" | "te_phase e = ''Completed''" | "te_phase e = ''Failed''"
      | "te_phase e \<notin> {''Ready'', ''Finalizing'', ''Completed'', ''Failed''}"
      by blast
    then show ?thesis
      by cases (simp_all add: target_event_switch_def run'_def Let_def guarded_status_settled with_condition_settled
          setCondition_says setCondition_says_other with_condition_job guarded_status_job)
  qed
  have ev: "event_for_backup run' (te_runNamespace e) (te_runName e) (te_runKind e)"
    using True frame(2) by (simp add: event_for_backup_def)
  have "guarded_status [(\<lambda>s. bj_targetPhase s \<noteq> te_phase e, \<lambda>s. s\<lparr>bj_targetPhase := te_phase e\<rparr>)] (False, run') = (False, run')"
    using frame(1) by (intro guarded_status_settled) simp
  then show ?thesis
    using True ev settled by (simp add: ApplyTargetEventToBackupJob_def r_def run'_def)
qed (simp add: ApplyTargetEventToBackupJob_def)

section \<open>Repeated delivery\<close>

fun stable :: "'o guarded list \<Rightarrow> bool" where
  "stable [] = True"
| "stable ((c, f) # gs) = ((\<forall>x. \<not> c (f x)) \<and> (\<forall>(c', f')\<in>set gs. \<forall>x. c' x \<longrightarrow> \<not> c x \<longrightarrow> \<not> c (f' x)) \<and> stable gs)"

definition quiescent :: "'o guarded list \<Rightarrow> 'o \<Rightarrow> bool" where
  "quiescent gs x = (\<forall>(c, f)\<in>set gs. \<not> c x)"

lemma assign_quiescent: "quiescent gs x \<Longrightarrow> assign gs (b, x) = (b, x)"
  by (induction gs) (auto simp: quiescent_def)

lemma assign_keeps_guard:
  "\<forall>(c', f')\<in>set gs. \<forall>x. c' x \<longrightarrow> \<not> c x \<longrightarrow> \<not> c (f' x) \<Longrightarrow> \<not> c x \<Longrightarrow> \<not> c (snd (assign gs (b, x)))"
  by (induction gs "(b, x)" arbitrary: b x rule: assign.induct) auto

lemma assign_settles: "stable gs \<Longrightarrow> quiescent gs (snd (assign gs (b, x)))"
proof (induction gs "(b, x)" arbitrary: b x rule: assign.induct)
  case (2 c f gs b x)
  have "\<not> c (snd (assign ((c, f) # gs) (b, x)))"
    using 2(3) assign_keeps_guard [of gs c] by auto
  then show ?case
    using 2 by (auto simp: quiescent_def)
qed (simp add: quiescent_def)

lemma time_differs_Some [simp]: "time_differs (Some t) u \<longleftrightarrow> t \<noteq> u" "time_differs None u"
  by (simp_all add: time_differs_def)

lemma capture_roundtrip [simp]: "capture_text (capture_of s) = s"
  by (simp add: capture_of_def)

text \<open>Events whose time stamps are empty or parse, and whose speedup is a number.\<close>

definition clean_source_event :: "source_event \<Rightarrow> bool" where
  "clean_source_event e = (\<not> f64_nan (se_speedup e)
     \<and> (\<forall>s\<in>{se_captureTime e, se_startedAt e, se_completedAt e}. s = [] \<or> parse_rfc3339 s \<noteq> None))"

lemma transfer_assignments_stable:
  "\<not> f64_nan (se_speedup e) \<Longrightarrow> stable (transfer_assignments now e phase)"
  unfolding transfer_assignments_def by (simp add: f64_eq_def)

lemma parseMetaTime_fixed: "s \<noteq> [] \<Longrightarrow> parse_rfc3339 s \<noteq> None \<Longrightarrow> parseMetaTime now s = parseMetaTime now' s"
  by (auto simp: parseMetaTime_def)

lemma quiescent_simps: "quiescent [] x" "quiescent ((c, f) # gs) x \<longleftrightarrow> \<not> c x \<and> quiescent gs x"
  by (simp_all add: quiescent_def)

lemma quiescent_later:
  assumes "clean_source_event e" "quiescent (transfer_assignments now e phase) t"
  shows "quiescent (transfer_assignments now' e phase) t"
proof -
  have same: "(s \<noteq> [] \<and> time_differs x (parseMetaTime now' s)) = (s \<noteq> [] \<and> time_differs x (parseMetaTime now s))"
    if "s \<in> {se_captureTime e, se_startedAt e, se_completedAt e}" for s x
    using assms(1) that parseMetaTime_fixed [of s now' now] by (auto simp: clean_source_event_def)
  show ?thesis
    using assms(2) unfolding transfer_assignments_def quiescent_simps
    by (simp only: same [of "se_captureTime e"] same [of "se_startedAt e"] same [of "se_completedAt e"] insertI1 insertI2 simp_thms)
qed

lemma updateTransfer_again:
  assumes "clean_source_event e"
  shows "updateTransfer now' (snd (updateTransfer now t e phase)) e phase = (False, snd (updateTransfer now t e phase))"
  unfolding updateTransfer_def
  by (rule assign_quiescent, rule quiescent_later [OF assms], rule assign_settles, rule transfer_assignments_stable)
    (use assms in \<open>simp add: clean_source_event_def\<close>)

lemma updateTransfer_source: "ts_source (snd (updateTransfer now t e phase)) = ts_source t"
proof -
  have keep: "ts_source (snd (assign gs (b, t))) = ts_source t"
    if "\<forall>(c, f)\<in>set gs. \<forall>t. ts_source (f t) = ts_source t" for gs b and t :: transfer_status
    using that by (induction gs "(b, t)" arbitrary: b t rule: assign.induct) auto
  show ?thesis
    unfolding updateTransfer_def by (rule keep) (simp add: transfer_assignments_def)
qed

lemma update_first_again:
  assumes "clean_source_event e" "update_first now e phase sid ts = Some (c, us)"
  shows "update_first now' e phase sid us = Some (False, us)"
  using assms(2)
proof (induction ts arbitrary: c us)
  case (Cons t ts)
  show ?case
  proof (cases "ts_source t = sid")
    case True
    then have "us = snd (updateTransfer now t e phase) # ts"
      using Cons.prems by (auto split: prod.splits)
    then show ?thesis
      using True updateTransfer_again [OF assms(1)] by (simp add: updateTransfer_source)
  next
    case False
    then obtain d vs where "update_first now e phase sid ts = Some (d, vs)" "us = t # vs"
      using Cons.prems by auto
    then show ?thesis
      using Cons.IH False by simp
  qed
qed simp

lemma update_first_append:
  "update_first now e phase sid ts = None \<Longrightarrow>
   update_first now' e phase sid (ts @ [t]) = map_option (\<lambda>(c, us). (c, ts @ us)) (update_first now' e phase sid [t])"
  by (induction ts) (auto split: if_splits prod.splits option.splits)

lemma update_transfers_again:
  assumes "clean_source_event e"
  shows "update_transfers now' e (snd (update_transfers now e ts)) = (False, snd (update_transfers now e ts))"
proof -
  let ?sid = "se_sourceNamespace e @ ''/'' @ se_sourceName e" and ?ph = "transferPhase (se_phase e)"
  show ?thesis
  proof (cases "update_first now e ?ph ?sid ts")
    case None
    let ?t = "snd (updateTransfer now (empty_transfer ?sid) e ?ph)"
    have "ts_source ?t = ?sid"
      by (simp add: updateTransfer_source empty_transfer_def)
    then have "update_first now' e ?ph ?sid (ts @ [?t]) = Some (False, ts @ [?t])"
      using update_first_append [OF None, of now' ?t] updateTransfer_again [OF assms] by simp
    then show ?thesis
      using None by (simp add: update_transfers_def)
  next
    case (Some r)
    then show ?thesis
      using update_first_again [OF assms, of now ?ph ?sid ts "fst r" "snd r" now'] by (simp add: update_transfers_def)
  qed
qed

lemma setTransferConditions_job:
  "j_meta (snd (setTransferConditions now e ph r)) = j_meta (snd r)"
  "bj_transfers (j_status (snd (setTransferConditions now e ph r))) = bj_transfers (j_status (snd r))"
  by (cases ph; simp add: setTransferConditions_def Let_def with_condition_job)+

lemma setTransferConditions_again:
  "setTransferConditions now' e ph (False, snd (setTransferConditions now e ph r)) = (False, snd (setTransferConditions now e ph r))"
  by (cases ph) (simp_all add: setTransferConditions_def Let_def with_condition_settled with_condition_job
      setCondition_says setCondition_says_other)

lemma source_event_again:
  assumes "clean_source_event e"
  shows "ApplySourceEventToBackupJob now' (snd (ApplySourceEventToBackupJob now run e)) e
     = (False, snd (ApplySourceEventToBackupJob now run e))"
proof (cases "event_for_backup run (se_runNamespace e) (se_runName e) (se_runKind e)")
  case True
  let ?f = "\<lambda>now s. case update_transfers now e (bj_transfers s) of (c, ts) \<Rightarrow> (c, s\<lparr>bj_transfers := ts\<rparr>)"
  let ?r = "with_status (?f now) (False, run)"
  let ?run' = "snd (setTransferConditions now e (transferPhase (se_phase e)) ?r)"
  have r: "j_meta (snd ?r) = j_meta run" "bj_transfers (j_status (snd ?r)) = snd (update_transfers now e (bj_transfers (j_status run)))"
    by (auto simp: with_status_def split: prod.splits)
  have tr: "bj_transfers (j_status ?run') = snd (update_transfers now e (bj_transfers (j_status run)))" "j_meta ?run' = j_meta run"
    using r by (simp_all add: setTransferConditions_job)
  have "update_transfers now' e (bj_transfers (j_status ?run')) = (False, bj_transfers (j_status ?run'))"
    unfolding tr(1) by (rule update_transfers_again [OF assms])
  then have "with_status (?f now') (False, ?run') = (False, ?run')"
    by (simp add: with_status_def)
  moreover have "event_for_backup ?run' (se_runNamespace e) (se_runName e) (se_runKind e)"
    using True tr(2) by (simp add: event_for_backup_def)
  ultimately show ?thesis
    using True setTransferConditions_again [of now' e "transferPhase (se_phase e)" now ?r]
    by (simp add: ApplySourceEventToBackupJob_def)
qed (simp add: ApplySourceEventToBackupJob_def)

lemma restore_assignments_stable: "stable (restore_assignments now e)"
  unfolding restore_assignments_def by simp

lemma restore_quiescent_later: "quiescent (restore_assignments now e) s \<Longrightarrow> quiescent (restore_assignments now' e) s"
  unfolding restore_assignments_def quiescent_simps by simp

lemma restore_assign_transfers:
  "rj_transfers (snd (assign (restore_assignments now e) (b, s))) = rj_transfers s"
proof -
  have keep: "rj_transfers (snd (assign gs (b, s))) = rj_transfers s"
    if "\<forall>(c, f)\<in>set gs. \<forall>s. rj_transfers (f s) = rj_transfers s" for gs b and s :: restore_job_status
    using that by (induction gs "(b, s)" arbitrary: b s rule: assign.induct) auto
  show ?thesis
    by (rule keep) (simp add: restore_assignments_def)
qed

lemma restore_event_again:
  assumes "clean_source_event e"
  shows "ApplySourceEventToRestoreJob now' (snd (ApplySourceEventToRestoreJob now run e)) e
     = (False, snd (ApplySourceEventToRestoreJob now run e))"
proof (cases "se_runNamespace e \<noteq> om_namespace (r_meta run) \<or> se_runName e \<noteq> om_name (r_meta run) \<or> se_runKind e \<noteq> RunKindRestore")
  case False
  obtain c ts where u: "update_transfers now e (rj_transfers (r_status run)) = (c, ts)"
    by (cases "update_transfers now e (rj_transfers (r_status run))")
  let ?s0 = "(r_status run)\<lparr>rj_transfers := ts\<rparr>"
  obtain d s where s: "assign (restore_assignments now e) (c, ?s0) = (d, s)"
    by (cases "assign (restore_assignments now e) (c, ?s0)")
  have ap: "ApplySourceEventToRestoreJob now run e = (d, run\<lparr>r_status := s\<rparr>)"
    using False u s by (simp add: ApplySourceEventToRestoreJob_def)
  have tr: "rj_transfers s = ts"
    using restore_assign_transfers [of now e c ?s0] s by simp
  have "update_transfers now' e (rj_transfers s) = (False, rj_transfers s)"
    using update_transfers_again [OF assms, of now' now "rj_transfers (r_status run)"] u tr by simp
  moreover have "quiescent (restore_assignments now' e) s"
    using restore_quiescent_later assign_settles [OF restore_assignments_stable, of now e c ?s0] s by simp
  ultimately show ?thesis
    using False ap by (simp add: ApplySourceEventToRestoreJob_def assign_quiescent)
qed (simp add: ApplySourceEventToRestoreJob_def)

lemma ack_again:
  assumes "ca_acknowledgedAt e \<noteq> []" "parse_rfc3339 (ca_acknowledgedAt e) \<noteq> None"
  shows "ApplyTargetCommandAckToBackupJob now' (snd (ApplyTargetCommandAckToBackupJob now run e)) e
     = (False, snd (ApplyTargetCommandAckToBackupJob now run e))"
  using parseMetaTime_fixed [OF assms, of now' now]
  by (auto simp: ApplyTargetCommandAckToBackupJob_def Let_def event_for_backup_def split: option.splits)

locale replay_safe = change_reporting handle
  for handle :: "gotime \<Rightarrow> 'o \<Rightarrow> 'e \<Rightarrow> bool \<times> 'o" +
  fixes admitted :: "'e \<Rightarrow> bool"
  assumes again: "admitted e \<Longrightarrow> handle now' (snd (handle now x e)) e = (False, snd (handle now x e))"
begin

lemma settled: "admitted e \<Longrightarrow> foldl (\<lambda>y t. snd (handle t y e)) (snd (handle now x e)) ts = snd (handle now x e)"
  by (induction ts) (simp_all add: again)

lemma redelivered: "admitted e \<Longrightarrow> foldl write_back (write_back x (now, e)) (map (\<lambda>t. (t, e)) ts) = write_back x (now, e)"
  by (induction ts) (simp_all add: write_back_eq again)

end

interpretation target_replay: replay_safe ApplyTargetEventToBackupJob "\<lambda>_. True"
  by unfold_locales (rule target_event_idempotent)

interpretation source_replay: replay_safe ApplySourceEventToBackupJob clean_source_event
  by unfold_locales (rule source_event_again)

interpretation restore_replay: replay_safe ApplySourceEventToRestoreJob clean_source_event
  by unfold_locales (rule restore_event_again)

interpretation ack_replay: replay_safe ApplyTargetCommandAckToBackupJob
  "\<lambda>e. ca_acknowledgedAt e \<noteq> [] \<and> parse_rfc3339 (ca_acknowledgedAt e) \<noteq> None"
  by unfold_locales (use ack_again in blast)

section \<open>Properties\<close>

text \<open>Every function that applies an event returns the object unchanged when it reports no
  change, so skipping the write of the status then loses nothing.\<close>

theorem events_report_every_change:
  "(\<not> fst (ApplyTargetEventToBackupJob now run te) \<longrightarrow> snd (ApplyTargetEventToBackupJob now run te) = run)
   \<and> (\<not> fst (ApplySourceEventToBackupJob now run se) \<longrightarrow> snd (ApplySourceEventToBackupJob now run se) = run)
   \<and> (\<not> fst (ApplyTargetCommandAckToBackupJob now run ce) \<longrightarrow> snd (ApplyTargetCommandAckToBackupJob now run ce) = run)
   \<and> (\<not> fst (ApplySourceEventToRestoreJob now restore se) \<longrightarrow> snd (ApplySourceEventToRestoreJob now restore se) = restore)
   \<and> (\<not> fst (ApplyTargetEventToRsyncMachine now machine te) \<longrightarrow> snd (ApplyTargetEventToRsyncMachine now machine te) = machine)"
  using target_events.unreported source_events.unreported command_acks.unreported restore_events.unreported
    machine_events.unreported by blast

definition demo_event :: "string \<Rightarrow> string \<Rightarrow> target_event" where
  "demo_event name phase = \<lparr>te_runNamespace = ''backup'', te_runName = name, te_runKind = RunKindBackup,
     te_targetNamespace = ''backup'', te_targetName = ''nas'', te_phase = phase, te_message = [], te_snapshot = [],
     te_bytesFreed = 0, te_paths = [], te_restorePoints = [], te_restoreScanned = False, te_conditions = [],
     te_availableBytes = 0, te_capacityBytes = 0\<rparr>"

definition demo_run :: "string \<Rightarrow> run_phase \<Rightarrow> backup_job" where
  "demo_run name phase = \<lparr>j_meta = empty_meta\<lparr>om_namespace := ''backup'', om_name := name\<rparr>,
     j_spec = \<lparr>bs_machineRef = \<lparr>or_namespace = [], or_name = ''nas''\<rparr>, bs_trigger = TriggerUnset\<rparr>,
     j_status = empty_backup_status\<lparr>bj_phase := phase\<rparr>\<rparr>"

definition demo_source_event :: "string \<Rightarrow> source_event" where
  "demo_source_event phase = \<lparr>se_runNamespace = ''backup'', se_runName = ''nightly'', se_runKind = RunKindBackup,
     se_sourceNamespace = ''shop'', se_sourceName = ''web'', se_phase = phase, se_percent = 50,
     se_bytesTransferred = 0xFFFFFFFFFFFFFFFF, se_rateBytesPerSecond = 0, se_filesTransferred = 3, se_totalFiles = 7,
     se_totalFileSize = 0, se_bytesSent = 0, se_bytesReceived = 0, se_speedup = 0, se_statsComplete = True,
     se_startedAt = ''2026-01-02T03:04:05Z'', se_completedAt = [], se_rsyncExitCode = 0, se_message = [],
     se_captureMethod = ''Direct'', se_captureTime = [], se_volumeSnapshotName = []\<rparr>"

theorem events_report_every_change_witness:
  "snd (ApplyTargetEventToBackupJob 0 (demo_run ''nightly'' RunRunning) (demo_event ''other'' ''Failed'')) = demo_run ''nightly'' RunRunning"
proof -
  have "\<not> fst (ApplyTargetEventToBackupJob 0 (demo_run ''nightly'' RunRunning) (demo_event ''other'' ''Failed''))"
    by code_simp
  then show ?thesis
    using events_report_every_change [of 0 "demo_run ''nightly'' RunRunning" "demo_event ''other'' ''Failed''"] by blast
qed



lemma with_condition_wf:
  "conditions_wf (bj_conditions (j_status (snd r))) \<Longrightarrow> conditions_wf (bj_conditions (j_status (snd (with_condition now ty st re me r))))"
  by (simp add: with_condition_job setCondition_wf)

definition run_wf :: "backup_job \<Rightarrow> bool" where
  "run_wf run = (conditions_wf (bj_conditions (j_status run)) \<and> distinct (map ts_source (bj_transfers (j_status run))))"

text \<open>What no event changes.\<close>

definition same_object :: "backup_job \<Rightarrow> backup_job \<Rightarrow> bool" where
  "same_object a b = (j_meta a = j_meta b \<and> j_spec a = j_spec b)"

lemma with_condition_inv: "run_wf (snd r) \<Longrightarrow> run_wf (snd (with_condition now ty st re me r))"
  by (simp add: run_wf_def with_condition_job setCondition_wf)

lemma guarded_status_inv:
  assumes "\<forall>(c, f)\<in>set gs. \<forall>s. bj_conditions (f s) = bj_conditions s \<and> bj_transfers (f s) = bj_transfers s"
    and "run_wf (snd r)"
  shows "run_wf (snd (guarded_status gs r))"
proof -
  have "bj_conditions (snd (assign gs (b, s))) = bj_conditions s \<and> bj_transfers (snd (assign gs (b, s))) = bj_transfers s" for b s
    using assms(1) by (induction gs "(b, s)" arbitrary: b s rule: assign.induct) auto
  then show ?thesis
    using assms(2) by (simp add: run_wf_def guarded_status_job)
qed

lemma step_frame [simp]:
  "j_meta (snd (with_condition now ty st re me r)) = j_meta (snd r)" "j_spec (snd (with_condition now ty st re me r)) = j_spec (snd r)"
  "j_meta (snd (guarded_status gs r)) = j_meta (snd r)" "j_spec (snd (guarded_status gs r)) = j_spec (snd r)"
  by (simp_all add: with_condition_job guarded_status_job)

lemma same_object_trans: "same_object a b \<Longrightarrow> same_object b c \<Longrightarrow> same_object a c"
  by (simp add: same_object_def)

lemma target_event_inv:
  assumes "run_wf run"
  shows "run_wf (snd (ApplyTargetEventToBackupJob now run e))" "same_object (snd (ApplyTargetEventToBackupJob now run e)) run"
proof -
  let ?r = "guarded_status [(\<lambda>s. bj_targetPhase s \<noteq> te_phase e, \<lambda>s. s\<lparr>bj_targetPhase := te_phase e\<rparr>)] (False, run)"
  have r: "run_wf (snd ?r)"
    using assms by (intro guarded_status_inv) auto
  have "run_wf (snd (target_event_switch now e q))" if "run_wf (snd q)" for q
    unfolding target_event_switch_def Let_def using that
    by (auto intro!: with_condition_inv guarded_status_inv)
  with r have "run_wf (snd (target_event_switch now e ?r))"
    by blast
  then show "run_wf (snd (ApplyTargetEventToBackupJob now run e))"
    using assms by (simp add: ApplyTargetEventToBackupJob_def)
  have "same_object (snd (target_event_switch now e r)) (snd r)" for r
    unfolding target_event_switch_def Let_def
    by (simp add: same_object_def)
  then show "same_object (snd (ApplyTargetEventToBackupJob now run e)) run"
    by (simp add: ApplyTargetEventToBackupJob_def same_object_def)
qed

lemma setTransferConditions_inv:
  assumes "run_wf (snd r)"
  shows "run_wf (snd (setTransferConditions now e ph r)) \<and> same_object (snd (setTransferConditions now e ph r)) (snd r)"
  using assms by (cases ph) (simp_all add: setTransferConditions_def Let_def run_wf_def same_object_def with_condition_job setCondition_wf)

lemma update_first_sources:
  "update_first now e ph sid ts = Some (c, us) \<Longrightarrow> map ts_source us = map ts_source ts"
proof (induction ts arbitrary: c us)
  case (Cons t ts)
  show ?case
  proof (cases "ts_source t = sid")
    case True
    then have "us = snd (updateTransfer now t e ph) # ts"
      using Cons.prems by (auto split: prod.splits)
    then show ?thesis
      by (simp add: updateTransfer_source)
  next
    case False
    then show ?thesis
      using Cons by auto
  qed
qed simp

lemma update_first_None: "update_first now e ph sid ts = None \<longleftrightarrow> sid \<notin> ts_source ` set ts"
  by (induction ts) (auto split: prod.splits)

lemma update_transfers_sources:
  "distinct (map ts_source ts) \<Longrightarrow> distinct (map ts_source (snd (update_transfers now e ts)))"
proof -
  assume d: "distinct (map ts_source ts)"
  let ?sid = "se_sourceNamespace e @ ''/'' @ se_sourceName e" and ?ph = "transferPhase (se_phase e)"
  show ?thesis
  proof (cases "update_first now e ?ph ?sid ts")
    case None
    then have "?sid \<notin> ts_source ` set ts"
      by (simp only: update_first_None not_False_eq_True)
    then show ?thesis
      using d None by (simp add: update_transfers_def updateTransfer_source empty_transfer_def)
  next
    case (Some r)
    then show ?thesis
      using d update_first_sources [of now e ?ph ?sid ts "fst r" "snd r"] by (simp add: update_transfers_def)
  qed
qed

lemma source_event_inv:
  assumes "run_wf run"
  shows "run_wf (snd (ApplySourceEventToBackupJob now run e)) \<and> same_object (snd (ApplySourceEventToBackupJob now run e)) run"
proof -
  let ?f = "\<lambda>s. case update_transfers now e (bj_transfers s) of (c, ts) \<Rightarrow> (c, s\<lparr>bj_transfers := ts\<rparr>)"
  have "run_wf (snd (with_status ?f (False, run)))" "same_object (snd (with_status ?f (False, run))) run"
    using assms update_transfers_sources [of "bj_transfers (j_status run)" now e]
    by (auto simp: run_wf_def same_object_def with_status_def split: prod.splits)
  then show ?thesis
    using assms setTransferConditions_inv [of "with_status ?f (False, run)" now e "transferPhase (se_phase e)"]
    by (auto simp: ApplySourceEventToBackupJob_def same_object_def)
qed

lemma ack_inv:
  assumes "run_wf run"
  shows "run_wf (snd (ApplyTargetCommandAckToBackupJob now run e)) \<and> same_object (snd (ApplyTargetCommandAckToBackupJob now run e)) run"
  using assms by (auto simp: ApplyTargetCommandAckToBackupJob_def Let_def run_wf_def same_object_def split: option.splits)

lemma mark_inv:
  assumes "run_wf run"
  shows "run_wf (snd (MarkFinalizeCommandSent run c t)) \<and> same_object (snd (MarkFinalizeCommandSent run c t)) run"
  using assms by (auto simp: MarkFinalizeCommandSent_def Let_def run_wf_def same_object_def split: option.splits)

text \<open>The changes of a run, as steps.\<close>

inductive run_step :: "backup_job \<Rightarrow> backup_job \<Rightarrow> bool" where
  target: "run_step run (snd (ApplyTargetEventToBackupJob now run te))"
| source: "run_step run (snd (ApplySourceEventToBackupJob now run se))"
| ack: "run_step run (snd (ApplyTargetCommandAckToBackupJob now run ae))"
| sent: "run_step run (snd (MarkFinalizeCommandSent run command sentAt))"

text \<open>C35. Whatever sequence of events and sent commands a run goes through, it keeps its name,
  its generation and its specification, at most one condition of each type, and at most one
  transfer per source.\<close>

theorem run_steps_keep_invariant:
  assumes "run_step\<^sup>*\<^sup>* run run'" and "run_wf run"
  shows "run_wf run' \<and> same_object run' run"
  using assms
proof (induction rule: rtranclp_induct)
  case (step y z)
  then have y: "run_wf y" "same_object y run"
    by blast+
  from step(2) have "run_wf z \<and> same_object z y"
    by cases (simp_all add: target_event_inv source_event_inv ack_inv mark_inv y)
  then show ?case
    using y same_object_trans by blast
qed (simp add: same_object_def)

theorem run_steps_keep_invariant_witness:
  "run_wf (snd (ApplySourceEventToBackupJob 0 (demo_run ''nightly'' RunRunning) (demo_source_event ''Failed'')))"
proof -
  have "run_step\<^sup>*\<^sup>* (demo_run ''nightly'' RunRunning) (snd (ApplySourceEventToBackupJob 0 (demo_run ''nightly'' RunRunning) (demo_source_event ''Failed'')))"
    by (rule r_into_rtranclp) (rule run_step.source)
  moreover have "run_wf (demo_run ''nightly'' RunRunning)"
    by code_simp
  ultimately show ?thesis
    using run_steps_keep_invariant by blast
qed

text \<open>Counters of the data plane are unsigned, those of the status are signed: the
  conversion saturates at the largest signed value and is exact below it.\<close>

theorem uint64ToInt64_saturates:
  "sint (uint64ToInt64 v) = min (uint v) (2 ^ 63 - 1) \<and> 0 \<le> sint (uint64ToInt64 v)"
proof -
  have small: "sint w = uint w" if "uint w < 2 ^ 63" for w :: "64 word"
    using that by (simp add: sint_uint signed_take_bit_eq_if_positive bit_iff_odd div_pos_pos_trivial take_bit_int_eq_self)
  show ?thesis
  proof (cases "v > 0x7FFFFFFFFFFFFFFF")
    case True
    have "uint (0x7FFFFFFFFFFFFFFF :: 64 word) = 2 ^ 63 - 1"
      by simp
    moreover have "uint v > 2 ^ 63 - 1"
      using True by (simp add: word_less_def)
    ultimately show ?thesis
      using True small [of "0x7FFFFFFFFFFFFFFF"] by (simp add: uint64ToInt64_def)
  next
    case False
    then have "uint v \<le> 2 ^ 63 - 1"
      by (simp add: word_less_def)
    then show ?thesis
      using False small [of v] by (simp add: uint64ToInt64_def)
  qed
qed

text \<open>A finished run does not stay finished: a late event of the target sends a run that
  succeeded back to finalizing, and a run that failed to succeeded.\<close>

theorem finished_run_is_reopened:
  "bj_phase (j_status (snd (ApplyTargetEventToBackupJob 0 (demo_run ''nightly'' RunSucceeded) (demo_event ''nightly'' ''Finalizing'')))) = RunFinalizing
   \<and> bj_phase (j_status (snd (ApplyTargetEventToBackupJob 0 (demo_run ''nightly'' RunFailed) (demo_event ''nightly'' ''Completed'')))) = RunSucceeded"
  by code_simp

end
