(* ===== verification/Event_Hub.thy ===== *)
theory Event_Hub
  imports Control_Types
begin

text \<open>
  control/eventhub.go: the hub that numbers the events of the data plane, keeps
  the last ones of every run for replay, and hands them to subscribers. What runs
  under the mutex is one function here; what runs outside it (the sends of
  publish and the goroutine of a subscription) are separate steps, so that
  concurrent publishers interleave as they do in the program.
\<close>

section \<open>State\<close>

record control_event =
  ce_sequence :: "64 word"
  ce_publishedAt :: gotime
  ce_kind :: string
  ce_key :: run_key
  ce_target :: "target_event option"
  ce_commandAck :: "command_ack_event option"
  ce_source :: "source_event option"

abbreviation "EventKindTarget \<equiv> ''target''"
abbreviation "EventKindTargetCommandAck \<equiv> ''target_command_ack''"
abbreviation "EventKindSource \<equiv> ''source''"

text \<open>A subscriber is a pointer; a number stands for it.\<close>

type_synonym subscriber = nat

record run_events =
  re_replay :: "control_event list"
  re_subscribers :: "subscriber list"

record event_hub =
  eh_replayLimit :: int
  eh_subscriberBuffer :: int
  eh_nextSequence :: "64 word"
  eh_runs :: "(run_key \<times> run_events) list"
  eh_allSubscribers :: "subscriber list"

definition NewEventHubWithBuffer :: "int \<Rightarrow> int \<Rightarrow> event_hub" where
  "NewEventHubWithBuffer replayLimit subscriberBuffer =
     \<lparr>eh_replayLimit = (if replayLimit < 0 then 0 else replayLimit),
      eh_subscriberBuffer = (if subscriberBuffer < 1 then 1 else subscriberBuffer),
      eh_nextSequence = 0, eh_runs = [], eh_allSubscribers = []\<rparr>"

definition NewEventHub :: "int \<Rightarrow> event_hub" where
  "NewEventHub replayLimit = NewEventHubWithBuffer replayLimit 64"

section \<open>Copies\<close>

definition cloneTargetEvent :: "target_event \<Rightarrow> target_event" where
  "cloneTargetEvent event = event\<lparr>te_paths := [] @ te_paths event, te_restorePoints := [] @ te_restorePoints event,
     te_conditions := [] @ te_conditions event\<rparr>"

definition cloneTargetCommandAckEvent :: "command_ack_event \<Rightarrow> command_ack_event" where
  "cloneTargetCommandAckEvent event = event"

definition cloneSourceEvent :: "source_event \<Rightarrow> source_event" where
  "cloneSourceEvent event = event"

definition cloneEvent :: "control_event \<Rightarrow> control_event" where
  "cloneEvent event = event\<lparr>ce_target := map_option cloneTargetEvent (ce_target event),
     ce_commandAck := map_option cloneTargetCommandAckEvent (ce_commandAck event),
     ce_source := map_option cloneSourceEvent (ce_source event)\<rparr>"

definition cloneEvents :: "control_event list \<Rightarrow> control_event list" where
  "cloneEvents events = map cloneEvent events"

text \<open>The index of the first event after the given sequence number, or the length.\<close>

fun first_after :: "64 word \<Rightarrow> control_event list \<Rightarrow> nat" where
  "first_after s [] = 0"
| "first_after s (e # es) = (if ce_sequence e > s then 0 else Suc (first_after s es))"

definition cloneEventsAfter :: "control_event list \<Rightarrow> 64 word \<Rightarrow> control_event list" where
  "cloneEventsAfter events afterSequence =
    (if afterSequence = 0 then cloneEvents events
     else cloneEvents (drop (first_after afterSequence events) events))"

section \<open>Operations under the lock\<close>

definition empty_run :: run_events where
  "empty_run = \<lparr>re_replay = [], re_subscribers = []\<rparr>"

definition run_of :: "event_hub \<Rightarrow> run_key \<Rightarrow> run_events" where
  "run_of h key = (case map_of (eh_runs h) key of None \<Rightarrow> empty_run | Some r \<Rightarrow> r)"

definition runLocked :: "event_hub \<Rightarrow> run_key \<Rightarrow> run_events \<times> event_hub" where
  "runLocked h key = (run_of h key, h\<lparr>eh_runs := alist_put key (run_of h key) (eh_runs h)\<rparr>)"

definition check_event :: "k8s_validation \<Rightarrow> control_event \<Rightarrow> unit result" where
  "check_event kv event =
    (if ce_kind event \<notin> {EventKindTarget, EventKindTargetCommandAck, EventKindSource}
     then Inl (errorf ''unsupported event kind %q'' [ce_kind event])
     else check_then (RunKey_Validate kv (ce_key event))
     (if ce_kind event = EventKindTarget \<and> ce_target event = None then Inl (errorf ''target event payload is required'' [])
      else if ce_kind event = EventKindTargetCommandAck \<and> ce_commandAck event = None
        then Inl (errorf ''target command acknowledgement payload is required'' [])
      else if ce_kind event = EventKindSource \<and> ce_source event = None then Inl (errorf ''source event payload is required'' [])
      else Inr ()))"

text \<open>The replay log after an append: cut at the front to the limit, untouched when there is none.\<close>

definition append_replay :: "int \<Rightarrow> control_event list \<Rightarrow> control_event \<Rightarrow> control_event list" where
  "append_replay limit replay event =
    (if limit > 0 then
       let replay = replay @ [event]; overflow = int (length replay) - limit
       in if overflow > 0 then drop (nat overflow) replay else replay
     else replay)"

definition publish_locked :: "gotime \<Rightarrow> control_event \<Rightarrow> event_hub \<Rightarrow> control_event \<times> subscriber list \<times> event_hub" where
  "publish_locked now event h =
    (let next = eh_nextSequence h + 1;
         event = cloneEvent (event\<lparr>ce_sequence := next, ce_publishedAt := now\<rparr>);
         (run, h) = runLocked (h\<lparr>eh_nextSequence := next\<rparr>) (ce_key event);
         run = run\<lparr>re_replay := append_replay (eh_replayLimit h) (re_replay run) event\<rparr>
     in (event, re_subscribers run @ eh_allSubscribers h,
         h\<lparr>eh_runs := alist_put (ce_key event) run (eh_runs h)\<rparr>))"

definition SnapshotAfter :: "k8s_validation \<Rightarrow> event_hub \<Rightarrow> run_key \<Rightarrow> 64 word \<Rightarrow> control_event list result" where
  "SnapshotAfter kv h key afterSequence =
    check_then (RunKey_Validate kv key)
    (Inr (case map_of (eh_runs h) key of
        None \<Rightarrow> []
      | Some run \<Rightarrow> if re_replay run = [] then [] else cloneEventsAfter (re_replay run) afterSequence))"

definition Snapshot :: "k8s_validation \<Rightarrow> event_hub \<Rightarrow> run_key \<Rightarrow> control_event list result" where
  "Snapshot kv h key = SnapshotAfter kv h key 0"

text \<open>The locked parts of SubscribeAfter and SubscribeAllAfter register the subscriber and
  copy the replay log; the copies of all runs are sorted by sequence number.\<close>

definition SubscribeAfter :: "k8s_validation \<Rightarrow> event_hub \<Rightarrow> run_key \<Rightarrow> 64 word \<Rightarrow> subscriber
    \<Rightarrow> (control_event list \<times> event_hub) result" where
  "SubscribeAfter kv h key afterSequence sub =
    check_then (RunKey_Validate kv key)
    (case runLocked h key of (run, h) \<Rightarrow>
       Inr (cloneEventsAfter (re_replay run) afterSequence,
            h\<lparr>eh_runs := alist_put key (run\<lparr>re_subscribers := sub # re_subscribers run\<rparr>) (eh_runs h)\<rparr>))"

definition SubscribeAllAfter :: "event_hub \<Rightarrow> 64 word \<Rightarrow> subscriber \<Rightarrow> control_event list \<times> event_hub" where
  "SubscribeAllAfter h afterSequence sub =
    (sort_key ce_sequence (concat (map (\<lambda>(k, run). cloneEventsAfter (re_replay run) afterSequence) (eh_runs h))),
     h\<lparr>eh_allSubscribers := sub # eh_allSubscribers h\<rparr>)"

definition unsubscribe :: "event_hub \<Rightarrow> run_key \<Rightarrow> subscriber \<Rightarrow> event_hub" where
  "unsubscribe h key sub = (case map_of (eh_runs h) key of
      None \<Rightarrow> h
    | Some run \<Rightarrow>
        let run = run\<lparr>re_subscribers := filter (\<lambda>s. s \<noteq> sub) (re_subscribers run)\<rparr> in
        if re_subscribers run = [] \<and> re_replay run = [] then h\<lparr>eh_runs := alist_del key (eh_runs h)\<rparr>
        else h\<lparr>eh_runs := alist_put key run (eh_runs h)\<rparr>)"

definition unsubscribeAll :: "event_hub \<Rightarrow> subscriber \<Rightarrow> event_hub" where
  "unsubscribeAll h sub = h\<lparr>eh_allSubscribers := filter (\<lambda>s. s \<noteq> sub) (eh_allSubscribers h)\<rparr>"

section \<open>Delivery\<close>

text \<open>The loop of deliverLatest on a channel of the given capacity: while the channel is full its
  oldest event is dropped. On a channel without a buffer the loop may never end: \<open>None\<close>.\<close>

fun deliverLatest :: "nat \<Rightarrow> control_event list \<Rightarrow> control_event \<Rightarrow> control_event list option" where
  "deliverLatest cap [] event = (if 0 < cap then Some [event] else None)"
| "deliverLatest cap (x # ch) event =
    (if length (x # ch) < cap then Some ((x # ch) @ [event]) else deliverLatest cap ch event)"

text \<open>A subscription: the replayed events its goroutine has not passed on, the channel of the
  subscriber, and what was passed on to the reader.\<close>

record subscription =
  su_replay :: "control_event list"
  su_ch :: "control_event list"
  su_out :: "control_event list"

record hub_system =
  hs_hub :: event_hub
  hs_subs :: "(subscriber \<times> subscription) list"
  hs_inflight :: "(control_event \<times> subscriber list) list"

text \<open>
  The steps of the system. A publisher is in flight between its critical section
  and its last send; the sends of one publisher happen in order, those of
  different publishers interleave. The map iteration fixes the order of the
  subscribers arbitrarily.
\<close>

inductive hub_step :: "k8s_validation \<Rightarrow> hub_system \<Rightarrow> hub_system \<Rightarrow> bool" for kv where
  publish: "check_event kv event = Inr () \<Longrightarrow> publish_locked now event (hs_hub s) = (event', subs, h) \<Longrightarrow>
     mset order = mset subs \<Longrightarrow>
     hub_step kv s (s\<lparr>hs_hub := h, hs_inflight := hs_inflight s @ [(event', order)]\<rparr>)"
| deliver: "hs_inflight s = before @ (event, sub # subs) # after \<Longrightarrow> map_of (hs_subs s) sub = Some su \<Longrightarrow>
     deliverLatest (nat (eh_subscriberBuffer (hs_hub s))) (su_ch su) event = Some ch \<Longrightarrow>
     hub_step kv s (s\<lparr>hs_inflight := before @ (event, subs) # after, hs_subs := alist_put sub (su\<lparr>su_ch := ch\<rparr>) (hs_subs s)\<rparr>)"
| finished: "hs_inflight s = before @ (event, []) # after \<Longrightarrow>
     hub_step kv s (s\<lparr>hs_inflight := before @ after\<rparr>)"
| subscribe: "map_of (hs_subs s) sub = None \<Longrightarrow> SubscribeAfter kv (hs_hub s) key n sub = Inr (replay, h) \<Longrightarrow>
     hub_step kv s (s\<lparr>hs_hub := h, hs_subs := (sub, \<lparr>su_replay = replay, su_ch = [], su_out = []\<rparr>) # hs_subs s\<rparr>)"
| subscribe_all: "map_of (hs_subs s) sub = None \<Longrightarrow> SubscribeAllAfter (hs_hub s) n sub = (replay, h) \<Longrightarrow>
     hub_step kv s (s\<lparr>hs_hub := h, hs_subs := (sub, \<lparr>su_replay = replay, su_ch = [], su_out = []\<rparr>) # hs_subs s\<rparr>)"
| replayed: "map_of (hs_subs s) sub = Some su \<Longrightarrow> su_replay su = e # es \<Longrightarrow>
     hub_step kv s (s\<lparr>hs_subs := alist_put sub (su\<lparr>su_replay := es, su_out := su_out su @ [e]\<rparr>) (hs_subs s)\<rparr>)"
| forwarded: "map_of (hs_subs s) sub = Some su \<Longrightarrow> su_replay su = [] \<Longrightarrow> su_ch su = e # es \<Longrightarrow>
     hub_step kv s (s\<lparr>hs_subs := alist_put sub (su\<lparr>su_ch := es, su_out := su_out su @ [e]\<rparr>) (hs_subs s)\<rparr>)"
| left: "hub_step kv s (s\<lparr>hs_hub := unsubscribe (hs_hub s) key sub\<rparr>)"
| left_all: "hub_step kv s (s\<lparr>hs_hub := unsubscribeAll (hs_hub s) sub\<rparr>)"

section \<open>Publishing without interference\<close>

fun deliver_all :: "control_event \<Rightarrow> subscriber list \<Rightarrow> hub_system \<Rightarrow> hub_system option" where
  "deliver_all event [] s = Some s"
| "deliver_all event (sub # subs) s =
    (case map_of (hs_subs s) sub of
       None \<Rightarrow> deliver_all event subs s
     | Some su \<Rightarrow> (case deliverLatest (nat (eh_subscriberBuffer (hs_hub s))) (su_ch su) event of
         None \<Rightarrow> None
       | Some ch \<Rightarrow> deliver_all event subs (s\<lparr>hs_subs := alist_put sub (su\<lparr>su_ch := ch\<rparr>) (hs_subs s)\<rparr>)))"

definition publish :: "k8s_validation \<Rightarrow> gotime \<Rightarrow> control_event \<Rightarrow> hub_system \<Rightarrow> (control_event result \<times> hub_system) option" where
  "publish kv now event s = (case check_event kv event of
      Inl e \<Rightarrow> Some (Inl e, s)
    | Inr _ \<Rightarrow> (case publish_locked now event (hs_hub s) of (event', subs, h) \<Rightarrow>
        map_option (\<lambda>s. (Inr (cloneEvent event'), s)) (deliver_all event' subs (s\<lparr>hs_hub := h\<rparr>))))"

text \<open>The argument that the three Publish methods hand to publish.\<close>

definition target_control_event :: "target_event \<Rightarrow> control_event" where
  "target_control_event event = \<lparr>ce_sequence = 0, ce_publishedAt = zero_time, ce_kind = EventKindTarget, ce_key = target_Key event,
     ce_target = Some (cloneTargetEvent event), ce_commandAck = None, ce_source = None\<rparr>"

definition PublishTarget :: "k8s_validation \<Rightarrow> gotime \<Rightarrow> target_event \<Rightarrow> hub_system \<Rightarrow> (control_event result \<times> hub_system) option" where
  "PublishTarget kv now event = publish kv now (target_control_event event)"

definition PublishTargetCommandAck :: "k8s_validation \<Rightarrow> gotime \<Rightarrow> command_ack_event \<Rightarrow> hub_system \<Rightarrow> (control_event result \<times> hub_system) option" where
  "PublishTargetCommandAck kv now event = publish kv now
     \<lparr>ce_sequence = 0, ce_publishedAt = zero_time, ce_kind = EventKindTargetCommandAck, ce_key = ack_Key event,
      ce_target = None, ce_commandAck = Some (cloneTargetCommandAckEvent event), ce_source = None\<rparr>"

definition PublishSource :: "k8s_validation \<Rightarrow> gotime \<Rightarrow> source_event \<Rightarrow> hub_system \<Rightarrow> (control_event result \<times> hub_system) option" where
  "PublishSource kv now event = publish kv now
     \<lparr>ce_sequence = 0, ce_publishedAt = zero_time, ce_kind = EventKindSource, ce_key = source_Key event,
      ce_target = None, ce_commandAck = None, ce_source = Some (cloneSourceEvent event)\<rparr>"

section \<open>Basic facts\<close>

lemma clone_ids [simp]:
  "cloneTargetEvent e = e" "cloneTargetCommandAckEvent a = a" "cloneSourceEvent c = c" "cloneEvent ce = ce" "cloneEvents es = es"
proof -
  show t: "cloneTargetEvent e = e" for e
    by (simp add: cloneTargetEvent_def)
  show "cloneTargetCommandAckEvent a = a" "cloneSourceEvent c = c" for a c
    by (simp_all add: cloneTargetCommandAckEvent_def cloneSourceEvent_def)
  then show ce: "cloneEvent ce = ce" for ce
    using t by (simp add: cloneEvent_def option.map_ident_strong)
  show "cloneEvents es = es"
    unfolding cloneEvents_def by (rule map_idI) (rule ce)
qed

lemma run_of_put: "run_of (h\<lparr>eh_runs := alist_put k r (eh_runs h)\<rparr>) k' = (if k' = k then r else run_of h k')"
  by (simp add: run_of_def)

lemma run_of_next [simp]: "run_of (h\<lparr>eh_nextSequence := n\<rparr>) k = run_of h k"
  by (simp add: run_of_def)

lemma publish_locked_eq:
  assumes "publish_locked now event h = (event', subs, h')"
  shows "event' = event\<lparr>ce_sequence := eh_nextSequence h + 1, ce_publishedAt := now\<rparr>"
    "subs = re_subscribers (run_of h (ce_key event)) @ eh_allSubscribers h"
    "eh_nextSequence h' = eh_nextSequence h + 1" "eh_replayLimit h' = eh_replayLimit h"
    "eh_subscriberBuffer h' = eh_subscriberBuffer h" "eh_allSubscribers h' = eh_allSubscribers h"
    "run_of h' k = (if k = ce_key event then (run_of h k)\<lparr>re_replay := append_replay (eh_replayLimit h) (re_replay (run_of h k)) event'\<rparr>
       else run_of h k)"
  using assms by (auto simp: publish_locked_def runLocked_def Let_def run_of_put run_of_def)

lemma deliverLatest_Some:
  assumes "0 < cap"
  shows "deliverLatest cap ch event = Some (drop (Suc (length ch) - cap) ch @ [event])"
proof (induction ch)
  case (Cons x ch)
  show ?case
  proof (cases "length (x # ch) < cap")
    case False
    then have "Suc (length (x # ch)) - cap = Suc (Suc (length ch) - cap)"
      by simp
    then show ?thesis
      using False Cons by simp
  qed simp
qed (use assms in simp)

text \<open>The last entries of a log.\<close>

definition newest :: "int \<Rightarrow> 'e list \<Rightarrow> 'e list" where
  "newest limit xs = drop (length xs - nat limit) xs"

lemma newest_append: "newest limit (newest limit xs @ ys) = newest limit (xs @ ys)"
proof -
  have "newest limit zs = rev (take (nat limit) (rev zs))" for zs :: "'a list"
    by (simp add: newest_def rev_take)
  then show ?thesis
    by (simp add: take_append min_def)
qed

lemma append_replay_newest: "(limit \<le> 0 \<longrightarrow> replay = []) \<Longrightarrow> append_replay limit replay event = newest limit (replay @ [event])"
  by (auto simp: append_replay_def newest_def Let_def nat_diff_distrib nat_add_distrib)

section \<open>The log of a run\<close>

locale keyed_log =
  fixes inv :: "'s \<Rightarrow> bool"
    and log :: "'s \<Rightarrow> 'k \<Rightarrow> 'e list"
    and add :: "'i \<Rightarrow> 's \<Rightarrow> 's"
    and key :: "'i \<Rightarrow> 'k"
    and entry :: "'i \<Rightarrow> 's \<Rightarrow> 'e"
    and keep :: "'s \<Rightarrow> 'e list \<Rightarrow> 'e list"
  assumes inv_add: "inv s \<Longrightarrow> inv (add i s)"
    and log_add: "inv s \<Longrightarrow> log (add i s) (key i) = keep s (log s (key i) @ [entry i s])"
    and log_other: "inv s \<Longrightarrow> k \<noteq> key i \<Longrightarrow> log (add i s) k = log s k"
    and keep_add: "keep (add i s) = keep s"
    and keep_keep: "keep s (keep s xs @ ys) = keep s (xs @ ys)"
    and log_kept: "inv s \<Longrightarrow> keep s (log s k) = log s k"
begin

fun entries :: "'i list \<Rightarrow> 's \<Rightarrow> ('k \<times> 'e) list" where
  "entries [] s = []"
| "entries (i # is) s = (key i, entry i s) # entries is (add i s)"

lemma log_all: "inv s \<Longrightarrow> log (fold add is s) k = keep s (log s k @ map snd (filter (\<lambda>p. fst p = k) (entries is s)))"
proof (induction "is" arbitrary: s)
  case (Cons i "is")
  note IH = Cons.IH [OF inv_add [OF Cons.prems], of i]
  show ?case
  proof (cases "k = key i")
    case True
    then show ?thesis
      using IH Cons.prems by (simp add: keep_add log_add keep_keep)
  next
    case False
    then show ?thesis
      using IH Cons.prems by (simp add: keep_add log_other)
  qed
qed (simp add: log_kept)

lemma inv_all: "inv s \<Longrightarrow> inv (fold add is s)"
  by (induction "is" arbitrary: s) (auto intro: inv_add)

end

definition hub_inv :: "event_hub \<Rightarrow> bool" where
  "hub_inv h = (\<forall>k. int (length (re_replay (run_of h k))) \<le> max 0 (eh_replayLimit h))"

definition hub_add :: "gotime \<times> control_event \<Rightarrow> event_hub \<Rightarrow> event_hub" where
  "hub_add i h = snd (snd (publish_locked (fst i) (snd i) h))"

definition hub_entry :: "gotime \<times> control_event \<Rightarrow> event_hub \<Rightarrow> control_event" where
  "hub_entry i h = (snd i)\<lparr>ce_sequence := eh_nextSequence h + 1, ce_publishedAt := fst i\<rparr>"

lemma hub_add_facts:
  "eh_nextSequence (hub_add i h) = eh_nextSequence h + 1" "eh_replayLimit (hub_add i h) = eh_replayLimit h"
  "run_of (hub_add i h) k = (if k = ce_key (snd i) then (run_of h k)\<lparr>re_replay := append_replay (eh_replayLimit h) (re_replay (run_of h k)) (hub_entry i h)\<rparr>
     else run_of h k)"
proof -
  obtain e subs h' where p: "publish_locked (fst i) (snd i) h = (e, subs, h')"
    by (cases "publish_locked (fst i) (snd i) h")
  note f = publish_locked_eq [OF p]
  show "eh_nextSequence (hub_add i h) = eh_nextSequence h + 1" "eh_replayLimit (hub_add i h) = eh_replayLimit h"
    using f(3,4) p by (simp_all add: hub_add_def)
  show "run_of (hub_add i h) k = (if k = ce_key (snd i) then (run_of h k)\<lparr>re_replay := append_replay (eh_replayLimit h) (re_replay (run_of h k)) (hub_entry i h)\<rparr>
     else run_of h k)"
    using f(7) [of k] f(1) p by (simp add: hub_add_def hub_entry_def)
qed

lemma newest_length: "int (length (newest limit xs)) \<le> max 0 limit"
  by (simp add: newest_def)

lemma newest_short: "int (length xs) \<le> max 0 limit \<Longrightarrow> newest limit xs = xs"
  by (auto simp: newest_def)

lemma hub_inv_replay: "hub_inv h \<Longrightarrow> append_replay (eh_replayLimit h) (re_replay (run_of h k)) e = newest (eh_replayLimit h) (re_replay (run_of h k) @ [e])"
proof -
  assume a: "hub_inv h"
  have "eh_replayLimit h \<le> 0 \<longrightarrow> re_replay (run_of h k) = []"
  proof
    assume "eh_replayLimit h \<le> 0"
    then have "int (length (re_replay (run_of h k))) \<le> 0"
      using a unfolding hub_inv_def by (metis max.absorb1)
    then show "re_replay (run_of h k) = []"
      by simp
  qed
  then show ?thesis
    by (rule append_replay_newest)
qed

interpretation hub_log: keyed_log hub_inv "\<lambda>h k. re_replay (run_of h k)" hub_add "\<lambda>i. ce_key (snd i)" hub_entry
  "\<lambda>h. newest (eh_replayLimit h)"
proof unfold_locales
  fix h :: event_hub and i :: "gotime \<times> control_event"
  assume a: "hub_inv h"
  show "hub_inv (hub_add i h)"
    unfolding hub_inv_def
  proof
    fix k
    show "int (length (re_replay (run_of (hub_add i h) k))) \<le> max 0 (eh_replayLimit (hub_add i h))"
      using a by (simp add: hub_add_facts hub_inv_replay [OF a] newest_length) (simp add: hub_inv_def)
  qed
next
  fix h :: event_hub and i :: "gotime \<times> control_event"
  assume "hub_inv h"
  then show "re_replay (run_of (hub_add i h) (ce_key (snd i))) = newest (eh_replayLimit h) (re_replay (run_of h (ce_key (snd i))) @ [hub_entry i h])"
    by (simp add: hub_add_facts hub_inv_replay)
next
  fix h :: event_hub and k
  assume "hub_inv h"
  then show "newest (eh_replayLimit h) (re_replay (run_of h k)) = re_replay (run_of h k)"
    by (intro newest_short) (simp add: hub_inv_def)
qed (simp_all add: hub_add_facts newest_append)

section \<open>Sequence numbers\<close>

text \<open>The events as the hub numbers them.\<close>

fun numbered :: "64 word \<Rightarrow> (gotime \<times> control_event) list \<Rightarrow> control_event list" where
  "numbered n [] = []"
| "numbered n ((now, e) # es) = e\<lparr>ce_sequence := n + 1, ce_publishedAt := now\<rparr> # numbered (n + 1) es"

lemma entries_numbered: "hub_log.entries is h = map (\<lambda>e. (ce_key e, e)) (numbered (eh_nextSequence h) is)"
proof (induction "is" arbitrary: h)
  case (Cons i "is")
  then show ?case
    using hub_entry_def [of i h] by (cases i) (simp add: hub_add_facts)
qed simp

lemma numbered_sequences: "map ce_sequence (numbered n is) = map (\<lambda>i. n + of_nat (Suc i)) [0..<length is]"
proof (induction n "is" rule: numbered.induct)
  case (2 n now e es)
  have "map (\<lambda>i. n + of_nat (Suc i)) [0..<Suc (length es)] = (n + 1) # map (\<lambda>i. n + of_nat (Suc (Suc i))) [0..<length es]"
    unfolding upt_conv_Cons [OF zero_less_Suc] list.map by (simp del: upt_Suc flip: map_Suc_upt add: comp_def)
  then show ?case
    using 2 by (simp add: algebra_simps)
qed simp

lemma of_nat_less_64: "a < b \<Longrightarrow> b < 2 ^ 64 \<Longrightarrow> (of_nat a :: 64 word) < of_nat b"
  by (simp add: word_less_nat_alt unat_of_nat)

lemma sequences_increase:
  assumes "length is < 2 ^ 64"
  shows "sorted_wrt (\<lambda>a b. ce_sequence a < ce_sequence b) (numbered 0 is)"
    "e \<in> set (numbered 0 is) \<Longrightarrow> 0 < ce_sequence e"
proof -
  have "sorted_wrt (<) (map ce_sequence (numbered 0 is))"
    unfolding numbered_sequences sorted_wrt_map
    using assms by (auto simp: sorted_wrt_iff_nth_less simp del: of_nat_Suc intro!: of_nat_less_64)
  then show "sorted_wrt (\<lambda>a b. ce_sequence a < ce_sequence b) (numbered 0 is)"
    by (simp add: sorted_wrt_map)
  assume "e \<in> set (numbered 0 is)"
  then have "ce_sequence e \<in> set (map ce_sequence (numbered 0 is))"
    by simp
  then obtain i where "i < length is" "ce_sequence e = of_nat (Suc i)"
    unfolding numbered_sequences by (auto simp del: of_nat_Suc)
  then show "0 < ce_sequence e"
    using assms of_nat_less_64 [of 0 "Suc i"] by (simp del: of_nat_Suc)
qed

lemma drop_first_after:
  "sorted_wrt (\<lambda>a b. ce_sequence a < ce_sequence b) es \<Longrightarrow> drop (first_after n es) es = filter (\<lambda>e. n < ce_sequence e) es"
proof (induction es)
  case (Cons e es)
  show ?case
  proof (cases "n < ce_sequence e")
    case True
    then have "filter (\<lambda>e. n < ce_sequence e) es = es"
      using Cons.prems by (auto intro: filter_True dest: order.strict_trans)
    then show ?thesis
      using True by simp
  qed (use Cons in simp)
qed simp

lemma cloneEventsAfter_filter:
  assumes "sorted_wrt (\<lambda>a b. ce_sequence a < ce_sequence b) es" "\<forall>e\<in>set es. 0 < ce_sequence e"
  shows "cloneEventsAfter es n = filter (\<lambda>e. n < ce_sequence e) es"
  using assms drop_first_after by (auto simp: cloneEventsAfter_def intro: filter_True [symmetric])

lemma sorted_wrt_newest: "sorted_wrt P xs \<Longrightarrow> sorted_wrt P (newest limit xs)"
  unfolding newest_def by (rule sorted_wrt_drop)

lemma set_newest: "set (newest limit xs) \<subseteq> set xs"
  by (simp add: newest_def set_drop_subset)

definition limit_of :: "int \<Rightarrow> int" where
  "limit_of limit = (if limit < 0 then 0 else limit)"

lemma replay_after_publishing:
  "re_replay (run_of (fold hub_add is (NewEventHubWithBuffer limit buffer)) key)
     = newest (limit_of limit) (filter (\<lambda>e. ce_key e = key) (numbered 0 is))"
proof -
  let ?h = "NewEventHubWithBuffer limit buffer"
  have h: "run_of ?h k = empty_run" "eh_nextSequence ?h = 0" "eh_replayLimit ?h = limit_of limit" for k
    by (simp_all add: NewEventHubWithBuffer_def run_of_def limit_of_def)
  then have inv: "hub_inv ?h"
    by (simp add: hub_inv_def empty_run_def)
  have "map snd (filter (\<lambda>p. fst p = key) (map (\<lambda>e. (ce_key e, e)) es)) = filter (\<lambda>e. ce_key e = key) es"
    for es :: "control_event list"
    by (induction es) auto
  then show ?thesis
    using hub_log.log_all [OF inv, of "is" key] by (simp add: h entries_numbered empty_run_def)
qed

text \<open>C27. Whatever events are published, a snapshot of a run has exactly the last events of that
  run up to the replay limit, restricted to those after the given sequence number, in the
  order of publication, and the numbers strictly increase.\<close>

theorem snapshot_is_newest_events:
  assumes "RunKey_Validate kv key = Inr ()" and "length is < 2 ^ 64"
  shows "SnapshotAfter kv (fold hub_add is (NewEventHubWithBuffer limit buffer)) key n
      = Inr (filter (\<lambda>e. n < ce_sequence e) (newest (limit_of limit) (filter (\<lambda>e. ce_key e = key) (numbered 0 is))))
    \<and> sorted_wrt (\<lambda>a b. ce_sequence a < ce_sequence b) (numbered 0 is)"
proof -
  let ?h = "fold hub_add is (NewEventHubWithBuffer limit buffer)"
  let ?log = "newest (limit_of limit) (filter (\<lambda>e. ce_key e = key) (numbered 0 is))"
  note seq = sequences_increase [OF assms(2)]
  have log: "re_replay (run_of ?h key) = ?log"
    by (rule replay_after_publishing)
  have "sorted_wrt (\<lambda>a b. ce_sequence a < ce_sequence b) ?log"
    by (intro sorted_wrt_newest sorted_wrt_filter seq(1))
  moreover have "\<forall>e\<in>set ?log. 0 < ce_sequence e"
    using seq(2) set_newest by fastforce
  ultimately have "cloneEventsAfter ?log n = filter (\<lambda>e. n < ce_sequence e) ?log"
    by (rule cloneEventsAfter_filter)
  then have "SnapshotAfter kv ?h key n = Inr (filter (\<lambda>e. n < ce_sequence e) ?log)"
    using log assms(1) by (auto simp: SnapshotAfter_def run_of_def empty_run_def split: option.splits)
  then show ?thesis
    using seq(1) by blast
qed

section \<open>A small execution\<close>

definition any_name :: k8s_validation where
  "any_name = \<lparr>IsDNS1123Label = (\<lambda>_. []), IsDNS1123Subdomain = (\<lambda>_. [])\<rparr>"

definition nightly :: run_key where
  "nightly = \<lparr>rk_namespace = ''backup'', rk_name = ''nightly'', rk_kind = RunKindBackup\<rparr>"

definition nightly_event :: "string \<Rightarrow> control_event" where
  "nightly_event phase = target_control_event
     \<lparr>te_runNamespace = ''backup'', te_runName = ''nightly'', te_runKind = RunKindBackup,
      te_targetNamespace = ''backup'', te_targetName = ''nas'', te_phase = phase, te_message = [], te_snapshot = [],
      te_bytesFreed = 0, te_paths = [], te_restorePoints = [], te_restoreScanned = False, te_conditions = [],
      te_availableBytes = 0, te_capacityBytes = 0\<rparr>"

theorem snapshot_is_newest_events_witness:
  "\<exists>es. SnapshotAfter any_name (fold hub_add [(1, nightly_event ''Ready''), (2, nightly_event ''Finalizing''), (3, nightly_event ''Completed'')]
      (NewEventHubWithBuffer 2 1)) nightly 2 = Inr es \<and> map ce_sequence es = [3]"
proof -
  let ?is = "[(1, nightly_event ''Ready''), (2, nightly_event ''Finalizing''), (3, nightly_event ''Completed'')]"
  have len: "length ?is < 2 ^ 64"
    by simp
  have valid: "RunKey_Validate any_name nightly = Inr ()"
    by code_simp
  have seqs: "map ce_sequence (filter (\<lambda>e. 2 < ce_sequence e) (newest (limit_of 2) (filter (\<lambda>e. ce_key e = nightly) (numbered 0 ?is)))) = [3]"
    by code_simp
  show ?thesis
    by (intro exI conjI, rule conjunct1 [OF snapshot_is_newest_events [OF valid len]], rule seqs)
qed

text \<open>The steps as functions: which of them leads where.\<close>

datatype hub_action = DoPublish gotime control_event | DoDeliver nat | DoForward subscriber | DoSubscribeAll subscriber

fun do_action :: "k8s_validation \<Rightarrow> hub_action \<Rightarrow> hub_system \<Rightarrow> hub_system option" where
  "do_action kv (DoPublish now event) s =
    (if check_event kv event = Inr () then
       (case publish_locked now event (hs_hub s) of (event', subs, h) \<Rightarrow>
          Some (s\<lparr>hs_hub := h, hs_inflight := hs_inflight s @ [(event', subs)]\<rparr>))
     else None)"
| "do_action kv (DoDeliver i) s =
    (if i < length (hs_inflight s) then
       (case hs_inflight s ! i of
          (event, sub # subs) \<Rightarrow> (case map_of (hs_subs s) sub of
             Some su \<Rightarrow> (case deliverLatest (nat (eh_subscriberBuffer (hs_hub s))) (su_ch su) event of
                 Some ch \<Rightarrow> Some (s\<lparr>hs_inflight := take i (hs_inflight s) @ (event, subs) # drop (Suc i) (hs_inflight s),
                                      hs_subs := alist_put sub (su\<lparr>su_ch := ch\<rparr>) (hs_subs s)\<rparr>)
               | None \<Rightarrow> None)
           | None \<Rightarrow> None)
        | _ \<Rightarrow> None)
     else None)"
| "do_action kv (DoForward sub) s =
    (case map_of (hs_subs s) sub of
       Some su \<Rightarrow> (case (su_replay su, su_ch su) of
           ([], e # es) \<Rightarrow> Some (s\<lparr>hs_subs := alist_put sub (su\<lparr>su_ch := es, su_out := su_out su @ [e]\<rparr>) (hs_subs s)\<rparr>)
         | _ \<Rightarrow> None)
     | None \<Rightarrow> None)"
| "do_action kv (DoSubscribeAll sub) s =
    (if map_of (hs_subs s) sub = None then
       (case SubscribeAllAfter (hs_hub s) 0 sub of (replay, h) \<Rightarrow>
          Some (s\<lparr>hs_hub := h, hs_subs := (sub, \<lparr>su_replay = replay, su_ch = [], su_out = []\<rparr>) # hs_subs s\<rparr>))
     else None)"

fun do_actions :: "k8s_validation \<Rightarrow> hub_action list \<Rightarrow> hub_system \<Rightarrow> hub_system option" where
  "do_actions kv [] s = Some s"
| "do_actions kv (a # as) s = (case do_action kv a s of None \<Rightarrow> None | Some s' \<Rightarrow> do_actions kv as s')"

lemma do_action_step: "do_action kv a s = Some s' \<Longrightarrow> hub_step kv s s'"
proof (cases a)
  case (DoPublish now event)
  assume "do_action kv a s = Some s'"
  then show ?thesis
    using DoPublish hub_step.publish [of kv event now s _ _ _ _] by (auto split: if_splits prod.splits)
next
  case (DoDeliver i)
  assume a: "do_action kv a s = Some s'"
  then have i: "i < length (hs_inflight s)"
    using DoDeliver by (auto split: if_splits)
  have "hs_inflight s = take i (hs_inflight s) @ hs_inflight s ! i # drop (Suc i) (hs_inflight s)"
    using i by (rule id_take_nth_drop)
  then show ?thesis
    using a DoDeliver i by (auto split: prod.splits list.splits option.splits intro!: hub_step.deliver)
next
  case (DoForward sub)
  assume "do_action kv a s = Some s'"
  then show ?thesis
    using DoForward by (auto split: option.splits list.splits intro!: hub_step.forwarded)
next
  case (DoSubscribeAll sub)
  assume "do_action kv a s = Some s'"
  then show ?thesis
    using DoSubscribeAll by (auto split: if_splits prod.splits intro!: hub_step.subscribe_all)
qed

lemma do_actions_steps: "do_actions kv as s = Some s' \<Longrightarrow> (hub_step kv)\<^sup>*\<^sup>* s s'"
proof (induction "as" arbitrary: s)
  case (Cons a "as")
  then show ?case
    by (auto split: option.splits intro: converse_rtranclp_into_rtranclp do_action_step)
qed simp

definition start :: hub_system where
  "start = \<lparr>hs_hub = NewEventHub 256, hs_subs = [], hs_inflight = []\<rparr>"

text \<open>Events may overtake each other: with two publishers of one run a reader may receive
  the second event before the first.\<close>

theorem events_may_overtake:
  "\<exists>s su. (hub_step any_name)\<^sup>*\<^sup>* start s \<and> map_of (hs_subs s) 0 = Some su
     \<and> map ce_sequence (su_out su) = [2, 1] \<and> map ce_sequence (re_replay (run_of (hs_hub s) nightly)) = [1, 2]"
proof -
  let ?as = "[DoSubscribeAll 0, DoPublish 1 (nightly_event ''Finalizing''), DoPublish 2 (nightly_event ''Completed''),
      DoDeliver 1, DoDeliver 0, DoForward 0, DoForward 0]"
  have "(case do_actions any_name ?as start of None \<Rightarrow> False
      | Some s \<Rightarrow> (case map_of (hs_subs s) 0 of None \<Rightarrow> False | Some su \<Rightarrow> map ce_sequence (su_out su) = [2, 1]
          \<and> map ce_sequence (re_replay (run_of (hs_hub s) nightly)) = [1, 2]))"
    by code_simp
  then show ?thesis
    using do_actions_steps [of any_name ?as start] by (auto split: option.splits)
qed

section \<open>A reader that keeps up\<close>

lemma deliver_all_total:
  "0 < eh_subscriberBuffer (hs_hub s) \<Longrightarrow> \<exists>s'. deliver_all event subs s = Some s' \<and> hs_hub s' = hs_hub s \<and> hs_inflight s' = hs_inflight s"
  by (induction event subs s rule: deliver_all.induct) (auto simp: deliverLatest_Some split: option.splits)

lemma deliver_all_other:
  "deliver_all event subs s = Some s' \<Longrightarrow> sub \<notin> set subs \<Longrightarrow> map_of (hs_subs s') sub = map_of (hs_subs s) sub"
  by (induction event subs s rule: deliver_all.induct) (auto split: option.splits)

lemma deliver_all_append:
  "deliver_all event (xs @ ys) s = (case deliver_all event xs s of None \<Rightarrow> None | Some s' \<Rightarrow> deliver_all event ys s')"
  by (induction event xs s rule: deliver_all.induct) (auto split: option.splits)

lemma deliver_all_once:
  assumes "deliver_all event (xs @ sub # ys) s = Some s'" "sub \<notin> set xs" "sub \<notin> set ys"
    and "map_of (hs_subs s) sub = Some su" "int (length (su_ch su)) < eh_subscriberBuffer (hs_hub s)"
  shows "map_of (hs_subs s') sub = Some (su\<lparr>su_ch := su_ch su @ [event]\<rparr>)"
proof -
  have pos: "0 < eh_subscriberBuffer (hs_hub s)"
    using assms(5) by linarith
  then obtain t where t: "deliver_all event xs s = Some t" "hs_hub t = hs_hub s"
    using deliver_all_total by blast
  have "map_of (hs_subs t) sub = Some su"
    using deliver_all_other [OF t(1) assms(2)] assms(4) by simp
  moreover have "deliverLatest (nat (eh_subscriberBuffer (hs_hub t))) (su_ch su) event = Some (su_ch su @ [event])"
    using assms(5) pos t(2) deliverLatest_Some [of "nat (eh_subscriberBuffer (hs_hub s))" "su_ch su" event] by auto
  ultimately have "deliver_all event ys (t\<lparr>hs_subs := alist_put sub (su\<lparr>su_ch := su_ch su @ [event]\<rparr>) (hs_subs t)\<rparr>) = Some s'"
    using assms(1) t(1) by (simp add: deliver_all_append)
  then show ?thesis
    using deliver_all_other [OF _ assms(3)] by fastforce
qed

fun publish_seq :: "k8s_validation \<Rightarrow> (gotime \<times> control_event) list \<Rightarrow> hub_system \<Rightarrow> hub_system option" where
  "publish_seq kv [] s = Some s"
| "publish_seq kv ((now, e) # es) s = (case publish kv now e s of None \<Rightarrow> None | Some (r, s') \<Rightarrow> publish_seq kv es s')"

text \<open>A reader of all events: registered once, and for no single run.\<close>

definition reads_all :: "hub_system \<Rightarrow> subscriber \<Rightarrow> bool" where
  "reads_all s sub = (\<exists>xs ys. eh_allSubscribers (hs_hub s) = xs @ sub # ys \<and> sub \<notin> set xs \<and> sub \<notin> set ys
     \<and> (\<forall>k. sub \<notin> set (re_subscribers (run_of (hs_hub s) k))))"

lemma publish_reads_all:
  assumes "reads_all s sub" "map_of (hs_subs s) sub = Some su" "check_event kv e = Inr ()"
    and "int (length (su_ch su)) < eh_subscriberBuffer (hs_hub s)"
  obtains s' where "publish kv now e s = Some (Inr (e\<lparr>ce_sequence := eh_nextSequence (hs_hub s) + 1, ce_publishedAt := now\<rparr>), s')"
    "reads_all s' sub" "eh_nextSequence (hs_hub s') = eh_nextSequence (hs_hub s) + 1"
    "eh_subscriberBuffer (hs_hub s') = eh_subscriberBuffer (hs_hub s)"
    "map_of (hs_subs s') sub = Some (su\<lparr>su_ch := su_ch su @ [e\<lparr>ce_sequence := eh_nextSequence (hs_hub s) + 1, ce_publishedAt := now\<rparr>]\<rparr>)"
proof -
  obtain e' subs h where p: "publish_locked now e (hs_hub s) = (e', subs, h)"
    by (cases "publish_locked now e (hs_hub s)")
  note f = publish_locked_eq [OF p]
  obtain xs ys where a: "eh_allSubscribers (hs_hub s) = xs @ sub # ys" "sub \<notin> set xs" "sub \<notin> set ys"
      "\<forall>k. sub \<notin> set (re_subscribers (run_of (hs_hub s) k))"
    using assms(1) by (auto simp: reads_all_def)
  let ?pre = "re_subscribers (run_of (hs_hub s) (ce_key e)) @ xs"
  have subs: "subs = ?pre @ sub # ys"
    using f(2) a(1) by simp
  have "0 < eh_subscriberBuffer (hs_hub (s\<lparr>hs_hub := h\<rparr>))"
    using assms(4) f(5) by simp
  then obtain s' where s': "deliver_all e' subs (s\<lparr>hs_hub := h\<rparr>) = Some s'" "hs_hub s' = h"
    using deliver_all_total [of "s\<lparr>hs_hub := h\<rparr>" e' subs] by auto
  have "map_of (hs_subs s') sub = Some (su\<lparr>su_ch := su_ch su @ [e']\<rparr>)"
    using s'(1) a assms(2,4) f(5) unfolding subs by (intro deliver_all_once [of e' ?pre sub ys "s\<lparr>hs_hub := h\<rparr>"]) auto
  moreover have "reads_all s' sub"
    unfolding reads_all_def s'(2) f(6) using a by (auto simp: f(7))
  ultimately show thesis
    using that [of s'] p s' assms(3) f(1,3,5) by (simp add: publish_def)
qed

text \<open>A reader of all events whose channel has room for what is published receives every
  event, once and in the order of publication, and no publisher is held up.\<close>

theorem reader_misses_nothing:
  assumes "reads_all s sub" and "map_of (hs_subs s) sub = Some su"
    and "\<forall>(now, e)\<in>set es. check_event kv e = Inr ()"
    and "int (length (su_ch su) + length es) \<le> eh_subscriberBuffer (hs_hub s)"
  shows "\<exists>s'. publish_seq kv es s = Some s'
    \<and> map_of (hs_subs s') sub = Some (su\<lparr>su_ch := su_ch su @ numbered (eh_nextSequence (hs_hub s)) es\<rparr>)"
  using assms
proof (induction es arbitrary: s su)
  case (Cons p es)
  obtain now e where p: "p = (now, e)"
    by (cases p)
  have ok: "check_event kv e = Inr ()" "int (length (su_ch su)) < eh_subscriberBuffer (hs_hub s)"
    using Cons.prems(3,4) p by auto
  obtain s' where s': "publish kv now e s = Some (Inr (e\<lparr>ce_sequence := eh_nextSequence (hs_hub s) + 1, ce_publishedAt := now\<rparr>), s')"
    "reads_all s' sub" "eh_nextSequence (hs_hub s') = eh_nextSequence (hs_hub s) + 1"
    "eh_subscriberBuffer (hs_hub s') = eh_subscriberBuffer (hs_hub s)"
    "map_of (hs_subs s') sub = Some (su\<lparr>su_ch := su_ch su @ [e\<lparr>ce_sequence := eh_nextSequence (hs_hub s) + 1, ce_publishedAt := now\<rparr>]\<rparr>)"
    by (rule publish_reads_all [OF Cons.prems(1,2) ok])
  then show ?case
    using Cons.IH [OF s'(2,5)] Cons.prems(3,4) p by auto
qed auto

theorem reader_misses_nothing_witness:
  "\<exists>s'. publish_seq any_name [(1, nightly_event ''Ready''), (2, nightly_event ''Completed'')]
      (start\<lparr>hs_hub := (NewEventHub 256)\<lparr>eh_allSubscribers := [7]\<rparr>, hs_subs := [(7, \<lparr>su_replay = [], su_ch = [], su_out = []\<rparr>)]\<rparr>) = Some s'"
proof -
  let ?s = "start\<lparr>hs_hub := (NewEventHub 256)\<lparr>eh_allSubscribers := [7]\<rparr>, hs_subs := [(7, \<lparr>su_replay = [], su_ch = [], su_out = []\<rparr>)]\<rparr>"
  let ?es = "[(1, nightly_event ''Ready''), (2, nightly_event ''Completed'')]"
  have r: "reads_all ?s 7"
    unfolding reads_all_def
    by (rule exI [of _ "[]"], rule exI [of _ "[]"])
      (simp add: NewEventHub_def NewEventHubWithBuffer_def run_of_def empty_run_def)
  have m: "map_of (hs_subs ?s) 7 = Some \<lparr>su_replay = [], su_ch = [], su_out = []\<rparr>"
    by simp
  have c: "\<forall>(now, e)\<in>set ?es. check_event any_name e = Inr ()"
    by code_simp
  have b: "int (length (su_ch \<lparr>su_replay = [], su_ch = [], su_out = []\<rparr>) + length ?es) \<le> eh_subscriberBuffer (hs_hub ?s)"
    by (simp add: NewEventHub_def NewEventHubWithBuffer_def)
  show ?thesis
    using reader_misses_nothing [OF r m c b] by blast
qed

text \<open>C38. A reader that falls behind loses the oldest events: a send never waits, and leaves
  the newest events up to the capacity of the channel.\<close>

theorem deliverLatest_keeps_newest:
  assumes "0 < cap" and "length ch \<le> cap"
  shows "deliverLatest cap ch event = Some (newest (int cap) (ch @ [event]))"
  using assms by (simp add: deliverLatest_Some newest_def)

theorem deliverLatest_keeps_newest_witness:
  "map_option (map ce_kind) (deliverLatest 1 [nightly_event ''Finalizing''] ((nightly_event ''Completed'')\<lparr>ce_kind := ''newer''\<rparr>)) = Some [''newer'']"
  using deliverLatest_keeps_newest [of 1 "[nightly_event ''Finalizing'']" "(nightly_event ''Completed'')\<lparr>ce_kind := ''newer''\<rparr>"]
  by (simp add: newest_def)

end
