(* ===== verification/Control_Service.thy ===== *)
theory Control_Service
  imports Event_Hub
begin

text \<open>
  control/service.go: the control service in front of the event hub, with a log
  of commands per run that every registered target receives from its start.
\<close>

section \<open>State\<close>

record command_log =
  cl_commands :: "target_command list"
  cl_seen :: "string list"
  cl_streams :: "nat list"

text \<open>A registration: the replayed commands not passed on yet, the channel of the stream, and
  what the target has received.\<close>

record command_stream =
  st_replay :: "target_command list"
  st_ch :: "target_command list"
  st_out :: "target_command list"

record control_service =
  cv_hub :: hub_system
  cv_buffer :: nat
  cv_runs :: "(run_key \<times> command_log) list"
  cv_streams :: "(nat \<times> command_stream) list"

definition NewService :: "hub_system \<Rightarrow> control_service" where
  "NewService hub = \<lparr>cv_hub = hub, cv_buffer = 64, cv_runs = [], cv_streams = []\<rparr>"

definition empty_log :: command_log where
  "empty_log = \<lparr>cl_commands = [], cl_seen = [], cl_streams = []\<rparr>"

definition log_of :: "control_service \<Rightarrow> run_key \<Rightarrow> command_log" where
  "log_of s key = (case map_of (cv_runs s) key of None \<Rightarrow> empty_log | Some l \<Rightarrow> l)"

definition put_log :: "run_key \<Rightarrow> command_log \<Rightarrow> control_service \<Rightarrow> control_service" where
  "put_log key l s = s\<lparr>cv_runs := alist_put key l (cv_runs s)\<rparr>"

section \<open>Targets\<close>

definition RegisterTarget :: "k8s_validation \<Rightarrow> register_request \<Rightarrow> nat \<Rightarrow> control_service \<Rightarrow> unit result \<times> control_service" where
  "RegisterTarget kv req stream s =
    (case check_then (RunKey_Validate kv (register_Key req))
          (check_then (validateNamespaceName kv ''target namespace'' (rq_targetNamespace req))
          (validateObjectName kv ''target name'' (rq_targetName req))) of
       Inl e \<Rightarrow> (Inl e, s)
     | Inr _ \<Rightarrow>
         let key = register_Key req; run = log_of s key; replay = cloneTargetCommands (cl_commands run) in
         (Inr (), (put_log key (run\<lparr>cl_streams := stream # cl_streams run\<rparr>) s)
            \<lparr>cv_streams := (stream, \<lparr>st_replay = replay, st_ch = [], st_out = []\<rparr>) # cv_streams s\<rparr>))"

definition unregisterTarget :: "run_key \<Rightarrow> nat \<Rightarrow> control_service \<Rightarrow> control_service" where
  "unregisterTarget key stream s = (case map_of (cv_runs s) key of
      None \<Rightarrow> s
    | Some run \<Rightarrow> put_log key (run\<lparr>cl_streams := filter (\<lambda>x. x \<noteq> stream) (cl_streams run)\<rparr>) s)"

section \<open>Commands\<close>

text \<open>A send on a full channel waits for its reader: \<open>None\<close> when the channel has no room.\<close>

fun send_all :: "target_command \<Rightarrow> nat list \<Rightarrow> control_service \<Rightarrow> control_service option" where
  "send_all command [] s = Some s"
| "send_all command (stream # streams) s =
    (case map_of (cv_streams s) stream of
       None \<Rightarrow> send_all command streams s
     | Some st \<Rightarrow> if length (st_ch st) < cv_buffer s
         then send_all command streams (s\<lparr>cv_streams := alist_put stream (st\<lparr>st_ch := st_ch st @ [cloneTargetCommand command]\<rparr>) (cv_streams s)\<rparr>)
         else None)"

definition EnqueueTargetCommand :: "k8s_validation \<Rightarrow> run_key \<Rightarrow> target_command \<Rightarrow> control_service \<Rightarrow> (bool result \<times> control_service) option" where
  "EnqueueTargetCommand kv key command s =
    (case check_then (RunKey_Validate kv key) (validateTargetCommand kv command) of
       Inl e \<Rightarrow> Some (Inl e, s)
     | Inr _ \<Rightarrow>
         let command = cloneTargetCommand command; run = log_of s key in
         if tc_commandID command \<in> set (cl_seen run) then Some (Inr False, put_log key run s)
         else let run' = run\<lparr>cl_seen := tc_commandID command # cl_seen run, cl_commands := cl_commands run @ [command]\<rparr>
              in map_option (\<lambda>s. (Inr True, s)) (send_all command (cl_streams run') (put_log key run' s)))"

definition EnqueueFinalize :: "k8s_validation \<Rightarrow> run_key \<Rightarrow> string \<Rightarrow> finalize_job \<Rightarrow> control_service \<Rightarrow> (bool result \<times> control_service) option" where
  "EnqueueFinalize kv key commandID finalize = EnqueueTargetCommand kv key (NewFinalizeBackupJobCommand commandID finalize)"

definition EnqueueRecover :: "k8s_validation \<Rightarrow> run_key \<Rightarrow> string \<Rightarrow> recover_space \<Rightarrow> control_service \<Rightarrow> (bool result \<times> control_service) option" where
  "EnqueueRecover kv key commandID recover = EnqueueTargetCommand kv key (NewRecoverSpaceCommand commandID recover)"

definition EnqueueAbort :: "k8s_validation \<Rightarrow> run_key \<Rightarrow> string \<Rightarrow> abort_run \<Rightarrow> control_service \<Rightarrow> (bool result \<times> control_service) option" where
  "EnqueueAbort kv key commandID abort = EnqueueTargetCommand kv key (NewAbortRunCommand commandID abort)"

section \<open>Reports\<close>

definition with_hub :: "control_service \<Rightarrow> (control_event result \<times> hub_system) option \<Rightarrow> ((64 word) result \<times> control_service) option" where
  "with_hub s r = map_option (\<lambda>(e, h). (map_sum id ce_sequence e, s\<lparr>cv_hub := h\<rparr>)) r"

definition ReportTarget :: "k8s_validation \<Rightarrow> gotime \<Rightarrow> target_event \<Rightarrow> control_service \<Rightarrow> ((64 word) result \<times> control_service) option" where
  "ReportTarget kv now event s = (case validateTargetEvent kv event of
      Inl e \<Rightarrow> Some (Inl e, s) | Inr _ \<Rightarrow> with_hub s (PublishTarget kv now event (cv_hub s)))"

definition AcknowledgeTargetCommand :: "k8s_validation \<Rightarrow> gotime \<Rightarrow> command_ack_event \<Rightarrow> control_service \<Rightarrow> ((64 word) result \<times> control_service) option" where
  "AcknowledgeTargetCommand kv now event s =
    (let event = (if ca_acknowledgedAt event = [] then event\<lparr>ca_acknowledgedAt := format_rfc3339 now\<rparr> else event) in
     case validateTargetCommandAckEvent kv event of
       Inl e \<Rightarrow> Some (Inl e, s) | Inr _ \<Rightarrow> with_hub s (PublishTargetCommandAck kv now event (cv_hub s)))"

definition ReportSource :: "k8s_validation \<Rightarrow> gotime \<Rightarrow> source_event \<Rightarrow> control_service \<Rightarrow> ((64 word) result \<times> control_service) option" where
  "ReportSource kv now event s = (case validateSourceEvent kv event of
      Inl e \<Rightarrow> Some (Inl e, s) | Inr _ \<Rightarrow> with_hub s (PublishSource kv now event (cv_hub s)))"

section \<open>Steps\<close>

inductive service_step :: "k8s_validation \<Rightarrow> control_service \<Rightarrow> control_service \<Rightarrow> bool" for kv where
  enqueue: "EnqueueTargetCommand kv key command s = Some (r, s') \<Longrightarrow> service_step kv s s'"
| register: "map_of (cv_streams s) stream = None \<Longrightarrow> RegisterTarget kv req stream s = (r, s') \<Longrightarrow> service_step kv s s'"
| unregister: "service_step kv s (unregisterTarget key stream s)"
| replayed: "map_of (cv_streams s) stream = Some st \<Longrightarrow> st_replay st = c # cs \<Longrightarrow>
    service_step kv s (s\<lparr>cv_streams := alist_put stream (st\<lparr>st_replay := cs, st_out := st_out st @ [c]\<rparr>) (cv_streams s)\<rparr>)"
| forwarded: "map_of (cv_streams s) stream = Some st \<Longrightarrow> st_replay st = [] \<Longrightarrow> st_ch st = c # cs \<Longrightarrow>
    service_step kv s (s\<lparr>cv_streams := alist_put stream (st\<lparr>st_ch := cs, st_out := st_out st @ [c]\<rparr>) (cv_streams s)\<rparr>)"
| report_target: "ReportTarget kv now te s = Some (q, s') \<Longrightarrow> service_step kv s s'"
| report_ack: "AcknowledgeTargetCommand kv now ae s = Some (q, s') \<Longrightarrow> service_step kv s s'"
| report_source: "ReportSource kv now se s = Some (q, s') \<Longrightarrow> service_step kv s s'"

section \<open>Every target sees every command once\<close>

lemma log_of_put: "log_of (put_log key l s) k = (if k = key then l else log_of s k)"
  by (simp add: log_of_def put_log_def)

text \<open>What a target has received and what is on its way to it.\<close>

definition traffic :: "command_stream \<Rightarrow> target_command list" where
  "traffic st = st_out st @ st_replay st @ st_ch st"

text \<open>
  The invariant: the identifiers of a log are those seen and are distinct; a
  stream is registered with at most one run, once; and what a registered target
  has received or will receive is the log of its run.
\<close>

definition service_inv :: "control_service \<Rightarrow> bool" where
  "service_inv s \<longleftrightarrow>
     (\<forall>k. distinct (map tc_commandID (cl_commands (log_of s k)))
        \<and> set (cl_seen (log_of s k)) = tc_commandID ` set (cl_commands (log_of s k))
        \<and> distinct (cl_streams (log_of s k)))
   \<and> (\<forall>k x. x \<in> set (cl_streams (log_of s k)) \<longrightarrow>
        (\<exists>st. map_of (cv_streams s) x = Some st \<and> traffic st = cl_commands (log_of s k)))
   \<and> (\<forall>k k' x. x \<in> set (cl_streams (log_of s k)) \<longrightarrow> x \<in> set (cl_streams (log_of s k')) \<longrightarrow> k = k')"

lemma send_all_frame:
  "send_all c xs s = Some s' \<Longrightarrow> cv_runs s' = cv_runs s"
  "send_all c xs s = Some s' \<Longrightarrow> x \<notin> set xs \<Longrightarrow> map_of (cv_streams s') x = map_of (cv_streams s) x"
  by (induction c xs s rule: send_all.induct) (auto split: option.splits if_splits)

lemma send_all_effect:
  "send_all c xs s = Some s' \<Longrightarrow> distinct xs \<Longrightarrow> x \<in> set xs \<Longrightarrow> map_of (cv_streams s) x = Some st \<Longrightarrow>
   map_of (cv_streams s') x = Some (st\<lparr>st_ch := st_ch st @ [c]\<rparr>)"
proof (induction c xs s rule: send_all.induct)
  case (2 c y xs s)
  show ?case
  proof (cases "map_of (cv_streams s) y")
    case None
    then show ?thesis
      using 2 by auto
  next
    case (Some sy)
    let ?s = "s\<lparr>cv_streams := alist_put y (sy\<lparr>st_ch := st_ch sy @ [c]\<rparr>) (cv_streams s)\<rparr>"
    have room: "length (st_ch sy) < cv_buffer s" and rest: "send_all c xs ?s = Some s'"
      using 2(3) Some by (auto split: if_splits)
    show ?thesis
    proof (cases "x = y")
      case True
      then show ?thesis
        using send_all_frame(2) [OF rest, of x] 2(4,6) Some by simp
    next
      case False
      then show ?thesis
        using 2(2) [OF Some room] rest 2(4-6) by simp
    qed
  qed
qed simp

lemma log_of_cong: "cv_runs s' = cv_runs s \<Longrightarrow> log_of s' = log_of s"
  by (simp add: log_of_def fun_eq_iff)

lemma service_invD:
  assumes "service_inv s"
  shows "distinct (map tc_commandID (cl_commands (log_of s k)))"
    "set (cl_seen (log_of s k)) = tc_commandID ` set (cl_commands (log_of s k))" "distinct (cl_streams (log_of s k))"
    "x \<in> set (cl_streams (log_of s k)) \<Longrightarrow> \<exists>st. map_of (cv_streams s) x = Some st \<and> traffic st = cl_commands (log_of s k)"
    "x \<in> set (cl_streams (log_of s k)) \<Longrightarrow> x \<in> set (cl_streams (log_of s k')) \<Longrightarrow> k = k'"
  using assms unfolding service_inv_def by blast+

lemma traffic_send: "traffic (st\<lparr>st_ch := st_ch st @ [c]\<rparr>) = traffic st @ [c]"
  by (simp add: traffic_def)

lemma enqueue_new:
  assumes inv: "service_inv s" and new: "tc_commandID c \<notin> set (cl_seen (log_of s key))"
    and send: "send_all c (cl_streams (log_of s key)) (put_log key ((log_of s key)\<lparr>cl_seen := tc_commandID c # cl_seen (log_of s key),
        cl_commands := cl_commands (log_of s key) @ [c]\<rparr>) s) = Some s'"
  shows "service_inv s'" "cl_commands (log_of s' k) = cl_commands (log_of s k) @ (if k = key then [c] else [])"
proof -
  let ?l = "log_of s key"
  let ?l' = "?l\<lparr>cl_seen := tc_commandID c # cl_seen ?l, cl_commands := cl_commands ?l @ [c]\<rparr>"
  note I = service_invD [OF inv]
  have log: "log_of s' k = (if k = key then ?l' else log_of s k)" for k
    using log_of_cong [OF send_all_frame(1) [OF send]] by (simp add: log_of_put)
  have str: "map_of (cv_streams s') x = (if x \<in> set (cl_streams ?l) then map_option (\<lambda>st. st\<lparr>st_ch := st_ch st @ [c]\<rparr>) (map_of (cv_streams s) x)
      else map_of (cv_streams s) x)" for x
  proof (cases "x \<in> set (cl_streams ?l)")
    case True
    then obtain st where "map_of (cv_streams s) x = Some st"
      using I(4) by blast
    then show ?thesis
      using send_all_effect [OF send I(3) [of key] True] True by (simp add: put_log_def)
  next
    case False
    then show ?thesis
      using send_all_frame(2) [OF send False] by (simp add: put_log_def)
  qed
  show "cl_commands (log_of s' k) = cl_commands (log_of s k) @ (if k = key then [c] else [])" for k
    by (simp add: log)
  have "\<exists>st. map_of (cv_streams s') x = Some st \<and> traffic st = cl_commands (log_of s' k)"
    if x: "x \<in> set (cl_streams (log_of s' k))" for k x
  proof -
    have xk: "x \<in> set (cl_streams (log_of s k))"
      using x by (simp add: log split: if_splits)
    then obtain st where st: "map_of (cv_streams s) x = Some st" "traffic st = cl_commands (log_of s k)"
      using I(4) by blast
    show ?thesis
    proof (cases "k = key")
      case True
      then show ?thesis
        using st xk str [of x] by (simp add: log traffic_send)
    next
      case False
      then have "x \<notin> set (cl_streams ?l)"
        using I(5) [OF xk] by blast
      then show ?thesis
        using st str [of x] False by (simp add: log)
    qed
  qed
  moreover have "distinct (map tc_commandID (cl_commands (log_of s' k)))"
    "set (cl_seen (log_of s' k)) = tc_commandID ` set (cl_commands (log_of s' k))" "distinct (cl_streams (log_of s' k))" for k
    using I(1,2,3) [of k] new I(2) [of key] by (auto simp: log)
  moreover have "k = k'" if "x \<in> set (cl_streams (log_of s' k))" "x \<in> set (cl_streams (log_of s' k'))" for k k' x
    using that I(5) [of x k k'] by (auto simp: log split: if_splits)
  ultimately show "service_inv s'"
    unfolding service_inv_def by blast
qed

lemma service_inv_same:
  assumes "service_inv s" "\<And>k. log_of s' k = log_of s k"
    and "\<And>x. map_option traffic (map_of (cv_streams s') x) = map_option traffic (map_of (cv_streams s) x)"
  shows "service_inv s'"
proof -
  have "(\<exists>st. map_of (cv_streams s') x = Some st \<and> traffic st = cs) \<longleftrightarrow> (\<exists>st. map_of (cv_streams s) x = Some st \<and> traffic st = cs)" for x cs
    using assms(3) [of x] by (cases "map_of (cv_streams s) x"; cases "map_of (cv_streams s') x") auto
  then show ?thesis
    using assms(1) unfolding service_inv_def assms(2) by simp
qed

lemma enqueue_cases:
  assumes "EnqueueTargetCommand kv key c s = Some (r, s')" and "service_inv s"
  shows "service_inv s'"
    "cl_commands (log_of s' k) = cl_commands (log_of s k) @ (if k = key \<and> r = Inr True then [c] else [])"
    "r = Inr True \<longleftrightarrow> RunKey_Validate kv key = Inr () \<and> validateTargetCommand kv c = Inr ()
       \<and> tc_commandID c \<notin> tc_commandID ` set (cl_commands (log_of s key))"
proof -
  have seen: "set (cl_seen (log_of s key)) = tc_commandID ` set (cl_commands (log_of s key))"
    using service_invD(2) [OF assms(2)] .
  show "service_inv s'"
    "cl_commands (log_of s' k) = cl_commands (log_of s k) @ (if k = key \<and> r = Inr True then [c] else [])"
    "r = Inr True \<longleftrightarrow> RunKey_Validate kv key = Inr () \<and> validateTargetCommand kv c = Inr ()
       \<and> tc_commandID c \<notin> tc_commandID ` set (cl_commands (log_of s key))"
  proof (atomize (full), cases "check_then (RunKey_Validate kv key) (validateTargetCommand kv c)")
    case (Inl e)
    then show "service_inv s' \<and> cl_commands (log_of s' k) = cl_commands (log_of s k) @ (if k = key \<and> r = Inr True then [c] else []) \<and>
      (r = Inr True \<longleftrightarrow> RunKey_Validate kv key = Inr () \<and> validateTargetCommand kv c = Inr ()
       \<and> tc_commandID c \<notin> tc_commandID ` set (cl_commands (log_of s key)))"
      using assms by (auto simp: EnqueueTargetCommand_def)
  next
    case (Inr u)
    then have ok: "RunKey_Validate kv key = Inr ()" "validateTargetCommand kv c = Inr ()"
      by (auto simp: check_then_Inr)
    show "service_inv s' \<and> cl_commands (log_of s' k) = cl_commands (log_of s k) @ (if k = key \<and> r = Inr True then [c] else []) \<and>
      (r = Inr True \<longleftrightarrow> RunKey_Validate kv key = Inr () \<and> validateTargetCommand kv c = Inr ()
       \<and> tc_commandID c \<notin> tc_commandID ` set (cl_commands (log_of s key)))"
    proof (cases "tc_commandID c \<in> set (cl_seen (log_of s key))")
      case True
      then have r: "r = Inr False" "s' = put_log key (log_of s key) s"
        using assms(1) Inr by (auto simp: EnqueueTargetCommand_def)
      have log: "log_of s' k = log_of s k" for k
        unfolding r(2) log_of_put by simp
      have "service_inv s'"
        by (rule service_inv_same [OF assms(2) log]) (simp add: r(2) put_log_def)
      then show ?thesis
        using r(1) log True seen by simp
    next
      case False
      then obtain t where t: "send_all c (cl_streams (log_of s key)) (put_log key ((log_of s key)\<lparr>cl_seen := tc_commandID c # cl_seen (log_of s key),
          cl_commands := cl_commands (log_of s key) @ [c]\<rparr>) s) = Some t" "r = Inr True" "s' = t"
        using assms(1) Inr by (auto simp: EnqueueTargetCommand_def Let_def)
      show ?thesis
        using enqueue_new [OF assms(2) False t(1)] t(2,3) ok False seen by simp
    qed
  qed
qed

lemma register_inv:
  assumes "service_inv s" "map_of (cv_streams s) x = None" "RegisterTarget kv req x s = (r, s')"
  shows "service_inv s'" "cl_commands (log_of s' k) = cl_commands (log_of s k)"
proof -
  have "service_inv s' \<and> (\<forall>k. cl_commands (log_of s' k) = cl_commands (log_of s k))"
  proof (cases "check_then (RunKey_Validate kv (register_Key req))
          (check_then (validateNamespaceName kv ''target namespace'' (rq_targetNamespace req))
          (validateObjectName kv ''target name'' (rq_targetName req)))")
    case (Inl e)
    then show ?thesis
      using assms by (auto simp: RegisterTarget_def)
  next
    case (Inr u)
    let ?key = "register_Key req"
    have s': "s' = (put_log ?key ((log_of s ?key)\<lparr>cl_streams := x # cl_streams (log_of s ?key)\<rparr>) s)
        \<lparr>cv_streams := (x, \<lparr>st_replay = cl_commands (log_of s ?key), st_ch = [], st_out = []\<rparr>) # cv_streams s\<rparr>"
      using assms(3) Inr by (auto simp: RegisterTarget_def Let_def)
    have log: "log_of s' k = (if k = ?key then (log_of s ?key)\<lparr>cl_streams := x # cl_streams (log_of s ?key)\<rparr> else log_of s k)" for k
      unfolding s' by (simp add: log_of_put [unfolded put_log_def] put_log_def log_of_def)
    have str: "map_of (cv_streams s') y = (if y = x then Some \<lparr>st_replay = cl_commands (log_of s ?key), st_ch = [], st_out = []\<rparr>
        else map_of (cv_streams s) y)" for y
      unfolding s' by simp
    note I = service_invD [OF assms(1)]
    have fresh: "x \<notin> set (cl_streams (log_of s k))" for k
      using I(4) assms(2) by fastforce
    have "\<exists>st. map_of (cv_streams s') y = Some st \<and> traffic st = cl_commands (log_of s' k)"
      if "y \<in> set (cl_streams (log_of s' k))" for k y
    proof (cases "y = x")
      case True
      then have "k = ?key"
        using that fresh by (auto simp: log split: if_splits)
      then show ?thesis
        using True by (simp add: str log traffic_def)
    next
      case False
      then have "y \<in> set (cl_streams (log_of s k))"
        using that by (auto simp: log split: if_splits)
      then show ?thesis
        using I(4) False by (auto simp: str log)
    qed
    moreover have "k = k'" if "y \<in> set (cl_streams (log_of s' k))" "y \<in> set (cl_streams (log_of s' k'))" for k k' y
      using that I(5) [of y k k'] fresh by (auto simp: log split: if_splits)
    moreover have "distinct (map tc_commandID (cl_commands (log_of s' k)))"
      "set (cl_seen (log_of s' k)) = tc_commandID ` set (cl_commands (log_of s' k))" "distinct (cl_streams (log_of s' k))" for k
      using I(1,2,3) [of k] fresh by (auto simp: log)
    ultimately have "service_inv s'"
      unfolding service_inv_def by blast
    then show ?thesis
      by (simp add: log)
  qed
  then show "service_inv s'" "cl_commands (log_of s' k) = cl_commands (log_of s k)"
    by blast+
qed

lemma unregister_inv:
  assumes "service_inv s"
  shows "service_inv (unregisterTarget key x s)" "cl_commands (log_of (unregisterTarget key x s) k) = cl_commands (log_of s k)"
proof -
  let ?s = "unregisterTarget key x s"
  have log: "log_of ?s k = (if k = key then (log_of s key)\<lparr>cl_streams := filter (\<lambda>y. y \<noteq> x) (cl_streams (log_of s key))\<rparr> else log_of s k)" for k
  proof (cases "map_of (cv_runs s) key")
    case None
    then have "?s = s" "log_of s key = empty_log"
      by (simp_all add: unregisterTarget_def log_of_def)
    then show ?thesis
      by (auto simp: empty_log_def)
  next
    case (Some run)
    then have "?s = put_log key (run\<lparr>cl_streams := filter (\<lambda>y. y \<noteq> x) (cl_streams run)\<rparr>) s" "log_of s key = run"
      by (simp_all add: unregisterTarget_def log_of_def)
    then show ?thesis
      by (simp add: log_of_put)
  qed
  have str: "cv_streams ?s = cv_streams s"
    by (simp add: unregisterTarget_def put_log_def split: option.split)
  note I = service_invD [OF assms]
  have sub: "set (cl_streams (log_of ?s k)) \<subseteq> set (cl_streams (log_of s k))" for k
    by (auto simp: log)
  have cmds: "cl_commands (log_of ?s k) = cl_commands (log_of s k)" "cl_seen (log_of ?s k) = cl_seen (log_of s k)" for k
    by (simp_all add: log)
  have dist: "distinct (cl_streams (log_of ?s k))" for k
    using I(3) by (simp add: log)
  show "cl_commands (log_of ?s k) = cl_commands (log_of s k)"
    by (rule cmds)
  have one: "distinct (map tc_commandID (cl_commands (log_of ?s k))) \<and>
      set (cl_seen (log_of ?s k)) = tc_commandID ` set (cl_commands (log_of ?s k)) \<and> distinct (cl_streams (log_of ?s k))" for k
    unfolding cmds using I(1,2) dist by blast
  have two: "\<exists>st. map_of (cv_streams ?s) y = Some st \<and> traffic st = cl_commands (log_of ?s k)"
    if "y \<in> set (cl_streams (log_of ?s k))" for y k
    unfolding str cmds using I(4) that sub by blast
  have three: "k = k'" if "y \<in> set (cl_streams (log_of ?s k))" "y \<in> set (cl_streams (log_of ?s k'))" for y k k'
    using that sub I(5) by blast
  show "service_inv ?s"
    unfolding service_inv_def using one two three by blast
qed

lemma stream_inv:
  assumes "service_inv s" "map_of (cv_streams s) x = Some st" "traffic st' = traffic st"
  shows "service_inv (s\<lparr>cv_streams := alist_put x st' (cv_streams s)\<rparr>)"
proof (rule service_inv_same [OF assms(1)])
  show "log_of (s\<lparr>cv_streams := alist_put x st' (cv_streams s)\<rparr>) k = log_of s k" for k
    by (simp add: log_of_def)
  show "map_option traffic (map_of (cv_streams (s\<lparr>cv_streams := alist_put x st' (cv_streams s)\<rparr>)) y) = map_option traffic (map_of (cv_streams s) y)" for y
    using assms(2,3) by simp
qed

lemma hub_inv_step: "service_inv s \<Longrightarrow> service_inv (s\<lparr>cv_hub := h\<rparr>)"
  by (rule service_inv_same) (simp_all add: log_of_def)

lemma with_hub_inv: "with_hub s r = Some (q, s') \<Longrightarrow> service_inv s \<Longrightarrow> service_inv s'"
  by (auto simp: with_hub_def intro: hub_inv_step)

inductive_cases service_stepE: "service_step kv s s'"

lemma service_step_inv:
  assumes "service_step kv s s'" "service_inv s"
  shows "service_inv s'"
  using assms
proof (cases rule: service_step.cases)
  case (enqueue key command r)
  then show ?thesis
    using enqueue_cases(1) assms(2) by blast
next
  case (register stream req r)
  then show ?thesis
    using register_inv(1) assms(2) by blast
next
  case (unregister key stream)
  then show ?thesis
    using unregister_inv(1) assms(2) by blast
next
  case (replayed stream st c cs)
  then show ?thesis
    using stream_inv [OF assms(2), of stream st] by (simp add: traffic_def)
next
  case (forwarded stream st c cs)
  then show ?thesis
    using stream_inv [OF assms(2), of stream st] by (simp add: traffic_def)
qed (auto simp: ReportTarget_def AcknowledgeTargetCommand_def ReportSource_def Let_def split: sum.splits intro: with_hub_inv assms(2))

lemma reachable_inv:
  assumes "(service_step kv)\<^sup>*\<^sup>* (NewService hub) s"
  shows "service_inv s"
  using assms
proof (induction rule: rtranclp_induct)
  case base
  have "log_of (NewService hub) k = empty_log" for k
    by (simp add: NewService_def log_of_def)
  then show ?case
    unfolding service_inv_def by (simp add: empty_log_def)
next
  case (step y z)
  then show ?case
    using service_step_inv by blast
qed


text \<open>A command is appended to the log of its run exactly when it is valid and its
  identifier is new to the run; otherwise no log changes.\<close>

theorem EnqueueTargetCommand_exact:
  assumes "(service_step kv)\<^sup>*\<^sup>* (NewService hub) s" and "EnqueueTargetCommand kv key c s = Some (r, s')"
  shows "(r = Inr True \<longleftrightarrow> RunKey_Validate kv key = Inr () \<and> validateTargetCommand kv c = Inr ()
      \<and> tc_commandID c \<notin> tc_commandID ` set (cl_commands (log_of s key)))
    \<and> cl_commands (log_of s' k) = cl_commands (log_of s k) @ (if k = key \<and> r = Inr True then [c] else [])"
  using enqueue_cases(2,3) [OF assms(2) reachable_inv [OF assms(1)]] by blast

section \<open>A small execution\<close>

definition demo_command :: target_command where
  "demo_command = NewAbortRunCommand ''abort-1'' \<lparr>ar_reason = ''deleted''\<rparr>"

definition demo_request :: register_request where
  "demo_request = \<lparr>rq_runNamespace = ''backup'', rq_runName = ''nightly'', rq_runKind = RunKindBackup,
     rq_targetNamespace = ''backup'', rq_targetName = ''nas''\<rparr>"

definition service_enqueued :: control_service where
  "service_enqueued = (case EnqueueTargetCommand any_name nightly demo_command (NewService start) of
      Some (r, s) \<Rightarrow> s | None \<Rightarrow> NewService start)"

definition service_registered :: control_service where
  "service_registered = snd (RegisterTarget any_name demo_request 3 service_enqueued)"

lemma demo_reached: "(service_step any_name)\<^sup>*\<^sup>* (NewService start) service_registered"
proof -
  have "EnqueueTargetCommand any_name nightly demo_command (NewService start) = Some (Inr True, service_enqueued)"
    by (simp add: service_enqueued_def EnqueueTargetCommand_def any_name_def nightly_def demo_command_def NewAbortRunCommand_def
        NewService_def log_of_def empty_log_def put_log_def RunKey_Validate_def validateNamespaceName_def validateObjectName_def
        validateTargetCommand_def Let_def)
  then have a: "service_step any_name (NewService start) service_enqueued"
    by (rule service_step.enqueue)
  have "map_of (cv_streams service_enqueued) 3 = None"
    by code_simp
  then have b: "service_step any_name service_enqueued service_registered"
    by (rule service_step.register [of _ _ _ demo_request "fst (RegisterTarget any_name demo_request 3 service_enqueued)"])
      (simp add: service_registered_def)
  show ?thesis
    using a b by (meson converse_rtranclp_into_rtranclp r_into_rtranclp)
qed


theorem EnqueueTargetCommand_exact_witness:
  "\<exists>s'. EnqueueTargetCommand any_name nightly demo_command service_registered = Some (Inr False, s')
     \<and> cl_commands (log_of s' nightly) = [demo_command]"
proof -
  have "fst (the (EnqueueTargetCommand any_name nightly demo_command service_registered)) = Inr False"
    "EnqueueTargetCommand any_name nightly demo_command service_registered \<noteq> None"
    by code_simp+
  then obtain s' where s': "EnqueueTargetCommand any_name nightly demo_command service_registered = Some (Inr False, s')"
    by fastforce
  have "cl_commands (log_of service_registered nightly) = [demo_command]"
    by code_simp
  then show ?thesis
    using EnqueueTargetCommand_exact [OF demo_reached s', of nightly] s' by simp
qed

end
