(* ===== verification/Json.thy ===== *)
theory Json
  imports Prelude
begin

text \<open>
  Package encoding/json as dataplane/transport.go uses it for the header of a
  transfer: how a string is written (with the escapes for HTML that Marshal
  applies), and the parser behind Unmarshal, with its limit on nesting, its
  escapes, surrogate pairs and the replacement of invalid UTF-8. Strings are byte
  strings.
\<close>

section \<open>UTF-8\<close>

abbreviation byte :: "char \<Rightarrow> nat" where "byte c \<equiv> of_char c"

definition continuation :: "char \<Rightarrow> bool" where
  "continuation c = (128 \<le> byte c \<and> byte c < 192)"

text \<open>The length of the valid multi-byte sequence at the head, as \<open>utf8.DecodeRune\<close> accepts it.\<close>

fun rune_len :: "string \<Rightarrow> nat option" where
  "rune_len (a # b # r) =
    (if 194 \<le> byte a \<and> byte a < 224 then (if continuation b then Some 2 else None)
     else if 224 \<le> byte a \<and> byte a < 240 then
       (case r of c # _ \<Rightarrow>
          if continuation b \<and> continuation c \<and> (byte a = 224 \<longrightarrow> 160 \<le> byte b) \<and> (byte a = 237 \<longrightarrow> byte b < 160)
          then Some 3 else None | _ \<Rightarrow> None)
     else if 240 \<le> byte a \<and> byte a < 245 then
       (case r of c # d # _ \<Rightarrow>
          if continuation b \<and> continuation c \<and> continuation d
             \<and> (byte a = 240 \<longrightarrow> 144 \<le> byte b) \<and> (byte a = 244 \<longrightarrow> byte b < 144)
          then Some 4 else None | _ \<Rightarrow> None)
     else None)"
| "rune_len _ = None"

definition utf8_encode :: "nat \<Rightarrow> string" where
  "utf8_encode r =
    (if r < 128 then [char_of r]
     else if r < 2048 then [char_of (192 + r div 64), char_of (128 + r mod 64)]
     else if r < 65536 then [char_of (224 + r div 4096), char_of (128 + r div 64 mod 64), char_of (128 + r mod 64)]
     else [char_of (240 + r div 262144), char_of (128 + r div 4096 mod 64), char_of (128 + r div 64 mod 64), char_of (128 + r mod 64)])"

abbreviation replacement :: string where
  "replacement \<equiv> [CHR 0xEF, CHR 0xBF, CHR 0xBD]"

lemma rune_len_pos: "rune_len s = Some n \<Longrightarrow> 2 \<le> n \<and> n \<le> length s"
  by (induction s rule: rune_len.induct) (auto split: if_splits list.splits)

section \<open>Writing strings\<close>

definition hex4 :: "nat \<Rightarrow> string" where
  "hex4 n = map (\<lambda>d. if d < 10 then char_of (48 + d) else char_of (87 + d))
     [n div 4096 mod 16, n div 256 mod 16, n div 16 mod 16, n mod 16]"

abbreviation dquote :: char where "dquote \<equiv> CHR 0x22"
abbreviation bslash :: char where "bslash \<equiv> CHR 0x5C"

definition json_char :: "char \<Rightarrow> string" where
  "json_char c =
    (if c = bslash \<or> c = dquote then [bslash, c]
     else if c = CHR 0x08 then [bslash, CHR ''b''] else if c = CHR 0x0C then [bslash, CHR ''f'']
     else if c = CHR 0x0A then [bslash, CHR ''n''] else if c = CHR 0x0D then [bslash, CHR ''r'']
     else if c = CHR 0x09 then [bslash, CHR ''t'']
     else if byte c < 32 \<or> c \<in> set ''<>&'' then [bslash, CHR ''u''] @ hex4 (byte c)
     else [c])"

definition is_line_separator :: "string \<Rightarrow> bool" where
  "is_line_separator s = (s = [CHR 0xE2, CHR 0x80, CHR 0xA8] \<or> s = [CHR 0xE2, CHR 0x80, CHR 0xA9])"

function json_text :: "string \<Rightarrow> string" where
  "json_text [] = []"
| "json_text (c # cs) =
    (if byte c < 128 then json_char c @ json_text cs
     else case rune_len (c # cs) of
         None \<Rightarrow> [bslash, CHR ''u''] @ hex4 65533 @ json_text cs
       | Some n \<Rightarrow>
           (if is_line_separator (take n (c # cs)) then [bslash, CHR ''u''] @ hex4 (8192 + byte (cs ! 1) - 128)
            else take n (c # cs)) @ json_text (drop n (c # cs)))"
  by pat_completeness auto
termination
  by (relation "measure length") (auto dest: rune_len_pos)

definition json_string :: "string \<Rightarrow> string" where
  "json_string s = [dquote] @ json_text s @ [dquote]"

section \<open>Parsing\<close>

datatype json = JNull | JBool bool | JNum string | JStr string | JArr "json list" | JObj "(string \<times> json) list"

definition json_space :: "char \<Rightarrow> bool" where
  "json_space c = (c \<in> {CHR '' '', CHR 0x09, CHR 0x0A, CHR 0x0D})"

definition hex_val :: "char \<Rightarrow> nat option" where
  "hex_val c = (let n = byte c in
     if 48 \<le> n \<and> n \<le> 57 then Some (n - 48)
     else if 97 \<le> n \<and> n \<le> 102 then Some (n - 87)
     else if 65 \<le> n \<and> n \<le> 70 then Some (n - 55) else None)"

fun get_u4 :: "string \<Rightarrow> nat option" where
  "get_u4 (a # b # c # d # _) =
    (case (hex_val a, hex_val b, hex_val c, hex_val d) of
       (Some w, Some x, Some y, Some z) \<Rightarrow> Some (((w * 16 + x) * 16 + y) * 16 + z)
     | _ \<Rightarrow> None)"
| "get_u4 _ = None"

definition unescape_char :: "char \<Rightarrow> char option" where
  "unescape_char c = (if c = dquote \<or> c = bslash \<or> c = CHR ''/'' then Some c
     else if c = CHR ''b'' then Some CHR 0x08 else if c = CHR ''f'' then Some CHR 0x0C
     else if c = CHR ''n'' then Some CHR 0x0A else if c = CHR ''r'' then Some CHR 0x0D
     else if c = CHR ''t'' then Some CHR 0x09 else None)"

text \<open>The code point of an escape \<open>\uXXXX\<close>, with the number of bytes after the u it takes.\<close>

definition unicode_escape :: "string \<Rightarrow> (nat \<times> nat) option" where
  "unicode_escape s =
    (case get_u4 s of
       None \<Rightarrow> None
     | Some r \<Rightarrow>
         if 55296 \<le> r \<and> r < 57344 then
           (case (if take 2 (drop 4 s) = [bslash, CHR ''u''] then get_u4 (drop 6 s) else None) of
              Some r1 \<Rightarrow> if r < 56320 \<and> 56320 \<le> r1 \<and> r1 < 57344
                 then Some ((r - 55296) * 1024 + (r1 - 56320) + 65536, 10) else Some (65533, 4)
            | None \<Rightarrow> Some (65533, 4))
         else Some (r, 4))"

function parse_chars :: "string \<Rightarrow> (string \<times> string) option" where
  "parse_chars [] = None"
| "parse_chars (c # cs) =
    (if c = dquote then Some ([], cs)
     else if c = bslash then
       (case cs of
          [] \<Rightarrow> None
        | e # r \<Rightarrow>
            if e = CHR ''u'' then
              (case unicode_escape r of
                 None \<Rightarrow> None
               | Some (u, n) \<Rightarrow> map_option (apfst ((@) (utf8_encode u))) (parse_chars (drop n r)))
            else (case unescape_char e of
                 None \<Rightarrow> None
               | Some x \<Rightarrow> map_option (apfst (Cons x)) (parse_chars r)))
     else if byte c < 32 then None
     else if byte c < 128 then map_option (apfst (Cons c)) (parse_chars cs)
     else case rune_len (c # cs) of
         None \<Rightarrow> map_option (apfst ((@) replacement)) (parse_chars cs)
       | Some n \<Rightarrow> map_option (apfst ((@) (take n (c # cs)))) (parse_chars (drop n (c # cs))))"
  by pat_completeness auto
termination
  by (relation "measure length") (auto dest: rune_len_pos)

definition digits_prefix :: "string \<Rightarrow> (string \<times> string)" where
  "digits_prefix s = (takeWhile is_digit s, dropWhile is_digit s)"

text \<open>A JSON number and what follows it.\<close>

definition parse_number :: "string \<Rightarrow> (string \<times> string) option" where
  "parse_number s =
    (let (sign, s1) = (case s of c # r \<Rightarrow> if c = CHR ''-'' then ([c], r) else ([], s) | [] \<Rightarrow> ([], s));
         (ds, s2) = (case s1 of c # r \<Rightarrow> if c = CHR ''0'' then ([c], r) else digits_prefix s1 | [] \<Rightarrow> ([], [])) in
     if ds = [] then None
     else let frac = (case s2 of c # r \<Rightarrow> if c = CHR ''.'' then
                  (let (fs, r') = digits_prefix r in if fs = [] then None else Some (c # fs, r')) else Some ([], s2)
                | [] \<Rightarrow> Some ([], [])) in
       case frac of None \<Rightarrow> None
       | Some (f, s3) \<Rightarrow>
           let expo = (case s3 of c # r \<Rightarrow> if c = CHR ''e'' \<or> c = CHR ''E'' then
                 (let (sg, r1) = (case r of d # q \<Rightarrow> if d = CHR ''+'' \<or> d = CHR ''-'' then ([d], q) else ([], r) | [] \<Rightarrow> ([], []));
                      (es, r2) = digits_prefix r1 in if es = [] then None else Some (c # sg @ es, r2))
                 else Some ([], s3) | [] \<Rightarrow> Some ([], [])) in
           map_option (\<lambda>(x, s4). (sign @ ds @ f @ x, s4)) expo)"

text \<open>
  A value, at a nesting depth of at most \<open>d\<close> more levels; the second argument bounds
  the number of nested calls, each of which has consumed at least one byte.
\<close>

fun parse_value :: "nat \<Rightarrow> nat \<Rightarrow> string \<Rightarrow> (json \<times> string) option"
  and parse_elems :: "nat \<Rightarrow> nat \<Rightarrow> string \<Rightarrow> (json list \<times> string) option"
  and parse_members :: "nat \<Rightarrow> nat \<Rightarrow> string \<Rightarrow> ((string \<times> json) list \<times> string) option" where
  "parse_value d 0 s = None"
| "parse_value d (Suc n) s =
    (case dropWhile json_space s of
       [] \<Rightarrow> None
     | c # r \<Rightarrow>
         if c = dquote then map_option (apfst JStr) (parse_chars r)
         else if c = CHR ''{'' then
           (case d of 0 \<Rightarrow> None
            | Suc d' \<Rightarrow> if has_prefix (dropWhile json_space r) ''}''
                then Some (JObj [], drop 1 (dropWhile json_space r))
                else map_option (apfst JObj) (parse_members d' n r))
         else if c = CHR ''['' then
           (case d of 0 \<Rightarrow> None
            | Suc d' \<Rightarrow> if has_prefix (dropWhile json_space r) '']''
                then Some (JArr [], drop 1 (dropWhile json_space r))
                else map_option (apfst JArr) (parse_elems d' n r))
         else if has_prefix (c # r) ''null'' then Some (JNull, drop 4 (c # r))
         else if has_prefix (c # r) ''true'' then Some (JBool True, drop 4 (c # r))
         else if has_prefix (c # r) ''false'' then Some (JBool False, drop 5 (c # r))
         else map_option (apfst JNum) (parse_number (c # r)))"
| "parse_elems d 0 s = None"
| "parse_elems d (Suc n) s =
    (case parse_value d n s of
       None \<Rightarrow> None
     | Some (v, r) \<Rightarrow>
         (case dropWhile json_space r of
            [] \<Rightarrow> None
          | c # q \<Rightarrow> if c = CHR '','' then map_option (apfst (Cons v)) (parse_elems d n q)
              else if c = CHR '']'' then Some ([v], q) else None))"
| "parse_members d 0 s = None"
| "parse_members d (Suc n) s =
    (case dropWhile json_space s of
       [] \<Rightarrow> None
     | c # r \<Rightarrow>
         if c \<noteq> dquote then None
         else case parse_chars r of
             None \<Rightarrow> None
           | Some (k, r) \<Rightarrow>
               (case dropWhile json_space r of
                  [] \<Rightarrow> None
                | c # r \<Rightarrow>
                    if c \<noteq> CHR '':'' then None
                    else case parse_value d n r of
                        None \<Rightarrow> None
                      | Some (v, r) \<Rightarrow>
                          (case dropWhile json_space r of
                             [] \<Rightarrow> None
                           | c # q \<Rightarrow> if c = CHR '','' then map_option (apfst (Cons (k, v))) (parse_members d n q)
                               else if c = CHR ''}'' then Some ([(k, v)], q) else None)))"

definition max_nesting :: nat where "max_nesting = 10000"

definition json_parse :: "string \<Rightarrow> json option" where
  "json_parse s = (case parse_value max_nesting (2 * length s + 2) s of
      Some (v, rest) \<Rightarrow> if dropWhile json_space rest = [] then Some v else None
    | None \<Rightarrow> None)"

section \<open>What is written is read back\<close>

function utf8_valid :: "string \<Rightarrow> bool" where
  "utf8_valid [] = True"
| "utf8_valid (c # cs) =
    (if byte c < 128 then utf8_valid cs
     else case rune_len (c # cs) of None \<Rightarrow> False | Some n \<Rightarrow> utf8_valid (drop n (c # cs)))"
  by pat_completeness auto
termination
  by (relation "measure length") (auto dest: rune_len_pos)

lemma ascii_valid: "list_all (\<lambda>c. byte c < 128) s \<Longrightarrow> utf8_valid s"
  by (induction s) auto

lemma hex_val_digit: "d < 16 \<Longrightarrow> hex_val (if d < 10 then char_of (48 + d) else char_of (87 + d)) = Some d"
  by (auto simp: hex_val_def Let_def)

lemma get_u4_hex4:
  assumes "n < 65536"
  shows "get_u4 (hex4 n @ s) = Some n"
proof -
  have step: "m div 16 * 16 + m mod 16 = m" for m :: nat
    by simp
  have "n div 4096 < 16"
    using assms by (simp add: less_mult_imp_div_less)
  moreover have "n div 256 = n div 16 div 16" "n div 4096 = n div 16 div 16 div 16"
    by (simp_all add: div_mult2_eq [symmetric])
  ultimately have "((n div 4096 mod 16 * 16 + n div 256 mod 16) * 16 + n div 16 mod 16) * 16 + n mod 16 = n"
    by (simp only: mod_less step)
  then have "Some (((n div 4096 mod 16 * 16 + n div 256 mod 16) * 16 + n div 16 mod 16) * 16 + n mod 16) = Some n"
    by (simp only:)
  then show ?thesis
    unfolding hex4_def list.map append.simps get_u4.simps
    by (subst hex_val_digit, simp)+ (simp only: prod.case option.case)
qed

lemma length_hex4 [simp]: "length (hex4 n) = 4"
  by (simp add: hex4_def)

lemma parse_unicode:
  assumes "n < 55296"
  shows "parse_chars (bslash # CHR ''u'' # hex4 n @ s) = map_option (apfst ((@) (utf8_encode n))) (parse_chars s)"
  using assms get_u4_hex4 [of n s] by (simp add: unicode_escape_def)

lemma json_char_read:
  assumes "byte c < 128"
  shows "parse_chars (json_char c @ s) = map_option (apfst (Cons c)) (parse_chars s)"
proof -
  have esc: "parse_chars (bslash # CHR ''u'' # hex4 (byte c) @ s) = map_option (apfst (Cons c)) (parse_chars s)"
    using parse_unicode [of "byte c" s] assms by (simp add: utf8_encode_def apfst_def map_prod_def)
  show ?thesis
  proof (cases "c \<in> {bslash, dquote, CHR 0x08, CHR 0x0C, CHR 0x0A, CHR 0x0D, CHR 0x09}")
    case True
    then show ?thesis
      by (auto simp: json_char_def unescape_char_def)
  next
    case False
    show ?thesis
    proof (cases "byte c < 32 \<or> c \<in> set ''<>&''")
      case True
      then have "json_char c = bslash # CHR ''u'' # hex4 (byte c)"
        using False by (simp add: json_char_def)
      then show ?thesis
        using esc by simp
    next
      case plain: False
      then have "json_char c = [c]"
        using False by (simp add: json_char_def)
      then show ?thesis
        using False plain assms by simp
    qed
  qed
qed

lemma rune_len_take:
  assumes "rune_len s = Some n"
  shows "rune_len (take n s @ t) = Some n"
  using assms
  by (induction s rule: rune_len.induct) (auto split: if_splits list.splits)

lemma line_separator_read:
  assumes "is_line_separator (take n s)"
  shows "utf8_encode (8192 + byte (s ! 2) - 128) = take n s"
proof -
  have "s ! 2 = take n s ! 2"
    using assms by (cases "2 < n") (auto simp: is_line_separator_def dest: arg_cong [where f = length])
  then consider "s ! 2 = CHR 0xA8" "take n s = [CHR 0xE2, CHR 0x80, CHR 0xA8]"
    | "s ! 2 = CHR 0xA9" "take n s = [CHR 0xE2, CHR 0x80, CHR 0xA9]"
    using assms unfolding is_line_separator_def by fastforce
  then show ?thesis
    by cases (simp_all add: utf8_encode_def char_of_eq_iff take_bit_eq_mod)
qed

lemma json_text_read:
  "utf8_valid s \<Longrightarrow> parse_chars (json_text s @ dquote # t) = Some (s, t)"
proof (induction s rule: json_text.induct)
  case (2 c cs)
  show ?case
  proof (cases "byte c < 128")
    case True
    then show ?thesis
      using 2 json_char_read [OF True] by simp
  next
    case False
    with 2(4) obtain n where n: "rune_len (c # cs) = Some n" "utf8_valid (drop n (c # cs))"
      by (auto split: option.splits)
    have IH: "parse_chars (json_text (drop n (c # cs)) @ dquote # t) = Some (drop n (c # cs), t)"
      using 2(3) [OF False n(1)] n(2) by simp
    let ?u = "take n (c # cs)"
    let ?X = "json_text (drop n (c # cs)) @ dquote # t"
    have app: "?u @ drop n (c # cs) = c # cs"
      by simp
    show ?thesis
    proof (cases "is_line_separator ?u")
      case True
      have "byte (cs ! 1) < 256"
        by simp
      then have "8192 + byte (cs ! 1) - 128 < 55296"
        by linarith
      then have "parse_chars (bslash # CHR ''u'' # hex4 (8192 + byte (cs ! 1) - 128) @ ?X)
          = map_option (apfst ((@) (utf8_encode (8192 + byte (cs ! 1) - 128)))) (parse_chars ?X)"
        by (rule parse_unicode)
      moreover have "utf8_encode (8192 + byte (cs ! 1) - 128) = ?u"
        using line_separator_read [OF True] by simp
      ultimately have "parse_chars (bslash # CHR ''u'' # hex4 (8192 + byte (cs ! 1) - 128) @ ?X)
          = map_option (apfst ((@) ?u)) (parse_chars ?X)"
        by (simp only:)
      then show ?thesis
        using True False n(1) IH app by simp
    next
      case sep: False
      obtain k where k: "n = Suc k"
        using rune_len_pos [OF n(1)] by (cases n) auto
      have "byte c \<noteq> byte dquote" "byte c \<noteq> byte bslash"
        using False by simp_all
      then have c: "c \<noteq> dquote" "c \<noteq> bslash"
        by auto
      have "parse_chars (?u @ ?X) = map_option (apfst ((@) ?u)) (parse_chars ?X)"
        using rune_len_take [OF n(1), of ?X] c False rune_len_pos [OF n(1)] by (simp add: k)
      then show ?thesis
        using sep False n(1) IH app by simp
    qed
  qed
qed simp

end
