(* ===== verification/Identity.thy ===== *)
theory Identity
  imports Prelude
begin

text \<open>
  Package tlsutil: the identity of a data plane process (identity.go), the URI a
  certificate carries for it, and the bundle of PEM files (certs.go, load.go).
  The functions of net/url that identity.go calls are written out: PathEscape,
  PathUnescape, and Parse as far as the scheme, host and path of its result go.
\<close>

section \<open>Package net/url\<close>

definition is_alpha :: "char \<Rightarrow> bool" where
  "is_alpha c = (is_lower c \<or> CHR ''A'' \<le> c \<and> c \<le> CHR ''Z'')"

definition hex_upper :: "nat \<Rightarrow> char" where
  "hex_upper d = (if d < 10 then char_of (48 + d) else char_of (55 + d))"

definition unhex :: "char \<Rightarrow> nat option" where
  "unhex c = (let n = of_char c :: nat in
     if 48 \<le> n \<and> n \<le> 57 then Some (n - 48)
     else if 97 \<le> n \<and> n \<le> 102 then Some (n - 87)
     else if 65 \<le> n \<and> n \<le> 70 then Some (n - 55) else None)"

definition escape_byte :: "char \<Rightarrow> string" where
  "escape_byte c = (let n = of_char c :: nat in [CHR ''%'', hex_upper (n div 16), hex_upper (n mod 16)])"

text \<open>\<open>shouldEscape\<close> in the mode of a path segment.\<close>

definition segment_char :: "char \<Rightarrow> bool" where
  "segment_char c = (is_alpha c \<or> is_digit c \<or> c \<in> set ''-_.~$&+:=@'')"

definition path_escape :: "string \<Rightarrow> string" where
  "path_escape s = concat (map (\<lambda>c. if segment_char c then [c] else escape_byte c) s)"

text \<open>\<open>unescape\<close> in the modes that change nothing but \<open>%XX\<close>: \<open>None\<close> is the EscapeError.\<close>

fun path_unescape :: "string \<Rightarrow> string option" where
  "path_unescape [] = Some []"
| "path_unescape (c # cs) =
    (if c = CHR ''%'' then
       (case cs of
          a # b # r \<Rightarrow> (case (unhex a, unhex b) of
              (Some x, Some y) \<Rightarrow> map_option (Cons (char_of (16 * x + y))) (path_unescape r)
            | _ \<Rightarrow> None)
        | _ \<Rightarrow> None)
     else map_option (Cons c) (path_unescape cs))"

definition host_char :: "char \<Rightarrow> bool" where
  "host_char c = (is_alpha c \<or> is_digit c \<or> c \<in> set ''!$&()*+,;=:[]<>-_.~'' \<or> c = CHR 0x22 \<or> c = CHR 0x27
     \<or> 128 \<le> (of_char c :: nat))"

fun host_unescape :: "string \<Rightarrow> string option" where
  "host_unescape [] = Some []"
| "host_unescape (c # cs) =
    (if c = CHR ''%'' then
       (case cs of
          a # b # r \<Rightarrow> (case (unhex a, unhex b) of
              (Some x, Some y) \<Rightarrow> if x < 8 \<and> \<not> (a = CHR ''2'' \<and> b = CHR ''5'') then None
                 else map_option (Cons (char_of (16 * x + y))) (host_unescape r)
            | _ \<Rightarrow> None)
        | _ \<Rightarrow> None)
     else if host_char c then map_option (Cons c) (host_unescape cs)
     else None)"

definition userinfo_char :: "char \<Rightarrow> bool" where
  "userinfo_char c = (is_alpha c \<or> is_digit c \<or> c \<in> set ''-._:~!$&()*+,;=%@'' \<or> c = CHR 0x27)"

text \<open>The text around the last separator, as \<open>strings.LastIndex\<close> finds it.\<close>

definition cut_last :: "char \<Rightarrow> string \<Rightarrow> (string \<times> string) option" where
  "cut_last c s = map_option (\<lambda>(a, b). (rev b, rev a)) (cut_char c (rev s))"

text \<open>\<open>parseHost\<close>; an IP literal in brackets is kept as it is, it never is the host krm.\<close>

definition parse_host :: "string \<Rightarrow> string option" where
  "parse_host host =
    (if has_prefix host ''['' then Some host
     else case cut_last CHR '':'' host of
         Some (_, port) \<Rightarrow> if \<forall>c\<in>set port. is_digit c then host_unescape host else None
       | None \<Rightarrow> host_unescape host)"

definition parse_authority :: "string \<Rightarrow> string option" where
  "parse_authority authority =
    (case cut_last CHR ''@'' authority of
       None \<Rightarrow> parse_host authority
     | Some (userinfo, host) \<Rightarrow>
         (if (\<forall>c\<in>set userinfo. userinfo_char c) \<and> path_unescape userinfo \<noteq> None
          then parse_host host else None))"

fun get_scheme :: "bool \<Rightarrow> string \<Rightarrow> string \<Rightarrow> (string \<times> string) option option" where
  "get_scheme first pre [] = Some None"
| "get_scheme first pre (c # cs) =
    (if is_alpha c then get_scheme False (pre @ [c]) cs
     else if is_digit c \<or> c \<in> set ''+-.'' then
       (if first then Some None else get_scheme False (pre @ [c]) cs)
     else if c = CHR '':'' then (if first then None else Some (Some (pre, cs)))
     else Some None)"

record parsed_url =
  pu_scheme :: string
  pu_host :: string
  pu_path :: string

definition is_control :: "char \<Rightarrow> bool" where
  "is_control c = ((of_char c :: nat) < 32 \<or> c = CHR 0x7F)"

definition url_parse_rest :: "string \<Rightarrow> string \<Rightarrow> parsed_url option" where
  "url_parse_rest scheme rest0 =
    (let rest = (case cut_char CHR ''?'' rest0 of None \<Rightarrow> rest0 | Some (r, _) \<Rightarrow> r) in
     if \<not> has_prefix rest ''/'' \<and> scheme \<noteq> [] then
       Some \<lparr>pu_scheme = scheme, pu_host = [], pu_path = []\<rparr>
     else if \<not> has_prefix rest ''/'' \<and> CHR '':'' \<in> set (hd (split_on CHR ''/'' rest)) then None
     else if (scheme \<noteq> [] \<or> \<not> has_prefix rest ''///'') \<and> has_prefix rest ''//'' then
       (let authority = hd (split_on CHR ''/'' (drop 2 rest));
            path = drop (2 + length authority) rest in
        case (parse_authority authority, path_unescape path) of
          (Some host, Some p) \<Rightarrow> Some \<lparr>pu_scheme = scheme, pu_host = host, pu_path = p\<rparr>
        | _ \<Rightarrow> None)
     else map_option (\<lambda>p. \<lparr>pu_scheme = scheme, pu_host = [], pu_path = p\<rparr>) (path_unescape rest))"

definition url_parse :: "string \<Rightarrow> parsed_url option" where
  "url_parse rawURL =
    (let (u, frag) = (case cut_char CHR ''#'' rawURL of None \<Rightarrow> (rawURL, []) | Some p \<Rightarrow> p) in
     if path_unescape frag = None then None
     else if \<exists>c\<in>set u. is_control c then None
     else if u = ''*'' then Some \<lparr>pu_scheme = [], pu_host = [], pu_path = ''*''\<rparr>
     else case get_scheme True [] u of
         None \<Rightarrow> None
       | Some None \<Rightarrow> url_parse_rest [] u
       | Some (Some (scheme, rest)) \<Rightarrow> url_parse_rest (to_lower scheme) rest)"

section \<open>Identities\<close>

datatype tls_role = RoleUnset | RoleSource | RoleTarget

definition role_text :: "tls_role \<Rightarrow> string" where
  "role_text r = (case r of RoleUnset \<Rightarrow> [] | RoleSource \<Rightarrow> ''source'' | RoleTarget \<Rightarrow> ''target'')"

record identity =
  id_runNamespace :: string
  id_runName :: string
  id_role :: tls_role
  id_namespace :: string
  id_name :: string

definition no_identity :: identity where
  "no_identity = \<lparr>id_runNamespace = [], id_runName = [], id_role = RoleUnset, id_namespace = [], id_name = []\<rparr>"

definition SourceIdentity :: "string \<Rightarrow> string \<Rightarrow> string \<Rightarrow> string \<Rightarrow> identity" where
  "SourceIdentity runNamespace runName sourceNamespace sourceName =
     \<lparr>id_runNamespace = runNamespace, id_runName = runName, id_role = RoleSource,
      id_namespace = sourceNamespace, id_name = sourceName\<rparr>"

definition TargetIdentity :: "string \<Rightarrow> string \<Rightarrow> string \<Rightarrow> string \<Rightarrow> identity" where
  "TargetIdentity runNamespace runName targetNamespace targetName =
     \<lparr>id_runNamespace = runNamespace, id_runName = runName, id_role = RoleTarget,
      id_namespace = targetNamespace, id_name = targetName\<rparr>"

definition identity_URI :: "identity \<Rightarrow> string" where
  "identity_URI i = ''spiffe://krm/run/'' @ join ''/''
     [path_escape (id_runNamespace i), path_escape (id_runName i), role_text (id_role i),
      path_escape (id_namespace i), path_escape (id_name i)]"

definition id_unescape :: "string \<Rightarrow> string" where
  "id_unescape value = (case path_unescape value of None \<Rightarrow> value | Some decoded \<Rightarrow> decoded)"

definition ParseIdentity :: "string \<Rightarrow> identity result" where
  "ParseIdentity raw =
    (case url_parse raw of
       None \<Rightarrow> Inl (errorf ''parse %q'' [raw])
     | Some u \<Rightarrow>
         if pu_scheme u \<noteq> ''spiffe'' \<or> pu_host u \<noteq> ''krm'' then Inl (errorf ''unsupported trust domain %q'' [raw])
         else let parts = split_on CHR ''/'' (trim_by (\<lambda>c. c = CHR ''/'') (pu_path u)) in
           if length parts \<noteq> 6 \<or> parts ! 0 \<noteq> ''run'' then Inl (errorf ''invalid identity path %q'' [pu_path u])
           else if parts ! 3 \<noteq> ''source'' \<and> parts ! 3 \<noteq> ''target'' then
             Inl (errorf ''invalid identity role %q'' [parts ! 3])
           else Inr \<lparr>id_runNamespace = id_unescape (parts ! 1), id_runName = id_unescape (parts ! 2),
                     id_role = (if parts ! 3 = ''source'' then RoleSource else RoleTarget),
                     id_namespace = id_unescape (parts ! 4), id_name = id_unescape (parts ! 5)\<rparr>)"

section \<open>Bundles of PEM files\<close>

record tls_bundle =
  tb_caCertPEM :: string
  tb_caKeyPEM :: string
  tb_certPEM :: string
  tb_keyPEM :: string

definition SecretData :: "tls_bundle \<Rightarrow> (string \<times> string) list" where
  "SecretData b = [(''ca.crt'', tb_caCertPEM b), (''tls.crt'', tb_certPEM b), (''tls.key'', tb_keyPEM b)]
     @ (if tb_caKeyPEM b \<noteq> [] then [(''ca.key'', tb_caKeyPEM b)] else [])"

section \<open>Escaping\<close>

lemma hex_upper_unhex [simp]: "d < 16 \<Longrightarrow> unhex (hex_upper d) = Some d"
  by (auto simp: unhex_def hex_upper_def Let_def)

lemma hex_upper_segment: "d < 16 \<Longrightarrow> segment_char (hex_upper d)"
  by (auto simp: segment_char_def is_alpha_def is_digit_def hex_upper_def less_eq_char_def)

lemma byte_div16 [simp]: "(of_char c :: nat) div 16 < 16"
proof -
  have "(of_char c :: nat) < 16 * 16"
    by simp
  then show ?thesis
    by (rule less_mult_imp_div_less)
qed

lemma unescape_escape_byte [simp]: "path_unescape (escape_byte c @ s) = map_option (Cons c) (path_unescape s)"
proof -
  have "16 * ((of_char c :: nat) div 16) + of_char c mod 16 = of_char c"
    by simp
  then show ?thesis
    by (simp add: escape_byte_def Let_def)
qed

lemma percent_not_segment [simp]: "\<not> segment_char CHR ''%''"
  by (simp add: segment_char_def is_alpha_def is_lower_def is_digit_def less_eq_char_def)

lemma unescape_escape [simp]: "path_unescape (path_escape s @ t) = map_option ((@) s) (path_unescape t)"
  by (cases "path_unescape t"; induction s) (auto simp: path_escape_def)

lemma unescape_plain: "CHR ''%'' \<notin> set s \<Longrightarrow> path_unescape (s @ t) = map_option ((@) s) (path_unescape t)"
  by (cases "path_unescape t"; induction s) auto

lemma id_unescape_plain: "CHR ''%'' \<notin> set s \<Longrightarrow> id_unescape s = s"
  using unescape_plain [of s "[]"] by (simp add: id_unescape_def)

lemma path_escape_chars: "c \<in> set (path_escape s) \<Longrightarrow> segment_char c \<or> c = CHR ''%''"
  by (auto simp: path_escape_def escape_byte_def Let_def hex_upper_segment split: if_splits)

text \<open>Characters that separate the parts of a URL are never left in an escaped segment.\<close>

lemma segment_char_safe:
  assumes "segment_char c \<or> c = CHR ''%''"
  shows "c \<notin> {CHR ''/'', CHR ''#'', CHR ''?''}" "\<not> is_control c"
  using assms
  by (auto simp: segment_char_def is_alpha_def is_lower_def is_digit_def less_eq_char_def is_control_def)

lemma path_escape_safe:
  assumes "c \<in> set (path_escape s)"
  shows "c \<notin> {CHR ''/'', CHR ''#'', CHR ''?''}" "\<not> is_control c"
  using path_escape_chars [OF assms] by (rule segment_char_safe)+

definition uri_part :: "string \<Rightarrow> bool" where
  "uri_part s = (s \<noteq> [] \<and> CHR ''%'' \<notin> set s \<and> CHR ''/'' \<notin> set s)"

definition uri_identity :: "identity \<Rightarrow> bool" where
  "uri_identity i = (id_role i \<noteq> RoleUnset \<and> uri_part (id_runNamespace i) \<and> uri_part (id_runName i)
     \<and> uri_part (id_namespace i) \<and> uri_part (id_name i))"

text \<open>The path of the URI, and what remains of it after decoding.\<close>

definition uri_tail :: "identity \<Rightarrow> string" where
  "uri_tail i = ''/run/'' @ join ''/''
     [path_escape (id_runNamespace i), path_escape (id_runName i), role_text (id_role i),
      path_escape (id_namespace i), path_escape (id_name i)]"

definition decoded_tail :: "identity \<Rightarrow> string" where
  "decoded_tail i = ''/run/'' @ join ''/''
     [id_runNamespace i, id_runName i, role_text (id_role i), id_namespace i, id_name i]"

definition url_char :: "char \<Rightarrow> bool" where
  "url_char c = (c = CHR ''/'' \<or> c = CHR ''%'' \<or> segment_char c)"

lemma role_text_segment: "list_all segment_char (role_text r)"
proof (cases r)
  case RoleUnset
  then show ?thesis
    by (simp add: role_text_def)
next
  case RoleSource
  have "list_all segment_char ''source''"
    by code_simp
  with RoleSource show ?thesis
    by (simp add: role_text_def)
next
  case RoleTarget
  have "list_all segment_char ''target''"
    by code_simp
  with RoleTarget show ?thesis
    by (simp add: role_text_def)
qed

lemma role_text_safe: "c \<in> set (role_text r) \<Longrightarrow> segment_char c"
  using role_text_segment [of r] unfolding list_all_iff by blast

lemma url_char_safe:
  assumes "url_char c"
  shows "c \<noteq> CHR ''#''" "c \<noteq> CHR ''?''" "\<not> is_control c"
proof -
  have "\<not> is_control CHR ''/''"
    by code_simp
  then show "c \<noteq> CHR ''#''" "c \<noteq> CHR ''?''" "\<not> is_control c"
    using assms segment_char_safe [of c] unfolding url_char_def by blast+
qed

lemma url_text_safe:
  assumes "list_all url_char s"
  shows "cut_char CHR ''#'' s = None" "cut_char CHR ''?'' s = None" "\<not> (\<exists>c\<in>set s. is_control c)"
proof -
  have chars: "url_char c" if "c \<in> set s" for c
    using assms that by (simp add: list_all_iff)
  show "cut_char CHR ''#'' s = None" "cut_char CHR ''?'' s = None"
    unfolding cut_char_None using url_char_safe(1,2) [OF chars] by auto
  show "\<not> (\<exists>c\<in>set s. is_control c)"
    using url_char_safe(3) [OF chars] by auto
qed

lemma trim_right_idle: "s \<noteq> [] \<Longrightarrow> \<not> P (last s) \<Longrightarrow> trim_right P s = s"
  by (cases s rule: rev_cases) (auto simp: trim_right_def)

lemma get_scheme_alpha:
  "list_all is_alpha s \<Longrightarrow> get_scheme first pre (s @ t) = get_scheme (first \<and> s = []) (pre @ s) t"
  by (induction s arbitrary: first pre) auto

lemma path_escape_url: "list_all url_char (path_escape s)"
  unfolding list_all_iff url_char_def using path_escape_chars by blast

lemma uri_tail_url: "list_all url_char (uri_tail i)"
proof -
  have "list_all url_char ''/run/''"
    by code_simp
  moreover have "list_all url_char (role_text r)" for r
    using role_text_safe unfolding list_all_iff url_char_def by blast
  moreover have "url_char CHR ''/''"
    by (simp add: url_char_def)
  ultimately show ?thesis
    by (simp add: uri_tail_def path_escape_url)
qed

lemma unescape_tail: "path_unescape (uri_tail i) = Some (decoded_tail i)"
proof -
  have "CHR ''%'' \<notin> set (role_text (id_role i))"
    using role_text_safe percent_not_segment by blast
  moreover have "path_unescape (path_escape s) = Some s" for s
    using unescape_escape [of s "[]"] by simp
  ultimately show ?thesis
    by (simp add: uri_tail_def decoded_tail_def unescape_plain)
qed

lemma url_parse_URI:
  "url_parse (identity_URI i) = Some \<lparr>pu_scheme = ''spiffe'', pu_host = ''krm'', pu_path = decoded_tail i\<rparr>"
proof -
  have uri: "identity_URI i = ''spiffe://krm'' @ uri_tail i"
    by (simp add: identity_URI_def uri_tail_def)
  have "list_all url_char ''spiffe:''" "list_all url_char ''//krm''"
    by code_simp+
  then have all: "list_all url_char (''//krm'' @ uri_tail i)" "list_all url_char (identity_URI i)"
    unfolding uri by (simp_all add: uri_tail_url)
  note no_frag = url_text_safe(1) [OF all(2)] and no_query = url_text_safe(2) [OF all(1)]
    and no_ctl = url_text_safe(3) [OF all(2)]
  have alpha: "list_all is_alpha ''spiffe''" and colon: "\<not> is_alpha CHR '':''" "\<not> is_digit CHR '':''"
    by code_simp+
  have "get_scheme True [] (''spiffe'' @ CHR '':'' # ''//krm'' @ uri_tail i) = Some (Some (''spiffe'', ''//krm'' @ uri_tail i))"
    by (subst get_scheme_alpha [OF alpha]) (simp add: colon)
  then have scheme: "get_scheme True [] (identity_URI i) = Some (Some (''spiffe'', ''//krm'' @ uri_tail i))"
    by (simp add: uri)
  obtain t where t: "uri_tail i = CHR ''/'' # t"
    by (simp add: uri_tail_def)
  have authority: "hd (split_on CHR ''/'' (''krm'' @ uri_tail i)) = ''krm''"
    by (simp only: t) (subst split_on_append_sep; simp)
  have host: "parse_authority ''krm'' = Some ''krm''"
    by code_simp
  have lower: "to_lower ''spiffe'' = ''spiffe''"
    by code_simp
  have "url_parse_rest ''spiffe'' (''//krm'' @ uri_tail i)
      = Some \<lparr>pu_scheme = ''spiffe'', pu_host = ''krm'', pu_path = decoded_tail i\<rparr>"
    using authority no_query by (simp add: url_parse_rest_def has_prefix_def host unescape_tail Let_def)
  then show ?thesis
    using no_ctl lower scheme unfolding url_parse_def no_frag by (simp add: Let_def uri del: get_scheme.simps)
qed

lemma decoded_tail_parts:
  assumes "uri_identity i"
  shows "split_on CHR ''/'' (trim_by (\<lambda>c. c = CHR ''/'') (decoded_tail i))
    = [''run'', id_runNamespace i, id_runName i, role_text (id_role i), id_namespace i, id_name i]"
    (is "_ = ?parts")
proof -
  let ?s = "join ''/'' ?parts"
  have "trim_left (\<lambda>c. c = CHR ''/'') (decoded_tail i) = ?s"
    by (simp add: trim_left_def decoded_tail_def)
  moreover have name: "id_name i \<noteq> []" "CHR ''/'' \<notin> set (id_name i)"
    using assms by (simp_all add: uri_identity_def uri_part_def)
  then have last: "last (id_name i) \<noteq> CHR ''/''"
    by (metis last_in_set)
  have "trim_right (\<lambda>c. c = CHR ''/'') ?s = ?s"
    by (intro trim_right_idle) (use name(1) last in auto)
  moreover have "CHR ''/'' \<notin> set (role_text (id_role i))"
    using role_text_safe segment_char_safe(1) by blast
  then have "split_on CHR ''/'' ?s = ?parts"
    using assms by (intro split_on_join) (auto simp: uri_identity_def uri_part_def)
  ultimately show ?thesis
    by (simp add: trim_by_def)
qed

lemma parse_identity_URI:
  assumes k: "uri_identity k"
  shows "ParseIdentity (identity_URI k) = Inr k"
proof -
  have "id_role k = RoleSource \<or> id_role k = RoleTarget"
    using k by (cases "id_role k") (auto simp: uri_identity_def)
  moreover have "id_unescape (id_runNamespace k) = id_runNamespace k" "id_unescape (id_runName k) = id_runName k"
    "id_unescape (id_namespace k) = id_namespace k" "id_unescape (id_name k) = id_name k"
    using k by (simp_all add: id_unescape_plain uri_identity_def uri_part_def)
  ultimately show ?thesis
    unfolding ParseIdentity_def url_parse_URI option.case parsed_url.simps decoded_tail_parts [OF k]
    by (elim disjE) (simp_all add: role_text_def)
qed

text \<open>C34. An identity survives its certificate: parsing the URI that identity.go writes into a
  certificate gives the identity back, for parts that are not empty and contain neither a
  percent sign nor a slash, as names of Kubernetes objects do not; and the URIs of two such
  identities differ when the identities differ.\<close>

theorem ParseIdentity_URI:
  assumes "uri_identity i"
  shows "ParseIdentity (identity_URI i) = Inr i
    \<and> (\<forall>j. uri_identity j \<longrightarrow> identity_URI j = identity_URI i \<longrightarrow> j = i)"
  using assms parse_identity_URI by (metis sum.inject(2))

theorem ParseIdentity_URI_witness:
  "ParseIdentity (identity_URI (SourceIdentity ''ops'' ''nightly'' ''db'' ''data'')) =
     Inr (SourceIdentity ''ops'' ''nightly'' ''db'' ''data'')"
proof -
  have "uri_identity (SourceIdentity ''ops'' ''nightly'' ''db'' ''data'')"
    by (simp add: uri_identity_def uri_part_def SourceIdentity_def)
  then show ?thesis
    by (rule ParseIdentity_URI [THEN conjunct1])
qed

end
