(* ===== verification/Transport.thy ===== *)
theory Transport
  imports Json Identity Snapshot_Store Sha256
begin

text \<open>
  dataplane/transport.go: the header that opens a transfer, the sources a target
  expects, the destination it prepares below the partial run (seeded with hard
  links from the latest snapshot), the receiver of source transfers and the server
  of restores.

  A TLS connection is a record of what the handshake yields and of the bytes that
  arrive; the sequence of connections a listener accepts is a list, and a receiver
  that waits for more connections than come does not return (\<open>None\<close>). The rsync
  process at the end of the tunnel is not part of the repository: it is the
  parameter \<open>tunnel\<close>, a function from the served directory, the read-only flag, the
  connection and the file system to an error and a file system.
\<close>

section \<open>Data\<close>

record expected_transfer_source =
  ets_identity :: identity
  ets_destination :: string

record expected_restore_writer =
  erw_identity :: identity
  erw_snapshot :: string
  erw_source :: string

record transfer_header =
  th_destination :: string
  th_snapshot :: string
  th_source :: string
  th_protocol :: string

definition no_header :: transfer_header where
  "no_header = \<lparr>th_destination = [], th_snapshot = [], th_source = [], th_protocol = []\<rparr>"

text \<open>Bytes still to arrive, bytes sent, and how many further writes succeed (all, if \<open>None\<close>).\<close>

record conn =
  cn_in :: string
  cn_out :: string
  cn_writes :: "nat option"

definition conn_write :: "conn \<Rightarrow> string \<Rightarrow> goerr option \<times> conn" where
  "conn_write c bs = (case cn_writes c of
      None \<Rightarrow> (None, c\<lparr>cn_out := cn_out c @ bs\<rparr>)
    | Some 0 \<Rightarrow> (Some (errorf ''write: broken pipe'' []), c)
    | Some (Suc k) \<Rightarrow> (None, c\<lparr>cn_out := cn_out c @ bs, cn_writes := Some k\<rparr>))"

definition read_full :: "conn \<Rightarrow> nat \<Rightarrow> string result \<times> conn" where
  "read_full c n = (if n \<le> length (cn_in c) then (Inr (take n (cn_in c)), c\<lparr>cn_in := drop n (cn_in c)\<rparr>)
     else (Inl (errorf (if cn_in c = [] then ''EOF'' else ''unexpected EOF'') []), c\<lparr>cn_in := []\<rparr>))"

section \<open>The header of a transfer\<close>

abbreviation maxTransferHeaderBytes :: nat where "maxTransferHeaderBytes \<equiv> 64 * 1024"
abbreviation transferProtocolRsync :: string where "transferProtocolRsync \<equiv> ''rsync''"

definition json_field :: "string \<Rightarrow> string \<Rightarrow> string" where
  "json_field name value = json_string name @ '':'' @ json_string value"

definition marshal_header :: "transfer_header \<Rightarrow> string" where
  "marshal_header h = ''{'' @ join '','' ([json_field ''destination'' (th_destination h)]
     @ (if th_snapshot h \<noteq> [] then [json_field ''snapshot'' (th_snapshot h)] else [])
     @ (if th_source h \<noteq> [] then [json_field ''source'' (th_source h)] else [])
     @ [json_field ''protocol'' (th_protocol h)]) @ ''}''"

text \<open>\<open>foldName\<close> of encoding/json: case, the long s and the Kelvin sign.\<close>

fun fold_name :: "string \<Rightarrow> string" where
  "fold_name (a # b # c # r) =
    (if a = CHR 0xC5 \<and> b = CHR 0xBF then CHR ''s'' # fold_name (c # r)
     else if a = CHR 0xE2 \<and> b = CHR 0x84 \<and> c = CHR 0xAA then CHR ''k'' # fold_name r
     else lower_char a # fold_name (b # c # r))"
| "fold_name [a, b] = (if a = CHR 0xC5 \<and> b = CHR 0xBF then ''s'' else [lower_char a, lower_char b])"
| "fold_name [a] = [lower_char a]"
| "fold_name [] = []"

text \<open>One member of the object: \<open>null\<close> and unknown names have no effect, a value of another kind is an error.\<close>

definition decode_member :: "string \<times> json \<Rightarrow> transfer_header \<Rightarrow> transfer_header result" where
  "decode_member m h = (case m of (k, v) \<Rightarrow>
    let name = fold_name k in
    if name \<notin> {''destination'', ''snapshot'', ''source'', ''protocol''} then Inr h
    else case v of
        JNull \<Rightarrow> Inr h
      | JStr s \<Rightarrow> Inr (if name = ''destination'' then h\<lparr>th_destination := s\<rparr>
          else if name = ''snapshot'' then h\<lparr>th_snapshot := s\<rparr>
          else if name = ''source'' then h\<lparr>th_source := s\<rparr> else h\<lparr>th_protocol := s\<rparr>)
      | _ \<Rightarrow> Inl (errorf ''json: cannot unmarshal into Go struct field transferHeader.%s of type string'' [k]))"

definition unmarshal_header :: "string \<Rightarrow> transfer_header result" where
  "unmarshal_header bs = (case json_parse bs of
      None \<Rightarrow> Inl (errorf ''invalid character in JSON input'' [])
    | Some JNull \<Rightarrow> Inr no_header
    | Some (JObj ms) \<Rightarrow> fold_result decode_member ms no_header
    | Some _ \<Rightarrow> Inl (errorf ''json: cannot unmarshal into Go value of type transferHeader'' []))"

definition put_uint32 :: "nat \<Rightarrow> string" where
  "put_uint32 n = map char_of (be_bytes 4 n)"

definition get_uint32 :: "string \<Rightarrow> nat" where
  "get_uint32 bs = foldl (\<lambda>a c. a * 256 + of_char c) 0 bs"

definition writeTransferHeader :: "conn \<Rightarrow> transfer_header \<Rightarrow> goerr option \<times> conn" where
  "writeTransferHeader w header = (let data = marshal_header header in
     if length data > maxTransferHeaderBytes then (Some (errorf ''transfer header is too large'' []), w)
     else case conn_write w (put_uint32 (length data)) of
         (Some e, w) \<Rightarrow> (Some e, w)
       | (None, w) \<Rightarrow> conn_write w data)"

definition readTransferHeader :: "conn \<Rightarrow> transfer_header result \<times> conn" where
  "readTransferHeader r =
    (case read_full r 4 of
       (Inl e, r) \<Rightarrow> (Inl e, r)
     | (Inr prefix4, r) \<Rightarrow> let n = get_uint32 prefix4 in
         if n = 0 \<or> n > maxTransferHeaderBytes then (Inl (errorf ''invalid transfer header size %d'' [dec_of_nat n]), r)
         else (case read_full r n of
             (Inl e, r) \<Rightarrow> (Inl e, r)
           | (Inr data, r) \<Rightarrow> (unmarshal_header data, r)))"

section \<open>Expected sources\<close>

definition parseSourceSpec :: "string \<Rightarrow> (string \<times> string \<times> string) result" where
  "parseSourceSpec value =
    (case cut_char CHR ''='' value of
       None \<Rightarrow> Inr ([], [], value)
     | Some (left, right) \<Rightarrow>
         (case cut_char CHR ''/'' left of
            None \<Rightarrow> Inl (errorf ''source identity %q must be namespace/name'' [left])
          | Some (namespace, name) \<Rightarrow>
              if namespace = [] \<or> name = [] then Inl (errorf ''source identity %q must be namespace/name'' [left])
              else if right = [] then Inl (errorf ''source destination is required'' [])
              else Inr (namespace, name, right)))"

text \<open>The loop returns the expected transfers and the finalize sources in order of the values.\<close>

fun parse_expected :: "string \<Rightarrow> string \<Rightarrow> string \<Rightarrow> bool \<Rightarrow> string list
    \<Rightarrow> (expected_transfer_source list \<times> string list) result" where
  "parse_expected runNamespace runName runID mirror [] = Inr ([], [])"
| "parse_expected runNamespace runName runID mirror (value # values) =
    (case parseSourceSpec value of
       Inl e \<Rightarrow> Inl e
     | Inr (sourceNamespace, sourceName, destination) \<Rightarrow>
         (case NormalizeTargetSubpath destination of
            Inl e \<Rightarrow> Inl (wrapf ''invalid source destination %q: %w'' [destination] e)
          | Inr finalizeDestination \<Rightarrow>
              (case parse_expected runNamespace runName runID mirror values of
                 Inl e \<Rightarrow> Inl e
               | Inr (out, finalizeSources) \<Rightarrow>
                   if sourceNamespace = [] \<or> sourceName = [] then Inr (out, finalizeDestination # finalizeSources)
                   else let transferDestination =
                       (if mirror then (if finalizeDestination = [] then ''.'' else finalizeDestination)
                        else path_join [''.partial'', runID, finalizeDestination])
                     in Inr (\<lparr>ets_identity = SourceIdentity runNamespace runName sourceNamespace sourceName,
                              ets_destination = transferDestination\<rparr> # out, finalizeDestination # finalizeSources))))"

definition ParseExpectedTransferSourcesWithStrategy ::
    "string \<Rightarrow> string \<Rightarrow> string \<Rightarrow> bool \<Rightarrow> string list \<Rightarrow> (expected_transfer_source list \<times> string list) result" where
  "ParseExpectedTransferSourcesWithStrategy runNamespace runName runID mirror values =
    (case parse_expected runNamespace runName runID mirror values of
       Inl e \<Rightarrow> Inl e
     | Inr (out, finalizeSources) \<Rightarrow> Inr (out, sort finalizeSources))"

definition ParseExpectedTransferSources ::
    "string \<Rightarrow> string \<Rightarrow> string \<Rightarrow> string list \<Rightarrow> (expected_transfer_source list \<times> string list) result" where
  "ParseExpectedTransferSources runNamespace runName runID values =
     ParseExpectedTransferSourcesWithStrategy runNamespace runName runID False values"

section \<open>Preparing the destination\<close>

definition seedPartialDestination :: "path \<Rightarrow> string \<Rightarrow> fs \<Rightarrow> bool io" where
  "seedPartialDestination root destination f =
    (case NormalizeRelativePath destination of
       Inl e \<Rightarrow> (Inl (wrapf ''invalid destination: %w'' [] e), f)
     | Inr destination \<Rightarrow>
         if destination \<noteq> ''.partial'' \<and> \<not> has_prefix destination ''.partial/'' then
           (Inl (errorf ''destination %q is not under .partial'' [destination]), f)
         else let parts = split_on CHR ''/'' destination in
           if length parts < 3 \<or> parts ! 0 \<noteq> ''.partial'' \<or> parts ! 1 = [] then
             (Inl (errorf ''destination %q must be under .partial/<run>'' [destination]), f)
           else let latestSource = path_below root (join ''/'' (''latest'' # drop 2 parts));
                    destinationRoot = path_below root destination in
             (case ensureInside root destinationRoot of Inl e \<Rightarrow> (Inl e, f) | Inr _ \<Rightarrow>
             (case ensureInside root latestSource of Inl e \<Rightarrow> (Inl e, f) | Inr _ \<Rightarrow>
             (case os_remove_all f destinationRoot of (Inl e, f) \<Rightarrow> (Inl e, f) | (Inr _, f) \<Rightarrow>
             (case os_stat f latestSource of
                Inr info \<Rightarrow>
                  if info \<noteq> DirN then (Inl (errorf ''latest source %s is not a directory'' [path_string latestSource]), f)
                  else (case linkTree latestSource destinationRoot f of
                      (Inl e, f) \<Rightarrow> (Inl (wrapf ''seed destination from latest: %w'' [] e), snd (os_remove_all f destinationRoot))
                    | (Inr _, f) \<Rightarrow> (Inr True, f))
              | Inl e \<Rightarrow>
                  if \<not> errors_is ENOENT e then (Inl e, f)
                  else (case os_mkdir_all f destinationRoot of
                      (Inl e, f) \<Rightarrow> (Inl e, f)
                    | (Inr _, f) \<Rightarrow> (Inr False, f)))))))"

definition prepareTransferDestination :: "path \<Rightarrow> string \<Rightarrow> bool \<Rightarrow> fs \<Rightarrow> bool io" where
  "prepareTransferDestination root destination mirror f =
    (if \<not> mirror then seedPartialDestination root destination f
     else case NormalizeTargetSubpath destination of
         Inl e \<Rightarrow> (Inl (wrapf ''invalid destination: %w'' [] e), f)
       | Inr destination \<Rightarrow> let destinationRoot = path_below root destination in
           (case ensureInside root destinationRoot of Inl e \<Rightarrow> (Inl e, f) | Inr _ \<Rightarrow>
           (case os_mkdir_all f destinationRoot of (Inl e, f) \<Rightarrow> (Inl e, f) | (Inr _, f) \<Rightarrow> (Inr False, f))))"

section \<open>The receiver\<close>

record tls_conn =
  tc_isTLS :: bool
  tc_handshake :: "goerr option"
  tc_peerURIs :: "string list list"
  tc_conn :: conn

text \<open>The identity in the first certificate: the first of its URIs that parses.\<close>

fun first_identity :: "string list \<Rightarrow> identity option" where
  "first_identity [] = None"
| "first_identity (uri # uris) = (case ParseIdentity uri of Inr i \<Rightarrow> Some i | Inl _ \<Rightarrow> first_identity uris)"

definition peerIdentity :: "string list list \<Rightarrow> identity result" where
  "peerIdentity certs = (case certs of
      [] \<Rightarrow> Inl (errorf ''peer certificate is required'' [])
    | uris # _ \<Rightarrow> (case first_identity uris of
        None \<Rightarrow> Inl (errorf ''peer certificate does not contain a kube-rsync-machine identity'' [])
      | Some i \<Rightarrow> Inr i))"

type_synonym tunnel = "path \<Rightarrow> bool \<Rightarrow> conn \<Rightarrow> fs \<Rightarrow> goerr option \<times> fs"

definition receiveTransfer ::
    "tunnel \<Rightarrow> path \<Rightarrow> (identity \<times> string) list \<Rightarrow> tls_conn \<Rightarrow> bool \<Rightarrow> fs \<Rightarrow> (identity \<times> goerr option) \<times> fs" where
  "receiveTransfer tunnel root expected c mirror f =
    (if \<not> tc_isTLS c then ((no_identity, Some (errorf ''connection is not TLS'' [])), f)
     else case tc_handshake c of Some e \<Rightarrow> ((no_identity, Some e), f) | None \<Rightarrow>
     (case peerIdentity (tc_peerURIs c) of Inl e \<Rightarrow> ((no_identity, Some e), f) | Inr identity \<Rightarrow>
     (case map_of expected identity of
        None \<Rightarrow> ((identity, Some (errorf ''unexpected sender identity %s'' [identity_URI identity])), f)
      | Some expectedDestination \<Rightarrow>
     (case readTransferHeader (tc_conn c) of (Inl e, _) \<Rightarrow> ((identity, Some e), f) | (Inr header, r) \<Rightarrow>
     (case NormalizeTargetSubpath (th_destination header) of
        Inl e \<Rightarrow> ((identity, Some (wrapf ''invalid sender destination: %w'' [] e)), f)
      | Inr destination \<Rightarrow>
          if destination \<noteq> expectedDestination then
            ((identity, Some (errorf ''sender %s requested destination %q, expected %q''
               [identity_URI identity, destination, expectedDestination])), f)
          else let destinationRoot = path_below root destination in
            (case prepareTransferDestination root destination mirror f of
               (Inl e, f) \<Rightarrow> ((identity, Some e), f)
             | (Inr seeded, f) \<Rightarrow>
                 if th_protocol header \<noteq> transferProtocolRsync then
                   ((identity, Some (errorf ''unsupported transfer protocol %q'' [th_protocol header])), f)
                 else (case tunnel destinationRoot False r f of (err, f) \<Rightarrow> ((identity, err), f))))))))"

record target_receiver_options =
  tro_targetRoot :: string
  tro_runID :: string
  tro_mirror :: bool
  tro_sources :: "expected_transfer_source list"
  tro_continueOnTransferError :: bool

fun expected_map :: "expected_transfer_source list \<Rightarrow> (identity \<times> string) list \<Rightarrow> (identity \<times> string) list result" where
  "expected_map [] expected = Inr expected"
| "expected_map (source # sources) expected =
    (if ets_identity source = no_identity then Inl (errorf ''source identity is required'' [])
     else case NormalizeTargetSubpath (ets_destination source) of
         Inl e \<Rightarrow> Inl (wrapf ''invalid destination for %s: %w'' [identity_URI (ets_identity source)] e)
       | Inr destination \<Rightarrow> expected_map sources (alist_put (ets_identity source) destination expected))"

text \<open>
  The accept loop. It waits for the result of each connection before it accepts
  the next one, so transfers are handled one at a time. \<open>None\<close>: it waits for a
  connection that never comes.
\<close>

fun receive_loop ::
    "tunnel \<Rightarrow> path \<Rightarrow> (identity \<times> string) list \<Rightarrow> bool \<Rightarrow> bool \<Rightarrow> identity list \<Rightarrow> (tls_conn result) list \<Rightarrow> fs
       \<Rightarrow> (goerr option \<times> fs) option" where
  "receive_loop tunnel root expected mirror goOn completed accepts f =
    (if length completed \<ge> length expected then Some (None, f)
     else case accepts of
         [] \<Rightarrow> None
       | Inl e # _ \<Rightarrow> Some (Some e, f)
       | Inr c # rest \<Rightarrow>
           (case receiveTransfer tunnel root expected c mirror f of
              ((identity, Some e), f) \<Rightarrow>
                if goOn then receive_loop tunnel root expected mirror goOn completed rest f else Some (Some e, f)
            | ((identity, None), f) \<Rightarrow>
                receive_loop tunnel root expected mirror goOn (List.insert identity completed) rest f))"

declare receive_loop.simps [simp del]

definition ServeTargetReceiver ::
    "tunnel \<Rightarrow> path \<Rightarrow> goerr option \<Rightarrow> (tls_conn result) list \<Rightarrow> target_receiver_options \<Rightarrow> fs \<Rightarrow> (goerr option \<times> fs) option" where
  "ServeTargetReceiver tunnel cwd tlsConfig accepts opts f =
    (if tro_targetRoot opts = [] \<or> tro_runID opts = [] then
       Some (Some (errorf ''target root and run id are required'' []), f)
     else if tro_sources opts = [] then Some (None, f)
     else let root = abs_path cwd (tro_targetRoot opts) in
       case expected_map (tro_sources opts) [] of
         Inl e \<Rightarrow> Some (Some e, f)
       | Inr expected \<Rightarrow>
           (case tlsConfig of Some e \<Rightarrow> Some (Some e, f) | None \<Rightarrow>
             receive_loop tunnel root expected (tro_mirror opts) (tro_continueOnTransferError opts) [] accepts f))"

section \<open>Serving a restore\<close>

definition pathForError :: "string list \<Rightarrow> string" where
  "pathForError parts = join ''/'' parts"

definition restore_source_root :: "path \<Rightarrow> string \<Rightarrow> string \<Rightarrow> path" where
  "restore_source_root root snapshot source =
    (if snapshot = ''current'' then path_below root source else path_below (path_below root snapshot) source)"

definition serveRestoreTransfer ::
    "tunnel \<Rightarrow> path \<Rightarrow> expected_restore_writer \<Rightarrow> tls_conn \<Rightarrow> fs \<Rightarrow> goerr option \<times> fs" where
  "serveRestoreTransfer tunnel root expected c f =
    (if \<not> tc_isTLS c then (Some (errorf ''connection is not TLS'' []), f)
     else case tc_handshake c of Some e \<Rightarrow> (Some e, f) | None \<Rightarrow>
     (case peerIdentity (tc_peerURIs c) of Inl e \<Rightarrow> (Some e, f) | Inr identity \<Rightarrow>
      if identity \<noteq> erw_identity expected then
        (Some (errorf ''unexpected restore writer identity %s'' [identity_URI identity]), f)
      else
     (case readTransferHeader (tc_conn c) of (Inl e, _) \<Rightarrow> (Some e, f) | (Inr header, r) \<Rightarrow>
     (case NormalizeRelativePath (th_snapshot header) of
        Inl e \<Rightarrow> (Some (wrapf ''invalid requested restore snapshot: %w'' [] e), f)
      | Inr snapshot \<Rightarrow>
     (case NormalizeTargetSubpath (th_source header) of
        Inl e \<Rightarrow> (Some (wrapf ''invalid requested restore source: %w'' [] e), f)
      | Inr source \<Rightarrow>
          if snapshot \<noteq> erw_snapshot expected \<or> source \<noteq> erw_source expected then
            (Some (errorf ''restore writer requested %q/%q, expected %q/%q''
               [snapshot, source, erw_snapshot expected, erw_source expected]), f)
          else let sourceRoot = restore_source_root root snapshot source in
            (case ensureInside root sourceRoot of Inl e \<Rightarrow> (Some e, f) | Inr _ \<Rightarrow>
            (case os_stat f sourceRoot of
               Inl e \<Rightarrow> (Some (wrapf ''restore source %q is not accessible: %w'' [pathForError [snapshot, source]] e), f)
             | Inr info \<Rightarrow>
                 if info \<noteq> DirN then
                   (Some (errorf ''restore source %q is not a directory'' [pathForError [snapshot, source]]), f)
                 else if th_protocol header \<noteq> transferProtocolRsync then
                   (Some (errorf ''unsupported restore transfer protocol %q'' [th_protocol header]), f)
                 else tunnel sourceRoot True r f)))))))"

definition ServeRestoreTarget ::
    "tunnel \<Rightarrow> path \<Rightarrow> goerr option \<Rightarrow> tls_conn result \<Rightarrow> string \<Rightarrow> expected_restore_writer \<Rightarrow> fs \<Rightarrow> goerr option \<times> fs" where
  "ServeRestoreTarget tunnel cwd tlsConfig accept targetRoot writer f =
    (if targetRoot = [] then (Some (errorf ''target root is required'' []), f)
     else if erw_identity writer = no_identity then (Some (errorf ''restore writer identity is required'' []), f)
     else case NormalizeRelativePath (erw_snapshot writer) of
         Inl e \<Rightarrow> (Some (wrapf ''invalid restore snapshot: %w'' [] e), f)
       | Inr snapshot \<Rightarrow>
           (case NormalizeTargetSubpath (erw_source writer) of
              Inl e \<Rightarrow> (Some (wrapf ''invalid restore source: %w'' [] e), f)
            | Inr source \<Rightarrow>
                let root = abs_path cwd targetRoot in
                (case tlsConfig of Some e \<Rightarrow> (Some e, f) | None \<Rightarrow>
                (case accept of Inl e \<Rightarrow> (Some e, f) | Inr c \<Rightarrow>
                   serveRestoreTransfer tunnel root
                     \<lparr>erw_identity = erw_identity writer, erw_snapshot = snapshot, erw_source = source\<rparr> c f))))"

section \<open>The sending sides\<close>

text \<open>
  \<open>bridgeLocalRsyncToTarget\<close> and \<open>bridgeLocalRsyncFromTarget\<close>: the local rsync
  connects (or not), the target is dialled (or not), the header is sent, and bytes
  are copied both ways until one side closes, which \<open>proxy\<close> reports.
\<close>

definition bridge ::
    "string \<Rightarrow> goerr option \<Rightarrow> conn result \<Rightarrow> (conn \<Rightarrow> goerr option \<times> conn) \<Rightarrow> transfer_header \<Rightarrow> goerr option \<times> conn option" where
  "bridge what localAccept dial proxy header =
    (case localAccept of Some e \<Rightarrow> (Some e, None) | None \<Rightarrow>
    (case dial of
       Inl e \<Rightarrow> (Some (wrapf (''connect '' @ what @ '': %w'') [] e), None)
     | Inr target \<Rightarrow>
         (case writeTransferHeader target header of
            (Some e, target) \<Rightarrow> (Some e, Some target)
          | (None, target) \<Rightarrow> (case proxy target of (e, target) \<Rightarrow> (e, Some target)))))"

definition bridgeLocalRsyncToTarget ::
    "goerr option \<Rightarrow> conn result \<Rightarrow> (conn \<Rightarrow> goerr option \<times> conn) \<Rightarrow> string \<Rightarrow> goerr option \<times> conn option" where
  "bridgeLocalRsyncToTarget localAccept dial proxy destination =
     bridge ''target receiver'' localAccept dial proxy
       (no_header\<lparr>th_destination := destination, th_protocol := transferProtocolRsync\<rparr>)"

definition bridgeLocalRsyncFromTarget ::
    "goerr option \<Rightarrow> conn result \<Rightarrow> (conn \<Rightarrow> goerr option \<times> conn) \<Rightarrow> string \<Rightarrow> string \<Rightarrow> goerr option \<times> conn option" where
  "bridgeLocalRsyncFromTarget localAccept dial proxy snapshot source =
     bridge ''restore target'' localAccept dial proxy
       (no_header\<lparr>th_snapshot := snapshot, th_source := source, th_protocol := transferProtocolRsync\<rparr>)"

end
