(* ===== verification/Seeding.thy ===== *)
theory Seeding
  imports Transport Snapshot_Facts
begin

text \<open>
  What the receiver finds below a partial run before rsync writes to it:
  seedPartialDestination removes what a failed attempt left, and fills the
  destination with hard links to the same source in the snapshot that latest
  points to, so that rsync only transfers what changed.
\<close>

section \<open>Creating a chain of directories\<close>

definition free_way :: "fs \<Rightarrow> path \<Rightarrow> bool" where
  "free_way f p = (\<forall>q. prefix q p \<longrightarrow> lookup f q \<in> {None, Some DirN})"

lemma free_way_butlast: "free_way f p \<Longrightarrow> free_way f (butlast p)"
  unfolding free_way_def by (meson prefixeq_butlast prefix_order.trans)

lemma free_way_snoc: "free_way f (p @ [s]) \<longleftrightarrow> free_way f p \<and> lookup f (p @ [s]) \<in> {None, Some DirN}"
  unfolding free_way_def by auto

lemma first_gap:
  "\<lbrakk>lookup f p = None; free_way f p\<rbrakk> \<Longrightarrow> \<exists>d t r. p = d @ t # r \<and> lookup f d = Some DirN \<and> lookup f (d @ [t]) = None"
proof (induction p rule: rev_induct)
  case (snoc x xs)
  show ?case
  proof (cases "lookup f xs")
    case None
    then obtain d t r where d: "xs = d @ t # r" "lookup f d = Some DirN" "lookup f (d @ [t]) = None"
      using snoc.IH snoc.prems(2) unfolding free_way_snoc by blast
    then have "xs @ [x] = d @ t # (r @ [x])"
      by simp
    with d show ?thesis
      by blast
  next
    case (Some nd)
    then have "lookup f xs = Some DirN"
      using snoc.prems(2) by (auto simp: free_way_def)
    then show ?thesis
      using snoc.prems(1) by blast
  qed
qed simp

lemma os_stat_free:
  assumes "fs_wf f" "plain p" "free_way f p"
  shows "os_stat f p = (case lookup f p of Some nd \<Rightarrow> Inr DirN | None \<Rightarrow> os_stat f p)
    \<and> (lookup f p = None \<longrightarrow> (\<exists>e. os_stat f p = Inl e \<and> errors_is ENOENT e))"
  using assms(2,3)
proof (induction p rule: rev_induct)
  case (snoc s p)
  have IH: "lookup f p = None \<Longrightarrow> \<exists>e. os_stat f p = Inl e \<and> errors_is ENOENT e"
    using snoc by (simp add: free_way_snoc)
  show ?case
  proof (cases "lookup f p")
    case None
    then have gone: "lookup f (p @ [s]) = None"
      using lookup_ancestor [OF assms(1), of p "[s]"] by fastforce
    obtain d t r where p: "p = d @ t # r" "lookup f d = Some DirN" "lookup f (d @ [t]) = None"
      using first_gap [OF None] snoc.prems(2) unfolding free_way_snoc by blast
    have "plain_seg t"
      using snoc.prems(1) p(1) by simp
    then have "resolve max_symlinks f True [] (d @ t # (r @ [s])) = Inl (Sentinel ENOENT t)"
      using resolve_missing [OF assms(1) p(2) _ p(3), of "r @ [s]"] by simp
    then show ?thesis
      using gone p(1) by (simp add: os_stat_def os_stat_gen_def errors_is_def)
  next
    case (Some nd)
    then have d: "lookup f p = Some DirN"
      using snoc.prems(2) by (auto simp: free_way_def)
    have "os_stat f (p @ [s]) = (case lookup f (p @ [s]) of None \<Rightarrow> Inl (Sentinel ENOENT ''stat'') | Some nd \<Rightarrow> Inr nd)"
      using snoc.prems by (intro os_stat_entry [OF assms(1) d]) (auto simp: free_way_snoc)
    then show ?thesis
      using snoc.prems(2) by (auto simp: free_way_snoc errors_is_def)
  qed
qed (simp add: os_stat_dir [OF assms(1)])

lemma os_mkdir_chain:
  assumes "fs_wf f" "fs_io f = None" "plain p" "free_way f p"
  shows "\<exists>g. os_mkdir_all f p = (Inr (), g) \<and> fs_wf g \<and> fs_io g = None \<and> fs_data g = fs_data f
    \<and> (\<forall>q. lookup g q = (if prefix q p then Some DirN else lookup f q))"
  using assms(3,4)
proof (induction p rule: rev_induct)
  case Nil
  then show ?case
    using os_mkdir_all_dir [OF assms(1), of "[]"] assms(1,2) by auto
next
  case (snoc s p)
  have ps: "plain p" "plain_seg s" "free_way f p" "lookup f (p @ [s]) \<in> {None, Some DirN}"
    using snoc.prems by (simp_all add: free_way_snoc)
  obtain g where g: "os_mkdir_all f p = (Inr (), g)" "fs_wf g" "fs_io g = None" "fs_data g = fs_data f"
    "\<And>q. lookup g q = (if prefix q p then Some DirN else lookup f q)"
    using snoc.IH [OF ps(1,3)] by blast
  show ?case
  proof (cases "lookup f (p @ [s])")
    case (Some nd)
    then have d: "lookup f (p @ [s]) = Some DirN"
      using ps(4) by auto
    have "lookup f q = Some DirN" if "prefix q (p @ [s])" for q
      using that d lookup_ancestor [OF assms(1), of q] by (auto simp: prefix_def) (metis append_Nil2)
    then show ?thesis
      using os_mkdir_all_dir [OF assms(1) d] assms(1,2) by auto
  next
    case None
    have gp: "lookup g p = Some DirN" "lookup g (p @ [s]) = None"
      using g(5) None by auto
    obtain e where e: "os_stat f (p @ [s]) = Inl e"
      using os_stat_free [OF assms(1) snoc.prems] None by blast
    have mk: "os_mkdir g (p @ [s]) = (Inr (), add_node (p @ [s]) DirN g)"
      using os_create_at [OF g(2) gp(1) ps(2)] gp(2) g(3) by (simp add: os_mkdir_def)
    have "os_mkdir_all f (p @ [s]) = (Inr (), add_node (p @ [s]) DirN g)"
    proof (cases "p = []")
      case True
      have "g = f"
        using g(1) True os_mkdir_all_dir [OF assms(1), of "[]"] by simp
      then show ?thesis
        using e mk True by (subst os_mkdir_all.simps) simp
    next
      case False
      then show ?thesis
        using e mk g(1) by (subst os_mkdir_all.simps) simp
    qed
    moreover have "fs_wf (add_node (p @ [s]) DirN g)"
      using fs_wf_add_node [OF g(2) gp(1) ps(2) gp(2)] .
    ultimately show ?thesis
      using g(3,4,5) by auto
  qed
qed

section \<open>Copying through the latest link\<close>

text \<open>The path through \<open>latest\<close> and the path it stands for name the same entries.\<close>

definition latest_to :: "path \<Rightarrow> fs \<Rightarrow> string \<Rightarrow> bool" where
  "latest_to root f T = (fs_wf f \<and> lookup f root = Some DirN \<and> plain_seg T
     \<and> lookup f (root @ [''latest'']) = Some (LinkN (''hourly/'' @ T)) \<and> lookup f (root @ [''hourly'', T]) = Some DirN)"

lemma latest_resolve:
  assumes "latest_to root f T" "lookup f (root @ [''hourly'', T] @ d) = Some DirN" "rest \<noteq> []"
  shows "resolve (Suc n) f fl [] (root @ [''latest''] @ d @ rest) = resolve n f fl (root @ [''hourly'', T] @ d) rest"
proof -
  have l: "fs_wf f" "lookup f root = Some DirN" "plain_seg T"
    "lookup f (root @ [''latest'']) = Some (LinkN (''hourly/'' @ T))"
    using assms(1) by (simp_all add: latest_to_def)
  have "resolve (Suc n) f fl [] (root @ [''latest''] @ d @ rest) = resolve (Suc n) f fl root (''latest'' # d @ rest)"
    using resolve_dirs [OF l(1), of "[]" root "Suc n" fl "''latest'' # d @ rest"] l(2) lookup_plain [OF l(1,2)] by simp
  also have "\<dots> = resolve n f fl root (split_on CHR ''/'' (''hourly/'' @ T) @ d @ rest)"
    using l(4) assms(3) by (simp add: is_abs_def has_prefix_def)
  also have "split_on CHR ''/'' (''hourly/'' @ T) = [''hourly'', T]"
    using l(3) split_on_append_sep [of "CHR ''/''" "''hourly''" T] by (simp add: split_on_idle plain_seg_def)
  also have "resolve n f fl root ([''hourly'', T] @ d @ rest) = resolve n f fl (root @ [''hourly'', T] @ d) rest"
    using resolve_dirs [OF l(1), of root "[''hourly'', T] @ d" n fl rest] assms(2) lookup_plain [OF l(1) assms(2)] by simp
  finally show ?thesis .
qed

lemma latest_entry:
  assumes "latest_to root f T" "lookup f (root @ [''hourly'', T] @ d @ [s]) = Some nd" "\<not> fl \<or> nd = DirN"
  shows "resolve max_symlinks f fl [] (root @ [''latest''] @ d @ [s]) = Inr (root @ [''hourly'', T] @ d @ [s])"
proof -
  have wf: "fs_wf f"
    using assms(1) by (simp add: latest_to_def)
  have d: "lookup f (root @ [''hourly'', T] @ d) = Some DirN"
    using lookup_ancestor [OF wf, of "root @ [''hourly'', T] @ d" "[s]"] assms(2) by simp
  have "plain_seg s"
    using lookup_plain [OF wf assms(2)] by simp
  then have "resolve 39 f fl (root @ [''hourly'', T] @ d) [s] = Inr (root @ [''hourly'', T] @ d @ [s])"
    using assms(2,3) by (auto simp: plain_seg_def split: node.splits)
  moreover have "max_symlinks = Suc 39"
    by (simp add: max_symlinks_def)
  ultimately show ?thesis
    using latest_resolve [OF assms(1) d, of "[s]" 39 fl] by (simp only: not_Cons_self2 list.distinct not_False_eq_True)
qed

text \<open>A missing entry of the snapshot is missing through \<open>latest\<close> too.\<close>

lemma latest_missing:
  assumes "latest_to root f T" "plain ds" "ds \<noteq> []" "free_way f (root @ [''hourly'', T] @ ds)"
    "lookup f (root @ [''hourly'', T] @ ds) = None"
  shows "\<exists>e. os_stat f (root @ [''latest''] @ ds) = Inl e \<and> errors_is ENOENT e"
proof -
  have l: "fs_wf f" "lookup f (root @ [''hourly'', T]) = Some DirN"
    using assms(1) by (simp_all add: latest_to_def)
  obtain d t r where d: "ds = d @ t # r" "lookup f (root @ [''hourly'', T] @ d) = Some DirN"
    "lookup f (root @ [''hourly'', T] @ d @ [t]) = None"
  proof -
    have "\<exists>d t r. ds = d @ t # r \<and> lookup f (root @ [''hourly'', T] @ d) = Some DirN
        \<and> lookup f (root @ [''hourly'', T] @ d @ [t]) = None"
      using assms(3-5)
    proof (induction ds rule: rev_induct)
      case (snoc x xs)
      have way: "free_way f (root @ [''hourly'', T] @ xs)"
        using snoc.prems(2) free_way_snoc [of f "root @ [''hourly'', T] @ xs" x] by simp
      show ?case
      proof (cases "lookup f (root @ [''hourly'', T] @ xs)")
        case None
        then have "xs \<noteq> []"
          using l(2) by auto
        then obtain d t r where d: "xs = d @ t # r" "lookup f (root @ [''hourly'', T] @ d) = Some DirN"
          "lookup f (root @ [''hourly'', T] @ d @ [t]) = None"
          using snoc.IH way None by blast
        then have "xs @ [x] = d @ t # (r @ [x])"
          by simp
        with d show ?thesis
          by blast
      next
        case (Some nd)
        then have "lookup f (root @ [''hourly'', T] @ xs) = Some DirN"
          using way by (auto simp: free_way_def)
        then show ?thesis
          using snoc.prems(3) by blast
      qed
    qed simp
    then show thesis
      using that by blast
  qed
  have t: "plain_seg t"
    using assms(2) d(1) by simp
  obtain n where n: "max_symlinks = Suc n"
    by (cases max_symlinks) (simp_all add: max_symlinks_def)
  have "resolve max_symlinks f True [] (root @ [''latest''] @ ds) = resolve n f True (root @ [''hourly'', T] @ d) (t # r)"
    unfolding n d(1) using latest_resolve [OF assms(1) d(2), of "t # r"] by simp
  moreover have "resolve n f True (root @ [''hourly'', T] @ d) (t # r)
      = (if r = [] then Inr (root @ [''hourly'', T] @ d @ [t]) else Inl (Sentinel ENOENT t))"
    using d(3) t by (simp add: plain_seg_def)
  ultimately show ?thesis
    using d(3) by (simp add: os_stat_def os_stat_gen_def errors_is_def)
qed

lemma linkEntry_alias:
  assumes "os_mkdir_all g (butlast (dst @ rel)) = (Inr (), g)" "os_lstat g (a @ rel) = os_lstat g (b @ rel)"
  shows "linkEntry a dst (rel, nd) g = linkEntry b dst (rel, nd) g"
  using assms by (cases nd) (simp_all add: linkEntry_def os_link_def os_readlink_def Let_def)

lemma copying_latest:
  assumes "copying src dst f dn g" "latest_to root f T" "prefix (root @ [''.partial'']) dst"
  shows "latest_to root g T"
proof -
  have "\<not> prefix dst root" "\<not> prefix dst (root @ [''latest''])" "\<not> prefix dst (root @ [''hourly'', T])"
    using assms(3) by (auto simp: prefix_def)
  then show ?thesis
    using assms(1,2) by (simp add: copying_def latest_to_def)
qed

lemma linkEntries_latest:
  assumes src: "src = root @ [''hourly'', T] @ ds" and way: "a = root @ [''latest''] @ ds"
    and dst: "prefix (root @ [''.partial'']) dst" and l: "latest_to root f T"
    and "copying src dst f dn g" "preorder dn (map fst es)"
    and "\<forall>(rel, nd)\<in>set es. lookup f (src @ rel) = Some nd"
  shows "\<exists>g'. linkEntries a dst es g = (Inr (), g') \<and> copying src dst f (dn \<union> fst ` set es) g'"
  using assms(5-)
proof (induction es arbitrary: dn g)
  case (Cons e es)
  have wf: "fs_wf f"
    using l by (simp add: latest_to_def)
  have sep: "\<not> prefix dst src" "\<not> prefix src dst"
    using dst src by (auto simp: prefix_def append_eq_append_conv2)
  obtain rel nd where e: "e = (rel, nd)" by fastforce
  obtain d s where rel: "rel = d @ [s]"
    using Cons.prems(2) e by (cases rel rule: rev_cases) auto
  obtain g1 where g1: "linkEntry src dst e g = (Inr (), g1)" "copying src dst f (insert rel dn) g1"
    using linkEntry_step [OF Cons.prems(1) wf sep(1), of d s nd] Cons.prems(2,3) sep(2) e rel by auto
  have nd: "lookup f (src @ rel) = Some nd" "d \<in> dn"
    using Cons.prems(2,3) e rel by auto
  have sd: "lookup f (src @ d) = Some DirN"
    using nd lookup_ancestor [OF wf, of "src @ d" "[s]"] rel by simp
  have g: "fs_wf g" "lookup g (dst @ d) = Some DirN"
    using Cons.prems(1) nd(2) sd by (auto simp: copying_def)
  have "\<not> prefix dst (src @ rel)"
    using sep prefix_same_cases [of dst "src @ rel" src] by auto
  then have entry: "lookup g (root @ [''hourly'', T] @ (ds @ d) @ [s]) = Some nd"
    using Cons.prems(1) nd(1) by (simp add: copying_def src rel)
  have "os_lstat g (a @ rel) = os_lstat g (src @ rel)"
    using latest_entry [OF copying_latest [OF Cons.prems(1) l dst] entry, of False]
      resolve_entry [OF g(1), of "src @ d" s False] sd entry
      lookup_ancestor [OF g(1), of "src @ d" "[s]"] lookup_plain [OF g(1) entry]
    by (simp add: os_lstat_def os_stat_gen_def way src rel)
  then have "linkEntry a dst e g = linkEntry src dst e g"
    unfolding e using os_mkdir_all_dir [OF g] by (intro linkEntry_alias) (simp_all add: rel butlast_append)
  then show ?case
    using Cons.IH [OF g1(2)] g1(1) Cons.prems(2,3) e by auto
qed auto

lemma linkTree_latest:
  assumes l: "latest_to root f T" and io: "fs_io f = None" and ds: "plain ds" "ds \<noteq> []"
    and srcdir: "lookup f (root @ [''hourly'', T] @ ds) = Some DirN"
    and dst: "prefix (root @ [''.partial'']) dst" "plain dst" "free_way f dst" "\<And>r. lookup f (dst @ r) = None"
  shows "\<exists>g. linkTree (root @ [''latest''] @ ds) dst f = (Inr (), g) \<and> fs_wf g \<and> fs_io g = None \<and> fs_data g = fs_data f
    \<and> (\<forall>p. lookup g p = (if prefix dst p then linkable (lookup f (root @ [''hourly'', T] @ ds @ drop (length dst) p))
         else if prefix p dst then Some DirN else lookup f p))"
proof -
  let ?src = "root @ [''hourly'', T] @ ds" and ?a = "root @ [''latest''] @ ds"
  have wf: "fs_wf f"
    using l by (simp add: latest_to_def)
  obtain d s where dsl: "ds = d @ [s]"
    using ds(2) by (cases ds rule: rev_cases) auto
  have res: "resolve max_symlinks f False [] ?a = Inr ?src"
    using latest_entry [OF l, of d s DirN False] srcdir dsl by simp
  obtain es where es: "walk_entries f ?src = Inr (([], DirN) # es)" "preorder {[]} (map fst es)"
    "\<forall>(rel, nd)\<in>set es. lookup f (?src @ rel) = Some nd"
    "insert [] (fst ` set es) = {rel. lookup f (?src @ rel) \<noteq> None}"
    using walk_dir [OF wf srcdir] .
  have walk: "walk_entries f ?a = Inr (([], DirN) # es)"
    using es(1) res resolve_dir [OF wf srcdir, of max_symlinks False] by (simp add: walk_entries_def)
  obtain g0 where g0: "os_mkdir_all f dst = (Inr (), g0)" "fs_wf g0" "fs_io g0 = None" "fs_data g0 = fs_data f"
    "\<And>q. lookup g0 q = (if prefix q dst then Some DirN else lookup f q)"
    using os_mkdir_chain [OF wf io dst(2,3)] by blast
  have src0: "lookup g0 (?src @ x) = lookup f (?src @ x)" for x
    using dst(1) g0(5) by (auto simp: prefix_def append_eq_append_conv2)
  have l0: "latest_to root g0 T"
    using l g0(2,5) dst(1) by (auto simp: latest_to_def prefix_def append_eq_append_conv2)
  have "copying ?src dst g0 {[]} g0"
    using g0 src0 [of "[]"] srcdir dst(4) by (auto simp: copying_def)
  then obtain g where g: "linkEntries ?a dst es g0 = (Inr (), g)" "copying ?src dst g0 ({[]} \<union> fst ` set es) g"
    using linkEntries_latest [OF refl refl dst(1) l0 _ es(2)] es(3) src0 by fastforce
  have "linkTree ?a dst f = (Inr (), g)"
    using g(1) g0(1) walk by (simp add: linkTree_def linkEntry_def)
  moreover have "lookup g p = (if prefix dst p then linkable (lookup f (root @ [''hourly'', T] @ ds @ drop (length dst) p))
      else if prefix p dst then Some DirN else lookup f p)" for p
  proof (cases "prefix dst p")
    case True
    then obtain rel where p: "p = dst @ rel" by (auto simp: prefix_def)
    then have "lookup g p = (if lookup f (?src @ rel) \<noteq> None then linkable (lookup f (?src @ rel)) else None)"
      using g(2) es(4) src0 by (simp add: copying_def)
    then show ?thesis
      using p by auto
  next
    case False
    then show ?thesis
      using g(2) g0(5) by (simp add: copying_def)
  qed
  ultimately show ?thesis
    using g(2) g0(4) by (auto simp: copying_def)
qed

section \<open>Seeding a partial destination\<close>

definition partial_path :: "string \<Rightarrow> string list \<Rightarrow> string" where
  "partial_path run ds = join ''/'' ([''.partial'', run] @ ds)"

definition seed_ready :: "path \<Rightarrow> string \<Rightarrow> string list \<Rightarrow> fs \<Rightarrow> bool" where
  "seed_ready root run ds f = (store_ok root f \<and> fs_io f = None \<and> plain_seg run \<and> plain ds \<and> ds \<noteq> []
     \<and> CHR 0x5C \<notin> set (partial_path run ds) \<and> free_way f (root @ [''.partial'', run] @ butlast ds))"

lemma plain_partial: "plain_seg ''.partial''"
  by (simp add: plain_seg_def)

lemma seedPartialDestination_unfold:
  assumes "plain root" "plain_seg run" "plain ds" "ds \<noteq> []" "CHR 0x5C \<notin> set (partial_path run ds)"
  shows "seedPartialDestination root (partial_path run ds) f =
    (case os_remove_all f (root @ [''.partial'', run] @ ds) of (Inl e, f) \<Rightarrow> (Inl e, f) | (Inr _, f) \<Rightarrow>
     (case os_stat f (root @ [''latest''] @ ds) of
        Inr info \<Rightarrow>
          if info \<noteq> DirN then (Inl (errorf ''latest source %s is not a directory'' [path_string (root @ [''latest''] @ ds)]), f)
          else (case linkTree (root @ [''latest''] @ ds) (root @ [''.partial'', run] @ ds) f of
              (Inl e, f) \<Rightarrow> (Inl (wrapf ''seed destination from latest: %w'' [] e),
                 snd (os_remove_all f (root @ [''.partial'', run] @ ds)))
            | (Inr _, f) \<Rightarrow> (Inr True, f))
      | Inl e \<Rightarrow>
          if \<not> errors_is ENOENT e then (Inl e, f)
          else (case os_mkdir_all f (root @ [''.partial'', run] @ ds) of
              (Inl e, f) \<Rightarrow> (Inl e, f)
            | (Inr _, f) \<Rightarrow> (Inr False, f))))"
proof -
  let ?segs = "[''.partial'', run] @ ds"
  have segs: "plain ?segs" "?segs \<noteq> []" "plain (''latest'' # ds)"
    using assms plain_partial by (simp_all add: plain_seg_def)
  have n: "NormalizeRelativePath (partial_path run ds) = Inr (partial_path run ds)"
    using normalize_join_plain [OF segs(1,2)] assms(5) by (simp add: partial_path_def)
  have split: "split_on CHR ''/'' (partial_path run ds) = ''.partial'' # run # ds"
    using split_join_plain [OF segs(1,2)] by (simp add: partial_path_def)
  obtain d0 dr where d0: "ds = d0 # dr"
    using assms(4) by (cases ds) auto
  have pre: "has_prefix (partial_path run ds) ''.partial/''"
    by (simp add: partial_path_def has_prefix_def d0)
  have below: "path_below root (partial_path run ds) = root @ [''.partial'', run] @ ds"
    "path_below root (join ''/'' (''latest'' # ds)) = root @ [''latest''] @ ds"
    using path_below_plain [OF assms(1) segs(1,2)] path_below_plain [OF assms(1) segs(3)]
    by (simp_all add: partial_path_def)
  have inside: "ensureInside root (root @ [''.partial'', run] @ ds) = Inr ()" "ensureInside root (root @ [''latest''] @ ds) = Inr ()"
    using ensureInside_below [OF segs(1)] ensureInside_below [OF segs(3)] by simp_all
  have run: "run \<noteq> []"
    using assms(2) by (auto simp: plain_seg_def)
  have drop2: "drop 2 (''.partial'' # run # ds) = ds" and len: "\<not> length (''.partial'' # run # ds) < 3"
    using d0 by simp_all
  show ?thesis
    unfolding seedPartialDestination_def n sum.case split Let_def drop2 below inside
    using pre run len by (simp del: append_Cons append_Nil)
qed

lemma os_remove_all_free:
  assumes "fs_wf f" "fs_io f = None" "plain p" "p \<noteq> []" "free_way f (butlast p)"
  shows "\<exists>g. os_remove_all f p = (Inr (), g) \<and> fs_wf g \<and> fs_io g = None \<and> fs_data g = fs_data f
    \<and> (\<forall>q. lookup g q = (if prefix p q then None else lookup f q))"
proof -
  obtain d s where p: "p = d @ [s]" "plain_seg s"
    using assms(3,4) by (cases p rule: rev_cases) auto
  show ?thesis
  proof (cases "lookup f d")
    case (Some nd)
    then have d: "lookup f d = Some DirN"
      using assms(5) p(1) by (auto simp: free_way_def)
    have r: "os_remove_all f p = (Inr (), del_nodes (prefix p) f)"
      unfolding p(1) using os_remove_all_at [OF assms(1) d p(2) assms(2)] .
    moreover have "fs_wf (del_nodes (prefix p) f)"
      using os_remove_all_wf [OF assms(1) r] .
    moreover have "lookup (del_nodes (prefix p) f) q = (if prefix p q then None else lookup f q)" for q
      using lookup_del_nodes [of q "prefix p" f] assms(4) by (cases "q = []") auto
    ultimately show ?thesis
      using assms(2) by auto
  next
    case None
    obtain a t r where a: "d = a @ t # r" "lookup f a = Some DirN" "lookup f (a @ [t]) = None"
      using first_gap [OF None] assms(5) p(1) by auto
    have "plain_seg t"
      using assms(3) p(1) a(1) by simp
    then have "resolve max_symlinks f False [] p = Inl (Sentinel ENOENT t)"
      using resolve_missing [OF assms(1) a(2) _ a(3), of "r @ [s]"] p(1) a(1) by simp
    then have "os_remove_all f p = (Inr (), f)"
      by (simp add: os_remove_all_def errors_is_def)
    moreover have "lookup f q = None" if "prefix p q" for q
    proof -
      have "lookup f (d @ x) = None" for x
        using None lookup_ancestor [OF assms(1), of d x] by (cases "x = []") fastforce+
      then show ?thesis
        using that p(1) None by (auto simp: prefix_def)
    qed
    ultimately show ?thesis
      using assms(1,2) by auto
  qed
qed

text \<open>The directory the destination is seeded from, if the store has one.\<close>

definition seed_source :: "path \<Rightarrow> string option \<Rightarrow> string list \<Rightarrow> fs \<Rightarrow> path option" where
  "seed_source root latest ds f = (case latest of
      Some T \<Rightarrow> if lookup f (root @ [''hourly'', T] @ ds) = Some DirN then Some (root @ [''hourly'', T] @ ds) else None
    | None \<Rightarrow> None)"

definition t_seed :: "path \<Rightarrow> path option \<Rightarrow> tree \<Rightarrow> tree" where
  "t_seed dst src t = (\<lambda>p.
     if prefix dst p then
       (case src of Some q \<Rightarrow> linkable (t (q @ drop (length dst) p)) | None \<Rightarrow> if p = dst then Some DirN else None)
     else if prefix p dst then Some DirN else t p)"

definition latest_is :: "path \<Rightarrow> fs \<Rightarrow> string option \<Rightarrow> bool" where
  "latest_is root f latest = (case latest of
      Some T \<Rightarrow> latest_to root f T
    | None \<Rightarrow> lookup f (root @ [''latest'']) = None)"

definition seed_way :: "path \<Rightarrow> string option \<Rightarrow> string list \<Rightarrow> fs \<Rightarrow> bool" where
  "seed_way root latest ds f = (case latest of Some T \<Rightarrow> free_way f (root @ [''hourly'', T] @ ds) | None \<Rightarrow> True)"


text \<open>C25. Seeding puts the last good copy of a source under the partial run and touches nothing
  else: whatever a failed attempt left at the destination is gone, every entry of the same
  source in the snapshot that latest points to is there as a hard link (special files apart),
  or the destination is an empty directory when there is no such snapshot or no such source
  in it; the result says which; missing parent directories are created, every other entry of
  the volume and the contents of all files are as before.\<close>

theorem seedPartialDestination_refines:
  assumes ready: "seed_ready root run ds f" and latest: "latest_is root f latest" "seed_way root latest ds f"
  shows "\<exists>g. seedPartialDestination root (partial_path run ds) f = (Inr (seed_source root latest ds f \<noteq> None), g)
    \<and> fs_wf g \<and> fs_io g = None \<and> fs_data g = fs_data f
    \<and> lookup g = t_seed (root @ [''.partial'', run] @ ds) (seed_source root latest ds f) (lookup f)"
proof -
  let ?dst = "root @ [''.partial'', run] @ ds" and ?a = "root @ [''latest''] @ ds"
  have f: "fs_wf f" "fs_io f = None" "lookup f root = Some DirN" "plain_seg run" "plain ds" "ds \<noteq> []"
    "CHR 0x5C \<notin> set (partial_path run ds)" "free_way f (root @ [''.partial'', run] @ butlast ds)"
    using ready by (simp_all add: seed_ready_def store_ok_def)
  have proot: "plain root"
    using lookup_plain [OF f(1,3)] .
  have dst: "plain ?dst" "?dst \<noteq> []" "free_way f (butlast ?dst)" "prefix (root @ [''.partial'']) ?dst"
    using f proot plain_partial by (simp_all add: butlast_append)
  obtain g where g: "os_remove_all f ?dst = (Inr (), g)" "fs_wf g" "fs_io g = None" "fs_data g = fs_data f"
    "\<And>q. lookup g q = (if prefix ?dst q then None else lookup f q)"
    using os_remove_all_free [OF f(1,2) dst(1-3)] by blast
  have gdst: "lookup g (?dst @ r) = None" for r
    using g(5) by simp
  have "free_way g (butlast ?dst)"
    using dst(3) g(5) by (auto simp: free_way_def)
  moreover have snoc: "butlast ?dst @ [last ?dst] = ?dst"
    by (rule append_butlast_last_id [OF dst(2)])
  ultimately have gway: "free_way g ?dst"
    using free_way_snoc [of g "butlast ?dst" "last ?dst"] gdst [of "[]"] unfolding snoc append_Nil2 by blast
  have keep: "lookup g (root @ x # y) = lookup f (root @ x # y)" if "x \<noteq> ''.partial''" for x y
    using g(5) that by (auto simp: prefix_def)
  have rootg: "lookup g root = Some DirN"
    using g(5) f(3) by (auto simp: prefix_def)
  have lg: "latest_to root g T" if "latest = Some T" for T
    using latest(1) that g(2) rootg keep by (simp add: latest_is_def latest_to_def)
  have wayg: "free_way g (root @ [''hourly'', T] @ ds)" if "latest = Some T" for T
    using latest(2) that g(5) by (auto simp: seed_way_def free_way_def)
  note unfold = seedPartialDestination_unfold [OF proot f(4-7)] g(1)
  show ?thesis
  proof (cases "seed_source root latest ds f")
    case (Some q)
    then obtain T where T: "latest = Some T" "q = root @ [''hourly'', T] @ ds" "lookup f q = Some DirN"
      by (auto simp: seed_source_def split: option.splits if_splits)
    have src: "lookup g (root @ [''hourly'', T] @ ds) = Some DirN"
      using keep [of "''hourly''" "T # ds"] T by simp
    obtain d s where dsl: "ds = d @ [s]"
      using f(6) by (cases ds rule: rev_cases) auto
    have stat: "os_stat g ?a = Inr DirN"
      using latest_entry [OF lg [OF T(1)], of d s DirN True] src dsl by (simp add: os_stat_def os_stat_gen_def)
    obtain h where h: "linkTree ?a ?dst g = (Inr (), h)" "fs_wf h" "fs_io h = None" "fs_data h = fs_data g"
      "\<And>p. lookup h p = (if prefix ?dst p then linkable (lookup g (root @ [''hourly'', T] @ ds @ drop (length ?dst) p))
         else if prefix p ?dst then Some DirN else lookup g p)"
      using linkTree_latest [OF lg [OF T(1)] g(3) f(5,6) src dst(4,1) gway gdst] by blast
    have "seedPartialDestination root (partial_path run ds) f = (Inr True, h)"
      unfolding unfold using stat h(1) by (simp add: g(1))
    moreover have "lookup h = t_seed ?dst (Some q) (lookup f)"
      using g(5) keep [of "''hourly''"] by (auto simp: fun_eq_iff h(5) t_seed_def T(2))
    ultimately show ?thesis
      using h(2-4) g(4) Some by auto
  next
    case None
    have "\<exists>e. os_stat g ?a = Inl e \<and> errors_is ENOENT e"
    proof (cases latest)
      case None
      have "lookup g (root @ [''latest'']) = None"
        using latest(1) None keep [of "''latest''" "[]"] by (simp add: latest_is_def)
      then have "lookup g (root @ ''latest'' # x) = None" for x
        using lookup_ancestor [OF g(2), of "root @ [''latest'']" x] by (cases "x = []") fastforce+
      moreover have "resolve max_symlinks g True [] (root @ ''latest'' # ds) = Inl (Sentinel ENOENT ''latest'')"
        using \<open>lookup g (root @ [''latest'']) = None\<close> f(6)
        by (intro resolve_missing [OF g(2) rootg]) (auto simp: plain_seg_def)
      ultimately show ?thesis
        by (simp add: os_stat_def os_stat_gen_def errors_is_def)
    next
      case (Some T)
      have "lookup f (root @ [''hourly'', T] @ ds) = None"
        using None latest(2) Some by (auto simp: seed_source_def seed_way_def free_way_def split: if_splits)
      then have "lookup g (root @ [''hourly'', T] @ ds) = None"
        using keep [of "''hourly''" "T # ds"] by simp
      then show ?thesis
        using latest_missing [OF lg [OF Some] f(5,6) wayg [OF Some]] by blast
    qed
    then obtain e where e: "os_stat g ?a = Inl e" "errors_is ENOENT e"
      by blast
    obtain h where h: "os_mkdir_all g ?dst = (Inr (), h)" "fs_wf h" "fs_io h = None" "fs_data h = fs_data g"
      "\<And>q. lookup h q = (if prefix q ?dst then Some DirN else lookup g q)"
      using os_mkdir_chain [OF g(2,3) dst(1) gway] by blast
    have "seedPartialDestination root (partial_path run ds) f = (Inr False, h)"
      unfolding unfold using e h(1) by (simp add: g(1))
    moreover have "lookup h = t_seed ?dst None (lookup f)"
      using g(5) by (auto simp: fun_eq_iff h(5) t_seed_def dest: prefix_order.antisym)
    ultimately show ?thesis
      using h(2-4) g(4) None by auto
  qed
qed

section \<open>A seeded destination\<close>

lemma free_way_code:
  "free_way f p \<longleftrightarrow> list_all (\<lambda>n. lookup f (take n p) \<in> {None, Some DirN}) [0..<Suc (length p)]"
proof
  show "list_all (\<lambda>n. lookup f (take n p) \<in> {None, Some DirN}) [0..<Suc (length p)]" if "free_way f p"
    using that take_is_prefix unfolding free_way_def list_all_iff by blast
  show "free_way f p" if all: "list_all (\<lambda>n. lookup f (take n p) \<in> {None, Some DirN}) [0..<Suc (length p)]"
    unfolding free_way_def
  proof (intro allI impI)
    fix q
    assume "prefix q p"
    then have "take (length q) p = q" "length q \<in> set [0..<Suc (length p)]"
      by (auto simp: prefix_def)
    then show "lookup f q \<in> {None, Some DirN}"
      using all unfolding list_all_iff by metis
  qed
qed

definition demo_seed :: fs where
  "demo_seed = \<lparr>fs_tree = [([''b''], DirN), ([''b'', ''hourly''], DirN), ([''b'', ''hourly'', ''T''], DirN),
     ([''b'', ''hourly'', ''T'', ''ns''], DirN), ([''b'', ''hourly'', ''T'', ''ns'', ''x''], FileN 1),
     ([''b'', ''latest''], LinkN ''hourly/T'')], fs_data = [(1, ''data'')], fs_io = None\<rparr>"

lemma demo_seed_ready:
  "seed_ready [''b''] ''r'' [''ns''] demo_seed" "latest_to [''b''] demo_seed ''T''" "free_way demo_seed [''b'', ''hourly'', ''T'', ''ns'']"
  unfolding seed_ready_def latest_to_def free_way_code by code_simp+

theorem seedPartialDestination_refines_witness:
  "\<exists>g. seedPartialDestination [''b''] (partial_path ''r'' [''ns'']) demo_seed = (Inr True, g)
    \<and> lookup g [''b'', ''.partial'', ''r'', ''ns'', ''x''] = Some (FileN 1)"
proof -
  have l: "latest_is [''b''] demo_seed (Some ''T'')" "seed_way [''b''] (Some ''T'') [''ns''] demo_seed"
    using demo_seed_ready by (simp_all add: latest_is_def seed_way_def)
  have src: "seed_source [''b''] (Some ''T'') [''ns''] demo_seed = Some [''b'', ''hourly'', ''T'', ''ns'']"
    by code_simp
  obtain g where g: "seedPartialDestination [''b''] (partial_path ''r'' [''ns'']) demo_seed = (Inr True, g)"
    "lookup g = t_seed ([''b''] @ [''.partial'', ''r''] @ [''ns'']) (Some [''b'', ''hourly'', ''T'', ''ns'']) (lookup demo_seed)"
    using seedPartialDestination_refines [OF demo_seed_ready(1) l] unfolding src by auto
  have "t_seed ([''b''] @ [''.partial'', ''r''] @ [''ns'']) (Some [''b'', ''hourly'', ''T'', ''ns'']) (lookup demo_seed)
      [''b'', ''.partial'', ''r'', ''ns'', ''x''] = Some (FileN 1)"
    by code_simp
  then show ?thesis
    using g by metis
qed

end
