(* ===== verification/Transfer_Header.thy ===== *)
theory Transfer_Header
  imports Transport
begin

text \<open>
  The wire format of the header that opens a transfer: four bytes of length, then
  JSON. What writeTransferHeader sends is what readTransferHeader returns.
\<close>

section \<open>A header that is written is read back\<close>

lemma get_put_uint32:
  assumes "n < 2 ^ 32"
  shows "get_uint32 (put_uint32 n) = n"
proof -
  have step: "m div 256 * 256 + m mod 256 = m" for m :: nat
    by simp
  have "n < 16777216 * 256"
    using assms by simp
  then have "n div 16777216 < 256"
    by (simp add: less_mult_imp_div_less)
  moreover have "n div 65536 = n div 256 div 256" "n div 16777216 = n div 256 div 256 div 256"
    by (simp_all add: div_mult2_eq [symmetric])
  ultimately have "((n div 16777216 mod 256 * 256 + n div 65536 mod 256) * 256 + n div 256 mod 256) * 256 + n mod 256 = n"
    by (simp only: mod_less step)
  moreover have "[0..<4] = [0, 1, 2, 3::nat]"
    by code_simp
  then have "be_bytes 4 n = [n div 16777216 mod 256, n div 65536 mod 256, n div 256 mod 256, n mod 256]"
    by (simp add: be_bytes_def)
  moreover have "n div 16777216 mod 256 = n div 16777216"
    using \<open>n div 16777216 < 256\<close> by simp
  ultimately show ?thesis
    by (simp add: put_uint32_def get_uint32_def)
qed

lemma length_put_uint32 [simp]: "length (put_uint32 n) = 4"
  by (simp add: put_uint32_def be_bytes_def)

lemma json_space_simps [simp]: "\<not> json_space dquote" "\<not> json_space CHR ''{''" "\<not> json_space CHR ''}''"
  "\<not> json_space CHR '':''" "\<not> json_space CHR '',''"
  by (simp_all add: json_space_def)

lemma parse_json_string:
  "utf8_valid s \<Longrightarrow> parse_value d (Suc n) (json_string s @ t) = Some (JStr s, t)"
  using json_text_read [of s t] by (simp add: json_string_def)

lemma parse_json_fields:
  assumes "fs \<noteq> []" "\<forall>(k, v)\<in>set fs. utf8_valid k \<and> utf8_valid v" "length fs < n"
  shows "parse_members d n (join '','' (map (\<lambda>(k, v). json_field k v) fs) @ CHR ''}'' # t)
    = Some (map (\<lambda>(k, v). (k, JStr v)) fs, t)"
  using assms
proof (induction fs arbitrary: n)
  case (Cons kv fs)
  obtain k v where kv: "kv = (k, v)"
    by (cases kv) auto
  obtain m where n: "n = Suc (Suc m)"
    using Cons.prems(3) by (cases n; cases "n - 1") auto
  have k: "parse_chars (json_text k @ dquote # u) = Some (k, u)"
    and v: "parse_value d (Suc m) (json_string v @ u) = Some (JStr v, u)" for u
    using Cons.prems(2) kv by (simp_all add: json_text_read parse_json_string del: parse_value.simps)
  have key: "json_string k = dquote # json_text k @ [dquote]"
    by (simp add: json_string_def)
  show ?case
  proof (cases fs)
    case Nil
    then show ?thesis
      using k v by (simp add: kv n json_field_def key del: parse_value.simps)
  next
    case (Cons kv' fs')
    then have "parse_members d (Suc m) (join '','' (map (\<lambda>(k, v). json_field k v) fs) @ CHR ''}'' # t)
        = Some (map (\<lambda>(k, v). (k, JStr v)) fs, t)"
      using Cons.IH [of "Suc m"] Cons.prems n by simp
    then show ?thesis
      using k v Cons by (simp add: kv n json_field_def key del: parse_value.simps)
  qed
qed simp

definition header_fields :: "transfer_header \<Rightarrow> (string \<times> string) list" where
  "header_fields h = [(''destination'', th_destination h)]
     @ (if th_snapshot h \<noteq> [] then [(''snapshot'', th_snapshot h)] else [])
     @ (if th_source h \<noteq> [] then [(''source'', th_source h)] else [])
     @ [(''protocol'', th_protocol h)]"

definition header_valid :: "transfer_header \<Rightarrow> bool" where
  "header_valid h = (utf8_valid (th_destination h) \<and> utf8_valid (th_snapshot h) \<and> utf8_valid (th_source h)
     \<and> utf8_valid (th_protocol h))"

lemma marshal_fields: "marshal_header h = ''{'' @ join '','' (map (\<lambda>(k, v). json_field k v) (header_fields h)) @ ''}''"
  by (simp add: marshal_header_def header_fields_def)

lemma field_names_valid: "utf8_valid ''destination''" "utf8_valid ''snapshot''" "utf8_valid ''source''" "utf8_valid ''protocol''"
  by (rule ascii_valid, simp)+

lemma field_names_fold [simp]: "fold_name ''destination'' = ''destination''" "fold_name ''snapshot'' = ''snapshot''"
  "fold_name ''source'' = ''source''" "fold_name ''protocol'' = ''protocol''"
  by code_simp+

lemma join_head: "join sep ((c # x) # xs) = c # join sep (x # xs)"
  by (cases xs) simp_all

lemma decode_members:
  "decode_member (''destination'', JStr s) h = Inr (h\<lparr>th_destination := s\<rparr>)"
  "decode_member (''snapshot'', JStr s) h = Inr (h\<lparr>th_snapshot := s\<rparr>)"
  "decode_member (''source'', JStr s) h = Inr (h\<lparr>th_source := s\<rparr>)"
  "decode_member (''protocol'', JStr s) h = Inr (h\<lparr>th_protocol := s\<rparr>)"
  unfolding decode_member_def by (simp_all only: prod.case field_names_fold Let_def json.case) simp_all

lemma join_length: "length xs \<le> Suc (length (join [c] xs))"
  by (induction "[c]" xs rule: join.induct) auto

lemma json_parse_header:
  assumes "header_valid h"
  shows "json_parse (marshal_header h) = Some (JObj (map (\<lambda>(k, v). (k, JStr v)) (header_fields h)))"
proof -
  let ?body = "join '','' (map (\<lambda>(k, v). json_field k v) (header_fields h))"
  have len: "length (header_fields h) < Suc (2 * length (marshal_header h))"
    using join_length [of "map (\<lambda>(k, v). json_field k v) (header_fields h)" "CHR '',''"]
    by (simp add: marshal_fields)
  obtain k where k: "2 * length (marshal_header h) + 2 = Suc (Suc k)" "length (header_fields h) < Suc k"
    using len by simp
  have "\<forall>(k, v)\<in>set (header_fields h). utf8_valid k \<and> utf8_valid v"
    using assms field_names_valid by (auto simp: header_fields_def header_valid_def)
  then have members: "parse_members d (Suc k) (?body @ CHR ''}'' # []) = Some (map (\<lambda>(k, v). (k, JStr v)) (header_fields h), [])" for d
    using k(2) by (intro parse_json_fields) (auto simp: header_fields_def)
  obtain r where r: "?body @ CHR ''}'' # [] = dquote # r"
    using join_head [of "'',''" dquote] by (simp add: header_fields_def json_field_def json_string_def)
  obtain d where d: "max_nesting = Suc d"
    by (cases max_nesting) (simp_all add: max_nesting_def)
  have "parse_value (Suc d) (Suc (Suc k)) (CHR ''{'' # dquote # r) = Some (JObj (map (\<lambda>(k, v). (k, JStr v)) (header_fields h)), [])"
    using members [of d] by (simp add: r has_prefix_def del: parse_members.simps)
  moreover have "marshal_header h = CHR ''{'' # dquote # r"
    using r by (simp add: marshal_fields)
  ultimately have "parse_value max_nesting (2 * length (marshal_header h) + 2) (marshal_header h)
      = Some (JObj (map (\<lambda>(k, v). (k, JStr v)) (header_fields h)), [])"
    unfolding k(1) d by (simp only:)
  then show ?thesis
    unfolding json_parse_def by (simp only: option.case prod.case) simp
qed

lemma unmarshal_marshal:
  assumes "header_valid h"
  shows "unmarshal_header (marshal_header h) = Inr h"
proof -
  have "fold_result decode_member (map (\<lambda>(k, v). (k, JStr v)) (header_fields h)) no_header = Inr h"
    by (cases h) (simp add: header_fields_def decode_members no_header_def)
  then show ?thesis
    by (simp add: unmarshal_header_def json_parse_header [OF assms])
qed

lemma read_marshalled:
  assumes "header_valid h" "length (marshal_header h) \<le> maxTransferHeaderBytes"
    and "cn_in r = put_uint32 (length (marshal_header h)) @ marshal_header h @ rest"
  shows "readTransferHeader r = (Inr h, r\<lparr>cn_in := rest\<rparr>)"
proof -
  have "length (marshal_header h) \<noteq> 0"
    by (simp add: marshal_header_def)
  moreover have "get_uint32 (put_uint32 (length (marshal_header h))) = length (marshal_header h)"
    using assms(2) by (intro get_put_uint32) simp
  ultimately show ?thesis
    using assms(2,3) by (simp add: readTransferHeader_def read_full_def Let_def unmarshal_marshal [OF assms(1)])
qed

text \<open>C32. What a sender writes is what the receiver reads: a header of valid UTF-8 that fits the
  limit of 64 KiB is written to the connection, and a receiver to which these bytes arrive
  obtains the same header and leaves the bytes after it to the transfer; a header that does
  not fit is refused without a byte being sent.\<close>

theorem transfer_header_round_trip:
  assumes "header_valid h" "cn_writes w = None"
  shows "(length (marshal_header h) \<le> maxTransferHeaderBytes \<longrightarrow>
      (\<exists>w' bytes. writeTransferHeader w h = (None, w') \<and> cn_out w' = cn_out w @ bytes
        \<and> (\<forall>r rest. cn_in r = bytes @ rest \<longrightarrow> readTransferHeader r = (Inr h, r\<lparr>cn_in := rest\<rparr>))))
    \<and> (length (marshal_header h) > maxTransferHeaderBytes \<longrightarrow>
      (\<exists>e. writeTransferHeader w h = (Some e, w)))"
proof (intro conjI impI)
  assume small: "length (marshal_header h) \<le> maxTransferHeaderBytes"
  let ?d = "marshal_header h"
  have "writeTransferHeader w h = (None, w\<lparr>cn_out := cn_out w @ put_uint32 (length ?d) @ ?d\<rparr>)"
    using small assms(2) by (simp add: writeTransferHeader_def conn_write_def Let_def)
  moreover have "readTransferHeader r = (Inr h, r\<lparr>cn_in := rest\<rparr>)"
    if "cn_in r = (put_uint32 (length ?d) @ ?d) @ rest" for r rest
    using that small assms(1) by (intro read_marshalled) simp_all
  ultimately show "\<exists>w' bytes. writeTransferHeader w h = (None, w') \<and> cn_out w' = cn_out w @ bytes
        \<and> (\<forall>r rest. cn_in r = bytes @ rest \<longrightarrow> readTransferHeader r = (Inr h, r\<lparr>cn_in := rest\<rparr>))"
    by (intro exI conjI) (auto)
qed (simp add: writeTransferHeader_def)

theorem transfer_header_round_trip_witness:
  "\<exists>w'. writeTransferHeader \<lparr>cn_in = [], cn_out = [], cn_writes = None\<rparr>
      (no_header\<lparr>th_destination := ''.partial/ops-nightly/db'', th_protocol := ''rsync''\<rparr>) = (None, w')"
proof -
  let ?h = "no_header\<lparr>th_destination := ''.partial/ops-nightly/db'', th_protocol := ''rsync''\<rparr>"
  have "header_valid ?h"
    unfolding header_valid_def no_header_def by (simp add: ascii_valid)
  moreover have "length (marshal_header ?h) \<le> maxTransferHeaderBytes"
    by (simp add: marshal_header_def no_header_def json_field_def json_string_def json_char_def)
  ultimately show ?thesis
    using transfer_header_round_trip [of ?h "\<lparr>cn_in = [], cn_out = [], cn_writes = None\<rparr>"] by auto
qed

end
