(* ===== verification/Builders.thy ===== *)
theory Builders
  imports Resource_Names Controller_Helpers Identity
begin

text \<open>
  The Kubernetes objects that controller/builders.go generates: the jobs that
  serve a target, send a source and restore one, their services and the secrets
  with their certificates. The records carry the fields that the builders set
  and that the reconcilers read. \<open>resource.ParseQuantity\<close> is a function of
  k8s.io/apimachinery, so it is the parameter \<open>parseQuantity\<close>; a quantity is the
  text the API server stores for it.
\<close>

section \<open>Kubernetes objects\<close>

record container_port =
  cp_name :: string
  cp_port :: int

record volume_mount =
  vm_name :: string
  vm_path :: string
  vm_readOnly :: bool

datatype volume_source =
    ClaimVolume (claim_name: string) (claim_readOnly: bool)
  | MemoryVolume (size_limit: string)
  | SecretVolume (secret_name: string)

record volume =
  vol_name :: string
  vol_source :: volume_source

record container =
  ct_name :: string
  ct_image :: string
  ct_command :: "string list"
  ct_args :: "string list"
  ct_ports :: "container_port list"
  ct_mounts :: "volume_mount list"
  ct_resources :: string

datatype pod_security = GivenSecurity string | UserGroup int int

record pod_spec =
  pod_nodeSelector :: "(string \<times> string) list"
  pod_affinity :: "string option"
  pod_tolerations :: "string list"
  pod_topologySpread :: "string list"
  pod_schedulerName :: string
  pod_priorityClassName :: string
  pod_runtimeClassName :: "string option"
  pod_imagePullSecrets :: "string list"
  pod_security :: "pod_security option"
  pod_restartPolicy :: string
  pod_initContainers :: "container list"
  pod_containers :: "container list"
  pod_volumes :: "volume list"

record job_condition =
  jc_type :: string
  jc_status :: cond_status
  jc_reason :: string
  jc_message :: string

type_synonym label_map = "(string \<times> string) list"

record k8s_job =
  kj_meta :: object_meta
  kj_backoffLimit :: int
  kj_activeDeadlineSeconds :: int
  kj_podLabels :: label_map
  kj_pod :: pod_spec
  kj_conditions :: "job_condition list"

record k8s_service =
  ks_meta :: object_meta
  ks_type :: string
  ks_selector :: label_map
  ks_ports :: "(string \<times> int) list"

record k8s_secret =
  sec_meta :: object_meta
  sec_type :: string
  sec_data :: "(string \<times> string) list"

definition new_meta :: "string \<Rightarrow> string \<Rightarrow> label_map \<Rightarrow> object_meta" where
  "new_meta namespace name labels =
     empty_meta\<lparr>om_namespace := namespace, om_name := name, om_labels := labels\<rparr>"

definition plain_pod :: "container list \<Rightarrow> container list \<Rightarrow> volume list \<Rightarrow> pod_spec" where
  "plain_pod inits containers volumes = \<lparr>pod_nodeSelector = [], pod_affinity = None, pod_tolerations = [],
     pod_topologySpread = [], pod_schedulerName = [], pod_priorityClassName = [], pod_runtimeClassName = None,
     pod_imagePullSecrets = [], pod_security = None, pod_restartPolicy = ''Never'',
     pod_initContainers = inits, pod_containers = containers, pod_volumes = volumes\<rparr>"

section \<open>Constants\<close>

abbreviation AppName :: string where "AppName \<equiv> ''kube-rsync-machine''"
abbreviation LabelName :: string where "LabelName \<equiv> ''app.kubernetes.io/name''"
abbreviation LabelMachine :: string where "LabelMachine \<equiv> ''krm.chirino.github.io/machine''"
abbreviation LabelRunNamespace :: string where "LabelRunNamespace \<equiv> ''krm.chirino.github.io/run-namespace''"
abbreviation LabelRunKind :: string where "LabelRunKind \<equiv> ''krm.chirino.github.io/run-kind''"
abbreviation LabelRun :: string where "LabelRun \<equiv> ''krm.chirino.github.io/run''"
abbreviation LabelSource :: string where "LabelSource \<equiv> ''krm.chirino.github.io/source''"
abbreviation LabelRole :: string where "LabelRole \<equiv> ''krm.chirino.github.io/resource-role''"
abbreviation RoleMachineTrigger :: string where "RoleMachineTrigger \<equiv> ''machine-trigger''"
abbreviation RoleTargetServer :: string where "RoleTargetServer \<equiv> ''target-server''"
abbreviation RoleSourceSender :: string where "RoleSourceSender \<equiv> ''source-sender''"
abbreviation RoleRestoreWriter :: string where "RoleRestoreWriter \<equiv> ''restore-writer''"
abbreviation RoleTLSSecret :: string where "RoleTLSSecret \<equiv> ''tls-secret''"
abbreviation DefaultImage :: string where "DefaultImage \<equiv> ''ghcr.io/chirino/kube-rsync-machine:latest''"
abbreviation TLSMountPath :: string where "TLSMountPath \<equiv> ''/var/run/kube-rsync-machine/tls''"
abbreviation ControlGRPCNamespace :: string where "ControlGRPCNamespace \<equiv> ''kube-rsync-machine-operator''"
abbreviation ControlGRPCService :: string where "ControlGRPCService \<equiv> ''kube-rsync-machine-controller-manager''"
abbreviation RsyncPort :: int where "RsyncPort \<equiv> 873"
abbreviation DefaultJobBackoffLimit :: int where "DefaultJobBackoffLimit \<equiv> 0"
abbreviation DefaultJobDeadline :: int where "DefaultJobDeadline \<equiv> 3 * 60 * 60"
abbreviation DefaultMountPath :: string where "DefaultMountPath \<equiv> ''/backup''"
abbreviation AnnotationTestTargetEmptyDirSizeLimit :: string where
  "AnnotationTestTargetEmptyDirSizeLimit \<equiv> ''krm.chirino.github.io/test-target-empty-dir-size-limit''"
abbreviation AnnotationTestTargetSeedSnapshotBytes :: string where
  "AnnotationTestTargetSeedSnapshotBytes \<equiv> ''krm.chirino.github.io/test-target-seed-snapshot-bytes''"
abbreviation AnnotationTestSourceBackoffLimit :: string where
  "AnnotationTestSourceBackoffLimit \<equiv> ''krm.chirino.github.io/test-source-backoff-limit''"

abbreviation DefaultSnapshot :: string where "DefaultSnapshot \<equiv> ''latest''"
abbreviation DefaultMirrorSnapshot :: string where "DefaultMirrorSnapshot \<equiv> ''current''"
abbreviation runKindBackup :: string where "runKindBackup \<equiv> ''backup''"
abbreviation runKindRestore :: string where "runKindRestore \<equiv> ''restore''"

text \<open>A value of a Go map of strings, with the zero value for a missing key.\<close>

definition lookup_text :: "label_map \<Rightarrow> string \<Rightarrow> string" where
  "lookup_text m k = (case map_of m k of None \<Rightarrow> [] | Some v \<Rightarrow> v)"

text \<open>\<open>strconv.ParseInt(s, 10, bits)\<close>: \<open>None\<close> is a syntax or range error.\<close>

definition parse_int :: "nat \<Rightarrow> string \<Rightarrow> int option" where
  "parse_int bits s =
    (let (neg, digits) = (case s of c # cs \<Rightarrow> if c = CHR ''-'' then (True, cs) else if c = CHR ''+'' then (False, cs) else (False, s)
                          | [] \<Rightarrow> (False, s)) in
     case nat_of_dec digits of
       None \<Rightarrow> None
     | Some n \<Rightarrow> let i = (if neg then - int n else int n) in
         if - (2 ^ (bits - 1)) \<le> i \<and> i < 2 ^ (bits - 1) then Some i else None)"

text \<open>\<open>%q\<close> on printable ASCII text.\<close>

definition go_quote :: "string \<Rightarrow> string" where
  "go_quote s = [CHR 0x22] @ concat (map (\<lambda>c. if c = CHR 0x22 \<or> c = CHR 0x5C then [CHR 0x5C, c] else [c]) s) @ [CHR 0x22]"

section \<open>Pod templates\<close>

definition dataPlanePodSecurityContext :: "rsync_machine \<Rightarrow> pod_security" where
  "dataPlanePodSecurityContext target =
    (case ps_securityContext (ms_pod (m_spec target)) of Some c \<Rightarrow> GivenSecurity c | None \<Rightarrow> UserGroup 0 0)"

definition restoreWriterPodSecurityContext :: "restore_job \<Rightarrow> pod_security" where
  "restoreWriterPodSecurityContext restore =
    (case ps_securityContext (rs_pod (r_spec restore)) of Some c \<Rightarrow> GivenSecurity c | None \<Rightarrow> UserGroup 0 0)"

definition sourceSenderPodSecurityContext :: "backup_source \<Rightarrow> pod_security" where
  "sourceSenderPodSecurityContext source =
    (case ps_securityContext (ss_pod (s_spec source)) of Some c \<Rightarrow> GivenSecurity c | None \<Rightarrow> UserGroup 0 0)"

definition targetPodSpec :: "rsync_machine \<Rightarrow> pod_spec \<Rightarrow> pod_spec" where
  "targetPodSpec target spec = (let p = ms_pod (m_spec target) in
     spec\<lparr>pod_nodeSelector := ps_nodeSelector p, pod_affinity := ps_affinity p, pod_tolerations := ps_tolerations p,
       pod_topologySpread := ps_topologySpread p, pod_schedulerName := ps_schedulerName p,
       pod_priorityClassName := ps_priorityClassName p, pod_runtimeClassName := ps_runtimeClassName p,
       pod_imagePullSecrets := ps_imagePullSecrets p, pod_security := Some (dataPlanePodSecurityContext target)\<rparr>)"

definition restoreWriterPodSpec :: "restore_job \<Rightarrow> pod_spec \<Rightarrow> pod_spec" where
  "restoreWriterPodSpec restore spec = (let p = rs_pod (r_spec restore) in
     spec\<lparr>pod_nodeSelector := ps_nodeSelector p, pod_affinity := ps_affinity p, pod_tolerations := ps_tolerations p,
       pod_topologySpread := ps_topologySpread p, pod_schedulerName := ps_schedulerName p,
       pod_priorityClassName := ps_priorityClassName p, pod_runtimeClassName := ps_runtimeClassName p,
       pod_imagePullSecrets := ps_imagePullSecrets p, pod_security := Some (restoreWriterPodSecurityContext restore)\<rparr>)"

definition sourceSenderPodSpec :: "backup_source \<Rightarrow> pod_spec \<Rightarrow> pod_spec" where
  "sourceSenderPodSpec source spec = (let p = ss_pod (s_spec source) in
     spec\<lparr>pod_nodeSelector := ps_nodeSelector p, pod_affinity := ps_affinity p, pod_tolerations := ps_tolerations p,
       pod_topologySpread := ps_topologySpread p, pod_schedulerName := ps_schedulerName p,
       pod_priorityClassName := ps_priorityClassName p, pod_runtimeClassName := ps_runtimeClassName p,
       pod_imagePullSecrets := ps_imagePullSecrets p, pod_security := Some (sourceSenderPodSecurityContext source)\<rparr>)"

definition machineImage :: "rsync_machine \<Rightarrow> string \<Rightarrow> string" where
  "machineImage target fallback =
    (if ms_image (m_spec target) \<noteq> [] then ms_image (m_spec target)
     else if fallback \<noteq> [] then fallback else DefaultImage)"

definition applyMachineResources :: "rsync_machine \<Rightarrow> container list \<Rightarrow> container list" where
  "applyMachineResources target containers =
     map (\<lambda>c. c\<lparr>ct_resources := ps_resources (ms_pod (m_spec target))\<rparr>) containers"

section \<open>Arguments and labels\<close>

record control_options =
  dco_grpcEndpoint :: string
  dco_grpcNamespace :: string

definition no_control :: control_options where
  "no_control = \<lparr>dco_grpcEndpoint = [], dco_grpcNamespace = []\<rparr>"

definition DefaultDataPlaneControlOptions :: "string \<Rightarrow> control_options" where
  "DefaultDataPlaneControlOptions namespace =
    (let namespace = (if namespace = [] then ControlGRPCNamespace else namespace)
     in \<lparr>dco_grpcEndpoint = ControlGRPCService @ ''.'' @ namespace @ ''.svc:8083'', dco_grpcNamespace = namespace\<rparr>)"

definition withDefaults :: "control_options \<Rightarrow> control_options" where
  "withDefaults o' =
    (let namespace = (if dco_grpcNamespace o' = [] then ControlGRPCNamespace else dco_grpcNamespace o');
         endpoint = (if dco_grpcEndpoint o' = []
           then dco_grpcEndpoint (DefaultDataPlaneControlOptions namespace) else dco_grpcEndpoint o')
     in \<lparr>dco_grpcEndpoint = endpoint, dco_grpcNamespace = namespace\<rparr>)"

definition appendControlGRPCArgs :: "string list \<Rightarrow> control_options \<Rightarrow> string list" where
  "appendControlGRPCArgs args opts = (let opts = withDefaults opts in
     args @ [''--control-grpc-endpoint'', dco_grpcEndpoint opts, ''--control-grpc-namespace'', dco_grpcNamespace opts])"

definition appendRetentionArgs :: "string list \<Rightarrow> retention_policy \<Rightarrow> string list" where
  "appendRetentionArgs args retention = args
     @ (if ret_hourly retention > 0 then [''--retention-hourly'', dec_of_int (ret_hourly retention)] else [])
     @ (if ret_daily retention > 0 then [''--retention-daily'', dec_of_int (ret_daily retention)] else [])
     @ (if ret_weekly retention > 0 then [''--retention-weekly'', dec_of_int (ret_weekly retention)] else [])
     @ (if ret_monthly retention > 0 then [''--retention-monthly'', dec_of_int (ret_monthly retention)] else [])"

definition appendRsyncArgs :: "string list \<Rightarrow> rsync_options \<Rightarrow> string list" where
  "appendRsyncArgs args options = args
     @ (if DeleteOrDefault options then [''--delete''] else [])
     @ (if OneFileSystemOrDefault options then [''--one-file-system''] else [])"

definition runLabelsForRef :: "nsname \<Rightarrow> string \<Rightarrow> string \<Rightarrow> label_map" where
  "runLabelsForRef ref runKind role =
    [(LabelName, AppName), (LabelRunNamespace, fst ref), (LabelRunKind, runKind), (LabelRun, snd ref), (LabelRole, role)]"

definition runLabels :: "backup_job \<Rightarrow> string \<Rightarrow> string \<Rightarrow> label_map" where
  "runLabels run runKind role = runLabelsForRef (meta_key (j_meta run)) runKind role"

definition TargetServiceEndpoint :: "backup_job \<Rightarrow> rsync_machine \<Rightarrow> string" where
  "TargetServiceEndpoint run target = GeneratedServiceName ''target'' (om_name (j_meta run)) @ ''.''
     @ om_namespace (m_meta target) @ ''.svc:'' @ dec_of_int RsyncPort"

definition RestoreTargetServiceEndpoint :: "restore_job \<Rightarrow> rsync_machine \<Rightarrow> string" where
  "RestoreTargetServiceEndpoint restore target = GeneratedServiceName ''restore-target'' (om_name (r_meta restore)) @ ''.''
     @ om_namespace (m_meta target) @ ''.svc:'' @ dec_of_int RsyncPort"

section \<open>The serving side of a backup\<close>

definition is_mirror_target :: "rsync_machine \<Rightarrow> bool" where
  "is_mirror_target target = (strategy_TypeOrDefault (ms_strategy (m_spec target)) = StrategyMirror)"

definition new_job :: "string \<Rightarrow> string \<Rightarrow> label_map \<Rightarrow> int \<Rightarrow> pod_spec \<Rightarrow> k8s_job" where
  "new_job namespace name labels backoffLimit spec =
     \<lparr>kj_meta = new_meta namespace name labels, kj_backoffLimit = backoffLimit,
      kj_activeDeadlineSeconds = DefaultJobDeadline, kj_podLabels = labels, kj_pod = spec, kj_conditions = []\<rparr>"

definition mount :: "string \<Rightarrow> string \<Rightarrow> bool \<Rightarrow> volume_mount" where
  "mount name path readOnly = \<lparr>vm_name = name, vm_path = path, vm_readOnly = readOnly\<rparr>"

definition volume_of :: "string \<Rightarrow> volume_source \<Rightarrow> volume" where
  "volume_of name source = \<lparr>vol_name = name, vol_source = source\<rparr>"

definition data_container :: "string \<Rightarrow> string \<Rightarrow> string list \<Rightarrow> container_port list \<Rightarrow> volume_mount list \<Rightarrow> string \<Rightarrow> container" where
  "data_container name img args ports mounts resources =
     \<lparr>ct_name = name, ct_image = img, ct_command = [], ct_args = args, ct_ports = ports,
      ct_mounts = mounts, ct_resources = resources\<rparr>"

definition rsync_port :: container_port where
  "rsync_port = \<lparr>cp_name = ''rsync'', cp_port = RsyncPort\<rparr>"

definition seed_path :: string where
  "seed_path = DefaultMountPath @ ''/hourly/2000-01-01T00-00-00Z/seed.bin''"

definition targetInitContainers :: "rsync_machine \<Rightarrow> string \<Rightarrow> container list result" where
  "targetInitContainers target img =
    (let value = lookup_text (om_annotations (m_meta target)) AnnotationTestTargetSeedSnapshotBytes in
     if value = [] then Inr []
     else case parse_int 64 value of
         None \<Rightarrow> Inl (errorf ''invalid %s annotation %q'' [AnnotationTestTargetSeedSnapshotBytes, value])
       | Some bytes \<Rightarrow>
           if bytes < 0 then Inl (errorf ''invalid %s annotation %q'' [AnnotationTestTargetSeedSnapshotBytes, value])
           else if bytes = 0 then Inr []
           else let command = ''mkdir -p '' @ go_quote (DefaultMountPath @ ''/hourly/2000-01-01T00-00-00Z'')
                    @ '' && head -c '' @ dec_of_int bytes @ '' /dev/zero > '' @ go_quote seed_path
             in Inr (applyMachineResources target [\<lparr>ct_name = ''seed-old-snapshot'', ct_image = img,
                  ct_command = [''/bin/sh'', ''-c'', command], ct_args = [], ct_ports = [],
                  ct_mounts = [mount ''target'' DefaultMountPath False], ct_resources = []\<rparr>]))"

definition source_arg :: "rsync_machine \<Rightarrow> resolved_source \<Rightarrow> string" where
  "source_arg target source =
    (let destination = (if is_mirror_target target \<and> rsv_effectivePath source = [] then ''.''
                        else rsv_effectivePath source)
     in om_namespace (s_meta (rsv_source source)) @ ''/'' @ om_name (s_meta (rsv_source source)) @ ''='' @ destination)"

definition serve_target_args ::
    "backup_job \<Rightarrow> rsync_machine \<Rightarrow> target_run_set \<Rightarrow> string \<Rightarrow> control_options \<Rightarrow> string list" where
  "serve_target_args run target runSet timestamp controlOptions =
    (let args = [''serve-target'', ''--target'', DefaultMountPath, ''--run-id'', RunID run, ''--tls-dir'', TLSMountPath,
           ''--run-namespace'', om_namespace (j_meta run), ''--run-name'', om_name (j_meta run),
           ''--target-namespace'', om_namespace (m_meta target), ''--target-name'', om_name (m_meta target)];
         args = appendControlGRPCArgs args controlOptions;
         args = (if timestamp \<noteq> [] \<and> \<not> is_mirror_target target then args @ [''--timestamp'', timestamp] else args);
         args = (if is_mirror_target target then args @ [''--strategy'', ''mirror'']
                 else appendRetentionArgs args (trs_retention runSet))
     in args @ concat (map (\<lambda>source. [''--source'', source_arg target source]) (trs_sources runSet)))"

definition BuildServeTargetJobWithControl ::
    "(string \<Rightarrow> string result) \<Rightarrow> backup_job \<Rightarrow> rsync_machine \<Rightarrow> target_run_set \<Rightarrow> string \<Rightarrow> string \<Rightarrow> control_options
       \<Rightarrow> k8s_job result" where
  "BuildServeTargetJobWithControl parseQuantity run target runSet img timestamp controlOptions =
    (let img = machineImage target img;
         args = serve_target_args run target runSet timestamp controlOptions;
         labels = runLabels run runKindBackup RoleTargetServer;
         limit = lookup_text (om_annotations (m_meta target)) AnnotationTestTargetEmptyDirSizeLimit;
         targetVolumeSource =
           (if limit \<noteq> [] then
              (case parseQuantity limit of
                 Inl e \<Rightarrow> Inl (wrapf ''invalid %s annotation: %w'' [AnnotationTestTargetEmptyDirSizeLimit] e)
               | Inr quantity \<Rightarrow> Inr (MemoryVolume quantity))
            else Inr (ClaimVolume (ms_pvcName (m_spec target)) False)) in
     case targetVolumeSource of
       Inl e \<Rightarrow> Inl e
     | Inr volumeSource \<Rightarrow>
         (case targetInitContainers target img of
            Inl e \<Rightarrow> Inl e
          | Inr initContainers \<Rightarrow>
              Inr (new_job (om_namespace (m_meta target)) (GeneratedJobName ''target'' (om_name (j_meta run))) labels
                DefaultJobBackoffLimit
                (targetPodSpec target (plain_pod initContainers
                  (applyMachineResources target [data_container ''serve-target'' img args [rsync_port]
                     [mount ''target'' DefaultMountPath False, mount ''tls'' TLSMountPath True] []])
                  [volume_of ''target'' volumeSource,
                   volume_of ''tls'' (SecretVolume (GeneratedTLSSecretName (RunID run) RoleTargetServer
                     (om_namespace (m_meta target)) (om_name (m_meta target))))])))))"

definition BuildServeTargetJob ::
    "(string \<Rightarrow> string result) \<Rightarrow> backup_job \<Rightarrow> rsync_machine \<Rightarrow> target_run_set \<Rightarrow> string \<Rightarrow> string \<Rightarrow> k8s_job result" where
  "BuildServeTargetJob parseQuantity run target runSet img timestamp =
     BuildServeTargetJobWithControl parseQuantity run target runSet img timestamp no_control"

definition new_service :: "string \<Rightarrow> string \<Rightarrow> label_map \<Rightarrow> k8s_service" where
  "new_service namespace name labels = \<lparr>ks_meta = new_meta namespace name labels, ks_type = ''ClusterIP'',
     ks_selector = labels, ks_ports = [(''rsync'', RsyncPort)]\<rparr>"

definition BuildTargetService :: "backup_job \<Rightarrow> rsync_machine \<Rightarrow> k8s_service" where
  "BuildTargetService run target = new_service (om_namespace (m_meta target))
     (GeneratedServiceName ''target'' (om_name (j_meta run))) (runLabels run runKindBackup RoleTargetServer)"

section \<open>The sending side of a backup\<close>

record source_job_options =
  sjo_targetPath :: string
  sjo_claimName :: string

definition send_source_args ::
    "backup_job \<Rightarrow> backup_source \<Rightarrow> rsync_machine \<Rightarrow> string \<Rightarrow> control_options \<Rightarrow> string list" where
  "send_source_args run source target targetPath controlOptions =
    (let args = [''send-source'',
           ''--source'', path_join [''/source'', trim_prefix (SourcePathOrDefault (s_spec source)) ''/''],
           ''--target'', targetPath, ''--target-endpoint'', TargetServiceEndpoint run target, ''--tls-dir'', TLSMountPath,
           ''--run-namespace'', om_namespace (j_meta run), ''--run-name'', om_name (j_meta run),
           ''--source-namespace'', om_namespace (s_meta source), ''--source-name'', om_name (s_meta source),
           ''--target-namespace'', om_namespace (m_meta target), ''--target-name'', om_name (m_meta target)]
     in appendRsyncArgs (appendControlGRPCArgs args controlOptions) (ss_rsync (s_spec source)))"

definition source_backoff_limit :: "backup_source \<Rightarrow> int result" where
  "source_backoff_limit source =
    (let value = lookup_text (om_annotations (s_meta source)) AnnotationTestSourceBackoffLimit in
     if value = [] then Inr DefaultJobBackoffLimit
     else case parse_int 32 value of
         None \<Rightarrow> Inl (errorf ''invalid %s annotation %q'' [AnnotationTestSourceBackoffLimit, value])
       | Some parsed \<Rightarrow> if parsed < 0 then Inl (errorf ''invalid %s annotation %q'' [AnnotationTestSourceBackoffLimit, value])
           else Inr parsed)"

definition BuildSendSourceJobWithControl ::
    "backup_job \<Rightarrow> backup_source \<Rightarrow> rsync_machine \<Rightarrow> source_job_options \<Rightarrow> string \<Rightarrow> control_options \<Rightarrow> k8s_job result" where
  "BuildSendSourceJobWithControl run source target opts img controlOptions =
    (let img = machineImage target img;
         targetPath = (if sjo_targetPath opts = [] then TransferDestinationPath target (RunID run) source
                       else Inr (sjo_targetPath opts)) in
     case targetPath of
       Inl e \<Rightarrow> Inl e
     | Inr targetPath \<Rightarrow>
         let claimName = (if sjo_claimName opts = [] then ss_pvc (s_spec source) else sjo_claimName opts);
             labels = alist_put LabelSource (labelValue [om_namespace (s_meta source), om_name (s_meta source)])
               (runLabels run runKindBackup RoleSourceSender);
             args = send_source_args run source target targetPath controlOptions in
         case source_backoff_limit source of
           Inl e \<Rightarrow> Inl e
         | Inr backoffLimit \<Rightarrow>
             Inr (new_job (om_namespace (s_meta source))
               (GeneratedJobName (''source-'' @ om_name (s_meta source)) (om_name (j_meta run))) labels backoffLimit
               (sourceSenderPodSpec source (plain_pod []
                 [data_container ''send-source'' img args []
                    [mount ''source'' ''/source'' True, mount ''tls'' TLSMountPath True]
                    (ps_resources (ss_pod (s_spec source)))]
                 [volume_of ''source'' (ClaimVolume claimName True),
                  volume_of ''tls'' (SecretVolume (GeneratedTLSSecretName (RunID run) RoleSourceSender
                    (om_namespace (s_meta source)) (om_name (s_meta source))))]))))"

definition BuildSendSourceJob ::
    "backup_job \<Rightarrow> backup_source \<Rightarrow> rsync_machine \<Rightarrow> source_job_options \<Rightarrow> string \<Rightarrow> k8s_job result" where
  "BuildSendSourceJob run source target opts img =
     BuildSendSourceJobWithControl run source target opts img no_control"

section \<open>Restores\<close>

definition restore_snapshot :: "restore_job \<Rightarrow> rsync_machine \<Rightarrow> string" where
  "restore_snapshot restore target =
    (let snapshot = (if rj_restoredSnapshot (r_status restore) = [] then SnapshotOrDefault (r_spec restore)
                     else rj_restoredSnapshot (r_status restore))
     in if is_mirror_target target \<and> snapshot = DefaultSnapshot then DefaultMirrorSnapshot else snapshot)"

definition restore_source :: "rsync_machine \<Rightarrow> string \<Rightarrow> string" where
  "restore_source target effectivePath =
    (if is_mirror_target target \<and> effectivePath = [] then ''.'' else effectivePath)"

definition restore_target_args ::
    "restore_job \<Rightarrow> backup_source \<Rightarrow> rsync_machine \<Rightarrow> string \<Rightarrow> control_options \<Rightarrow> string list" where
  "restore_target_args restore source target effectivePath controlOptions =
     appendControlGRPCArgs [''serve-target'', ''--target'', DefaultMountPath, ''--tls-dir'', TLSMountPath,
       ''--run-namespace'', om_namespace (r_meta restore), ''--run-name'', om_name (r_meta restore),
       ''--target-namespace'', om_namespace (m_meta target), ''--target-name'', om_name (m_meta target),
       ''--restore-snapshot'', restore_snapshot restore target, ''--restore-source'', restore_source target effectivePath,
       ''--restore-writer'', om_namespace (s_meta source) @ ''/'' @ om_name (s_meta source)] controlOptions"

definition BuildRestoreTargetJobWithControl ::
    "restore_job \<Rightarrow> backup_source \<Rightarrow> rsync_machine \<Rightarrow> string \<Rightarrow> control_options \<Rightarrow> k8s_job result" where
  "BuildRestoreTargetJobWithControl restore source target img controlOptions =
    (case EffectiveDestinationPathForStrategy target source of
       Inl e \<Rightarrow> Inl e
     | Inr effectivePath \<Rightarrow>
         let img = machineImage target img;
             ref = meta_key (r_meta restore);
             labels = runLabelsForRef ref runKindRestore RoleTargetServer;
             args = restore_target_args restore source target effectivePath controlOptions
         in Inr (new_job (om_namespace (m_meta target)) (GeneratedJobName ''restore-target'' (om_name (r_meta restore)))
              labels DefaultJobBackoffLimit
              (targetPodSpec target (plain_pod []
                (applyMachineResources target [data_container ''serve-target'' img args [rsync_port]
                   [mount ''target'' DefaultMountPath True, mount ''tls'' TLSMountPath True] []])
                [volume_of ''target'' (ClaimVolume (ms_pvcName (m_spec target)) True),
                 volume_of ''tls'' (SecretVolume (GeneratedTLSSecretName (RunIDForRef ref) RoleTargetServer
                   (om_namespace (m_meta target)) (om_name (m_meta target))))]))))"

definition BuildRestoreTargetJob ::
    "restore_job \<Rightarrow> backup_source \<Rightarrow> rsync_machine \<Rightarrow> string \<Rightarrow> k8s_job result" where
  "BuildRestoreTargetJob restore source target img =
     BuildRestoreTargetJobWithControl restore source target img no_control"

definition BuildRestoreTargetService :: "restore_job \<Rightarrow> rsync_machine \<Rightarrow> k8s_service" where
  "BuildRestoreTargetService restore target = new_service (om_namespace (m_meta target))
     (GeneratedServiceName ''restore-target'' (om_name (r_meta restore)))
     (runLabelsForRef (meta_key (r_meta restore)) runKindRestore RoleTargetServer)"

definition restore_writer_args ::
    "restore_job \<Rightarrow> backup_source \<Rightarrow> rsync_machine \<Rightarrow> string \<Rightarrow> control_options \<Rightarrow> string list" where
  "restore_writer_args restore source target effectivePath controlOptions =
    (let destinationPath = (if rd_path (rs_destination (r_spec restore)) = [] then SourcePathOrDefault (s_spec source)
                            else rd_path (rs_destination (r_spec restore)));
         args = [''restore'', ''--snapshot'', restore_snapshot restore target,
           ''--snapshot-source'', restore_source target effectivePath,
           ''--target-endpoint'', RestoreTargetServiceEndpoint restore target,
           ''--destination'', path_join [''/restore'', trim_prefix destinationPath ''/''], ''--tls-dir'', TLSMountPath,
           ''--run-namespace'', om_namespace (r_meta restore), ''--run-name'', om_name (r_meta restore),
           ''--source-namespace'', om_namespace (s_meta source), ''--source-name'', om_name (s_meta source),
           ''--target-namespace'', om_namespace (m_meta target), ''--target-name'', om_name (m_meta target)];
         rsync = (if HasOverrides (rs_rsync (r_spec restore)) then rs_rsync (r_spec restore) else ss_rsync (s_spec source))
     in appendRsyncArgs (appendControlGRPCArgs args controlOptions) rsync)"

definition BuildRestoreJobWithControl ::
    "restore_job \<Rightarrow> backup_source \<Rightarrow> rsync_machine \<Rightarrow> string \<Rightarrow> control_options \<Rightarrow> k8s_job result" where
  "BuildRestoreJobWithControl restore source target img controlOptions =
    (let img = machineImage target img;
         destination = rs_destination (r_spec restore);
         destinationNamespace = (if rd_namespace destination = [] then om_namespace (r_meta restore) else rd_namespace destination);
         destinationPVC = (if rd_pvcName destination = [] then ss_pvc (s_spec source) else rd_pvcName destination) in
     case EffectiveDestinationPathForStrategy target source of
       Inl e \<Rightarrow> Inl e
     | Inr effectivePath \<Rightarrow>
         let ref = meta_key (r_meta restore);
             labels = alist_put LabelSource (labelValue [om_namespace (s_meta source), om_name (s_meta source)])
               (runLabelsForRef ref runKindRestore RoleRestoreWriter);
             args = restore_writer_args restore source target effectivePath controlOptions
         in Inr (new_job destinationNamespace (GeneratedJobName ''restore'' (om_name (r_meta restore))) labels
              DefaultJobBackoffLimit
              (restoreWriterPodSpec restore (plain_pod []
                [data_container ''restore'' img args []
                   [mount ''destination'' ''/restore'' False, mount ''tls'' TLSMountPath True]
                   (ps_resources (rs_pod (r_spec restore)))]
                [volume_of ''destination'' (ClaimVolume destinationPVC False),
                 volume_of ''tls'' (SecretVolume (GeneratedTLSSecretName (RunIDForRef ref) RoleRestoreWriter
                   (om_namespace (s_meta source)) (om_name (s_meta source))))]))))"

definition BuildRestoreJob ::
    "restore_job \<Rightarrow> backup_source \<Rightarrow> rsync_machine \<Rightarrow> string \<Rightarrow> k8s_job result" where
  "BuildRestoreJob restore source target img = BuildRestoreJobWithControl restore source target img no_control"

section \<open>Secrets\<close>

definition BuildTLSSecret :: "string \<Rightarrow> string \<Rightarrow> label_map \<Rightarrow> tls_bundle \<Rightarrow> k8s_secret" where
  "BuildTLSSecret namespace name labels bundle =
    (let secretLabels = fold (\<lambda>(k, v) m. alist_put k v m) labels [(LabelName, AppName), (LabelRole, RoleTLSSecret)]
     in \<lparr>sec_meta = new_meta namespace name secretLabels, sec_type = ''kubernetes.io/tls'', sec_data = SecretData bundle\<rparr>)"

end
