(* ===== verification/Receiver.thy ===== *)
theory Receiver
  imports Seeding Transfer_Header Builders Run_Set
begin

text \<open>
  What the receiver of a target lets in, and that it lets in what the controller
  sends: the jobs that builders.go generates for the two sides of a transfer agree
  on identities and destinations.
\<close>

section \<open>Who may write\<close>

text \<open>What a connection has proved about its sender when the receiver serves it.\<close>

definition authorized :: "(identity \<times> string) list \<Rightarrow> tls_conn \<Rightarrow> identity \<Rightarrow> string \<Rightarrow> bool" where
  "authorized expected c i d = (tc_isTLS c \<and> tc_handshake c = None \<and> peerIdentity (tc_peerURIs c) = Inr i
     \<and> map_of expected i = Some d
     \<and> (\<exists>h r. readTransferHeader (tc_conn c) = (Inr h, r) \<and> NormalizeTargetSubpath (th_destination h) = Inr d))"

lemma receiveTransfer_cases:
  assumes "receiveTransfer tunnel root expected c mirror f = ((i, err), g)"
  obtains (refused) "g = f" "err \<noteq> None"
    | (served) d where "authorized expected c i d"
        "err \<noteq> None \<and> g = snd (prepareTransferDestination root d mirror f)
         \<or> (\<exists>r seeded f1. prepareTransferDestination root d mirror f = (Inr seeded, f1)
              \<and> tunnel (path_below root d) False r f1 = (err, g))"
proof -
  show thesis
  proof (cases "g = f \<and> err \<noteq> None")
    case True
    then show thesis
      using refused by blast
  next
    case False
    then show thesis
      using assms served unfolding receiveTransfer_def authorized_def Let_def
      by (auto split: if_splits option.splits sum.splits prod.splits)
  qed
qed

text \<open>C24. Only an authorized sender has any effect: unless the peer completed the TLS handshake
  with a certificate for an identity the run expects, and asked for exactly the destination
  that was assigned to this identity, the receiver reports an error and leaves the volume as
  it is; otherwise the served directory is the assigned one, and a transfer counts as done
  only for such a sender.\<close>

theorem receiveTransfer_authorized:
  assumes "receiveTransfer tunnel root expected c mirror f = ((i, err), g)"
  shows "err \<noteq> None \<and> g = f \<or> (\<exists>d. authorized expected c i d
    \<and> (err \<noteq> None \<and> g = snd (prepareTransferDestination root d mirror f)
       \<or> (\<exists>r seeded f1. prepareTransferDestination root d mirror f = (Inr seeded, f1)
            \<and> tunnel (path_below root d) False r f1 = (err, g))))"
  using assms by (cases rule: receiveTransfer_cases) auto

lemma expected_map_keys:
  assumes "expected_map sources acc = Inr expected" "alist_wf acc"
  shows "alist_wf expected \<and> fst ` set expected = fst ` set acc \<union> ets_identity ` set sources"
  using assms
proof (induction sources acc rule: expected_map.induct)
  case (2 source sources acc)
  obtain d where d: "NormalizeTargetSubpath (ets_destination source) = Inr d"
    "expected_map sources (alist_put (ets_identity source) d acc) = Inr expected"
    using 2(2) by (auto split: if_splits sum.splits)
  then show ?case
    using 2(1) [OF _ d(1,2)] 2(2,3) by (auto split: if_splits)
qed simp

lemma receive_loop_completes:
  assumes "receive_loop tunnel root expected mirror goOn completed accepts f = Some (None, g)"
    and "distinct completed" "set completed \<subseteq> fst ` set expected" "alist_wf expected"
  shows "\<forall>i\<in>fst ` set expected - set completed. \<exists>c d f1 f2. Inr c \<in> set accepts \<and> authorized expected c i d
    \<and> receiveTransfer tunnel root expected c mirror f1 = ((i, None), f2)"
  using assms(1-3)
proof (induction accepts arbitrary: completed f)
  case Nil
  then have "length expected \<le> length completed"
    by (simp add: receive_loop.simps split: if_splits)
  moreover have "length completed = card (set completed)" "length expected = card (fst ` set expected)"
    using Nil(2) assms(4) by (simp_all add: distinct_card [symmetric] alist_wf_def) (metis distinct_card length_map list.set_map)
  ultimately have "set completed = fst ` set expected"
    using Nil(3) by (intro card_seteq) auto
  then show ?case
    by simp
next
  case (Cons a accepts)
  show ?case
  proof (cases "length expected \<le> length completed")
    case True
    have "length completed = card (set completed)" "length expected = card (fst ` set expected)"
      using Cons.prems(2) assms(4) by (simp_all add: distinct_card [symmetric] alist_wf_def) (metis distinct_card length_map list.set_map)
    then have "set completed = fst ` set expected"
      using Cons.prems(3) True by (intro card_seteq) auto
    then show ?thesis
      by simp
  next
    case False
    then obtain c where a: "a = Inr c"
      using Cons.prems(1) by (subst (asm) receive_loop.simps) (auto split: sum.splits)
    obtain i err f1 where "receiveTransfer tunnel root expected c mirror f = ((i, err), f1)"
      by (metis surj_pair)
    note c = a this
    show ?thesis
    proof (cases err)
      case None
      obtain d where d: "authorized expected c i d"
        using c(2) None by (cases rule: receiveTransfer_cases) auto
      then have i: "i \<in> fst ` set expected"
        using map_of_SomeD [of expected i d] by (force simp: authorized_def)
      have "receive_loop tunnel root expected mirror goOn (List.insert i completed) accepts f1 = Some (None, g)"
        using Cons.prems(1) False c None by (subst (asm) receive_loop.simps) simp
      then have rest: "\<forall>j\<in>fst ` set expected - set (List.insert i completed). \<exists>c d f1 f2. Inr c \<in> set accepts
          \<and> authorized expected c j d \<and> receiveTransfer tunnel root expected c mirror f1 = ((j, None), f2)"
        using Cons.IH [of "List.insert i completed" f1] Cons.prems(2,3) i by simp
      show ?thesis
      proof
        fix j
        assume j: "j \<in> fst ` set expected - set completed"
        show "\<exists>c d f1 f2. Inr c \<in> set (a # accepts) \<and> authorized expected c j d
          \<and> receiveTransfer tunnel root expected c mirror f1 = ((j, None), f2)"
        proof (cases "j = i")
          case True
          then show ?thesis
            using c d None by (metis list.set_intros(1))
        next
          case False
          then show ?thesis
            using rest j by (metis DiffD1 DiffD2 DiffI in_set_insert insert_iff list.set_intros(2) List.set_insert)
        qed
      qed
    next
      case (Some e)
      then have "receive_loop tunnel root expected mirror goOn completed accepts f1 = Some (None, g)"
        using Cons.prems(1) False c by (subst (asm) receive_loop.simps) (simp split: if_splits)
      then show ?thesis
        using Cons.IH [OF _ Cons.prems(2,3)] by (metis list.set_intros(2))
    qed
  qed
qed

text \<open>C31. The receiver reports success only when it has everything: if ServeTargetReceiver returns
  without an error, then for every source of the run it has accepted a connection on which that
  source, identified by its certificate, transferred to the destination assigned to it without
  an error.\<close>

theorem ServeTargetReceiver_complete:
  assumes "ServeTargetReceiver tunnel cwd tlsConfig accepts opts f = Some (None, g)" "s \<in> set (tro_sources opts)"
  shows "\<exists>expected c d f1 f2. expected_map (tro_sources opts) [] = Inr expected \<and> Inr c \<in> set accepts
    \<and> authorized expected c (ets_identity s) d
    \<and> receiveTransfer tunnel (abs_path cwd (tro_targetRoot opts)) expected c (tro_mirror opts) f1 = ((ets_identity s, None), f2)"
proof -
  obtain expected where e: "expected_map (tro_sources opts) [] = Inr expected"
    "receive_loop tunnel (abs_path cwd (tro_targetRoot opts)) expected (tro_mirror opts)
       (tro_continueOnTransferError opts) [] accepts f = Some (None, g)"
    using assms by (auto simp: ServeTargetReceiver_def Let_def split: if_splits sum.splits option.splits)
  have k: "alist_wf expected" "ets_identity s \<in> fst ` set expected"
    using expected_map_keys [OF e(1)] assms(2) by auto
  show ?thesis
    using receive_loop_completes [OF e(2) _ _ k(1)] k(2) e(1) by fastforce
qed

section \<open>The two sides of a transfer agree\<close>

text \<open>Names of Kubernetes objects and namespaces, as far as URIs and source arguments need them.\<close>

definition object_part :: "string \<Rightarrow> bool" where
  "object_part s = (uri_part s \<and> CHR ''='' \<notin> set s)"

definition source_named :: "backup_source \<Rightarrow> bool" where
  "source_named s = (object_part (om_namespace (s_meta s)) \<and> object_part (om_name (s_meta s)) \<and> ns_name (om_namespace (s_meta s)))"

definition sender_identity :: "backup_job \<Rightarrow> backup_source \<Rightarrow> identity" where
  "sender_identity run s = SourceIdentity (om_namespace (j_meta run)) (om_name (j_meta run))
     (om_namespace (s_meta s)) (om_name (s_meta s))"

lemma parse_source_arg:
  assumes "object_part ns" "object_part name" "d \<noteq> []"
  shows "parseSourceSpec (ns @ ''/'' @ name @ ''='' @ d) = Inr (ns, name, d)"
proof -
  have "cut_char CHR ''='' (ns @ ''/'' @ name @ ''='' @ d) = Some (ns @ ''/'' @ name, d)"
    using assms by (simp add: cut_char_Some object_part_def)
  moreover have "cut_char CHR ''/'' (ns @ ''/'' @ name) = Some (ns, name)"
    using assms by (simp add: cut_char_Some object_part_def uri_part_def)
  ultimately show ?thesis
    using assms by (simp add: parseSourceSpec_def object_part_def uri_part_def)
qed

text \<open>What the receiver derives from one source argument is what the sender is told.\<close>

lemma effective_normal:
  assumes "EffectiveDestinationPathForStrategy machine s = Inr e" "ns_name (om_namespace (s_meta s))"
  shows "NormalizeTargetSubpath (if is_mirror machine \<and> e = [] then ''.'' else e) = Inr e"
    and "\<not> is_mirror machine \<Longrightarrow> e \<noteq> []"
proof -
  have n: "NormalizeTargetSubpath (join ''/'' segs) = Inr (join ''/'' segs)"
    if "plain segs" "segs \<noteq> []" "CHR 0x5C \<notin> set (join ''/'' segs)" for segs
    using normalize_join_plain [OF that] join_plain_not_abs [OF that(1)] join_plain_dot [OF that(1,2)]
    by (auto simp: NormalizeTargetSubpath_def has_prefix_def)
  have snapshot: "\<exists>segs. plain segs \<and> segs \<noteq> [] \<and> e = join ''/'' segs \<and> CHR 0x5C \<notin> set e" if m: "\<not> is_mirror machine"
  proof -
    have e: "EffectiveDestinationPath s = Inr e"
      using assms(1) m by (simp add: EffectiveDestinationPathForStrategy_def)
    then have ok: "is_ok (dest_clean s)"
      by (auto simp: EffectiveDestinationPath_def effectiveDestinationPath_def dest_clean_def cleanRelativePath_def
          split: if_splits sum.splits)
    obtain segs where segs: "plain segs" "EffectiveDestinationPath s = Inr (eff machine s)"
      "eff machine s = join ''/'' (om_namespace (s_meta s) # segs)" "CHR 0x5C \<notin> set (eff machine s)"
      using eff_snapshot [OF m assms(2) ok] by blast
    have "e = eff machine s"
      using e segs(2) by (metis sum.inject(2))
    moreover have "plain (om_namespace (s_meta s) # segs)"
      using segs(1) assms(2) by (simp add: ns_name_def)
    ultimately show ?thesis
      using segs(3,4) by (intro exI [of _ "om_namespace (s_meta s) # segs"]) simp
  qed
  show "e \<noteq> []" if m: "\<not> is_mirror machine"
  proof -
    obtain segs where "plain segs" "segs \<noteq> []" "e = join ''/'' segs"
      using snapshot [OF m] by auto
    then show ?thesis
      using join_plain_nonempty [of segs] by simp
  qed
  show "NormalizeTargetSubpath (if is_mirror machine \<and> e = [] then ''.'' else e) = Inr e"
  proof (cases "is_mirror machine")
    case True
    have c: "cleanRelativePath (ss_destinationPath (s_spec s)) = Inr e"
      using assms(1) True by (simp add: EffectiveDestinationPathForStrategy_def effectiveMirror_clean)
    obtain segs where s: "plain segs" "e = join ''/'' segs" "CHR 0x5C \<notin> set e"
      using c by (rule cleanRelativePath_plain)
    show ?thesis
      using n [OF s(1)] s True by (cases "segs = []") (auto simp: NormalizeTargetSubpath_def)
  next
    case False
    then show ?thesis
      using snapshot n by auto
  qed
qed

lemma parse_source:
  fixes r :: resolved_source
  defines "s \<equiv> rsv_source r" and "e \<equiv> rsv_effectivePath r"
  assumes "EffectiveDestinationPathForStrategy machine s = Inr e" "source_named s" "validateRunID runID = Inr ()"
  shows "\<exists>p d. TransferDestinationPath machine runID s = Inr p \<and> NormalizeTargetSubpath p = Inr d
    \<and> parse_expected ns name runID (is_mirror machine) (source_arg machine r # values)
      = (case parse_expected ns name runID (is_mirror machine) values of
           Inl err \<Rightarrow> Inl err
         | Inr (out, fin) \<Rightarrow> Inr (\<lparr>ets_identity = SourceIdentity ns name (om_namespace (s_meta s)) (om_name (s_meta s)),
               ets_destination = p\<rparr> # out, e # fin))"
proof -
  let ?d = "if is_mirror machine \<and> e = [] then ''.'' else e"
  let ?p = "if is_mirror machine then (if e = [] then ''.'' else e) else path_join [''.partial'', runID, e]"
  note named = assms(4) [unfolded source_named_def]
  have norm: "NormalizeTargetSubpath ?d = Inr e" "\<not> is_mirror machine \<Longrightarrow> e \<noteq> []"
    using effective_normal [OF assms(3)] named by blast+
  have run: "runID \<noteq> []"
    using assms(5) by (auto simp: validateRunID_def)
  have p: "TransferDestinationPath machine runID s = Inr ?p"
    using assms(3) run by (auto simp: TransferDestinationPath_def PartialDestinationPath_def EffectiveDestinationPathForStrategy_def)
  have ns: "om_namespace (s_meta s) \<noteq> []" "om_name (s_meta s) \<noteq> []"
    using named by (auto simp: object_part_def uri_part_def)
  have "?d \<noteq> []"
    using norm(2) by auto
  then have "parseSourceSpec (source_arg machine r)
      = Inr (om_namespace (s_meta s), om_name (s_meta s), ?d)"
    using parse_source_arg [of "om_namespace (s_meta s)" "om_name (s_meta s)" ?d] named
    by (cases "is_mirror machine \<and> e = []") (simp_all add: source_arg_def is_mirror_target_def Let_def s_def [symmetric] e_def [symmetric])
  then have "parse_expected ns name runID (is_mirror machine) (source_arg machine r # values)
      = (case parse_expected ns name runID (is_mirror machine) values of
           Inl err \<Rightarrow> Inl err
         | Inr (out, fin) \<Rightarrow> Inr (\<lparr>ets_identity = SourceIdentity ns name (om_namespace (s_meta s)) (om_name (s_meta s)),
               ets_destination = ?p\<rparr> # out, e # fin))"
    using norm(1) ns
    by (cases "is_mirror machine"; cases "e = []") (simp_all add: Let_def split: sum.split prod.split)
  moreover have "\<exists>d. NormalizeTargetSubpath ?p = Inr d"
    using TransferDestinationPath_accepted [OF p assms(5)] named by blast
  ultimately show ?thesis
    using p by blast
qed

text \<open>The expected sources the target derives from its arguments, for a list of resolved sources.\<close>

lemma parse_sources:
  assumes "\<forall>r\<in>set rs. EffectiveDestinationPathForStrategy machine (rsv_source r) = Inr (rsv_effectivePath r)
      \<and> source_named (rsv_source r)"
    and "validateRunID runID = Inr ()"
  shows "\<exists>out. parse_expected ns name runID (is_mirror machine) (map (source_arg machine) rs) = Inr (out, map rsv_effectivePath rs)
    \<and> list_all2 (\<lambda>r x. ets_identity x = SourceIdentity ns name (om_namespace (s_meta (rsv_source r))) (om_name (s_meta (rsv_source r)))
        \<and> TransferDestinationPath machine runID (rsv_source r) = Inr (ets_destination x)
        \<and> is_ok (NormalizeTargetSubpath (ets_destination x))) rs out"
  using assms(1)
proof (induction rs)
  case (Cons r rs)
  obtain out where out: "parse_expected ns name runID (is_mirror machine) (map (source_arg machine) rs) = Inr (out, map rsv_effectivePath rs)"
    "list_all2 (\<lambda>r x. ets_identity x = SourceIdentity ns name (om_namespace (s_meta (rsv_source r))) (om_name (s_meta (rsv_source r)))
        \<and> TransferDestinationPath machine runID (rsv_source r) = Inr (ets_destination x)
        \<and> is_ok (NormalizeTargetSubpath (ets_destination x))) rs out"
    using Cons by auto
  obtain p d where p: "TransferDestinationPath machine runID (rsv_source r) = Inr p" "NormalizeTargetSubpath p = Inr d"
    "parse_expected ns name runID (is_mirror machine) (source_arg machine r # map (source_arg machine) rs)
      = Inr (\<lparr>ets_identity = SourceIdentity ns name (om_namespace (s_meta (rsv_source r))) (om_name (s_meta (rsv_source r))),
               ets_destination = p\<rparr> # out, rsv_effectivePath r # map rsv_effectivePath rs)"
    using parse_source [of machine r runID ns name "map (source_arg machine) rs"]
      Cons.prems assms(2) unfolding out(1) by (auto simp del: parse_expected.simps)
  then show ?case
    using out(2) by (simp add: is_ok_def del: parse_expected.simps)
qed simp

lemma length_alist_put_new: "k \<notin> fst ` set m \<Longrightarrow> length (alist_put k v m) = Suc (length m)"
  by (induction k v m rule: alist_put.induct) auto

lemma expected_map_of:
  assumes "list_all2 (\<lambda>r x. ets_identity x = idn r \<and> is_ok (NormalizeTargetSubpath (ets_destination x))) rs out"
    and "\<forall>r\<in>set rs. idn r \<noteq> no_identity" "distinct (map idn rs)"
    and "alist_wf acc" "\<forall>r\<in>set rs. idn r \<notin> fst ` set acc"
  shows "\<exists>expected. expected_map out acc = Inr expected \<and> length expected = length acc + length rs
    \<and> (\<forall>i. i \<notin> idn ` set rs \<longrightarrow> map_of expected i = map_of acc i)
    \<and> list_all2 (\<lambda>r x. NormalizeTargetSubpath (ets_destination x) = Inr (the (map_of expected (idn r)))
        \<and> map_of expected (idn r) \<noteq> None) rs out"
  using assms
proof (induction rs out arbitrary: acc rule: list_all2_induct)
  case (Cons r rs x out)
  obtain d where d: "NormalizeTargetSubpath (ets_destination x) = Inr d"
    using Cons.hyps by (auto simp: is_ok_iff)
  let ?acc = "alist_put (idn r) d acc"
  have "length ?acc = Suc (length acc)"
    using Cons.prems(4) by (intro length_alist_put_new) simp
  moreover obtain expected where e: "expected_map out ?acc = Inr expected"
    "length expected = length ?acc + length rs"
    "\<forall>i. i \<notin> idn ` set rs \<longrightarrow> map_of expected i = map_of ?acc i"
    "list_all2 (\<lambda>r x. NormalizeTargetSubpath (ets_destination x) = Inr (the (map_of expected (idn r)))
        \<and> map_of expected (idn r) \<noteq> None) rs out"
  proof -
    have "\<forall>a\<in>set rs. idn a \<noteq> idn r"
      using Cons.prems(2) by simp (metis imageI)
    then have "\<exists>expected. expected_map out ?acc = Inr expected \<and> length expected = length ?acc + length rs
      \<and> (\<forall>i. i \<notin> idn ` set rs \<longrightarrow> map_of expected i = map_of ?acc i)
      \<and> list_all2 (\<lambda>r x. NormalizeTargetSubpath (ets_destination x) = Inr (the (map_of expected (idn r)))
        \<and> map_of expected (idn r) \<noteq> None) rs out"
      using Cons.IH [of ?acc] Cons.prems by simp
    then show thesis
      using that by blast
  qed
  moreover have "map_of expected (idn r) = Some d"
    using e(3) Cons.prems(2) by (simp add: image_iff)
  moreover have "expected_map (x # out) acc = Inr expected"
    using Cons.hyps Cons.prems(1) d e(1) by auto
  ultimately show ?case
    using d Cons.prems(2) by auto
qed simp

lemma claimant_effective:
  assumes "is_ok (dest_clean s)" "ns_name (om_namespace (s_meta s))"
  shows "EffectiveDestinationPathForStrategy machine s = Inr (rsv_effectivePath (resolved_of machine s))"
proof (cases "is_mirror machine")
  case True
  then show ?thesis
    using assms(1) by (auto simp: resolved_of_def EffectiveDestinationPathForStrategy_def effectiveMirror_clean dest_clean_def is_ok_iff)
next
  case False
  obtain segs where "EffectiveDestinationPath s = Inr (eff machine s)"
    using eff_snapshot [OF False assms(2,1)] by metis
  then show ?thesis
    using False by (simp add: eff_def EffectiveDestinationPathForStrategy_def)
qed

lemma run_set_sources:
  assumes "CalculateTargetRunSet machine sources = Inr rs" "keyed sources"
    and "\<forall>s\<in>set (claimants machine sources). source_named s"
  shows "\<forall>r\<in>set (trs_sources rs). EffectiveDestinationPathForStrategy machine (rsv_source r) = Inr (rsv_effectivePath r)
      \<and> source_named (rsv_source r) \<and> rsv_ref r = meta_key (s_meta (rsv_source r))"
    and "distinct (map rsv_ref (trs_sources rs))"
proof -
  have ad: "admissible machine sources" and rs: "trs_sources rs = run_sources machine sources"
    using assms(1) by (auto simp: CalculateTargetRunSet_iff [OF assms(2)] run_set_of_def)
  show "distinct (map rsv_ref (trs_sources rs))"
  proof -
    have "mset (map rsv_ref (run_sources machine sources)) = mset (map (\<lambda>s. meta_key (s_meta s)) (claimants machine sources))"
      by (simp add: run_sources_def image_mset.compositionality comp_def)
    then show ?thesis
      unfolding rs using keyed_claimants_inj [OF assms(2)] mset_eq_imp_distinct_iff by blast
  qed
  show "\<forall>r\<in>set (trs_sources rs). EffectiveDestinationPathForStrategy machine (rsv_source r) = Inr (rsv_effectivePath r)
      \<and> source_named (rsv_source r) \<and> rsv_ref r = meta_key (s_meta (rsv_source r))"
  proof
    fix r
    assume "r \<in> set (trs_sources rs)"
    then obtain s where s: "s \<in> set (claimants machine sources)" "r = resolved_of machine s"
      by (auto simp: rs run_sources_def)
    then have "is_ok (dest_clean s)" "source_named s"
      using ad assms(3) by (auto simp: admissible_def)
    moreover have "rsv_source r = s"
      by (simp add: s(2) resolved_of_def)
    ultimately show "EffectiveDestinationPathForStrategy machine (rsv_source r) = Inr (rsv_effectivePath r)
      \<and> source_named (rsv_source r) \<and> rsv_ref r = meta_key (s_meta (rsv_source r))"
      using claimant_effective [of s machine] s(2) by (simp add: source_named_def)
  qed
qed

lemma sender_identity_uri:
  "source_named s \<Longrightarrow> uri_part (om_namespace (j_meta run)) \<Longrightarrow> uri_part (om_name (j_meta run)) \<Longrightarrow> uri_identity (sender_identity run s)"
  by (simp add: uri_identity_def sender_identity_def SourceIdentity_def source_named_def object_part_def)

text \<open>C23. Controller and data plane agree on who sends what where: for an admitted run set, the
  arguments that the target job gets make the receiver expect exactly the sources of the run
  and finalize exactly their effective destinations, and every source job is served: a sender
  whose certificate carries the URI minted for its source, and which asks for the destination
  its job was given, is authorized.\<close>

theorem receiver_serves_senders:
  assumes "CalculateTargetRunSet machine sources = Inr rs" "keyed sources"
    and named: "\<forall>s\<in>set (claimants machine sources). source_named s"
    and run: "validateRunID (RunID run) = Inr ()" "uri_part (om_namespace (j_meta run))" "uri_part (om_name (j_meta run))"
  shows "\<exists>out expected.
      ParseExpectedTransferSourcesWithStrategy (om_namespace (j_meta run)) (om_name (j_meta run)) (RunID run)
        (is_mirror machine) (map (source_arg machine) (trs_sources rs))
          = Inr (out, sort (map rsv_effectivePath (trs_sources rs)))
    \<and> expected_map out [] = Inr expected \<and> length expected = length (trs_sources rs)
    \<and> (\<forall>r\<in>set (trs_sources rs). \<exists>p d. TransferDestinationPath machine (RunID run) (rsv_source r) = Inr p
        \<and> (\<forall>c certs h rest. tc_isTLS c \<and> tc_handshake c = None
             \<and> tc_peerURIs c = [identity_URI (sender_identity run (rsv_source r))] # certs
             \<and> readTransferHeader (tc_conn c) = (Inr h, rest) \<and> th_destination h = p
             \<longrightarrow> authorized expected c (sender_identity run (rsv_source r)) d))"
proof -
  let ?rs = "trs_sources rs" and ?idn = "\<lambda>r. sender_identity run (rsv_source r)"
  note src = run_set_sources [OF assms(1,2) named]
  obtain out where out: "parse_expected (om_namespace (j_meta run)) (om_name (j_meta run)) (RunID run) (is_mirror machine)
      (map (source_arg machine) ?rs) = Inr (out, map rsv_effectivePath ?rs)"
    "list_all2 (\<lambda>r x. ets_identity x = ?idn r \<and> TransferDestinationPath machine (RunID run) (rsv_source r) = Inr (ets_destination x)
        \<and> is_ok (NormalizeTargetSubpath (ets_destination x))) ?rs out"
    using parse_sources [of ?rs machine "RunID run" "om_namespace (j_meta run)" "om_name (j_meta run)"] src(1) run(1)
    unfolding sender_identity_def by auto
  have "map ?idn ?rs = map (\<lambda>k. SourceIdentity (om_namespace (j_meta run)) (om_name (j_meta run)) (fst k) (snd k)) (map rsv_ref ?rs)"
    using src(1) by (simp add: sender_identity_def meta_key_def)
  moreover have "inj_on (\<lambda>k. SourceIdentity (om_namespace (j_meta run)) (om_name (j_meta run)) (fst k) (snd k)) A" for A
    by (auto simp: inj_on_def SourceIdentity_def)
  ultimately have "distinct (map ?idn ?rs)"
    using src(2) by (simp only: distinct_map)
  moreover have "list_all2 (\<lambda>r x. ets_identity x = ?idn r \<and> is_ok (NormalizeTargetSubpath (ets_destination x))) ?rs out"
    using out(2) by (rule list_all2_mono) simp
  moreover have "\<forall>r\<in>set ?rs. ?idn r \<noteq> no_identity"
    by (simp add: sender_identity_def SourceIdentity_def no_identity_def)
  ultimately obtain expected where e: "expected_map out [] = Inr expected" "length expected = length ?rs"
    "list_all2 (\<lambda>r x. NormalizeTargetSubpath (ets_destination x) = Inr (the (map_of expected (?idn r)))
        \<and> map_of expected (?idn r) \<noteq> None) ?rs out"
    using expected_map_of [of ?idn ?rs out "[]"] by auto
  have "\<exists>p d. TransferDestinationPath machine (RunID run) (rsv_source r) = Inr p
      \<and> NormalizeTargetSubpath p = Inr d \<and> map_of expected (?idn r) = Some d" if r: "r \<in> set ?rs" for r
  proof -
    obtain k where k: "k < length ?rs" "?rs ! k = r"
      using r by (auto simp: in_set_conv_nth)
    show ?thesis
      using list_all2_nthD [OF out(2) k(1)] list_all2_nthD [OF e(3) k(1)] k(2) by auto
  qed
  moreover have "peerIdentity ([identity_URI (?idn r)] # certs) = Inr (?idn r)" if "r \<in> set ?rs" for r certs
    using parse_identity_URI [OF sender_identity_uri, of "rsv_source r" run] src(1) that run by (simp add: peerIdentity_def)
  ultimately show ?thesis
    using out(1) e(1,2)
    unfolding ParseExpectedTransferSourcesWithStrategy_def authorized_def by (auto; metis)
qed

section \<open>Witnesses\<close>

definition demo_peer :: tls_conn where
  "demo_peer = \<lparr>tc_isTLS = True, tc_handshake = None, tc_peerURIs = [[''spiffe://krm/run/ops/nightly/source/db/data'']],
     tc_conn = \<lparr>cn_in = put_uint32 (length (marshal_header (no_header\<lparr>th_destination := ''db'', th_protocol := ''rsync''\<rparr>)))
        @ marshal_header (no_header\<lparr>th_destination := ''db'', th_protocol := ''rsync''\<rparr>), cn_out = [], cn_writes = None\<rparr>\<rparr>"

definition demo_receiver :: target_receiver_options where
  "demo_receiver = \<lparr>tro_targetRoot = ''/b'', tro_runID = ''ops-nightly'', tro_mirror = True,
     tro_sources = [\<lparr>ets_identity = SourceIdentity ''ops'' ''nightly'' ''db'' ''data'', ets_destination = ''db''\<rparr>],
     tro_continueOnTransferError = True\<rparr>"

definition idle_tunnel :: tunnel where
  "idle_tunnel p readOnly c f = (None, f)"

lemma demo_peer_header:
  "readTransferHeader (tc_conn demo_peer) = (Inr (no_header\<lparr>th_destination := ''db'', th_protocol := ''rsync''\<rparr>),
     (tc_conn demo_peer)\<lparr>cn_in := []\<rparr>)"
proof (rule read_marshalled)
  let ?h = "no_header\<lparr>th_destination := ''db'', th_protocol := ''rsync''\<rparr>"
  show "header_valid ?h"
    unfolding header_valid_def no_header_def by (simp add: ascii_valid)
  show "length (marshal_header ?h) \<le> maxTransferHeaderBytes"
    by (simp add: marshal_header_def no_header_def json_field_def json_string_def json_char_def)
  show "cn_in (tc_conn demo_peer) = put_uint32 (length (marshal_header ?h)) @ marshal_header ?h @ []"
    by (simp add: demo_peer_def)
qed

lemma demo_peer_uri: "identity_URI (SourceIdentity ''ops'' ''nightly'' ''db'' ''data'') = ''spiffe://krm/run/ops/nightly/source/db/data''"
  by code_simp

lemma demo_peer_identity: "peerIdentity (tc_peerURIs demo_peer) = Inr (SourceIdentity ''ops'' ''nightly'' ''db'' ''data'')"
proof -
  have "uri_identity (SourceIdentity ''ops'' ''nightly'' ''db'' ''data'')"
    by (simp add: uri_identity_def SourceIdentity_def uri_part_def)
  then show ?thesis
    using parse_identity_URI by (simp add: peerIdentity_def demo_peer_def demo_peer_uri [symmetric])
qed

lemma demo_norm: "NormalizeTargetSubpath ''db'' = Inr ''db''"
  by code_simp

lemma demo_prepare: "fst (prepareTransferDestination [''b''] ''db'' True demo_seed) = Inr False"
  by code_simp

lemma demo_abs: "abs_path [] ''/b'' = [''b'']"
  by code_simp

lemma demo_receive:
  "\<exists>g. receiveTransfer idle_tunnel [''b''] [(SourceIdentity ''ops'' ''nightly'' ''db'' ''data'', ''db'')] demo_peer True demo_seed
     = ((SourceIdentity ''ops'' ''nightly'' ''db'' ''data'', None), g)"
proof -
  obtain g where "prepareTransferDestination [''b''] ''db'' True demo_seed = (Inr False, g)"
    using demo_prepare by (cases "prepareTransferDestination [''b''] ''db'' True demo_seed") auto
  moreover have "tc_isTLS demo_peer" "tc_handshake demo_peer = None"
    by (simp_all add: demo_peer_def)
  ultimately show ?thesis
    by (simp add: receiveTransfer_def demo_peer_identity demo_norm demo_abs demo_peer_header idle_tunnel_def Let_def no_header_def)
qed

theorem receiveTransfer_authorized_witness:
  "\<exists>d. authorized [(SourceIdentity ''ops'' ''nightly'' ''db'' ''data'', ''db'')] demo_peer (SourceIdentity ''ops'' ''nightly'' ''db'' ''data'') d"
  using demo_receive receiveTransfer_authorized by blast

lemma demo_serve:
  "\<exists>g. ServeTargetReceiver idle_tunnel [] None [Inr demo_peer] demo_receiver demo_seed = Some (None, g)"
proof -
  have "expected_map (tro_sources demo_receiver) [] = Inr [(SourceIdentity ''ops'' ''nightly'' ''db'' ''data'', ''db'')]"
    by (simp add: demo_receiver_def demo_peer_identity demo_norm demo_abs no_identity_def SourceIdentity_def)
  then show ?thesis
    using demo_receive
    by (auto simp: ServeTargetReceiver_def receive_loop.simps demo_peer_identity demo_norm demo_abs Let_def) (auto simp: demo_receiver_def demo_peer_identity demo_norm demo_abs receive_loop.simps)
qed

theorem ServeTargetReceiver_complete_witness:
  "\<exists>expected d. authorized expected demo_peer (SourceIdentity ''ops'' ''nightly'' ''db'' ''data'') d"
proof -
  obtain g where "ServeTargetReceiver idle_tunnel [] None [Inr demo_peer] demo_receiver demo_seed = Some (None, g)"
    using demo_serve by blast
  then show ?thesis
    using ServeTargetReceiver_complete [where s = "\<lparr>ets_identity = SourceIdentity ''ops'' ''nightly'' ''db'' ''data'', ets_destination = ''db''\<rparr>"]
    by (fastforce simp: demo_receiver_def)
qed

definition nightly_run :: backup_job where
  "nightly_run = \<lparr>j_meta = empty_meta\<lparr>om_namespace := ''backup'', om_name := ''nightly''\<rparr>,
     j_spec = \<lparr>bs_machineRef = \<lparr>or_namespace = [], or_name = ''nas''\<rparr>, bs_trigger = TriggerUnset\<rparr>,
     j_status = empty_backup_status\<rparr>"

lemma demo_named:
  "\<forall>s\<in>set (claimants demo_machine demo_sources). source_named s"
  "validateRunID (RunID nightly_run) = Inr ()" "uri_part (om_namespace (j_meta nightly_run))" "uri_part (om_name (j_meta nightly_run))"
  by code_simp+

theorem receiver_serves_senders_witness:
  "\<exists>rs out. CalculateTargetRunSet demo_machine demo_sources = Inr rs
    \<and> ParseExpectedTransferSourcesWithStrategy ''backup'' ''nightly'' (RunID nightly_run) False
        (map (source_arg demo_machine) (trs_sources rs)) = Inr (out, [''blog'', ''shop/web''])"
proof -
  obtain rs where rs: "CalculateTargetRunSet demo_machine demo_sources = Inr rs" "map rsv_effectivePath (trs_sources rs) = [''blog'', ''shop/web'']"
    using demo_facts(3) by (auto split: sum.splits)
  have s: "sort [''blog'', ''shop/web''] = [''blog'', ''shop/web'']" "\<not> is_mirror demo_machine"
    by code_simp+
  have "om_namespace (j_meta nightly_run) = ''backup''" "om_name (j_meta nightly_run) = ''nightly''"
    by (simp_all add: nightly_run_def)
  then show ?thesis
    using receiver_serves_senders [OF rs(1) demo_facts(1) demo_named(1-4)] rs s by auto
qed

end
