(* ===== verification/Calls.thy ===== *)
theory Calls
  imports Prelude
begin

text \<open>
  Go code that talks to something outside: a call takes the state of the world and
  gives a result or an error and the next state. The definitions below are the
  idioms by which the program puts calls in sequence.
\<close>

section \<open>Calls\<close>

type_synonym ('w, 'a) call = "'w \<Rightarrow> 'a result \<times> 'w"

text \<open>\<open>if err != nil { return err }\<close>\<close>

definition then_do :: "'a result \<times> 'w \<Rightarrow> ('a \<Rightarrow> ('w, 'b) call) \<Rightarrow> 'b result \<times> 'w" where
  "then_do r k = (case r of (Inl e, w) \<Rightarrow> (Inl e, w) | (Inr x, w) \<Rightarrow> k x w)"

lemma then_do_simps [simp]: "then_do (Inl e, w) k = (Inl e, w)" "then_do (Inr x, w) k = k x w"
  by (simp_all add: then_do_def)

lemma then_do_Inr [go_result]:
  "then_do r k = (Inr y, w') \<longleftrightarrow> (\<exists>x w. r = (Inr x, w) \<and> k x w = (Inr y, w'))"
  by (cases r; cases "fst r") auto

text \<open>\<open>return fmt.Errorf("...: %w", err)\<close>\<close>

definition wrapped :: "string \<Rightarrow> string list \<Rightarrow> 'a result \<times> 'w \<Rightarrow> 'a result \<times> 'w" where
  "wrapped f args r = (case r of (Inl e, w) \<Rightarrow> (Inl (wrapf f args e), w) | (Inr x, w) \<Rightarrow> (Inr x, w))"

lemma wrapped_simps [simp]: "wrapped f args (Inl e, w) = (Inl (wrapf f args e), w)" "wrapped f args (Inr x, w) = (Inr x, w)"
  by (simp_all add: wrapped_def)

lemma wrapped_Inr [go_result, simp]: "wrapped f args r = (Inr x, w) \<longleftrightarrow> r = (Inr x, w)"
  by (cases r; cases "fst r") auto

lemma snd_wrapped [simp]: "snd (wrapped f args r) = snd r"
  by (cases r; cases "fst r") auto

text \<open>\<open>client.IgnoreNotFound\<close>, and \<open>err != nil && !apierrors.IsNotFound(err)\<close>\<close>

definition IgnoreNotFound :: "'a result \<times> 'w \<Rightarrow> unit result \<times> 'w" where
  "IgnoreNotFound r = (case r of
      (Inl e, w) \<Rightarrow> (if errors_is ApiNotFound e then Inr () else Inl e, w)
    | (Inr _, w) \<Rightarrow> (Inr (), w))"

lemma IgnoreNotFound_simps [simp]:
  "IgnoreNotFound (Inr x, w) = (Inr (), w)"
  "errors_is ApiNotFound e \<Longrightarrow> IgnoreNotFound (Inl e, w) = (Inr (), w)"
  "\<not> errors_is ApiNotFound e \<Longrightarrow> IgnoreNotFound (Inl e, w) = (Inl e, w)"
  by (simp_all add: IgnoreNotFound_def)

lemma snd_IgnoreNotFound [simp]: "snd (IgnoreNotFound r) = snd r"
  by (cases r; cases "fst r") (auto simp: IgnoreNotFound_def)

text \<open>A loop over a list that stops at the first error.\<close>

fun each_call :: "('a \<Rightarrow> ('w, unit) call) \<Rightarrow> 'a list \<Rightarrow> ('w, unit) call" where
  "each_call f [] w = (Inr (), w)"
| "each_call f (x # xs) w = then_do (f x w) (\<lambda>_. each_call f xs)"

text \<open>A call that may have to wait for another party: \<open>None\<close> when it cannot go on.\<close>

type_synonym ('w, 'a) waiting = "'w \<Rightarrow> ('a result \<times> 'w) option"

definition then_wait :: "('a result \<times> 'w) option \<Rightarrow> ('a \<Rightarrow> ('w, 'b) waiting) \<Rightarrow> ('b result \<times> 'w) option" where
  "then_wait r k = (case r of None \<Rightarrow> None | Some (Inl e, w) \<Rightarrow> Some (Inl e, w) | Some (Inr x, w) \<Rightarrow> k x w)"

lemma then_wait_simps [simp]:
  "then_wait None k = None" "then_wait (Some (Inl e, w)) k = Some (Inl e, w)" "then_wait (Some (Inr x, w)) k = k x w"
  by (simp_all add: then_wait_def)

lemma then_wait_Inr [go_result]:
  "then_wait r k = Some (Inr y, w') \<longleftrightarrow> (\<exists>x w. r = Some (Inr x, w) \<and> k x w = Some (Inr y, w'))"
  by (cases r; cases "fst (the r)"; cases "the r") auto

end
