(* ===== verification/Metrics.thy ===== *)
theory Metrics
  imports Api_Types
begin

text \<open>
  metrics/recorder.go: the counters and gauges of the controller. The vectors of
  the Prometheus client are maps from the values of their labels to numbers; a
  counter or gauge that was never touched is zero. Samples are natural numbers or,
  for the gauge of active runs, integers: the recorder only counts up and down by
  one, which is exact in a \<open>float64\<close> below \<open>2 ^ 53\<close>. The mutex makes every
  operation one step; a nil recorder, which ignores all calls, is \<open>None\<close>.
\<close>

section \<open>State\<close>

datatype metric_job_status = JobStatusUnset | JobStatusActive | JobStatusComplete | JobStatusFailed | JobStatusSuspended

record metrics =
  mt_activeRuns :: "(string \<times> int) list"
  mt_completedRuns :: "(string \<times> nat) list"
  mt_failedRuns :: "(string \<times> nat) list"
  mt_transitions :: "((string \<times> string \<times> metric_job_status) \<times> nat) list"
  mt_transferBytes :: "((string \<times> string) \<times> 64 word) list"
  mt_transferDuration :: "((string \<times> string) \<times> int) list"
  mt_activeRunKeys :: "(string \<times> string) list"
  mt_jobStatuses :: "(string \<times> metric_job_status) list"

definition NewRecorder :: metrics where
  "NewRecorder = \<lparr>mt_activeRuns = [], mt_completedRuns = [], mt_failedRuns = [], mt_transitions = [],
     mt_transferBytes = [], mt_transferDuration = [], mt_activeRunKeys = [], mt_jobStatuses = []\<rparr>"

definition sample :: "('k \<times> 'n::zero) list \<Rightarrow> 'k \<Rightarrow> 'n" where
  "sample m k = (case map_of m k of None \<Rightarrow> 0 | Some n \<Rightarrow> n)"

definition add_sample :: "'k \<Rightarrow> 'n::monoid_add \<Rightarrow> ('k \<times> 'n) list \<Rightarrow> ('k \<times> 'n) list" where
  "add_sample k d m = alist_put k (sample m k + d) m"

lemma sample_add [simp]: "sample (add_sample k d m) j = (if j = k then sample m k + d else sample m j)"
  by (simp add: sample_def add_sample_def)

section \<open>Operations\<close>

definition recorder_isTerminalPhase :: "run_phase \<Rightarrow> bool" where
  "recorder_isTerminalPhase phase = (phase = RunSucceeded \<or> phase = RunFailed \<or> phase = RunCanceled)"

definition RecordRunPhase :: "string \<Rightarrow> string \<Rightarrow> run_phase \<Rightarrow> run_phase \<Rightarrow> metrics \<Rightarrow> metrics" where
  "RecordRunPhase runKind runKey oldPhase newPhase m =
    (if oldPhase = newPhase then m
     else let stateKey = runKind @ ''/'' @ runKey in
       if \<not> recorder_isTerminalPhase newPhase then
         (case map_of (mt_activeRunKeys m) stateKey of
            Some _ \<Rightarrow> m
          | None \<Rightarrow> m\<lparr>mt_activeRunKeys := alist_put stateKey runKind (mt_activeRunKeys m),
                      mt_activeRuns := add_sample runKind 1 (mt_activeRuns m)\<rparr>)
       else
         let m = (case map_of (mt_activeRunKeys m) stateKey of
             None \<Rightarrow> m
           | Some seenKind \<Rightarrow> m\<lparr>mt_activeRunKeys := alist_del stateKey (mt_activeRunKeys m),
                               mt_activeRuns := add_sample seenKind (- 1) (mt_activeRuns m)\<rparr>)
         in (if newPhase = RunSucceeded then m\<lparr>mt_completedRuns := add_sample runKind 1 (mt_completedRuns m)\<rparr>
             else if newPhase = RunFailed then m\<lparr>mt_failedRuns := add_sample runKind 1 (mt_failedRuns m)\<rparr>
             else m))"

definition RecordGeneratedJobStatus :: "string \<Rightarrow> string \<Rightarrow> string \<Rightarrow> metric_job_status \<Rightarrow> metrics \<Rightarrow> metrics" where
  "RecordGeneratedJobStatus runKind role jobKey status m =
    (if status = JobStatusUnset then m
     else let stateKey = runKind @ ''/'' @ jobKey in
       if map_of (mt_jobStatuses m) stateKey = Some status then m
       else m\<lparr>mt_jobStatuses := alist_put stateKey status (mt_jobStatuses m),
              mt_transitions := add_sample (runKind, role, status) 1 (mt_transitions m)\<rparr>)"

text \<open>The duration is in nanoseconds; the gauge shows it in seconds.\<close>

definition RecordTransfer :: "string \<Rightarrow> string \<Rightarrow> 64 word \<Rightarrow> int \<Rightarrow> metrics \<Rightarrow> metrics" where
  "RecordTransfer runKind transferKey bytesTransferred duration m =
    (if transferKey = [] then m
     else let m = m\<lparr>mt_transferBytes := alist_put (runKind, transferKey) bytesTransferred (mt_transferBytes m)\<rparr> in
       if duration \<ge> 0 then m\<lparr>mt_transferDuration := alist_put (runKind, transferKey) duration (mt_transferDuration m)\<rparr> else m)"

section \<open>The gauge of active runs\<close>

text \<open>
  A run counts as active from its first phase that is not terminal until it ends.
  The reference state is the set of runs seen active with their kinds.
\<close>

definition active_count :: "metrics \<Rightarrow> string \<Rightarrow> int" where
  "active_count m kind = int (length (filter (\<lambda>(k, kd). kd = kind) (mt_activeRunKeys m)))"

definition metrics_inv :: "metrics \<Rightarrow> bool" where
  "metrics_inv m = (alist_wf (mt_activeRunKeys m) \<and> (\<forall>kind. sample (mt_activeRuns m) kind = active_count m kind))"

lemma count_put_new:
  "k \<notin> fst ` set m \<Longrightarrow> length (filter (\<lambda>(k, kd). kd = kind) (alist_put k v m))
     = length (filter (\<lambda>(k, kd). kd = kind) m) + (if v = kind then 1 else 0)"
  by (induction k v m rule: alist_put.induct) auto

lemma count_del:
  assumes "alist_wf m" "map_of m k = Some v"
  shows "length (filter (\<lambda>(k, kd). kd = kind) m)
    = length (filter (\<lambda>(k, kd). kd = kind) (alist_del k m)) + (if v = kind then 1 else 0)"
  using assms
proof (induction m)
  case (Cons x m)
  obtain a b where x: "x = (a, b)"
    by (cases x)
  show ?case
  proof (cases "a = k")
    case True
    then have "alist_del k m = m"
      using Cons.prems(1) x by (auto simp: alist_del_def alist_wf_def intro!: filter_True)
    then show ?thesis
      using True Cons.prems(2) x by (simp add: alist_del_def)
  next
    case False
    then show ?thesis
      using Cons x by (auto simp: alist_del_def alist_wf_def)
  qed
qed simp

record phase_report =
  ph_kind :: string
  ph_key :: string
  ph_old :: run_phase
  ph_new :: run_phase

definition report :: "phase_report \<Rightarrow> metrics \<Rightarrow> metrics" where
  "report r = RecordRunPhase (ph_kind r) (ph_key r) (ph_old r) (ph_new r)"

definition state_key :: "phase_report \<Rightarrow> string" where
  "state_key r = ph_kind r @ ''/'' @ ph_key r"

definition track :: "phase_report \<Rightarrow> (string \<rightharpoonup> string) \<Rightarrow> (string \<rightharpoonup> string)" where
  "track r a = (if ph_old r = ph_new r then a
     else if recorder_isTerminalPhase (ph_new r) then a(state_key r := None)
     else if a (state_key r) = None then a(state_key r \<mapsto> ph_kind r) else a)"

lemma metrics_inv_new: "metrics_inv NewRecorder"
  by (simp add: metrics_inv_def NewRecorder_def active_count_def sample_def)

lemma active_keys_report: "map_of (mt_activeRunKeys (report r m)) = track r (map_of (mt_activeRunKeys m))"
  by (simp add: report_def RecordRunPhase_def track_def state_key_def Let_def fun_upd_idem split: option.split)

lemma metrics_inv_report:
  assumes "metrics_inv m"
  shows "metrics_inv (report r m)"
proof -
  let ?keys = "mt_activeRunKeys m" and ?k = "state_key r"
  have wf: "alist_wf ?keys" and gauge: "sample (mt_activeRuns m) kd = active_count m kd" for kd
    using assms by (auto simp: metrics_inv_def)
  consider (idle) "ph_old r = ph_new r" | (seen) v where "ph_old r \<noteq> ph_new r" "\<not> recorder_isTerminalPhase (ph_new r)" "map_of ?keys ?k = Some v"
    | (start) "ph_old r \<noteq> ph_new r" "\<not> recorder_isTerminalPhase (ph_new r)" "map_of ?keys ?k = None"
    | (unknown) "ph_old r \<noteq> ph_new r" "recorder_isTerminalPhase (ph_new r)" "map_of ?keys ?k = None"
    | (finish) v where "ph_old r \<noteq> ph_new r" "recorder_isTerminalPhase (ph_new r)" "map_of ?keys ?k = Some v"
    by (cases "map_of ?keys ?k") blast+
  then show ?thesis
  proof cases
    case start
    then have new: "?k \<notin> fst ` set ?keys"
      by (simp add: map_of_eq_None_iff)
    have "mt_activeRunKeys (report r m) = alist_put ?k (ph_kind r) ?keys"
      "mt_activeRuns (report r m) = add_sample (ph_kind r) 1 (mt_activeRuns m)"
      using start by (simp_all add: report_def RecordRunPhase_def state_key_def)
    then show ?thesis
      using wf gauge by (simp add: metrics_inv_def active_count_def count_put_new [OF new])
  next
    case finish
    have "mt_activeRunKeys (report r m) = alist_del ?k ?keys"
      "mt_activeRuns (report r m) = add_sample v (- 1) (mt_activeRuns m)"
      using finish by (simp_all add: report_def RecordRunPhase_def state_key_def Let_def)
    then show ?thesis
      using wf gauge count_del [OF wf finish(3)] by (auto simp: metrics_inv_def active_count_def)
  qed (use assms in \<open>auto simp: report_def RecordRunPhase_def state_key_def metrics_inv_def active_count_def\<close>)
qed

lemma metrics_after:
  "metrics_inv (fold report rs m0) \<and> map_of (mt_activeRunKeys (fold report rs m0)) = fold track rs (map_of (mt_activeRunKeys m0))"
  if "metrics_inv m0"
  using that by (induction rs arbitrary: m0) (simp_all add: metrics_inv_report active_keys_report)

lemma count_entries:
  "alist_wf m \<Longrightarrow> length (filter (\<lambda>(k, kd). kd = kind) m) = card {k. map_of m k = Some kind}"
proof (induction m)
  case (Cons x m)
  obtain a b where x: "x = (a, b)"
    by (cases x)
  have wf: "alist_wf m" "map_of m a = None"
    using Cons.prems x by (simp_all add: alist_wf_def map_of_eq_None_iff)
  have "finite {k. map_of m k = Some kind}"
    by (rule finite_subset [of _ "fst ` set m"]) (auto dest: map_of_SomeD intro: rev_image_eqI)
  moreover have "{k. map_of (x # m) k = Some kind} = (if b = kind then insert a else id) {k. map_of m k = Some kind}"
    using wf(2) x by auto
  ultimately show ?case
    using Cons.IH [OF wf(1)] wf(2) x by simp
qed simp

text \<open>The gauge of active runs tells the truth: after any sequence of phase reports it shows,
  for each kind of run, the number of runs that were reported in a phase that is not final and
  have not been reported in a final phase since, however often and in whatever order phases
  are reported.\<close>

theorem active_gauge_exact:
  "sample (mt_activeRuns (fold report rs NewRecorder)) kind = int (card {k. fold track rs Map.empty k = Some kind})"
proof -
  have inv: "metrics_inv (fold report rs NewRecorder)"
    "map_of (mt_activeRunKeys (fold report rs NewRecorder)) = fold track rs Map.empty"
    using metrics_after [OF metrics_inv_new, of rs] by (simp_all add: NewRecorder_def)
  then show ?thesis
    using count_entries [of "mt_activeRunKeys (fold report rs NewRecorder)" kind]
    by (simp add: metrics_inv_def active_count_def)
qed

end
