(* ===== verification/Volume_Snapshots.thy ===== *)
theory Volume_Snapshots
  imports Builders Json
begin

text \<open>
  internal/snapshot: how a source is captured, the volume snapshot and the temporary
  claim that are generated for it, and what the controller reads from the status of
  a snapshot. A volume snapshot is an unstructured object: its metadata, and its
  other fields as a JSON object. The accessors of package unstructured and
  \<open>resource.ParseQuantity\<close> belong to k8s.io/apimachinery, so they are parameters:
  \<open>Inl\<close> is their error, \<open>None\<close> a field that was not found.
\<close>

section \<open>Data\<close>

type_synonym fields = "(string \<times> json) list"

record unstructured =
  un_apiVersion :: string
  un_kind :: string
  un_meta :: object_meta
  un_fields :: fields

record volume_claim =
  pv_meta :: object_meta
  pv_accessModes :: "string list"
  pv_storageClass :: "string option"
  pv_volumeMode :: "string option"
  pv_requests :: "(string \<times> string) list"
  pv_dataSource :: "(string \<times> string \<times> string) option"
  pv_phase :: string

record apimachinery =
  NestedBool :: "fields \<Rightarrow> string list \<Rightarrow> bool option result"
  NestedString :: "fields \<Rightarrow> string list \<Rightarrow> string option result"
  NestedMap :: "fields \<Rightarrow> string list \<Rightarrow> fields option result"
  NestedSlice :: "fields \<Rightarrow> string list \<Rightarrow> json list option result"
  ParseQuantity :: "string \<Rightarrow> string result"
  QuantityIsZero :: "string \<Rightarrow> bool"

abbreviation SnapshotAPIGroup :: string where "SnapshotAPIGroup \<equiv> ''snapshot.storage.k8s.io''"
abbreviation SnapshotAPIVersion :: string where "SnapshotAPIVersion \<equiv> ''snapshot.storage.k8s.io/v1''"
abbreviation VolumeSnapshotKind :: string where "VolumeSnapshotKind \<equiv> ''VolumeSnapshot''"
abbreviation RoleSourceVolumeSnapshot :: string where "RoleSourceVolumeSnapshot \<equiv> ''source-volume-snapshot''"
abbreviation RoleSourceSnapshotPVC :: string where "RoleSourceSnapshotPVC \<equiv> ''source-snapshot-pvc''"

record capture_decision =
  cd_requested :: capture_mode
  cd_method :: capture_mode
  cd_supported :: bool
  cd_fallback :: bool
  cd_reason :: string

record snapshot_failure =
  vf_reason :: string
  vf_message :: string
  vf_time :: "gotime option"

section \<open>The mode of capture\<close>

definition DecideCaptureMode :: "consistency_options \<Rightarrow> bool \<Rightarrow> capture_decision" where
  "DecideCaptureMode consistency snapshotDiscovered =
    (let requested = CaptureOrDefault consistency in
     if requested = CaptureVolumeSnapshot then
       (if snapshotDiscovered
        then \<lparr>cd_requested = requested, cd_method = CaptureVolumeSnapshot, cd_supported = True,
               cd_fallback = False, cd_reason = ''VolumeSnapshotDiscovered''\<rparr>
        else \<lparr>cd_requested = requested, cd_method = CaptureVolumeSnapshot, cd_supported = False,
               cd_fallback = False, cd_reason = ''VolumeSnapshotAPINotDiscovered''\<rparr>)
     else if requested = CaptureAuto then
       (if snapshotDiscovered
        then \<lparr>cd_requested = requested, cd_method = CaptureVolumeSnapshot, cd_supported = True,
               cd_fallback = False, cd_reason = ''VolumeSnapshotDiscovered''\<rparr>
        else \<lparr>cd_requested = requested, cd_method = CaptureDirect, cd_supported = True,
               cd_fallback = True, cd_reason = ''VolumeSnapshotAPINotDiscovered''\<rparr>)
     else \<lparr>cd_requested = CaptureDirect, cd_method = CaptureDirect, cd_supported = True,
            cd_fallback = False, cd_reason = ''DirectCaptureRequested''\<rparr>)"

section \<open>Names and labels\<close>

text \<open>The package has its own copy of the function for labels.\<close>

definition snapshot_dnsLabel :: "string \<Rightarrow> string" where
  "snapshot_dnsLabel value =
    (let trimmed = trim_by (\<lambda>c. c = dash) (label_chars False (to_lower value));
         out = (if trimmed = [] then ''krm'' else trimmed) in
     if length out \<le> 63 then out
     else let suffix = take 10 (sha256_hex out);
              prefix = trim_right (\<lambda>c. c = dash) (take (63 - length suffix - 1) out)
       in if prefix = [] then suffix else prefix @ ''-'' @ suffix)"

definition snapshot_runID :: "nsname \<Rightarrow> string" where
  "snapshot_runID run = (if fst run = [] then snd run else fst run @ ''-'' @ snd run)"

definition GeneratedVolumeSnapshotName :: "nsname \<Rightarrow> nsname \<Rightarrow> string" where
  "GeneratedVolumeSnapshotName run source =
     snapshot_dnsLabel (''krm-vs-'' @ snapshot_runID run @ ''-'' @ fst source @ ''-'' @ snd source)"

definition GeneratedTemporaryPVCName :: "nsname \<Rightarrow> nsname \<Rightarrow> string" where
  "GeneratedTemporaryPVCName run source =
     snapshot_dnsLabel (''krm-vspvc-'' @ snapshot_runID run @ ''-'' @ fst source @ ''-'' @ snd source)"

definition snapshot_Labels :: "nsname \<Rightarrow> nsname \<Rightarrow> string \<Rightarrow> label_map" where
  "snapshot_Labels run source role =
     [(LabelName, AppName), (LabelRunNamespace, fst run), (LabelRunKind, runKindBackup), (LabelRun, snd run),
      (LabelSource, snapshot_dnsLabel (fst source @ ''-'' @ snd source)), (LabelRole, role)]"

definition runRef :: "backup_job \<Rightarrow> nsname" where
  "runRef run = (om_namespace (j_meta run), om_name (j_meta run))"

definition sourceRef :: "backup_source \<Rightarrow> nsname" where
  "sourceRef source = (om_namespace (s_meta source), om_name (s_meta source))"

definition sourceObjectMeta :: "backup_job \<Rightarrow> backup_source \<Rightarrow> string \<Rightarrow> string \<Rightarrow> object_meta" where
  "sourceObjectMeta run source role name =
     empty_meta\<lparr>om_namespace := om_namespace (s_meta source), om_name := name,
       om_labels := snapshot_Labels (runRef run) (sourceRef source) role\<rparr>"

section \<open>Generated objects\<close>

definition BuildVolumeSnapshot :: "backup_job \<Rightarrow> backup_source \<Rightarrow> unstructured" where
  "BuildVolumeSnapshot run source =
    (let spec = [(''source'', JObj [(''persistentVolumeClaimName'', JStr (ss_pvc (s_spec source)))])];
         class = co_volumeSnapshotClassName (ss_consistency (s_spec source));
         spec = (if class \<noteq> [] then spec @ [(''volumeSnapshotClassName'', JStr class)] else spec)
     in \<lparr>un_apiVersion = SnapshotAPIVersion, un_kind = VolumeSnapshotKind,
         un_meta = empty_meta\<lparr>om_namespace := om_namespace (s_meta source),
           om_name := GeneratedVolumeSnapshotName (runRef run) (sourceRef source),
           om_labels := snapshot_Labels (runRef run) (sourceRef source) RoleSourceVolumeSnapshot\<rparr>,
         un_fields = [(''spec'', JObj spec)]\<rparr>)"

definition BuildTemporaryPVCFromSnapshot ::
  "apimachinery \<Rightarrow> backup_job \<Rightarrow> backup_source \<Rightarrow> volume_claim \<Rightarrow> string option \<Rightarrow> volume_claim" where
  "BuildTemporaryPVCFromSnapshot am run source sourcePVC restoreSize =
    (let requests = (case map_of (pv_requests sourcePVC) ''storage'' of
           Some storage \<Rightarrow> [(''storage'', storage)] | None \<Rightarrow> []);
         requests = (case restoreSize of
           Some q \<Rightarrow> if \<not> QuantityIsZero am q then [(''storage'', q)] else requests | None \<Rightarrow> requests)
     in \<lparr>pv_meta = sourceObjectMeta run source RoleSourceSnapshotPVC
           (GeneratedTemporaryPVCName (runRef run) (sourceRef source)),
         pv_accessModes = pv_accessModes sourcePVC, pv_storageClass = pv_storageClass sourcePVC,
         pv_volumeMode = pv_volumeMode sourcePVC, pv_requests = requests,
         pv_dataSource = Some (SnapshotAPIGroup, VolumeSnapshotKind,
           GeneratedVolumeSnapshotName (runRef run) (sourceRef source)),
         pv_phase = []\<rparr>)"

section \<open>The status of a snapshot\<close>

definition VolumeSnapshotReady :: "apimachinery \<Rightarrow> unstructured \<Rightarrow> bool" where
  "VolumeSnapshotReady am snap =
    (case NestedBool am (un_fields snap) [''status'', ''readyToUse''] of
       Inr (Some ready) \<Rightarrow> ready | _ \<Rightarrow> False)"

definition VolumeSnapshotRestoreSize :: "apimachinery \<Rightarrow> unstructured \<Rightarrow> string option" where
  "VolumeSnapshotRestoreSize am snap =
    (case NestedString am (un_fields snap) [''status'', ''restoreSize''] of
       Inr (Some value) \<Rightarrow>
         (if value = [] then None
          else (case ParseQuantity am value of Inl _ \<Rightarrow> None | Inr quantity \<Rightarrow> Some quantity))
     | _ \<Rightarrow> None)"

definition VolumeSnapshotCreationTime :: "apimachinery \<Rightarrow> unstructured \<Rightarrow> gotime option" where
  "VolumeSnapshotCreationTime am snap =
    (case NestedString am (un_fields snap) [''status'', ''creationTime''] of
       Inr (Some value) \<Rightarrow> (if value = [] then None else parse_rfc3339 value)
     | _ \<Rightarrow> None)"

text \<open>\<open>value, ok := m[k].(string)\<close>\<close>

definition string_at :: "fields \<Rightarrow> string \<Rightarrow> string option" where
  "string_at m k = (case map_of m k of Some (JStr s) \<Rightarrow> Some s | _ \<Rightarrow> None)"

definition failure_of :: "string \<Rightarrow> fields \<Rightarrow> snapshot_failure" where
  "failure_of fallback m =
    (let reason = (case string_at m ''reason'' of Some r \<Rightarrow> if r \<noteq> [] then r else fallback | None \<Rightarrow> fallback);
         message = (case string_at m ''message'' of Some t \<Rightarrow> t | None \<Rightarrow> [])
     in \<lparr>vf_reason = reason, vf_message = (if message = [] then reason else message), vf_time = None\<rparr>)"

fun failed_condition :: "json list \<Rightarrow> snapshot_failure option" where
  "failed_condition [] = None"
| "failed_condition (condition # rest) =
    (case condition of
       JObj m \<Rightarrow> (if map_of m ''type'' \<noteq> Some (JStr ''Ready'') \<or> map_of m ''status'' \<noteq> Some (JStr ''False'')
                   then failed_condition rest
                   else Some (failure_of ''VolumeSnapshotNotReady'' m))
     | _ \<Rightarrow> failed_condition rest)"

definition VolumeSnapshotFailure :: "apimachinery \<Rightarrow> unstructured \<Rightarrow> snapshot_failure option" where
  "VolumeSnapshotFailure am snap =
    (case NestedMap am (un_fields snap) [''status'', ''error''] of
       Inr (Some errObj) \<Rightarrow>
         Some ((failure_of ''VolumeSnapshotError'' errObj)
           \<lparr>vf_time := (case string_at errObj ''time'' of
               Some value \<Rightarrow> if value \<noteq> [] then parse_rfc3339 value else None | None \<Rightarrow> None)\<rparr>)
     | _ \<Rightarrow>
         (case NestedSlice am (un_fields snap) [''status'', ''conditions''] of
            Inr (Some conditions) \<Rightarrow> failed_condition conditions
          | _ \<Rightarrow> None))"

section \<open>Whether the cluster has snapshots\<close>

text \<open>\<open>ServerResourcesForGroupVersion\<close> of client-go is a call to the API server; it gives
  \<open>None\<close> when the client is nil.\<close>

definition VolumeSnapshotAvailable :: "('s \<Rightarrow> unit result \<times> 's) option \<Rightarrow> 's \<Rightarrow> bool \<times> 's" where
  "VolumeSnapshotAvailable discovery s =
    (case discovery of
       None \<Rightarrow> (False, s)
     | Some call \<Rightarrow> (case call s of (Inr _, s) \<Rightarrow> (True, s) | (Inl e, s) \<Rightarrow> (False, s)))"

section \<open>Facts\<close>

lemma snapshot_dnsLabel_eq [simp]: "snapshot_dnsLabel = dnsLabel"
  by (rule ext) (simp add: snapshot_dnsLabel_def dnsLabel_def dnsLabelMax_def Let_def)

lemma snapshot_runID_eq [simp]: "snapshot_runID = RunIDForRef"
  by (rule ext) (simp add: snapshot_runID_def RunIDForRef_def)

lemma decision_supported:
  "\<not> cd_supported (DecideCaptureMode c d) \<longleftrightarrow> CaptureOrDefault c = CaptureVolumeSnapshot \<and> \<not> d"
  by (auto simp: DecideCaptureMode_def Let_def)

lemma decision_direct:
  "cd_method (DecideCaptureMode c d) = CaptureDirect \<longleftrightarrow>
     CaptureOrDefault c \<noteq> CaptureVolumeSnapshot \<and> (CaptureOrDefault c = CaptureAuto \<longrightarrow> \<not> d)"
  by (auto simp: DecideCaptureMode_def Let_def)

lemma decision_method:
  "cd_method (DecideCaptureMode c d) = CaptureDirect \<or> cd_method (DecideCaptureMode c d) = CaptureVolumeSnapshot"
  by (auto simp: DecideCaptureMode_def Let_def)

lemma decision_requested_auto:
  "cd_requested (DecideCaptureMode c d) = CaptureAuto \<longleftrightarrow> CaptureOrDefault c = CaptureAuto"
  by (auto simp: DecideCaptureMode_def Let_def)

lemma failure_of_message: "d \<noteq> [] \<Longrightarrow> vf_message (failure_of d m) \<noteq> []"
  by (simp add: failure_of_def Let_def split: option.split)

lemma failed_condition_message: "failed_condition cs = Some f \<Longrightarrow> vf_message f \<noteq> []"
  by (induction cs) (auto split: json.splits if_splits simp: failure_of_message)

lemma VolumeSnapshotFailure_message: "VolumeSnapshotFailure am v = Some f \<Longrightarrow> vf_message f \<noteq> []"
  unfolding VolumeSnapshotFailure_def
  by (auto split: sum.splits option.splits dest: failed_condition_message simp: failure_of_message)

end
