(* ===== verification/Kube_Api.thy ===== *)
theory Kube_Api
  imports Control_Service Run_Events Calls Metrics Volume_Snapshots
begin

text \<open>
  What the controller sees of the Kubernetes API. The client of controller-runtime
  and the API server behind it are not part of the repository: they are a record of
  operations per kind of object, over a state of any type, and an operation may
  change that state in any way, as other writers do between two calls of a handler.
  Laws about them are stated where a theorem needs them.

  A handler runs in a \<open>world\<close>: the state of the API, the control service, the
  metrics and the events it has recorded. It reads the clock once, as the parameter
  \<open>now\<close>.
\<close>

section \<open>Objects the controller does not build with builders.go\<close>

record lease =
  ls_meta :: object_meta
  ls_holder :: "string option"
  ls_duration :: "int option"
  ls_acquire :: "gotime option"
  ls_renew :: "gotime option"
  ls_transitions :: "32 word option"

record cron_job =
  cj_meta :: object_meta

section \<open>The client\<close>

record list_options =
  lo_namespace :: string
  lo_labels :: label_map

definition everything :: list_options where
  "everything = \<lparr>lo_namespace = [], lo_labels = []\<rparr>"

definition MatchingLabels :: "label_map \<Rightarrow> list_options" where
  "MatchingLabels labels = \<lparr>lo_namespace = [], lo_labels = labels\<rparr>"

definition InNamespace :: "string \<Rightarrow> list_options" where
  "InNamespace namespace = \<lparr>lo_namespace = namespace, lo_labels = []\<rparr>"

text \<open>A deletion may name a propagation policy. Create and update fill in what the server assigns, so they return the object.\<close>

record ('s, 'o) kind_api =
  api_get :: "nsname \<Rightarrow> ('s, 'o) call"
  api_list :: "list_options \<Rightarrow> ('s, 'o list) call"
  api_create :: "'o \<Rightarrow> ('s, 'o) call"
  api_update :: "'o \<Rightarrow> ('s, 'o) call"
  api_update_status :: "'o \<Rightarrow> ('s, 'o) call"
  api_delete :: "string \<Rightarrow> 'o \<Rightarrow> ('s, unit) call"

record 's kube_client =
  kc_backups :: "('s, backup_job) kind_api"
  kc_restores :: "('s, restore_job) kind_api"
  kc_machines :: "('s, rsync_machine) kind_api"
  kc_sources :: "('s, backup_source) kind_api"
  kc_jobs :: "('s, k8s_job) kind_api"
  kc_secrets :: "('s, k8s_secret) kind_api"
  kc_services :: "('s, k8s_service) kind_api"
  kc_claims :: "('s, volume_claim) kind_api"
  kc_snapshots :: "('s, unstructured) kind_api"
  kc_leases :: "('s, lease) kind_api"
  kc_cronjobs :: "('s, cron_job) kind_api"

section \<open>The world of a handler\<close>

record recorded_event =
  rc_object :: nsname
  rc_type :: string
  rc_reason :: string
  rc_message :: string

record 's world =
  w_api :: 's
  w_control :: control_service
  w_metrics :: metrics
  w_events :: "recorded_event list"
  w_entropy :: nat

definition on_api :: "('s, 'a) call \<Rightarrow> ('s world, 'a) call" where
  "on_api f w = (case f (w_api w) of (r, s) \<Rightarrow> (r, w\<lparr>w_api := s\<rparr>))"

text \<open>A call that only concerns the API leaves the rest of the world alone.\<close>

definition only_api :: "'s world \<Rightarrow> 's world \<Rightarrow> bool" where
  "only_api w w' = (w_control w' = w_control w \<and> w_metrics w' = w_metrics w \<and> w_events w' = w_events w \<and> w_entropy w' = w_entropy w)"

named_theorems only_api_calls \<open>calls that change nothing but the state of the API\<close>

lemma only_api_refl [simp, intro]: "only_api w w"
  by (simp add: only_api_def)

lemma only_api_trans: "only_api u v \<Longrightarrow> only_api v w \<Longrightarrow> only_api u w"
  by (simp add: only_api_def)

lemma on_api_only [only_api_calls]: "only_api w (snd (on_api f w))"
  by (simp add: on_api_def only_api_def split: prod.split)

lemma then_do_only:
  assumes "only_api w (snd r)" "\<And>x v. r = (Inr x, v) \<Longrightarrow> only_api v (snd (k x v))"
  shows "only_api w (snd (then_do r k))"
  using assms by (cases r; cases "fst r") (auto intro: only_api_trans)

lemma each_call_only:
  assumes "\<And>x w. x \<in> set xs \<Longrightarrow> only_api w (snd (f x w))"
  shows "only_api w (snd (each_call f xs w))"
  using assms
proof (induction xs arbitrary: w)
  case (Cons x xs)
  show ?case
    unfolding each_call.simps by (rule then_do_only) (use Cons in auto)
qed simp

section \<open>Texts\<close>

text \<open>
  The text of an error: the verbs of the format take the arguments in order, \<open>%q\<close>
  quotes (printable ASCII), \<open>%w\<close> is the text of the cause.
\<close>

fun render :: "string \<Rightarrow> string list \<Rightarrow> string \<Rightarrow> string" where
  "render (a # b # f) args cause =
    (if a = CHR ''%'' then
       (if b = CHR ''w'' then cause @ render f args cause
        else (case args of
            [] \<Rightarrow> ''%!'' @ [b] @ ''(MISSING)'' @ render f [] cause
          | x # xs \<Rightarrow> (if b = CHR ''q'' then go_quote x else x) @ render f xs cause))
     else a # render (b # f) args cause)"
| "render f args cause = f"

primrec error_text :: "goerr \<Rightarrow> string" where
  "error_text (Errorf f args cause) = render f args (case map_option error_text cause of None \<Rightarrow> [] | Some t \<Rightarrow> t)"
| "error_text (Sentinel c what) = what"

end
