(* ===== verification/Cluster.thy ===== *)
theory Cluster
  imports Kube_Api
begin

text \<open>
  The objects of a cluster and what the API server promises about them. A kind of
  object says how to reach its metadata and how it is stored; the promises are a
  locale over the calls of the client and a view of the state behind it. They hold
  for a server kept in memory, which serves the examples.
\<close>

section \<open>Kinds of objects\<close>

datatype cluster_object =
    JobObject k8s_job | SecretObject k8s_secret | ServiceObject k8s_service | ClaimObject volume_claim
  | SnapshotObject unstructured | LeaseObject lease | BackupObject backup_job | RestoreObject restore_job
  | MachineObject rsync_machine | SourceObject backup_source | CronObject cron_job

record 'o object_kind =
  ok_name :: string
  ok_meta :: "'o \<Rightarrow> object_meta"
  ok_with_meta :: "object_meta \<Rightarrow> 'o \<Rightarrow> 'o"
  ok_store :: "'o \<Rightarrow> cluster_object"
  ok_load :: "cluster_object \<Rightarrow> 'o option"

definition job_kind :: "k8s_job object_kind" where
  "job_kind = \<lparr>ok_name = ''job'', ok_meta = kj_meta, ok_with_meta = (\<lambda>m x. x\<lparr>kj_meta := m\<rparr>), ok_store = JobObject,
     ok_load = (\<lambda>x. case x of JobObject j \<Rightarrow> Some j | _ \<Rightarrow> None)\<rparr>"

definition secret_kind :: "k8s_secret object_kind" where
  "secret_kind = \<lparr>ok_name = ''secret'', ok_meta = sec_meta, ok_with_meta = (\<lambda>m x. x\<lparr>sec_meta := m\<rparr>), ok_store = SecretObject,
     ok_load = (\<lambda>x. case x of SecretObject j \<Rightarrow> Some j | _ \<Rightarrow> None)\<rparr>"

definition service_kind :: "k8s_service object_kind" where
  "service_kind = \<lparr>ok_name = ''service'', ok_meta = ks_meta, ok_with_meta = (\<lambda>m x. x\<lparr>ks_meta := m\<rparr>), ok_store = ServiceObject,
     ok_load = (\<lambda>x. case x of ServiceObject j \<Rightarrow> Some j | _ \<Rightarrow> None)\<rparr>"

definition claim_kind :: "volume_claim object_kind" where
  "claim_kind = \<lparr>ok_name = ''claim'', ok_meta = pv_meta, ok_with_meta = (\<lambda>m x. x\<lparr>pv_meta := m\<rparr>), ok_store = ClaimObject,
     ok_load = (\<lambda>x. case x of ClaimObject j \<Rightarrow> Some j | _ \<Rightarrow> None)\<rparr>"

definition snapshot_kind :: "unstructured object_kind" where
  "snapshot_kind = \<lparr>ok_name = ''snapshot'', ok_meta = un_meta, ok_with_meta = (\<lambda>m x. x\<lparr>un_meta := m\<rparr>), ok_store = SnapshotObject,
     ok_load = (\<lambda>x. case x of SnapshotObject j \<Rightarrow> Some j | _ \<Rightarrow> None)\<rparr>"

definition lease_kind :: "lease object_kind" where
  "lease_kind = \<lparr>ok_name = ''lease'', ok_meta = ls_meta, ok_with_meta = (\<lambda>m x. x\<lparr>ls_meta := m\<rparr>), ok_store = LeaseObject,
     ok_load = (\<lambda>x. case x of LeaseObject j \<Rightarrow> Some j | _ \<Rightarrow> None)\<rparr>"

definition backup_kind :: "backup_job object_kind" where
  "backup_kind = \<lparr>ok_name = ''backup'', ok_meta = j_meta, ok_with_meta = (\<lambda>m x. x\<lparr>j_meta := m\<rparr>), ok_store = BackupObject,
     ok_load = (\<lambda>x. case x of BackupObject j \<Rightarrow> Some j | _ \<Rightarrow> None)\<rparr>"

definition restore_kind :: "restore_job object_kind" where
  "restore_kind = \<lparr>ok_name = ''restore'', ok_meta = r_meta, ok_with_meta = (\<lambda>m x. x\<lparr>r_meta := m\<rparr>), ok_store = RestoreObject,
     ok_load = (\<lambda>x. case x of RestoreObject j \<Rightarrow> Some j | _ \<Rightarrow> None)\<rparr>"

definition machine_kind :: "rsync_machine object_kind" where
  "machine_kind = \<lparr>ok_name = ''machine'', ok_meta = m_meta, ok_with_meta = (\<lambda>m x. x\<lparr>m_meta := m\<rparr>), ok_store = MachineObject,
     ok_load = (\<lambda>x. case x of MachineObject j \<Rightarrow> Some j | _ \<Rightarrow> None)\<rparr>"

definition source_kind :: "backup_source object_kind" where
  "source_kind = \<lparr>ok_name = ''source'', ok_meta = s_meta, ok_with_meta = (\<lambda>m x. x\<lparr>s_meta := m\<rparr>), ok_store = SourceObject,
     ok_load = (\<lambda>x. case x of SourceObject j \<Rightarrow> Some j | _ \<Rightarrow> None)\<rparr>"

definition cron_kind :: "cron_job object_kind" where
  "cron_kind = \<lparr>ok_name = ''cronjob'', ok_meta = cj_meta, ok_with_meta = (\<lambda>m x. x\<lparr>cj_meta := m\<rparr>), ok_store = CronObject,
     ok_load = (\<lambda>x. case x of CronObject j \<Rightarrow> Some j | _ \<Rightarrow> None)\<rparr>"

lemmas kind_defs = job_kind_def secret_kind_def service_kind_def claim_kind_def snapshot_kind_def lease_kind_def
  backup_kind_def restore_kind_def machine_kind_def source_kind_def cron_kind_def

definition object_key :: "'o object_kind \<Rightarrow> 'o \<Rightarrow> nsname" where
  "object_key k obj = meta_key (ok_meta k obj)"

lemma kind_names [simp]:
  "ok_name job_kind = ''job''" "ok_name secret_kind = ''secret''" "ok_name service_kind = ''service''" "ok_name claim_kind = ''claim''"
  "ok_name snapshot_kind = ''snapshot''" "ok_name lease_kind = ''lease''" "ok_name backup_kind = ''backup''" "ok_name restore_kind = ''restore''"
  "ok_name machine_kind = ''machine''" "ok_name source_kind = ''source''" "ok_name cron_kind = ''cronjob''"
  by (simp_all add: kind_defs)

text \<open>Where an object is stored.\<close>

definition address :: "cluster_object \<Rightarrow> string \<times> nsname" where
  "address x = (case x of
      JobObject o' \<Rightarrow> (ok_name job_kind, object_key job_kind o') | SecretObject o' \<Rightarrow> (ok_name secret_kind, object_key secret_kind o')
    | ServiceObject o' \<Rightarrow> (ok_name service_kind, object_key service_kind o') | ClaimObject o' \<Rightarrow> (ok_name claim_kind, object_key claim_kind o')
    | SnapshotObject o' \<Rightarrow> (ok_name snapshot_kind, object_key snapshot_kind o') | LeaseObject o' \<Rightarrow> (ok_name lease_kind, object_key lease_kind o')
    | BackupObject o' \<Rightarrow> (ok_name backup_kind, object_key backup_kind o') | RestoreObject o' \<Rightarrow> (ok_name restore_kind, object_key restore_kind o')
    | MachineObject o' \<Rightarrow> (ok_name machine_kind, object_key machine_kind o') | SourceObject o' \<Rightarrow> (ok_name source_kind, object_key source_kind o')
    | CronObject o' \<Rightarrow> (ok_name cron_kind, object_key cron_kind o'))"

definition kind_wf :: "'o object_kind \<Rightarrow> bool" where
  "kind_wf k \<longleftrightarrow> (\<forall>m x. ok_meta k (ok_with_meta k m x) = m) \<and> (\<forall>x y. ok_load k x = Some y \<longleftrightarrow> x = ok_store k y)
     \<and> (\<forall>y. address (ok_store k y) = (ok_name k, object_key k y)) \<and> (\<forall>x. fst (address x) = ok_name k \<longrightarrow> (\<exists>y. x = ok_store k y))"

lemma kinds_wf [simp, intro]:
  "kind_wf job_kind" "kind_wf secret_kind" "kind_wf service_kind" "kind_wf claim_kind" "kind_wf snapshot_kind"
  "kind_wf lease_kind" "kind_wf backup_kind" "kind_wf restore_kind" "kind_wf machine_kind" "kind_wf source_kind" "kind_wf cron_kind"
  unfolding kind_wf_def address_def
  by (auto simp: kind_defs split: cluster_object.splits)

section \<open>The promises of the server\<close>

type_synonym cluster_key = "string \<times> nsname"
type_synonym cluster = "cluster_key \<Rightarrow> cluster_object option"

definition selected :: "list_options \<Rightarrow> object_meta \<Rightarrow> bool" where
  "selected opts m \<longleftrightarrow> (lo_namespace opts = [] \<or> om_namespace m = lo_namespace opts)
     \<and> list_all (\<lambda>(k, v). map_of (om_labels m) k = Some v) (lo_labels opts)"

definition fetch :: "'o object_kind \<Rightarrow> cluster \<Rightarrow> nsname \<Rightarrow> 'o option" where
  "fetch k c key = (case c (ok_name k, key) of None \<Rightarrow> None | Some x \<Rightarrow> ok_load k x)"

locale object_store =
  fixes view :: "'s \<Rightarrow> cluster" and k :: "'o object_kind" and api :: "('s, 'o) kind_api"
  assumes kind: "kind_wf k"
    and typed: "view s (ok_name k, key) = Some x \<Longrightarrow> \<exists>obj. x = ok_store k obj \<and> object_key k obj = key"
    and get: "api_get api key s = (found, s') \<Longrightarrow> view s' = view s \<and>
      (case found of Inr obj \<Rightarrow> fetch k (view s) key = Some obj | Inl e \<Rightarrow> errors_is ApiNotFound e \<longrightarrow> fetch k (view s) key = None)"
    and list: "api_list api opts s = (listed, s') \<Longrightarrow> view s' = view s \<and>
      (case listed of Inr objs \<Rightarrow> set objs = {obj. fetch k (view s) (object_key k obj) = Some obj \<and> selected opts (ok_meta k obj)} | Inl e \<Rightarrow> True)"
    and create: "api_create api obj s = (created, s') \<Longrightarrow>
      (case created of Inr stored \<Rightarrow> fetch k (view s) (object_key k obj) = None
           \<and> view s' = (view s)((ok_name k, object_key k obj) \<mapsto> ok_store k stored) \<and> object_key k stored = object_key k obj
           \<and> om_labels (ok_meta k stored) = om_labels (ok_meta k obj) \<and> om_owners (ok_meta k stored) = om_owners (ok_meta k obj)
        | Inl e \<Rightarrow> view s' = view s \<and> (errors_is ApiAlreadyExists e \<longrightarrow> fetch k (view s) (object_key k obj) \<noteq> None))"
    and update: "api_update api obj s = (updated, s') \<Longrightarrow>
      (case updated of Inr stored \<Rightarrow> fetch k (view s) (object_key k obj) \<noteq> None
           \<and> view s' = (view s)((ok_name k, object_key k obj) \<mapsto> ok_store k stored) \<and> object_key k stored = object_key k obj
           \<and> om_labels (ok_meta k stored) = om_labels (ok_meta k obj) \<and> om_owners (ok_meta k stored) = om_owners (ok_meta k obj)
        | Inl e \<Rightarrow> view s' = view s \<and> (errors_is ApiNotFound e \<longrightarrow> fetch k (view s) (object_key k obj) = None))"
    and delete: "api_delete api policy obj s = (deleted, s') \<Longrightarrow>
      (case deleted of Inr _ \<Rightarrow> view s' = (view s)((ok_name k, object_key k obj) := None)
        | Inl e \<Rightarrow> view s' = view s \<and> (errors_is ApiNotFound e \<longrightarrow> fetch k (view s) (object_key k obj) = None))"
begin

lemma fetch_iff: "fetch k (view s) key = Some obj \<longleftrightarrow> view s (ok_name k, key) = Some (ok_store k obj)"
  using kind by (auto simp: fetch_def kind_wf_def split: option.splits)

lemma fetch_None: "fetch k (view s) key = None \<longleftrightarrow> view s (ok_name k, key) = None"
  using kind typed [of s key] by (auto simp: fetch_def kind_wf_def split: option.splits)

lemma load_store [simp]: "ok_load k (ok_store k obj) = Some obj"
  using kind by (simp add: kind_wf_def)

lemma store_inj [simp]: "ok_store k x = ok_store k y \<longleftrightarrow> x = y"
  by (metis load_store option.inject)

lemma meta_with [simp]: "ok_meta k (ok_with_meta k m x) = m"
  using kind by (simp add: kind_wf_def)

lemma fetch_key: "fetch k (view s) key = Some obj \<Longrightarrow> object_key k obj = key"
  using typed [of s key "ok_store k obj"] by (auto simp: fetch_iff)

lemma fetch_upd [simp]:
  "fetch k (c((ok_name k, key) \<mapsto> ok_store k obj)) key' = (if key' = key then Some obj else fetch k c key')"
  "fetch k (c((ok_name k, key) := None)) key' = (if key' = key then None else fetch k c key')"
  by (simp_all add: fetch_def)

end

section \<open>A server in memory\<close>

text \<open>The server refuses what exists or does not, and never fails otherwise.\<close>

type_synonym memory = "cluster_object list"

definition memory_view :: "memory \<Rightarrow> cluster" where
  "memory_view s key = find (\<lambda>x. address x = key) s"

definition memory_put :: "cluster_object \<Rightarrow> memory \<Rightarrow> memory" where
  "memory_put x s = x # filter (\<lambda>y. address y \<noteq> address x) s"

definition memory_get :: "'o object_kind \<Rightarrow> nsname \<Rightarrow> (memory, 'o) call" where
  "memory_get k key s = (case fetch k (memory_view s) key of
      Some obj \<Rightarrow> (Inr obj, s) | None \<Rightarrow> (Inl (Sentinel ApiNotFound ''not found''), s))"

definition memory_list :: "'o object_kind \<Rightarrow> list_options \<Rightarrow> (memory, 'o list) call" where
  "memory_list k opts s = (Inr (List.map_filter (\<lambda>x. case ok_load k x of
      Some obj \<Rightarrow> if memory_view s (address x) = Some x \<and> selected opts (ok_meta k obj) then Some obj else None
    | None \<Rightarrow> None) s), s)"

definition memory_create :: "'o object_kind \<Rightarrow> 'o \<Rightarrow> (memory, 'o) call" where
  "memory_create k obj s = (case fetch k (memory_view s) (object_key k obj) of
      Some _ \<Rightarrow> (Inl (Sentinel ApiAlreadyExists ''exists''), s)
    | None \<Rightarrow> (Inr obj, memory_put (ok_store k obj) s))"

definition memory_update :: "'o object_kind \<Rightarrow> 'o \<Rightarrow> (memory, 'o) call" where
  "memory_update k obj s = (case fetch k (memory_view s) (object_key k obj) of
      None \<Rightarrow> (Inl (Sentinel ApiNotFound ''not found''), s)
    | Some _ \<Rightarrow> (Inr obj, memory_put (ok_store k obj) s))"

definition memory_delete :: "'o object_kind \<Rightarrow> string \<Rightarrow> 'o \<Rightarrow> (memory, unit) call" where
  "memory_delete k policy obj s = (case fetch k (memory_view s) (object_key k obj) of
      None \<Rightarrow> (Inl (Sentinel ApiNotFound ''not found''), s)
    | Some _ \<Rightarrow> (Inr (), filter (\<lambda>y. address y \<noteq> (ok_name k, object_key k obj)) s))"

definition memory_api :: "'o object_kind \<Rightarrow> (memory, 'o) kind_api" where
  "memory_api k = \<lparr>api_get = memory_get k, api_list = memory_list k, api_create = memory_create k,
     api_update = memory_update k, api_update_status = memory_update k, api_delete = memory_delete k\<rparr>"

definition memory_client :: "memory kube_client" where
  "memory_client = \<lparr>kc_backups = memory_api backup_kind, kc_restores = memory_api restore_kind, kc_machines = memory_api machine_kind,
     kc_sources = memory_api source_kind, kc_jobs = memory_api job_kind, kc_secrets = memory_api secret_kind,
     kc_services = memory_api service_kind, kc_claims = memory_api claim_kind, kc_snapshots = memory_api snapshot_kind,
     kc_leases = memory_api lease_kind, kc_cronjobs = memory_api cron_kind\<rparr>"

lemma view_put [simp]: "memory_view (memory_put x s) = (memory_view s)(address x \<mapsto> x)"
proof
  fix key
  have "find (\<lambda>y. address y = key) (filter (\<lambda>y. address y \<noteq> address x) s) = find (\<lambda>y. address y = key) s" if "key \<noteq> address x"
    using that by (induction s) auto
  then show "memory_view (memory_put x s) key = ((memory_view s)(address x \<mapsto> x)) key"
    by (auto simp: memory_view_def memory_put_def)
qed

lemma view_filter [simp]: "memory_view (filter (\<lambda>y. address y \<noteq> a) s) = (memory_view s)(a := None)"
proof
  fix key
  show "memory_view (filter (\<lambda>y. address y \<noteq> a) s) key = ((memory_view s)(a := None)) key"
    by (induction s) (auto simp: memory_view_def)
qed

lemma view_address: "memory_view s key = Some x \<Longrightarrow> address x = key \<and> x \<in> set s"
  unfolding memory_view_def by (induction s) (auto split: if_splits)

lemma memory_store:
  assumes "kind_wf k"
  shows "object_store memory_view k (memory_api k)"
proof -
  have wf: "ok_load k x = Some y \<longleftrightarrow> x = ok_store k y" "address (ok_store k y) = (ok_name k, object_key k y)" for x y
    using assms by (auto simp: kind_wf_def)
  have kindly: "\<exists>y. x = ok_store k y" if "fst (address x) = ok_name k" for x
    using assms that by (auto simp: kind_wf_def)
  have load: "ok_load k (ok_store k y) = Some y" for y
    by (simp add: wf)
  have inj: "ok_store k x = ok_store k y \<longleftrightarrow> x = y" for x y
    by (metis wf(1) option.inject)
  have fetched: "fetch k (memory_view s) key = Some obj \<longleftrightarrow> memory_view s (ok_name k, key) = Some (ok_store k obj)" for s key obj
    by (auto simp: fetch_def wf split: option.splits)
  have listed: "set (List.map_filter (\<lambda>x. case ok_load k x of
      Some obj \<Rightarrow> if memory_view s (address x) = Some x \<and> selected opts (ok_meta k obj) then Some obj else None
    | None \<Rightarrow> None) s) = {obj. fetch k (memory_view s) (object_key k obj) = Some obj \<and> selected opts (ok_meta k obj)}" for s opts
  proof (rule set_eqI)
    fix obj
    have "obj \<in> set (List.map_filter f xs) \<longleftrightarrow> (\<exists>x\<in>set xs. f x = Some obj)" for f :: "cluster_object \<Rightarrow> 'a option" and xs
      by (force simp: map_filter_def)
    moreover have "(case ok_load k x of Some obj \<Rightarrow> if memory_view s (address x) = Some x \<and> selected opts (ok_meta k obj) then Some obj else None
      | None \<Rightarrow> None) = Some obj \<longleftrightarrow> x = ok_store k obj \<and> memory_view s (address x) = Some x \<and> selected opts (ok_meta k obj)" for x
      by (cases "ok_load k x") (auto simp: wf(1) load inj)
    ultimately show "obj \<in> set (List.map_filter (\<lambda>x. case ok_load k x of
      Some obj \<Rightarrow> if memory_view s (address x) = Some x \<and> selected opts (ok_meta k obj) then Some obj else None
    | None \<Rightarrow> None) s) \<longleftrightarrow> obj \<in> {obj. fetch k (memory_view s) (object_key k obj) = Some obj \<and> selected opts (ok_meta k obj)}"
      using view_address [of s "(ok_name k, object_key k obj)" "ok_store k obj"] by (auto simp: fetched wf(2))
  qed
  show ?thesis
  proof
    show "kind_wf k"
      by (rule assms)
    show "\<exists>obj. x = ok_store k obj \<and> object_key k obj = key" if "memory_view s (ok_name k, key) = Some x" for s key x
      using view_address [OF that] kindly [of x] wf(2) by auto
  qed (auto simp: memory_api_def memory_get_def memory_list_def memory_create_def memory_update_def memory_delete_def
      listed wf(2) inj split: option.splits sum.splits)
qed

interpretation memory_jobs: object_store memory_view job_kind "memory_api job_kind"
  by (rule memory_store) simp

interpretation memory_secrets: object_store memory_view secret_kind "memory_api secret_kind"
  by (rule memory_store) simp

interpretation memory_services: object_store memory_view service_kind "memory_api service_kind"
  by (rule memory_store) simp

interpretation memory_claims: object_store memory_view claim_kind "memory_api claim_kind"
  by (rule memory_store) simp

interpretation memory_snapshots: object_store memory_view snapshot_kind "memory_api snapshot_kind"
  by (rule memory_store) simp

interpretation memory_leases: object_store memory_view lease_kind "memory_api lease_kind"
  by (rule memory_store) simp

interpretation memory_backups: object_store memory_view backup_kind "memory_api backup_kind"
  by (rule memory_store) simp

definition demo_world :: "memory \<Rightarrow> memory world" where
  "demo_world s = \<lparr>w_api = s, w_control = NewService \<lparr>hs_hub = NewEventHub 256, hs_subs = [], hs_inflight = []\<rparr>,
     w_metrics = NewRecorder, w_events = [], w_entropy = 0\<rparr>"

lemma demo_world_api [simp]: "w_api (demo_world s) = s" "demo_world s\<lparr>w_api := t\<rparr> = demo_world t"
  by (simp_all add: demo_world_def)

end
