(* ===== verification/Certificates.thy ===== *)
theory Certificates
  imports Identity Builders Calls
begin

text \<open>
  internal/tlsutil: the certificate authority of the runs, the certificates it mints
  for the identities of the data plane, and how a certificate is verified. The
  primitives of crypto/x509, crypto/ed25519, crypto/rand and encoding/pem are a
  parameter; a random source is a number that every use replaces. A key and a
  certificate are the bytes the library works with, a parsed certificate the fields
  that the program sets or reads; a URI in a certificate is its text.
\<close>

section \<open>The libraries\<close>

datatype ext_usage = ClientAuth | ServerAuth | AnyUsage

record x509_cert =
  xc_serial :: int
  xc_commonName :: string
  xc_notBefore :: gotime
  xc_notAfter :: gotime
  xc_keyUsage :: "string list"
  xc_extKeyUsage :: "ext_usage list"
  xc_isCA :: bool
  xc_uris :: "string list"
  xc_raw :: string

record verify_options =
  vo_roots :: "x509_cert list"
  vo_intermediates :: "x509_cert list"
  vo_dnsName :: string
  vo_time :: "gotime option"
  vo_usage :: ext_usage

record crypto =
  GenerateKey :: "(nat, string) call"
  RandInt :: "(nat, int) call"
  CreateCertificate :: "x509_cert \<Rightarrow> x509_cert \<Rightarrow> string \<Rightarrow> string \<Rightarrow> (nat, string) call"
  MarshalKey :: "string \<Rightarrow> string result"
  ParseKey :: "string \<Rightarrow> string option result"
  ParseCertificate :: "string \<Rightarrow> x509_cert result"
  VerifyCertificate :: "x509_cert \<Rightarrow> verify_options \<Rightarrow> unit result"
  PemEncode :: "string \<Rightarrow> string \<Rightarrow> string"
  PemDecode :: "string \<Rightarrow> (string \<times> string) option"
  X509KeyPair :: "string \<Rightarrow> string \<Rightarrow> string result"
  AppendCertsFromPEM :: "string \<Rightarrow> x509_cert list option"

section \<open>The authority\<close>

record run_ca =
  ca_cert :: x509_cert
  ca_key :: string
  ca_certPEM :: string

abbreviation minute_ns :: int where "minute_ns \<equiv> 60 * ns_per_sec"

definition parseCertificate :: "crypto \<Rightarrow> string \<Rightarrow> x509_cert result" where
  "parseCertificate cr data =
    (case PemDecode cr data of
       Some (t, bytes) \<Rightarrow> if t \<noteq> ''CERTIFICATE'' then Inl (errorf ''certificate PEM block is required'' [])
                         else ParseCertificate cr bytes
     | None \<Rightarrow> Inl (errorf ''certificate PEM block is required'' []))"

definition x509_serial :: "crypto \<Rightarrow> gotime \<Rightarrow> nat \<Rightarrow> int \<times> nat" where
  "x509_serial cr now n = (case RandInt cr n of (Inr v, n) \<Rightarrow> (v, n) | (Inl e, n) \<Rightarrow> (now, n))"

definition NewCA :: "crypto \<Rightarrow> gotime \<Rightarrow> string \<Rightarrow> int \<Rightarrow> (nat, run_ca) call" where
  "NewCA cr now commonName ttl n =
    (if ttl \<le> 0 then (Inl (errorf ''ttl must be positive'' []), n)
     else then_do (GenerateKey cr n) (\<lambda>key n.
       case x509_serial cr now n of (serial, n) \<Rightarrow>
       let cert = \<lparr>xc_serial = serial, xc_commonName = commonName, xc_notBefore = now - minute_ns, xc_notAfter = now + ttl,
             xc_keyUsage = [''CertSign'', ''CRLSign'', ''DigitalSignature''], xc_extKeyUsage = [], xc_isCA = True,
             xc_uris = [], xc_raw = []\<rparr>
       in then_do (CreateCertificate cr cert cert key key n) (\<lambda>der n.
         (Inr \<lparr>ca_cert = cert, ca_key = key, ca_certPEM = PemEncode cr ''CERTIFICATE'' der\<rparr>, n))))"

definition NewRunCA :: "crypto \<Rightarrow> gotime \<Rightarrow> string \<Rightarrow> string \<Rightarrow> int \<Rightarrow> (nat, run_ca) call" where
  "NewRunCA cr now runNamespace runName ttl = NewCA cr now (''krm-run-ca:'' @ runNamespace @ ''/'' @ runName) ttl"

definition CAFromPEM :: "crypto \<Rightarrow> string \<Rightarrow> string \<Rightarrow> run_ca result" where
  "CAFromPEM cr certPEM keyPEM =
    (case parseCertificate cr certPEM of
       Inl e \<Rightarrow> Inl e
     | Inr cert \<Rightarrow>
       (case PemDecode cr keyPEM of
          None \<Rightarrow> Inl (errorf ''CA private key PEM block is required'' [])
        | Some (t, bytes) \<Rightarrow>
            if t \<noteq> ''PRIVATE KEY'' then Inl (errorf ''CA private key PEM block is required'' [])
            else (case ParseKey cr bytes of
                Inl e \<Rightarrow> Inl e
              | Inr None \<Rightarrow> Inl (errorf ''CA private key must be Ed25519'' [])
              | Inr (Some key) \<Rightarrow>
                  if \<not> xc_isCA cert then Inl (errorf ''certificate is not a CA'' [])
                  else Inr \<lparr>ca_cert = cert, ca_key = key, ca_certPEM = certPEM\<rparr>)))"

definition CA_Bundle :: "crypto \<Rightarrow> run_ca option \<Rightarrow> tls_bundle" where
  "CA_Bundle cr ca =
    (case ca of
       None \<Rightarrow> \<lparr>tb_caCertPEM = [], tb_caKeyPEM = [], tb_certPEM = [], tb_keyPEM = []\<rparr>
     | Some ca \<Rightarrow> \<lparr>tb_caCertPEM = ca_certPEM ca,
         tb_caKeyPEM = (case MarshalKey cr (ca_key ca) of Inl _ \<Rightarrow> [] | Inr bytes \<Rightarrow> PemEncode cr ''PRIVATE KEY'' bytes),
         tb_certPEM = [], tb_keyPEM = []\<rparr>)"

text \<open>The text of a URL is the text it was parsed from: \<open>URI\<close> writes the escapes that
  \<open>String\<close> would write.\<close>

definition Mint :: "crypto \<Rightarrow> gotime \<Rightarrow> run_ca option \<Rightarrow> identity \<Rightarrow> int \<Rightarrow> (nat, tls_bundle) call" where
  "Mint cr now authority ident ttl n =
    (case authority of
       None \<Rightarrow> (Inl (errorf ''ca is required'' []), n)
     | Some ca \<Rightarrow>
       if ttl \<le> 0 then (Inl (errorf ''ttl must be positive'' []), n)
       else if url_parse (identity_URI ident) = None then (Inl (errorf ''parse %q'' [identity_URI ident]), n)
       else then_do (GenerateKey cr n) (\<lambda>key n.
         let notAfter = now + ttl;
             notAfter = (if notAfter > xc_notAfter (ca_cert ca) then xc_notAfter (ca_cert ca) else notAfter)
         in case x509_serial cr now n of (serial, n) \<Rightarrow>
         let cert = \<lparr>xc_serial = serial, xc_commonName = role_text (id_role ident),
               xc_notBefore = now - minute_ns, xc_notAfter = notAfter, xc_keyUsage = [''DigitalSignature''],
               xc_extKeyUsage = [ClientAuth, ServerAuth], xc_isCA = False, xc_uris = [identity_URI ident], xc_raw = []\<rparr>
         in then_do (CreateCertificate cr cert (ca_cert ca) key (ca_key ca) n) (\<lambda>der n.
           (case MarshalKey cr key of
              Inl e \<Rightarrow> (Inl e, n)
            | Inr keyBytes \<Rightarrow> (Inr \<lparr>tb_caCertPEM = ca_certPEM ca, tb_caKeyPEM = [],
                tb_certPEM = PemEncode cr ''CERTIFICATE'' der, tb_keyPEM = PemEncode cr ''PRIVATE KEY'' keyBytes\<rparr>, n)))))"

section \<open>Verification\<close>

fun has_identity :: "identity \<Rightarrow> string list \<Rightarrow> bool" where
  "has_identity expected [] = False"
| "has_identity expected (uri # uris) =
    (if ParseIdentity uri = Inr expected then True else has_identity expected uris)"

fun identity_in :: "string list \<Rightarrow> identity option" where
  "identity_in [] = None"
| "identity_in (uri # uris) = (case ParseIdentity uri of Inr i \<Rightarrow> Some i | Inl _ \<Rightarrow> identity_in uris)"

definition VerifyIdentity :: "crypto \<Rightarrow> gotime \<Rightarrow> tls_bundle \<Rightarrow> identity \<Rightarrow> gotime \<Rightarrow> unit result" where
  "VerifyIdentity cr clock bundle expected now =
    (case parseCertificate cr (tb_certPEM bundle) of
       Inl e \<Rightarrow> Inl e
     | Inr cert \<Rightarrow>
       (case parseCertificate cr (tb_caCertPEM bundle) of
          Inl e \<Rightarrow> Inl e
        | Inr caCert \<Rightarrow>
          (case VerifyCertificate cr cert \<lparr>vo_roots = [caCert], vo_intermediates = [], vo_dnsName = [],
                 vo_time = Some (if now = zero_time then clock else now), vo_usage = ClientAuth\<rparr> of
             Inl e \<Rightarrow> Inl e
           | Inr _ \<Rightarrow> if has_identity expected (xc_uris cert) then Inr ()
               else Inl (errorf ''certificate does not contain expected identity %s'' [identity_URI expected]))))"

definition BundleIdentity :: "crypto \<Rightarrow> tls_bundle \<Rightarrow> identity result" where
  "BundleIdentity cr bundle =
    (case parseCertificate cr (tb_certPEM bundle) of
       Inl e \<Rightarrow> Inl e
     | Inr cert \<Rightarrow> (case identity_in (xc_uris cert) of
          Some i \<Rightarrow> Inr i
        | None \<Rightarrow> Inl (errorf ''certificate does not contain a kube-rsync-machine identity'' [])))"

text \<open>Verification of the certificates that a TLS peer presents, as the callback of TLSConfig and as
  verifyPeer of controlgrpc/tls.go do it.\<close>

definition parse_peer :: "crypto \<Rightarrow> string list \<Rightarrow> (x509_cert \<times> x509_cert list) result" where
  "parse_peer cr rawCerts =
    (case rawCerts of
       [] \<Rightarrow> Inl (errorf ''peer certificate is required'' [])
     | raw # rest \<Rightarrow>
       (case ParseCertificate cr raw of
          Inl e \<Rightarrow> Inl e
        | Inr peer \<Rightarrow> (case map_result (ParseCertificate cr) rest of
              Inl e \<Rightarrow> Inl e | Inr intermediates \<Rightarrow> Inr (peer, intermediates))))"

definition verify_tls_peer :: "crypto \<Rightarrow> x509_cert list \<Rightarrow> identity \<Rightarrow> string \<Rightarrow> string list \<Rightarrow> unit result" where
  "verify_tls_peer cr roots expectedPeer serverName rawCerts =
    (case parse_peer cr rawCerts of
       Inl e \<Rightarrow> Inl e
     | Inr (peer, intermediates) \<Rightarrow>
       (case VerifyCertificate cr peer \<lparr>vo_roots = roots, vo_intermediates = intermediates, vo_dnsName = serverName,
              vo_time = None, vo_usage = AnyUsage\<rparr> of
          Inl e \<Rightarrow> Inl e
        | Inr _ \<Rightarrow> if has_identity expectedPeer (xc_uris peer) then Inr ()
            else Inl (errorf ''peer certificate does not contain expected identity %s'' [identity_URI expectedPeer])))"

definition verifyPeer :: "crypto \<Rightarrow> string list \<Rightarrow> x509_cert list \<Rightarrow> identity \<Rightarrow> ext_usage \<Rightarrow> unit result" where
  "verifyPeer cr rawCerts roots expected usage =
    (case parse_peer cr rawCerts of
       Inl e \<Rightarrow> Inl e
     | Inr (peer, intermediates) \<Rightarrow>
       (case VerifyCertificate cr peer \<lparr>vo_roots = roots, vo_intermediates = intermediates, vo_dnsName = [],
              vo_time = None, vo_usage = usage\<rparr> of
          Inl e \<Rightarrow> Inl e
        | Inr _ \<Rightarrow>
            if expected = no_identity then Inr ()
            else if has_identity expected (xc_uris peer) then Inr ()
            else Inl (errorf ''peer certificate does not contain expected identity %s'' [identity_URI expected])))"

definition VerifyClientCertificateWithCA ::
  "crypto \<Rightarrow> string list \<Rightarrow> string \<Rightarrow> identity \<Rightarrow> unit result" where
  "VerifyClientCertificateWithCA cr rawCerts caPEM expected =
    (case AppendCertsFromPEM cr caPEM of
       None \<Rightarrow> Inl (errorf ''client CA bundle does not contain a certificate'' [])
     | Some roots \<Rightarrow> verifyPeer cr rawCerts roots expected ClientAuth)"

definition identityFromRawCertificate :: "crypto \<Rightarrow> string list \<Rightarrow> identity result" where
  "identityFromRawCertificate cr rawCerts =
    (case rawCerts of
       [] \<Rightarrow> Inl (errorf ''client certificate is required'' [])
     | raw # _ \<Rightarrow>
       (case ParseCertificate cr raw of
          Inl e \<Rightarrow> Inl e
        | Inr cert \<Rightarrow> (case identity_in (xc_uris cert) of
            Some i \<Rightarrow> Inr i
          | None \<Rightarrow> Inl (errorf ''client certificate does not contain a kube-rsync-machine identity'' []))))"

definition NewRunClientCertificateVerifier ::
  "crypto \<Rightarrow> string \<Rightarrow> string list \<Rightarrow> unit result" where
  "NewRunClientCertificateVerifier cr controlCAPEM rawCerts =
    (case identityFromRawCertificate cr rawCerts of
       Inl e \<Rightarrow> Inl e
     | Inr ident \<Rightarrow> VerifyClientCertificateWithCA cr rawCerts controlCAPEM ident)"

text \<open>\<open>PeerIdentity\<close>: the certificates of the connection are those the handshake accepted.\<close>

definition PeerIdentity :: "x509_cert list option \<Rightarrow> identity option" where
  "PeerIdentity peerCertificates =
    (case peerCertificates of
       Some (cert # _) \<Rightarrow> identity_in (xc_uris cert)
     | _ \<Rightarrow> None)"

section \<open>TLS configurations\<close>

record tls_config =
  tc_certificate :: string
  tc_rootCAs :: "x509_cert list"
  tc_clientCAs :: "x509_cert list"
  tc_clientAuth :: string
  tc_minVersion :: string
  tc_serverName :: string
  tc_insecureSkipVerify :: bool
  tc_verifyPeer :: "(string list \<Rightarrow> unit result) option"

abbreviation RequireAndVerifyClientCert :: string where "RequireAndVerifyClientCert \<equiv> ''RequireAndVerifyClientCert''"
abbreviation RequireAnyClientCert :: string where "RequireAnyClientCert \<equiv> ''RequireAnyClientCert''"
abbreviation VersionTLS12 :: string where "VersionTLS12 \<equiv> ''TLS12''"

definition LoadBundle :: "(string \<Rightarrow> string result) \<Rightarrow> string \<Rightarrow> tls_bundle result" where
  "LoadBundle readFile dir =
    (if dir = [] then Inl (errorf ''tls directory is required'' [])
     else case readFile (path_join [dir, ''ca.crt'']) of Inl e \<Rightarrow> Inl (wrapf ''read %s: %w'' [''ca.crt''] e)
     | Inr caCert \<Rightarrow> (case readFile (path_join [dir, ''tls.crt'']) of Inl e \<Rightarrow> Inl (wrapf ''read %s: %w'' [''tls.crt''] e)
     | Inr cert \<Rightarrow> (case readFile (path_join [dir, ''tls.key'']) of Inl e \<Rightarrow> Inl (wrapf ''read %s: %w'' [''tls.key''] e)
     | Inr key \<Rightarrow> Inr \<lparr>tb_caCertPEM = caCert, tb_caKeyPEM = [], tb_certPEM = cert, tb_keyPEM = key\<rparr>)))"

definition TLSConfig :: "crypto \<Rightarrow> tls_bundle \<Rightarrow> identity \<Rightarrow> string \<Rightarrow> tls_config result" where
  "TLSConfig cr bundle expectedPeer serverName =
    (case X509KeyPair cr (tb_certPEM bundle) (tb_keyPEM bundle) of
       Inl e \<Rightarrow> Inl (wrapf ''load key pair: %w'' [] e)
     | Inr cert \<Rightarrow>
       (case AppendCertsFromPEM cr (tb_caCertPEM bundle) of
          None \<Rightarrow> Inl (errorf ''ca.crt does not contain a certificate'' [])
        | Some roots \<Rightarrow>
          let config = \<lparr>tc_certificate = cert, tc_rootCAs = roots, tc_clientCAs = roots,
                tc_clientAuth = RequireAndVerifyClientCert, tc_minVersion = VersionTLS12, tc_serverName = serverName,
                tc_insecureSkipVerify = False, tc_verifyPeer = None\<rparr>
          in Inr (if expectedPeer \<noteq> no_identity
               then config\<lparr>tc_insecureSkipVerify := (serverName = []),
                      tc_verifyPeer := Some (verify_tls_peer cr roots expectedPeer serverName)\<rparr>
               else config)))"

fun client_pool :: "crypto \<Rightarrow> string list \<Rightarrow> x509_cert list \<Rightarrow> x509_cert list result" where
  "client_pool cr [] pool = Inr pool"
| "client_pool cr (caPEM # rest) pool =
    (if caPEM = [] then client_pool cr rest pool
     else case AppendCertsFromPEM cr caPEM of
         None \<Rightarrow> Inl (errorf ''client CA bundle does not contain a certificate'' [])
       | Some certs \<Rightarrow> client_pool cr rest (pool @ certs))"

definition ServerCredentials :: "crypto \<Rightarrow> tls_bundle \<Rightarrow> string list \<Rightarrow> tls_config result" where
  "ServerCredentials cr server clientCAPEMs =
    (case X509KeyPair cr (tb_certPEM server) (tb_keyPEM server) of
       Inl e \<Rightarrow> Inl (wrapf ''load server key pair: %w'' [] e)
     | Inr cert \<Rightarrow>
       (case (if clientCAPEMs \<noteq> [] then client_pool cr clientCAPEMs []
              else case AppendCertsFromPEM cr (tb_caCertPEM server) of
                  None \<Rightarrow> Inl (errorf ''server ca.crt does not contain a certificate'' [])
                | Some certs \<Rightarrow> Inr certs) of
          Inl e \<Rightarrow> Inl e
        | Inr clientCAs \<Rightarrow> Inr \<lparr>tc_certificate = cert, tc_rootCAs = [], tc_clientCAs = clientCAs,
            tc_clientAuth = RequireAndVerifyClientCert, tc_minVersion = VersionTLS12, tc_serverName = [],
            tc_insecureSkipVerify = False, tc_verifyPeer = None\<rparr>))"

definition ServerCredentialsWithClientVerifier ::
  "crypto \<Rightarrow> tls_bundle \<Rightarrow> (string list \<Rightarrow> unit result) option \<Rightarrow> tls_config result" where
  "ServerCredentialsWithClientVerifier cr server verify =
    (if verify = None then Inl (errorf ''client certificate verifier is required'' [])
     else case X509KeyPair cr (tb_certPEM server) (tb_keyPEM server) of
         Inl e \<Rightarrow> Inl (wrapf ''load server key pair: %w'' [] e)
       | Inr cert \<Rightarrow> Inr \<lparr>tc_certificate = cert, tc_rootCAs = [], tc_clientCAs = [],
           tc_clientAuth = RequireAnyClientCert, tc_minVersion = VersionTLS12, tc_serverName = [],
           tc_insecureSkipVerify = False, tc_verifyPeer = verify\<rparr>)"

definition ClientCredentialsWithServerCA :: "crypto \<Rightarrow> tls_bundle \<Rightarrow> string \<Rightarrow> identity \<Rightarrow> tls_config result" where
  "ClientCredentialsWithServerCA cr client serverCAPEM expectedServer =
    (case X509KeyPair cr (tb_certPEM client) (tb_keyPEM client) of
       Inl e \<Rightarrow> Inl (wrapf ''load client key pair: %w'' [] e)
     | Inr cert \<Rightarrow>
       (case AppendCertsFromPEM cr serverCAPEM of
          None \<Rightarrow> Inl (errorf ''server CA bundle does not contain a certificate'' [])
        | Some roots \<Rightarrow> Inr \<lparr>tc_certificate = cert, tc_rootCAs = roots, tc_clientCAs = [], tc_clientAuth = [],
            tc_minVersion = VersionTLS12, tc_serverName = [], tc_insecureSkipVerify = True,
            tc_verifyPeer = Some (\<lambda>rawCerts. verifyPeer cr rawCerts roots expectedServer ServerAuth)\<rparr>))"

definition ClientCredentials :: "crypto \<Rightarrow> tls_bundle \<Rightarrow> identity \<Rightarrow> tls_config result" where
  "ClientCredentials cr client expectedServer =
     ClientCredentialsWithServerCA cr client (tb_caCertPEM client) expectedServer"

section \<open>What the libraries promise\<close>

text \<open>
  The documented behaviour that the proofs rely on. PEM and PKCS8 encodings decode to what was
  encoded; a created certificate parses to its template with times in whole seconds; and a
  certificate that the key of an authority signed verifies against it exactly while both are
  valid and the usage is allowed.
\<close>

definition stamped :: "x509_cert \<Rightarrow> string \<Rightarrow> x509_cert" where
  "stamped t der = t\<lparr>xc_notBefore := trunc_second (xc_notBefore t), xc_notAfter := trunc_second (xc_notAfter t), xc_raw := der\<rparr>"

definition valid_at :: "x509_cert \<Rightarrow> gotime \<Rightarrow> bool" where
  "valid_at c t = (xc_notBefore c \<le> t \<and> t \<le> xc_notAfter c)"

definition crypto_laws :: "crypto \<Rightarrow> bool" where
  "crypto_laws cr \<longleftrightarrow>
     (\<forall>t d. PemDecode cr (PemEncode cr t d) = Some (t, d))
   \<and> (\<forall>t p k s n der n'. CreateCertificate cr t p k s n = (Inr der, n') \<longrightarrow> ParseCertificate cr der = Inr (stamped t der))
   \<and> (\<forall>t p k s n der n' m rootDer m' time.
        CreateCertificate cr p p s s m = (Inr rootDer, m') \<longrightarrow> xc_isCA p \<longrightarrow>
        CreateCertificate cr t p k s n = (Inr der, n') \<longrightarrow> ClientAuth \<in> set (xc_extKeyUsage t) \<longrightarrow>
        (is_ok (VerifyCertificate cr (stamped t der) \<lparr>vo_roots = [stamped p rootDer], vo_intermediates = [], vo_dnsName = [],
            vo_time = Some time, vo_usage = ClientAuth\<rparr>)
         \<longleftrightarrow> valid_at (stamped t der) time \<and> valid_at (stamped p rootDer) time))"

section \<open>A minted certificate proves its identity\<close>

lemma then_do_Inr_obtain:
  assumes "then_do r k = (Inr y, w')"
  obtains x w where "r = (Inr x, w)" "k x w = (Inr y, w')"
  using assms by (auto simp: then_do_Inr)

lemma NewCA_parts:
  assumes "NewCA cr t0 cn ttl n = (Inr ca, n')"
  obtains der m m' where "0 < ttl" "xc_isCA (ca_cert ca)" "xc_notBefore (ca_cert ca) = t0 - minute_ns"
    "xc_notAfter (ca_cert ca) = t0 + ttl" "ca_certPEM ca = PemEncode cr ''CERTIFICATE'' der"
    "CreateCertificate cr (ca_cert ca) (ca_cert ca) (ca_key ca) (ca_key ca) m = (Inr der, m')"
proof -
  have "0 < ttl"
    using assms by (auto simp: NewCA_def split: if_splits)
  then show thesis
    using assms that by (auto simp: NewCA_def Let_def split: prod.splits elim!: then_do_Inr_obtain)
qed

lemma Mint_parts:
  assumes "Mint cr now (Some ca) i ttl n = (Inr b, n')"
  obtains t key der m m' where "0 < ttl" "xc_notBefore t = now - minute_ns"
    "xc_notAfter t = min (now + ttl) (xc_notAfter (ca_cert ca))" "xc_uris t = [identity_URI i]"
    "ClientAuth \<in> set (xc_extKeyUsage t)" "CreateCertificate cr t (ca_cert ca) key (ca_key ca) m = (Inr der, m')"
    "tb_certPEM b = PemEncode cr ''CERTIFICATE'' der" "tb_caCertPEM b = ca_certPEM ca"
proof -
  have pos: "0 < ttl" and url: "url_parse (identity_URI i) \<noteq> None"
    using assms by (auto simp: Mint_def split: if_splits)
  from assms pos url obtain key n1 where
    rest: "(case x509_serial cr now n1 of (serial, n) \<Rightarrow>
         let cert = \<lparr>xc_serial = serial, xc_commonName = role_text (id_role i),
               xc_notBefore = now - minute_ns,
               xc_notAfter = (if now + ttl > xc_notAfter (ca_cert ca) then xc_notAfter (ca_cert ca) else now + ttl),
               xc_keyUsage = [''DigitalSignature''],
               xc_extKeyUsage = [ClientAuth, ServerAuth], xc_isCA = False, xc_uris = [identity_URI i], xc_raw = []\<rparr>
         in then_do (CreateCertificate cr cert (ca_cert ca) key (ca_key ca) n) (\<lambda>der n.
           (case MarshalKey cr key of
              Inl e \<Rightarrow> (Inl e, n)
            | Inr keyBytes \<Rightarrow> (Inr \<lparr>tb_caCertPEM = ca_certPEM ca, tb_caKeyPEM = [],
                tb_certPEM = PemEncode cr ''CERTIFICATE'' der, tb_keyPEM = PemEncode cr ''PRIVATE KEY'' keyBytes\<rparr>, n)))) = (Inr b, n')"
    by (auto simp: Mint_def Let_def elim!: then_do_Inr_obtain)
  obtain serial n2 where ser: "x509_serial cr now n1 = (serial, n2)"
    by (cases "x509_serial cr now n1")
  show thesis
    using rest pos unfolding ser Let_def prod.case
    by (elim then_do_Inr_obtain) (auto intro!: that simp: min_def split: sum.splits)
qed

lemma crypto_lawsD:
  assumes "crypto_laws cr"
  shows "PemDecode cr (PemEncode cr t d) = Some (t, d)"
    "CreateCertificate cr u p k s n = (Inr der, n') \<Longrightarrow> ParseCertificate cr der = Inr (stamped u der)"
    "CreateCertificate cr p p s s m = (Inr rootDer, m') \<Longrightarrow> xc_isCA p \<Longrightarrow>
      CreateCertificate cr u p k s n = (Inr der, n') \<Longrightarrow> ClientAuth \<in> set (xc_extKeyUsage u) \<Longrightarrow>
      is_ok (VerifyCertificate cr (stamped u der) \<lparr>vo_roots = [stamped p rootDer], vo_intermediates = [], vo_dnsName = [],
            vo_time = Some time, vo_usage = ClientAuth\<rparr>)
      \<longleftrightarrow> valid_at (stamped u der) time \<and> valid_at (stamped p rootDer) time"
  using assms unfolding crypto_laws_def by blast+

lemma trunc_second_mono: "a \<le> b \<Longrightarrow> trunc_second a \<le> trunc_second b"
  by (simp add: trunc_second_def zdiv_mono1 ns_per_sec_def)

lemma minted_verifies:
  assumes "crypto_laws cr" "NewCA cr t0 cn ttl0 n0 = (Inr ca, n1)" "Mint cr now (Some ca) i ttl n2 = (Inr b, n3)"
    and "uri_identity i" "t \<noteq> zero_time"
  shows "(is_ok (VerifyIdentity cr clock b j t) \<longleftrightarrow>
      j = i \<and> trunc_second (now - minute_ns) \<le> t \<and> trunc_second (t0 - minute_ns) \<le> t
        \<and> t \<le> trunc_second (min (now + ttl) (t0 + ttl0)))
    \<and> BundleIdentity cr b = Inr i \<and> tb_caCertPEM b = ca_certPEM ca"
proof -
  obtain rootDer m m' where root: "xc_isCA (ca_cert ca)" "xc_notBefore (ca_cert ca) = t0 - minute_ns"
    "xc_notAfter (ca_cert ca) = t0 + ttl0" "ca_certPEM ca = PemEncode cr ''CERTIFICATE'' rootDer"
    "CreateCertificate cr (ca_cert ca) (ca_cert ca) (ca_key ca) (ca_key ca) m = (Inr rootDer, m')"
    using assms(2) by (rule NewCA_parts)
  obtain u key der k k' where leaf: "xc_notBefore u = now - minute_ns"
    "xc_notAfter u = min (now + ttl) (xc_notAfter (ca_cert ca))" "xc_uris u = [identity_URI i]"
    "ClientAuth \<in> set (xc_extKeyUsage u)" "CreateCertificate cr u (ca_cert ca) key (ca_key ca) k = (Inr der, k')"
    "tb_certPEM b = PemEncode cr ''CERTIFICATE'' der" "tb_caCertPEM b = ca_certPEM ca"
    using assms(3) by (rule Mint_parts)
  note laws = crypto_lawsD [OF assms(1)]
  have parse: "parseCertificate cr (tb_certPEM b) = Inr (stamped u der)"
    "parseCertificate cr (tb_caCertPEM b) = Inr (stamped (ca_cert ca) rootDer)"
    using laws(1) laws(2) [OF leaf(5)] laws(2) [OF root(5)] leaf root by (simp_all add: parseCertificate_def)
  have uris: "xc_uris (stamped u der) = [identity_URI i]"
    using leaf(3) by (simp add: stamped_def)
  have ident: "ParseIdentity (identity_URI i) = Inr i"
    using assms(4) parse_identity_URI by blast
  let ?v = "VerifyCertificate cr (stamped u der) \<lparr>vo_roots = [stamped (ca_cert ca) rootDer], vo_intermediates = [],
    vo_dnsName = [], vo_time = Some t, vo_usage = ClientAuth\<rparr>"
  have "is_ok (VerifyIdentity cr clock b j t) \<longleftrightarrow> is_ok ?v \<and> j = i"
    using assms(5) by (auto simp: VerifyIdentity_def parse uris ident is_ok_def split: sum.split)
  moreover have "is_ok ?v \<longleftrightarrow> valid_at (stamped u der) t \<and> valid_at (stamped (ca_cert ca) rootDer) t"
    by (rule laws(3)) (use root leaf in auto)
  moreover have "trunc_second (min (now + ttl) (t0 + ttl0)) \<le> trunc_second (t0 + ttl0)"
    by (rule trunc_second_mono) simp
  ultimately have "is_ok (VerifyIdentity cr clock b j t) \<longleftrightarrow>
      j = i \<and> trunc_second (now - minute_ns) \<le> t \<and> trunc_second (t0 - minute_ns) \<le> t
        \<and> t \<le> trunc_second (min (now + ttl) (t0 + ttl0))"
    using leaf(1,2) root(2,3) by (auto simp: valid_at_def stamped_def)
  moreover have "BundleIdentity cr b = Inr i"
    by (simp add: BundleIdentity_def parse uris ident)
  ultimately show ?thesis
    using leaf(7) by blast
qed

text \<open>A certificate minted for an identity proves exactly that identity: within the lifetime that
  was asked for, cut to the lifetime of the authority, verification against the authority succeeds
  for the identity and fails for every other one and at every other time; and the identity is
  read back from the bundle.\<close>

theorem minted_identity_verifies:
  assumes "crypto_laws cr" "NewCA cr t0 cn ttl0 n0 = (Inr ca, n1)" "Mint cr now (Some ca) i ttl n2 = (Inr b, n3)"
    and "uri_identity i" "t \<noteq> zero_time"
  shows "(is_ok (VerifyIdentity cr clock b j t) \<longleftrightarrow>
      j = i \<and> trunc_second (now - minute_ns) \<le> t \<and> trunc_second (t0 - minute_ns) \<le> t
        \<and> t \<le> trunc_second (min (now + ttl) (t0 + ttl0)))
    \<and> BundleIdentity cr b = Inr i \<and> tb_caCertPEM b = ca_certPEM ca"
  using assms by (rule minted_verifies)

section \<open>A library that keeps its promises\<close>

text \<open>
  PEM as a length, a type and the data; one authority, created at time \<open>minute_ns\<close> for an
  hour, and the certificates of sources and targets, created at the same time for two hours.
\<close>

definition demo_identity :: identity where
  "demo_identity = SourceIdentity ''ops'' ''nightly'' ''db'' ''data''"

definition demo_root :: x509_cert where
  "demo_root = \<lparr>xc_serial = 7, xc_commonName = ''ca'', xc_notBefore = 0, xc_notAfter = 61 * minute_ns,
     xc_keyUsage = [''CertSign'', ''CRLSign'', ''DigitalSignature''], xc_extKeyUsage = [], xc_isCA = True, xc_uris = [], xc_raw = []\<rparr>"

definition demo_leaf :: "string \<Rightarrow> string \<Rightarrow> x509_cert" where
  "demo_leaf name uri = \<lparr>xc_serial = 7, xc_commonName = name, xc_notBefore = 0, xc_notAfter = 61 * minute_ns,
     xc_keyUsage = [''DigitalSignature''], xc_extKeyUsage = [ClientAuth, ServerAuth], xc_isCA = False,
     xc_uris = [uri], xc_raw = []\<rparr>"

definition demo_create :: "x509_cert \<Rightarrow> x509_cert \<Rightarrow> string \<Rightarrow> string \<Rightarrow> (nat, string) call" where
  "demo_create t p k s n =
    (if p \<noteq> demo_root then (Inl (errorf ''unknown authority'' []), n)
     else if t = demo_root then (Inr ''R'', n)
     else if t = demo_leaf ''source'' (hd (xc_uris t)) then (Inr (CHR ''S'' # hd (xc_uris t)), n)
     else if t = demo_leaf ''target'' (hd (xc_uris t)) then (Inr (CHR ''T'' # hd (xc_uris t)), n)
     else (Inl (errorf ''unknown template'' []), n))"

definition demo_pem :: "string \<Rightarrow> (string \<times> string) option" where
  "demo_pem s = (let n = length (takeWhile (\<lambda>c. c = CHR 0x01) s); rest = drop (Suc n) s
     in Some (take n rest, drop n rest))"

definition demo_crypto :: crypto where
  "demo_crypto = \<lparr>GenerateKey = (\<lambda>n. (Inr ''key'', n)), RandInt = (\<lambda>n. (Inr 7, n)), CreateCertificate = demo_create,
     MarshalKey = Inr, ParseKey = (\<lambda>k. Inr (Some k)),
     ParseCertificate = (\<lambda>der. if der = ''R'' then Inr (stamped demo_root der)
       else if der \<noteq> [] \<and> hd der = CHR ''S'' then Inr (stamped (demo_leaf ''source'' (tl der)) der)
       else if der \<noteq> [] \<and> hd der = CHR ''T'' then Inr (stamped (demo_leaf ''target'' (tl der)) der)
       else Inl (errorf ''malformed certificate'' [])),
     VerifyCertificate = (\<lambda>c vo. case vo_time vo of
         Some t \<Rightarrow> if valid_at c t \<and> list_all (\<lambda>r. valid_at r t) (vo_roots vo) then Inr () else Inl (errorf ''expired'' [])
       | None \<Rightarrow> Inr ()),
     PemEncode = (\<lambda>t d. replicate (length t) CHR 0x01 @ CHR 0x00 # t @ d), PemDecode = demo_pem,
     X509KeyPair = (\<lambda>c k. Inr c), AppendCertsFromPEM = (\<lambda>p. None)\<rparr>"

lemma demo_pem: "demo_pem (replicate (length t) CHR 0x01 @ CHR 0x00 # t @ d) = Some (t, d)"
proof -
  have "takeWhile (\<lambda>c. c = CHR 0x01) (replicate (length t) CHR 0x01 @ CHR 0x00 # t @ d) = replicate (length t) CHR 0x01"
    by (simp add: takeWhile_append)
  then show ?thesis
    by (simp add: demo_pem_def Let_def)
qed

lemma demo_differ [simp]: "demo_leaf name uri \<noteq> demo_root" "demo_root \<noteq> demo_leaf name uri"
  by (simp_all add: demo_leaf_def demo_root_def)

lemma demo_leaf_simps [simp]: "xc_uris (demo_leaf name uri) = [uri]" "demo_leaf a u = demo_leaf b v \<longleftrightarrow> a = b \<and> u = v"
  by (auto simp: demo_leaf_def)

lemma demo_create_Inr:
  "demo_create t p k s n = (Inr der, n') \<longleftrightarrow> p = demo_root \<and> n' = n \<and> (t = demo_root \<and> der = ''R''
     \<or> (\<exists>uri. t = demo_leaf ''source'' uri \<and> der = CHR ''S'' # uri) \<or> (\<exists>uri. t = demo_leaf ''target'' uri \<and> der = CHR ''T'' # uri))"
  using demo_differ by (auto simp: demo_create_def)

lemma demo_laws: "crypto_laws demo_crypto"
  unfolding crypto_laws_def
  by (auto simp: demo_crypto_def demo_pem demo_create_Inr is_ok_def)

lemma demo_uri: "uri_identity demo_identity"
  by (simp add: demo_identity_def uri_identity_def uri_part_def SourceIdentity_def)

lemma uri_identity_parses: "uri_identity i \<Longrightarrow> url_parse (identity_URI i) \<noteq> None"
  using parse_identity_URI [of i] by (auto simp: ParseIdentity_def split: option.splits)

lemma demo_ca:
  "NewCA demo_crypto minute_ns ''ca'' (60 * minute_ns) 0 =
     (Inr \<lparr>ca_cert = demo_root, ca_key = ''key'', ca_certPEM = PemEncode demo_crypto ''CERTIFICATE'' ''R''\<rparr>, 0)"
proof -
  have root: "\<lparr>xc_serial = 7, xc_commonName = ''ca'', xc_notBefore = 0, xc_notAfter = 3660 * ns_per_sec,
             xc_keyUsage = [''CertSign'', ''CRLSign'', ''DigitalSignature''], xc_extKeyUsage = [], xc_isCA = True,
             xc_uris = [], xc_raw = []\<rparr> = demo_root"
    by (simp add: demo_root_def)
  have "demo_create demo_root demo_root k s n = (Inr ''R'', n)" for k s n
    by (simp add: demo_create_Inr)
  moreover have "0 < minute_ns"
    by (simp add: ns_per_sec_def)
  ultimately show ?thesis
    by (simp only: NewCA_def x509_serial_def) (simp add: demo_crypto_def Let_def root)
qed

abbreviation demo_authority :: run_ca where
  "demo_authority \<equiv> \<lparr>ca_cert = demo_root, ca_key = ''key'', ca_certPEM = PemEncode demo_crypto ''CERTIFICATE'' ''R''\<rparr>"

lemma demo_mint:
  assumes "uri_identity i" "role_text (id_role i) = ''source'' \<or> role_text (id_role i) = ''target''"
  shows "\<exists>b. Mint demo_crypto minute_ns (Some demo_authority) i (120 * minute_ns) n = (Inr b, n)"
proof -
  have leaf: "\<lparr>xc_serial = 7, xc_commonName = role_text (id_role i), xc_notBefore = 0,
      xc_notAfter = xc_notAfter demo_root, xc_keyUsage = [''DigitalSignature''], xc_extKeyUsage = [ClientAuth, ServerAuth],
      xc_isCA = False, xc_uris = [identity_URI i], xc_raw = []\<rparr> = demo_leaf (role_text (id_role i)) (identity_URI i)"
    by (simp add: demo_leaf_def demo_root_def)
  have "\<exists>der. demo_create (demo_leaf (role_text (id_role i)) (identity_URI i)) demo_root k s n = (Inr der, n)" for k s n
    using assms(2) by (simp add: demo_create_Inr ex_disj_distrib)
  then obtain der where "demo_create (demo_leaf (role_text (id_role i)) (identity_URI i)) demo_root ''key'' ''key'' n = (Inr der, n)"
    by blast
  moreover have "\<not> 120 * minute_ns \<le> 0" "minute_ns + 120 * minute_ns > xc_notAfter demo_root"
    by (simp_all add: demo_root_def ns_per_sec_def)
  ultimately show ?thesis
    using uri_identity_parses [OF assms(1)] by (simp only: Mint_def x509_serial_def) (simp add: demo_crypto_def Let_def leaf)
qed

lemma minute_times: "30 * minute_ns \<noteq> zero_time" "62 * minute_ns \<noteq> zero_time"
  by (simp_all add: zero_time_def time_of_day_def ns_per_sec_def ns_per_day_def epoch_day_def day_number_def days_before_year_def
      days_before_month_def month_lengths_def is_leap_def)

theorem minted_identity_verifies_witness:
  "\<exists>b. Mint demo_crypto minute_ns (Some demo_authority) demo_identity (120 * minute_ns) 0 = (Inr b, 0)
    \<and> is_ok (VerifyIdentity demo_crypto 0 b demo_identity (30 * minute_ns))
    \<and> \<not> is_ok (VerifyIdentity demo_crypto 0 b demo_identity (62 * minute_ns))
    \<and> \<not> is_ok (VerifyIdentity demo_crypto 0 b (SourceIdentity ''ops'' ''nightly'' ''db'' ''other'') (30 * minute_ns))"
proof -
  have "role_text (id_role demo_identity) = ''source''"
    by (simp add: demo_identity_def SourceIdentity_def role_text_def)
  then obtain b where b: "Mint demo_crypto minute_ns (Some demo_authority) demo_identity (120 * minute_ns) 0 = (Inr b, 0)"
    using demo_mint [OF demo_uri] by blast
  note verify = minted_identity_verifies [OF demo_laws demo_ca b demo_uri, THEN conjunct1]
  show ?thesis
    using b verify [OF minute_times(1)] verify [OF minute_times(2)]
    by (auto simp: trunc_second_def ns_per_sec_def demo_identity_def SourceIdentity_def)
qed

end
