(* ===== verification/Credentials.thy ===== *)
theory Credentials
  imports Certificates Control_Types
begin

text \<open>
  controller/credentials.go: the certificates of a run, one per party, and the
  secrets that carry them. The signer is the authority of the control service when
  the manager has one; without it every call makes an authority of its own.
\<close>

section \<open>Secrets of a run\<close>

record credential_secret =
  crs_namespace :: string
  crs_name :: string
  crs_identity :: identity
  crs_labels :: label_map
  crs_bundle :: tls_bundle
  crs_extraData :: "(string \<times> string) list"

abbreviation DefaultRunCertificateTTL :: int where "DefaultRunCertificateTTL \<equiv> 120 * minute_ns"
abbreviation ControlCAFile :: string where "ControlCAFile \<equiv> ''control-ca.crt''"

definition credentialExtraData :: "string list \<Rightarrow> (string \<times> string) list" where
  "credentialExtraData controlCAPEM =
    (if controlCAPEM = [] \<or> hd controlCAPEM = [] then [] else [(ControlCAFile, hd controlCAPEM)])"

definition credential_Secret :: "credential_secret \<Rightarrow> k8s_secret" where
  "credential_Secret c =
    (let secret = BuildTLSSecret (crs_namespace c) (crs_name c) (crs_labels c) (crs_bundle c)
     in secret\<lparr>sec_data := fold (\<lambda>(k, v) m. alist_put k v m) (crs_extraData c) (sec_data secret)\<rparr>)"

definition run_authority :: "crypto \<Rightarrow> gotime \<Rightarrow> run_ca option \<Rightarrow> nsname \<Rightarrow> int \<Rightarrow> (nat, run_ca) call" where
  "run_authority cr now signer run ttl n =
    (case signer of Some ca \<Rightarrow> (Inr ca, n) | None \<Rightarrow> NewRunCA cr now (fst run) (snd run) ttl n)"

fun source_credentials ::
  "crypto \<Rightarrow> gotime \<Rightarrow> run_ca \<Rightarrow> backup_job \<Rightarrow> int \<Rightarrow> string list \<Rightarrow> backup_source list \<Rightarrow> (nat, credential_secret list) call" where
  "source_credentials cr now ca run ttl controlCAPEM [] n = (Inr [], n)"
| "source_credentials cr now ca run ttl controlCAPEM (source # sources) n =
    (let ident = SourceIdentity (om_namespace (j_meta run)) (om_name (j_meta run)) (om_namespace (s_meta source)) (om_name (s_meta source))
     in then_do (wrapped ''mint source certificate %s/%s: %w'' [om_namespace (s_meta source), om_name (s_meta source)]
          (Mint cr now (Some ca) ident ttl n)) (\<lambda>bundle n.
        let labels = alist_put LabelSource (labelValue [om_namespace (s_meta source), om_name (s_meta source)])
              (runLabels run runKindBackup RoleSourceSender);
            credential = \<lparr>crs_namespace = om_namespace (s_meta source),
              crs_name = GeneratedTLSSecretName (RunID run) RoleSourceSender (om_namespace (s_meta source)) (om_name (s_meta source)),
              crs_identity = ident, crs_labels = labels, crs_bundle = bundle, crs_extraData = credentialExtraData controlCAPEM\<rparr>
        in then_do (source_credentials cr now ca run ttl controlCAPEM sources n) (\<lambda>rest n. (Inr (credential # rest), n))))"

definition buildBackupJobCredentialSecrets ::
  "crypto \<Rightarrow> gotime \<Rightarrow> backup_job \<Rightarrow> rsync_machine \<Rightarrow> backup_source list \<Rightarrow> int \<Rightarrow> run_ca option \<Rightarrow> string list
     \<Rightarrow> (nat, credential_secret list) call" where
  "buildBackupJobCredentialSecrets cr now run target sources ttl signer controlCAPEM n =
    (let ttl = (if ttl = 0 then DefaultRunCertificateTTL else ttl) in
     then_do (run_authority cr now signer (meta_key (j_meta run)) ttl n) (\<lambda>ca n.
       let targetIdentity = TargetIdentity (om_namespace (j_meta run)) (om_name (j_meta run)) (om_namespace (m_meta target)) (om_name (m_meta target))
       in then_do (wrapped ''mint target certificate: %w'' [] (Mint cr now (Some ca) targetIdentity ttl n)) (\<lambda>targetBundle n.
         let credential = \<lparr>crs_namespace = om_namespace (m_meta target),
               crs_name = GeneratedTLSSecretName (RunID run) RoleTargetServer (om_namespace (m_meta target)) (om_name (m_meta target)),
               crs_identity = targetIdentity, crs_labels = runLabels run runKindBackup RoleTargetServer,
               crs_bundle = targetBundle, crs_extraData = credentialExtraData controlCAPEM\<rparr>
         in then_do (source_credentials cr now ca run ttl controlCAPEM sources n) (\<lambda>rest n. (Inr (credential # rest), n)))))"

definition BuildBackupJobCredentialSecrets ::
  "crypto \<Rightarrow> gotime \<Rightarrow> backup_job \<Rightarrow> rsync_machine \<Rightarrow> backup_source list \<Rightarrow> int \<Rightarrow> string list \<Rightarrow> (nat, credential_secret list) call" where
  "BuildBackupJobCredentialSecrets cr now run target sources ttl controlCAPEM =
     buildBackupJobCredentialSecrets cr now run target sources ttl None controlCAPEM"

definition BuildBackupJobCredentialSecretsWithSigner ::
  "crypto \<Rightarrow> gotime \<Rightarrow> backup_job \<Rightarrow> rsync_machine \<Rightarrow> backup_source list \<Rightarrow> int \<Rightarrow> run_ca option \<Rightarrow> string list
     \<Rightarrow> (nat, credential_secret list) call" where
  "BuildBackupJobCredentialSecretsWithSigner cr now run target sources ttl signer controlCAPEM =
     buildBackupJobCredentialSecrets cr now run target sources ttl signer controlCAPEM"

definition buildRestoreJobCredentialSecrets ::
  "crypto \<Rightarrow> gotime \<Rightarrow> restore_job \<Rightarrow> rsync_machine \<Rightarrow> backup_source \<Rightarrow> string \<Rightarrow> int \<Rightarrow> run_ca option \<Rightarrow> string list
     \<Rightarrow> (nat, credential_secret list) call" where
  "buildRestoreJobCredentialSecrets cr now restore target source destinationNamespace ttl signer controlCAPEM n =
    (let ttl = (if ttl = 0 then DefaultRunCertificateTTL else ttl);
         destinationNamespace = (if destinationNamespace = [] then om_namespace (r_meta restore) else destinationNamespace);
         runRef = meta_key (r_meta restore); runID = RunIDForRef runRef in
     then_do (run_authority cr now signer runRef ttl n) (\<lambda>ca n.
       let targetIdentity = TargetIdentity (fst runRef) (snd runRef) (om_namespace (m_meta target)) (om_name (m_meta target));
           writerIdentity = SourceIdentity (fst runRef) (snd runRef) (om_namespace (s_meta source)) (om_name (s_meta source))
       in then_do (wrapped ''mint restore target certificate: %w'' [] (Mint cr now (Some ca) targetIdentity ttl n)) (\<lambda>targetBundle n.
          then_do (wrapped ''mint restore writer certificate: %w'' [] (Mint cr now (Some ca) writerIdentity ttl n)) (\<lambda>writerBundle n.
            (Inr [\<lparr>crs_namespace = om_namespace (m_meta target),
                   crs_name = GeneratedTLSSecretName runID RoleTargetServer (om_namespace (m_meta target)) (om_name (m_meta target)),
                   crs_identity = targetIdentity, crs_labels = runLabelsForRef runRef runKindRestore RoleTargetServer,
                   crs_bundle = targetBundle, crs_extraData = credentialExtraData controlCAPEM\<rparr>,
                  \<lparr>crs_namespace = destinationNamespace,
                   crs_name = GeneratedTLSSecretName runID RoleRestoreWriter (om_namespace (s_meta source)) (om_name (s_meta source)),
                   crs_identity = writerIdentity,
                   crs_labels = alist_put LabelSource (labelValue [om_namespace (s_meta source), om_name (s_meta source)])
                     (runLabelsForRef runRef runKindRestore RoleRestoreWriter),
                   crs_bundle = writerBundle, crs_extraData = credentialExtraData controlCAPEM\<rparr>], n)))))"

definition BuildRestoreJobCredentialSecrets ::
  "crypto \<Rightarrow> gotime \<Rightarrow> restore_job \<Rightarrow> rsync_machine \<Rightarrow> backup_source \<Rightarrow> string \<Rightarrow> int \<Rightarrow> string list \<Rightarrow> (nat, credential_secret list) call" where
  "BuildRestoreJobCredentialSecrets cr now restore target source destinationNamespace ttl controlCAPEM =
     buildRestoreJobCredentialSecrets cr now restore target source destinationNamespace ttl None controlCAPEM"

definition BuildRestoreJobCredentialSecretsWithSigner ::
  "crypto \<Rightarrow> gotime \<Rightarrow> restore_job \<Rightarrow> rsync_machine \<Rightarrow> backup_source \<Rightarrow> string \<Rightarrow> int \<Rightarrow> run_ca option \<Rightarrow> string list
     \<Rightarrow> (nat, credential_secret list) call" where
  "BuildRestoreJobCredentialSecretsWithSigner cr now restore target source destinationNamespace ttl signer controlCAPEM =
     buildRestoreJobCredentialSecrets cr now restore target source destinationNamespace ttl signer controlCAPEM"

section \<open>A secret that exists already\<close>

text \<open>\<open>desired.Labels\<close> is a map: the error names one of the labels that differ.\<close>

fun check_labels :: "label_map \<Rightarrow> label_map \<Rightarrow> unit result" where
  "check_labels existing [] = Inr ()"
| "check_labels existing ((k, v) # desired) =
    (if lookup_text existing k \<noteq> v then Inl (errorf ''label %s=%q is required'' [k, v]) else check_labels existing desired)"

definition secret_bundle :: "k8s_secret \<Rightarrow> tls_bundle" where
  "secret_bundle s = \<lparr>tb_caCertPEM = lookup_text (sec_data s) ''ca.crt'', tb_caKeyPEM = [],
     tb_certPEM = lookup_text (sec_data s) ''tls.crt'', tb_keyPEM = lookup_text (sec_data s) ''tls.key''\<rparr>"

definition validateExistingGeneratedSecret :: "crypto \<Rightarrow> gotime \<Rightarrow> k8s_secret \<Rightarrow> k8s_secret \<Rightarrow> unit result" where
  "validateExistingGeneratedSecret cr now existing desired =
    (case check_labels (om_labels (sec_meta existing)) (om_labels (sec_meta desired)) of
       Inl e \<Rightarrow> Inl e
     | Inr _ \<Rightarrow>
       if sec_type existing \<noteq> ''kubernetes.io/tls'' then Inl (errorf ''type must be %s'' [''kubernetes.io/tls''])
       else (case BundleIdentity cr (secret_bundle desired) of
           Inl e \<Rightarrow> Inl (wrapf ''desired credential identity: %w'' [] e)
         | Inr expectedIdentity \<Rightarrow>
           if lookup_text (sec_data existing) ''ca.crt'' \<noteq> lookup_text (sec_data desired) ''ca.crt''
           then Inl (errorf ''%s does not match the expected CA'' [''ca.crt''])
           else VerifyIdentity cr now (secret_bundle existing) expectedIdentity now))"

section \<open>Facts\<close>

lemma then_do_Inr_elim:
  "then_do r k = (Inr y, w') \<Longrightarrow> (\<And>x w. r = (Inr x, w) \<Longrightarrow> k x w = (Inr y, w') \<Longrightarrow> P) \<Longrightarrow> P"
  by (auto simp: then_do_Inr)

text \<open>The name, place and identity of the secret of each party, and the certificate in it.\<close>

definition minted_by :: "crypto \<Rightarrow> gotime \<Rightarrow> run_ca \<Rightarrow> int \<Rightarrow> credential_secret \<Rightarrow> bool" where
  "minted_by cr now ca ttl c = (\<exists>n n'. Mint cr now (Some ca) (crs_identity c) ttl n = (Inr (crs_bundle c), n'))"

lemma minted_byI:
  "Mint cr now (Some ca) (crs_identity c) ttl n = (Inr (crs_bundle c), n') \<Longrightarrow> minted_by cr now ca ttl c"
  by (auto simp: minted_by_def)

lemma source_credentials_spec:
  "source_credentials cr now ca run ttl pem sources n = (Inr cs, n') \<Longrightarrow>
     list_all2 (\<lambda>source c. crs_namespace c = om_namespace (s_meta source)
       \<and> crs_name c = GeneratedTLSSecretName (RunID run) RoleSourceSender (om_namespace (s_meta source)) (om_name (s_meta source))
       \<and> crs_identity c = SourceIdentity (om_namespace (j_meta run)) (om_name (j_meta run)) (om_namespace (s_meta source)) (om_name (s_meta source))
       \<and> minted_by cr now ca ttl c) sources cs"
proof (induction sources arbitrary: n cs)
  case (Cons s sources)
  then show ?case
    by (auto simp: Let_def minted_by_def elim!: then_do_Inr_elim) blast
qed simp

lemma backup_credentials_spec:
  assumes "buildBackupJobCredentialSecrets cr now run target sources ttl (Some ca) pem n = (Inr cs, n')"
  obtains c rest where "cs = c # rest" "crs_namespace c = om_namespace (m_meta target)"
    "crs_name c = GeneratedTLSSecretName (RunID run) RoleTargetServer (om_namespace (m_meta target)) (om_name (m_meta target))"
    "crs_identity c = TargetIdentity (om_namespace (j_meta run)) (om_name (j_meta run)) (om_namespace (m_meta target)) (om_name (m_meta target))"
    "minted_by cr now ca (if ttl = 0 then DefaultRunCertificateTTL else ttl) c"
    "list_all2 (\<lambda>source c. crs_namespace c = om_namespace (s_meta source)
       \<and> crs_name c = GeneratedTLSSecretName (RunID run) RoleSourceSender (om_namespace (s_meta source)) (om_name (s_meta source))
       \<and> crs_identity c = SourceIdentity (om_namespace (j_meta run)) (om_name (j_meta run)) (om_namespace (s_meta source)) (om_name (s_meta source))
       \<and> minted_by cr now ca (if ttl = 0 then DefaultRunCertificateTTL else ttl) c) sources rest"
proof -
  let ?ttl = "if ttl = 0 then DefaultRunCertificateTTL else ttl"
  let ?ti = "TargetIdentity (om_namespace (j_meta run)) (om_name (j_meta run)) (om_namespace (m_meta target)) (om_name (m_meta target))"
  from assms obtain b m rest m' where parts: "Mint cr now (Some ca) ?ti ?ttl n = (Inr b, m)"
    "source_credentials cr now ca run ?ttl pem sources m = (Inr rest, m')"
    "cs = \<lparr>crs_namespace = om_namespace (m_meta target),
               crs_name = GeneratedTLSSecretName (RunID run) RoleTargetServer (om_namespace (m_meta target)) (om_name (m_meta target)),
               crs_identity = ?ti, crs_labels = runLabels run runKindBackup RoleTargetServer,
               crs_bundle = b, crs_extraData = credentialExtraData pem\<rparr> # rest"
    unfolding buildBackupJobCredentialSecrets_def run_authority_def Let_def
    by (simp only: option.case then_do_simps) (auto elim!: then_do_Inr_elim)
  let ?c = "hd cs"
  have c: "cs = ?c # rest" "crs_identity ?c = ?ti" "crs_bundle ?c = b" "crs_namespace ?c = om_namespace (m_meta target)"
    "crs_name ?c = GeneratedTLSSecretName (RunID run) RoleTargetServer (om_namespace (m_meta target)) (om_name (m_meta target))"
    unfolding parts(3) by simp_all
  have "minted_by cr now ca ?ttl ?c"
    by (rule minted_byI) (simp only: c(2,3), rule parts(1))
  then show thesis
    using c source_credentials_spec [OF parts(2)] by (intro that) blast+
qed

text \<open>The secrets that the pod of a job mounts.\<close>

definition job_secrets :: "k8s_job \<Rightarrow> string list" where
  "job_secrets job = [secret_name (vol_source v). v \<leftarrow> pod_volumes (kj_pod job), is_SecretVolume (vol_source v)]"

lemma serve_job_mounts:
  assumes "BuildServeTargetJobWithControl pq run target runSet img ts co = Inr job"
  shows "om_namespace (kj_meta job) = om_namespace (m_meta target)
    \<and> job_secrets job = [GeneratedTLSSecretName (RunID run) RoleTargetServer (om_namespace (m_meta target)) (om_name (m_meta target))]"
  using assms
  by (auto simp: BuildServeTargetJobWithControl_def Let_def new_job_def new_meta_def job_secrets_def targetPodSpec_def
      plain_pod_def volume_of_def empty_meta_def split: sum.splits if_splits)

lemma send_job_mounts:
  assumes "BuildSendSourceJobWithControl run source target opts img co = Inr job"
  shows "om_namespace (kj_meta job) = om_namespace (s_meta source)
    \<and> job_secrets job = [GeneratedTLSSecretName (RunID run) RoleSourceSender (om_namespace (s_meta source)) (om_name (s_meta source))]"
  using assms
  by (auto simp: BuildSendSourceJobWithControl_def Let_def new_job_def new_meta_def job_secrets_def sourceSenderPodSpec_def
      plain_pod_def volume_of_def empty_meta_def split: sum.splits if_splits)

text \<open>A job finds a credential: the secret it mounts is in its namespace.\<close>

definition mounts :: "k8s_job \<Rightarrow> credential_secret \<Rightarrow> bool" where
  "mounts job c = (crs_namespace c = om_namespace (kj_meta job) \<and> crs_name c \<in> set (job_secrets job))"

text \<open>C14. The jobs of a backup can prove who they are: among the secrets that the run creates, the job
  that serves the target mounts one for the identity the senders expect, and the job of every
  source mounts one for the identity the receiver expects of it; and every certificate verifies
  for its identity exactly from a minute before it was minted until two hours later (or the
  lifetime that was asked for), cut to the lifetime of the authority.\<close>

theorem jobs_mount_their_credentials:
  assumes "crypto_laws cr" "NewCA cr t0 cn ttl0 n0 = (Inr ca, n1)"
    and "BuildBackupJobCredentialSecretsWithSigner cr now run target sources ttl (Some ca) pem n2 = (Inr cs, n3)"
    and "BuildServeTargetJobWithControl pq run target runSet img ts co = Inr server"
    and "list_all2 (\<lambda>source job. BuildSendSourceJobWithControl run source target opts img co = Inr job) sources senders"
    and "\<forall>c\<in>set cs. uri_identity (crs_identity c)"
  shows "(\<exists>c\<in>set cs. mounts server c \<and> crs_identity c =
        TargetIdentity (om_namespace (j_meta run)) (om_name (j_meta run)) (om_namespace (m_meta target)) (om_name (m_meta target)))
    \<and> list_all2 (\<lambda>source job. \<exists>c\<in>set cs. mounts job c \<and> crs_identity c =
        SourceIdentity (om_namespace (j_meta run)) (om_name (j_meta run)) (om_namespace (s_meta source)) (om_name (s_meta source))) sources senders
    \<and> (\<forall>c\<in>set cs. \<forall>t. t \<noteq> zero_time \<longrightarrow> is_ok (VerifyIdentity cr clock (crs_bundle c) (crs_identity c) t) =
        (trunc_second (now - minute_ns) \<le> t \<and> trunc_second (t0 - minute_ns) \<le> t
          \<and> t \<le> trunc_second (min (now + (if ttl = 0 then DefaultRunCertificateTTL else ttl)) (t0 + ttl0))))"
proof -
  let ?ttl = "if ttl = 0 then DefaultRunCertificateTTL else ttl"
  obtain c rest where cs: "cs = c # rest" "crs_namespace c = om_namespace (m_meta target)"
    "crs_name c = GeneratedTLSSecretName (RunID run) RoleTargetServer (om_namespace (m_meta target)) (om_name (m_meta target))"
    "crs_identity c = TargetIdentity (om_namespace (j_meta run)) (om_name (j_meta run)) (om_namespace (m_meta target)) (om_name (m_meta target))"
    "minted_by cr now ca ?ttl c"
    "list_all2 (\<lambda>source c. crs_namespace c = om_namespace (s_meta source)
       \<and> crs_name c = GeneratedTLSSecretName (RunID run) RoleSourceSender (om_namespace (s_meta source)) (om_name (s_meta source))
       \<and> crs_identity c = SourceIdentity (om_namespace (j_meta run)) (om_name (j_meta run)) (om_namespace (s_meta source)) (om_name (s_meta source))
       \<and> minted_by cr now ca ?ttl c) sources rest"
    using assms(3) unfolding BuildBackupJobCredentialSecretsWithSigner_def by (rule backup_credentials_spec)
  have minted: "minted_by cr now ca ?ttl d" if "d \<in> set cs" for d
    using that cs(1,5,6) by (auto simp: list_all2_conv_all_nth in_set_conv_nth)
  have "mounts server c"
    using serve_job_mounts [OF assms(4)] cs(2,3) by (simp add: mounts_def)
  moreover have "list_all2 (\<lambda>source job. \<exists>c\<in>set cs. mounts job c \<and> crs_identity c =
        SourceIdentity (om_namespace (j_meta run)) (om_name (j_meta run)) (om_namespace (s_meta source)) (om_name (s_meta source))) sources senders"
  proof (rule list_all2_all_nthI)
    show len: "length sources = length senders"
      using assms(5) by (rule list_all2_lengthD)
    fix i assume i: "i < length sources"
    have "BuildSendSourceJobWithControl run (sources ! i) target opts img co = Inr (senders ! i)"
      using assms(5) i by (rule list_all2_nthD)
    note send_job_mounts [OF this]
    moreover have "rest ! i \<in> set cs"
      using i list_all2_lengthD [OF cs(6)] cs(1) by simp
    ultimately show "\<exists>c\<in>set cs. mounts (senders ! i) c \<and> crs_identity c = SourceIdentity (om_namespace (j_meta run)) (om_name (j_meta run))
        (om_namespace (s_meta (sources ! i))) (om_name (s_meta (sources ! i)))"
      using list_all2_nthD [OF cs(6) i] by (intro bexI [of _ "rest ! i"]) (simp_all add: mounts_def)
  qed
  moreover have "is_ok (VerifyIdentity cr clock (crs_bundle d) (crs_identity d) t) =
        (trunc_second (now - minute_ns) \<le> t \<and> trunc_second (t0 - minute_ns) \<le> t \<and> t \<le> trunc_second (min (now + ?ttl) (t0 + ttl0)))"
    if d: "d \<in> set cs" and t: "t \<noteq> zero_time" for d t
  proof -
    obtain m m' where "Mint cr now (Some ca) (crs_identity d) ?ttl m = (Inr (crs_bundle d), m')"
      using minted [OF d] unfolding minted_by_def by blast
    note minted_verifies [OF assms(1,2) this _ t]
    then show ?thesis
      using assms(6) d by blast
  qed
  ultimately show ?thesis
    using cs(1,4) by auto
qed

section \<open>A run with one source\<close>

definition demo_run_target :: rsync_machine where
  "demo_run_target = \<lparr>m_meta = empty_meta\<lparr>om_namespace := ''ops'', om_name := ''vault''\<rparr>,
     m_spec = \<lparr>ms_pvcName = ''disk'', ms_image = [], ms_strategy = StrategyUnset, ms_allowedSourceNamespaces = [],
       ms_allowedRestoreNamespaces = [], ms_schedule = [], ms_concurrencyPolicy = ConcurrencyUnset,
       ms_retention = \<lparr>ret_hourly = 0, ret_daily = 0, ret_weekly = 0, ret_monthly = 0\<rparr>,
       ms_runHistory = \<lparr>rh_count = 0, rh_successful = 0, rh_failed = 0\<rparr>, ms_pod = no_pod_settings\<rparr>,
     m_status = \<lparr>mst_restorePointsUpdatedAt = None, mst_restorePointCount = 0, mst_restorePoints = [],
       mst_lastScheduledAt = None, mst_conditions = []\<rparr>\<rparr>"

definition demo_backup :: backup_job where
  "demo_backup = \<lparr>j_meta = empty_meta\<lparr>om_namespace := ''ops'', om_name := ''nightly''\<rparr>,
     j_spec = \<lparr>bs_machineRef = \<lparr>or_namespace = [], or_name = ''vault''\<rparr>, bs_trigger = TriggerUnset\<rparr>,
     j_status = empty_backup_status\<rparr>"

definition demo_run_source :: backup_source where
  "demo_run_source = \<lparr>s_meta = empty_meta\<lparr>om_namespace := ''db'', om_name := ''data''\<rparr>,
     s_spec = \<lparr>ss_machineRef = \<lparr>or_namespace = ''ops'', or_name = ''vault''\<rparr>, ss_pvc = ''data'', ss_sourcePath = [],
       ss_destinationPath = ''data'', ss_consistency = \<lparr>co_capture = CaptureDirect, co_volumeSnapshotClassName = [],
         co_cleanupPolicy = CleanupUnset\<rparr>, ss_rsync = \<lparr>ro_delete = None, ro_oneFileSystem = None\<rparr>, ss_pod = no_pod_settings\<rparr>,
     s_conditions = []\<rparr>"

definition demo_run_set :: target_run_set where
  "demo_run_set = \<lparr>trs_machineRef = (''ops'', ''vault''), trs_machines = [\<lparr>or_namespace = ''ops'', or_name = ''vault''\<rparr>],
     trs_sources = [\<lparr>rsv_ref = (''db'', ''data''), rsv_source = demo_run_source, rsv_effectivePath = ''db/data''\<rparr>],
     trs_retention = ms_retention (m_spec demo_run_target)\<rparr>"

lemma demo_server_job:
  "\<exists>job. BuildServeTargetJobWithControl Inr demo_backup demo_run_target demo_run_set img ts co = Inr job"
  by (auto simp: BuildServeTargetJobWithControl_def Let_def demo_run_target_def empty_meta_def lookup_text_def targetInitContainers_def)

lemma demo_sender_job:
  "\<exists>job. BuildSendSourceJobWithControl demo_backup demo_run_source demo_run_target \<lparr>sjo_targetPath = ''x'', sjo_claimName = []\<rparr> img co = Inr job"
  by (auto simp: BuildSendSourceJobWithControl_def Let_def demo_run_source_def empty_meta_def lookup_text_def source_backoff_limit_def)

abbreviation demo_identities :: "identity list" where
  "demo_identities \<equiv> [TargetIdentity ''ops'' ''nightly'' ''ops'' ''vault'', SourceIdentity ''ops'' ''nightly'' ''db'' ''data'']"

lemma demo_minted:
  assumes "i \<in> set demo_identities"
  shows "uri_identity i \<and> (\<exists>b. Mint demo_crypto minute_ns (Some demo_authority) i (120 * minute_ns) n = (Inr b, n))"
proof -
  have "uri_identity i \<and> (role_text (id_role i) = ''source'' \<or> role_text (id_role i) = ''target'')"
    using assms by (auto simp: uri_identity_def uri_part_def SourceIdentity_def TargetIdentity_def role_text_def)
  then show ?thesis
    using demo_mint by blast
qed

lemma demo_names:
  "om_namespace (j_meta demo_backup) = ''ops''" "om_name (j_meta demo_backup) = ''nightly''"
  "om_namespace (m_meta demo_run_target) = ''ops''" "om_name (m_meta demo_run_target) = ''vault''"
  "om_namespace (s_meta demo_run_source) = ''db''" "om_name (s_meta demo_run_source) = ''data''"
  by (simp_all add: demo_backup_def demo_run_target_def demo_run_source_def)

lemma demo_credentials:
  "\<exists>cs. BuildBackupJobCredentialSecretsWithSigner demo_crypto minute_ns demo_backup demo_run_target [demo_run_source] 0
      (Some demo_authority) [''control''] 0 = (Inr cs, 0) \<and> map crs_identity cs = demo_identities"
proof -
  obtain a where a: "Mint demo_crypto minute_ns (Some demo_authority) (TargetIdentity ''ops'' ''nightly'' ''ops'' ''vault'') (120 * minute_ns) 0 = (Inr a, 0)"
    using demo_minted [of "TargetIdentity ''ops'' ''nightly'' ''ops'' ''vault''" 0] by auto
  obtain b where b: "Mint demo_crypto minute_ns (Some demo_authority) (SourceIdentity ''ops'' ''nightly'' ''db'' ''data'') (120 * minute_ns) 0 = (Inr b, 0)"
    using demo_minted [of "SourceIdentity ''ops'' ''nightly'' ''db'' ''data''" 0] by auto
  show ?thesis
    unfolding BuildBackupJobCredentialSecretsWithSigner_def buildBackupJobCredentialSecrets_def run_authority_def source_credentials.simps
      Let_def demo_names option.case then_do_simps if_True simp_thms a b wrapped_simps
    by simp
qed

theorem jobs_mount_their_credentials_witness:
  "\<exists>cs server sender.
      BuildBackupJobCredentialSecretsWithSigner demo_crypto minute_ns demo_backup demo_run_target [demo_run_source] 0
        (Some demo_authority) [''control''] 0 = (Inr cs, 0)
    \<and> (\<exists>c\<in>set cs. mounts server c \<and> crs_identity c = TargetIdentity ''ops'' ''nightly'' ''ops'' ''vault'')
    \<and> (\<exists>c\<in>set cs. mounts sender c \<and> crs_identity c = SourceIdentity ''ops'' ''nightly'' ''db'' ''data''
        \<and> is_ok (VerifyIdentity demo_crypto 0 (crs_bundle c) (crs_identity c) (30 * minute_ns))
        \<and> \<not> is_ok (VerifyIdentity demo_crypto 0 (crs_bundle c) (crs_identity c) (62 * minute_ns)))"
proof -
  obtain cs where cs: "BuildBackupJobCredentialSecretsWithSigner demo_crypto minute_ns demo_backup demo_run_target [demo_run_source] 0
      (Some demo_authority) [''control''] 0 = (Inr cs, 0)" "map crs_identity cs = demo_identities"
    using demo_credentials by (elim exE conjE) (rule that)
  obtain server where server: "BuildServeTargetJobWithControl Inr demo_backup demo_run_target demo_run_set [] [] no_control = Inr server"
    using demo_server_job [of "[]" "[]" no_control] by (elim exE) (rule that)
  obtain sender where "BuildSendSourceJobWithControl demo_backup demo_run_source demo_run_target \<lparr>sjo_targetPath = ''x'', sjo_claimName = []\<rparr> [] no_control = Inr sender"
    using demo_sender_job [of "[]" no_control] by (elim exE) (rule that)
  then have senders: "list_all2 (\<lambda>source job. BuildSendSourceJobWithControl demo_backup source demo_run_target
      \<lparr>sjo_targetPath = ''x'', sjo_claimName = []\<rparr> [] no_control = Inr job) [demo_run_source] [sender]"
    by simp
  have uris: "\<forall>c\<in>set cs. uri_identity (crs_identity c)"
  proof
    fix c assume "c \<in> set cs"
    then have "crs_identity c \<in> set (map crs_identity cs)"
      by simp
    then show "uri_identity (crs_identity c)"
      unfolding cs(2) by (rule demo_minted [THEN conjunct1])
  qed
  note work = jobs_mount_their_credentials [OF demo_laws demo_ca cs(1) server senders uris, of 0, unfolded demo_names]
  have window: "is_ok (VerifyIdentity demo_crypto 0 (crs_bundle c) (crs_identity c) (30 * minute_ns))
      \<and> \<not> is_ok (VerifyIdentity demo_crypto 0 (crs_bundle c) (crs_identity c) (62 * minute_ns))" if "c \<in> set cs" for c
    using work [THEN conjunct2, THEN conjunct2, rule_format, OF that minute_times(1)]
      work [THEN conjunct2, THEN conjunct2, rule_format, OF that minute_times(2)]
    by (simp add: trunc_second_def ns_per_sec_def)
  obtain c where c: "c \<in> set cs" "mounts server c" "crs_identity c = TargetIdentity ''ops'' ''nightly'' ''ops'' ''vault''"
    using work [THEN conjunct1] by (elim bexE conjE) (rule that)
  obtain d where d: "d \<in> set cs" "mounts sender d" "crs_identity d = SourceIdentity ''ops'' ''nightly'' ''db'' ''data''"
    using work [THEN conjunct2, THEN conjunct1] unfolding list_all2_Cons demo_names by (elim conjE bexE) (rule that)
  have "\<exists>c\<in>set cs. mounts server c \<and> crs_identity c = TargetIdentity ''ops'' ''nightly'' ''ops'' ''vault''"
    by (rule bexI [OF _ c(1)]) (intro conjI c)
  moreover have "\<exists>c\<in>set cs. mounts sender c \<and> crs_identity c = SourceIdentity ''ops'' ''nightly'' ''db'' ''data''
        \<and> is_ok (VerifyIdentity demo_crypto 0 (crs_bundle c) (crs_identity c) (30 * minute_ns))
        \<and> \<not> is_ok (VerifyIdentity demo_crypto 0 (crs_bundle c) (crs_identity c) (62 * minute_ns))"
    by (rule bexI [OF _ d(1)]) (intro conjI d window [OF d(1), THEN conjunct1] window [OF d(1), THEN conjunct2])
  ultimately show ?thesis
    by (intro exI conjI) (rule cs(1))
qed

end
