(* ===== verification/Reconcile_Base.thy ===== *)
theory Reconcile_Base
  imports Cluster Credentials
begin

text \<open>
  What the reconcilers of controller/reconcilers.go share: their configuration, the
  events and metrics they record, the conditions they set, the predicates on
  generated jobs, and the bookkeeping of transfers.

  A handler reads the clock once, as \<open>now\<close>. An error of the API server leaves the
  object that was sent as it was; a successful update returns what the server stored.
\<close>

section \<open>Configuration\<close>

record scheme =
  ObjectKinds :: "string \<Rightarrow> (string \<times> string) list result"
  SetControllerReference :: "string \<Rightarrow> object_meta \<Rightarrow> object_meta \<Rightarrow> object_meta result"

record 's reconciler =
  rr_client :: "'s kube_client"
  rr_scheme :: "scheme option"
  rr_image :: string
  rr_grpcNamespace :: string
  rr_grpcEndpoint :: string
  rr_hasControl :: bool
  rr_capabilities :: "('s \<Rightarrow> bool \<times> 's) option"
  rr_controlCA :: string
  rr_signer :: "run_ca option"
  rr_hasRecorder :: bool
  rr_crypto :: crypto
  rr_machinery :: apimachinery
  rr_validation :: k8s_validation
  rr_quantityValue :: "string \<Rightarrow> int"

definition dataPlaneControlOptions :: "'s reconciler \<Rightarrow> control_options" where
  "dataPlaneControlOptions r =
    (let namespace = (if rr_grpcNamespace r = [] then ControlGRPCNamespace else rr_grpcNamespace r);
         endpoint = (if rr_grpcEndpoint r = [] then dco_grpcEndpoint (DefaultDataPlaneControlOptions namespace)
                     else rr_grpcEndpoint r)
     in \<lparr>dco_grpcEndpoint = endpoint, dco_grpcNamespace = namespace\<rparr>)"

text \<open>\<open>ctrl.Result\<close>: the program never sets \<open>Requeue\<close>; \<open>None\<close> stands for no delay.\<close>

type_synonym requeue = "int option"

abbreviation done_result :: "requeue result" where "done_result \<equiv> Inr None"
abbreviation seconds :: "int \<Rightarrow> int" where "seconds n \<equiv> n * ns_per_sec"
abbreviation snapshotReadyRequeueAfter :: int where "snapshotReadyRequeueAfter \<equiv> seconds 15"
abbreviation snapshotReadyTimeout :: int where "snapshotReadyTimeout \<equiv> seconds 600"
abbreviation temporaryPVCBindRequeueAfter :: int where "temporaryPVCBindRequeueAfter \<equiv> seconds 15"
abbreviation temporaryPVCBindingTimeout :: int where "temporaryPVCBindingTimeout \<equiv> seconds 300"
abbreviation ownedResourceReconcileAfter :: int where "ownedResourceReconcileAfter \<equiv> seconds 600"
abbreviation BackupJobFinalizer :: string where "BackupJobFinalizer \<equiv> ''backupjob.krm.chirino.github.io/finalizer''"
abbreviation RestoreJobFinalizer :: string where "RestoreJobFinalizer \<equiv> ''restorejob.krm.chirino.github.io/finalizer''"
abbreviation RsyncMachineFinalizer :: string where "RsyncMachineFinalizer \<equiv> ''rsyncmachine.krm.chirino.github.io/finalizer''"

definition snapshot_available :: "'s reconciler \<Rightarrow> 's world \<Rightarrow> bool \<times> 's world" where
  "snapshot_available r w = (case rr_capabilities r of
      None \<Rightarrow> (False, w)
    | Some call \<Rightarrow> (case call (w_api w) of (b, s) \<Rightarrow> (b, w\<lparr>w_api := s\<rparr>)))"

section \<open>Events and metrics\<close>

definition namespacedKey :: "string \<Rightarrow> string \<Rightarrow> string" where
  "namespacedKey namespace name = nsname_string (namespace, name)"

definition recordRunEvent :: "'s reconciler \<Rightarrow> nsname \<Rightarrow> string \<Rightarrow> string \<Rightarrow> string \<Rightarrow> string list \<Rightarrow> 's world \<Rightarrow> 's world" where
  "recordRunEvent r object eventType reason messageFmt args w =
    (if \<not> rr_hasRecorder r then w
     else w\<lparr>w_events := w_events w @ [\<lparr>rc_object = object, rc_type = eventType, rc_reason = reason,
             rc_message = render messageFmt args []\<rparr>]\<rparr>)"

definition record_phase :: "string \<Rightarrow> nsname \<Rightarrow> run_phase \<Rightarrow> run_phase \<Rightarrow> 's world \<Rightarrow> 's world" where
  "record_phase kind object oldPhase newPhase w =
     w\<lparr>w_metrics := RecordRunPhase kind (namespacedKey (fst object) (snd object)) oldPhase newPhase (w_metrics w)\<rparr>"

lemma recorded_api [simp]:
  "w_api (recordRunEvent r ob t re f args w) = w_api w" "w_control (recordRunEvent r ob t re f args w) = w_control w"
  "w_metrics (recordRunEvent r ob t re f args w) = w_metrics w"
  "w_api (record_phase k ob p q w) = w_api w" "w_control (record_phase k ob p q w) = w_control w"
  "w_events (record_phase k ob p q w) = w_events w"
  by (simp_all add: recordRunEvent_def record_phase_def)

section \<open>Predicates\<close>

definition isTerminalPhase :: "run_phase \<Rightarrow> bool" where
  "isTerminalPhase phase = (phase = RunSucceeded \<or> phase = RunFailed \<or> phase = RunCanceled)"

definition job_condition_true :: "string \<Rightarrow> k8s_job \<Rightarrow> bool" where
  "job_condition_true ty job = list_ex (\<lambda>c. jc_type c = ty \<and> jc_status c = CondTrue) (kj_conditions job)"

definition jobComplete :: "k8s_job \<Rightarrow> bool" where
  "jobComplete job = job_condition_true ''Complete'' job"

definition jobFailed :: "k8s_job \<Rightarrow> bool" where
  "jobFailed job = job_condition_true ''Failed'' job"

text \<open>The program never suspends a job; \<open>suspended\<close> is \<open>Spec.Suspend\<close>.\<close>

definition generatedJobStatus :: "bool option \<Rightarrow> k8s_job \<Rightarrow> metric_job_status" where
  "generatedJobStatus suspended job =
    (if jobComplete job then JobStatusComplete else if jobFailed job then JobStatusFailed
     else if suspended = Some True then JobStatusSuspended else JobStatusActive)"

definition resourceTimedOut :: "object_meta \<Rightarrow> int \<Rightarrow> gotime \<Rightarrow> bool" where
  "resourceTimedOut obj timeout now =
    (if timeout \<le> 0 then False
     else if om_creation obj = zero_time then False
     else now - om_creation obj \<ge> timeout)"

lemma job_condition_true_iff [simp]:
  "job_condition_true ty job \<longleftrightarrow> (\<exists>c\<in>set (kj_conditions job). jc_type c = ty \<and> jc_status c = CondTrue)"
  by (simp add: job_condition_true_def list_ex_iff)

section \<open>Updates of the status\<close>

text \<open>\<open>if err := r.Status().Update(ctx, obj); err != nil && !apierrors.IsNotFound(err)\<close>: an object
  that is gone keeps the local value.\<close>

definition update_status :: "('s, 'o) kind_api \<Rightarrow> string \<Rightarrow> string list \<Rightarrow> 'o \<Rightarrow> ('s world, 'o) call" where
  "update_status api f args obj w = (case on_api (api_update_status api obj) w of
      (Inr stored, w) \<Rightarrow> (Inr stored, w)
    | (Inl e, w) \<Rightarrow> (if errors_is ApiNotFound e then Inr obj else Inl (wrapf f args e), w))"

lemma update_status_only [only_api_calls]: "only_api w (snd (update_status api f args obj w))"
proof -
  have "only_api w (snd (on_api (api_update_status api obj) w))"
    by (rule on_api_only)
  then show ?thesis
    by (cases "on_api (api_update_status api obj) w"; cases "fst (on_api (api_update_status api obj) w)")
      (auto simp: update_status_def)
qed

type_synonym condition_entry = "string \<times> cond_status \<times> string \<times> string"

definition set_condition :: "gotime \<Rightarrow> condition_entry \<Rightarrow> bool \<times> backup_job \<Rightarrow> bool \<times> backup_job" where
  "set_condition now c r = (case c of (ty, status, reason, message) \<Rightarrow> with_condition now ty status reason message r)"

definition set_conditions :: "gotime \<Rightarrow> condition_entry list \<Rightarrow> backup_job \<Rightarrow> backup_job" where
  "set_conditions now cs run = snd (fold (set_condition now) cs (False, run))"

definition phase_of :: "backup_job \<Rightarrow> run_phase" where
  "phase_of run = bj_phase (j_status run)"

definition with_phase :: "run_phase \<Rightarrow> backup_job \<Rightarrow> backup_job" where
  "with_phase p run = run\<lparr>j_status := (j_status run)\<lparr>bj_phase := p\<rparr>\<rparr>"

definition completed_at :: "gotime option \<Rightarrow> backup_job \<Rightarrow> backup_job" where
  "completed_at t run = run\<lparr>j_status := (j_status run)\<lparr>bj_completedAt := t\<rparr>\<rparr>"

definition only_conditions :: "gotime \<Rightarrow> condition_entry list \<Rightarrow> backup_job \<Rightarrow> backup_job" where
  "only_conditions now cs run = set_conditions now cs (run\<lparr>j_status := (j_status run)\<lparr>bj_conditions := []\<rparr>\<rparr>)"

lemma set_condition_frame [simp]:
  "j_meta (snd (set_condition now c (b, run))) = j_meta run" "j_spec (snd (set_condition now c (b, run))) = j_spec run"
  "bj_phase (j_status (snd (set_condition now c (b, run)))) = bj_phase (j_status run)"
  "bj_completedAt (j_status (snd (set_condition now c (b, run)))) = bj_completedAt (j_status run)"
  "bj_lastCommand (j_status (snd (set_condition now c (b, run)))) = bj_lastCommand (j_status run)"
  "bj_transfers (j_status (snd (set_condition now c (b, run)))) = bj_transfers (j_status run)"
  "bj_mergedInto (j_status (snd (set_condition now c (b, run)))) = bj_mergedInto (j_status run)"
  "bj_snapshotPath (j_status (snd (set_condition now c (b, run)))) = bj_snapshotPath (j_status run)"
  by (auto simp: set_condition_def with_condition_def with_status_def split: prod.splits)

lemma fold_condition_frame:
  "j_meta (snd (fold (set_condition now) cs r)) = j_meta (snd r) \<and> j_spec (snd (fold (set_condition now) cs r)) = j_spec (snd r)
   \<and> bj_phase (j_status (snd (fold (set_condition now) cs r))) = bj_phase (j_status (snd r))
   \<and> bj_completedAt (j_status (snd (fold (set_condition now) cs r))) = bj_completedAt (j_status (snd r))
   \<and> bj_lastCommand (j_status (snd (fold (set_condition now) cs r))) = bj_lastCommand (j_status (snd r))
   \<and> bj_transfers (j_status (snd (fold (set_condition now) cs r))) = bj_transfers (j_status (snd r))
   \<and> bj_mergedInto (j_status (snd (fold (set_condition now) cs r))) = bj_mergedInto (j_status (snd r))
   \<and> bj_snapshotPath (j_status (snd (fold (set_condition now) cs r))) = bj_snapshotPath (j_status (snd r))"
proof (induction cs arbitrary: r)
  case (Cons c cs)
  show ?case
    using Cons.IH [of "set_condition now c r"] by (cases r) simp
qed simp

lemma set_conditions_frame [simp]:
  "j_meta (set_conditions now cs run) = j_meta run" "j_spec (set_conditions now cs run) = j_spec run"
  "bj_phase (j_status (set_conditions now cs run)) = bj_phase (j_status run)"
  "bj_completedAt (j_status (set_conditions now cs run)) = bj_completedAt (j_status run)"
  "bj_lastCommand (j_status (set_conditions now cs run)) = bj_lastCommand (j_status run)"
  "bj_transfers (j_status (set_conditions now cs run)) = bj_transfers (j_status run)"
  "bj_mergedInto (j_status (set_conditions now cs run)) = bj_mergedInto (j_status run)"
  "bj_snapshotPath (j_status (set_conditions now cs run)) = bj_snapshotPath (j_status run)"
  using fold_condition_frame [of now cs "(False, run)"] by (simp_all add: set_conditions_def)

lemma only_conditions_frame [simp]:
  "j_meta (only_conditions now cs run) = j_meta run" "j_spec (only_conditions now cs run) = j_spec run"
  "bj_phase (j_status (only_conditions now cs run)) = bj_phase (j_status run)"
  "bj_completedAt (j_status (only_conditions now cs run)) = bj_completedAt (j_status run)"
  "bj_mergedInto (j_status (only_conditions now cs run)) = bj_mergedInto (j_status run)"
  "bj_transfers (j_status (only_conditions now cs run)) = bj_transfers (j_status run)"
  by (simp_all add: only_conditions_def)

lemma run_update_frame [simp]:
  "j_meta (with_phase p run) = j_meta run" "j_spec (with_phase p run) = j_spec run"
  "j_meta (completed_at t run) = j_meta run" "j_spec (completed_at t run) = j_spec run"
  "bj_phase (j_status (with_phase p run)) = p" "bj_phase (j_status (completed_at t run)) = bj_phase (j_status run)"
  "bj_completedAt (j_status (with_phase p run)) = bj_completedAt (j_status run)" "bj_completedAt (j_status (completed_at t run)) = t"
  by (simp_all add: with_phase_def completed_at_def)

section \<open>Transfers\<close>

definition backupJobBytesTransferred :: "transfer_status list \<Rightarrow> 64 word" where
  "backupJobBytesTransferred transfers =
     fold (\<lambda>t total. if ts_phase t = TransferSucceeded \<and> sint (ts_bytesTransferred t) > 0
       then total + ts_bytesTransferred t else total) transfers 0"

definition transferPhaseTerminal :: "transfer_phase \<Rightarrow> bool" where
  "transferPhaseTerminal phase = (phase = TransferSucceeded \<or> phase = TransferFailed)"

definition merge_assignments :: "transfer_status \<Rightarrow> transfer_status guarded list" where
  "merge_assignments update =
    [(\<lambda>t. ts_phase update \<noteq> TransferUnset \<and> ts_phase t \<noteq> ts_phase update
        \<and> (ts_phase update = TransferFailed \<or> \<not> transferPhaseTerminal (ts_phase t)), \<lambda>t. t\<lparr>ts_phase := ts_phase update\<rparr>),
     (\<lambda>t. ts_message update \<noteq> [] \<and> ts_message t \<noteq> ts_message update, \<lambda>t. t\<lparr>ts_message := ts_message update\<rparr>),
     (\<lambda>t. ts_exitCode update \<noteq> 0 \<and> ts_exitCode t \<noteq> ts_exitCode update, \<lambda>t. t\<lparr>ts_exitCode := ts_exitCode update\<rparr>),
     (\<lambda>t. ts_captureMethod update \<noteq> CaptureUnset \<and> ts_captureMethod t \<noteq> ts_captureMethod update,
        \<lambda>t. t\<lparr>ts_captureMethod := ts_captureMethod update\<rparr>),
     (\<lambda>t. ts_volumeSnapshotName update \<noteq> [] \<and> ts_volumeSnapshotName t \<noteq> ts_volumeSnapshotName update,
        \<lambda>t. t\<lparr>ts_volumeSnapshotName := ts_volumeSnapshotName update\<rparr>),
     (\<lambda>t. ts_captureTime update \<noteq> None \<and> ts_captureTime t \<noteq> ts_captureTime update,
        \<lambda>t. t\<lparr>ts_captureTime := ts_captureTime update\<rparr>)]"

definition mergeBackupJobTransferStatus :: "transfer_status \<Rightarrow> transfer_status \<Rightarrow> bool \<times> transfer_status" where
  "mergeBackupJobTransferStatus existing update = assign (merge_assignments update) (False, existing)"

definition setTransferStatusConditions :: "gotime \<Rightarrow> transfer_status \<Rightarrow> bool \<times> backup_job \<Rightarrow> bool \<times> backup_job" where
  "setTransferStatusConditions now status r =
    (let message = (if ts_message status = [] then ''Source transfer '' @ transfer_text (ts_phase status) else ts_message status);
         captured = (ts_captureMethod status = CaptureVolumeSnapshot) in
     case ts_phase status of
       TransferPreparing \<Rightarrow>
         with_condition now ConditionTransport CondUnknown ''TransportRunning'' message
           (if captured then with_condition now ConditionSnapshotCapture CondUnknown ''SnapshotPreparing'' message r else r)
     | TransferSucceeded \<Rightarrow>
         (let r = with_condition now ConditionTransport CondTrue ''TransportComplete'' message r in
          if captured then with_condition now ConditionSnapshotCapture CondTrue ''SnapshotReady'' ''VolumeSnapshot capture is ready'' r else r)
     | TransferFailed \<Rightarrow>
         with_condition now ConditionFailed CondTrue ''RunFailed'' message
           (with_condition now (if captured then ConditionSnapshotCapture else ConditionTransport) CondFalse
             (if captured then ''SnapshotFailed'' else ''TransportFailed'') message r)
     | TransferSkipped \<Rightarrow> with_condition now ConditionSnapshotCapture CondFalse ''SnapshotSkipped'' message r
     | _ \<Rightarrow> r)"

fun merge_first :: "string \<Rightarrow> transfer_status \<Rightarrow> transfer_status list \<Rightarrow> (bool \<times> transfer_status list) option" where
  "merge_first sourceID status [] = None"
| "merge_first sourceID status (t # ts) =
    (if ts_source t = sourceID then (case mergeBackupJobTransferStatus t status of (c, t') \<Rightarrow> Some (c, t' # ts))
     else map_option (\<lambda>(c, ts'). (c, t # ts')) (merge_first sourceID status ts))"

definition source_id :: "backup_source \<Rightarrow> string" where
  "source_id source = om_namespace (s_meta source) @ ''/'' @ om_name (s_meta source)"

definition upsertBackupJobTransfer :: "gotime \<Rightarrow> backup_source \<Rightarrow> transfer_status \<Rightarrow> backup_job \<Rightarrow> bool \<times> backup_job" where
  "upsertBackupJobTransfer now source status run =
    (let status = status\<lparr>ts_source := source_id source\<rparr>;
         put = (\<lambda>ts. run\<lparr>j_status := (j_status run)\<lparr>bj_transfers := ts\<rparr>\<rparr>) in
     case merge_first (source_id source) status (bj_transfers (j_status run)) of
       Some (changed, ts) \<Rightarrow> setTransferStatusConditions now status (changed, put ts)
     | None \<Rightarrow> (True, snd (setTransferStatusConditions now status (False, put (bj_transfers (j_status run) @ [status])))))"

end
