(* ===== verification/Owned_Objects.thy ===== *)
theory Owned_Objects
  imports Reconcile_Base
begin

text \<open>
  The objects a run owns: owner references, creation of what is missing, and the
  removal of what a run has left behind (controller/reconcilers.go).
\<close>

section \<open>Owner references\<close>

text \<open>
  The function writes into the array it was given. The first component of the result
  is what the caller's slice holds afterwards, the second the slice that is returned.
\<close>

definition same_owner :: "owner_ref \<Rightarrow> owner_ref \<Rightarrow> bool" where
  "same_owner a b = (ow_apiVersion a = ow_apiVersion b \<and> ow_kind a = ow_kind b \<and> ow_name a = ow_name b)"

fun replace_owner :: "owner_ref list \<Rightarrow> owner_ref \<Rightarrow> owner_ref list option" where
  "replace_owner [] owner = None"
| "replace_owner (x # xs) owner =
    (if same_owner x owner then Some (owner # xs) else map_option (\<lambda>ys. x # ys) (replace_owner xs owner))"

definition appendOwnerReference :: "owner_ref list \<Rightarrow> owner_ref \<Rightarrow> owner_ref list \<times> owner_ref list" where
  "appendOwnerReference owners owner =
    (case replace_owner owners owner of
       Some written \<Rightarrow> (written, written)
     | None \<Rightarrow> (owners, owners @ [owner]))"

definition ownerReferenceFor :: "scheme \<Rightarrow> string \<Rightarrow> object_meta \<Rightarrow> owner_ref result" where
  "ownerReferenceFor sc type owner =
    (case ObjectKinds sc type of
       Inl e \<Rightarrow> Inl e
     | Inr [] \<Rightarrow> Inl (errorf ''no registered kind for %T'' [type])
     | Inr ((apiVersion, kind) # _) \<Rightarrow>
         Inr \<lparr>ow_apiVersion = apiVersion, ow_kind = kind, ow_name = om_name owner, ow_uid = om_uid owner, ow_controller = False\<rparr>)"

definition setOwnerReferenceIfSameNamespace ::
  "scheme option \<Rightarrow> string \<Rightarrow> object_meta \<Rightarrow> 'o object_kind \<Rightarrow> 'o \<Rightarrow> 'o result" where
  "setOwnerReferenceIfSameNamespace sc type owner k obj =
    (case sc of
       None \<Rightarrow> Inr obj
     | Some sc \<Rightarrow>
       if om_namespace owner \<noteq> om_namespace (ok_meta k obj) then Inr obj
       else case ownerReferenceFor sc type owner of
           Inl e \<Rightarrow> Inl e
         | Inr ref \<Rightarrow> Inr (ok_with_meta k ((ok_meta k obj)
             \<lparr>om_owners := snd (appendOwnerReference (om_owners (ok_meta k obj)) ref)\<rparr>) obj))"

definition setControllerReferenceIfSameNamespace ::
  "scheme option \<Rightarrow> string \<Rightarrow> object_meta \<Rightarrow> 'o object_kind \<Rightarrow> 'o \<Rightarrow> 'o result" where
  "setControllerReferenceIfSameNamespace sc type owner k obj =
    (case sc of
       None \<Rightarrow> Inr obj
     | Some sc \<Rightarrow>
       if om_namespace owner \<noteq> om_namespace (ok_meta k obj) then Inr obj
       else case SetControllerReference sc type owner (ok_meta k obj) of
           Inl e \<Rightarrow> Inl e | Inr m \<Rightarrow> Inr (ok_with_meta k m obj))"

fun adopt_owners :: "owner_ref list \<Rightarrow> bool \<Rightarrow> owner_ref list \<Rightarrow> owner_ref list \<times> bool" where
  "adopt_owners owners changed [] = (owners, changed)"
| "adopt_owners owners changed (owner # rest) =
    (case appendOwnerReference owners owner of
       (owners', next) \<Rightarrow> adopt_owners next (changed \<or> length next \<noteq> length owners' \<or> next \<noteq> owners') rest)"

definition reconcileExistingOwnerReferences ::
  "'o object_kind \<Rightarrow> ('s, 'o) kind_api \<Rightarrow> 'o \<Rightarrow> 'o \<Rightarrow> ('s world, unit) call" where
  "reconcileExistingOwnerReferences k api existing desired w =
    (if om_owners (ok_meta k desired) = [] then (Inr (), w)
     else case adopt_owners (om_owners (ok_meta k existing)) False (om_owners (ok_meta k desired)) of
         (owners, changed) \<Rightarrow>
           if \<not> changed then (Inr (), w)
           else then_do (on_api (api_update api (ok_with_meta k ((ok_meta k existing)\<lparr>om_owners := owners\<rparr>) existing)) w)
             (\<lambda>_ w. (Inr (), w)))"

section \<open>Creation of what is missing\<close>

definition key_args :: "'o object_kind \<Rightarrow> 'o \<Rightarrow> string list" where
  "key_args k obj = [fst (object_key k obj), snd (object_key k obj)]"

definition ignore_result :: "'a result \<times> 'w \<Rightarrow> unit result \<times> 'w" where
  "ignore_result r = then_do r (\<lambda>_ w. (Inr (), w))"

definition createJobIfMissing :: "('s, k8s_job) kind_api \<Rightarrow> k8s_job \<Rightarrow> ('s world, unit) call" where
  "createJobIfMissing api job w =
    (case on_api (api_get api (object_key job_kind job)) w of
       (Inl e, w) \<Rightarrow>
         if \<not> errors_is ApiNotFound e then (Inl (wrapf ''get job %s/%s: %w'' (key_args job_kind job) e), w)
         else ignore_result (wrapped ''create job %s/%s: %w'' (key_args job_kind job) (on_api (api_create api job) w))
     | (Inr existing, w) \<Rightarrow>
         wrapped ''update job %s/%s owner references: %w'' (key_args job_kind job)
           (reconcileExistingOwnerReferences job_kind api existing job w))"

definition createSecretIfMissing :: "crypto \<Rightarrow> gotime \<Rightarrow> ('s, k8s_secret) kind_api \<Rightarrow> k8s_secret \<Rightarrow> ('s world, unit) call" where
  "createSecretIfMissing cr now api secret w =
    (case on_api (api_get api (object_key secret_kind secret)) w of
       (Inl e, w) \<Rightarrow>
         if \<not> errors_is ApiNotFound e then (Inl (wrapf ''get secret %s/%s: %w'' (key_args secret_kind secret) e), w)
         else ignore_result (wrapped ''create secret %s/%s: %w'' (key_args secret_kind secret) (on_api (api_create api secret) w))
     | (Inr existing, w) \<Rightarrow>
         (case validateExistingGeneratedSecret cr now existing secret of
            Inl e \<Rightarrow> (Inl (wrapf ''existing secret %s/%s cannot be reused: %w'' (key_args secret_kind secret) e), w)
          | Inr _ \<Rightarrow>
              wrapped ''update secret %s/%s owner references: %w'' (key_args secret_kind secret)
                (reconcileExistingOwnerReferences secret_kind api existing secret w)))"

text \<open>Services, claims and snapshots pass the error of the API server on as it is.\<close>

definition create_plain ::
  "'o object_kind \<Rightarrow> string \<Rightarrow> ('s, 'o) kind_api \<Rightarrow> 'o \<Rightarrow> ('s world, unit) call" where
  "create_plain k what api obj w =
    (case on_api (api_get api (object_key k obj)) w of
       (Inl e, w) \<Rightarrow> if errors_is ApiNotFound e then ignore_result (on_api (api_create api obj) w) else (Inl e, w)
     | (Inr existing, w) \<Rightarrow>
         wrapped (''update '' @ what @ '' %s/%s owner references: %w'') (key_args k obj)
           (reconcileExistingOwnerReferences k api existing obj w))"

definition createServiceIfMissing :: "('s, k8s_service) kind_api \<Rightarrow> k8s_service \<Rightarrow> ('s world, unit) call" where
  "createServiceIfMissing = create_plain service_kind ''service''"

definition createPersistentVolumeClaimIfMissing :: "('s, volume_claim) kind_api \<Rightarrow> volume_claim \<Rightarrow> ('s world, unit) call" where
  "createPersistentVolumeClaimIfMissing = create_plain claim_kind ''persistent volume claim''"

definition createVolumeSnapshotIfMissing :: "('s, unstructured) kind_api \<Rightarrow> unstructured \<Rightarrow> ('s world, unit) call" where
  "createVolumeSnapshotIfMissing = create_plain snapshot_kind ''volume snapshot''"

definition getVolumeSnapshot :: "('s, unstructured) kind_api \<Rightarrow> string \<Rightarrow> string \<Rightarrow> ('s world, unstructured) call" where
  "getVolumeSnapshot api namespace name = on_api (api_get api (namespace, name))"

text \<open>The wrappers for a run that controls what it creates.\<close>

definition owned_by_run ::
  "'s reconciler \<Rightarrow> string \<Rightarrow> object_meta \<Rightarrow> string \<Rightarrow> 'o object_kind \<Rightarrow> ('o \<Rightarrow> ('s world, unit) call) \<Rightarrow> 'o \<Rightarrow> ('s world, unit) call" where
  "owned_by_run r type owner what k create obj w =
    (case setControllerReferenceIfSameNamespace (rr_scheme r) type owner k obj of
       Inl e \<Rightarrow> (Inl (wrapf (''set '' @ what @ '' %s/%s: %w'') (key_args k obj) e), w)
     | Inr obj \<Rightarrow> create obj w)"

definition createBackupJobJobIfMissing :: "'s reconciler \<Rightarrow> backup_job \<Rightarrow> k8s_job \<Rightarrow> ('s world, unit) call" where
  "createBackupJobJobIfMissing r run =
     owned_by_run r ''BackupJob'' (j_meta run) ''backup job owner reference on job'' job_kind (createJobIfMissing (kc_jobs (rr_client r)))"

definition createSourceJobIfMissing :: "'s reconciler \<Rightarrow> backup_job \<Rightarrow> backup_source \<Rightarrow> k8s_job \<Rightarrow> ('s world, unit) call" where
  "createSourceJobIfMissing r run source =
     owned_by_run r ''BackupJob'' (j_meta run) ''backup job owner reference on job'' job_kind (\<lambda>job w.
       (case setOwnerReferenceIfSameNamespace (rr_scheme r) ''BackupSource'' (s_meta source) job_kind job of
          Inl e \<Rightarrow> (Inl (wrapf ''set backup source owner reference on job %s/%s: %w'' (key_args job_kind job) e), w)
        | Inr job \<Rightarrow> createJobIfMissing (kc_jobs (rr_client r)) job w))"

definition createBackupJobSecretIfMissing :: "'s reconciler \<Rightarrow> gotime \<Rightarrow> backup_job \<Rightarrow> k8s_secret \<Rightarrow> ('s world, unit) call" where
  "createBackupJobSecretIfMissing r now run =
     owned_by_run r ''BackupJob'' (j_meta run) ''backup job owner reference on secret'' secret_kind
       (createSecretIfMissing (rr_crypto r) now (kc_secrets (rr_client r)))"

definition createBackupJobServiceIfMissing :: "'s reconciler \<Rightarrow> backup_job \<Rightarrow> k8s_service \<Rightarrow> ('s world, unit) call" where
  "createBackupJobServiceIfMissing r run =
     owned_by_run r ''BackupJob'' (j_meta run) ''backup job owner reference on service'' service_kind
       (createServiceIfMissing (kc_services (rr_client r)))"

section \<open>Removal\<close>

definition delete_object :: "('s, 'o) kind_api \<Rightarrow> string \<Rightarrow> 'o \<Rightarrow> ('s world, unit) call" where
  "delete_object api policy obj w = IgnoreNotFound (on_api (api_delete api policy obj) w)"

definition delete_listed :: "('s, 'o) kind_api \<Rightarrow> string \<Rightarrow> label_map \<Rightarrow> ('s world, unit) call" where
  "delete_listed api policy labels w =
     then_do (on_api (api_list api (MatchingLabels labels)) w) (\<lambda>objects. each_call (delete_object api policy) objects)"

definition deleteLabeledRunJobs :: "'s kube_client \<Rightarrow> label_map \<Rightarrow> ('s world, unit) call" where
  "deleteLabeledRunJobs c = delete_listed (kc_jobs c) ''Background''"

definition deleteLabeledRunPersistentVolumeClaims :: "'s kube_client \<Rightarrow> label_map \<Rightarrow> ('s world, unit) call" where
  "deleteLabeledRunPersistentVolumeClaims c = delete_listed (kc_claims c) []"

definition deleteLabeledRunSecrets :: "'s kube_client \<Rightarrow> label_map \<Rightarrow> ('s world, unit) call" where
  "deleteLabeledRunSecrets c = delete_listed (kc_secrets c) []"

definition deleteLabeledRunServices :: "'s kube_client \<Rightarrow> label_map \<Rightarrow> ('s world, unit) call" where
  "deleteLabeledRunServices c = delete_listed (kc_services c) []"

definition deleteLabeledRunVolumeSnapshots :: "'s kube_client \<Rightarrow> label_map \<Rightarrow> ('s world, unit) call" where
  "deleteLabeledRunVolumeSnapshots c = delete_listed (kc_snapshots c) []"

definition run_selector :: "object_meta \<Rightarrow> string \<Rightarrow> label_map" where
  "run_selector run runKind = [(LabelRunNamespace, om_namespace run), (LabelRunKind, runKind), (LabelRun, om_name run)]"

definition cleanupRunResources :: "'s kube_client \<Rightarrow> object_meta \<Rightarrow> string \<Rightarrow> bool \<Rightarrow> ('s world, unit) call" where
  "cleanupRunResources c run runKind snapshotAvailable w =
    (let labels = run_selector run runKind in
     then_do (wrapped ''cleanup %s run jobs: %w'' [runKind] (deleteLabeledRunJobs c labels w)) (\<lambda>_ w.
     then_do (wrapped ''cleanup %s run persistent volume claims: %w'' [runKind] (deleteLabeledRunPersistentVolumeClaims c labels w)) (\<lambda>_ w.
     then_do (wrapped ''cleanup %s run secrets: %w'' [runKind] (deleteLabeledRunSecrets c labels w)) (\<lambda>_ w.
     then_do (wrapped ''cleanup %s run services: %w'' [runKind] (deleteLabeledRunServices c labels w)) (\<lambda>_ w.
       if snapshotAvailable
       then wrapped ''cleanup %s run volume snapshots: %w'' [runKind] (deleteLabeledRunVolumeSnapshots c labels w)
       else (Inr (), w))))))"

definition cleanupBackupJobSnapshotResources :: "'s kube_client \<Rightarrow> object_meta \<Rightarrow> bool \<Rightarrow> ('s world, unit) call" where
  "cleanupBackupJobSnapshotResources c run snapshotAvailable w =
    (let labels = run_selector run runKindBackup in
     then_do (wrapped ''cleanup backup job snapshot persistent volume claims: %w'' [] (deleteLabeledRunPersistentVolumeClaims c labels w)) (\<lambda>_ w.
       if snapshotAvailable
       then wrapped ''cleanup backup job volume snapshots: %w'' [] (deleteLabeledRunVolumeSnapshots c labels w)
       else (Inr (), w)))"

definition cleanupBackupJobTargetServices :: "'s kube_client \<Rightarrow> object_meta \<Rightarrow> ('s world, unit) call" where
  "cleanupBackupJobTargetServices c run w =
     wrapped ''cleanup backup job target services: %w'' []
       (deleteLabeledRunServices c (run_selector run runKindBackup @ [(LabelRole, RoleTargetServer)]) w)"

definition cleanupRunCredentialSecrets :: "'s kube_client \<Rightarrow> object_meta \<Rightarrow> string \<Rightarrow> ('s world, unit) call" where
  "cleanupRunCredentialSecrets c run runKind = deleteLabeledRunSecrets c (run_selector run runKind)"

definition without_finalizer :: "string \<Rightarrow> object_meta \<Rightarrow> object_meta" where
  "without_finalizer finalizer m = m\<lparr>om_finalizers := filter (\<lambda>f. f \<noteq> finalizer) (om_finalizers m)\<rparr>"

definition cleanupRunResourcesAndRemoveFinalizer ::
  "'s kube_client \<Rightarrow> 'o object_kind \<Rightarrow> ('s, 'o) kind_api \<Rightarrow> 'o \<Rightarrow> string \<Rightarrow> string \<Rightarrow> bool \<Rightarrow> ('s world, unit) call" where
  "cleanupRunResourcesAndRemoveFinalizer c k api run runKind finalizer snapshotAvailable w =
    (if finalizer \<notin> set (om_finalizers (ok_meta k run)) then (Inr (), w)
     else then_do (cleanupRunResources c (ok_meta k run) runKind snapshotAvailable w) (\<lambda>_ w.
       (case on_api (api_update api (ok_with_meta k (without_finalizer finalizer (ok_meta k run)) run)) w of
          (Inr _, w) \<Rightarrow> (Inr (), w)
        | (Inl e, w) \<Rightarrow> (if errors_is ApiNotFound e then Inr ()
            else Inl (wrapf ''remove %s run finalizer: %w'' [runKind] e), w))))"

section \<open>What cleaning up removes\<close>

definition meta_at :: "cluster_object \<Rightarrow> object_meta" where
  "meta_at x = (case x of
      JobObject o' \<Rightarrow> kj_meta o' | SecretObject o' \<Rightarrow> sec_meta o' | ServiceObject o' \<Rightarrow> ks_meta o' | ClaimObject o' \<Rightarrow> pv_meta o'
    | SnapshotObject o' \<Rightarrow> un_meta o' | LeaseObject o' \<Rightarrow> ls_meta o' | BackupObject o' \<Rightarrow> j_meta o' | RestoreObject o' \<Rightarrow> r_meta o'
    | MachineObject o' \<Rightarrow> m_meta o' | SourceObject o' \<Rightarrow> s_meta o' | CronObject o' \<Rightarrow> cj_meta o')"

text \<open>\<open>erased P c c'\<close>: some of the objects with \<open>P\<close> are gone, nothing else has changed.\<close>

definition erased :: "(string \<Rightarrow> object_meta \<Rightarrow> bool) \<Rightarrow> cluster \<Rightarrow> cluster \<Rightarrow> bool" where
  "erased P c c' \<longleftrightarrow> (\<forall>a. c' a = c a \<or> (c' a = None \<and> (\<exists>x. c a = Some x \<and> P (fst a) (meta_at x))))"

lemma erased_refl [simp]: "erased P c c"
  by (simp add: erased_def)

lemma erased_trans: "erased P a b \<Longrightarrow> erased P b c \<Longrightarrow> erased P a c"
  unfolding erased_def by (metis option.distinct(1))

lemma erased_mono: "erased P c c' \<Longrightarrow> (\<And>kn m. P kn m \<Longrightarrow> Q kn m) \<Longrightarrow> erased Q c c'"
  unfolding erased_def by blast

definition gone :: "(string \<Rightarrow> object_meta \<Rightarrow> bool) \<Rightarrow> cluster \<Rightarrow> bool" where
  "gone P c \<longleftrightarrow> (\<forall>a x. c a = Some x \<longrightarrow> \<not> P (fst a) (meta_at x))"

lemma gone_erased: "gone P c \<Longrightarrow> erased Q c c' \<Longrightarrow> gone P c'"
  unfolding gone_def erased_def by (metis option.distinct(1))

lemma meta_at_store: "k \<in> {job_kind} \<Longrightarrow> meta_at (ok_store k x) = ok_meta k x"
  "k' \<in> {secret_kind} \<Longrightarrow> meta_at (ok_store k' x') = ok_meta k' x'"
  by (auto simp: meta_at_def kind_defs)

definition kind_meta :: "'o object_kind \<Rightarrow> bool" where
  "kind_meta k \<longleftrightarrow> (\<forall>x. meta_at (ok_store k x) = ok_meta k x)"

lemma kinds_meta [simp]:
  "kind_meta job_kind" "kind_meta secret_kind" "kind_meta service_kind" "kind_meta claim_kind" "kind_meta snapshot_kind" "kind_meta lease_kind"
  by (simp_all add: kind_meta_def meta_at_def kind_defs)

definition of_kind :: "'o object_kind \<Rightarrow> label_map \<Rightarrow> string \<Rightarrow> object_meta \<Rightarrow> bool" where
  "of_kind k labels kn m \<longleftrightarrow> kn = ok_name k \<and> selected (MatchingLabels labels) m"

context object_store
begin

lemma delete_effect:
  assumes "delete_object api policy obj w = (r, w')" "fetch k c (object_key k obj) = Some obj" "kind_meta k"
    and "\<forall>a. view (w_api w) a = c a \<or> view (w_api w) a = None"
  shows "(\<forall>a. view (w_api w') a = view (w_api w) a \<or> a = (ok_name k, object_key k obj) \<and> view (w_api w') a = None)
    \<and> (r = Inr () \<longrightarrow> view (w_api w') (ok_name k, object_key k obj) = None)"
proof -
  obtain deleted s' where d: "api_delete api policy obj (w_api w) = (deleted, s')"
    by (cases "api_delete api policy obj (w_api w)")
  have "w_api w' = s'"
    using assms(1) d by (auto simp: delete_object_def on_api_def IgnoreNotFound_def split: sum.splits)
  moreover have "r = Inr () \<longleftrightarrow> (case deleted of Inr _ \<Rightarrow> True | Inl e \<Rightarrow> errors_is ApiNotFound e)"
    using assms(1) d by (auto simp: delete_object_def on_api_def IgnoreNotFound_def split: sum.splits if_splits)
  ultimately show ?thesis
    using delete [OF d] by (auto simp: fetch_None split: sum.splits)
qed

lemma deletes_effect:
  assumes "each_call (delete_object api policy) objs w = (r, w')" "\<forall>obj\<in>set objs. fetch k c (object_key k obj) = Some obj" "kind_meta k"
    and "\<forall>a. view (w_api w) a = c a \<or> view (w_api w) a = None"
  shows "(\<forall>a. view (w_api w') a = view (w_api w) a \<or> (\<exists>obj\<in>set objs. a = (ok_name k, object_key k obj)) \<and> view (w_api w') a = None)
    \<and> (r = Inr () \<longrightarrow> (\<forall>obj\<in>set objs. view (w_api w') (ok_name k, object_key k obj) = None))"
  using assms(1,2,4)
proof (induction objs arbitrary: w)
  case (Cons obj objs)
  obtain r1 w1 where d: "delete_object api policy obj w = (r1, w1)"
    by (cases "delete_object api policy obj w")
  note one = delete_effect [OF d _ assms(3) Cons.prems(3)]
  show ?case
  proof (cases r1)
    case (Inl e)
    then show ?thesis
      using one Cons.prems d by auto
  next
    case (Inr u)
    have "each_call (delete_object api policy) objs w1 = (r, w')"
      using Cons.prems(1) d Inr by simp
    moreover have "\<forall>a. view (w_api w1) a = c a \<or> view (w_api w1) a = None"
      using one Cons.prems by (metis list.set_intros(1))
    ultimately show ?thesis
      using Cons.IH [of w1] one Cons.prems(2) Inr by (auto; metis)
  qed
qed simp

lemma delete_listed_effect:
  assumes "delete_listed api policy labels w = (r, w')" "kind_meta k"
  shows "erased (of_kind k labels) (view (w_api w)) (view (w_api w')) \<and> (r = Inr () \<longrightarrow> gone (of_kind k labels) (view (w_api w')))"
proof -
  obtain listed s' where l: "api_list api (MatchingLabels labels) (w_api w) = (listed, s')"
    by (cases "api_list api (MatchingLabels labels) (w_api w)")
  note answer = list [OF l]
  show ?thesis
  proof (cases listed)
    case (Inl e)
    then show ?thesis
      using assms(1) l answer by (auto simp: delete_listed_def on_api_def)
  next
    case (Inr objs)
    let ?w = "w\<lparr>w_api := s'\<rparr>"
    have objs: "obj \<in> set objs \<longleftrightarrow> view (w_api w) (ok_name k, object_key k obj) = Some (ok_store k obj) \<and> selected (MatchingLabels labels) (ok_meta k obj)" for obj
      using answer Inr by (auto simp: fetch_iff)
    have same: "view (w_api ?w) = view (w_api w)"
      using answer by simp
    have meta: "meta_at (ok_store k obj) = ok_meta k obj" for obj
      using assms(2) by (simp add: kind_meta_def)
    have "each_call (delete_object api policy) objs ?w = (r, w')"
      using assms(1) l Inr by (simp add: delete_listed_def on_api_def)
    then have effect: "(\<forall>a. view (w_api w') a = view (w_api w) a \<or> (\<exists>obj\<in>set objs. a = (ok_name k, object_key k obj)) \<and> view (w_api w') a = None)
      \<and> (r = Inr () \<longrightarrow> (\<forall>obj\<in>set objs. view (w_api w') (ok_name k, object_key k obj) = None))"
      using deletes_effect [OF _ _ assms(2), of policy objs ?w r w' "view (w_api w)"] objs same by (simp add: fetch_iff)
    have changes: "view (w_api w') a = view (w_api w) a \<or> (\<exists>obj\<in>set objs. a = (ok_name k, object_key k obj)) \<and> view (w_api w') a = None" for a
      using effect by blast
    have all: "r = Inr () \<Longrightarrow> obj \<in> set objs \<Longrightarrow> view (w_api w') (ok_name k, object_key k obj) = None" for obj
      using effect by blast
    have "erased (of_kind k labels) (view (w_api w)) (view (w_api w'))"
      unfolding erased_def
    proof
      fix a show "view (w_api w') a = view (w_api w) a \<or> (view (w_api w') a = None \<and> (\<exists>x. view (w_api w) a = Some x \<and> of_kind k labels (fst a) (meta_at x)))"
        using changes [of a] objs meta by (auto simp: of_kind_def)
    qed
    moreover have "gone (of_kind k labels) (view (w_api w'))" if ok: "r = Inr ()"
      unfolding gone_def
    proof (intro allI impI notI)
      fix a x assume x: "view (w_api w') a = Some x" and sel: "of_kind k labels (fst a) (meta_at x)"
      have before: "view (w_api w) a = Some x"
        using changes [of a] x by auto
      then obtain obj where obj: "x = ok_store k obj" "object_key k obj = snd a" "a = (ok_name k, snd a)"
        using typed [of "w_api w" "snd a" x] sel by (cases a) (auto simp: of_kind_def)
      then have "obj \<in> set objs"
        using before sel objs meta by (metis of_kind_def)
      then show False
        using all [OF ok] obj x by fastforce
    qed
    ultimately show ?thesis
      by blast
  qed
qed

end

section \<open>A run leaves nothing behind\<close>

definition run_resource :: "object_meta \<Rightarrow> string \<Rightarrow> bool \<Rightarrow> string \<Rightarrow> object_meta \<Rightarrow> bool" where
  "run_resource run runKind snapshots kn m \<longleftrightarrow>
     kn \<in> {''job'', ''claim'', ''secret'', ''service''} \<union> (if snapshots then {''snapshot''} else {})
   \<and> map_of (om_labels m) LabelRunNamespace = Some (om_namespace run) \<and> map_of (om_labels m) LabelRunKind = Some runKind
   \<and> map_of (om_labels m) LabelRun = Some (om_name run)"

lemma selects_run:
  "selected (MatchingLabels (run_selector run runKind)) m \<longleftrightarrow> map_of (om_labels m) LabelRunNamespace = Some (om_namespace run)
    \<and> map_of (om_labels m) LabelRunKind = Some runKind \<and> map_of (om_labels m) LabelRun = Some (om_name run)"
  by (simp add: selected_def MatchingLabels_def run_selector_def)

lemma run_resource_kinds:
  "run_resource run runKind snapshots = (\<lambda>kn m.
     of_kind job_kind (run_selector run runKind) kn m \<or> of_kind claim_kind (run_selector run runKind) kn m
   \<or> of_kind secret_kind (run_selector run runKind) kn m \<or> of_kind service_kind (run_selector run runKind) kn m
   \<or> snapshots \<and> of_kind snapshot_kind (run_selector run runKind) kn m)"
  unfolding of_kind_def selects_run run_resource_def by (intro ext) (auto simp: kind_defs)

definition run_api :: "('s \<Rightarrow> cluster) \<Rightarrow> 's kube_client \<Rightarrow> bool" where
  "run_api view c \<longleftrightarrow> object_store view job_kind (kc_jobs c) \<and> object_store view claim_kind (kc_claims c)
     \<and> object_store view secret_kind (kc_secrets c) \<and> object_store view service_kind (kc_services c)
     \<and> object_store view snapshot_kind (kc_snapshots c)"

lemma then_do_step:
  assumes "then_do (wrapped f args call) rest = (r, w')" "call = (r1, w1)" "erased P c (view (w_api w1)) \<and> (r1 = Inr () \<longrightarrow> gone P (view (w_api w1)))"
    and "r1 = Inr () \<Longrightarrow> rest () w1 = (r, w') \<Longrightarrow>
      erased Q (view (w_api w1)) (view (w_api w')) \<and> (r = Inr () \<longrightarrow> gone Q (view (w_api w')))"
  shows "erased (\<lambda>kn m. P kn m \<or> Q kn m) c (view (w_api w')) \<and> (r = Inr () \<longrightarrow> gone (\<lambda>kn m. P kn m \<or> Q kn m) (view (w_api w')))"
proof (cases r1)
  case (Inl e)
  then show ?thesis
    using assms(1-3) by (auto intro: erased_mono)
next
  case (Inr u)
  then have second: "erased Q (view (w_api w1)) (view (w_api w'))" "r = Inr () \<longrightarrow> gone Q (view (w_api w'))"
    using assms(1,2,4) by auto
  have "erased (\<lambda>kn m. P kn m \<or> Q kn m) c (view (w_api w1))" "erased (\<lambda>kn m. P kn m \<or> Q kn m) (view (w_api w1)) (view (w_api w'))"
    using assms(3) second(1) by (auto intro: erased_mono)
  moreover have "gone P (view (w_api w'))"
    using assms(3) second(1) Inr by (auto intro: gone_erased)
  ultimately show ?thesis
    using second(2) by (auto intro: erased_trans simp: gone_def)
qed

lemma last_step:
  assumes "(if b then wrapped f args call else (Inr (), w1)) = (r, w')" "call = (r1, w2)"
    and "erased P (view (w_api w1)) (view (w_api w2)) \<and> (r1 = Inr () \<longrightarrow> gone P (view (w_api w2)))"
  shows "erased (\<lambda>kn m. b \<and> P kn m) (view (w_api w1)) (view (w_api w'))
    \<and> (r = Inr () \<longrightarrow> gone (\<lambda>kn m. b \<and> P kn m) (view (w_api w')))"
  using assms by (cases b; cases r1) (auto simp: gone_def intro: erased_mono)

lemma delete_listed_only: "only_api w (snd (delete_listed api policy labels w))"
  unfolding delete_listed_def
  by (intro then_do_only each_call_only) (simp_all add: on_api_only delete_object_def)

lemma cleanup_only: "only_api w (snd (cleanupRunResources c run runKind snapshots w))"
  unfolding cleanupRunResources_def Let_def deleteLabeledRunJobs_def deleteLabeledRunPersistentVolumeClaims_def
    deleteLabeledRunSecrets_def deleteLabeledRunServices_def deleteLabeledRunVolumeSnapshots_def
  by (intro then_do_only) (simp_all add: delete_listed_only)

lemma cleanup_effect:
  assumes api: "run_api view c" and run: "cleanupRunResources c run runKind snapshots w = (r, w')"
  shows "erased (run_resource run runKind snapshots) (view (w_api w)) (view (w_api w'))
    \<and> (r = Inr () \<longrightarrow> gone (run_resource run runKind snapshots) (view (w_api w')))"
proof -
  let ?l = "run_selector run runKind"
  have stores: "object_store view job_kind (kc_jobs c)" "object_store view claim_kind (kc_claims c)"
    "object_store view secret_kind (kc_secrets c)" "object_store view service_kind (kc_services c)"
    "object_store view snapshot_kind (kc_snapshots c)"
    using api by (auto simp: run_api_def)
  have step: "erased (of_kind job_kind ?l) (view (w_api u)) (view (w_api u')) \<and> (e = Inr () \<longrightarrow> gone (of_kind job_kind ?l) (view (w_api u')))"
    if "deleteLabeledRunJobs c ?l u = (e, u')" for u u' e
    using object_store.delete_listed_effect [OF stores(1) that [unfolded deleteLabeledRunJobs_def]] by simp
  have step2: "erased (of_kind claim_kind ?l) (view (w_api u)) (view (w_api u')) \<and> (e = Inr () \<longrightarrow> gone (of_kind claim_kind ?l) (view (w_api u')))"
    if "deleteLabeledRunPersistentVolumeClaims c ?l u = (e, u')" for u u' e
    using object_store.delete_listed_effect [OF stores(2) that [unfolded deleteLabeledRunPersistentVolumeClaims_def]] by simp
  have step3: "erased (of_kind secret_kind ?l) (view (w_api u)) (view (w_api u')) \<and> (e = Inr () \<longrightarrow> gone (of_kind secret_kind ?l) (view (w_api u')))"
    if "deleteLabeledRunSecrets c ?l u = (e, u')" for u u' e
    using object_store.delete_listed_effect [OF stores(3) that [unfolded deleteLabeledRunSecrets_def]] by simp
  have step4: "erased (of_kind service_kind ?l) (view (w_api u)) (view (w_api u')) \<and> (e = Inr () \<longrightarrow> gone (of_kind service_kind ?l) (view (w_api u')))"
    if "deleteLabeledRunServices c ?l u = (e, u')" for u u' e
    using object_store.delete_listed_effect [OF stores(4) that [unfolded deleteLabeledRunServices_def]] by simp
  have step5: "erased (of_kind snapshot_kind ?l) (view (w_api u)) (view (w_api u')) \<and> (e = Inr () \<longrightarrow> gone (of_kind snapshot_kind ?l) (view (w_api u')))"
    if "deleteLabeledRunVolumeSnapshots c ?l u = (e, u')" for u u' e
    using object_store.delete_listed_effect [OF stores(5) that [unfolded deleteLabeledRunVolumeSnapshots_def]] by simp
  obtain r1 w1 where c1: "deleteLabeledRunJobs c ?l w = (r1, w1)" by (cases "deleteLabeledRunJobs c ?l w")
  obtain r2 w2 where c2: "deleteLabeledRunPersistentVolumeClaims c ?l w1 = (r2, w2)" by (cases "deleteLabeledRunPersistentVolumeClaims c ?l w1")
  obtain r3 w3 where c3: "deleteLabeledRunSecrets c ?l w2 = (r3, w3)" by (cases "deleteLabeledRunSecrets c ?l w2")
  obtain r4 w4 where c4: "deleteLabeledRunServices c ?l w3 = (r4, w4)" by (cases "deleteLabeledRunServices c ?l w3")
  obtain r5 w5 where c5: "deleteLabeledRunVolumeSnapshots c ?l w4 = (r5, w5)" by (cases "deleteLabeledRunVolumeSnapshots c ?l w4")
  show ?thesis
    unfolding run_resource_kinds
    using run [unfolded cleanupRunResources_def Let_def]
    apply (rule then_do_step [where view = view, OF _ c1 step [OF c1]])
    apply (rule then_do_step [where view = view, OF _ c2 step2 [OF c2]], assumption)
    apply (rule then_do_step [where view = view, OF _ c3 step3 [OF c3]], assumption)
    apply (rule then_do_step [where view = view, OF _ c4 step4 [OF c4]], assumption)
    apply (rule last_step [where view = view, OF _ c5 step5 [OF c5]], assumption)
    done
qed


lemma memory_run_api: "run_api memory_view memory_client"
  unfolding run_api_def memory_client_def
  using memory_jobs.object_store_axioms memory_claims.object_store_axioms memory_secrets.object_store_axioms
    memory_services.object_store_axioms memory_snapshots.object_store_axioms by simp

definition demo_owner :: object_meta where
  "demo_owner = empty_meta\<lparr>om_namespace := ''ops'', om_name := ''nightly''\<rparr>"

definition demo_secret :: "string \<Rightarrow> k8s_secret" where
  "demo_secret name = \<lparr>sec_meta = empty_meta\<lparr>om_namespace := ''db'', om_name := name,
     om_labels := [(LabelRunNamespace, ''ops''), (LabelRunKind, ''backup''), (LabelRun, name)]\<rparr>,
     sec_type = ''kubernetes.io/tls'', sec_data = []\<rparr>"

lemma demo_addresses: "address (SecretObject (demo_secret name)) = (''secret'', ''db'', name)"
  by (simp add: address_def demo_secret_def kind_defs object_key_def meta_key_def)

lemma demo_selected: "selected (MatchingLabels (run_selector demo_owner ''backup'')) (sec_meta (demo_secret name)) \<longleftrightarrow> name = ''nightly''"
  by (auto simp: selected_def MatchingLabels_def run_selector_def demo_owner_def demo_secret_def)

lemma list_memory: "api_list (memory_api k) opts s = memory_list k opts s"
  by (simp add: memory_api_def)

lemma demo_cleanup:
  "cleanupRunResources memory_client demo_owner ''backup'' False (demo_world [SecretObject (demo_secret ''nightly''), SecretObject (demo_secret ''weekly'')])
     = (Inr (), demo_world [SecretObject (demo_secret ''weekly'')])"
proof -
  let ?a = "SecretObject (demo_secret ''nightly'')" and ?b = "SecretObject (demo_secret ''weekly'')"
  let ?sel = "MatchingLabels (run_selector demo_owner ''backup'')"
  have views: "memory_view [?a, ?b] (address ?a) = Some ?a" "memory_view [?a, ?b] (address ?b) = Some ?b"
    by (simp_all add: memory_view_def demo_addresses)
  have empty: "memory_list job_kind ?sel s = (Inr [], s)" "memory_list claim_kind ?sel s = (Inr [], s)" "memory_list service_kind ?sel s = (Inr [], s)"
    if "s = [?a, ?b] \<or> s = [?b]" for s
    using that by (auto simp: memory_list_def map_filter_def kind_defs)
  have secrets: "memory_list secret_kind ?sel [?a, ?b] = (Inr [demo_secret ''nightly''], [?a, ?b])"
    using views demo_selected by (simp add: memory_list_def map_filter_def kind_defs)
  have key: "object_key secret_kind (demo_secret name) = (''db'', name)" for name
    by (simp add: kind_defs object_key_def meta_key_def demo_secret_def)
  have "fetch secret_kind (memory_view [?a, ?b]) (''db'', ''nightly'') = Some (demo_secret ''nightly'')"
    unfolding memory_secrets.fetch_iff using views(1) by (simp add: demo_addresses) (simp add: secret_kind_def)
  then have "memory_delete secret_kind [] (demo_secret ''nightly'') [?a, ?b] = (Inr (), [?b])"
    by (simp add: memory_delete_def key demo_addresses)
  then show ?thesis
    by (simp add: cleanupRunResources_def deleteLabeledRunJobs_def deleteLabeledRunPersistentVolumeClaims_def deleteLabeledRunSecrets_def
        deleteLabeledRunServices_def delete_listed_def on_api_def memory_client_def list_memory demo_world_def empty secrets
        delete_object_def memory_api_def)
qed


section \<open>Owners that were replaced\<close>

definition has_owners :: "owner_ref list \<Rightarrow> owner_ref list \<Rightarrow> bool" where
  "has_owners owners wanted \<longleftrightarrow> (\<forall>d\<in>set wanted. \<exists>x\<in>set owners. same_owner x d)"

lemma same_owner_refl [simp]: "same_owner x x"
  by (simp add: same_owner_def)

lemma same_owner_trans: "same_owner x y \<Longrightarrow> same_owner y z \<Longrightarrow> same_owner x z"
  by (simp add: same_owner_def)

lemma replace_owner_None: "replace_owner owners d = None \<longleftrightarrow> \<not> (\<exists>x\<in>set owners. same_owner x d)"
  by (induction owners) auto

lemma replace_owner_names:
  "replace_owner owners d = Some written \<Longrightarrow> (\<exists>x\<in>set written. same_owner x e) \<longleftrightarrow> (\<exists>x\<in>set owners. same_owner x e)"
proof (induction owners arbitrary: written)
  case (Cons x xs)
  then show ?case
    by (auto split: if_splits simp: same_owner_def)
qed simp

lemma adopt_present:
  "has_owners owners wanted \<Longrightarrow> snd (adopt_owners owners changed wanted) = changed"
proof (induction wanted arbitrary: owners changed)
  case (Cons d wanted)
  then obtain written where w: "replace_owner owners d = Some written"
    using replace_owner_None [of owners d] by (auto simp: has_owners_def)
  then have "has_owners written wanted"
    using Cons.prems by (auto simp: has_owners_def replace_owner_names [OF w])
  then show ?case
    using Cons.IH w by (simp add: appendOwnerReference_def)
qed simp

lemma adopt_has: "has_owners (fst (adopt_owners owners changed wanted)) wanted
    \<and> (\<forall>e. (\<exists>x\<in>set owners. same_owner x e) \<longrightarrow> (\<exists>x\<in>set (fst (adopt_owners owners changed wanted)). same_owner x e))"
proof (induction wanted arbitrary: owners changed)
  case (Cons d wanted)
  obtain written n where app: "appendOwnerReference owners d = (written, n)"
    by (cases "appendOwnerReference owners d")
  have n: "\<exists>x\<in>set n. same_owner x d" "(\<exists>x\<in>set owners. same_owner x e) \<longrightarrow> (\<exists>x\<in>set n. same_owner x e)" for e
  proof -
    show "\<exists>x\<in>set n. same_owner x d"
    proof (cases "replace_owner owners d")
      case (Some u)
      then show ?thesis
        using app replace_owner_names [OF Some, of d] replace_owner_None [of owners d] by (auto simp: appendOwnerReference_def)
    qed (use app in \<open>auto simp: appendOwnerReference_def\<close>)
    show "(\<exists>x\<in>set owners. same_owner x e) \<longrightarrow> (\<exists>x\<in>set n. same_owner x e)"
      using app replace_owner_names [of owners d n e] by (auto simp: appendOwnerReference_def split: option.splits)
  qed
  show ?case
    using Cons.IH [of n "changed \<or> length n \<noteq> length written \<or> n \<noteq> written"] n app by (auto simp: has_owners_def)
qed (simp add: has_owners_def)

lemma owners_present:
  assumes "has_owners (om_owners (ok_meta k existing)) (om_owners (ok_meta k desired))"
  shows "reconcileExistingOwnerReferences k api existing desired w = (Inr (), w)"
  using adopt_present [OF assms, of False]
  by (cases "adopt_owners (om_owners (ok_meta k existing)) False (om_owners (ok_meta k desired))")
    (simp add: reconcileExistingOwnerReferences_def)

text \<open>An owner that was deleted and created again is not recorded: when every owner that an object
  should have is there by name, the object is not updated, whatever the UIDs, although the new
  reference differs; the comparison looks at the array that \<open>appendOwnerReference\<close> has already
  overwritten. The object keeps the UID of an owner that is gone.\<close>

theorem replaced_owner_is_not_recorded:
  assumes "has_owners (om_owners (ok_meta k existing)) (om_owners (ok_meta k desired))"
  shows "reconcileExistingOwnerReferences k api existing desired w = (Inr (), w)"
  using assms by (rule owners_present)

definition owned_secret :: "string \<Rightarrow> k8s_secret" where
  "owned_secret uid = (let s = demo_secret ''nightly'' in s\<lparr>sec_meta := (sec_meta s)\<lparr>om_owners :=
     [\<lparr>ow_apiVersion = ''krm.chirino.github.io/v1alpha1'', ow_kind = ''BackupJob'', ow_name = ''nightly'', ow_uid = uid, ow_controller = True\<rparr>]\<rparr>\<rparr>)"

theorem replaced_owner_is_not_recorded_witness:
  "owned_secret ''old'' \<noteq> owned_secret ''new''
   \<and> reconcileExistingOwnerReferences secret_kind (memory_api secret_kind) (owned_secret ''old'') (owned_secret ''new'')
       (demo_world [SecretObject (owned_secret ''old'')]) = (Inr (), demo_world [SecretObject (owned_secret ''old'')])"
proof
  show "owned_secret ''old'' \<noteq> owned_secret ''new''"
    by (simp add: owned_secret_def demo_secret_def empty_meta_def)
  have "has_owners (om_owners (ok_meta secret_kind (owned_secret ''old''))) (om_owners (ok_meta secret_kind (owned_secret ''new'')))"
    by (simp add: has_owners_def owned_secret_def secret_kind_def same_owner_def Let_def)
  then show "reconcileExistingOwnerReferences secret_kind (memory_api secret_kind) (owned_secret ''old'') (owned_secret ''new'')
       (demo_world [SecretObject (owned_secret ''old'')]) = (Inr (), demo_world [SecretObject (owned_secret ''old'')])"
    by (rule replaced_owner_is_not_recorded)
qed

section \<open>What is missing is created once\<close>

lemma adopt_changed [simp]: "snd (adopt_owners owners True wanted)"
  by (induction wanted arbitrary: owners) (auto split: prod.splits)

lemma adopt_unchanged: "\<not> snd (adopt_owners owners False wanted) \<Longrightarrow> has_owners owners wanted"
proof (induction wanted arbitrary: owners)
  case (Cons d wanted)
  obtain written where w: "replace_owner owners d = Some written"
    using Cons.prems by (cases "replace_owner owners d") (auto simp: appendOwnerReference_def)
  then have "has_owners written wanted"
    using Cons by (simp add: appendOwnerReference_def)
  then show ?case
    using w replace_owner_None [of owners d] replace_owner_names [OF w] by (auto simp: has_owners_def)
qed (simp add: has_owners_def)

text \<open>An object is settled when it exists with all the owners that are wanted.\<close>

definition settled :: "'o object_kind \<Rightarrow> cluster \<Rightarrow> 'o \<Rightarrow> bool" where
  "settled k c desired \<longleftrightarrow> (\<exists>x. fetch k c (object_key k desired) = Some x
     \<and> has_owners (om_owners (ok_meta k x)) (om_owners (ok_meta k desired)))"

lemma has_owners_refl [simp]: "has_owners xs xs"
  unfolding has_owners_def using same_owner_refl by blast

context object_store
begin

lemma adopt_effect:
  assumes "reconcileExistingOwnerReferences k api existing desired w = (r, w')" "fetch k (view (w_api w)) (object_key k desired) = Some existing"
  shows "(\<forall>a. a \<noteq> (ok_name k, object_key k desired) \<longrightarrow> view (w_api w') a = view (w_api w) a) \<and> (r = Inr () \<longrightarrow> settled k (view (w_api w')) desired)"
proof (cases "has_owners (om_owners (ok_meta k existing)) (om_owners (ok_meta k desired))")
  case True
  then show ?thesis
    using assms owners_present [OF True, of api w] by (auto simp: settled_def)
next
  case False
  obtain owners changed where ad: "adopt_owners (om_owners (ok_meta k existing)) False (om_owners (ok_meta k desired)) = (owners, changed)"
    by (cases "adopt_owners (om_owners (ok_meta k existing)) False (om_owners (ok_meta k desired))")
  have changed: "changed" "om_owners (ok_meta k desired) \<noteq> []"
    using False adopt_unchanged [of "om_owners (ok_meta k existing)" "om_owners (ok_meta k desired)"] ad by (auto simp: has_owners_def)
  let ?o = "ok_with_meta k ((ok_meta k existing)\<lparr>om_owners := owners\<rparr>) existing"
  have key: "object_key k ?o = object_key k desired"
    using fetch_key [OF assms(2)] by (simp add: object_key_def meta_key_def)
  obtain updated s' where u: "api_update api ?o (w_api w) = (updated, s')"
    by (cases "api_update api ?o (w_api w)")
  have res: "w_api w' = s'" "r = Inr () \<longleftrightarrow> is_ok updated"
    using assms(1) ad changed u by (cases updated; auto simp: reconcileExistingOwnerReferences_def on_api_def is_ok_def)+
  have "has_owners owners (om_owners (ok_meta k desired))"
    using adopt_has [of "om_owners (ok_meta k existing)" False "om_owners (ok_meta k desired)"] ad by simp
  then show ?thesis
    using update [OF u] key res by (auto simp: settled_def is_ok_def split: sum.splits)
qed

lemma create_effect:
  assumes "create_plain k what api obj w = (r, w')"
  shows "(\<forall>a. a \<noteq> (ok_name k, object_key k obj) \<longrightarrow> view (w_api w') a = view (w_api w) a) \<and> (r = Inr () \<longrightarrow> settled k (view (w_api w')) obj)"
proof -
  obtain found s where g: "api_get api (object_key k obj) (w_api w) = (found, s)"
    by (cases "api_get api (object_key k obj) (w_api w)")
  let ?w = "w\<lparr>w_api := s\<rparr>"
  have same: "view (w_api ?w) = view (w_api w)"
    using get [OF g] by simp
  show ?thesis
  proof (cases found)
    case (Inr existing)
    have "fetch k (view (w_api ?w)) (object_key k obj) = Some existing"
      using get [OF g] Inr by simp
    moreover obtain r1 w1 where a: "reconcileExistingOwnerReferences k api existing obj ?w = (r1, w1)"
      by (cases "reconcileExistingOwnerReferences k api existing obj ?w")
    ultimately show ?thesis
      using adopt_effect [OF a] assms g Inr same by (cases r1) (auto simp: create_plain_def on_api_def)
  next
    case (Inl e)
    obtain created s' where c: "api_create api obj s = (created, s')"
      by (cases "api_create api obj s")
    show ?thesis
      using create [OF c] get [OF g] assms g Inl c
      by (auto simp: create_plain_def on_api_def ignore_result_def settled_def split: sum.splits if_splits)
  qed
qed

lemma create_settled:
  assumes "create_plain k what api obj w = (r, w')" "settled k (view (w_api w)) obj"
  shows "view (w_api w') = view (w_api w)"
proof -
  obtain found s where g: "api_get api (object_key k obj) (w_api w) = (found, s)"
    by (cases "api_get api (object_key k obj) (w_api w)")
  show ?thesis
  proof (cases found)
    case (Inl e)
    then have "\<not> errors_is ApiNotFound e"
      using get [OF g] assms(2) by (auto simp: settled_def)
    then show ?thesis
      using get [OF g] assms(1) g Inl by (auto simp: create_plain_def on_api_def)
  next
    case (Inr existing)
    then have "has_owners (om_owners (ok_meta k existing)) (om_owners (ok_meta k obj))"
      using get [OF g] assms(2) by (auto simp: settled_def)
    then show ?thesis
      using get [OF g] assms(1) g Inr by (auto simp: create_plain_def on_api_def owners_present)
  qed
qed

end

lemma createJob_plain: "snd (createJobIfMissing api job w) = snd (create_plain job_kind what api job w)
    \<and> (fst (createJobIfMissing api job w) = Inr () \<longleftrightarrow> fst (create_plain job_kind what api job w) = Inr ())"
proof -
  obtain found w1 where g: "on_api (api_get api (object_key job_kind job)) w = (found, w1)"
    by (cases "on_api (api_get api (object_key job_kind job)) w")
  obtain created w2 where c: "on_api (api_create api job) w1 = (created, w2)"
    by (cases "on_api (api_create api job) w1")
  show ?thesis
  proof (cases found)
    case (Inl e)
    then show ?thesis
      using g c by (cases created) (auto simp: createJobIfMissing_def create_plain_def ignore_result_def)
  next
    case (Inr existing)
    then show ?thesis
      using g by (cases "reconcileExistingOwnerReferences job_kind api existing job w1";
          cases "fst (reconcileExistingOwnerReferences job_kind api existing job w1)")
        (auto simp: createJobIfMissing_def create_plain_def)
  qed
qed

text \<open>Creating what is missing settles: after a call that succeeds the object exists with the owners
  that were asked for, no other object has changed, and calling again, even when that fails,
  changes nothing at all.\<close>

theorem create_if_missing_settles:
  assumes "object_store view service_kind (kc_services c)" "object_store view claim_kind (kc_claims c)"
    and "object_store view snapshot_kind (kc_snapshots c)" "object_store view job_kind (kc_jobs c)"
    and "createServiceIfMissing (kc_services c) service w = (Inr (), w1)"
    and "createPersistentVolumeClaimIfMissing (kc_claims c) claim w1 = (Inr (), w2)"
    and "createVolumeSnapshotIfMissing (kc_snapshots c) snap w2 = (Inr (), w3)"
    and "createJobIfMissing (kc_jobs c) job w3 = (Inr (), w4)"
  shows "settled service_kind (view (w_api w4)) service \<and> settled claim_kind (view (w_api w4)) claim
    \<and> settled snapshot_kind (view (w_api w4)) snap \<and> settled job_kind (view (w_api w4)) job
    \<and> (\<forall>a. a \<notin> {(''service'', object_key service_kind service), (''claim'', object_key claim_kind claim),
          (''snapshot'', object_key snapshot_kind snap), (''job'', object_key job_kind job)} \<longrightarrow> view (w_api w4) a = view (w_api w) a)
    \<and> view (w_api (snd (createServiceIfMissing (kc_services c) service w4))) = view (w_api w4)
    \<and> view (w_api (snd (createPersistentVolumeClaimIfMissing (kc_claims c) claim w4))) = view (w_api w4)
    \<and> view (w_api (snd (createVolumeSnapshotIfMissing (kc_snapshots c) snap w4))) = view (w_api w4)
    \<and> view (w_api (snd (createJobIfMissing (kc_jobs c) job w4))) = view (w_api w4)"
proof -
  have job4: "create_plain job_kind [] (kc_jobs c) job w3 = (Inr (), w4)"
    using createJob_plain [of "kc_jobs c" job w3 "[]"] assms(8) by (metis fst_conv snd_conv prod.collapse)
  have e1: "a \<noteq> (''service'', object_key service_kind service) \<Longrightarrow> view (w_api w1) a = view (w_api w) a" for a
    using object_store.create_effect [OF assms(1) assms(5) [unfolded createServiceIfMissing_def]] by (cases a; cases "snd a"; simp)
  have s1: "settled service_kind (view (w_api w1)) service"
    using object_store.create_effect [OF assms(1) assms(5) [unfolded createServiceIfMissing_def]] by simp
  have e2: "a \<noteq> (''claim'', object_key claim_kind claim) \<Longrightarrow> view (w_api w2) a = view (w_api w1) a" for a
    using object_store.create_effect [OF assms(2) assms(6) [unfolded createPersistentVolumeClaimIfMissing_def]] by (cases a; cases "snd a"; simp)
  have s2: "settled claim_kind (view (w_api w2)) claim"
    using object_store.create_effect [OF assms(2) assms(6) [unfolded createPersistentVolumeClaimIfMissing_def]] by simp
  have e3: "a \<noteq> (''snapshot'', object_key snapshot_kind snap) \<Longrightarrow> view (w_api w3) a = view (w_api w2) a" for a
    using object_store.create_effect [OF assms(3) assms(7) [unfolded createVolumeSnapshotIfMissing_def]] by (cases a; cases "snd a"; simp)
  have s3: "settled snapshot_kind (view (w_api w3)) snap"
    using object_store.create_effect [OF assms(3) assms(7) [unfolded createVolumeSnapshotIfMissing_def]] by simp
  have e4: "a \<noteq> (''job'', object_key job_kind job) \<Longrightarrow> view (w_api w4) a = view (w_api w3) a" for a
    using object_store.create_effect [OF assms(4) job4] by (cases a; cases "snd a"; simp)
  have s4: "settled job_kind (view (w_api w4)) job"
    using object_store.create_effect [OF assms(4) job4] by simp
  have settled: "settled service_kind (view (w_api w4)) service" "settled claim_kind (view (w_api w4)) claim"
    "settled snapshot_kind (view (w_api w4)) snap"
    using s1 s2 s3 by (simp_all add: settled_def fetch_def e2 e3 e4)
  note again = object_store.create_settled
  have "view (w_api (snd (createServiceIfMissing (kc_services c) service w4))) = view (w_api w4)"
    "view (w_api (snd (createPersistentVolumeClaimIfMissing (kc_claims c) claim w4))) = view (w_api w4)"
    "view (w_api (snd (createVolumeSnapshotIfMissing (kc_snapshots c) snap w4))) = view (w_api w4)"
    "view (w_api (snd (createJobIfMissing (kc_jobs c) job w4))) = view (w_api w4)"
    unfolding createServiceIfMissing_def createPersistentVolumeClaimIfMissing_def createVolumeSnapshotIfMissing_def
      createJob_plain [where what = "[]", THEN conjunct1]
    by (rule again [OF assms(1) prod.collapse [symmetric] settled(1)], rule again [OF assms(2) prod.collapse [symmetric] settled(2)],
        rule again [OF assms(3) prod.collapse [symmetric] settled(3)], rule again [OF assms(4) prod.collapse [symmetric] s4])
  then show ?thesis
    using settled s4 by (simp add: e1 e2 e3 e4)
qed

lemma memory_creates:
  "fetch k (memory_view s) (object_key k obj) = None \<Longrightarrow>
     create_plain k what (memory_api k) obj (demo_world s) = (Inr (), demo_world (memory_put (ok_store k obj) s))"
  by (simp add: create_plain_def on_api_def memory_api_def memory_get_def memory_create_def ignore_result_def)

lemma memory_creates_job:
  "fetch job_kind (memory_view s) (object_key job_kind job) = None \<Longrightarrow>
     createJobIfMissing (memory_api job_kind) job (demo_world s) = (Inr (), demo_world (memory_put (JobObject job) s))"
  by (simp add: createJobIfMissing_def on_api_def memory_api_def memory_get_def memory_create_def ignore_result_def)
    (simp add: job_kind_def)

definition demo_service :: k8s_service where "demo_service = new_service ''ops'' ''target'' []"
definition demo_job :: k8s_job where "demo_job = new_job ''ops'' ''target'' [] 0 (plain_pod [] [] [])"
definition demo_snapshot :: unstructured where
  "demo_snapshot = \<lparr>un_apiVersion = SnapshotAPIVersion, un_kind = VolumeSnapshotKind, un_meta = new_meta ''db'' ''snap'' [], un_fields = []\<rparr>"
definition demo_claim :: volume_claim where
  "demo_claim = \<lparr>pv_meta = new_meta ''db'' ''claim'' [], pv_accessModes = [], pv_storageClass = None, pv_volumeMode = None,
     pv_requests = [], pv_dataSource = None, pv_phase = []\<rparr>"

abbreviation demo_settled :: memory where
  "demo_settled \<equiv> memory_put (JobObject demo_job) (memory_put (SnapshotObject demo_snapshot)
     (memory_put (ClaimObject demo_claim) (memory_put (ServiceObject demo_service) [])))"

theorem create_if_missing_settles_witness:
  "createServiceIfMissing (memory_api service_kind) demo_service (demo_world []) = (Inr (), demo_world (memory_put (ServiceObject demo_service) []))
   \<and> settled service_kind (memory_view demo_settled) demo_service \<and> settled job_kind (memory_view demo_settled) demo_job
   \<and> memory_view (w_api (snd (createJobIfMissing (memory_api job_kind) demo_job (demo_world demo_settled)))) = memory_view demo_settled"
proof -
  have missing: "fetch k (memory_view []) key = None" for k :: "'o object_kind" and key
    by (simp add: fetch_def memory_view_def)
  have other: "fetch k (memory_view (memory_put x s)) key = fetch k (memory_view s) key" if "fst (address x) \<noteq> ok_name k" for k :: "'o object_kind" and x s key
    using that by (cases "address x") (auto simp: fetch_def)
  have names: "fst (address (ServiceObject v)) = ''service''" "fst (address (ClaimObject l)) = ''claim''" "fst (address (SnapshotObject n)) = ''snapshot''" for v l n
    by (simp_all add: address_def)
  have stored: "ok_store service_kind = ServiceObject" "ok_store claim_kind = ClaimObject" "ok_store snapshot_kind = SnapshotObject"
    by (simp_all add: kind_defs)
  have service: "createServiceIfMissing (memory_api service_kind) demo_service (demo_world []) = (Inr (), demo_world (memory_put (ServiceObject demo_service) []))"
    using memory_creates [OF missing, of service_kind] by (simp add: createServiceIfMissing_def stored)
  have claim: "createPersistentVolumeClaimIfMissing (memory_api claim_kind) demo_claim (demo_world (memory_put (ServiceObject demo_service) []))
      = (Inr (), demo_world (memory_put (ClaimObject demo_claim) (memory_put (ServiceObject demo_service) [])))"
    unfolding createPersistentVolumeClaimIfMissing_def stored [symmetric] by (rule memory_creates) (simp add: other names missing stored del: view_put)
  have snap: "createVolumeSnapshotIfMissing (memory_api snapshot_kind) demo_snapshot (demo_world (memory_put (ClaimObject demo_claim) (memory_put (ServiceObject demo_service) [])))
      = (Inr (), demo_world (memory_put (SnapshotObject demo_snapshot) (memory_put (ClaimObject demo_claim) (memory_put (ServiceObject demo_service) []))))"
    unfolding createVolumeSnapshotIfMissing_def stored [symmetric] by (rule memory_creates) (simp add: other names missing stored del: view_put)
  have job: "createJobIfMissing (memory_api job_kind) demo_job (demo_world (memory_put (SnapshotObject demo_snapshot) (memory_put (ClaimObject demo_claim) (memory_put (ServiceObject demo_service) []))))
      = (Inr (), demo_world demo_settled)"
    by (rule memory_creates_job) (simp add: other names missing del: view_put)
  have clients: "kc_services memory_client = memory_api service_kind" "kc_claims memory_client = memory_api claim_kind"
    "kc_snapshots memory_client = memory_api snapshot_kind" "kc_jobs memory_client = memory_api job_kind"
    by (simp_all add: memory_client_def)
  show ?thesis
    using create_if_missing_settles [of memory_view memory_client, unfolded clients, OF memory_services.object_store_axioms
        memory_claims.object_store_axioms memory_snapshots.object_store_axioms memory_jobs.object_store_axioms service claim snap job] service
    by simp
qed

end
