(* ===== verification/Backup_Admission.thy ===== *)
theory Backup_Admission
  imports Owned_Objects Controller_Helpers
begin

text \<open>
  How a BackupJob is admitted to its target (controller/reconcilers.go): resolving
  its references, merging pending runs, waiting for other runs and restores, the
  lease that guards a target, failing a run, and pruning the history of a machine.
\<close>

section \<open>The run and its machine\<close>

definition run_key_of :: "backup_job \<Rightarrow> nsname" where
  "run_key_of run = meta_key (j_meta run)"

definition run_args :: "backup_job \<Rightarrow> string list" where
  "run_args run = [om_namespace (j_meta run), om_name (j_meta run)]"

definition machine_args :: "rsync_machine \<Rightarrow> string list" where
  "machine_args m = [om_namespace (m_meta m), om_name (m_meta m)]"

definition machineRefForBackupJob :: "'s reconciler \<Rightarrow> backup_job \<Rightarrow> ('s world, nsname option) call" where
  "machineRefForBackupJob r run w =
    (case ResolveObjectReference (bs_machineRef (j_spec run)) (om_namespace (j_meta run)) of
       Inl _ \<Rightarrow> (Inr None, w)
     | Inr machineRef \<Rightarrow>
       (case on_api (api_get (kc_machines (rr_client r)) machineRef) w of
          (Inl e, w) \<Rightarrow> if errors_is ApiNotFound e then (Inr None, w) else (Inl e, w)
        | (Inr _, w) \<Rightarrow> (Inr (Some machineRef), w)))"

definition zero_machine :: rsync_machine where
  "zero_machine = \<lparr>m_meta = empty_meta,
     m_spec = \<lparr>ms_pvcName = [], ms_image = [], ms_strategy = StrategyUnset, ms_allowedSourceNamespaces = [],
       ms_allowedRestoreNamespaces = [], ms_schedule = [], ms_concurrencyPolicy = ConcurrencyUnset,
       ms_retention = \<lparr>ret_hourly = 0, ret_daily = 0, ret_weekly = 0, ret_monthly = 0\<rparr>,
       ms_runHistory = \<lparr>rh_count = 0, rh_successful = 0, rh_failed = 0\<rparr>, ms_pod = no_pod_settings\<rparr>,
     m_status = \<lparr>mst_restorePointsUpdatedAt = None, mst_restorePointCount = 0, mst_restorePoints = [],
       mst_lastScheduledAt = None, mst_conditions = []\<rparr>\<rparr>"

definition zero_run_set :: target_run_set where
  "zero_run_set = \<lparr>trs_machineRef = ([], []), trs_machines = [], trs_sources = [],
     trs_retention = \<lparr>ret_hourly = 0, ret_daily = 0, ret_weekly = 0, ret_monthly = 0\<rparr>\<rparr>"

text \<open>\<open>sourcesByRef\<close>: a later source of the same name replaces an earlier one. A machine that is not
  found gives zero values and no error.\<close>

definition sources_by_ref :: "backup_source list \<Rightarrow> source_map" where
  "sources_by_ref sources = fold (\<lambda>s m. alist_put (meta_key (s_meta s)) s m) sources []"

definition resolveBackupJob :: "'s reconciler \<Rightarrow> backup_job \<Rightarrow> ('s world, target_run_set \<times> rsync_machine) call" where
  "resolveBackupJob r run w =
    (case ResolveObjectReference (bs_machineRef (j_spec run)) (om_namespace (j_meta run)) of
       Inl e \<Rightarrow> (Inl (wrapf ''resolve machine: %w'' [] e), w)
     | Inr machineRef \<Rightarrow>
       (case on_api (api_get (kc_machines (rr_client r)) machineRef) w of
          (Inl e, w) \<Rightarrow> if errors_is ApiNotFound e then (Inr (zero_run_set, zero_machine), w) else (Inl e, w)
        | (Inr target, w) \<Rightarrow>
          then_do (wrapped ''list backup sources: %w'' [] (on_api (api_list (kc_sources (rr_client r)) everything) w))
            (\<lambda>sources w. (case CalculateTargetRunSet target (sources_by_ref sources) of
               Inl e \<Rightarrow> (Inl e, w) | Inr runSet \<Rightarrow> (Inr (runSet, target), w)))))"

section \<open>Cancelling\<close>

definition cancelBackupJobMergedInto :: "'s reconciler \<Rightarrow> gotime \<Rightarrow> backup_job \<Rightarrow> nsname \<Rightarrow> ('s world, unit) call" where
  "cancelBackupJobMergedInto r now run canonical w =
    (let oldPhase = phase_of run;
         run = completed_at (Some now) (with_phase RunCanceled run);
         run = run\<lparr>j_status := (j_status run)\<lparr>bj_mergedInto := Some \<lparr>or_namespace = fst canonical, or_name = snd canonical\<rparr>\<rparr>\<rparr>;
         run = only_conditions now [(''MergedIntoRun'', CondTrue, ''MergedIntoRun'',
           render ''BackupJob %s/%s was merged into BackupJob %s/%s'' (run_args run @ [fst canonical, snd canonical]) [])] run
     in then_do (update_status (kc_backups (rr_client r)) ''cancel merged backup job %s/%s: %w'' (run_args run) run w)
       (\<lambda>run w. (Inr (), record_phase RunKindBackup (run_key_of run) oldPhase (phase_of run) w)))"

definition cancelBackupJobForReplacement :: "'s reconciler \<Rightarrow> gotime \<Rightarrow> backup_job \<Rightarrow> backup_job \<Rightarrow> ('s world, unit) call" where
  "cancelBackupJobForReplacement r now active successor w =
    (let oldPhase = phase_of active;
         active = completed_at (Some now) (with_phase RunCanceled active);
         active = only_conditions now [(''Replaced'', CondTrue, ''ReplacedByRun'',
           render ''BackupJob %s/%s was replaced by BackupJob %s/%s'' (run_args active @ run_args successor) [])] active
     in then_do (update_status (kc_backups (rr_client r)) ''cancel active backup job %s/%s for replacement: %w'' (run_args active) active w)
       (\<lambda>active w. case snapshot_available r w of (avail, w) \<Rightarrow>
         (case cleanupRunResources (rr_client r) (j_meta active) runKindBackup avail w of
            (Inl e, w) \<Rightarrow> (Inl (wrapf ''cleanup replaced backup job %s/%s: %w'' (run_args active) e),
               recordRunEvent r (run_key_of active) ''Warning'' ''CleanupFailed'' ''Cleanup after replacement failed: %v'' [error_text e] w)
          | (Inr _, w) \<Rightarrow> (Inr (), record_phase RunKindBackup (run_key_of active) oldPhase (phase_of active) w))))"

section \<open>Pending runs of the same target\<close>

definition waits :: "backup_job \<Rightarrow> bool" where
  "waits run = (phase_of run = RunUnset \<or> phase_of run = RunPending)"

fun pending_runs :: "'s reconciler \<Rightarrow> nsname \<Rightarrow> backup_job list \<Rightarrow> ('s world, backup_job list) call" where
  "pending_runs r machineRef [] w = (Inr [], w)"
| "pending_runs r machineRef (candidate # rest) w =
    (if isTerminalPhase (phase_of candidate) \<or> \<not> waits candidate then pending_runs r machineRef rest w
     else then_do (machineRefForBackupJob r candidate w) (\<lambda>ref w.
       then_do (pending_runs r machineRef rest w) (\<lambda>runs w.
         (Inr (if ref = Some machineRef then candidate # runs else runs), w))))"

definition pending_order :: "backup_job \<Rightarrow> gotime \<times> string" where
  "pending_order run = (om_creation (j_meta run), namespacedKey (om_namespace (j_meta run)) (om_name (j_meta run)))"

definition coalescePendingBackupJobsForTarget ::
  "'s reconciler \<Rightarrow> gotime \<Rightarrow> backup_job \<Rightarrow> rsync_machine \<Rightarrow> ('s world, nsname \<times> bool) call" where
  "coalescePendingBackupJobsForTarget r now run target w =
     then_do (wrapped ''list pending backup jobs: %w'' [] (on_api (api_list (kc_backups (rr_client r)) everything) w)) (\<lambda>runs w.
     then_do (pending_runs r (meta_key (m_meta target)) runs w) (\<lambda>pending w.
       if length pending \<le> 1 then (Inr (run_key_of run, True), w)
       else let pending = sort_key pending_order pending; canonical = run_key_of (hd pending) in
         if canonical = run_key_of run
         then then_do (each_call (\<lambda>duplicate. cancelBackupJobMergedInto r now duplicate canonical) (tl pending) w)
           (\<lambda>_ w. (Inr (canonical, True), w))
         else (Inr (canonical, False), w)))"

section \<open>Other users of the target\<close>

fun active_run_of :: "'s reconciler \<Rightarrow> backup_job \<Rightarrow> nsname \<Rightarrow> backup_job list \<Rightarrow> ('s world, backup_job option) call" where
  "active_run_of r run machineRef [] w = (Inr None, w)"
| "active_run_of r run machineRef (candidate # rest) w =
    (if run_key_of candidate = run_key_of run then active_run_of r run machineRef rest w
     else if \<not> ActiveRunBlocksTargetMutation (phase_of candidate) then active_run_of r run machineRef rest w
     else case ResolveObjectReference (bs_machineRef (j_spec candidate)) (om_namespace (j_meta candidate)) of
         Inl _ \<Rightarrow> active_run_of r run machineRef rest w
       | Inr ref \<Rightarrow>
         (case on_api (api_get (kc_machines (rr_client r)) ref) w of
            (Inl e, w) \<Rightarrow> if errors_is ApiNotFound e then active_run_of r run machineRef rest w else (Inl e, w)
          | (Inr _, w) \<Rightarrow> if ref = machineRef then (Inr (Some candidate), w) else active_run_of r run machineRef rest w))"

definition findActiveBackupJobForTarget :: "'s reconciler \<Rightarrow> backup_job \<Rightarrow> rsync_machine \<Rightarrow> ('s world, backup_job option) call" where
  "findActiveBackupJobForTarget r run target w =
     then_do (wrapped ''list backup jobs: %w'' [] (on_api (api_list (kc_backups (rr_client r)) everything) w))
       (active_run_of r run (meta_key (m_meta target)))"

text \<open>A restore uses the machine of its source, if it is allowed to.\<close>

definition machineRefForRestoreJobWithClient :: "'s kube_client \<Rightarrow> restore_job \<Rightarrow> ('s world, nsname option) call" where
  "machineRefForRestoreJobWithClient c run w =
    (case ResolveObjectReference (rs_sourceRef (r_spec run)) (om_namespace (r_meta run)) of
       Inl _ \<Rightarrow> (Inr None, w)
     | Inr source_at \<Rightarrow>
       (case on_api (api_get (kc_sources c) source_at) w of
          (Inl e, w) \<Rightarrow> if errors_is ApiNotFound e then (Inr None, w) else (Inl e, w)
        | (Inr source, w) \<Rightarrow>
          (case ResolveObjectReference (ss_machineRef (s_spec source)) (om_namespace (s_meta source)) of
             Inl _ \<Rightarrow> (Inr None, w)
           | Inr machineRef \<Rightarrow>
             (case on_api (api_get (kc_machines c) machineRef) w of
                (Inl e, w) \<Rightarrow> if errors_is ApiNotFound e then (Inr None, w) else (Inl e, w)
              | (Inr machine, w) \<Rightarrow>
                let destinationNamespace = rd_namespace (rs_destination (r_spec run)) in
                if \<not> SourceNamespaceAllowed machine (om_namespace (s_meta source))
                   \<or> \<not> RestoreNamespaceAllowed machine (om_namespace (r_meta run)) then (Inr None, w)
                else if destinationNamespace \<noteq> [] \<and> destinationNamespace \<noteq> om_namespace (r_meta run) then (Inr None, w)
                else (Inr (Some machineRef), w)))))"

fun active_restore_of :: "'s kube_client \<Rightarrow> nsname \<Rightarrow> restore_job list \<Rightarrow> ('s world, restore_job option) call" where
  "active_restore_of c machineRef [] w = (Inr None, w)"
| "active_restore_of c machineRef (restore # rest) w =
    (if isTerminalPhase (rj_phase (r_status restore)) then active_restore_of c machineRef rest w
     else then_do (machineRefForRestoreJobWithClient c restore w) (\<lambda>ref w.
       if ref = Some machineRef then (Inr (Some restore), w) else active_restore_of c machineRef rest w))"

definition findActiveRestoreJobForTarget :: "'s reconciler \<Rightarrow> rsync_machine \<Rightarrow> ('s world, restore_job option) call" where
  "findActiveRestoreJobForTarget r target w =
     then_do (wrapped ''list restore jobs: %w'' [] (on_api (api_list (kc_restores (rr_client r)) everything) w))
       (active_restore_of (rr_client r) (meta_key (m_meta target)))"

section \<open>Holding a run\<close>

definition hold_run ::
  "'s reconciler \<Rightarrow> gotime \<Rightarrow> string \<Rightarrow> condition_entry \<Rightarrow> string \<Rightarrow> string list \<Rightarrow> backup_job \<Rightarrow> ('s world, unit) call" where
  "hold_run r now what condition eventFmt eventArgs run w =
    (let oldPhase = phase_of run; run = only_conditions now [condition] (with_phase RunPending run)
     in then_do (update_status (kc_backups (rr_client r)) what [] run w) (\<lambda>run w.
       (Inr (), record_phase RunKindBackup (run_key_of run) oldPhase (phase_of run)
         (recordRunEvent r (run_key_of run) ''Warning'' (fst (snd (snd condition))) eventFmt eventArgs w))))"

definition holdBackupJobForTarget :: "'s reconciler \<Rightarrow> gotime \<Rightarrow> backup_job \<Rightarrow> rsync_machine \<Rightarrow> ('s world, unit) call" where
  "holdBackupJobForTarget r now run target =
     hold_run r now ''hold backup job for target readiness: %w''
       (''TargetReady'', CondFalse, ''TargetNotReady'', render ''RsyncMachine %s/%s is not ready'' (machine_args target) [])
       ''RsyncMachine %s/%s is not ready'' (machine_args target) run"

definition holdBackupJobForOverlap ::
  "'s reconciler \<Rightarrow> gotime \<Rightarrow> backup_job \<Rightarrow> rsync_machine \<Rightarrow> backup_job \<Rightarrow> rsync_machine \<Rightarrow> ('s world, unit) call" where
  "holdBackupJobForOverlap r now run target blocking machine =
    (let reason = (if ConcurrencyPolicyOrDefault (m_spec machine) = ConcurrencyReplace then ''ReplaceUnsupported'' else ''ActiveRunForTarget'')
     in hold_run r now ''hold backup job for target overlap: %w''
       (''TargetOverlap'', CondTrue, reason,
        render ''RsyncMachine %s/%s is already used by BackupJob %s/%s'' (machine_args target @ run_args blocking) [])
       ''RsyncMachine %s/%s is already used by BackupJob %s/%s'' (machine_args target @ run_args blocking) run)"

definition holdBackupJobForRestore ::
  "'s reconciler \<Rightarrow> gotime \<Rightarrow> backup_job \<Rightarrow> rsync_machine \<Rightarrow> restore_job \<Rightarrow> ('s world, unit) call" where
  "holdBackupJobForRestore r now run target restore =
    (let args = machine_args target @ [om_namespace (r_meta restore), om_name (r_meta restore)]
     in hold_run r now ''hold backup job for active restore: %w''
       (''TargetOverlap'', CondTrue, ''ActiveRestoreForTarget'',
        render ''RsyncMachine %s/%s is being restored by RestoreJob %s/%s; waiting for restore to complete'' args [])
       ''RsyncMachine %s/%s is being restored by RestoreJob %s/%s'' args run)"

section \<open>The lease that guards a target\<close>

abbreviation targetGuardLeaseDurationSeconds :: int where "targetGuardLeaseDurationSeconds \<equiv> 86400"
abbreviation targetGuardRole :: string where "targetGuardRole \<equiv> ''target-guard''"
abbreviation labelTargetNamespace :: string where "labelTargetNamespace \<equiv> ''krm.chirino.github.io/target-namespace''"
abbreviation labelTargetName :: string where "labelTargetName \<equiv> ''krm.chirino.github.io/target-name''"

definition backupRunGuardHolder :: "backup_job \<Rightarrow> string" where
  "backupRunGuardHolder run = nsname_string (run_key_of run)"

definition parseBackupJobGuardHolder :: "string \<Rightarrow> nsname option" where
  "parseBackupJobGuardHolder holder = (case split_on CHR ''/'' holder of
      [ns, name] \<Rightarrow> if ns = [] \<or> name = [] then None else Some (ns, name)
    | _ \<Rightarrow> None)"

definition targetGuardLeaseLabels :: "backup_job \<Rightarrow> nsname \<Rightarrow> label_map" where
  "targetGuardLeaseLabels run target =
     alist_put labelTargetName (snd target) (alist_put labelTargetNamespace (fst target) (runLabels run runKindBackup targetGuardRole))"

definition targetGuardLeaseAnnotations :: "nsname \<Rightarrow> label_map" where
  "targetGuardLeaseAnnotations target = [(''krm.chirino.github.io/target'', nsname_string target)]"

definition claimTargetGuardLease :: "lease \<Rightarrow> backup_job \<Rightarrow> nsname \<Rightarrow> string \<Rightarrow> gotime \<Rightarrow> string \<Rightarrow> lease" where
  "claimTargetGuardLease l run target holder now previousHolder =
    (let l = (if previousHolder \<noteq> holder
           then l\<lparr>ls_transitions := Some (case ls_transitions l of None \<Rightarrow> 0 | Some t \<Rightarrow> t + 1), ls_acquire := Some now\<rparr> else l)
     in l\<lparr>ls_meta := (ls_meta l)\<lparr>om_labels := targetGuardLeaseLabels run target, om_annotations := targetGuardLeaseAnnotations target\<rparr>,
          ls_holder := Some holder, ls_duration := Some targetGuardLeaseDurationSeconds, ls_renew := Some now\<rparr>)"

definition new_guard_lease :: "backup_job \<Rightarrow> nsname \<Rightarrow> gotime \<Rightarrow> lease" where
  "new_guard_lease run machineRef now =
    (let leaseRef = TargetGuardLeaseRef machineRef in
     \<lparr>ls_meta = empty_meta\<lparr>om_namespace := fst leaseRef, om_name := snd leaseRef,
        om_labels := targetGuardLeaseLabels run machineRef, om_annotations := targetGuardLeaseAnnotations machineRef\<rparr>,
      ls_holder = Some (backupRunGuardHolder run), ls_duration = Some targetGuardLeaseDurationSeconds,
      ls_acquire = Some now, ls_renew = Some now, ls_transitions = Some 0\<rparr>)"

text \<open>The run that holds the lease, with whether it is active on the target.\<close>

definition activeGuardHolder :: "'s reconciler \<Rightarrow> string \<Rightarrow> nsname \<Rightarrow> ('s world, backup_job option \<times> bool) call" where
  "activeGuardHolder r holder target w =
    (case parseBackupJobGuardHolder holder of
       None \<Rightarrow> (Inr (None, False), w)
     | Some holderRef \<Rightarrow>
       (case on_api (api_get (kc_backups (rr_client r)) holderRef) w of
          (Inl e, w) \<Rightarrow> if errors_is ApiNotFound e then (Inr (None, False), w)
                        else (Inl (wrapf ''read target guard holder %s: %w'' [nsname_string holderRef] e), w)
        | (Inr run, w) \<Rightarrow>
          if \<not> ActiveRunBlocksTargetMutation (phase_of run) then (Inr (Some run, False), w)
          else then_do (wrapped ''resolve target guard holder %s target: %w'' [nsname_string holderRef] (machineRefForBackupJob r run w))
            (\<lambda>holderTarget w. (Inr (Some run, holderTarget = None \<or> holderTarget = Some target), w))))"

text \<open>One attempt: \<open>Inr None\<close> is \<open>continue\<close>.\<close>

definition guard_update :: "'s reconciler \<Rightarrow> string \<Rightarrow> string list \<Rightarrow> lease \<Rightarrow> ('s world, (backup_job option \<times> bool) option) call" where
  "guard_update r f args l w = (case on_api (api_update (kc_leases (rr_client r)) l) w of
      (Inl e, w) \<Rightarrow> if errors_is ApiConflict e then (Inr None, w) else (Inl (wrapf f args e), w)
    | (Inr _, w) \<Rightarrow> (Inr (Some (None, True)), w))"

definition guard_attempt ::
  "'s reconciler \<Rightarrow> gotime \<Rightarrow> backup_job \<Rightarrow> nsname \<Rightarrow> bool \<Rightarrow> ('s world, (backup_job option \<times> bool) option) call" where
  "guard_attempt r now run machineRef replacing w =
    (let leaseRef = TargetGuardLeaseRef machineRef; holder = backupRunGuardHolder run; ref = nsname_string leaseRef in
     case on_api (api_get (kc_leases (rr_client r)) leaseRef) w of
       (Inl e, w) \<Rightarrow>
         if \<not> errors_is ApiNotFound e then (Inl (wrapf ''get target guard lease %s: %w'' [ref] e), w)
         else (case on_api (api_create (kc_leases (rr_client r)) (new_guard_lease run machineRef now)) w of
             (Inl e, w) \<Rightarrow> if errors_is ApiAlreadyExists e then (Inr None, w)
                           else (Inl (wrapf ''create target guard lease %s: %w'' [ref] e), w)
           | (Inr _, w) \<Rightarrow> (Inr (Some (None, True)), w))
     | (Inr l, w) \<Rightarrow>
         let existingHolder = (case ls_holder l of Some h \<Rightarrow> h | None \<Rightarrow> []);
             claimed = claimTargetGuardLease l run machineRef holder now existingHolder in
         if existingHolder = [] \<or> existingHolder = holder
         then guard_update r ''update target guard lease %s: %w'' [ref] claimed w
         else then_do (activeGuardHolder r existingHolder machineRef w) (\<lambda>(blocking, active) w.
           if active \<and> \<not> replacing then (Inr (Some (blocking, False)), w)
           else then_do (if active then (case blocking of
                 Some b \<Rightarrow> cancelBackupJobForReplacement r now b run w | None \<Rightarrow> (Inr (), w)) else (Inr (), w))
             (\<lambda>_. guard_update r ''steal target guard lease %s from %q: %w'' [ref, existingHolder] claimed)))"

fun guard_attempts :: "'s reconciler \<Rightarrow> gotime \<Rightarrow> nat \<Rightarrow> backup_job \<Rightarrow> nsname \<Rightarrow> bool \<Rightarrow> ('s world, backup_job option \<times> bool) call" where
  "guard_attempts r now 0 run machineRef replacing w =
     (Inl (errorf ''target guard lease %s changed too frequently'' [nsname_string (TargetGuardLeaseRef machineRef)]), w)"
| "guard_attempts r now (Suc n) run machineRef replacing w =
     then_do (guard_attempt r now run machineRef replacing w) (\<lambda>res w.
       (case res of Some x \<Rightarrow> (Inr x, w) | None \<Rightarrow> guard_attempts r now n run machineRef replacing w))"

definition acquireTargetGuard ::
  "'s reconciler \<Rightarrow> gotime \<Rightarrow> backup_job \<Rightarrow> rsync_machine \<Rightarrow> bool \<Rightarrow> ('s world, backup_job option \<times> bool) call" where
  "acquireTargetGuard r now run target replacing = guard_attempts r now 3 run (meta_key (m_meta target)) replacing"

definition release_lease :: "'s reconciler \<Rightarrow> string \<Rightarrow> lease \<Rightarrow> ('s world, unit) call" where
  "release_lease r holder l w =
    (if ls_holder l \<noteq> None \<and> ls_holder l \<noteq> Some holder then (Inr (), w)
     else case on_api (api_delete (kc_leases (rr_client r)) [] l) w of
         (Inl e, w) \<Rightarrow> if errors_is ApiNotFound e then (Inr (), w)
           else (Inl (wrapf ''delete target guard lease %s/%s: %w'' [om_namespace (ls_meta l), om_name (ls_meta l)] e), w)
       | (Inr _, w) \<Rightarrow> (Inr (), w))"

definition releaseTargetGuardsForRun :: "'s reconciler \<Rightarrow> backup_job \<Rightarrow> ('s world, unit) call" where
  "releaseTargetGuardsForRun r run w =
     then_do (wrapped ''list target guard leases for BackupJob %s/%s: %w'' (run_args run)
       (on_api (api_list (kc_leases (rr_client r))
         (MatchingLabels (run_selector (j_meta run) runKindBackup @ [(LabelRole, targetGuardRole)]))) w))
       (each_call (release_lease r (backupRunGuardHolder run)))"

section \<open>Failing a run\<close>

definition failBackupJob :: "'s reconciler \<Rightarrow> gotime \<Rightarrow> backup_job \<Rightarrow> goerr \<Rightarrow> ('s world, unit) call" where
  "failBackupJob r now run cause w =
    (let oldPhase = phase_of run; run = completed_at (Some now) (with_phase RunFailed run);
         run = run\<lparr>j_status := (j_status run)\<lparr>bj_conditions := [\<lparr>c_type = ''Failed'', c_status = CondTrue,
           c_observedGeneration = om_generation (j_meta run), c_lastTransitionTime = now,
           c_reason = ''ReconcileError'', c_message = error_text cause\<rparr>]\<rparr>\<rparr> in
     case on_api (api_update_status (kc_backups (rr_client r)) run) w of
       (res, w) \<Rightarrow>
         (case (case res of Inl e \<Rightarrow> if errors_is ApiNotFound e then Inr run else Inl e | Inr stored \<Rightarrow> Inr stored) of
            Inl e \<Rightarrow> (Inl (wrapf ''%w; additionally failed to update status: %v'' [error_text e] cause), w)
          | Inr run \<Rightarrow>
            (case releaseTargetGuardsForRun r run w of
               (Inl e, w) \<Rightarrow> (Inl (wrapf ''%w; additionally failed to release target guard: %v'' [error_text e] cause), w)
             | (Inr _, w) \<Rightarrow> (Inl cause, record_phase RunKindBackup (run_key_of run) oldPhase (phase_of run)
                 (recordRunEvent r (run_key_of run) ''Warning'' ''RunFailed'' ''BackupJob failed: %v'' [error_text cause] w)))))"

section \<open>Ownership and history\<close>

abbreviation krm_group_version :: string where "krm_group_version \<equiv> ''krm.chirino.github.io/v1alpha1''"

definition ensureScheduledBackupJobOwnerReference :: "'s reconciler \<Rightarrow> backup_job \<Rightarrow> ('s world, backup_job \<times> bool) call" where
  "ensureScheduledBackupJobOwnerReference r run w =
    (if om_deletion (j_meta run) \<noteq> None \<or> TriggerOrDefault (j_spec run) \<noteq> TriggerScheduled then (Inr (run, False), w)
     else case ResolveObjectReference (bs_machineRef (j_spec run)) (om_namespace (j_meta run)) of
         Inl _ \<Rightarrow> (Inr (run, False), w)
       | Inr machineRef \<Rightarrow>
         if fst machineRef \<noteq> om_namespace (j_meta run) then (Inr (run, False), w)
         else if list_ex (\<lambda>o'. ow_apiVersion o' = krm_group_version \<and> ow_kind o' = ''RsyncMachine'' \<and> ow_name o' = snd machineRef)
           (om_owners (j_meta run)) then (Inr (run, False), w)
         else (case on_api (api_get (kc_machines (rr_client r)) machineRef) w of
             (Inl e, w) \<Rightarrow> if errors_is ApiNotFound e then (Inr (run, False), w) else (Inl e, w)
           | (Inr machine, w) \<Rightarrow>
             (case rr_scheme r of
                None \<Rightarrow> (Inr (run, False), w)
              | Some sc \<Rightarrow>
                (case SetControllerReference sc ''RsyncMachine'' (m_meta machine) (j_meta run) of
                   Inl e \<Rightarrow> (Inl (wrapf ''set scheduled backup job owner reference: %w'' [] e), w)
                 | Inr m \<Rightarrow>
                   then_do (wrapped ''update scheduled backup job owner reference: %w'' []
                       (on_api (api_update (kc_backups (rr_client r)) (run\<lparr>j_meta := m\<rparr>)) w))
                     (\<lambda>stored w. (Inr (stored, True), w))))))"

definition backupRunHistoryTime :: "backup_job \<Rightarrow> gotime" where
  "backupRunHistoryTime run = (case bj_completedAt (j_status run) of Some t \<Rightarrow> t | None \<Rightarrow> om_creation (j_meta run))"

definition history_order :: "backup_job \<Rightarrow> gotime \<times> string" where
  "history_order run = (backupRunHistoryTime run, namespacedKey (om_namespace (j_meta run)) (om_name (j_meta run)))"

text \<open>Newest first; the names of the runs break ties.\<close>

definition pruneBackupJobHistoryCandidates :: "backup_job list \<Rightarrow> int \<Rightarrow> backup_job list" where
  "pruneBackupJobHistoryCandidates runs keep = drop (nat keep) (rev (sort_key history_order runs))"

definition addBackupJobHistoryPruneCandidates :: "(string \<times> backup_job) list \<Rightarrow> backup_job list \<Rightarrow> (string \<times> backup_job) list" where
  "addBackupJobHistoryPruneCandidates candidates runs =
     fold (\<lambda>run m. alist_put (namespacedKey (om_namespace (j_meta run)) (om_name (j_meta run))) run m) runs candidates"

definition history_of :: "nsname \<Rightarrow> backup_job list \<Rightarrow> backup_job list" where
  "history_of machineRef runs = filter (\<lambda>candidate.
     TriggerOrDefault (j_spec candidate) = TriggerScheduled \<and> isTerminalPhase (phase_of candidate)
     \<and> ResolveObjectReference (bs_machineRef (j_spec candidate)) (om_namespace (j_meta candidate)) = Inr machineRef) runs"

definition history_candidates :: "run_history \<Rightarrow> backup_job list \<Rightarrow> (string \<times> backup_job) list" where
  "history_candidates runHistory completed =
    (let successful = filter (\<lambda>run. phase_of run = RunSucceeded) completed;
         failed = filter (\<lambda>run. phase_of run = RunFailed \<or> phase_of run = RunCanceled) completed;
         prune = (\<lambda>runs keep m. addBackupJobHistoryPruneCandidates m (pruneBackupJobHistoryCandidates runs keep)) in
     if HasCountLimit runHistory then
       (let m = prune completed (rh_count runHistory) [];
            m = (if rh_successful runHistory > 0 then prune successful (rh_successful runHistory) m else m)
        in if rh_failed runHistory > 0 then prune failed (rh_failed runHistory) m else m)
     else prune failed (FailedOrDefault runHistory) (prune successful (SuccessfulOrDefault runHistory) []))"

definition prune_run :: "'s reconciler \<Rightarrow> bool \<Rightarrow> backup_job \<Rightarrow> ('s world, unit) call" where
  "prune_run r avail candidate w =
     then_do (wrapped ''cleanup pruned backup job %s/%s: %w'' (run_args candidate)
       (cleanupRunResourcesAndRemoveFinalizer (rr_client r) backup_kind (kc_backups (rr_client r)) candidate
          runKindBackup BackupJobFinalizer avail w))
     (\<lambda>_ w. (case on_api (api_delete (kc_backups (rr_client r)) [] candidate) w of
          (Inl e, w) \<Rightarrow> if errors_is ApiNotFound e then (Inr (), w)
            else (Inl (wrapf ''delete pruned backup job %s/%s: %w'' (run_args candidate) e), w)
        | (Inr _, w) \<Rightarrow> (Inr (), w)))"

definition pruneBackupJobHistory :: "'s reconciler \<Rightarrow> backup_job \<Rightarrow> ('s world, unit) call" where
  "pruneBackupJobHistory r run w =
    (case ResolveObjectReference (bs_machineRef (j_spec run)) (om_namespace (j_meta run)) of
       Inl _ \<Rightarrow> (Inr (), w)
     | Inr machineRef \<Rightarrow>
       (case on_api (api_get (kc_machines (rr_client r)) machineRef) w of
          (Inl e, w) \<Rightarrow> if errors_is ApiNotFound e then (Inr (), w) else (Inl e, w)
        | (Inr machine, w) \<Rightarrow>
          then_do (wrapped ''list backup jobs for history pruning: %w'' [] (on_api (api_list (kc_backups (rr_client r)) everything) w))
            (\<lambda>runs w. case snapshot_available r w of (avail, w) \<Rightarrow>
               each_call (prune_run r avail)
                 (map snd (history_candidates (ms_runHistory (m_spec machine)) (history_of machineRef runs))) w)))"

section \<open>Who holds a target\<close>

text \<open>A server that keeps the holder of a lease as it was sent.\<close>

locale guard_store = object_store view lease_kind api
  for view :: "'s \<Rightarrow> cluster" and api :: "('s, lease) kind_api" +
  assumes created: "api_create api l s = (Inr stored, s') \<Longrightarrow> ls_holder stored = ls_holder l"
    and updated: "api_update api l s = (Inr stored, s') \<Longrightarrow> ls_holder stored = ls_holder l"

interpretation memory_guards: guard_store memory_view "memory_api lease_kind"
proof
  show "ls_holder stored = ls_holder l" if "api_create (memory_api lease_kind) l s = (Inr stored, s')" for l s stored s'
    using that by (auto simp: memory_api_def memory_create_def split: option.splits)
  show "ls_holder stored = ls_holder l" if "api_update (memory_api lease_kind) l s = (Inr stored, s')" for l s stored s'
    using that by (auto simp: memory_api_def memory_update_def split: option.splits)
qed

definition admission_api :: "('s \<Rightarrow> cluster) \<Rightarrow> 's kube_client \<Rightarrow> bool" where
  "admission_api view c \<longleftrightarrow> guard_store view (kc_leases c) \<and> object_store view backup_kind (kc_backups c)
     \<and> object_store view machine_kind (kc_machines c)"

definition target_of :: "cluster \<Rightarrow> backup_job \<Rightarrow> nsname option" where
  "target_of c run = (case ResolveObjectReference (bs_machineRef (j_spec run)) (om_namespace (j_meta run)) of
      Inl _ \<Rightarrow> None | Inr ref \<Rightarrow> if fetch machine_kind c ref = None then None else Some ref)"

definition blocks :: "cluster \<Rightarrow> string \<Rightarrow> nsname \<Rightarrow> backup_job \<Rightarrow> bool" where
  "blocks c holder target run \<longleftrightarrow> (\<exists>ref. parseBackupJobGuardHolder holder = Some ref \<and> fetch backup_kind c ref = Some run)
     \<and> ActiveRunBlocksTargetMutation (phase_of run) \<and> target_of c run \<in> {None, Some target}"

definition guard_of :: "cluster \<Rightarrow> nsname \<Rightarrow> lease option" where
  "guard_of c target = fetch lease_kind c (TargetGuardLeaseRef target)"

definition holder_of :: "lease \<Rightarrow> string" where
  "holder_of l = (case ls_holder l of Some h \<Rightarrow> h | None \<Rightarrow> [])"

context object_store
begin

lemma read:
  assumes "on_api (api_get api key) w = (r, w')"
  shows "view (w_api w') = view (w_api w)" "r = Inr obj \<Longrightarrow> fetch k (view (w_api w)) key = Some obj"
    "r = Inl e \<Longrightarrow> errors_is ApiNotFound e \<Longrightarrow> fetch k (view (w_api w)) key = None"
  using assms get [of key "w_api w"] by (auto simp: on_api_def split: prod.splits)

lemma listed:
  assumes "on_api (api_list api opts) w = (r, w')"
  shows "view (w_api w') = view (w_api w)"
    "r = Inr objs \<Longrightarrow> set objs = {obj. fetch k (view (w_api w)) (object_key k obj) = Some obj \<and> selected opts (ok_meta k obj)}"
  using assms list [of opts "w_api w"] by (auto simp: on_api_def split: prod.splits)

lemma refused:
  assumes "on_api (api_update api obj) w = (Inl e, w')"
  shows "view (w_api w') = view (w_api w)"
  using assms update [of obj "w_api w"] by (auto simp: on_api_def split: prod.splits)

lemma refused_create:
  assumes "on_api (api_create api obj) w = (Inl e, w')"
  shows "view (w_api w') = view (w_api w)"
  using assms create [of obj "w_api w"] by (auto simp: on_api_def split: prod.splits)

end

lemma machineRef_effect:
  assumes store: "object_store view machine_kind (kc_machines (rr_client r))" and run: "machineRefForBackupJob r run w = (res, w')"
  shows "view (w_api w') = view (w_api w)" "res = Inr ref \<Longrightarrow> ref = target_of (view (w_api w)) run"
  using run object_store.read [OF store, of _ w]
  by (auto simp: machineRefForBackupJob_def target_of_def split: sum.splits prod.splits if_splits)

lemma holder_effect:
  assumes api: "admission_api view (rr_client r)" and run: "activeGuardHolder r holder target w = (res, w')"
  shows "view (w_api w') = view (w_api w)"
    "res = Inr (blocking, active) \<Longrightarrow> (if active then \<exists>b. blocking = Some b \<and> blocks (view (w_api w)) holder target b
       else \<forall>b. \<not> blocks (view (w_api w)) holder target b)"
proof -
  have stores: "object_store view backup_kind (kc_backups (rr_client r))" "object_store view machine_kind (kc_machines (rr_client r))"
    using api by (simp_all add: admission_api_def)
  note get = object_store.read [OF stores(1)]
  note target = machineRef_effect [OF stores(2)]
  show "view (w_api w') = view (w_api w)"
    using run get(1) target(1)
    by (auto simp: activeGuardHolder_def wrapped_def then_do_def split: option.splits sum.splits prod.splits if_splits; metis)
  show "res = Inr (blocking, active) \<Longrightarrow> (if active then \<exists>b. blocking = Some b \<and> blocks (view (w_api w)) holder target b
       else \<forall>b. \<not> blocks (view (w_api w)) holder target b)"
  proof -
    assume ok: "res = Inr (blocking, active)"
    show ?thesis
    proof (cases "parseBackupJobGuardHolder holder")
      case None
      then show ?thesis
        using run ok by (auto simp: activeGuardHolder_def blocks_def)
    next
      case (Some ref)
      obtain found v where g: "on_api (api_get (kc_backups (rr_client r)) ref) w = (found, v)"
        by (cases "on_api (api_get (kc_backups (rr_client r)) ref) w")
      show ?thesis
      proof (cases found)
        case (Inl e)
        then show ?thesis
          using run ok g Some get(3) [OF g] by (auto simp: activeGuardHolder_def blocks_def split: if_splits)
      next
        case (Inr b)
        then show ?thesis
          using run ok g Some get(1,2) [OF g] target(2) [of b v]
          by (cases "target_of (view (w_api w)) b") (auto simp: activeGuardHolder_def blocks_def go_result split: if_splits)
      qed
    qed
  qed
qed

text \<open>One attempt under the policy that does not replace.\<close>

definition guard_claimed :: "cluster \<Rightarrow> cluster \<Rightarrow> backup_job \<Rightarrow> nsname \<Rightarrow> bool" where
  "guard_claimed c c' run target \<longleftrightarrow>
     (\<forall>a. a \<noteq> (''lease'', TargetGuardLeaseRef target) \<longrightarrow> c' a = c a)
   \<and> (\<exists>l. guard_of c' target = Some l \<and> ls_holder l = Some (backupRunGuardHolder run))
   \<and> (\<forall>l b. guard_of c target = Some l \<longrightarrow> holder_of l \<noteq> backupRunGuardHolder run \<longrightarrow> \<not> blocks c (holder_of l) target b)"

definition guard_refused :: "cluster \<Rightarrow> cluster \<Rightarrow> backup_job \<Rightarrow> nsname \<Rightarrow> backup_job option \<Rightarrow> bool" where
  "guard_refused c c' run target blocking \<longleftrightarrow> c' = c
   \<and> (\<exists>l b. guard_of c target = Some l \<and> holder_of l \<noteq> backupRunGuardHolder run \<and> blocking = Some b \<and> blocks c (holder_of l) target b)"

lemma lease_key_new: "object_key lease_kind (new_guard_lease run target now) = TargetGuardLeaseRef target"
  by (simp add: object_key_def lease_kind_def new_guard_lease_def meta_key_def Let_def)

lemma lease_key_claim: "object_key lease_kind (claimTargetGuardLease l run target h now p) = object_key lease_kind l"
  by (simp add: object_key_def lease_kind_def claimTargetGuardLease_def meta_key_def Let_def)

lemma holder_claim: "ls_holder (claimTargetGuardLease l run target h now p) = Some h"
  by (simp add: claimTargetGuardLease_def Let_def)

lemma no_blocks_empty [simp]: "\<not> blocks c [] target b"
  by (simp add: blocks_def parseBackupJobGuardHolder_def)

lemma claim_effect:
  assumes "guard_store view (kc_leases (rr_client r))" "guard_update r f args l w = (res, w')"
    and "object_key lease_kind l = TargetGuardLeaseRef target" "ls_holder l = Some h"
  shows "case res of Inr (Some (b, got)) \<Rightarrow> got \<and> (\<forall>a. a \<noteq> (''lease'', TargetGuardLeaseRef target) \<longrightarrow> view (w_api w') a = view (w_api w) a)
      \<and> (\<exists>l. guard_of (view (w_api w')) target = Some l \<and> ls_holder l = Some h)
    | _ \<Rightarrow> view (w_api w') = view (w_api w)"
proof -
  note [simp] = guard_of_def
  obtain updated s' where u: "api_update (kc_leases (rr_client r)) l (w_api w) = (updated, s')"
    by (cases "api_update (kc_leases (rr_client r)) l (w_api w)")
  have store: "object_store view lease_kind (kc_leases (rr_client r))"
    using assms(1) by (simp add: guard_store_def)
  have here: "fetch lease_kind (c((''lease'', TargetGuardLeaseRef target) \<mapsto> ok_store lease_kind x)) (TargetGuardLeaseRef target) = Some x" for c x
    using object_store.fetch_upd(1) [OF store, of c "TargetGuardLeaseRef target" x "TargetGuardLeaseRef target"] by simp
  show ?thesis
    using assms(2-4) u object_store.update [OF store u] guard_store.updated [OF assms(1), of l "w_api w"]
    by (auto simp: guard_update_def on_api_def here split: sum.splits if_splits)
qed

lemma attempt_effect:
  assumes api: "admission_api view (rr_client r)" and run: "guard_attempt r now run target False w = (res, w')"
  shows "case res of Inr (Some (b, got)) \<Rightarrow>
      if got then guard_claimed (view (w_api w)) (view (w_api w')) run target
      else guard_refused (view (w_api w)) (view (w_api w')) run target b
    | _ \<Rightarrow> view (w_api w') = view (w_api w)"
proof -
  have guard: "guard_store view (kc_leases (rr_client r))"
    using api by (simp add: admission_api_def)
  have store: "object_store view lease_kind (kc_leases (rr_client r))"
    using guard by (simp add: guard_store_def)
  let ?ref = "TargetGuardLeaseRef target" and ?me = "backupRunGuardHolder run"
  obtain found v where g: "on_api (api_get (kc_leases (rr_client r)) ?ref) w = (found, v)"
    by (cases "on_api (api_get (kc_leases (rr_client r)) ?ref) w")
  note read = object_store.read [OF store g]
  show ?thesis
  proof (cases found)
    case (Inl e)
    obtain created s' where c: "api_create (kc_leases (rr_client r)) (new_guard_lease run target now) (w_api v) = (created, s')"
      by (cases "api_create (kc_leases (rr_client r)) (new_guard_lease run target now) (w_api v)")
    have holder: "ls_holder (new_guard_lease run target now) = Some ?me"
      by (simp add: new_guard_lease_def Let_def)
    show ?thesis
    proof (cases "errors_is ApiNotFound e")
      case False
      then have "res = Inl (wrapf ''get target guard lease %s: %w'' [nsname_string ?ref] e)" "w' = v"
        using run g Inl by (simp_all add: guard_attempt_def Let_def)
      then show ?thesis
        using read(1) by simp
    next
      case True
      then have none: "guard_of (view (w_api w)) target = None"
        using read(3) Inl by (simp add: guard_of_def)
      show ?thesis
      proof (cases created)
        case (Inl e2)
        then show ?thesis
          using run g \<open>found = Inl e\<close> True c read(1) object_store.create [OF store c]
          by (auto simp: guard_attempt_def Let_def on_api_def split: if_splits)
      next
        case (Inr stored)
        then have "res = Inr (Some (None, True))" "w' = v\<lparr>w_api := s'\<rparr>"
          using run g \<open>found = Inl e\<close> True c by (auto simp: guard_attempt_def Let_def on_api_def)
        moreover have "view s' = (view (w_api w))((''lease'', ?ref) \<mapsto> ok_store lease_kind stored)"
          using object_store.create [OF store c] Inr read(1) by (simp add: lease_key_new)
        moreover have "fetch lease_kind (view s') ?ref = Some stored"
          using calculation(3) object_store.fetch_upd(1) [OF store] by simp
        moreover have "ls_holder stored = Some ?me"
          using guard_store.created [OF guard] c Inr holder by metis
        ultimately show ?thesis
          using none by (simp add: guard_claimed_def guard_of_def)
      qed
    qed
  next
    case (Inr l)
    have l: "guard_of (view (w_api w)) target = Some l"
      using read(2) Inr by (simp add: guard_of_def)
    have key: "object_key lease_kind l = ?ref"
      using l object_store.fetch_key [OF store] by (simp add: guard_of_def)
    let ?claimed = "claimTargetGuardLease l run target ?me now (holder_of l)"
    have claim: "case res of Inr (Some (b, got)) \<Rightarrow> got \<and> guard_claimed (view (w_api w)) (view (w_api w')) run target
        | _ \<Rightarrow> view (w_api w') = view (w_api w)"
      if "guard_update r f args ?claimed u = (res, w')" "view (w_api u) = view (w_api w)"
        "holder_of l \<noteq> ?me \<Longrightarrow> \<forall>b. \<not> blocks (view (w_api w)) (holder_of l) target b" for f args u
      using claim_effect [OF guard that(1), of target ?me] key that(2,3) l
      by (auto simp: lease_key_claim holder_claim guard_claimed_def split: sum.splits option.splits prod.splits)
    show ?thesis
    proof (cases "holder_of l = [] \<or> holder_of l = ?me")
      case True
      then have "guard_update r ''update target guard lease %s: %w'' [nsname_string ?ref] ?claimed v = (res, w')"
        using run g Inr by (auto simp: guard_attempt_def Let_def holder_of_def split: option.splits)
      from claim [OF this read(1)] True show ?thesis
        by (auto split: sum.splits option.splits prod.splits)
    next
      case False
      obtain h u where a: "activeGuardHolder r (holder_of l) target v = (h, u)"
        by (cases "activeGuardHolder r (holder_of l) target v")
      note who = holder_effect [OF api a]
      have step: "(res, w') = then_do (h, u) (\<lambda>(blocking, active) w.
           if active then (Inr (Some (blocking, False)), w)
           else then_do (Inr (), w) (\<lambda>_. guard_update r ''steal target guard lease %s from %q: %w'' [nsname_string ?ref, holder_of l] ?claimed))"
        using run g Inr False a by (simp add: guard_attempt_def Let_def holder_of_def split: option.splits if_splits cong: if_cong)
      show ?thesis
      proof (cases h)
        case (Inl e)
        then show ?thesis
          using step who(1) read(1) by simp
      next
        case ok: (Inr x)
        obtain blocking active where x: "x = (blocking, active)"
          by (cases x)
        show ?thesis
        proof (cases active)
          case True
          then show ?thesis
            using step ok x who read(1) False l by (auto simp: guard_refused_def)
        next
          case False
          then have "guard_update r ''steal target guard lease %s from %q: %w'' [nsname_string ?ref, holder_of l] ?claimed u = (res, w')"
            using step ok x by simp
          from claim [OF this] who read(1) ok x False show ?thesis
            by (auto split: sum.splits option.splits prod.splits)
        qed
      qed
    qed
  qed
qed

lemma attempts_effect:
  assumes api: "admission_api view (rr_client r)"
  shows "guard_attempts r now n run target False w = (Inr (b, got), w') \<Longrightarrow>
    if got then guard_claimed (view (w_api w)) (view (w_api w')) run target
    else guard_refused (view (w_api w)) (view (w_api w')) run target b"
proof (induction n arbitrary: w)
  case (Suc n)
  obtain res u where a: "guard_attempt r now run target False w = (res, u)"
    by (cases "guard_attempt r now run target False w")
  note one = attempt_effect [OF api a]
  show ?case
  proof (cases res)
    case (Inl e)
    then show ?thesis
      using Suc.prems a by simp
  next
    case (Inr found)
    show ?thesis
    proof (cases found)
      case None
      then have same: "view (w_api u) = view (w_api w)"
        using one Inr by simp
      show ?thesis
        using Suc.IH [of u, unfolded same] Suc.prems a Inr None by simp
    next
      case (Some x)
      then show ?thesis
        using Suc.prems one a Inr by auto
    qed
  qed
qed simp


lemma memory_admission_api: "admission_api memory_view memory_client"
  using memory_guards.guard_store_axioms memory_backups.object_store_axioms memory_store [of machine_kind]
  by (simp add: admission_api_def memory_client_def)

definition demo_machinery :: apimachinery where
  "demo_machinery = \<lparr>NestedBool = (\<lambda>_ _. Inr None), NestedString = (\<lambda>_ _. Inr None), NestedMap = (\<lambda>_ _. Inr None),
     NestedSlice = (\<lambda>_ _. Inr None), ParseQuantity = Inr, QuantityIsZero = (\<lambda>q. q = ''0'')\<rparr>"

definition demo_reconciler :: "memory reconciler" where
  "demo_reconciler = \<lparr>rr_client = memory_client, rr_scheme = None, rr_image = ''krm'', rr_grpcNamespace = [], rr_grpcEndpoint = [],
     rr_hasControl = True, rr_capabilities = None, rr_controlCA = [], rr_signer = None, rr_hasRecorder = True,
     rr_crypto = demo_crypto, rr_machinery = demo_machinery, rr_validation = any_name, rr_quantityValue = (\<lambda>_. 0)\<rparr>"

lemma demo_client [simp]: "rr_client demo_reconciler = memory_client"
  by (simp add: demo_reconciler_def)


section \<open>Which run is kept when several wait\<close>

definition waiting_runs :: "cluster \<Rightarrow> nsname \<Rightarrow> backup_job set" where
  "waiting_runs c target = {run. fetch backup_kind c (run_key_of run) = Some run \<and> waits run \<and> target_of c run = Some target}"

lemma pending_effect:
  assumes store: "object_store view machine_kind (kc_machines (rr_client r))"
  shows "pending_runs r target runs w = (res, w') \<Longrightarrow> view (w_api w') = view (w_api w)
    \<and> (\<forall>ps. res = Inr ps \<longrightarrow> set ps = {run \<in> set runs. waits run \<and> target_of (view (w_api w)) run = Some target})"
proof (induction runs arbitrary: w res w')
  case (Cons run runs)
  show ?case
  proof (cases "waits run")
    case False
    then show ?thesis
      using Cons by auto
  next
    case True
    then have live: "\<not> isTerminalPhase (phase_of run)"
      by (auto simp: waits_def isTerminalPhase_def)
    obtain ref v where m: "machineRefForBackupJob r run w = (ref, v)"
      by (cases "machineRefForBackupJob r run w")
    obtain rest u where p: "pending_runs r target runs v = (rest, u)"
      by (cases "pending_runs r target runs v")
    note one = machineRef_effect [OF store m]
    show ?thesis
    proof (cases ref)
      case (Inl e)
      then show ?thesis
        using Cons.prems one(1) True live m by auto
    next
      case (Inr at)
      have at: "at = target_of (view (w_api w)) run"
        using one(2) Inr by simp
      have same: "view (w_api u) = view (w_api w)" "\<And>ps. rest = Inr ps \<Longrightarrow> set ps = {run \<in> set runs. waits run \<and> target_of (view (w_api w)) run = Some target}"
        using Cons.IH [OF p] one(1) by auto
      have "(res, w') = then_do (rest, u) (\<lambda>ps w. (Inr (if at = Some target then run # ps else ps), w))"
        using Cons.prems True live m Inr p by simp
      then show ?thesis
        using same True at by (cases rest) auto
    qed
  qed
qed auto

lemma sort_key_hd:
  assumes "xs \<noteq> []"
  shows "hd (sort_key f xs) \<in> set xs" "x \<in> set xs \<Longrightarrow> f (hd (sort_key f xs)) \<le> f x"
proof -
  have ne: "sort_key f xs \<noteq> []"
    using assms by (metis length_0_conv length_sort)
  then have "hd (sort_key f xs) \<in> set (sort_key f xs)"
    by (rule hd_in_set)
  then show "hd (sort_key f xs) \<in> set xs"
    by simp
  show "f (hd (sort_key f xs)) \<le> f x" if "x \<in> set xs"
  proof -
    have "sorted (map f (sort_key f xs))" "x \<in> set (sort_key f xs)"
      using that by simp_all
    then show ?thesis
      using ne by (cases "sort_key f xs") auto
  qed
qed

text \<open>Of the runs that wait for one target, the oldest goes on: when the question is settled for a
  run that waits for the target, the answer is a waiting run of that target, none of which is
  older (names decide between equals), and the run goes on exactly if the answer is its own
  name, so that no two of them go on.\<close>

theorem coalescing_keeps_the_oldest:
  assumes api: "admission_api view (rr_client r)" and here: "run \<in> waiting_runs (view (w_api w)) (meta_key (m_meta target))"
    and run: "coalescePendingBackupJobsForTarget r now run target w = (Inr (canonical, goes), w')"
  shows "(\<exists>oldest \<in> waiting_runs (view (w_api w)) (meta_key (m_meta target)). canonical = run_key_of oldest
      \<and> (\<forall>other \<in> waiting_runs (view (w_api w)) (meta_key (m_meta target)). pending_order oldest \<le> pending_order other))
    \<and> (goes \<longleftrightarrow> canonical = run_key_of run)"
proof -
  have stores: "object_store view backup_kind (kc_backups (rr_client r))" "object_store view machine_kind (kc_machines (rr_client r))"
    using api by (simp_all add: admission_api_def)
  let ?target = "meta_key (m_meta target)" and ?c = "view (w_api w)"
  obtain runs v ps u where l: "on_api (api_list (kc_backups (rr_client r)) everything) w = (Inr runs, v)"
      and p: "pending_runs r ?target runs v = (Inr ps, u)"
      and rest: "(if length ps \<le> 1 then (Inr (run_key_of run, True), u)
       else let pending = sort_key pending_order ps; canonical = run_key_of (hd pending) in
         if canonical = run_key_of run
         then then_do (each_call (\<lambda>duplicate. cancelBackupJobMergedInto r now duplicate canonical) (tl pending) u)
           (\<lambda>_ w. (Inr (canonical, True), w))
         else (Inr (canonical, False), u)) = (Inr (canonical, goes), w')"
    using run unfolding coalescePendingBackupJobsForTarget_def go_result by (auto simp: go_result)
  have "set runs = {run. fetch backup_kind ?c (object_key backup_kind run) = Some run}" "view (w_api v) = ?c"
    using object_store.listed [OF stores(1) l] by (auto simp: selected_def everything_def)
  then have ps: "set ps = waiting_runs ?c ?target"
    using pending_effect [OF stores(2) p] by (auto simp: waiting_runs_def object_key_def run_key_of_def backup_kind_def)
  show ?thesis
  proof (cases "length ps \<le> 1")
    case True
    moreover have "run \<in> set ps"
      using here ps by simp
    ultimately have "ps = [run]"
      by (cases ps) auto
    then show ?thesis
      using rest True ps by auto
  next
    case False
    then have ne: "ps \<noteq> []"
      by auto
    have oldest: "hd (sort_key pending_order ps) \<in> waiting_runs ?c ?target"
      "\<forall>x \<in> waiting_runs ?c ?target. pending_order (hd (sort_key pending_order ps)) \<le> pending_order x"
      using sort_key_hd [OF ne, where f = pending_order] ps by auto
    have "canonical = run_key_of (hd (sort_key pending_order ps))" "goes \<longleftrightarrow> canonical = run_key_of run"
      using rest False by (auto simp: Let_def go_result split: if_splits)
    then show ?thesis
      using oldest by blast
  qed
qed

definition demo_waiting :: "string \<Rightarrow> gotime \<Rightarrow> gotime option \<Rightarrow> backup_job" where
  "demo_waiting name created deleted =
     demo_backup\<lparr>j_meta := (j_meta demo_backup)\<lparr>om_name := name, om_creation := created, om_deletion := deleted\<rparr>\<rparr>"

definition demo_pair :: memory where
  "demo_pair = [MachineObject demo_run_target, BackupObject (demo_waiting ''a'' 1 (Some 5)), BackupObject (demo_waiting ''b'' 2 None)]"

lemma demo_waiting_simps:
  "run_key_of (demo_waiting name created deleted) = (''ops'', name)" "waits (demo_waiting name created deleted)"
  "address (BackupObject (demo_waiting name created deleted)) = (''backup'', ''ops'', name)"
  "ResolveObjectReference (bs_machineRef (j_spec (demo_waiting name created deleted)))
     (om_namespace (j_meta (demo_waiting name created deleted))) = Inr (''ops'', ''vault'')"
  by (simp_all add: run_key_of_def meta_key_def demo_waiting_def demo_backup_def waits_def empty_backup_status_def address_def
      object_key_def kind_defs ResolveObjectReference_def NamespaceOr_def Let_def phase_of_def)

lemma selected_everything [simp]: "selected everything m"
  by (simp add: selected_def everything_def)

lemma demo_waiting_order: "pending_order (demo_waiting name created deleted) = (created, ''ops/'' @ name)"
  by (simp add: pending_order_def demo_waiting_def demo_backup_def namespacedKey_def nsname_string_def)

lemma demo_pair_view:
  "memory_view demo_pair = [(''machine'', ''ops'', ''vault'') \<mapsto> MachineObject demo_run_target,
     (''backup'', ''ops'', ''a'') \<mapsto> BackupObject (demo_waiting ''a'' 1 (Some 5)), (''backup'', ''ops'', ''b'') \<mapsto> BackupObject (demo_waiting ''b'' 2 None)]"
proof -
  have "address (MachineObject demo_run_target) = (''machine'', ''ops'', ''vault'')"
    by (simp add: address_def object_key_def kind_defs demo_run_target_def meta_key_def)
  then show ?thesis
    by (auto simp: memory_view_def demo_pair_def demo_waiting_simps fun_eq_iff)
qed

lemma demo_pair_fetch:
  "fetch machine_kind (memory_view demo_pair) (''ops'', ''vault'') = Some demo_run_target"
  "fetch backup_kind (memory_view demo_pair) (''ops'', ''b'') = Some (demo_waiting ''b'' 2 None)"
  by (simp_all add: fetch_def demo_pair_view kind_defs)

text \<open>The oldest run may be on its way out: the run that could work is then told to give way to it.\<close>

theorem coalescing_keeps_the_oldest_witness:
  "coalescePendingBackupJobsForTarget demo_reconciler 9 (demo_waiting ''b'' 2 None) demo_run_target (demo_world demo_pair)
     = (Inr ((''ops'', ''a''), False), demo_world demo_pair)
   \<and> om_deletion (j_meta (demo_waiting ''a'' 1 (Some 5))) \<noteq> None
   \<and> (\<exists>oldest \<in> waiting_runs (memory_view demo_pair) (''ops'', ''vault''). (''ops'', ''a'') = run_key_of oldest)"
proof -
  let ?a = "demo_waiting ''a'' 1 (Some 5)" and ?b = "demo_waiting ''b'' 2 None"
  have target: "meta_key (m_meta demo_run_target) = (''ops'', ''vault'')"
    by (simp add: demo_run_target_def meta_key_def)
  have views: "memory_view demo_pair (address (BackupObject ?a)) = Some (BackupObject ?a)"
    "memory_view demo_pair (address (BackupObject ?b)) = Some (BackupObject ?b)"
    by (simp_all add: demo_pair_view demo_waiting_simps)
  have listed: "memory_list backup_kind everything demo_pair = (Inr [?a, ?b], demo_pair)"
    unfolding memory_list_def using views
    by (simp add: map_filter_def kind_defs) (simp add: demo_pair_def map_filter_def)
  have ref: "machineRefForBackupJob demo_reconciler (demo_waiting name t d) (demo_world demo_pair) = (Inr (Some (''ops'', ''vault'')), demo_world demo_pair)"
    for name t d
    by (simp add: machineRefForBackupJob_def demo_waiting_simps on_api_def memory_client_def memory_api_def memory_get_def demo_pair_fetch)
  have live: "\<not> isTerminalPhase (phase_of (demo_waiting name t d))" for name t d
    using demo_waiting_simps(2) [of name t d] by (auto simp: waits_def isTerminalPhase_def)
  have sorted: "sort_key pending_order [?a, ?b] = [?a, ?b]"
    by (simp add: demo_waiting_order)
  have run: "coalescePendingBackupJobsForTarget demo_reconciler 9 ?b demo_run_target (demo_world demo_pair)
     = (Inr ((''ops'', ''a''), False), demo_world demo_pair)"
    unfolding coalescePendingBackupJobsForTarget_def
    by (simp add: on_api_def memory_client_def memory_api_def listed target demo_waiting_simps live ref sorted Let_def del: sort_key_simps)
  have "?b \<in> waiting_runs (memory_view (w_api (demo_world demo_pair))) (meta_key (m_meta demo_run_target))"
    by (simp add: waiting_runs_def target demo_waiting_simps demo_pair_fetch target_of_def)
  from coalescing_keeps_the_oldest [where view = memory_view, OF _ this run] memory_admission_api run
  show ?thesis
    by (auto simp: target demo_waiting_def)
qed

section \<open>What the history keeps\<close>

lemma history_sorted: "sorted (map history_order (sort_key history_order runs))"
  by simp

text \<open>Pruning a list of runs keeps the newest: what is kept and what is pruned are the runs
  that were given, as many are kept as the limit allows, and no pruned run is newer than a kept one.\<close>

theorem prune_keeps_the_newest:
  "\<exists>kept. mset kept + mset (pruneBackupJobHistoryCandidates runs keep) = mset runs
     \<and> length kept = min (nat keep) (length runs)
     \<and> (\<forall>k \<in> set kept. \<forall>p \<in> set (pruneBackupJobHistoryCandidates runs keep). history_order p \<le> history_order k)"
proof (intro exI conjI)
  let ?sorted = "rev (sort_key history_order runs)" and ?n = "nat keep"
  show "mset (take ?n ?sorted) + mset (pruneBackupJobHistoryCandidates runs keep) = mset runs"
    by (metis append_take_drop_id mset_append mset_rev mset_sort pruneBackupJobHistoryCandidates_def)
  show "length (take ?n ?sorted) = min ?n (length runs)"
    by simp
  have "sorted_wrt (\<lambda>x y. history_order y \<le> history_order x) ?sorted"
    using history_sorted [of runs] by (simp add: sorted_wrt_rev sorted_wrt_map)
  then have "sorted_wrt (\<lambda>x y. history_order y \<le> history_order x) (take ?n ?sorted @ drop ?n ?sorted)"
    by simp
  then show "\<forall>k \<in> set (take ?n ?sorted). \<forall>p \<in> set (pruneBackupJobHistoryCandidates runs keep). history_order p \<le> history_order k"
    unfolding sorted_wrt_append pruneBackupJobHistoryCandidates_def by blast
qed

end
