(* ===== verification/Backup_Progress.thy ===== *)
theory Backup_Progress
  imports Backup_Admission Run_Events
begin

text \<open>
  What a running BackupJob does (controller/reconcilers.go): the source jobs and how
  their data is captured, the jobs of the run read back into its phase, the command
  that finalizes the snapshot, the recovery of a full target, and the reconciler's
  entry point.

  The code changes the run through a pointer while it calls the API, and remembers
  whether it changed: a \<open>draft\<close> carries both beside the world, on every path, errors
  included, because a failing run is stored with what was changed before.
\<close>

section \<open>The run as it is worked on\<close>

type_synonym 's draft = "'s world \<times> bool \<times> backup_job"

definition outside :: "('s world, 'a) call \<Rightarrow> ('s draft, 'a) call" where
  "outside f d = (case d of (w, c, run) \<Rightarrow> (case f w of (res, w) \<Rightarrow> (res, w, c, run)))"

definition edit_run :: "(backup_job \<Rightarrow> backup_job) \<Rightarrow> 's draft \<Rightarrow> 's draft" where
  "edit_run f d = (case d of (w, c, run) \<Rightarrow> (w, c, f run))"

definition draft_run :: "'s draft \<Rightarrow> backup_job" where
  "draft_run d = snd (snd d)"

definition upsert :: "gotime \<Rightarrow> backup_source \<Rightarrow> transfer_status \<Rightarrow> 's draft \<Rightarrow> 's draft" where
  "upsert now source status d = (case d of (w, c, run) \<Rightarrow>
     (case upsertBackupJobTransfer now source status run of (changed, run) \<Rightarrow> (w, changed \<or> c, run)))"

text \<open>\<open>r.Status().Update(ctx, run)\<close>\<close>

definition save_run :: "'s reconciler \<Rightarrow> string \<Rightarrow> ('s draft, unit) call" where
  "save_run r f d = (case d of (w, c, run) \<Rightarrow>
     (case update_status (kc_backups (rr_client r)) f [] run w of
        (Inl e, w) \<Rightarrow> (Inl e, w, c, run) | (Inr stored, w) \<Rightarrow> (Inr (), w, c, stored)))"

section \<open>How a source is captured\<close>

definition transfer_update :: "transfer_phase \<Rightarrow> string \<Rightarrow> capture_mode \<Rightarrow> string \<Rightarrow> gotime option \<Rightarrow> transfer_status" where
  "transfer_update phase message method snapshotName captureTime =
     (empty_transfer [])\<lparr>ts_phase := phase, ts_message := message, ts_captureMethod := method,
       ts_volumeSnapshotName := snapshotName, ts_captureTime := captureTime\<rparr>"

datatype prepared = Wait int | Ready source_job_options

definition no_options :: source_job_options where
  "no_options = \<lparr>sjo_targetPath = [], sjo_claimName = []\<rparr>"

text \<open>A snapshot that cannot be used: only the mode \<open>Auto\<close> falls back to a copy of the live claim.\<close>

definition give_up_snapshot ::
  "gotime \<Rightarrow> backup_source \<Rightarrow> capture_decision \<Rightarrow> string \<Rightarrow> string \<Rightarrow> gotime option \<Rightarrow> goerr \<Rightarrow> ('s draft, prepared) call" where
  "give_up_snapshot now source decision message snapshotName captureTime e d =
    (if cd_requested decision = CaptureAuto
     then (Inr (Ready no_options),
       upsert now source (transfer_update TransferSkipped (message @ ''; falling back to direct PVC copy'') CaptureDirect snapshotName captureTime) d)
     else (Inl e, upsert now source (transfer_update TransferFailed message CaptureVolumeSnapshot snapshotName captureTime) d))"

definition source_args :: "backup_source \<Rightarrow> string list" where
  "source_args source = [om_namespace (s_meta source), om_name (s_meta source)]"

definition prepare_claim ::
  "'s reconciler \<Rightarrow> gotime \<Rightarrow> backup_source \<Rightarrow> capture_decision \<Rightarrow> unstructured \<Rightarrow> string \<Rightarrow> gotime option \<Rightarrow> ('s draft, prepared) call" where
  "prepare_claim r now source decision observed snapshotName captureTime d =
    (let c = rr_client r; am = rr_machinery r; run = draft_run d;
         note = (\<lambda>message. upsert now source (transfer_update TransferPreparing message CaptureVolumeSnapshot snapshotName captureTime)) in
     then_do (outside (on_api (api_get (kc_claims c) (om_namespace (s_meta source), ss_pvc (s_spec source)))) d) (\<lambda>sourcePVC d.
       let temporaryPVC = BuildTemporaryPVCFromSnapshot am run source sourcePVC (VolumeSnapshotRestoreSize am observed) in
       (case setOwnerReferenceIfSameNamespace (rr_scheme r) ''BackupSource'' (s_meta source) claim_kind temporaryPVC of
          Inl e \<Rightarrow> (Inl (wrapf ''set backup source owner reference on persistent volume claim %s/%s: %w'' (key_args claim_kind temporaryPVC) e), d)
        | Inr temporaryPVC \<Rightarrow>
          then_do (outside (createPersistentVolumeClaimIfMissing (kc_claims c) temporaryPVC) d) (\<lambda>_ d.
          then_do (outside (on_api (api_get (kc_claims c) (meta_key (pv_meta temporaryPVC)))) d) (\<lambda>observedPVC d.
            if pv_phase observedPVC \<noteq> ''Bound'' then
              (if resourceTimedOut (pv_meta observedPVC) temporaryPVCBindingTimeout now
               then give_up_snapshot now source decision ''SourceSnapshotPVCBindTimedOut after 5m0s'' snapshotName captureTime
                 (errorf ''source %s/%s temporary snapshot PVC binding timed out after %s'' (source_args source @ [''5m0s''])) d
               else (Inr (Wait temporaryPVCBindRequeueAfter), note ''Waiting for temporary snapshot PVC to bind'' d))
            else (Inr (Ready (no_options\<lparr>sjo_claimName := om_name (pv_meta temporaryPVC)\<rparr>)),
              note ''Using ready VolumeSnapshot temporary PVC'' d))))))"

definition prepare_snapshot ::
  "'s reconciler \<Rightarrow> gotime \<Rightarrow> backup_source \<Rightarrow> capture_decision \<Rightarrow> ('s draft, prepared) call" where
  "prepare_snapshot r now source decision d =
    (let c = rr_client r; am = rr_machinery r; volumeSnapshot = BuildVolumeSnapshot (draft_run d) source in
     case setOwnerReferenceIfSameNamespace (rr_scheme r) ''BackupSource'' (s_meta source) snapshot_kind volumeSnapshot of
       Inl e \<Rightarrow> (Inl (wrapf ''set backup source owner reference on volume snapshot %s/%s: %w'' (key_args snapshot_kind volumeSnapshot) e), d)
     | Inr volumeSnapshot \<Rightarrow>
       let name = om_name (un_meta volumeSnapshot) in
       then_do (outside (createVolumeSnapshotIfMissing (kc_snapshots c) volumeSnapshot) d) (\<lambda>_ d.
       then_do (outside (getVolumeSnapshot (kc_snapshots c) (om_namespace (un_meta volumeSnapshot)) name) d) (\<lambda>observed d.
         let captureTime = VolumeSnapshotCreationTime am observed in
         case VolumeSnapshotFailure am observed of
           Some failure \<Rightarrow> give_up_snapshot now source decision (''SourceSnapshotFailed: '' @ vf_message failure) name captureTime
             (errorf ''source %s/%s snapshot failed: %s'' (source_args source @ [vf_message failure])) d
         | None \<Rightarrow>
           if \<not> VolumeSnapshotReady am observed then
             (if resourceTimedOut (un_meta observed) snapshotReadyTimeout now
              then give_up_snapshot now source decision ''SourceSnapshotTimedOut after 10m0s'' name captureTime
                (errorf ''source %s/%s snapshot readiness timed out after %s'' (source_args source @ [''10m0s''])) d
              else (Inr (Wait snapshotReadyRequeueAfter),
                upsert now source (transfer_update TransferPreparing ''Waiting for VolumeSnapshot to become ready''
                  CaptureVolumeSnapshot name captureTime) d))
           else prepare_claim r now source decision observed name captureTime d)))"

definition prepare_source :: "'s reconciler \<Rightarrow> gotime \<Rightarrow> bool \<Rightarrow> backup_source \<Rightarrow> ('s draft, prepared) call" where
  "prepare_source r now snapshotAvailable source d =
    (let decision = DecideCaptureMode (ss_consistency (s_spec source)) snapshotAvailable in
     if \<not> cd_supported decision
     then (Inl (errorf ''source %s/%s snapshot capture unsupported: %s'' (source_args source @ [cd_reason decision])),
       upsert now source (transfer_update TransferFailed (''SourceSnapshotUnsupported: '' @ cd_reason decision) (cd_method decision) [] None) d)
     else let d = (if cd_fallback decision
         then upsert now source (transfer_update TransferPreparing (''SourceSnapshotFallbackToDirect: '' @ cd_reason decision) CaptureDirect [] None) d
         else d) in
       if cd_method decision = CaptureVolumeSnapshot then prepare_snapshot r now source decision d
       else (Inr (Ready no_options), d))"

text \<open>The first source that has to wait ends the pass, before any job is created.\<close>

fun prepare_sources ::
  "'s reconciler \<Rightarrow> gotime \<Rightarrow> bool \<Rightarrow> backup_source list \<Rightarrow> ('s draft, int + (backup_source \<times> source_job_options) list) call" where
  "prepare_sources r now avail [] d = (Inr (Inr []), d)"
| "prepare_sources r now avail (source # sources) d =
     then_do (prepare_source r now avail source d) (\<lambda>p d. case p of
       Wait delay \<Rightarrow> (Inr (Inl delay), d)
     | Ready opts \<Rightarrow> then_do (prepare_sources r now avail sources d) (\<lambda>rest d.
         (Inr (map_sum id (\<lambda>ps. (source, opts) # ps) rest), d)))"

definition create_source_job ::
  "'s reconciler \<Rightarrow> gotime \<Rightarrow> rsync_machine \<Rightarrow> backup_source \<times> source_job_options \<Rightarrow> ('s draft, unit) call" where
  "create_source_job r now target p d =
    (case p of (source, opts) \<Rightarrow>
      let d = (if sjo_claimName opts = [] then upsert now source (transfer_update TransferPreparing [] CaptureDirect [] None) d else d) in
      case BuildSendSourceJobWithControl (draft_run d) source target opts (rr_image r) (dataPlaneControlOptions r) of
        Inl e \<Rightarrow> (Inl e, d)
      | Inr job \<Rightarrow> outside (createSourceJobIfMissing r (draft_run d) source job) d)"

definition createSourceJobs ::
  "'s reconciler \<Rightarrow> gotime \<Rightarrow> rsync_machine \<Rightarrow> target_run_set \<Rightarrow> ('s draft, requeue) call" where
  "createSourceJobs r now target runSet d =
    (case d of (w, c, run) \<Rightarrow> case snapshot_available r w of (avail, w) \<Rightarrow>
      then_do (prepare_sources r now avail (map rsv_source (trs_sources runSet)) (w, False, run)) (\<lambda>ready d. case ready of
        Inl delay \<Rightarrow> (Inr (Some delay), d)
      | Inr ps \<Rightarrow> then_do (each_call (create_source_job r now target) ps d) (\<lambda>_ d. (Inr None, d))))"

section \<open>A source job that completed\<close>

text \<open>The loop over the transfers: \<open>None\<close> when the source has succeeded already.\<close>

fun capture_method_of :: "string \<Rightarrow> transfer_status list \<Rightarrow> capture_mode \<Rightarrow> capture_mode option" where
  "capture_method_of sourceID [] method = Some method"
| "capture_method_of sourceID (t # ts) method =
    (if ts_source t = sourceID \<and> ts_phase t = TransferSucceeded then None
     else capture_method_of sourceID ts
       (if ts_source t = sourceID \<and> ts_captureMethod t \<noteq> CaptureUnset then ts_captureMethod t else method))"

definition source_of_job :: "backup_job \<Rightarrow> k8s_job \<Rightarrow> target_run_set \<Rightarrow> backup_source option" where
  "source_of_job run job runSet = find (\<lambda>source. om_namespace (s_meta source) = om_namespace (kj_meta job)
     \<and> GeneratedJobName (''source-'' @ om_name (s_meta source)) (om_name (j_meta run)) = om_name (kj_meta job))
     (map rsv_source (trs_sources runSet))"

definition markSourceJobSucceeded :: "'s reconciler \<Rightarrow> gotime \<Rightarrow> k8s_job \<Rightarrow> ('s draft, unit) call" where
  "markSourceJobSucceeded r now job d =
     then_do (outside (resolveBackupJob r (draft_run d)) d) (\<lambda>(runSet, _) d.
       let run = draft_run d in
       case source_of_job run job runSet of
         None \<Rightarrow> (Inr (), d)
       | Some source \<Rightarrow>
         (case capture_method_of (source_id source) (bj_transfers (j_status run)) (CaptureOrDefault (ss_consistency (s_spec source))) of
            None \<Rightarrow> (Inr (), d)
          | Some method \<Rightarrow>
            (case d of (w, c, run) \<Rightarrow>
              case upsertBackupJobTransfer now source
                  (transfer_update TransferSucceeded (''Source '' @ source_id source @ '' completed'') method [] None) run of
                (changed, run) \<Rightarrow>
                  (Inr (), if changed then recordRunEvent r (run_key_of run) ''Normal'' ''SourceCompleted''
                       ''Source %s completed for BackupJob %s/%s'' (source_id source # run_args run) w else w, changed \<or> c, run))))"

section \<open>The commands to the target\<close>

abbreviation targetRecoveryMinAvailableBytes :: int where "targetRecoveryMinAvailableBytes \<equiv> 64 * 1024 * 1024"
abbreviation AnnotationTestRecoveryMinAvailable :: string where
  "AnnotationTestRecoveryMinAvailable \<equiv> ''krm.chirino.github.io/test-recovery-min-available''"

definition backupRunFinalizeCommandSent :: "backup_job \<Rightarrow> bool" where
  "backupRunFinalizeCommandSent run = (case bj_lastCommand (j_status run) of
      Some c \<Rightarrow> cs_type c = TargetCommandFinalizeBackupJob \<and> cs_sentAt c \<noteq> None | None \<Rightarrow> False)"

definition backupRunFinalizeSnapshotPath :: "backup_job \<Rightarrow> string" where
  "backupRunFinalizeSnapshotPath run = (case bj_lastCommand (j_status run) of
      Some c \<Rightarrow> (case cs_sentAt c of
          Some t \<Rightarrow> if cs_type c = TargetCommandFinalizeBackupJob then ''hourly/'' @ format_timestamp t else []
        | None \<Rightarrow> [])
    | None \<Rightarrow> [])"

definition backupRunSnapshotPathForStrategy :: "rsync_machine \<Rightarrow> backup_job \<Rightarrow> string" where
  "backupRunSnapshotPathForStrategy target run =
     (if is_mirror_target target then DefaultMirrorSnapshot else backupRunFinalizeSnapshotPath run)"

definition run_control_key :: "backup_job \<Rightarrow> run_key" where
  "run_control_key run = \<lparr>rk_namespace = om_namespace (j_meta run), rk_name = om_name (j_meta run), rk_kind = RunKindBackup\<rparr>"

definition enqueue :: "'s reconciler \<Rightarrow> run_key \<Rightarrow> target_command \<Rightarrow> ('s draft, bool) waiting" where
  "enqueue r key command d = (case d of (w, c, run) \<Rightarrow>
     map_option (\<lambda>(res, s). (res, w\<lparr>w_control := s\<rparr>, c, run)) (EnqueueTargetCommand (rr_validation r) key command (w_control w)))"

definition expected_source :: "target_run_set \<Rightarrow> resolved_source \<Rightarrow> expected_source" where
  "expected_source runSet s = \<lparr>es_namespace = om_namespace (s_meta (rsv_source s)), es_name = om_name (s_meta (rsv_source s)),
     es_destinationPath = (if retention_empty (trs_retention runSet) \<and> rsv_effectivePath s = [] then ''.'' else rsv_effectivePath s)\<rparr>"

definition finalize_command_id :: "backup_job \<Rightarrow> string" where
  "finalize_command_id run = ''finalize-'' @ dnsLabel (om_name (j_meta run))"

definition finalize_sent_at :: "gotime \<Rightarrow> backup_job \<Rightarrow> gotime" where
  "finalize_sent_at now run = (case bj_lastCommand (j_status run) of
      Some c \<Rightarrow> (case cs_sentAt c of
          Some t \<Rightarrow> if cs_id c = finalize_command_id run \<and> cs_type c = TargetCommandFinalizeBackupJob then t else now
        | None \<Rightarrow> now)
    | None \<Rightarrow> now)"

definition finalize_command :: "gotime \<Rightarrow> target_run_set \<Rightarrow> backup_job \<Rightarrow> target_command" where
  "finalize_command now runSet run = NewFinalizeBackupJobCommand (finalize_command_id run)
     \<lparr>fj_timestamp = format_timestamp (finalize_sent_at now run), fj_sources = map (expected_source runSet) (trs_sources runSet),
      fj_bytesTransferred = backupJobBytesTransferred (bj_transfers (j_status run))\<rparr>"

text \<open>\<open>run.Status.LastCommand != nil && run.Status.LastCommand.ID == commandID\<close>\<close>

definition last_command_is :: "string \<Rightarrow> backup_job \<Rightarrow> bool" where
  "last_command_is commandID run = (case bj_lastCommand (j_status run) of Some c \<Rightarrow> cs_id c = commandID | None \<Rightarrow> False)"

definition mark_sent :: "target_command \<Rightarrow> gotime \<Rightarrow> 's draft \<Rightarrow> 's draft" where
  "mark_sent command sentAt = edit_run (\<lambda>run. snd (MarkFinalizeCommandSent run command sentAt))"

definition enqueueFinalizeCommand :: "'s reconciler \<Rightarrow> gotime \<Rightarrow> ('s draft, unit) waiting" where
  "enqueueFinalizeCommand r now d =
     then_wait (Some (outside (resolveBackupJob r (draft_run d)) d)) (\<lambda>(runSet, _) d.
       let run = draft_run d; command = finalize_command now runSet run in
       then_wait (enqueue r (run_control_key run) command d) (\<lambda>enqueued d.
         if \<not> enqueued \<and> last_command_is (finalize_command_id run) run then Some (Inr (), d)
         else Some (Inr (), mark_sent command (finalize_sent_at now run) d)))"

section \<open>A target that is full\<close>

definition sourceAndTargetForBackupJob ::
  "'s reconciler \<Rightarrow> backup_job \<Rightarrow> k8s_job \<Rightarrow> ('s world, (backup_source \<times> rsync_machine) option) call" where
  "sourceAndTargetForBackupJob r run job w =
     then_do (resolveBackupJob r run w) (\<lambda>(runSet, target) w.
       (Inr (map_option (\<lambda>source. (source, target)) (source_of_job run job runSet)), w))"

definition recoveryMinAvailableBytes :: "apimachinery \<Rightarrow> (string \<Rightarrow> int) \<Rightarrow> rsync_machine \<Rightarrow> 64 word result" where
  "recoveryMinAvailableBytes am quantityValue target =
    (let value = lookup_text (om_annotations (m_meta target)) AnnotationTestRecoveryMinAvailable in
     if value = [] then Inr (word_of_int targetRecoveryMinAvailableBytes)
     else case ParseQuantity am value of
         Inl e \<Rightarrow> Inl (wrapf ''invalid %s annotation: %w'' [AnnotationTestRecoveryMinAvailable] e)
       | Inr quantity \<Rightarrow>
         if quantityValue quantity \<le> 0 then Inl (errorf ''invalid %s annotation %q'' [AnnotationTestRecoveryMinAvailable, value])
         else Inr (word_of_int (quantityValue quantity)))"

definition backupTransferOutOfSpace :: "transfer_status \<Rightarrow> bool" where
  "backupTransferOutOfSpace transfer =
    (let message = to_lower (ts_message transfer) in
     contains_str message ''no space left on device'' \<or> contains_str message ''enospc'' \<or> contains_str message ''disk full''
     \<or> ts_exitCode transfer = 11 \<or> ts_exitCode transfer = 12)"

definition hasRecoveredTransferRetry :: "transfer_status list \<Rightarrow> bool" where
  "hasRecoveredTransferRetry transfers = list_ex (\<lambda>t. ts_phase t = TransferPreparing
     \<and> contains_str (to_lower (ts_message t)) ''retrying after target space recovery'') transfers"

fun find_index :: "('a \<Rightarrow> bool) \<Rightarrow> 'a list \<Rightarrow> nat option" where
  "find_index p [] = None"
| "find_index p (x # xs) = (if p x then Some 0 else map_option Suc (find_index p xs))"

definition retry_transfer :: "nat \<Rightarrow> backup_job \<Rightarrow> backup_job" where
  "retry_transfer i run = (let ts = bj_transfers (j_status run) in
     run\<lparr>j_status := (j_status run)\<lparr>bj_transfers := ts[i := (ts ! i)\<lparr>ts_phase := TransferPreparing,
       ts_message := ''Retrying after target space recovery'', ts_exitCode := 0\<rparr>]\<rparr>\<rparr>)"

definition recovered_conditions :: "condition_entry list" where
  "recovered_conditions =
    [(ConditionFailed, CondFalse, ''RunStarted'', ''BackupJob recovered target space and is retrying''),
     (ConditionTransport, CondUnknown, ''TransportRunning'', ''Retrying source transfer after target space recovery'')]"

definition retry_source_job :: "'s reconciler \<Rightarrow> gotime \<Rightarrow> k8s_job \<Rightarrow> nat \<Rightarrow> ('s draft, requeue option) call" where
  "retry_source_job r now job i d =
     then_do (wrapped ''delete failed source job after target recovery: %w'' []
         (outside (delete_object (kc_jobs (rr_client r)) ''Background'' job) d)) (\<lambda>_ d.
     then_do (save_run r ''update backup job recovery retry status: %w''
         (edit_run (\<lambda>run. set_conditions now recovered_conditions (retry_transfer i (completed_at None (with_phase RunRunning run)))) d))
       (\<lambda>_ d. (Inr (Some (Some (seconds 1))), d)))"

definition ask_for_space ::
  "'s reconciler \<Rightarrow> gotime \<Rightarrow> backup_source \<Rightarrow> rsync_machine \<Rightarrow> string \<Rightarrow> ('s draft, requeue option) waiting" where
  "ask_for_space r now source target commandID d =
    (case recoveryMinAvailableBytes (rr_machinery r) (rr_quantityValue r) target of
       Inl e \<Rightarrow> Some (Inl e, d)
     | Inr minAvailableBytes \<Rightarrow>
       let run = draft_run d;
           command = NewRecoverSpaceCommand commandID \<lparr>rv_failedSourceNamespace = om_namespace (s_meta source),
             rv_failedSourceName = om_name (s_meta source), rv_reason = ''TargetOutOfSpace'', rv_minAvailableBytes = minAvailableBytes,
             rv_protectedSnapshots = []\<rparr> in
       then_wait (enqueue r (run_control_key run) command d) (\<lambda>enqueued d.
         if enqueued \<or> \<not> last_command_is commandID run
         then Some (then_do (save_run r ''update backup job recovery command status: %w''
             (edit_run (set_conditions now [(ConditionTransport, CondUnknown, ''TransportRunning'', ''Waiting for target space recovery'')])
               (mark_sent command now d)))
           (\<lambda>_ d. (Inr (Some (Some (seconds 5))), d)))
         else Some (Inr (Some (Some (seconds 5))), d)))"

text \<open>\<open>None\<close> is \<open>handled = false\<close>.\<close>

definition reconcileRecoverableSourceJobFailure :: "'s reconciler \<Rightarrow> gotime \<Rightarrow> k8s_job \<Rightarrow> ('s draft, requeue option) waiting" where
  "reconcileRecoverableSourceJobFailure r now job d =
    (if \<not> rr_hasControl r then Some (Inr None, d)
     else then_wait (Some (outside (sourceAndTargetForBackupJob r (draft_run d) job) d)) (\<lambda>found d. case found of
         None \<Rightarrow> Some (Inr None, d)
       | Some (source, target) \<Rightarrow>
         let run = draft_run d; ts = bj_transfers (j_status run);
             commandID = ''recover-space-'' @ dnsLabel (om_namespace (s_meta source) @ ''-'' @ om_name (s_meta source)) in
         (case find_index (\<lambda>t. ts_source t = source_id source) ts of
            None \<Rightarrow> Some (Inr None, d)
          | Some i \<Rightarrow>
            if \<not> backupTransferOutOfSpace (ts ! i) then Some (Inr None, d)
            else (case bj_lastCommand (j_status run) of
                Some c \<Rightarrow>
                  if cs_id c = commandID \<and> cs_type c = TargetCommandRecoverSpace then
                    (case cs_acknowledgedAt c of
                       None \<Rightarrow> Some (Inr (Some (Some (seconds 5))), d)
                     | Some acked \<Rightarrow> if om_creation (kj_meta job) > acked then Some (Inr None, d)
                         else Some (retry_source_job r now job i d))
                  else ask_for_space r now source target commandID d
              | None \<Rightarrow> ask_for_space r now source target commandID d))))"

definition resumeRecoveredBackupJob :: "'s reconciler \<Rightarrow> gotime \<Rightarrow> ('s draft, bool) call" where
  "resumeRecoveredBackupJob r now d =
    (let run = draft_run d;
         due = (case bj_lastCommand (j_status run) of
             None \<Rightarrow> False
           | Some c \<Rightarrow> cs_type c = TargetCommandRecoverSpace \<and> cs_acknowledgedAt c \<noteq> None
               \<and> hasRecoveredTransferRetry (bj_transfers (j_status run))) in
     if \<not> due then (Inr False, d)
     else then_do (save_run r ''resume backup job after target recovery: %w''
         (edit_run (\<lambda>run. set_conditions now recovered_conditions (completed_at None (with_phase RunRunning run))) d))
       (\<lambda>_ d. (Inr True, d)))"

section \<open>The jobs of a run\<close>

record scan =
  sc_target :: bool
  sc_sources :: nat
  sc_complete :: bool

text \<open>The loop over the jobs ends early at a job that failed, or when a failure is being handled.\<close>

datatype scanned = Counted scan | SomeJobFailed | Handled requeue

definition job_role :: "k8s_job \<Rightarrow> string" where
  "job_role job = lookup_text (om_labels (kj_meta job)) LabelRole"

definition record_job :: "k8s_job \<Rightarrow> 's draft \<Rightarrow> 's draft" where
  "record_job job d = (case d of (w, rest) \<Rightarrow>
     (w\<lparr>w_metrics := RecordGeneratedJobStatus RunKindBackup (job_role job)
       (namespacedKey (om_namespace (kj_meta job)) (om_name (kj_meta job))) (generatedJobStatus None job) (w_metrics w)\<rparr>, rest))"

fun scan_jobs :: "'s reconciler \<Rightarrow> gotime \<Rightarrow> scan \<Rightarrow> k8s_job list \<Rightarrow> ('s draft, scanned) waiting" where
  "scan_jobs r now sc [] d = Some (Inr (Counted sc), d)"
| "scan_jobs r now sc (job # jobs) d =
    (let d = record_job job d in
     if jobFailed job then
       (if job_role job = RoleSourceSender
        then then_wait (reconcileRecoverableSourceJobFailure r now job d) (\<lambda>handled d. case handled of
            Some res \<Rightarrow> Some (Inr (Handled res), d) | None \<Rightarrow> Some (Inr SomeJobFailed, d))
        else Some (Inr SomeJobFailed, d))
     else if job_role job = RoleTargetServer
     then scan_jobs r now (sc\<lparr>sc_target := sc_target sc \<or> jobComplete job\<rparr>) jobs d
     else if job_role job = RoleSourceSender then
       (if jobComplete job
        then then_wait (Some (markSourceJobSucceeded r now job d))
          (\<lambda>_. scan_jobs r now (sc\<lparr>sc_sources := sc_sources sc + 1\<rparr>) jobs)
        else scan_jobs r now (sc\<lparr>sc_sources := sc_sources sc + 1, sc_complete := False\<rparr>) jobs d)
     else scan_jobs r now sc jobs d)"

section \<open>The next phase\<close>

datatype decided = Next run_phase | Again requeue

text \<open>An error of the status update is returned as it is; the other errors fail the run. \<open>Left\<close> errors
  are the latter.\<close>

datatype stop = FailRun goerr | ReturnError goerr

type_synonym ('w, 'a) decision = "'w \<Rightarrow> ((stop + 'a) \<times> 'w) option"

definition decide :: "('a result \<times> 'w) option \<Rightarrow> ('a \<Rightarrow> ('w, 'b) decision) \<Rightarrow> ((stop + 'b) \<times> 'w) option" where
  "decide r k = (case r of None \<Rightarrow> None | Some (Inl e, w) \<Rightarrow> Some (Inl (FailRun e), w) | Some (Inr x, w) \<Rightarrow> k x w)"

definition more_source_jobs :: "'s reconciler \<Rightarrow> gotime \<Rightarrow> rsync_machine \<Rightarrow> target_run_set \<Rightarrow> ('s draft, decided) decision" where
  "more_source_jobs r now target runSet d =
     decide (Some (createSourceJobs r now target runSet d)) (\<lambda>delay d. case delay of
       None \<Rightarrow> Some (Inr (Next RunRunning), d)
     | Some _ \<Rightarrow>
       (case d of (w, changed, run) \<Rightarrow>
         if \<not> changed then Some (Inr (Again delay), d)
         else (case save_run r ''update backup job source status: %w'' d of
             (Inl e, d) \<Rightarrow> Some (Inl (ReturnError e), d) | (Inr _, d) \<Rightarrow> Some (Inr (Again delay), d))))"

definition succeed_run :: "rsync_machine \<Rightarrow> 's draft \<Rightarrow> 's draft" where
  "succeed_run target = edit_run (\<lambda>run. if bj_snapshotPath (j_status run) = []
     then run\<lparr>j_status := (j_status run)\<lparr>bj_snapshotPath := backupRunSnapshotPathForStrategy target run\<rparr>\<rparr> else run)"

definition finalize_run :: "'s reconciler \<Rightarrow> gotime \<Rightarrow> ('s draft, decided) decision" where
  "finalize_run r now d = decide (enqueueFinalizeCommand r now d) (\<lambda>_ d. Some (Inr (Next RunFinalizing), d))"

definition next_phase :: "'s reconciler \<Rightarrow> gotime \<Rightarrow> scan \<Rightarrow> ('s draft, decided) decision" where
  "next_phase r now sc d =
    (let resolved = (\<lambda>k. decide (Some (outside (resolveBackupJob r (draft_run d)) d)) (\<lambda>(runSet, target). k runSet target)) in
     if sc_sources sc > 0 \<and> sc_complete sc \<and> (sc_target sc \<or> rr_hasControl r) then
       resolved (\<lambda>runSet target d.
         if sc_sources sc < length (trs_sources runSet) then more_source_jobs r now target runSet d
         else if \<not> rr_hasControl r then Some (Inr (Next RunSucceeded), d)
         else if sc_target sc \<and> backupRunFinalizeCommandSent (draft_run d)
         then Some (Inr (Next RunSucceeded), succeed_run target d)
         else finalize_run r now d)
     else if sc_sources sc > 0 then Some (Inr (Next RunRunning), d)
     else if sc_target sc \<or> bj_targetPhase (j_status (draft_run d)) = ''Ready''
     then resolved (\<lambda>runSet target. more_source_jobs r now target runSet)
     else Some (Inr (Next RunPreparing), d))"

section \<open>Storing the phase\<close>

definition outcome_conditions :: "run_phase \<Rightarrow> condition_entry list" where
  "outcome_conditions p =
    (if p = RunSucceeded then
       [(ConditionFailed, CondFalse, ''RunSucceeded'', ''BackupJob completed successfully''),
        (ConditionTransport, CondTrue, ''TransportComplete'', ''All source transfers completed'')]
     else if p = RunFailed then
       [(ConditionFailed, CondTrue, ''RunFailed'', ''A generated backup Job failed''),
        (ConditionTransport, CondFalse, ''TransportFailed'', ''A generated backup Job failed'')]
     else [])"

definition enter_phase :: "gotime \<Rightarrow> run_phase \<Rightarrow> backup_job \<Rightarrow> backup_job" where
  "enter_phase now p run =
    (let run = with_phase p run; run = (if p = RunSucceeded \<or> p = RunFailed then completed_at (Some now) run else run)
     in set_conditions now (outcome_conditions p) run)"

definition announce_phase :: "'s reconciler \<Rightarrow> run_phase \<Rightarrow> backup_job \<Rightarrow> 's world \<Rightarrow> 's world" where
  "announce_phase r p run w =
    (if p = RunSucceeded then recordRunEvent r (run_key_of run) ''Normal'' ''RunSucceeded'' ''BackupJob completed successfully'' [] w
     else if p = RunFailed then recordRunEvent r (run_key_of run) ''Warning'' ''RunFailed'' ''BackupJob failed because a generated Job failed'' [] w
     else w)"

definition after_run :: "'s reconciler \<Rightarrow> backup_job \<Rightarrow> ('s world, requeue) call" where
  "after_run r run w =
     then_do (releaseTargetGuardsForRun r run w) (\<lambda>_ w.
     then_do (cleanupRunCredentialSecrets (rr_client r) (j_meta run) runKindBackup w) (\<lambda>_ w.
     then_do (cleanupBackupJobTargetServices (rr_client r) (j_meta run) w) (\<lambda>_ w.
     then_do (pruneBackupJobHistory r run w) (\<lambda>_ w. (Inr None, w)))))"

definition store_phase :: "'s reconciler \<Rightarrow> gotime \<Rightarrow> run_phase \<Rightarrow> run_phase \<Rightarrow> 's draft \<Rightarrow> requeue result \<times> 's world" where
  "store_phase r now oldPhase p d =
    (case d of (w, changed, run) \<Rightarrow>
      if p = phase_of run then
        then_do (if changed then update_status (kc_backups (rr_client r)) ''update backup job source status: %w'' [] run w else (Inr run, w))
          (\<lambda>_ w. (Inr (if isTerminalPhase p then None else Some (seconds 5)), w))
      else then_do (update_status (kc_backups (rr_client r)) ''update backup job job-derived status: %w'' [] (enter_phase now p run) w) (\<lambda>run w.
        let w = record_phase RunKindBackup (run_key_of run) oldPhase (phase_of run) (announce_phase r p run w) in
        if isTerminalPhase (phase_of run) then after_run r run w else (Inr (Some (seconds 5)), w)))"

definition fail_with :: "'s reconciler \<Rightarrow> gotime \<Rightarrow> goerr \<Rightarrow> 's draft \<Rightarrow> requeue result \<times> 's world" where
  "fail_with r now e d = (case d of (w, c, run) \<Rightarrow> then_do (failBackupJob r now run e w) (\<lambda>_ w. (Inr None, w)))"

definition running_status :: "'s reconciler \<Rightarrow> gotime \<Rightarrow> k8s_job list \<Rightarrow> backup_job \<Rightarrow> ('s world, requeue) waiting" where
  "running_status r now jobs run w =
    (let oldPhase = phase_of run in
     case scan_jobs r now \<lparr>sc_target = False, sc_sources = 0, sc_complete = True\<rparr> jobs (w, False, run) of
       None \<Rightarrow> None
     | Some (Inl e, d) \<Rightarrow> Some (fail_with r now e d)
     | Some (Inr (Handled res), d) \<Rightarrow> Some (Inr res, fst d)
     | Some (Inr SomeJobFailed, d) \<Rightarrow> Some (store_phase r now oldPhase RunFailed d)
     | Some (Inr (Counted sc), d) \<Rightarrow>
       (case next_phase r now sc d of
          None \<Rightarrow> None
        | Some (Inl (FailRun e), d) \<Rightarrow> Some (fail_with r now e d)
        | Some (Inl (ReturnError e), d) \<Rightarrow> Some (Inl e, fst d)
        | Some (Inr (Again res), d) \<Rightarrow> Some (Inr res, fst d)
        | Some (Inr (Next p), d) \<Rightarrow> Some (store_phase r now oldPhase p d)))"

definition finished_status :: "'s reconciler \<Rightarrow> gotime \<Rightarrow> (backup_job \<Rightarrow> bool \<Rightarrow> ('s world, unit) call) \<Rightarrow> backup_job \<Rightarrow> ('s world, requeue) call" where
  "finished_status r now tidy run w =
     then_do (case (if phase_of run = RunFailed then resumeRecoveredBackupJob r now (w, False, run) else (Inr False, w, False, run)) of
         (res, w, _, run) \<Rightarrow> (map_sum id (\<lambda>resumed. (resumed, run)) res, w)) (\<lambda>(resumed, run) w.
       if resumed then (Inr (Some (seconds 1)), w)
       else case snapshot_available r w of (avail, w) \<Rightarrow> then_do (tidy run avail w) (\<lambda>_ w. (Inr None, w)))"

definition reconcileBackupJobJobStatus :: "'s reconciler \<Rightarrow> gotime \<Rightarrow> backup_job \<Rightarrow> ('s world, requeue) waiting" where
  "reconcileBackupJobJobStatus r now run w =
    (let c = rr_client r; m = j_meta run in
     if isTerminalPhase (phase_of run) then
       Some (finished_status r now (\<lambda>run avail w.
         then_do (cleanupBackupJobSnapshotResources c (j_meta run) avail w) (\<lambda>_ w.
         then_do (cleanupBackupJobTargetServices c (j_meta run) w) (\<lambda>_ w.
           cleanupRunCredentialSecrets c (j_meta run) runKindBackup w))) run w)
     else then_wait (Some (wrapped ''list backup job jobs: %w'' []
         (on_api (api_list (kc_jobs c) (MatchingLabels (run_selector m runKindBackup))) w)))
       (\<lambda>jobs w. if jobs = [] then Some (Inr None, w) else running_status r now jobs run w))"

section \<open>The entry point\<close>

definition ensureBackupJobCredentials ::
  "'s reconciler \<Rightarrow> gotime \<Rightarrow> backup_job \<Rightarrow> rsync_machine \<Rightarrow> target_run_set \<Rightarrow> ('s world, unit) call" where
  "ensureBackupJobCredentials r now run target runSet w =
    (let sources = map rsv_source (trs_sources runSet) in
     case BuildBackupJobCredentialSecretsWithSigner (rr_crypto r) now run target sources DefaultRunCertificateTTL (rr_signer r) [rr_controlCA r] (w_entropy w) of
       (Inl e, n) \<Rightarrow> (Inl e, w\<lparr>w_entropy := n\<rparr>)
     | (Inr credentials, n) \<Rightarrow>
       each_call (\<lambda>credential. createBackupJobSecretIfMissing r now run (credential_Secret credential)) credentials (w\<lparr>w_entropy := n\<rparr>))"

text \<open>\<open>return ctrl.Result{}, r.failBackupJob(ctx, &run, err)\<close>\<close>

definition or_fail ::
  "'s reconciler \<Rightarrow> gotime \<Rightarrow> backup_job \<Rightarrow> 'a result \<times> 's world \<Rightarrow> ('a \<Rightarrow> ('s world, requeue) call) \<Rightarrow> requeue result \<times> 's world" where
  "or_fail r now run res k = (case res of
      (Inl e, w) \<Rightarrow> then_do (failBackupJob r now run e w) (\<lambda>_ w. (Inr None, w))
    | (Inr x, w) \<Rightarrow> k x w)"

text \<open>\<open>return ctrl.Result{RequeueAfter: delay}, err\<close>\<close>

definition requeue_after :: "requeue \<Rightarrow> unit result \<times> 's world \<Rightarrow> requeue result \<times> 's world" where
  "requeue_after delay res = then_do res (\<lambda>_ w. (Inr delay, w))"

definition preparing :: "gotime \<Rightarrow> rsync_machine \<Rightarrow> target_run_set \<Rightarrow> backup_job \<Rightarrow> backup_job" where
  "preparing now target runSet run =
    (let run = run\<lparr>j_status := (j_status run)\<lparr>bj_includedMachines := trs_machines runSet, bj_phase := RunPreparing,
           bj_startedAt := (case bj_startedAt (j_status run) of None \<Rightarrow> Some now | t \<Rightarrow> t)\<rparr>\<rparr>
     in only_conditions now
       [(''Valid'', CondTrue, ''ResolvedReferences'', ''BackupJob references resolved successfully''),
        (''TargetReady'', CondTrue, ''TargetReady'', render ''RsyncMachine %s/%s is ready'' (machine_args target) []),
        (''TargetOverlap'', CondFalse, ''NoTargetOverlap'', ''No active BackupJob is mutating the target''),
        (''Failed'', CondFalse, ''RunStarted'', ''BackupJob started'')] run)"

definition launch_run :: "'s reconciler \<Rightarrow> gotime \<Rightarrow> backup_job \<Rightarrow> rsync_machine \<Rightarrow> target_run_set \<Rightarrow> ('s world, requeue) call" where
  "launch_run r now run target runSet w =
     or_fail r now run (ensureBackupJobCredentials r now run target runSet w) (\<lambda>_ w.
       case BuildServeTargetJobWithControl (ParseQuantity (rr_machinery r)) run target runSet (rr_image r) (format_timestamp now)
           (dataPlaneControlOptions r) of
         Inl e \<Rightarrow> or_fail r now run (Inl e, w) (\<lambda>_ :: unit. \<lambda>w. (Inr None, w))
       | Inr targetJob \<Rightarrow>
         then_do (createBackupJobJobIfMissing r run targetJob w) (\<lambda>_ w.
         then_do (createBackupJobServiceIfMissing r run (BuildTargetService run target) w) (\<lambda>_ w.
         (case on_api (api_update_status (kc_backups (rr_client r)) (preparing now target runSet run)) w of
            (Inl e, w) \<Rightarrow> (if errors_is ApiNotFound e then Inr None else Inl (wrapf ''set backup job preparing phase: %w'' [] e), w)
          | (Inr stored, w) \<Rightarrow> (Inr None, record_phase RunKindBackup (run_key_of stored) (phase_of run) (phase_of stored)
              (recordRunEvent r (run_key_of stored) ''Normal'' ''RunStarted'' ''BackupJob started for RsyncMachine %s/%s'' (machine_args target) w))))))"

text \<open>\<open>*blocking\<close> of a nil pointer would panic; the guard never refuses without naming a run.\<close>

definition start_run :: "'s reconciler \<Rightarrow> gotime \<Rightarrow> backup_job \<Rightarrow> ('s world, requeue) call" where
  "start_run r now run w =
     or_fail r now run (resolveBackupJob r run w) (\<lambda>(runSet, target) w.
     let replacing = (ConcurrencyPolicyOrDefault (m_spec target) = ConcurrencyReplace) in
     or_fail r now run (coalescePendingBackupJobsForTarget r now run target w) (\<lambda>(canonical, goes) w.
       if \<not> goes then requeue_after None (cancelBackupJobMergedInto r now run canonical w)
       else if \<not> TargetReady target then requeue_after None (holdBackupJobForTarget r now run target w)
       else or_fail r now run (findActiveBackupJobForTarget r run target w) (\<lambda>active w.
         let continue = (\<lambda>w.
           or_fail r now run (findActiveRestoreJobForTarget r target w) (\<lambda>restore w. case restore of
             Some restore \<Rightarrow> requeue_after (Some (seconds 30)) (holdBackupJobForRestore r now run target restore w)
           | None \<Rightarrow>
             or_fail r now run (acquireTargetGuard r now run target replacing w) (\<lambda>(blocking, acquired) w.
               if acquired then launch_run r now run target runSet w
               else case blocking of
                   Some b \<Rightarrow> requeue_after (Some (seconds 30)) (holdBackupJobForOverlap r now run target b target w)
                 | None \<Rightarrow> (Inl (errorf ''nil pointer dereference'' []), w)))) in
         case active of
           None \<Rightarrow> continue w
         | Some b \<Rightarrow> if replacing then or_fail r now run (cancelBackupJobForReplacement r now b run w) (\<lambda>_. continue)
             else requeue_after (Some (seconds 30)) (holdBackupJobForOverlap r now run target b target w))))"

definition with_finalizer :: "string \<Rightarrow> object_meta \<Rightarrow> object_meta" where
  "with_finalizer finalizer m = (if finalizer \<in> set (om_finalizers m) then m else m\<lparr>om_finalizers := om_finalizers m @ [finalizer]\<rparr>)"

definition backup_reconcile :: "'s reconciler \<Rightarrow> gotime \<Rightarrow> nsname \<Rightarrow> ('s world, requeue) waiting" where
  "backup_reconcile r now key w =
    (let c = rr_client r in
     case on_api (api_get (kc_backups c) key) w of
       (Inl e, w) \<Rightarrow> Some (if errors_is ApiNotFound e then Inr None else Inl e, w)
     | (Inr run, w) \<Rightarrow>
       then_wait (Some (ensureScheduledBackupJobOwnerReference r run w)) (\<lambda>(run, owned) w.
         if owned then Some (Inr None, w)
         else if om_deletion (j_meta run) \<noteq> None then
           Some (case snapshot_available r w of (avail, w) \<Rightarrow>
             then_do (releaseTargetGuardsForRun r run w) (\<lambda>_ w.
               requeue_after None (cleanupRunResourcesAndRemoveFinalizer c backup_kind (kc_backups c) run runKindBackup BackupJobFinalizer avail w)))
         else if isTerminalPhase (phase_of run) then
           Some (finished_status r now (\<lambda>run avail w.
             then_do (releaseTargetGuardsForRun r run w) (\<lambda>_ w.
             then_do (cleanupBackupJobSnapshotResources c (j_meta run) avail w) (\<lambda>_ w.
             then_do (cleanupBackupJobTargetServices c (j_meta run) w) (\<lambda>_ w.
               pruneBackupJobHistory r run w)))) run w)
         else if BackupJobFinalizer \<notin> set (om_finalizers (j_meta run)) then
           Some (then_do (wrapped ''add backup job finalizer: %w'' []
               (on_api (api_update (kc_backups c) (run\<lparr>j_meta := with_finalizer BackupJobFinalizer (j_meta run)\<rparr>)) w)) (\<lambda>_ w. (Inr None, w)))
         else if \<not> waits run then reconcileBackupJobJobStatus r now run w
         else Some (start_run r now run w)))"

section \<open>What leaves the control service alone\<close>

text \<open>\<open>calm v\<close>: the calls from which a computation comes out with the commands of the control service as in \<open>v\<close>.\<close>

definition calm :: "control_service \<Rightarrow> 'a \<times> 's world \<Rightarrow> bool" where
  "calm s r \<longleftrightarrow> w_control (snd r) = s"

definition calm_draft :: "control_service \<Rightarrow> 'a \<times> 's draft \<Rightarrow> bool" where
  "calm_draft s r \<longleftrightarrow> w_control (fst (snd r)) = s"

named_theorems calmly \<open>calls that leave the control service alone\<close>

lemma calm_pair [simp]: "calm s (res, w) \<longleftrightarrow> w_control w = s" "calm_draft s (res, d) \<longleftrightarrow> w_control (fst d) = s"
  by (simp_all add: calm_def calm_draft_def)

lemma calm_then [calmly]:
  assumes "calm s r" "\<And>x w. r = (Inr x, w) \<Longrightarrow> w_control w = s \<Longrightarrow> calm s (k x w)"
  shows "calm s (then_do r k)"
  using assms by (cases r; cases "fst r") auto

lemma calm_draft_then [calmly]:
  assumes "calm_draft s r" "\<And>x d. r = (Inr x, d) \<Longrightarrow> w_control (fst d) = s \<Longrightarrow> calm_draft s (k x d)"
  shows "calm_draft s (then_do r k)"
  using assms by (cases r; cases "fst r") auto

lemma calm_on_api [calmly]: "w_control w = s \<Longrightarrow> calm s (on_api f w)"
  using on_api_only [of w f] by (simp add: calm_def only_api_def)

lemma calm_wrapped [calmly]: "calm s r \<Longrightarrow> calm s (wrapped f args r)" "calm_draft s q \<Longrightarrow> calm_draft s (wrapped f args q)"
  by (simp_all add: calm_def calm_draft_def)

lemma calm_ignore [calmly]: "calm s r \<Longrightarrow> calm s (IgnoreNotFound r)" "calm s r \<Longrightarrow> calm s (ignore_result r)"
  by (cases r; cases "fst r"; simp add: calm_def) (cases r; cases "fst r"; simp add: calm_def ignore_result_def)

lemma calm_each [calmly]:
  assumes "\<And>x w. x \<in> set xs \<Longrightarrow> w_control w = s \<Longrightarrow> calm s (f x w)" "w_control w = s"
  shows "calm s (each_call f xs w)"
  using assms
proof (induction xs arbitrary: w)
  case (Cons x xs)
  show ?case
    unfolding each_call.simps by (rule calm_then) (use Cons in auto)
qed simp

lemma calm_draft_each [calmly]:
  assumes "\<And>x d. x \<in> set xs \<Longrightarrow> w_control (fst d) = s \<Longrightarrow> calm_draft s (f x d)" "w_control (fst d) = s"
  shows "calm_draft s (each_call f xs d)"
  using assms
proof (induction xs arbitrary: d)
  case (Cons x xs)
  show ?case
    unfolding each_call.simps by (rule calm_draft_then) (use Cons in auto)
qed simp

lemma calm_case_sum [calmly]:
  assumes "\<And>e. r = Inl e \<Longrightarrow> calm s (f e)" "\<And>x. r = Inr x \<Longrightarrow> calm s (g x)"
  shows "calm s (case r of Inl e \<Rightarrow> f e | Inr x \<Rightarrow> g x)"
  using assms by (cases r) auto

lemma calm_case_option [calmly]:
  assumes "r = None \<Longrightarrow> calm s f" "\<And>x. r = Some x \<Longrightarrow> calm s (g x)"
  shows "calm s (case r of None \<Rightarrow> f | Some x \<Rightarrow> g x)"
  using assms by (cases r) auto

lemma calm_if [calmly]: "(b \<Longrightarrow> calm s x) \<Longrightarrow> (\<not> b \<Longrightarrow> calm s y) \<Longrightarrow> calm s (if b then x else y)"
  by simp

lemma calm_update [calmly]: "w_control w = s \<Longrightarrow> calm s (update_status api f args obj w)"
  using update_status_only [of w api f args obj] by (simp add: calm_def only_api_def)

lemma calm_result:
  assumes "calm s r" "\<And>e w. w_control w = s \<Longrightarrow> calm s (f e w)" "\<And>x w. w_control w = s \<Longrightarrow> calm s (g x w)"
  shows "calm s (case r of (Inl e, w) \<Rightarrow> f e w | (Inr x, w) \<Rightarrow> g x w)"
  using assms by (cases r; cases "fst r") auto

lemma calm_machineRef [calmly]: "w_control w = s \<Longrightarrow> calm s (machineRefForBackupJob r run w)"
  unfolding machineRefForBackupJob_def by (intro calmly calm_result) auto

lemma calm_resolve [calmly]: "w_control w = s \<Longrightarrow> calm s (resolveBackupJob r run w)"
  unfolding resolveBackupJob_def by (intro calmly calm_result) auto

lemma calm_available: "snapshot_available r w = (avail, v) \<Longrightarrow> w_control v = w_control w"
  by (auto simp: snapshot_available_def split: option.splits prod.splits)

lemma calm_cleanup [calmly]: "w_control w = s \<Longrightarrow> calm s (cleanupRunResources c run runKind snapshots w)"
  using cleanup_only [of w c run runKind snapshots] by (simp add: calm_def only_api_def)

lemma calm_delete_listed [calmly]: "w_control w = s \<Longrightarrow> calm s (delete_listed api policy labels w)"
  using delete_listed_only [of w api policy labels] by (simp add: calm_def only_api_def)

lemma calm_release [calmly]: "w_control w = s \<Longrightarrow> calm s (releaseTargetGuardsForRun r run w)"
  unfolding releaseTargetGuardsForRun_def release_lease_def by (intro calmly calm_result) auto

lemma calm_fail [calmly]:
  assumes "w_control w = s"
  shows "calm s (failBackupJob r now run e w)"
proof -
  have "w_control v = s" if "on_api f w = (res, v)" for f :: "('a, backup_job) call" and res v
    using calm_on_api [OF assms, of f] that by simp
  moreover have "w_control u = s" if "releaseTargetGuardsForRun r run v = (res, u)" "w_control v = s" for run v res u
    using calm_release [OF that(2), of r run] that(1) by simp
  ultimately show ?thesis
    unfolding failBackupJob_def Let_def by (auto split: prod.splits sum.splits)
qed

lemma calm_adopt [calmly]: "w_control w = s \<Longrightarrow> calm s (reconcileExistingOwnerReferences k api x y w)"
  unfolding reconcileExistingOwnerReferences_def by (auto split: prod.split intro!: calmly)

lemma calm_creates [calmly]:
  "w_control w = s \<Longrightarrow> calm s (createJobIfMissing japi job w)" "w_control w = s \<Longrightarrow> calm s (create_plain k what api x w)"
  unfolding createJobIfMissing_def create_plain_def Let_def by (intro calmly calm_result; auto)+

lemma calm_owned [calmly]: "w_control w = s \<Longrightarrow> (\<And>obj w. w_control w = s \<Longrightarrow> calm s (create obj w)) \<Longrightarrow> calm s (owned_by_run r ty owner what k create obj w)"
  unfolding owned_by_run_def by (intro calmly) auto

lemma calm_source_job [calmly]: "w_control w = s \<Longrightarrow> calm s (createSourceJobIfMissing r run source job w)"
  unfolding createSourceJobIfMissing_def by (intro calmly) auto

lemma calm_finalizer [calmly]: "w_control w = s \<Longrightarrow> calm s (cleanupRunResourcesAndRemoveFinalizer c k api run rk f avail w)"
  unfolding cleanupRunResourcesAndRemoveFinalizer_def by (intro calmly calm_result) auto

lemma calm_prune_run [calmly]: "w_control w = s \<Longrightarrow> calm s (prune_run r avail x w)"
  unfolding prune_run_def by (intro calmly calm_result) auto

lemma calm_prune [calmly]:
  assumes "w_control w = s"
  shows "calm s (pruneBackupJobHistory r run w)"
  unfolding pruneBackupJobHistory_def
  by (intro calmly calm_result) (use assms in \<open>auto split: prod.splits intro!: calmly dest: calm_available\<close>)

lemma calm_after [calmly]: "w_control w = s \<Longrightarrow> calm s (after_run r run w)"
  unfolding after_run_def cleanupRunCredentialSecrets_def cleanupBackupJobTargetServices_def deleteLabeledRunSecrets_def
    deleteLabeledRunServices_def by (intro calmly) auto

lemma calm_announce [simp]: "w_control (announce_phase r p run w) = w_control w"
  by (simp add: announce_phase_def)

lemma calm_store: "w_control (fst d) = s \<Longrightarrow> calm s (store_phase r now p q d)"
  unfolding store_phase_def by (cases d) (auto intro!: calmly simp: Let_def)

lemma calm_fail_with: "w_control (fst d) = s \<Longrightarrow> calm s (fail_with r now e d)"
  unfolding fail_with_def by (cases d) (auto intro!: calmly)

lemma calm_outside [calmly]: "(\<And>w. w_control w = s \<Longrightarrow> calm s (f w)) \<Longrightarrow> w_control (fst d) = s \<Longrightarrow> calm_draft s (outside f d)"
  unfolding outside_def calm_def calm_draft_def by (auto split: prod.splits) (metis snd_conv)

lemma calm_draft_cases [calmly]:
  "(\<And>e. r = Inl e \<Longrightarrow> calm_draft s (f e)) \<Longrightarrow> (\<And>x. r = Inr x \<Longrightarrow> calm_draft s (g x))
    \<Longrightarrow> calm_draft s (case r of Inl e \<Rightarrow> f e | Inr x \<Rightarrow> g x)"
  "(b \<Longrightarrow> calm_draft s x) \<Longrightarrow> (\<not> b \<Longrightarrow> calm_draft s y) \<Longrightarrow> calm_draft s (if b then x else y)"
  "(o' = None \<Longrightarrow> calm_draft s x') \<Longrightarrow> (\<And>z. o' = Some z \<Longrightarrow> calm_draft s (h z))
    \<Longrightarrow> calm_draft s (case o' of None \<Rightarrow> x' | Some z \<Rightarrow> h z)"
  by (auto split: sum.split option.split)

lemma calm_upsert [simp]: "w_control (fst (upsert now source status d)) = w_control (fst d)"
  by (cases d) (simp add: upsert_def split: prod.split)

lemma calm_edit [simp]: "w_control (fst (edit_run f d)) = w_control (fst d)" "w_control (fst (mark_sent command t d)) = w_control (fst d)"
  by (cases d, simp add: edit_run_def mark_sent_def)+

lemma calm_save [calmly]:
  assumes "w_control (fst d) = s"
  shows "calm_draft s (save_run r f d)"
proof -
  obtain w c run where d: "d = (w, c, run)"
    by (cases d)
  have "calm s (update_status (kc_backups (rr_client r)) f [] run w)"
    by (rule calm_update) (use assms d in simp)
  then show ?thesis
    unfolding save_run_def d by (auto split: prod.splits sum.splits)
qed

lemma calm_give_up: "w_control (fst d) = s \<Longrightarrow> calm_draft s (give_up_snapshot now source decision m n t e d)"
  by (simp add: give_up_snapshot_def)

lemma calm_prepare_source: "w_control (fst d) = s \<Longrightarrow> calm_draft s (prepare_source r now avail source d)"
  unfolding prepare_source_def prepare_snapshot_def prepare_claim_def Let_def getVolumeSnapshot_def
    createVolumeSnapshotIfMissing_def createPersistentVolumeClaimIfMissing_def
  by (intro calmly calm_give_up) auto

lemma calm_prepare_sources: "w_control (fst d) = s \<Longrightarrow> calm_draft s (prepare_sources r now avail sources d)"
proof (induction sources arbitrary: d)
  case (Cons source sources)
  show ?case
    unfolding prepare_sources.simps
    by (rule calm_draft_then, rule calm_prepare_source [OF Cons.prems])
      (use Cons.IH in \<open>auto split: prepared.split intro!: calm_draft_then\<close>)
qed simp

lemma calm_create_source_job: "w_control (fst d) = s \<Longrightarrow> calm_draft s (create_source_job r now target p d)"
  unfolding create_source_job_def Let_def by (cases p) (auto intro!: calmly)

lemma calm_createSourceJobs: "w_control (fst d) = s \<Longrightarrow> calm_draft s (createSourceJobs r now target runSet d)"
  unfolding createSourceJobs_def
  by (cases d) (auto split: prod.splits sum.splits dest!: calm_available intro!: calm_draft_then calm_draft_each calm_prepare_sources calm_create_source_job)

lemma calm_mark: "w_control (fst d) = s \<Longrightarrow> calm_draft s (markSourceJobSucceeded r now job d)"
  unfolding markSourceJobSucceeded_def Let_def
  by (rule calm_draft_then, intro calmly) (auto split: option.split prod.split)

lemma calm_record_job [simp]: "w_control (fst (record_job job d)) = w_control (fst d)"
  by (cases d) (simp add: record_job_def)

section \<open>When a target is told to finalize\<close>

abbreviation senders :: "k8s_job list \<Rightarrow> k8s_job list" where
  "senders jobs \<equiv> filter (\<lambda>job. job_role job = RoleSourceSender) jobs"

lemma scan_counts:
  assumes "scan_jobs r now sc jobs d = Some (Inr (Counted sc'), d')"
  shows "w_control (fst d') = w_control (fst d) \<and> (\<forall>job \<in> set jobs. \<not> jobFailed job)
    \<and> sc_sources sc' = sc_sources sc + length (senders jobs)
    \<and> (sc_complete sc' \<longleftrightarrow> sc_complete sc \<and> (\<forall>job \<in> set (senders jobs). jobComplete job))
    \<and> (sc_target sc' \<longleftrightarrow> sc_target sc \<or> (\<exists>job \<in> set jobs. job_role job = RoleTargetServer \<and> jobComplete job))"
  using assms
proof (induction jobs arbitrary: sc d)
  case (Cons job jobs)
  have roles: "RoleTargetServer \<noteq> RoleSourceSender"
    by simp
  let ?d = "record_job job d"
  have live: "\<not> jobFailed job"
    using Cons.prems by (auto simp: Let_def then_wait_def split: if_splits option.splits prod.splits sum.splits)
  consider "job_role job = RoleTargetServer" | "job_role job = RoleSourceSender" "jobComplete job"
    | "job_role job = RoleSourceSender" "\<not> jobComplete job" | "job_role job \<noteq> RoleTargetServer" "job_role job \<noteq> RoleSourceSender"
    by blast
  then show ?case
  proof cases
    case 1
    have run: "scan_jobs r now (sc\<lparr>sc_target := sc_target sc \<or> jobComplete job\<rparr>) jobs ?d = Some (Inr (Counted sc'), d')"
      using Cons.prems 1 live by (simp add: Let_def del: job_condition_true_iff)
    show ?thesis
      using Cons.IH [OF run] 1 live roles by (auto simp del: job_condition_true_iff)
  next
    case 2
    obtain res u where m: "markSourceJobSucceeded r now job ?d = (res, u)"
      by (cases "markSourceJobSucceeded r now job ?d")
    have control: "w_control (fst u) = w_control (fst d)"
      using calm_mark [of ?d "w_control (fst d)" r now job] m by simp
    have run: "scan_jobs r now (sc\<lparr>sc_sources := sc_sources sc + 1\<rparr>) jobs u = Some (Inr (Counted sc'), d')"
      using Cons.prems 2 live roles m by (cases res) (auto simp: Let_def simp del: job_condition_true_iff)
    show ?thesis
      using Cons.IH [OF run] 2 live roles control by (auto simp del: job_condition_true_iff)
  next
    case 3
    have run: "scan_jobs r now (sc\<lparr>sc_sources := sc_sources sc + 1, sc_complete := False\<rparr>) jobs ?d = Some (Inr (Counted sc'), d')"
      using Cons.prems 3 live roles by (simp add: Let_def del: job_condition_true_iff)
    show ?thesis
      using Cons.IH [OF run] 3 live roles by (auto simp del: job_condition_true_iff)
  next
    case 4
    have run: "scan_jobs r now sc jobs ?d = Some (Inr (Counted sc'), d')"
      using Cons.prems 4 live by (simp add: Let_def del: job_condition_true_iff)
    show ?thesis
      using Cons.IH [OF run] 4 live by (auto simp del: job_condition_true_iff)
  qed
qed auto

lemma calm_more:
  assumes "more_source_jobs r now target runSet d = Some (res, d')"
  shows "w_control (fst d') = w_control (fst d)"
proof -
  obtain x u where c: "createSourceJobs r now target runSet d = (x, u)"
    by (cases "createSourceJobs r now target runSet d")
  have u: "w_control (fst u) = w_control (fst d)"
    using calm_createSourceJobs [of d "w_control (fst d)" r now target runSet] c by (simp add: calm_draft_def)
  have saved: "w_control (fst v) = w_control (fst u)" if "save_run r f u = (y, v)" for f y v
    using calm_save [of u "w_control (fst u)" r f] that by simp
  show ?thesis
    using assms c u saved by (auto simp: more_source_jobs_def decide_def split: prod.splits sum.splits option.splits if_splits)
qed

text \<open>The verdict over the jobs of a run.\<close>

definition all_done :: "k8s_job list \<Rightarrow> bool" where
  "all_done jobs \<longleftrightarrow> (\<forall>job \<in> set jobs. \<not> jobFailed job) \<and> senders jobs \<noteq> [] \<and> (\<forall>job \<in> set (senders jobs). jobComplete job)"

lemma next_phase_control:
  assumes "next_phase r now sc d = Some (res, d')" "w_control (fst d') \<noteq> w_control (fst d)"
  shows "sc_sources sc > 0 \<and> sc_complete sc \<and> rr_hasControl r
    \<and> (\<exists>runSet target v. outside (resolveBackupJob r (draft_run d)) d = (Inr (runSet, target), v) \<and> length (trs_sources runSet) \<le> sc_sources sc
        \<and> finalize_run r now v = Some (res, d'))"
proof -
  obtain found u where f: "outside (resolveBackupJob r (draft_run d)) d = (found, u)"
    by (cases "outside (resolveBackupJob r (draft_run d)) d")
  have u: "w_control (fst u) = w_control (fst d)"
    using calm_outside [of "w_control (fst d)" "resolveBackupJob r (draft_run d)" d] f by (simp add: calm_resolve)
  have succeed: "w_control (fst (succeed_run target u)) = w_control (fst u)" for target
    by (simp add: succeed_run_def)
  show ?thesis
    using assms f u calm_more [of r now _ _ u res d'] succeed
    by (auto simp: next_phase_def decide_def split: if_splits sum.splits prod.splits)
qed

lemma scan_control:
  assumes "scan_jobs r now sc jobs d = Some (res, d')" "w_control (fst d') \<noteq> w_control (fst d)"
  shows "\<exists>job \<in> set jobs. jobFailed job \<and> job_role job = RoleSourceSender"
  using assms
proof (induction jobs arbitrary: sc d)
  case (Cons job jobs)
  let ?d = "record_job job d"
  show ?case
  proof (cases "jobFailed job")
    case True
    then have "job_role job = RoleSourceSender"
      using Cons.prems by (auto simp: Let_def split: if_splits)
    then show ?thesis
      using True by auto
  next
    case live: False
    show ?thesis
    proof (cases "job_role job = RoleSourceSender \<and> jobComplete job")
      case True
      obtain m u where m: "markSourceJobSucceeded r now job ?d = (m, u)"
        by (cases "markSourceJobSucceeded r now job ?d")
      have "w_control (fst u) = w_control (fst d)"
        using calm_mark [of ?d "w_control (fst d)" r now job] m by simp
      then show ?thesis
        using Cons.prems Cons.IH [of _ u] live True m
        by (cases m) (auto simp: Let_def simp del: job_condition_true_iff)
    next
      case False
      then obtain sc' where "scan_jobs r now sc' jobs ?d = Some (res, d')"
        using Cons.prems(1) live by (auto simp: Let_def simp del: job_condition_true_iff split: if_splits)
      then show ?thesis
        using Cons.IH [of sc' ?d] Cons.prems(2) by auto
    qed
  qed
qed simp


definition demo_sender :: k8s_job where
  "demo_sender = (new_job ''db'' ''source-data'' [(LabelRole, RoleSourceSender)] 0 (plain_pod [] [] []))
     \<lparr>kj_conditions := [\<lparr>jc_type = ''Complete'', jc_status = CondTrue, jc_reason = [], jc_message = []\<rparr>]\<rparr>"

lemma demo_sender_done: "jobComplete demo_sender" "\<not> jobFailed demo_sender" "job_role demo_sender = RoleSourceSender"
  by (simp_all add: demo_sender_def jobComplete_def jobFailed_def job_role_def lookup_text_def new_job_def new_meta_def empty_meta_def)

lemma demo_missing:
  assumes "j_spec run = j_spec demo_backup" "j_meta run = j_meta demo_backup" "w_api w = []"
  shows "resolveBackupJob demo_reconciler run w = (Inr (zero_run_set, zero_machine), w)"
proof -
  have "ResolveObjectReference (bs_machineRef (j_spec run)) (om_namespace (j_meta run)) = Inr (''ops'', ''vault'')"
    by (simp add: assms demo_backup_def ResolveObjectReference_def NamespaceOr_def)
  then show ?thesis
    by (simp add: resolveBackupJob_def on_api_def memory_client_def memory_api_def memory_get_def assms fetch_def memory_view_def)
qed

lemma demo_scan:
  assumes "j_spec run = j_spec demo_backup" "j_meta run = j_meta demo_backup" "w_api w = []"
  shows "scan_jobs demo_reconciler 0 \<lparr>sc_target = False, sc_sources = 0, sc_complete = True\<rparr> [demo_sender] (w, c, run)
    = Some (Inr (Counted \<lparr>sc_target = False, sc_sources = 1, sc_complete = True\<rparr>), record_job demo_sender (w, c, run))"
proof -
  have "markSourceJobSucceeded demo_reconciler 0 demo_sender (record_job demo_sender (w, c, run)) = (Inr (), record_job demo_sender (w, c, run))"
    using assms by (simp add: markSourceJobSucceeded_def outside_def record_job_def draft_run_def demo_missing source_of_job_def zero_run_set_def)
  then show ?thesis
    using demo_sender_done by (simp add: Let_def del: job_condition_true_iff)
qed

lemma demo_enqueue:
  assumes "tc_commandID command \<noteq> []" "validateTargetCommand any_name command = Inr ()" "j_meta run = j_meta demo_backup"
    and "w_control w = NewService h"
  obtains s where "enqueue demo_reconciler (run_control_key run) command (w, c, run') = Some (Inr True, w\<lparr>w_control := s\<rparr>, c, run')" "s \<noteq> NewService h"
proof -
  have key: "RunKey_Validate any_name (run_control_key run) = Inr ()"
    using assms(3) by (simp add: RunKey_Validate_def run_control_key_def demo_backup_def validateNamespaceName_def validateObjectName_def any_name_def check_then_def)
  show thesis
    using assms key by (intro that) (auto simp: enqueue_def EnqueueTargetCommand_def demo_reconciler_def check_then_def log_of_def NewService_def empty_log_def Let_def put_log_def)
qed

lemma demo_finalize_valid: "validateTargetCommand any_name (finalize_command 0 zero_run_set run) = Inr ()"
  "tc_commandID (finalize_command 0 zero_run_set run) \<noteq> []"
proof -
  have "format_timestamp t \<noteq> []" for t
    by (simp add: format_timestamp_def Let_def)
  then show "validateTargetCommand any_name (finalize_command 0 zero_run_set run) = Inr ()" "tc_commandID (finalize_command 0 zero_run_set run) \<noteq> []"
    by (simp_all add: finalize_command_def NewFinalizeBackupJobCommand_def finalize_command_id_def validateTargetCommand_def any_name_def
        validateFinalizeBackupJob_def zero_run_set_def)
qed


section \<open>A source that asks for a snapshot\<close>

lemma owner_keeps_name:
  assumes "setOwnerReferenceIfSameNamespace sc ty owner k obj = Inr obj'" "kind_wf k"
  shows "om_name (ok_meta k obj') = om_name (ok_meta k obj)"
  using assms by (auto simp: setOwnerReferenceIfSameNamespace_def kind_wf_def split: option.splits if_splits sum.splits)

lemma owner_keeps_claim:
  assumes "setOwnerReferenceIfSameNamespace sc ty owner claim_kind (BuildTemporaryPVCFromSnapshot am run source pvc restoreSize) = Inr claim"
  shows "om_name (pv_meta claim) = GeneratedTemporaryPVCName (runRef run) (sourceRef source)"
proof -
  have "om_name (ok_meta claim_kind claim) = om_name (ok_meta claim_kind (BuildTemporaryPVCFromSnapshot am run source pvc restoreSize))"
    by (rule owner_keeps_name [OF assms]) simp
  then show ?thesis
    by (simp add: claim_kind_def BuildTemporaryPVCFromSnapshot_def sourceObjectMeta_def Let_def)
qed

lemma outside_keeps_run:
  assumes "outside f d = (res, d')"
  shows "draft_run d' = draft_run d"
  using assms by (cases d) (auto simp: outside_def draft_run_def split: prod.splits)

lemma upsert_meta [simp]: "j_meta (draft_run (upsert now source status d)) = j_meta (draft_run d)"
proof -
  obtain w c run where d: "d = (w, c, run)"
    by (cases d)
  have conditions: "j_meta (snd (setTransferStatusConditions now st x)) = j_meta (snd x)" for st x
    by (cases "ts_phase st") (simp_all add: setTransferStatusConditions_def with_condition_job Let_def)
  have "j_meta (snd (upsertBackupJobTransfer now source status run)) = j_meta run"
    by (auto simp: upsertBackupJobTransfer_def Let_def conditions split: option.split prod.split)
  then show ?thesis
    by (cases "upsertBackupJobTransfer now source status run") (simp add: d upsert_def draft_run_def)
qed

text \<open>What a computation promises of a result that is not an error.\<close>

definition promises :: "('a \<Rightarrow> 'w \<Rightarrow> bool) \<Rightarrow> 'a result \<times> 'w \<Rightarrow> bool" where
  "promises P r \<longleftrightarrow> (\<forall>x d. r = (Inr x, d) \<longrightarrow> P x d)"

lemma promisesD: "promises P r \<Longrightarrow> r = (Inr x, d) \<Longrightarrow> P x d"
  by (simp add: promises_def)

named_theorems promised \<open>rules for what a computation promises\<close>

lemma promises_return [simp]: "promises P (Inl e, d)" "promises P (Inr x, d) \<longleftrightarrow> P x d"
  by (simp_all add: promises_def)

lemma promises_then [promised]: "(\<And>x d. r = (Inr x, d) \<Longrightarrow> promises P (k x d)) \<Longrightarrow> promises P (then_do r k)"
  by (cases r; cases "fst r") (auto simp: promises_def)

lemma promises_cases [promised]:
  "(\<And>e. s = Inl e \<Longrightarrow> promises P (f e)) \<Longrightarrow> (\<And>x. s = Inr x \<Longrightarrow> promises P (g x))
    \<Longrightarrow> promises P (case s of Inl e \<Rightarrow> f e | Inr x \<Rightarrow> g x)"
  "(b \<Longrightarrow> promises P u) \<Longrightarrow> (\<not> b \<Longrightarrow> promises P v) \<Longrightarrow> promises P (if b then u else v)"
  "(o' = None \<Longrightarrow> promises P u') \<Longrightarrow> (\<And>z. o' = Some z \<Longrightarrow> promises P (h z))
    \<Longrightarrow> promises P (case o' of None \<Rightarrow> u' | Some z \<Rightarrow> h z)"
  by (auto split: sum.split option.split)

definition captured :: "object_meta \<Rightarrow> backup_source \<Rightarrow> capture_decision \<Rightarrow> prepared \<Rightarrow> 's draft \<Rightarrow> bool" where
  "captured m source decision p d \<longleftrightarrow> j_meta (draft_run d) = m
     \<and> (\<forall>opts. p = Ready opts \<longrightarrow> cd_requested decision \<noteq> CaptureAuto \<longrightarrow>
         sjo_claimName opts = (if cd_method decision = CaptureVolumeSnapshot
           then GeneratedTemporaryPVCName (om_namespace m, om_name m) (sourceRef source) else []))"

lemma give_up_promises [promised]:
  "j_meta (draft_run d) = meta \<Longrightarrow> promises (captured meta source decision) (give_up_snapshot now source decision m n t e d)"
  by (auto simp: give_up_snapshot_def captured_def)

lemma claim_promises [promised]:
  assumes "cd_method decision = CaptureVolumeSnapshot" "j_meta (draft_run d) = meta"
  shows "promises (captured meta source decision) (prepare_claim r now source decision observed n t d)"
  unfolding prepare_claim_def Let_def
  by (intro promised) (auto simp: captured_def assms runRef_def dest!: outside_keeps_run owner_keeps_claim)

lemma snapshot_promises [promised]:
  assumes "cd_method decision = CaptureVolumeSnapshot" "j_meta (draft_run d) = meta"
  shows "promises (captured meta source decision) (prepare_snapshot r now source decision d)"
  unfolding prepare_snapshot_def Let_def getVolumeSnapshot_def
  by (intro promised) (auto simp: captured_def assms dest!: outside_keeps_run)

lemma source_promises:
  assumes "j_meta (draft_run d) = meta"
  shows "promises (captured meta source (DecideCaptureMode (ss_consistency (s_spec source)) avail)) (prepare_source r now avail source d)"
  unfolding prepare_source_def Let_def
  by (intro promised) (auto simp: captured_def no_options_def assms)

definition claim_of :: "object_meta \<Rightarrow> backup_source \<Rightarrow> string" where
  "claim_of m source = GeneratedTemporaryPVCName (om_namespace m, om_name m) (sourceRef source)"

definition rightly_captured :: "object_meta \<Rightarrow> backup_source \<times> source_job_options \<Rightarrow> bool" where
  "rightly_captured m p \<longleftrightarrow>
     (CaptureOrDefault (ss_consistency (s_spec (fst p))) = CaptureVolumeSnapshot \<longrightarrow> sjo_claimName (snd p) = claim_of m (fst p))
   \<and> (CaptureOrDefault (ss_consistency (s_spec (fst p))) \<noteq> CaptureVolumeSnapshot \<longrightarrow>
        CaptureOrDefault (ss_consistency (s_spec (fst p))) \<noteq> CaptureAuto \<longrightarrow> sjo_claimName (snd p) = [])"

lemma captured_rightly:
  "captured m source (DecideCaptureMode (ss_consistency (s_spec source)) avail) (Ready opts) d \<Longrightarrow> rightly_captured m (source, opts)"
  by (auto simp: captured_def rightly_captured_def claim_of_def DecideCaptureMode_def Let_def split: if_splits)

lemma sources_promise:
  "j_meta (draft_run d) = meta \<Longrightarrow>
    promises (\<lambda>res d. j_meta (draft_run d) = meta \<and> (\<forall>ps. res = Inr ps \<longrightarrow> list_all (rightly_captured meta) ps)) (prepare_sources r now avail sources d)"
proof (induction sources arbitrary: d)
  case (Cons source sources)
  show ?case
    unfolding prepare_sources.simps
  proof (rule promises_then)
    fix p d1
    assume p: "prepare_source r now avail source d = (Inr p, d1)"
    have c: "captured meta source (DecideCaptureMode (ss_consistency (s_spec source)) avail) p d1"
      by (rule promisesD [OF source_promises [OF Cons.prems] p])
    then have m: "j_meta (draft_run d1) = meta"
      by (simp add: captured_def)
    show "promises (\<lambda>res d. j_meta (draft_run d) = meta \<and> (\<forall>ps. res = Inr ps \<longrightarrow> list_all (rightly_captured meta) ps))
      (case p of Wait delay \<Rightarrow> (Inr (Inl delay), d1)
       | Ready opts \<Rightarrow> then_do (prepare_sources r now avail sources d1) (\<lambda>rest d. (Inr (map_sum id ((#) (source, opts)) rest), d)))"
    proof (cases p)
      case (Ready opts)
      show ?thesis
        unfolding Ready prepared.case
      proof (rule promises_then)
        fix rest d2
        assume "prepare_sources r now avail sources d1 = (Inr rest, d2)"
        then show "promises (\<lambda>res d. j_meta (draft_run d) = meta \<and> (\<forall>ps. res = Inr ps \<longrightarrow> list_all (rightly_captured meta) ps))
          (Inr (map_sum id ((#) (source, opts)) rest), d2)"
          using Cons.IH [OF m] captured_rightly [OF c [unfolded Ready]] by (cases rest) (auto simp: promises_def)
      qed
    qed (simp add: m)
  qed
qed simp

text \<open>C12. A source that asks for a volume snapshot is never copied live: whatever the cluster answers, when
  the sources of a run are ready, the job of such a source mounts the temporary claim that was
  restored from the snapshot of this run and source, and a source that asks for a direct copy
  mounts its own claim; only the mode \<open>Auto\<close> may fall back.\<close>

theorem snapshots_are_not_bypassed:
  assumes "prepare_sources r now avail sources (w, c, run) = (Inr (Inr ps), d)" "(source, opts) \<in> set ps"
    and "BuildSendSourceJobWithControl run source target opts img co = Inr job"
    and "CaptureOrDefault (ss_consistency (s_spec source)) = mode" "mode \<noteq> CaptureAuto"
  shows "volume_of ''source'' (ClaimVolume (if mode = CaptureVolumeSnapshot then claim_of (j_meta run) source else ss_pvc (s_spec source)) True)
    \<in> set (pod_volumes (kj_pod job))"
proof -
  have "j_meta (draft_run (w, c, run)) = j_meta run"
    by (simp add: draft_run_def)
  from promisesD [OF sources_promise [OF this] assms(1)] have "rightly_captured (j_meta run) (source, opts)"
    using assms(2) by (auto simp: list_all_iff)
  moreover have "claim_of (j_meta run) source \<noteq> []"
    using dnsLabelMax_wf(1) [of 63] by (simp add: claim_of_def GeneratedTemporaryPVCName_def dnsLabel_def label_wf_def)
  ultimately show ?thesis
    using assms(3-5) by (auto simp: rightly_captured_def BuildSendSourceJobWithControl_def Let_def new_job_def sourceSenderPodSpec_def plain_pod_def
        split: sum.splits)
qed

definition snapshot_source :: backup_source where
  "snapshot_source = demo_run_source\<lparr>s_spec := (s_spec demo_run_source)
     \<lparr>ss_consistency := \<lparr>co_capture = CaptureVolumeSnapshot, co_volumeSnapshotClassName = [], co_cleanupPolicy = CleanupUnset\<rparr>\<rparr>\<rparr>"

definition snapshot_reconciler :: "memory reconciler" where
  "snapshot_reconciler = demo_reconciler\<lparr>rr_machinery := demo_machinery\<lparr>NestedBool := (\<lambda>_ _. Inr (Some True))\<rparr>\<rparr>"

definition bound_claim :: "string \<Rightarrow> volume_claim" where
  "bound_claim name = \<lparr>pv_meta = empty_meta\<lparr>om_namespace := ''db'', om_name := name\<rparr>, pv_accessModes = [], pv_storageClass = None,
     pv_volumeMode = None, pv_requests = [], pv_dataSource = None, pv_phase = ''Bound''\<rparr>"

lemma demo_claim_name: "GeneratedTemporaryPVCName (''ops'', ''nightly'') (''db'', ''data'') = ''krm-vspvc-ops-nightly-db-data''"
  "GeneratedVolumeSnapshotName (''ops'', ''nightly'') (''db'', ''data'') = ''krm-vs-ops-nightly-db-data''"
  by code_simp+

definition snapshot_memory :: memory where
  "snapshot_memory = [ClaimObject (bound_claim ''data''), ClaimObject (bound_claim ''krm-vspvc-ops-nightly-db-data''),
     SnapshotObject (BuildVolumeSnapshot demo_backup snapshot_source)]"

lemma snapshot_memory_view:
  "memory_view snapshot_memory (''claim'', ''db'', ''data'') = Some (ClaimObject (bound_claim ''data''))"
  "memory_view snapshot_memory (''claim'', ''db'', ''krm-vspvc-ops-nightly-db-data'') = Some (ClaimObject (bound_claim ''krm-vspvc-ops-nightly-db-data''))"
  "memory_view snapshot_memory (''snapshot'', ''db'', ''krm-vs-ops-nightly-db-data'') = Some (SnapshotObject (BuildVolumeSnapshot demo_backup snapshot_source))"
  by (simp_all add: memory_view_def snapshot_memory_def address_def kind_defs object_key_def meta_key_def bound_claim_def
      BuildVolumeSnapshot_def Let_def snapshot_source_def demo_run_source_def demo_backup_def runRef_def sourceRef_def demo_claim_name)

lemma snapshot_parts:
  "om_namespace (s_meta snapshot_source) = ''db''" "ss_pvc (s_spec snapshot_source) = ''data''"
  "om_annotations (s_meta snapshot_source) = []"
  "un_meta (BuildVolumeSnapshot demo_backup snapshot_source) = empty_meta\<lparr>om_namespace := ''db'', om_name := ''krm-vs-ops-nightly-db-data'',
     om_labels := snapshot_Labels (''ops'', ''nightly'') (''db'', ''data'') RoleSourceVolumeSnapshot\<rparr>"
  by (simp_all add: BuildVolumeSnapshot_def Let_def snapshot_source_def demo_run_source_def demo_backup_def runRef_def sourceRef_def demo_claim_name empty_meta_def)

lemma snapshot_config [simp]:
  "rr_scheme snapshot_reconciler = None" "rr_client snapshot_reconciler = memory_client"
  "VolumeSnapshotFailure (rr_machinery snapshot_reconciler) v = None" "VolumeSnapshotReady (rr_machinery snapshot_reconciler) v"
  "setOwnerReferenceIfSameNamespace None ty owner k obj = Inr obj"
  by (simp_all add: snapshot_reconciler_def demo_reconciler_def demo_machinery_def VolumeSnapshotFailure_def VolumeSnapshotReady_def
      setOwnerReferenceIfSameNamespace_def)

lemma create_found:
  assumes "fetch k (memory_view s) (object_key k obj) = Some existing" "om_owners (ok_meta k obj) = []"
  shows "create_plain k what (memory_api k) obj (demo_world s) = (Inr (), demo_world s)"
  using assms by (simp add: create_plain_def on_api_def memory_api_def memory_get_def reconcileExistingOwnerReferences_def)

lemma get_found:
  "fetch k (memory_view s) key = Some obj \<Longrightarrow> on_api (api_get (memory_api k) key) (demo_world s) = (Inr obj, demo_world s)"
  by (simp add: on_api_def memory_api_def memory_get_def)

lemma demo_apis [simp]: "kc_claims memory_client = memory_api claim_kind" "kc_snapshots memory_client = memory_api snapshot_kind"
  by (simp_all add: memory_client_def)

lemma demo_prepared:
  "\<exists>d. prepare_sources snapshot_reconciler 0 True [snapshot_source] (demo_world snapshot_memory, False, demo_backup)
     = (Inr (Inr [(snapshot_source, no_options\<lparr>sjo_claimName := ''krm-vspvc-ops-nightly-db-data''\<rparr>)]), d)"
proof -
  let ?v = "BuildVolumeSnapshot demo_backup snapshot_source" and ?w = "demo_world snapshot_memory"
  define decision where "decision = DecideCaptureMode (ss_consistency (s_spec snapshot_source)) True"
  have dec: "cd_supported decision" "\<not> cd_fallback decision" "cd_method decision = CaptureVolumeSnapshot"
    by (simp_all add: decision_def DecideCaptureMode_def Let_def snapshot_source_def CaptureOrDefault_def)
  let ?t = "BuildTemporaryPVCFromSnapshot (rr_machinery snapshot_reconciler) demo_backup snapshot_source (bound_claim ''data'')
      (VolumeSnapshotRestoreSize (rr_machinery snapshot_reconciler) ?v)"
  have found: "fetch claim_kind (memory_view snapshot_memory) (''db'', ''data'') = Some (bound_claim ''data'')"
    "fetch claim_kind (memory_view snapshot_memory) (''db'', ''krm-vspvc-ops-nightly-db-data'') = Some (bound_claim ''krm-vspvc-ops-nightly-db-data'')"
    "fetch snapshot_kind (memory_view snapshot_memory) (''db'', ''krm-vs-ops-nightly-db-data'') = Some ?v"
    by (simp_all add: fetch_def snapshot_memory_view kind_defs)
  have temp: "pv_meta ?t = sourceObjectMeta demo_backup snapshot_source RoleSourceSnapshotPVC ''krm-vspvc-ops-nightly-db-data''"
    by (simp add: BuildTemporaryPVCFromSnapshot_def Let_def runRef_def sourceRef_def demo_backup_def snapshot_source_def demo_run_source_def demo_claim_name)
  have tkey: "meta_key (pv_meta ?t) = (''db'', ''krm-vspvc-ops-nightly-db-data'')" "om_owners (pv_meta ?t) = []"
    "om_name (pv_meta ?t) = ''krm-vspvc-ops-nightly-db-data''"
    unfolding temp by (simp_all add: sourceObjectMeta_def meta_key_def snapshot_parts empty_meta_def)
  have bound: "pv_phase (bound_claim name) = ''Bound''" for name
    by (simp add: bound_claim_def)
  have vkey: "object_key snapshot_kind ?v = (''db'', ''krm-vs-ops-nightly-db-data'')" "om_owners (ok_meta snapshot_kind ?v) = []"
    by (simp_all add: object_key_def snapshot_kind_def snapshot_parts meta_key_def empty_meta_def)
  have claim: "\<exists>d. prepare_claim snapshot_reconciler 0 snapshot_source decision ?v n t (?w, False, demo_backup)
      = (Inr (Ready (no_options\<lparr>sjo_claimName := ''krm-vspvc-ops-nightly-db-data''\<rparr>)), d)" for n t
  proof -
    have "create_plain claim_kind what (memory_api claim_kind) ?t ?w = (Inr (), ?w)" for what
      by (rule create_found) (use found tkey in \<open>simp_all add: object_key_def claim_kind_def\<close>)
    then show ?thesis
      by (simp add: prepare_claim_def Let_def outside_def draft_run_def snapshot_parts get_found createPersistentVolumeClaimIfMissing_def bound found tkey del: split_paired_Ex)
  qed
  have "create_plain snapshot_kind what (memory_api snapshot_kind) ?v ?w = (Inr (), ?w)" for what
    by (rule create_found) (use found vkey in simp_all)
  then have "\<exists>d. prepare_snapshot snapshot_reconciler 0 snapshot_source decision (?w, False, demo_backup)
      = (Inr (Ready (no_options\<lparr>sjo_claimName := ''krm-vspvc-ops-nightly-db-data''\<rparr>)), d)"
    using found claim
    by (simp add: prepare_snapshot_def Let_def outside_def draft_run_def snapshot_parts get_found getVolumeSnapshot_def createVolumeSnapshotIfMissing_def)
  then show ?thesis
    using dec by (auto simp: prepare_source_def decision_def [symmetric] Let_def)
qed

lemma demo_path: "is_ok (TransferDestinationPath demo_run_target (RunID demo_backup) snapshot_source)"
  by code_simp

theorem snapshots_are_not_bypassed_witness:
  "\<exists>job opts. BuildSendSourceJobWithControl demo_backup snapshot_source demo_run_target opts ''krm'' no_control = Inr job
    \<and> volume_of ''source'' (ClaimVolume ''krm-vspvc-ops-nightly-db-data'' True) \<in> set (pod_volumes (kj_pod job))"
proof -
  let ?o = "no_options\<lparr>sjo_claimName := ''krm-vspvc-ops-nightly-db-data''\<rparr>"
  obtain d where p: "prepare_sources snapshot_reconciler 0 True [snapshot_source] (demo_world snapshot_memory, False, demo_backup)
     = (Inr (Inr [(snapshot_source, ?o)]), d)"
    using demo_prepared by blast
  obtain path where "TransferDestinationPath demo_run_target (RunID demo_backup) snapshot_source = Inr path"
    using demo_path by (auto simp: is_ok_def split: sum.splits)
  then obtain job where job: "BuildSendSourceJobWithControl demo_backup snapshot_source demo_run_target ?o ''krm'' no_control = Inr job"
    by (simp add: BuildSendSourceJobWithControl_def Let_def snapshot_parts lookup_text_def source_backoff_limit_def no_options_def)
  have mode: "CaptureOrDefault (ss_consistency (s_spec snapshot_source)) = CaptureVolumeSnapshot"
    by (simp add: snapshot_source_def CaptureOrDefault_def)
  have "claim_of (j_meta demo_backup) snapshot_source = ''krm-vspvc-ops-nightly-db-data''"
    by (simp add: claim_of_def demo_backup_def sourceRef_def snapshot_source_def demo_run_source_def demo_claim_name)
  with snapshots_are_not_bypassed [OF p _ job mode] job show ?thesis
    by auto
qed

section \<open>What the run remembers of a command\<close>

definition commands_of :: "'s draft \<Rightarrow> run_key \<Rightarrow> target_command list" where
  "commands_of d key = cl_commands (log_of (w_control (fst d)) key)"

definition seen_by :: "'s draft \<Rightarrow> run_key \<Rightarrow> string set" where
  "seen_by d key = set (cl_seen (log_of (w_control (fst d)) key))"

lemma log_put [simp]: "log_of (put_log key l s) key' = (if key' = key then l else log_of s key')"
  by (simp add: log_of_def put_log_def)

lemma send_all_runs: "send_all command streams s = Some s' \<Longrightarrow> cv_runs s' = cv_runs s"
  by (induction command streams s rule: send_all.induct) (auto split: option.splits if_splits)

lemma log_of_runs: "cv_runs s' = cv_runs s \<Longrightarrow> log_of s' key = log_of s key"
  by (simp add: log_of_def)

lemma enqueue_effect:
  assumes "enqueue r key command d = Some (Inr sent, d')"
  shows "draft_run d' = draft_run d" "snd d' = snd d"
    "sent \<longleftrightarrow> tc_commandID command \<notin> seen_by d key"
    "commands_of d' key = (if sent then commands_of d key @ [command] else commands_of d key)"
proof -
  obtain w c run where d: "d = (w, c, run)"
    by (cases d)
  have "log_of s' key = log_of s key" if "send_all command streams s = Some s'" for streams s s'
    using log_of_runs [OF send_all_runs [OF that]] by simp
  then show "draft_run d' = draft_run d" "snd d' = snd d" "sent \<longleftrightarrow> tc_commandID command \<notin> seen_by d key"
    "commands_of d' key = (if sent then commands_of d key @ [command] else commands_of d key)"
    using assms unfolding d
    by (auto simp: enqueue_def EnqueueTargetCommand_def commands_of_def seen_by_def draft_run_def Let_def split: sum.splits if_splits)
qed

lemma outside_resolve:
  assumes "outside (resolveBackupJob r run) d = (res, d')"
  shows "draft_run d' = draft_run d" "commands_of d' key = commands_of d key" "seen_by d' key = seen_by d key"
proof -
  have "w_control (fst d') = w_control (fst d)"
    using calm_outside [of "w_control (fst d)" "resolveBackupJob r run" d] assms by (simp add: calm_resolve)
  then show "draft_run d' = draft_run d" "commands_of d' key = commands_of d key" "seen_by d' key = seen_by d key"
    using outside_keeps_run [OF assms] by (simp_all add: commands_of_def seen_by_def)
qed

text \<open>The run records the snapshot its target makes, unless a record was lost: when the command to
  finalize is sent, the path the run will report is the one with the timestamp of the command;
  but if it was sent before and the run no longer knows, because the update of its status
  failed, nothing is sent and the run records the time of this attempt instead.\<close>

theorem recorded_snapshot_is_the_one_requested:
  assumes run: "enqueueFinalizeCommand r now d = Some (Inr (), d')"
    and first: "finalize_command_id (draft_run d) \<in> seen_by d (run_control_key (draft_run d)) \<Longrightarrow> bj_lastCommand (j_status (draft_run d)) = None"
  shows "if finalize_command_id (draft_run d) \<in> seen_by d (run_control_key (draft_run d))
    then commands_of d' (run_control_key (draft_run d)) = commands_of d (run_control_key (draft_run d))
      \<and> backupRunFinalizeSnapshotPath (draft_run d') = ''hourly/'' @ format_timestamp now
    else \<exists>command f. commands_of d' (run_control_key (draft_run d)) = commands_of d (run_control_key (draft_run d)) @ [command]
      \<and> tc_finalize command = Some f \<and> backupRunFinalizeSnapshotPath (draft_run d') = ''hourly/'' @ fj_timestamp f"
proof -
  let ?run = "draft_run d" and ?key = "run_control_key (draft_run d)" and ?id = "finalize_command_id (draft_run d)"
  obtain found v where o: "outside (resolveBackupJob r ?run) d = (found, v)"
    by (cases "outside (resolveBackupJob r ?run) d")
  obtain runSet target where found: "found = Inr (runSet, target)"
    using run o by (cases found) (auto simp: enqueueFinalizeCommand_def)
  have f: "outside (resolveBackupJob r ?run) d = (Inr (runSet, target), v)"
    using o found by simp
  have rest: "then_wait (enqueue r (run_control_key (draft_run v)) (finalize_command now runSet (draft_run v)) v) (\<lambda>enqueued d.
         if \<not> enqueued \<and> last_command_is (finalize_command_id (draft_run v)) (draft_run v) then Some (Inr (), d)
         else Some (Inr (), mark_sent (finalize_command now runSet (draft_run v)) (finalize_sent_at now (draft_run v)) d)) = Some (Inr (), d')"
    using run f by (simp add: enqueueFinalizeCommand_def Let_def)
  note v = outside_resolve [OF f]
  let ?command = "finalize_command now runSet ?run"
  have "\<exists>sent u. enqueue r ?key ?command v = Some (Inr sent, u) \<and> (if \<not> sent \<and> last_command_is ?id ?run then Some (Inr (), u)
         else Some (Inr (), mark_sent ?command (finalize_sent_at now ?run) u)) = Some (Inr () :: unit result, d')"
    using rest unfolding v(1) go_result .
  then obtain sent u where e: "enqueue r ?key ?command v = Some (Inr sent, u)"
      and last: "(if \<not> sent \<and> last_command_is ?id ?run then Some (Inr (), u)
         else Some (Inr (), mark_sent ?command (finalize_sent_at now ?run) u)) = Some (Inr () :: unit result, d')"
    by metis
  note effect = enqueue_effect [OF e]
  have id: "tc_commandID ?command = ?id" "tc_type ?command = TargetCommandFinalizeBackupJob"
    by (simp_all add: finalize_command_def NewFinalizeBackupJobCommand_def)
  have ne: "?id \<noteq> []"
    by (simp add: finalize_command_id_def)
  have marked: "d' = mark_sent ?command (finalize_sent_at now ?run) u"
    if "sent \<or> bj_lastCommand (j_status ?run) = None"
    using last that by (auto simp: last_command_is_def split: if_splits)
  have path: "backupRunFinalizeSnapshotPath (draft_run (mark_sent ?command t u)) = ''hourly/'' @ format_timestamp t" for t
  proof -
    have "draft_run (mark_sent ?command t u) = snd (MarkFinalizeCommandSent ?run ?command t)"
      using effect(1) v(1) by (cases u) (simp add: mark_sent_def edit_run_def draft_run_def)
    then show ?thesis
      using id ne by (auto simp: backupRunFinalizeSnapshotPath_def MarkFinalizeCommandSent_def Let_def time_differs_def split: option.splits)
  qed
  have commands: "commands_of (mark_sent ?command t u) ?key = commands_of u ?key" for t
    by (simp add: commands_of_def)
  show ?thesis
  proof (cases "?id \<in> seen_by d ?key")
    case True
    then have "\<not> sent"
      using effect(3) v(3) id by simp
    then show ?thesis
      using True marked first path commands effect(4) v(2) by (simp add: finalize_sent_at_def)
  next
    case False
    then have sent: sent
      using effect(3) v(3) id by simp
    then show ?thesis
      using False marked path commands effect(4) v(2)
      by (auto simp: finalize_command_def NewFinalizeBackupJobCommand_def)
  qed
qed

lemma demo_finalized: "\<exists>d'. enqueueFinalizeCommand demo_reconciler 0 (demo_world [], False, demo_backup) = Some (Inr (), d')"
proof -
  obtain h where h: "w_control (demo_world []) = NewService h"
    by (simp add: demo_world_def)
  let ?cmd = "finalize_command 0 zero_run_set demo_backup"
  have "\<exists>s. enqueue demo_reconciler (run_control_key demo_backup) ?cmd (demo_world [], False, demo_backup)
      = Some (Inr True, (demo_world [])\<lparr>w_control := s\<rparr>, False, demo_backup)"
    using h by (rule_tac demo_enqueue [where w = "demo_world []" and c = False and run' = demo_backup and run = demo_backup,
        OF demo_finalize_valid(2,1) refl]) auto
  moreover have "outside (resolveBackupJob demo_reconciler (draft_run (demo_world [], False, demo_backup))) (demo_world [], False, demo_backup)
      = (Inr (zero_run_set, zero_machine), demo_world [], False, demo_backup)"
    by (simp add: outside_def draft_run_def demo_missing)
  ultimately show ?thesis
    by (auto simp: enqueueFinalizeCommand_def draft_run_def Let_def simp del: split_paired_Ex)
qed

theorem recorded_snapshot_is_the_one_requested_witness:
  "\<exists>d' command f. enqueueFinalizeCommand demo_reconciler 0 (demo_world [], False, demo_backup) = Some (Inr (), d')
     \<and> commands_of d' (run_control_key demo_backup) = [command] \<and> tc_finalize command = Some f
     \<and> backupRunFinalizeSnapshotPath (draft_run d') = ''hourly/'' @ fj_timestamp f"
proof -
  obtain d' where d: "enqueueFinalizeCommand demo_reconciler 0 (demo_world [], False, demo_backup) = Some (Inr (), d')"
    using demo_finalized by blast
  have "seen_by (demo_world [], False, demo_backup) key = {}" "commands_of (demo_world [], False, demo_backup) key = []" for key
    by (simp_all add: seen_by_def commands_of_def demo_world_def NewService_def log_of_def empty_log_def)
  then show ?thesis
    using recorded_snapshot_is_the_one_requested [OF d] d by (auto simp: draft_run_def)
qed

section \<open>A recovery that is never asked for\<close>

definition awaits_recovery :: "string \<Rightarrow> backup_job \<Rightarrow> bool" where
  "awaits_recovery commandID run \<longleftrightarrow> (\<exists>t. bj_lastCommand (j_status run)
     = Some \<lparr>cs_id = commandID, cs_type = TargetCommandRecoverSpace, cs_sentAt = Some t, cs_acknowledgedAt = None\<rparr>)"

definition keeps_status :: "('s, backup_job) kind_api \<Rightarrow> bool" where
  "keeps_status api \<longleftrightarrow> (\<forall>x s y s'. api_update_status api x s = (Inr y, s') \<longrightarrow> j_status y = j_status x)"

lemma keeps_statusD: "keeps_status api \<Longrightarrow> api_update_status api x s = (Inr y, s') \<Longrightarrow> j_status y = j_status x"
  by (auto simp: keeps_status_def)

lemma saved_status:
  assumes "save_run r f d = (Inr (), d')" "keeps_status (kc_backups (rr_client r))"
  shows "j_status (draft_run d') = j_status (draft_run d)" "w_control (fst d') = w_control (fst d)"
proof -
  obtain w c run where d: "d = (w, c, run)"
    by (cases d)
  show "w_control (fst d') = w_control (fst d)"
    using calm_save [of d "w_control (fst d)" r f] assms(1) by simp
  show "j_status (draft_run d') = j_status (draft_run d)"
    using assms unfolding d by (auto simp: save_run_def update_status_def on_api_def draft_run_def dest: keeps_statusD split: prod.splits sum.splits if_splits)
qed

text \<open>C39. A source that fills the target again can wait for ever: the command that asks the target for space
  is named after the source, and the control service sends a name once. If it was sent before and
  another command has been the last one since, the run records it as sent and waits, but
  nothing is sent.\<close>

theorem repeated_recovery_is_never_sent:
  assumes "ask_for_space r now source target commandID d = Some (Inr res, d')"
    and "commandID \<in> seen_by d (run_control_key (draft_run d))" "\<not> last_command_is commandID (draft_run d)" "commandID \<noteq> []"
    and "keeps_status (kc_backups (rr_client r))"
  shows "res = Some (Some (seconds 5)) \<and> awaits_recovery commandID (draft_run d')
    \<and> commands_of d' (run_control_key (draft_run d)) = commands_of d (run_control_key (draft_run d))"
proof -
  let ?run = "draft_run d" and ?key = "run_control_key (draft_run d)"
  obtain m where m: "recoveryMinAvailableBytes (rr_machinery r) (rr_quantityValue r) target = Inr m"
    using assms(1) by (auto simp: ask_for_space_def split: sum.splits)
  let ?command = "NewRecoverSpaceCommand commandID \<lparr>rv_failedSourceNamespace = om_namespace (s_meta source),
             rv_failedSourceName = om_name (s_meta source), rv_reason = ''TargetOutOfSpace'', rv_minAvailableBytes = m,
             rv_protectedSnapshots = []\<rparr>"
  obtain sent u where e: "enqueue r ?key ?command d = Some (Inr sent, u)"
    using assms(1) m by (cases "enqueue r ?key ?command d"; cases "fst (the (enqueue r ?key ?command d))"; cases "the (enqueue r ?key ?command d)")
      (auto simp: ask_for_space_def Let_def simp del: split_paired_Ex split_paired_All)
  note effect = enqueue_effect [OF e]
  have id: "tc_commandID ?command = commandID" "tc_type ?command = TargetCommandRecoverSpace"
    by (simp_all add: NewRecoverSpaceCommand_def)
  have "\<not> sent"
    using effect(3) assms(2) id by simp
  let ?edited = "edit_run (set_conditions now [(ConditionTransport, CondUnknown, ''TransportRunning'', ''Waiting for target space recovery'')])
               (mark_sent ?command now u)"
  obtain v where v: "save_run r ''update backup job recovery command status: %w'' ?edited = (Inr (), v)" and out: "d' = v" "res = Some (Some (seconds 5))"
    using assms(1,3) m e by (cases "save_run r ''update backup job recovery command status: %w'' ?edited"; cases "fst (save_run r ''update backup job recovery command status: %w'' ?edited)")
      (auto simp: ask_for_space_def Let_def simp del: split_paired_Ex split_paired_All)
  have marked: "draft_run ?edited = set_conditions now [(ConditionTransport, CondUnknown, ''TransportRunning'', ''Waiting for target space recovery'')]
      (snd (MarkFinalizeCommandSent ?run ?command now))"
    using effect(1) by (cases u) (simp add: mark_sent_def edit_run_def draft_run_def)
  have "bj_lastCommand (j_status (draft_run ?edited)) = Some \<lparr>cs_id = commandID, cs_type = TargetCommandRecoverSpace, cs_sentAt = Some now, cs_acknowledgedAt = None\<rparr>"
    unfolding marked using assms(3,4) id by (auto simp: MarkFinalizeCommandSent_def Let_def last_command_is_def split: option.splits)
  moreover have "commands_of v ?key = commands_of d ?key"
    using saved_status(2) [OF v assms(5)] effect(4) \<open>\<not> sent\<close> by (simp add: commands_of_def)
  ultimately show ?thesis
    using saved_status(1) [OF v assms(5)] out by (auto simp: awaits_recovery_def)
qed

lemma memory_keeps_status: "keeps_status (kc_backups memory_client)"
  by (auto simp: keeps_status_def memory_client_def memory_api_def memory_update_def split: option.splits)

definition seen_service :: "string \<Rightarrow> control_service" where
  "seen_service commandID = put_log (run_control_key demo_backup) (empty_log\<lparr>cl_seen := [commandID]\<rparr>) (w_control (demo_world []))"

theorem repeated_recovery_is_never_sent_witness:
  "\<exists>d'. ask_for_space demo_reconciler 7 demo_run_source demo_run_target ''recover-space-db-data''
       ((demo_world [])\<lparr>w_control := seen_service ''recover-space-db-data''\<rparr>, False, demo_backup) = Some (Inr (Some (Some (seconds 5))), d')
     \<and> awaits_recovery ''recover-space-db-data'' (draft_run d')"
proof -
  let ?id = "''recover-space-db-data''"
  let ?d = "((demo_world [])\<lparr>w_control := seen_service ?id\<rparr>, False, demo_backup)"
  let ?min = "word_of_int targetRecoveryMinAvailableBytes :: 64 word"
  let ?command = "NewRecoverSpaceCommand ?id \<lparr>rv_failedSourceNamespace = ''db'', rv_failedSourceName = ''data'', rv_reason = ''TargetOutOfSpace'',
      rv_minAvailableBytes = ?min, rv_protectedSnapshots = []\<rparr>"
  have m: "recoveryMinAvailableBytes (rr_machinery demo_reconciler) (rr_quantityValue demo_reconciler) demo_run_target = Inr ?min"
    by (simp add: recoveryMinAvailableBytes_def demo_run_target_def lookup_text_def empty_meta_def)
  have valid: "RunKey_Validate any_name (run_control_key demo_backup) = Inr ()" "validateTargetCommand any_name ?command = Inr ()"
    by (simp_all add: RunKey_Validate_def run_control_key_def demo_backup_def validateNamespaceName_def validateObjectName_def any_name_def
        validateTargetCommand_def NewRecoverSpaceCommand_def validateRecoverSpace_def)
  have seen: "seen_by ?d (run_control_key demo_backup) = {?id}"
    by (simp add: seen_by_def seen_service_def)
  have "\<exists>d'. enqueue demo_reconciler (run_control_key demo_backup) ?command ?d = Some (Inr False, d')"
    using valid by (simp add: enqueue_def demo_reconciler_def EnqueueTargetCommand_def seen_service_def Let_def NewRecoverSpaceCommand_def del: split_paired_Ex)
  then obtain u where e: "enqueue demo_reconciler (run_control_key demo_backup) ?command ?d = Some (Inr False, u)"
    by blast
  have last: "\<not> last_command_is ?id demo_backup"
    by (simp add: last_command_is_def demo_backup_def empty_backup_status_def)
  have saved: "\<exists>v. save_run demo_reconciler f x = (Inr (), v)" if "w_api (fst x) = []" for f x
    using that by (cases x) (auto simp: save_run_def update_status_def on_api_def memory_client_def memory_api_def memory_update_def fetch_def memory_view_def)
  have "w_api (fst u) = []"
    using e by (auto simp: enqueue_def split: option.splits)
  then have "w_api (fst (edit_run f (mark_sent ?command 7 u))) = []" for f
    by (cases u) (simp add: edit_run_def mark_sent_def)
  then obtain v where v: "save_run demo_reconciler ''update backup job recovery command status: %w''
      (edit_run (set_conditions 7 [(ConditionTransport, CondUnknown, ''TransportRunning'', ''Waiting for target space recovery'')])
        (mark_sent ?command 7 u)) = (Inr (), v)"
    using saved by blast
  have names: "om_namespace (s_meta demo_run_source) = ''db''" "om_name (s_meta demo_run_source) = ''data''"
    by (simp_all add: demo_run_source_def)
  have "\<exists>d'. ask_for_space demo_reconciler 7 demo_run_source demo_run_target ?id ?d = Some (Inr (Some (Some (seconds 5))), d')"
    using m e v last by (simp add: ask_for_space_def Let_def draft_run_def names del: split_paired_Ex)
  then show ?thesis
    using repeated_recovery_is_never_sent [of demo_reconciler 7 demo_run_source demo_run_target ?id ?d] seen last memory_keeps_status
    by (auto simp: draft_run_def)
qed

end
