(* ===== verification/Cluster_Frames.thy ===== *)
theory Cluster_Frames
  imports Owned_Objects
begin

text \<open>
  Which objects a handler may add or change. A handler that has not been allowed to
  start adds nothing but its own object; one that starts stays within the namespaces
  it works for. The rules below follow the structure of the handlers.
\<close>

section \<open>Servers that store the status of an object with the object\<close>

locale status_store = object_store view k api
  for view :: "'s \<Rightarrow> cluster" and k :: "'o object_kind" and api :: "('s, 'o) kind_api" +
  assumes status: "api_update_status api obj s = (res, s') \<Longrightarrow> a \<noteq> (ok_name k, object_key k obj) \<Longrightarrow> view s' a = view s a"

lemma memory_status:
  assumes "kind_wf k"
  shows "status_store memory_view k (memory_api k)"
proof -
  have store: "object_store memory_view k (memory_api k)"
    by (rule memory_store [OF assms])
  show ?thesis
  proof (rule status_store.intro [OF store], unfold_locales)
    fix obj s res s' a
    assume "api_update_status (memory_api k) obj s = (res, s')" "a \<noteq> (ok_name k, object_key k obj)"
    then show "memory_view s' a = memory_view s a"
      using assms by (auto simp: memory_api_def memory_update_def kind_wf_def split: option.splits)
  qed
qed

interpretation memory_backup_status: status_store memory_view backup_kind "memory_api backup_kind"
  by (rule memory_status) simp

interpretation memory_restore_status: status_store memory_view restore_kind "memory_api restore_kind"
  by (rule memory_status) simp

section \<open>Nothing new\<close>

definition nothing_new :: "(cluster_key \<Rightarrow> bool) \<Rightarrow> cluster \<Rightarrow> cluster \<Rightarrow> bool" where
  "nothing_new K c c' \<longleftrightarrow> (\<forall>a x. \<not> K a \<longrightarrow> c' a = Some x \<longrightarrow> c a = Some x)"

lemma nothing_new_refl [simp]: "nothing_new K c c"
  by (simp add: nothing_new_def)

lemma nothing_new_trans: "nothing_new K c c1 \<Longrightarrow> nothing_new K c1 c2 \<Longrightarrow> nothing_new K c c2"
  by (auto simp: nothing_new_def)

text \<open>\<open>adds view K c r\<close>: the state in which \<open>r\<close> comes out has nothing new outside of \<open>K\<close>, compared with \<open>c\<close>.\<close>

definition adds :: "('s \<Rightarrow> cluster) \<Rightarrow> (cluster_key \<Rightarrow> bool) \<Rightarrow> cluster \<Rightarrow> 'a \<times> 's world \<Rightarrow> bool" where
  "adds view K c r \<longleftrightarrow> nothing_new K c (view (w_api (snd r)))"

named_theorems adding \<open>calls that add nothing outside of some places\<close>

lemma adds_pair [simp]: "adds view K c (res, w) \<longleftrightarrow> nothing_new K c (view (w_api w))"
  by (simp add: adds_def)

lemma adds_then [adding]:
  assumes "adds view K c r" "\<And>x w. r = (Inr x, w) \<Longrightarrow> nothing_new K c (view (w_api w)) \<Longrightarrow> adds view K c (k x w)"
  shows "adds view K c (then_do r k)"
  using assms by (cases r; cases "fst r") auto

lemma adds_wrapped [adding]: "adds view K c r \<Longrightarrow> adds view K c (wrapped f args r)"
  by (simp add: adds_def)

lemma adds_ignore [adding]: "adds view K c r \<Longrightarrow> adds view K c (IgnoreNotFound r)"
  by (simp add: adds_def)

lemma adds_if [adding]: "(b \<Longrightarrow> adds view K c x) \<Longrightarrow> (\<not> b \<Longrightarrow> adds view K c y) \<Longrightarrow> adds view K c (if b then x else y)"
  by simp

lemma adds_option [adding]:
  "(o' = None \<Longrightarrow> adds view K c x) \<Longrightarrow> (\<And>z. o' = Some z \<Longrightarrow> adds view K c (f z)) \<Longrightarrow> adds view K c (case o' of None \<Rightarrow> x | Some z \<Rightarrow> f z)"
  by (cases o') auto

lemma adds_sum [adding]:
  "(\<And>e. s = Inl e \<Longrightarrow> adds view K c (f e)) \<Longrightarrow> (\<And>x. s = Inr x \<Longrightarrow> adds view K c (g x)) \<Longrightarrow> adds view K c (case s of Inl e \<Rightarrow> f e | Inr x \<Rightarrow> g x)"
  by (cases s) auto

lemma adds_result:
  assumes "adds view K c r" "\<And>e w. r = (Inl e, w) \<Longrightarrow> nothing_new K c (view (w_api w)) \<Longrightarrow> adds view K c (f e w)"
    "\<And>x w. r = (Inr x, w) \<Longrightarrow> nothing_new K c (view (w_api w)) \<Longrightarrow> adds view K c (g x w)"
  shows "adds view K c (case r of (Inl e, w) \<Rightarrow> f e w | (Inr x, w) \<Rightarrow> g x w)"
  using assms by (cases r; cases "fst r") auto

lemma adds_each:
  assumes "\<And>x w. x \<in> set xs \<Longrightarrow> nothing_new K c (view (w_api w)) \<Longrightarrow> adds view K c (f x w)" "nothing_new K c (view (w_api w))"
  shows "adds view K c (each_call f xs w)"
  using assms
proof (induction xs arbitrary: w)
  case (Cons x xs)
  show ?case
    unfolding each_call.simps by (rule adds_then) (use Cons in auto)
qed simp

context object_store
begin

lemma adds_get: "nothing_new K c (view (w_api w)) \<Longrightarrow> adds view K c (on_api (api_get api key) w)"
  using get [of key "w_api w"] by (auto simp: adds_def on_api_def split: prod.splits)

lemma adds_list: "nothing_new K c (view (w_api w)) \<Longrightarrow> adds view K c (on_api (api_list api opts) w)"
  using list [of opts "w_api w"] by (auto simp: adds_def on_api_def split: prod.splits)

lemma nothing_new_put:
  assumes "nothing_new K c c1" "K a"
  shows "nothing_new K c (c1(a \<mapsto> x))"
  using assms unfolding nothing_new_def by (metis fun_upd_other)

lemma adds_update:
  assumes "nothing_new K c (view (w_api w))" "K (ok_name k, object_key k obj)"
  shows "adds view K c (on_api (api_update api obj) w)"
  using update [of obj "w_api w"] assms nothing_new_put [OF assms]
  by (cases "api_update api obj (w_api w)"; cases "fst (api_update api obj (w_api w))") (auto simp: adds_def on_api_def)

lemma adds_create:
  assumes "nothing_new K c (view (w_api w))" "K (ok_name k, object_key k obj)"
  shows "adds view K c (on_api (api_create api obj) w)"
  using create [of obj "w_api w"] assms nothing_new_put [OF assms]
  by (cases "api_create api obj (w_api w)"; cases "fst (api_create api obj (w_api w))") (auto simp: adds_def on_api_def)

lemma adds_delete: "nothing_new K c (view (w_api w)) \<Longrightarrow> adds view K c (on_api (api_delete api policy obj) w)"
  using delete [of policy obj "w_api w"] by (auto simp: adds_def on_api_def nothing_new_def split: prod.splits sum.splits if_splits)

lemma adds_delete_object: "nothing_new K c (view (w_api w)) \<Longrightarrow> adds view K c (delete_object api policy obj w)"
  unfolding delete_object_def by (intro adding adds_delete)

lemma adds_delete_listed: "nothing_new K c (view (w_api w)) \<Longrightarrow> adds view K c (delete_listed api policy labels w)"
  unfolding delete_listed_def by (intro adding adds_list adds_each adds_delete_object)

end

context status_store
begin

lemma adds_status: "nothing_new K c (view (w_api w)) \<Longrightarrow> K (ok_name k, object_key k obj) \<Longrightarrow> adds view K c (on_api (api_update_status api obj) w)"
proof -
  assume quiet: "nothing_new K c (view (w_api w))" and k: "K (ok_name k, object_key k obj)"
  obtain res s' where u: "api_update_status api obj (w_api w) = (res, s')"
    by (cases "api_update_status api obj (w_api w)")
  have "view s' a = view (w_api w) a" if "\<not> K a" for a
    using status [OF u, of a] that k by metis
  then have "nothing_new K c (view s')"
    using quiet by (metis nothing_new_def)
  then show ?thesis
    using u by (simp add: adds_def on_api_def)
qed

lemma adds_update_status: "nothing_new K c (view (w_api w)) \<Longrightarrow> K (ok_name k, object_key k obj) \<Longrightarrow> adds view K c (update_status api f args obj w)"
  unfolding update_status_def by (intro adds_result adds_status) auto

end

lemma adds_cleanup:
  assumes "run_api view c" "nothing_new K cl (view (w_api w))"
  shows "adds view K cl (cleanupRunResources c run runKind snapshots w)"
proof -
  obtain res w' where r: "cleanupRunResources c run runKind snapshots w = (res, w')"
    by (cases "cleanupRunResources c run runKind snapshots w")
  have "erased (run_resource run runKind snapshots) (view (w_api w)) (view (w_api w'))"
    using cleanup_effect [OF assms(1) r] by simp
  then have "nothing_new K (view (w_api w)) (view (w_api w'))"
    unfolding nothing_new_def erased_def by (metis option.distinct(1))
  then show ?thesis
    using assms(2) r by (auto simp: adds_def intro: nothing_new_trans)
qed

section \<open>What is created\<close>

text \<open>\<open>controllerutil.SetControllerReference\<close> changes nothing but the owners.\<close>

definition keeps_place :: "scheme option \<Rightarrow> bool" where
  "keeps_place sc \<longleftrightarrow> (\<forall>s ty owner m m'. sc = Some s \<longrightarrow> SetControllerReference s ty owner m = Inr m' \<longrightarrow> meta_key m' = meta_key m)"

lemma keeps_place_none [simp]: "keeps_place None"
  by (simp add: keeps_place_def)

lemma controlled_place:
  assumes "setControllerReferenceIfSameNamespace sc ty owner k obj = Inr obj'" "keeps_place sc" "kind_wf k"
  shows "object_key k obj' = object_key k obj"
  using assms by (auto simp: setControllerReferenceIfSameNamespace_def keeps_place_def object_key_def kind_wf_def
    split: option.splits if_splits sum.splits)

lemma adds_owned:
  assumes "keeps_place (rr_scheme r)" "kind_wf k" "nothing_new K c (view (w_api w))"
    and "\<And>obj'. object_key k obj' = object_key k obj \<Longrightarrow> adds view K c (create obj' w)"
  shows "adds view K c (owned_by_run r ty owner what k create obj w)"
  using assms(3,4) controlled_place [OF _ assms(1,2)] unfolding owned_by_run_def
  by (cases "setControllerReferenceIfSameNamespace (rr_scheme r) ty owner k obj") auto

context object_store
begin

lemma adds_adopt:
  assumes "nothing_new K c (view (w_api w))" "K (ok_name k, object_key k existing)"
  shows "adds view K c (reconcileExistingOwnerReferences k api existing desired w)"
proof -
  have "adds view K c (on_api (api_update api (ok_with_meta k ((ok_meta k existing)\<lparr>om_owners := os\<rparr>) existing)) w)" for os
    by (rule adds_update) (use assms in \<open>simp_all add: object_key_def meta_key_def\<close>)
  then show ?thesis
    using assms(1) unfolding reconcileExistingOwnerReferences_def
    by (auto intro!: adding split: prod.splits)
qed

lemma adds_found:
  assumes "nothing_new K c (view (w_api w))" "K (ok_name k, key)"
    and "\<And>e v. nothing_new K c (view (w_api v)) \<Longrightarrow> adds view K c (f e v)"
    and "\<And>obj v. nothing_new K c (view (w_api v)) \<Longrightarrow> K (ok_name k, object_key k obj) \<Longrightarrow> adds view K c (g obj v)"
  shows "adds view K c (case on_api (api_get api key) w of (Inl e, w) \<Rightarrow> f e w | (Inr obj, w) \<Rightarrow> g obj w)"
proof (rule adds_result [OF adds_get [OF assms(1)]])
  fix obj v
  assume "on_api (api_get api key) w = (Inr obj, v)"
  then have "object_key k obj = key"
    using get [of key "w_api w"] fetch_key [of _ key obj] by (auto simp: on_api_def split: prod.splits)
  then show "nothing_new K c (view (w_api v)) \<Longrightarrow> adds view K c (g obj v)"
    using assms(2,4) by simp
qed (rule assms(3))

end

lemma adds_ignored [adding]: "adds view K c r \<Longrightarrow> adds view K c (ignore_result r)"
  unfolding ignore_result_def by (rule adds_then) auto

lemma adds_create_job:
  assumes "object_store view job_kind api" "nothing_new K c (view (w_api w))" "K (''job'', object_key job_kind job)"
  shows "adds view K c (createJobIfMissing api job w)"
  using assms unfolding createJobIfMissing_def
  by (intro object_store.adds_found [OF assms(1)] adding object_store.adds_adopt [OF assms(1)] object_store.adds_create [OF assms(1)]) auto

lemma adds_create_secret:
  assumes "object_store view secret_kind api" "nothing_new K c (view (w_api w))" "K (''secret'', object_key secret_kind secret)"
  shows "adds view K c (createSecretIfMissing cr now api secret w)"
  using assms unfolding createSecretIfMissing_def
  by (intro object_store.adds_found [OF assms(1)] adding object_store.adds_adopt [OF assms(1)] object_store.adds_create [OF assms(1)]) auto

lemma adds_create_service:
  assumes "object_store view service_kind api" "nothing_new K c (view (w_api w))" "K (''service'', object_key service_kind service)"
  shows "adds view K c (createServiceIfMissing api service w)"
  using assms unfolding createServiceIfMissing_def create_plain_def
  by (intro object_store.adds_found [OF assms(1)] adding object_store.adds_adopt [OF assms(1)] object_store.adds_create [OF assms(1)]) auto

lemma adds_finalizer:
  assumes "run_api view c" "object_store view k api" "nothing_new K cl (view (w_api w))" "K (ok_name k, object_key k run)"
  shows "adds view K cl (cleanupRunResourcesAndRemoveFinalizer c k api run runKind finalizer snapshots w)"
proof -
  have key: "object_key k (ok_with_meta k (without_finalizer finalizer (ok_meta k run)) run) = object_key k run"
    using object_store.meta_with [OF assms(2)] by (simp add: object_key_def without_finalizer_def meta_key_def)
  show ?thesis
    unfolding cleanupRunResourcesAndRemoveFinalizer_def
    by (intro adding adds_cleanup [OF assms(1)] adds_result object_store.adds_update [OF assms(2)]) (use assms(3,4) key in auto)
qed

end
