(* ===== verification/Restore_Reconciler.thy ===== *)
theory Restore_Reconciler
  imports Backup_Progress Cluster_Frames
begin

text \<open>
  The reconciler of RestoreJob objects (controller/reconcilers.go), and the requests
  that the watches of both kinds of run make. The first theorem says that a restore
  that is not permitted creates nothing; the others say which snapshot is read, and
  that a restore and an active backup keep out of each other's way.
\<close>

section \<open>The snapshot to restore\<close>

fun latest_point :: "string \<Rightarrow> rsync_machine \<Rightarrow> restore_point list \<Rightarrow> string result" where
  "latest_point requested target [] =
     Inl (errorf ''snapshot %q is not present in RsyncMachine %s/%s restore points'' (requested # machine_args target))"
| "latest_point requested target (point # points) =
    (if rp_snapshot point = DefaultSnapshot then
       (if rp_resolvesTo point = []
        then Inl (errorf ''snapshot %q in RsyncMachine %s/%s does not resolve to an immutable snapshot'' (requested # machine_args target))
        else case cleanSnapshotPath (rp_resolvesTo point) of
            Inl e \<Rightarrow> Inl (wrapf ''invalid resolved snapshot %q: %w'' [rp_resolvesTo point] e)
          | Inr normalized \<Rightarrow> Inr normalized)
     else latest_point requested target points)"

definition resolveRestoreSnapshot :: "string \<Rightarrow> rsync_machine \<Rightarrow> string result" where
  "resolveRestoreSnapshot requested target =
    (if strategy_TypeOrDefault (ms_strategy (m_spec target)) = StrategyMirror then
       (if requested = [] \<or> requested = DefaultSnapshot \<or> requested = DefaultMirrorSnapshot then Inr DefaultMirrorSnapshot
        else Inl (errorf ''mirror RsyncMachine %s/%s only supports snapshot %q'' (machine_args target @ [DefaultMirrorSnapshot])))
     else let requested = (if requested = [] then DefaultSnapshot else requested);
              points = mst_restorePoints (m_status target) in
       if requested \<noteq> DefaultSnapshot then
         (case cleanSnapshotPath requested of
            Inl e \<Rightarrow> Inl e
          | Inr normalized \<Rightarrow>
            if points = [] then Inr normalized
            else if list_ex (\<lambda>point. rp_snapshot point = normalized) points then Inr normalized
            else Inl (errorf ''snapshot %q is not present in RsyncMachine %s/%s restore points'' (normalized # machine_args target)))
       else latest_point requested target points)"

section \<open>The run\<close>

definition restore_key_of :: "restore_job \<Rightarrow> nsname" where
  "restore_key_of run = meta_key (r_meta run)"

definition restore_phase :: "restore_job \<Rightarrow> run_phase" where
  "restore_phase run = rj_phase (r_status run)"

definition set_restore_condition :: "gotime \<Rightarrow> condition_entry \<Rightarrow> restore_job \<Rightarrow> restore_job" where
  "set_restore_condition now c run = (case c of (ty, status, reason, message) \<Rightarrow>
     run\<lparr>r_status := (r_status run)\<lparr>rj_conditions :=
       snd (setCondition now ty status reason message (om_generation (r_meta run)) (rj_conditions (r_status run)))\<rparr>\<rparr>)"

definition set_restore_conditions :: "gotime \<Rightarrow> condition_entry list \<Rightarrow> restore_job \<Rightarrow> restore_job" where
  "set_restore_conditions now cs run = fold (set_restore_condition now) cs run"

definition only_restore_conditions :: "gotime \<Rightarrow> condition_entry list \<Rightarrow> restore_job \<Rightarrow> restore_job" where
  "only_restore_conditions now cs run =
     set_restore_conditions now cs (run\<lparr>r_status := (r_status run)\<lparr>rj_conditions := []\<rparr>\<rparr>)"

definition restore_with_phase :: "run_phase \<Rightarrow> restore_job \<Rightarrow> restore_job" where
  "restore_with_phase p run = run\<lparr>r_status := (r_status run)\<lparr>rj_phase := p\<rparr>\<rparr>"

definition restore_completed_at :: "gotime \<Rightarrow> restore_job \<Rightarrow> restore_job" where
  "restore_completed_at now run = run\<lparr>r_status := (r_status run)\<lparr>rj_completedAt := Some now\<rparr>\<rparr>"

definition record_restore_phase :: "run_phase \<Rightarrow> restore_job \<Rightarrow> 's world \<Rightarrow> 's world" where
  "record_restore_phase oldPhase run = record_phase RunKindRestore (restore_key_of run) oldPhase (restore_phase run)"

section \<open>Holding and failing\<close>

definition hold_restore ::
  "'s reconciler \<Rightarrow> gotime \<Rightarrow> string \<Rightarrow> condition_entry \<Rightarrow> string \<Rightarrow> string list \<Rightarrow> restore_job \<Rightarrow> ('s world, unit) call" where
  "hold_restore r now what condition eventFmt eventArgs run w =
    (let oldPhase = restore_phase run; run = only_restore_conditions now [condition] (restore_with_phase RunPending run)
     in then_do (update_status (kc_restores (rr_client r)) what [] run w) (\<lambda>run w.
       (Inr (), record_restore_phase oldPhase run
         (recordRunEvent r (restore_key_of run) ''Warning'' (fst (snd (snd condition))) eventFmt eventArgs w))))"

definition holdRestoreJobForTarget :: "'s reconciler \<Rightarrow> gotime \<Rightarrow> restore_job \<Rightarrow> rsync_machine \<Rightarrow> ('s world, unit) call" where
  "holdRestoreJobForTarget r now run target =
     hold_restore r now ''hold restore job for target readiness: %w''
       (''TargetReady'', CondFalse, ''TargetNotReady'', render ''RsyncMachine %s/%s is not ready'' (machine_args target) [])
       ''RsyncMachine %s/%s is not ready'' (machine_args target) run"

definition holdRestoreJobForBackup ::
  "'s reconciler \<Rightarrow> gotime \<Rightarrow> restore_job \<Rightarrow> rsync_machine \<Rightarrow> backup_job \<Rightarrow> ('s world, unit) call" where
  "holdRestoreJobForBackup r now run target backup =
    (let args = machine_args target @ run_args backup in
     hold_restore r now ''hold restore job for active backup: %w''
       (''TargetOverlap'', CondTrue, ''ActiveRunForTarget'',
        render ''RsyncMachine %s/%s is being mutated by BackupJob %s/%s; waiting for backup to complete'' args [])
       ''RsyncMachine %s/%s is being mutated by BackupJob %s/%s'' args run)"

definition failRestoreJob :: "'s reconciler \<Rightarrow> gotime \<Rightarrow> restore_job \<Rightarrow> goerr \<Rightarrow> ('s world, unit) call" where
  "failRestoreJob r now run cause w =
    (let oldPhase = restore_phase run; run = restore_completed_at now (restore_with_phase RunFailed run);
         run = run\<lparr>r_status := (r_status run)\<lparr>rj_message := error_text cause,
           rj_conditions := [\<lparr>c_type = ''Failed'', c_status = CondTrue,
             c_observedGeneration = om_generation (r_meta run), c_lastTransitionTime = now,
             c_reason = ''ReconcileError'', c_message = error_text cause\<rparr>]\<rparr>\<rparr> in
     case on_api (api_update_status (kc_restores (rr_client r)) run) w of
       (res, w) \<Rightarrow>
         (case (case res of Inl e \<Rightarrow> if errors_is ApiNotFound e then Inr run else Inl e | Inr stored \<Rightarrow> Inr stored) of
            Inl e \<Rightarrow> (Inl (wrapf ''%w; additionally failed to update status: %v'' [error_text e] cause), w)
          | Inr run \<Rightarrow> (Inl cause, record_restore_phase oldPhase run
              (recordRunEvent r (restore_key_of run) ''Warning'' ''RunFailed'' ''RestoreJob failed: %v'' [error_text cause] w))))"

text \<open>\<open>return ctrl.Result{}, r.failRestoreJob(ctx, &run, err)\<close>\<close>

definition or_fail_restore ::
  "'s reconciler \<Rightarrow> gotime \<Rightarrow> restore_job \<Rightarrow> 'a result \<times> 's world \<Rightarrow> ('a \<Rightarrow> ('s world, requeue) call) \<Rightarrow> requeue result \<times> 's world" where
  "or_fail_restore r now run res k = (case res of
      (Inl e, w) \<Rightarrow> then_do (failRestoreJob r now run e w) (\<lambda>_ w. (Inr None, w))
    | (Inr x, w) \<Rightarrow> k x w)"

section \<open>Backups that use the target\<close>

definition machineRefForBackupJobWithClient :: "'s kube_client \<Rightarrow> backup_job \<Rightarrow> ('s world, nsname option) call" where
  "machineRefForBackupJobWithClient c run w =
    (case ResolveObjectReference (bs_machineRef (j_spec run)) (om_namespace (j_meta run)) of
       Inl _ \<Rightarrow> (Inr None, w)
     | Inr machineRef \<Rightarrow>
       (case on_api (api_get (kc_machines c) machineRef) w of
          (Inl e, w) \<Rightarrow> if errors_is ApiNotFound e then (Inr None, w) else (Inl e, w)
        | (Inr _, w) \<Rightarrow> (Inr (Some machineRef), w)))"

definition restoreActiveBackupGuardHolder :: "'s kube_client \<Rightarrow> string \<Rightarrow> nsname \<Rightarrow> ('s world, backup_job option \<times> bool) call" where
  "restoreActiveBackupGuardHolder c holder target w =
    (case parseBackupJobGuardHolder holder of
       None \<Rightarrow> (Inr (None, False), w)
     | Some holderRef \<Rightarrow>
       (case on_api (api_get (kc_backups c) holderRef) w of
          (Inl e, w) \<Rightarrow> if errors_is ApiNotFound e then (Inr (None, False), w)
                        else (Inl (wrapf ''read target guard holder %s: %w'' [nsname_string holderRef] e), w)
        | (Inr run, w) \<Rightarrow>
          if \<not> ActiveRunBlocksTargetMutation (phase_of run) then (Inr (Some run, False), w)
          else then_do (wrapped ''resolve target guard holder %s target: %w'' [nsname_string holderRef]
              (machineRefForBackupJobWithClient c run w))
            (\<lambda>holderTarget w. (Inr (Some run, holderTarget = None \<or> holderTarget = Some target), w))))"

fun mutating_run_of :: "'s kube_client \<Rightarrow> nsname \<Rightarrow> backup_job list \<Rightarrow> ('s world, backup_job option) call" where
  "mutating_run_of c machineRef [] w = (Inr None, w)"
| "mutating_run_of c machineRef (candidate # rest) w =
    (if \<not> ActiveRunBlocksTargetMutation (phase_of candidate) then mutating_run_of c machineRef rest w
     else then_do (machineRefForBackupJobWithClient c candidate w) (\<lambda>ref w.
       if ref = Some machineRef then (Inr (Some candidate), w) else mutating_run_of c machineRef rest w))"

definition restore_findActiveBackupJobForTarget :: "'s reconciler \<Rightarrow> rsync_machine \<Rightarrow> ('s world, backup_job option) call" where
  "restore_findActiveBackupJobForTarget r target w =
    (let machineRef = meta_key (m_meta target); leaseRef = TargetGuardLeaseRef machineRef; c = rr_client r in
     then_do (case on_api (api_get (kc_leases c) leaseRef) w of
         (Inl e, w) \<Rightarrow> if \<not> errors_is ApiNotFound e then (Inl (wrapf ''get target guard lease %s: %w'' [nsname_string leaseRef] e), w)
                       else (Inr None, w)
       | (Inr l, w) \<Rightarrow>
         if holder_of l = [] then (Inr None, w)
         else then_do (restoreActiveBackupGuardHolder c (holder_of l) machineRef w)
           (\<lambda>(blocking, active) w. (Inr (if active then blocking else None), w)))
     (\<lambda>guarding w. if guarding \<noteq> None then (Inr guarding, w)
       else then_do (wrapped ''list backup jobs: %w'' [] (on_api (api_list (kc_backups c) everything) w))
         (mutating_run_of c machineRef)))"

lemma machineRef_client: "machineRefForBackupJobWithClient (rr_client r) = machineRefForBackupJob r"
  by (intro ext) (simp add: machineRefForBackupJobWithClient_def machineRefForBackupJob_def)

lemma holder_of_guard: "restoreActiveBackupGuardHolder (rr_client r) = activeGuardHolder r"
  by (intro ext) (unfold restoreActiveBackupGuardHolder_def activeGuardHolder_def machineRef_client, rule refl)

section \<open>The status of the jobs\<close>

fun restoreJobFailureMessage :: "k8s_job list \<Rightarrow> string" where
  "restoreJobFailureMessage [] = ''restore Job failed''"
| "restoreJobFailureMessage (job # jobs) =
    (if \<not> jobFailed job then restoreJobFailureMessage jobs
     else let role = (if job_role job = [] then ''restore'' else job_role job);
              at = [role, om_namespace (kj_meta job), om_name (kj_meta job)] in
       case List.find (\<lambda>c. jc_type c = ''Failed'' \<and> jc_status c = CondTrue \<and> (jc_message c \<noteq> [] \<or> jc_reason c \<noteq> []))
           (kj_conditions job) of
         Some c \<Rightarrow> render ''%s Job %s/%s failed: %s'' (at @ [if jc_message c \<noteq> [] then jc_message c else jc_reason c]) []
       | None \<Rightarrow> render ''%s Job %s/%s failed'' at [])"

definition record_restore_job :: "k8s_job \<Rightarrow> 's world \<Rightarrow> 's world" where
  "record_restore_job job w =
     w\<lparr>w_metrics := RecordGeneratedJobStatus RunKindRestore (job_role job)
       (namespacedKey (om_namespace (kj_meta job)) (om_name (kj_meta job))) (generatedJobStatus None job) (w_metrics w)\<rparr>"

text \<open>Whether a job has failed, at which the loop stops, and whether all are complete.\<close>

fun scan_restore_jobs :: "k8s_job list \<Rightarrow> bool \<Rightarrow> 's world \<Rightarrow> (bool \<times> bool) \<times> 's world" where
  "scan_restore_jobs [] allComplete w = ((False, allComplete), w)"
| "scan_restore_jobs (job # jobs) allComplete w =
    (let w = record_restore_job job w in
     if jobFailed job then ((True, allComplete), w)
     else scan_restore_jobs jobs (allComplete \<and> jobComplete job) w)"

definition restore_outcome :: "run_phase \<Rightarrow> condition_entry list" where
  "restore_outcome p =
    (if p = RunSucceeded then
       [(ConditionFailed, CondFalse, ''RunSucceeded'', ''RestoreJob completed successfully''),
        (ConditionTransport, CondTrue, ''TransportComplete'', ''Restore writer completed'')]
     else if p = RunFailed then
       [(ConditionFailed, CondTrue, ''RunFailed'', ''A generated restore Job failed''),
        (ConditionTransport, CondFalse, ''TransportFailed'', ''A generated restore Job failed'')]
     else [])"

definition enter_restore_phase :: "gotime \<Rightarrow> run_phase \<Rightarrow> k8s_job list \<Rightarrow> restore_job \<Rightarrow> restore_job" where
  "enter_restore_phase now p jobs run =
    (let run = (if p = RunSucceeded \<and> rj_restoredSnapshot (r_status run) = []
           then run\<lparr>r_status := (r_status run)\<lparr>rj_restoredSnapshot := SnapshotOrDefault (r_spec run)\<rparr>\<rparr> else run);
         run = restore_with_phase p run;
         run = (if p = RunSucceeded \<or> p = RunFailed then restore_completed_at now run else run);
         run = (if p = RunFailed then run\<lparr>r_status := (r_status run)\<lparr>rj_message := restoreJobFailureMessage jobs\<rparr>\<rparr> else run)
     in set_restore_conditions now (restore_outcome p) run)"

definition announce_restore :: "'s reconciler \<Rightarrow> run_phase \<Rightarrow> restore_job \<Rightarrow> 's world \<Rightarrow> 's world" where
  "announce_restore r p run w =
    (if p = RunSucceeded then recordRunEvent r (restore_key_of run) ''Normal'' ''RunSucceeded'' ''RestoreJob completed successfully'' [] w
     else if p = RunFailed then recordRunEvent r (restore_key_of run) ''Warning'' ''RunFailed'' ''RestoreJob failed because a generated Job failed'' [] w
     else w)"

definition reconcileRestoreJobJobStatus :: "'s reconciler \<Rightarrow> gotime \<Rightarrow> restore_job \<Rightarrow> ('s world, unit) call" where
  "reconcileRestoreJobJobStatus r now run w =
    (let c = rr_client r; tidy = (\<lambda>run. cleanupRunCredentialSecrets c (r_meta run) runKindRestore) in
     if isTerminalPhase (restore_phase run) then tidy run w
     else then_do (wrapped ''list restore job jobs: %w'' []
         (on_api (api_list (kc_jobs c) (MatchingLabels (run_selector (r_meta run) runKindRestore))) w)) (\<lambda>jobs w.
       if jobs = [] then (Inr (), w)
       else case scan_restore_jobs jobs True w of ((failed, allComplete), w) \<Rightarrow>
         let oldPhase = restore_phase run;
             p = (if failed then RunFailed else if allComplete then RunSucceeded else RunRunning) in
         if p = oldPhase then (Inr (), w)
         else then_do (update_status (kc_restores c) ''update restore job job-derived status: %w'' [] (enter_restore_phase now p jobs run) w)
           (\<lambda>run w. let w = record_restore_phase oldPhase run (announce_restore r p run w) in
             if isTerminalPhase (restore_phase run) then tidy run w else (Inr (), w))))"

section \<open>Starting a restore\<close>

definition createRestoreTargetSecretIfMissing :: "'s reconciler \<Rightarrow> gotime \<Rightarrow> rsync_machine \<Rightarrow> k8s_secret \<Rightarrow> ('s world, unit) call" where
  "createRestoreTargetSecretIfMissing r now target =
     owned_by_run r ''RsyncMachine'' (m_meta target) ''rsync machine owner reference on restore target secret'' secret_kind
       (createSecretIfMissing (rr_crypto r) now (kc_secrets (rr_client r)))"

definition createRestoreWriterSecretIfMissing :: "'s reconciler \<Rightarrow> gotime \<Rightarrow> restore_job \<Rightarrow> k8s_secret \<Rightarrow> ('s world, unit) call" where
  "createRestoreWriterSecretIfMissing r now run =
     owned_by_run r ''RestoreJob'' (r_meta run) ''restore job owner reference on restore writer secret'' secret_kind
       (createSecretIfMissing (rr_crypto r) now (kc_secrets (rr_client r)))"

definition createRestoreTargetJobIfMissing :: "'s reconciler \<Rightarrow> rsync_machine \<Rightarrow> k8s_job \<Rightarrow> ('s world, unit) call" where
  "createRestoreTargetJobIfMissing r target =
     owned_by_run r ''RsyncMachine'' (m_meta target) ''rsync machine owner reference on restore target job'' job_kind
       (createJobIfMissing (kc_jobs (rr_client r)))"

definition createRestoreTargetServiceIfMissing :: "'s reconciler \<Rightarrow> rsync_machine \<Rightarrow> k8s_service \<Rightarrow> ('s world, unit) call" where
  "createRestoreTargetServiceIfMissing r target =
     owned_by_run r ''RsyncMachine'' (m_meta target) ''rsync machine owner reference on restore target service'' service_kind
       (createServiceIfMissing (kc_services (rr_client r)))"

definition createRestoreWriterJobIfMissing :: "'s reconciler \<Rightarrow> restore_job \<Rightarrow> k8s_job \<Rightarrow> ('s world, unit) call" where
  "createRestoreWriterJobIfMissing r run =
     owned_by_run r ''RestoreJob'' (r_meta run) ''restore job owner reference on restore writer job'' job_kind
       (createJobIfMissing (kc_jobs (rr_client r)))"

definition create_restore_credential ::
  "'s reconciler \<Rightarrow> gotime \<Rightarrow> restore_job \<Rightarrow> rsync_machine \<Rightarrow> credential_secret \<Rightarrow> ('s world, unit) call" where
  "create_restore_credential r now run target credential =
    (if lookup_text (crs_labels credential) LabelRole = RoleTargetServer
     then createRestoreTargetSecretIfMissing r now target (credential_Secret credential)
     else createRestoreWriterSecretIfMissing r now run (credential_Secret credential))"

definition restore_preparing :: "gotime \<Rightarrow> rsync_machine \<Rightarrow> restore_job \<Rightarrow> restore_job" where
  "restore_preparing now target run =
    (let run = run\<lparr>r_status := (r_status run)\<lparr>rj_phase := RunPreparing,
           rj_startedAt := (case rj_startedAt (r_status run) of None \<Rightarrow> Some now | t \<Rightarrow> t)\<rparr>\<rparr>
     in only_restore_conditions now
       [(''Valid'', CondTrue, ''ResolvedReferences'', ''RestoreJob references resolved successfully''),
        (ConditionTargetReady, CondTrue, ''TargetReady'', render ''RsyncMachine %s/%s is ready'' (machine_args target) []),
        (ConditionFailed, CondFalse, ''RunStarted'', ''RestoreJob started'')] run)"

definition mint_restore_credentials ::
  "'s reconciler \<Rightarrow> gotime \<Rightarrow> restore_job \<Rightarrow> rsync_machine \<Rightarrow> backup_source \<Rightarrow> string \<Rightarrow> ('s world, credential_secret list) call" where
  "mint_restore_credentials r now run target source destinationNamespace w =
    (case BuildRestoreJobCredentialSecretsWithSigner (rr_crypto r) now run target source destinationNamespace DefaultRunCertificateTTL
        (rr_signer r) [rr_controlCA r] (w_entropy w) of
       (res, n) \<Rightarrow> (res, w\<lparr>w_entropy := n\<rparr>))"

definition launch_restore ::
  "'s reconciler \<Rightarrow> gotime \<Rightarrow> restore_job \<Rightarrow> backup_source \<Rightarrow> rsync_machine \<Rightarrow> ('s world, requeue) call" where
  "launch_restore r now run source target w =
    (let asked = rd_namespace (rs_destination (r_spec run));
         destinationNamespace = (if asked = [] then om_namespace (r_meta run) else asked) in
     or_fail_restore r now run (mint_restore_credentials r now run target source destinationNamespace w) (\<lambda>credentials w.
     then_do (each_call (create_restore_credential r now run target) credentials w) (\<lambda>_ w.
     or_fail_restore r now run (BuildRestoreTargetJobWithControl run source target (rr_image r) (dataPlaneControlOptions r), w) (\<lambda>targetJob w.
     then_do (createRestoreTargetJobIfMissing r target targetJob w) (\<lambda>_ w.
     then_do (createRestoreTargetServiceIfMissing r target (BuildRestoreTargetService run target) w) (\<lambda>_ w.
     or_fail_restore r now run (BuildRestoreJobWithControl run source target (rr_image r) (dataPlaneControlOptions r), w) (\<lambda>job w.
     then_do (createRestoreWriterJobIfMissing r run job w) (\<lambda>_ w.
     (case on_api (api_update_status (kc_restores (rr_client r)) (restore_preparing now target run)) w of
        (Inl e, w) \<Rightarrow> (if errors_is ApiNotFound e then Inr None else Inl (wrapf ''set restore job preparing phase: %w'' [] e), w)
      | (Inr stored, w) \<Rightarrow> (Inr None, record_restore_phase (restore_phase run) stored
          (recordRunEvent r (restore_key_of stored) ''Normal'' ''RunStarted'' ''RestoreJob started for RsyncMachine %s/%s'' (machine_args target) w)))))))))))"

definition fail_restore :: "'s reconciler \<Rightarrow> gotime \<Rightarrow> restore_job \<Rightarrow> goerr \<Rightarrow> ('s world, requeue) call" where
  "fail_restore r now run e w = requeue_after None (failRestoreJob r now run e w)"

definition admit_restore ::
  "'s reconciler \<Rightarrow> gotime \<Rightarrow> restore_job \<Rightarrow> backup_source \<Rightarrow> nsname \<Rightarrow> rsync_machine \<Rightarrow> ('s world, requeue) call" where
  "admit_restore r now run source machineRef target w =
    (let fail = fail_restore r now run; destinationNamespace = rd_namespace (rs_destination (r_spec run)) in
     if \<not> SourceNamespaceAllowed target (om_namespace (s_meta source))
     then fail (errorf ''BackupSource namespace %s is not allowed to attach to RsyncMachine %s'' [om_namespace (s_meta source), nsname_string machineRef]) w
     else if \<not> RestoreNamespaceAllowed target (om_namespace (r_meta run))
     then fail (errorf ''RestoreJob namespace %s is not allowed to restore from RsyncMachine %s'' [om_namespace (r_meta run), nsname_string machineRef]) w
     else if destinationNamespace \<noteq> [] \<and> destinationNamespace \<noteq> om_namespace (r_meta run)
     then fail (errorf ''RestoreJob destination namespace %s must match RestoreJob namespace %s'' [destinationNamespace, om_namespace (r_meta run)]) w
     else if \<not> TargetReady target then requeue_after None (holdRestoreJobForTarget r now run target w)
     else or_fail_restore r now run (restore_findActiveBackupJobForTarget r target w) (\<lambda>blocking w. case blocking of
         Some b \<Rightarrow> requeue_after (Some (seconds 30)) (holdRestoreJobForBackup r now run target b w)
       | None \<Rightarrow> or_fail_restore r now run (resolveRestoreSnapshot (SnapshotOrDefault (r_spec run)) target, w) (\<lambda>restoredSnapshot w.
           launch_restore r now (run\<lparr>r_status := (r_status run)\<lparr>rj_restoredSnapshot := restoredSnapshot\<rparr>\<rparr>) source target w)))"

definition start_restore :: "'s reconciler \<Rightarrow> gotime \<Rightarrow> restore_job \<Rightarrow> ('s world, requeue) call" where
  "start_restore r now run w =
    (let c = rr_client r; missing = (\<lambda>e w. (if errors_is ApiNotFound e then Inr None else Inl e, w)) in
     case ResolveObjectReference (rs_sourceRef (r_spec run)) (om_namespace (r_meta run)) of
       Inl e \<Rightarrow> fail_restore r now run (wrapf ''resolve source: %w'' [] e) w
     | Inr source_at \<Rightarrow>
     (case on_api (api_get (kc_sources c) source_at) w of (Inl e, w) \<Rightarrow> missing e w | (Inr source, w) \<Rightarrow>
     (case ResolveObjectReference (ss_machineRef (s_spec source)) (om_namespace (s_meta source)) of
       Inl e \<Rightarrow> fail_restore r now run (wrapf ''resolve source machine: %w'' [] e) w
     | Inr machineRef \<Rightarrow>
     (case on_api (api_get (kc_machines c) machineRef) w of (Inl e, w) \<Rightarrow> missing e w
      | (Inr target, w) \<Rightarrow> admit_restore r now run source machineRef target w))))"

definition restore_reconcile :: "'s reconciler \<Rightarrow> gotime \<Rightarrow> nsname \<Rightarrow> ('s world, requeue) call" where
  "restore_reconcile r now key w =
    (let c = rr_client r in
     case on_api (api_get (kc_restores c) key) w of
       (Inl e, w) \<Rightarrow> (if errors_is ApiNotFound e then Inr None else Inl e, w)
     | (Inr run, w) \<Rightarrow>
       if om_deletion (r_meta run) \<noteq> None then
         requeue_after None (cleanupRunResourcesAndRemoveFinalizer c restore_kind (kc_restores c) run runKindRestore RestoreJobFinalizer False w)
       else if \<not> isTerminalPhase (restore_phase run) \<and> RestoreJobFinalizer \<notin> set (om_finalizers (r_meta run)) then
         then_do (wrapped ''add restore job finalizer: %w'' []
           (on_api (api_update (kc_restores c) (run\<lparr>r_meta := with_finalizer RestoreJobFinalizer (r_meta run)\<rparr>)) w)) (\<lambda>_ w. (Inr None, w))
       else if restore_phase run \<noteq> RunUnset \<and> restore_phase run \<noteq> RunPending then
         requeue_after None (reconcileRestoreJobJobStatus r now run w)
       else start_restore r now run w)"

section \<open>Requests of the watches\<close>

text \<open>The requests are the names of the runs. A list that fails gives none.\<close>

definition listed_or_none :: "('s, 'o) kind_api \<Rightarrow> 's world \<Rightarrow> 'o list \<times> 's world" where
  "listed_or_none api w = (case on_api (api_list api everything) w of (Inl _, w) \<Rightarrow> ([], w) | (Inr objects, w) \<Rightarrow> (objects, w))"

definition backupJobsForMachine :: "'s reconciler \<Rightarrow> rsync_machine \<Rightarrow> 's world \<Rightarrow> nsname list \<times> 's world" where
  "backupJobsForMachine r machine w =
    (case listed_or_none (kc_backups (rr_client r)) w of (runs, w) \<Rightarrow>
       (map run_key_of (filter (\<lambda>run. ResolveObjectReference (bs_machineRef (j_spec run)) (om_namespace (j_meta run))
          = Inr (meta_key (m_meta machine))) runs), w))"

definition backupJobsForSourceMachine :: "'s reconciler \<Rightarrow> backup_source \<Rightarrow> 's world \<Rightarrow> nsname list \<times> 's world" where
  "backupJobsForSourceMachine r source w =
    (case ResolveObjectReference (ss_machineRef (s_spec source)) (om_namespace (s_meta source)) of
       Inl _ \<Rightarrow> ([], w)
     | Inr machineRef \<Rightarrow>
       (case listed_or_none (kc_backups (rr_client r)) w of (runs, w) \<Rightarrow>
          (map run_key_of (filter (\<lambda>run. ResolveObjectReference (bs_machineRef (j_spec run)) (om_namespace (j_meta run))
             = Inr machineRef) runs), w)))"

fun requests_for_machine :: "'s kube_client \<Rightarrow> nsname \<Rightarrow> restore_job list \<Rightarrow> 's world \<Rightarrow> nsname list \<times> 's world" where
  "requests_for_machine c machineRef [] w = ([], w)"
| "requests_for_machine c machineRef (restore # restores) w =
    (case machineRefForRestoreJobWithClient c restore w of (ref, w) \<Rightarrow>
     (case requests_for_machine c machineRef restores w of (requests, w) \<Rightarrow>
       (if ref = Inr (Some machineRef) then restore_key_of restore # requests else requests, w)))"

definition restoreJobsForMachine :: "'s reconciler \<Rightarrow> rsync_machine \<Rightarrow> 's world \<Rightarrow> nsname list \<times> 's world" where
  "restoreJobsForMachine r machine w =
    (case listed_or_none (kc_restores (rr_client r)) w of (restores, w) \<Rightarrow>
       requests_for_machine (rr_client r) (meta_key (m_meta machine)) restores w)"

definition restoreJobsForSource :: "'s reconciler \<Rightarrow> backup_source \<Rightarrow> 's world \<Rightarrow> nsname list \<times> 's world" where
  "restoreJobsForSource r source w =
    (case listed_or_none (kc_restores (rr_client r)) w of (restores, w) \<Rightarrow>
       (map restore_key_of (filter (\<lambda>restore. ResolveObjectReference (rs_sourceRef (r_spec restore)) (om_namespace (r_meta restore))
          = Inr (meta_key (s_meta source))) restores), w))"

section \<open>Nothing without permission\<close>

definition restore_api :: "('s \<Rightarrow> cluster) \<Rightarrow> 's kube_client \<Rightarrow> bool" where
  "restore_api view c \<longleftrightarrow> admission_api view c \<and> run_api view c \<and> status_store view restore_kind (kc_restores c)
     \<and> object_store view source_kind (kc_sources c)"

definition restore_permitted :: "cluster \<Rightarrow> restore_job \<Rightarrow> backup_source \<Rightarrow> rsync_machine \<Rightarrow> bool" where
  "restore_permitted c run source target \<longleftrightarrow>
     (\<exists>at. ResolveObjectReference (rs_sourceRef (r_spec run)) (om_namespace (r_meta run)) = Inr at \<and> fetch source_kind c at = Some source)
   \<and> (\<exists>at. ResolveObjectReference (ss_machineRef (s_spec source)) (om_namespace (s_meta source)) = Inr at \<and> fetch machine_kind c at = Some target)
   \<and> SourceNamespaceAllowed target (om_namespace (s_meta source)) \<and> RestoreNamespaceAllowed target (om_namespace (r_meta run))
   \<and> rd_namespace (rs_destination (r_spec run)) \<in> {[], om_namespace (r_meta run)} \<and> TargetReady target"

definition target_free :: "cluster \<Rightarrow> nsname \<Rightarrow> bool" where
  "target_free c target \<longleftrightarrow>
     (\<forall>run. fetch backup_kind c (run_key_of run) = Some run \<longrightarrow> ActiveRunBlocksTargetMutation (phase_of run) \<longrightarrow> target_of c run \<noteq> Some target)
   \<and> (\<forall>l b. guard_of c target = Some l \<longrightarrow> \<not> blocks c (holder_of l) target b)"

text \<open>The objects of one restore.\<close>

definition restore_objects :: "restore_job \<Rightarrow> backup_source \<Rightarrow> rsync_machine \<Rightarrow> cluster_key set" where
  "restore_objects run source target =
    (let here = om_namespace (r_meta run); there = om_namespace (m_meta target); name = om_name (r_meta run);
         runID = RunIDForRef (meta_key (r_meta run)) in
     {(''job'', there, GeneratedJobName ''restore-target'' name), (''job'', here, GeneratedJobName ''restore'' name),
      (''service'', there, GeneratedServiceName ''restore-target'' name),
      (''secret'', there, GeneratedTLSSecretName runID RoleTargetServer there (om_name (m_meta target))),
      (''secret'', here, GeneratedTLSSecretName runID RoleRestoreWriter (om_namespace (s_meta source)) (om_name (s_meta source)))})"

lemma mutating_effect:
  fixes r :: "'s reconciler"
  assumes store: "object_store view machine_kind (kc_machines (rr_client r))"
  shows "mutating_run_of (rr_client r) target runs w = (res, w') \<Longrightarrow> view (w_api w') = view (w_api w)
    \<and> (res = Inr None \<longrightarrow> (\<forall>run\<in>set runs. ActiveRunBlocksTargetMutation (phase_of run) \<longrightarrow> target_of (view (w_api w)) run \<noteq> Some target))"
proof (induction runs arbitrary: w res w')
  case (Cons run runs)
  show ?case
  proof (cases "ActiveRunBlocksTargetMutation (phase_of run)")
    case True
    obtain ref v where m: "machineRefForBackupJob r run w = (ref, v)"
      by (cases "machineRefForBackupJob r run w")
    note one = machineRef_effect [OF store m]
    show ?thesis
      using Cons.prems Cons.IH [of v] one m True by (cases ref) (auto simp: machineRef_client split: if_splits)
  qed (use Cons in auto)
qed simp

lemma free_effect:
  assumes api: "restore_api view (rr_client r)" and run: "restore_findActiveBackupJobForTarget r target w = (res, w')"
  shows "view (w_api w') = view (w_api w)" "res = Inr None \<Longrightarrow> target_free (view (w_api w)) (meta_key (m_meta target))"
proof -
  let ?at = "meta_key (m_meta target)" and ?c = "rr_client r" and ?v = "view (w_api w)"
  have admission: "admission_api view ?c" and leases: "object_store view lease_kind (kc_leases ?c)"
    and backups: "object_store view backup_kind (kc_backups ?c)" and machines: "object_store view machine_kind (kc_machines ?c)"
    using api by (auto simp: restore_api_def admission_api_def guard_store_def)
  define guard where "guard = (case on_api (api_get (kc_leases ?c) (TargetGuardLeaseRef ?at)) w of
         (Inl e, w) \<Rightarrow> if \<not> errors_is ApiNotFound e then (Inl (wrapf ''get target guard lease %s: %w'' [nsname_string (TargetGuardLeaseRef ?at)] e), w)
                       else (Inr None, w)
       | (Inr l, w) \<Rightarrow>
         if holder_of l = [] then (Inr None, w)
         else then_do (activeGuardHolder r (holder_of l) ?at w) (\<lambda>(blocking, active) w. (Inr (if active then blocking else None), w)))"
  obtain held v where g: "guard = (held, v)"
    by (cases guard)
  obtain found u where l: "on_api (api_get (kc_leases ?c) (TargetGuardLeaseRef ?at)) w = (found, u)"
    by (cases "on_api (api_get (kc_leases ?c) (TargetGuardLeaseRef ?at)) w")
  note read = object_store.read [OF leases l]
  have first: "view (w_api v) = ?v \<and> (held = Inr None \<longrightarrow> (\<forall>l b. guard_of ?v ?at = Some l \<longrightarrow> \<not> blocks ?v (holder_of l) ?at b))"
  proof (cases found)
    case (Inl e)
    then show ?thesis
      using g l read(1,3) by (auto simp: guard_def guard_of_def split: if_splits)
  next
    case (Inr x)
    then have x: "guard_of ?v ?at = Some x"
      using read(2) by (simp add: guard_of_def)
    obtain ans t where h: "activeGuardHolder r (holder_of x) ?at u = (ans, t)"
      by (cases "activeGuardHolder r (holder_of x) ?at u")
    show ?thesis
      using g l Inr x read(1) holder_effect [OF admission h] h
      by (cases ans) (auto simp: guard_def split: if_splits)
  qed
  have rest: "then_do guard (\<lambda>guarding w. if guarding \<noteq> None then (Inr guarding, w)
       else then_do (wrapped ''list backup jobs: %w'' [] (on_api (api_list (kc_backups ?c) everything) w)) (mutating_run_of ?c ?at)) = (res, w')"
    using run unfolding restore_findActiveBackupJobForTarget_def guard_def Let_def holder_of_guard .
  have "view (w_api w') = ?v \<and> (res = Inr None \<longrightarrow> target_free ?v ?at)"
  proof (cases held)
    case (Inl e)
    then show ?thesis
      using rest g first by auto
  next
    case (Inr guarding)
    obtain runs t where b: "on_api (api_list (kc_backups ?c) everything) v = (runs, t)"
      by (cases "on_api (api_list (kc_backups ?c) everything) v")
    note listed = object_store.listed [OF backups b]
    show ?thesis
    proof (cases guarding)
      case (Some x)
      then show ?thesis
        using rest g first Inr by auto
    next
      case None
      show ?thesis
      proof (cases runs)
        case (Inl e)
        then show ?thesis
          using rest g first Inr None b listed(1) by auto
      next
        case (Inr xs)
        then have "mutating_run_of ?c ?at xs t = (res, w')"
          using rest g \<open>held = Inr guarding\<close> None b by simp
        moreover have "set xs = {obj. fetch backup_kind ?v (run_key_of obj) = Some obj}"
          using listed(2) [OF Inr] first by (simp add: object_key_def run_key_of_def backup_kind_def)
        ultimately show ?thesis
          using mutating_effect [OF machines, of ?at xs t res w'] listed(1) first \<open>held = Inr guarding\<close> None
          by (simp add: target_free_def)
      qed
    qed
  qed
  then show "view (w_api w') = view (w_api w)" "res = Inr None \<Longrightarrow> target_free (view (w_api w)) (meta_key (m_meta target))"
    by auto
qed

lemma restore_update_frame [simp]:
  "r_meta (restore_with_phase p run) = r_meta run" "r_meta (restore_completed_at now run) = r_meta run"
  by (simp_all add: restore_with_phase_def restore_completed_at_def)

lemma restore_condition_frame [simp]:
  "r_meta (set_restore_conditions now cs run) = r_meta run" "r_meta (only_restore_conditions now cs run) = r_meta run"
proof -
  have "r_meta (set_restore_condition now c run) = r_meta run" for c run
    by (simp add: set_restore_condition_def split: prod.splits)
  then have sets: "r_meta (set_restore_conditions now cs run) = r_meta run" for run
    unfolding set_restore_conditions_def by (induction cs arbitrary: run) simp_all
  show "r_meta (set_restore_conditions now cs run) = r_meta run" "r_meta (only_restore_conditions now cs run) = r_meta run"
    by (simp_all add: only_restore_conditions_def sets)
qed

lemma restore_run_frame [simp]:
  "r_meta (restore_preparing now target run) = r_meta run" "r_meta (enter_restore_phase now p jobs run) = r_meta run"
  by (simp_all add: restore_preparing_def enter_restore_phase_def Let_def)

lemma restore_object_key: "object_key restore_kind run = meta_key (r_meta run)"
  by (simp add: object_key_def restore_kind_def)

lemma restore_recorded [simp]: "w_api (record_restore_phase p run w) = w_api w" "w_api (announce_restore r p run w) = w_api w"
  "w_api (record_restore_job job w) = w_api w"
  by (simp_all add: record_restore_phase_def announce_restore_def record_restore_job_def)

lemma adds_hold_restore:
  assumes "status_store view restore_kind (kc_restores (rr_client r))" "nothing_new K c (view (w_api w))" "K (''restore'', restore_key_of run)"
  shows "adds view K c (hold_restore r now what condition f args run w)"
  using assms(2,3) unfolding hold_restore_def Let_def
  by (intro adding status_store.adds_update_status [OF assms(1)]) (auto simp: restore_object_key restore_key_of_def)

lemma adds_fail_restore:
  assumes "status_store view restore_kind (kc_restores (rr_client r))" "nothing_new K c (view (w_api w))" "K (''restore'', restore_key_of run)"
  shows "adds view K c (failRestoreJob r now run cause w)"
proof -
  have "adds view K c (on_api (api_update_status (kc_restores (rr_client r)) x) w)" if "r_meta x = r_meta run" for x
    by (rule status_store.adds_status [OF assms(1)]) (use that assms(2,3) in \<open>simp_all add: restore_object_key restore_key_of_def\<close>)
  then have step: "nothing_new K c (view (w_api v))"
    if "on_api (api_update_status (kc_restores (rr_client r)) x) w = (res, v)" "r_meta x = r_meta run" for x res v
    using that by (metis adds_pair)
  show ?thesis
    unfolding failRestoreJob_def Let_def
    by (auto simp: adds_def split: prod.splits sum.splits if_splits intro: step)
qed

lemma adds_or_fail_restore:
  assumes "status_store view restore_kind (kc_restores (rr_client r))" "K (''restore'', restore_key_of run)" "adds view K c res"
    and "\<And>x v. res = (Inr x, v) \<Longrightarrow> nothing_new K c (view (w_api v)) \<Longrightarrow> adds view K c (k x v)"
  shows "adds view K c (or_fail_restore r now run res k)"
proof -
  have "adds view K c (then_do (failRestoreJob r now run e v) (\<lambda>_ w. (Inr None, w)))" if "res = (Inl e, v)" for e v
    by (intro adding adds_fail_restore [OF assms(1)]) (use assms(2,3) that in auto)
  then show ?thesis
    unfolding or_fail_restore_def by (intro adds_result [OF assms(3)]) (use assms(4) in auto)
qed

lemma adds_requeue: "adds view K c res \<Longrightarrow> adds view K c (requeue_after delay res)"
  unfolding requeue_after_def by (rule adds_then) auto

lemma restore_job_place:
  "BuildRestoreTargetJobWithControl run source target img co = Inr job \<Longrightarrow>
     object_key job_kind job = (om_namespace (m_meta target), GeneratedJobName ''restore-target'' (om_name (r_meta run)))"
  "BuildRestoreJobWithControl run source target img co = Inr job' \<Longrightarrow> rd_namespace (rs_destination (r_spec run)) \<in> {[], om_namespace (r_meta run)} \<Longrightarrow>
     object_key job_kind job' = (om_namespace (r_meta run), GeneratedJobName ''restore'' (om_name (r_meta run)))"
  by (auto simp: BuildRestoreTargetJobWithControl_def BuildRestoreJobWithControl_def Let_def object_key_def meta_key_def job_kind_def
      new_job_def new_meta_def split: sum.splits if_splits)

lemma restore_service_place: "object_key service_kind (BuildRestoreTargetService run target)
    = (om_namespace (m_meta target), GeneratedServiceName ''restore-target'' (om_name (r_meta run)))"
  by (simp add: BuildRestoreTargetService_def object_key_def meta_key_def service_kind_def new_service_def new_meta_def)

lemma restore_credential_places:
  assumes "BuildRestoreJobCredentialSecretsWithSigner cr now run target source (om_namespace (r_meta run)) ttl signer ca n = (Inr cs, n')" "x \<in> set cs"
  shows "(''secret'', object_key secret_kind (credential_Secret x)) \<in> restore_objects run source target"
proof -
  have place: "object_key secret_kind (credential_Secret x) = (crs_namespace x, crs_name x)" for x
    by (simp add: credential_Secret_def Let_def object_key_def secret_kind_def BuildTLSSecret_def new_meta_def meta_key_def)
  show ?thesis
    unfolding place
    using assms by (auto simp: BuildRestoreJobCredentialSecretsWithSigner_def buildRestoreJobCredentialSecrets_def Let_def go_result
        restore_objects_def split: if_splits)
qed

lemma adds_launch_restore:
  assumes api: "restore_api view (rr_client r)" and sc: "keeps_place (rr_scheme r)" and quiet: "nothing_new K c (view (w_api w))"
    and K: "K (''restore'', restore_key_of run)" "\<And>a. a \<in> restore_objects run source target \<Longrightarrow> K a"
    and here: "rd_namespace (rs_destination (r_spec run)) \<in> {[], om_namespace (r_meta run)}"
  shows "adds view K c (launch_restore r now run source target w)"
proof -
  have stores: "status_store view restore_kind (kc_restores (rr_client r))" "object_store view job_kind (kc_jobs (rr_client r))"
      "object_store view secret_kind (kc_secrets (rr_client r))" "object_store view service_kind (kc_services (rr_client r))"
    using api by (simp_all add: restore_api_def run_api_def)
  have at: "(if rd_namespace (rs_destination (r_spec run)) = [] then om_namespace (r_meta run)
      else rd_namespace (rs_destination (r_spec run))) = om_namespace (r_meta run)"
    using here by auto
  have mint: "adds view K c (mint_restore_credentials r now run target source ns v)" if "nothing_new K c (view (w_api v))" for v ns
    using that by (auto simp: mint_restore_credentials_def adds_def split: prod.splits)
  have secret: "adds view K c (create_restore_credential r now run target x v)"
    if "mint_restore_credentials r now run target source (om_namespace (r_meta run)) w = (Inr cs, w1)" "x \<in> set cs" "nothing_new K c (view (w_api v))" for cs w1 x v
  proof -
    have "K (''secret'', object_key secret_kind (credential_Secret x))"
      using that(1,2) restore_credential_places K(2) by (auto simp: mint_restore_credentials_def split: prod.splits)
    then show ?thesis
      unfolding create_restore_credential_def createRestoreTargetSecretIfMissing_def createRestoreWriterSecretIfMissing_def
      by (simp; intro conjI impI adds_owned sc that(3) adds_create_secret stores; simp)
  qed
  have jobs: "adds view K c (createRestoreTargetJobIfMissing r target job v)" "adds view K c (createRestoreWriterJobIfMissing r run job v)"
    if "K (''job'', object_key job_kind job)" "nothing_new K c (view (w_api v))" for job v
    unfolding createRestoreTargetJobIfMissing_def createRestoreWriterJobIfMissing_def
    by (intro adds_owned sc that(2) adds_create_job stores; use that(1) in simp)+
  have service: "adds view K c (createRestoreTargetServiceIfMissing r target (BuildRestoreTargetService run target) v)"
    if "nothing_new K c (view (w_api v))" for v
    unfolding createRestoreTargetServiceIfMissing_def
    by (intro adds_owned sc that adds_create_service stores; use K(2) in \<open>simp add: restore_service_place restore_objects_def Let_def\<close>)
  have places: "K (''job'', object_key job_kind job)" if "BuildRestoreTargetJobWithControl run source target img co = Inr job
      \<or> BuildRestoreJobWithControl run source target img co = Inr job" for job img co
    using that restore_job_place [of run source target img co] here K(2) by (auto simp: restore_objects_def Let_def)
  have status: "adds view K c (case on_api (api_update_status (kc_restores (rr_client r)) (restore_preparing now target run)) v of
        (Inl e, w) \<Rightarrow> (if errors_is ApiNotFound e then Inr None else Inl (wrapf ''set restore job preparing phase: %w'' [] e), w)
      | (Inr stored, w) \<Rightarrow> (Inr None, record_restore_phase (restore_phase run) stored
          (recordRunEvent r (restore_key_of stored) ''Normal'' ''RunStarted'' ''RestoreJob started for RsyncMachine %s/%s'' (machine_args target) w)))"
    if "nothing_new K c (view (w_api v))" for v
    by (intro adds_result status_store.adds_status [OF stores(1)])
      (use that K(1) in \<open>simp_all add: restore_object_key restore_key_of_def\<close>)
  show ?thesis
    unfolding launch_restore_def Let_def at
    apply (rule adds_or_fail_restore [where K = K and run = run], rule stores, rule K(1), rule mint [OF quiet])
    apply (rule adds_then, rule adds_each)
    apply (erule (2) secret)
    apply assumption
    apply (rule adds_or_fail_restore [where K = K and run = run], rule stores, rule K(1), simp)
    apply (rule adds_then, rule jobs, rule places, force, assumption)
    apply (rule adds_then, rule service, assumption)
    apply (rule adds_or_fail_restore [where K = K and run = run], rule stores, rule K(1), simp)
    apply (rule adds_then, rule jobs, rule places, force, assumption)
    by (rule status)
qed

abbreviation itself :: "restore_job \<Rightarrow> cluster_key \<Rightarrow> bool" where
  "itself run \<equiv> \<lambda>a. a = (''restore'', restore_key_of run)"

definition restore_confined :: "cluster \<Rightarrow> restore_job \<Rightarrow> cluster \<Rightarrow> bool" where
  "restore_confined c run c' \<longleftrightarrow> nothing_new (itself run) c c'
   \<or> (\<exists>source target. restore_permitted c run source target \<and> target_free c (meta_key (m_meta target))
        \<and> is_ok (resolveRestoreSnapshot (SnapshotOrDefault (r_spec run)) target)
        \<and> nothing_new (\<lambda>a. itself run a \<or> a \<in> restore_objects run source target) c c')"

lemma restore_objects_status [simp]: "restore_objects (run\<lparr>r_status := st\<rparr>) source target = restore_objects run source target"
  by (simp add: restore_objects_def)

lemma adds_fail_call:
  assumes "status_store view restore_kind (kc_restores (rr_client r))" "nothing_new K c (view (w_api w))" "K (''restore'', restore_key_of run)"
  shows "adds view K c (fail_restore r now run e w)"
  unfolding fail_restore_def by (intro adds_requeue adds_fail_restore assms)

lemma quietly_confined: "adds view (itself run) c (res, w) \<Longrightarrow> restore_confined c run (view (w_api w))"
  by (simp add: restore_confined_def)

lemma resolved_confined:
  fixes r :: "'s reconciler"
  assumes api: "restore_api view (rr_client r)" and sc: "keeps_place (rr_scheme r)" and same: "view (w_api w) = c"
    and allowed: "restore_permitted c run source target" "target_free c (meta_key (m_meta target))"
    and run: "or_fail_restore r now run (resolveRestoreSnapshot (SnapshotOrDefault (r_spec run)) target, w) (\<lambda>s w.
        launch_restore r now (run\<lparr>r_status := (r_status run)\<lparr>rj_restoredSnapshot := s\<rparr>\<rparr>) source target w) = (res, w')"
  shows "restore_confined c run (view (w_api w'))"
proof (cases "resolveRestoreSnapshot (SnapshotOrDefault (r_spec run)) target")
  case (Inl e)
  have store: "status_store view restore_kind (kc_restores (rr_client r))"
    using api by (simp add: restore_api_def)
  have "adds view (itself run) c (or_fail_restore r now run (Inl e :: string result, w) k)" for k
    by (rule adds_or_fail_restore [where K = "itself run" and run = run], rule store) (use same in simp_all)
  then show ?thesis
    using run Inl by (metis quietly_confined)
next
  case (Inr snapshot)
  let ?run = "run\<lparr>r_status := (r_status run)\<lparr>rj_restoredSnapshot := snapshot\<rparr>\<rparr>"
  let ?K = "\<lambda>a. itself run a \<or> a \<in> restore_objects run source target"
  have "adds view ?K c (launch_restore r now ?run source target w)"
    by (rule adds_launch_restore [OF api sc]) (use same allowed(1) in \<open>auto simp: restore_key_of_def restore_permitted_def\<close>)
  then have "nothing_new ?K c (view (w_api w'))"
    using run Inr by (simp add: or_fail_restore_def)
  then show ?thesis
    using allowed Inr by (auto simp: restore_confined_def)
qed

lemma admit_confined:
  fixes r :: "'s reconciler"
  assumes api: "restore_api view (rr_client r)" and sc: "keeps_place (rr_scheme r)" and same: "view (w_api w) = c"
    and refs: "ResolveObjectReference (rs_sourceRef (r_spec run)) (om_namespace (r_meta run)) = Inr at" "fetch source_kind c at = Some source"
      "ResolveObjectReference (ss_machineRef (s_spec source)) (om_namespace (s_meta source)) = Inr at'" "fetch machine_kind c at' = Some target"
    and run: "admit_restore r now run source at' target w = (res, w')"
  shows "restore_confined c run (view (w_api w'))"
proof (cases "SourceNamespaceAllowed target (om_namespace (s_meta source)) \<and> RestoreNamespaceAllowed target (om_namespace (r_meta run))
    \<and> rd_namespace (rs_destination (r_spec run)) \<in> {[], om_namespace (r_meta run)} \<and> TargetReady target")
  have store: "status_store view restore_kind (kc_restores (rr_client r))"
    using api by (simp add: restore_api_def)
  note quiet = quietly_confined [of view run c res w', unfolded run [symmetric]]
  {
    case False
    then show ?thesis
      using same unfolding admit_restore_def Let_def holdRestoreJobForTarget_def
      by (intro quiet) (auto simp: admit_restore_def holdRestoreJobForTarget_def Let_def
        intro!: adds_fail_call [OF store] adds_requeue adds_hold_restore [OF store])
  next
    case True
    then have permitted: "restore_permitted c run source target"
      using refs by (auto simp: restore_permitted_def)
    obtain blocking v where f: "restore_findActiveBackupJobForTarget r target w = (blocking, v)"
      by (cases "restore_findActiveBackupJobForTarget r target w")
    note free = free_effect [OF api f]
    have go: "or_fail_restore r now run (blocking, v) (\<lambda>blocking w. case blocking of
         Some b \<Rightarrow> requeue_after (Some (seconds 30)) (holdRestoreJobForBackup r now run target b w)
       | None \<Rightarrow> or_fail_restore r now run (resolveRestoreSnapshot (SnapshotOrDefault (r_spec run)) target, w) (\<lambda>restoredSnapshot w.
           launch_restore r now (run\<lparr>r_status := (r_status run)\<lparr>rj_restoredSnapshot := restoredSnapshot\<rparr>\<rparr>) source target w)) = (res, w')"
      using run True f by (auto simp: admit_restore_def Let_def)
    show ?thesis
    proof (cases "blocking = Inr None")
      case True
      then show ?thesis
        using go free same permitted by (intro resolved_confined [OF api sc]) (auto simp: or_fail_restore_def)
    next
      case False
      have step: "adds view (itself run) c (or_fail_restore r now run (blocking, v) k)"
        if "\<And>b. blocking = Inr (Some b) \<Longrightarrow> adds view (itself run) c (k (Some b) v)" for k
        by (rule adds_or_fail_restore [where K = "itself run" and run = run], rule store)
          (use that False free(1) same in auto)
      have "adds view (itself run) c (res, w')"
        unfolding go [symmetric]
        by (rule step, unfold holdRestoreJobForBackup_def Let_def option.case)
          (intro adds_requeue adds_hold_restore [OF store]; use free(1) same in simp)
      then show ?thesis
        by (rule quietly_confined)
    qed
  }
qed

lemma start_restore_confined:
  fixes r :: "'s reconciler"
  assumes api: "restore_api view (rr_client r)" and sc: "keeps_place (rr_scheme r)"
    and run: "start_restore r now run w = (res, w')"
  shows "restore_confined (view (w_api w)) run (view (w_api w'))"
proof -
  let ?c = "rr_client r" and ?v = "view (w_api w)"
  have stores: "status_store view restore_kind (kc_restores ?c)" "object_store view source_kind (kc_sources ?c)"
      "object_store view machine_kind (kc_machines ?c)"
    using api by (simp_all add: restore_api_def admission_api_def)
  have fail: "restore_confined ?v run (view (w_api w'))" if "fail_restore r now run e u = (res, w')" "view (w_api u) = ?v" for e u
    using that adds_fail_call [OF stores(1), of "itself run" ?v u run now e] by (intro quietly_confined [of view run ?v res w']) simp
  show ?thesis
  proof (cases "ResolveObjectReference (rs_sourceRef (r_spec run)) (om_namespace (r_meta run))")
    case (Inl e)
    then show ?thesis
      using run fail [of _ w] by (auto simp: start_restore_def)
  next
    case (Inr at)
    note source_at = Inr
    obtain found u where s: "on_api (api_get (kc_sources ?c) at) w = (found, u)"
      by (cases "on_api (api_get (kc_sources ?c) at) w")
    note source_read = object_store.read [OF stores(2) s]
    show ?thesis
    proof (cases found)
      case (Inl e)
      then show ?thesis
        using run source_at s source_read(1) by (auto simp: start_restore_def restore_confined_def)
    next
      case (Inr source)
      note source = Inr
      show ?thesis
      proof (cases "ResolveObjectReference (ss_machineRef (s_spec source)) (om_namespace (s_meta source))")
        case (Inl e)
        then show ?thesis
          using run source_at s source source_read(1) fail [of _ u] by (auto simp: start_restore_def)
      next
        case (Inr at')
        note machine_at = Inr
        obtain found' u' where m: "on_api (api_get (kc_machines ?c) at') u = (found', u')"
          by (cases "on_api (api_get (kc_machines ?c) at') u")
        note machine_read = object_store.read [OF stores(3) m]
        show ?thesis
        proof (cases found')
          case (Inl e)
          then show ?thesis
            using run source_at s source source_read(1) machine_at m machine_read(1)
            by (auto simp: start_restore_def restore_confined_def)
        next
          case (Inr target)
          then show ?thesis
            using run source_at s source machine_at m source_read(1,2) machine_read(1,2)
            by (intro admit_confined [OF api sc _ source_at _ machine_at]) (auto simp: start_restore_def)
        qed
      qed
    qed
  qed
qed

lemma scan_restore_api: "w_api (snd (scan_restore_jobs jobs complete w)) = w_api w"
  by (induction jobs arbitrary: complete w) (simp_all add: Let_def)

lemma adds_restore_status:
  assumes api: "restore_api view (rr_client r)" and quiet: "nothing_new K c (view (w_api w))" and K: "K (''restore'', restore_key_of run)"
  shows "adds view K c (reconcileRestoreJobJobStatus r now run w)"
proof -
  let ?c = "rr_client r"
  have stores: "status_store view restore_kind (kc_restores ?c)" "object_store view secret_kind (kc_secrets ?c)" "object_store view job_kind (kc_jobs ?c)"
    using api by (simp_all add: restore_api_def run_api_def)
  have tidy: "adds view K c (cleanupRunCredentialSecrets ?c m runKindRestore v)" if "nothing_new K c (view (w_api v))" for m v
    unfolding cleanupRunCredentialSecrets_def deleteLabeledRunSecrets_def by (rule object_store.adds_delete_listed [OF stores(2) that])
  have update: "adds view K c (update_status (kc_restores ?c) f args (enter_restore_phase now p jobs run) v)"
    if "nothing_new K c (view (w_api v))" for f args p jobs v
    by (rule status_store.adds_update_status [OF stores(1) that]) (use K in \<open>simp add: restore_object_key restore_key_of_def\<close>)
  have stored: "adds view K c (then_do (update_status (kc_restores ?c) f args (enter_restore_phase now p jobs run) v)
      (\<lambda>run w. let w = record_restore_phase q run (announce_restore r p run w) in
         if isTerminalPhase (restore_phase run) then cleanupRunCredentialSecrets ?c (r_meta run) runKindRestore w else (Inr (), w)))"
    if "nothing_new K c (view (w_api v))" for f args p q jobs v
    unfolding Let_def by (intro adding update that tidy) simp_all
  have scanned: "nothing_new K c (view (w_api u))" if "scan_restore_jobs jobs True v = (x, u)" "nothing_new K c (view (w_api v))" for jobs v x u
    using that scan_restore_api [of jobs True v] by simp
  show ?thesis
    unfolding reconcileRestoreJobJobStatus_def Let_def
    by (intro adding tidy quiet object_store.adds_list [OF stores(3)])
      (auto split: prod.splits intro: stored [unfolded Let_def] scanned)
qed

text \<open>C9. A restore that may not run creates nothing. One pass over a RestoreJob adds or changes
  at most the RestoreJob itself, unless the source and the machine that it names exist, the
  source may attach to the machine, the namespace of the restore may restore from it, the
  destination is in that namespace, the machine is ready, no backup is active on it and none
  that is active holds its lease, and the snapshot is one that the machine can serve; then it
  adds or changes at most the two jobs, the service and the two secrets of this restore.\<close>

theorem restore_without_permission_creates_nothing:
  fixes r :: "'s reconciler"
  assumes "restore_api view (rr_client r)" and "keeps_place (rr_scheme r)"
    and "restore_reconcile r now key w = (res, w')"
  shows "nothing_new (\<lambda>a. a = (''restore'', key)) (view (w_api w)) (view (w_api w'))
    \<or> (\<exists>run. fetch restore_kind (view (w_api w)) key = Some run \<and> restore_confined (view (w_api w)) run (view (w_api w')))"
proof -
  let ?c = "rr_client r" and ?v = "view (w_api w)"
  have stores: "status_store view restore_kind (kc_restores ?c)" "object_store view restore_kind (kc_restores ?c)" "run_api view ?c"
    using assms(1) by (simp_all add: restore_api_def status_store_def)
  obtain found u where g: "on_api (api_get (kc_restores ?c) key) w = (found, u)"
    by (cases "on_api (api_get (kc_restores ?c) key) w")
  note read = object_store.read [OF stores(2) g]
  show ?thesis
  proof (cases found)
    case (Inl e)
    then show ?thesis
      using assms(3) g read(1) by (auto simp: restore_reconcile_def)
  next
    case (Inr run)
    have run: "fetch restore_kind ?v key = Some run"
      using read(2) Inr by simp
    have key: "meta_key (r_meta run) = key"
      using object_store.fetch_key [OF stores(2) run] by (simp add: restore_object_key)
    let ?K = "\<lambda>a. a = (''restore'', key)"
    have passes: "start_restore r now run u = (res, w') \<or> adds view ?K ?v (res, w')"
    proof -
      have quiet: "adds view ?K ?v (requeue_after None (cleanupRunResourcesAndRemoveFinalizer ?c restore_kind (kc_restores ?c) run runKindRestore RestoreJobFinalizer False u))"
          "adds view ?K ?v (then_do (wrapped ''add restore job finalizer: %w'' []
           (on_api (api_update (kc_restores ?c) (run\<lparr>r_meta := with_finalizer RestoreJobFinalizer (r_meta run)\<rparr>)) u)) (\<lambda>_ w. (Inr None :: requeue result, w)))"
        by (intro adds_requeue adding adds_finalizer [OF stores(3,2)] object_store.adds_update [OF stores(2)];
            use read(1) key in \<open>simp add: restore_object_key with_finalizer_def meta_key_def\<close>)+
      have status: "adds view ?K ?v (requeue_after None (reconcileRestoreJobJobStatus r now run u))"
        by (intro adds_requeue adds_restore_status [OF assms(1)]) (use read(1) key in \<open>simp_all add: restore_key_of_def\<close>)
      have "restore_reconcile r now key w = start_restore r now run u \<or> adds view ?K ?v (restore_reconcile r now key w)"
        unfolding restore_reconcile_def Let_def g Inr using quiet status by simp
      then show ?thesis
        unfolding assms(3) by auto
    qed
    then show ?thesis
      using start_restore_confined [OF assms(1,2), of now run u res w'] run read(1) by auto
  qed
qed

lemma memory_restore_api: "restore_api memory_view memory_client"
  using memory_admission_api memory_run_api memory_restore_status.status_store_axioms memory_store [of source_kind]
  by (simp add: restore_api_def memory_client_def)

definition foreign_restore :: restore_job where
  "foreign_restore = \<lparr>r_meta = empty_meta\<lparr>om_namespace := ''app'', om_name := ''undo'', om_finalizers := [RestoreJobFinalizer]\<rparr>,
     r_spec = \<lparr>rs_sourceRef = \<lparr>or_namespace = ''db'', or_name = ''data''\<rparr>, rs_snapshot = [],
       rs_destination = \<lparr>rd_namespace = [], rd_pvcName = [], rd_path = []\<rparr>,
       rs_rsync = \<lparr>ro_delete = None, ro_oneFileSystem = None\<rparr>, rs_pod = no_pod_settings\<rparr>,
     r_status = \<lparr>rj_phase = RunUnset, rj_startedAt = None, rj_completedAt = None, rj_restoredSnapshot = [], rj_exitCode = 0,
       rj_message = [], rj_transfers = [], rj_conditions = []\<rparr>\<rparr>"

theorem restore_without_permission_creates_nothing_witness:
  "nothing_new (\<lambda>a. a = (''restore'', ''app'', ''undo''))
     (memory_view [RestoreObject foreign_restore, SourceObject demo_run_source, MachineObject demo_run_target])
     (memory_view (w_api (snd (restore_reconcile demo_reconciler 0 (''app'', ''undo'')
        (demo_world [RestoreObject foreign_restore, SourceObject demo_run_source, MachineObject demo_run_target])))))"
proof -
  let ?s = "[RestoreObject foreign_restore, SourceObject demo_run_source, MachineObject demo_run_target]"
  obtain res w' where run: "restore_reconcile demo_reconciler 0 (''app'', ''undo'') (demo_world ?s) = (res, w')"
    by (cases "restore_reconcile demo_reconciler 0 (''app'', ''undo'') (demo_world ?s)")
  have config: "restore_api memory_view (rr_client demo_reconciler)" "keeps_place (rr_scheme demo_reconciler)"
    by (simp_all add: memory_restore_api) (simp add: demo_reconciler_def)
  have found: "fetch restore_kind (memory_view ?s) (''app'', ''undo'') = Some foreign_restore"
    "fetch source_kind (memory_view ?s) (''db'', ''data'') = Some demo_run_source"
    "fetch machine_kind (memory_view ?s) (''ops'', ''vault'') = Some demo_run_target"
    by (simp_all add: fetch_def memory_view_def address_def kind_defs object_key_def meta_key_def foreign_restore_def
        demo_run_source_def demo_run_target_def empty_meta_def)
  have denied: "\<not> RestoreNamespaceAllowed demo_run_target ''app''"
    by (simp add: RestoreNamespaceAllowed_def namespaceAllowed_def demo_run_target_def)
  have refs: "ResolveObjectReference (rs_sourceRef (r_spec foreign_restore)) (om_namespace (r_meta foreign_restore)) = Inr (''db'', ''data'')"
    "ResolveObjectReference (ss_machineRef (s_spec demo_run_source)) (om_namespace (s_meta demo_run_source)) = Inr (''ops'', ''vault'')"
    "om_namespace (r_meta foreign_restore) = ''app''"
    by (simp_all add: foreign_restore_def demo_run_source_def ResolveObjectReference_def NamespaceOr_def Let_def)
  have "\<not> restore_permitted (memory_view ?s) foreign_restore source target" for source target
    using found(2,3) denied refs by (auto simp: restore_permitted_def)
  then show ?thesis
    using restore_without_permission_creates_nothing [OF config run] found run
    by (auto simp: restore_confined_def restore_key_of_def foreign_restore_def meta_key_def)
qed

section \<open>The snapshot is one of the machine\<close>

lemma latest_point_Inr:
  "latest_point requested target points = Inr s \<Longrightarrow>
     \<exists>point\<in>set points. rp_snapshot point = DefaultSnapshot \<and> NormalizeRelativePath (rp_resolvesTo point) = Inr s"
  by (induction requested target points rule: latest_point.induct) (auto simp: cleanSnapshotPath_eq_normalize split: if_splits sum.splits)

text \<open>A restore reads a snapshot that its machine has recorded: the resolved name is normalised,
  so it stays below the root of the target; on a mirror it is the mirror; for the newest
  snapshot it is what the recorded alias resolves to; and any other name is the name of a
  restore point, unless the machine has not recorded any.\<close>

theorem restored_snapshot_is_recorded:
  assumes "resolveRestoreSnapshot requested target = Inr s"
  shows "NormalizeRelativePath s = Inr s
    \<and> (if strategy_TypeOrDefault (ms_strategy (m_spec target)) = StrategyMirror then s = DefaultMirrorSnapshot
       else if requested \<in> {[], DefaultSnapshot}
       then \<exists>point\<in>set (mst_restorePoints (m_status target)). rp_snapshot point = DefaultSnapshot \<and> NormalizeRelativePath (rp_resolvesTo point) = Inr s
       else mst_restorePoints (m_status target) = [] \<or> s \<in> rp_snapshot ` set (mst_restorePoints (m_status target)))"
proof -
  have current: "NormalizeRelativePath ''current'' = Inr ''current''"
    by code_simp
  show ?thesis
    using assms latest_point_Inr [of DefaultSnapshot target "mst_restorePoints (m_status target)" s] current
    unfolding resolveRestoreSnapshot_def Let_def list_ex_iff
    by (auto simp: cleanSnapshotPath_eq_normalize split: if_splits sum.splits dest: normalize_idempotent)
qed

definition recorded_target :: rsync_machine where
  "recorded_target = demo_run_target\<lparr>m_status := (m_status demo_run_target)\<lparr>mst_restorePoints :=
     [\<lparr>rp_snapshot = ''latest'', rp_resolvesTo = ''hourly/2024'', rp_tier = ''latest'', rp_createdAt = None, rp_bytesTransferred = 0\<rparr>]\<rparr>\<rparr>"

theorem restored_snapshot_is_recorded_witness:
  "resolveRestoreSnapshot [] recorded_target = Inr ''hourly/2024'' \<and> NormalizeRelativePath ''hourly/2024'' = Inr ''hourly/2024''"
proof -
  have "cleanSnapshotPath ''hourly/2024'' = Inr ''hourly/2024''"
    by code_simp
  then have "resolveRestoreSnapshot [] recorded_target = Inr ''hourly/2024''"
    by (simp add: resolveRestoreSnapshot_def recorded_target_def demo_run_target_def strategy_TypeOrDefault_def)
  then show ?thesis
    using restored_snapshot_is_recorded by blast
qed

text \<open>The alias of the newest snapshot is not resolved when it is spelled another way.\<close>

theorem alias_is_not_resolved:
  "resolveRestoreSnapshot ''./latest'' recorded_target = Inr ''latest''"
proof -
  have "cleanSnapshotPath ''./latest'' = Inr ''latest''"
    by code_simp
  then show ?thesis
    by (simp add: resolveRestoreSnapshot_def recorded_target_def demo_run_target_def strategy_TypeOrDefault_def)
qed

end
