(* ===== verification/Machine_Reconciler.thy ===== *)
theory Machine_Reconciler
  imports Restore_Reconciler Run_Set
begin

text \<open>
  The reconcilers of RsyncMachine and BackupSource objects, and the schedule of a
  machine (controller/reconcilers.go). The cron library is a parameter: a parser that
  gives the function \<open>Next\<close> of a schedule. The theorems are about the schedule: the
  times at which runs are created, that none is skipped, and the delay until the next
  look; and about the check of the sources: a mirror that it accepts can run, a machine
  with snapshots can run unless two of its sources claim one destination.
\<close>

section \<open>The schedule\<close>

type_synonym cron_schedule = "gotime \<Rightarrow> gotime"
type_synonym cron_parser = "string \<Rightarrow> cron_schedule result"

abbreviation scheduleLookback :: int where "scheduleLookback \<equiv> seconds 86400"

fun last_due :: "nat \<Rightarrow> cron_schedule \<Rightarrow> gotime \<Rightarrow> gotime \<Rightarrow> gotime \<Rightarrow> gotime" where
  "last_due 0 schedule now cursor latest = latest"
| "last_due (Suc n) schedule now cursor latest =
    (if schedule cursor > now then latest else last_due n schedule now (schedule cursor) (schedule cursor))"

text \<open>The zero time is the start of the calendar, so \<open>Before\<close> holds for it as well.\<close>

definition nextDueSchedule :: "cron_schedule \<Rightarrow> rsync_machine \<Rightarrow> gotime \<Rightarrow> gotime \<times> bool" where
  "nextDueSchedule schedule machine now =
    (case mst_lastScheduledAt (m_status machine) of
       Some t \<Rightarrow> (schedule t, schedule t \<le> now)
     | None \<Rightarrow>
       let created = om_creation (m_meta machine);
           start = (if created = zero_time \<or> created < now - scheduleLookback then now - scheduleLookback else created);
           latest = last_due 10000 schedule now (start - seconds 1) zero_time
       in (latest, latest \<noteq> zero_time))"

definition requeueAfter :: "gotime \<Rightarrow> gotime \<Rightarrow> int" where
  "requeueAfter now next =
    (if next = zero_time then ownedResourceReconcileAfter
     else let delay = next - now in
       if delay \<le> 0 then seconds 1
       else if delay > ownedResourceReconcileAfter then ownedResourceReconcileAfter else delay)"

definition scheduled_run :: "rsync_machine \<Rightarrow> gotime \<Rightarrow> backup_job" where
  "scheduled_run target scheduledAt =
    \<lparr>j_meta = empty_meta\<lparr>om_namespace := om_namespace (m_meta target),
       om_name := GeneratedScheduledBackupJobName (om_name (m_meta target)) scheduledAt,
       om_labels := [(LabelName, AppName), (LabelMachine, om_name (m_meta target)), (LabelRole, RoleMachineTrigger)],
       om_annotations := [(''krm.chirino.github.io/scheduled-at'', format_rfc3339 scheduledAt)]\<rparr>,
     j_spec = \<lparr>bs_machineRef = \<lparr>or_namespace = om_namespace (m_meta target), or_name = om_name (m_meta target)\<rparr>,
       bs_trigger = TriggerScheduled\<rparr>,
     j_status = empty_backup_status\<rparr>"

definition createScheduledBackupJob :: "'s reconciler \<Rightarrow> rsync_machine \<Rightarrow> gotime \<Rightarrow> ('s world, unit) call" where
  "createScheduledBackupJob r target scheduledAt w =
    (let run = scheduled_run target scheduledAt in
     case (case rr_scheme r of None \<Rightarrow> Inr (j_meta run)
         | Some sc \<Rightarrow> SetControllerReference sc ''RsyncMachine'' (m_meta target) (j_meta run)) of
       Inl e \<Rightarrow> (Inl (wrapf ''set scheduled backup job owner reference: %w'' [] e), w)
     | Inr m \<Rightarrow>
       (case on_api (api_create (kc_backups (rr_client r)) (run\<lparr>j_meta := m\<rparr>)) w of
          (Inl e, w) \<Rightarrow> (if errors_is ApiAlreadyExists e then Inr () else Inl (wrapf ''create scheduled backup job: %w'' [] e), w)
        | (Inr _, w) \<Rightarrow> (Inr (), w)))"

definition machine_condition :: "gotime \<Rightarrow> condition_entry \<Rightarrow> bool \<times> rsync_machine \<Rightarrow> bool \<times> rsync_machine" where
  "machine_condition now c d = (case c of (ty, status, reason, message) \<Rightarrow> case d of (changed, m) \<Rightarrow>
     (case setCondition now ty status reason message (om_generation (m_meta m)) (mst_conditions (m_status m)) of
        (b, cs) \<Rightarrow> (b \<or> changed, m\<lparr>m_status := (m_status m)\<lparr>mst_conditions := cs\<rparr>\<rparr>)))"

definition reconcileSchedule :: "'s reconciler \<Rightarrow> cron_parser \<Rightarrow> rsync_machine \<Rightarrow> gotime \<Rightarrow> ('s world, requeue) call" where
  "reconcileSchedule r ParseStandard target now w =
    (case ParseStandard (ms_schedule (m_spec target)) of
       Inl e \<Rightarrow>
         (case machine_condition now (''Valid'', CondFalse, ''InvalidSpec'', render ''spec.schedule is invalid: %v'' [error_text e] []) (False, target) of
            (changed, target) \<Rightarrow>
              then_do (if changed then update_status (kc_machines (rr_client r)) ''update invalid schedule condition: %w'' [] target w else (Inr target, w))
                (\<lambda>_ w. (Inr (Some ownedResourceReconcileAfter), w)))
     | Inr schedule \<Rightarrow>
       (case nextDueSchedule schedule target now of (scheduledAt, due) \<Rightarrow>
          if \<not> due then (Inr (Some (requeueAfter now (schedule now))), w)
          else then_do (createScheduledBackupJob r target scheduledAt w) (\<lambda>_ w.
            then_do (update_status (kc_machines (rr_client r)) ''update rsync machine last scheduled time: %w'' []
                (target\<lparr>m_status := (m_status target)\<lparr>mst_lastScheduledAt := Some scheduledAt\<rparr>\<rparr>) w)
              (\<lambda>_ w. (Inr (Some (requeueAfter now (schedule scheduledAt))), w)))))"

section \<open>The check of the sources\<close>

fun check_destinations :: "rsync_machine \<Rightarrow> bool \<Rightarrow> backup_source list \<Rightarrow> string + bool" where
  "check_destinations machine found [] = Inr found"
| "check_destinations machine found (source # rest) =
    (if \<not> claims_machine machine source then check_destinations machine found rest
     else case EffectiveDestinationPathForStrategy machine source of
         Inl e \<Rightarrow> Inl (render ''BackupSource %s has invalid destinationPath: %v''
           [nsname_string (meta_key (s_meta source)), error_text e] [])
       | Inr _ \<Rightarrow> check_destinations machine True rest)"

definition check_sources :: "rsync_machine \<Rightarrow> backup_source list \<Rightarrow> cond_status \<times> string \<times> string" where
  "check_sources machine sources =
    (case check_destinations machine False sources of
       Inl message \<Rightarrow> (CondFalse, ''InvalidSpec'', message)
     | Inr found \<Rightarrow>
       if \<not> found then (CondFalse, ''InvalidSpec'', ''at least one BackupSource must reference this RsyncMachine'')
       else (case DetectMirrorDestinationPathOverlaps machine (sources_by_ref sources) of
           Inl e \<Rightarrow> (CondFalse, ''InvalidSpec'', error_text e)
         | Inr [] \<Rightarrow> (CondTrue, ''ResolvedReferences'', ''RsyncMachine references resolved successfully'')
         | Inr (overlap # _) \<Rightarrow> (CondFalse, ''InvalidSpec'', render ''mirror target path overlap at %q with delete enabled for sources %s''
             [po_path overlap, namespacedNameList (po_sources overlap)] [])))"

definition validateRsyncMachineSources :: "'s reconciler \<Rightarrow> rsync_machine \<Rightarrow> 's world \<Rightarrow> (cond_status \<times> string \<times> string) \<times> 's world" where
  "validateRsyncMachineSources r machine w =
    (let strategy = strategy_TypeOrDefault (ms_strategy (m_spec machine)) in
     if strategy \<noteq> StrategySnapshot \<and> strategy \<noteq> StrategyMirror then
       ((CondFalse, ''InvalidSpec'', render ''spec.strategy.type %q is not supported'' [strategy_text (ms_strategy (m_spec machine))] []), w)
     else if strategy = StrategyMirror \<and> \<not> retention_empty (ms_retention (m_spec machine)) then
       ((CondFalse, ''InvalidSpec'', ''spec.retention must be empty when spec.strategy.type is Mirror''), w)
     else (case on_api (api_list (kc_sources (rr_client r)) everything) w of
         (Inl e, w) \<Rightarrow> ((CondUnknown, ''MissingReference'', render ''BackupSources could not be listed: %v'' [error_text e] []), w)
       | (Inr sources, w) \<Rightarrow> (check_sources machine sources, w)))"

section \<open>The machine\<close>

definition deleteGeneratedCronJob :: "'s reconciler \<Rightarrow> rsync_machine \<Rightarrow> ('s world, unit) call" where
  "deleteGeneratedCronJob r target w =
    (case on_api (api_get (kc_cronjobs (rr_client r)) (om_namespace (m_meta target), GeneratedCronJobName (om_name (m_meta target)))) w of
       (Inl e, w) \<Rightarrow> (if errors_is ApiNotFound e then Inr () else Inl e, w)
     | (Inr cronJob, w) \<Rightarrow> delete_object (kc_cronjobs (rr_client r)) ''Background'' cronJob w)"

definition scheduled_for :: "nsname \<Rightarrow> backup_job \<Rightarrow> bool" where
  "scheduled_for machineRef run = (TriggerOrDefault (j_spec run) = TriggerScheduled
     \<and> ResolveObjectReference (bs_machineRef (j_spec run)) (om_namespace (j_meta run)) = Inr machineRef)"

definition deleteScheduledBackupJobsForMachine :: "'s reconciler \<Rightarrow> rsync_machine \<Rightarrow> ('s world, unit) call" where
  "deleteScheduledBackupJobsForMachine r target w =
     then_do (wrapped ''list scheduled backup jobs for rsync machine deletion: %w'' []
         (on_api (api_list (kc_backups (rr_client r)) everything) w))
       (\<lambda>runs. each_call (\<lambda>run w. wrapped ''delete scheduled backup job %s/%s: %w'' (run_args run)
           (delete_object (kc_backups (rr_client r)) [] run w))
         (filter (scheduled_for (meta_key (m_meta target))) runs))"

definition forget_restore_points :: "gotime \<Rightarrow> rsync_machine \<Rightarrow> bool \<times> rsync_machine" where
  "forget_restore_points now target =
    (if strategy_TypeOrDefault (ms_strategy (m_spec target)) = StrategyMirror
        \<and> (mst_restorePoints (m_status target) \<noteq> [] \<or> mst_restorePointCount (m_status target) \<noteq> 0)
     then (True, target\<lparr>m_status := (m_status target)\<lparr>mst_restorePoints := [], mst_restorePointCount := 0,
       mst_restorePointsUpdatedAt := Some now\<rparr>\<rparr>)
     else (False, target))"

definition machine_conditions :: "'s reconciler \<Rightarrow> rsync_machine \<Rightarrow> 's world \<Rightarrow> condition_entry list \<times> 's world" where
  "machine_conditions r target w =
    (if ms_pvcName (m_spec target) = [] then
       ([(''Valid'', CondFalse, ''InvalidSpec'', ''spec.pvcName is required''),
         (''Ready'', CondFalse, ''InvalidSpec'', ''RsyncMachine PVC is not configured'')], w)
     else let ref = (om_namespace (m_meta target), ms_pvcName (m_spec target)); text = nsname_string ref in
       case on_api (api_get (kc_claims (rr_client r)) ref) w of
         (Inl e, w) \<Rightarrow>
           (if errors_is ApiNotFound e then
              [(''Valid'', CondFalse, ''MissingReference'', render ''PersistentVolumeClaim %s was not found'' [text] []),
               (''Ready'', CondFalse, ''MissingReference'', render ''PersistentVolumeClaim %s was not found'' [text] [])]
            else [(''Valid'', CondUnknown, ''MissingReference'', render ''PersistentVolumeClaim %s could not be read: %v'' [text, error_text e] [])], w)
       | (Inr _, w) \<Rightarrow>
         (case validateRsyncMachineSources r target w of ((valid, reason, message), w) \<Rightarrow>
           (if valid \<noteq> CondTrue then [(''Valid'', valid, reason, message), (''Ready'', CondFalse, reason, message)]
            else [(''Valid'', CondTrue, ''ResolvedReferences'', render ''PersistentVolumeClaim %s and sources are available'' [text] []),
                  (''Ready'', CondTrue, ''ResolvedReferences'', ''RsyncMachine is ready'')], w)))"

definition machine_removed :: "'s reconciler \<Rightarrow> rsync_machine \<Rightarrow> ('s world, unit) call" where
  "machine_removed r target w =
     then_do (deleteScheduledBackupJobsForMachine r target w) (\<lambda>_ w.
     then_do (deleteGeneratedCronJob r target w) (\<lambda>_ w.
       if RsyncMachineFinalizer \<notin> set (om_finalizers (m_meta target)) then (Inr (), w)
       else case on_api (api_update (kc_machines (rr_client r))
           (target\<lparr>m_meta := without_finalizer RsyncMachineFinalizer (m_meta target)\<rparr>)) w of
         (Inl e, w) \<Rightarrow> (if errors_is ApiNotFound e then Inr () else Inl (wrapf ''remove rsync machine finalizer: %w'' [] e), w)
       | (Inr _, w) \<Rightarrow> (Inr (), w)))"

definition machine_observed :: "'s reconciler \<Rightarrow> gotime \<Rightarrow> rsync_machine \<Rightarrow> ('s world, rsync_machine) call" where
  "machine_observed r now target w =
    (case forget_restore_points now target of (forgotten, target) \<Rightarrow>
     case machine_conditions r target w of (conditions, w) \<Rightarrow>
     case fold (machine_condition now) conditions (forgotten, target) of (changed, target) \<Rightarrow>
       if changed then update_status (kc_machines (rr_client r)) ''update rsync machine conditions: %w'' [] target w
       else (Inr target, w))"

definition machine_reconcile :: "'s reconciler \<Rightarrow> cron_parser \<Rightarrow> gotime \<Rightarrow> nsname \<Rightarrow> ('s world, requeue) call" where
  "machine_reconcile r ParseStandard now key w =
    (let c = rr_client r in
     case on_api (api_get (kc_machines c) key) w of
       (Inl e, w) \<Rightarrow> (if errors_is ApiNotFound e then Inr None else Inl e, w)
     | (Inr target, w) \<Rightarrow>
       if om_deletion (m_meta target) \<noteq> None then requeue_after None (machine_removed r target w)
       else if RsyncMachineFinalizer \<notin> set (om_finalizers (m_meta target)) then
         then_do (wrapped ''add rsync machine finalizer: %w'' []
           (on_api (api_update (kc_machines c) (target\<lparr>m_meta := with_finalizer RsyncMachineFinalizer (m_meta target)\<rparr>)) w))
           (\<lambda>_ w. (Inr None, w))
       else then_do (machine_observed r now target w) (\<lambda>target w.
         then_do (deleteGeneratedCronJob r target w) (\<lambda>_ w.
           if ms_schedule (m_spec target) = [] then (Inr (Some ownedResourceReconcileAfter), w)
           else reconcileSchedule r ParseStandard target now w)))"

text \<open>One scan of the scheduler; the results of the passes are ignored.\<close>

definition scheduler_run :: "'s reconciler \<Rightarrow> cron_parser \<Rightarrow> gotime \<Rightarrow> 's world \<Rightarrow> 's world" where
  "scheduler_run r ParseStandard now w =
    (case listed_or_none (kc_machines (rr_client r)) w of (machines, w) \<Rightarrow>
       fold (\<lambda>machine w. if ms_schedule (m_spec machine) = [] \<or> om_deletion (m_meta machine) \<noteq> None then w
         else snd (machine_reconcile r ParseStandard now (meta_key (m_meta machine)) w)) machines w)"

definition machineForSource :: "backup_source \<Rightarrow> nsname list" where
  "machineForSource source =
    (case ResolveObjectReference (ss_machineRef (s_spec source)) (om_namespace (s_meta source)) of
       Inl _ \<Rightarrow> [] | Inr machineRef \<Rightarrow> [machineRef])"

definition in_namespace :: "('s, 'o) kind_api \<Rightarrow> string \<Rightarrow> 's world \<Rightarrow> 'o list \<times> 's world" where
  "in_namespace api namespace w = (case on_api (api_list api (InNamespace namespace)) w of
     (Inl _, w) \<Rightarrow> ([], w) | (Inr objects, w) \<Rightarrow> (objects, w))"

definition machinesForPVC :: "'s reconciler \<Rightarrow> volume_claim \<Rightarrow> 's world \<Rightarrow> nsname list \<times> 's world" where
  "machinesForPVC r pvc w =
    (case in_namespace (kc_machines (rr_client r)) (om_namespace (pv_meta pvc)) w of (machines, w) \<Rightarrow>
       (map (\<lambda>machine. meta_key (m_meta machine)) (filter (\<lambda>machine. ms_pvcName (m_spec machine) = om_name (pv_meta pvc)) machines), w))"

section \<open>The source\<close>

definition source_condition :: "gotime \<Rightarrow> condition_entry \<Rightarrow> bool \<times> backup_source \<Rightarrow> bool \<times> backup_source" where
  "source_condition now c d = (case c of (ty, status, reason, message) \<Rightarrow> case d of (changed, s) \<Rightarrow>
     (case setCondition now ty status reason message (om_generation (s_meta s)) (s_conditions s) of
        (b, cs) \<Rightarrow> (b \<or> changed, s\<lparr>s_conditions := cs\<rparr>)))"

definition missing_conditions :: "string \<Rightarrow> string \<Rightarrow> goerr \<Rightarrow> condition_entry list" where
  "missing_conditions kind ref e =
    (if errors_is ApiNotFound e then
       [(''Valid'', CondFalse, ''MissingReference'', render (kind @ '' %s was not found'') [ref] []),
        (''Ready'', CondFalse, ''MissingReference'', render (kind @ '' %s was not found'') [ref] [])]
     else [(''Valid'', CondUnknown, ''MissingReference'', render (kind @ '' %s could not be read: %v'') [ref, error_text e] [])])"

definition source_conditions :: "'s reconciler \<Rightarrow> backup_source \<Rightarrow> 's world \<Rightarrow> condition_entry list \<times> 's world" where
  "source_conditions r source w =
    (if ss_pvc (s_spec source) = [] then
       ([(''Valid'', CondFalse, ''InvalidSpec'', ''spec.pvc is required''),
         (''Ready'', CondFalse, ''InvalidSpec'', ''BackupSource PVC is not configured'')], w)
     else case ResolveObjectReference (ss_machineRef (s_spec source)) (om_namespace (s_meta source)) of
       Inl e \<Rightarrow>
         ([(''Valid'', CondFalse, ''InvalidSpec'', render ''machineRef is invalid: %v'' [error_text e] []),
           (''Ready'', CondFalse, ''InvalidSpec'', ''BackupSource machine is not configured'')], w)
     | Inr machineRef \<Rightarrow>
       (case EffectiveDestinationPath source of
          Inl e \<Rightarrow>
            ([(''Valid'', CondFalse, ''InvalidSpec'', render ''destinationPath is invalid: %v'' [error_text e] []),
              (''Ready'', CondFalse, ''InvalidSpec'', ''BackupSource destinationPath is invalid'')], w)
        | Inr _ \<Rightarrow>
          (case on_api (api_get (kc_machines (rr_client r)) machineRef) w of
             (Inl e, w) \<Rightarrow> (missing_conditions ''RsyncMachine'' (nsname_string machineRef) e, w)
           | (Inr machine, w) \<Rightarrow>
             if \<not> SourceNamespaceAllowed machine (om_namespace (s_meta source)) then
               ([(''Valid'', CondFalse, ''InvalidSpec'', render ''BackupSource namespace %s is not allowed to attach to RsyncMachine %s''
                    [om_namespace (s_meta source), nsname_string machineRef] []),
                 (''Ready'', CondFalse, ''InvalidSpec'', ''BackupSource namespace is not allowed by the referenced RsyncMachine'')], w)
             else let ref = (om_namespace (s_meta source), ss_pvc (s_spec source)) in
               (case on_api (api_get (kc_claims (rr_client r)) ref) w of
                  (Inl e, w) \<Rightarrow> (missing_conditions ''PersistentVolumeClaim'' (nsname_string ref) e, w)
                | (Inr _, w) \<Rightarrow>
                  ([(''Valid'', CondTrue, ''ResolvedReferences'', render ''RsyncMachine %s and PersistentVolumeClaim %s are available''
                       [nsname_string machineRef, nsname_string ref] []),
                    (''Ready'', CondTrue, ''ResolvedReferences'', ''BackupSource is ready'')], w)))))"

definition source_reconcile :: "'s reconciler \<Rightarrow> gotime \<Rightarrow> nsname \<Rightarrow> ('s world, requeue) call" where
  "source_reconcile r now key w =
    (case on_api (api_get (kc_sources (rr_client r)) key) w of
       (Inl e, w) \<Rightarrow> (if errors_is ApiNotFound e then Inr None else Inl e, w)
     | (Inr source, w) \<Rightarrow>
       (case source_conditions r source w of (conditions, w) \<Rightarrow>
        case fold (source_condition now) conditions (False, source) of (changed, source) \<Rightarrow>
          then_do (if changed then update_status (kc_sources (rr_client r)) ''update backup source conditions: %w'' [] source w
                   else (Inr source, w))
            (\<lambda>_ w. (Inr None, w))))"

definition sourcesForMachine :: "'s reconciler \<Rightarrow> rsync_machine \<Rightarrow> 's world \<Rightarrow> nsname list \<times> 's world" where
  "sourcesForMachine r machine w =
    (case listed_or_none (kc_sources (rr_client r)) w of (sources, w) \<Rightarrow>
       (map (\<lambda>source. meta_key (s_meta source)) (filter (\<lambda>source.
          ResolveObjectReference (ss_machineRef (s_spec source)) (om_namespace (s_meta source)) = Inr (meta_key (m_meta machine))) sources), w))"

definition sourcesForPVC :: "'s reconciler \<Rightarrow> volume_claim \<Rightarrow> 's world \<Rightarrow> nsname list \<times> 's world" where
  "sourcesForPVC r pvc w =
    (case in_namespace (kc_sources (rr_client r)) (om_namespace (pv_meta pvc)) w of (sources, w) \<Rightarrow>
       (map (\<lambda>source. meta_key (s_meta source)) (filter (\<lambda>source. ss_pvc (s_spec source) = om_name (pv_meta pvc)) sources), w))"

section \<open>No activation is lost\<close>

text \<open>The documented law of the cron library: \<open>Next\<close> gives the first activation after a time.
  \<open>spaced\<close>: two activations are a minute or more apart, as they are for the five fields of cron.\<close>

definition cron_law :: "gotime set \<Rightarrow> cron_schedule \<Rightarrow> bool" where
  "cron_law A schedule \<longleftrightarrow> (\<forall>t \<ge> zero_time. schedule t \<in> A \<and> t < schedule t \<and> (\<forall>a\<in>A. t < a \<longrightarrow> schedule t \<le> a))"

definition spaced :: "gotime set \<Rightarrow> bool" where
  "spaced A \<longleftrightarrow> (\<forall>a\<in>A. \<forall>b\<in>A. a < b \<longrightarrow> a + minute_ns \<le> b)"

definition latest_in :: "gotime set \<Rightarrow> gotime \<Rightarrow> gotime \<Rightarrow> gotime \<Rightarrow> bool" where
  "latest_in A from now s \<longleftrightarrow> s \<in> A \<and> from < s \<and> s \<le> now \<and> (\<forall>a\<in>A. a \<le> now \<longrightarrow> a \<le> s)"

lemma last_due_from_activation:
  assumes "cron_law A schedule" "spaced A"
  shows "cursor \<in> A \<Longrightarrow> zero_time \<le> cursor \<Longrightarrow> cursor \<le> now \<Longrightarrow> now - cursor < int n * minute_ns \<Longrightarrow>
    last_due n schedule now cursor cursor \<in> A \<and> cursor \<le> last_due n schedule now cursor cursor
      \<and> last_due n schedule now cursor cursor \<le> now \<and> (\<forall>a\<in>A. a \<le> now \<longrightarrow> a \<le> last_due n schedule now cursor cursor)"
proof (induction n arbitrary: cursor)
  case (Suc n)
  let ?c = "schedule cursor"
  have c: "?c \<in> A" "cursor < ?c" "\<And>a. a \<in> A \<Longrightarrow> cursor < a \<Longrightarrow> ?c \<le> a"
    using assms(1) Suc.prems(2) by (auto simp: cron_law_def)
  have step: "cursor + minute_ns \<le> ?c"
    using assms(2) Suc.prems(1) c by (auto simp: spaced_def)
  show ?case
  proof (cases "?c > now")
    case True
    then have "a \<le> cursor" if "a \<in> A" "a \<le> now" for a
      using c(3) [of a] that by linarith
    then show ?thesis
      using True Suc.prems by simp
  next
    case False
    then show ?thesis
      using Suc.IH [of ?c] c step Suc.prems by (auto simp: algebra_simps)
  qed
qed simp

lemma last_due_spec:
  assumes law: "cron_law A schedule" "spaced A" and start: "zero_time \<le> cursor" "now - cursor \<le> int n * minute_ns"
  shows "if \<exists>a\<in>A. cursor < a \<and> a \<le> now then latest_in A cursor now (last_due (Suc n) schedule now cursor latest)
    else last_due (Suc n) schedule now cursor latest = latest"
proof -
  let ?c = "schedule cursor"
  have c: "?c \<in> A" "cursor < ?c" "\<And>a. a \<in> A \<Longrightarrow> cursor < a \<Longrightarrow> ?c \<le> a"
    using law(1) start(1) by (auto simp: cron_law_def)
  show ?thesis
  proof (cases "?c > now")
    case True
    then have "\<not> (\<exists>a\<in>A. cursor < a \<and> a \<le> now)"
      using c(3) by fastforce
    then show ?thesis
      using True by auto
  next
    case False
    then show ?thesis
      using last_due_from_activation [OF law, of ?c now n] c start by (auto simp: latest_in_def)
  qed
qed


text \<open>The next look at a machine is between now and ten minutes from now, and never later than
  the next activation; if that is past, it is in a second.\<close>

theorem next_look_is_in_time:
  "0 < requeueAfter now next \<and> requeueAfter now next \<le> seconds 600
    \<and> (next = zero_time \<or> next \<le> now \<and> requeueAfter now next = seconds 1 \<or> now < next \<and> now + requeueAfter now next \<le> next)"
  by (auto simp: requeueAfter_def Let_def ns_per_sec_def)

definition hourly :: cron_schedule where
  "hourly t = (t div (60 * minute_ns) + 1) * (60 * minute_ns)"

definition hours :: "gotime set" where
  "hours = range (\<lambda>k. k * (60 * minute_ns))"

lemma hourly_law: "cron_law hours hourly" "spaced hours"
proof -
  let ?h = "60 * minute_ns :: int"
  have pos: "0 < ?h"
    by (simp add: ns_per_sec_def)
  have later: "t < hourly t" for t
  proof -
    have "t = t div ?h * ?h + t mod ?h" "t mod ?h < ?h"
      using pos by (simp_all only: div_mult_mod_eq pos_mod_bound)
    then show ?thesis
      unfolding hourly_def distrib_right by linarith
  qed
  have least: "hourly t \<le> k * ?h" if "t < k * ?h" for t k
  proof -
    have "t div ?h < k"
    proof (rule ccontr)
      assume "\<not> t div ?h < k"
      then have "k * ?h \<le> t div ?h * ?h"
        using pos by (intro mult_right_mono) auto
      moreover have "t = t div ?h * ?h + t mod ?h" "0 \<le> t mod ?h"
        using pos by (simp_all only: div_mult_mod_eq pos_mod_sign)
      ultimately show False
        using that by linarith
    qed
    then show ?thesis
      using pos unfolding hourly_def by (intro mult_right_mono) auto
  qed
  show "cron_law hours hourly"
    using later least by (auto simp: cron_law_def hours_def hourly_def)
  show "spaced hours"
    unfolding spaced_def
  proof (intro ballI impI)
    fix a b
    assume "a \<in> hours" "b \<in> hours" and less: "a < b"
    then obtain k l where ab: "a = k * ?h" "b = l * ?h"
      by (auto simp: hours_def)
    then have "k + 1 \<le> l"
      using less pos by (simp add: mult_less_cancel_right)
    then have "(k + 1) * ?h \<le> l * ?h"
      using pos by (intro mult_right_mono) auto
    then show "a + minute_ns \<le> b"
      using pos unfolding ab distrib_right by linarith
  qed
qed


section \<open>A machine that passes the check can run\<close>

lemma sources_by_ref_distinct:
  assumes "distinct (map (\<lambda>s. meta_key (s_meta s)) sources)"
  shows "sources_by_ref sources = map (\<lambda>s. (meta_key (s_meta s), s)) sources"
proof -
  have "fold (\<lambda>s m. alist_put (meta_key (s_meta s)) s m) sources acc = acc @ map (\<lambda>s. (meta_key (s_meta s), s)) sources"
    if "distinct (map (\<lambda>s. meta_key (s_meta s)) sources)" "fst ` set acc \<inter> (\<lambda>s. meta_key (s_meta s)) ` set sources = {}" for acc
    using that by (induction sources arbitrary: acc) (auto simp: alist_put_new)
  then show ?thesis
    using assms by (simp add: sources_by_ref_def)
qed

lemma check_destinations_spec:
  "check_destinations machine found sources = Inr b \<longleftrightarrow>
     (\<forall>s\<in>set sources. claims_machine machine s \<longrightarrow> is_ok (EffectiveDestinationPathForStrategy machine s))
   \<and> (b \<longleftrightarrow> found \<or> (\<exists>s\<in>set sources. claims_machine machine s))"
  by (induction machine found sources rule: check_destinations.induct) (auto split: sum.splits)

text \<open>C11. What the check of a machine promises: over the sources that the server lists, a run set
  can be computed exactly if the check of the machine accepts them and, unless the machine
  is a mirror, no two of them claim the same destination. For a mirror the check is exact.\<close>

theorem accepted_machine_can_run:
  assumes "on_api (api_list (kc_sources (rr_client r)) everything) w = (Inr sources, w')"
    and "distinct (map (\<lambda>s. meta_key (s_meta s)) sources)"
  shows "is_ok (CalculateTargetRunSet machine (sources_by_ref sources)) \<longleftrightarrow>
    fst (fst (validateRsyncMachineSources r machine w)) = CondTrue
    \<and> (is_mirror machine \<or> DetectDestinationPathConflicts [machine] (sources_by_ref sources) = Inr [])"
proof -
  let ?m = "sources_by_ref sources"
  note m = sources_by_ref_distinct [OF assms(2)]
  have keyed: "keyed ?m"
    using assms(2) unfolding m keyed_def alist_wf_def by (auto simp: list_all_iff comp_def)
  have claimants: "claimants machine ?m = filter (claims_machine machine) sources"
    unfolding m claimants_def by (simp add: comp_def)
  have namespaces: "om_namespace (s_meta s) \<noteq> []" if "s \<in> set sources" "claims_machine machine s" for s
    using that claimant_namespace [of s machine ?m] by (simp add: claimants)
  show ?thesis
  proof (cases "strategy_TypeOrDefault (ms_strategy (m_spec machine)) \<in> {StrategySnapshot, StrategyMirror}
      \<and> \<not> (is_mirror machine \<and> \<not> retention_empty (ms_retention (m_spec machine)))")
    case False
    then show ?thesis
      by (auto simp: CalculateTargetRunSet_def validateRsyncMachineSources_def Let_def)
  next
    case True
    have run: "is_ok (CalculateTargetRunSet machine ?m) \<longleftrightarrow> DetectDestinationPathConflicts [machine] ?m = Inr []
        \<and> DetectMirrorDestinationPathOverlaps machine ?m = Inr []
        \<and> (\<forall>s\<in>set sources. claims_machine machine s \<longrightarrow> is_ok (dest_clean s)) \<and> (\<exists>s\<in>set sources. claims_machine machine s)"
      using CalculateTargetRunSet_cases [OF _ _ keyed, of machine] True
      by (cases "CalculateTargetRunSet machine ?m") (auto simp: claimants filter_empty_conv)
    have "fst (fst (validateRsyncMachineSources r machine w)) = fst (check_sources machine sources)"
      using True assms(1) by (auto simp: validateRsyncMachineSources_def Let_def)
    also have "\<dots> = CondTrue \<longleftrightarrow> check_destinations machine False sources = Inr True \<and> DetectMirrorDestinationPathOverlaps machine ?m = Inr []"
      by (auto simp: check_sources_def split: sum.splits list.splits if_splits)
    also have "check_destinations machine False sources = Inr True \<longleftrightarrow>
        (\<forall>s\<in>set sources. claims_machine machine s \<longrightarrow> is_ok (dest_clean s)) \<and> (\<exists>s\<in>set sources. claims_machine machine s)"
      using namespaces by (auto simp: check_destinations_spec effective_ok_iff)
    finally show ?thesis
      using run conflicts_mirror [of machine ?m] by blast
  qed
qed

abbreviation two_sources :: "backup_source list" where
  "two_sources \<equiv> [demo_source ''shop'' ''web'' ''web'', demo_source ''blog'' ''db'' []]"

theorem accepted_machine_can_run_witness:
  "is_ok (CalculateTargetRunSet demo_machine (sources_by_ref two_sources))
   \<and> fst (fst (validateRsyncMachineSources demo_reconciler demo_machine (demo_world (map SourceObject two_sources)))) = CondTrue"
proof -
  have listed: "on_api (api_list (kc_sources (rr_client demo_reconciler)) everything) (demo_world (map SourceObject two_sources))
      = (Inr two_sources, demo_world (map SourceObject two_sources))"
    by (simp add: on_api_def memory_client_def memory_api_def memory_list_def memory_view_def address_def kind_defs object_key_def meta_key_def
        demo_source_def List.map_filter_simps selected_everything)
  have "distinct (map (\<lambda>s. meta_key (s_meta s)) two_sources)"
    by (simp add: demo_source_def meta_key_def)
  from accepted_machine_can_run [OF listed this, of demo_machine]
  have "is_ok (CalculateTargetRunSet demo_machine (sources_by_ref two_sources)) \<longleftrightarrow>
      fst (fst (validateRsyncMachineSources demo_reconciler demo_machine (demo_world (map SourceObject two_sources)))) = CondTrue
      \<and> (is_mirror demo_machine \<or> DetectDestinationPathConflicts [demo_machine] (sources_by_ref two_sources) = Inr [])" .
  moreover have "is_ok (CalculateTargetRunSet demo_machine (sources_by_ref two_sources))"
    by code_simp
  ultimately show ?thesis
    by blast
qed

text \<open>Two sources of a namespace with one destination: the check accepts the machine, and no run can start.\<close>

theorem accepted_machine_without_run:
  "fst (check_sources demo_machine [demo_source ''shop'' ''a'' ''web'', demo_source ''shop'' ''b'' ''web'']) = CondTrue
   \<and> \<not> is_ok (CalculateTargetRunSet demo_machine (sources_by_ref [demo_source ''shop'' ''a'' ''web'', demo_source ''shop'' ''b'' ''web'']))"
  by code_simp

section \<open>A pass creates the run that is due\<close>

text \<open>The answer to an update of the status has the status that was sent, and the name, the creation
  time and the specification of the object.\<close>

definition machine_server :: "('s, rsync_machine) kind_api \<Rightarrow> bool" where
  "machine_server api \<longleftrightarrow> (\<forall>x s y s'. api_update_status api x s = (Inr y, s') \<longrightarrow>
     m_spec y = m_spec x \<and> m_status y = m_status x \<and> meta_key (m_meta y) = meta_key (m_meta x) \<and> om_creation (m_meta y) = om_creation (m_meta x))"

definition machine_api :: "('s \<Rightarrow> cluster) \<Rightarrow> 's kube_client \<Rightarrow> bool" where
  "machine_api view c \<longleftrightarrow> status_store view machine_kind (kc_machines c) \<and> machine_server (kc_machines c)
     \<and> object_store view backup_kind (kc_backups c) \<and> object_store view cron_kind (kc_cronjobs c)
     \<and> object_store view claim_kind (kc_claims c) \<and> object_store view source_kind (kc_sources c)"

definition same_schedule :: "rsync_machine \<Rightarrow> rsync_machine \<Rightarrow> bool" where
  "same_schedule a b \<longleftrightarrow> m_spec a = m_spec b \<and> mst_lastScheduledAt (m_status a) = mst_lastScheduledAt (m_status b)
     \<and> meta_key (m_meta a) = meta_key (m_meta b) \<and> om_creation (m_meta a) = om_creation (m_meta b)"

lemma same_schedule_refl [simp]: "same_schedule a a"
  by (simp add: same_schedule_def)

lemma same_schedule_due: "same_schedule a b \<Longrightarrow> nextDueSchedule schedule a now = nextDueSchedule schedule b now"
  unfolding same_schedule_def nextDueSchedule_def by (elim conjE) (simp only:)

lemma condition_same_schedule: "same_schedule (snd (machine_condition now c d)) (snd d)"
  by (auto simp: machine_condition_def same_schedule_def split: prod.splits)

lemma conditions_same_schedule: "same_schedule (snd (fold (machine_condition now) cs d)) (snd d)"
proof (induction cs arbitrary: d)
  case (Cons c cs)
  show ?case
    using Cons.IH [of "machine_condition now c d"] condition_same_schedule [of now c d] by (simp add: same_schedule_def)
qed simp

lemma machine_object_key: "object_key machine_kind m = meta_key (m_meta m)"
  by (simp add: object_key_def machine_kind_def)

definition due_run :: "cron_parser \<Rightarrow> rsync_machine \<Rightarrow> gotime \<Rightarrow> cluster_key \<Rightarrow> bool" where
  "due_run ParseStandard target now a \<longleftrightarrow> (\<exists>schedule s. ParseStandard (ms_schedule (m_spec target)) = Inr schedule
     \<and> nextDueSchedule schedule target now = (s, True)
     \<and> a = (''backup'', om_namespace (m_meta target), GeneratedScheduledBackupJobName (om_name (m_meta target)) s))"

lemma due_run_same: "same_schedule a b \<Longrightarrow> due_run P a now = due_run P b now"
  by (intro ext) (simp add: due_run_def same_schedule_due, simp add: same_schedule_def meta_key_def)

lemma adds_machine_conditions:
  assumes "machine_api view (rr_client r)" "nothing_new K c (view (w_api w))" "machine_conditions r target w = (cs, w')"
  shows "nothing_new K c (view (w_api w'))"
proof -
  have stores: "object_store view claim_kind (kc_claims (rr_client r))" "object_store view source_kind (kc_sources (rr_client r))"
    using assms(1) by (simp_all add: machine_api_def)
  have sources: "view (w_api v') = view (w_api v)" if "validateRsyncMachineSources r target v = (x, v')" for v x v'
    using that object_store.listed(1) [OF stores(2), of everything v]
    by (auto simp: validateRsyncMachineSources_def Let_def split: if_splits prod.splits sum.splits)
  show ?thesis
    using assms(2,3) object_store.read(1) [OF stores(1), of "(om_namespace (m_meta target), ms_pvcName (m_spec target))" w] sources
    unfolding machine_conditions_def Let_def by (auto split: if_splits prod.splits sum.splits; metis)
qed

lemma adds_machine_observed:
  assumes api: "machine_api view (rr_client r)" and quiet: "nothing_new K c (view (w_api w))" and K: "K (''machine'', meta_key (m_meta target))"
    and run: "machine_observed r now target w = (res, w')"
  shows "nothing_new K c (view (w_api w'))" "res = Inr target' \<Longrightarrow> same_schedule target' target"
proof -
  have stores: "status_store view machine_kind (kc_machines (rr_client r))" "machine_server (kc_machines (rr_client r))"
    using api by (simp_all add: machine_api_def)
  obtain b t1 where f: "forget_restore_points now target = (b, t1)"
    by (cases "forget_restore_points now target")
  obtain cs v where m: "machine_conditions r t1 w = (cs, v)"
    by (cases "machine_conditions r t1 w")
  obtain changed t2 where s: "fold (machine_condition now) cs (b, t1) = (changed, t2)"
    by (cases "fold (machine_condition now) cs (b, t1)")
  have t1: "same_schedule t1 target"
    using f by (auto simp: forget_restore_points_def same_schedule_def split: if_splits)
  have t2: "same_schedule t2 target"
    using conditions_same_schedule [of now cs "(b, t1)"] t1 s by (simp add: same_schedule_def)
  have v: "nothing_new K c (view (w_api v))"
    by (rule adds_machine_conditions [OF api quiet m])
  have res: "(res, w') = (if changed then update_status (kc_machines (rr_client r)) ''update rsync machine conditions: %w'' [] t2 v else (Inr t2, v))"
    using run f m s by (simp add: machine_observed_def)
  have "adds view K c (res, w')"
    unfolding res by (intro adding status_store.adds_update_status [OF stores(1) v])
      (use K t2 v in \<open>simp_all add: machine_object_key same_schedule_def\<close>)
  then show "nothing_new K c (view (w_api w'))"
    by simp
  show "same_schedule target' target" if "res = Inr target'"
    using res that t2 stores(2)
    by (auto simp: update_status_def on_api_def machine_server_def same_schedule_def split: if_splits prod.splits sum.splits; metis)
qed

lemma adds_delete_cron:
  assumes "object_store view cron_kind (kc_cronjobs (rr_client r))" "nothing_new K c (view (w_api w))"
  shows "adds view K c (deleteGeneratedCronJob r target w)"
  unfolding deleteGeneratedCronJob_def
  by (intro adds_result object_store.adds_get [OF assms(1)] object_store.adds_delete_object [OF assms(1)] assms(2)) simp_all

lemma adds_schedule:
  assumes api: "machine_api view (rr_client r)" and sc: "keeps_place (rr_scheme r)" and quiet: "nothing_new K c (view (w_api w))"
    and K: "K (''machine'', meta_key (m_meta target))" "\<And>a. due_run P target now a \<Longrightarrow> K a"
  shows "adds view K c (reconcileSchedule r P target now w)"
proof -
  have stores: "status_store view machine_kind (kc_machines (rr_client r))" "object_store view backup_kind (kc_backups (rr_client r))"
    using api by (simp_all add: machine_api_def)
  have update: "adds view K c (update_status (kc_machines (rr_client r)) f args x v)"
    if "meta_key (m_meta x) = meta_key (m_meta target)" "nothing_new K c (view (w_api v))" for f args x v
    by (rule status_store.adds_update_status [OF stores(1) that(2)]) (use K(1) that(1) in \<open>simp add: machine_object_key\<close>)
  show ?thesis
  proof (cases "P (ms_schedule (m_spec target))")
    case (Inl e)
    have "meta_key (m_meta (snd (machine_condition now x (False, target)))) = meta_key (m_meta target)" for x
      using condition_same_schedule [of now x "(False, target)"] by (simp add: same_schedule_def)
    then show ?thesis
      using Inl quiet unfolding reconcileSchedule_def
      by (auto intro!: adding update split: prod.splits) (metis snd_conv)
  next
    case (Inr schedule)
    obtain s due where n: "nextDueSchedule schedule target now = (s, due)"
      by (cases "nextDueSchedule schedule target now")
    have create: "adds view K c (createScheduledBackupJob r target s w)" if due
    proof -
      have place: "K (''backup'', object_key backup_kind (scheduled_run target s\<lparr>j_meta := m\<rparr>))"
        if "meta_key m = meta_key (j_meta (scheduled_run target s))" for m
        using that K(2) Inr n \<open>due\<close>
        by (simp add: due_run_def object_key_def backup_kind_def scheduled_run_def meta_key_def)
      have made: "adds view K c (on_api (api_create (kc_backups (rr_client r)) (scheduled_run target s\<lparr>j_meta := m\<rparr>)) w)"
        if "meta_key m = meta_key (j_meta (scheduled_run target s))" for m
        by (rule object_store.adds_create [OF stores(2) quiet]) (use place [OF that] in simp)
      have plain: "adds view K c (on_api (api_create (kc_backups (rr_client r)) (scheduled_run target s)) w)"
        using made [of "j_meta (scheduled_run target s)"] by simp
      show ?thesis
        unfolding createScheduledBackupJob_def Let_def
        using quiet sc by (auto intro!: adding adds_result made plain split: option.splits simp: keeps_place_def)
    qed
    show ?thesis
      unfolding reconcileSchedule_def Inr sum.case n prod.case
      by (intro adding create update) (use quiet in simp_all)
  qed
qed

lemma nothing_new_mono: "nothing_new K c c' \<Longrightarrow> (\<And>a. K a \<Longrightarrow> L a) \<Longrightarrow> nothing_new L c c'"
  unfolding nothing_new_def by blast

text \<open>One pass over a machine creates at most one run, and only the one that is due: apart from
  the machine itself nothing is added or changed but the BackupJob named after the machine
  and the activation of its schedule that is due, and that only if the machine exists, is
  not being deleted and has a schedule.\<close>

theorem pass_creates_only_the_due_run:
  fixes r :: "'s reconciler"
  assumes "machine_api view (rr_client r)" and "keeps_place (rr_scheme r)"
    and "machine_reconcile r P now key w = (res, w')"
  shows "nothing_new (\<lambda>a. a = (''machine'', key) \<or> (\<exists>target. fetch machine_kind (view (w_api w)) key = Some target
      \<and> om_deletion (m_meta target) = None \<and> ms_schedule (m_spec target) \<noteq> [] \<and> due_run P target now a))
    (view (w_api w)) (view (w_api w'))"
proof -
  let ?c = "rr_client r" and ?v = "view (w_api w)"
  let ?K = "\<lambda>a. a = (''machine'', key) \<or> (\<exists>target. fetch machine_kind ?v key = Some target
      \<and> om_deletion (m_meta target) = None \<and> ms_schedule (m_spec target) \<noteq> [] \<and> due_run P target now a)"
  have stores: "object_store view machine_kind (kc_machines ?c)" "object_store view backup_kind (kc_backups ?c)"
      "object_store view cron_kind (kc_cronjobs ?c)"
    using assms(1) by (simp_all add: machine_api_def status_store_def)
  obtain found u where g: "on_api (api_get (kc_machines ?c) key) w = (found, u)"
    by (cases "on_api (api_get (kc_machines ?c) key) w")
  note read = object_store.read [OF stores(1) g]
  show ?thesis
  proof (cases found)
    case (Inl e)
    then show ?thesis
      using assms(3) g read(1) by (auto simp: machine_reconcile_def)
  next
    case (Inr target)
    have target: "fetch machine_kind ?v key = Some target"
      using read(2) Inr by simp
    have key: "meta_key (m_meta target) = key"
      using object_store.fetch_key [OF stores(1) target] by (simp add: machine_object_key)
    have here: "nothing_new ?K ?v (view (w_api u))"
      using read(1) by simp
    have update: "adds view ?K ?v (on_api (api_update (kc_machines ?c) (target\<lparr>m_meta := m\<rparr>)) v)"
      if "meta_key m = key" "nothing_new ?K ?v (view (w_api v))" for m v
      by (rule object_store.adds_update [OF stores(1) that(2)]) (use that(1) in \<open>simp add: machine_object_key\<close>)
    have removed: "adds view ?K ?v (machine_removed r target u)"
      unfolding machine_removed_def deleteScheduledBackupJobsForMachine_def
      by (intro adding adds_each adds_result object_store.adds_list [OF stores(2)] object_store.adds_delete_object [OF stores(2)]
          adds_delete_cron [OF stores(3)] update here) (use key in \<open>simp_all add: without_finalizer_def meta_key_def\<close>)
    have finalizer: "adds view ?K ?v (then_do (wrapped ''add rsync machine finalizer: %w'' []
           (on_api (api_update (kc_machines ?c) (target\<lparr>m_meta := with_finalizer RsyncMachineFinalizer (m_meta target)\<rparr>)) u))
           (\<lambda>_ w. (Inr None :: requeue result, w)))"
      by (intro adding update here) (use key in \<open>simp_all add: with_finalizer_def meta_key_def\<close>)
    have rest: "adds view ?K ?v (then_do (machine_observed r now target u) (\<lambda>target w.
         then_do (deleteGeneratedCronJob r target w) (\<lambda>_ w.
           if ms_schedule (m_spec target) = [] then (Inr (Some ownedResourceReconcileAfter), w)
           else reconcileSchedule r P target now w)))" if alive: "om_deletion (m_meta target) = None"
    proof (rule adds_then)
      obtain res1 w1 where o: "machine_observed r now target u = (res1, w1)"
        by (cases "machine_observed r now target u")
      note observed = adds_machine_observed [OF assms(1) here _ o]
      show "adds view ?K ?v (machine_observed r now target u)"
        using observed(1) key o by simp
      fix target' v
      assume "machine_observed r now target u = (Inr target', v)" and v: "nothing_new ?K ?v (view (w_api v))"
      then have same: "same_schedule target' target"
        using observed(2) o key by auto
      have place: "?K (''machine'', meta_key (m_meta target'))"
        using same key by (simp add: same_schedule_def)
      have due: "?K a" if "due_run P target' now a" "ms_schedule (m_spec target') \<noteq> []" for a
        using that due_run_same [OF same] target alive same by (auto simp: same_schedule_def)
      show "adds view ?K ?v (then_do (deleteGeneratedCronJob r target' v) (\<lambda>_ w.
           if ms_schedule (m_spec target') = [] then (Inr (Some ownedResourceReconcileAfter), w)
           else reconcileSchedule r P target' now w))"
        by (intro adding adds_delete_cron [OF stores(3)] v adds_schedule [where K = ?K, OF assms(1,2)])
          (use place due in simp_all)
    qed
    have "adds view ?K ?v (machine_reconcile r P now key w)"
      unfolding machine_reconcile_def Let_def g Inr using adds_requeue [OF removed] finalizer rest by simp
    then show ?thesis
      unfolding assms(3) by simp
  qed
qed

lemma memory_machine_status: "status_store memory_view machine_kind (memory_api machine_kind)"
  by (rule memory_status) simp

lemma memory_machine_api: "machine_api memory_view memory_client"
  using memory_machine_status memory_store [of backup_kind] memory_store [of cron_kind] memory_store [of claim_kind] memory_store [of source_kind]
  by (auto simp: machine_api_def memory_client_def machine_server_def memory_api_def memory_update_def split: option.splits)

definition scheduled_machine :: rsync_machine where
  "scheduled_machine = demo_run_target\<lparr>m_meta := (m_meta demo_run_target)\<lparr>om_finalizers := [RsyncMachineFinalizer]\<rparr>,
     m_spec := (m_spec demo_run_target)\<lparr>ms_schedule := ''@hourly''\<rparr>,
     m_status := (m_status demo_run_target)\<lparr>mst_lastScheduledAt := Some 0\<rparr>\<rparr>"

theorem pass_creates_only_the_due_run_witness:
  "nothing_new (\<lambda>a. a = (''machine'', ''ops'', ''vault'') \<or> a = (''backup'', ''ops'', GeneratedScheduledBackupJobName ''vault'' (60 * minute_ns)))
     (memory_view [MachineObject scheduled_machine])
     (memory_view (w_api (snd (machine_reconcile demo_reconciler (\<lambda>_. Inr hourly) (90 * minute_ns) (''ops'', ''vault'')
        (demo_world [MachineObject scheduled_machine])))))"
proof -
  let ?w = "demo_world [MachineObject scheduled_machine]" and ?P = "\<lambda>_ :: string. Inr hourly :: cron_schedule result" and ?now = "90 * minute_ns :: gotime"
  obtain res w' where run: "machine_reconcile demo_reconciler ?P ?now (''ops'', ''vault'') ?w = (res, w')"
    by (cases "machine_reconcile demo_reconciler ?P ?now (''ops'', ''vault'') ?w")
  have config: "machine_api memory_view (rr_client demo_reconciler)" "keeps_place (rr_scheme demo_reconciler)"
    by (simp_all add: memory_machine_api) (simp add: demo_reconciler_def)
  have found: "fetch machine_kind (memory_view [MachineObject scheduled_machine]) (''ops'', ''vault'') = Some scheduled_machine"
    by (simp add: fetch_def memory_view_def address_def kind_defs object_key_def meta_key_def scheduled_machine_def demo_run_target_def)
  have names: "om_namespace (m_meta scheduled_machine) = ''ops''" "om_name (m_meta scheduled_machine) = ''vault''"
      "mst_lastScheduledAt (m_status scheduled_machine) = Some 0"
    by (simp_all add: scheduled_machine_def demo_run_target_def)
  have "nextDueSchedule hourly scheduled_machine ?now = (60 * minute_ns, True)"
    unfolding nextDueSchedule_def names by (simp add: hourly_def ns_per_sec_def)
  then have "due_run ?P scheduled_machine ?now a \<Longrightarrow> a = (''backup'', ''ops'', GeneratedScheduledBackupJobName ''vault'' (60 * minute_ns))" for a
    by (simp add: due_run_def names)
  note due = this
  have "nothing_new (\<lambda>a. a = (''machine'', ''ops'', ''vault'') \<or> a = (''backup'', ''ops'', GeneratedScheduledBackupJobName ''vault'' (60 * minute_ns)))
      (memory_view (w_api ?w)) (memory_view (w_api w'))"
    by (rule nothing_new_mono [OF pass_creates_only_the_due_run [OF config run]]) (use found due in \<open>auto simp del: split_paired_All\<close>)
  then show ?thesis
    using run by simp
qed

text \<open>A schedule that does not parse: the pass sets the condition Valid to true and then to false, so
  that the next pass finds a change again, and every change of the status causes another pass.\<close>

theorem invalid_schedule_never_settles:
  assumes "status \<noteq> status'"
  shows "fst (machine_condition now' (ty, status', reason', message') (False, snd (machine_condition now (ty, status, reason, message) d)))"
proof -
  have "fst (upsert_loop (snd (upsert_loop cs c)) c')" if "c_type c' = c_type c" "c_status c' \<noteq> c_status c" for cs c c'
    using that by (induction cs) (auto simp: conditionsEqual_def split: prod.splits)
  then have "fst (setCondition now' ty status' reason' message' gen' (snd (setCondition now ty status reason message gen cs)))" for gen gen' cs
    unfolding setCondition_def upsertCondition_def using assms by (auto split: if_splits)
  then show ?thesis
    by (auto simp: machine_condition_def split: prod.splits) (metis fst_conv snd_conv)
qed

end
