(* ===== verification/Run_Isolation.thy ===== *)
theory Run_Isolation
  imports Machine_Reconciler
begin

text \<open>
  When a backup may start. The handler of a pending BackupJob changes nothing but runs
  and leases until the run holds the lease of its target, at a moment at which no
  restore uses that target; only then the objects of the run are created.
\<close>

section \<open>Restores that use a target\<close>

definition restore_target :: "cluster \<Rightarrow> restore_job \<Rightarrow> nsname option" where
  "restore_target c run =
    (case ResolveObjectReference (rs_sourceRef (r_spec run)) (om_namespace (r_meta run)) of Inl _ \<Rightarrow> None | Inr source_at \<Rightarrow>
     (case fetch source_kind c source_at of None \<Rightarrow> None | Some source \<Rightarrow>
     (case ResolveObjectReference (ss_machineRef (s_spec source)) (om_namespace (s_meta source)) of Inl _ \<Rightarrow> None | Inr at \<Rightarrow>
     (case fetch machine_kind c at of None \<Rightarrow> None | Some machine \<Rightarrow>
        if SourceNamespaceAllowed machine (om_namespace (s_meta source)) \<and> RestoreNamespaceAllowed machine (om_namespace (r_meta run))
          \<and> rd_namespace (rs_destination (r_spec run)) \<in> {[], om_namespace (r_meta run)} then Some at else None))))"

definition restores_idle :: "cluster \<Rightarrow> nsname \<Rightarrow> bool" where
  "restores_idle c target \<longleftrightarrow> (\<forall>run. fetch restore_kind c (restore_key_of run) = Some run \<longrightarrow>
     \<not> isTerminalPhase (restore_phase run) \<longrightarrow> restore_target c run \<noteq> Some target)"

definition backup_api :: "('s \<Rightarrow> cluster) \<Rightarrow> 's kube_client \<Rightarrow> bool" where
  "backup_api view c \<longleftrightarrow> admission_api view c \<and> run_api view c \<and> status_store view backup_kind (kc_backups c)
     \<and> object_store view source_kind (kc_sources c) \<and> object_store view restore_kind (kc_restores c)"

lemma backup_stores:
  assumes "backup_api view c"
  shows "object_store view machine_kind (kc_machines c)" "object_store view source_kind (kc_sources c)"
    "object_store view restore_kind (kc_restores c)" "object_store view backup_kind (kc_backups c)"
    "status_store view backup_kind (kc_backups c)" "object_store view lease_kind (kc_leases c)" "guard_store view (kc_leases c)"
    "object_store view job_kind (kc_jobs c)" "object_store view secret_kind (kc_secrets c)" "object_store view service_kind (kc_services c)"
    "run_api view c" "admission_api view c"
  using assms by (simp_all add: backup_api_def admission_api_def guard_store_def run_api_def)

lemma restore_machine_effect:
  assumes api: "backup_api view c" and run: "machineRefForRestoreJobWithClient c restore w = (res, w')"
  shows "view (w_api w') = view (w_api w)" "res = Inr ref \<Longrightarrow> ref = restore_target (view (w_api w)) restore"
proof -
  note reads = object_store.read [OF backup_stores(2) [OF api]] object_store.read [OF backup_stores(1) [OF api]]
  have "view (w_api w') = view (w_api w) \<and> (\<forall>ref. res = Inr ref \<longrightarrow> ref = restore_target (view (w_api w)) restore)"
  proof (cases "ResolveObjectReference (rs_sourceRef (r_spec restore)) (om_namespace (r_meta restore))")
    case (Inl e)
    then show ?thesis
      using run by (auto simp: machineRefForRestoreJobWithClient_def restore_target_def)
  next
    case (Inr at)
    note at = Inr
    obtain found u where s: "on_api (api_get (kc_sources c) at) w = (found, u)"
      by (cases "on_api (api_get (kc_sources c) at) w")
    show ?thesis
    proof (cases found)
      case (Inl e)
      then show ?thesis
        using run at s reads(1,3) [OF s] by (auto simp: machineRefForRestoreJobWithClient_def restore_target_def split: if_splits)
    next
      case (Inr source)
      note source = Inr
      show ?thesis
      proof (cases "ResolveObjectReference (ss_machineRef (s_spec source)) (om_namespace (s_meta source))")
        case (Inl e)
        then show ?thesis
          using run at s source reads(1,2) [OF s] by (auto simp: machineRefForRestoreJobWithClient_def restore_target_def)
      next
        case (Inr at')
        obtain found' u' where m: "on_api (api_get (kc_machines c) at') u = (found', u')"
          by (cases "on_api (api_get (kc_machines c) at') u")
        show ?thesis
          using run at s source Inr m reads(1,2) [OF s] reads(4-6) [OF m]
          by (cases found') (auto simp: machineRefForRestoreJobWithClient_def restore_target_def Let_def split: if_splits)
      qed
    qed
  qed
  then show "view (w_api w') = view (w_api w)" "res = Inr ref \<Longrightarrow> ref = restore_target (view (w_api w)) restore"
    by auto
qed

lemma active_restore_effect:
  assumes api: "backup_api view c"
  shows "active_restore_of c target runs w = (res, w') \<Longrightarrow> view (w_api w') = view (w_api w)
    \<and> (res = Inr None \<longrightarrow> (\<forall>run\<in>set runs. \<not> isTerminalPhase (restore_phase run) \<longrightarrow> restore_target (view (w_api w)) run \<noteq> Some target))"
proof (induction runs arbitrary: w res w')
  case (Cons run runs)
  show ?case
  proof (cases "isTerminalPhase (restore_phase run)")
    case False
    obtain ref v where m: "machineRefForRestoreJobWithClient c run w = (ref, v)"
      by (cases "machineRefForRestoreJobWithClient c run w")
    show ?thesis
      using Cons.prems Cons.IH [of v] restore_machine_effect [OF api m] m False
      by (cases ref) (auto simp: restore_phase_def split: if_splits)
  qed (use Cons in \<open>auto simp: restore_phase_def\<close>)
qed simp

lemma find_restore_effect:
  assumes api: "backup_api view (rr_client r)" and run: "findActiveRestoreJobForTarget r target w = (res, w')"
  shows "view (w_api w') = view (w_api w)" "res = Inr None \<Longrightarrow> restores_idle (view (w_api w)) (meta_key (m_meta target))"
proof -
  obtain runs v where l: "on_api (api_list (kc_restores (rr_client r)) everything) w = (runs, v)"
    by (cases "on_api (api_list (kc_restores (rr_client r)) everything) w")
  note listed = object_store.listed [OF backup_stores(3) [OF api] l]
  have "view (w_api w') = view (w_api w) \<and> (res = Inr None \<longrightarrow> restores_idle (view (w_api w)) (meta_key (m_meta target)))"
  proof (cases runs)
    case (Inl e)
    then show ?thesis
      using run l listed(1) by (auto simp: findActiveRestoreJobForTarget_def)
  next
    case (Inr xs)
    then have "active_restore_of (rr_client r) (meta_key (m_meta target)) xs v = (res, w')"
      using run l by (simp add: findActiveRestoreJobForTarget_def)
    then show ?thesis
      using active_restore_effect [OF api] listed(1) listed(2) [OF Inr]
      by (fastforce simp: restores_idle_def object_key_def restore_key_of_def restore_kind_def)
  qed
  then show "view (w_api w') = view (w_api w)" "res = Inr None \<Longrightarrow> restores_idle (view (w_api w)) (meta_key (m_meta target))"
    by auto
qed

text \<open>What is idle stays idle while nothing but runs and leases changes.\<close>

abbreviation own_kinds :: "cluster_key \<Rightarrow> bool" where
  "own_kinds \<equiv> \<lambda>a. fst a \<in> {''backup'', ''lease''}"

lemma fetch_old:
  assumes "nothing_new K c c'" "\<not> K (ok_name k, key)" "fetch k c' key = Some obj"
  shows "fetch k c key = Some obj"
proof -
  obtain x where x: "c' (ok_name k, key) = Some x" "ok_load k x = Some obj"
    using assms(3) by (auto simp: fetch_def split: option.splits)
  then have "c (ok_name k, key) = Some x"
    using assms(1,2) unfolding nothing_new_def by blast
  then show ?thesis
    using x(2) by (simp add: fetch_def)
qed

lemma idle_stays:
  assumes "nothing_new own_kinds c c'" "restores_idle c target"
  shows "restores_idle c' target"
  unfolding restores_idle_def
proof (intro allI impI notI)
  fix run
  assume run: "fetch restore_kind c' (restore_key_of run) = Some run" "\<not> isTerminalPhase (restore_phase run)" "restore_target c' run = Some target"
  note old = fetch_old [OF assms(1)]
  have "restore_target c run = Some target"
    using run(3) old [of source_kind] old [of machine_kind]
    by (auto simp: restore_target_def split: sum.splits option.splits if_splits)
  then show False
    using run(1,2) old [of restore_kind] assms(2) by (auto simp: restores_idle_def)
qed

section \<open>Before the start\<close>

text \<open>Asking which interfaces the cluster has does not change the cluster.\<close>

definition discovery_reads :: "('s \<Rightarrow> cluster) \<Rightarrow> 's reconciler \<Rightarrow> bool" where
  "discovery_reads view r \<longleftrightarrow> (\<forall>call s. rr_capabilities r = Some call \<longrightarrow> view (snd (call s)) = view s)"

lemma available_view: "discovery_reads view r \<Longrightarrow> snapshot_available r w = (b, w') \<Longrightarrow> view (w_api w') = view (w_api w)"
  by (auto simp: snapshot_available_def discovery_reads_def split: option.splits prod.splits) (metis snd_conv)

lemma backup_object_key: "object_key backup_kind run = run_key_of run"
  by (simp add: object_key_def backup_kind_def run_key_of_def)

lemma adds_backup_status:
  assumes "backup_api view (rr_client r)" "nothing_new K c (view (w_api w))" "\<And>key. K (''backup'', key)"
  shows "adds view K c (update_status (kc_backups (rr_client r)) f args run w)"
  by (rule status_store.adds_update_status [OF backup_stores(5) [OF assms(1)] assms(2)]) (use assms(3) in simp)

lemma adds_release:
  assumes "backup_api view (rr_client r)" "nothing_new K c (view (w_api w))"
  shows "adds view K c (releaseTargetGuardsForRun r run w)"
proof -
  note leases = backup_stores(6) [OF assms(1)]
  have one: "adds view K c (release_lease r holder l v)" if "nothing_new K c (view (w_api v))" for holder l v
    unfolding release_lease_def
    by (intro adding adds_result object_store.adds_delete [OF leases]) (use that in simp_all)
  show ?thesis
    unfolding releaseTargetGuardsForRun_def
    by (intro adding adds_each object_store.adds_list [OF leases] assms(2) one)
qed

lemma adds_fail_backup:
  assumes "backup_api view (rr_client r)" "nothing_new K c (view (w_api w))" "\<And>key. K (''backup'', key)"
  shows "adds view K c (failBackupJob r now run cause w)"
proof -
  have "adds view K c (on_api (api_update_status (kc_backups (rr_client r)) x) w)" for x
    by (rule status_store.adds_status [OF backup_stores(5) [OF assms(1)] assms(2)]) (use assms(3) in simp)
  then have status: "nothing_new K c (view (w_api v))" if "on_api (api_update_status (kc_backups (rr_client r)) x) w = (res, v)" for x res v
    using that by (metis adds_pair)
  have release: "nothing_new K c (view (w_api v'))"
    if "releaseTargetGuardsForRun r x v = (res, v')" "nothing_new K c (view (w_api v))" for x v res v'
    using adds_release [OF assms(1) that(2), of x] that(1) by simp
  show ?thesis
    unfolding failBackupJob_def Let_def
    by (auto simp: adds_def split: prod.splits sum.splits if_splits intro: release dest!: status)
qed

lemma adds_or_fail:
  assumes "backup_api view (rr_client r)" "\<And>key. K (''backup'', key)" "adds view K c res"
    and "\<And>x v. res = (Inr x, v) \<Longrightarrow> nothing_new K c (view (w_api v)) \<Longrightarrow> adds view K c (k x v)"
  shows "adds view K c (or_fail r now run res k)"
proof -
  have "adds view K c (then_do (failBackupJob r now run e v) (\<lambda>_ w. (Inr None, w)))" if "res = (Inl e, v)" for e v
    by (intro adding adds_fail_backup [OF assms(1)]) (use assms(2,3) that in auto)
  then show ?thesis
    unfolding or_fail_def by (intro adds_result [OF assms(3)]) (use assms(4) in auto)
qed

lemma adds_hold_run:
  assumes "backup_api view (rr_client r)" "nothing_new K c (view (w_api w))" "\<And>key. K (''backup'', key)"
  shows "adds view K c (hold_run r now what condition f args run w)"
  unfolding hold_run_def Let_def by (intro adding adds_backup_status [OF assms(1)]) (use assms(2,3) in simp_all)

lemma adds_cancel_merged:
  assumes "backup_api view (rr_client r)" "nothing_new K c (view (w_api w))" "\<And>key. K (''backup'', key)"
  shows "adds view K c (cancelBackupJobMergedInto r now run canonical w)"
  unfolding cancelBackupJobMergedInto_def Let_def by (intro adding adds_backup_status [OF assms(1)]) (use assms(2,3) in simp_all)

lemma adds_cancel_replaced:
  assumes "backup_api view (rr_client r)" "discovery_reads view r" "nothing_new K c (view (w_api w))" "\<And>key. K (''backup'', key)"
  shows "adds view K c (cancelBackupJobForReplacement r now active successor w)"
proof -
  have clean: "adds view K c (case snapshot_available r v of (avail, w) \<Rightarrow>
         (case cleanupRunResources (rr_client r) (j_meta run) runKindBackup avail w of
            (Inl e, w) \<Rightarrow> (Inl (f e), recordRunEvent r (run_key_of run) ty re fmt (g e) w)
          | (Inr _, w) \<Rightarrow> (Inr (), record_phase RunKindBackup (run_key_of run) p q w)))"
    if "nothing_new K c (view (w_api v))" for v run f ty re fmt g p q
  proof -
    obtain avail u where a: "snapshot_available r v = (avail, u)"
      by (cases "snapshot_available r v")
    then have "nothing_new K c (view (w_api u))"
      using available_view [OF assms(2) a] that by simp
    then show ?thesis
      unfolding a prod.case by (intro adds_result adds_cleanup [OF backup_stores(11) [OF assms(1)]]) simp_all
  qed
  show ?thesis
    unfolding cancelBackupJobForReplacement_def Let_def
    by (intro adding adds_backup_status [OF assms(1)] clean) (use assms(3,4) in simp_all)
qed

lemma adds_machineRef:
  assumes "backup_api view (rr_client r)" "nothing_new K c (view (w_api w))"
  shows "adds view K c (machineRefForBackupJob r run w)"
proof -
  obtain res w' where m: "machineRefForBackupJob r run w = (res, w')"
    by (cases "machineRefForBackupJob r run w")
  then show ?thesis
    using machineRef_effect(1) [OF backup_stores(1) [OF assms(1)] m] assms(2) by simp
qed

lemma adds_pending:
  assumes "backup_api view (rr_client r)"
  shows "nothing_new K c (view (w_api w)) \<Longrightarrow> adds view K c (pending_runs r target runs w)"
proof (induction runs arbitrary: w)
  case (Cons run runs)
  show ?case
    unfolding pending_runs.simps
    by (intro adding Cons.IH Cons.prems adds_machineRef [OF assms]) simp_all
qed simp

lemma adds_coalesce:
  assumes "backup_api view (rr_client r)" "nothing_new K c (view (w_api w))" "\<And>key. K (''backup'', key)"
  shows "adds view K c (coalescePendingBackupJobsForTarget r now run target w)"
  unfolding coalescePendingBackupJobsForTarget_def Let_def
  by (intro adding object_store.adds_list [OF backup_stores(4) [OF assms(1)]] adds_pending [OF assms(1)] adds_each
      adds_cancel_merged [OF assms(1)]) (use assms(2,3) in simp_all)

lemma adds_active_run:
  assumes "backup_api view (rr_client r)"
  shows "nothing_new K c (view (w_api w)) \<Longrightarrow> adds view K c (active_run_of r run target runs w)"
proof (induction runs arbitrary: w)
  case (Cons x runs)
  show ?case
    unfolding active_run_of.simps
    by (intro adding adds_result object_store.adds_get [OF backup_stores(1) [OF assms]] Cons.IH) (use Cons.prems in simp_all)
qed simp

lemma adds_find_active:
  assumes "backup_api view (rr_client r)" "nothing_new K c (view (w_api w))"
  shows "adds view K c (findActiveBackupJobForTarget r run target w)"
  unfolding findActiveBackupJobForTarget_def
  by (intro adding object_store.adds_list [OF backup_stores(4) [OF assms(1)]] adds_active_run [OF assms(1)] assms(2))

section \<open>The lease\<close>

definition holds_guard :: "cluster \<Rightarrow> backup_job \<Rightarrow> nsname \<Rightarrow> bool" where
  "holds_guard c run target \<longleftrightarrow> (\<exists>l. guard_of c target = Some l \<and> ls_holder l = Some (backupRunGuardHolder run))"

text \<open>An outcome of the guard, for any policy: nothing new but runs and leases, and who acquires it holds the lease.\<close>

definition guarded :: "('s \<Rightarrow> cluster) \<Rightarrow> cluster \<Rightarrow> backup_job \<Rightarrow> nsname \<Rightarrow> (backup_job option \<times> bool) option result \<times> 's world \<Rightarrow> bool" where
  "guarded view c run target r \<longleftrightarrow> nothing_new own_kinds c (view (w_api (snd r)))
     \<and> (\<forall>b. fst r = Inr (Some (b, True)) \<longrightarrow> holds_guard (view (w_api (snd r))) run target)"

lemma guarded_quiet: "adds view own_kinds c (res, w) \<Longrightarrow> (\<And>b. res \<noteq> Inr (Some (b, True))) \<Longrightarrow> guarded view c run target (res, w)"
  by (simp add: guarded_def)

lemma guarded_claim:
  fixes r :: "'s reconciler"
  assumes api: "backup_api view (rr_client r)" and quiet: "nothing_new own_kinds c (view (w_api w))"
    and l: "object_key lease_kind l = TargetGuardLeaseRef target" "ls_holder l = Some (backupRunGuardHolder run)"
  shows "guarded view c run target (guard_update r f args l w)"
proof -
  obtain res w' where u: "guard_update r f args l w = (res, w')"
    by (cases "guard_update r f args l w")
  note effect = claim_effect [OF backup_stores(7) [OF api] u l]
  have "nothing_new own_kinds c (view (w_api w'))"
    using effect quiet by (auto simp: nothing_new_def split: sum.splits option.splits prod.splits)
  then show ?thesis
    using effect u by (auto simp: guarded_def holds_guard_def)
qed

lemma guarded_then:
  assumes "adds view own_kinds c r" "\<And>x w. r = (Inr x, w) \<Longrightarrow> nothing_new own_kinds c (view (w_api w)) \<Longrightarrow> guarded view c run target (k x w)"
  shows "guarded view c run target (then_do r k)"
  using assms by (cases r; cases "fst r") (auto simp: guarded_def)

lemma guarded_attempt:
  fixes r :: "'s reconciler"
  assumes api: "backup_api view (rr_client r)" and reads: "discovery_reads view r" and quiet: "nothing_new own_kinds c (view (w_api w))"
  shows "guarded view c run target (guard_attempt r now run target replacing w)"
proof -
  let ?ref = "TargetGuardLeaseRef target" and ?me = "backupRunGuardHolder run"
  note store = backup_stores(6) [OF api] and guard = backup_stores(7) [OF api]
  obtain found v where g: "on_api (api_get (kc_leases (rr_client r)) ?ref) w = (found, v)"
    by (cases "on_api (api_get (kc_leases (rr_client r)) ?ref) w")
  note read = object_store.read [OF store g]
  have v: "nothing_new own_kinds c (view (w_api v))"
    using quiet read(1) by simp
  show ?thesis
  proof (cases found)
    case (Inl e)
    obtain created s' where made: "api_create (kc_leases (rr_client r)) (new_guard_lease run target now) (w_api v) = (created, s')"
      by (cases "api_create (kc_leases (rr_client r)) (new_guard_lease run target now) (w_api v)")
    have "adds view own_kinds c (on_api (api_create (kc_leases (rr_client r)) (new_guard_lease run target now)) v)"
      by (rule object_store.adds_create [OF store v]) simp
    then have s': "nothing_new own_kinds c (view s')"
      using made by (simp add: adds_def on_api_def)
    have held: "holds_guard (view s') run target" if "created = Inr stored" for stored
    proof -
      have "view s' = (view (w_api v))((''lease'', ?ref) \<mapsto> ok_store lease_kind stored)"
        using object_store.create [OF store made] that by (simp add: lease_key_new)
      then have "guard_of (view s') target = Some stored"
        using object_store.fetch_upd(1) [OF store] by (simp add: guard_of_def)
      moreover have "ls_holder stored = Some ?me"
        using guard_store.created [OF guard] made that by (simp add: new_guard_lease_def Let_def)
      ultimately show ?thesis
        by (simp add: holds_guard_def)
    qed
    show ?thesis
      using v s' held made unfolding guard_attempt_def Let_def g Inl
      by (auto simp: guarded_def on_api_def split: sum.splits)
  next
    case (Inr l)
    have l: "object_key lease_kind l = ?ref"
      using read(2) [OF Inr] object_store.fetch_key [OF store] by simp
    let ?claimed = "claimTargetGuardLease l run target ?me now (holder_of l)"
    have claim: "guarded view c run target (guard_update r f args ?claimed u)" if "nothing_new own_kinds c (view (w_api u))" for f args u
      by (rule guarded_claim [OF api that]) (simp_all add: lease_key_claim holder_claim l)
    have active: "adds view own_kinds c (activeGuardHolder r h target v)" for h
    proof -
      obtain res u where a: "activeGuardHolder r h target v = (res, u)"
        by (cases "activeGuardHolder r h target v")
      then show ?thesis
        using holder_effect(1) [OF backup_stores(12) [OF api] a] v by simp
    qed
    have steal: "guarded view c run target (then_do (activeGuardHolder r h target v) (\<lambda>(blocking, active) w.
           if active \<and> \<not> replacing then (Inr (Some (blocking, False)), w)
           else then_do (if active then (case blocking of
                 Some b \<Rightarrow> cancelBackupJobForReplacement r now b run w | None \<Rightarrow> (Inr (), w)) else (Inr (), w))
             (\<lambda>_. guard_update r f args ?claimed)))" for h f args
    proof (rule guarded_then [OF active])
      fix x :: "backup_job option \<times> bool" and u :: "'s world"
      assume u: "nothing_new own_kinds c (view (w_api u))"
      obtain blocking active where x: "x = (blocking, active)"
        by (cases x)
      have "guarded view c run target (then_do (if active then (case blocking of
                 Some b \<Rightarrow> cancelBackupJobForReplacement r now b run u | None \<Rightarrow> (Inr (), u)) else (Inr (), u))
             (\<lambda>_. guard_update r f args ?claimed))"
        by (intro guarded_then adding adds_cancel_replaced [OF api reads] claim) (use u in simp_all)
      then show "guarded view c run target ((case x of (blocking, active) \<Rightarrow> (\<lambda>w.
           if active \<and> \<not> replacing then (Inr (Some (blocking, False)), w)
           else then_do (if active then (case blocking of
                 Some b \<Rightarrow> cancelBackupJobForReplacement r now b run w | None \<Rightarrow> (Inr (), w)) else (Inr (), w))
             (\<lambda>_. guard_update r f args ?claimed))) u)"
        using u by (auto simp: x guarded_def)
    qed
    have h: "(case ls_holder l of Some h \<Rightarrow> h | None \<Rightarrow> []) = holder_of l"
      by (simp add: holder_of_def)
    show ?thesis
      unfolding guard_attempt_def Let_def g Inr prod.case sum.case h using claim [OF v] steal by simp
  qed
qed

lemma acquire_effect:
  fixes r :: "'s reconciler"
  assumes api: "backup_api view (rr_client r)" and reads: "discovery_reads view r" and quiet: "nothing_new own_kinds c (view (w_api w))"
    and run: "acquireTargetGuard r now run target replacing w = (res, w')"
  shows "nothing_new own_kinds c (view (w_api w'))" "res = Inr (b, True) \<Longrightarrow> holds_guard (view (w_api w')) run (meta_key (m_meta target))"
proof -
  have "guard_attempts r now n run t replacing w = (res, w') \<Longrightarrow> nothing_new own_kinds c (view (w_api w)) \<Longrightarrow>
      nothing_new own_kinds c (view (w_api w')) \<and> (\<forall>b. res = Inr (b, True) \<longrightarrow> holds_guard (view (w_api w')) run t)" for n t
  proof (induction n arbitrary: w)
    case (Suc n)
    obtain x u where a: "guard_attempt r now run t replacing w = (x, u)"
      by (cases "guard_attempt r now run t replacing w")
    have "guarded view c run t (x, u)"
      using guarded_attempt [OF api reads Suc.prems(2), of run t now replacing] a by simp
    then show ?case
      using Suc a by (cases x) (auto simp: guarded_def split: option.splits)
  qed auto
  from this [OF run [unfolded acquireTargetGuard_def] quiet]
  show "nothing_new own_kinds c (view (w_api w'))" "res = Inr (b, True) \<Longrightarrow> holds_guard (view (w_api w')) run (meta_key (m_meta target))"
    by auto
qed

section \<open>The start\<close>

text \<open>The objects that the start of a run creates.\<close>

definition backup_objects :: "backup_job \<Rightarrow> rsync_machine \<Rightarrow> target_run_set \<Rightarrow> cluster_key set" where
  "backup_objects run target runSet =
    (let there = om_namespace (m_meta target); name = om_name (j_meta run) in
     {(''job'', there, GeneratedJobName ''target'' name), (''service'', there, GeneratedServiceName ''target'' name),
      (''secret'', there, GeneratedTLSSecretName (RunID run) RoleTargetServer there (om_name (m_meta target)))}
     \<union> (\<lambda>s. (''secret'', om_namespace (s_meta s), GeneratedTLSSecretName (RunID run) RoleSourceSender (om_namespace (s_meta s)) (om_name (s_meta s))))
       ` set (map rsv_source (trs_sources runSet)))"

lemma credential_place: "object_key secret_kind (credential_Secret x) = (crs_namespace x, crs_name x)"
  by (simp add: credential_Secret_def Let_def object_key_def secret_kind_def BuildTLSSecret_def new_meta_def meta_key_def)

lemma source_credential_places:
  "source_credentials cr now ca run ttl capem sources n = (Inr cs, n') \<Longrightarrow> x \<in> set cs \<Longrightarrow>
     \<exists>s\<in>set sources. (crs_namespace x, crs_name x) =
       (om_namespace (s_meta s), GeneratedTLSSecretName (RunID run) RoleSourceSender (om_namespace (s_meta s)) (om_name (s_meta s)))"
proof (induction sources arbitrary: n cs)
  case (Cons s sources)
  then obtain m rest where "source_credentials cr now ca run ttl capem sources m = (Inr rest, n')"
    and "x \<in> set rest \<or> (crs_namespace x, crs_name x) =
       (om_namespace (s_meta s), GeneratedTLSSecretName (RunID run) RoleSourceSender (om_namespace (s_meta s)) (om_name (s_meta s)))"
    by (auto simp: Let_def go_result)
  then show ?case
    using Cons.IH by fastforce
qed simp

lemma backup_credential_places:
  assumes "BuildBackupJobCredentialSecretsWithSigner cr now run target (map rsv_source (trs_sources runSet)) ttl signer ca n = (Inr cs, n')" "x \<in> set cs"
  shows "(''secret'', object_key secret_kind (credential_Secret x)) \<in> backup_objects run target runSet"
  using assms source_credential_places [of cr now _ run _ _ "map rsv_source (trs_sources runSet)" _ _ _ x]
  unfolding credential_place
  by (fastforce simp: BuildBackupJobCredentialSecretsWithSigner_def buildBackupJobCredentialSecrets_def Let_def go_result backup_objects_def)

lemma backup_job_place:
  "BuildServeTargetJobWithControl pq run target runSet img ts co = Inr job \<Longrightarrow> (''job'', object_key job_kind job) \<in> backup_objects run target runSet"
  by (auto simp: BuildServeTargetJobWithControl_def Let_def object_key_def meta_key_def job_kind_def new_job_def new_meta_def
      backup_objects_def split: sum.splits if_splits)

lemma backup_service_place: "(''service'', object_key service_kind (BuildTargetService run target)) \<in> backup_objects run target runSet"
  by (simp add: BuildTargetService_def object_key_def meta_key_def service_kind_def new_service_def new_meta_def backup_objects_def Let_def)

abbreviation run_places :: "backup_job \<Rightarrow> rsync_machine \<Rightarrow> target_run_set \<Rightarrow> cluster_key \<Rightarrow> bool" where
  "run_places run target runSet \<equiv> \<lambda>a. own_kinds a \<or> a \<in> backup_objects run target runSet"

lemma adds_launch_run:
  fixes r :: "'s reconciler"
  assumes api: "backup_api view (rr_client r)" and sc: "keeps_place (rr_scheme r)"
    and quiet: "nothing_new (run_places run target runSet) c (view (w_api w))"
  shows "adds view (run_places run target runSet) c (launch_run r now run target runSet w)"
proof -
  let ?K = "run_places run target runSet"
  have own: "?K (''backup'', key)" for key
    by simp
  have secret: "adds view ?K c (createBackupJobSecretIfMissing r now run (credential_Secret x) v)"
    if "BuildBackupJobCredentialSecretsWithSigner (rr_crypto r) now run target (map rsv_source (trs_sources runSet)) DefaultRunCertificateTTL
          (rr_signer r) [rr_controlCA r] m = (Inr cs, m')" "x \<in> set cs" "nothing_new ?K c (view (w_api v))" for cs m m' x v
    unfolding createBackupJobSecretIfMissing_def
    by (intro adds_owned sc that(3) adds_create_secret backup_stores(9) [OF api]; use backup_credential_places [OF that(1,2)] in simp)
  have credentials: "adds view ?K c (ensureBackupJobCredentials r now run target runSet w)"
  proof -
    obtain res m' where b: "BuildBackupJobCredentialSecretsWithSigner (rr_crypto r) now run target (map rsv_source (trs_sources runSet)) DefaultRunCertificateTTL
          (rr_signer r) [rr_controlCA r] (w_entropy w) = (res, m')"
      by (cases "BuildBackupJobCredentialSecretsWithSigner (rr_crypto r) now run target (map rsv_source (trs_sources runSet)) DefaultRunCertificateTTL
          (rr_signer r) [rr_controlCA r] (w_entropy w)")
    show ?thesis
    proof (cases res)
      case (Inl e)
      then show ?thesis
        using quiet b by (simp add: ensureBackupJobCredentials_def Let_def)
    next
      case (Inr cs)
      have "adds view ?K c (each_call (\<lambda>credential. createBackupJobSecretIfMissing r now run (credential_Secret credential)) cs (w\<lparr>w_entropy := m'\<rparr>))"
        by (intro adds_each secret [OF b [unfolded Inr]]) (use quiet in simp_all)
      then show ?thesis
        using b Inr by (simp add: ensureBackupJobCredentials_def Let_def)
    qed
  qed
  have job: "adds view ?K c (createBackupJobJobIfMissing r run j v)" if "(''job'', object_key job_kind j) \<in> backup_objects run target runSet"
      "nothing_new ?K c (view (w_api v))" for j v
    unfolding createBackupJobJobIfMissing_def
    by (intro adds_owned sc that(2) adds_create_job backup_stores(8) [OF api]; use that(1) in simp)
  have service: "adds view ?K c (createBackupJobServiceIfMissing r run (BuildTargetService run target) v)"
    if "nothing_new ?K c (view (w_api v))" for v
    unfolding createBackupJobServiceIfMissing_def
    by (intro adds_owned sc that adds_create_service backup_stores(10) [OF api]; use backup_service_place [of run target runSet] in simp)
  have status: "adds view ?K c (case on_api (api_update_status (kc_backups (rr_client r)) (preparing now target runSet run)) v of
            (Inl e, w) \<Rightarrow> (if errors_is ApiNotFound e then Inr None else Inl (wrapf ''set backup job preparing phase: %w'' [] e), w)
          | (Inr stored, w) \<Rightarrow> (Inr None, record_phase RunKindBackup (run_key_of stored) (phase_of run) (phase_of stored)
              (recordRunEvent r (run_key_of stored) ''Normal'' ''RunStarted'' ''BackupJob started for RsyncMachine %s/%s'' (machine_args target) w)))"
    if "nothing_new ?K c (view (w_api v))" for v
    by (intro adds_result status_store.adds_status [OF backup_stores(5) [OF api]]) (use that in simp_all)
  have begun: "adds view ?K c (then_do (createBackupJobJobIfMissing r run j v) (\<lambda>_ w.
         then_do (createBackupJobServiceIfMissing r run (BuildTargetService run target) w) (\<lambda>_ w.
         (case on_api (api_update_status (kc_backups (rr_client r)) (preparing now target runSet run)) w of
            (Inl e, w) \<Rightarrow> (if errors_is ApiNotFound e then Inr None else Inl (wrapf ''set backup job preparing phase: %w'' [] e), w)
          | (Inr stored, w) \<Rightarrow> (Inr None, record_phase RunKindBackup (run_key_of stored) (phase_of run) (phase_of stored)
              (recordRunEvent r (run_key_of stored) ''Normal'' ''RunStarted'' ''BackupJob started for RsyncMachine %s/%s'' (machine_args target) w))))))"
    if "BuildServeTargetJobWithControl (ParseQuantity (rr_machinery r)) run target runSet (rr_image r) (format_timestamp now) (dataPlaneControlOptions r) = Inr j"
      "nothing_new ?K c (view (w_api v))" for j v
    by (intro adding job service status) (use that backup_job_place in simp_all)
  show ?thesis
    unfolding launch_run_def
  proof (intro adds_or_fail [OF api, where K = ?K, OF own] credentials)
    fix x and v :: "'s world"
    assume v: "nothing_new ?K c (view (w_api v))"
    have stop: "adds view ?K c (or_fail r now run (Inl e, v) (\<lambda>_ :: unit. \<lambda>w. (Inr None, w)))" for e
      by (intro adds_or_fail [OF api, where K = ?K, OF own]) (use v in simp_all)
    show "adds view ?K c (case BuildServeTargetJobWithControl (ParseQuantity (rr_machinery r)) run target runSet (rr_image r) (format_timestamp now)
           (dataPlaneControlOptions r) of
         Inl e \<Rightarrow> or_fail r now run (Inl e, v) (\<lambda>_ :: unit. \<lambda>w. (Inr None, w))
       | Inr targetJob \<Rightarrow>
         then_do (createBackupJobJobIfMissing r run targetJob v) (\<lambda>_ w.
         then_do (createBackupJobServiceIfMissing r run (BuildTargetService run target) w) (\<lambda>_ w.
         (case on_api (api_update_status (kc_backups (rr_client r)) (preparing now target runSet run)) w of
            (Inl e, w) \<Rightarrow> (if errors_is ApiNotFound e then Inr None else Inl (wrapf ''set backup job preparing phase: %w'' [] e), w)
          | (Inr stored, w) \<Rightarrow> (Inr None, record_phase RunKindBackup (run_key_of stored) (phase_of run) (phase_of stored)
              (recordRunEvent r (run_key_of stored) ''Normal'' ''RunStarted'' ''BackupJob started for RsyncMachine %s/%s'' (machine_args target) w))))))"
      by (intro adds_sum stop begun v)
  qed
qed

text \<open>The machine and the sources of a run as the handler finds them; a machine that is missing counts as one without a name.\<close>

definition resolves :: "cluster \<Rightarrow> backup_job \<Rightarrow> target_run_set \<Rightarrow> rsync_machine \<Rightarrow> bool" where
  "resolves c run runSet target \<longleftrightarrow> (\<exists>at. ResolveObjectReference (bs_machineRef (j_spec run)) (om_namespace (j_meta run)) = Inr at
     \<and> (fetch machine_kind c at = None \<and> runSet = zero_run_set \<and> target = zero_machine
        \<or> fetch machine_kind c at = Some target \<and> (\<exists>sources. (\<forall>s\<in>set sources. fetch source_kind c (meta_key (s_meta s)) = Some s)
            \<and> CalculateTargetRunSet target (sources_by_ref sources) = Inr runSet)))"

lemma resolve_effect:
  assumes api: "backup_api view (rr_client r)" and run: "resolveBackupJob r run w = (res, w')"
  shows "view (w_api w') = view (w_api w)" "res = Inr (runSet, target) \<Longrightarrow> resolves (view (w_api w)) run runSet target"
proof -
  let ?c = "rr_client r" and ?v = "view (w_api w)"
  have "view (w_api w') = ?v \<and> (\<forall>runSet target. res = Inr (runSet, target) \<longrightarrow> resolves ?v run runSet target)"
  proof (cases "ResolveObjectReference (bs_machineRef (j_spec run)) (om_namespace (j_meta run))")
    case (Inl e)
    then show ?thesis
      using run by (auto simp: resolveBackupJob_def)
  next
    case (Inr at)
    note at = Inr
    obtain found u where m: "on_api (api_get (kc_machines ?c) at) w = (found, u)"
      by (cases "on_api (api_get (kc_machines ?c) at) w")
    note read = object_store.read [OF backup_stores(1) [OF api] m]
    show ?thesis
    proof (cases found)
      case (Inl e)
      then show ?thesis
        using run at m read(1,3) by (auto simp: resolveBackupJob_def resolves_def split: if_splits)
    next
      case (Inr target)
      note target = Inr
      obtain sources v where l: "on_api (api_list (kc_sources ?c) everything) u = (sources, v)"
        by (cases "on_api (api_list (kc_sources ?c) everything) u")
      note listed = object_store.listed [OF backup_stores(2) [OF api] l]
      show ?thesis
      proof (cases sources)
        case (Inl e)
        then show ?thesis
          using run at m target l read(1) listed(1) by (auto simp: resolveBackupJob_def)
      next
        case (Inr xs)
        then have "\<forall>s\<in>set xs. fetch source_kind ?v (meta_key (s_meta s)) = Some s"
          using listed(2) [OF Inr] read(1) by (auto simp: object_key_def source_kind_def)
        then show ?thesis
          using run at m target l read(1,2) listed(1) Inr
          by (auto simp: resolveBackupJob_def resolves_def split: sum.splits)
      qed
    qed
  qed
  then show "view (w_api w') = view (w_api w)" "res = Inr (runSet, target) \<Longrightarrow> resolves (view (w_api w)) run runSet target"
    by auto
qed

text \<open>The start of a run as seen from outside: before \<open>c1\<close> nothing new but runs and leases; at \<open>c1\<close> the run
  holds its target and no restore uses it; after that only its own objects.\<close>

definition started :: "cluster \<Rightarrow> backup_job \<Rightarrow> cluster \<Rightarrow> bool" where
  "started c run c' \<longleftrightarrow> (\<exists>runSet target c1. resolves c run runSet target \<and> TargetReady target \<and> nothing_new own_kinds c c1
     \<and> holds_guard c1 run (meta_key (m_meta target)) \<and> restores_idle c1 (meta_key (m_meta target))
     \<and> nothing_new (run_places run target runSet) c1 c')"

definition isolated :: "('s \<Rightarrow> cluster) \<Rightarrow> cluster \<Rightarrow> backup_job \<Rightarrow> requeue result \<times> 's world \<Rightarrow> bool" where
  "isolated view c run r \<longleftrightarrow> adds view own_kinds c r \<or> started c run (view (w_api (snd r)))"

lemma isolated_quiet: "adds view own_kinds c r \<Longrightarrow> isolated view c run r"
  by (simp add: isolated_def)

lemma isolated_or_fail:
  assumes api: "backup_api view (rr_client r)" and quiet: "adds view own_kinds c res"
    and go: "\<And>x v. res = (Inr x, v) \<Longrightarrow> nothing_new own_kinds c (view (w_api v)) \<Longrightarrow> isolated view c run (k x v)"
  shows "isolated view c run (or_fail r now run' res k)"
proof (cases res)
  case (Pair x v)
  show ?thesis
  proof (cases x)
    case (Inl e)
    have "adds view own_kinds c (or_fail r now run' res k)"
      by (intro adds_or_fail [OF api, where K = own_kinds] quiet) (use Pair Inl in auto)
    then show ?thesis
      by (rule isolated_quiet)
  next
    case (Inr y)
    then show ?thesis
      using go quiet Pair by (simp add: or_fail_def)
  qed
qed

lemma isolated_guarded:
  fixes r :: "'s reconciler"
  assumes api: "backup_api view (rr_client r)" and config: "discovery_reads view r" "keeps_place (rr_scheme r)"
    and before: "resolves c run runSet target" "TargetReady target" "nothing_new own_kinds c (view (w_api w))"
    and idle: "restores_idle (view (w_api w)) (meta_key (m_meta target))"
  shows "isolated view c run (or_fail r now run (acquireTargetGuard r now run target replacing w) (\<lambda>(blocking, acquired) w.
      if acquired then launch_run r now run target runSet w
      else case blocking of
          Some b \<Rightarrow> requeue_after (Some (seconds 30)) (holdBackupJobForOverlap r now run target b target w)
        | None \<Rightarrow> (Inl (errorf ''nil pointer dereference'' []), w)))"
proof -
  obtain res v where a: "acquireTargetGuard r now run target replacing w = (res, v)"
    by (cases "acquireTargetGuard r now run target replacing w")
  let ?v = "view (w_api w)" and ?at = "meta_key (m_meta target)"
  have here: "nothing_new own_kinds ?v (view (w_api v))"
    by (rule acquire_effect(1) [OF api config(1) _ a]) simp
  have quiet: "nothing_new own_kinds c (view (w_api v))"
    using before(3) here by (rule nothing_new_trans)
  show ?thesis
    unfolding a
  proof (rule isolated_or_fail [OF api], goal_cases)
    case 1
    then show ?case
      using quiet by simp
  next
    case (2 x u)
    then have x: "res = Inr x" "u = v"
      by simp_all
    obtain blocking acquired where ba: "x = (blocking, acquired)"
      by (cases x)
    show ?case
    proof (cases acquired)
      case True
      have held: "holds_guard (view (w_api v)) run ?at"
        by (rule acquire_effect(2) [OF api config(1) _ a, of ?v blocking]) (use x ba True in simp_all)
      have "adds view (run_places run target runSet) (view (w_api v)) (launch_run r now run target runSet v)"
        by (rule adds_launch_run [OF api config(2)]) simp
      then have "started c run (view (w_api (snd (launch_run r now run target runSet v))))"
        unfolding started_def adds_def using before(1,2) quiet held idle_stays [OF here idle] by blast
      then show ?thesis
        using x ba True by (simp add: isolated_def)
    next
      case False
      have "adds view own_kinds c (requeue_after (Some (seconds 30)) (holdBackupJobForOverlap r now run target b target v))" for b
        unfolding holdBackupJobForOverlap_def Let_def
        by (intro adds_requeue adds_hold_run [OF api]) (use quiet in simp_all)
      then show ?thesis
        using x ba False quiet by (auto intro: isolated_quiet split: option.splits)
    qed
  qed
qed

lemma start_isolated:
  fixes r :: "'s reconciler"
  assumes api: "backup_api view (rr_client r)" and config: "discovery_reads view r" "keeps_place (rr_scheme r)"
    and c: "view (w_api w) = c"
  shows "isolated view c run (start_run r now run w)"
  unfolding start_run_def
proof (rule isolated_or_fail [OF api], goal_cases)
  case 1
  obtain res v where a: "resolveBackupJob r run w = (res, v)"
    by (cases "resolveBackupJob r run w")
  then show ?case
    using resolve_effect(1) [OF api a] c by simp
next
  case (2 x u)
  note u = 2(2)
  obtain runSet target where t: "x = (runSet, target)"
    by (cases x)
  have res: "resolves c run runSet target"
    using resolve_effect(2) [OF api 2(1)] t c by simp
  let ?rep = "ConcurrencyPolicyOrDefault (m_spec target) = ConcurrencyReplace"
  have hold: "isolated view c run (requeue_after d (hold_run r now what cd f args run v))"
      "isolated view c run (requeue_after d (cancelBackupJobMergedInto r now run canonical v))"
    if "nothing_new own_kinds c (view (w_api v))" for d what cd f args v canonical
    by (intro isolated_quiet adds_requeue adds_hold_run [OF api] adds_cancel_merged [OF api]; use that in simp)+
  have continue: "isolated view c run (or_fail r now run (findActiveRestoreJobForTarget r target v) (\<lambda>restore w. case restore of
             Some restore \<Rightarrow> requeue_after (Some (seconds 30)) (holdBackupJobForRestore r now run target restore w)
           | None \<Rightarrow>
             or_fail r now run (acquireTargetGuard r now run target ?rep w) (\<lambda>(blocking, acquired) w.
               if acquired then launch_run r now run target runSet w
               else case blocking of
                   Some b \<Rightarrow> requeue_after (Some (seconds 30)) (holdBackupJobForOverlap r now run target b target w)
                 | None \<Rightarrow> (Inl (errorf ''nil pointer dereference'' []), w))))"
    if v: "nothing_new own_kinds c (view (w_api v))" and ready: "TargetReady target" for v
  proof (rule isolated_or_fail [OF api], goal_cases)
    case 1
    obtain found q where f: "findActiveRestoreJobForTarget r target v = (found, q)"
      by (cases "findActiveRestoreJobForTarget r target v")
    then show ?case
      using find_restore_effect(1) [OF api f] v by simp
  next
    case (2 y s)
    have "restores_idle (view (w_api s)) (meta_key (m_meta target))" if "y = None"
      using find_restore_effect [OF api 2(1)] that by simp
    then show ?case
      using hold [OF 2(2)] isolated_guarded [OF api config res ready 2(2)]
      by (cases y) (simp_all add: holdBackupJobForRestore_def Let_def)
  qed
  show ?case
    unfolding t prod.case Let_def
  proof (rule isolated_or_fail [OF api], goal_cases)
    case 1
    show ?case
      by (rule adds_coalesce [OF api u]) simp
  next
    case (2 y s)
    obtain canonical goes where y: "y = (canonical, goes)"
      by (cases y)
    have found: "isolated view c run (or_fail r now run (findActiveBackupJobForTarget r run target s) k)"
      if "\<And>active v. nothing_new own_kinds c (view (w_api v)) \<Longrightarrow> isolated view c run (k active v)" for k
      by (rule isolated_or_fail [OF api adds_find_active [OF api 2(2)]]) (use that in simp)
    have replaced: "isolated view c run (or_fail r now run (cancelBackupJobForReplacement r now b run v) (\<lambda>_. k))"
      if "nothing_new own_kinds c (view (w_api v))" "\<And>v. nothing_new own_kinds c (view (w_api v)) \<Longrightarrow> isolated view c run (k v)" for b k v
      by (rule isolated_or_fail [OF api adds_cancel_replaced [OF api config(1) that(1)]]) (use that(2) in simp_all)
    show ?case
      unfolding y prod.case holdBackupJobForTarget_def
      using hold [OF 2(2)]
      by (auto intro!: found split: option.split simp: holdBackupJobForOverlap_def Let_def continue hold intro!: replaced)
  qed
qed


lemma memory_backup_api: "backup_api memory_view memory_client"
  using memory_admission_api memory_backup_status.status_store_axioms
    memory_store [of source_kind] memory_store [of restore_kind] memory_store [of job_kind] memory_store [of claim_kind]
    memory_store [of secret_kind] memory_store [of service_kind] memory_store [of snapshot_kind]
  by (simp add: backup_api_def run_api_def memory_client_def)

abbreviation waiting_run :: memory where
  "waiting_run \<equiv> [BackupObject demo_backup, MachineObject demo_run_target, SourceObject demo_run_source]"


end
