(* ===== verification/Event_Applier.thy ===== *)
theory Event_Applier
  imports Machine_Reconciler Run_Events Event_Hub
begin

text \<open>
  manager/event_applier.go: the process that reads all events of the hub and writes
  what they say to the status of runs and machines. The package retry of client-go is
  a parameter with its documented law. The theorem refines the applier to a step on
  the objects of the cluster per event, in the order of the events.
\<close>

section \<open>One event\<close>

text \<open>\<open>retry.RetryOnConflict(retry.DefaultRetry, fn)\<close>\<close>

type_synonym 's retrier = "('s, unit) call \<Rightarrow> ('s, unit) call"

text \<open>The function that is retried: read the object, apply the event, write the status when it changed.\<close>

definition write_status :: "('s, 'o) kind_api \<Rightarrow> nsname \<Rightarrow> ('o \<Rightarrow> bool \<times> 'o) \<Rightarrow> ('s, unit) call" where
  "write_status api key apply_to s =
    (case api_get api key s of
       (Inl e, s) \<Rightarrow> (if errors_is ApiNotFound e then Inr () else Inl e, s)
     | (Inr obj, s) \<Rightarrow>
       (case apply_to obj of (changed, obj) \<Rightarrow>
          if \<not> changed then (Inr (), s) else then_do (api_update_status api obj s) (\<lambda>_ s. (Inr (), s))))"

definition applyTargetEventToRun :: "'s retrier \<Rightarrow> 's kube_client \<Rightarrow> gotime \<Rightarrow> target_event \<Rightarrow> ('s, unit) call" where
  "applyTargetEventToRun retry c now event s =
    (if te_runKind event \<noteq> RunKindBackup then (Inr (), s)
     else retry (write_status (kc_backups c) (te_runNamespace event, te_runName event)
       (\<lambda>run. ApplyTargetEventToBackupJob now run event)) s)"

definition applyTargetCommandAckToRun :: "'s retrier \<Rightarrow> 's kube_client \<Rightarrow> gotime \<Rightarrow> command_ack_event \<Rightarrow> ('s, unit) call" where
  "applyTargetCommandAckToRun retry c now event s =
    (if ca_runKind event \<noteq> RunKindBackup then (Inr (), s)
     else retry (write_status (kc_backups c) (ca_runNamespace event, ca_runName event)
       (\<lambda>run. ApplyTargetCommandAckToBackupJob now run event)) s)"

definition shouldPersistSourceEvent :: "source_event \<Rightarrow> bool" where
  "shouldPersistSourceEvent event \<longleftrightarrow> se_startedAt event \<noteq> [] \<or> se_completedAt event \<noteq> [] \<or> se_phase event \<noteq> ''Running''"

definition applySourceEventToBackupJob :: "'s retrier \<Rightarrow> 's kube_client \<Rightarrow> gotime \<Rightarrow> source_event \<Rightarrow> ('s, unit) call" where
  "applySourceEventToBackupJob retry c now event s =
    (if \<not> shouldPersistSourceEvent event then (Inr (), s)
     else retry (write_status (kc_backups c) (se_runNamespace event, se_runName event)
       (\<lambda>run. ApplySourceEventToBackupJob now run event)) s)"

definition applySourceEventToRestoreJob :: "'s retrier \<Rightarrow> 's kube_client \<Rightarrow> gotime \<Rightarrow> source_event \<Rightarrow> ('s, unit) call" where
  "applySourceEventToRestoreJob retry c now event s =
    (if \<not> shouldPersistSourceEvent event then (Inr (), s)
     else retry (write_status (kc_restores c) (se_runNamespace event, se_runName event)
       (\<lambda>run. ApplySourceEventToRestoreJob now run event)) s)"

definition applyTargetEventToTarget :: "'s retrier \<Rightarrow> 's kube_client \<Rightarrow> gotime \<Rightarrow> target_event \<Rightarrow> ('s, unit) call" where
  "applyTargetEventToTarget retry c now event =
     retry (write_status (kc_machines c) (te_targetNamespace event, te_targetName event)
       (\<lambda>target. ApplyTargetEventToRsyncMachine now target event))"

definition apply_event :: "'s retrier \<Rightarrow> 's kube_client \<Rightarrow> gotime \<Rightarrow> control_event \<Rightarrow> ('s, unit) call" where
  "apply_event retry c now event s =
    (if ce_kind event = EventKindTarget then
       (case ce_target event of None \<Rightarrow> (Inr (), s)
        | Some e \<Rightarrow> then_do (applyTargetEventToRun retry c now e s) (\<lambda>_. applyTargetEventToTarget retry c now e))
     else if ce_kind event = EventKindTargetCommandAck then
       (case ce_commandAck event of None \<Rightarrow> (Inr (), s) | Some e \<Rightarrow> applyTargetCommandAckToRun retry c now e s)
     else if ce_kind event = EventKindSource then
       (case ce_source event of None \<Rightarrow> (Inr (), s)
        | Some e \<Rightarrow>
          if se_runKind e = RunKindBackup then applySourceEventToBackupJob retry c now e s
          else if se_runKind e = RunKindRestore then applySourceEventToRestoreJob retry c now e s
          else (Inr (), s))
     else (Inr (), s))"

section \<open>All events\<close>

record 's control_event_applier =
  ea_client :: "'s kube_client option"
  ea_hasHub :: bool

text \<open>\<open>events\<close> are the events that come out of the subscription until it is closed or the context ends,
  each with the time at which it is applied.\<close>

definition applier_Start ::
  "'s retrier \<Rightarrow> 's control_event_applier \<Rightarrow> (gotime \<times> control_event) list result \<Rightarrow> ('s, unit) call" where
  "applier_Start retry a events s =
    (case ea_client a of
       None \<Rightarrow> (Inl (errorf ''client is required'' []), s)
     | Some c \<Rightarrow>
       if \<not> ea_hasHub a then (Inl (errorf ''control event hub is required'' []), s)
       else (case events of Inl e \<Rightarrow> (Inl e, s) | Inr es \<Rightarrow> each_call (\<lambda>(now, event). apply_event retry c now event) es s))"

section \<open>What the packages promise\<close>

inductive retried :: "('s, unit) call \<Rightarrow> 's \<Rightarrow> unit result \<times> 's \<Rightarrow> bool" for f where
  last_try: "f s = r \<Longrightarrow> retried f s r"
| conflict: "f s = (Inl e, s') \<Longrightarrow> errors_is ApiConflict e \<Longrightarrow> retried f s' r \<Longrightarrow> retried f s r"

definition retries_conflicts :: "'s retrier \<Rightarrow> bool" where
  "retries_conflicts retry \<longleftrightarrow> (\<forall>f s. retried f s (retry f s))"

text \<open>A write of the status replaces the status of an object whose other parts are as they were read.\<close>

locale status_writer = status_store view k api
  for view :: "'s \<Rightarrow> cluster" and k :: "'o object_kind" and api :: "('s, 'o) kind_api" +
  fixes rest_of :: "'o \<Rightarrow> 'r"
  assumes written: "api_update_status api obj s = (res, s') \<Longrightarrow> fetch k (view s) (object_key k obj) = Some x \<Longrightarrow> rest_of x = rest_of obj \<Longrightarrow>
      (case res of Inr _ \<Rightarrow> view s' = (view s)((ok_name k, object_key k obj) \<mapsto> ok_store k obj) | Inl e \<Rightarrow> view s' = view s)"
    and keyed: "rest_of x = rest_of y \<Longrightarrow> object_key k x = object_key k y"

text \<open>The abstract step: the object at a place, when there is one, has the event applied.\<close>

definition recorded :: "'o object_kind \<Rightarrow> nsname \<Rightarrow> ('o \<Rightarrow> bool \<times> 'o) \<Rightarrow> cluster \<Rightarrow> cluster" where
  "recorded k key apply_to c = (case fetch k c key of None \<Rightarrow> c | Some x \<Rightarrow> c((ok_name k, key) \<mapsto> ok_store k (snd (apply_to x))))"

context status_writer
begin

lemma write_once:
  assumes rest: "\<And>x. rest_of (snd (apply_to x)) = rest_of x" and silent: "\<And>x. \<not> fst (apply_to x) \<Longrightarrow> snd (apply_to x) = x"
    and run: "write_status api key apply_to s = (res, s')"
  shows "case res of Inr _ \<Rightarrow> view s' = recorded k key apply_to (view s) | Inl e \<Rightarrow> view s' = view s"
proof -
  obtain found t where g: "api_get api key s = (found, t)"
    by (cases "api_get api key s")
  note read = get [OF g]
  show ?thesis
  proof (cases found)
    case (Inl e)
    then show ?thesis
      using run g read by (auto simp: write_status_def recorded_def split: if_splits)
  next
    case (Inr x)
    then have here: "fetch k (view s) key = Some x" "view t = view s" "fetch k (view t) key = Some x"
      using read by simp_all
    have at: "object_key k x = key" "object_key k (snd (apply_to x)) = key"
      using fetch_key [OF here(1)] keyed [OF rest [of x]] by simp_all
    show ?thesis
    proof (cases "fst (apply_to x)")
      case False
      have "view s = (view s)((ok_name k, key) \<mapsto> ok_store k x)"
        using here(1) by (auto simp: fetch_iff)
      then show ?thesis
        using run g Inr here False silent [OF False]
        by (auto simp: write_status_def recorded_def split: prod.splits)
    next
      case True
      obtain ans u where w: "api_update_status api (snd (apply_to x)) t = (ans, u)"
        by (cases "api_update_status api (snd (apply_to x)) t")
      show ?thesis
        using run g Inr here(1,2) True w written [OF w, of x] here(3) at rest [of x]
        by (cases ans) (auto simp: write_status_def recorded_def split: prod.splits)
    qed
  qed
qed

lemma write_retried:
  assumes rest: "\<And>x. rest_of (snd (apply_to x)) = rest_of x" and silent: "\<And>x. \<not> fst (apply_to x) \<Longrightarrow> snd (apply_to x) = x"
    and "retried (write_status api key apply_to) s r"
  shows "case r of (Inr _, s') \<Rightarrow> view s' = recorded k key apply_to (view s) | (Inl e, s') \<Rightarrow> view s' = view s"
  using assms(3)
proof induction
  case (last_try s r)
  then show ?case
    using write_once [OF rest silent, of key s "fst r" "snd r"] by (auto split: prod.splits sum.splits)
next
  case (conflict s e s' r)
  then show ?case
    using write_once [OF rest silent conflict(1)] by (auto split: prod.splits sum.splits)
qed

lemma write_recorded:
  assumes "\<And>x. rest_of (snd (apply_to x)) = rest_of x" "\<And>x. \<not> fst (apply_to x) \<Longrightarrow> snd (apply_to x) = x"
    and "retries_conflicts retry" and run: "(if skip then (Inr (), s) else retry (write_status api key apply_to) s) = (res, s')"
  shows "(res = Inr () \<longrightarrow> view s' = (if skip then view s else recorded k key apply_to (view s))) \<and> (res \<noteq> Inr () \<longrightarrow> view s' = view s)"
proof (cases skip)
  case False
  then have "retried (write_status api key apply_to) s (res, s')"
    using assms(3) run unfolding retries_conflicts_def by (metis (full_types))
  from write_retried [OF assms(1,2) this] show ?thesis
    using False by (cases res) simp_all
qed (use run in simp)

end


definition backup_rest :: "backup_job \<Rightarrow> object_meta \<times> backup_job_spec" where
  "backup_rest run = (j_meta run, j_spec run)"

definition restore_rest :: "restore_job \<Rightarrow> object_meta \<times> restore_job_spec" where
  "restore_rest run = (r_meta run, r_spec run)"

definition machine_rest :: "rsync_machine \<Rightarrow> object_meta \<times> machine_spec" where
  "machine_rest m = (m_meta m, m_spec m)"

lemma memory_written:
  assumes "status_store memory_view k (memory_api k)"
    and "api_update_status (memory_api k) obj s = (res, s')" "fetch k (memory_view s) (object_key k obj) = Some x"
  shows "case res of Inr _ \<Rightarrow> memory_view s' = (memory_view s)((ok_name k, object_key k obj) \<mapsto> ok_store k obj) | Inl e \<Rightarrow> memory_view s' = memory_view s"
proof -
  have update: "api_update (memory_api k) obj s = (res, s')"
    using assms(2) by (simp add: memory_api_def)
  have "kind_wf k"
    using assms(1) by (simp add: status_store_def object_store_def)
  then have "res = Inr obj"
    using assms(2,3) by (simp add: memory_api_def memory_update_def)
  then show ?thesis
    using object_store.update [OF status_store.axioms(1) [OF assms(1)] update] by simp
qed

interpretation backup_writer: status_writer memory_view backup_kind "memory_api backup_kind" backup_rest
proof (rule status_writer.intro [OF memory_backup_status.status_store_axioms], unfold_locales, goal_cases)
  case (1 obj s res s' x)
  then show ?case
    using memory_written [OF memory_backup_status.status_store_axioms] by blast
qed (simp add: backup_rest_def object_key_def backup_kind_def)

interpretation restore_writer: status_writer memory_view restore_kind "memory_api restore_kind" restore_rest
proof (rule status_writer.intro [OF memory_restore_status.status_store_axioms], unfold_locales, goal_cases)
  case (1 obj s res s' x)
  then show ?case
    using memory_written [OF memory_restore_status.status_store_axioms] by blast
qed (simp add: restore_rest_def object_key_def restore_kind_def)

interpretation machine_writer: status_writer memory_view machine_kind "memory_api machine_kind" machine_rest
proof (rule status_writer.intro [OF memory_machine_status], unfold_locales, goal_cases)
  case (1 obj s res s' x)
  then show ?case
    using memory_written [OF memory_machine_status] by blast
qed (simp add: machine_rest_def object_key_def machine_kind_def)

section \<open>The status follows the events\<close>

definition record_run :: "gotime \<times> control_event \<Rightarrow> cluster \<Rightarrow> cluster" where
  "record_run te c = (case te of (now, event) \<Rightarrow>
    if ce_kind event = EventKindTarget then
      (case ce_target event of None \<Rightarrow> c
       | Some e \<Rightarrow> if te_runKind e \<noteq> RunKindBackup then c
           else recorded backup_kind (te_runNamespace e, te_runName e) (\<lambda>run. ApplyTargetEventToBackupJob now run e) c)
    else if ce_kind event = EventKindTargetCommandAck then
      (case ce_commandAck event of None \<Rightarrow> c
       | Some e \<Rightarrow> if ca_runKind e \<noteq> RunKindBackup then c
           else recorded backup_kind (ca_runNamespace e, ca_runName e) (\<lambda>run. ApplyTargetCommandAckToBackupJob now run e) c)
    else if ce_kind event = EventKindSource then
      (case ce_source event of None \<Rightarrow> c
       | Some e \<Rightarrow>
         if \<not> shouldPersistSourceEvent e then c
         else if se_runKind e = RunKindBackup then
           recorded backup_kind (se_runNamespace e, se_runName e) (\<lambda>run. ApplySourceEventToBackupJob now run e) c
         else if se_runKind e = RunKindRestore then
           recorded restore_kind (se_runNamespace e, se_runName e) (\<lambda>run. ApplySourceEventToRestoreJob now run e) c
         else c)
    else c)"

definition record_machine :: "gotime \<times> control_event \<Rightarrow> cluster \<Rightarrow> cluster" where
  "record_machine te c = (case te of (now, event) \<Rightarrow>
    if ce_kind event = EventKindTarget then
      (case ce_target event of None \<Rightarrow> c
       | Some e \<Rightarrow> recorded machine_kind (te_targetNamespace e, te_targetName e) (\<lambda>m. ApplyTargetEventToRsyncMachine now m e) c)
    else c)"

definition record_event :: "gotime \<times> control_event \<Rightarrow> cluster \<Rightarrow> cluster" where
  "record_event te c = record_machine te (record_run te c)"

definition applier_api :: "('s \<Rightarrow> cluster) \<Rightarrow> 's kube_client \<Rightarrow> bool" where
  "applier_api view c \<longleftrightarrow> status_writer view backup_kind (kc_backups c) backup_rest
     \<and> status_writer view restore_kind (kc_restores c) restore_rest \<and> status_writer view machine_kind (kc_machines c) machine_rest"

lemma memory_applier: "applier_api memory_view memory_client"
  using backup_writer.status_writer_axioms restore_writer.status_writer_axioms machine_writer.status_writer_axioms
  by (simp add: applier_api_def memory_client_def)

lemma target_event_rest: "backup_rest (snd (ApplyTargetEventToBackupJob now run e)) = backup_rest run"
  by (simp add: ApplyTargetEventToBackupJob_def target_event_switch_def backup_rest_def Let_def)

lemma source_event_rest: "backup_rest (snd (ApplySourceEventToBackupJob now run e)) = backup_rest run"
proof -
  have "backup_rest (snd (setTransferConditions now e phase r)) = backup_rest (snd r)" for phase r
    by (cases phase) (simp_all add: setTransferConditions_def Let_def backup_rest_def)
  then show ?thesis
    by (simp add: ApplySourceEventToBackupJob_def backup_rest_def with_status_def split: prod.splits)
qed

lemma other_rest:
  "backup_rest (snd (ApplyTargetCommandAckToBackupJob now run ca)) = backup_rest run"
  "restore_rest (snd (ApplySourceEventToRestoreJob now restore se)) = restore_rest restore"
  "machine_rest (snd (ApplyTargetEventToRsyncMachine now m te)) = machine_rest m"
  by (auto simp: ApplyTargetCommandAckToBackupJob_def ApplySourceEventToRestoreJob_def ApplyTargetEventToRsyncMachine_def
      backup_rest_def restore_rest_def machine_rest_def Let_def split: option.splits prod.splits)

lemmas event_rest = target_event_rest source_event_rest other_rest

lemmas event_silent = target_events.unreported source_events.unreported command_acks.unreported restore_events.unreported
  machine_events.unreported

lemma apply_effect:
  assumes api: "applier_api view c" and retry: "retries_conflicts retry"
    and run: "apply_event retry c now event s = (res, s')"
  shows "(res = Inr () \<longrightarrow> view s' = record_event (now, event) (view s))
    \<and> (res \<noteq> Inr () \<longrightarrow> view s' = view s \<or> view s' = record_run (now, event) (view s))"
proof -
  have backups: "status_writer view backup_kind (kc_backups c) backup_rest"
    and restores: "status_writer view restore_kind (kc_restores c) restore_rest"
    and machines: "status_writer view machine_kind (kc_machines c) machine_rest"
    using api by (simp_all add: applier_api_def)
  have to_run: "(res = Inr () \<longrightarrow> view s' = (if te_runKind e \<noteq> RunKindBackup then view s
        else recorded backup_kind (te_runNamespace e, te_runName e) (\<lambda>run. ApplyTargetEventToBackupJob now run e) (view s)))
      \<and> (res \<noteq> Inr () \<longrightarrow> view s' = view s)"
    if "applyTargetEventToRun retry c now e s = (res, s')" for e s s' res
    by (rule status_writer.write_recorded [OF backups event_rest(1) event_silent(1) retry that [unfolded applyTargetEventToRun_def]])
  have ack: "(res = Inr () \<longrightarrow> view s' = (if ca_runKind e \<noteq> RunKindBackup then view s
        else recorded backup_kind (ca_runNamespace e, ca_runName e) (\<lambda>run. ApplyTargetCommandAckToBackupJob now run e) (view s)))
      \<and> (res \<noteq> Inr () \<longrightarrow> view s' = view s)"
    if "applyTargetCommandAckToRun retry c now e s = (res, s')" for e
    by (rule status_writer.write_recorded [OF backups event_rest(3) event_silent(3) retry that [unfolded applyTargetCommandAckToRun_def]])
  have source: "(res = Inr () \<longrightarrow> view s' = (if \<not> shouldPersistSourceEvent e then view s
        else recorded backup_kind (se_runNamespace e, se_runName e) (\<lambda>run. ApplySourceEventToBackupJob now run e) (view s)))
      \<and> (res \<noteq> Inr () \<longrightarrow> view s' = view s)"
    if "applySourceEventToBackupJob retry c now e s = (res, s')" for e
    by (rule status_writer.write_recorded [OF backups event_rest(2) event_silent(2) retry that [unfolded applySourceEventToBackupJob_def]])
  have restore: "(res = Inr () \<longrightarrow> view s' = (if \<not> shouldPersistSourceEvent e then view s
        else recorded restore_kind (se_runNamespace e, se_runName e) (\<lambda>run. ApplySourceEventToRestoreJob now run e) (view s)))
      \<and> (res \<noteq> Inr () \<longrightarrow> view s' = view s)"
    if "applySourceEventToRestoreJob retry c now e s = (res, s')" for e
    by (rule status_writer.write_recorded [OF restores event_rest(4) event_silent(4) retry that [unfolded applySourceEventToRestoreJob_def]])
  have to_target: "(res = Inr () \<longrightarrow> view s' = recorded machine_kind (te_targetNamespace e, te_targetName e)
        (\<lambda>m. ApplyTargetEventToRsyncMachine now m e) (view s))
      \<and> (res \<noteq> Inr () \<longrightarrow> view s' = view s)"
    if "applyTargetEventToTarget retry c now e s = (res, s')" for e s s' res
  proof -
    have "(if False then (Inr (), s) else retry (write_status (kc_machines c) (te_targetNamespace e, te_targetName e)
        (\<lambda>m. ApplyTargetEventToRsyncMachine now m e)) s) = (res, s')"
      using that by (simp add: applyTargetEventToTarget_def)
    from status_writer.write_recorded [OF machines event_rest(5) event_silent(5) retry this] show ?thesis
      by simp
  qed
  show ?thesis
  proof (cases "ce_kind event = EventKindTarget")
    case True
    show ?thesis
    proof (cases "ce_target event")
      case None
      then show ?thesis
        using run True by (simp add: apply_event_def record_event_def record_run_def record_machine_def)
    next
      case (Some e)
      obtain first t where f: "applyTargetEventToRun retry c now e s = (first, t)"
        by (cases "applyTargetEventToRun retry c now e s")
      note part = to_run [OF f]
      show ?thesis
      proof (cases first)
        case (Inl x)
        then have "res \<noteq> Inr ()" "view s' = view s"
          using run True Some f part by (auto simp: apply_event_def)
        then show ?thesis
          by simp
      next
        case (Inr u)
        then have here: "view t = record_run (now, event) (view s)" and rest: "applyTargetEventToTarget retry c now e t = (res, s')"
          using run True Some f part by (auto simp: apply_event_def record_run_def)
        show ?thesis
          using to_target [OF rest] here True Some by (simp add: record_event_def record_machine_def)
      qed
    qed
  next
    case False
    note kind = False
    show ?thesis
    proof (cases "ce_kind event = EventKindTargetCommandAck")
      case True
      then show ?thesis
        using run ack by (cases "ce_commandAck event") (simp_all add: apply_event_def record_event_def record_run_def record_machine_def)
    next
      case False
      show ?thesis
      proof (cases "ce_kind event = EventKindSource \<and> ce_source event \<noteq> None")
        case True
        then obtain e where e: "ce_source event = Some e" "ce_kind event = EventKindSource"
          by auto
        consider "se_runKind e = RunKindBackup" | "se_runKind e = RunKindRestore" | "se_runKind e \<notin> {RunKindBackup, RunKindRestore}"
          by auto
        then show ?thesis
          using run e source [of e] restore [of e]
          by cases (simp_all add: apply_event_def record_event_def record_run_def record_machine_def)
      next
        case outside: False
        then show ?thesis
          using run kind False
          by (cases "ce_source event") (auto simp: apply_event_def record_event_def record_run_def record_machine_def split: if_splits)
      qed
    qed
  qed
qed

text \<open>C29. The status of the cluster follows the events. When the applier ends without an error, every event it
  received has been applied to its run and, for a target, to its machine, in order and to nothing
  else, whatever conflicts the writes met. When it ends with an error, the events before the one
  that failed have been applied, of that one at most the part for the run, and no later one.\<close>

theorem applier_records_events:
  assumes "applier_api view c" and "retries_conflicts retry" and "ea_client a = Some c" and "ea_hasHub a"
    and "applier_Start retry a (Inr events) s = (res, s')"
  shows "(res = Inr () \<longrightarrow> view s' = fold record_event events (view s))
    \<and> (res \<noteq> Inr () \<longrightarrow> (\<exists>n < length events. \<exists>cl. cl = fold record_event (take n events) (view s)
         \<and> (view s' = cl \<or> view s' = record_run (events ! n) cl)))"
proof -
  have "each_call (\<lambda>(now, event). apply_event retry c now event) events s = (res, s')"
    using assms(3-5) by (simp add: applier_Start_def)
  then show ?thesis
  proof (induction events arbitrary: s)
    case (Cons te events)
    obtain now event where te: "te = (now, event)"
      by (cases te)
    obtain first t where f: "apply_event retry c now event s = (first, t)"
      by (cases "apply_event retry c now event s")
    note one = apply_effect [OF assms(1,2) f]
    show ?case
    proof (cases first)
      case (Inl e)
      then have "res \<noteq> Inr ()" "view s' = view s \<or> view s' = record_run te (view s)"
        using Cons.prems te f one by auto
      then show ?thesis
        by (auto intro!: exI [of _ 0])
    next
      case (Inr u)
      then have step: "view t = record_event te (view s)" and rest: "each_call (\<lambda>(now, event). apply_event retry c now event) events t = (res, s')"
        using Cons.prems te f one by auto
      show ?thesis
      proof (intro conjI impI)
        assume "res = Inr ()"
        then show "view s' = fold record_event (te # events) (view s)"
          using Cons.IH [OF rest] step by simp
      next
        assume "res \<noteq> Inr ()"
        then obtain n cl where "n < length events" "cl = fold record_event (take n events) (view t)" "view s' = cl \<or> view s' = record_run (events ! n) cl"
          using Cons.IH [OF rest] by blast
        then show "\<exists>n < length (te # events). \<exists>cl. cl = fold record_event (take n (te # events)) (view s)
            \<and> (view s' = cl \<or> view s' = record_run ((te # events) ! n) cl)"
          using step by (intro exI [of _ "Suc n"]) auto
      qed
    qed
  qed simp
qed


text \<open>A target reports that it is ready: its run is running afterwards.\<close>

definition ready_event :: control_event where
  "ready_event = target_control_event ((demo_event ''nightly'' ''Ready'')\<lparr>te_runNamespace := ''ops'', te_targetNamespace := ''ops'', te_targetName := ''vault''\<rparr>)"

theorem applier_records_events_witness:
  "\<exists>s'. applier_Start (\<lambda>f. f) \<lparr>ea_client = Some memory_client, ea_hasHub = True\<rparr> (Inr [(0, ready_event)]) [BackupObject demo_backup] = (Inr (), s')
     \<and> (\<exists>run. fetch backup_kind (memory_view s') (''ops'', ''nightly'') = Some run \<and> phase_of run = RunRunning)"
proof -
  let ?a = "\<lparr>ea_client = Some memory_client, ea_hasHub = True\<rparr> :: memory control_event_applier" and ?s = "[BackupObject demo_backup]"
  obtain res s' where run: "applier_Start (\<lambda>f. f) ?a (Inr [(0, ready_event)]) ?s = (res, s')"
    by (cases "applier_Start (\<lambda>f. f) ?a (Inr [(0, ready_event)]) ?s")
  have "fst (applier_Start (\<lambda>f. f) ?a (Inr [(0, ready_event)]) ?s) = Inr ()"
    by code_simp
  then have "res = Inr ()"
    using run by simp
  have "retries_conflicts (\<lambda>f. f)"
    by (simp add: retries_conflicts_def last_try)
  from applier_records_events [OF memory_applier this _ _ run] have "memory_view s' = record_event (0, ready_event) (memory_view ?s)"
    using \<open>res = Inr ()\<close> by simp
  moreover have "map_option phase_of (fetch backup_kind (record_event (0, ready_event) (memory_view ?s)) (''ops'', ''nightly'')) = Some RunRunning"
    by code_simp
  ultimately show ?thesis
    using run \<open>res = Inr ()\<close> by auto
qed

end
