(* ===== verification/Command_Flags.thy ===== *)
theory Command_Flags
  imports Credentials Receiver
begin

text \<open>
  The flags of the data plane commands (cli/cli.go), with the part of package flag
  that the program uses. The theorems: the arguments that the controller gives to its
  jobs (controller/builders.go) are read back by the commands as they were meant.
\<close>

section \<open>Package flag\<close>

datatype flag_kind = StringFlag | BoolFlag | IntFlag

type_synonym flag_set = "(string \<times> flag_kind) list"

text \<open>\<open>strconv.ParseBool\<close>\<close>

definition ParseBool :: "string \<Rightarrow> bool option" where
  "ParseBool s = (if s \<in> {''1'', ''t'', ''T'', ''TRUE'', ''true'', ''True''} then Some True
     else if s \<in> {''0'', ''f'', ''F'', ''FALSE'', ''false'', ''False''} then Some False else None)"

text \<open>\<open>strconv.ParseInt(s, 0, 64)\<close>: the prefix gives the base, underscores may separate digits.\<close>

definition digit_in :: "nat \<Rightarrow> char \<Rightarrow> nat option" where
  "digit_in base c =
    (let d = (if is_digit c then digit_val c
              else if is_lower (lower_char c) then of_char (lower_char c) - of_char CHR ''a'' + 10 else 99)
     in if d < base then Some d else None)"

fun nat_in :: "nat \<Rightarrow> nat \<Rightarrow> string \<Rightarrow> nat option" where
  "nat_in base acc [] = Some acc"
| "nat_in base acc (c # s) = (case digit_in base c of None \<Rightarrow> None | Some d \<Rightarrow> nat_in base (acc * base + d) s)"

definition separated :: "bool \<Rightarrow> string \<Rightarrow> bool" where
  "separated hasPrefix s = (case split_on CHR ''_'' s of [] \<Rightarrow> True
     | p # ps \<Rightarrow> (p \<noteq> [] \<or> hasPrefix \<and> ps \<noteq> []) \<and> list_all (\<lambda>q. q \<noteq> []) ps)"

definition parse_magnitude :: "string \<Rightarrow> nat option" where
  "parse_magnitude s =
    (let read = (\<lambda>base hasPrefix digits. if separated hasPrefix digits \<and> filter (\<lambda>c. c \<noteq> CHR ''_'') digits \<noteq> []
           then nat_in base 0 (filter (\<lambda>c. c \<noteq> CHR ''_'') digits) else None);
         p = to_lower (take 2 s) in
     if length s > 2 \<and> p = ''0x'' then read 16 True (drop 2 s)
     else if length s > 2 \<and> p = ''0b'' then read 2 True (drop 2 s)
     else if length s > 2 \<and> p = ''0o'' then read 8 True (drop 2 s)
     else if take 1 s = ''0'' \<and> length s > 1 then read 8 True (drop 1 s)
     else read 10 False s)"

definition ParseInt0 :: "string \<Rightarrow> int option" where
  "ParseInt0 s =
    (let negative = (take 1 s = ''-''); digits = (if negative \<or> take 1 s = ''+'' then drop 1 s else s) in
     case parse_magnitude digits of None \<Rightarrow> None
     | Some n \<Rightarrow> let i = (if negative then - int n else int n) in
         if - (2 ^ 63) \<le> i \<and> i < 2 ^ 63 then Some i else None)"

text \<open>\<open>flag.Value.Set\<close>; what is kept is the text of the value.\<close>

definition flag_accepts :: "flag_kind \<Rightarrow> string \<Rightarrow> bool" where
  "flag_accepts k v = (case k of StringFlag \<Rightarrow> True | BoolFlag \<Rightarrow> ParseBool v \<noteq> None | IntFlag \<Rightarrow> ParseInt0 v \<noteq> None)"

definition ErrHelp :: goerr where
  "ErrHelp = errorf ''flag: help requested'' []"

text \<open>One flag: its name and the value after an equals sign, which is not the first character.\<close>

definition flag_name :: "string \<Rightarrow> string \<times> string option" where
  "flag_name s = (case s of [] \<Rightarrow> ([], None)
     | c # r \<Rightarrow> (case cut_char CHR ''='' r of None \<Rightarrow> (s, None) | Some (a, b) \<Rightarrow> (c # a, Some b)))"

text \<open>\<open>FlagSet.Parse\<close>: the assignments in their order, and an error; what follows the first argument that is no flag is left.\<close>

fun parse_flags :: "flag_set \<Rightarrow> string list \<Rightarrow> (string \<times> string) list result" where
  "parse_flags fs [] = Inr []"
| "parse_flags fs (s # args) =
    (if length s < 2 \<or> take 1 s \<noteq> ''-'' then Inr []
     else if s = ''--'' then Inr []
     else let name = (if take 2 s = ''--'' then drop 2 s else drop 1 s) in
       if take 1 name \<in> {[], ''-'', ''=''} then Inl (errorf ''bad flag syntax: %s'' [s])
       else (case flag_name name of (name, given) \<Rightarrow>
         (case map_of fs name of
            None \<Rightarrow> Inl (if name = ''help'' \<or> name = ''h'' then ErrHelp else errorf ''flag provided but not defined: -%s'' [name])
          | Some BoolFlag \<Rightarrow>
              (let value = (case given of None \<Rightarrow> ''true'' | Some v \<Rightarrow> v) in
               if flag_accepts BoolFlag value then map_sum id ((#) (name, value)) (parse_flags fs args)
               else Inl (errorf ''invalid boolean value %q for -%s: parse error'' [value, name]))
          | Some k \<Rightarrow>
              (case given of
                 Some value \<Rightarrow>
                   if flag_accepts k value then map_sum id ((#) (name, value)) (parse_flags fs args)
                   else Inl (errorf ''invalid value %q for flag -%s: parse error'' [value, name])
               | None \<Rightarrow>
                   (case args of
                      [] \<Rightarrow> Inl (errorf ''flag needs an argument: -%s'' [name])
                    | value # args \<Rightarrow>
                        if flag_accepts k value then map_sum id ((#) (name, value)) (parse_flags fs args)
                        else Inl (errorf ''invalid value %q for flag -%s: parse error'' [value, name]))))))"

text \<open>The value of a flag after parsing: the last assignment, or the default; a \<open>multiFlag\<close> has them all.\<close>

definition flag_values :: "string \<Rightarrow> (string \<times> string) list \<Rightarrow> string list" where
  "flag_values name vs = map snd (filter (\<lambda>v. fst v = name) vs)"

definition flag_string :: "string \<Rightarrow> string \<Rightarrow> (string \<times> string) list \<Rightarrow> string" where
  "flag_string name dflt vs = (case flag_values name vs of [] \<Rightarrow> dflt | v # r \<Rightarrow> last (v # r))"

definition flag_bool :: "string \<Rightarrow> (string \<times> string) list \<Rightarrow> bool" where
  "flag_bool name vs = (ParseBool (flag_string name ''false'' vs) = Some True)"

definition flag_int :: "string \<Rightarrow> int \<Rightarrow> (string \<times> string) list \<Rightarrow> int" where
  "flag_int name dflt vs = (case flag_values name vs of [] \<Rightarrow> dflt | v # r \<Rightarrow> the (ParseInt0 (last (v # r))))"

section \<open>serve-target\<close>

abbreviation manager_DefaultNamespace :: string where "manager_DefaultNamespace \<equiv> ''kube-rsync-machine-operator''"

record serve_options =
  so_target :: string
  so_runID :: string
  so_tlsDir :: string
  so_controlEndpoint :: string
  so_controlNamespace :: string
  so_runNamespace :: string
  so_runName :: string
  so_targetNamespace :: string
  so_targetName :: string
  so_listen :: string
  so_timestamp :: string
  so_strategy :: string
  so_restoreSnapshot :: string
  so_restoreSource :: string
  so_restoreWriter :: string
  so_retention :: retention_policy
  so_sources :: "string list"

definition serve_flags :: flag_set where
  "serve_flags = map (\<lambda>n. (n, StringFlag)) [''target'', ''run-id'', ''tls-dir'', ''control-grpc-endpoint'', ''control-grpc-namespace'',
       ''run-namespace'', ''run-name'', ''target-namespace'', ''target-name'', ''listen'', ''timestamp'', ''strategy'',
       ''restore-snapshot'', ''restore-source'', ''restore-writer'']
     @ map (\<lambda>n. (n, IntFlag)) [''retention-hourly'', ''retention-daily'', ''retention-weekly'', ''retention-monthly'']
     @ [(''source'', StringFlag)]"

definition serve_options_of :: "gotime \<Rightarrow> (string \<times> string) list \<Rightarrow> serve_options" where
  "serve_options_of now vs = (let s = (\<lambda>name dflt. flag_string name dflt vs) in
    \<lparr>so_target = s ''target'' [], so_runID = s ''run-id'' [], so_tlsDir = s ''tls-dir'' [],
     so_controlEndpoint = s ''control-grpc-endpoint'' [], so_controlNamespace = s ''control-grpc-namespace'' manager_DefaultNamespace,
     so_runNamespace = s ''run-namespace'' [], so_runName = s ''run-name'' [],
     so_targetNamespace = s ''target-namespace'' [], so_targetName = s ''target-name'' [],
     so_listen = s ''listen'' '':873'', so_timestamp = s ''timestamp'' (format_timestamp now), so_strategy = s ''strategy'' ''snapshot'',
     so_restoreSnapshot = s ''restore-snapshot'' [], so_restoreSource = s ''restore-source'' [], so_restoreWriter = s ''restore-writer'' [],
     so_retention = \<lparr>ret_hourly = flag_int ''retention-hourly'' 24 vs, ret_daily = flag_int ''retention-daily'' 7 vs,
       ret_weekly = flag_int ''retention-weekly'' 8 vs, ret_monthly = flag_int ''retention-monthly'' 12 vs\<rparr>,
     so_sources = flag_values ''source'' vs\<rparr>)"

definition parse_serve :: "gotime \<Rightarrow> string list \<Rightarrow> serve_options result" where
  "parse_serve now args = map_sum id (serve_options_of now) (parse_flags serve_flags args)"

section \<open>send-source and restore\<close>

record send_options =
  sn_source :: string
  sn_target :: string
  sn_targetEndpoint :: string
  sn_tlsDir :: string
  sn_controlEndpoint :: string
  sn_controlNamespace :: string
  sn_runNamespace :: string
  sn_runName :: string
  sn_sourceNamespace :: string
  sn_sourceName :: string
  sn_targetNamespace :: string
  sn_targetName :: string
  sn_delete :: bool
  sn_oneFileSystem :: bool
  sn_dryRun :: bool

definition common_flags :: "string list" where
  "common_flags = [''target-endpoint'', ''tls-dir'', ''control-grpc-endpoint'', ''control-grpc-namespace'', ''run-namespace'', ''run-name'',
     ''source-namespace'', ''source-name'', ''target-namespace'', ''target-name'']"

definition rsync_flags :: flag_set where
  "rsync_flags = [(''delete'', BoolFlag), (''one-file-system'', BoolFlag), (''dry-run'', BoolFlag)]"

definition send_flags :: flag_set where
  "send_flags = map (\<lambda>n. (n, StringFlag)) ([''source'', ''target''] @ common_flags) @ rsync_flags"

definition send_options_of :: "(string \<times> string) list \<Rightarrow> send_options" where
  "send_options_of vs = (let s = (\<lambda>name. flag_string name [] vs) in
    \<lparr>sn_source = s ''source'', sn_target = s ''target'', sn_targetEndpoint = s ''target-endpoint'', sn_tlsDir = s ''tls-dir'',
     sn_controlEndpoint = s ''control-grpc-endpoint'',
     sn_controlNamespace = flag_string ''control-grpc-namespace'' manager_DefaultNamespace vs,
     sn_runNamespace = s ''run-namespace'', sn_runName = s ''run-name'', sn_sourceNamespace = s ''source-namespace'',
     sn_sourceName = s ''source-name'', sn_targetNamespace = s ''target-namespace'', sn_targetName = s ''target-name'',
     sn_delete = flag_bool ''delete'' vs, sn_oneFileSystem = flag_bool ''one-file-system'' vs, sn_dryRun = flag_bool ''dry-run'' vs\<rparr>)"

definition parse_send :: "string list \<Rightarrow> send_options result" where
  "parse_send args = map_sum id send_options_of (parse_flags send_flags args)"

record writer_options =
  wo_snapshot :: string
  wo_destination :: string
  wo_snapshotSource :: string
  wo_common :: send_options

definition writer_flags :: flag_set where
  "writer_flags = map (\<lambda>n. (n, StringFlag)) ([''snapshot'', ''destination'', ''snapshot-source''] @ common_flags) @ rsync_flags"

definition writer_options_of :: "(string \<times> string) list \<Rightarrow> writer_options" where
  "writer_options_of vs = \<lparr>wo_snapshot = flag_string ''snapshot'' [] vs, wo_destination = flag_string ''destination'' [] vs,
     wo_snapshotSource = flag_string ''snapshot-source'' [] vs, wo_common = send_options_of vs\<rparr>"

definition parse_writer :: "string list \<Rightarrow> writer_options result" where
  "parse_writer args = map_sum id writer_options_of (parse_flags writer_flags args)"

section \<open>The arguments of the controller are read back\<close>

definition long_flags :: "(string \<times> string) list \<Rightarrow> string list" where
  "long_flags pairs = concat (map (\<lambda>(name, value). [''--'' @ name, value]) pairs)"

lemma long_flags_simps [simp]:
  "long_flags [] = []" "long_flags ((n, v) # ps) = (''--'' @ n) # v # long_flags ps" "long_flags (ps @ qs) = long_flags ps @ long_flags qs"
  by (simp_all add: long_flags_def)

definition plain_name :: "string \<Rightarrow> bool" where
  "plain_name n \<longleftrightarrow> take 1 n \<notin> {[], ''-'', ''=''} \<and> CHR ''='' \<notin> set n"

lemma flag_name_plain: "CHR ''='' \<notin> set n \<Longrightarrow> flag_name n = (n, None)"
  by (cases n) (auto simp: flag_name_def cut_char_None [THEN iffD2])

lemma parse_value:
  assumes "plain_name n" "map_of fs n = Some k" "k \<noteq> BoolFlag" "flag_accepts k v"
  shows "parse_flags fs ((''--'' @ n) # v # args) = map_sum id ((#) (n, v)) (parse_flags fs args)"
proof -
  have "n \<noteq> []" "take 1 n \<notin> {[], ''-'', ''=''}" "flag_name n = (n, None)"
    using assms(1) flag_name_plain by (auto simp: plain_name_def)
  then show ?thesis
    using assms(2-4) by (cases k) (auto simp: Let_def)
qed

lemma parse_bool:
  assumes "plain_name n" "map_of fs n = Some BoolFlag"
  shows "parse_flags fs ((''--'' @ n) # args) = map_sum id ((#) (n, ''true'')) (parse_flags fs args)"
proof -
  have "n \<noteq> []" "take 1 n \<notin> {[], ''-'', ''=''}" "flag_name n = (n, None)"
    using assms(1) flag_name_plain by (auto simp: plain_name_def)
  then show ?thesis
    using assms(2) by (auto simp: Let_def flag_accepts_def ParseBool_def)
qed

lemma parse_values:
  assumes "\<forall>(n, v)\<in>set pairs. plain_name n \<and> (\<exists>k. map_of fs n = Some k \<and> k \<noteq> BoolFlag \<and> flag_accepts k v)"
  shows "parse_flags fs (long_flags pairs @ args) = map_sum id ((@) pairs) (parse_flags fs args)"
  using assms
proof (induction pairs)
  case Nil
  then show ?case
    by (cases "parse_flags fs args") simp_all
next
  case (Cons p pairs)
  obtain n v k where p: "p = (n, v)" "plain_name n" "map_of fs n = Some k" "k \<noteq> BoolFlag" "flag_accepts k v"
    using Cons.prems by (cases p) auto
  show ?case
    using Cons parse_value [OF p(2-5), of "long_flags pairs @ args"] p(1)
    by (cases "parse_flags fs args") (simp_all del: parse_flags.simps)
qed

lemma nat_in_digits: "nat_in 10 acc s = nat_of_dec_acc acc s" if "\<forall>c\<in>set s. is_digit c"
  using that
proof (induction s arbitrary: acc)
  case (Cons c s)
  have "digit_val c < 10"
    using Cons.prems by (auto simp: is_digit_def digit_val_def less_eq_char_def)
  then show ?case
    using Cons by (simp add: digit_in_def Let_def mult.commute)
qed simp

lemma dec_first: "0 < n \<Longrightarrow> hd (dec_of_nat n) \<noteq> CHR ''0''"
proof (induction n rule: dec_of_nat.induct)
  case (1 n)
  show ?case
  proof (cases "n < 10")
    case True
    then have "of_char (digit_char n) = 48 + n"
      by (simp add: digit_char_def)
    then have "digit_char n \<noteq> CHR ''0''"
      using 1(2) by auto
    then show ?thesis
      using True by (subst dec_of_nat.simps) simp
  next
    case False
    then show ?thesis
      using 1(1) by (subst dec_of_nat.simps) (simp add: hd_append)
  qed
qed

lemma ParseInt0_dec:
  assumes "0 < i" "i < 2 ^ 63"
  shows "ParseInt0 (dec_of_int i) = Some i"
proof -
  define n where "n = nat i"
  have n: "dec_of_int i = dec_of_nat n" "0 < n" "int n = i"
    using assms by (simp_all add: n_def dec_of_int_def)
  obtain c s where cs: "dec_of_nat n = c # s"
    by (cases "dec_of_nat n") auto
  have digits: "\<forall>x\<in>set (c # s). is_digit x"
    using dec_of_nat_digits [of _ n] by (simp add: cs)
  then have c: "c \<noteq> CHR ''-''" "c \<noteq> CHR ''+''" "c \<noteq> CHR ''0''" "CHR ''_'' \<notin> set (c # s)"
    using dec_first [OF n(2)] by (auto simp: cs is_digit_def less_eq_char_def)
  then have "lower_char c \<noteq> CHR ''0''"
    using digits by (auto simp: is_digit_def lower_char_def less_eq_char_def)
  then have "to_lower (take 2 (c # s)) \<notin> {''0x'', ''0b'', ''0o''}"
    by (auto simp: to_lower_def)
  moreover have "separated False (c # s)"
    using split_on_idle [OF c(4)] by (simp add: separated_def)
  moreover have keep: "filter (\<lambda>x. x \<noteq> CHR ''_'') (c # s) = c # s"
    using c(4) by (auto simp: filter_id_conv)
  ultimately have "parse_magnitude (c # s) = nat_in 10 0 (c # s)"
    using c(3) unfolding parse_magnitude_def Let_def keep by auto
  also have "... = Some n"
    using nat_in_digits [OF digits] nat_of_dec_acc_dec_of_nat [of n] cs by simp
  finally show ?thesis
    using c n assms unfolding ParseInt0_def Let_def n(1) cs by auto
qed

lemma flag_values_simps [simp]:
  "flag_values n [] = []" "flag_values n ((m, v) # vs) = (if m = n then v # flag_values n vs else flag_values n vs)"
  "flag_values n (vs @ ws) = flag_values n vs @ flag_values n ws"
  "flag_values n (map (\<lambda>x. (m, f x)) xs) = (if m = n then map f xs else [])"
  by (auto simp: flag_values_def filter_map o_def)

text \<open>The assignments that the target's arguments make, in order.\<close>

definition retention_pairs :: "retention_policy \<Rightarrow> (string \<times> string) list" where
  "retention_pairs r = (if ret_hourly r > 0 then [(''retention-hourly'', dec_of_int (ret_hourly r))] else [])
     @ (if ret_daily r > 0 then [(''retention-daily'', dec_of_int (ret_daily r))] else [])
     @ (if ret_weekly r > 0 then [(''retention-weekly'', dec_of_int (ret_weekly r))] else [])
     @ (if ret_monthly r > 0 then [(''retention-monthly'', dec_of_int (ret_monthly r))] else [])"

definition serve_pairs :: "backup_job \<Rightarrow> rsync_machine \<Rightarrow> target_run_set \<Rightarrow> string \<Rightarrow> control_options \<Rightarrow> (string \<times> string) list" where
  "serve_pairs run target runSet timestamp co =
    [(''target'', DefaultMountPath), (''run-id'', RunID run), (''tls-dir'', TLSMountPath),
     (''run-namespace'', om_namespace (j_meta run)), (''run-name'', om_name (j_meta run)),
     (''target-namespace'', om_namespace (m_meta target)), (''target-name'', om_name (m_meta target)),
     (''control-grpc-endpoint'', dco_grpcEndpoint (withDefaults co)), (''control-grpc-namespace'', dco_grpcNamespace (withDefaults co))]
    @ (if timestamp \<noteq> [] \<and> \<not> is_mirror_target target then [(''timestamp'', timestamp)] else [])
    @ (if is_mirror_target target then [(''strategy'', ''mirror'')] else retention_pairs (trs_retention runSet))
    @ map (\<lambda>source. (''source'', source_arg target source)) (trs_sources runSet)"

definition small_retention :: "retention_policy \<Rightarrow> bool" where
  "small_retention r \<longleftrightarrow> ret_hourly r < 2 ^ 63 \<and> ret_daily r < 2 ^ 63 \<and> ret_weekly r < 2 ^ 63 \<and> ret_monthly r < 2 ^ 63"

lemma serve_args_long: "serve_target_args run target runSet timestamp co = ''serve-target'' # long_flags (serve_pairs run target runSet timestamp co)"
proof -
  have "concat (map (\<lambda>x. [''--source'', f x]) xs) = long_flags (map (\<lambda>x. (''source'', f x)) xs)" for f and xs :: "resolved_source list"
    by (induction xs) simp_all
  then show ?thesis
    by (simp add: serve_target_args_def serve_pairs_def retention_pairs_def appendControlGRPCArgs_def appendRetentionArgs_def Let_def)
qed

lemma serve_flag_kinds:
  "map_of serve_flags n = (if n \<in> {''target'', ''run-id'', ''tls-dir'', ''control-grpc-endpoint'', ''control-grpc-namespace'',
       ''run-namespace'', ''run-name'', ''target-namespace'', ''target-name'', ''listen'', ''timestamp'', ''strategy'',
       ''restore-snapshot'', ''restore-source'', ''restore-writer'', ''source''} then Some StringFlag
     else if n \<in> {''retention-hourly'', ''retention-daily'', ''retention-weekly'', ''retention-monthly''} then Some IntFlag else None)"
  by (simp add: serve_flags_def)


section \<open>The arguments of the senders are read back\<close>

definition demo_retention_run :: target_run_set where
  "demo_retention_run = demo_run_set\<lparr>trs_retention := \<lparr>ret_hourly = 0, ret_daily = 30, ret_weekly = 0, ret_monthly = 6\<rparr>\<rparr>"


definition rsync_switches :: "rsync_options \<Rightarrow> string list" where
  "rsync_switches o' = appendRsyncArgs [] o'"

lemma parse_switches:
  assumes "map_of fs ''delete'' = Some BoolFlag" "map_of fs ''one-file-system'' = Some BoolFlag"
  shows "parse_flags fs (rsync_switches o') = Inr ((if DeleteOrDefault o' then [(''delete'', ''true'')] else [])
    @ (if OneFileSystemOrDefault o' then [(''one-file-system'', ''true'')] else []))"
proof -
  have names: "plain_name ''delete''" "plain_name ''one-file-system''"
    by (simp_all add: plain_name_def)
  have "parse_flags fs ((''--'' @ ''delete'') # args) = map_sum id ((#) (''delete'', ''true'')) (parse_flags fs args)"
    "parse_flags fs ((''--'' @ ''one-file-system'') # args) = map_sum id ((#) (''one-file-system'', ''true'')) (parse_flags fs args)" for args
    by (rule parse_bool [OF names(1) assms(1)], rule parse_bool [OF names(2) assms(2)])
  then show ?thesis
    by (simp add: rsync_switches_def appendRsyncArgs_def del: parse_flags.simps) simp
qed

lemma common_kinds:
  "map_of send_flags n = (if n \<in> set ([''source'', ''target''] @ common_flags) then Some StringFlag
     else if n \<in> {''delete'', ''one-file-system'', ''dry-run''} then Some BoolFlag else None)"
  "map_of writer_flags n = (if n \<in> set ([''snapshot'', ''destination'', ''snapshot-source''] @ common_flags) then Some StringFlag
     else if n \<in> {''delete'', ''one-file-system'', ''dry-run''} then Some BoolFlag else None)"
  by (simp_all add: send_flags_def writer_flags_def common_flags_def rsync_flags_def)

definition send_pairs :: "backup_job \<Rightarrow> backup_source \<Rightarrow> rsync_machine \<Rightarrow> string \<Rightarrow> control_options \<Rightarrow> (string \<times> string) list" where
  "send_pairs run source target targetPath co =
    [(''source'', path_join [''/source'', trim_prefix (SourcePathOrDefault (s_spec source)) ''/'']), (''target'', targetPath),
     (''target-endpoint'', TargetServiceEndpoint run target), (''tls-dir'', TLSMountPath),
     (''run-namespace'', om_namespace (j_meta run)), (''run-name'', om_name (j_meta run)),
     (''source-namespace'', om_namespace (s_meta source)), (''source-name'', om_name (s_meta source)),
     (''target-namespace'', om_namespace (m_meta target)), (''target-name'', om_name (m_meta target)),
     (''control-grpc-endpoint'', dco_grpcEndpoint (withDefaults co)), (''control-grpc-namespace'', dco_grpcNamespace (withDefaults co))]"

lemma send_args_long:
  "send_source_args run source target targetPath co
    = ''send-source'' # long_flags (send_pairs run source target targetPath co) @ rsync_switches (ss_rsync (s_spec source))"
  by (simp add: send_source_args_def send_pairs_def appendControlGRPCArgs_def rsync_switches_def appendRsyncArgs_def Let_def)

lemma parse_command:
  assumes "\<forall>(n, v)\<in>set pairs. plain_name n \<and> map_of fs n = Some StringFlag"
    and "map_of fs ''delete'' = Some BoolFlag" "map_of fs ''one-file-system'' = Some BoolFlag"
  shows "parse_flags fs (long_flags pairs @ rsync_switches o') = Inr (pairs @ (if DeleteOrDefault o' then [(''delete'', ''true'')] else [])
    @ (if OneFileSystemOrDefault o' then [(''one-file-system'', ''true'')] else []))"
proof -
  have ok: "\<forall>(n, v)\<in>set pairs. plain_name n \<and> (\<exists>k. map_of fs n = Some k \<and> k \<noteq> BoolFlag \<and> flag_accepts k v)"
    using assms(1) by (fastforce simp: flag_accepts_def)
  show ?thesis
    unfolding parse_values [OF ok] parse_switches [OF assms(2,3)] by simp
qed

text \<open>A sender reads what the controller wrote: its options are the run, the source, the machine, the
  path below the target and the endpoint that the controller named, and rsync deletes and crosses file
  systems as the source says.\<close>

theorem send_source_args_round_trip:
  "parse_send (tl (send_source_args run source target targetPath co)) = Inr
    \<lparr>sn_source = path_join [''/source'', trim_prefix (SourcePathOrDefault (s_spec source)) ''/''], sn_target = targetPath,
     sn_targetEndpoint = TargetServiceEndpoint run target, sn_tlsDir = TLSMountPath,
     sn_controlEndpoint = dco_grpcEndpoint (withDefaults co), sn_controlNamespace = dco_grpcNamespace (withDefaults co),
     sn_runNamespace = om_namespace (j_meta run), sn_runName = om_name (j_meta run),
     sn_sourceNamespace = om_namespace (s_meta source), sn_sourceName = om_name (s_meta source),
     sn_targetNamespace = om_namespace (m_meta target), sn_targetName = om_name (m_meta target),
     sn_delete = DeleteOrDefault (ss_rsync (s_spec source)), sn_oneFileSystem = OneFileSystemOrDefault (ss_rsync (s_spec source)),
     sn_dryRun = False\<rparr>"
proof -
  have "parse_flags send_flags (long_flags (send_pairs run source target targetPath co) @ rsync_switches (ss_rsync (s_spec source)))
    = Inr (send_pairs run source target targetPath co @ (if DeleteOrDefault (ss_rsync (s_spec source)) then [(''delete'', ''true'')] else [])
      @ (if OneFileSystemOrDefault (ss_rsync (s_spec source)) then [(''one-file-system'', ''true'')] else []))"
    by (rule parse_command) (auto simp: send_pairs_def common_kinds common_flags_def plain_name_def)
  then show ?thesis
    unfolding parse_send_def send_args_long
    by (simp add: send_options_of_def flag_string_def flag_bool_def send_pairs_def ParseBool_def Let_def)
qed

definition writer_pairs :: "restore_job \<Rightarrow> backup_source \<Rightarrow> rsync_machine \<Rightarrow> string \<Rightarrow> control_options \<Rightarrow> (string \<times> string) list" where
  "writer_pairs restore source target effectivePath co =
    [(''snapshot'', restore_snapshot restore target), (''snapshot-source'', restore_source target effectivePath),
     (''target-endpoint'', RestoreTargetServiceEndpoint restore target),
     (''destination'', path_join [''/restore'', trim_prefix (if rd_path (rs_destination (r_spec restore)) = []
        then SourcePathOrDefault (s_spec source) else rd_path (rs_destination (r_spec restore))) ''/'']), (''tls-dir'', TLSMountPath),
     (''run-namespace'', om_namespace (r_meta restore)), (''run-name'', om_name (r_meta restore)),
     (''source-namespace'', om_namespace (s_meta source)), (''source-name'', om_name (s_meta source)),
     (''target-namespace'', om_namespace (m_meta target)), (''target-name'', om_name (m_meta target)),
     (''control-grpc-endpoint'', dco_grpcEndpoint (withDefaults co)), (''control-grpc-namespace'', dco_grpcNamespace (withDefaults co))]"

definition restore_rsync :: "restore_job \<Rightarrow> backup_source \<Rightarrow> rsync_options" where
  "restore_rsync restore source = (if HasOverrides (rs_rsync (r_spec restore)) then rs_rsync (r_spec restore) else ss_rsync (s_spec source))"

lemma writer_args_long:
  "restore_writer_args restore source target effectivePath co
    = ''restore'' # long_flags (writer_pairs restore source target effectivePath co) @ rsync_switches (restore_rsync restore source)"
  by (simp add: restore_writer_args_def writer_pairs_def appendControlGRPCArgs_def rsync_switches_def appendRsyncArgs_def restore_rsync_def Let_def)

text \<open>The two sides of a restore read what the controller wrote, and agree: the target serves the snapshot and
  the source that the writer asks for, to the identity in the certificate of the writer.\<close>

theorem restore_args_round_trip:
  "\<exists>so wo. parse_serve now (tl (restore_target_args restore source target effectivePath co)) = Inr so
    \<and> parse_writer (tl (restore_writer_args restore source target effectivePath co)) = Inr wo
    \<and> so_restoreSnapshot so = restore_snapshot restore target \<and> wo_snapshot wo = so_restoreSnapshot so
    \<and> so_restoreSource so = restore_source target effectivePath \<and> wo_snapshotSource wo = so_restoreSource so
    \<and> so_restoreWriter so = sn_sourceNamespace (wo_common wo) @ ''/'' @ sn_sourceName (wo_common wo)
    \<and> so_runNamespace so = sn_runNamespace (wo_common wo) \<and> so_runName so = sn_runName (wo_common wo)
    \<and> so_targetNamespace so = sn_targetNamespace (wo_common wo) \<and> so_targetName so = sn_targetName (wo_common wo)
    \<and> so_target so = DefaultMountPath \<and> so_tlsDir so = TLSMountPath \<and> sn_tlsDir (wo_common wo) = TLSMountPath
    \<and> so_controlEndpoint so = sn_controlEndpoint (wo_common wo)
    \<and> sn_targetEndpoint (wo_common wo) = RestoreTargetServiceEndpoint restore target
    \<and> sn_delete (wo_common wo) = DeleteOrDefault (restore_rsync restore source)
    \<and> sn_oneFileSystem (wo_common wo) = OneFileSystemOrDefault (restore_rsync restore source) \<and> \<not> sn_dryRun (wo_common wo)"
proof -
  let ?serve = "[(''target'', DefaultMountPath), (''tls-dir'', TLSMountPath),
     (''run-namespace'', om_namespace (r_meta restore)), (''run-name'', om_name (r_meta restore)),
     (''target-namespace'', om_namespace (m_meta target)), (''target-name'', om_name (m_meta target)),
     (''restore-snapshot'', restore_snapshot restore target), (''restore-source'', restore_source target effectivePath),
     (''restore-writer'', om_namespace (s_meta source) @ ''/'' @ om_name (s_meta source)),
     (''control-grpc-endpoint'', dco_grpcEndpoint (withDefaults co)), (''control-grpc-namespace'', dco_grpcNamespace (withDefaults co))]"
  have long: "restore_target_args restore source target effectivePath co = ''serve-target'' # long_flags ?serve"
    by (simp add: restore_target_args_def appendControlGRPCArgs_def Let_def)
  have "\<forall>(n, v)\<in>set ?serve. plain_name n \<and> (\<exists>k. map_of serve_flags n = Some k \<and> k \<noteq> BoolFlag \<and> flag_accepts k v)"
    by (simp add: serve_flag_kinds plain_name_def flag_accepts_def)
  from parse_values [OF this, of "[]"]
  have serve: "parse_serve now (tl (restore_target_args restore source target effectivePath co)) = Inr (serve_options_of now ?serve)"
    unfolding long parse_serve_def by simp
  let ?writer = "writer_pairs restore source target effectivePath co @ (if DeleteOrDefault (restore_rsync restore source) then [(''delete'', ''true'')] else [])
      @ (if OneFileSystemOrDefault (restore_rsync restore source) then [(''one-file-system'', ''true'')] else [])"
  have "parse_flags writer_flags (long_flags (writer_pairs restore source target effectivePath co) @ rsync_switches (restore_rsync restore source))
    = Inr ?writer"
    by (rule parse_command) (auto simp: writer_pairs_def common_kinds common_flags_def plain_name_def)
  then have writer: "parse_writer (tl (restore_writer_args restore source target effectivePath co)) = Inr (writer_options_of ?writer)"
    unfolding parse_writer_def writer_args_long by simp
  define so where "so = serve_options_of now ?serve"
  define wo where "wo = writer_options_of ?writer"
  have target: "so_restoreSnapshot so = restore_snapshot restore target" "so_restoreSource so = restore_source target effectivePath"
    "so_restoreWriter so = om_namespace (s_meta source) @ ''/'' @ om_name (s_meta source)"
    "so_runNamespace so = om_namespace (r_meta restore)" "so_runName so = om_name (r_meta restore)"
    "so_targetNamespace so = om_namespace (m_meta target)" "so_targetName so = om_name (m_meta target)"
    "so_target so = DefaultMountPath" "so_tlsDir so = TLSMountPath" "so_controlEndpoint so = dco_grpcEndpoint (withDefaults co)"
    unfolding so_def serve_options_of_def Let_def flag_string_def by (simp_all del: append.simps)
  have sender: "wo_snapshot wo = restore_snapshot restore target" "wo_snapshotSource wo = restore_source target effectivePath"
    "sn_sourceNamespace (wo_common wo) = om_namespace (s_meta source)" "sn_sourceName (wo_common wo) = om_name (s_meta source)"
    "sn_runNamespace (wo_common wo) = om_namespace (r_meta restore)" "sn_runName (wo_common wo) = om_name (r_meta restore)"
    "sn_targetNamespace (wo_common wo) = om_namespace (m_meta target)" "sn_targetName (wo_common wo) = om_name (m_meta target)"
    "sn_tlsDir (wo_common wo) = TLSMountPath" "sn_controlEndpoint (wo_common wo) = dco_grpcEndpoint (withDefaults co)"
    "sn_targetEndpoint (wo_common wo) = RestoreTargetServiceEndpoint restore target"
    unfolding wo_def writer_options_of_def send_options_of_def Let_def flag_string_def writer_pairs_def by simp_all
  have switches: "sn_delete (wo_common wo) = DeleteOrDefault (restore_rsync restore source)"
    "sn_oneFileSystem (wo_common wo) = OneFileSystemOrDefault (restore_rsync restore source)" "\<not> sn_dryRun (wo_common wo)"
    unfolding wo_def writer_options_of_def send_options_of_def Let_def flag_bool_def flag_string_def writer_pairs_def
    by (simp_all add: ParseBool_def)
  show ?thesis
    by (rule exI [of _ so], rule exI [of _ wo]) (simp add: target sender switches serve [folded so_def] writer [folded wo_def])
qed

end
