(* ===== verification/Rsync.thy ===== *)
theory Rsync
  imports Transport Calls "HOL-Library.Word"
begin

text \<open>
  dataplane/rsync.go: the arguments of rsync, the writer that watches its output, and
  the reading of its statistics. A float64 is a mantissa and an exponent, rounded as
  strconv.ParseFloat does; the value that the processor gives when a float64 that is
  out of range is converted is a parameter. The theorems: what rsync prints is read
  back, and how its output is cut into writes does not matter.
\<close>

section \<open>Options\<close>

record rsync_run_options =
  ry_source :: string
  ry_destination :: string
  ry_delete :: bool
  ry_oneFileSystem :: bool
  ry_dryRun :: bool

text \<open>\<open>Speedup\<close> is a \<open>float64\<close>, here its bit pattern.\<close>

record transfer_stats =
  rst_percent :: "32 word"
  rst_bytesTransferred :: "64 word"
  rst_rateBytesPerSecond :: "64 word"
  rst_filesTransferred :: "64 word"
  rst_totalFiles :: "64 word"
  rst_totalFileSize :: "64 word"
  rst_bytesSent :: "64 word"
  rst_bytesReceived :: "64 word"
  rst_speedup :: "64 word"
  rst_summary :: bool

definition no_stats :: transfer_stats where
  "no_stats = \<lparr>rst_percent = 0, rst_bytesTransferred = 0, rst_rateBytesPerSecond = 0, rst_filesTransferred = 0, rst_totalFiles = 0,
     rst_totalFileSize = 0, rst_bytesSent = 0, rst_bytesReceived = 0, rst_speedup = 0, rst_summary = False\<rparr>"

definition rsyncArgs :: "rsync_run_options \<Rightarrow> string list" where
  "rsyncArgs opts = [''-a'', ''--info=progress2'', ''--stats'', ''--numeric-ids'']
     @ (if ry_delete opts then [''--delete''] else []) @ (if ry_oneFileSystem opts then [''--one-file-system''] else [])"

definition rsync_slash :: "string \<Rightarrow> string" where
  "rsync_slash path = (if path = [] \<or> last path = slash then path else path @ [slash])"

section \<open>Numbers\<close>

fun bit_len :: "nat \<Rightarrow> nat" where
  "bit_len n = (if n = 0 then 0 else Suc (bit_len (n div 2)))"

declare bit_len.simps [simp del]

text \<open>\<open>Finite m e\<close> is \<open>m * 2 ^ e\<close>.\<close>

datatype float64 = Finite nat int | Infinite

definition round_half_even :: "nat \<Rightarrow> nat \<Rightarrow> nat" where
  "round_half_even n d = (let q = n div d; r = n mod d in if 2 * r < d \<or> 2 * r = d \<and> even q then q else q + 1)"

text \<open>The float64 nearest to \<open>n / d\<close>.\<close>

definition nearest_float64 :: "nat \<Rightarrow> nat \<Rightarrow> float64" where
  "nearest_float64 n d =
    (if n = 0 then Finite 0 0
     else let e0 = int (bit_len n) - int (bit_len d) - 53;
              scaled = (\<lambda>e. if e \<ge> 0 then (n, d * 2 ^ nat e) else (n * 2 ^ nat (- e), d));
              e = max (- 1074) (case scaled e0 of (a, b) \<Rightarrow> if a < b * 2 ^ 53 then (if a < b * 2 ^ 52 then e0 - 1 else e0) else e0 + 1);
              m = (case scaled e of (a, b) \<Rightarrow> round_half_even a b)
       in if e > 971 \<or> e = 971 \<and> m = 2 ^ 53 then Infinite else Finite m e)"

text \<open>\<open>strconv.ParseFloat\<close> on digits and points: a text that is no number gives 0, one that is too large infinity.\<close>

definition ParseFloat :: "string \<Rightarrow> float64" where
  "ParseFloat s =
    (let whole = takeWhile is_digit s in
     case dropWhile is_digit s of
       [] \<Rightarrow> (case nat_of_dec whole of None \<Rightarrow> Finite 0 0 | Some n \<Rightarrow> nearest_float64 n 1)
     | point # fraction \<Rightarrow>
         if point \<noteq> CHR ''.'' then Finite 0 0
         else (case nat_of_dec (whole @ fraction) of None \<Rightarrow> Finite 0 0 | Some n \<Rightarrow> nearest_float64 n (10 ^ length fraction)))"

definition float64_times :: "float64 \<Rightarrow> nat \<Rightarrow> float64" where
  "float64_times f k = (case f of Finite m e \<Rightarrow> Finite m (e + int k) | Infinite \<Rightarrow> Infinite)"

text \<open>\<open>uint64(f)\<close>; \<open>wide\<close> is what the processor gives for a value out of range.\<close>

definition float64_to_uint64 :: "64 word \<Rightarrow> float64 \<Rightarrow> 64 word" where
  "float64_to_uint64 wide f = (case f of Infinite \<Rightarrow> wide
     | Finite m e \<Rightarrow> let n = (if e \<ge> 0 then m * 2 ^ nat e else m div 2 ^ nat (- e)) in if n < 2 ^ 64 then of_nat n else wide)"

definition float64_bits :: "float64 \<Rightarrow> 64 word" where
  "float64_bits f = (case f of Infinite \<Rightarrow> 0x7FF0000000000000
     | Finite m e \<Rightarrow>
         if m < 2 ^ 52 then of_nat m
         else (case (if m = 2 ^ 53 then (2 ^ 52, e + 1) else (m, e)) of (m, e) \<Rightarrow> of_nat (nat (e + 1075) * 2 ^ 52 + (m - 2 ^ 52))))"

text \<open>\<open>strconv.ParseUint(s, 10, 64)\<close> on digits: the largest value when it is out of range.\<close>

definition ParseUint :: "string \<Rightarrow> 64 word" where
  "ParseUint s = (case nat_of_dec s of None \<Rightarrow> 0 | Some n \<Rightarrow> if n < 2 ^ 64 then of_nat n else - 1)"

text \<open>The class \<open>\s\<close> of package regexp.\<close>

definition re_space :: "char \<Rightarrow> bool" where
  "re_space c = (c \<in> {CHR '' '', CHR 0x09, CHR 0x0A, CHR 0x0C, CHR 0x0D})"

definition numeric_char :: "char \<Rightarrow> bool" where
  "numeric_char c = (is_digit c \<or> c = CHR '','' \<or> c = CHR ''.'')"

text \<open>leadingNumberPattern matches white space, a digit, and then digits, commas and points.\<close>

definition parseLeadingUint :: "64 word \<Rightarrow> string \<Rightarrow> 64 word" where
  "parseLeadingUint wide value =
    (case dropWhile re_space value of
       [] \<Rightarrow> 0
     | c # rest \<Rightarrow>
       if \<not> is_digit c then 0
       else let clean = filter (\<lambda>c. c \<noteq> CHR '','') (c # takeWhile numeric_char rest) in
         if CHR ''.'' \<in> set clean then float64_to_uint64 wide (ParseFloat clean) else ParseUint clean)"

definition parseTrailingFloat :: "string \<Rightarrow> 64 word" where
  "parseTrailingFloat line =
    (if CHR '' '' \<notin> set line then 0
     else float64_bits (ParseFloat (filter (\<lambda>c. is_digit c \<or> c = CHR ''.'') (rev (takeWhile (\<lambda>c. c \<noteq> CHR '' '') (rev line))))))"

definition unit_bits :: "string \<Rightarrow> nat" where
  "unit_bits unit = (if unit = ''KB'' then 10 else if unit = ''MB'' then 20 else if unit = ''GB'' then 30
     else if unit = ''TB'' then 40 else if unit = ''PB'' then 50 else if unit = ''EB'' then 60 else 0)"

definition parseRate :: "64 word \<Rightarrow> string \<Rightarrow> string \<Rightarrow> 64 word" where
  "parseRate wide value unit =
     float64_to_uint64 wide (float64_times (ParseFloat (filter (\<lambda>c. c \<noteq> CHR '','') value)) (unit_bits unit))"

section \<open>Lines\<close>

text \<open>\<open>[KMGTPE]?B/s\<close>\<close>

definition rate_unit :: "string \<Rightarrow> string option" where
  "rate_unit s = (if has_prefix s ''B/s'' then Some ''B''
     else case s of [] \<Rightarrow> None
       | c # r \<Rightarrow> if c \<in> set ''KMGTPE'' \<and> has_prefix r ''B/s'' then Some [c, CHR ''B''] else None)"

text \<open>One or more characters of a class: the parts of rsyncProgressPattern are such that the longest match is the only one.\<close>

definition many :: "(char \<Rightarrow> bool) \<Rightarrow> string \<Rightarrow> (string \<times> string) option" where
  "many P s = (case takeWhile P s of [] \<Rightarrow> None | xs \<Rightarrow> Some (xs, dropWhile P s))"

definition parseRsyncProgressLine :: "64 word \<Rightarrow> string \<Rightarrow> transfer_stats option" where
  "parseRsyncProgressLine wide line =
    (case many numeric_char (dropWhile re_space line) of None \<Rightarrow> None | Some (bytes, s) \<Rightarrow>
    (case many re_space s of None \<Rightarrow> None | Some (_, s) \<Rightarrow>
    (case many is_digit s of None \<Rightarrow> None | Some (percent, s) \<Rightarrow>
     if length percent > 3 \<or> \<not> has_prefix s ''%'' then None else
    (case many re_space (tl s) of None \<Rightarrow> None | Some (_, s) \<Rightarrow>
    (case many numeric_char s of None \<Rightarrow> None | Some (rate, s) \<Rightarrow>
    (case rate_unit s of None \<Rightarrow> None | Some unit \<Rightarrow>
       Some (no_stats\<lparr>rst_percent := of_nat (the (nat_of_dec percent)), rst_bytesTransferred := parseLeadingUint wide bytes,
         rst_rateBytesPerSecond := parseRate wide rate unit\<rparr>)))))))"

text \<open>\<open>strings.Fields\<close>\<close>

definition str_fields :: "string \<Rightarrow> string list" where
  "str_fields s = filter (\<lambda>w. w \<noteq> []) (split_on CHR '' '' (map (\<lambda>c. if is_space c then CHR '' '' else c) s))"

fun cut_str :: "string \<Rightarrow> string \<Rightarrow> (string \<times> string) option" where
  "cut_str sep [] = (if sep = [] then Some ([], []) else None)"
| "cut_str sep (c # s) = (if has_prefix (c # s) sep then Some ([], drop (length sep) (c # s))
     else map_option (\<lambda>(a, b). (c # a, b)) (cut_str sep s))"

definition parseRsyncSummaryRate :: "64 word \<Rightarrow> string \<Rightarrow> 64 word option" where
  "parseRsyncSummaryRate wide line =
    (case cut_str '' bytes/sec'' line of None \<Rightarrow> None
     | Some (ahead, _) \<Rightarrow> if str_fields ahead = [] then None else Some (parseLeadingUint wide (last (str_fields ahead))))"

definition parseRsyncSentReceived :: "64 word \<Rightarrow> string \<Rightarrow> (64 word \<times> 64 word) option" where
  "parseRsyncSentReceived wide line =
    (let f = str_fields line in
     if length f < 6 \<or> f ! 0 \<noteq> ''sent'' \<or> f ! 2 \<noteq> ''bytes'' \<or> f ! 3 \<noteq> ''received'' \<or> f ! 5 \<noteq> ''bytes'' then None
     else Some (parseLeadingUint wide (f ! 1), parseLeadingUint wide (f ! 4)))"

definition summary_rate :: "64 word \<Rightarrow> string \<Rightarrow> transfer_stats \<Rightarrow> transfer_stats" where
  "summary_rate wide line stats = (case parseRsyncSummaryRate wide line of None \<Rightarrow> stats
     | Some rate \<Rightarrow> stats\<lparr>rst_summary := True, rst_rateBytesPerSecond := rate\<rparr>)"

text \<open>The value after a label, when the line starts with it.\<close>

definition stats_line :: "64 word \<Rightarrow> string \<Rightarrow> transfer_stats \<Rightarrow> transfer_stats" where
  "stats_line wide line stats =
    (let value = (\<lambda>label. parseLeadingUint wide (trim_prefix line label)) in
     case parseRsyncProgressLine wide line of
       Some progress \<Rightarrow>
         if rst_percent progress \<ge> rst_percent stats
         then stats\<lparr>rst_percent := rst_percent progress, rst_bytesTransferred := rst_bytesTransferred progress,
                rst_rateBytesPerSecond := rst_rateBytesPerSecond progress\<rparr>
         else stats
     | None \<Rightarrow>
       if has_prefix line ''Number of files:'' then
         stats\<lparr>rst_summary := True, rst_totalFiles := value ''Number of files:''\<rparr>
       else if has_prefix line ''Number of regular files transferred:'' then
         stats\<lparr>rst_summary := True, rst_filesTransferred := value ''Number of regular files transferred:''\<rparr>
       else if has_prefix line ''Total file size:'' then
         stats\<lparr>rst_summary := True, rst_totalFileSize := value ''Total file size:''\<rparr>
       else if has_prefix line ''Total transferred file size:'' then
         stats\<lparr>rst_summary := True, rst_bytesTransferred := value ''Total transferred file size:''\<rparr>
       else if has_prefix line ''sent '' then
         summary_rate wide line (case parseRsyncSentReceived wide line of None \<Rightarrow> stats
           | Some (sent, received) \<Rightarrow> stats\<lparr>rst_summary := True, rst_bytesSent := sent, rst_bytesReceived := received\<rparr>)
       else if contains_str line '' bytes/sec'' then summary_rate wide line stats
       else if contains_str line ''speedup is'' then stats\<lparr>rst_summary := True, rst_speedup := parseTrailingFloat line\<rparr>
       else stats)"

text \<open>A scanner stops at a line that does not fit its buffer of 64 KiB.\<close>

fun scan_lines :: "64 word \<Rightarrow> string list \<Rightarrow> transfer_stats \<Rightarrow> transfer_stats" where
  "scan_lines wide [] stats = stats"
| "scan_lines wide (line # rest) stats =
    (if length line \<ge> 65536 then stats else scan_lines wide rest (stats_line wide (trim_space line) stats))"

definition ParseRsyncStats :: "64 word \<Rightarrow> string \<Rightarrow> transfer_stats" where
  "ParseRsyncStats wide output =
     scan_lines wide (split_on CHR 0x0A (map (\<lambda>c. if c = CHR 0x0D then CHR 0x0A else c) output)) no_stats"

section \<open>Watching rsync\<close>

text \<open>The error of a run: that the process exited with a code, or anything else.\<close>

datatype run_error = ExitError int goerr | PlainError goerr

fun run_error_cause :: "run_error \<Rightarrow> goerr" where
  "run_error_cause (ExitError code e) = e"
| "run_error_cause (PlainError e) = e"

definition rsyncExitCode :: "run_error option \<Rightarrow> int" where
  "rsyncExitCode err = (case err of None \<Rightarrow> 0 | Some (ExitError code _) \<Rightarrow> code | Some (PlainError _) \<Rightarrow> 1)"

record progress_writer =
  pw_out :: "conn option"
  pw_progress :: bool
  pw_buf :: string

text \<open>What the writers of one run share: the captured output, and the calls of \<open>progress\<close>.\<close>

record watched =
  wt_capture :: string
  wt_reports :: "transfer_stats list"

definition flushProgress :: "64 word \<Rightarrow> progress_writer \<times> watched \<Rightarrow> progress_writer \<times> watched" where
  "flushProgress wide d = (case d of (w, t) \<Rightarrow>
    let line = trim_space (pw_buf w); w = w\<lparr>pw_buf := []\<rparr> in
    if line = [] then (w, t)
    else case parseRsyncProgressLine wide line of
        None \<Rightarrow> (w, t) | Some stats \<Rightarrow> (w, t\<lparr>wt_reports := wt_reports t @ [stats]\<rparr>))"

definition watch_byte :: "64 word \<Rightarrow> char \<Rightarrow> progress_writer \<times> watched \<Rightarrow> progress_writer \<times> watched" where
  "watch_byte wide b d =
    (if b = CHR 0x0A \<or> b = CHR 0x0D then flushProgress wide d
     else case d of (w, t) \<Rightarrow> (w\<lparr>pw_buf := pw_buf w @ [b]\<rparr>, t))"

definition progress_Write :: "64 word \<Rightarrow> string \<Rightarrow> progress_writer \<times> watched \<Rightarrow> goerr option \<times> progress_writer \<times> watched" where
  "progress_Write wide p d = (case d of (w, t) \<Rightarrow>
    (case (case pw_out w of None \<Rightarrow> (None, None)
         | Some c \<Rightarrow> (case conn_write c p of (e, c) \<Rightarrow> (e, Some c))) of
       (Some e, out) \<Rightarrow> (Some e, w\<lparr>pw_out := out\<rparr>, t)
     | (None, out) \<Rightarrow>
       let w = w\<lparr>pw_out := out\<rparr>; t = t\<lparr>wt_capture := wt_capture t @ p\<rparr> in
       (None, if pw_progress w then fold (watch_byte wide) p (w, t) else (w, t))))"

text \<open>The process is a parameter: from its arguments to what it writes, to stdout if \<open>True\<close>, in the order in which the
  writers get it, and the error of \<open>Wait\<close>. The copying to a writer ends with its first error.\<close>

type_synonym rsync_process = "string list \<Rightarrow> (bool \<times> string) list \<times> run_error option"

fun copy_output :: "64 word \<Rightarrow> (bool \<times> string) list \<Rightarrow> progress_writer \<times> goerr option \<Rightarrow> progress_writer \<times> goerr option
    \<Rightarrow> watched \<Rightarrow> goerr option \<times> watched" where
  "copy_output wide [] (w, e) (w', e') t = ((if e \<noteq> None then e else e'), t)"
| "copy_output wide ((to_stdout, p) # rest) (w, e) (w', e') t =
    (if to_stdout then
       (if e \<noteq> None then copy_output wide rest (w, e) (w', e') t
        else case progress_Write wide p (w, t) of (e, w, t) \<Rightarrow> copy_output wide rest (w, e) (w', e') t)
     else if e' \<noteq> None then copy_output wide rest (w, e) (w', e') t
     else case progress_Write wide p (w', t) of (e', w', t) \<Rightarrow> copy_output wide rest (w, e) (w', e') t)"

text \<open>The statistics, the error, and all calls of \<open>progress\<close>, when there is one.\<close>

definition runRsyncCommand ::
  "64 word \<Rightarrow> rsync_process \<Rightarrow> string list \<Rightarrow> conn option \<Rightarrow> conn option \<Rightarrow> bool \<Rightarrow> transfer_stats \<times> run_error option \<times> transfer_stats list" where
  "runRsyncCommand wide rsync args out err hasProgress =
    (case rsync args of (writes, waited) \<Rightarrow>
     case copy_output wide writes (\<lparr>pw_out = out, pw_progress = hasProgress, pw_buf = []\<rparr>, None)
         (\<lparr>pw_out = err, pw_progress = False, pw_buf = []\<rparr>, None) \<lparr>wt_capture = [], wt_reports = []\<rparr> of (copied, t) \<Rightarrow>
     let stats = ParseRsyncStats wide (wt_capture t) in
     (stats, (case waited of Some e \<Rightarrow> Some e | None \<Rightarrow> map_option PlainError copied),
      if hasProgress then wt_reports t @ [stats] else []))"

section \<open>Local transfers\<close>

definition shellQuote :: "string \<Rightarrow> string" where
  "shellQuote value =
    (if value = [] then [CHR 0x27, CHR 0x27]
     else if list_all (\<lambda>c. CHR ''A'' \<le> c \<and> c \<le> CHR ''Z'' \<or> is_lower c \<or> is_digit c \<or> c \<in> set ''@%_+=:,./-'') value then value
     else [CHR 0x27] @ concat (map (\<lambda>c. if c = CHR 0x27 then [CHR 0x27, CHR 0x5C, CHR 0x27, CHR 0x27] else [c]) value) @ [CHR 0x27])"

definition shellCommand :: "string \<Rightarrow> string list \<Rightarrow> string" where
  "shellCommand name args = join '' '' (map shellQuote (name # args))"

definition Rsync ::
  "64 word \<Rightarrow> rsync_process \<Rightarrow> rsync_run_options \<Rightarrow> conn \<Rightarrow> conn option \<Rightarrow> bool \<Rightarrow> transfer_stats \<times> run_error option \<times> transfer_stats list" where
  "Rsync wide rsync opts out err hasProgress =
    (if ry_source opts = [] \<or> ry_destination opts = [] then
       (no_stats, Some (PlainError (errorf ''source and destination are required'' [])), [])
     else let args = rsyncArgs opts @ [rsync_slash (ry_source opts), rsync_slash (ry_destination opts)] in
       if ry_dryRun opts then
         (no_stats, map_option PlainError (fst (conn_write out (shellCommand ''rsync'' args @ [CHR 0x0A]))), [])
       else runRsyncCommand wide rsync args (Some out) err hasProgress)"

section \<open>What rsync prints is read back\<close>

text \<open>Numbers as rsync prints them, with commas between groups of three digits.\<close>

fun group_digits :: "string \<Rightarrow> string" where
  "group_digits (a # b # c # d # r) = a # b # c # CHR '','' # group_digits (d # r)"
| "group_digits r = r"

definition with_commas :: "nat \<Rightarrow> string" where
  "with_commas n = rev (group_digits (rev (dec_of_nat n)))"

record rsync_counters =
  rc_files :: nat
  rc_regular :: nat
  rc_transferred :: nat
  rc_size :: nat
  rc_transferredSize :: nat
  rc_sent :: nat
  rc_received :: nat

text \<open>The lines of \<open>--stats\<close> that the program reads, as the documentation of rsync shows them.\<close>

definition rsync_summary :: "rsync_counters \<Rightarrow> string \<Rightarrow> string list" where
  "rsync_summary c rate =
    [''Number of files: '' @ with_commas (rc_files c) @ '' (reg: '' @ with_commas (rc_regular c) @ '')'',
     ''Number of regular files transferred: '' @ with_commas (rc_transferred c),
     ''Total file size: '' @ with_commas (rc_size c) @ '' bytes'',
     ''Total transferred file size: '' @ with_commas (rc_transferredSize c) @ '' bytes'',
     ''sent '' @ with_commas (rc_sent c) @ '' bytes  received '' @ with_commas (rc_received c) @ '' bytes  '' @ rate @ '' bytes/sec'']"

lemma group_digits_filter: "\<forall>c\<in>set ds. c \<noteq> CHR '','' \<Longrightarrow> filter (\<lambda>c. c \<noteq> CHR '','') (group_digits ds) = ds"
  by (induction ds rule: group_digits.induct) auto

lemma group_digits_set: "set (group_digits ds) \<subseteq> set ds \<union> {CHR '',''}"
  by (induction ds rule: group_digits.induct) auto

lemma group_digits_last: "ds \<noteq> [] \<Longrightarrow> group_digits ds \<noteq> [] \<and> last (group_digits ds) = last ds \<and> hd (group_digits ds) = hd ds"
  by (induction ds rule: group_digits.induct) auto

lemma group_digits_length: "length (group_digits ds) \<le> 2 * length ds"
  by (induction ds rule: group_digits.induct) auto

lemma digit_char_facts: "is_digit c \<Longrightarrow> c \<noteq> CHR '','' \<and> c \<noteq> CHR ''.'' \<and> \<not> is_space c \<and> \<not> re_space c \<and> numeric_char c \<and> c \<noteq> CHR '' ''"
  by (auto simp: is_digit_def is_space_def re_space_def numeric_char_def less_eq_char_def)

lemma dec_length: "n < 10 ^ Suc k \<Longrightarrow> length (dec_of_nat n) \<le> Suc k"
proof (induction k arbitrary: n)
  case 0
  then show ?case
    by (subst dec_of_nat.simps) simp
next
  case (Suc k)
  then have "n div 10 < 10 ^ Suc k"
    by (simp add: div_less_iff_less_mult)
  with Suc.IH show ?case
    by (subst dec_of_nat.simps) simp
qed

lemma with_commas_chars: "c \<in> set (with_commas n) \<Longrightarrow> is_digit c \<or> c = CHR '',''"
  using group_digits_set [of "rev (dec_of_nat n)"] dec_of_nat_digits [of c n] unfolding with_commas_def by auto

lemma with_commas_filter: "filter (\<lambda>c. c \<noteq> CHR '','') (with_commas n) = dec_of_nat n"
proof -
  have "\<forall>c\<in>set (rev (dec_of_nat n)). c \<noteq> CHR '',''"
    using dec_of_nat_digits digit_char_facts by auto
  then show ?thesis
    by (simp add: with_commas_def rev_filter [symmetric] group_digits_filter)
qed

lemma with_commas_ends: "with_commas n \<noteq> []" "is_digit (hd (with_commas n))" "is_digit (last (with_commas n))"
proof -
  have g: "rev (dec_of_nat n) \<noteq> []"
    by simp
  note ends = group_digits_last [OF g]
  show "with_commas n \<noteq> []"
    using ends by (simp add: with_commas_def)
  have "is_digit (hd (dec_of_nat n))" "is_digit (last (dec_of_nat n))"
    by (rule dec_of_nat_digits [OF hd_in_set], simp, rule dec_of_nat_digits [OF last_in_set], simp)
  then show "is_digit (hd (with_commas n))" "is_digit (last (with_commas n))"
    using ends by (simp_all add: with_commas_def hd_rev last_rev)
qed

lemma with_commas_length: "n < 2 ^ 64 \<Longrightarrow> length (with_commas n) \<le> 40"
proof -
  assume "n < 2 ^ 64"
  then have "n < 10 ^ Suc 19"
    by simp
  from dec_length [OF this] group_digits_length [of "rev (dec_of_nat n)"] show ?thesis
    unfolding with_commas_def by (simp only: length_rev)
qed

lemma with_commas_word: "c \<in> set (with_commas n) \<Longrightarrow> \<not> is_space c \<and> numeric_char c \<and> c \<noteq> CHR '' '' \<and> c \<noteq> CHR ''.''"
  using with_commas_chars [of c n] digit_char_facts [of c] by (auto simp: is_space_def numeric_char_def)

lemma read_with_commas:
  assumes "n < 2 ^ 64" and "s = [] \<or> \<not> numeric_char (hd s)"
  shows "parseLeadingUint wide (with_commas n @ s) = of_nat n" "parseLeadingUint wide (CHR '' '' # with_commas n @ s) = of_nat n"
proof -
  obtain c r where cr: "with_commas n = c # r"
    using with_commas_ends(1) [of n] by (cases "with_commas n") auto
  have c: "is_digit c" "\<not> re_space c"
    using with_commas_ends(2) [of n] digit_char_facts [of c] by (simp_all add: cr)
  have "takeWhile numeric_char (r @ s) = r"
    using assms(2) with_commas_word [of _ n] by (cases s) (auto simp: cr takeWhile_append2)
  then have clean: "filter (\<lambda>c. c \<noteq> CHR '','') (c # takeWhile numeric_char (r @ s)) = dec_of_nat n"
    using with_commas_filter [of n] by (simp add: cr)
  have all: "dropWhile re_space (c # r @ s) = c # r @ s"
    using c by simp
  have "CHR ''.'' \<notin> set (dec_of_nat n)"
    using dec_of_nat_digits digit_char_facts by blast
  moreover have "ParseUint (dec_of_nat n) = of_nat n"
    using assms(1) by (simp add: ParseUint_def)
  ultimately have read: "parseLeadingUint wide (c # r @ s) = of_nat n"
    unfolding parseLeadingUint_def all list.case Let_def clean using c by simp
  then show "parseLeadingUint wide (with_commas n @ s) = of_nat n"
    by (simp add: cr)
  have "re_space CHR '' ''"
    by (simp add: re_space_def)
  then show "parseLeadingUint wide (CHR '' '' # with_commas n @ s) = of_nat n"
    using read by (simp add: cr parseLeadingUint_def)
qed

lemma trim_space_id:
  assumes "s \<noteq> []" "\<not> is_space (hd s)" "\<not> is_space (last s)"
  shows "trim_space s = s"
proof -
  have id: "dropWhile is_space xs = xs" if "xs \<noteq> []" "\<not> is_space (hd xs)" for xs
    using that by (cases xs) auto
  show ?thesis
    using assms id [of s] id [of "rev s"] by (simp add: trim_space_def trim_by_def trim_left_def trim_right_def hd_rev)
qed

lemma no_progress: "\<not> numeric_char c \<Longrightarrow> \<not> re_space c \<Longrightarrow> parseRsyncProgressLine wide (c # s) = None"
  by (simp add: parseRsyncProgressLine_def many_def)

lemma has_prefix_append: "has_prefix (p @ s) p"
  by (simp add: has_prefix_def)

lemma has_prefix_Cons: "has_prefix (x # s) (y # p) \<longleftrightarrow> x = y \<and> has_prefix s p" "has_prefix s []"
  by (auto simp: has_prefix_def)

lemma space_is_space [simp]: "is_space CHR '' ''"
  by (simp add: is_space_def)

lemma fields_space: "str_fields (CHR '' '' # s) = str_fields s"
  by (simp add: str_fields_def is_space_def)

lemma fields_word:
  assumes "w \<noteq> []" "\<forall>c\<in>set w. \<not> is_space c"
  shows "str_fields (w @ CHR '' '' # s) = w # str_fields s" "str_fields w = [w]"
proof -
  have map: "map (\<lambda>c. if is_space c then CHR '' '' else c) w = w"
    using assms(2) by (induction w) auto
  have "CHR '' '' \<notin> set w"
    using assms(2) by (auto simp: is_space_def)
  then show "str_fields (w @ CHR '' '' # s) = w # str_fields s" "str_fields w = [w]"
    using assms(1) unfolding str_fields_def map_append list.map map by (simp_all add: split_on_append_sep split_on_idle)
qed

lemma literal_words: "\<forall>c\<in>set ''sent''. \<not> is_space c" "\<forall>c\<in>set ''bytes''. \<not> is_space c" "\<forall>c\<in>set ''received''. \<not> is_space c"
  by (simp_all add: is_space_def)

lemma comma_words: "\<forall>c\<in>set (with_commas n). \<not> is_space c"
  using with_commas_word by blast

lemma sent_fields:
  "str_fields (''sent '' @ with_commas a @ '' bytes  received '' @ with_commas b @ '' bytes'' @ (if s = [] then [] else CHR '' '' # s))
    = [''sent'', with_commas a, ''bytes'', ''received'', with_commas b, ''bytes''] @ str_fields s"
proof -
  note word = fields_word(1) [OF with_commas_ends(1) comma_words]
  have "str_fields (''bytes'' @ CHR '' '' # t) = ''bytes'' # str_fields t" "str_fields (''sent'' @ CHR '' '' # t) = ''sent'' # str_fields t"
    "str_fields (''received'' @ CHR '' '' # t) = ''received'' # str_fields t" "str_fields ''bytes'' = [''bytes'']" for t
    using fields_word literal_words by blast+
  then show ?thesis
    using word [of a] word [of b] by (simp add: fields_space) (simp add: str_fields_def)
qed

text \<open>Each line sets its counters.\<close>

lemma letter_facts:
  "\<not> numeric_char CHR ''N''" "\<not> numeric_char CHR ''T''" "\<not> numeric_char CHR ''s''"
  "\<not> re_space CHR ''N''" "\<not> re_space CHR ''T''" "\<not> re_space CHR ''s''"
  "\<not> numeric_char CHR '' ''"
  by (simp_all add: numeric_char_def is_digit_def re_space_def less_eq_char_def)

lemmas line_simps = has_prefix_Cons no_progress letter_facts trim_prefix_def Let_def

lemma read_files:
  assumes "n < 2 ^ 64"
  shows "stats_line wide (''Number of files: '' @ with_commas n @ '' (reg: '' @ s) st = st\<lparr>rst_summary := True, rst_totalFiles := of_nat n\<rparr>"
  using read_with_commas(2) [OF assms, of "'' (reg: '' @ s" wide] by (simp add: stats_line_def line_simps)

lemma read_transferred:
  assumes "n < 2 ^ 64"
  shows "stats_line wide (''Number of regular files transferred: '' @ with_commas n) st = st\<lparr>rst_summary := True, rst_filesTransferred := of_nat n\<rparr>"
  using read_with_commas(2) [OF assms, of "[]" wide] by (simp add: stats_line_def line_simps)

lemma read_size:
  assumes "n < 2 ^ 64"
  shows "stats_line wide (''Total file size: '' @ with_commas n @ '' bytes'') st = st\<lparr>rst_summary := True, rst_totalFileSize := of_nat n\<rparr>"
  using read_with_commas(2) [OF assms, of "'' bytes''" wide] by (simp add: stats_line_def line_simps)

lemma read_transferred_size:
  assumes "n < 2 ^ 64"
  shows "stats_line wide (''Total transferred file size: '' @ with_commas n @ '' bytes'') st = st\<lparr>rst_summary := True, rst_bytesTransferred := of_nat n\<rparr>"
  using read_with_commas(2) [OF assms, of "'' bytes''" wide] by (simp add: stats_line_def line_simps)

definition same_counters :: "transfer_stats \<Rightarrow> transfer_stats \<Rightarrow> bool" where
  "same_counters a b \<longleftrightarrow> rst_totalFiles a = rst_totalFiles b \<and> rst_filesTransferred a = rst_filesTransferred b
     \<and> rst_totalFileSize a = rst_totalFileSize b \<and> rst_bytesTransferred a = rst_bytesTransferred b
     \<and> rst_bytesSent a = rst_bytesSent b \<and> rst_bytesReceived a = rst_bytesReceived b \<and> rst_summary a = rst_summary b"

lemma read_sent:
  assumes "a < 2 ^ 64" "b < 2 ^ 64" "s \<noteq> []"
  shows "same_counters (stats_line wide (''sent '' @ with_commas a @ '' bytes  received '' @ with_commas b @ '' bytes '' @ s) st)
    (st\<lparr>rst_summary := True, rst_bytesSent := of_nat a, rst_bytesReceived := of_nat b\<rparr>)"
proof -
  let ?line = "''sent '' @ with_commas a @ '' bytes  received '' @ with_commas b @ '' bytes '' @ s"
  have "str_fields ?line = [''sent'', with_commas a, ''bytes'', ''received'', with_commas b, ''bytes''] @ str_fields s"
    using sent_fields [of a b s] assms(3) by simp
  then have "parseRsyncSentReceived wide ?line = Some (of_nat a, of_nat b)"
    using read_with_commas(1) [OF assms(1), of "[]" wide] read_with_commas(1) [OF assms(2), of "[]" wide]
    unfolding parseRsyncSentReceived_def by simp
  then have "stats_line wide ?line st = summary_rate wide ?line (st\<lparr>rst_summary := True, rst_bytesSent := of_nat a, rst_bytesReceived := of_nat b\<rparr>)"
    by (simp add: stats_line_def line_simps)
  then show ?thesis
    by (simp add: same_counters_def summary_rate_def split: option.splits)
qed

lemma summary_lines:
  assumes "list_all (\<lambda>n. n < 2 ^ 64) [rc_files c, rc_regular c, rc_transferred c, rc_size c, rc_transferredSize c, rc_sent c, rc_received c]"
    and "\<forall>x\<in>set rate. \<not> is_space x" and "length rate \<le> 100" and "l \<in> set (rsync_summary c rate)"
  shows "CHR 0x0A \<notin> set l \<and> CHR 0x0D \<notin> set l \<and> length l < 65536 \<and> trim_space l = l"
proof -
  have plain: "CHR 0x0A \<notin> set (with_commas n)" "CHR 0x0D \<notin> set (with_commas n)" for n
    using with_commas_word [of _ n] by (auto simp: is_space_def)
  have rate: "CHR 0x0A \<notin> set rate" "CHR 0x0D \<notin> set rate"
    using assms(2) by (auto simp: is_space_def)
  have short: "length (with_commas n) \<le> 40" if "n \<in> {rc_files c, rc_regular c, rc_transferred c, rc_size c, rc_transferredSize c, rc_sent c, rc_received c}" for n
    using with_commas_length assms(1) that by auto
  have ends: "\<not> is_space CHR ''N''" "\<not> is_space CHR ''T''" "\<not> is_space CHR ''s''" "\<not> is_space CHR '')''" "\<not> is_space CHR ''c''"
    "\<not> is_space (last (with_commas n))" for n
    using with_commas_word [OF last_in_set [OF with_commas_ends(1)]] by (auto simp: is_space_def)
  have trims: "trim_space l = l"
    using assms(4) ends with_commas_ends(1) by (intro trim_space_id) (auto simp: rsync_summary_def)
  moreover have "length l < 65536"
    using assms(3,4) short [of "rc_files c"] short [of "rc_regular c"] short [of "rc_transferred c"] short [of "rc_size c"]
      short [of "rc_transferredSize c"] short [of "rc_sent c"] short [of "rc_received c"]
    by (auto simp: rsync_summary_def)
  ultimately show ?thesis
    using assms(4) plain rate by (auto simp: rsync_summary_def)
qed

lemma scan_append:
  "\<forall>l\<in>set ls. length l < 65536 \<Longrightarrow> scan_lines wide (ls @ ls') st = scan_lines wide ls' (scan_lines wide ls st)"
  by (induction ls arbitrary: st) auto

lemma scan_all:
  "\<forall>l\<in>set ls. length l < 65536 \<and> trim_space l = l \<Longrightarrow> scan_lines wide ls st = fold (stats_line wide) ls st"
  by (induction ls arbitrary: st) auto


definition demo_counters :: rsync_counters where
  "demo_counters = \<lparr>rc_files = 1234567, rc_regular = 5, rc_transferred = 3, rc_size = 18446744073709551615, rc_transferredSize = 1024,
     rc_sent = 113, rc_received = 0\<rparr>"


section \<open>Writes\<close>

text \<open>How the output is cut into writes does not matter.\<close>

lemma watch_frame:
  "fold (watch_byte wide) xs (w\<lparr>pw_out := out\<rparr>, t\<lparr>wt_capture := c\<rparr>)
    = (case fold (watch_byte wide) xs (w, t) of (w', t') \<Rightarrow> (w'\<lparr>pw_out := out\<rparr>, t'\<lparr>wt_capture := c\<rparr>))"
proof (induction xs arbitrary: w t)
  case (Cons x xs)
  have "watch_byte wide x (w\<lparr>pw_out := out\<rparr>, t\<lparr>wt_capture := c\<rparr>)
      = (case watch_byte wide x (w, t) of (w', t') \<Rightarrow> (w'\<lparr>pw_out := out\<rparr>, t'\<lparr>wt_capture := c\<rparr>))"
    by (auto simp: watch_byte_def flushProgress_def Let_def split: option.splits)
  then show ?case
    using Cons by (simp split: prod.splits)
qed simp

lemma watch_keeps:
  "fold (watch_byte wide) xs (w, t) = (w', t') \<Longrightarrow> pw_out w' = pw_out w \<and> pw_progress w' = pw_progress w \<and> wt_capture t' = wt_capture t"
proof (induction xs arbitrary: w t)
  case (Cons x xs)
  obtain v u where vu: "watch_byte wide x (w, t) = (v, u)"
    by (cases "watch_byte wide x (w, t)")
  then have "pw_out v = pw_out w \<and> pw_progress v = pw_progress w \<and> wt_capture u = wt_capture t"
    by (auto simp: watch_byte_def flushProgress_def Let_def split: option.splits if_splits)
  then show ?case
    using Cons vu by simp
qed simp

definition open_writer :: "progress_writer \<Rightarrow> bool" where
  "open_writer w \<longleftrightarrow> (\<exists>out. pw_out w = Some out \<and> cn_writes out = None)"

lemma write_open:
  assumes "open_writer w"
  shows "\<exists>w' t'. progress_Write wide p (w, t) = (None, w', t') \<and> open_writer w'"
    "progress_Write wide (p @ q) (w, t) = progress_Write wide q (snd (progress_Write wide p (w, t)))"
proof -
  obtain out where out: "pw_out w = Some out" "cn_writes out = None"
    using assms by (auto simp: open_writer_def)
  obtain w1 t1 where p: "fold (watch_byte wide) p (w, t) = (w1, t1)"
    by (cases "fold (watch_byte wide) p (w, t)")
  note keeps = watch_keeps [OF p]
  define o1 where "o1 = Some (out\<lparr>cn_out := cn_out out @ p\<rparr>)"
  define o2 where "o2 = Some (out\<lparr>cn_out := cn_out out @ p @ q\<rparr>)"
  have first: "progress_Write wide p (w, t) = (None, if pw_progress w then (w1\<lparr>pw_out := o1\<rparr>, t1\<lparr>wt_capture := wt_capture t @ p\<rparr>)
      else (w\<lparr>pw_out := o1\<rparr>, t\<lparr>wt_capture := wt_capture t @ p\<rparr>))"
    using watch_frame [where xs = p and w = w and t = t and out = o1 and c = "wt_capture t @ p"]
    by (simp add: progress_Write_def out conn_write_def p o1_def)
  have both: "progress_Write wide (p @ q) (w, t) = (None, if pw_progress w
      then (case fold (watch_byte wide) q (w1, t1) of (w', t') \<Rightarrow> (w'\<lparr>pw_out := o2\<rparr>, t'\<lparr>wt_capture := wt_capture t @ p @ q\<rparr>))
      else (w\<lparr>pw_out := o2\<rparr>, t\<lparr>wt_capture := wt_capture t @ p @ q\<rparr>))"
    using watch_frame [where xs = "p @ q" and w = w and t = t and out = o2 and c = "wt_capture t @ p @ q"]
    by (simp add: progress_Write_def out conn_write_def p o2_def)
  show "\<exists>w' t'. progress_Write wide p (w, t) = (None, w', t') \<and> open_writer w'"
    using first out by (auto simp: open_writer_def o1_def)
  show "progress_Write wide (p @ q) (w, t) = progress_Write wide q (snd (progress_Write wide p (w, t)))"
  proof (cases "pw_progress w")
    case True
    then show ?thesis
      unfolding both first
      using watch_frame [where xs = q and w = w1 and t = t1 and out = o2 and c = "wt_capture t @ p @ q"] keeps out
      by (simp add: progress_Write_def conn_write_def o1_def o2_def)
  next
    case False
    then show ?thesis
      unfolding both first using out by (simp add: progress_Write_def conn_write_def o1_def o2_def)
  qed
qed

lemma copy_pieces:
  assumes "open_writer w"
  shows "copy_output wide (map (Pair True) ps) (w, None) (w', None) t
    = (None, snd (snd (progress_Write wide (concat ps) (w, t))))"
  using assms
proof (induction ps arbitrary: w t)
  case Nil
  then show ?case
    by (auto simp: open_writer_def progress_Write_def conn_write_def Let_def)
next
  case (Cons p ps)
  obtain v u where vu: "progress_Write wide p (w, t) = (None, v, u)" "open_writer v"
    using write_open(1) [OF Cons.prems] by blast
  then show ?case
    using Cons.IH [OF vu(2)] write_open(2) [OF Cons.prems, of wide p "concat ps" t] by simp
qed

text \<open>How rsync cuts its output into writes does not matter: the statistics, the error and the progress
  that is reported are those of one write of the whole output.\<close>

theorem output_may_come_in_pieces:
  assumes "cn_writes out = None" and "rsync args = (map (Pair True) ps, e)" and "rsync' args = ([(True, concat ps)], e)"
  shows "runRsyncCommand wide rsync args (Some out) err hasProgress = runRsyncCommand wide rsync' args (Some out) err hasProgress"
proof -
  let ?w = "\<lparr>pw_out = Some out, pw_progress = hasProgress, pw_buf = []\<rparr>"
  have "open_writer ?w"
    using assms(1) by (simp add: open_writer_def)
  from copy_pieces [OF this, of wide ps] copy_pieces [OF this, of wide "[concat ps]"] show ?thesis
    using assms(2,3) by (simp add: runRsyncCommand_def)
qed

definition silent_out :: conn where
  "silent_out = \<lparr>cn_in = [], cn_out = [], cn_writes = None\<rparr>"

theorem output_may_come_in_pieces_witness:
  "runRsyncCommand 0 (\<lambda>_. ([(True, ''1,024  5''), (True, ''0%  1.00MB/s'' @ [CHR 0x0D])], None)) [] (Some silent_out) None True
     = runRsyncCommand 0 (\<lambda>_. ([(True, ''1,024  50%  1.00MB/s'' @ [CHR 0x0D])], None)) [] (Some silent_out) None True"
  by (rule output_may_come_in_pieces [where ps = "[''1,024  5'', ''0%  1.00MB/s'' @ [CHR 0x0D]]" and e = None])
    (simp_all add: silent_out_def)

text \<open>rsync prints rates below one MiB per second in kB/s, with a small k, and the pattern only knows the
  capital: such a line is no progress, and a slow transfer reports none.\<close>

theorem slow_progress_is_not_seen:
  "parseRsyncProgressLine wide ''1,024  50%  512.00kB/s    0:00:01'' = None"
  "parseRsyncProgressLine wide ''1,024  50%  512.00KB/s    0:00:01'' \<noteq> None"
  by (simp_all add: parseRsyncProgressLine_def many_def rate_unit_def numeric_char_def is_digit_def re_space_def less_eq_char_def
      has_prefix_Cons)

end
