(* ===== verification/Control_Client.thy ===== *)
theory Control_Client
  imports Certificates Event_Hub Control_Service Transport
begin

text \<open>
  The client of the control API that the processes of the data plane use
  (dataplane/controlclient.go, and dataPlaneControlClient of cli/cli.go), and what such a
  process changes: a file system, and the events it sends. Log lines are left out.
\<close>

section \<open>The world of a command\<close>

datatype dp_event = TargetSent target_event | SourceSent source_event | AckSent command_ack_event

record dp_world =
  dw_fs :: fs
  dw_sent :: "dp_event list"

text \<open>
  What is outside: the files of the TLS directory, dialling the control API, its answer to
  an event after those before, the answer to the registration of a target, and the working
  directory. An event counts as sent when the call was made, whatever the answer.
\<close>

record dp_env =
  de_crypto :: crypto
  de_readFile :: "string \<Rightarrow> string result"
  de_dial :: "goerr option"
  de_reply :: "dp_event list \<Rightarrow> dp_event \<Rightarrow> goerr option"
  de_register :: "goerr option"
  de_cwd :: path

section \<open>The client of the control API\<close>

record control_client =
  dc_grpcEndpoint :: string
  dc_tlsBundle :: tls_bundle
  dc_controlCAPEM :: string
  dc_expectedControl :: identity

definition no_bundle :: tls_bundle where
  "no_bundle = \<lparr>tb_caCertPEM = [], tb_caKeyPEM = [], tb_certPEM = [], tb_keyPEM = []\<rparr>"

definition no_client :: control_client where
  "no_client = \<lparr>dc_grpcEndpoint = [], dc_tlsBundle = no_bundle, dc_controlCAPEM = [], dc_expectedControl = no_identity\<rparr>"

definition ControlGRPCServerIdentity :: "string \<Rightarrow> identity" where
  "ControlGRPCServerIdentity namespace = TargetIdentity ''operator'' ''control-grpc'' namespace ''kube-rsync-machine-manager''"

definition dataPlaneControlClient :: "'e dp_env_scheme \<Rightarrow> string \<Rightarrow> string \<Rightarrow> string \<Rightarrow> tls_bundle \<Rightarrow> control_client result" where
  "dataPlaneControlClient env grpcEndpoint grpcNamespace tlsDir tlsBundle =
    (if grpcEndpoint = [] then Inr no_client
     else if tlsDir = [] then Inl (errorf ''--tls-dir is required with --control-grpc-endpoint'' [])
     else case de_readFile env (path_join [tlsDir, ''control-ca.crt'']) of
         Inl e \<Rightarrow> Inl (wrapf ''read %s: %w'' [''control-ca.crt''] e)
       | Inr controlCA \<Rightarrow> Inr \<lparr>dc_grpcEndpoint = grpcEndpoint, dc_tlsBundle = tlsBundle, dc_controlCAPEM = controlCA,
           dc_expectedControl = ControlGRPCServerIdentity grpcNamespace\<rparr>)"

definition grpcClient :: "'e dp_env_scheme \<Rightarrow> control_client \<Rightarrow> goerr option" where
  "grpcClient env c =
    (if dc_grpcEndpoint c = [] then Some (errorf ''control grpc endpoint is not configured'' [])
     else case ClientCredentialsWithServerCA (de_crypto env) (dc_tlsBundle c) (dc_controlCAPEM c) (dc_expectedControl c) of
         Inl e \<Rightarrow> Some e | Inr _ \<Rightarrow> de_dial env)"

definition grpc_send :: "'e dp_env_scheme \<Rightarrow> control_client \<Rightarrow> dp_event \<Rightarrow> 'w dp_world_scheme \<Rightarrow> goerr option \<times> 'w dp_world_scheme" where
  "grpc_send env c event w = (case grpcClient env c of
      Some e \<Rightarrow> (Some e, w)
    | None \<Rightarrow> (de_reply env (dw_sent w) event, w\<lparr>dw_sent := dw_sent w @ [event]\<rparr>))"

definition client_ReportTarget :: "'e dp_env_scheme \<Rightarrow> control_client \<Rightarrow> target_event \<Rightarrow> 'w dp_world_scheme \<Rightarrow> goerr option \<times> 'w dp_world_scheme" where
  "client_ReportTarget env c event w = (if dc_grpcEndpoint c = [] then (None, w) else grpc_send env c (TargetSent event) w)"

definition client_ReportSource :: "'e dp_env_scheme \<Rightarrow> control_client \<Rightarrow> source_event \<Rightarrow> 'w dp_world_scheme \<Rightarrow> goerr option \<times> 'w dp_world_scheme" where
  "client_ReportSource env c event w = (if dc_grpcEndpoint c = [] then (None, w) else grpc_send env c (SourceSent event) w)"

definition client_AcknowledgeTargetCommand :: "'e dp_env_scheme \<Rightarrow> control_client \<Rightarrow> command_ack_event \<Rightarrow> 'w dp_world_scheme \<Rightarrow> goerr option \<times> 'w dp_world_scheme" where
  "client_AcknowledgeTargetCommand env c event = grpc_send env c (AckSent event)"

text \<open>The operator can be reached: its answers may still be errors.\<close>

definition can_report :: "'e dp_env_scheme \<Rightarrow> control_client \<Rightarrow> bool" where
  "can_report env c \<longleftrightarrow> dc_grpcEndpoint c \<noteq> [] \<and> grpcClient env c = None"

end
