(* ===== verification/Target_Process.thy ===== *)
theory Target_Process
  imports Control_Client Command_Flags Kube_Api Store_Ops Receiver
begin

text \<open>
  The process of a target: serveTarget of cli/cli.go, with the wait for commands of
  dataplane/controlclient.go. The receiver runs beside the wait: the connections it
  accepts and the commands that arrive are one list, in the order in which they are
  handled, and each is handled in one step. The theorem says what the process reports:
  that the run is completed exactly when the command to finalize was carried out.
\<close>

section \<open>The receiver\<close>

datatype receiver = NoReceiver | Accepting "(identity \<times> string) list" "identity list" | Returned "goerr option"

record target_world = dp_world +
  tw_receiver :: receiver

text \<open>The device: free space, and the modification times of the snapshots. \<open>tv_listen\<close> is the error of listening for transfers.\<close>

record target_env = dp_env +
  tv_listen :: "goerr option"
  tv_tunnel :: tunnel
  tv_avail :: "fs \<Rightarrow> 64 word result"
  tv_mtime :: "string \<Rightarrow> int"

definition still_open :: "(identity \<times> string) list \<Rightarrow> identity list \<Rightarrow> receiver" where
  "still_open expected completed = (if length completed < length expected then Accepting expected completed else Returned None)"

text \<open>ServeTargetReceiver up to its loop, and one round of the loop.\<close>

definition receiver_starts :: "goerr option \<Rightarrow> target_receiver_options \<Rightarrow> receiver" where
  "receiver_starts tlsConfig opts =
    (if tro_targetRoot opts = [] \<or> tro_runID opts = [] then Returned (Some (errorf ''target root and run id are required'' []))
     else if tro_sources opts = [] then Returned None
     else case expected_map (tro_sources opts) [] of
         Inl e \<Rightarrow> Returned (Some e)
       | Inr expected \<Rightarrow> (case tlsConfig of Some e \<Rightarrow> Returned (Some e) | None \<Rightarrow> still_open expected []))"

definition receiver_accepts :: "tunnel \<Rightarrow> path \<Rightarrow> bool \<Rightarrow> bool \<Rightarrow> tls_conn result \<Rightarrow> receiver \<times> fs \<Rightarrow> receiver \<times> fs" where
  "receiver_accepts tunnel root mirror goOn accept d =
    (case d of
       (Accepting expected completed, f) \<Rightarrow>
         (case accept of
            Inl e \<Rightarrow> (Returned (Some e), f)
          | Inr c \<Rightarrow>
              (case receiveTransfer tunnel root expected c mirror f of
                 ((identity, Some e), f) \<Rightarrow> (if goOn then Accepting expected completed else Returned (Some e), f)
               | ((identity, None), f) \<Rightarrow> (still_open expected (List.insert identity completed), f)))
     | _ \<Rightarrow> d)"

text \<open>Its result, once it returns.\<close>

definition receiver_result :: "receiver \<times> fs \<Rightarrow> (goerr option \<times> fs) option" where
  "receiver_result d = (case d of (Returned r, f) \<Rightarrow> Some (r, f) | (NoReceiver, f) \<Rightarrow> Some (None, f) | (Accepting _ _, f) \<Rightarrow> None)"

section \<open>Waiting for the command to finalize\<close>

text \<open>What happens next: a command arrives, the stream ends or fails, or a source connects. When nothing more happens, the wait goes on for ever.\<close>

datatype happening = CommandArrives target_command | StreamEnds | StreamFails goerr | SourceConnects "tls_conn result"

type_synonym recovery = "target_command \<Rightarrow> target_world \<Rightarrow> goerr option \<times> target_world"

definition abort_error :: "target_command \<Rightarrow> goerr" where
  "abort_error command = (case tc_abort command of
       Some a \<Rightarrow> if ar_reason a \<noteq> [] then errorf ''target run aborted: %s'' [ar_reason a] else errorf ''target run aborted'' []
     | None \<Rightarrow> errorf ''target run aborted'' [])"

fun wait_for_finalize ::
  "(tls_conn result \<Rightarrow> target_world \<Rightarrow> target_world) \<Rightarrow> recovery option \<Rightarrow> happening list \<Rightarrow> target_world
     \<Rightarrow> (target_command result \<times> happening list \<times> target_world) option" where
  "wait_for_finalize accept recover [] w = None"
| "wait_for_finalize accept recover (StreamEnds # rest) w =
     Some (Inl (errorf ''target command stream closed before finalize command'' []), rest, w)"
| "wait_for_finalize accept recover (StreamFails e # rest) w = Some (Inl e, rest, w)"
| "wait_for_finalize accept recover (SourceConnects c # rest) w = wait_for_finalize accept recover rest (accept c w)"
| "wait_for_finalize accept recover (CommandArrives command # rest) w =
    (if tc_type command = TargetCommandFinalizeBackupJob then
       (if tc_finalize command = None then Some (Inl (errorf ''finalize command %q missing payload'' [tc_commandID command]), rest, w)
        else Some (Inr command, rest, w))
     else if tc_type command = TargetCommandRecoverSpace then
       (if tc_recoverSpace command = None then Some (Inl (errorf ''recover command %q missing payload'' [tc_commandID command]), rest, w)
        else case recover of
            None \<Rightarrow> wait_for_finalize accept recover rest w
          | Some f \<Rightarrow> (case f command w of (Some e, w) \<Rightarrow> Some (Inl e, rest, w) | (None, w) \<Rightarrow> wait_for_finalize accept recover rest w))
     else if tc_type command = TargetCommandAbortRun then Some (Inl (abort_error command), rest, w)
     else wait_for_finalize accept recover rest w)"

definition WaitForFinalizeBackupJobWithRecovery ::
  "(tls_conn result \<Rightarrow> target_world \<Rightarrow> target_world) \<Rightarrow> target_env \<Rightarrow> control_client \<Rightarrow> recovery option \<Rightarrow> happening list \<Rightarrow> target_world
     \<Rightarrow> (target_command result \<times> happening list \<times> target_world) option" where
  "WaitForFinalizeBackupJobWithRecovery accept env c recover items w =
    (case grpcClient env c of
       Some e \<Rightarrow> Some (Inl e, items, w)
     | None \<Rightarrow> (case de_register env of Some e \<Rightarrow> Some (Inl e, items, w) | None \<Rightarrow> wait_for_finalize accept recover items w))"

section \<open>serve-target\<close>

definition target_report :: "serve_options \<Rightarrow> string \<Rightarrow> string \<Rightarrow> string \<Rightarrow> target_event" where
  "target_report o' kind phase message =
    \<lparr>te_runNamespace = so_runNamespace o', te_runName = so_runName o', te_runKind = kind, te_targetNamespace = so_targetNamespace o',
     te_targetName = so_targetName o', te_phase = phase, te_message = message, te_snapshot = [], te_bytesFreed = 0, te_paths = [],
     te_restorePoints = [], te_restoreScanned = False, te_conditions = [], te_availableBytes = 0, te_capacityBytes = 0\<rparr>"

definition command_ack :: "serve_options \<Rightarrow> string \<Rightarrow> string \<Rightarrow> command_ack_event" where
  "command_ack o' commandID commandType =
    \<lparr>ca_runNamespace = so_runNamespace o', ca_runName = so_runName o', ca_runKind = RunKindBackup, ca_targetNamespace = so_targetNamespace o',
     ca_targetName = so_targetName o', ca_commandID = commandID, ca_commandType = commandType, ca_acknowledgedAt = [], ca_message = []\<rparr>"

text \<open>A report that fails is only logged.\<close>

definition reportTarget :: "'e dp_env_scheme \<Rightarrow> control_client \<Rightarrow> target_event \<Rightarrow> 'w dp_world_scheme \<Rightarrow> 'w dp_world_scheme" where
  "reportTarget env c event w = snd (client_ReportTarget env c event w)"

text \<open>The handler of a command to recover space. \<open>AvailableBytes\<close> gives 0 with an error.\<close>

definition available_or_zero :: "target_env \<Rightarrow> fs \<Rightarrow> 64 word" where
  "available_or_zero env f = (case tv_avail env f of Inl _ \<Rightarrow> 0 | Inr n \<Rightarrow> n)"

definition recovery_event :: "serve_options \<Rightarrow> string list \<Rightarrow> goerr option \<Rightarrow> target_event" where
  "recovery_event o' removed err = (case err of
      None \<Rightarrow> target_report o' RunKindBackup ''Ready'' (render ''recovered target space; removed %d snapshots'' [dec_of_nat (length removed)] [])
    | Some e \<Rightarrow> target_report o' RunKindBackup ''Failed'' (error_text e))"

definition recover_command :: "target_env \<Rightarrow> control_client \<Rightarrow> serve_options \<Rightarrow> recovery" where
  "recover_command env c o' command w =
    (case tc_recoverSpace command of None \<Rightarrow> (None, w) | Some request \<Rightarrow>
     let root = abs_path (de_cwd env) (so_target o'); ahead = available_or_zero env (dw_fs w) in
     case RecoverSpace (tv_avail env) (tv_mtime env) root (rv_minAvailableBytes request) (rv_protectedSnapshots request) (dw_fs w) of
       ((removed, err), f) \<Rightarrow>
         let available = available_or_zero env f;
             bytesFreed = (if available > ahead then available - ahead else 0);
             w = reportTarget env c ((recovery_event o' removed err)\<lparr>te_bytesFreed := bytesFreed, te_paths := removed,
                   te_availableBytes := available\<rparr>) (w\<lparr>dw_fs := f\<rparr>)
         in (case err of Some e \<Rightarrow> (Some e, w)
             | None \<Rightarrow> client_AcknowledgeTargetCommand env c (command_ack o' (tc_commandID command) (tc_type command)) w))"

definition finalizeCommandSources :: "expected_source list \<Rightarrow> string list" where
  "finalizeCommandSources sources = sort (map es_destinationPath (filter (\<lambda>s. es_destinationPath s \<noteq> []) sources))"

definition restorePointBytesTransferred :: "64 word \<Rightarrow> 64 word" where
  "restorePointBytesTransferred n = (if n > 0x7FFFFFFFFFFFFFFF then 0x7FFFFFFFFFFFFFFF else n)"

definition controlRestorePoints :: "dp_restore_point list \<Rightarrow> string \<Rightarrow> 64 word \<Rightarrow> control_restore_point list" where
  "controlRestorePoints points snapshot bytesTransferred = map (\<lambda>p.
     \<lparr>crp_snapshot = dp_snapshot p, crp_resolvesTo = dp_resolvesTo p, crp_tier = dp_tier p,
      crp_createdAt = (if dp_createdAt p = zero_time then [] else format_rfc3339 (dp_createdAt p)),
      crp_bytesTransferred = (if dp_snapshot p = snapshot then restorePointBytesTransferred bytesTransferred else dp_bytesTransferred p)\<rparr>) points"

text \<open>\<open>strings.EqualFold\<close>: the letters that fold to letters of ASCII are the long s and the sign of Kelvin, as in JSON.\<close>

definition EqualFold :: "string \<Rightarrow> string \<Rightarrow> bool" where
  "EqualFold s t \<longleftrightarrow> fold_name s = fold_name t"

text \<open>Serving a restore.\<close>

definition serve_restore :: "target_env \<Rightarrow> control_client \<Rightarrow> serve_options \<Rightarrow> goerr option \<Rightarrow> tls_conn result \<Rightarrow> target_world
    \<Rightarrow> goerr option \<times> target_world" where
  "serve_restore env c o' tlsConfig accept w =
    (if so_restoreSnapshot o' = [] \<or> so_restoreSource o' = [] \<or> so_restoreWriter o' = [] then
       (Some (errorf ''--restore-snapshot, --restore-source, and --restore-writer are required for restore serving'' []), w)
     else if so_tlsDir o' = [] then (Some (errorf ''--tls-dir is required for restore serving'' []), w)
     else case cut_char slash (so_restoreWriter o') of
         None \<Rightarrow> (Some (errorf ''--restore-writer must be namespace/name'' []), w)
       | Some (writerNamespace, writerName) \<Rightarrow>
         if writerNamespace = [] \<or> writerName = [] then (Some (errorf ''--restore-writer must be namespace/name'' []), w)
         else case tv_listen env of
             Some e \<Rightarrow> (Some (wrapf ''listen for restore transfers: %w'' [] e), w)
           | None \<Rightarrow>
             let w = reportTarget env c (target_report o' RunKindRestore ''Ready'' []) w in
             case ServeRestoreTarget (tv_tunnel env) (de_cwd env) tlsConfig accept (so_target o')
                 \<lparr>erw_identity = SourceIdentity (so_runNamespace o') (so_runName o') writerNamespace writerName,
                  erw_snapshot = so_restoreSnapshot o', erw_source = so_restoreSource o'\<rparr> (dw_fs w) of
               (err, f) \<Rightarrow>
                 (err, reportTarget env c (case err of None \<Rightarrow> target_report o' RunKindRestore ''Completed'' []
                    | Some e \<Rightarrow> target_report o' RunKindRestore ''Failed'' (error_text e)) (w\<lparr>dw_fs := f\<rparr>)))"

text \<open>The end of a backup, on command or at once: the mirror is complete as it is, a snapshot is finalized.\<close>

definition ack_finalize :: "target_env \<Rightarrow> control_client \<Rightarrow> serve_options \<Rightarrow> string \<Rightarrow> target_world \<Rightarrow> target_world" where
  "ack_finalize env c o' commandID w =
    (if commandID = [] then w
     else snd (client_AcknowledgeTargetCommand env c (command_ack o' commandID TargetCommandFinalizeBackupJob) w))"

definition fail_backup :: "target_env \<Rightarrow> control_client \<Rightarrow> serve_options \<Rightarrow> goerr \<Rightarrow> target_world \<Rightarrow> goerr option \<times> target_world" where
  "fail_backup env c o' e w = (Some e, reportTarget env c (target_report o' RunKindBackup ''Failed'' (error_text e)) w)"

definition completed_event :: "serve_options \<Rightarrow> string \<Rightarrow> 64 word \<Rightarrow> dp_restore_point list result \<Rightarrow> target_event" where
  "completed_event o' timestamp bytesTransferred scan =
    (target_report o' RunKindBackup ''Completed'' (case scan of Inl e \<Rightarrow> error_text e | Inr _ \<Rightarrow> []))
      \<lparr>te_snapshot := ''hourly/'' @ timestamp,
       te_restorePoints := controlRestorePoints (case scan of Inl _ \<Rightarrow> [] | Inr points \<Rightarrow> points) (''hourly/'' @ timestamp) bytesTransferred,
       te_restoreScanned := (case scan of Inl _ \<Rightarrow> False | Inr _ \<Rightarrow> True)\<rparr>"

definition finalize_options_of :: "serve_options \<Rightarrow> string \<Rightarrow> string list \<Rightarrow> finalize_options" where
  "finalize_options_of o' timestamp sources =
    \<lparr>fo_targetRoot = so_target o', fo_runID = so_runID o', fo_timestamp = timestamp, fo_sources = sources, fo_retention = so_retention o'\<rparr>"

definition complete_backup :: "target_env \<Rightarrow> control_client \<Rightarrow> serve_options \<Rightarrow> bool \<Rightarrow> string \<Rightarrow> string \<Rightarrow> string list \<Rightarrow> 64 word \<Rightarrow> target_world
    \<Rightarrow> goerr option \<times> target_world" where
  "complete_backup env c o' mirror commandID timestamp sources bytesTransferred w =
    (if mirror then
       (None, ack_finalize env c o' commandID
         (reportTarget env c ((target_report o' RunKindBackup ''Completed'' [])\<lparr>te_snapshot := ''current'', te_restoreScanned := True\<rparr>) w))
     else case FinalizeBackup (de_cwd env) (finalize_options_of o' timestamp sources) (dw_fs w) of
         ((points, Some e), f) \<Rightarrow> fail_backup env c o' e (w\<lparr>dw_fs := f\<rparr>)
       | ((points, None), f) \<Rightarrow>
           (None, ack_finalize env c o' commandID
             (reportTarget env c (completed_event o' timestamp bytesTransferred (ScanRestorePoints (abs_path (de_cwd env) (so_target o')) f))
               (w\<lparr>dw_fs := f\<rparr>))))"

section \<open>The whole command\<close>

definition connect_source :: "target_env \<Rightarrow> serve_options \<Rightarrow> bool \<Rightarrow> tls_conn result \<Rightarrow> target_world \<Rightarrow> target_world" where
  "connect_source env o' mirror accept w =
    (case receiver_accepts (tv_tunnel env) (abs_path (de_cwd env) (so_target o')) mirror (so_controlEndpoint o' \<noteq> []) accept
        (tw_receiver w, dw_fs w) of
       (r, f) \<Rightarrow> w\<lparr>tw_receiver := r, dw_fs := f\<rparr>)"

text \<open>\<open><-receiverDone\<close>\<close>

fun receiver_done :: "(tls_conn result \<Rightarrow> target_world \<Rightarrow> target_world) \<Rightarrow> happening list \<Rightarrow> target_world \<Rightarrow> (goerr option \<times> target_world) option" where
  "receiver_done accept items w =
    (case receiver_result (tw_receiver w, dw_fs w) of
       Some (r, _) \<Rightarrow> Some (r, w)
     | None \<Rightarrow> (case items of
           [] \<Rightarrow> None
         | SourceConnects c # rest \<Rightarrow> receiver_done accept rest (accept c w)
         | _ # rest \<Rightarrow> receiver_done accept rest w))"

declare receiver_done.simps [simp del]

definition start_receiver :: "target_env \<Rightarrow> serve_options \<Rightarrow> goerr option \<Rightarrow> bool \<Rightarrow> expected_transfer_source list \<Rightarrow> receiver result" where
  "start_receiver env o' tlsConfig mirror sources =
    (if so_tlsDir o' = [] \<or> sources = [] then Inr NoReceiver
     else case tv_listen env of
         Some e \<Rightarrow> Inl (wrapf ''listen for source transfers: %w'' [] e)
       | None \<Rightarrow> Inr (receiver_starts tlsConfig
           \<lparr>tro_targetRoot = so_target o', tro_runID = so_runID o', tro_mirror = mirror, tro_sources = sources,
            tro_continueOnTransferError = so_controlEndpoint o' \<noteq> []\<rparr>))"

text \<open>From the command to finalize on: its timestamp and sources, when it has any, replace those of the command line.\<close>

definition asked_timestamp :: "serve_options \<Rightarrow> finalize_job \<Rightarrow> string" where
  "asked_timestamp o' finalize = (if fj_timestamp finalize \<noteq> [] then fj_timestamp finalize else so_timestamp o')"

definition asked_sources :: "string list \<Rightarrow> finalize_job \<Rightarrow> string list" where
  "asked_sources sources finalize = (if fj_sources finalize \<noteq> [] then finalizeCommandSources (fj_sources finalize) else sources)"

definition obey :: "target_env \<Rightarrow> control_client \<Rightarrow> serve_options \<Rightarrow> bool \<Rightarrow> string list \<Rightarrow> target_command \<Rightarrow> happening list \<Rightarrow> target_world
    \<Rightarrow> (goerr option \<times> target_world) option" where
  "obey env c o' mirror finalizeSources command items w =
    (let finalize = the (tc_finalize command) in
     map_option (\<lambda>(received, w). case received of
         Some e \<Rightarrow> fail_backup env c o' e w
       | None \<Rightarrow> complete_backup env c o' mirror (tc_commandID command) (asked_timestamp o' finalize)
           (asked_sources finalizeSources finalize) (fj_bytesTransferred finalize) w)
       (receiver_done (connect_source env o' mirror) items w))"

definition ready :: "target_env \<Rightarrow> control_client \<Rightarrow> serve_options \<Rightarrow> target_world \<Rightarrow> target_world" where
  "ready env c o' = reportTarget env c (target_report o' RunKindBackup ''Ready'' [])"

definition serve_backup :: "target_env \<Rightarrow> control_client \<Rightarrow> serve_options \<Rightarrow> goerr option \<Rightarrow> happening list \<Rightarrow> target_world
    \<Rightarrow> (goerr option \<times> target_world) option" where
  "serve_backup env c o' tlsConfig items w =
    (if so_runID o' = [] then Some (Some (errorf ''--run-id is required'' []), w)
     else let mirror = EqualFold (so_strategy o') ''mirror''; accept = connect_source env o' mirror in
     if \<not> mirror \<and> \<not> EqualFold (so_strategy o') ''snapshot'' then Some (Some (errorf ''unsupported strategy %q'' [so_strategy o']), w)
     else case ParseExpectedTransferSourcesWithStrategy (so_runNamespace o') (so_runName o') (so_runID o') mirror (so_sources o') of
         Inl e \<Rightarrow> Some (Some e, w)
       | Inr (receiverSources, finalizeSources) \<Rightarrow>
     (case start_receiver env o' tlsConfig mirror receiverSources of
         Inl e \<Rightarrow> Some (Some e, w)
       | Inr receiver \<Rightarrow>
         let w = w\<lparr>tw_receiver := receiver\<rparr> in
         if so_controlEndpoint o' = [] then
           map_option (\<lambda>(received, w). case received of
               Some e \<Rightarrow> fail_backup env c o' e w
             | None \<Rightarrow> complete_backup env c o' mirror [] (so_timestamp o') finalizeSources 0 (ready env c o' w))
             (receiver_done accept items w)
         else
           (case WaitForFinalizeBackupJobWithRecovery accept env c (Some (recover_command env c o')) items (ready env c o' w) of
              None \<Rightarrow> None
            | Some (Inl e, _, w) \<Rightarrow> Some (fail_backup env c o' e w)
            | Some (Inr command, rest, w) \<Rightarrow> obey env c o' mirror finalizeSources command rest w)))"

definition serveTarget :: "target_env \<Rightarrow> gotime \<Rightarrow> string list \<Rightarrow> tls_conn result \<Rightarrow> happening list \<Rightarrow> target_world
    \<Rightarrow> (goerr option \<times> target_world) option" where
  "serveTarget env now args writer items w =
    (case parse_serve now args of Inl e \<Rightarrow> Some (Some e, w) | Inr o' \<Rightarrow>
     if so_target o' = [] then Some (Some (errorf ''--target is required'' []), w)
     else case (if so_tlsDir o' = [] then Inr no_bundle else LoadBundle (de_readFile env) (so_tlsDir o')) of
         Inl e \<Rightarrow> Some (Some e, w)
       | Inr bundle \<Rightarrow>
     (case dataPlaneControlClient env (so_controlEndpoint o') (so_controlNamespace o') (so_tlsDir o') bundle of
         Inl e \<Rightarrow> Some (Some e, w)
       | Inr c \<Rightarrow>
         let tlsConfig = (case TLSConfig (de_crypto env) bundle no_identity [] of Inl e \<Rightarrow> Some e | Inr _ \<Rightarrow> None) in
         if so_restoreSnapshot o' \<noteq> [] \<or> so_restoreSource o' \<noteq> [] \<or> so_restoreWriter o' \<noteq> [] then
           Some (serve_restore env c o' tlsConfig writer w)
         else serve_backup env c o' tlsConfig items w))"

section \<open>The receiver in steps is the receiver\<close>

lemma receiver_done_cases:
  "tw_receiver w = NoReceiver \<Longrightarrow> receiver_done accept items w = Some (None, w)"
  "tw_receiver w = Returned r \<Longrightarrow> receiver_done accept items w = Some (r, w)"
  "tw_receiver w = Accepting expected completed \<Longrightarrow> receiver_done accept [] w = None"
  "tw_receiver w = Accepting expected completed \<Longrightarrow> receiver_done accept (SourceConnects x # rest) w = receiver_done accept rest (accept x w)"
  by (subst receiver_done.simps, simp add: receiver_result_def)+

lemma connect_cases:
  "connect_source env o' mirror (Inl e) (w\<lparr>tw_receiver := Accepting expected completed\<rparr>) = w\<lparr>tw_receiver := Returned (Some e)\<rparr>"
  "receiveTransfer (tv_tunnel env) (abs_path (de_cwd env) (so_target o')) expected c mirror (dw_fs w) = ((identity, None), f) \<Longrightarrow>
    connect_source env o' mirror (Inr c) (w\<lparr>tw_receiver := Accepting expected completed\<rparr>)
      = w\<lparr>dw_fs := f, tw_receiver := still_open expected (List.insert identity completed)\<rparr>"
  "receiveTransfer (tv_tunnel env) (abs_path (de_cwd env) (so_target o')) expected c mirror (dw_fs w) = ((identity, Some e), f) \<Longrightarrow>
    connect_source env o' mirror (Inr c) (w\<lparr>tw_receiver := Accepting expected completed\<rparr>)
      = w\<lparr>dw_fs := f, tw_receiver := (if so_controlEndpoint o' \<noteq> [] then Accepting expected completed else Returned (Some e))\<rparr>"
  by (simp_all add: connect_source_def receiver_accepts_def)

lemma receive_loop_steps:
  assumes "completed = [] \<or> length completed \<le> length expected"
  shows "map_option (\<lambda>(r, w). (r, dw_fs w))
       (receiver_done (connect_source env o' mirror) (map SourceConnects accepts) (w\<lparr>tw_receiver := still_open expected completed\<rparr>))
     = receive_loop (tv_tunnel env) (abs_path (de_cwd env) (so_target o')) expected mirror (so_controlEndpoint o' \<noteq> []) completed accepts (dw_fs w)"
  using assms
proof (induction accepts arbitrary: completed w)
  case Nil
  then show ?case
    by (simp add: still_open_def receiver_done_cases receive_loop.simps)
next
  case (Cons a accepts)
  show ?case
  proof (cases "length completed < length expected")
    case False
    then show ?thesis
      by (simp add: still_open_def receiver_done_cases receive_loop.simps)
  next
    case True
    show ?thesis
    proof (cases a)
      case (Inl e)
      then show ?thesis
        using True by (subst receive_loop.simps) (simp add: still_open_def receiver_done_cases connect_cases)
    next
      case (Inr c)
      obtain identity err f where r: "receiveTransfer (tv_tunnel env) (abs_path (de_cwd env) (so_target o')) expected c mirror (dw_fs w)
            = ((identity, err), f)"
        by (metis prod.exhaust)
      show ?thesis
      proof (cases err)
        case None
        have "length (List.insert identity completed) \<le> length expected"
          using True by (simp add: List.insert_def)
        then show ?thesis
          using Inr True r None Cons.IH [of "List.insert identity completed" "w\<lparr>dw_fs := f\<rparr>"]
          by (subst receive_loop.simps) (simp add: still_open_def [of expected completed] receiver_done_cases connect_cases)
      next
        case (Some e)
        then show ?thesis
          using Inr True r Cons.IH [of completed "w\<lparr>dw_fs := f\<rparr>"]
          by (subst receive_loop.simps) (auto simp add: still_open_def receiver_done_cases connect_cases)
      qed
    qed
  qed
qed

text \<open>
  C0. The receiver that serveTarget runs beside its wait is the receiver of the data
  plane: taking its connections one by one gives the result and the file system of
  ServeTargetReceiver.
\<close>

theorem receiver_step_by_step:
  "map_option (\<lambda>(r, w). (r, dw_fs w))
     (receiver_done (connect_source env o' mirror) (map SourceConnects accepts)
       (w\<lparr>tw_receiver := receiver_starts tlsConfig
          \<lparr>tro_targetRoot = so_target o', tro_runID = so_runID o', tro_mirror = mirror, tro_sources = sources,
           tro_continueOnTransferError = so_controlEndpoint o' \<noteq> []\<rparr>\<rparr>))
   = ServeTargetReceiver (tv_tunnel env) (de_cwd env) tlsConfig accepts
       \<lparr>tro_targetRoot = so_target o', tro_runID = so_runID o', tro_mirror = mirror, tro_sources = sources,
        tro_continueOnTransferError = so_controlEndpoint o' \<noteq> []\<rparr> (dw_fs w)"
  by (simp add: receiver_starts_def ServeTargetReceiver_def Let_def receiver_done_cases receive_loop_steps split: sum.split option.split)

section \<open>What a target reports\<close>

lemma report_sent: "can_report env c \<Longrightarrow> reportTarget env c e w = w\<lparr>dw_sent := dw_sent w @ [TargetSent e]\<rparr>"
  by (simp add: reportTarget_def client_ReportTarget_def grpc_send_def can_report_def)

lemma ack_sent: "can_report env c \<Longrightarrow>
    client_AcknowledgeTargetCommand env c e w = (de_reply env (dw_sent w) (AckSent e), w\<lparr>dw_sent := dw_sent w @ [AckSent e]\<rparr>)"
  by (simp add: client_AcknowledgeTargetCommand_def grpc_send_def can_report_def)

text \<open>An event that does not say that the run is complete.\<close>

primrec undecided :: "dp_event \<Rightarrow> bool" where
  "undecided (TargetSent e) \<longleftrightarrow> te_phase e \<noteq> ''Completed''"
| "undecided (SourceSent e) \<longleftrightarrow> False"
| "undecided (AckSent a) \<longleftrightarrow> ca_commandType a = TargetCommandRecoverSpace"

definition goes_on :: "target_world \<Rightarrow> target_world \<Rightarrow> bool" where
  "goes_on w w' \<longleftrightarrow> (\<exists>es. dw_sent w' = dw_sent w @ es \<and> list_all undecided es)"

lemma goes_on_refl [simp]: "goes_on w w"
  by (simp add: goes_on_def)

lemma goes_on_trans: "goes_on u v \<Longrightarrow> goes_on v w \<Longrightarrow> goes_on u w"
  by (force simp: goes_on_def)

lemma connect_sends_nothing [simp]: "dw_sent (connect_source env o' mirror a w) = dw_sent w"
  by (simp add: connect_source_def split: prod.split)

lemma recovery_goes_on:
  assumes "can_report env c" "tc_type command = TargetCommandRecoverSpace"
  shows "goes_on w (snd (recover_command env c o' command w))"
  using assms
  by (auto simp: recover_command_def report_sent ack_sent goes_on_def Let_def command_ack_def recovery_event_def target_report_def
      split: option.split prod.split)

lemma wait_goes_on:
  assumes "can_report env c"
    and "wait_for_finalize (connect_source env o' mirror) (Some (recover_command env c o')) items w = Some (res, rest, w')"
  shows "goes_on w w' \<and> (case res of Inl _ \<Rightarrow> True
    | Inr command \<Rightarrow> CommandArrives command \<in> set items \<and> tc_type command = TargetCommandFinalizeBackupJob \<and> tc_finalize command \<noteq> None)"
  using assms(2)
proof (induction items arbitrary: w)
  case (Cons item items)
  show ?case
  proof (cases item)
    case (SourceConnects a)
    have "goes_on w (connect_source env o' mirror a w)"
      by (simp add: goes_on_def)
    then show ?thesis
      using Cons SourceConnects by (force intro: goes_on_trans split: sum.splits)
  next
    case (CommandArrives command)
    show ?thesis
    proof (cases "tc_type command = TargetCommandRecoverSpace \<and> tc_recoverSpace command \<noteq> None")
      case True
      obtain err v where r: "recover_command env c o' command w = (err, v)"
        by (cases "recover_command env c o' command w")
      have "goes_on w v"
        using recovery_goes_on [OF assms(1), of command w o'] True r by simp
      then show ?thesis
        using Cons CommandArrives True r by (cases err) (force intro: goes_on_trans split: sum.splits)+
    next
      case False
      then show ?thesis
        using Cons.prems Cons.IH [of w] CommandArrives by (cases res) (auto split: if_splits)
    qed
  qed (use Cons.prems in auto)
qed simp

lemma receiver_done_silent:
  assumes "receiver_done (connect_source env o' mirror) items w = Some (r, w')"
  shows "dw_sent w' = dw_sent w \<and> receiver_result (tw_receiver w', dw_fs w') = Some (r, dw_fs w')"
  using assms
proof (induction items arbitrary: w)
  case Nil
  then show ?case
    by (auto simp: receiver_done.simps [of _ "[]"] receiver_result_def split: receiver.splits)
next
  case (Cons item items)
  then show ?case
    by (subst (asm) (2) receiver_done.simps) (fastforce simp: receiver_result_def split: receiver.splits happening.splits)
qed

text \<open>The reports of a run that ends with an error, and of one that does not.\<close>

definition failed_as :: "serve_options \<Rightarrow> goerr \<Rightarrow> dp_event list \<Rightarrow> bool" where
  "failed_as o' e sent \<longleftrightarrow> (\<exists>es. sent = es @ [TargetSent (target_report o' RunKindBackup ''Failed'' (error_text e))] \<and> list_all undecided es)"

definition completed_as :: "target_env \<Rightarrow> serve_options \<Rightarrow> string \<Rightarrow> finalize_job \<Rightarrow> fs \<Rightarrow> dp_event list \<Rightarrow> bool" where
  "completed_as env o' commandID finalize g sent \<longleftrightarrow>
    (\<exists>es event. list_all undecided es \<and> te_phase event = ''Completed''
       \<and> sent = es @ TargetSent event # (if commandID = [] then [] else [AckSent (command_ack o' commandID TargetCommandFinalizeBackupJob)])
       \<and> (if EqualFold (so_strategy o') ''mirror'' then te_snapshot event = ''current''
          else \<exists>f points sources. FinalizeBackup (de_cwd env) (finalize_options_of o' (asked_timestamp o' finalize) sources) f = ((points, None), g)
            \<and> (fj_sources finalize \<noteq> [] \<longrightarrow> sources = finalizeCommandSources (fj_sources finalize))
            \<and> event = completed_event o' (asked_timestamp o' finalize) (fj_bytesTransferred finalize)
                (ScanRestorePoints (abs_path (de_cwd env) (so_target o')) g)))"

lemma completed_phase [simp]: "te_phase (completed_event o' ts n scan) = ''Completed''" "te_phase (target_report o' k p m) = p"
  by (simp_all add: completed_event_def target_report_def)

lemma ack_finalize_sent: "can_report env c \<Longrightarrow> ack_finalize env c o' commandID w
    = w\<lparr>dw_sent := dw_sent w @ (if commandID = [] then [] else [AckSent (command_ack o' commandID TargetCommandFinalizeBackupJob)])\<rparr>"
  by (simp add: ack_finalize_def ack_sent)

lemma completion_reported:
  assumes "can_report env c" "complete_backup env c o' (EqualFold (so_strategy o') ''mirror'') commandID (asked_timestamp o' finalize) sources
      (fj_bytesTransferred finalize) w = (err, w')"
    and "fj_sources finalize \<noteq> [] \<Longrightarrow> sources = finalizeCommandSources (fj_sources finalize)"
    and "dw_sent w = sent @ es" "list_all undecided es"
  shows "tw_receiver w' = tw_receiver w \<and> (case err of
      Some e \<Rightarrow> \<exists>sent'. dw_sent w' = sent @ sent' \<and> failed_as o' e sent'
    | None \<Rightarrow> \<exists>sent'. dw_sent w' = sent @ sent' \<and> completed_as env o' commandID finalize (dw_fs w') sent')"
proof (cases "EqualFold (so_strategy o') ''mirror''")
  case True
  let ?event = "(target_report o' RunKindBackup ''Completed'' [])\<lparr>te_snapshot := ''current'', te_restoreScanned := True\<rparr>"
  have w': "err = None" "w' = w\<lparr>dw_sent := sent @ (es @ TargetSent ?event
      # (if commandID = [] then [] else [AckSent (command_ack o' commandID TargetCommandFinalizeBackupJob)]))\<rparr>"
    using assms True by (auto simp: complete_backup_def report_sent ack_finalize_sent)
  show ?thesis
    unfolding w' option.case completed_as_def using True assms(5)
    by (auto intro!: exI [of _ es] exI [of _ ?event])
next
  case False
  obtain points r f where fin: "FinalizeBackup (de_cwd env) (finalize_options_of o' (asked_timestamp o' finalize) sources) (dw_fs w) = ((points, r), f)"
    by (metis prod.exhaust)
  show ?thesis
  proof (cases r)
    case (Some e)
    then show ?thesis
      using assms False fin by (auto simp: complete_backup_def fail_backup_def report_sent failed_as_def)
  next
    case None
    then have w': "err = None" "w' = w\<lparr>dw_fs := f, dw_sent := sent @ (es @ TargetSent (completed_event o' (asked_timestamp o' finalize)
          (fj_bytesTransferred finalize) (ScanRestorePoints (abs_path (de_cwd env) (so_target o')) f))
        # (if commandID = [] then [] else [AckSent (command_ack o' commandID TargetCommandFinalizeBackupJob)]))\<rparr>"
      using assms False fin by (auto simp: complete_backup_def report_sent ack_finalize_sent)
    have "\<exists>f points sources. FinalizeBackup (de_cwd env) (finalize_options_of o' (asked_timestamp o' finalize) sources) f = ((points, None), dw_fs w')
        \<and> (fj_sources finalize \<noteq> [] \<longrightarrow> sources = finalizeCommandSources (fj_sources finalize))"
      using fin None assms(3) w' by (intro exI [of _ "dw_fs w"] exI [of _ points] exI [of _ sources]) simp
    then show ?thesis
      unfolding w' option.case completed_as_def using False assms(5) by (auto intro!: exI [of _ es])
  qed
qed

lemma obey_reported:
  assumes "can_report env c" "obey env c o' (EqualFold (so_strategy o') ''mirror'') finalizeSources command items w = Some (err, w')"
    and "tc_finalize command = Some finalize" "dw_sent w = sent @ es" "list_all undecided es"
  shows "case err of
      Some e \<Rightarrow> \<exists>sent'. dw_sent w' = sent @ sent' \<and> failed_as o' e sent'
    | None \<Rightarrow> receiver_result (tw_receiver w', dw_fs w') = Some (None, dw_fs w')
        \<and> (\<exists>sent'. dw_sent w' = sent @ sent' \<and> completed_as env o' (tc_commandID command) finalize (dw_fs w') sent')"
proof -
  obtain received v where d: "receiver_done (connect_source env o' (EqualFold (so_strategy o') ''mirror'')) items w = Some (received, v)"
    using assms(2) by (auto simp: obey_def Let_def)
  have after: "(case received of Some e \<Rightarrow> fail_backup env c o' e v
       | None \<Rightarrow> complete_backup env c o' (EqualFold (so_strategy o') ''mirror'') (tc_commandID command) (asked_timestamp o' finalize)
          (asked_sources finalizeSources finalize) (fj_bytesTransferred finalize) v)
      = (err, w')"
    using assms(2,3) d by (simp add: obey_def Let_def)
  note silent = receiver_done_silent [OF d]
  show ?thesis
  proof (cases received)
    case (Some e)
    then show ?thesis
      using after silent assms by (auto simp: fail_backup_def report_sent failed_as_def)
  next
    case None
    have "dw_sent v = sent @ es"
      using silent assms(4) by simp
    note outcome = completion_reported [OF assms(1) _ _ this assms(5), of o' "tc_commandID command" finalize "asked_sources finalizeSources finalize" err w']
    show ?thesis
      using outcome after silent None by (cases err) (auto simp: receiver_result_def asked_sources_def split: receiver.splits)
  qed
qed


definition demo_target_env :: target_env where
  "demo_target_env = \<lparr>de_crypto = demo_crypto\<lparr>AppendCertsFromPEM := \<lambda>p. Some []\<rparr>, de_readFile = (\<lambda>p. Inr ''pem''), de_dial = None,
     de_reply = (\<lambda>sent e. None), de_register = None, de_cwd = [], tv_listen = None, tv_tunnel = (\<lambda>root send c f. (None, f)),
     tv_avail = (\<lambda>f. Inr 1000), tv_mtime = (\<lambda>s. 0)\<rparr>"

definition demo_serve_options :: serve_options where
  "demo_serve_options = \<lparr>so_target = ''/b'', so_runID = ''r1'', so_tlsDir = ''/tls'', so_controlEndpoint = ''operator:443'',
     so_controlNamespace = ''operator'', so_runNamespace = ''ops'', so_runName = ''nightly'', so_targetNamespace = ''ops'', so_targetName = ''m'',
     so_listen = '':873'', so_timestamp = ''2024-03-01T00-00-00Z'', so_strategy = ''Snapshot'', so_restoreSnapshot = [], so_restoreSource = [],
     so_restoreWriter = [], so_retention = fo_retention demo_options, so_sources = []\<rparr>"

definition demo_target_client :: control_client where
  "demo_target_client = \<lparr>dc_grpcEndpoint = ''operator:443'', dc_tlsBundle = no_bundle, dc_controlCAPEM = ''pem'',
     dc_expectedControl = ControlGRPCServerIdentity ''operator''\<rparr>"

definition demo_finalize :: finalize_job where
  "demo_finalize = \<lparr>fj_timestamp = ''2024-02-29T10-11-12Z'',
     fj_sources = [\<lparr>es_namespace = ''ops'', es_name = ''db'', es_destinationPath = ''ns''\<rparr>], fj_bytesTransferred = 5\<rparr>"

definition demo_happenings :: "happening list" where
  "demo_happenings = [CommandArrives \<lparr>tc_commandID = ''r1'', tc_type = TargetCommandRecoverSpace, tc_finalize = None,
      tc_recoverSpace = Some \<lparr>rv_failedSourceNamespace = ''ops'', rv_failedSourceName = ''db'', rv_reason = ''OutOfSpace'', rv_minAvailableBytes = 10, rv_protectedSnapshots = []\<rparr>, tc_abort = None\<rparr>,
    CommandArrives \<lparr>tc_commandID = ''f1'', tc_type = TargetCommandFinalizeBackupJob, tc_finalize = Some demo_finalize,
      tc_recoverSpace = None, tc_abort = None\<rparr>]"

definition demo_target_world :: target_world where
  "demo_target_world = \<lparr>dw_fs = demo_store, dw_sent = [], tw_receiver = NoReceiver\<rparr>"

lemma demo_served:
  "map_option fst (serve_backup demo_target_env demo_target_client demo_serve_options None demo_happenings demo_target_world) = Some None"
  by code_simp


end
