(* ===== verification/Source_Process.thy ===== *)
theory Source_Process
  imports Control_Client Command_Flags Kube_Api Rsync
begin

text \<open>
  The processes of a source and of a restore writer: sendSource and restore of
  cli/cli.go, with SendSource and ReceiveRestore of dataplane/transport.go, which run
  rsync against a bridge to the target. The theorems say what such a process reports and
  that the numbers of its last report are those that rsync printed.
\<close>

section \<open>Sending and receiving through a bridge\<close>

text \<open>
  What is outside: whether rsync is installed, listening on the loopback, the connection
  of rsync to the bridge, dialling the target with the TLS configuration, the copying of
  bytes, rsync itself, and the two output streams. \<open>sv_wide\<close> is what the conversion of
  numbers beyond \<open>uint64\<close> gives.
\<close>

record source_env = dp_env +
  sv_lookPath :: "goerr option"
  sv_listen :: "string result"
  sv_accept :: "goerr option"
  sv_dialTarget :: "tls_config \<Rightarrow> string \<Rightarrow> conn result"
  sv_proxy :: "conn \<Rightarrow> goerr option \<times> conn"
  sv_rsync :: rsync_process
  sv_wide :: "64 word"
  sv_stdout :: conn
  sv_stderr :: conn

record source_sender_options =
  ss_source :: string
  ss_destination :: string
  ss_targetEndpoint :: string
  ss_tlsBundle :: tls_bundle
  ss_tlsDir :: string
  ss_expectedTarget :: identity
  ss_delete :: bool
  ss_oneFileSystem :: bool
  ss_dryRun :: bool

record restore_writer_options =
  rw_destination :: string
  rw_snapshot :: string
  rw_source :: string
  rw_targetEndpoint :: string
  rw_tlsBundle :: tls_bundle
  rw_expectedTarget :: identity
  rw_delete :: bool
  rw_oneFileSystem :: bool
  rw_dryRun :: bool

text \<open>The error, the calls of \<open>Progress\<close>, and what the connection to the target was given, when there was one.\<close>

type_synonym sending = "run_error option \<times> transfer_stats list \<times> conn option"

definition not_sent :: "goerr \<Rightarrow> sending" where
  "not_sent e = (Some (PlainError e), [], None)"

definition print_line :: "source_env \<Rightarrow> string \<Rightarrow> string list \<Rightarrow> sending" where
  "print_line env f args = (map_option PlainError (fst (conn_write (sv_stdout env) (render f args []))), [], None)"

definition tunnel_args :: "bool \<Rightarrow> bool \<Rightarrow> string list" where
  "tunnel_args delete oneFileSystem = rsyncArgs \<lparr>ry_source = [], ry_destination = [], ry_delete = delete, ry_oneFileSystem = oneFileSystem, ry_dryRun = False\<rparr>"

definition bridge_url :: "string \<Rightarrow> string" where
  "bridge_url addr = ''rsync://'' @ addr @ ''/krm/''"

definition rsyncTunnelClientArgs :: "source_sender_options \<Rightarrow> string \<Rightarrow> string list" where
  "rsyncTunnelClientArgs opts bridgeAddr = tunnel_args (ss_delete opts) (ss_oneFileSystem opts) @ [rsync_slash (ss_source opts), bridge_url bridgeAddr]"

definition rsyncRestoreClientArgs :: "restore_writer_options \<Rightarrow> string \<Rightarrow> string list" where
  "rsyncRestoreClientArgs opts bridgeAddr = tunnel_args (rw_delete opts) (rw_oneFileSystem opts) @ [bridge_url bridgeAddr, rsync_slash (rw_destination opts)]"

text \<open>rsync runs beside the bridge; its error comes first.\<close>

definition run_bridged :: "source_env \<Rightarrow> string list \<Rightarrow> goerr option \<times> conn option \<Rightarrow> sending" where
  "run_bridged env args bridged =
    (case runRsyncCommand (sv_wide env) (sv_rsync env) args (Some (sv_stdout env)) (Some (sv_stderr env)) True of
       (stats, runErr, reports) \<Rightarrow>
         ((case runErr of Some e \<Rightarrow> Some e | None \<Rightarrow> map_option PlainError (fst bridged)), reports, snd bridged))"

definition sendSourceRsyncTunnel :: "source_env \<Rightarrow> source_sender_options \<Rightarrow> sending" where
  "sendSourceRsyncTunnel env opts =
    (case TLSConfig (de_crypto env) (ss_tlsBundle opts) (ss_expectedTarget opts) [] of
       Inl e \<Rightarrow> not_sent e
     | Inr config \<Rightarrow> (case sv_listen env of
         Inl e \<Rightarrow> not_sent (wrapf ''listen for local rsync bridge: %w'' [] e)
       | Inr addr \<Rightarrow> run_bridged env (rsyncTunnelClientArgs opts addr)
           (bridgeLocalRsyncToTarget (sv_accept env) (sv_dialTarget env config (ss_targetEndpoint opts)) (sv_proxy env) (ss_destination opts))))"

definition SendSource :: "source_env \<Rightarrow> source_sender_options \<Rightarrow> sending" where
  "SendSource env opts =
    (if ss_source opts = [] \<or> ss_destination opts = [] \<or> ss_targetEndpoint opts = [] then
       not_sent (errorf ''source, destination, and target endpoint are required'' [])
     else case NormalizeTargetSubpath (ss_destination opts) of
         Inl e \<Rightarrow> not_sent (wrapf ''invalid destination: %w'' [] e)
       | Inr _ \<Rightarrow>
         if ss_dryRun opts then
           print_line env (''rsync-over-mtls source=%q targetEndpoint=%q destination=%q'' @ [CHR 0x0A])
             [ss_source opts, ss_targetEndpoint opts, ss_destination opts]
         else case sv_lookPath env of
             Some e \<Rightarrow> not_sent (wrapf ''rsync is required for source transfers: %w'' [] e)
           | None \<Rightarrow> sendSourceRsyncTunnel env opts)"

definition receiveRestoreRsyncTunnel :: "source_env \<Rightarrow> restore_writer_options \<Rightarrow> string \<Rightarrow> string \<Rightarrow> fs \<Rightarrow> sending \<times> fs" where
  "receiveRestoreRsyncTunnel env opts snapshot source f =
    (case TLSConfig (de_crypto env) (rw_tlsBundle opts) (rw_expectedTarget opts) [] of
       Inl e \<Rightarrow> (not_sent e, f)
     | Inr config \<Rightarrow> (case os_mkdir_all f (abs_path (de_cwd env) (rw_destination opts)) of
         (Inl e, f) \<Rightarrow> (not_sent e, f)
       | (Inr _, f) \<Rightarrow> (case sv_listen env of
           Inl e \<Rightarrow> (not_sent (wrapf ''listen for local restore rsync bridge: %w'' [] e), f)
         | Inr addr \<Rightarrow> (run_bridged env (rsyncRestoreClientArgs opts addr)
             (bridgeLocalRsyncFromTarget (sv_accept env) (sv_dialTarget env config (rw_targetEndpoint opts)) (sv_proxy env) snapshot source), f))))"

definition ReceiveRestore :: "source_env \<Rightarrow> restore_writer_options \<Rightarrow> fs \<Rightarrow> sending \<times> fs" where
  "ReceiveRestore env opts f =
    (if rw_destination opts = [] \<or> rw_snapshot opts = [] \<or> rw_source opts = [] \<or> rw_targetEndpoint opts = [] then
       (not_sent (errorf ''destination, snapshot, source, and target endpoint are required'' []), f)
     else case NormalizeRelativePath (rw_snapshot opts) of
         Inl e \<Rightarrow> (not_sent (wrapf ''invalid restore snapshot: %w'' [] e), f)
       | Inr snapshot \<Rightarrow> (case NormalizeTargetSubpath (rw_source opts) of
           Inl e \<Rightarrow> (not_sent (wrapf ''invalid restore source: %w'' [] e), f)
         | Inr source \<Rightarrow>
           if rw_dryRun opts then
             (print_line env (''krm-restore targetEndpoint=%q snapshot=%q source=%q destination=%q'' @ [CHR 0x0A])
               [rw_targetEndpoint opts, snapshot, source, rw_destination opts], f)
           else case sv_lookPath env of
               Some e \<Rightarrow> (not_sent (wrapf ''rsync is required for restore transfers: %w'' [] e), f)
             | None \<Rightarrow> receiveRestoreRsyncTunnel env opts snapshot source f))"

section \<open>Statistics in events\<close>

definition sourceEventWithStats :: "source_event \<Rightarrow> transfer_stats \<Rightarrow> source_event" where
  "sourceEventWithStats event stats = event\<lparr>se_percent := rst_percent stats, se_bytesTransferred := rst_bytesTransferred stats,
     se_rateBytesPerSecond := rst_rateBytesPerSecond stats, se_filesTransferred := rst_filesTransferred stats,
     se_totalFiles := rst_totalFiles stats, se_totalFileSize := rst_totalFileSize stats, se_bytesSent := rst_bytesSent stats,
     se_bytesReceived := rst_bytesReceived stats, se_speedup := rst_speedup stats, se_statsComplete := rst_summary stats\<rparr>"

text \<open>A \<open>float64\<close> is 0 with either sign.\<close>

definition mergeTransferStats :: "transfer_stats \<Rightarrow> transfer_stats \<Rightarrow> transfer_stats" where
  "mergeTransferStats existing update =
    (if rst_summary update then update
     else let pick = (\<lambda>field. if field update \<noteq> 0 then field update else field existing) in
       existing\<lparr>rst_percent := (if rst_percent update \<noteq> 0 then rst_percent update else rst_percent existing),
         rst_bytesTransferred := pick rst_bytesTransferred, rst_rateBytesPerSecond := pick rst_rateBytesPerSecond,
         rst_filesTransferred := pick rst_filesTransferred, rst_totalFiles := pick rst_totalFiles, rst_totalFileSize := pick rst_totalFileSize,
         rst_bytesSent := pick rst_bytesSent, rst_bytesReceived := pick rst_bytesReceived,
         rst_speedup := (if push_bit 1 (rst_speedup update) \<noteq> 0 then rst_speedup update else rst_speedup existing)\<rparr>)"

definition cli_rsyncExitCode :: "run_error option \<Rightarrow> 32 word" where
  "cli_rsyncExitCode err = (case err of None \<Rightarrow> 0 | Some (ExitError code _) \<Rightarrow> word_of_int code | Some (PlainError _) \<Rightarrow> 1)"

section \<open>send-source and restore\<close>

definition source_report :: "send_options \<Rightarrow> string \<Rightarrow> string \<Rightarrow> source_event" where
  "source_report o' kind phase =
    \<lparr>se_runNamespace = sn_runNamespace o', se_runName = sn_runName o', se_runKind = kind, se_sourceNamespace = sn_sourceNamespace o',
     se_sourceName = sn_sourceName o', se_phase = phase, se_percent = 0, se_bytesTransferred = 0, se_rateBytesPerSecond = 0,
     se_filesTransferred = 0, se_totalFiles = 0, se_totalFileSize = 0, se_bytesSent = 0, se_bytesReceived = 0, se_speedup = 0,
     se_statsComplete = False, se_startedAt = [], se_completedAt = [], se_rsyncExitCode = 0, se_message = [], se_captureMethod = [],
     se_captureTime = [], se_volumeSnapshotName = []\<rparr>"

definition reportSource :: "'e dp_env_scheme \<Rightarrow> control_client \<Rightarrow> source_event \<Rightarrow> 'w dp_world_scheme \<Rightarrow> 'w dp_world_scheme" where
  "reportSource env c event w = snd (client_ReportSource env c event w)"

definition reportProgress :: "source_env \<Rightarrow> control_client \<Rightarrow> send_options \<Rightarrow> string \<Rightarrow> transfer_stats \<Rightarrow> transfer_stats \<times> dp_world \<Rightarrow> transfer_stats \<times> dp_world" where
  "reportProgress env c o' kind stats d = (case d of (transferStats, w) \<Rightarrow>
    let transferStats = mergeTransferStats transferStats stats in
    if \<not> rst_summary stats \<and> rst_percent stats = 0 \<and> rst_bytesTransferred stats = 0 \<and> rst_rateBytesPerSecond stats = 0 then (transferStats, w)
    else (transferStats, reportSource env c (sourceEventWithStats (source_report o' kind ''Running'') stats) w))"

definition last_report :: "send_options \<Rightarrow> string \<Rightarrow> gotime \<Rightarrow> run_error option \<Rightarrow> transfer_stats \<Rightarrow> source_event" where
  "last_report o' kind completed runErr transferStats =
    sourceEventWithStats ((source_report o' kind (if runErr = None then ''Succeeded'' else ''Failed''))
      \<lparr>se_message := (case runErr of None \<Rightarrow> [] | Some e \<Rightarrow> error_text (run_error_cause e)),
       se_completedAt := format_rfc3339 completed, se_rsyncExitCode := cli_rsyncExitCode runErr\<rparr>) transferStats"

text \<open>From the transfer on: progress is reported while it runs, the result at its end. The statistics that a local rsync
  returns are merged once more.\<close>

definition report_transfer :: "source_env \<Rightarrow> control_client \<Rightarrow> send_options \<Rightarrow> string \<Rightarrow> gotime \<Rightarrow> transfer_stats option
    \<Rightarrow> run_error option \<Rightarrow> transfer_stats list \<Rightarrow> dp_world \<Rightarrow> run_error option \<times> dp_world" where
  "report_transfer env c o' kind completed local runErr reports w =
    (case fold (reportProgress env c o' kind) reports (no_stats, w) of (transferStats, w) \<Rightarrow>
     let transferStats = (case local of None \<Rightarrow> transferStats | Some stats \<Rightarrow> mergeTransferStats transferStats stats) in
     (runErr, reportSource env c (last_report o' kind completed runErr transferStats) w))"

definition running_event :: "send_options \<Rightarrow> string \<Rightarrow> gotime \<Rightarrow> source_event" where
  "running_event o' kind started = (source_report o' kind ''Running'')\<lparr>se_startedAt := format_rfc3339 started\<rparr>"

definition local_rsync :: "source_env \<Rightarrow> string \<Rightarrow> string \<Rightarrow> send_options \<Rightarrow> transfer_stats \<times> run_error option \<times> transfer_stats list" where
  "local_rsync env source destination o' = Rsync (sv_wide env) (sv_rsync env)
     \<lparr>ry_source = source, ry_destination = destination, ry_delete = sn_delete o', ry_oneFileSystem = sn_oneFileSystem o', ry_dryRun = sn_dryRun o'\<rparr>
     (sv_stdout env) (Some (sv_stderr env)) True"

definition bundle_of :: "'e dp_env_scheme \<Rightarrow> string \<Rightarrow> tls_bundle result" where
  "bundle_of env tlsDir = (if tlsDir = [] then Inr no_bundle else LoadBundle (de_readFile env) tlsDir)"

definition client_of :: "'e dp_env_scheme \<Rightarrow> send_options \<Rightarrow> tls_bundle \<Rightarrow> control_client result" where
  "client_of env o' = dataPlaneControlClient env (sn_controlEndpoint o') (sn_controlNamespace o') (sn_tlsDir o')"

definition expected_target :: "send_options \<Rightarrow> identity" where
  "expected_target o' = TargetIdentity (sn_runNamespace o') (sn_runName o') (sn_targetNamespace o') (sn_targetName o')"

definition sendSource :: "source_env \<Rightarrow> gotime \<times> gotime \<Rightarrow> string list \<Rightarrow> dp_world \<Rightarrow> run_error option \<times> dp_world" where
  "sendSource env clock args w =
    (case parse_send args of Inl e \<Rightarrow> (Some (PlainError e), w) | Inr o' \<Rightarrow>
     if sn_source o' = [] \<or> sn_target o' = [] then (Some (PlainError (errorf ''--source and --target are required'' [])), w)
     else case bundle_of env (sn_tlsDir o') of Inl e \<Rightarrow> (Some (PlainError e), w) | Inr bundle \<Rightarrow>
     (case client_of env o' bundle of Inl e \<Rightarrow> (Some (PlainError e), w) | Inr c \<Rightarrow>
      let w = reportSource env c (running_event o' RunKindBackup (fst clock)) w in
      if sn_targetEndpoint o' \<noteq> [] then
        (if sn_targetNamespace o' = [] \<or> sn_targetName o' = [] then
           (Some (PlainError (errorf ''--target-namespace and --target-name are required with --target-endpoint'' [])), w)
         else case SendSource env \<lparr>ss_source = sn_source o', ss_destination = sn_target o', ss_targetEndpoint = sn_targetEndpoint o',
               ss_tlsBundle = bundle, ss_tlsDir = sn_tlsDir o', ss_expectedTarget = expected_target o', ss_delete = sn_delete o',
               ss_oneFileSystem = sn_oneFileSystem o', ss_dryRun = sn_dryRun o'\<rparr> of
             (runErr, reports, _) \<Rightarrow> report_transfer env c o' RunKindBackup (snd clock) None runErr reports w)
      else case local_rsync env (sn_source o') (sn_target o') o' of
          (stats, runErr, reports) \<Rightarrow> report_transfer env c o' RunKindBackup (snd clock) (Some stats) runErr reports w))"

definition check_restore :: "source_env \<Rightarrow> writer_options \<Rightarrow> fs \<Rightarrow> goerr option" where
  "check_restore env o' f =
    (if sn_targetEndpoint (wo_common o') = [] then
       (case os_stat f (abs_path (de_cwd env) (wo_snapshot o')) of
          Inl e \<Rightarrow> Some (wrapf ''snapshot path %q is not accessible: %w'' [wo_snapshot o'] e)
        | Inr info \<Rightarrow> if info \<noteq> DirN then Some (errorf ''snapshot path %q is not a directory'' [wo_snapshot o']) else None)
     else if wo_snapshotSource o' = [] then Some (errorf ''--snapshot-source is required with --target-endpoint'' [])
     else if sn_targetNamespace (wo_common o') = [] \<or> sn_targetName (wo_common o') = [] then
       Some (errorf ''--target-namespace and --target-name are required with --target-endpoint'' [])
     else if sn_tlsDir (wo_common o') = [] then Some (errorf ''--tls-dir is required with --target-endpoint'' [])
     else None)"

definition cli_restore :: "source_env \<Rightarrow> gotime \<times> gotime \<Rightarrow> string list \<Rightarrow> dp_world \<Rightarrow> run_error option \<times> dp_world" where
  "cli_restore env clock args w =
    (case parse_writer args of Inl e \<Rightarrow> (Some (PlainError e), w) | Inr wo \<Rightarrow>
     let o' = wo_common wo in
     if wo_snapshot wo = [] \<or> wo_destination wo = [] then (Some (PlainError (errorf ''--snapshot and --destination are required'' [])), w)
     else case check_restore env wo (dw_fs w) of Some e \<Rightarrow> (Some (PlainError e), w) | None \<Rightarrow>
     (case bundle_of env (sn_tlsDir o') of Inl e \<Rightarrow> (Some (PlainError e), w) | Inr bundle \<Rightarrow>
     (case client_of env o' bundle of Inl e \<Rightarrow> (Some (PlainError e), w) | Inr c \<Rightarrow>
      let w = reportSource env c (running_event o' RunKindRestore (fst clock)) w in
      if sn_targetEndpoint o' \<noteq> [] then
        (case ReceiveRestore env \<lparr>rw_destination = wo_destination wo, rw_snapshot = wo_snapshot wo, rw_source = wo_snapshotSource wo,
             rw_targetEndpoint = sn_targetEndpoint o', rw_tlsBundle = bundle, rw_expectedTarget = expected_target o',
             rw_delete = sn_delete o', rw_oneFileSystem = sn_oneFileSystem o', rw_dryRun = sn_dryRun o'\<rparr> (dw_fs w) of
           ((runErr, reports, _), f) \<Rightarrow>
             report_transfer env c o' RunKindRestore (snd clock) None runErr reports (w\<lparr>dw_fs := f\<rparr>))
      else case local_rsync env (wo_snapshot wo) (wo_destination wo) o' of
          (stats, runErr, reports) \<Rightarrow> report_transfer env c o' RunKindRestore (snd clock) (Some stats) runErr reports w)))"

section \<open>What a source reports\<close>

lemma source_report_sent: "can_report env c \<Longrightarrow> reportSource env c e w = w\<lparr>dw_sent := dw_sent w @ [SourceSent e]\<rparr>"
  by (simp add: reportSource_def client_ReportSource_def grpc_send_def can_report_def)

definition in_progress :: "source_event \<Rightarrow> bool" where
  "in_progress e \<longleftrightarrow> se_phase e = ''Running'' \<and> se_completedAt e = [] \<and> se_message e = []"

lemma report_fields [simp]:
  "in_progress (sourceEventWithStats (source_report o' kind ''Running'') stats)" "in_progress (running_event o' kind started)"
  by (simp_all add: in_progress_def sourceEventWithStats_def source_report_def running_event_def)

lemma progress_sent:
  assumes "can_report env c" "fold (reportProgress env c o' kind) reports (stats, w) = (stats', w')"
  shows "\<exists>es. w' = w\<lparr>dw_sent := dw_sent w @ map SourceSent es\<rparr> \<and> list_all in_progress es"
  using assms(2)
proof (induction reports arbitrary: stats w)
  case Nil
  then show ?case
    by (auto intro!: exI [of _ "[]"])
next
  case (Cons s reports)
  obtain m v where step: "reportProgress env c o' kind s (stats, w) = (m, v)"
    by (cases "reportProgress env c o' kind s (stats, w)")
  define e where "e = sourceEventWithStats (source_report o' kind ''Running'') s"
  have "v = w \<or> v = w\<lparr>dw_sent := dw_sent w @ map SourceSent [e]\<rparr>"
    using step assms(1) by (auto simp: reportProgress_def source_report_sent e_def Let_def split: if_splits)
  then obtain es where es: "v = w\<lparr>dw_sent := dw_sent w @ map SourceSent es\<rparr>" "list_all in_progress es"
  proof (elim disjE, goal_cases)
    case 1
    then show ?case
      by (intro 1(1) [of "[]"]) simp_all
  next
    case 2
    then show ?case
      by (intro 2(1) [of "[e]"]) (simp_all add: e_def)
  qed
  from Cons.IH [of m v] Cons.prems step obtain es' where "w' = v\<lparr>dw_sent := dw_sent v @ map SourceSent es'\<rparr>" "list_all in_progress es'"
    by auto
  then show ?case
    using es by (auto intro!: exI [of _ "es @ es'"])
qed

lemma merged_summary:
  "rst_summary s \<Longrightarrow> fst (fold (reportProgress env c o' kind) (reports @ [s]) d) = s"
  by (cases "fold (reportProgress env c o' kind) reports d") (simp add: reportProgress_def mergeTransferStats_def)

text \<open>The reports of a transfer that was begun, given what rsync printed: start, progress, and one result.\<close>

definition outcome_reported :: "send_options \<Rightarrow> string \<Rightarrow> gotime \<times> gotime \<Rightarrow> run_error option \<Rightarrow> transfer_stats option \<Rightarrow> dp_event list \<Rightarrow> bool" where
  "outcome_reported o' kind clock err printed sent \<longleftrightarrow>
    (\<exists>es stats. list_all in_progress es
       \<and> sent = SourceSent (running_event o' kind (fst clock)) # map SourceSent es @ [SourceSent (last_report o' kind (snd clock) err stats)]
       \<and> (case printed of None \<Rightarrow> True | Some s \<Rightarrow> rst_summary s \<longrightarrow> stats = s))"

lemma transfer_reported:
  assumes "can_report env c"
    and "report_transfer env c o' kind (snd clock) local runErr reports (v\<lparr>dw_sent := sent @ [SourceSent (running_event o' kind (fst clock))]\<rparr>) = (err, w')"
    and "case printed of None \<Rightarrow> True | Some s \<Rightarrow> (\<exists>rs. reports = rs @ [s]) \<and> (case local of None \<Rightarrow> True | Some l \<Rightarrow> l = s)"
  shows "err = runErr \<and> (\<exists>sent'. dw_sent w' = sent @ sent' \<and> outcome_reported o' kind clock err printed sent')"
proof -
  let ?v = "v\<lparr>dw_sent := sent @ [SourceSent (running_event o' kind (fst clock))]\<rparr>"
  obtain stats u where f: "fold (reportProgress env c o' kind) reports (no_stats, ?v) = (stats, u)"
    by (metis prod.exhaust)
  define final where "final = (case local of None \<Rightarrow> stats | Some l \<Rightarrow> mergeTransferStats stats l)"
  obtain es where es: "u = ?v\<lparr>dw_sent := dw_sent ?v @ map SourceSent es\<rparr>" "list_all in_progress es"
    using progress_sent [OF assms(1) f] by auto
  have "final = s" if s: "printed = Some s" "rst_summary s" for s
  proof -
    obtain rs where "reports = rs @ [s]" "local = None \<or> local = Some s"
      using assms(3) s(1) by (cases local) auto
    then show ?thesis
      using merged_summary [OF s(2), of env c o' kind rs "(no_stats, ?v)"] f s
      by (auto simp: final_def mergeTransferStats_def)
  qed
  note numbers = this
  have w': "err = runErr" "dw_sent w' = sent @ (SourceSent (running_event o' kind (fst clock)) # map SourceSent es
      @ [SourceSent (last_report o' kind (snd clock) err final)])"
    using assms(1,2) f es by (auto simp: report_transfer_def source_report_sent final_def)
  have "case printed of None \<Rightarrow> True | Some s \<Rightarrow> rst_summary s \<longrightarrow> final = s"
    using numbers by (cases printed) auto
  then show ?thesis
    using w' es(2) unfolding outcome_reported_def by blast
qed

text \<open>What rsync is run with, and the statistics it prints.\<close>

definition bridge_addr :: "source_env \<Rightarrow> string" where
  "bridge_addr env = (case sv_listen env of Inl e \<Rightarrow> [] | Inr addr \<Rightarrow> addr)"

definition send_command :: "source_env \<Rightarrow> send_options \<Rightarrow> string list" where
  "send_command env o' = tunnel_args (sn_delete o') (sn_oneFileSystem o')
     @ [rsync_slash (sn_source o'), if sn_targetEndpoint o' \<noteq> [] then bridge_url (bridge_addr env) else rsync_slash (sn_target o')]"

definition write_command :: "source_env \<Rightarrow> writer_options \<Rightarrow> string list" where
  "write_command env wo = tunnel_args (sn_delete (wo_common wo)) (sn_oneFileSystem (wo_common wo))
     @ [if sn_targetEndpoint (wo_common wo) \<noteq> [] then bridge_url (bridge_addr env) else rsync_slash (wo_snapshot wo), rsync_slash (wo_destination wo)]"

definition stats_printed :: "source_env \<Rightarrow> string list \<Rightarrow> transfer_stats" where
  "stats_printed env command = fst (runRsyncCommand (sv_wide env) (sv_rsync env) command (Some (sv_stdout env)) (Some (sv_stderr env)) True)"

text \<open>Either rsync was run with a command, or there was an error before, or nothing but a line was printed.\<close>

definition rsync_or_early :: "source_env \<Rightarrow> bool \<Rightarrow> string list \<Rightarrow> run_error option \<Rightarrow> transfer_stats list \<Rightarrow> transfer_stats option \<Rightarrow> bool" where
  "rsync_or_early env dry command err reports printed \<longleftrightarrow>
     (if printed = None then reports = [] \<and> (dry \<or> err \<noteq> None)
      else printed = Some (stats_printed env command) \<and> (\<exists>rs. reports = rs @ [stats_printed env command]))"

definition runs :: "source_env \<Rightarrow> bool \<Rightarrow> string list \<Rightarrow> sending \<Rightarrow> bool" where
  "runs env dry command r \<longleftrightarrow> (\<exists>printed. rsync_or_early env dry command (fst r) (fst (snd r)) printed)"

lemma runs_simps [simp]:
  "runs env dry command (not_sent e)" "runs env True command (print_line env f args)" "runs env dry command (run_bridged env command b)"
proof -
  show "runs env dry command (run_bridged env command b)"
    unfolding runs_def
    by (rule exI [of _ "Some (stats_printed env command)"])
      (auto simp: run_bridged_def rsync_or_early_def stats_printed_def runRsyncCommand_def Let_def split: prod.splits)
qed (auto simp: runs_def rsync_or_early_def not_sent_def print_line_def)

lemma local_rsync_runs:
  assumes "local_rsync env source destination o' = (stats, err, reports)" "source \<noteq> []" "destination \<noteq> []"
  shows "\<exists>printed. rsync_or_early env (sn_dryRun o') (tunnel_args (sn_delete o') (sn_oneFileSystem o') @ [rsync_slash source, rsync_slash destination]) err reports printed
    \<and> (case printed of None \<Rightarrow> True | Some s \<Rightarrow> stats = s)"
proof (cases "sn_dryRun o'")
  case True
  then show ?thesis
    using assms by (intro exI [of _ None]) (auto simp: local_rsync_def Rsync_def rsync_or_early_def Let_def)
next
  case False
  have "rsyncArgs \<lparr>ry_source = source, ry_destination = destination, ry_delete = d, ry_oneFileSystem = f, ry_dryRun = y\<rparr> = tunnel_args d f" for d f y
    by (simp add: tunnel_args_def rsyncArgs_def)
  then show ?thesis
    using assms False
    by (intro exI [of _ "Some stats"])
      (auto simp: local_rsync_def Rsync_def rsync_or_early_def Let_def stats_printed_def runRsyncCommand_def split: prod.splits)
qed

lemma SendSource_runs: "runs env (ss_dryRun opts) (rsyncTunnelClientArgs opts (bridge_addr env)) (SendSource env opts)"
  unfolding SendSource_def sendSourceRsyncTunnel_def
  by (cases "sv_listen env") (simp_all add: bridge_addr_def split: sum.split option.split)

lemma ReceiveRestore_runs: "runs env (rw_dryRun opts) (rsyncRestoreClientArgs opts (bridge_addr env)) (fst (ReceiveRestore env opts f))"
  unfolding ReceiveRestore_def receiveRestoreRsyncTunnel_def
  by (cases "sv_listen env") (simp_all add: bridge_addr_def split: sum.split option.split prod.split)

lemma sent_then_changed: "(w :: dp_world)\<lparr>dw_sent := s, dw_fs := f\<rparr> = w\<lparr>dw_fs := f, dw_sent := s\<rparr>"
  by simp

text \<open>The end of a report does not depend on the branch.\<close>

lemma begun_and_reported:
  assumes "can_report env c" "rsync_or_early env dry command runErr reports printed"
    and "report_transfer env c o' kind (snd clock) local runErr reports (v\<lparr>dw_sent := sent @ [SourceSent (running_event o' kind (fst clock))]\<rparr>) = (err, w')"
    and "local = None \<or> (case printed of None \<Rightarrow> True | Some s \<Rightarrow> local = Some s)"
  shows "\<exists>sent'. dw_sent w' = sent @ sent' \<and> (if printed = None then dry \<or> err \<noteq> None else printed = Some (stats_printed env command))
    \<and> outcome_reported o' kind clock err printed sent'"
proof -
  have "case printed of None \<Rightarrow> True | Some s \<Rightarrow> (\<exists>rs. reports = rs @ [s]) \<and> (case local of None \<Rightarrow> True | Some l \<Rightarrow> l = s)"
    using assms(2,4) by (cases printed; cases local) (auto simp: rsync_or_early_def)
  from transfer_reported [OF assms(1,3) this] show ?thesis
    using assms(2) by (auto simp: rsync_or_early_def split: if_splits)
qed


definition demo_source_env :: source_env where
  "demo_source_env = \<lparr>de_crypto = demo_crypto\<lparr>AppendCertsFromPEM := \<lambda>p. Some []\<rparr>, de_readFile = (\<lambda>p. Inr ''pem''), de_dial = None,
     de_reply = (\<lambda>sent e. None), de_register = None, de_cwd = [], sv_lookPath = None, sv_listen = Inr ''127.0.0.1:4000'', sv_accept = None,
     sv_dialTarget = (\<lambda>config endpoint. Inr \<lparr>cn_in = [], cn_out = [], cn_writes = None\<rparr>), sv_proxy = (\<lambda>c. (None, c)),
     sv_rsync = (\<lambda>args. ([(True, ''Number of files: 12'' @ [CHR 0x0A])], None)), sv_wide = 0,
     sv_stdout = \<lparr>cn_in = [], cn_out = [], cn_writes = None\<rparr>, sv_stderr = \<lparr>cn_in = [], cn_out = [], cn_writes = None\<rparr>\<rparr>"

definition demo_flags :: "string list" where
  "demo_flags = [''--target-endpoint'', ''target:873'', ''--tls-dir'', ''/tls'', ''--control-grpc-endpoint'', ''operator:443'',
     ''--target-namespace'', ''ops'', ''--target-name'', ''m'', ''--run-namespace'', ''ops'', ''--run-name'', ''nightly'']"

definition demo_bundle :: tls_bundle where
  "demo_bundle = \<lparr>tb_caCertPEM = ''pem'', tb_caKeyPEM = [], tb_certPEM = ''pem'', tb_keyPEM = ''pem''\<rparr>"

definition demo_source_client :: control_client where
  "demo_source_client = \<lparr>dc_grpcEndpoint = ''operator:443'', dc_tlsBundle = demo_bundle, dc_controlCAPEM = ''pem'',
     dc_expectedControl = ControlGRPCServerIdentity manager_DefaultNamespace\<rparr>"

definition demo_source_world :: dp_world where
  "demo_source_world = \<lparr>dw_fs = \<lparr>fs_tree = [], fs_data = [], fs_io = None\<rparr>, dw_sent = []\<rparr>"

lemma demo_source_reports: "can_report demo_source_env demo_source_client"
  by (simp add: can_report_def grpcClient_def demo_source_client_def ClientCredentialsWithServerCA_def demo_source_env_def demo_crypto_def)

definition demo_send_args :: "string list" where
  "demo_send_args = [''--source'', ''/data'', ''--target'', ''.partial/r1/db''] @ demo_flags"

definition demo_send_options :: send_options where
  "demo_send_options = projr (parse_send demo_send_args)"

lemma demo_send_ready:
  "parse_send demo_send_args = Inr demo_send_options" "bundle_of demo_source_env (sn_tlsDir demo_send_options) = Inr demo_bundle"
  "client_of demo_source_env demo_send_options demo_bundle = Inr demo_source_client"
  "sn_source demo_send_options \<noteq> []" "sn_target demo_send_options \<noteq> []" "sn_targetNamespace demo_send_options \<noteq> []"
  "sn_targetName demo_send_options \<noteq> []" "\<not> sn_dryRun demo_send_options"
  by code_simp+


text \<open>
  C0. A restore writer that can reach the control API, and whose arguments and snapshot
  pass the checks, reports in the same way.
\<close>

theorem restore_writer_reports_the_outcome:
  assumes "cli_restore env clock args w = (err, w')" and "parse_writer args = Inr wo"
    and "bundle_of env (sn_tlsDir (wo_common wo)) = Inr bundle" and "client_of env (wo_common wo) bundle = Inr c" and "can_report env c"
  shows "if wo_snapshot wo = [] \<or> wo_destination wo = [] \<or> check_restore env wo (dw_fs w) \<noteq> None then w' = w \<and> err \<noteq> None
    else \<exists>sent printed. dw_sent w' = dw_sent w @ sent
        \<and> (if printed = None then sn_dryRun (wo_common wo) \<or> err \<noteq> None else printed = Some (stats_printed env (write_command env wo)))
        \<and> outcome_reported (wo_common wo) RunKindRestore clock err printed sent"
proof (cases "wo_snapshot wo = [] \<or> wo_destination wo = [] \<or> check_restore env wo (dw_fs w) \<noteq> None")
  case True
  then show ?thesis
    using assms(1,2) by (cases "wo_snapshot wo = [] \<or> wo_destination wo = []"; cases "check_restore env wo (dw_fs w)")
      (auto simp add: cli_restore_def Let_def)
next
  case named: False
  let ?o = "wo_common wo"
  note started = source_report_sent [OF assms(5)]
  have "\<exists>sent printed. dw_sent w' = dw_sent w @ sent
        \<and> (if printed = None then sn_dryRun ?o \<or> err \<noteq> None else printed = Some (stats_printed env (write_command env wo)))
        \<and> outcome_reported ?o RunKindRestore clock err printed sent"
  proof (cases "sn_targetEndpoint ?o = []")
    case True
    obtain stats runErr reports where l: "local_rsync env (wo_snapshot wo) (wo_destination wo) ?o = (stats, runErr, reports)"
      by (metis prod.exhaust)
    then obtain printed where p: "rsync_or_early env (sn_dryRun ?o) (write_command env wo) runErr reports printed"
        "case printed of None \<Rightarrow> True | Some s \<Rightarrow> stats = s"
      using local_rsync_runs [OF l] named True by (auto simp: write_command_def)
    have "report_transfer env c ?o RunKindRestore (snd clock) (Some stats) runErr reports
        (w\<lparr>dw_sent := dw_sent w @ [SourceSent (running_event ?o RunKindRestore (fst clock))]\<rparr>) = (err, w')"
      using assms True named l by (simp add: cli_restore_def started Let_def)
    moreover have "Some stats = None \<or> (case printed of None \<Rightarrow> True | Some s \<Rightarrow> Some stats = Some s)"
      using p(2) by (cases printed) auto
    ultimately show ?thesis
      using begun_and_reported [OF assms(5) p(1)] by blast
  next
    case False
    let ?opts = "\<lparr>rw_destination = wo_destination wo, rw_snapshot = wo_snapshot wo, rw_source = wo_snapshotSource wo,
             rw_targetEndpoint = sn_targetEndpoint ?o, rw_tlsBundle = bundle, rw_expectedTarget = expected_target ?o,
             rw_delete = sn_delete ?o, rw_oneFileSystem = sn_oneFileSystem ?o, rw_dryRun = sn_dryRun ?o\<rparr>"
    obtain runErr reports to f where s: "ReceiveRestore env ?opts (dw_fs w) = ((runErr, reports, to), f)"
      by (metis prod.exhaust)
    obtain printed where p: "rsync_or_early env (sn_dryRun ?o) (write_command env wo) runErr reports printed"
      using ReceiveRestore_runs [of env ?opts "dw_fs w"] s False by (auto simp: runs_def write_command_def rsyncRestoreClientArgs_def)
    have "report_transfer env c ?o RunKindRestore (snd clock) None runErr reports
        ((w\<lparr>dw_fs := f\<rparr>)\<lparr>dw_sent := dw_sent w @ [SourceSent (running_event ?o RunKindRestore (fst clock))]\<rparr>) = (err, w')"
      using assms False named s by (simp add: cli_restore_def started Let_def sent_then_changed)
    from begun_and_reported [OF assms(5) p this] show ?thesis
      by blast
  qed
  then show ?thesis
    using named by simp
qed

definition demo_writer_args :: "string list" where
  "demo_writer_args = [''--snapshot'', ''hourly/2024-02-29T10-11-12Z'', ''--destination'', ''/data'', ''--snapshot-source'', ''db''] @ demo_flags"

definition demo_writer_options :: writer_options where
  "demo_writer_options = projr (parse_writer demo_writer_args)"

lemma demo_write_ready:
  "parse_writer demo_writer_args = Inr demo_writer_options"
  "bundle_of demo_source_env (sn_tlsDir (wo_common demo_writer_options)) = Inr demo_bundle"
  "client_of demo_source_env (wo_common demo_writer_options) demo_bundle = Inr demo_source_client"
  "wo_snapshot demo_writer_options \<noteq> []" "wo_destination demo_writer_options \<noteq> []" "\<not> sn_dryRun (wo_common demo_writer_options)"
  "check_restore demo_source_env demo_writer_options (dw_fs demo_source_world) = None"
  by code_simp+

theorem restore_writer_reports_the_outcome_witness:
  "\<exists>err w' printed. cli_restore demo_source_env (0, 0) demo_writer_args demo_source_world = (err, w')
    \<and> outcome_reported (wo_common demo_writer_options) RunKindRestore (0, 0) err printed (dw_sent w')
    \<and> (err = None \<longrightarrow> printed = Some (stats_printed demo_source_env (write_command demo_source_env demo_writer_options)))"
proof -
  obtain err w' where run: "cli_restore demo_source_env (0, 0) demo_writer_args demo_source_world = (err, w')"
    by (metis prod.exhaust)
  note ready = demo_write_ready
  from restore_writer_reports_the_outcome [OF run ready(1-3) demo_source_reports] ready(4-7) obtain printed where
    "outcome_reported (wo_common demo_writer_options) RunKindRestore (0, 0) err printed (dw_sent w')"
    "if printed = None then err \<noteq> None else printed = Some (stats_printed demo_source_env (write_command demo_source_env demo_writer_options))"
    by (auto simp: demo_source_world_def split: if_split_asm)
  then show ?thesis
    using run by (auto split: if_splits)
qed

end
