(* ===== verification/Control_Server.thy ===== *)
theory Control_Server
  imports Control_Service Certificates
begin

text \<open>
  controlgrpc/server.go: the service that gRPC calls, in front of the control service. It
  lets a peer act only as the workload that its certificate names. The theorems say that
  a call changes nothing of any run but the one in the certificate of its peer, and that
  a target gets the commands in order until its stream ends. Decoding and interceptors
  are those of grpc-go.
\<close>

section \<open>Calls\<close>

definition server_service :: "control_service option \<Rightarrow> control_service result" where
  "server_service srv = (case srv of None \<Rightarrow> Inl (errorf ''control service is required'' []) | Some s \<Rightarrow> Inr s)"

definition requirePeerIdentity :: "x509_cert list option \<Rightarrow> identity \<Rightarrow> goerr option" where
  "requirePeerIdentity peer expected =
    (case PeerIdentity peer of
       None \<Rightarrow> Some (errorf ''client certificate identity is required'' [])
     | Some identity \<Rightarrow> if identity \<noteq> expected
         then Some (errorf ''client certificate identity %s cannot act as %s'' [identity_URI identity, identity_URI expected]) else None)"

text \<open>Every method: the service, the identity, and then the control service, which may wait for a full channel.\<close>

definition as_identity ::
  "x509_cert list option \<Rightarrow> identity \<Rightarrow> (control_service \<Rightarrow> ('a result \<times> control_service) option) \<Rightarrow> control_service option
     \<Rightarrow> ('a result \<times> control_service option) option" where
  "as_identity peer identity call srv =
    (case server_service srv of Inl e \<Rightarrow> Some (Inl e, srv)
     | Inr s \<Rightarrow> (case requirePeerIdentity peer identity of Some e \<Rightarrow> Some (Inl e, srv)
         | None \<Rightarrow> map_option (\<lambda>(r, s). (r, Some s)) (call s)))"

definition server_RegisterTarget ::
  "k8s_validation \<Rightarrow> nat \<Rightarrow> register_request \<Rightarrow> x509_cert list option \<Rightarrow> control_service option \<Rightarrow> (unit result \<times> control_service option) option" where
  "server_RegisterTarget kv stream req peer =
     as_identity peer (TargetIdentity (rq_runNamespace req) (rq_runName req) (rq_targetNamespace req) (rq_targetName req))
       (\<lambda>s. Some (RegisterTarget kv req stream s))"

definition server_ReportTarget ::
  "k8s_validation \<Rightarrow> gotime \<Rightarrow> target_event \<Rightarrow> x509_cert list option \<Rightarrow> control_service option \<Rightarrow> ((64 word) result \<times> control_service option) option" where
  "server_ReportTarget kv now event peer =
     as_identity peer (TargetIdentity (te_runNamespace event) (te_runName event) (te_targetNamespace event) (te_targetName event))
       (ReportTarget kv now event)"

definition server_AcknowledgeTargetCommand ::
  "k8s_validation \<Rightarrow> gotime \<Rightarrow> command_ack_event \<Rightarrow> x509_cert list option \<Rightarrow> control_service option \<Rightarrow> ((64 word) result \<times> control_service option) option" where
  "server_AcknowledgeTargetCommand kv now event peer =
     as_identity peer (TargetIdentity (ca_runNamespace event) (ca_runName event) (ca_targetNamespace event) (ca_targetName event))
       (AcknowledgeTargetCommand kv now event)"

definition server_ReportSource ::
  "k8s_validation \<Rightarrow> gotime \<Rightarrow> source_event \<Rightarrow> x509_cert list option \<Rightarrow> control_service option \<Rightarrow> ((64 word) result \<times> control_service option) option" where
  "server_ReportSource kv now event peer =
     as_identity peer (SourceIdentity (se_runNamespace event) (se_runName event) (se_sourceNamespace event) (se_sourceName event))
       (ReportSource kv now event)"

section \<open>The stream of a target\<close>

text \<open>What the loop of RegisterTarget waits for. \<open>send sent\<close> is the error of sending one more message after those sent.\<close>

datatype stream_news = NextCommand target_command | CommandsClosed | StreamDone goerr

fun forward_commands :: "(target_command list \<Rightarrow> goerr option) \<Rightarrow> stream_news list \<Rightarrow> target_command list \<Rightarrow> (goerr option \<times> target_command list) option" where
  "forward_commands send [] sent = None"
| "forward_commands send (CommandsClosed # news) sent = Some (None, sent)"
| "forward_commands send (StreamDone e # news) sent = Some (Some e, sent)"
| "forward_commands send (NextCommand command # news) sent =
    (case send sent of Some e \<Rightarrow> Some (Some e, sent) | None \<Rightarrow> forward_commands send news (sent @ [command]))"

section \<open>Requests of any method\<close>

datatype control_request = RegisterCall nat register_request | TargetCall target_event | AckCall command_ack_event | SourceCall source_event

definition answer :: "('a result \<times> control_service option) option \<Rightarrow> (unit result \<times> control_service option) option" where
  "answer r = map_option (\<lambda>(r, s). (map_sum id (\<lambda>_. ()) r, s)) r"

fun serve_call :: "k8s_validation \<Rightarrow> gotime \<Rightarrow> control_request \<Rightarrow> x509_cert list option \<Rightarrow> control_service option \<Rightarrow> (unit result \<times> control_service option) option" where
  "serve_call kv now (RegisterCall stream req) peer srv = server_RegisterTarget kv stream req peer srv"
| "serve_call kv now (TargetCall event) peer srv = answer (server_ReportTarget kv now event peer srv)"
| "serve_call kv now (AckCall event) peer srv = answer (server_AcknowledgeTargetCommand kv now event peer srv)"
| "serve_call kv now (SourceCall event) peer srv = answer (server_ReportSource kv now event peer srv)"

text \<open>The run of a request, and the workload that it speaks for.\<close>

fun request_run :: "control_request \<Rightarrow> run_key" where
  "request_run (RegisterCall stream req) = register_Key req"
| "request_run (TargetCall event) = target_Key event"
| "request_run (AckCall event) = ack_Key event"
| "request_run (SourceCall event) = source_Key event"

fun request_identity :: "control_request \<Rightarrow> identity" where
  "request_identity (RegisterCall stream req) = TargetIdentity (rq_runNamespace req) (rq_runName req) (rq_targetNamespace req) (rq_targetName req)"
| "request_identity (TargetCall event) = TargetIdentity (te_runNamespace event) (te_runName event) (te_targetNamespace event) (te_targetName event)"
| "request_identity (AckCall event) = TargetIdentity (ca_runNamespace event) (ca_runName event) (ca_targetNamespace event) (ca_targetName event)"
| "request_identity (SourceCall event) = SourceIdentity (se_runNamespace event) (se_runName event) (se_sourceNamespace event) (se_sourceName event)"

section \<open>A peer acts only for its own run\<close>

text \<open>What the control service keeps of a run: its log of commands and its events.\<close>

definition run_part :: "control_service \<Rightarrow> run_key \<Rightarrow> command_log \<times> control_event list" where
  "run_part s k = (log_of s k, re_replay (run_of (hs_hub (cv_hub s)) k))"

lemma deliver_all_hub: "deliver_all e subs s = Some s' \<Longrightarrow> hs_hub s' = hs_hub s"
  by (induction e subs s rule: deliver_all.induct) (auto split: option.splits)

lemma publish_other_runs:
  assumes "publish kv now event s = Some (r, s')" "k \<noteq> ce_key event"
  shows "run_of (hs_hub s') k = run_of (hs_hub s) k"
proof (cases "check_event kv event")
  case (Inr u)
  obtain event' subs h where p: "publish_locked now event (hs_hub s) = (event', subs, h)"
    by (metis prod.exhaust)
  then obtain t where "deliver_all event' subs (s\<lparr>hs_hub := h\<rparr>) = Some t" "s' = t"
    using assms(1) Inr by (auto simp: publish_def)
  then show ?thesis
    using deliver_all_hub publish_locked_eq(7) [OF p, of k] assms(2) by fastforce
qed (use assms in \<open>simp add: publish_def\<close>)

lemma with_hub_part:
  assumes "with_hub s (publish kv now event (cv_hub s)) = Some (r, s')" "k \<noteq> ce_key event"
  shows "run_part s' k = run_part s k"
  using assms publish_other_runs by (auto simp: with_hub_def run_part_def log_of_def)

lemma report_parts:
  "ReportTarget kv now te s = Some (q, s') \<Longrightarrow> k \<noteq> target_Key te \<Longrightarrow> run_part s' k = run_part s k"
  "AcknowledgeTargetCommand kv now ae s = Some (q, s') \<Longrightarrow> k \<noteq> ack_Key ae \<Longrightarrow> run_part s' k = run_part s k"
  "ReportSource kv now se s = Some (q, s') \<Longrightarrow> k \<noteq> source_Key se \<Longrightarrow> run_part s' k = run_part s k"
  by (auto simp: ReportTarget_def AcknowledgeTargetCommand_def ReportSource_def PublishTarget_def PublishTargetCommandAck_def PublishSource_def
      target_control_event_def ack_Key_def Let_def split: sum.splits if_splits dest!: with_hub_part)

lemma register_part:
  "RegisterTarget kv req stream s = (r, s') \<Longrightarrow> k \<noteq> register_Key req \<Longrightarrow> run_part s' k = run_part s k"
  by (auto simp: RegisterTarget_def run_part_def log_of_def put_log_def Let_def split: sum.splits)

lemma as_identity_ran:
  assumes "as_identity peer identity call (Some s) = Some (r, Some s')" "s' \<noteq> s"
  shows "PeerIdentity peer = Some identity \<and> call s = Some (r, s')"
  using assms by (auto simp: as_identity_def server_service_def requirePeerIdentity_def split: option.splits if_splits)

lemma call_effect:
  assumes "serve_call kv now req peer (Some s) = Some (r, Some s')"
  shows "(s' \<noteq> s \<longrightarrow> PeerIdentity peer = Some (request_identity req)) \<and> (k \<noteq> request_run req \<longrightarrow> run_part s' k = run_part s k)"
proof (cases "s' = s")
  case False
  show ?thesis
    using assms False
    by (cases req) (auto simp: answer_def server_RegisterTarget_def server_ReportTarget_def server_AcknowledgeTargetCommand_def
        server_ReportSource_def dest!: as_identity_ran intro: report_parts register_part)
qed simp

text \<open>C19. 
  C0. A call to the control API changes the commands or the events of a run only if the
  certificate of its peer names a workload of a run with that namespace and name, and the
  call speaks for that workload; it never changes those of another run.
\<close>

theorem peer_acts_for_its_run_only:
  assumes "serve_call kv now req peer (Some s) = Some (r, Some s')" and "run_part s' k \<noteq> run_part s k"
  shows "\<exists>i. PeerIdentity peer = Some i \<and> i = request_identity req \<and> k = request_run req
    \<and> id_runNamespace i = rk_namespace k \<and> id_runName i = rk_name k"
proof -
  have "PeerIdentity peer = Some (request_identity req)" "k = request_run req"
    using call_effect [OF assms(1), of k] assms(2) by auto
  then show ?thesis
    by (cases req) (simp_all add: register_Key_def target_Key_def ack_Key_def source_Key_def TargetIdentity_def SourceIdentity_def)
qed

definition demo_service :: control_service where
  "demo_service = NewService \<lparr>hs_hub = NewEventHub 128, hs_subs = [], hs_inflight = []\<rparr>"

definition demo_register :: "string \<Rightarrow> register_request" where
  "demo_register kind = \<lparr>rq_runNamespace = ''ops'', rq_runName = ''nightly'', rq_runKind = kind, rq_targetNamespace = ''db'', rq_targetName = ''data''\<rparr>"

definition demo_peer :: "x509_cert list option" where
  "demo_peer = Some [demo_leaf ''target'' (identity_URI (TargetIdentity ''ops'' ''nightly'' ''db'' ''data''))]"

lemma demo_registers:
  "case serve_call any_name 0 (RegisterCall 1 (demo_register kind)) demo_peer (Some demo_service) of
     Some (r, Some s') \<Rightarrow> r = Inr () \<and> cl_streams (log_of s' (register_Key (demo_register kind))) = [1] | _ \<Rightarrow> False"
  if "kind \<in> {RunKindBackup, RunKindRestore}"
proof -
  have "kind = RunKindBackup \<or> kind = RunKindRestore"
    using that by blast
  then show ?thesis
    by (elim disjE) (hypsubst, code_simp)+
qed

theorem peer_acts_for_its_run_only_witness:
  "PeerIdentity demo_peer = Some (TargetIdentity ''ops'' ''nightly'' ''db'' ''data'')
    \<and> register_Key (demo_register RunKindBackup) = request_run (RegisterCall 1 (demo_register RunKindBackup))"
proof -
  obtain r s' where run: "serve_call any_name 0 (RegisterCall 1 (demo_register RunKindBackup)) demo_peer (Some demo_service) = Some (r, Some s')"
    and "cl_streams (log_of s' (register_Key (demo_register RunKindBackup))) = [1]"
    using demo_registers [of RunKindBackup] by (auto split: option.splits prod.splits)
  then have "run_part s' (register_Key (demo_register RunKindBackup)) \<noteq> run_part demo_service (register_Key (demo_register RunKindBackup))"
    by (auto simp: run_part_def demo_service_def NewService_def log_of_def empty_log_def)
  from peer_acts_for_its_run_only [OF run this] show ?thesis
    by (simp add: demo_register_def)
qed

text \<open>
  The kind of a run is not part of an identity: the certificate of the target of a
  BackupJob is accepted for the RestoreJob of the same name.
\<close>

theorem kind_is_not_in_the_certificate:
  "\<exists>s'. serve_call any_name 0 (RegisterCall 1 (demo_register RunKindRestore)) demo_peer (Some demo_service) = Some (Inr (), Some s')
    \<and> run_part s' \<lparr>rk_namespace = ''ops'', rk_name = ''nightly'', rk_kind = RunKindRestore\<rparr>
        \<noteq> run_part demo_service \<lparr>rk_namespace = ''ops'', rk_name = ''nightly'', rk_kind = RunKindRestore\<rparr>"
proof -
  obtain s' where run: "serve_call any_name 0 (RegisterCall 1 (demo_register RunKindRestore)) demo_peer (Some demo_service) = Some (Inr (), Some s')"
    and "cl_streams (log_of s' (register_Key (demo_register RunKindRestore))) = [1]"
    using demo_registers [of RunKindRestore] by (auto split: option.splits prod.splits)
  then have "run_part s' (register_Key (demo_register RunKindRestore)) \<noteq> run_part demo_service (register_Key (demo_register RunKindRestore))"
    by (auto simp: run_part_def demo_service_def NewService_def log_of_def empty_log_def)
  then show ?thesis
    using run by (intro exI [of _ s']) (simp add: register_Key_def demo_register_def)
qed

section \<open>What a target is sent\<close>

lemma forwarded_in_order:
  assumes "forward_commands send news sent = Some (err, sent')"
  shows "\<exists>n. sent' = sent @ take n (map (\<lambda>x. case x of NextCommand c \<Rightarrow> c) (takeWhile (\<lambda>x. \<exists>c. x = NextCommand c) news))"
  using assms
proof (induction send news sent rule: forward_commands.induct)
  case (4 send command news sent)
  show ?case
  proof (cases "send sent")
    case None
    then obtain n where "sent' = (sent @ [command]) @ take n (map (\<lambda>x. case x of NextCommand c \<Rightarrow> c) (takeWhile (\<lambda>x. \<exists>c. x = NextCommand c) news))"
      using 4 by auto
    then show ?thesis
      by (intro exI [of _ "Suc n"]) simp
  next
    case (Some e)
    then show ?thesis
      using 4(2) by (intro exI [of _ 0]) simp
  qed
qed (auto intro: exI [of _ 0])

end
