(* ===== verification/Manager_Setup.thy ===== *)
theory Manager_Setup
  imports Cluster Credentials Rsync Control_Client
begin

text \<open>
  What the manager does before it starts the controllers: manager/control_tls.go, the
  certificate and the authority of the control API in a secret, and manager/image.go, the
  image that the pods of a run use. The theorem says that the bundle which the manager
  works with proves the identity of the operator and is the one in the secret.
\<close>

section \<open>The certificate of the control API\<close>

definition controlTLSSecretLabels :: label_map where
  "controlTLSSecretLabels = [(''app.kubernetes.io/name'', ''kube-rsync-machine''), (''app.kubernetes.io/component'', ''control-grpc'')]"

definition mintControlGRPCServerBundle :: "crypto \<Rightarrow> gotime \<Rightarrow> string \<Rightarrow> int \<Rightarrow> (nat, tls_bundle) call" where
  "mintControlGRPCServerBundle cr now namespace ttl n =
     then_do (wrapped ''mint control grpc ca: %w'' [] (NewCA cr now ''krm-control-ca'' ttl n)) (\<lambda>ca n.
     then_do (wrapped ''mint control grpc server certificate: %w'' [] (Mint cr now (Some ca) (ControlGRPCServerIdentity namespace) ttl n)) (\<lambda>bundle n.
       (Inr (bundle\<lparr>tb_caKeyPEM := tb_caKeyPEM (CA_Bundle cr (Some ca))\<rparr>), n)))"

definition validControlGRPCBundle :: "crypto \<Rightarrow> gotime \<Rightarrow> tls_bundle \<Rightarrow> string \<Rightarrow> unit result" where
  "validControlGRPCBundle cr now bundle namespace =
    (case CAFromPEM cr (tb_caCertPEM bundle) (tb_caKeyPEM bundle) of
       Inl e \<Rightarrow> Inl e
     | Inr _ \<Rightarrow> (case X509KeyPair cr (tb_certPEM bundle) (tb_keyPEM bundle) of
         Inl e \<Rightarrow> Inl e
       | Inr _ \<Rightarrow> VerifyIdentity cr now bundle (ControlGRPCServerIdentity namespace) now))"

definition stored_bundle :: "k8s_secret \<Rightarrow> tls_bundle" where
  "stored_bundle secret = \<lparr>tb_caCertPEM = lookup_text (sec_data secret) ''ca.crt'', tb_caKeyPEM = lookup_text (sec_data secret) ''ca.key'',
     tb_certPEM = lookup_text (sec_data secret) ''tls.crt'', tb_keyPEM = lookup_text (sec_data secret) ''tls.key''\<rparr>"

definition control_secret :: "string \<Rightarrow> string \<Rightarrow> tls_bundle \<Rightarrow> k8s_secret" where
  "control_secret namespace name bundle =
     \<lparr>sec_meta = new_meta namespace name controlTLSSecretLabels, sec_type = ''kubernetes.io/tls'', sec_data = SecretData bundle\<rparr>"

definition repaired_secret :: "k8s_secret \<Rightarrow> tls_bundle \<Rightarrow> k8s_secret" where
  "repaired_secret secret bundle = secret\<lparr>
     sec_meta := (sec_meta secret)\<lparr>om_labels := fold (\<lambda>(k, v) m. alist_put k v m) controlTLSSecretLabels (om_labels (sec_meta secret))\<rparr>,
     sec_type := ''kubernetes.io/tls'', sec_data := SecretData bundle\<rparr>"

text \<open>The state is that of the API server and the entropy. When another manager creates the secret first, it starts
  again, as often as the fuel allows.\<close>

definition with_entropy :: "(nat, 'a) call \<Rightarrow> ('s \<times> nat, 'a) call" where
  "with_entropy f w = (case f (snd w) of (r, n) \<Rightarrow> (r, fst w, n))"

definition with_api :: "('s, 'a) call \<Rightarrow> ('s \<times> nat, 'a) call" where
  "with_api f w = (case f (fst w) of (r, s) \<Rightarrow> (r, s, snd w))"

definition check_control_options :: "string \<Rightarrow> string \<Rightarrow> int \<Rightarrow> goerr option" where
  "check_control_options namespace name ttl =
    (if namespace = [] then Some (errorf ''control grpc tls namespace is required'' [])
     else if name = [] then Some (errorf ''control grpc tls secret name is required'' [])
     else if ttl \<le> 0 then Some (errorf ''control grpc tls certificate ttl must be positive'' [])
     else None)"

definition repair_control_secret :: "crypto \<Rightarrow> 's kube_client \<Rightarrow> gotime \<Rightarrow> string \<Rightarrow> int \<Rightarrow> k8s_secret \<Rightarrow> ('s \<times> nat, tls_bundle) call" where
  "repair_control_secret cr c now namespace ttl secret w =
    (if is_ok (validControlGRPCBundle cr now (stored_bundle secret) namespace) then (Inr (stored_bundle secret), w)
     else then_do (with_entropy (mintControlGRPCServerBundle cr now namespace ttl) w) (\<lambda>bundle w.
          then_do (wrapped ''repair control grpc tls secret: %w'' [] (with_api (api_update (kc_secrets c) (repaired_secret secret bundle)) w)) (\<lambda>_ w.
            (Inr bundle, w))))"

fun EnsureControlGRPCTLSSecret ::
  "nat \<Rightarrow> crypto \<Rightarrow> 's kube_client \<Rightarrow> gotime \<Rightarrow> string \<Rightarrow> string \<Rightarrow> int \<Rightarrow> 's \<times> nat \<Rightarrow> (tls_bundle result \<times> 's \<times> nat) option" where
  "EnsureControlGRPCTLSSecret 0 cr c now namespace name ttl w = None"
| "EnsureControlGRPCTLSSecret (Suc fuel) cr c now namespace name ttl w =
    (case check_control_options namespace name ttl of Some e \<Rightarrow> Some (Inl e, w) | None \<Rightarrow>
     case with_api (api_get (kc_secrets c) (namespace, name)) w of
       (Inr secret, w) \<Rightarrow> Some (repair_control_secret cr c now namespace ttl secret w)
     | (Inl e, w) \<Rightarrow>
       if \<not> errors_is ApiNotFound e then Some (Inl (wrapf ''get control grpc tls secret: %w'' [] e), w)
       else (case with_entropy (mintControlGRPCServerBundle cr now namespace ttl) w of
           (Inl e, w) \<Rightarrow> Some (Inl e, w)
         | (Inr bundle, w) \<Rightarrow>
           (case with_api (api_create (kc_secrets c) (control_secret namespace name bundle)) w of
              (Inr _, w) \<Rightarrow> Some (Inr bundle, w)
            | (Inl e, w) \<Rightarrow>
              if errors_is ApiAlreadyExists e then EnsureControlGRPCTLSSecret fuel cr c now namespace name ttl w
              else Some (Inl (wrapf ''create control grpc tls secret: %w'' [] e), w))))"

declare EnsureControlGRPCTLSSecret.simps(2) [simp del]

definition DefaultManagerNamespace :: "(string \<Rightarrow> string) \<Rightarrow> string" where
  "DefaultManagerNamespace getenv = (if getenv ''POD_NAMESPACE'' \<noteq> [] then getenv ''POD_NAMESPACE'' else ''kube-rsync-machine-operator'')"

section \<open>The image of the manager\<close>

record container_status =
  cst_name :: string
  cst_imageID :: string

record pod =
  pod_statuses :: "container_status list"
  pod_images :: "container list"

definition OwnPodName :: "(string \<Rightarrow> string) \<Rightarrow> string result \<Rightarrow> string" where
  "OwnPodName getenv hostname =
    (if trim_space (getenv ''POD_NAME'') \<noteq> [] then trim_space (getenv ''POD_NAME'')
     else if trim_space (getenv ''HOSTNAME'') \<noteq> [] then trim_space (getenv ''HOSTNAME'')
     else case hostname of Inl _ \<Rightarrow> [] | Inr h \<Rightarrow> trim_space h)"

fun pullableDigestImage :: "container_status list \<Rightarrow> string \<Rightarrow> string" where
  "pullableDigestImage [] containerName = []"
| "pullableDigestImage (status # statuses) containerName =
    (if containerName \<noteq> [] \<and> cst_name status \<noteq> containerName then pullableDigestImage statuses containerName
     else let imageID = trim_space (cst_imageID status) in
       if imageID = [] \<or> \<not> contains_str imageID ''@sha256:'' then pullableDigestImage statuses containerName
       else (case cut_str ''://'' imageID of Some (_, value) \<Rightarrow> value | None \<Rightarrow> imageID))"

fun podSpecContainerImage :: "container list \<Rightarrow> string \<Rightarrow> string" where
  "podSpecContainerImage [] containerName = []"
| "podSpecContainerImage (container # containers) containerName =
    (if containerName = [] \<or> ct_name container = containerName then ct_image container
     else podSpecContainerImage containers containerName)"

definition ResolveOwnPodImage :: "(nsname \<Rightarrow> ('s, pod) call) \<Rightarrow> string \<Rightarrow> string \<Rightarrow> string \<Rightarrow> string \<Rightarrow> 's \<Rightarrow> (string \<times> goerr option) \<times> 's" where
  "ResolveOwnPodImage get_pod namespace podName containerName fallback s =
    (if namespace = [] \<or> podName = [] then ((fallback, None), s)
     else case get_pod (namespace, podName) s of
         (Inl e, s) \<Rightarrow> ((fallback, if errors_is ApiNotFound e then None else Some (wrapf ''get own pod %s/%s: %w'' [namespace, podName] e)), s)
       | (Inr pod, s) \<Rightarrow>
           let image = pullableDigestImage (pod_statuses pod) containerName in
           if image \<noteq> [] then ((image, None), s)
           else let image = podSpecContainerImage (pod_images pod) containerName in
             if image \<noteq> [] then ((image, None), s) else ((fallback, None), s))"

section \<open>The bundle is usable, and is the one in the secret\<close>

lemma control_secret_address [simp]: "object_key secret_kind (control_secret namespace name b) = (namespace, name)"
  "sec_data (control_secret namespace name b) = SecretData b" "sec_data (repaired_secret s b) = SecretData b"
  "object_key secret_kind (repaired_secret s b) = object_key secret_kind s"
  by (simp_all add: object_key_def control_secret_def secret_kind_def new_meta_def meta_key_def empty_meta_def repaired_secret_def)

text \<open>A server that also keeps the data of a secret.\<close>

locale secret_store = object_store view secret_kind api for view :: "'s \<Rightarrow> cluster" and api :: "('s, k8s_secret) kind_api" +
  assumes created: "api_create api x s = (Inr stored, s') \<Longrightarrow> sec_data stored = sec_data x"
    and updated: "api_update api x s = (Inr stored, s') \<Longrightarrow> sec_data stored = sec_data x"

definition proves_operator :: "crypto \<Rightarrow> gotime \<Rightarrow> string \<Rightarrow> tls_bundle \<Rightarrow> bool" where
  "proves_operator cr now namespace bundle \<longleftrightarrow> is_ok (VerifyIdentity cr now bundle (ControlGRPCServerIdentity namespace) now)"

lemma trunc_later: "1000000000 \<le> d \<Longrightarrow> t \<le> trunc_second (t + d)"
  by (simp add: trunc_second_def ns_per_sec_def)

lemma trunc_earlier: "trunc_second t \<le> t"
  by (simp add: trunc_second_def ns_per_sec_def)

lemma CA_key_ignored: "VerifyIdentity cr clock (b\<lparr>tb_caKeyPEM := k\<rparr>) i t = VerifyIdentity cr clock b i t"
  by (simp add: VerifyIdentity_def split: sum.split)

lemma minted_proves_operator:
  assumes "mintControlGRPCServerBundle cr now namespace ttl n = (Inr b, n')" "crypto_laws cr" "1000000000 \<le> ttl" "now \<noteq> zero_time"
    and "uri_identity (ControlGRPCServerIdentity namespace)"
  shows "proves_operator cr now namespace b"
proof -
  from assms(1) obtain ca m b' where ca: "NewCA cr now ''krm-control-ca'' ttl n = (Inr ca, m)"
    and b: "Mint cr now (Some ca) (ControlGRPCServerIdentity namespace) ttl m = (Inr b', n')" "b = b'\<lparr>tb_caKeyPEM := tb_caKeyPEM (CA_Bundle cr (Some ca))\<rparr>"
    by (auto simp: mintControlGRPCServerBundle_def elim!: then_do_Inr_obtain)
  have "trunc_second (now - minute_ns) \<le> now" "now \<le> trunc_second (min (now + ttl) (now + ttl))"
    using trunc_earlier [of "now - minute_ns"] trunc_later [OF assms(3)] by (simp_all add: ns_per_sec_def)
  then show ?thesis
    unfolding proves_operator_def b(2) CA_key_ignored using minted_verifies [OF assms(2) ca b(1) assms(5,4)] by blast
qed

lemma stored_SecretData: "sec_data s = SecretData b \<Longrightarrow> stored_bundle s = b"
  by (cases b) (simp add: stored_bundle_def SecretData_def lookup_text_def)

context secret_store
begin

lemma ensure_step:
  assumes "kc_secrets c = api" "EnsureControlGRPCTLSSecret (Suc fuel) cr c now namespace name ttl (s, n) = r"
  shows "(\<exists>e v. r = Some (Inl e, v))
    \<or> (\<exists>secret u. fetch secret_kind (view s) (namespace, name) = Some secret \<and> view u = view s
        \<and> r = Some (repair_control_secret cr c now namespace ttl secret (u, n)))
    \<or> (\<exists>bundle u v stored n'. mintControlGRPCServerBundle cr now namespace ttl n = (Inr bundle, n') \<and> view u = view s
        \<and> api_create api (control_secret namespace name bundle) u = (Inr stored, v) \<and> r = Some (Inr bundle, v, n'))"
proof -
  obtain found u where g: "api_get api (namespace, name) s = (found, u)"
    by (metis prod.exhaust)
  note G = get [OF g]
  show ?thesis
  proof (cases "check_control_options namespace name ttl")
    case None
    show ?thesis
    proof (cases found)
      case (Inr secret)
      then show ?thesis
        using assms g G None by (auto simp: EnsureControlGRPCTLSSecret.simps with_api_def)
    next
      case missing: (Inl e)
      show ?thesis
      proof (cases "errors_is ApiNotFound e")
        case False
        then show ?thesis
          using assms g G None missing by (auto simp: EnsureControlGRPCTLSSecret.simps with_api_def)
      next
        case True
        obtain minted n' where m: "mintControlGRPCServerBundle cr now namespace ttl n = (minted, n')"
          by (metis prod.exhaust)
        show ?thesis
        proof (cases minted)
          case (Inl e')
          then show ?thesis
            using assms g None missing True m by (auto simp: EnsureControlGRPCTLSSecret.simps with_api_def with_entropy_def)
        next
          case (Inr b)
          obtain created' v where c: "api_create api (control_secret namespace name b) u = (created', v)"
            by (metis prod.exhaust)
          then show ?thesis
            using assms g G None missing True m Inr create [OF c]
            by (cases created') (auto simp: EnsureControlGRPCTLSSecret.simps with_api_def with_entropy_def)
        qed
      qed
    qed
  qed (use assms in \<open>auto simp: EnsureControlGRPCTLSSecret.simps\<close>)
qed

lemma fetch_here: "fetch secret_kind (c((''secret'', key) \<mapsto> ok_store secret_kind x)) key = Some x"
  using fetch_upd(1) [of c key x key] by simp

lemma ensured:
  assumes "kc_secrets c = api" "EnsureControlGRPCTLSSecret (Suc fuel) cr c now namespace name ttl (s, n) = Some (Inr b, s', n')"
    and "crypto_laws cr" "1000000000 \<le> ttl" "now \<noteq> zero_time" "uri_identity (ControlGRPCServerIdentity namespace)"
  shows "proves_operator cr now namespace b
    \<and> (\<exists>secret. fetch secret_kind (view s') (namespace, name) = Some secret \<and> stored_bundle secret = b)
    \<and> (\<forall>key. key \<noteq> (''secret'', namespace, name) \<longrightarrow> view s' key = view s key)"
  using ensure_step [OF assms(1,2)]
proof (elim disjE exE conjE, goal_cases)
  case (2 secret u)
  note mint = minted_proves_operator [OF _ assms(3-6)]
  show ?case
  proof (cases "is_ok (validControlGRPCBundle cr now (stored_bundle secret) namespace)")
    case True
    then show ?thesis
      using 2 by (auto simp: repair_control_secret_def validControlGRPCBundle_def proves_operator_def split: sum.splits)
  next
    case False
    obtain minted k where m: "mintControlGRPCServerBundle cr now namespace ttl n = (minted, k)"
      by (metis prod.exhaust)
    then obtain b' where b': "minted = Inr b'"
      using 2(3) False by (cases minted) (auto simp: repair_control_secret_def with_entropy_def)
    obtain written v where w: "api_update api (repaired_secret secret b') u = (written, v)"
      by (metis prod.exhaust)
    then obtain stored where "written = Inr stored" "b = b'" "v = s'" "k = n'"
      using 2(3) False m b' assms(1) by (cases written) (auto simp: repair_control_secret_def with_entropy_def with_api_def)
    then have m: "mintControlGRPCServerBundle cr now namespace ttl n = (Inr b, n')"
        and up: "api_update api (repaired_secret secret b) u = (Inr stored, s')"
      using m b' w by simp_all
    have "object_key secret_kind secret = (namespace, name)"
      using 2(1) by (rule fetch_key)
    then show ?thesis
      using mint [OF m] update [OF up] updated [OF up] 2(2) by (auto simp: stored_SecretData fetch_here)
  qed
next
  case (3 b2 u v stored n'')
  then show ?case
    using minted_proves_operator [OF _ assms(3-6), of n b2 n''] create [OF 3(3)] created [OF 3(3)] by (auto simp: stored_SecretData fetch_here)
qed auto

end

interpretation memory_secret_store: secret_store memory_view "memory_api secret_kind"
  by unfold_locales (auto simp: memory_api_def memory_create_def memory_update_def split: option.splits)

text \<open>
  C0. When no other manager interferes, EnsureControlGRPCTLSSecret returns at once; a bundle
  that it returns is at that moment a valid certificate of the operator, it is the one in
  the secret, and no other object has changed.
\<close>

theorem control_secret_is_usable:
  assumes "secret_store view (kc_secrets c)" and "crypto_laws cr" and "1000000000 \<le> ttl" and "now \<noteq> zero_time"
    and "uri_identity (ControlGRPCServerIdentity namespace)"
  shows "case EnsureControlGRPCTLSSecret (Suc fuel) cr c now namespace name ttl (s, n) of
      None \<Rightarrow> False
    | Some (Inl e, s', n') \<Rightarrow> True
    | Some (Inr b, s', n') \<Rightarrow> proves_operator cr now namespace b
        \<and> (\<exists>secret. fetch secret_kind (view s') (namespace, name) = Some secret \<and> stored_bundle secret = b)
        \<and> (\<forall>key. key \<noteq> (''secret'', namespace, name) \<longrightarrow> view s' key = view s key)"
proof -
  have "EnsureControlGRPCTLSSecret (Suc fuel) cr c now namespace name ttl (s, n) \<noteq> None"
    using secret_store.ensure_step [OF assms(1) refl refl, of fuel cr now namespace name ttl s n] by (elim disjE exE conjE) simp_all
  then obtain res s' n' where r: "EnsureControlGRPCTLSSecret (Suc fuel) cr c now namespace name ttl (s, n) = Some (res, s', n')"
    by (metis option.exhaust prod.exhaust)
  then show ?thesis
    using r secret_store.ensured [OF assms(1) refl _ assms(2-5), of fuel name s n _ s' n'] by (cases res) auto
qed

definition demo_control_bundle :: tls_bundle where
  "demo_control_bundle = \<lparr>tb_caCertPEM = PemEncode demo_crypto ''CERTIFICATE'' ''R'', tb_caKeyPEM = PemEncode demo_crypto ''PRIVATE KEY'' ''key'',
     tb_certPEM = PemEncode demo_crypto ''CERTIFICATE'' (CHR ''T'' # identity_URI (ControlGRPCServerIdentity ''operator'')),
     tb_keyPEM = PemEncode demo_crypto ''PRIVATE KEY'' ''key''\<rparr>"

lemma demo_ensured:
  "case EnsureControlGRPCTLSSecret 1 demo_crypto memory_client minute_ns ''operator'' ''tls'' minute_ns
      ([SecretObject (control_secret ''operator'' ''tls'' demo_control_bundle)], 0) of Some (Inr b, _) \<Rightarrow> True | _ \<Rightarrow> False"
  by code_simp

theorem control_secret_is_usable_witness:
  "\<exists>b s' n' secret. EnsureControlGRPCTLSSecret (Suc 0) demo_crypto memory_client minute_ns ''operator'' ''tls'' minute_ns
      ([SecretObject (control_secret ''operator'' ''tls'' demo_control_bundle)], 0) = Some (Inr b, s', n')
    \<and> proves_operator demo_crypto minute_ns ''operator'' b
    \<and> fetch secret_kind (memory_view s') (''operator'', ''tls'') = Some secret \<and> stored_bundle secret = b"
proof -
  have "secret_store memory_view (kc_secrets memory_client)"
    by (simp add: memory_client_def memory_secret_store.secret_store_axioms)
  moreover have "uri_identity (ControlGRPCServerIdentity ''operator'')"
    by (simp add: uri_identity_def uri_part_def ControlGRPCServerIdentity_def TargetIdentity_def)
  moreover have "minute_ns \<noteq> zero_time" "1000000000 \<le> minute_ns"
    by code_simp+
  ultimately show ?thesis
    using control_secret_is_usable [where view = memory_view and c = memory_client and cr = demo_crypto and now = minute_ns and ttl = minute_ns
        and namespace = "''operator''" and name = "''tls''" and fuel = 0
        and s = "[SecretObject (control_secret ''operator'' ''tls'' demo_control_bundle)]" and n = 0] demo_laws demo_ensured
    by (auto split: option.splits sum.splits)
qed

end
