(* ===== verification/Live_Api.thy ===== *)
theory Live_Api
  imports Cluster Event_Hub Run_Events Paths Kube_Api File_System Resource_Names
begin

text \<open>
  liveapi/server.go: the HTTP interface that the web page of the operator reads. A request
  is answered from the objects of the cluster or by a stream of the events of the hub. Of
  package net/http, the response writer is a value: a status with a body that is encoded as
  JSON, or a stream. The theorems say which objects a request can show, which events a
  reader that comes back gets, and which files are served.
\<close>

section \<open>Requests and replies\<close>

text \<open>The query is the parsed one, in order; \<open>hr_flusher\<close>: the connection can stream.\<close>

record http_request =
  hr_method :: string
  hr_path :: string
  hr_query :: "(string \<times> string) list"
  hr_lastEventID :: string
  hr_flusher :: bool

definition query_get :: "http_request \<Rightarrow> string \<Rightarrow> string" where
  "query_get r k = lookup_text (hr_query r) k"

definition query_all :: "http_request \<Rightarrow> string \<Rightarrow> string list" where
  "query_all r k = map snd (filter (\<lambda>p. fst p = k) (hr_query r))"

datatype payload = Machines "rsync_machine list" | AMachine rsync_machine | Backups "backup_job list" | ABackup backup_job
  | Restores "restore_job list" | ARestore restore_job | Sources "backup_source list" | ASource backup_source
  | RestorePointItems "restore_point list" | EventItems "control_event list" | ErrorBody string string

text \<open>A status, the header Allow, and a body; a stream, with the events that it starts with and those that it shows; a
  file; or what ServeMux itself answers.\<close>

datatype live_reply = Reply nat "string list" payload | Streams "control_event list" "control_event \<Rightarrow> bool" | ServesFile path | MuxStatus nat

definition writeJSON :: "nat \<Rightarrow> payload \<Rightarrow> live_reply" where
  "writeJSON status value = Reply status [] value"

definition writeError :: "nat \<Rightarrow> string \<Rightarrow> string \<Rightarrow> live_reply" where
  "writeError status code message = writeJSON status (ErrorBody code message)"

definition writeMethodNotAllowed :: "string list \<Rightarrow> live_reply" where
  "writeMethodNotAllowed methods = Reply 405 methods (ErrorBody ''method_not_allowed'' ''method not allowed'')"

definition writeClientError :: "goerr \<Rightarrow> live_reply" where
  "writeClientError e = (if errors_is ApiNotFound e then writeError 404 ''not_found'' ''resource not found''
     else writeError 500 ''kubernetes_error'' (error_text e))"

section \<open>Filters\<close>

definition splitNamespacedFilter :: "string \<Rightarrow> string \<Rightarrow> string \<times> string" where
  "splitNamespacedFilter defaultNamespace filter' = (case cut_char CHR ''/'' filter' of
      Some (left, right) \<Rightarrow> (left, right) | None \<Rightarrow> (defaultNamespace, filter'))"

definition refMatches :: "string \<Rightarrow> object_ref \<Rightarrow> string \<Rightarrow> bool" where
  "refMatches defaultNamespace ref filter' = (case splitNamespacedFilter defaultNamespace filter' of
      (namespace, name) \<Rightarrow> NamespaceOr ref defaultNamespace = namespace \<and> or_name ref = name)"

definition anyRefMatches :: "string \<Rightarrow> object_ref list \<Rightarrow> string \<Rightarrow> bool" where
  "anyRefMatches defaultNamespace refs filter' = list_ex (\<lambda>ref. refMatches defaultNamespace ref filter') refs"

definition source_machine :: "backup_source \<Rightarrow> nsname" where
  "source_machine source = (NamespaceOr (ss_machineRef (s_spec source)) (om_namespace (s_meta source)), or_name (ss_machineRef (s_spec source)))"

fun machineHasSource :: "rsync_machine \<Rightarrow> backup_source list \<Rightarrow> string \<Rightarrow> bool" where
  "machineHasSource machine [] sourceFilter = False"
| "machineHasSource machine (source # sources) sourceFilter =
    (if or_name (ss_machineRef (s_spec source)) = [] then machineHasSource machine sources sourceFilter
     else if source_machine source \<noteq> meta_key (m_meta machine) then machineHasSource machine sources sourceFilter
     else if refMatches (om_namespace (m_meta machine)) \<lparr>or_namespace = om_namespace (s_meta source), or_name = om_name (s_meta source)\<rparr> sourceFilter
     then True else machineHasSource machine sources sourceFilter)"

definition filterMachines :: "rsync_machine list \<Rightarrow> backup_source list \<Rightarrow> string \<Rightarrow> string \<Rightarrow> rsync_machine list" where
  "filterMachines machines sources defaultNamespace sourceFilter =
    (if sourceFilter = [] then machines
     else filter (\<lambda>m. \<not> (defaultNamespace \<noteq> [] \<and> om_namespace (m_meta m) \<noteq> defaultNamespace) \<and> machineHasSource m sources sourceFilter) machines)"

primrec phase_text :: "run_phase \<Rightarrow> string" where
  "phase_text RunUnset = []"
| "phase_text RunPending = ''Pending''"
| "phase_text RunPreparing = ''Preparing''"
| "phase_text RunRunning = ''Running''"
| "phase_text RunFinalizing = ''Finalizing''"
| "phase_text RunSucceeded = ''Succeeded''"
| "phase_text RunFailed = ''Failed''"
| "phase_text RunCanceled = ''Canceled''"

definition backupJobMatchesMachine :: "backup_job \<Rightarrow> string \<Rightarrow> string \<Rightarrow> bool" where
  "backupJobMatchesMachine run namespace machineFilter =
    (if refMatches namespace (bs_machineRef (j_spec run)) machineFilter then True
     else anyRefMatches namespace (bj_includedMachines (j_status run)) machineFilter)"

definition filterBackupJobs :: "backup_job list \<Rightarrow> string \<Rightarrow> string \<Rightarrow> string \<Rightarrow> backup_job list" where
  "filterBackupJobs runs namespace phaseFilter machineFilter =
    (if phaseFilter = [] \<and> machineFilter = [] then runs
     else filter (\<lambda>run. \<not> (phaseFilter \<noteq> [] \<and> phase_text (bj_phase (j_status run)) \<noteq> phaseFilter)
       \<and> \<not> (machineFilter \<noteq> [] \<and> \<not> backupJobMatchesMachine run namespace machineFilter)) runs)"

definition namespacedObjectReference :: "object_ref \<Rightarrow> string \<Rightarrow> nsname" where
  "namespacedObjectReference ref defaultNamespace = (NamespaceOr ref defaultNamespace, or_name ref)"

text \<open>\<open>sourcesByRef\<close>: the last source with a key wins.\<close>

definition sources_by_key :: "backup_source list \<Rightarrow> (nsname \<times> backup_source) list" where
  "sources_by_key sources = fold (\<lambda>s m. alist_put (meta_key (s_meta s)) s m) sources []"

definition filterRestoreJobs :: "restore_job list \<Rightarrow> backup_source list \<Rightarrow> string \<Rightarrow> string \<Rightarrow> string \<Rightarrow> string \<Rightarrow> restore_job list" where
  "filterRestoreJobs runs sources namespace phaseFilter machineFilter sourceFilter =
    (if phaseFilter = [] \<and> machineFilter = [] \<and> sourceFilter = [] then runs
     else filter (\<lambda>run. \<not> (phaseFilter \<noteq> [] \<and> phase_text (rj_phase (r_status run)) \<noteq> phaseFilter)
       \<and> \<not> (sourceFilter \<noteq> [] \<and> \<not> refMatches namespace (rs_sourceRef (r_spec run)) sourceFilter)
       \<and> (machineFilter \<noteq> [] \<longrightarrow>
           (case map_of (sources_by_key sources) (namespacedObjectReference (rs_sourceRef (r_spec run)) (om_namespace (r_meta run))) of
              None \<Rightarrow> False | Some source \<Rightarrow> refMatches namespace (ss_machineRef (s_spec source)) machineFilter))) runs)"

definition filterSources :: "backup_source list \<Rightarrow> string \<Rightarrow> string \<Rightarrow> backup_source list" where
  "filterSources sources pvcFilter captureFilter =
    (if pvcFilter = [] \<and> captureFilter = [] then sources
     else filter (\<lambda>s. \<not> (pvcFilter \<noteq> [] \<and> ss_pvc (s_spec s) \<noteq> pvcFilter)
       \<and> \<not> (captureFilter \<noteq> [] \<and> capture_text (CaptureOrDefault (ss_consistency (s_spec s))) \<noteq> captureFilter)) sources)"

definition filterRestorePoints :: "restore_point list \<Rightarrow> string \<Rightarrow> string \<Rightarrow> restore_point list" where
  "filterRestorePoints points tierFilter snapshotFilter =
    (if tierFilter = [] \<and> snapshotFilter = [] then points
     else filter (\<lambda>p. \<not> (tierFilter \<noteq> [] \<and> rp_tier p \<noteq> tierFilter) \<and> \<not> (snapshotFilter \<noteq> [] \<and> rp_snapshot p \<noteq> snapshotFilter)) points)"

section \<open>Paths of the interface\<close>

definition validNamespace :: "k8s_validation \<Rightarrow> string \<Rightarrow> bool" where
  "validNamespace kv value \<longleftrightarrow> value \<noteq> [] \<and> IsDNS1123Label kv value = []"

definition validObjectName :: "k8s_validation \<Rightarrow> string \<Rightarrow> bool" where
  "validObjectName kv value \<longleftrightarrow> value \<noteq> [] \<and> IsDNS1123Subdomain kv value = []"

record namespaced_route =
  nr_namespace :: string
  nr_resource :: string
  nr_name :: string
  nr_stream :: bool
  nr_restorePoints :: bool

definition route_tail :: "k8s_validation \<Rightarrow> namespaced_route \<Rightarrow> string list \<Rightarrow> namespaced_route option" where
  "route_tail kv route parts =
    (case parts of
       [] \<Rightarrow> Some route
     | [name] \<Rightarrow> if validObjectName kv name then Some (route\<lparr>nr_name := name\<rparr>) else None
     | [name, sub] \<Rightarrow>
         if \<not> validObjectName kv name then None
         else if (nr_resource route = ''backups'' \<or> nr_resource route = ''restores'') \<and> sub = ''events''
         then Some (route\<lparr>nr_name := name, nr_stream := True\<rparr>)
         else if nr_resource route = ''machines'' \<and> (sub = ''restorepoints'' \<or> sub = ''restore-points'')
         then Some (route\<lparr>nr_name := name, nr_restorePoints := True\<rparr>)
         else None
     | _ \<Rightarrow> None)"

definition parseNamespacedPath :: "k8s_validation \<Rightarrow> string \<Rightarrow> namespaced_route option" where
  "parseNamespacedPath kv p =
    (case split_on CHR ''/'' (trim_by (\<lambda>c. c = CHR ''/'') p) of
       api # v1 # namespaces # namespace # resource # parts \<Rightarrow>
         if api \<noteq> ''api'' \<or> v1 \<noteq> ''v1'' \<or> namespaces \<noteq> ''namespaces'' then None
         else if \<not> validNamespace kv namespace then None
         else if resource \<notin> {''backups'', ''restores'', ''machines'', ''sources''} then None
         else route_tail kv \<lparr>nr_namespace = namespace, nr_resource = resource, nr_name = [], nr_stream = False, nr_restorePoints = False\<rparr> parts
     | _ \<Rightarrow> None)"

section \<open>Streams of events\<close>

record event_filter =
  ef_namespace :: string
  ef_kinds :: "string list"

fun parse_kinds :: "string list \<Rightarrow> string list \<Rightarrow> string list result" where
  "parse_kinds [] kinds = Inr kinds"
| "parse_kinds (kind # rest) kinds =
    (let kind = trim_space kind in
     if kind = [] then parse_kinds rest kinds
     else if kind = RunKindBackup \<or> kind = RunKindRestore then parse_kinds rest (List.insert kind kinds)
     else Inl (errorf ''unsupported run kind %q'' [kind]))"

definition parseEventFilter :: "k8s_validation \<Rightarrow> http_request \<Rightarrow> event_filter result" where
  "parseEventFilter kv r =
    (let namespace = trim_space (query_get r ''namespace'') in
     if namespace \<noteq> [] \<and> \<not> validNamespace kv namespace then Inl (errorf ''namespace must be a valid DNS label'' [])
     else map_sum id (\<lambda>kinds. \<lparr>ef_namespace = namespace, ef_kinds = kinds\<rparr>) (parse_kinds (query_all r ''kind'') []))"

definition filter_matches :: "event_filter \<Rightarrow> control_event \<Rightarrow> bool" where
  "filter_matches f event =
    (if ef_namespace f \<noteq> [] \<and> rk_namespace (ce_key event) \<noteq> ef_namespace f then False
     else if ef_kinds f \<noteq> [] \<and> rk_kind (ce_key event) \<notin> set (ef_kinds f) then False else True)"

definition parseLastEventID :: "http_request \<Rightarrow> (64 word) result" where
  "parseLastEventID r =
    (let value = trim_space (hr_lastEventID r);
         value = (if value = [] then trim_space (query_get r ''lastEventId'') else value) in
     if value = [] then Inr 0
     else case nat_of_dec value of
         Some n \<Rightarrow> if n < 2 ^ 64 then Inr (of_nat n) else Inl (errorf ''last event id must be an unsigned integer'' [])
       | None \<Rightarrow> Inl (errorf ''last event id must be an unsigned integer'' []))"

text \<open>What the loop writes for the events that arrive; their JSON is a parameter.\<close>

definition newline :: string where
  "newline = [CHR 0x0A]"

definition event_text :: "(control_event \<Rightarrow> string result) \<Rightarrow> control_event \<Rightarrow> string" where
  "event_text marshal event = (case marshal event of
      Inl e \<Rightarrow> ''event: error'' @ newline @ ''data: '' @ go_quote (error_text e) @ newline @ newline
    | Inr payload \<Rightarrow> ''id: '' @ dec_of_nat (unat (ce_sequence event)) @ newline @ ''event: '' @ ce_kind event @ newline
        @ ''data: '' @ payload @ newline @ newline)"

definition stream_text :: "(control_event \<Rightarrow> string result) \<Rightarrow> (control_event \<Rightarrow> bool) \<Rightarrow> control_event list \<Rightarrow> string" where
  "stream_text marshal shown events = concat (map (event_text marshal) (filter shown events))"

section \<open>Handlers\<close>

record 's live_server =
  lv_client :: "'s kube_client option"
  lv_frontend :: string

record 's live_world =
  lw_api :: 's
  lw_hub :: event_hub
  lw_next :: subscriber

type_synonym 's live_call = "'s live_world \<Rightarrow> live_reply \<times> 's live_world"

definition cluster_call :: "('s, 'a) call \<Rightarrow> ('a \<Rightarrow> 's live_call) \<Rightarrow> 's live_call" where
  "cluster_call f k w = (case f (lw_api w) of
      (Inl e, s) \<Rightarrow> (writeClientError e, w\<lparr>lw_api := s\<rparr>) | (Inr x, s) \<Rightarrow> k x (w\<lparr>lw_api := s\<rparr>))"

definition ensureClient :: "'s live_server \<Rightarrow> ('s kube_client \<Rightarrow> 's live_call) \<Rightarrow> 's live_call" where
  "ensureClient srv k w = (case lv_client srv of
      None \<Rightarrow> (writeError 501 ''cache_unavailable'' ''cached Kubernetes listing is not wired'', w) | Some c \<Rightarrow> k c w)"

definition live_listOptions :: "string \<Rightarrow> list_options" where
  "live_listOptions namespace = (if namespace = [] then everything else InNamespace namespace)"

definition answer_with :: "payload \<Rightarrow> 's live_call" where
  "answer_with body w = (writeJSON 200 body, w)"

definition writeSnapshot :: "k8s_validation \<Rightarrow> run_key \<Rightarrow> 's live_call" where
  "writeSnapshot kv key w = (case Snapshot kv (lw_hub w) key of
      Inl e \<Rightarrow> (writeError 400 ''invalid_request'' (error_text e), w) | Inr events \<Rightarrow> (writeJSON 200 (EventItems events), w))"

text \<open>The stream starts with what the subscription replays.\<close>

definition writeEventStream :: "http_request \<Rightarrow> control_event list \<Rightarrow> (control_event \<Rightarrow> bool) \<Rightarrow> live_reply" where
  "writeEventStream r events shown =
    (if hr_flusher r then Streams events shown else writeError 500 ''streaming_unsupported'' ''streaming is not supported'')"

definition writeEvents :: "k8s_validation \<Rightarrow> http_request \<Rightarrow> run_key \<Rightarrow> 's live_call" where
  "writeEvents kv r key w =
    (case parseLastEventID r of Inl e \<Rightarrow> (writeError 400 ''invalid_last_event_id'' (error_text e), w) | Inr after_id \<Rightarrow>
     (case SubscribeAfter kv (lw_hub w) key after_id (lw_next w) of
        Inl e \<Rightarrow> (writeError 400 ''invalid_request'' (error_text e), w)
      | Inr (events, hub) \<Rightarrow> (writeEventStream r events (\<lambda>_. True), w\<lparr>lw_hub := hub, lw_next := Suc (lw_next w)\<rparr>)))"

definition writeFilteredEvents :: "k8s_validation \<Rightarrow> http_request \<Rightarrow> 's live_call" where
  "writeFilteredEvents kv r w =
    (case parseLastEventID r of Inl e \<Rightarrow> (writeError 400 ''invalid_last_event_id'' (error_text e), w) | Inr after_id \<Rightarrow>
     (case parseEventFilter kv r of Inl e \<Rightarrow> (writeError 400 ''invalid_filter'' (error_text e), w) | Inr f \<Rightarrow>
      (case SubscribeAllAfter (lw_hub w) after_id (lw_next w) of
         (events, hub) \<Rightarrow> (writeEventStream r events (filter_matches f), w\<lparr>lw_hub := hub, lw_next := Suc (lw_next w)\<rparr>))))"

definition writeMachines :: "'s live_server \<Rightarrow> http_request \<Rightarrow> string \<Rightarrow> 's live_call" where
  "writeMachines srv r namespace = ensureClient srv (\<lambda>c.
     cluster_call (api_list (kc_machines c) (live_listOptions namespace)) (\<lambda>machines.
     cluster_call (api_list (kc_sources c) everything) (\<lambda>sources.
       answer_with (Machines (filterMachines machines sources namespace (query_get r ''source''))))))"

definition writeMachine :: "'s live_server \<Rightarrow> string \<Rightarrow> string \<Rightarrow> 's live_call" where
  "writeMachine srv namespace name = ensureClient srv (\<lambda>c.
     cluster_call (api_get (kc_machines c) (namespace, name)) (\<lambda>machine. answer_with (AMachine machine)))"

definition writeBackupJobs :: "'s live_server \<Rightarrow> http_request \<Rightarrow> string \<Rightarrow> 's live_call" where
  "writeBackupJobs srv r namespace = ensureClient srv (\<lambda>c.
     cluster_call (api_list (kc_backups c) (live_listOptions namespace)) (\<lambda>runs.
       answer_with (Backups (filterBackupJobs runs namespace (query_get r ''phase'') (query_get r ''machine'')))))"

definition writeBackupJob :: "'s live_server \<Rightarrow> k8s_validation \<Rightarrow> string \<Rightarrow> string \<Rightarrow> 's live_call" where
  "writeBackupJob srv kv namespace name = (case lv_client srv of
      None \<Rightarrow> writeSnapshot kv \<lparr>rk_namespace = namespace, rk_name = name, rk_kind = RunKindBackup\<rparr>
    | Some c \<Rightarrow> cluster_call (api_get (kc_backups c) (namespace, name)) (\<lambda>run. answer_with (ABackup run)))"

definition writeRestoreJobs :: "'s live_server \<Rightarrow> http_request \<Rightarrow> string \<Rightarrow> 's live_call" where
  "writeRestoreJobs srv r namespace = ensureClient srv (\<lambda>c.
     cluster_call (api_list (kc_restores c) (live_listOptions namespace)) (\<lambda>runs.
     cluster_call (api_list (kc_sources c) everything) (\<lambda>sources.
       answer_with (Restores (filterRestoreJobs runs sources namespace (query_get r ''phase'') (query_get r ''machine'') (query_get r ''source''))))))"

definition writeRestoreJob :: "'s live_server \<Rightarrow> k8s_validation \<Rightarrow> string \<Rightarrow> string \<Rightarrow> 's live_call" where
  "writeRestoreJob srv kv namespace name = (case lv_client srv of
      None \<Rightarrow> writeSnapshot kv \<lparr>rk_namespace = namespace, rk_name = name, rk_kind = RunKindRestore\<rparr>
    | Some c \<Rightarrow> cluster_call (api_get (kc_restores c) (namespace, name)) (\<lambda>run. answer_with (ARestore run)))"

definition writeRestorePoints :: "'s live_server \<Rightarrow> http_request \<Rightarrow> string \<Rightarrow> string \<Rightarrow> 's live_call" where
  "writeRestorePoints srv r namespace name = ensureClient srv (\<lambda>c.
     cluster_call (api_get (kc_machines c) (namespace, name)) (\<lambda>target.
       answer_with (RestorePointItems (filterRestorePoints (mst_restorePoints (m_status target)) (query_get r ''tier'') (query_get r ''snapshot'')))))"

definition writeSources :: "'s live_server \<Rightarrow> http_request \<Rightarrow> string \<Rightarrow> 's live_call" where
  "writeSources srv r namespace = ensureClient srv (\<lambda>c.
     cluster_call (api_list (kc_sources c) (live_listOptions namespace)) (\<lambda>sources.
       answer_with (Sources (filterSources sources (query_get r ''pvc'') (query_get r ''capture'')))))"

definition writeSource :: "'s live_server \<Rightarrow> string \<Rightarrow> string \<Rightarrow> 's live_call" where
  "writeSource srv namespace name = ensureClient srv (\<lambda>c.
     cluster_call (api_get (kc_sources c) (namespace, name)) (\<lambda>source. answer_with (ASource source)))"

definition handle_route :: "'s live_server \<Rightarrow> k8s_validation \<Rightarrow> http_request \<Rightarrow> namespaced_route \<Rightarrow> 's live_call" where
  "handle_route srv kv r route =
    (let namespace = nr_namespace route; name = nr_name route in
     if nr_resource route = ''backups'' then
       (if nr_stream route then writeEvents kv r \<lparr>rk_namespace = namespace, rk_name = name, rk_kind = RunKindBackup\<rparr>
        else if name = [] then writeBackupJobs srv r namespace else writeBackupJob srv kv namespace name)
     else if nr_resource route = ''restores'' then
       (if nr_stream route then writeEvents kv r \<lparr>rk_namespace = namespace, rk_name = name, rk_kind = RunKindRestore\<rparr>
        else if name = [] then writeRestoreJobs srv r namespace else writeRestoreJob srv kv namespace name)
     else if nr_resource route = ''machines'' then
       (if nr_restorePoints route then writeRestorePoints srv r namespace name
        else if name = [] then writeMachines srv r namespace else writeMachine srv namespace name)
     else if nr_resource route = ''sources'' then
       (if name = [] then writeSources srv r namespace else writeSource srv namespace name)
     else (\<lambda>w. (writeError 404 ''not_found'' ''endpoint not found'', w)))"

definition handleNamespaced :: "'s live_server \<Rightarrow> k8s_validation \<Rightarrow> http_request \<Rightarrow> 's live_call" where
  "handleNamespaced srv kv r w =
    (case parseNamespacedPath kv (hr_path r) of
       None \<Rightarrow> (writeError 404 ''not_found'' ''endpoint not found'', w)
     | Some route \<Rightarrow> if hr_method r \<noteq> ''GET'' then (writeMethodNotAllowed [''GET''], w) else handle_route srv kv r route w)"

definition handleGlobalEvents :: "k8s_validation \<Rightarrow> http_request \<Rightarrow> 's live_call" where
  "handleGlobalEvents kv r w = (if hr_method r \<noteq> ''GET'' then (writeMethodNotAllowed [''GET''], w) else writeFilteredEvents kv r w)"

definition handleGlobalList :: "'s live_server \<Rightarrow> http_request \<Rightarrow> 's live_call" where
  "handleGlobalList srv r w =
    (if hr_method r \<noteq> ''GET'' then (writeMethodNotAllowed [''GET''], w)
     else let namespace = query_get r ''namespace''; what = trim_prefix (hr_path r) ''/api/v1/'' in
       if what = ''machines'' then writeMachines srv r namespace w
       else if what = ''backups'' then writeBackupJobs srv r namespace w
       else if what = ''restores'' then writeRestoreJobs srv r namespace w
       else if what = ''sources'' then writeSources srv r namespace w
       else (writeError 404 ''not_found'' ''endpoint not found'', w))"

section \<open>Files of the page\<close>

text \<open>Paths are taken from the working directory; \<open>http.ServeFile\<close> is called with the file.\<close>

definition pathInside :: "path \<Rightarrow> path \<Rightarrow> bool" where
  "pathInside root filePath = (let rel = filepath_rel root filePath in rel \<noteq> ''..'' \<and> \<not> has_prefix rel ''../'')"

definition spaFileHandler :: "path \<Rightarrow> string \<Rightarrow> fs \<Rightarrow> http_request \<Rightarrow> live_reply" where
  "spaFileHandler cwd dir f r =
    (if hr_method r \<noteq> ''GET'' \<and> hr_method r \<noteq> ''HEAD'' then writeMethodNotAllowed [''GET'', ''HEAD'']
     else let cleanRoot = abs_path cwd dir;
              requestPath = path_clean (''/'' @ trim_prefix (hr_path r) ''/'');
              requestPath = (if requestPath = ''/'' then ''/index.html'' else requestPath);
              filePath = path_below cleanRoot (trim_prefix requestPath ''/'') in
       if \<not> pathInside cleanRoot filePath then writeError 400 ''invalid_path'' ''static asset path escapes frontend root''
       else case os_stat f filePath of
           Inr info \<Rightarrow> if info \<noteq> DirN then ServesFile filePath else ServesFile (path_below cleanRoot ''index.html'')
         | Inl _ \<Rightarrow> ServesFile (path_below cleanRoot ''index.html''))"

text \<open>ServeMux on a path without empty, dot and dot-dot segments: the longest pattern wins; a path that only lacks the
  slash of a pattern is redirected. Without a page, the rest is not found.\<close>

definition live_Handler :: "'s live_server \<Rightarrow> k8s_validation \<Rightarrow> path \<Rightarrow> fs \<Rightarrow> http_request \<Rightarrow> 's live_call" where
  "live_Handler srv kv cwd f r w =
    (let p = hr_path r in
     if has_prefix p ''/api/v1/namespaces/'' then handleNamespaced srv kv r w
     else if p = ''/api/v1/events'' then handleGlobalEvents kv r w
     else if p \<in> {''/api/v1/machines'', ''/api/v1/backups'', ''/api/v1/restores'', ''/api/v1/sources''} then handleGlobalList srv r w
     else if p = ''/api/v1/namespaces'' \<or> p = ''/api'' then (MuxStatus 301, w)
     else if has_prefix p ''/api/'' then (writeError 404 ''not_found'' ''endpoint not found'', w)
     else if lv_frontend srv \<noteq> [] then (spaFileHandler cwd (lv_frontend srv) f r, w)
     else (MuxStatus 404, w))"


section \<open>Files: nothing outside the page is served\<close>

lemma plain_clean_segs:
  assumes "\<forall>seg\<in>set segs. CHR ''/'' \<notin> set seg"
  shows "plain (clean_segs True segs)"
proof -
  have step: "plain (clean_step True out seg)" if "plain out" "CHR ''/'' \<notin> set seg" for out seg
  proof -
    have "plain (butlast out)"
      using that(1) by (auto simp: list_all_iff dest: in_set_butlastD)
    moreover have "out \<noteq> [] \<Longrightarrow> last out \<noteq> ''..''"
      using that(1) by (auto simp: list_all_iff plain_seg_def)
    ultimately show ?thesis
      using that by (auto simp: clean_step_def plain_seg_def)
  qed
  have "plain (foldl (clean_step True) out segs)" if "plain out" for out
    using assms that by (induction segs arbitrary: out) (auto intro: step)
  then show ?thesis
    by (simp add: clean_segs_def)
qed

lemma plain_abs_path: "plain cwd \<Longrightarrow> plain (abs_path cwd dir)"
  unfolding abs_path_def using split_on_no_sep [of _ "CHR ''/''" dir] plain_no_sep [of cwd]
  by (auto intro!: plain_clean_segs)

lemma path_clean_rooted:
  obtains segs where "plain segs" "path_clean (CHR ''/'' # s) = CHR ''/'' # join ''/'' segs"
proof -
  have "plain (clean_segs True (split_on CHR ''/'' (CHR ''/'' # s)))"
    by (rule plain_clean_segs) (meson split_on_no_sep)
  then show thesis
    by (rule that) (simp add: path_clean_def is_abs_def has_prefix_def)
qed

lemma pathInside_below [simp]: "plain segs \<Longrightarrow> pathInside root (root @ segs)"
  using ensureInside_below [of segs root] by (auto simp: ensureInside_def pathInside_def Let_def split: if_splits)

text \<open>C22. A request for the page is answered with a file below the directory of the page, named by plain segments: the one
  of the path of the request when it is there and not a directory, otherwise index.html. No path gets out of the
  directory, and the branch that would answer with an error for such a path is dead.\<close>

theorem static_files_stay_inside:
  assumes "plain cwd" and "hr_method r = ''GET'' \<or> hr_method r = ''HEAD''"
  shows "\<exists>segs. plain segs \<and> segs \<noteq> [] \<and> spaFileHandler cwd dir f r = ServesFile (abs_path cwd dir @ segs)
    \<and> (segs = [''index.html''] \<or> (\<exists>nd. os_stat f (abs_path cwd dir @ segs) = Inr nd \<and> nd \<noteq> DirN
         \<and> path_clean (''/'' @ trim_prefix (hr_path r) ''/'') = ''/'' @ join ''/'' segs))"
proof -
  let ?root = "abs_path cwd dir"
  have root: "plain ?root"
    by (rule plain_abs_path) (rule assms)
  obtain segs where segs: "plain segs" "path_clean (''/'' @ trim_prefix (hr_path r) ''/'') = CHR ''/'' # join ''/'' segs"
    using path_clean_rooted [of "trim_prefix (hr_path r) ''/''"] by auto
  define asked where "asked = (if segs = [] then [''index.html''] else segs)"
  have asked: "plain asked" "asked \<noteq> []"
    using segs(1) by (auto simp: asked_def plain_seg_def)
  have index: "path_below ?root ''index.html'' = ?root @ [''index.html'']"
    using path_below_plain [OF root, of "[''index.html'']"] by (simp add: plain_seg_def)
  have request: "(if CHR ''/'' # join ''/'' segs = ''/'' then ''/index.html'' else CHR ''/'' # join ''/'' segs) = CHR ''/'' # join ''/'' asked"
    using join_plain_nonempty [OF segs(1)] by (auto simp: asked_def)
  have trim: "trim_prefix (CHR ''/'' # s) ''/'' = s" for s
    using trim_prefix_append [of "''/''" s] by simp
  have served: "spaFileHandler cwd dir f r = (case os_stat f (?root @ asked) of
      Inr info \<Rightarrow> if info \<noteq> DirN then ServesFile (?root @ asked) else ServesFile (?root @ [''index.html''])
    | Inl _ \<Rightarrow> ServesFile (?root @ [''index.html'']))"
    using assms(2) asked path_below_plain [OF root asked] unfolding spaFileHandler_def Let_def segs(2) request index trim by (auto split: sum.splits)
  show ?thesis
  proof (cases "\<exists>nd. os_stat f (?root @ asked) = Inr nd \<and> nd \<noteq> DirN")
    case True
    then have "spaFileHandler cwd dir f r = ServesFile (?root @ asked)"
      using served by auto
    then show ?thesis
      using True asked segs(2) by (intro exI [where x = asked]) (auto simp: asked_def)
  next
    case False
    then have "spaFileHandler cwd dir f r = ServesFile (?root @ [''index.html''])"
      using served by (auto split: sum.splits)
    then show ?thesis
      by (intro exI [where x = "[''index.html'']"]) (simp add: plain_seg_def)
  qed
qed

definition browser_request :: "string \<Rightarrow> http_request" where
  "browser_request p = \<lparr>hr_method = ''GET'', hr_path = p, hr_query = [], hr_lastEventID = [], hr_flusher = True\<rparr>"

theorem static_files_stay_inside_witness:
  "\<exists>segs. plain segs \<and> segs \<noteq> []
     \<and> spaFileHandler [''srv''] ''dist'' \<lparr>fs_tree = [], fs_data = [], fs_io = None\<rparr> (browser_request ''/../../etc/passwd'') = ServesFile ([''srv'', ''dist''] @ segs)"
proof -
  have "plain [''srv'']"
    by (simp add: plain_seg_def)
  moreover have "hr_method (browser_request ''/../../etc/passwd'') = ''GET'' \<or> hr_method (browser_request ''/../../etc/passwd'') = ''HEAD''"
    by (simp add: browser_request_def)
  moreover have "abs_path [''srv''] ''dist'' = [''srv'', ''dist'']"
    by code_simp
  ultimately show ?thesis
    using static_files_stay_inside [of "[''srv'']" "browser_request ''/../../etc/passwd''" "''dist''" "\<lparr>fs_tree = [], fs_data = [], fs_io = None\<rparr>"] by auto
qed

section \<open>Filters by machine\<close>

text \<open>The filter of a list reads the reference of a run in the namespace of the list instead of that of the run. A list of
  one namespace finds a run whose machine reference leaves the namespace out; a list of all namespaces does not find the
  same run under the same name of the machine, and a bare name of the machine finds it there whatever its namespace.\<close>

theorem global_filter_misses_local_references:
  assumes "or_namespace (bs_machineRef (j_spec run)) = []" and "bj_includedMachines (j_status run) = []"
    and "om_namespace (j_meta run) \<noteq> []" and "CHR ''/'' \<notin> set (om_namespace (j_meta run))"
    and "or_name (bs_machineRef (j_spec run)) \<noteq> []" and "CHR ''/'' \<notin> set (or_name (bs_machineRef (j_spec run)))"
  shows "filterBackupJobs [run] (om_namespace (j_meta run)) [] (om_namespace (j_meta run) @ ''/'' @ or_name (bs_machineRef (j_spec run))) = [run]
    \<and> filterBackupJobs [run] [] [] (om_namespace (j_meta run) @ ''/'' @ or_name (bs_machineRef (j_spec run))) = []
    \<and> filterBackupJobs [run] [] [] (or_name (bs_machineRef (j_spec run))) = [run]"
proof -
  have cut: "cut_char CHR ''/'' (a @ CHR ''/'' # b) = Some (a, b)" if "CHR ''/'' \<notin> set a" for a b
    using that by (induction a) auto
  have none: "cut_char CHR ''/'' a = None" if "CHR ''/'' \<notin> set a" for a
    using that by (induction a) auto
  show ?thesis
    using assms cut [OF assms(4)] none [OF assms(6)]
    by (auto simp: filterBackupJobs_def backupJobMatchesMachine_def refMatches_def anyRefMatches_def splitNamespacedFilter_def NamespaceOr_def)
qed


definition local_run :: backup_job where
  "local_run = \<lparr>j_meta = empty_meta\<lparr>om_namespace := ''ops'', om_name := ''nightly''\<rparr>,
     j_spec = \<lparr>bs_machineRef = \<lparr>or_namespace = [], or_name = ''vault''\<rparr>, bs_trigger = TriggerUnset\<rparr>,
     j_status = empty_backup_status\<rparr>"

theorem global_filter_misses_local_references_witness:
  "filterBackupJobs [local_run] ''ops'' [] ''ops/vault'' = [local_run] \<and> filterBackupJobs [local_run] [] [] ''ops/vault'' = []"
  using global_filter_misses_local_references [of local_run] by (simp add: local_run_def empty_meta_def empty_backup_status_def)

section \<open>Paths of objects\<close>

definition route_segments :: "namespaced_route \<Rightarrow> string list" where
  "route_segments route = [''api'', ''v1'', ''namespaces'', nr_namespace route, nr_resource route]
     @ (if nr_name route = [] then [] else [nr_name route])
     @ (if nr_stream route then [''events''] else if nr_restorePoints route then [''restorepoints''] else [])"

definition route_ok :: "k8s_validation \<Rightarrow> namespaced_route \<Rightarrow> bool" where
  "route_ok kv route \<longleftrightarrow> validNamespace kv (nr_namespace route) \<and> nr_resource route \<in> {''backups'', ''restores'', ''machines'', ''sources''}
     \<and> (nr_name route = [] \<or> validObjectName kv (nr_name route))
     \<and> (nr_stream route \<longrightarrow> nr_resource route \<in> {''backups'', ''restores''} \<and> nr_name route \<noteq> [] \<and> \<not> nr_restorePoints route)
     \<and> (nr_restorePoints route \<longrightarrow> nr_resource route = ''machines'' \<and> nr_name route \<noteq> [])"

text \<open>What is documented of the validation of names: a valid name is letters, digits, dashes and dots that starts and ends
  with a letter or a digit, so it is a plain segment.\<close>

definition names_plain :: "k8s_validation \<Rightarrow> bool" where
  "names_plain kv \<longleftrightarrow> (\<forall>s. validNamespace kv s \<or> validObjectName kv s \<longrightarrow> plain_seg s)"

lemma last_join_plain: "plain segs \<Longrightarrow> segs \<noteq> [] \<Longrightarrow> last (join ''/'' segs) \<noteq> CHR ''/''"
proof (induction segs rule: induct_list012)
  case (2 s)
  then have "s \<noteq> []" "CHR ''/'' \<notin> set s"
    by (simp_all add: plain_seg_def)
  then show ?case
    by (metis last_in_set join.simps(2))
next
  case (3 a b segs)
  then show ?case
    using join_plain_nonempty [of "b # segs"] by simp
qed simp

lemma trimmed_path:
  assumes "plain segs" "segs \<noteq> []" "tail = [] \<or> tail = ''/''"
  shows "trim_by (\<lambda>c. c = CHR ''/'') (CHR ''/'' # join ''/'' segs @ tail) = join ''/'' segs"
proof -
  have hd: "join ''/'' segs \<noteq> []" "hd (join ''/'' segs) \<noteq> CHR ''/''"
    using join_plain_nonempty [OF assms(1,2)] join_plain_not_abs [OF assms(1)] by (cases "join ''/'' segs"; simp add: has_prefix_def)+
  then have "trim_left (\<lambda>c. c = CHR ''/'') (CHR ''/'' # join ''/'' segs @ tail) = join ''/'' segs @ tail"
    by (cases "join ''/'' segs") (simp_all add: trim_left_def)
  moreover have "trim_right (\<lambda>c. c = CHR ''/'') (join ''/'' segs @ tail) = join ''/'' segs"
    using assms(3) hd(1) last_join_plain [OF assms(1,2)] trim_right_idle [of "join ''/'' segs"]
    by (auto simp: trim_right_def)
  ultimately show ?thesis
    by (simp add: trim_by_def)
qed

lemma route_segments_plain: "names_plain kv \<Longrightarrow> route_ok kv route \<Longrightarrow> plain (route_segments route)"
  unfolding route_segments_def route_ok_def names_plain_def
  by (cases "nr_name route = []") (auto simp: plain_seg_def)

lemma parse_segments:
  assumes "trim_by (\<lambda>c. c = CHR ''/'') p = join ''/'' (route_segments route)" "plain (route_segments route)" "route_ok kv route"
  shows "parseNamespacedPath kv p = Some route"
proof -
  have "split_on CHR ''/'' (join ''/'' (route_segments route)) = route_segments route"
    using split_join_plain [OF assms(2)] by (simp add: route_segments_def)
  then have parsed: "parseNamespacedPath kv p = route_tail kv
      \<lparr>nr_namespace = nr_namespace route, nr_resource = nr_resource route, nr_name = [], nr_stream = False, nr_restorePoints = False\<rparr>
      (drop 5 (route_segments route))"
    using assms(1,3) by (auto simp: parseNamespacedPath_def route_segments_def route_ok_def)
  show ?thesis
  proof (cases "nr_name route = []")
    case True
    then show ?thesis
      using assms(3) parsed by (cases route) (simp add: route_segments_def route_tail_def route_ok_def)
  next
    case False
    then show ?thesis
      using assms(3) parsed by (cases route) (auto simp: route_segments_def route_tail_def route_ok_def)
  qed
qed

lemma parsed_route_ok: "parseNamespacedPath kv p = Some route \<Longrightarrow> route_ok kv route"
  unfolding parseNamespacedPath_def route_tail_def route_ok_def
  by (auto simp: validObjectName_def split: list.splits if_splits)

text \<open>A path of the interface names one thing: when a valid route is written as a path, with or without a slash at its end,
  reading the path gives the route back; and every path that is read gives a valid route.\<close>

theorem route_round_trip:
  assumes "names_plain kv"
  shows "(\<forall>route. route_ok kv route \<longrightarrow> parseNamespacedPath kv (''/'' @ join ''/'' (route_segments route)) = Some route
      \<and> parseNamespacedPath kv (''/'' @ join ''/'' (route_segments route) @ ''/'') = Some route)
    \<and> (\<forall>p route. parseNamespacedPath kv p = Some route \<longrightarrow> route_ok kv route)"
proof -
  have tail: "parseNamespacedPath kv (''/'' @ join ''/'' (route_segments route) @ tail) = Some route"
    if "route_ok kv route" "tail = [] \<or> tail = ''/''" for route tail
  proof -
    have "plain (route_segments route)" "route_segments route \<noteq> []"
      using route_segments_plain [OF assms that(1)] by (simp_all add: route_segments_def)
    then show ?thesis
      using parse_segments [OF _ _ that(1)] trimmed_path [OF _ _ that(2)] by simp
  qed
  show ?thesis
    using tail [where tail = "[]"] tail [where tail = "''/''"] parsed_route_ok [of kv] by auto
qed

text \<open>A validation with the documented property: the empty error list for plain names only.\<close>

definition plain_names :: k8s_validation where
  "plain_names = \<lparr>IsDNS1123Label = (\<lambda>s. if plain_seg s then [] else [''invalid'']), IsDNS1123Subdomain = (\<lambda>s. if plain_seg s then [] else [''invalid''])\<rparr>"

definition nightly_events :: namespaced_route where
  "nightly_events = \<lparr>nr_namespace = ''ops'', nr_resource = ''backups'', nr_name = ''nightly'', nr_stream = True, nr_restorePoints = False\<rparr>"

theorem route_round_trip_witness:
  "parseNamespacedPath plain_names ''/api/v1/namespaces/ops/backups/nightly/events'' = Some nightly_events"
proof -
  have "names_plain plain_names"
    by (auto simp: names_plain_def plain_names_def validNamespace_def validObjectName_def split: if_splits)
  moreover have "route_ok plain_names nightly_events"
    by code_simp
  ultimately have "parseNamespacedPath plain_names (''/'' @ join ''/'' (route_segments nightly_events)) = Some nightly_events"
    using route_round_trip [of plain_names] by blast
  moreover have "''/'' @ join ''/'' (route_segments nightly_events) = ''/api/v1/namespaces/ops/backups/nightly/events''"
    by code_simp
  ultimately show ?thesis
    by simp
qed

section \<open>Requests only read\<close>

fun payload_objects :: "payload \<Rightarrow> cluster_object set" where
  "payload_objects (Machines xs) = MachineObject ` set xs"
| "payload_objects (AMachine x) = {MachineObject x}"
| "payload_objects (Backups xs) = BackupObject ` set xs"
| "payload_objects (ABackup x) = {BackupObject x}"
| "payload_objects (Restores xs) = RestoreObject ` set xs"
| "payload_objects (ARestore x) = {RestoreObject x}"
| "payload_objects (Sources xs) = SourceObject ` set xs"
| "payload_objects (ASource x) = {SourceObject x}"
| "payload_objects _ = {}"

fun reply_objects :: "live_reply \<Rightarrow> cluster_object set" where
  "reply_objects (Reply _ _ body) = payload_objects body"
| "reply_objects _ = {}"

definition only_shows :: "('s \<Rightarrow> cluster) \<Rightarrow> string \<Rightarrow> 's live_world \<Rightarrow> live_reply \<times> 's live_world \<Rightarrow> bool" where
  "only_shows view namespace w r \<longleftrightarrow> view (lw_api (snd r)) = view (lw_api w)
     \<and> (\<forall>x\<in>reply_objects (fst r). view (lw_api w) (address x) = Some x \<and> (namespace \<noteq> [] \<longrightarrow> fst (snd (address x)) = namespace))"

context object_store
begin

lemma get_then:
  assumes "\<And>obj u. view (lw_api u) = view (lw_api w) \<Longrightarrow> view (lw_api w) (ok_name k, key) = Some (ok_store k obj) \<Longrightarrow> object_key k obj = key
      \<Longrightarrow> only_shows view namespace w (f obj u)"
  shows "only_shows view namespace w (cluster_call (api_get api key) f w)"
proof (cases "api_get api key (lw_api w)")
  case (Pair found s)
  show ?thesis
  proof (cases found)
    case (Inl e)
    then show ?thesis
      using get [OF Pair] Pair by (auto simp: cluster_call_def only_shows_def writeClientError_def writeError_def writeJSON_def)
  next
    case (Inr obj)
    have "view s = view (lw_api w)" "view (lw_api w) (ok_name k, key) = Some (ok_store k obj)" "object_key k obj = key"
      using get [OF Pair] Inr fetch_key [of "lw_api w" key obj] by (auto simp: fetch_iff)
    then show ?thesis
      using assms [where obj = obj and u = "w\<lparr>lw_api := s\<rparr>"] Pair Inr by (simp add: cluster_call_def)
  qed
qed

lemma list_then:
  assumes "\<And>objs u. view (lw_api u) = view (lw_api w)
      \<Longrightarrow> (\<And>obj. obj \<in> set objs \<Longrightarrow> view (lw_api w) (ok_name k, object_key k obj) = Some (ok_store k obj) \<and> selected opts (ok_meta k obj))
      \<Longrightarrow> only_shows view namespace w (f objs u)"
  shows "only_shows view namespace w (cluster_call (api_list api opts) f w)"
proof (cases "api_list api opts (lw_api w)")
  case (Pair listed s)
  show ?thesis
  proof (cases listed)
    case (Inl e)
    then show ?thesis
      using list [OF Pair] Pair by (auto simp: cluster_call_def only_shows_def writeClientError_def writeError_def writeJSON_def)
  next
    case (Inr objs)
    have "view s = view (lw_api w)"
      "obj \<in> set objs \<Longrightarrow> view (lw_api w) (ok_name k, object_key k obj) = Some (ok_store k obj) \<and> selected opts (ok_meta k obj)" for obj
      using list [OF Pair] Inr by (auto simp: fetch_iff)
    then show ?thesis
      using assms [where objs = objs and u = "w\<lparr>lw_api := s\<rparr>"] Pair Inr by (simp add: cluster_call_def)
  qed
qed

end

named_theorems shows_only \<open>handlers that only read, and show only a namespace\<close>

definition reading_laws :: "('s \<Rightarrow> cluster) \<Rightarrow> 's live_server \<Rightarrow> bool" where
  "reading_laws view srv \<longleftrightarrow> (\<forall>c. lv_client srv = Some c \<longrightarrow> object_store view machine_kind (kc_machines c)
     \<and> object_store view backup_kind (kc_backups c) \<and> object_store view restore_kind (kc_restores c) \<and> object_store view source_kind (kc_sources c))"

lemma shows_nothing: "view (lw_api w') = view (lw_api w) \<Longrightarrow> reply_objects r = {} \<Longrightarrow> only_shows view namespace w (r, w')"
  by (simp add: only_shows_def)

lemma shows_errors [shows_only]:
  "only_shows view namespace w (writeError s c m, w)" "only_shows view namespace w (writeMethodNotAllowed ms, w)"
  "only_shows view namespace w (MuxStatus n, w)" "only_shows view namespace w (spaFileHandler cwd dir f r, w)"
  "only_shows view namespace w (writeSnapshot kv key w)" "only_shows view namespace w (writeEvents kv r key w)"
  "only_shows view namespace w (writeFilteredEvents kv r w)"
  by (auto intro!: shows_nothing simp: writeError_def writeMethodNotAllowed_def writeJSON_def spaFileHandler_def Let_def
      writeSnapshot_def writeEvents_def writeFilteredEvents_def writeEventStream_def split: sum.split prod.split)

lemma shows_ensure:
  assumes "\<And>c. lv_client srv = Some c \<Longrightarrow> only_shows view namespace w (k c w)"
  shows "only_shows view namespace w (ensureClient srv k w)"
  using assms shows_errors(1) [of view namespace w] by (auto simp: ensureClient_def split: option.split)

lemma shows_answer:
  assumes "view (lw_api u) = view (lw_api w)"
    and "\<And>x. x \<in> payload_objects body \<Longrightarrow> view (lw_api w) (address x) = Some x \<and> (namespace \<noteq> [] \<longrightarrow> fst (snd (address x)) = namespace)"
  shows "only_shows view namespace w (answer_with body u)"
  using assms by (auto simp: only_shows_def answer_with_def writeJSON_def)

lemma listed_namespace: "selected (live_listOptions namespace) m \<Longrightarrow> namespace \<noteq> [] \<Longrightarrow> om_namespace m = namespace"
  by (simp add: selected_def live_listOptions_def InNamespace_def)

lemma addresses [simp]:
  "address (MachineObject m) = (ok_name machine_kind, object_key machine_kind m)" "address (BackupObject b) = (ok_name backup_kind, object_key backup_kind b)"
  "address (RestoreObject x) = (ok_name restore_kind, object_key restore_kind x)" "address (SourceObject s) = (ok_name source_kind, object_key source_kind s)"
  by (simp_all add: address_def)

lemma live_stores [simp]:
  "ok_store machine_kind m = MachineObject m" "ok_store backup_kind b = BackupObject b" "ok_store restore_kind x = RestoreObject x" "ok_store source_kind s = SourceObject s"
  by (simp_all add: kind_defs)

lemma key_namespace [simp]: "fst (object_key k x) = om_namespace (ok_meta k x)"
  by (simp add: object_key_def meta_key_def)

lemma filters_select:
  "set (filterMachines ms ss ns q) \<subseteq> set ms" "set (filterBackupJobs bs ns p q) \<subseteq> set bs"
  "set (filterRestoreJobs rs ss ns p q t) \<subseteq> set rs" "set (filterSources ss p q) \<subseteq> set ss"
  by (auto simp: filterMachines_def filterBackupJobs_def filterRestoreJobs_def filterSources_def)

lemma shows_one [shows_only]:
  assumes "reading_laws view srv"
  shows "only_shows view namespace w (writeMachine srv namespace name w)" "only_shows view namespace w (writeBackupJob srv kv namespace name w)"
    "only_shows view namespace w (writeRestoreJob srv kv namespace name w)" "only_shows view namespace w (writeSource srv namespace name w)"
    "only_shows view namespace w (writeRestorePoints srv r namespace name w)"
proof -
  have laws: "object_store view machine_kind (kc_machines c)" "object_store view backup_kind (kc_backups c)"
    "object_store view restore_kind (kc_restores c)" "object_store view source_kind (kc_sources c)" if "lv_client srv = Some c" for c
    using assms that by (auto simp: reading_laws_def)
  have ns: "om_namespace (ok_meta k x) = namespace" if "object_key k x = (namespace, name)" for k :: "'o object_kind" and x
    using that by (simp add: object_key_def meta_key_def)
  show "only_shows view namespace w (writeMachine srv namespace name w)"
    unfolding writeMachine_def by (rule shows_ensure, rule object_store.get_then [OF laws(1)], assumption) (auto intro!: shows_answer simp: ns)
  show "only_shows view namespace w (writeSource srv namespace name w)"
    unfolding writeSource_def by (rule shows_ensure, rule object_store.get_then [OF laws(4)], assumption) (auto intro!: shows_answer simp: ns)
  show "only_shows view namespace w (writeRestorePoints srv r namespace name w)"
    unfolding writeRestorePoints_def by (rule shows_ensure, rule object_store.get_then [OF laws(1)], assumption) (auto intro!: shows_answer)
  show "only_shows view namespace w (writeBackupJob srv kv namespace name w)"
    unfolding writeBackupJob_def using shows_errors(5) [of view namespace w kv]
    by (auto split: option.split intro!: object_store.get_then [OF laws(2)] shows_answer simp: ns)
  show "only_shows view namespace w (writeRestoreJob srv kv namespace name w)"
    unfolding writeRestoreJob_def using shows_errors(5) [of view namespace w kv]
    by (auto split: option.split intro!: object_store.get_then [OF laws(3)] shows_answer simp: ns)
qed

lemma shows_lists [shows_only]:
  assumes "reading_laws view srv"
  shows "only_shows view namespace w (writeMachines srv r namespace w)" "only_shows view namespace w (writeBackupJobs srv r namespace w)"
    "only_shows view namespace w (writeRestoreJobs srv r namespace w)" "only_shows view namespace w (writeSources srv r namespace w)"
proof -
  have laws: "object_store view machine_kind (kc_machines c)" "object_store view backup_kind (kc_backups c)"
    "object_store view restore_kind (kc_restores c)" "object_store view source_kind (kc_sources c)" if "lv_client srv = Some c" for c
    using assms that by (auto simp: reading_laws_def)
  have later: "only_shows view namespace w x" if "view (lw_api u) = view (lw_api w)" "only_shows view namespace u x" for u x
    using that by (auto simp: only_shows_def)
  have sources: "only_shows view namespace u (cluster_call (api_list (kc_sources c) everything) (\<lambda>sources. answer_with (body sources)) u)"
    if "lv_client srv = Some c" "view (lw_api u) = view (lw_api w)"
      "\<And>sources x. x \<in> payload_objects (body sources) \<Longrightarrow> view (lw_api w) (address x) = Some x \<and> (namespace \<noteq> [] \<longrightarrow> fst (snd (address x)) = namespace)"
    for c u body
    by (rule object_store.list_then [OF laws(4) [OF that(1)]], rule shows_answer) (use that(2,3) in auto)
  show "only_shows view namespace w (writeMachines srv r namespace w)"
    unfolding writeMachines_def
    by (rule shows_ensure, rule object_store.list_then [OF laws(1)], assumption, rule later, assumption, rule sources, assumption, assumption)
      (use filters_select(1) listed_namespace in \<open>fastforce simp: key_namespace\<close>)
  show "only_shows view namespace w (writeRestoreJobs srv r namespace w)"
    unfolding writeRestoreJobs_def
    by (rule shows_ensure, rule object_store.list_then [OF laws(3)], assumption, rule later, assumption, rule sources, assumption, assumption)
      (use filters_select(3) listed_namespace in fastforce)
  show "only_shows view namespace w (writeBackupJobs srv r namespace w)"
    unfolding writeBackupJobs_def
    by (rule shows_ensure, rule object_store.list_then [OF laws(2)], assumption, rule shows_answer, assumption)
      (use filters_select(2) listed_namespace in fastforce)
  show "only_shows view namespace w (writeSources srv r namespace w)"
    unfolding writeSources_def
    by (rule shows_ensure, rule object_store.list_then [OF laws(4)], assumption, rule shows_answer, assumption)
      (use filters_select(4) listed_namespace in fastforce)
qed

definition asked_namespace :: "k8s_validation \<Rightarrow> http_request \<Rightarrow> string" where
  "asked_namespace kv r = (if has_prefix (hr_path r) ''/api/v1/namespaces/''
     then (case parseNamespacedPath kv (hr_path r) of Some route \<Rightarrow> nr_namespace route | None \<Rightarrow> [])
     else query_get r ''namespace'')"

text \<open>C21. Whatever is asked of the interface, and whatever the cluster answers, the objects of the cluster stay as they are.
  A reply shows only objects that the cluster has, as it has them; when the path or the query of the request names a
  namespace, it shows objects of that namespace only.\<close>

theorem requests_only_read:
  assumes "reading_laws view srv" and "live_Handler srv kv cwd f r w = (reply, w')"
  shows "view (lw_api w') = view (lw_api w) \<and> (\<forall>x\<in>reply_objects reply. view (lw_api w) (address x) = Some x
    \<and> (asked_namespace kv r \<noteq> [] \<longrightarrow> fst (snd (address x)) = asked_namespace kv r))"
proof -
  let ?ns = "asked_namespace kv r"
  note facts = shows_only shows_one [OF assms(1)] shows_lists [OF assms(1)]
  have global: "only_shows view ?ns w (handleGlobalList srv r w)" if "\<not> has_prefix (hr_path r) ''/api/v1/namespaces/''"
    using that facts by (auto simp: handleGlobalList_def asked_namespace_def Let_def)
  have namespaced: "only_shows view ?ns w (handleNamespaced srv kv r w)" if "has_prefix (hr_path r) ''/api/v1/namespaces/''"
    using that facts by (auto simp: handleNamespaced_def handle_route_def asked_namespace_def Let_def split: option.split)
  have "only_shows view ?ns w (live_Handler srv kv cwd f r w)"
    using global namespaced facts by (auto simp: live_Handler_def handleGlobalEvents_def Let_def)
  then show ?thesis
    by (simp add: only_shows_def assms(2))
qed

definition two_runs :: memory where
  "two_runs = [BackupObject local_run, BackupObject (local_run\<lparr>j_meta := empty_meta\<lparr>om_namespace := ''dev'', om_name := ''nightly''\<rparr>\<rparr>)]"

definition memory_server :: "memory live_server" where
  "memory_server = \<lparr>lv_client = Some memory_client, lv_frontend = []\<rparr>"

definition memory_page :: "memory live_world" where
  "memory_page = \<lparr>lw_api = two_runs, lw_hub = NewEventHub 128, lw_next = 0\<rparr>"

theorem requests_only_read_witness:
  "\<exists>reply w'. live_Handler memory_server plain_names [] \<lparr>fs_tree = [], fs_data = [], fs_io = None\<rparr>
      (browser_request ''/api/v1/namespaces/ops/backups'') memory_page = (reply, w')
    \<and> reply = Reply 200 [] (Backups [local_run]) \<and> (\<forall>x\<in>reply_objects reply. memory_view two_runs (address x) = Some x \<and> fst (snd (address x)) = ''ops'')
    \<and> memory_view (lw_api w') = memory_view two_runs"
proof -
  let ?call = "live_Handler memory_server plain_names [] \<lparr>fs_tree = [], fs_data = [], fs_io = None\<rparr>
      (browser_request ''/api/v1/namespaces/ops/backups'') memory_page"
  obtain reply w' where out: "?call = (reply, w')"
    by (cases ?call)
  have "reading_laws memory_view memory_server"
    by (auto simp: reading_laws_def memory_server_def memory_client_def intro: memory_store)
  note only = requests_only_read [OF this out]
  have "asked_namespace plain_names (browser_request ''/api/v1/namespaces/ops/backups'') = ''ops''" "lw_api memory_page = two_runs"
    by (code_simp, simp add: memory_page_def)
  moreover have "case fst ?call of Reply status allow (Backups runs) \<Rightarrow> status = 200 \<and> allow = [] \<and> runs = [local_run] | _ \<Rightarrow> False"
    by code_simp
  then have "fst ?call = Reply 200 [] (Backups [local_run])"
    by (simp split: live_reply.splits payload.splits)
  ultimately show ?thesis
    using only out by (intro exI [where x = reply] exI [where x = w']) auto
qed

end
