(* ===== verification/Run_Trust.thy ===== *)
theory Run_Trust
  imports Manager_Setup Control_Server
begin

text \<open>
  What the parts of the trust of a run give together: the manager makes the authority and the
  certificate of the control API (Manager_Setup), the controller mints the certificates of a
  run with that authority (Credentials), and the processes of the run call the control API
  (Control_Client), which verifies them (Certificates, Control_Server). Every call makes a
  connection of its own, so every call needs a handshake. The theorems say at which times a
  handshake succeeds, and as whom the peer then acts.
\<close>

section \<open>A handshake\<close>

text \<open>The part of crypto/tls: each side presents the certificate of its bundle and runs the callback of its configuration.\<close>

definition presented :: "crypto \<Rightarrow> tls_bundle \<Rightarrow> string list" where
  "presented cr bundle = (case PemDecode cr (tb_certPEM bundle) of Some (t, der) \<Rightarrow> [der] | None \<Rightarrow> [])"

definition peer_of :: "crypto \<Rightarrow> tls_bundle \<Rightarrow> x509_cert list option" where
  "peer_of cr bundle = (case map_result (ParseCertificate cr) (presented cr bundle) of Inl _ \<Rightarrow> None | Inr certs \<Rightarrow> Some certs)"

definition accepts :: "tls_config result \<Rightarrow> string list \<Rightarrow> bool" where
  "accepts config rawCerts = (case config of Inl _ \<Rightarrow> False
     | Inr c \<Rightarrow> (case tc_verifyPeer c of None \<Rightarrow> False | Some verify \<Rightarrow> is_ok (verify rawCerts)))"

text \<open>\<open>grpcClient\<close> of a process of the data plane against the server of \<open>manager.Run\<close>.\<close>

definition control_handshake :: "crypto \<Rightarrow> tls_bundle \<Rightarrow> string \<Rightarrow> string \<Rightarrow> tls_bundle \<Rightarrow> bool" where
  "control_handshake cr client controlCAPEM namespace server \<longleftrightarrow>
     accepts (ClientCredentialsWithServerCA cr client controlCAPEM (ControlGRPCServerIdentity namespace)) (presented cr server)
   \<and> accepts (ServerCredentialsWithClientVerifier cr server (Some (NewRunClientCertificateVerifier cr (tb_caCertPEM server)))) (presented cr client)"

section \<open>What the libraries promise\<close>

text \<open>
  Beyond \<open>crypto_laws\<close>, at the time \<open>clock\<close> of the handshakes: there is no PEM block in an empty text; keys
  decode to what was encoded; a pool holds the certificate of its PEM block; a certificate and
  the key that it was made for are a key pair; and what the key of an authority signed, under
  its template or under its parsed certificate, verifies exactly while both are valid.
\<close>

definition tls_laws :: "crypto \<Rightarrow> gotime \<Rightarrow> bool" where
  "tls_laws cr clock \<longleftrightarrow> crypto_laws cr
   \<and> PemDecode cr [] = None
   \<and> (\<forall>key bytes. MarshalKey cr key = Inr bytes \<longrightarrow> ParseKey cr bytes = Inr (Some key))
   \<and> (\<forall>der c. ParseCertificate cr der = Inr c \<longrightarrow> AppendCertsFromPEM cr (PemEncode cr ''CERTIFICATE'' der) = Some [c])
   \<and> (\<forall>t p key s n der n' bytes. CreateCertificate cr t p key s n = (Inr der, n') \<longrightarrow> MarshalKey cr key = Inr bytes \<longrightarrow>
        is_ok (X509KeyPair cr (PemEncode cr ''CERTIFICATE'' der) (PemEncode cr ''PRIVATE KEY'' bytes)))
   \<and> (\<forall>t p q k s n der n' m rootDer m' usage.
        CreateCertificate cr p p s s m = (Inr rootDer, m') \<longrightarrow> xc_isCA p \<longrightarrow> q = p \<or> q = stamped p rootDer \<longrightarrow>
        CreateCertificate cr t q k s n = (Inr der, n') \<longrightarrow> usage \<in> set (xc_extKeyUsage t) \<longrightarrow>
        (is_ok (VerifyCertificate cr (stamped t der) \<lparr>vo_roots = [stamped p rootDer], vo_intermediates = [], vo_dnsName = [],
            vo_time = None, vo_usage = usage\<rparr>)
         \<longleftrightarrow> valid_at (stamped t der) clock \<and> valid_at (stamped p rootDer) clock))"

lemma tls_lawsD:
  assumes "tls_laws cr clock"
  shows "crypto_laws cr" "PemDecode cr [] = None" "MarshalKey cr key = Inr bytes \<Longrightarrow> ParseKey cr bytes = Inr (Some key)"
    "ParseCertificate cr der = Inr c \<Longrightarrow> AppendCertsFromPEM cr (PemEncode cr ''CERTIFICATE'' der) = Some [c]"
  using assms unfolding tls_laws_def by (elim conjE, simp; fail)+

lemma tls_key_pair:
  assumes "tls_laws cr clock" "CreateCertificate cr t p key s n = (Inr der, n')" "MarshalKey cr key = Inr bytes"
  shows "is_ok (X509KeyPair cr (PemEncode cr ''CERTIFICATE'' der) (PemEncode cr ''PRIVATE KEY'' bytes))"
proof -
  have law: "\<forall>t p key s n der n' bytes. CreateCertificate cr t p key s n = (Inr der, n') \<longrightarrow> MarshalKey cr key = Inr bytes \<longrightarrow>
        is_ok (X509KeyPair cr (PemEncode cr ''CERTIFICATE'' der) (PemEncode cr ''PRIVATE KEY'' bytes))"
    using assms(1) unfolding tls_laws_def by (elim conjE)
  show ?thesis
    by (rule law [rule_format, OF assms(2,3)])
qed

lemma tls_signed:
  assumes "tls_laws cr clock" "CreateCertificate cr p p s s m = (Inr rootDer, m')" "xc_isCA p" "q = p \<or> q = stamped p rootDer"
    "CreateCertificate cr t q key s n = (Inr der, n')" "usage \<in> set (xc_extKeyUsage t)"
  shows "is_ok (VerifyCertificate cr (stamped t der) \<lparr>vo_roots = [stamped p rootDer], vo_intermediates = [], vo_dnsName = [],
          vo_time = None, vo_usage = usage\<rparr>)
      \<longleftrightarrow> valid_at (stamped t der) clock \<and> valid_at (stamped p rootDer) clock"
proof -
  have law: "\<forall>t p q k s n der n' m rootDer m' usage.
        CreateCertificate cr p p s s m = (Inr rootDer, m') \<longrightarrow> xc_isCA p \<longrightarrow> q = p \<or> q = stamped p rootDer \<longrightarrow>
        CreateCertificate cr t q k s n = (Inr der, n') \<longrightarrow> usage \<in> set (xc_extKeyUsage t) \<longrightarrow>
        (is_ok (VerifyCertificate cr (stamped t der) \<lparr>vo_roots = [stamped p rootDer], vo_intermediates = [], vo_dnsName = [],
            vo_time = None, vo_usage = usage\<rparr>)
         \<longleftrightarrow> valid_at (stamped t der) clock \<and> valid_at (stamped p rootDer) clock)"
    using assms(1) unfolding tls_laws_def by (elim conjE)
  show ?thesis
    by (rule law [rule_format, OF assms(2-6)])
qed

section \<open>A certificate and its authority\<close>

lemma Mint_whole:
  assumes "Mint cr now (Some ca) i ttl n = (Inr b, n')"
  obtains t key der bytes m m' where "xc_notBefore t = now - minute_ns" "xc_notAfter t = min (now + ttl) (xc_notAfter (ca_cert ca))"
    "xc_uris t = [identity_URI i]" "set (xc_extKeyUsage t) = {ClientAuth, ServerAuth}"
    "CreateCertificate cr t (ca_cert ca) key (ca_key ca) m = (Inr der, m')" "MarshalKey cr key = Inr bytes"
    "b = \<lparr>tb_caCertPEM = ca_certPEM ca, tb_caKeyPEM = [], tb_certPEM = PemEncode cr ''CERTIFICATE'' der, tb_keyPEM = PemEncode cr ''PRIVATE KEY'' bytes\<rparr>"
proof -
  have pos: "\<not> ttl \<le> 0" and url: "url_parse (identity_URI i) \<noteq> None"
    using assms by (auto simp: Mint_def split: if_splits)
  from assms pos url obtain key n1 where
    rest: "(case x509_serial cr now n1 of (serial, n) \<Rightarrow>
         let cert = \<lparr>xc_serial = serial, xc_commonName = role_text (id_role i),
               xc_notBefore = now - minute_ns,
               xc_notAfter = (if now + ttl > xc_notAfter (ca_cert ca) then xc_notAfter (ca_cert ca) else now + ttl),
               xc_keyUsage = [''DigitalSignature''],
               xc_extKeyUsage = [ClientAuth, ServerAuth], xc_isCA = False, xc_uris = [identity_URI i], xc_raw = []\<rparr>
         in then_do (CreateCertificate cr cert (ca_cert ca) key (ca_key ca) n) (\<lambda>der n.
           (case MarshalKey cr key of
              Inl e \<Rightarrow> (Inl e, n)
            | Inr keyBytes \<Rightarrow> (Inr \<lparr>tb_caCertPEM = ca_certPEM ca, tb_caKeyPEM = [],
                tb_certPEM = PemEncode cr ''CERTIFICATE'' der, tb_keyPEM = PemEncode cr ''PRIVATE KEY'' keyBytes\<rparr>, n)))) = (Inr b, n')"
    by (auto simp: Mint_def Let_def elim!: then_do_Inr_obtain)
  obtain serial n2 where ser: "x509_serial cr now n1 = (serial, n2)"
    by (cases "x509_serial cr now n1")
  show thesis
    using rest unfolding ser Let_def prod.case
    by (elim then_do_Inr_obtain) (auto intro!: that simp: min_def split: sum.splits)
qed

text \<open>A bundle that the authority with the certificate \<open>root\<close> issued for an identity, and that verifies when it is \<open>live\<close>.\<close>

definition issued :: "crypto \<Rightarrow> x509_cert \<Rightarrow> string \<Rightarrow> identity \<Rightarrow> bool \<Rightarrow> tls_bundle \<Rightarrow> bool" where
  "issued cr root rootPEM i live b \<longleftrightarrow> AppendCertsFromPEM cr rootPEM = Some [root] \<and> is_ok (X509KeyPair cr (tb_certPEM b) (tb_keyPEM b))
     \<and> (\<exists>cert der. PemDecode cr (tb_certPEM b) = Some (''CERTIFICATE'', der) \<and> ParseCertificate cr der = Inr cert \<and> xc_uris cert = [identity_URI i]
       \<and> (\<forall>usage\<in>{ClientAuth, ServerAuth}. is_ok (VerifyCertificate cr cert \<lparr>vo_roots = [root], vo_intermediates = [], vo_dnsName = [],
            vo_time = None, vo_usage = usage\<rparr>) \<longleftrightarrow> live))"

lemma issued_by_authority:
  assumes "tls_laws cr clock" "CreateCertificate cr p p s s m = (Inr rootDer, m')" "xc_isCA p"
    and "ca_cert ca = p \<or> ca_cert ca = stamped p rootDer" "ca_key ca = s" "Mint cr now (Some ca) i ttl n = (Inr b, n')"
  shows "issued cr (stamped p rootDer) (PemEncode cr ''CERTIFICATE'' rootDer) i
    (trunc_second (now - minute_ns) \<le> clock \<and> clock \<le> trunc_second (min (now + ttl) (xc_notAfter (ca_cert ca))) \<and> valid_at (stamped p rootDer) clock) b"
proof -
  note laws = tls_lawsD [OF assms(1)]
  note simple = crypto_lawsD [OF laws(1)]
  obtain t key der bytes k k' where leaf: "xc_notBefore t = now - minute_ns" "xc_notAfter t = min (now + ttl) (xc_notAfter (ca_cert ca))"
    "xc_uris t = [identity_URI i]" "set (xc_extKeyUsage t) = {ClientAuth, ServerAuth}"
    "CreateCertificate cr t (ca_cert ca) key (ca_key ca) k = (Inr der, k')" "MarshalKey cr key = Inr bytes"
    "b = \<lparr>tb_caCertPEM = ca_certPEM ca, tb_caKeyPEM = [], tb_certPEM = PemEncode cr ''CERTIFICATE'' der, tb_keyPEM = PemEncode cr ''PRIVATE KEY'' bytes\<rparr>"
    using assms(6) by (rule Mint_whole)
  have parsed: "ParseCertificate cr der = Inr (stamped t der)" "ParseCertificate cr rootDer = Inr (stamped p rootDer)"
    using simple(2) leaf(5) assms(2) by blast+
  have "is_ok (VerifyCertificate cr (stamped t der) \<lparr>vo_roots = [stamped p rootDer], vo_intermediates = [], vo_dnsName = [],
      vo_time = None, vo_usage = usage\<rparr>) \<longleftrightarrow> valid_at (stamped t der) clock \<and> valid_at (stamped p rootDer) clock"
    if "usage \<in> {ClientAuth, ServerAuth}" for usage
    using that leaf(4) by (intro tls_signed [OF assms(1-4) leaf(5) [unfolded assms(5)]]) simp
  moreover have "valid_at (stamped t der) clock \<longleftrightarrow>
      trunc_second (now - minute_ns) \<le> clock \<and> clock \<le> trunc_second (min (now + ttl) (xc_notAfter (ca_cert ca)))"
    by (simp add: valid_at_def stamped_def leaf(1,2))
  moreover have "is_ok (X509KeyPair cr (tb_certPEM b) (tb_keyPEM b))"
    using tls_key_pair [OF assms(1) leaf(5,6)] by (simp add: leaf(7))
  moreover have "xc_uris (stamped t der) = [identity_URI i]"
    by (simp add: stamped_def leaf(3))
  moreover have "PemDecode cr (tb_certPEM b) = Some (''CERTIFICATE'', der)"
    by (simp add: leaf(7) simple(1))
  ultimately show ?thesis
    unfolding issued_def using laws(4) [OF parsed(2)] parsed(1) by (intro conjI exI [where x = "stamped t der"] exI [where x = der]) auto
qed

lemma issued_when: "issued cr root pem i live b \<Longrightarrow> root = root' \<Longrightarrow> pem = pem' \<Longrightarrow> live = live' \<Longrightarrow> issued cr root' pem' i live' b"
  by simp

lemma issued_ca_key: "issued cr root pem i live (b\<lparr>tb_caKeyPEM := k\<rparr>) = issued cr root pem i live b"
  by (simp add: issued_def)

section \<open>Both sides of a connection\<close>

lemma issued_peer:
  assumes "issued cr root rootPEM i live b" "uri_identity i"
  shows "verifyPeer cr (presented cr b) [root] i ServerAuth = Inr () \<longleftrightarrow> live"
    and "NewRunClientCertificateVerifier cr rootPEM (presented cr b) = Inr () \<longleftrightarrow> live"
    and "requirePeerIdentity (peer_of cr b) j = None \<longleftrightarrow> j = i"
proof -
  obtain cert der where c: "PemDecode cr (tb_certPEM b) = Some (''CERTIFICATE'', der)" "ParseCertificate cr der = Inr cert" "xc_uris cert = [identity_URI i]"
    "\<And>usage. usage \<in> {ClientAuth, ServerAuth} \<Longrightarrow> is_ok (VerifyCertificate cr cert \<lparr>vo_roots = [root], vo_intermediates = [], vo_dnsName = [],
            vo_time = None, vo_usage = usage\<rparr>) \<longleftrightarrow> live" "AppendCertsFromPEM cr rootPEM = Some [root]"
    using assms(1) unfolding issued_def by blast
  have ident: "ParseIdentity (identity_URI i) = Inr i"
    using assms(2) parse_identity_URI by blast
  have shown: "presented cr b = [der]" "parse_peer cr [der] = Inr (cert, [])"
    using c(1,2) by (simp_all add: presented_def parse_peer_def)
  have verify: "verifyPeer cr [der] [root] i usage = Inr () \<longleftrightarrow> live" if "usage \<in> {ClientAuth, ServerAuth}" for usage
    using c(4) [OF that] by (auto simp: verifyPeer_def shown c(3) ident is_ok_def split: sum.splits)
  show "verifyPeer cr (presented cr b) [root] i ServerAuth = Inr () \<longleftrightarrow> live"
    using verify [of ServerAuth] by (simp add: shown)
  show "NewRunClientCertificateVerifier cr rootPEM (presented cr b) = Inr () \<longleftrightarrow> live"
    using verify [of ClientAuth] c(2,3,5)
    by (simp add: shown NewRunClientCertificateVerifier_def identityFromRawCertificate_def ident VerifyClientCertificateWithCA_def)
  show "requirePeerIdentity (peer_of cr b) j = None \<longleftrightarrow> j = i"
    using c(2,3) by (auto simp: peer_of_def shown requirePeerIdentity_def PeerIdentity_def ident)
qed

lemma issued_handshake:
  assumes "issued cr root (tb_caCertPEM server) i live b" "issued cr root (tb_caCertPEM server) (ControlGRPCServerIdentity namespace) server_live server"
    and "uri_identity i" "uri_identity (ControlGRPCServerIdentity namespace)"
  shows "control_handshake cr b (tb_caCertPEM server) namespace server \<longleftrightarrow> live \<and> server_live"
proof -
  have keys: "is_ok (X509KeyPair cr (tb_certPEM b) (tb_keyPEM b))" "is_ok (X509KeyPair cr (tb_certPEM server) (tb_keyPEM server))"
    and pool: "AppendCertsFromPEM cr (tb_caCertPEM server) = Some [root]"
    using assms(1,2) by (simp_all add: issued_def)
  have ok: "is_ok r \<longleftrightarrow> r = Inr ()" for r :: "unit result"
    by (cases r) (simp_all add: is_ok_def)
  obtain ck sk where "X509KeyPair cr (tb_certPEM b) (tb_keyPEM b) = Inr ck" "X509KeyPair cr (tb_certPEM server) (tb_keyPEM server) = Inr sk"
    using keys by (auto simp: is_ok_def split: sum.splits)
  then show ?thesis
    using issued_peer(1) [OF assms(2,4)] issued_peer(2) [OF assms(1,3)] pool
    by (auto simp: control_handshake_def accepts_def ClientCredentialsWithServerCA_def ServerCredentialsWithClientVerifier_def ok)
qed

section \<open>The control API and the processes of a run\<close>

text \<open>The authority that the manager signs with is the one in its bundle.\<close>

lemma loaded_signer:
  assumes "tls_laws cr clock" "NewCA cr t0 cn ttl0 n0 = (Inr root, n1)" "CAFromPEM cr (ca_certPEM root) (tb_caKeyPEM (CA_Bundle cr (Some root))) = Inr ca"
  obtains rootDer m m' where "CreateCertificate cr (ca_cert root) (ca_cert root) (ca_key root) (ca_key root) m = (Inr rootDer, m')"
    "xc_isCA (ca_cert root)" "xc_notBefore (ca_cert root) = t0 - minute_ns" "xc_notAfter (ca_cert root) = t0 + ttl0"
    "ca_certPEM root = PemEncode cr ''CERTIFICATE'' rootDer" "ca_cert ca = stamped (ca_cert root) rootDer" "ca_key ca = ca_key root"
proof -
  obtain rootDer m m' where root: "xc_isCA (ca_cert root)" "xc_notBefore (ca_cert root) = t0 - minute_ns"
    "xc_notAfter (ca_cert root) = t0 + ttl0" "ca_certPEM root = PemEncode cr ''CERTIFICATE'' rootDer"
    "CreateCertificate cr (ca_cert root) (ca_cert root) (ca_key root) (ca_key root) m = (Inr rootDer, m')"
    using assms(2) by (rule NewCA_parts)
  note laws = tls_lawsD [OF assms(1)]
  have parsed: "parseCertificate cr (ca_certPEM root) = Inr (stamped (ca_cert root) rootDer)"
    using crypto_lawsD(1,2) [OF laws(1)] root(4,5) by (simp add: parseCertificate_def)
  obtain bytes where bytes: "MarshalKey cr (ca_key root) = Inr bytes"
    using assms(3) laws(2) by (cases "MarshalKey cr (ca_key root)") (auto simp: CAFromPEM_def parsed CA_Bundle_def)
  then have "ca_cert ca = stamped (ca_cert root) rootDer" "ca_key ca = ca_key root"
    using assms(3) laws(3) [OF bytes] crypto_lawsD(1) [OF laws(1)] by (auto simp: CAFromPEM_def parsed CA_Bundle_def split: if_splits)
  then show thesis
    using that root by blast
qed

lemma source_credentials_data:
  "source_credentials cr now ca run ttl pem sources n = (Inr cs, n') \<Longrightarrow> c \<in> set cs \<Longrightarrow> crs_extraData c = credentialExtraData pem"
proof (induction sources arbitrary: n cs)
  case (Cons s sources)
  then show ?case
    by (auto simp: Let_def elim!: then_do_Inr_elim)
qed simp

lemma backup_credentials_data:
  assumes "buildBackupJobCredentialSecrets cr now run target sources ttl (Some ca) pem n = (Inr cs, n')" "c \<in> set cs"
  shows "crs_extraData c = credentialExtraData pem"
proof -
  from assms(1) obtain b m rest m' where "source_credentials cr now ca run (if ttl = 0 then DefaultRunCertificateTTL else ttl) pem sources m = (Inr rest, m')"
    "tl cs = rest" "cs \<noteq> []" "crs_extraData (hd cs) = credentialExtraData pem"
    unfolding buildBackupJobCredentialSecrets_def run_authority_def Let_def
    by (simp only: option.case then_do_simps) (auto elim!: then_do_Inr_elim)
  then show ?thesis
    using assms(2) source_credentials_data by (cases cs) auto
qed

lemma minted_credentials:
  assumes "buildBackupJobCredentialSecrets cr now run target sources ttl (Some ca) pem n = (Inr cs, n')" "c \<in> set cs"
  shows "minted_by cr now ca (if ttl = 0 then DefaultRunCertificateTTL else ttl) c"
  using assms(1)
proof (rule backup_credentials_spec)
  let ?minted = "minted_by cr now ca (if ttl = 0 then DefaultRunCertificateTTL else ttl)"
  fix d rest
  assume "cs = d # rest" "?minted d" "list_all2 (\<lambda>source c. crs_namespace c = om_namespace (s_meta source)
       \<and> crs_name c = GeneratedTLSSecretName (RunID run) RoleSourceSender (om_namespace (s_meta source)) (om_name (s_meta source))
       \<and> crs_identity c = SourceIdentity (om_namespace (j_meta run)) (om_name (j_meta run)) (om_namespace (s_meta source)) (om_name (s_meta source))
       \<and> ?minted c) sources rest"
  then show "?minted c"
    using assms(2) by (auto simp: list_all2_conv_all_nth in_set_conv_nth)
qed

lemma credential_control_ca:
  assumes "crs_extraData c = credentialExtraData [pem]" "pem \<noteq> []"
  shows "lookup_text (sec_data (credential_Secret c)) ControlCAFile = pem"
  using assms by (simp add: credential_Secret_def Let_def credentialExtraData_def lookup_text_def)

definition between :: "gotime \<Rightarrow> gotime \<Rightarrow> gotime \<Rightarrow> bool" where
  "between from_time until_time t \<longleftrightarrow> trunc_second from_time \<le> t \<and> t \<le> trunc_second until_time"

lemma trunc_second_twice [simp]: "trunc_second (trunc_second t) = trunc_second t"
  by (simp add: trunc_second_def ns_per_sec_def)

lemma trunc_second_min: "trunc_second (min a b) = min (trunc_second a) (trunc_second b)"
  by (simp add: min_def trunc_second_mono antisym)

lemma workload_handshake:
  assumes "tls_laws cr clock" and "mintControlGRPCServerBundle cr t0 namespace ttl0 n0 = (Inr server, n1)"
    and "CAFromPEM cr (tb_caCertPEM server) (tb_caKeyPEM server) = Inr ca" and "tb_caCertPEM server \<noteq> []"
    and "BuildBackupJobCredentialSecretsWithSigner cr now run target sources ttl (Some ca) [tb_caCertPEM server] n2 = (Inr cs, n3)"
    and "c \<in> set cs" and "uri_identity (crs_identity c)" and "uri_identity (ControlGRPCServerIdentity namespace)"
  shows "(control_handshake cr (crs_bundle c) (lookup_text (sec_data (credential_Secret c)) ControlCAFile) namespace server \<longleftrightarrow>
      between (now - minute_ns) (now + (if ttl = 0 then DefaultRunCertificateTTL else ttl)) clock \<and> between (t0 - minute_ns) (t0 + ttl0) clock)
    \<and> (\<forall>i. requirePeerIdentity (peer_of cr (crs_bundle c)) i = None \<longleftrightarrow> i = crs_identity c)"
proof -
  let ?ttl = "if ttl = 0 then DefaultRunCertificateTTL else ttl"
  from assms(2) obtain root m b' where mint: "NewCA cr t0 ''krm-control-ca'' ttl0 n0 = (Inr root, m)"
    "Mint cr t0 (Some root) (ControlGRPCServerIdentity namespace) ttl0 m = (Inr b', n1)" "server = b'\<lparr>tb_caKeyPEM := tb_caKeyPEM (CA_Bundle cr (Some root))\<rparr>"
    by (auto simp: mintControlGRPCServerBundle_def elim!: then_do_Inr_obtain)
  have pem: "tb_caCertPEM server = ca_certPEM root" "tb_caKeyPEM server = tb_caKeyPEM (CA_Bundle cr (Some root))"
    using mint(2) by (rule Mint_whole, simp add: mint(3))+
  obtain rootDer k k' where r: "CreateCertificate cr (ca_cert root) (ca_cert root) (ca_key root) (ca_key root) k = (Inr rootDer, k')"
    "xc_isCA (ca_cert root)" "xc_notBefore (ca_cert root) = t0 - minute_ns" "xc_notAfter (ca_cert root) = t0 + ttl0"
    "ca_certPEM root = PemEncode cr ''CERTIFICATE'' rootDer" "ca_cert ca = stamped (ca_cert root) rootDer" "ca_key ca = ca_key root"
    using loaded_signer [OF assms(1) mint(1) assms(3) [unfolded pem]] by blast
  let ?p = "stamped (ca_cert root) rootDer"
  have life: "valid_at ?p clock \<longleftrightarrow> between (t0 - minute_ns) (t0 + ttl0) clock" "xc_notAfter (ca_cert ca) = trunc_second (t0 + ttl0)"
    by (simp_all add: valid_at_def between_def stamped_def r(3,4,6))
  from issued_by_authority [OF assms(1) r(1,2) disjI1 [OF refl] refl mint(2)]
  have "issued cr ?p (tb_caCertPEM server) (ControlGRPCServerIdentity namespace) (between (t0 - minute_ns) (t0 + ttl0) clock) b'"
    by (rule issued_when) (auto simp: r(4,5) pem life between_def trunc_second_min)
  then have operator: "issued cr ?p (tb_caCertPEM server) (ControlGRPCServerIdentity namespace) (between (t0 - minute_ns) (t0 + ttl0) clock) server"
    by (subst mint(3)) (simp only: issued_ca_key)
  obtain j j' where "Mint cr now (Some ca) (crs_identity c) ?ttl j = (Inr (crs_bundle c), j')"
    using minted_credentials [OF assms(5) [unfolded BuildBackupJobCredentialSecretsWithSigner_def] assms(6)] unfolding minted_by_def by blast
  from issued_by_authority [OF assms(1) r(1,2) disjI2 [OF r(6)] r(7) this]
  have workload: "issued cr ?p (tb_caCertPEM server) (crs_identity c)
      (between (now - minute_ns) (now + ?ttl) clock \<and> between (t0 - minute_ns) (t0 + ttl0) clock) (crs_bundle c)"
    by (rule issued_when) (auto simp: r(5) pem life between_def trunc_second_min)
  have ca_file: "lookup_text (sec_data (credential_Secret c)) ControlCAFile = tb_caCertPEM server"
    using credential_control_ca [OF backup_credentials_data assms(4)] assms(5,6) by (simp add: BuildBackupJobCredentialSecretsWithSigner_def)
  show ?thesis
    using issued_handshake [OF workload operator assms(7,8)] issued_peer(3) [OF workload assms(7)] by (auto simp: ca_file)
qed

text \<open>C20. Of the workloads of a backup, each one can call the control API exactly while both its certificate and the authority
  of the operator are valid: from a minute before it was minted until its lifetime has passed, and not outside the
  lifetime of the authority. It finds the authority to verify the operator with in its own secret, and the server lets
  it act as itself and as nobody else.\<close>

theorem workloads_reach_the_operator:
  assumes "tls_laws cr clock" and "mintControlGRPCServerBundle cr t0 namespace ttl0 n0 = (Inr server, n1)"
    and "CAFromPEM cr (tb_caCertPEM server) (tb_caKeyPEM server) = Inr ca" and "tb_caCertPEM server \<noteq> []"
    and "BuildBackupJobCredentialSecretsWithSigner cr now run target sources ttl (Some ca) [tb_caCertPEM server] n2 = (Inr cs, n3)"
    and "c \<in> set cs" and "uri_identity (crs_identity c)" and "uri_identity (ControlGRPCServerIdentity namespace)"
  shows "(control_handshake cr (crs_bundle c) (lookup_text (sec_data (credential_Secret c)) ControlCAFile) namespace server \<longleftrightarrow>
      between (now - minute_ns) (now + (if ttl = 0 then DefaultRunCertificateTTL else ttl)) clock \<and> between (t0 - minute_ns) (t0 + ttl0) clock)
    \<and> (\<forall>i. requirePeerIdentity (peer_of cr (crs_bundle c)) i = None \<longleftrightarrow> i = crs_identity c)"
  using assms by (rule workload_handshake)

text \<open>C40. The certificates of a run live for two hours, and its jobs for three: a process that still runs when two hours have
  passed since its certificate was minted can make no further call to the control API, so neither the end of a long
  transfer nor the completed snapshot of the target is ever reported.\<close>

theorem certificates_expire_before_the_deadline:
  assumes "tls_laws cr clock" and "mintControlGRPCServerBundle cr t0 namespace ttl0 n0 = (Inr server, n1)"
    and "CAFromPEM cr (tb_caCertPEM server) (tb_caKeyPEM server) = Inr ca" and "tb_caCertPEM server \<noteq> []"
    and "BuildBackupJobCredentialSecretsWithSigner cr now run target sources DefaultRunCertificateTTL (Some ca) [tb_caCertPEM server] n2 = (Inr cs, n3)"
    and "c \<in> set cs" and "uri_identity (crs_identity c)" and "uri_identity (ControlGRPCServerIdentity namespace)"
    and "BuildServeTargetJobWithControl pq run target runSet img ts co = Inr job"
    and "now + 120 * minute_ns < clock" and "clock < now + kj_activeDeadlineSeconds job * ns_per_sec"
  shows "kj_activeDeadlineSeconds job = 180 * 60
    \<and> \<not> control_handshake cr (crs_bundle c) (lookup_text (sec_data (credential_Secret c)) ControlCAFile) namespace server"
proof
  show "kj_activeDeadlineSeconds job = 180 * 60"
    using assms(9) by (auto simp: BuildServeTargetJobWithControl_def Let_def new_job_def split: sum.splits if_splits)
  have "trunc_second (now + 120 * minute_ns) < clock"
    using assms(10) by (simp add: trunc_second_def ns_per_sec_def)
  then show "\<not> control_handshake cr (crs_bundle c) (lookup_text (sec_data (credential_Secret c)) ControlCAFile) namespace server"
    using workload_handshake [OF assms(1-8)] by (simp add: between_def)
qed

section \<open>A library with these promises\<close>

definition tr_root :: x509_cert where
  "tr_root = \<lparr>xc_serial = 7, xc_commonName = ''krm-control-ca'', xc_notBefore = 0, xc_notAfter = 1441 * minute_ns,
     xc_keyUsage = [''CertSign'', ''CRLSign'', ''DigitalSignature''], xc_extKeyUsage = [], xc_isCA = True, xc_uris = [], xc_raw = []\<rparr>"

definition tr_leaf :: "string \<Rightarrow> gotime \<Rightarrow> string \<Rightarrow> x509_cert" where
  "tr_leaf name until_time uri = \<lparr>xc_serial = 7, xc_commonName = name, xc_notBefore = 0, xc_notAfter = until_time,
     xc_keyUsage = [''DigitalSignature''], xc_extKeyUsage = [ClientAuth, ServerAuth], xc_isCA = False, xc_uris = [uri], xc_raw = []\<rparr>"

text \<open>The first character of an encoded certificate tells what it is; the URI follows.\<close>

definition tr_template :: "string \<Rightarrow> x509_cert option" where
  "tr_template der = (case der of [] \<Rightarrow> None | c # uri \<Rightarrow>
     if c = CHR ''R'' \<and> uri = [] then Some tr_root else if c = CHR ''O'' then Some (tr_leaf ''target'' (1441 * minute_ns) uri)
     else if c = CHR ''T'' then Some (tr_leaf ''target'' (121 * minute_ns) uri)
     else if c = CHR ''S'' then Some (tr_leaf ''source'' (121 * minute_ns) uri) else None)"

definition tr_create :: "x509_cert \<Rightarrow> x509_cert \<Rightarrow> string \<Rightarrow> string \<Rightarrow> (nat, string) call" where
  "tr_create t p k s n =
    (if t = tr_root \<and> p = tr_root then (Inr ''R'', n)
     else if p \<noteq> tr_root \<and> p \<noteq> stamped tr_root ''R'' then (Inl (errorf ''unknown authority'' []), n)
     else case find (\<lambda>der. tr_template der = Some t) (map (\<lambda>c. c # concat (xc_uris t)) ''OTS'') of
         Some der \<Rightarrow> (Inr der, n) | None \<Rightarrow> (Inl (errorf ''unknown template'' []), n))"

definition tr_crypto :: "gotime \<Rightarrow> crypto" where
  "tr_crypto clock = (let parse = (\<lambda>der. case tr_template der of Some t \<Rightarrow> Inr (stamped t der) | None \<Rightarrow> Inl (errorf ''malformed certificate'' []));
       decode = (\<lambda>s. if s = [] then None else demo_pem s) in
     \<lparr>GenerateKey = (\<lambda>n. (Inr ''key'', n)), RandInt = (\<lambda>n. (Inr 7, n)), CreateCertificate = tr_create,
     MarshalKey = Inr, ParseKey = (\<lambda>k. Inr (Some k)), ParseCertificate = parse,
     VerifyCertificate = (\<lambda>c vo. let t = (case vo_time vo of Some t \<Rightarrow> t | None \<Rightarrow> clock) in
       if valid_at c t \<and> list_all (\<lambda>r. valid_at r t) (vo_roots vo) then Inr () else Inl (errorf ''expired'' [])),
     PemEncode = (\<lambda>t d. replicate (length t) CHR 0x01 @ CHR 0x00 # t @ d), PemDecode = decode, X509KeyPair = (\<lambda>c k. Inr c),
     AppendCertsFromPEM = (\<lambda>p. case decode p of None \<Rightarrow> None
        | Some (t, der) \<Rightarrow> (case parse der of Inr c \<Rightarrow> Some [c] | Inl _ \<Rightarrow> None))\<rparr>)"

lemma tr_distinct [simp]: "tr_leaf name u uri \<noteq> tr_root" "tr_leaf name u uri \<noteq> stamped tr_root der"
  by (simp_all add: tr_leaf_def tr_root_def stamped_def)

lemma tr_create_cases:
  assumes "tr_create t p k s n = (Inr der, n')"
  shows "tr_template der = Some t \<and> (t = tr_root \<and> p = tr_root \<and> der = ''R'' \<or> (\<exists>name u uri. t = tr_leaf name u uri))"
proof (cases "t = tr_root \<and> p = tr_root")
  case True
  then show ?thesis
    using assms by (auto simp: tr_create_def tr_template_def)
next
  case False
  then have "find (\<lambda>der. tr_template der = Some t) (map (\<lambda>c. c # concat (xc_uris t)) ''OTS'') = Some der"
    using assms by (auto simp: tr_create_def split: if_splits option.splits)
  then have "tr_template der = Some t" "hd der \<in> set ''OTS''" "der \<noteq> []"
    by (auto split: if_split_asm)
  then show ?thesis
    by (cases der) ((auto simp: tr_template_def split: if_split_asm; blast) | simp)+
qed

lemma tr_create_root: "tr_create p p k s n = (Inr der, n') \<Longrightarrow> xc_isCA p \<Longrightarrow> p = tr_root \<and> der = ''R''"
  using tr_create_cases [of p p k s n der n'] by (auto simp: tr_leaf_def)

lemma tr_laws: "tls_laws (tr_crypto clock) clock"
proof -
  have pem: "demo_pem (replicate (length t) CHR 0x01 @ CHR 0x00 # t @ d) = Some (t, d)" for t d
    by (rule demo_pem)
  have parse: "ParseCertificate (tr_crypto clock) der = Inr (stamped t der)" if "tr_create t p k s n = (Inr der, n')" for t p k s n der n'
    using tr_create_cases [OF that] by (simp add: tr_crypto_def)
  have verify: "is_ok (VerifyCertificate (tr_crypto clock) c \<lparr>vo_roots = [r], vo_intermediates = [], vo_dnsName = [], vo_time = w, vo_usage = u\<rparr>)
      \<longleftrightarrow> valid_at c (case w of None \<Rightarrow> clock | Some t \<Rightarrow> t) \<and> valid_at r (case w of None \<Rightarrow> clock | Some t \<Rightarrow> t)" for c r w u
    by (auto simp: tr_crypto_def Let_def)
  have create: "CreateCertificate (tr_crypto clock) = tr_create"
    by (simp add: tr_crypto_def)
  have "crypto_laws (tr_crypto clock)"
    unfolding crypto_laws_def create
  proof (intro conjI allI impI)
    show "PemDecode (tr_crypto clock) (PemEncode (tr_crypto clock) t d) = Some (t, d)" for t d
      by (simp add: tr_crypto_def Let_def pem)
  qed (simp_all add: parse verify)
  moreover have "AppendCertsFromPEM (tr_crypto clock) (PemEncode (tr_crypto clock) ''CERTIFICATE'' der) = Some [c]"
    if "ParseCertificate (tr_crypto clock) der = Inr c" for der c
    using that pem [of "''CERTIFICATE''" der] by (auto simp: tr_crypto_def Let_def split: option.splits)
  moreover have "PemDecode (tr_crypto clock) [] = None" "MarshalKey (tr_crypto clock) key = Inr bytes \<Longrightarrow> ParseKey (tr_crypto clock) bytes = Inr (Some key)"
    "is_ok (X509KeyPair (tr_crypto clock) a b)" for key bytes a b
    by (auto simp: tr_crypto_def Let_def)
  ultimately show ?thesis
    unfolding tls_laws_def create by (simp add: verify)
qed

lemma tr_run:
  "case mintControlGRPCServerBundle (tr_crypto clock) minute_ns ''operator'' (1440 * minute_ns) 0 of (Inr server, _) \<Rightarrow>
     (case CAFromPEM (tr_crypto clock) (tb_caCertPEM server) (tb_caKeyPEM server) of Inr ca \<Rightarrow>
       (case BuildBackupJobCredentialSecretsWithSigner (tr_crypto clock) minute_ns demo_backup demo_run_target [demo_run_source]
          DefaultRunCertificateTTL (Some ca) [tb_caCertPEM server] 0 of (Inr cs, _) \<Rightarrow> map crs_identity cs = demo_identities \<and> tb_caCertPEM server \<noteq> [] | _ \<Rightarrow> False)
     | _ \<Rightarrow> False) | _ \<Rightarrow> False"
  by code_simp

lemma tr_names: "uri_identity (ControlGRPCServerIdentity ''operator'')" "i \<in> set demo_identities \<Longrightarrow> uri_identity i"
  by (auto simp: uri_identity_def uri_part_def ControlGRPCServerIdentity_def TargetIdentity_def SourceIdentity_def)

lemma tr_obtain:
  obtains server n1 ca cs n3 c where "mintControlGRPCServerBundle (tr_crypto clock) minute_ns ''operator'' (1440 * minute_ns) 0 = (Inr server, n1)"
    "CAFromPEM (tr_crypto clock) (tb_caCertPEM server) (tb_caKeyPEM server) = Inr ca" "tb_caCertPEM server \<noteq> []"
    "BuildBackupJobCredentialSecretsWithSigner (tr_crypto clock) minute_ns demo_backup demo_run_target [demo_run_source]
       DefaultRunCertificateTTL (Some ca) [tb_caCertPEM server] 0 = (Inr cs, n3)" "c \<in> set cs" "crs_identity c = TargetIdentity ''ops'' ''nightly'' ''ops'' ''vault''"
proof -
  obtain m n1 where mint: "mintControlGRPCServerBundle (tr_crypto clock) minute_ns ''operator'' (1440 * minute_ns) 0 = (m, n1)"
    by (metis prod.exhaust)
  note run = tr_run [of clock, unfolded mint prod.case]
  obtain server where server: "m = Inr server"
    using run by (cases m) simp_all
  note run = run [unfolded server sum.case]
  obtain ca where ca: "CAFromPEM (tr_crypto clock) (tb_caCertPEM server) (tb_caKeyPEM server) = Inr ca"
    using run by (cases "CAFromPEM (tr_crypto clock) (tb_caCertPEM server) (tb_caKeyPEM server)") simp_all
  note run = run [unfolded ca sum.case]
  obtain b n3 where built: "BuildBackupJobCredentialSecretsWithSigner (tr_crypto clock) minute_ns demo_backup demo_run_target [demo_run_source]
       DefaultRunCertificateTTL (Some ca) [tb_caCertPEM server] 0 = (b, n3)"
    by (metis prod.exhaust)
  note run = run [unfolded built prod.case]
  obtain cs where cs: "b = Inr cs"
    using run by (cases b) simp_all
  note run = run [unfolded cs sum.case]
  then obtain c rest where "cs = c # rest"
    by (cases cs) simp_all
  then show thesis
    using that [OF mint [unfolded server] ca _ built [unfolded cs], of c] run by simp
qed

lemma tr_between:
  "between (minute_ns - minute_ns) (minute_ns + (if DefaultRunCertificateTTL = 0 then DefaultRunCertificateTTL else DefaultRunCertificateTTL)) (30 * minute_ns)"
  "between (minute_ns - minute_ns) (minute_ns + 1440 * minute_ns) (30 * minute_ns)"
  by (simp_all add: between_def trunc_second_def ns_per_sec_def)

theorem workloads_reach_the_operator_witness:
  "\<exists>server c. control_handshake (tr_crypto (30 * minute_ns)) (crs_bundle c) (lookup_text (sec_data (credential_Secret c)) ControlCAFile) ''operator'' server
     \<and> requirePeerIdentity (peer_of (tr_crypto (30 * minute_ns)) (crs_bundle c)) (TargetIdentity ''ops'' ''nightly'' ''ops'' ''vault'') = None
     \<and> requirePeerIdentity (peer_of (tr_crypto (30 * minute_ns)) (crs_bundle c)) (TargetIdentity ''ops'' ''weekly'' ''ops'' ''vault'') \<noteq> None"
proof -
  obtain server n1 ca cs n3 c where run: "mintControlGRPCServerBundle (tr_crypto (30 * minute_ns)) minute_ns ''operator'' (1440 * minute_ns) 0 = (Inr server, n1)"
    "CAFromPEM (tr_crypto (30 * minute_ns)) (tb_caCertPEM server) (tb_caKeyPEM server) = Inr ca" "tb_caCertPEM server \<noteq> []"
    "BuildBackupJobCredentialSecretsWithSigner (tr_crypto (30 * minute_ns)) minute_ns demo_backup demo_run_target [demo_run_source]
       DefaultRunCertificateTTL (Some ca) [tb_caCertPEM server] 0 = (Inr cs, n3)" "c \<in> set cs" and i: "crs_identity c = TargetIdentity ''ops'' ''nightly'' ''ops'' ''vault''"
    by (rule tr_obtain)
  have uri: "uri_identity (crs_identity c)"
    by (rule tr_names(2)) (simp add: i)
  note reach = workloads_reach_the_operator [OF tr_laws run uri tr_names(1)]
  have "control_handshake (tr_crypto (30 * minute_ns)) (crs_bundle c) (lookup_text (sec_data (credential_Secret c)) ControlCAFile) ''operator'' server"
    using reach tr_between by blast
  moreover have "TargetIdentity ''ops'' ''weekly'' ''ops'' ''vault'' \<noteq> crs_identity c"
    by (simp add: i TargetIdentity_def)
  ultimately show ?thesis
    using conjunct2 [OF reach] i by metis
qed

theorem certificates_expire_before_the_deadline_witness:
  "\<exists>server c. crs_identity c = TargetIdentity ''ops'' ''nightly'' ''ops'' ''vault''
     \<and> \<not> control_handshake (tr_crypto (122 * minute_ns)) (crs_bundle c) (lookup_text (sec_data (credential_Secret c)) ControlCAFile) ''operator'' server"
proof -
  obtain server n1 ca cs n3 c where run: "mintControlGRPCServerBundle (tr_crypto (122 * minute_ns)) minute_ns ''operator'' (1440 * minute_ns) 0 = (Inr server, n1)"
    "CAFromPEM (tr_crypto (122 * minute_ns)) (tb_caCertPEM server) (tb_caKeyPEM server) = Inr ca" "tb_caCertPEM server \<noteq> []"
    "BuildBackupJobCredentialSecretsWithSigner (tr_crypto (122 * minute_ns)) minute_ns demo_backup demo_run_target [demo_run_source]
       DefaultRunCertificateTTL (Some ca) [tb_caCertPEM server] 0 = (Inr cs, n3)" "c \<in> set cs" and i: "crs_identity c = TargetIdentity ''ops'' ''nightly'' ''ops'' ''vault''"
    by (rule tr_obtain)
  have uri: "uri_identity (crs_identity c)"
    by (rule tr_names(2)) (simp add: i)
  obtain job where job: "BuildServeTargetJobWithControl Inr demo_backup demo_run_target demo_run_set [] [] (DefaultDataPlaneControlOptions []) = Inr job"
    using demo_server_job by blast
  have deadline: "kj_activeDeadlineSeconds job = 180 * 60"
    using job by (auto simp: BuildServeTargetJobWithControl_def Let_def new_job_def split: sum.splits if_splits)
  have "minute_ns + 120 * minute_ns < 122 * minute_ns" "122 * minute_ns < minute_ns + kj_activeDeadlineSeconds job * ns_per_sec"
    by (simp_all add: deadline ns_per_sec_def)
  from certificates_expire_before_the_deadline [OF tr_laws run uri tr_names(1) job this] show ?thesis
    using i by blast
qed

end
