(* ===== verification/Spec2Isabelle.thy ===== *)
theory Spec2Isabelle
  imports Finalize Store_Ops Target_Lock Run_Set Resource_Names Run_Events Control_Service Receiver Run_Isolation
    Event_Applier Command_Flags Rsync Target_Process Source_Process Control_Server Manager_Setup Live_Api Run_Trust
begin

text \<open>
  A verification development for kube-rsync-machine, a Kubernetes operator that
  backs up volumes with rsync into hard-linked snapshots.

  \<^bold>\<open>The program.\<close> The controller (internal/controller) turns BackupJob and
  RestoreJob objects into Kubernetes jobs. The job of a target (internal/cli,
  internal/dataplane) mounts the target volume, receives the sources of a run over
  mutually authenticated TLS below \<open>.partial/<run>\<close>, and on command of the
  controller promotes the run to a snapshot, copies it to the daily, weekly and
  monthly tiers with hard links, and applies retention. The jobs of the sources
  send. All of them report to the control service of the controller
  (internal/control), which numbers the reports, keeps the last ones for replay,
  and hands commands to the targets; the reports change the status of the objects.

  \<^bold>\<open>How a backup runs through the theories.\<close> A machine starts runs by its schedule
  (Machine_Reconciler). A run is admitted when no other run holds the lease of its target
  (Backup_Admission), its objects and secrets are created (Builders, Credentials,
  Owned_Objects), and its jobs are followed to the end (Backup_Progress). Inside the jobs,
  Command_Flags reads the arguments that Builders wrote, Target_Process and Source_Process
  are the commands, Receiver and Seeding the transfers, and Finalize the promotion. Their
  reports pass the identity check of Control_Server, enter Control_Service and Event_Hub, and
  Event_Applier with Run_Events writes them into the status that Backup_Progress looks at;
  Live_Api shows both to the web page. A restore goes the other way (Restore_Reconciler,
  Source_Process).

  \<^bold>\<open>Common ground.\<close>
  \<^item> Prelude: Go errors as values (a sentinel, a text, or a text around another
    error, so that \<open>errors.Is\<close> is a function), results \<open>goerr + 'a\<close>, the functions of
    packages strings and strconv, association lists for Go maps.
  \<^item> Go_Time: instants, the calendar and the layouts of package time. Paths: the
    functions of packages path and filepath, and path normalisation. Sha256, Json:
    the parts of crypto/sha256 and encoding/json that the program uses. Identity
    holds the part of net/url.
  \<^item> File_System: the calls of package os on a tree of directories, files (inode
    numbers, so hard links share contents), symbolic links and special files. A
    budget of mutating steps stands for a device that fails; Fs_Facts has the effect
    of each call at an entry reached without links.

  \<^bold>\<open>Parts of the program.\<close>
  \<^item> Api_Types: api/v1alpha1/types.go, one record or datatype per Go type.
  \<^item> Controller_Helpers, Run_Set: controller/helpers.go. The theorems say which
    sources a run has, that no two of them write to the same or to nested mirror
    destinations, that the order in which Go iterates over maps is irrelevant, and
    when a namespace is permitted.
  \<^item> Builders, Resource_Names: controller/builders.go, the generated objects, and the
    bounds, shape and collisions of their names.
  \<^item> Snapshot_Store: dataplane/snapshot.go, operation by operation. Snapshot_Facts
    holds the lemmas on hard-link copies, promotion and retention; Finalize refines
    FinalizeBackup to five abstract steps on the tree, shows that a repeated command
    succeeds and that nothing outside the root changes; Store_Ops has retention,
    recovery of space, stale partial runs and the calendar; Target_Lock proves mutual
    exclusion of the lock file through the locale \<open>run_lock\<close>.
  \<^item> Transport: dataplane/transport.go. Transfer_Header: the header on the wire;
    Seeding: seedPartialDestination refines an abstract step on the tree; Receiver:
    only an authorized sender has an effect, the receiver returns only when every
    source is complete, and what the controller hands to targets and sources
    (Run_Set, Builders, Identity) makes every source authorized.
  \<^item> Control_Types, Event_Hub, Control_Service: internal/control. The hub is a state
    with the operations under its mutex as functions and the sends outside as steps
    of their own; the service is an inductive step relation, with the invariant that
    a registered target gets the commands of its run in order and each once. The
    locale \<open>keyed_log\<close> states the contract of a log per run, and the hub's replay
    is an interpretation of it.
  \<^item> Run_Events: controller/events.go. The locales \<open>change_reporting\<close> and
    \<open>replay_safe\<close> state the contract of a function that applies an event, and every
    such function is an interpretation. Event_Applier: manager/event_applier.go, which writes
    to the cluster exactly what the events of the hub say, in their order.
  \<^item> Calls, Kube_Api, Cluster: a call returns a result and a state; the API server is a record
    of operations over a state of any type; the locale \<open>object_store\<close> states its promises,
    and a server in memory is its interpretation, for witnesses. Cluster_Frames: which handlers
    leave which objects alone.
  \<^item> Reconcile_Base, Owned_Objects, Backup_Admission, Backup_Progress: the BackupJob part of
    controller/reconcilers.go. The theorems: a run starts only with the lease of its target
    and creates its objects only when its target is ready (Run_Isolation), the finalize command
    is sent only when every source is done, a source that asks for a snapshot is never copied
    live, cleaning up removes exactly the objects of the run. Restore_Reconciler,
    Machine_Reconciler: the rest of it, with the permissions of a restore, the validation
    of a machine, and the schedule, which loses no activation.
  \<^item> Volume_Snapshots: internal/snapshot. Certificates, Credentials: internal/tlsutil,
    controlgrpc/tls.go and controller/credentials.go over an abstract x509, whose laws are the
    predicate \<open>crypto_laws\<close>. Metrics: metrics/recorder.go.
  \<^item> Rsync: dataplane/rsync.go, arguments and the parsing of what rsync prints. Command_Flags:
    package flag and the options of the three commands; what Builders writes is what they read.
    Control_Client, Target_Process, Source_Process: dataplane/controlclient.go and the commands
    serve-target, send-source and restore of cli.go, with what they report in every outcome.
  \<^item> Control_Server: the methods of controlgrpc/server.go, where a peer acts only for the run
    in its certificate. Manager_Setup: manager/control_tls.go and image.go. Run_Trust puts
    Manager_Setup, Credentials, Control_Client and Control_Server together: at which times the
    processes of a run reach the operator, and as whom.
  \<^item> Live_Api: liveapi/server.go. Requests only read, a request that names a namespace shows
    nothing of another, and no file outside the page is served.

  \<^bold>\<open>Conventions, bounds and fuel.\<close>
  A Go string is a byte string; \<open>strings.ToLower\<close> and \<open>unicode.IsSpace\<close> are those of
  ASCII. Integers of fixed width that can overflow in the program are words or
  carry their range as a hypothesis. A pointer that the code tests is an \<open>option\<close>.
  Path resolution follows at most 40 symbolic links, as Linux does, and its
  recursion is bounded by that number. The JSON parser has the nesting limit 10000
  of encoding/json, and fuel \<open>2 * length + 2\<close>, which is enough because every call
  consumes a byte or returns; the round trip theorem shows it for headers. A
  handler reads the clock once. A function that waits for a peer that never comes
  returns \<open>None\<close>.

  The retries of a conflict and of the guard lease are bounded as in the source. Commands that
  the source runs beside each other (receiver and command stream of a target, rsync and its
  bridge) are lists of happenings in the order in which they take effect, and the theorems
  hold for every such list. The search for a due activation stops after 10000 steps, as in
  the source; Machine_Reconciler says when this is enough.

  \<^bold>\<open>Parameters.\<close> The rsync process at the end of a connection (\<open>tunnel\<close>) and the output of
  the rsync process, free space of the device, \<open>resource.ParseQuantity\<close>, the name checks of
  k8s.io/apimachinery, the API server behind the client of controller-runtime, crypto/x509 and
  encoding/pem (\<open>crypto\<close>), the schedule of robfig/cron, the outcome of TLS handshakes and of
  connections, and the JSON of an event in a stream are arguments of the definitions that use
  them.

  \<^bold>\<open>Not modelled.\<close> Logging and usage texts; the wiring of controller-runtime, net/http and
  gRPC (SetupWithManager, manager.go, listeners, the codec, registration of metrics), which
  only connects the parts above; deep copies and scheme registration, which are generated or
  of that form; the test harness, and the generator of the reference pages under hack/.
\<close>

end
